(* ===== verification/CRM_Prelude.thy ===== *)
theory CRM_Prelude
  imports Complex_Main "HOL-Library.Multiset"
begin

text \<open>
  Shared vocabulary of the development: identifiers, clock readings, Go's signed 64-bit
  arithmetic, Go's error values and the generic facts on lists and sums that the component
  theories use.

  \<^item> A \<open>uuid\<close> is a number, \<open>uuid_nil\<close> (zero) is Go's \<^verbatim>\<open>uuid.Nil\<close>.
  \<^item> A \<open>time\<close> is an instant in nanoseconds, a \<open>duration\<close> a signed number of nanoseconds.
  \<^item> A Go \<^verbatim>\<open>string\<close> is a byte string, Isabelle's \<open>string\<close> (a list of 8-bit characters), so
    \<open>length\<close> is Go's \<^verbatim>\<open>len\<close>.
  \<^item> \<^verbatim>\<open>int64\<close> values are integers; every addition or subtraction the code performs on them is
    written \<open>wrap64 (a + b)\<close>, the two's complement result.
\<close>

section \<open>Identifiers and time\<close>

type_synonym uuid = nat
type_synonym time = int
type_synonym duration = int

abbreviation (input) uuid_nil :: uuid where
  "uuid_nil \<equiv> 0"

section \<open>Signed 64-bit arithmetic\<close>

definition max_i64 :: int where
  "max_i64 = 9223372036854775807"

definition min_i64 :: int where
  "min_i64 = - 9223372036854775808"

definition wrap64 :: "int \<Rightarrow> int" where
  "wrap64 x = (x + 9223372036854775808) mod 18446744073709551616 - 9223372036854775808"

definition in_i64 :: "int \<Rightarrow> bool" where
  "in_i64 x \<longleftrightarrow> min_i64 \<le> x \<and> x \<le> max_i64"

named_theorems i64 "the definitions of the 64-bit bounds"
named_theorems field_simps_of_ops "what an operation does to the fields of its record"

lemmas i64_defs [i64] = max_i64_def min_i64_def in_i64_def

lemma wrap64_id: "in_i64 x \<Longrightarrow> wrap64 x = x"
  by (simp add: wrap64_def i64)

lemma wrap64_in_i64: "in_i64 (wrap64 x)"
proof -
  have "0 \<le> (x + 9223372036854775808) mod 18446744073709551616"
    and "(x + 9223372036854775808) mod 18446744073709551616 < (18446744073709551616::int)"
    by simp_all
  then show ?thesis by (simp add: wrap64_def i64)
qed

lemma wrap64_wrap64_add: "wrap64 (wrap64 x + y) = wrap64 (x + y)"
proof -
  have "((x + 9223372036854775808) mod 18446744073709551616 + y) mod 18446744073709551616
      = (x + 9223372036854775808 + y) mod (18446744073709551616::int)"
    by (simp add: mod_add_left_eq)
  then show ?thesis by (simp add: wrap64_def algebra_simps)
qed

lemma wrap64_nonneg: "0 \<le> x \<Longrightarrow> x \<le> max_i64 \<Longrightarrow> wrap64 x = x"
  by (simp add: wrap64_def i64)

lemma wrap64_eq_nat:
  assumes "wrap64 (int m) = wrap64 (int n)" and "int m \<le> max_i64" and "int n \<le> max_i64"
  shows "m = n"
  using assms by (simp add: wrap64_nonneg)

text \<open>
  \<^verbatim>\<open>time.Time.Sub\<close> saturates at the bounds of \<^verbatim>\<open>time.Duration\<close>, an \<^verbatim>\<open>int64\<close>;
  \<^verbatim>\<open>t.After(u)\<close> and \<^verbatim>\<open>t.Add(d)\<close> are exact.
\<close>

definition time_sub :: "time \<Rightarrow> time \<Rightarrow> duration" where
  "time_sub t u = max min_i64 (min max_i64 (t - u))"

lemma time_sub_ge_iff: "d \<le> max_i64 \<Longrightarrow> min_i64 < d \<Longrightarrow> d \<le> time_sub t u \<longleftrightarrow> d \<le> t - u"
  by (auto simp: time_sub_def)

text \<open>Go's integer division truncates towards zero.\<close>

definition go_div :: "int \<Rightarrow> int \<Rightarrow> int" where
  "go_div a b = sgn a * sgn b * (\<bar>a\<bar> div \<bar>b\<bar>)"

lemma go_div_nonneg: "0 \<le> a \<Longrightarrow> 0 < b \<Longrightarrow> go_div a b = a div b"
  by (cases "a = 0") (auto simp: go_div_def)

text \<open>
  \<^verbatim>\<open>int64(f)\<close> of a floating-point value truncates towards zero; a value outside the range becomes the
  smallest \<^verbatim>\<open>int64\<close> (the result on amd64).
\<close>

definition go_int64 :: "rat \<Rightarrow> int" where
  "go_int64 r = (let t = (if r < 0 then \<lceil>r\<rceil> else \<lfloor>r\<rfloor>) in if in_i64 t then t else min_i64)"

text \<open>
  \<^verbatim>\<open>encoding/json\<close> decodes every number into a \<^verbatim>\<open>float64\<close>: an integer keeps its 53 leading bits, rounded to
  nearest with ties to even. Up to \<open>2 ^ 53\<close> that is the integer itself.
\<close>

fun bit_count :: "nat \<Rightarrow> nat" where
  "bit_count n = (if n = 0 then 0 else Suc (bit_count (n div 2)))"

declare bit_count.simps [simp del]

definition float64_of_int :: "int \<Rightarrow> int" where
  "float64_of_int n =
     (if \<bar>n\<bar> \<le> 9007199254740992 then n
      else let k = bit_count (nat \<bar>n\<bar>) - 53; q = \<bar>n\<bar> div 2 ^ k; r = \<bar>n\<bar> mod 2 ^ k; half = 2 ^ (k - 1) in
           sgn n * (if r > half \<or> r = half \<and> odd q then q + 1 else q) * 2 ^ k)"

lemma float64_of_int_exact [simp]: "\<bar>n\<bar> \<le> 9007199254740992 \<Longrightarrow> float64_of_int n = n"
  by (simp add: float64_of_int_def)

section \<open>Go error values\<close>

text \<open>
  An error is a package sentinel (\<^verbatim>\<open>var ErrX = errors.New\<close>), a \<^verbatim>\<open>fmt.Errorf("...: %w", err)\<close>
  around another error, or an error the package does not name (a driver or transport
  failure). \<open>errors_is\<close> is \<^verbatim>\<open>errors.Is\<close>: it looks through the wrapping.
\<close>

datatype 'e goerr = Sentinel 'e | Wrapped string "'e goerr" | Opaque string

fun errors_is :: "'e goerr \<Rightarrow> 'e \<Rightarrow> bool" where
  "errors_is (Sentinel e) s = (e = s)"
| "errors_is (Wrapped msg e) s = errors_is e s"
| "errors_is (Opaque msg) s = False"

type_synonym ('e, 'a) result = "'e goerr + 'a"

definition is_ok :: "('e, 'a) result \<Rightarrow> bool" where
  "is_ok r = (case r of Inl _ \<Rightarrow> False | Inr _ \<Rightarrow> True)"

lemma is_ok_simps [simp]: "is_ok (Inr x)" "\<not> is_ok (Inl e)"
  by (simp_all add: is_ok_def)

lemma is_ok_iff: "is_ok r \<longleftrightarrow> (\<exists>x. r = Inr x)"
  by (cases r) auto

section \<open>Lists\<close>

lemma find_map_if:
  assumes "\<And>x. P x \<Longrightarrow> Q x \<longleftrightarrow> Q (f x)" and "\<And>x. P x \<Longrightarrow> Q x"
  shows "find P (map (\<lambda>x. if Q x then f x else x) xs)
       = find P (map f (filter Q xs))"
proof (induction xs)
  case Nil
  show ?case by simp
next
  case (Cons x xs)
  then show ?case using assms by (cases "Q x") auto
qed

lemma find_append: "find P (xs @ ys) = (case find P xs of Some x \<Rightarrow> Some x | None \<Rightarrow> find P ys)"
  by (induction xs) auto

lemma find_Some_iff_distinct:
  assumes "distinct (map f xs)"
  shows "find (\<lambda>x. f x = k) xs = Some x \<longleftrightarrow> x \<in> set xs \<and> f x = k"
  using assms by (induction xs) force+

lemma find_SomeD: "find P xs = Some x \<Longrightarrow> x \<in> set xs \<and> P x"
  by (induction xs) (auto split: if_splits)

lemma find_NoneD: "find P xs = None \<Longrightarrow> x \<in> set xs \<Longrightarrow> \<not> P x"
  by (induction xs) (auto split: if_splits)

lemma sum_list_filter_split:
  "(\<Sum>x\<leftarrow>xs. f x) = (\<Sum>x\<leftarrow>filter P xs. f x) + (\<Sum>x\<leftarrow>filter (\<lambda>x. \<not> P x) xs. f x :: int)"
  by (induction xs) auto

lemma sum_list_nonneg_map: "(\<And>x. x \<in> set xs \<Longrightarrow> 0 \<le> f x) \<Longrightarrow> 0 \<le> (\<Sum>x\<leftarrow>xs. f x :: int)"
  by (induction xs) auto

lemma sum_list_map_sort_key: "(\<Sum>x\<leftarrow>sort_key k xs. f x) = (\<Sum>x\<leftarrow>xs. f x :: int)"
  by (simp flip: sum_mset_sum_list)

text \<open>The head of a stable sort, as \<^verbatim>\<open>ORDER BY ... LIMIT 1\<close> returns it.\<close>

lemma sort_key_first:
  assumes "x \<in> set xs"
  obtains y ys where "sort_key k xs = y # ys" "y \<in> set xs" "k y \<le> (k x :: 'k :: linorder)"
proof -
  have set: "set (sort_key k xs) = set xs" by simp
  then obtain y ys where s: "sort_key k xs = y # ys" using assms by (cases "sort_key k xs") auto
  moreover have "y \<in> set xs" using set s by auto
  moreover have "k y \<le> k x" using assms set sorted_sort_key [of k xs] unfolding s by auto
  ultimately show thesis by (rule that)
qed

end
