(* ===== verification/Wallet.thy ===== *)
theory Wallet
  imports CRM_Prelude
begin

text \<open>
  The token-economy domain, \<^verbatim>\<open>src/internal/wallet\<close>: the \<^verbatim>\<open>TokenWallet\<close> aggregate and its
  four mutations, the ledger vocabulary, the \<^verbatim>\<open>MasterGrant\<close> state machine and the pure core
  of the reservation reconciler. A Go method that mutates its receiver and returns an
  \<^verbatim>\<open>error\<close> is a function from the receiver to a result: \<open>Inr\<close> of the new receiver, or
  \<open>Inl\<close> of the error, in which case the receiver is unchanged.
\<close>

section \<open>Errors\<close>

datatype wallet_sentinel =
    wallet_ErrInsufficientFunds
  | wallet_ErrNotFound
  | wallet_ErrIdempotencyConflict
  | wallet_ErrInvalidAmount
  | wallet_ErrEmptyIdempotencyKey
  | wallet_ErrIdempotencyKeyTooLong
  | wallet_ErrZeroTenant
  | wallet_ErrReservationCompleted
  | wallet_ErrVersionConflict
  | wallet_ErrZeroActor
  | wallet_ErrInvalidGrantKind
  | wallet_ErrGrantReasonTooShort
  | wallet_ErrGrantAlreadyConsumed
  | wallet_ErrGrantAlreadyRevoked
  | wallet_ErrCourtesyGrantDisabled
  | wallet_ErrInvalidGrantPayload

type_synonym 'a wresult = "(wallet_sentinel, 'a) result"

abbreviation werr :: "wallet_sentinel \<Rightarrow> 'a wresult" where
  "werr e \<equiv> Inl (Sentinel e)"

section \<open>The wallet aggregate\<close>

record TokenWallet =
  tw_id :: uuid
  tw_tenantID :: uuid
  tw_balance :: int
  tw_reserved :: int
  tw_version :: int
  tw_createdAt :: time
  tw_updatedAt :: time

definition hydrate :: "uuid \<Rightarrow> uuid \<Rightarrow> int \<Rightarrow> int \<Rightarrow> int \<Rightarrow> time \<Rightarrow> time \<Rightarrow> TokenWallet" where
  "hydrate i t bal res ver c u =
     \<lparr>tw_id = i, tw_tenantID = t, tw_balance = bal, tw_reserved = res, tw_version = ver,
      tw_createdAt = c, tw_updatedAt = u\<rparr>"

text \<open>\<open>fresh\<close> is the value \<^verbatim>\<open>uuid.New()\<close> returned.\<close>

definition wallet_New :: "uuid \<Rightarrow> uuid \<Rightarrow> time \<Rightarrow> TokenWallet wresult" where
  "wallet_New fresh tenantID now =
     (if tenantID = uuid_nil then werr wallet_ErrZeroTenant
      else Inr \<lparr>tw_id = fresh, tw_tenantID = tenantID, tw_balance = 0, tw_reserved = 0,
                tw_version = 0, tw_createdAt = now, tw_updatedAt = now\<rparr>)"

definition Available :: "TokenWallet \<Rightarrow> int" where
  "Available w = wrap64 (tw_balance w - tw_reserved w)"

definition wallet_Reserve :: "TokenWallet \<Rightarrow> int \<Rightarrow> time \<Rightarrow> TokenWallet wresult" where
  "wallet_Reserve w amount now =
     (if amount \<le> 0 then werr wallet_ErrInvalidAmount
      else if wrap64 (tw_balance w - tw_reserved w) < amount then werr wallet_ErrInsufficientFunds
      else Inr (w\<lparr>tw_reserved := wrap64 (tw_reserved w + amount),
                  tw_version := wrap64 (tw_version w + 1), tw_updatedAt := now\<rparr>))"

definition wallet_Commit :: "TokenWallet \<Rightarrow> int \<Rightarrow> int \<Rightarrow> time \<Rightarrow> TokenWallet wresult" where
  "wallet_Commit w commitAmount reservedAtCall now =
     (if commitAmount \<le> 0 then werr wallet_ErrInvalidAmount
      else if reservedAtCall \<le> 0 then werr wallet_ErrInvalidAmount
      else if commitAmount > reservedAtCall then werr wallet_ErrInvalidAmount
      else if tw_reserved w < reservedAtCall then werr wallet_ErrVersionConflict
      else Inr (w\<lparr>tw_balance := wrap64 (tw_balance w - commitAmount),
                  tw_reserved := wrap64 (tw_reserved w - reservedAtCall),
                  tw_version := wrap64 (tw_version w + 1), tw_updatedAt := now\<rparr>))"

definition wallet_Release :: "TokenWallet \<Rightarrow> int \<Rightarrow> time \<Rightarrow> TokenWallet wresult" where
  "wallet_Release w amount now =
     (if amount \<le> 0 then werr wallet_ErrInvalidAmount
      else if tw_reserved w < amount then werr wallet_ErrVersionConflict
      else Inr (w\<lparr>tw_reserved := wrap64 (tw_reserved w - amount),
                  tw_version := wrap64 (tw_version w + 1), tw_updatedAt := now\<rparr>))"

definition wallet_Grant :: "TokenWallet \<Rightarrow> int \<Rightarrow> time \<Rightarrow> TokenWallet wresult" where
  "wallet_Grant w amount now =
     (if amount \<le> 0 then werr wallet_ErrInvalidAmount
      else if amount > wrap64 (max_i64 - tw_balance w) then werr wallet_ErrInvalidAmount
      else Inr (w\<lparr>tw_balance := wrap64 (tw_balance w + amount),
                  tw_version := wrap64 (tw_version w + 1), tw_updatedAt := now\<rparr>))"

lemmas wallet_op_defs =
  wallet_Reserve_def wallet_Commit_def wallet_Release_def wallet_Grant_def

text \<open>The three documented invariants, with the bounds of the column type.\<close>

definition wallet_ok :: "TokenWallet \<Rightarrow> bool" where
  "wallet_ok w \<longleftrightarrow> 0 \<le> tw_reserved w \<and> tw_reserved w \<le> tw_balance w \<and> tw_balance w \<le> max_i64"

section \<open>The ledger vocabulary\<close>

datatype LedgerKind = KindReserve | KindCommit | KindRelease | KindGrant | KindOther string

datatype LedgerSource = SourceUnset | SourceConsumption | SourceMonthlyAlloc | SourceMasterGrant

record LedgerEntry =
  le_ID :: uuid
  le_WalletID :: uuid
  le_TenantID :: uuid
  le_Kind :: LedgerKind
  le_Amount :: int
  le_IdempotencyKey :: string
  le_ExternalRef :: string
  le_Source :: LedgerSource
  le_MasterGrantID :: "uuid option"
  le_OccurredAt :: time
  le_CreatedAt :: time

record Reservation =
  rv_ID :: uuid
  rv_WalletID :: uuid
  rv_TenantID :: uuid
  rv_Amount :: int
  rv_IdempotencyKey :: string
  rv_CreatedAt :: time

fun SignedAmount :: "LedgerKind \<Rightarrow> int \<Rightarrow> int" where
  "SignedAmount KindReserve m = wrap64 (- m)"
| "SignedAmount KindCommit m = wrap64 (- m)"
| "SignedAmount KindRelease m = m"
| "SignedAmount KindGrant m = m"
| "SignedAmount (KindOther s) m = m"

section \<open>Master grants\<close>

datatype MasterGrantKind = KindFreeSubscriptionPeriod | KindExtraTokens | GrantKindOther string

text \<open>
  \<^verbatim>\<open>map[string]any\<close>: the payload of a grant. The dynamic types \<^verbatim>\<open>readInt64Payload\<close>
  distinguishes are the integer kinds and the floating-point kinds (a payload is a JSON document, so
  the value is a finite number); every other dynamic type is \<open>AnyOther\<close>.
\<close>

datatype any = AnyInt int | AnyFloat rat | AnyOther

record MasterGrant =
  mg_id :: uuid
  mg_externalID :: string
  mg_tenantID :: uuid
  mg_kind :: MasterGrantKind
  mg_payload :: "(string \<times> any) list"
  mg_reason :: string
  mg_createdByUserID :: uuid
  mg_createdAt :: time
  mg_consumedAt :: "time option"
  mg_consumedRef :: string
  mg_revokedAt :: "time option"
  mg_revokedByUserID :: "uuid option"
  mg_revokeReason :: string

definition NewMasterGrant ::
  "uuid \<Rightarrow> string \<Rightarrow> uuid \<Rightarrow> uuid \<Rightarrow> MasterGrantKind \<Rightarrow> (string \<times> any) list \<Rightarrow> string \<Rightarrow> time
   \<Rightarrow> MasterGrant wresult" where
  "NewMasterGrant fresh ulid tenantID createdBy kind payload reason now =
     (if tenantID = uuid_nil then werr wallet_ErrZeroTenant
      else if createdBy = uuid_nil then werr wallet_ErrZeroActor
      else if kind \<noteq> KindFreeSubscriptionPeriod \<and> kind \<noteq> KindExtraTokens
        then werr wallet_ErrInvalidGrantKind
      else if length reason < 10 then werr wallet_ErrGrantReasonTooShort
      else Inr \<lparr>mg_id = fresh, mg_externalID = ulid, mg_tenantID = tenantID, mg_kind = kind,
                mg_payload = payload, mg_reason = reason, mg_createdByUserID = createdBy,
                mg_createdAt = now, mg_consumedAt = None, mg_consumedRef = '''',
                mg_revokedAt = None, mg_revokedByUserID = None, mg_revokeReason = ''''\<rparr>)"

definition IsRevoked :: "MasterGrant \<Rightarrow> bool" where
  "IsRevoked g \<longleftrightarrow> mg_revokedAt g \<noteq> None"

definition IsConsumed :: "MasterGrant \<Rightarrow> bool" where
  "IsConsumed g \<longleftrightarrow> mg_consumedAt g \<noteq> None"

definition grant_Revoke :: "MasterGrant \<Rightarrow> uuid \<Rightarrow> string \<Rightarrow> time \<Rightarrow> MasterGrant wresult" where
  "grant_Revoke g revokedBy revokeReason now =
     (if mg_consumedAt g \<noteq> None then werr wallet_ErrGrantAlreadyConsumed
      else if mg_revokedAt g \<noteq> None then werr wallet_ErrGrantAlreadyRevoked
      else if revokedBy = uuid_nil then werr wallet_ErrZeroActor
      else if length revokeReason < 10 then werr wallet_ErrGrantReasonTooShort
      else Inr (g\<lparr>mg_revokedAt := Some now, mg_revokedByUserID := Some revokedBy,
                  mg_revokeReason := revokeReason\<rparr>))"

definition grant_Consume :: "MasterGrant \<Rightarrow> string \<Rightarrow> time \<Rightarrow> MasterGrant wresult" where
  "grant_Consume g ref now =
     (if mg_revokedAt g \<noteq> None then werr wallet_ErrGrantAlreadyRevoked
      else if mg_consumedAt g \<noteq> None then werr wallet_ErrGrantAlreadyConsumed
      else Inr (g\<lparr>mg_consumedAt := Some now, mg_consumedRef := ref\<rparr>))"

text \<open>What the two transitions keep: consumed and revoked exclude each other.\<close>

definition grant_ok :: "MasterGrant \<Rightarrow> bool" where
  "grant_ok g \<longleftrightarrow> \<not> (IsRevoked g \<and> IsConsumed g) \<and>
     (IsRevoked g \<longrightarrow> mg_revokedByUserID g \<noteq> None \<and> length (mg_revokeReason g) \<ge> 10)"

section \<open>The reservation reconciler\<close>

definition DefaultMaxReservationAge :: duration where
  "DefaultMaxReservationAge = 5 * 60 * 1000000000"

record OrphanReservation =
  or_WalletID :: uuid
  or_TenantID :: uuid
  or_ReservationID :: uuid
  or_Amount :: int
  or_IdempotencyKey :: string
  or_ReservedAt :: time

text \<open>
  \<open>uparse\<close> stands for \<^verbatim>\<open>uuid.Parse\<close> of the third-party package. A \<^verbatim>\<open>nil\<close> and an empty slice are
  the same list.
\<close>

fun FindOrphanReservations ::
  "(string \<Rightarrow> uuid option) \<Rightarrow> LedgerEntry list \<Rightarrow> time \<Rightarrow> duration \<Rightarrow> OrphanReservation list" where
  "FindOrphanReservations uparse [] now maxAge = []"
| "FindOrphanReservations uparse (e # es) now maxAge =
     (if le_Kind e \<noteq> KindReserve then FindOrphanReservations uparse es now maxAge
      else if time_sub now (le_OccurredAt e) < maxAge
        then FindOrphanReservations uparse es now maxAge
      else case uparse (le_ExternalRef e) of
             None \<Rightarrow> FindOrphanReservations uparse es now maxAge
           | Some rid \<Rightarrow>
               \<lparr>or_WalletID = le_WalletID e, or_TenantID = le_TenantID e,
                or_ReservationID = rid, or_Amount = wrap64 (- le_Amount e),
                or_IdempotencyKey = le_IdempotencyKey e, or_ReservedAt = le_OccurredAt e\<rparr>
               # FindOrphanReservations uparse es now maxAge)"

section \<open>Facts about the aggregate\<close>

lemma wallet_ok_bounds:
  "wallet_ok w \<Longrightarrow> in_i64 (tw_balance w - tw_reserved w)"
  "wallet_ok w \<Longrightarrow> in_i64 (max_i64 - tw_balance w)"
  "wallet_ok w \<Longrightarrow> in_i64 (tw_balance w)"
  "wallet_ok w \<Longrightarrow> in_i64 (tw_reserved w)"
  by (auto simp: wallet_ok_def i64)

lemma Available_eq: "wallet_ok w \<Longrightarrow> Available w = tw_balance w - tw_reserved w"
  by (simp add: Available_def wrap64_id wallet_ok_bounds)

text \<open>
  On a well-formed wallet no operation wraps around: each equals its description over the
  integers. These are the equations the use cases and the store reason with.
\<close>

lemma wallet_Reserve_ok:
  assumes "wallet_ok w"
  shows "wallet_Reserve w amount now = Inr w' \<longleftrightarrow>
    0 < amount \<and> amount \<le> tw_balance w - tw_reserved w \<and>
    w' = w\<lparr>tw_reserved := tw_reserved w + amount, tw_version := wrap64 (tw_version w + 1),
           tw_updatedAt := now\<rparr>"
proof -
  have "wrap64 (tw_balance w - tw_reserved w) = tw_balance w - tw_reserved w"
    by (simp add: wrap64_id wallet_ok_bounds assms)
  moreover have "wrap64 (tw_reserved w + amount) = tw_reserved w + amount"
    if "0 < amount" "amount \<le> tw_balance w - tw_reserved w"
    using assms that by (simp add: wallet_ok_def wrap64_nonneg)
  ultimately show ?thesis by (auto simp: wallet_Reserve_def)
qed

lemma wallet_Commit_ok:
  assumes "wallet_ok w"
  shows "wallet_Commit w c r now = Inr w' \<longleftrightarrow>
    0 < c \<and> c \<le> r \<and> r \<le> tw_reserved w \<and>
    w' = w\<lparr>tw_balance := tw_balance w - c, tw_reserved := tw_reserved w - r,
           tw_version := wrap64 (tw_version w + 1), tw_updatedAt := now\<rparr>"
proof -
  have "wrap64 (tw_balance w - c) = tw_balance w - c \<and> wrap64 (tw_reserved w - r) = tw_reserved w - r"
    if "0 < c" "c \<le> r" "r \<le> tw_reserved w"
    using assms that by (simp add: wallet_ok_def wrap64_nonneg)
  then show ?thesis by (auto simp: wallet_Commit_def)
qed

lemma wallet_Release_ok:
  assumes "wallet_ok w"
  shows "wallet_Release w amount now = Inr w' \<longleftrightarrow>
    0 < amount \<and> amount \<le> tw_reserved w \<and>
    w' = w\<lparr>tw_reserved := tw_reserved w - amount, tw_version := wrap64 (tw_version w + 1),
           tw_updatedAt := now\<rparr>"
proof -
  have "wrap64 (tw_reserved w - amount) = tw_reserved w - amount"
    if "0 < amount" "amount \<le> tw_reserved w"
    using assms that by (simp add: wallet_ok_def wrap64_nonneg)
  then show ?thesis by (auto simp: wallet_Release_def)
qed

lemma wallet_Grant_ok:
  assumes "wallet_ok w"
  shows "wallet_Grant w amount now = Inr w' \<longleftrightarrow>
    0 < amount \<and> tw_balance w + amount \<le> max_i64 \<and>
    w' = w\<lparr>tw_balance := tw_balance w + amount, tw_version := wrap64 (tw_version w + 1),
           tw_updatedAt := now\<rparr>"
proof -
  have "wrap64 (max_i64 - tw_balance w) = max_i64 - tw_balance w"
    by (simp add: wrap64_id wallet_ok_bounds assms)
  moreover have "wrap64 (tw_balance w + amount) = tw_balance w + amount"
    if "0 < amount" "tw_balance w + amount \<le> max_i64"
    using assms that by (simp add: wallet_ok_def wrap64_nonneg)
  ultimately show ?thesis by (auto simp: wallet_Grant_def)
qed

lemmas wallet_ops_ok = wallet_Reserve_ok wallet_Commit_ok wallet_Release_ok wallet_Grant_ok

text \<open>The fields no mutation writes, and the version stamp every mutation bumps.\<close>

lemma wallet_ops_frame [field_simps_of_ops]:
  "wallet_Reserve w a now = Inr w' \<Longrightarrow> tw_id w' = tw_id w \<and> tw_tenantID w' = tw_tenantID w \<and>
     tw_version w' = wrap64 (tw_version w + 1)"
  "wallet_Commit w c r now = Inr w' \<Longrightarrow> tw_id w' = tw_id w \<and> tw_tenantID w' = tw_tenantID w \<and>
     tw_version w' = wrap64 (tw_version w + 1)"
  "wallet_Release w a now = Inr w' \<Longrightarrow> tw_id w' = tw_id w \<and> tw_tenantID w' = tw_tenantID w \<and>
     tw_version w' = wrap64 (tw_version w + 1)"
  "wallet_Grant w a now = Inr w' \<Longrightarrow> tw_id w' = tw_id w \<and> tw_tenantID w' = tw_tenantID w \<and>
     tw_version w' = wrap64 (tw_version w + 1)"
  by (auto simp: wallet_op_defs split: if_splits)

lemma wallet_ops_preserve:
  assumes "wallet_ok w"
  shows "wallet_Reserve w a now = Inr w' \<Longrightarrow> wallet_ok w'"
    and "wallet_Commit w c r now = Inr w' \<Longrightarrow> wallet_ok w'"
    and "wallet_Release w a now = Inr w' \<Longrightarrow> wallet_ok w'"
    and "wallet_Grant w a now = Inr w' \<Longrightarrow> wallet_ok w'"
  using assms by (auto simp: wallet_ops_ok wallet_ok_def)

lemma SignedAmount_pos: "0 \<le> m \<Longrightarrow> m \<le> max_i64 \<Longrightarrow> SignedAmount KindReserve m = - m"
  "0 \<le> m \<Longrightarrow> m \<le> max_i64 \<Longrightarrow> SignedAmount KindCommit m = - m"
  by (simp_all add: wrap64_id i64)

end
