(* ===== verification/Billing.thy ===== *)
theory Billing
  imports CRM_Prelude
begin

text \<open>
  The subscription and invoicing domain, \<^verbatim>\<open>src/internal/billing\<close>: the \<^verbatim>\<open>Subscription\<close> and
  \<^verbatim>\<open>Invoice\<close> aggregates with their constructors and state transitions.
\<close>

section \<open>Errors\<close>

datatype billing_sentinel =
    billing_ErrInvalidTransition
  | billing_ErrInvoiceAlreadyExists
  | billing_ErrNotFound
  | billing_ErrZeroTenant
  | billing_ErrCancelReasonTooShort

type_synonym 'a bresult = "(billing_sentinel, 'a) result"

abbreviation berr :: "billing_sentinel \<Rightarrow> 'a bresult" where
  "berr e \<equiv> Inl (Sentinel e)"

section \<open>Plans\<close>

record Plan =
  pl_ID :: uuid
  pl_Slug :: string
  pl_Name :: string
  pl_PriceCentsBRL :: int
  pl_MonthlyTokenQuota :: int

section \<open>Subscriptions\<close>

datatype SubscriptionStatus =
  SubscriptionStatusActive | SubscriptionStatusCancelled | SubscriptionStatusOther string

record Subscription =
  sub_id :: uuid
  sub_tenantID :: uuid
  sub_planID :: uuid
  sub_status :: SubscriptionStatus
  sub_currentPeriodStart :: time
  sub_currentPeriodEnd :: time
  sub_createdAt :: time
  sub_updatedAt :: time

definition NewSubscription ::
  "uuid \<Rightarrow> uuid \<Rightarrow> uuid \<Rightarrow> time \<Rightarrow> time \<Rightarrow> time \<Rightarrow> Subscription bresult" where
  "NewSubscription fresh tenantID planID periodStart periodEnd now =
     (if tenantID = uuid_nil then berr billing_ErrZeroTenant
      else if planID = uuid_nil then berr billing_ErrInvalidTransition
      else if \<not> periodEnd > periodStart then berr billing_ErrInvalidTransition
      else Inr \<lparr>sub_id = fresh, sub_tenantID = tenantID, sub_planID = planID,
                sub_status = SubscriptionStatusActive, sub_currentPeriodStart = periodStart,
                sub_currentPeriodEnd = periodEnd, sub_createdAt = now, sub_updatedAt = now\<rparr>)"

definition subscription_Cancel :: "Subscription \<Rightarrow> time \<Rightarrow> Subscription bresult" where
  "subscription_Cancel s now =
     (if sub_status s \<noteq> SubscriptionStatusActive then berr billing_ErrInvalidTransition
      else Inr (s\<lparr>sub_status := SubscriptionStatusCancelled, sub_updatedAt := now\<rparr>))"

definition ExtendPeriod :: "Subscription \<Rightarrow> duration \<Rightarrow> time \<Rightarrow> Subscription bresult" where
  "ExtendPeriod s dur now =
     (if dur \<le> 0 then berr billing_ErrInvalidTransition
      else if sub_status s \<noteq> SubscriptionStatusActive then berr billing_ErrInvalidTransition
      else Inr (s\<lparr>sub_currentPeriodEnd := sub_currentPeriodEnd s + dur, sub_updatedAt := now\<rparr>))"

text \<open>The CHECK \<^verbatim>\<open>subscription_period_order\<close> of migration 0097, which the constructor also enforces.\<close>

definition subscription_ok :: "Subscription \<Rightarrow> bool" where
  "subscription_ok s \<longleftrightarrow> sub_currentPeriodStart s < sub_currentPeriodEnd s
     \<and> sub_tenantID s \<noteq> uuid_nil \<and> sub_planID s \<noteq> uuid_nil"

section \<open>Invoices\<close>

datatype InvoiceState =
  InvoiceStatePending | InvoiceStatePaid | InvoiceStateCancelledByMaster

record Invoice =
  inv_id :: uuid
  inv_tenantID :: uuid
  inv_subscriptionID :: uuid
  inv_periodStart :: time
  inv_periodEnd :: time
  inv_amountCentsBRL :: int
  inv_state :: InvoiceState
  inv_cancelledReason :: string
  inv_createdAt :: time
  inv_updatedAt :: time

definition NewInvoice ::
  "uuid \<Rightarrow> uuid \<Rightarrow> uuid \<Rightarrow> time \<Rightarrow> time \<Rightarrow> int \<Rightarrow> time \<Rightarrow> Invoice bresult" where
  "NewInvoice fresh tenantID subscriptionID periodStart periodEnd amount now =
     (if tenantID = uuid_nil then berr billing_ErrZeroTenant
      else if subscriptionID = uuid_nil then berr billing_ErrInvalidTransition
      else if \<not> periodEnd > periodStart then berr billing_ErrInvalidTransition
      else if amount < 0 then berr billing_ErrInvalidTransition
      else Inr \<lparr>inv_id = fresh, inv_tenantID = tenantID, inv_subscriptionID = subscriptionID,
                inv_periodStart = periodStart, inv_periodEnd = periodEnd,
                inv_amountCentsBRL = amount, inv_state = InvoiceStatePending,
                inv_cancelledReason = '''', inv_createdAt = now, inv_updatedAt = now\<rparr>)"

definition invoice_MarkPaid :: "Invoice \<Rightarrow> time \<Rightarrow> Invoice bresult" where
  "invoice_MarkPaid i now =
     (if inv_state i \<noteq> InvoiceStatePending then berr billing_ErrInvalidTransition
      else Inr (i\<lparr>inv_state := InvoiceStatePaid, inv_updatedAt := now\<rparr>))"

definition CancelByMaster :: "Invoice \<Rightarrow> string \<Rightarrow> time \<Rightarrow> Invoice bresult" where
  "CancelByMaster i reason now =
     (if inv_state i = InvoiceStateCancelledByMaster then berr billing_ErrInvalidTransition
      else if length reason < 10 then berr billing_ErrCancelReasonTooShort
      else Inr (i\<lparr>inv_state := InvoiceStateCancelledByMaster, inv_cancelledReason := reason,
                  inv_updatedAt := now\<rparr>))"

text \<open>
  The invariant of an invoice: its period is ordered, its amount is not negative, and it carries
  a reason exactly when it is cancelled.
\<close>

definition invoice_ok :: "Invoice \<Rightarrow> bool" where
  "invoice_ok i \<longleftrightarrow> inv_periodStart i < inv_periodEnd i \<and> 0 \<le> inv_amountCentsBRL i \<and>
     (if inv_state i = InvoiceStateCancelledByMaster then 10 \<le> length (inv_cancelledReason i)
      else inv_cancelledReason i = '''')"

text \<open>A transition of the invoice lifecycle, by either of the two mutators.\<close>

inductive invoice_step :: "Invoice \<Rightarrow> Invoice \<Rightarrow> bool" where
  step_paid: "invoice_MarkPaid i now = Inr j \<Longrightarrow> invoice_step i j"
| step_cancelled: "CancelByMaster i reason now = Inr j \<Longrightarrow> invoice_step i j"

section \<open>Facts\<close>

lemma NewSubscription_ok: "NewSubscription f t p a b now = Inr s \<Longrightarrow> subscription_ok s"
  by (auto simp: NewSubscription_def subscription_ok_def split: if_splits)

lemma subscription_ops_preserve:
  assumes "subscription_ok s"
  shows "subscription_Cancel s now = Inr s' \<Longrightarrow> subscription_ok s'"
    and "ExtendPeriod s d now = Inr s' \<Longrightarrow> subscription_ok s'"
  using assms
  by (auto simp: subscription_Cancel_def ExtendPeriod_def subscription_ok_def split: if_splits)

lemma NewInvoice_ok: "NewInvoice f t s a b amt now = Inr i \<Longrightarrow> invoice_ok i"
  by (auto simp: NewInvoice_def invoice_ok_def split: if_splits)

lemma invoice_step_ok: "invoice_step i j \<Longrightarrow> invoice_ok i \<Longrightarrow> invoice_ok j"
  by (induction rule: invoice_step.induct)
    (auto simp: invoice_MarkPaid_def CancelByMaster_def invoice_ok_def split: if_splits)

lemma invoice_step_frame:
  "invoice_step i j \<Longrightarrow> inv_id j = inv_id i \<and> inv_tenantID j = inv_tenantID i \<and>
     inv_periodStart j = inv_periodStart i \<and> inv_periodEnd j = inv_periodEnd i \<and>
     inv_amountCentsBRL j = inv_amountCentsBRL i"
  by (induction rule: invoice_step.induct)
    (auto simp: invoice_MarkPaid_def CancelByMaster_def split: if_splits)

text \<open>Rank of a state in the lifecycle: every step strictly advances, so lifecycles are finite.\<close>

fun invoice_rank :: "InvoiceState \<Rightarrow> nat" where
  "invoice_rank InvoiceStatePending = 0"
| "invoice_rank InvoiceStatePaid = 1"
| "invoice_rank InvoiceStateCancelledByMaster = 2"

lemma invoice_step_rank: "invoice_step i j \<Longrightarrow> invoice_rank (inv_state i) < invoice_rank (inv_state j)"
  by (induction rule: invoice_step.induct; case_tac "inv_state i")
    (auto simp: invoice_MarkPaid_def CancelByMaster_def split: if_splits)

end
