(* ===== verification/Interleaving.thy ===== *)
theory Interleaving
  imports CRM_Prelude
begin

text \<open>
  A use case of the program is a sequence of calls on a shared store, each of them one
  database transaction, with the clock, the random generator and the network in between.
  This theory gives such use cases a type (\<open>prog\<close>), two semantics (a run of one program,
  and the interleaving of any number of them), and the rely/guarantee argument that turns
  facts about single calls into invariants of every interleaving.
\<close>

section \<open>Programs over a shared store\<close>

text \<open>
  \<open>Act f\<close> is one atomic call: the scheduler supplies an call environment, the call maps the store to
  the rest of the program and the new store. Every program is a finite tree, so every run
  ends.
\<close>

datatype ('s, 'o, 'a) prog = Ret 'a | Act "'o \<Rightarrow> 's \<Rightarrow> ('s, 'o, 'a) prog \<times> 's"

text \<open>
  A call can fail before it has an effect, or have its effect and lose the acknowledgement;
  in both cases the caller sees an error that is no package sentinel. \<open>o_now\<close> is what the
  clock reads at the call, \<open>o_ids\<close> what \<^verbatim>\<open>uuid.New()\<close> (and the database's
  \<^verbatim>\<open>gen_random_uuid()\<close>) return during it.
\<close>

datatype fault = NoFault | FailBefore string | FailAfter string

record call_env =
  o_fault :: fault
  o_now :: time
  o_ids :: "nat \<Rightarrow> uuid"

definition query ::
  "('s \<Rightarrow> ('e, 'x) result) \<Rightarrow> (('e, 'x) result \<Rightarrow> ('s, call_env, 'a) prog) \<Rightarrow> ('s, call_env, 'a) prog" where
  "query q k = Act (\<lambda>ev s.
     (case o_fault ev of
        NoFault \<Rightarrow> (k (q s), s)
      | FailBefore m \<Rightarrow> (k (Inl (Opaque m)), s)
      | FailAfter m \<Rightarrow> (k (Inl (Opaque m)), s)))"

definition command ::
  "(call_env \<Rightarrow> 's \<Rightarrow> ('e, 'x \<times> 's) result) \<Rightarrow> (('e, 'x) result \<Rightarrow> ('s, call_env, 'a) prog)
   \<Rightarrow> ('s, call_env, 'a) prog" where
  "command c k = Act (\<lambda>ev s.
     (case o_fault ev of
        FailBefore m \<Rightarrow> (k (Inl (Opaque m)), s)
      | NoFault \<Rightarrow>
          (case c ev s of Inl e \<Rightarrow> (k (Inl e), s) | Inr (x, s') \<Rightarrow> (k (Inr x), s'))
      | FailAfter m \<Rightarrow>
          (k (Inl (Opaque m)), case c ev s of Inl e \<Rightarrow> s | Inr (x, s') \<Rightarrow> s')))"

definition read_clock :: "(time \<Rightarrow> ('s, call_env, 'a) prog) \<Rightarrow> ('s, call_env, 'a) prog" where
  "read_clock k = Act (\<lambda>ev s. (k (o_now ev), s))"

text \<open>A call that only reads the clock and draws identifiers.\<close>

definition draw :: "(call_env \<Rightarrow> ('s, call_env, 'a) prog) \<Rightarrow> ('s, call_env, 'a) prog" where
  "draw k = Act (\<lambda>ev s. (k ev, s))"

section \<open>Runs\<close>

text \<open>\<open>run os p n s\<close>: the run of \<open>p\<close> alone from store \<open>s\<close>, with the call environments \<open>os n, os (n + 1), \<dots>\<close>.\<close>

primrec run :: "('s, 'o, 'a) prog \<Rightarrow> (nat \<Rightarrow> 'o) \<Rightarrow> nat \<Rightarrow> 's \<Rightarrow> 'a \<times> nat \<times> 's" where
  "run (Ret a) = (\<lambda>os n s. (a, n, s))"
| "run (Act f) = (\<lambda>os n s.
     (case map_prod run id (f (os n) s) of (r, s') \<Rightarrow> r os (Suc n) s'))"

definition result_of :: "('s, 'o, 'a) prog \<Rightarrow> (nat \<Rightarrow> 'o) \<Rightarrow> 's \<Rightarrow> 'a" where
  "result_of p os s = fst (run p os 0 s)"

definition store_after :: "('s, 'o, 'a) prog \<Rightarrow> (nat \<Rightarrow> 'o) \<Rightarrow> 's \<Rightarrow> 's" where
  "store_after p os s = snd (snd (run p os 0 s))"

definition quiet :: "(nat \<Rightarrow> call_env) \<Rightarrow> bool" where
  "quiet os \<longleftrightarrow> (\<forall>n. o_fault (os n) = NoFault)"

lemma run_query [simp]:
  "run (query q k) os n s = (case o_fault (os n) of
     NoFault \<Rightarrow> run (k (q s)) os (Suc n) s
   | FailBefore m \<Rightarrow> run (k (Inl (Opaque m))) os (Suc n) s
   | FailAfter m \<Rightarrow> run (k (Inl (Opaque m))) os (Suc n) s)"
  by (simp add: query_def split: fault.splits)

lemma run_command [simp]:
  "run (command c k) os n s = (case o_fault (os n) of
     FailBefore m \<Rightarrow> run (k (Inl (Opaque m))) os (Suc n) s
   | NoFault \<Rightarrow>
       (case c (os n) s of
          Inl e \<Rightarrow> run (k (Inl e)) os (Suc n) s
        | Inr (x, s') \<Rightarrow> run (k (Inr x)) os (Suc n) s')
   | FailAfter m \<Rightarrow> run (k (Inl (Opaque m))) os (Suc n)
       (case c (os n) s of Inl e \<Rightarrow> s | Inr (x, s') \<Rightarrow> s'))"
  by (simp add: command_def split: fault.splits sum.splits prod.splits)

lemma run_read_clock [simp]:
  "run (read_clock k) os n s = run (k (o_now (os n))) os (Suc n) s"
  by (simp add: read_clock_def)

lemma run_draw [simp]: "run (draw k) os n s = run (k (os n)) os (Suc n) s"
  by (simp add: draw_def)

section \<open>Retry loops\<close>

text \<open>
  The shape all optimistic-retry loops of the program share: an attempt is final or asks
  for another attempt with the error to report when the attempts run out.
\<close>

datatype ('e, 'a) attempt = Done "('e, 'a) result" | Retry "'e goerr"

primrec bind_prog :: "('s, 'o, 'a) prog \<Rightarrow> ('a \<Rightarrow> ('s, 'o, 'b) prog) \<Rightarrow> ('s, 'o, 'b) prog" where
  "bind_prog (Ret a) k = k a"
| "bind_prog (Act f) k = Act (\<lambda>ev s. map_prod (\<lambda>p. bind_prog p k) id (f ev s))"

primrec retry_loop ::
  "nat \<Rightarrow> string \<Rightarrow> ('s, 'o, ('e, 'a) attempt) prog \<Rightarrow> 'e goerr \<Rightarrow> ('s, 'o, ('e, 'a) result) prog" where
  "retry_loop 0 msg body lastErr = Ret (Inl (Wrapped msg lastErr))"
| "retry_loop (Suc n) msg body lastErr =
     bind_prog body (\<lambda>a. case a of
       Done r \<Rightarrow> Ret r
     | Retry e \<Rightarrow> retry_loop n msg body e)"

lemma run_bind_prog [simp]:
  "run (bind_prog p k) os n s = (case run p os n s of (a, n', s') \<Rightarrow> run (k a) os n' s')"
proof (induction p arbitrary: n s)
  case (Ret a)
  show ?case by simp
next
  case (Act f)
  obtain p s' where f: "f (os n) s = (p, s')" by (cases "f (os n) s")
  have "p \<in> Basic_BNFs.fsts (f (os n) s)" by (simp add: f)
  then have "run (bind_prog p k) os (Suc n) s'
      = (case run p os (Suc n) s' of (a, n', s'') \<Rightarrow> run (k a) os n' s'')"
    using Act.IH by (metis rangeI)
  then show ?case by (simp add: f)
qed

lemma run_retry_loop_Suc:
  "run (retry_loop (Suc m) msg body e) os n s =
     (case run body os n s of
        (Done r, n', s') \<Rightarrow> (r, n', s')
      | (Retry e', n', s') \<Rightarrow> run (retry_loop m msg body e') os n' s')"
  by (simp split: prod.splits attempt.splits)

section \<open>Rely and guarantee\<close>

text \<open>
  \<open>safe I evolves ok s p\<close>: whatever the others do to the store meanwhile (as long as it
  keeps the invariant and evolves it by \<open>evolves\<close>), and whatever admissible environment each call
  gets, every call \<open>p\<close> makes from \<open>s\<close> on keeps the invariant and evolves the store by
  \<open>evolves\<close>, and a final result satisfies the postcondition \<open>Q\<close> in the store it is returned in.
\<close>

inductive safe ::
  "('s \<Rightarrow> bool) \<Rightarrow> ('s \<Rightarrow> 's \<Rightarrow> bool) \<Rightarrow> ('s \<Rightarrow> 'o \<Rightarrow> bool) \<Rightarrow> ('s \<Rightarrow> 'a \<Rightarrow> bool) \<Rightarrow> 's
   \<Rightarrow> ('s, 'o, 'a) prog \<Rightarrow> bool"
  for I evolves ok Q where
  safe_Ret: "Q s a \<Longrightarrow> safe I evolves ok Q s (Ret a)"
| safe_Act:
    "(\<And>s' ev p s''. I s' \<Longrightarrow> evolves s s' \<Longrightarrow> ok s' ev \<Longrightarrow> f ev s' = (p, s'') \<Longrightarrow>
        I s'' \<and> evolves s' s'' \<and> safe I evolves ok Q s'' p)
     \<Longrightarrow> safe I evolves ok Q s (Act f)"

inductive_cases safe_RetE: "safe I evolves ok Q s (Ret a)"
inductive_cases safe_ActE: "safe I evolves ok Q s (Act f)"

text \<open>
  The interleaving of a pool of programs: any client whose program has a call left makes it
  (with an admissible environment), and a client whose program has ended may start another one,
  out of those the predicate \<open>start\<close> admits in the current store.
\<close>

inductive pool_step ::
  "('s \<Rightarrow> 'o \<Rightarrow> bool) \<Rightarrow> ('s \<Rightarrow> ('s, 'o, 'a) prog \<Rightarrow> bool)
   \<Rightarrow> 's \<times> (nat \<Rightarrow> ('s, 'o, 'a) prog) \<Rightarrow> 's \<times> (nat \<Rightarrow> ('s, 'o, 'a) prog) \<Rightarrow> bool"
  for ok start where
  step_call: "pool i = Act f \<Longrightarrow> ok s ev \<Longrightarrow> f ev s = (p, s') \<Longrightarrow>
     pool_step ok start (s, pool) (s', pool(i := p))"
| step_start: "pool i = Ret a \<Longrightarrow> start s p \<Longrightarrow> pool_step ok start (s, pool) (s, pool(i := p))"

inductive pool_reach ::
  "('s \<Rightarrow> 'o \<Rightarrow> bool) \<Rightarrow> ('s \<Rightarrow> ('s, 'o, 'a) prog \<Rightarrow> bool) \<Rightarrow> 's
   \<Rightarrow> 's \<times> (nat \<Rightarrow> ('s, 'o, 'a) prog) \<Rightarrow> bool"
  for ok start s0 where
  reach_init: "pool_reach ok start s0 (s0, \<lambda>_. Ret a)"
| reach_step: "pool_reach ok start s0 c \<Longrightarrow> pool_step ok start c c' \<Longrightarrow> pool_reach ok start s0 c'"

text \<open>
  A run of one program is an interleaving, when the environments of its calls are admissible in the stores it meets:
  \<open>run_ok ok p os n s\<close>.
\<close>

primrec run_ok :: "('s \<Rightarrow> 'o \<Rightarrow> bool) \<Rightarrow> ('s, 'o, 'a) prog \<Rightarrow> (nat \<Rightarrow> 'o) \<Rightarrow> nat \<Rightarrow> 's \<Rightarrow> bool" where
  "run_ok ok (Ret a) = (\<lambda>os n s. True)"
| "run_ok ok (Act f) = (\<lambda>os n s. ok s (os n) \<and> (case map_prod (run_ok ok) id (f (os n) s) of (r, s') \<Rightarrow> r os (Suc n) s'))"

lemma run_ok_query [simp]:
  "run_ok ok (query q k) os n s \<longleftrightarrow> ok s (os n) \<and> (case o_fault (os n) of
     NoFault \<Rightarrow> run_ok ok (k (q s)) os (Suc n) s
   | FailBefore m \<Rightarrow> run_ok ok (k (Inl (Opaque m))) os (Suc n) s
   | FailAfter m \<Rightarrow> run_ok ok (k (Inl (Opaque m))) os (Suc n) s)"
  by (simp add: query_def split: fault.splits)

lemma run_ok_command [simp]:
  "run_ok ok (command c k) os n s \<longleftrightarrow> ok s (os n) \<and> (case o_fault (os n) of
     FailBefore m \<Rightarrow> run_ok ok (k (Inl (Opaque m))) os (Suc n) s
   | NoFault \<Rightarrow>
       (case c (os n) s of
          Inl e \<Rightarrow> run_ok ok (k (Inl e)) os (Suc n) s
        | Inr (x, s') \<Rightarrow> run_ok ok (k (Inr x)) os (Suc n) s')
   | FailAfter m \<Rightarrow> run_ok ok (k (Inl (Opaque m))) os (Suc n)
       (case c (os n) s of Inl e \<Rightarrow> s | Inr (x, s') \<Rightarrow> s'))"
  by (simp add: command_def split: fault.splits sum.splits prod.splits)

lemma run_ok_read_clock [simp]: "run_ok ok (read_clock k) os n s \<longleftrightarrow> ok s (os n) \<and> run_ok ok (k (o_now (os n))) os (Suc n) s"
  by (simp add: read_clock_def)

lemma run_ok_bind_prog [simp]:
  "run_ok ok (bind_prog p k) os n s \<longleftrightarrow> run_ok ok p os n s \<and> (case run p os n s of (a, n', s') \<Rightarrow> run_ok ok (k a) os n' s')"
proof (induction p arbitrary: n s)
  case (Ret a)
  show ?case by simp
next
  case (Act f)
  obtain p s' where f: "f (os n) s = (p, s')" by (cases "f (os n) s")
  have "p \<in> Basic_BNFs.fsts (f (os n) s)" by (simp add: f)
  then have "run_ok ok (bind_prog p k) os (Suc n) s' \<longleftrightarrow>
      run_ok ok p os (Suc n) s' \<and> (case run p os (Suc n) s' of (a, n', s'') \<Rightarrow> run_ok ok (k a) os n' s'')"
    by (rule Act.IH [OF rangeI rangeI])
  then show ?case by (simp add: f)
qed

lemma reach_by_run:
  assumes "pool_reach ok start s0 (s, pool)" "pool i = p" "run_ok ok p os n s" "run p os n s = (a, n', s')"
  shows "\<exists>pool'. pool_reach ok start s0 (s', pool') \<and> pool' i = Ret a"
  using assms
proof (induction p arbitrary: n s pool rule: prog.induct)
  case (Ret x)
  then show ?case by auto
next
  case (Act f)
  obtain q t where f: "f (os n) s = (q, t)" by (cases "f (os n) s")
  have ok: "ok s (os n)" "run_ok ok q os (Suc n) t" using Act.prems(3) f by simp_all
  have "pool_reach ok start s0 (t, pool(i := q))"
    by (rule reach_step [OF Act.prems(1)], rule step_call, rule Act.prems(2), rule ok(1), rule f)
  moreover have "q \<in> Basic_BNFs.fsts (f (os n) s)" "run q os (Suc n) t = (a, n', s')" using f Act.prems(4) by simp_all
  ultimately show ?case using Act.IH [OF rangeI rangeI] ok(2) by (metis fun_upd_same)
qed

lemma run_ok_True: "run_ok (\<lambda>_ _. True) p os n s"
proof (induction p arbitrary: n s)
  case (Ret a)
  show ?case by simp
next
  case (Act f n s)
  obtain q t where f: "f (os n) s = (q, t)" by (cases "f (os n) s")
  have "q \<in> Basic_BNFs.fsts (f (os n) s)" by (simp add: f)
  then have "run_ok (\<lambda>_ _. True) q os (Suc n) t" by (rule Act.IH [OF rangeI rangeI])
  then show ?case by (simp add: f)
qed

locale rely_guarantee =
  fixes I :: "'s \<Rightarrow> bool"
    and evolves :: "'s \<Rightarrow> 's \<Rightarrow> bool"
    and ok :: "'s \<Rightarrow> 'o \<Rightarrow> bool"
  assumes evolves_refl: "I s \<Longrightarrow> evolves s s"
    and evolves_trans: "evolves s t \<Longrightarrow> evolves t u \<Longrightarrow> evolves s u"
begin

lemma safe_stable:
  assumes "safe I evolves ok Q s p" and "evolves s t" and "\<And>a. p = Ret a \<Longrightarrow> Q s a \<Longrightarrow> Q t a"
  shows "safe I evolves ok Q t p"
proof (cases p)
  case (Ret a)
  with assms show ?thesis by (auto elim!: safe_RetE intro: safe_Ret)
next
  case (Act f)
  show ?thesis unfolding Act
  proof (rule safe_Act)
    fix s' ev q s''
    assume a: "I s'" "evolves t s'" "ok s' ev" "f ev s' = (q, s'')"
    from assms(2) a(2) have "evolves s s'" by (rule evolves_trans)
    with assms(1) a Act show "I s'' \<and> evolves s' s'' \<and> safe I evolves ok Q s'' q"
      by (auto elim!: safe_ActE)
  qed
qed

lemma safe_bind:
  assumes "safe I evolves ok R s p"
    and "\<And>t a. I t \<Longrightarrow> evolves s t \<Longrightarrow> R t a \<Longrightarrow> safe I evolves ok Q t (k a)"
    and "I s"
  shows "safe I evolves ok Q s (bind_prog p k)"
  using assms
proof (induction p arbitrary: s rule: prog.induct)
  case (Ret a)
  then show ?case by (auto elim!: safe_RetE intro: evolves_refl)
next
  case (Act f)
  show ?case unfolding bind_prog.simps
  proof (rule safe_Act)
    fix s' ev q s''
    assume a: "I s'" "evolves s s'" "ok s' ev"
      "map_prod (\<lambda>p. bind_prog p k) id (f ev s') = (q, s'')"
    obtain p where p: "f ev s' = (p, s'')" and q: "q = bind_prog p k"
      using a(4) by (cases "f ev s'") auto
    from Act.prems(1) a p have g: "I s''" "evolves s' s''" "safe I evolves ok R s'' p"
      by (auto elim!: safe_ActE)
    have ev: "evolves s s''" using a(2) g(2) by (rule evolves_trans)
    have k: "safe I evolves ok Q t (k a)" if "I t" "evolves s'' t" "R t a" for t a
      using that by (auto intro: Act.prems(2) evolves_trans [OF ev])
    have "p \<in> Basic_BNFs.fsts (f ev s')" by (simp add: p)
    then have "safe I evolves ok Q s'' (bind_prog p k)"
      by (rule Act.IH [OF rangeI rangeI _ g(3) k g(1)])
    with g q show "I s'' \<and> evolves s' s'' \<and> safe I evolves ok Q s'' q" by simp
  qed
qed

lemma safe_retry_loop:
  assumes "\<And>t. I t \<Longrightarrow> evolves s t \<Longrightarrow>
      safe I evolves ok (\<lambda>u a. case a of Done r \<Rightarrow> Q u r | Retry e \<Rightarrow> True) t body"
    and "\<And>t e. Q t (Inl (Wrapped msg e))"
    and "I s"
  shows "safe I evolves ok Q s (retry_loop n msg body e0)"
  using assms
proof (induction n arbitrary: s e0)
  case 0
  then show ?case by (simp add: safe_Ret)
next
  case (Suc n)
  have b: "safe I evolves ok (\<lambda>u a. case a of Done r \<Rightarrow> Q u r | Retry e \<Rightarrow> True) s body"
    using Suc.prems(1,3) by (simp add: evolves_refl)
  show ?case unfolding retry_loop.simps
  proof (rule safe_bind [OF b _ Suc.prems(3)])
    fix t a
    assume t: "I t" "evolves s t" and a: "case a of Done r \<Rightarrow> Q t r | Retry e \<Rightarrow> True"
    have "safe I evolves ok Q t (retry_loop n msg body e)" for e
      using Suc.prems t by (intro Suc.IH) (auto intro: evolves_trans)
    with a show "safe I evolves ok Q t
        (case a of Done r \<Rightarrow> Ret r | Retry e \<Rightarrow> retry_loop n msg body e)"
      by (cases a) (auto intro: safe_Ret)
  qed
qed

text \<open>A safe program that runs alone keeps the invariant and evolves the store.\<close>

lemma safe_run:
  assumes "safe I evolves ok Q s p" "I s" "\<And>n s. I s \<Longrightarrow> ok s (os n)" "run p os n s = (a, n', s')"
  shows "I s' \<and> evolves s s'"
  using assms
proof (induction p arbitrary: n s rule: prog.induct)
  case (Ret x)
  then show ?case by (auto intro: evolves_refl)
next
  case (Act f)
  obtain p t where f: "f (os n) s = (p, t)" by (cases "f (os n) s")
  have t: "I t" "evolves s t" "safe I evolves ok Q t p"
  proof -
    have "I t \<and> evolves s t \<and> safe I evolves ok Q t p"
      using Act.prems(1)
    proof (cases rule: safe.cases)
      case safe_Act
      show ?thesis using safe_Act [OF Act.prems(2) evolves_refl [OF Act.prems(2)] Act.prems(3) [OF Act.prems(2)] f] .
    qed
    then show "I t" "evolves s t" "safe I evolves ok Q t p" by simp_all
  qed
  have "p \<in> Basic_BNFs.fsts (f (os n) s)" by (simp add: f)
  moreover have "run p os (Suc n) t = (a, n', s')" using Act.prems(4) f by simp
  ultimately have "I s' \<and> evolves t s'" using Act.IH [OF rangeI rangeI] t Act.prems(3) by blast
  then show ?case using t(2) by (auto intro: evolves_trans)
qed

text \<open>Every store a pool of safe programs reaches satisfies the invariant and has evolved from the first.\<close>

lemma pool_reach_safe:
  assumes "pool_reach ok start s0 c" and "I s0"
    and start: "\<And>s p. I s \<Longrightarrow> start s p \<Longrightarrow> safe I evolves ok (\<lambda>_ _. True) s p"
  shows "I (fst c) \<and> evolves s0 (fst c) \<and> (\<forall>i. safe I evolves ok (\<lambda>_ _. True) (fst c) (snd c i))"
  using assms(1,2)
proof (induction rule: pool_reach.induct)
  case (reach_init a)
  then show ?case by (auto intro: safe_Ret evolves_refl)
next
  case (reach_step c c')
  then have IH: "I (fst c)" "evolves s0 (fst c)" "\<And>i. safe I evolves ok (\<lambda>_ _. True) (fst c) (snd c i)" by auto
  from reach_step.hyps(2) show ?case
  proof (cases rule: pool_step.cases)
    case (step_call pool i f s ev p s')
    have "safe I evolves ok (\<lambda>_ _. True) s (Act f)"
      using IH(3) [of i] step_call by simp
    then have g: "I s'" "evolves s s'" "safe I evolves ok (\<lambda>_ _. True) s' p"
      using step_call IH(1) evolves_refl by (auto elim!: safe_ActE)
    have "safe I evolves ok (\<lambda>_ _. True) s' ((pool(i := p)) j)" for j
    proof (cases "j = i")
      case True
      with g show ?thesis by simp
    next
      case False
      then show ?thesis using IH(3) [of j] step_call g(2) by (auto intro: safe_stable)
    qed
    moreover have "evolves s0 s'" using IH(2) g(2) step_call by (auto intro: evolves_trans)
    ultimately show ?thesis using g by (simp add: step_call)
  next
    case (step_start pool i a s p)
    with IH start show ?thesis by (cases c) auto
  qed
qed

end

lemma safe_queryI:
  assumes "\<And>s' r. I s' \<Longrightarrow> evolves s s' \<Longrightarrow> r = q s' \<or> (\<exists>m. r = Inl (Opaque m)) \<Longrightarrow>
      safe I evolves ok Q s' (k r)"
    and "\<And>s'. I s' \<Longrightarrow> evolves s' s'"
  shows "safe I evolves ok Q s (query q k)"
  unfolding query_def using assms by (intro safe_Act) (auto split: fault.splits)

lemma safe_commandI:
  assumes ok: "\<And>s' ev x s''. I s' \<Longrightarrow> evolves s s' \<Longrightarrow> ok s' ev \<Longrightarrow> c ev s' = Inr (x, s'') \<Longrightarrow>
      I s'' \<and> evolves s' s'' \<and> safe I evolves ok Q s'' (k (Inr x)) \<and>
      (\<forall>m. safe I evolves ok Q s'' (k (Inl (Opaque m))))"
    and err: "\<And>s' ev e. I s' \<Longrightarrow> evolves s s' \<Longrightarrow> ok s' ev \<Longrightarrow>
      c ev s' = Inl e \<or> (\<exists>m. e = Opaque m) \<Longrightarrow> safe I evolves ok Q s' (k (Inl e))"
    and refl: "\<And>s'. I s' \<Longrightarrow> evolves s' s'"
  shows "safe I evolves ok Q s (command c k)"
  unfolding command_def
proof (rule safe_Act)
  fix s' ev p s''
  assume a: "I s'" "evolves s s'" "ok s' ev"
    and f: "(case o_fault ev of
        FailBefore m \<Rightarrow> (k (Inl (Opaque m)), s')
      | NoFault \<Rightarrow> (case c ev s' of Inl e \<Rightarrow> (k (Inl e), s') | Inr (x, s') \<Rightarrow> (k (Inr x), s'))
      | FailAfter m \<Rightarrow> (k (Inl (Opaque m)), case c ev s' of Inl e \<Rightarrow> s' | Inr (x, s') \<Rightarrow> s'))
      = (p, s'')"
  have r: "evolves s' s'" using a(1) by (rule refl)
  show "I s'' \<and> evolves s' s'' \<and> safe I evolves ok Q s'' p"
  proof (cases "c ev s'")
    case (Inl e)
    then show ?thesis using f a r err [OF a] by (auto split: fault.splits)
  next
    case (Inr y)
    obtain x t where "y = (x, t)" by (cases y)
    with Inr show ?thesis using f a r err [OF a] ok [OF a] by (auto split: fault.splits)
  qed
qed

lemma safe_read_clockI:
  assumes "\<And>s' t. I s' \<Longrightarrow> evolves s s' \<Longrightarrow> safe I evolves ok Q s' (k t)"
    and "\<And>s'. I s' \<Longrightarrow> evolves s' s'"
  shows "safe I evolves ok Q s (read_clock k)"
  unfolding read_clock_def using assms by (intro safe_Act) auto

section \<open>Two programs under a given schedule\<close>

text \<open>
  \<open>interleave2 bs os n p q s\<close>: the calls of \<open>p\<close> (for \<open>True\<close>) and \<open>q\<close> (for \<open>False\<close>) in the order \<open>bs\<close> says; a turn
  of a program that has ended does nothing.
\<close>

fun interleave2 ::
  "bool list \<Rightarrow> (nat \<Rightarrow> 'o) \<Rightarrow> nat \<Rightarrow> ('s, 'o, 'a) prog \<Rightarrow> ('s, 'o, 'b) prog \<Rightarrow> 's
   \<Rightarrow> ('s, 'o, 'a) prog \<times> ('s, 'o, 'b) prog \<times> 's" where
  "interleave2 [] os n p q s = (p, q, s)"
| "interleave2 (True # bs) os n p q s =
     (case p of Ret a \<Rightarrow> interleave2 bs os n p q s
      | Act f \<Rightarrow> (case f (os n) s of (p', s') \<Rightarrow> interleave2 bs os (Suc n) p' q s'))"
| "interleave2 (False # bs) os n p q s =
     (case q of Ret a \<Rightarrow> interleave2 bs os n p q s
      | Act f \<Rightarrow> (case f (os n) s of (q', s') \<Rightarrow> interleave2 bs os (Suc n) p q' s'))"

end
