(* ===== verification/WalletStore.thy ===== *)
theory WalletStore
  imports Wallet Billing Interleaving
begin

text \<open>
  The Postgres adapter of the wallet, \<^verbatim>\<open>src/internal/adapter/db/postgres/wallet\<close>, over the
  tables of migrations 0089 and 0097. A table is the list of its rows. A statement is a
  function on the tables that checks the constraints the migrations declare: the CHECKs, the
  UNIQUE indexes, the foreign key of the ledger and the tenant policy of the runtime role.
  A repository method is one transaction: \<open>Inr\<close> of the tables it commits, or \<open>Inl\<close> of its
  error, in which case it rolls back. A wallet's row lock (\<^verbatim>\<open>FOR UPDATE\<close>) is held from the first
  statement of every method that writes that wallet's rows, so each such method is atomic.
  Only the wallet-aware lane of \<open>token_ledger\<close> (\<^verbatim>\<open>wallet_id IS NOT NULL\<close>) is modelled.
\<close>

section \<open>Tables\<close>

record token_ledger_row =
  tl_id :: uuid
  tl_wallet_id :: uuid
  tl_tenant_id :: uuid
  tl_kind :: LedgerKind
  tl_amount :: int
  tl_idempotency_key :: string
  tl_external_ref :: "string option"
  tl_source :: LedgerSource
  tl_master_grant_id :: "uuid option"
  tl_occurred_at :: time
  tl_created_at :: time

record courtesy_grant_row =
  cg_id :: uuid
  cg_tenant_id :: uuid
  cg_amount :: int
  cg_granted_by_user_id :: uuid

record crm_db =
  token_wallet :: "TokenWallet list"
  token_ledger :: "token_ledger_row list"
  courtesy_grant :: "courtesy_grant_row list"
  master_grant :: "MasterGrant list"
  subscription :: "Subscription list"
  invoice :: "Invoice list"
  plans :: "Plan list"

type_synonym 'a wprog = "(crm_db, call_env, 'a) prog"

section \<open>Rows and statements\<close>

definition nullIfEmpty :: "string \<Rightarrow> string option" where
  "nullIfEmpty s = (if s = '''' then None else Some s)"

definition decodeLedger :: "token_ledger_row \<Rightarrow> LedgerEntry" where
  "decodeLedger r =
     \<lparr>le_ID = tl_id r, le_WalletID = tl_wallet_id r, le_TenantID = tl_tenant_id r,
      le_Kind = tl_kind r, le_Amount = tl_amount r, le_IdempotencyKey = tl_idempotency_key r,
      le_ExternalRef = (case tl_external_ref r of None \<Rightarrow> '''' | Some s \<Rightarrow> s),
      le_Source = SourceUnset, le_MasterGrantID = None,
      le_OccurredAt = tl_occurred_at r, le_CreatedAt = tl_created_at r\<rparr>"

text \<open>
  The row of \<^verbatim>\<open>insertLedger\<close> (no source: the column default) and of
  \<^verbatim>\<open>insertLedgerWithSource\<close>.
\<close>

definition ledger_row :: "LedgerEntry \<Rightarrow> token_ledger_row" where
  "ledger_row e =
     \<lparr>tl_id = le_ID e, tl_wallet_id = le_WalletID e, tl_tenant_id = le_TenantID e,
      tl_kind = le_Kind e, tl_amount = le_Amount e, tl_idempotency_key = le_IdempotencyKey e,
      tl_external_ref = nullIfEmpty (le_ExternalRef e),
      tl_source = (if le_Source e = SourceUnset then SourceConsumption else le_Source e),
      tl_master_grant_id = (if le_Source e = SourceUnset then None else le_MasterGrantID e),
      tl_occurred_at = le_OccurredAt e, tl_created_at = le_CreatedAt e\<rparr>"

text \<open>
  An INSERT into \<open>token_ledger\<close>. \<open>scope\<close> is the tenant of the session for the runtime role
  (whose policy checks the row's tenant) and \<open>None\<close> for \<^verbatim>\<open>master_ops\<close>.
\<close>

datatype pgerr = UniqueViolation | OtherPgError string

definition known_kind :: "LedgerKind \<Rightarrow> bool" where
  "known_kind k = (case k of KindOther _ \<Rightarrow> False | _ \<Rightarrow> True)"

definition idem_taken :: "crm_db \<Rightarrow> uuid \<Rightarrow> string \<Rightarrow> bool" where
  "idem_taken db wid key =
     (\<exists>r \<in> set (token_ledger db). tl_wallet_id r = wid \<and> tl_idempotency_key r = key)"

text \<open>The pairing CHECK and the foreign key migration 0097 adds for the source of a row.\<close>

definition source_paired :: "token_ledger_row \<Rightarrow> bool" where
  "source_paired r \<longleftrightarrow> (tl_source r = SourceMasterGrant \<longleftrightarrow> tl_master_grant_id r \<noteq> None)"

definition grant_fk :: "crm_db \<Rightarrow> token_ledger_row \<Rightarrow> bool" where
  "grant_fk db r = (case tl_master_grant_id r of None \<Rightarrow> True
     | Some g \<Rightarrow> \<exists>m \<in> set (master_grant db). mg_id m = g)"

definition insert_ledger :: "uuid option \<Rightarrow> crm_db \<Rightarrow> token_ledger_row \<Rightarrow> pgerr + crm_db" where
  "insert_ledger scope db r =
     (if (case scope of None \<Rightarrow> False | Some t \<Rightarrow> tl_tenant_id r \<noteq> t)
        then Inl (OtherPgError ''row-level security policy'')
      else if \<not> known_kind (tl_kind r) then Inl (OtherPgError ''token_ledger_wallet_kind_check'')
      else if \<not> source_paired r then Inl (OtherPgError ''token_ledger_master_grant_pairing'')
      else if idem_taken db (tl_wallet_id r) (tl_idempotency_key r) then Inl UniqueViolation
      else if \<exists>q \<in> set (token_ledger db). tl_id q = tl_id r then Inl UniqueViolation
      else if \<not> (\<exists>w \<in> set (token_wallet db). tw_id w = tl_wallet_id r)
        then Inl (OtherPgError ''token_ledger_wallet_id_fkey'')
      else if \<not> grant_fk db r then Inl (OtherPgError ''token_ledger_master_grant_id_fkey'')
      else Inr (db\<lparr>token_ledger := token_ledger db @ [r]\<rparr>))"

fun insert_ledgers :: "uuid option \<Rightarrow> crm_db \<Rightarrow> LedgerEntry list \<Rightarrow> crm_db wresult" where
  "insert_ledgers scope db [] = Inr db"
| "insert_ledgers scope db (e # es) =
     (case insert_ledger scope db (ledger_row e) of
        Inl UniqueViolation \<Rightarrow> werr wallet_ErrIdempotencyConflict
      | Inl (OtherPgError m) \<Rightarrow> Inl (Wrapped ''wallet/postgres: insert ledger'' (Opaque m))
      | Inr db' \<Rightarrow> insert_ledgers scope db' es)"

section \<open>The repository\<close>

definition find_wallet :: "crm_db \<Rightarrow> uuid \<Rightarrow> TokenWallet option" where
  "find_wallet db tenantID = find (\<lambda>r. tw_tenantID r = tenantID) (token_wallet db)"

definition LoadByTenant :: "crm_db \<Rightarrow> uuid \<Rightarrow> TokenWallet wresult" where
  "LoadByTenant db tenantID =
     (if tenantID = uuid_nil then werr wallet_ErrZeroTenant
      else case find_wallet db tenantID of
             None \<Rightarrow> werr wallet_ErrNotFound
           | Some r \<Rightarrow> Inr (hydrate (tw_id r) (tw_tenantID r) (tw_balance r) (tw_reserved r)
                            (tw_version r) (tw_createdAt r) (tw_updatedAt r)))"

text \<open>\<open>dbnow\<close> is the database clock the BEFORE UPDATE trigger of migration 0090 reads.\<close>

definition update_wallet_row ::
  "crm_db \<Rightarrow> (TokenWallet \<Rightarrow> bool) \<Rightarrow> (TokenWallet \<Rightarrow> TokenWallet) \<Rightarrow> crm_db" where
  "update_wallet_row db P f =
     db\<lparr>token_wallet := map (\<lambda>r. if P r then f r else r) (token_wallet db)\<rparr>"

definition ApplyWithLock ::
  "time \<Rightarrow> crm_db \<Rightarrow> TokenWallet \<Rightarrow> LedgerEntry list \<Rightarrow> crm_db wresult" where
  "ApplyWithLock dbnow db w entries =
     (if tw_tenantID w = uuid_nil then Inl (Opaque ''postgres: tenant id must not be uuid.Nil'')
      else
        case find (\<lambda>r. tw_tenantID r = tw_tenantID w \<and> tw_id r = tw_id w) (token_wallet db) of
          None \<Rightarrow> werr wallet_ErrNotFound
        | Some row \<Rightarrow>
            if tw_version row \<noteq> wrap64 (tw_version w - 1) then werr wallet_ErrVersionConflict
            else
              (case insert_ledgers (Some (tw_tenantID w)) db entries of
                 Inl e \<Rightarrow> Inl e
               | Inr db1 \<Rightarrow>
                   (if tw_balance w < 0 \<or> tw_reserved w < 0
                      then Inl (Wrapped ''wallet/postgres: update wallet'' (Opaque ''check violation''))
                    else
                      let hit = (\<lambda>r. tw_tenantID r = tw_tenantID w \<and> tw_id r = tw_id w
                                     \<and> tw_version r = tw_version row)
                      in if length (filter hit (token_wallet db1)) \<noteq> 1
                           then werr wallet_ErrVersionConflict
                         else Inr (update_wallet_row db1 hit
                                (\<lambda>r. r\<lparr>tw_balance := tw_balance w, tw_reserved := tw_reserved w,
                                       tw_version := tw_version w, tw_updatedAt := dbnow\<rparr>)))))"

definition LookupByIdempotencyKey ::
  "crm_db \<Rightarrow> uuid \<Rightarrow> uuid \<Rightarrow> string \<Rightarrow> LedgerEntry wresult" where
  "LookupByIdempotencyKey db tenantID walletID key =
     (if tenantID = uuid_nil \<or> walletID = uuid_nil \<or> key = '''' then werr wallet_ErrNotFound
      else case find (\<lambda>r. tl_tenant_id r = tenantID \<and> tl_wallet_id r = walletID
                         \<and> tl_idempotency_key r = key) (token_ledger db) of
             None \<Rightarrow> werr wallet_ErrNotFound
           | Some r \<Rightarrow> Inr (decodeLedger r))"

definition is_settlement :: "token_ledger_row \<Rightarrow> bool" where
  "is_settlement r \<longleftrightarrow> tl_kind r = KindCommit \<or> tl_kind r = KindRelease"

definition LookupCompletedByExternalRef ::
  "crm_db \<Rightarrow> uuid \<Rightarrow> uuid \<Rightarrow> string \<Rightarrow> LedgerEntry wresult" where
  "LookupCompletedByExternalRef db tenantID walletID ref =
     (if tenantID = uuid_nil \<or> walletID = uuid_nil \<or> ref = '''' then werr wallet_ErrNotFound
      else case find (\<lambda>r. tl_tenant_id r = tenantID \<and> tl_wallet_id r = walletID
                         \<and> tl_external_ref r = Some ref \<and> is_settlement r) (token_ledger db) of
             None \<Rightarrow> werr wallet_ErrNotFound
           | Some r \<Rightarrow> Inr (decodeLedger r))"

text \<open>
  The anti-join of \<^verbatim>\<open>selectOpenReservations\<close>: in SQL a NULL \<^verbatim>\<open>external_ref\<close> equals nothing. The
  tenant policy applies to both table occurrences.
\<close>

definition settled_by :: "token_ledger_row \<Rightarrow> token_ledger_row \<Rightarrow> bool" where
  "settled_by r s \<longleftrightarrow> tl_wallet_id s = tl_wallet_id r \<and> tl_external_ref r \<noteq> None
     \<and> tl_external_ref s = tl_external_ref r \<and> is_settlement s"

definition ListOpenReservations :: "crm_db \<Rightarrow> uuid \<Rightarrow> uuid \<Rightarrow> LedgerEntry list wresult" where
  "ListOpenReservations db tenantID walletID =
     (if tenantID = uuid_nil \<or> walletID = uuid_nil then Inr []
      else let visible = filter (\<lambda>r. tl_tenant_id r = tenantID) (token_ledger db)
           in Inr (map decodeLedger (sort_key tl_occurred_at
                (filter (\<lambda>r. tl_wallet_id r = walletID \<and> tl_kind r = KindReserve
                          \<and> \<not> (\<exists>s \<in> set visible. settled_by r s)) visible))))"

section \<open>The master-scoped writers\<close>

text \<open>
  \<^verbatim>\<open>AllocateMonthlyQuota\<close>: the conflict target of the INSERT is the idempotency index, so a
  taken key is the silent no-op; the UPDATE fails when a \<^verbatim>\<open>bigint\<close> leaves its range.
\<close>

definition AllocateMonthlyQuota ::
  "uuid \<Rightarrow> time \<Rightarrow> crm_db \<Rightarrow> uuid \<Rightarrow> time \<Rightarrow> int \<Rightarrow> string \<Rightarrow> (bool \<times> crm_db) wresult" where
  "AllocateMonthlyQuota ledgerID now db tenantID periodStart amount key =
     (if tenantID = uuid_nil then werr wallet_ErrZeroTenant
      else if amount \<le> 0 then werr wallet_ErrInvalidAmount
      else if key = '''' then werr wallet_ErrEmptyIdempotencyKey
      else case find_wallet db tenantID of
             None \<Rightarrow> werr wallet_ErrNotFound
           | Some w \<Rightarrow>
               if idem_taken db (tw_id w) key then Inr (False, db)
               else
                 (case insert_ledger None db
                        \<lparr>tl_id = ledgerID, tl_wallet_id = tw_id w, tl_tenant_id = tenantID,
                         tl_kind = KindGrant, tl_amount = SignedAmount KindGrant amount,
                         tl_idempotency_key = key, tl_external_ref = None,
                         tl_source = SourceMonthlyAlloc, tl_master_grant_id = None,
                         tl_occurred_at = now, tl_created_at = now\<rparr> of
                    Inl _ \<Rightarrow> Inl (Opaque ''wallet/postgres: insert monthly_alloc ledger'')
                  | Inr db1 \<Rightarrow>
                      if \<not> in_i64 (tw_balance w + amount) \<or> \<not> in_i64 (tw_version w + 1)
                        then Inl (Opaque ''wallet/postgres: update wallet balance for monthly alloc'')
                      else Inr (True, update_wallet_row db1 (\<lambda>r. tw_id r = tw_id w)
                             (\<lambda>r. r\<lparr>tw_balance := tw_balance r + amount,
                                    tw_version := tw_version r + 1, tw_updatedAt := now\<rparr>))))"

record Issued =
  is_Granted :: bool
  is_WalletID :: uuid
  is_GrantID :: uuid

definition courtesyIdempotencyKey :: "(uuid \<Rightarrow> string) \<Rightarrow> uuid \<Rightarrow> string" where
  "courtesyIdempotencyKey ustr tenantID = ''courtesy:'' @ ustr tenantID"

text \<open>
  \<^verbatim>\<open>CourtesyStore.Issue\<close>; \<open>grantID\<close> and \<open>walletID\<close> are the generated primary keys, \<open>ledgerID\<close>
  the one drawn in Go, \<open>ustr\<close> stands for \<^verbatim>\<open>uuid.UUID.String\<close>.
\<close>

definition CourtesyStore_Issue ::
  "(uuid \<Rightarrow> string) \<Rightarrow> uuid \<Rightarrow> uuid \<Rightarrow> uuid \<Rightarrow> time \<Rightarrow> crm_db \<Rightarrow> uuid \<Rightarrow> uuid \<Rightarrow> int
   \<Rightarrow> (Issued \<times> crm_db) wresult" where
  "CourtesyStore_Issue ustr grantID walletID ledgerID now db tenantID actorID amount =
     (if tenantID = uuid_nil then werr wallet_ErrZeroTenant
      else if actorID = uuid_nil then Inl (Opaque ''postgres: actor id must not be uuid.Nil'')
      else if amount \<le> 0 then werr wallet_ErrInvalidAmount
      else case find (\<lambda>g. cg_tenant_id g = tenantID) (courtesy_grant db) of
             Some g \<Rightarrow>
               (case find_wallet db tenantID of
                  None \<Rightarrow> Inl (Opaque ''wallet/postgres: load existing courtesy grant'')
                | Some w \<Rightarrow>
                    Inr (\<lparr>is_Granted = False, is_WalletID = tw_id w, is_GrantID = cg_id g\<rparr>, db))
           | None \<Rightarrow>
               let db1 = db\<lparr>courtesy_grant := courtesy_grant db @
                       [\<lparr>cg_id = grantID, cg_tenant_id = tenantID, cg_amount = amount,
                         cg_granted_by_user_id = actorID\<rparr>]\<rparr>
               in if \<exists>w \<in> set (token_wallet db1). tw_tenantID w = tenantID \<or> tw_id w = walletID
                    then Inl (Opaque ''wallet/postgres: insert wallet'')
                  else
                    let db2 = db1\<lparr>token_wallet := token_wallet db1 @
                           [hydrate walletID tenantID 0 0 0 now now]\<rparr>
                    in (case insert_ledger None db2
                              \<lparr>tl_id = ledgerID, tl_wallet_id = walletID, tl_tenant_id = tenantID,
                               tl_kind = KindGrant, tl_amount = SignedAmount KindGrant amount,
                               tl_idempotency_key = courtesyIdempotencyKey ustr tenantID,
                               tl_external_ref = Some (ustr grantID), tl_source = SourceConsumption,
                               tl_master_grant_id = None, tl_occurred_at = now,
                               tl_created_at = now\<rparr> of
                          Inl _ \<Rightarrow> Inl (Opaque ''wallet/postgres: insert ledger grant'')
                        | Inr db3 \<Rightarrow>
                            let hit = (\<lambda>r. tw_id r = walletID \<and> tw_version r = 0)
                            in if length (filter hit (token_wallet db3)) \<noteq> 1
                                 then Inl (Opaque ''wallet/postgres: courtesy update wallet balance'')
                               else Inr (\<lparr>is_Granted = True, is_WalletID = walletID,
                                          is_GrantID = grantID\<rparr>,
                                         update_wallet_row db3 hit
                                           (\<lambda>r. r\<lparr>tw_balance := amount, tw_version := 1,
                                                  tw_updatedAt := now\<rparr>))))"

section \<open>Master grants\<close>

definition find_grant :: "crm_db \<Rightarrow> uuid \<Rightarrow> MasterGrant option" where
  "find_grant db gid = find (\<lambda>g. mg_id g = gid) (master_grant db)"

definition MasterGrantStore_GetByID :: "crm_db \<Rightarrow> uuid \<Rightarrow> MasterGrant wresult" where
  "MasterGrantStore_GetByID db gid =
     (case find_grant db gid of None \<Rightarrow> werr wallet_ErrNotFound | Some g \<Rightarrow> Inr g)"

text \<open>
  The payload is stored as a JSON document and read back into \<^verbatim>\<open>map[string]any\<close>, which makes every number a
  \<^verbatim>\<open>float64\<close>. The row of the model holds what every read sees.
\<close>

fun json_decoded :: "any \<Rightarrow> any" where
  "json_decoded (AnyInt n) = AnyFloat (of_int (float64_of_int n))"
| "json_decoded (AnyFloat r) = AnyFloat r"
| "json_decoded AnyOther = AnyOther"

definition json_payload :: "(string \<times> any) list \<Rightarrow> (string \<times> any) list" where
  "json_payload p = map (map_prod id json_decoded) p"

text \<open>
  \<^verbatim>\<open>Create\<close>: the CHECK of the \<^verbatim>\<open>reason\<close> column counts characters, \<open>char_length\<close>: in UTF-8, the
  bytes that do not continue a character.
\<close>

definition char_length :: "string \<Rightarrow> nat" where
  "char_length s = length (filter (\<lambda>c. (of_char c :: nat) div 64 \<noteq> 2) s)"

definition MasterGrantStore_Create :: "crm_db \<Rightarrow> MasterGrant \<Rightarrow> crm_db wresult" where
  "MasterGrantStore_Create db g =
     (if char_length (mg_reason g) < 10
        \<or> \<not> (mg_kind g = KindFreeSubscriptionPeriod \<or> mg_kind g = KindExtraTokens)
        then Inl (Wrapped ''wallet/postgres: insert master_grant'' (Opaque ''check violation''))
      else if \<exists>h \<in> set (master_grant db). mg_id h = mg_id g \<or> mg_externalID h = mg_externalID g
        then werr wallet_ErrIdempotencyConflict
      else Inr (db\<lparr>master_grant := master_grant db @
              [g\<lparr>mg_payload := json_payload (mg_payload g), mg_consumedAt := None, mg_consumedRef := '''', mg_revokedAt := None,
                 mg_revokedByUserID := None, mg_revokeReason := ''''\<rparr>]\<rparr>))"

definition pending_grant :: "uuid \<Rightarrow> MasterGrant \<Rightarrow> bool" where
  "pending_grant gid g \<longleftrightarrow> mg_id g = gid \<and> mg_consumedAt g = None \<and> mg_revokedAt g = None"

definition update_grant_row ::
  "crm_db \<Rightarrow> uuid \<Rightarrow> (MasterGrant \<Rightarrow> MasterGrant) \<Rightarrow> crm_db" where
  "update_grant_row db gid f =
     db\<lparr>master_grant := map (\<lambda>g. if pending_grant gid g then f g else g) (master_grant db)\<rparr>"

text \<open>
  The read and the guarded UPDATE of \<^verbatim>\<open>Consume\<close> and \<^verbatim>\<open>Revoke\<close> are two statements, and no lock
  is held between them: other transactions may commit in between.
\<close>

definition consume_update :: "uuid \<Rightarrow> string \<Rightarrow> time \<Rightarrow> crm_db \<Rightarrow> (unit \<times> crm_db) wresult" where
  "consume_update gid ref now db =
     (if filter (pending_grant gid) (master_grant db) = [] then werr wallet_ErrGrantAlreadyRevoked
      else Inr ((), update_grant_row db gid
             (\<lambda>g. g\<lparr>mg_consumedAt := Some now, mg_consumedRef := ref\<rparr>)))"

definition MasterGrantStore_Consume ::
  "uuid \<Rightarrow> string \<Rightarrow> time \<Rightarrow> (unit wresult \<Rightarrow> 'a wprog) \<Rightarrow> 'a wprog" where
  "MasterGrantStore_Consume gid ref now k =
     query (\<lambda>db. MasterGrantStore_GetByID db gid) (\<lambda>r. case r of
       Inl e \<Rightarrow> k (Inl e)
     | Inr g \<Rightarrow>
         (case grant_Consume g ref now of
            Inl e \<Rightarrow> k (Inl e)
          | Inr _ \<Rightarrow> command (\<lambda>ev db. consume_update gid ref now db) k))"

definition revoke_update ::
  "uuid \<Rightarrow> uuid \<Rightarrow> string \<Rightarrow> time \<Rightarrow> crm_db \<Rightarrow> (unit \<times> crm_db) wresult" where
  "revoke_update gid revokedBy reason now db =
     (if filter (pending_grant gid) (master_grant db) = []
        then werr wallet_ErrGrantAlreadyConsumed
      else if char_length reason < 10
        then Inl (Wrapped ''wallet/postgres: update master_grant revoke'' (Opaque ''check violation''))
      else Inr ((), update_grant_row db gid
             (\<lambda>g. g\<lparr>mg_revokedAt := Some now, mg_revokedByUserID := Some revokedBy,
                    mg_revokeReason := reason\<rparr>)))"

definition MasterGrantStore_Revoke ::
  "uuid \<Rightarrow> uuid \<Rightarrow> string \<Rightarrow> time \<Rightarrow> (unit wresult \<Rightarrow> 'a wprog) \<Rightarrow> 'a wprog" where
  "MasterGrantStore_Revoke gid revokedBy reason now k =
     query (\<lambda>db. MasterGrantStore_GetByID db gid) (\<lambda>r. case r of
       Inl e \<Rightarrow> k (Inl e)
     | Inr g \<Rightarrow>
         (case grant_Revoke g revokedBy reason now of
            Inl e \<Rightarrow> k (Inl e)
          | Inr _ \<Rightarrow> command (\<lambda>ev db. revoke_update gid revokedBy reason now db) k))"

end
