(* ===== verification/WalletBooks.thy ===== *)
theory WalletBooks
  imports WalletStore
begin

text \<open>
  What it means for a wallet's row and its ledger to agree, the invariant of the whole store,
  and that every repository transaction keeps it. The balance is the sum of the grants and
  the (negative) commits, the reserved amount is the sum of the reservations that no commit or
  release has settled, and the version stamp counts the ledger rows. No reservation is
  settled twice and no idempotency key is used twice on a wallet.
\<close>

section \<open>The books of one wallet\<close>

definition is_reserve :: "token_ledger_row \<Rightarrow> bool" where
  "is_reserve r \<longleftrightarrow> tl_kind r = KindReserve"

definition wrows :: "crm_db \<Rightarrow> uuid \<Rightarrow> token_ledger_row list" where
  "wrows db wid = filter (\<lambda>r. tl_wallet_id r = wid) (token_ledger db)"

definition credited :: "token_ledger_row list \<Rightarrow> int" where
  "credited L = (\<Sum>r\<leftarrow>L. if tl_kind r = KindGrant \<or> tl_kind r = KindCommit then tl_amount r else 0)"

definition is_settled :: "token_ledger_row list \<Rightarrow> token_ledger_row \<Rightarrow> bool" where
  "is_settled L r \<longleftrightarrow> (\<exists>s \<in> set L. settled_by r s)"

definition open_rows :: "token_ledger_row list \<Rightarrow> token_ledger_row list" where
  "open_rows L = filter (\<lambda>r. is_reserve r \<and> \<not> is_settled L r) L"

definition open_total :: "token_ledger_row list \<Rightarrow> int" where
  "open_total L = (\<Sum>r\<leftarrow>open_rows L. - tl_amount r)"

definition ledger_ok :: "token_ledger_row list \<Rightarrow> bool" where
  "ledger_ok L \<longleftrightarrow>
     distinct (map tl_idempotency_key L) \<and>
     distinct (map tl_external_ref (filter is_reserve L)) \<and>
     distinct (map tl_external_ref (filter is_settlement L)) \<and>
     (\<forall>r \<in> set L. is_reserve r \<longrightarrow> tl_external_ref r \<noteq> None \<and> tl_amount r < 0 \<and>
        - max_i64 \<le> tl_amount r) \<and>
     (\<forall>s \<in> set L. is_settlement s \<longrightarrow> (\<exists>r \<in> set L. is_reserve r \<and> settled_by r s))"

definition books :: "TokenWallet \<Rightarrow> token_ledger_row list \<Rightarrow> bool" where
  "books w L \<longleftrightarrow> wallet_ok w \<and> ledger_ok L \<and> tw_balance w = credited L \<and>
     tw_reserved w = open_total L \<and> tw_version w = wrap64 (int (length L))"

lemma kinds_exclusive:
  "is_reserve r \<Longrightarrow> \<not> is_settlement r"
  "tl_kind r = KindGrant \<Longrightarrow> \<not> is_reserve r \<and> \<not> is_settlement r"
  by (auto simp: is_reserve_def is_settlement_def)

lemma filter_eq_singleton:
  "distinct (map f xs) \<Longrightarrow> x \<in> set xs \<Longrightarrow> filter (\<lambda>y. f y = f x) xs = [x]"
proof (induction xs)
  case (Cons a xs)
  have rest: "filter (\<lambda>y. f y = f z) xs = []" if "f z \<notin> f ` set xs" for z
    using that by (auto simp: filter_empty_conv image_iff)
  show ?case
  proof (cases "x = a")
    case True
    with Cons.prems rest [of a] show ?thesis by simp
  next
    case False
    with Cons have "x \<in> set xs" "f a \<noteq> f x" by (auto simp: image_iff)
    with Cons show ?thesis by simp
  qed
qed simp

lemma distinct_map_filter_mono: "distinct (map f (filter P xs)) \<Longrightarrow> distinct (map f (filter (\<lambda>x. P x \<and> Q x) xs))"
  by (metis distinct_map_filter filter_filter)

lemma credited_append: "credited (L @ [r]) = credited L +
    (if tl_kind r = KindGrant \<or> tl_kind r = KindCommit then tl_amount r else 0)"
  by (simp add: credited_def)

lemma is_settled_append: "is_settled (L @ [s]) r \<longleftrightarrow> is_settled L r \<or> settled_by r s"
  by (auto simp: is_settled_def)

text \<open>Appending a grant row, a reserve row with a new reference, or the settlement of an open reservation.\<close>

lemma open_rows_grant: "tl_kind g = KindGrant \<Longrightarrow> open_rows (L @ [g]) = open_rows L"
  by (simp add: open_rows_def is_settled_append settled_by_def kinds_exclusive)

lemma open_rows_reserve:
  assumes "is_reserve n" and "\<And>s. s \<in> set L \<Longrightarrow> tl_external_ref s \<noteq> tl_external_ref n"
  shows "open_rows (L @ [n]) = open_rows L @ [n]"
proof -
  have "\<not> settled_by r n" for r using assms(1) by (simp add: settled_by_def kinds_exclusive)
  moreover have "\<not> is_settled L n" using assms(2) by (auto simp: is_settled_def settled_by_def)
  ultimately show ?thesis
    using assms(1) by (simp add: open_rows_def is_settled_append)
qed

lemma open_rows_settle:
  assumes ok: "ledger_ok L" and r: "r \<in> set L" "is_reserve r"
    and s: "settled_by r s" and same: "\<And>x. x \<in> set L \<Longrightarrow> tl_wallet_id x = tl_wallet_id r"
  shows "open_rows (L @ [s]) = filter (\<lambda>x. tl_external_ref x \<noteq> tl_external_ref r) (open_rows L)"
proof -
  have sr: "\<not> is_reserve s" using s by (auto simp: settled_by_def dest: kinds_exclusive)
  have "settled_by x s \<longleftrightarrow> tl_external_ref x = tl_external_ref r" if "x \<in> set (open_rows L)" for x
    using that s ok same by (auto simp: settled_by_def open_rows_def ledger_ok_def)
  then show ?thesis
    using sr by (auto simp: open_rows_def is_settled_append intro!: filter_cong)
qed

lemma open_rows_distinct: "ledger_ok L \<Longrightarrow> distinct (map tl_external_ref (open_rows L))"
  by (auto simp: ledger_ok_def open_rows_def intro: distinct_map_filter_mono)

lemma open_total_settle:
  assumes ok: "ledger_ok L" and r: "r \<in> set L" "is_reserve r" "\<not> is_settled L r"
    and s: "settled_by r s" and same: "\<And>x. x \<in> set L \<Longrightarrow> tl_wallet_id x = tl_wallet_id r"
  shows "open_total (L @ [s]) = open_total L + tl_amount r"
proof -
  let ?A = "open_rows L"
  have "r \<in> set ?A" using r by (simp add: open_rows_def)
  with open_rows_distinct [OF ok]
  have "filter (\<lambda>x. tl_external_ref x = tl_external_ref r) ?A = [r]"
    by (rule filter_eq_singleton)
  then have "open_total L = - tl_amount r
      + (\<Sum>x\<leftarrow>filter (\<lambda>x. \<not> tl_external_ref x = tl_external_ref r) ?A. - tl_amount x)"
    by (simp add: open_total_def sum_list_filter_split [where xs = "?A"
          and P = "\<lambda>x. tl_external_ref x = tl_external_ref r"])
  then show ?thesis by (simp add: open_total_def open_rows_settle [OF ok r(1,2) s same])
qed

lemma ledger_ok_grant:
  "ledger_ok L \<Longrightarrow> tl_kind g = KindGrant \<Longrightarrow> tl_idempotency_key g \<notin> tl_idempotency_key ` set L
   \<Longrightarrow> ledger_ok (L @ [g])"
  by (auto simp: ledger_ok_def kinds_exclusive)

lemma ledger_ok_reserve:
  assumes "ledger_ok L" "is_reserve n" "tl_idempotency_key n \<notin> tl_idempotency_key ` set L"
    and "tl_external_ref n \<noteq> None" "tl_amount n < 0" "- max_i64 \<le> tl_amount n"
    and fresh: "\<And>s. s \<in> set L \<Longrightarrow> tl_external_ref s \<noteq> tl_external_ref n"
  shows "ledger_ok (L @ [n])"
proof -
  have "tl_external_ref n \<notin> tl_external_ref ` set (filter is_reserve L)"
    using fresh by fastforce
  moreover have "\<not> is_settlement n" using assms(2) by (rule kinds_exclusive)
  ultimately show ?thesis using assms(1-6) by (simp add: ledger_ok_def)
qed

lemma ledger_ok_settle:
  assumes "ledger_ok L" "tl_idempotency_key s \<notin> tl_idempotency_key ` set L"
    and "r \<in> set L" "is_reserve r" "\<not> is_settled L r" "settled_by r s"
    and same: "\<And>x. x \<in> set L \<Longrightarrow> tl_wallet_id x = tl_wallet_id r"
  shows "ledger_ok (L @ [s])"
proof -
  have st: "is_settlement s" "tl_external_ref s = tl_external_ref r" "tl_external_ref r \<noteq> None"
    using assms(6) by (auto simp: settled_by_def)
  have "tl_external_ref s \<notin> tl_external_ref ` set (filter is_settlement L)"
  proof
    assume "tl_external_ref s \<in> tl_external_ref ` set (filter is_settlement L)"
    then obtain x where "x \<in> set L" "is_settlement x" "tl_external_ref x = tl_external_ref r"
      using st(2) by (auto simp: image_iff)
    with same st(3) have "is_settled L r" by (auto simp: is_settled_def settled_by_def)
    with assms(5) show False ..
  qed
  moreover have "\<not> is_reserve s" using st kinds_exclusive by blast
  ultimately show ?thesis using assms(1-4,6) st by (simp add: ledger_ok_def) blast
qed

section \<open>The account a wallet's ledger stands for\<close>

text \<open>
  The abstract specification of the token economy: an account has a balance and a list of
  open reservations (reference and amount). It never spends more than it has: a reservation
  fits into what the open ones leave, a commit takes at most what was reserved.
\<close>

record account =
  acc_balance :: int
  acc_open :: "(string option \<times> int) list"

definition acc_available :: "account \<Rightarrow> int" where
  "acc_available a = acc_balance a - (\<Sum>p\<leftarrow>acc_open a. snd p)"

inductive acct_step :: "account \<Rightarrow> account \<Rightarrow> bool" where
  acct_grant: "0 < m \<Longrightarrow> acc_balance a + m \<le> max_i64 \<Longrightarrow>
     acct_step a (a\<lparr>acc_balance := acc_balance a + m\<rparr>)"
| acct_reserve: "0 < m \<Longrightarrow> m \<le> acc_available a \<Longrightarrow> ref \<notin> fst ` set (acc_open a) \<Longrightarrow>
     acct_step a (a\<lparr>acc_open := acc_open a @ [(ref, m)]\<rparr>)"
| acct_commit: "(ref, m) \<in> set (acc_open a) \<Longrightarrow> 0 < c \<Longrightarrow> c \<le> m \<Longrightarrow>
     acct_step a (a\<lparr>acc_balance := acc_balance a - c,
                    acc_open := filter (\<lambda>p. fst p \<noteq> ref) (acc_open a)\<rparr>)"
| acct_release: "(ref, m) \<in> set (acc_open a) \<Longrightarrow>
     acct_step a (a\<lparr>acc_open := filter (\<lambda>p. fst p \<noteq> ref) (acc_open a)\<rparr>)"

definition account_of :: "token_ledger_row list \<Rightarrow> account" where
  "account_of L = \<lparr>acc_balance = credited L,
     acc_open = map (\<lambda>r. (tl_external_ref r, - tl_amount r)) (open_rows L)\<rparr>"

lemma acc_available_account_of: "acc_available (account_of L) = credited L - open_total L"
  by (simp add: acc_available_def account_of_def open_total_def comp_def)

lemma account_settle:
  assumes "ledger_ok L" "r \<in> set L" "is_reserve r" "\<not> is_settled L r" "settled_by r s"
    and "\<And>x. x \<in> set L \<Longrightarrow> tl_wallet_id x = tl_wallet_id r"
  shows "(tl_external_ref r, - tl_amount r) \<in> set (acc_open (account_of L))"
    and "acc_open (account_of (L @ [s])) =
      filter (\<lambda>p. fst p \<noteq> tl_external_ref r) (acc_open (account_of L))"
  using assms(2-4) open_rows_settle [OF assms(1,2,3,5,6)]
  by (auto simp: account_of_def open_rows_def filter_map comp_def)

section \<open>The invariant of the store\<close>

definition tenant_books :: "crm_db \<Rightarrow> TokenWallet \<Rightarrow> bool" where
  "tenant_books db w \<longleftrightarrow> tw_id w \<noteq> uuid_nil \<and> tw_tenantID w \<noteq> uuid_nil \<and>
     books w (wrows db (tw_id w)) \<and>
     (\<forall>r \<in> set (wrows db (tw_id w)). tl_tenant_id r = tw_tenantID w)"

definition db_inv :: "crm_db \<Rightarrow> bool" where
  "db_inv db \<longleftrightarrow>
     distinct (map tw_id (token_wallet db)) \<and> distinct (map tw_tenantID (token_wallet db)) \<and>
     (\<forall>w \<in> set (token_wallet db). tenant_books db w) \<and>
     (\<forall>r \<in> set (token_ledger db). \<exists>w \<in> set (token_wallet db). tw_id w = tl_wallet_id r) \<and>
     distinct (map mg_id (master_grant db)) \<and> (\<forall>g \<in> set (master_grant db). grant_ok g)"

text \<open>\<open>ustr\<close> stands for \<^verbatim>\<open>uuid.UUID.String\<close>: reserve rows are written with the reservation's identifier.\<close>

definition refs_ok :: "(uuid \<Rightarrow> string) \<Rightarrow> crm_db \<Rightarrow> bool" where
  "refs_ok ustr db \<longleftrightarrow>
     (\<forall>r \<in> set (token_ledger db). is_reserve r \<longrightarrow> (\<exists>u. tl_external_ref r = Some (ustr u)))"

definition store_inv :: "(uuid \<Rightarrow> string) \<Rightarrow> crm_db \<Rightarrow> bool" where
  "store_inv ustr db \<longleftrightarrow> db_inv db \<and> refs_ok ustr db"

text \<open>
  How the store evolves: the ledger only grows at its end, wallets keep their identity, a
  consumed or revoked grant stays as it is, and every wallet's account moves by steps of its
  specification.
\<close>

definition evolves :: "crm_db \<Rightarrow> crm_db \<Rightarrow> bool" where
  "evolves db db' \<longleftrightarrow>
     (\<exists>new. token_ledger db' = token_ledger db @ new) \<and>
     (\<forall>w \<in> set (token_wallet db). \<exists>w' \<in> set (token_wallet db').
        tw_id w' = tw_id w \<and> tw_tenantID w' = tw_tenantID w) \<and>
     (\<forall>g \<in> set (master_grant db). \<exists>g' \<in> set (master_grant db'). mg_id g' = mg_id g \<and>
        (IsConsumed g \<or> IsRevoked g \<longrightarrow> g' = g)) \<and>
     (\<forall>wid. acct_step\<^sup>*\<^sup>* (account_of (wrows db wid)) (account_of (wrows db' wid)))"

text \<open>
  What the environment of a call promises: identifiers drawn during the call are new, and the
  ledger has room (a \<^verbatim>\<open>bigint\<close> counts its rows).
\<close>

definition env_ok :: "(uuid \<Rightarrow> string) \<Rightarrow> crm_db \<Rightarrow> call_env \<Rightarrow> bool" where
  "env_ok ustr db ev \<longleftrightarrow>
     (\<forall>i. o_ids ev i \<noteq> uuid_nil \<and>
        (\<forall>r \<in> set (token_ledger db). tl_id r \<noteq> o_ids ev i \<and>
           tl_external_ref r \<noteq> Some (ustr (o_ids ev i)) \<and> tl_wallet_id r \<noteq> o_ids ev i)) \<and>
     int (length (token_ledger db)) < max_i64"

lemma evolves_refl_db: "evolves db db"
  by (auto simp: evolves_def)

lemma evolves_trans_db:
  assumes "evolves a b" and "evolves b c"
  shows "evolves a c"
proof -
  have "\<exists>new. token_ledger c = token_ledger a @ new"
    using assms by (auto simp: evolves_def)
  moreover have "\<exists>w'' \<in> set (token_wallet c). tw_id w'' = tw_id w \<and> tw_tenantID w'' = tw_tenantID w"
    if "w \<in> set (token_wallet a)" for w
    using assms that by (metis evolves_def)
  moreover have "\<exists>g'' \<in> set (master_grant c). mg_id g'' = mg_id g \<and> (IsConsumed g \<or> IsRevoked g \<longrightarrow> g'' = g)"
    if "g \<in> set (master_grant a)" for g
    using assms that by (metis evolves_def)
  moreover have "acct_step\<^sup>*\<^sup>* (account_of (wrows a wid)) (account_of (wrows c wid))" for wid
    using assms unfolding evolves_def by (meson rtranclp_trans)
  ultimately show ?thesis by (simp add: evolves_def)
qed

interpretation wallet_rg: rely_guarantee "store_inv ustr" evolves "env_ok ustr" for ustr
  by unfold_locales (auto intro: evolves_refl_db evolves_trans_db)

lemma evolves_wrows: "evolves a b \<Longrightarrow> \<exists>new. wrows b wid = wrows a wid @ new"
  by (auto simp: evolves_def wrows_def)

lemma db_inv_tenant: "db_inv db \<Longrightarrow> w \<in> set (token_wallet db) \<Longrightarrow> tenant_books db w"
  by (simp add: db_inv_def)

lemma find_wallet_iff:
  "db_inv db \<Longrightarrow> find_wallet db t = Some w \<longleftrightarrow> w \<in> set (token_wallet db) \<and> tw_tenantID w = t"
  by (simp add: find_wallet_def find_Some_iff_distinct db_inv_def)

lemma hydrate_eta [simp]:
  "hydrate (tw_id r) (tw_tenantID r) (tw_balance r) (tw_reserved r) (tw_version r)
     (tw_createdAt r) (tw_updatedAt r) = r"
  by (simp add: hydrate_def)

lemma LoadByTenant_Inr:
  assumes "db_inv db"
  shows "LoadByTenant db t = Inr w \<longleftrightarrow>
     t \<noteq> uuid_nil \<and> w \<in> set (token_wallet db) \<and> tw_tenantID w = t"
proof -
  have "LoadByTenant db t = Inr w \<longleftrightarrow> t \<noteq> uuid_nil \<and> find_wallet db t = Some w"
    by (auto simp: LoadByTenant_def split: option.splits)
  then show ?thesis by (simp add: find_wallet_iff assms)
qed

lemma length_wrows_le: "length (wrows db wid) \<le> length (token_ledger db)"
  by (simp add: wrows_def)

lemma same_wallet:
  "db_inv db \<Longrightarrow> w \<in> set (token_wallet db) \<Longrightarrow> w' \<in> set (token_wallet db) \<Longrightarrow> tw_id w = tw_id w' \<Longrightarrow> w = w'"
  by (auto simp: db_inv_def distinct_map inj_on_def)

text \<open>
  The optimistic lock: a wallet row whose version stamp is still the one that was loaded has
  the same ledger, the same balance and the same reserved amount as when it was loaded.
\<close>

lemma version_unchanged:
  assumes "db_inv a" "db_inv b" "evolves a b" "int (length (token_ledger b)) \<le> max_i64"
    and w: "w \<in> set (token_wallet a)" and w': "w' \<in> set (token_wallet b)"
    and "tw_id w' = tw_id w" "tw_version w' = tw_version w"
  shows "wrows b (tw_id w) = wrows a (tw_id w)"
    and "tw_balance w' = tw_balance w" and "tw_reserved w' = tw_reserved w"
proof -
  let ?A = "wrows a (tw_id w)" and ?B = "wrows b (tw_id w)"
  have ba: "books w ?A" using assms by (auto simp: tenant_books_def dest: db_inv_tenant)
  have bb: "books w' ?B" using assms by (auto simp: tenant_books_def dest: db_inv_tenant)
  obtain new where new: "?B = ?A @ new" using assms(3) evolves_wrows by blast
  have "length ?B \<le> length (token_ledger b)" by (rule length_wrows_le)
  then have "int (length ?B) \<le> max_i64" and "int (length ?A) \<le> max_i64"
    using assms(4) new by simp_all
  moreover have "wrap64 (int (length ?B)) = wrap64 (int (length ?A))"
    using ba bb assms(8) by (simp add: books_def)
  ultimately have "length ?B = length ?A" by (metis wrap64_eq_nat)
  with new show eq: "?B = ?A" by simp
  show "tw_balance w' = tw_balance w" and "tw_reserved w' = tw_reserved w"
    using ba bb eq by (simp_all add: books_def)
qed

section \<open>Posting one ledger row\<close>

text \<open>
  Every writer of a wallet does the same thing to the tables: it appends one ledger row and
  replaces the wallet's row.
\<close>

definition post :: "crm_db \<Rightarrow> token_ledger_row \<Rightarrow> TokenWallet \<Rightarrow> crm_db" where
  "post db r w = db\<lparr>token_ledger := token_ledger db @ [r],
     token_wallet := map (\<lambda>x. if tw_id x = tw_id w then w else x) (token_wallet db)\<rparr>"

lemma post_fields [simp]:
  "token_ledger (post db r w) = token_ledger db @ [r]"
  "token_wallet (post db r w) = map (\<lambda>x. if tw_id x = tw_id w then w else x) (token_wallet db)"
  "master_grant (post db r w) = master_grant db" "courtesy_grant (post db r w) = courtesy_grant db"
  "subscription (post db r w) = subscription db" "invoice (post db r w) = invoice db"
  by (simp_all add: post_def)

lemma wrows_post: "wrows (post db r w) wid = wrows db wid @ (if tl_wallet_id r = wid then [r] else [])"
  by (simp add: wrows_def)

lemma post_inv:
  assumes inv: "db_inv db" and w: "w \<in> set (token_wallet db)"
    and same: "tw_id w' = tw_id w" "tw_tenantID w' = tw_tenantID w"
    and r: "tl_wallet_id r = tw_id w" "tl_tenant_id r = tw_tenantID w"
    and b: "books w' (wrows db (tw_id w) @ [r])"
    and acct: "acct_step (account_of (wrows db (tw_id w))) (account_of (wrows db (tw_id w) @ [r]))"
  shows "db_inv (post db r w')" and "evolves db (post db r w')"
proof -
  let ?f = "\<lambda>x. if tw_id x = tw_id w' then w' else x"
  have key: "tw_tenantID (?f x) = tw_tenantID x" "tw_id (?f x) = tw_id x"
    if "x \<in> set (token_wallet db)" for x
    using same_wallet [OF inv that w] same by (metis (full_types))+
  have ids: "map tw_id (map ?f (token_wallet db)) = map tw_id (token_wallet db)"
    and tens: "map tw_tenantID (map ?f (token_wallet db)) = map tw_tenantID (token_wallet db)"
    using key by auto
  have tb: "tenant_books (post db r w') (?f x)" if x: "x \<in> set (token_wallet db)" for x
  proof (cases "tw_id x = tw_id w'")
    case True
    then show ?thesis
      using b same r db_inv_tenant [OF inv w] by (auto simp: tenant_books_def wrows_post)
  next
    case False
    then show ?thesis
      using same r db_inv_tenant [OF inv x] by (auto simp: tenant_books_def wrows_post)
  qed
  have books: "\<forall>v \<in> set (token_wallet (post db r w')). tenant_books (post db r w') v"
    unfolding post_fields set_map using tb by (intro ballI) (elim imageE, simp only:)
  have fk: "\<forall>q \<in> set (token_ledger (post db r w')).
      \<exists>v \<in> set (token_wallet (post db r w')). tw_id v = tl_wallet_id q"
  proof
    fix q
    assume "q \<in> set (token_ledger (post db r w'))"
    then have "\<exists>v \<in> set (token_wallet db). tw_id v = tl_wallet_id q"
      using inv w r by (auto simp: db_inv_def)
    then obtain v where v: "v \<in> set (token_wallet db)" "tw_id v = tl_wallet_id q" by blast
    then have "?f v \<in> set (token_wallet (post db r w'))"
      unfolding post_fields set_map by (intro imageI)
    then show "\<exists>v \<in> set (token_wallet (post db r w')). tw_id v = tl_wallet_id q"
      using key(2) [OF v(1)] v(2) by metis
  qed
  show "db_inv (post db r w')"
    using inv books fk unfolding db_inv_def post_fields(2,3) ids tens by blast
  have "\<exists>v \<in> set (token_wallet (post db r w')). tw_id v = tw_id x \<and> tw_tenantID v = tw_tenantID x"
    if "x \<in> set (token_wallet db)" for x
    using key [OF that] that unfolding post_fields set_map by blast
  moreover have "acct_step\<^sup>*\<^sup>* (account_of (wrows db wid)) (account_of (wrows (post db r w') wid))" for wid
    using acct r(1) by (auto simp: wrows_post)
  ultimately show "evolves db (post db r w')"
    unfolding evolves_def post_fields(1,3) by blast
qed

text \<open>The books after each kind of posting, and the step the account takes.\<close>

definition posting :: "TokenWallet \<Rightarrow> token_ledger_row list \<Rightarrow> token_ledger_row \<Rightarrow> TokenWallet \<Rightarrow> bool" where
  "posting w L r w' \<longleftrightarrow> books w' (L @ [r]) \<and> acct_step (account_of L) (account_of (L @ [r]))"

lemma version_Suc: "wrap64 (wrap64 (int (length L)) + 1) = wrap64 (int (length (L @ [r])))"
  by (simp only: wrap64_wrap64_add length_append) (simp add: algebra_simps)

lemma posting_grant:
  assumes "books w L" "tl_kind g = KindGrant" "tl_idempotency_key g \<notin> tl_idempotency_key ` set L"
    and "0 < tl_amount g" "tw_balance w + tl_amount g \<le> max_i64"
    and "tw_balance w' = tw_balance w + tl_amount g" "tw_reserved w' = tw_reserved w"
      "tw_version w' = wrap64 (tw_version w + 1)"
  shows "posting w L g w'"
proof -
  have "account_of (L @ [g]) = (account_of L)\<lparr>acc_balance := acc_balance (account_of L) + tl_amount g\<rparr>"
    using assms(2) by (simp add: account_of_def open_rows_grant credited_append)
  moreover have "acc_balance (account_of L) + tl_amount g \<le> max_i64"
    using assms(1,5) by (simp add: account_of_def books_def)
  ultimately have "acct_step (account_of L) (account_of (L @ [g]))"
    using acct_grant [OF assms(4)] by simp
  moreover have "open_total (L @ [g]) = open_total L"
    using assms(2) by (simp add: open_total_def open_rows_grant)
  ultimately show ?thesis using assms version_Suc [of L g]
    by (simp add: posting_def books_def wallet_ok_def credited_append ledger_ok_grant)
qed

lemma posting_reserve:
  assumes "books w L" "is_reserve n" "tl_idempotency_key n \<notin> tl_idempotency_key ` set L"
    and "tl_external_ref n \<noteq> None" "tl_amount n < 0"
    and fresh: "\<And>s. s \<in> set L \<Longrightarrow> tl_external_ref s \<noteq> tl_external_ref n"
    and "tw_reserved w - tl_amount n \<le> tw_balance w"
    and "tw_balance w' = tw_balance w" "tw_reserved w' = tw_reserved w - tl_amount n"
      "tw_version w' = wrap64 (tw_version w + 1)"
  shows "posting w L n w'"
proof -
  have rows: "open_rows (L @ [n]) = open_rows L @ [n]" using assms(2) fresh by (rule open_rows_reserve)
  have "- max_i64 \<le> tl_amount n" using assms(1,7) by (simp add: books_def wallet_ok_def)
  then have "ledger_ok (L @ [n])" using assms by (auto simp: books_def intro!: ledger_ok_reserve)
  moreover have cr: "credited (L @ [n]) = credited L"
    using assms(2) by (simp add: credited_append is_reserve_def)
  moreover have "account_of (L @ [n]) = (account_of L)
      \<lparr>acc_open := acc_open (account_of L) @ [(tl_external_ref n, - tl_amount n)]\<rparr>"
    by (simp add: account_of_def rows cr)
  moreover have "- tl_amount n \<le> acc_available (account_of L)"
    using assms(1,7) by (simp add: acc_available_account_of books_def)
  moreover have "tl_external_ref n \<notin> fst ` set (acc_open (account_of L))"
    using fresh by (auto simp: account_of_def open_rows_def) metis
  ultimately show ?thesis using assms version_Suc [of L n]
    by (auto simp: posting_def books_def wallet_ok_def open_total_def rows intro!: acct_reserve)
qed

lemma posting_settle:
  assumes "books w L" "tl_idempotency_key s \<notin> tl_idempotency_key ` set L"
    and r: "r \<in> set L" "is_reserve r" "\<not> is_settled L r" "settled_by r s"
    and same: "\<And>x. x \<in> set L \<Longrightarrow> tl_wallet_id x = tl_wallet_id r"
    and amt: "tl_kind s = KindCommit \<Longrightarrow> tl_amount r \<le> tl_amount s \<and> tl_amount s < 0"
    and "- tl_amount r \<le> tw_reserved w"
    and "tw_balance w' = tw_balance w + (if tl_kind s = KindCommit then tl_amount s else 0)"
      "tw_reserved w' = tw_reserved w + tl_amount r" "tw_version w' = wrap64 (tw_version w + 1)"
  shows "posting w L s w'"
proof -
  have ok: "ledger_ok L" using assms(1) by (simp add: books_def)
  have "ledger_ok (L @ [s])" and "open_total (L @ [s]) = open_total L + tl_amount r"
    using ledger_ok_settle [OF ok assms(2) r same] open_total_settle [OF ok r same] by blast+
  moreover have "is_settlement s" using r by (simp add: settled_by_def)
  then have cr: "credited (L @ [s]) = credited L + (if tl_kind s = KindCommit then tl_amount s else 0)"
    by (auto simp: credited_append is_settlement_def)
  moreover have "tl_amount r < 0" using ok r by (auto simp: ledger_ok_def)
  ultimately have "books w' (L @ [s])"
    using assms(1,9-) amt version_Suc [of L s] by (auto simp: books_def wallet_ok_def)
  moreover have "acct_step (account_of L) (account_of (L @ [s]))"
  proof -
    let ?a = "account_of L" and ?ref = "tl_external_ref r"
    let ?b = "acc_balance ?a + (if tl_kind s = KindCommit then tl_amount s else 0)"
    have o: "(?ref, - tl_amount r) \<in> set (acc_open ?a)"
      using account_settle(1) [OF ok r same] by blast
    have eq: "account_of (L @ [s]) = ?a\<lparr>acc_balance := ?b,
        acc_open := filter (\<lambda>p. fst p \<noteq> ?ref) (acc_open ?a)\<rparr>"
      using account_settle(2) [OF ok r same] cr by (simp add: account_of_def)
    show ?thesis
    proof (cases "tl_kind s = KindCommit")
      case True
      then show ?thesis
        using acct_commit [OF o, of "- tl_amount s"] amt unfolding eq by simp
    next
      case False
      then show ?thesis using acct_release [OF o] unfolding eq by simp
    qed
  qed
  ultimately show ?thesis by (simp add: posting_def)
qed

section \<open>The writers as postings\<close>

lemma insert_ledger_Inr:
  "insert_ledger scope db r = Inr db' \<longleftrightarrow>
     db' = db\<lparr>token_ledger := token_ledger db @ [r]\<rparr> \<and> known_kind (tl_kind r) \<and>
     (\<forall>t. scope = Some t \<longrightarrow> tl_tenant_id r = t) \<and>
     \<not> idem_taken db (tl_wallet_id r) (tl_idempotency_key r) \<and>
     (\<forall>q \<in> set (token_ledger db). tl_id q \<noteq> tl_id r) \<and>
     (\<exists>w \<in> set (token_wallet db). tw_id w = tl_wallet_id r) \<and> source_paired r \<and> grant_fk db r"
  by (auto simp: insert_ledger_def split: option.splits)

lemma not_idem_taken_wrows:
  "\<not> idem_taken db wid key \<longleftrightarrow> key \<notin> tl_idempotency_key ` set (wrows db wid)"
  by (auto simp: idem_taken_def wrows_def)

lemma update_wallet_row_post:
  assumes inv: "db_inv db" and w: "w \<in> set (token_wallet db)"
    and hit: "\<And>x. x \<in> set (token_wallet db) \<Longrightarrow> hit x \<longleftrightarrow> tw_id x = tw_id w"
    and f: "tw_id (f w) = tw_id w"
  shows "update_wallet_row (db\<lparr>token_ledger := token_ledger db @ [r]\<rparr>) hit f = post db r (f w)"
proof -
  have "(if hit x then f x else x) = (if tw_id x = tw_id (f w) then f w else x)"
    if "x \<in> set (token_wallet db)" for x
    using same_wallet [OF inv that w] hit [OF that] f by (metis (full_types))
  then show ?thesis by (simp add: update_wallet_row_def post_def)
qed

lemma ApplyWithLock_effect:
  assumes inv: "db_inv db" and a: "ApplyWithLock dbnow db w [e] = Inr db'"
  obtains row where "row \<in> set (token_wallet db)" "tw_id row = tw_id w"
    "tw_tenantID row = tw_tenantID w" "tw_version row = wrap64 (tw_version w - 1)"
    "le_TenantID e = tw_tenantID w" "\<not> idem_taken db (le_WalletID e) (le_IdempotencyKey e)"
    "db' = post db (ledger_row e) (row\<lparr>tw_balance := tw_balance w, tw_reserved := tw_reserved w,
       tw_version := tw_version w, tw_updatedAt := dbnow\<rparr>)"
proof -
  obtain row where row: "find (\<lambda>r. tw_tenantID r = tw_tenantID w \<and> tw_id r = tw_id w) (token_wallet db)
      = Some row" and v: "tw_version row = wrap64 (tw_version w - 1)"
    using a by (auto simp: ApplyWithLock_def split: option.splits if_splits)
  have r: "row \<in> set (token_wallet db)" "tw_id row = tw_id w" "tw_tenantID row = tw_tenantID w"
    using find_SomeD [OF row] by auto
  obtain db1 where ins: "insert_ledger (Some (tw_tenantID w)) db (ledger_row e) = Inr db1"
    using a row v by (auto simp: ApplyWithLock_def split: if_splits sum.splits pgerr.splits)
  let ?hit = "\<lambda>x. tw_tenantID x = tw_tenantID w \<and> tw_id x = tw_id w \<and> tw_version x = tw_version row"
  let ?f = "\<lambda>x. x\<lparr>tw_balance := tw_balance w, tw_reserved := tw_reserved w,
       tw_version := tw_version w, tw_updatedAt := dbnow\<rparr>"
  have db': "db' = update_wallet_row db1 ?hit ?f"
    using a row v ins by (auto simp: ApplyWithLock_def Let_def split: if_splits)
  have d: "db1 = db\<lparr>token_ledger := token_ledger db @ [ledger_row e]\<rparr>"
    "le_TenantID e = tw_tenantID w" "\<not> idem_taken db (le_WalletID e) (le_IdempotencyKey e)"
    using ins by (auto simp: insert_ledger_Inr ledger_row_def)
  have hit: "?hit x \<longleftrightarrow> tw_id x = tw_id row" if "x \<in> set (token_wallet db)" for x
    using same_wallet [OF inv that r(1)] r by auto
  have "db' = post db (ledger_row e) (?f row)"
    unfolding db' d(1) by (rule update_wallet_row_post [OF inv r(1) hit]) simp_all
  then show thesis using that r v d by blast
qed

text \<open>
  Conversely, with the row still at the loaded version and a fresh key and identifier, the
  transaction commits.
\<close>

lemma ApplyWithLock_commits:
  assumes inv: "db_inv db" and r: "row \<in> set (token_wallet db)" "tw_id row = tw_id w"
    "tw_tenantID row = tw_tenantID w" "tw_tenantID w \<noteq> uuid_nil"
    and v: "tw_version row = wrap64 (tw_version w - 1)"
    and e: "le_TenantID e = tw_tenantID w" "le_WalletID e = tw_id w" "known_kind (le_Kind e)"
      "\<not> idem_taken db (tw_id w) (le_IdempotencyKey e)"
      "\<forall>q \<in> set (token_ledger db). tl_id q \<noteq> le_ID e"
      "source_paired (ledger_row e)" "grant_fk db (ledger_row e)"
    and nn: "0 \<le> tw_balance w" "0 \<le> tw_reserved w"
  shows "\<exists>db'. ApplyWithLock dbnow db w [e] = Inr db'"
proof -
  let ?db1 = "db\<lparr>token_ledger := token_ledger db @ [ledger_row e]\<rparr>"
  let ?hit = "\<lambda>x. tw_tenantID x = tw_tenantID w \<and> tw_id x = tw_id w \<and> tw_version x = tw_version row"
  have dist: "distinct (map tw_id (token_wallet db))" using inv by (simp add: db_inv_def)
  have hit: "?hit x \<longleftrightarrow> tw_id x = tw_id row" if "x \<in> set (token_wallet db)" for x
    using same_wallet [OF inv that r(1)] r by auto
  have ins: "insert_ledger (Some (tw_tenantID w)) db (ledger_row e) = Inr ?db1"
    using e r by (auto simp: insert_ledger_Inr ledger_row_def)
  have "filter ?hit (token_wallet ?db1) = filter (\<lambda>x. tw_id x = tw_id row) (token_wallet db)"
    using hit by (auto intro!: filter_cong)
  also have "\<dots> = [row]" using dist r(1) by (rule filter_eq_singleton)
  finally have one: "length (filter ?hit (token_wallet ?db1)) = 1" by simp
  have "\<exists>y. find (\<lambda>r. tw_tenantID r = tw_tenantID w \<and> tw_id r = tw_id w) (token_wallet db) = Some y"
    using r find_NoneD [of "\<lambda>r. tw_tenantID r = tw_tenantID w \<and> tw_id r = tw_id w"] by (metis not_None_eq)
  then obtain y where y: "find (\<lambda>r. tw_tenantID r = tw_tenantID w \<and> tw_id r = tw_id w)
      (token_wallet db) = Some y" by blast
  have "y = row" using find_SomeD [OF y] same_wallet [OF inv _ r(1)] r(2) by simp
  then show ?thesis using y v r(4) ins one nn by (simp add: ApplyWithLock_def Let_def)
qed

section \<open>The master-scoped writers keep the invariant\<close>

lemma AllocateMonthlyQuota_inv:
  assumes inv: "db_inv db" and a: "AllocateMonthlyQuota lid now db t ps amount key = Inr (g, db')"
  shows "db_inv db' \<and> evolves db db' \<and> (if \<not> g then db' = db else (\<exists>w r. w \<in> set (token_wallet db) \<and> tw_tenantID w = t \<and>
     \<not> idem_taken db (tw_id w) key \<and> tl_kind r = KindGrant \<and> tl_amount r = amount \<and>
     tl_idempotency_key r = key \<and> tl_wallet_id r = tw_id w \<and>
     db' = post db r (w\<lparr>tw_balance := tw_balance w + amount, tw_version := tw_version w + 1,
       tw_updatedAt := now\<rparr>)))"
proof (cases g)
  case False
  then have "db' = db" using a
    by (auto simp: AllocateMonthlyQuota_def split: if_splits option.splits sum.splits)
  with False inv show ?thesis by (simp add: evolves_refl_db)
next
  case True
  obtain w where fw: "find_wallet db t = Some w" and nt: "\<not> idem_taken db (tw_id w) key"
    and amt: "0 < amount" and rng: "in_i64 (tw_balance w + amount)" "in_i64 (tw_version w + 1)"
    using a True by (auto simp: AllocateMonthlyQuota_def split: if_splits option.splits sum.splits)
  define r where "r = \<lparr>tl_id = lid, tl_wallet_id = tw_id w, tl_tenant_id = t, tl_kind = KindGrant,
     tl_amount = amount, tl_idempotency_key = key, tl_external_ref = None,
     tl_source = SourceMonthlyAlloc, tl_master_grant_id = None, tl_occurred_at = now,
     tl_created_at = now\<rparr>"
  define w' where "w' = w\<lparr>tw_balance := tw_balance w + amount, tw_version := tw_version w + 1,
     tw_updatedAt := now\<rparr>"
  have w: "w \<in> set (token_wallet db)" "tw_tenantID w = t" using fw find_wallet_iff [OF inv] by auto
  have db': "db' = update_wallet_row (db\<lparr>token_ledger := token_ledger db @ [r]\<rparr>) (\<lambda>x. tw_id x = tw_id w)
      (\<lambda>r. r\<lparr>tw_balance := tw_balance r + amount, tw_version := tw_version r + 1, tw_updatedAt := now\<rparr>)"
    using a True fw nt amt rng
    by (auto simp: AllocateMonthlyQuota_def r_def insert_ledger_Inr split: if_splits sum.splits)
  have post: "db' = post db r w'"
    unfolding db' w'_def by (rule update_wallet_row_post [OF inv w(1)]) simp_all
  have b: "books w (wrows db (tw_id w))" using db_inv_tenant [OF inv w(1)] by (simp add: tenant_books_def)
  have "posting w (wrows db (tw_id w)) r w'"
    using b nt amt rng
    by (intro posting_grant [OF b]) (auto simp: r_def w'_def not_idem_taken_wrows wrap64_id i64)
  then have "db_inv db'" "evolves db db'"
    unfolding post using post_inv [OF inv w(1)] w(2) by (auto simp: r_def w'_def posting_def)
  moreover have "tl_kind r = KindGrant \<and> tl_amount r = amount \<and> tl_idempotency_key r = key \<and>
      tl_wallet_id r = tw_id w" by (simp add: r_def)
  ultimately show ?thesis using w nt post True unfolding w'_def by auto
qed

lemma AllocateMonthlyQuota_rows:
  assumes "db_inv db" and "AllocateMonthlyQuota lid now db t ps amount key = Inr (g, db')"
  shows "token_ledger db' = token_ledger db \<or>
     (\<exists>r. tl_kind r = KindGrant \<and> token_ledger db' = token_ledger db @ [r])"
proof (cases g)
  case False
  then show ?thesis using AllocateMonthlyQuota_inv [OF assms] by simp
next
  case True
  then show ?thesis using AllocateMonthlyQuota_inv [OF assms] by (metis (full_types) post_fields(1))
qed

text \<open>A wallet created together with its first grant.\<close>

lemma new_wallet_inv:
  assumes inv: "db_inv db" and new: "tw_id w \<noteq> uuid_nil" "tw_tenantID w \<noteq> uuid_nil"
    "\<forall>x \<in> set (token_wallet db). tw_id x \<noteq> tw_id w \<and> tw_tenantID x \<noteq> tw_tenantID w"
    and r: "tl_wallet_id r = tw_id w" "tl_tenant_id r = tw_tenantID w"
    and nol: "\<forall>q \<in> set (token_ledger db). tl_wallet_id q \<noteq> tw_id w"
    and b: "books w [r]" and acct: "acct_step (account_of []) (account_of [r])"
    and db': "token_wallet db' = token_wallet db @ [w]" "token_ledger db' = token_ledger db @ [r]"
      "master_grant db' = master_grant db"
  shows "db_inv db' \<and> evolves db db'"
proof -
  have rows: "wrows db' x = wrows db x @ (if tw_id w = x then [r] else [])" for x
    using db' r by (simp add: wrows_def)
  have none: "wrows db (tw_id w) = []" using nol by (simp add: wrows_def filter_empty_conv)
  have "tenant_books db' x" if "x \<in> set (token_wallet db)" for x
    using new db_inv_tenant [OF inv that] that by (auto simp: tenant_books_def rows)
  moreover have "tenant_books db' w"
    using new r b by (simp add: tenant_books_def rows none)
  ultimately have "db_inv db'"
    using inv new db' r by (auto simp: db_inv_def)
  moreover have "acct_step\<^sup>*\<^sup>* (account_of (wrows db x)) (account_of (wrows db' x))" for x
    using acct none by (auto simp: rows)
  ultimately show ?thesis using db' by (auto simp: evolves_def)
qed

lemma CourtesyStore_Issue_inv:
  assumes inv: "db_inv db" and ids: "wid \<noteq> uuid_nil" "\<forall>q \<in> set (token_ledger db). tl_wallet_id q \<noteq> wid"
    and amt: "amount \<le> max_i64"
    and a: "CourtesyStore_Issue ustr gid wid lid now db t actor amount = Inr (iss, db')"
  shows "db_inv db' \<and> evolves db db'"
proof (cases "find (\<lambda>g. cg_tenant_id g = t) (courtesy_grant db)")
  case (Some g)
  then have "db' = db" using a
    by (auto simp: CourtesyStore_Issue_def split: if_splits option.splits)
  with inv show ?thesis by (simp add: evolves_refl_db)
next
  case None
  let ?r = "\<lparr>tl_id = lid, tl_wallet_id = wid, tl_tenant_id = t, tl_kind = KindGrant,
     tl_amount = amount, tl_idempotency_key = courtesyIdempotencyKey ustr t,
     tl_external_ref = Some (ustr gid), tl_source = SourceConsumption, tl_master_grant_id = None,
     tl_occurred_at = now, tl_created_at = now\<rparr>"
  let ?w = "hydrate wid t amount 0 1 now now"
  have g: "t \<noteq> uuid_nil" "0 < amount"
    "\<forall>x \<in> set (token_wallet db). tw_id x \<noteq> wid \<and> tw_tenantID x \<noteq> t"
    using a None by (auto simp: CourtesyStore_Issue_def Let_def split: if_splits)
  have old: "map (\<lambda>x. if tw_id x = wid \<and> tw_version x = 0 then f x else x) (token_wallet db) = token_wallet db" for f
    using g(3) by (auto intro!: map_idI)
  have "token_wallet db' = token_wallet db @ [?w]" "token_ledger db' = token_ledger db @ [?r]"
    "master_grant db' = master_grant db"
    using a None g old
    by (auto simp: CourtesyStore_Issue_def Let_def insert_ledger_Inr update_wallet_row_def hydrate_def
        split: if_splits sum.splits)
  moreover have "posting (hydrate wid t 0 0 0 now now) [] ?r ?w"
    using g amt by (intro posting_grant) (auto simp: books_def wallet_ok_def ledger_ok_def
        credited_def open_total_def open_rows_def hydrate_def wrap64_def i64)
  ultimately show ?thesis
    using inv g ids by (intro new_wallet_inv [where w = ?w and r = ?r]) (auto simp: hydrate_def posting_def)
qed

text \<open>Grants.\<close>

lemma grants_inv:
  assumes inv: "db_inv db"
    and "\<And>g. g \<in> set (master_grant db) \<Longrightarrow> mg_id (f g) = mg_id g \<and> grant_ok (f g) \<and>
      (IsConsumed g \<or> IsRevoked g \<longrightarrow> f g = g)"
  shows "db_inv (db\<lparr>master_grant := map f (master_grant db)\<rparr>) \<and>
     evolves db (db\<lparr>master_grant := map f (master_grant db)\<rparr>)"
proof -
  have "map (mg_id \<circ> f) (master_grant db) = map mg_id (master_grant db)" using assms(2) by simp
  then have "distinct (map (mg_id \<circ> f) (master_grant db))" using inv by (simp only: db_inv_def)
  moreover have "tenant_books (db\<lparr>master_grant := m\<rparr>) w = tenant_books db w" for m w
    by (simp add: tenant_books_def wrows_def)
  ultimately show ?thesis using assms by (auto simp: db_inv_def evolves_def wrows_def)
qed

lemma char_length_le: "char_length s \<le> length s"
  by (simp add: char_length_def)

lemma grant_updates_inv:
  assumes "db_inv db"
  shows "consume_update gid ref now db = Inr ((), db') \<Longrightarrow> db_inv db' \<and> evolves db db'"
    and "revoke_update gid by_user reason now db = Inr ((), db') \<Longrightarrow> db_inv db' \<and> evolves db db'"
proof -
  have ok: "g \<in> set (master_grant db) \<Longrightarrow> grant_ok g" for g using assms by (simp add: db_inv_def)
  show "consume_update gid ref now db = Inr ((), db') \<Longrightarrow> db_inv db' \<and> evolves db db'"
    using ok by (auto simp: consume_update_def update_grant_row_def pending_grant_def grant_ok_def
        IsConsumed_def IsRevoked_def split: if_splits intro!: grants_inv [OF assms])
  show "revoke_update gid by_user reason now db = Inr ((), db') \<Longrightarrow> db_inv db' \<and> evolves db db'"
    using ok char_length_le [of reason]
    by (auto simp: revoke_update_def update_grant_row_def pending_grant_def grant_ok_def
        IsConsumed_def IsRevoked_def split: if_splits intro!: grants_inv [OF assms])
qed

lemma MasterGrantStore_Create_inv:
  assumes "db_inv db" "MasterGrantStore_Create db g = Inr db'"
  shows "db_inv db' \<and> evolves db db'"
proof -
  let ?g = "g\<lparr>mg_payload := json_payload (mg_payload g), mg_consumedAt := None, mg_consumedRef := '''', mg_revokedAt := None,
     mg_revokedByUserID := None, mg_revokeReason := ''''\<rparr>"
  have db': "db' = db\<lparr>master_grant := master_grant db @ [?g]\<rparr>"
    and new: "mg_id g \<notin> mg_id ` set (master_grant db)"
    using assms(2) by (auto simp: MasterGrantStore_Create_def split: if_splits)
  have "tenant_books (db\<lparr>master_grant := m\<rparr>) w = tenant_books db w" for m w
    by (simp add: tenant_books_def wrows_def)
  then have "db_inv db'" using assms(1) new
    by (simp add: db' db_inv_def grant_ok_def IsConsumed_def IsRevoked_def)
  then show ?thesis by (auto simp: db' evolves_def wrows_def)
qed

end
