(* ===== verification/BillingStore.thy ===== *)
theory BillingStore
  imports WalletStore
begin

text \<open>
  The Postgres adapter of the billing domain, \<^verbatim>\<open>src/internal/adapter/db/postgres/billing\<close>: the
  plan catalogue, the subscription and invoice repositories and the renewal transaction,
  over the tables of migration 0097, and the renewal worker \<^verbatim>\<open>src/internal/worker/billing\<close>.
  Rows of \<open>invoice\<close> hold their period as dates, that is as midnights.
\<close>

section \<open>The calendar\<close>

text \<open>
  \<^verbatim>\<open>t.AddDate(0, 1, 0)\<close> of \<^verbatim>\<open>time\<close>, in UTC: the same day number and time of day in the next month, where
  \<^verbatim>\<open>time.Date\<close> carries an overflowing day into the month after. Months are numbered through
  from year 0; \<open>month_start k\<close> is the day (since 1970-01-01) month \<open>k\<close> starts on.
\<close>

definition day_ns :: int where
  "day_ns = 86400 * 1000000000"

definition leap :: "int \<Rightarrow> bool" where
  "leap y \<longleftrightarrow> y mod 4 = 0 \<and> (y mod 100 \<noteq> 0 \<or> y mod 400 = 0)"

definition days_before_year :: "int \<Rightarrow> int" where
  "days_before_year y = 365 * y + (y + 3) div 4 - (y + 99) div 100 + (y + 399) div 400"

definition days_before_month :: "int \<Rightarrow> int \<Rightarrow> int" where
  "days_before_month y m =
     [0, 31, 59, 90, 120, 151, 181, 212, 243, 273, 304, 334] ! nat m
     + (if 2 \<le> m \<and> leap y then 1 else 0)"

definition month_start :: "int \<Rightarrow> int" where
  "month_start k = days_before_year (k div 12) + days_before_month (k div 12) (k mod 12) - 719528"

definition month_of :: "int \<Rightarrow> int" where
  "month_of d = (let k = (d + 719528) * 4800 div 146097
     in last (filter (\<lambda>j. month_start j \<le> d) [k - 2, k - 1, k, k + 1, k + 2]))"

definition add_month :: "time \<Rightarrow> time" where
  "add_month t = (let d = t div day_ns; k = month_of d
     in (month_start (k + 1) + (d - month_start k)) * day_ns + t mod day_ns)"

definition date_of :: "time \<Rightarrow> time" where
  "date_of t = t div day_ns * day_ns"

section \<open>Plans\<close>

definition ListPlans :: "crm_db \<Rightarrow> Plan list bresult" where
  "ListPlans db = Inr (sort_key pl_PriceCentsBRL (plans db))"

definition GetBySlug :: "crm_db \<Rightarrow> string \<Rightarrow> Plan bresult" where
  "GetBySlug db slug =
     (case find (\<lambda>p. pl_Slug p = slug) (plans db) of None \<Rightarrow> berr billing_ErrNotFound | Some p \<Rightarrow> Inr p)"

definition GetPlanByID :: "crm_db \<Rightarrow> uuid \<Rightarrow> Plan bresult" where
  "GetPlanByID db pid =
     (if pid = uuid_nil then berr billing_ErrNotFound
      else case find (\<lambda>p. pl_ID p = pid) (plans db) of None \<Rightarrow> berr billing_ErrNotFound | Some p \<Rightarrow> Inr p)"

section \<open>Subscriptions\<close>

definition GetByTenant :: "crm_db \<Rightarrow> uuid \<Rightarrow> Subscription bresult" where
  "GetByTenant db tenantID =
     (if tenantID = uuid_nil then berr billing_ErrZeroTenant
      else case find (\<lambda>s. sub_tenantID s = tenantID \<and> sub_status s = SubscriptionStatusActive)
                  (subscription db) of
             None \<Rightarrow> berr billing_ErrNotFound
           | Some s \<Rightarrow> Inr s)"

text \<open>The CHECKs, the foreign key and the partial unique index of table \<open>subscription\<close>.\<close>

definition subscription_checks :: "crm_db \<Rightarrow> Subscription \<Rightarrow> bool" where
  "subscription_checks db s \<longleftrightarrow>
     (sub_status s = SubscriptionStatusActive \<or> sub_status s = SubscriptionStatusCancelled)
     \<and> sub_currentPeriodStart s < sub_currentPeriodEnd s
     \<and> (\<exists>p \<in> set (plans db). pl_ID p = sub_planID s)"

definition active_clash :: "crm_db \<Rightarrow> Subscription \<Rightarrow> bool" where
  "active_clash db s \<longleftrightarrow> sub_status s = SubscriptionStatusActive \<and>
     (\<exists>x \<in> set (subscription db). sub_id x \<noteq> sub_id s \<and> sub_tenantID x = sub_tenantID s
        \<and> sub_status x = SubscriptionStatusActive)"

text \<open>
  \<^verbatim>\<open>SaveSubscription\<close>: INSERT, or on a primary-key conflict the UPDATE of the listed columns (not
  \<open>tenant_id\<close>, not \<open>created_at\<close>).
\<close>

definition SaveSubscription :: "crm_db \<Rightarrow> Subscription \<Rightarrow> uuid \<Rightarrow> (unit \<times> crm_db) bresult" where
  "SaveSubscription db s actorID =
     (if actorID = uuid_nil then Inl (Opaque ''postgres: actor id must not be uuid.Nil'')
      else if \<not> subscription_checks db s
        then Inl (Wrapped ''billing/postgres: save subscription'' (Opaque ''check violation''))
      else if \<exists>x \<in> set (subscription db). sub_id x = sub_id s then
        let upd = (\<lambda>x. x\<lparr>sub_status := sub_status s, sub_planID := sub_planID s,
                       sub_currentPeriodStart := sub_currentPeriodStart s,
                       sub_currentPeriodEnd := sub_currentPeriodEnd s,
                       sub_updatedAt := sub_updatedAt s\<rparr>)
        in if \<exists>x \<in> set (subscription db). sub_id x = sub_id s \<and> active_clash db (upd x)
             then berr billing_ErrInvalidTransition
           else Inr ((), db\<lparr>subscription :=
                  map (\<lambda>x. if sub_id x = sub_id s then upd x else x) (subscription db)\<rparr>)
      else if active_clash db s then berr billing_ErrInvalidTransition
      else Inr ((), db\<lparr>subscription := subscription db @ [s]\<rparr>))"

section \<open>Invoices\<close>

definition invoice_GetByID :: "crm_db \<Rightarrow> uuid \<Rightarrow> uuid \<Rightarrow> Invoice bresult" where
  "invoice_GetByID db tenantID invoiceID =
     (if tenantID = uuid_nil then berr billing_ErrZeroTenant
      else case find (\<lambda>i. inv_id i = invoiceID \<and> inv_tenantID i = tenantID) (invoice db) of
             None \<Rightarrow> berr billing_ErrNotFound
           | Some i \<Rightarrow> Inr i)"

definition ListByTenant :: "crm_db \<Rightarrow> uuid \<Rightarrow> Invoice list bresult" where
  "ListByTenant db tenantID =
     (if tenantID = uuid_nil then berr billing_ErrZeroTenant
      else Inr (sort_key (\<lambda>i. - inv_periodStart i)
             (filter (\<lambda>i. inv_tenantID i = tenantID) (invoice db))))"

definition invoice_checks :: "crm_db \<Rightarrow> Invoice \<Rightarrow> bool" where
  "invoice_checks db i \<longleftrightarrow>
     0 \<le> inv_amountCentsBRL i \<and> inv_amountCentsBRL i \<le> 2147483647
     \<and> inv_periodStart i < inv_periodEnd i
     \<and> (if inv_state i = InvoiceStateCancelledByMaster then char_length (inv_cancelledReason i) \<ge> 10
        else inv_cancelledReason i = '''')
     \<and> (\<exists>s \<in> set (subscription db). sub_id s = inv_subscriptionID i)"

text \<open>The partial unique index \<^verbatim>\<open>invoice_tenant_period_active_idx\<close>.\<close>

definition period_clash :: "crm_db \<Rightarrow> Invoice \<Rightarrow> bool" where
  "period_clash db i \<longleftrightarrow> inv_state i \<noteq> InvoiceStateCancelledByMaster \<and>
     (\<exists>j \<in> set (invoice db). inv_id j \<noteq> inv_id i \<and> inv_tenantID j = inv_tenantID i
        \<and> inv_periodStart j = inv_periodStart i \<and> inv_state j \<noteq> InvoiceStateCancelledByMaster)"

definition invoice_row :: "Invoice \<Rightarrow> Invoice" where
  "invoice_row i = i\<lparr>inv_periodStart := date_of (inv_periodStart i),
                    inv_periodEnd := date_of (inv_periodEnd i)\<rparr>"

definition SaveInvoice :: "crm_db \<Rightarrow> Invoice \<Rightarrow> uuid \<Rightarrow> (unit \<times> crm_db) bresult" where
  "SaveInvoice db inv0 actorID =
     (let i = invoice_row inv0 in
      if actorID = uuid_nil then Inl (Opaque ''postgres: actor id must not be uuid.Nil'')
      else if \<not> invoice_checks db i
        then Inl (Wrapped ''billing/postgres: save invoice'' (Opaque ''check violation''))
      else if \<exists>x \<in> set (invoice db). inv_id x = inv_id i then
        let upd = (\<lambda>x. x\<lparr>inv_state := inv_state i, inv_cancelledReason := inv_cancelledReason i,
                       inv_updatedAt := inv_updatedAt i\<rparr>)
        in if \<exists>x \<in> set (invoice db). inv_id x = inv_id i \<and> period_clash db (upd x)
             then berr billing_ErrInvoiceAlreadyExists
           else Inr ((), db\<lparr>invoice := map (\<lambda>x. if inv_id x = inv_id i then upd x else x) (invoice db)\<rparr>)
      else if period_clash db i then berr billing_ErrInvoiceAlreadyExists
      else Inr ((), db\<lparr>invoice := invoice db @ [i]\<rparr>))"

section \<open>Renewal\<close>

record DueSubscription =
  due_ID :: uuid
  due_TenantID :: uuid
  due_PlanID :: uuid
  due_PlanPriceCents :: int
  due_CurrentPeriodEnd :: time

definition ListDueSubscriptions :: "crm_db \<Rightarrow> time \<Rightarrow> int \<Rightarrow> DueSubscription list bresult" where
  "ListDueSubscriptions db asOf limit0 =
     (let limit = (if limit0 \<le> 0 then 100 else nat limit0);
          due = filter (\<lambda>s. sub_status s = SubscriptionStatusActive \<and> sub_currentPeriodEnd s \<le> asOf)
                  (subscription db);
          joined = concat (map (\<lambda>s. map (\<lambda>p.
                     \<lparr>due_ID = sub_id s, due_TenantID = sub_tenantID s, due_PlanID = sub_planID s,
                      due_PlanPriceCents = pl_PriceCentsBRL p,
                      due_CurrentPeriodEnd = sub_currentPeriodEnd s\<rparr>)
                     (filter (\<lambda>p. pl_ID p = sub_planID s) (plans db))) due)
      in Inr (take limit (sort_key due_CurrentPeriodEnd joined)))"

record RenewResult =
  rr_Invoice :: Invoice
  rr_Subscription :: Subscription
  rr_NewPeriodStart :: time
  rr_NewPeriodEnd :: time

text \<open>
  \<^verbatim>\<open>RenewSubscription\<close>; \<open>iid\<close> is the drawn invoice id. The subscription row is locked first, so the
  transaction is atomic.
\<close>

definition RenewSubscription ::
  "uuid \<Rightarrow> crm_db \<Rightarrow> uuid \<Rightarrow> time \<Rightarrow> int \<Rightarrow> uuid \<Rightarrow> time \<Rightarrow> (RenewResult \<times> crm_db) bresult" where
  "RenewSubscription iid db subID oldPeriodEnd planPriceCents actorID now =
     (if subID = uuid_nil then Inl (Opaque ''billing/postgres: subID is required'')
      else let newStart = oldPeriodEnd; newEnd = add_month oldPeriodEnd in
      if actorID = uuid_nil then Inl (Opaque ''postgres: actor id must not be uuid.Nil'')
      else case find (\<lambda>s. sub_id s = subID \<and> sub_status s = SubscriptionStatusActive)
                  (subscription db) of
             None \<Rightarrow> berr billing_ErrNotFound
           | Some s \<Rightarrow>
               let i = \<lparr>inv_id = iid, inv_tenantID = sub_tenantID s, inv_subscriptionID = subID,
                        inv_periodStart = newStart, inv_periodEnd = newEnd,
                        inv_amountCentsBRL = planPriceCents, inv_state = InvoiceStatePending,
                        inv_cancelledReason = '''', inv_createdAt = now, inv_updatedAt = now\<rparr>
               in if \<not> invoice_checks db (invoice_row i)
                    then Inl (Wrapped ''billing/postgres: insert invoice'' (Opaque ''check violation''))
                  else if (\<exists>j \<in> set (invoice db). inv_id j = iid) \<or> period_clash db (invoice_row i)
                    then berr billing_ErrInvoiceAlreadyExists
                  else if \<not> (\<exists>r \<in> set (subscription db). sub_id r = subID
                                \<and> sub_currentPeriodEnd r = oldPeriodEnd)
                    then berr billing_ErrInvoiceAlreadyExists
                  else Inr (\<lparr>rr_Invoice = i,
                             rr_Subscription = \<lparr>sub_id = subID, sub_tenantID = sub_tenantID s,
                               sub_planID = sub_planID s, sub_status = SubscriptionStatusActive,
                               sub_currentPeriodStart = newStart, sub_currentPeriodEnd = newEnd,
                               sub_createdAt = now, sub_updatedAt = now\<rparr>,
                             rr_NewPeriodStart = newStart, rr_NewPeriodEnd = newEnd\<rparr>,
                            db\<lparr>invoice := invoice db @ [invoice_row i],
                               subscription := map (\<lambda>r.
                                 if sub_id r = subID \<and> sub_currentPeriodEnd r = oldPeriodEnd
                                 then r\<lparr>sub_currentPeriodStart := newStart, sub_currentPeriodEnd := newEnd,
                                        sub_updatedAt := now\<rparr>
                                 else r) (subscription db)\<rparr>))"

section \<open>The renewal worker\<close>

record renewer_cfg =
  rn_actorID :: uuid
  rn_batchSize :: int
  rn_publishMaxRetries :: int
  rn_publishBaseDelay :: duration
  rn_publishMaxDelay :: duration

text \<open>
  \<^verbatim>\<open>publishWithBackoff\<close>: \<open>publish i\<close> is whether the i-th call of the publisher succeeds,
  \<open>cancelled i\<close> whether the context ends during the i-th pause. The result is whether the event went out, and the
  pauses taken.
\<close>

function publish_loop ::
  "(nat \<Rightarrow> bool) \<Rightarrow> (nat \<Rightarrow> bool) \<Rightarrow> nat \<Rightarrow> nat \<Rightarrow> duration \<Rightarrow> duration \<Rightarrow> bool \<times> duration list" where
  "publish_loop publish cancelled maxRetries i delay maxDelay =
     (if i \<ge> maxRetries then (False, [])
      else if publish i then (True, [])
      else if i = maxRetries - 1 then (False, [])
      else if cancelled i then (False, [])
      else let d2 = wrap64 (delay * 2);
               (ok, ds) = publish_loop publish cancelled maxRetries (Suc i)
                            (if d2 > maxDelay then maxDelay else d2) maxDelay
           in (ok, delay # ds))"
  by pat_completeness auto

termination publish_loop
  by (relation "measure (\<lambda>(p, c, m, i, d, x). m - i)") auto

declare publish_loop.simps [simp del]

definition publishWithBackoff ::
  "renewer_cfg \<Rightarrow> (nat \<Rightarrow> bool) \<Rightarrow> (nat \<Rightarrow> bool) \<Rightarrow> bool \<times> duration list" where
  "publishWithBackoff cfg publish cancelled =
     publish_loop publish cancelled (nat (rn_publishMaxRetries cfg)) 0
       (rn_publishBaseDelay cfg) (rn_publishMaxDelay cfg)"

definition new_renewer :: "renewer_cfg \<Rightarrow> renewer_cfg bresult" where
  "new_renewer cfg =
     (if rn_actorID cfg = uuid_nil then Inl (Opaque ''billing: ActorID is required (non-zero UUID)'')
      else Inr (cfg\<lparr>rn_batchSize := (if rn_batchSize cfg \<le> 0 then 100 else rn_batchSize cfg),
                   rn_publishMaxRetries := (if rn_publishMaxRetries cfg \<le> 0 then 5 else rn_publishMaxRetries cfg),
                   rn_publishBaseDelay := (if rn_publishBaseDelay cfg \<le> 0 then 100 * 1000000
                                           else rn_publishBaseDelay cfg),
                   rn_publishMaxDelay := (if rn_publishMaxDelay cfg \<le> 0 then 5 * 1000000000
                                          else rn_publishMaxDelay cfg)\<rparr>))"

datatype renew_outcome = RenewSuccess | RenewSkippedAlreadyDone | RenewError

record renewal_event =
  ev_MsgID :: "uuid \<times> time"
  ev_TenantID :: uuid
  ev_PlanID :: uuid
  ev_InvoiceID :: uuid
  ev_PreviousPeriodEnd :: time
  ev_NewPeriodStart :: time
  ev_NewPeriodEnd :: time
  ev_AmountCentsBRL :: int
  ev_RenewedAt :: time

text \<open>
  \<^verbatim>\<open>renewOne\<close>: the database write, then the event. \<open>pub\<close> is the publisher's behaviour for this event. The
  message id (\<^verbatim>\<open>buildMsgID\<close>) is the pair it prints. The result has the events that went out.
\<close>

definition renewOne ::
  "renewer_cfg \<Rightarrow> uuid \<Rightarrow> (nat \<Rightarrow> bool) \<Rightarrow> (nat \<Rightarrow> bool) \<Rightarrow> crm_db \<Rightarrow> DueSubscription \<Rightarrow> time
   \<Rightarrow> renew_outcome \<times> renewal_event list \<times> crm_db" where
  "renewOne cfg iid pub cancelled db d now =
     (case RenewSubscription iid db (due_ID d) (due_CurrentPeriodEnd d) (due_PlanPriceCents d)
             (rn_actorID cfg) now of
        Inl e \<Rightarrow>
          if errors_is e billing_ErrInvoiceAlreadyExists then (RenewSkippedAlreadyDone, [], db)
          else (RenewError, [], db)
      | Inr (res, db') \<Rightarrow>
          let ev = \<lparr>ev_MsgID = (due_ID d, rr_NewPeriodStart res),
                    ev_TenantID = sub_tenantID (rr_Subscription res),
                    ev_PlanID = sub_planID (rr_Subscription res),
                    ev_InvoiceID = inv_id (rr_Invoice res),
                    ev_PreviousPeriodEnd = due_CurrentPeriodEnd d,
                    ev_NewPeriodStart = rr_NewPeriodStart res, ev_NewPeriodEnd = rr_NewPeriodEnd res,
                    ev_AmountCentsBRL = inv_amountCentsBRL (rr_Invoice res), ev_RenewedAt = now\<rparr>
          in if fst (publishWithBackoff cfg pub cancelled) then (RenewSuccess, [ev], db')
             else (RenewError, [], db'))"

text \<open>
  \<^verbatim>\<open>Tick\<close> over the listed subscriptions; \<open>ids\<close> and \<open>pubs\<close> give each of them its drawn invoice id and its
  publisher behaviour.
\<close>

fun renew_all ::
  "renewer_cfg \<Rightarrow> (nat \<Rightarrow> uuid) \<Rightarrow> (nat \<Rightarrow> nat \<Rightarrow> bool) \<Rightarrow> nat \<Rightarrow> crm_db \<Rightarrow> DueSubscription list \<Rightarrow> time
   \<Rightarrow> renew_outcome list \<times> renewal_event list \<times> crm_db" where
  "renew_all cfg ids pubs n db [] now = ([], [], db)"
| "renew_all cfg ids pubs n db (d # ds) now =
     (let (o1, e1, db1) = renewOne cfg (ids n) (pubs n) (\<lambda>_. False) db d now;
          (os, es, db2) = renew_all cfg ids pubs (Suc n) db1 ds now
      in (o1 # os, e1 @ es, db2))"

definition Renewer_Tick ::
  "renewer_cfg \<Rightarrow> (nat \<Rightarrow> uuid) \<Rightarrow> (nat \<Rightarrow> nat \<Rightarrow> bool) \<Rightarrow> crm_db \<Rightarrow> time
   \<Rightarrow> (renew_outcome list \<times> renewal_event list \<times> crm_db) bresult" where
  "Renewer_Tick cfg ids pubs db now =
     (case ListDueSubscriptions db now (rn_batchSize cfg) of
        Inl e \<Rightarrow> Inl (Wrapped ''list due subscriptions'' e)
      | Inr due \<Rightarrow> Inr (renew_all cfg ids pubs 0 db due now))"

end
