(* ===== verification/WalletService.thy ===== *)
theory WalletService
  imports WalletBooks BillingStore
begin

text \<open>
  The wallet use cases, \<^verbatim>\<open>src/internal/wallet/usecase/usecase.go\<close> and
  \<^verbatim>\<open>issue_courtesy_grant.go\<close>, and the monthly quota allocator,
  \<^verbatim>\<open>src/internal/worker/wallet/allocator.go\<close>, as programs over the store. Each repository call is
  one step, so the others may run between any two of them. \<open>ustr\<close> and \<open>uparse\<close> stand for
  \<^verbatim>\<open>UUID.String\<close> and \<^verbatim>\<open>uuid.Parse\<close> of the third-party package; the identifiers a use case draws
  (\<^verbatim>\<open>uuid.New()\<close>) come from the environment of the call that writes them.
\<close>

section \<open>Keys and events\<close>

definition MaxIdempotencyKeyLen :: nat where
  "MaxIdempotencyKeyLen = 128"

definition validateIdempotencyKey :: "string \<Rightarrow> unit wresult" where
  "validateIdempotencyKey key =
     (if key = '''' then werr wallet_ErrEmptyIdempotencyKey
      else if length key > MaxIdempotencyKeyLen then werr wallet_ErrIdempotencyKeyTooLong
      else Inr ())"

definition maxAttempts :: nat where
  "maxAttempts = 256"

record BalanceDepletedEvent =
  bd_TenantID :: uuid
  bd_PolicyScope :: string
  bd_LastChargeTokens :: int
  bd_OccurredAt :: time

text \<open>
  The events a commit publishes, oldest first. A publisher that fails only logs, so what the
  use case hands over is all that is modelled; \<open>scope\<close> is the service's policy scope.
\<close>

definition maybePublishDepleted ::
  "string \<Rightarrow> TokenWallet \<Rightarrow> int \<Rightarrow> time \<Rightarrow> BalanceDepletedEvent list" where
  "maybePublishDepleted scope w lastCharge occurredAt =
     (if tw_balance w \<noteq> 0 then []
      else [\<lparr>bd_TenantID = tw_tenantID w, bd_PolicyScope = scope,
             bd_LastChargeTokens = lastCharge, bd_OccurredAt = occurredAt\<rparr>])"

text \<open>The last step of every attempt: write the wallet with one entry, and sort the error.\<close>

definition retryable :: "wallet_sentinel goerr \<Rightarrow> bool" where
  "retryable e \<longleftrightarrow> errors_is e wallet_ErrVersionConflict \<or> errors_is e wallet_ErrIdempotencyConflict"

definition apply_entry ::
  "TokenWallet \<Rightarrow> (call_env \<Rightarrow> LedgerEntry) \<Rightarrow> (call_env \<Rightarrow> 'a)
   \<Rightarrow> (wallet_sentinel, 'a) attempt wprog" where
  "apply_entry w entry out =
     command (\<lambda>ev db. case ApplyWithLock (o_now ev) db w [entry ev] of
                        Inl e \<Rightarrow> Inl e
                      | Inr db' \<Rightarrow> Inr (out ev, db'))
       (\<lambda>r. case r of
              Inl e \<Rightarrow> Ret (if retryable e then Retry e else Done (Inl e))
            | Inr a \<Rightarrow> Ret (Done (Inr a)))"

definition ledger_entry ::
  "uuid \<Rightarrow> TokenWallet \<Rightarrow> LedgerKind \<Rightarrow> int \<Rightarrow> string \<Rightarrow> string \<Rightarrow> time \<Rightarrow> LedgerEntry" where
  "ledger_entry eid w kind amount key ref now =
     \<lparr>le_ID = eid, le_WalletID = tw_id w, le_TenantID = tw_tenantID w, le_Kind = kind,
      le_Amount = SignedAmount kind amount, le_IdempotencyKey = key, le_ExternalRef = ref,
      le_Source = SourceUnset, le_MasterGrantID = None, le_OccurredAt = now,
      le_CreatedAt = now\<rparr>"

section \<open>Reserve\<close>

definition reserve_replay ::
  "(string \<Rightarrow> uuid option) \<Rightarrow> int \<Rightarrow> string \<Rightarrow> LedgerEntry \<Rightarrow> Reservation wresult" where
  "reserve_replay uparse amount key prior =
     (if le_Kind prior \<noteq> KindReserve then werr wallet_ErrIdempotencyConflict
      else if wrap64 (- le_Amount prior) \<noteq> amount then werr wallet_ErrIdempotencyConflict
      else case uparse (le_ExternalRef prior) of
             None \<Rightarrow> Inl (Wrapped ''wallet/usecase: malformed external_ref on retried reserve''
                            (Opaque ''uuid''))
           | Some rid \<Rightarrow>
               Inr \<lparr>rv_ID = rid, rv_WalletID = le_WalletID prior, rv_TenantID = le_TenantID prior,
                    rv_Amount = amount, rv_IdempotencyKey = key,
                    rv_CreatedAt = le_OccurredAt prior\<rparr>)"

definition reserve_attempt ::
  "(uuid \<Rightarrow> string) \<Rightarrow> (string \<Rightarrow> uuid option) \<Rightarrow> uuid \<Rightarrow> int \<Rightarrow> string
   \<Rightarrow> (wallet_sentinel, Reservation) attempt wprog" where
  "reserve_attempt ustr uparse tenantID amount key =
     query (\<lambda>db. LoadByTenant db tenantID) (\<lambda>l. case l of Inl e \<Rightarrow> Ret (Done (Inl e)) | Inr w \<Rightarrow>
     query (\<lambda>db. LookupByIdempotencyKey db tenantID (tw_id w) key) (\<lambda>p. case p of
       Inr prior \<Rightarrow> Ret (Done (reserve_replay uparse amount key prior))
     | Inl e \<Rightarrow>
         if \<not> errors_is e wallet_ErrNotFound then Ret (Done (Inl e)) else
         read_clock (\<lambda>now. case wallet_Reserve w amount now of Inl e \<Rightarrow> Ret (Done (Inl e)) | Inr w' \<Rightarrow>
         apply_entry w'
           (\<lambda>ev. ledger_entry (o_ids ev 1) w' KindReserve amount key (ustr (o_ids ev 0)) now)
           (\<lambda>ev. \<lparr>rv_ID = o_ids ev 0, rv_WalletID = tw_id w', rv_TenantID = tw_tenantID w',
                  rv_Amount = amount, rv_IdempotencyKey = key, rv_CreatedAt = now\<rparr>))))"

definition Service_Reserve ::
  "(uuid \<Rightarrow> string) \<Rightarrow> (string \<Rightarrow> uuid option) \<Rightarrow> uuid \<Rightarrow> int \<Rightarrow> string
   \<Rightarrow> Reservation wresult wprog" where
  "Service_Reserve ustr uparse tenantID amount key =
     (if tenantID = uuid_nil then Ret (werr wallet_ErrZeroTenant)
      else if amount \<le> 0 then Ret (werr wallet_ErrInvalidAmount)
      else case validateIdempotencyKey key of
             Inl e \<Rightarrow> Ret (Inl e)
           | Inr _ \<Rightarrow> retry_loop maxAttempts ''wallet/usecase: reserve exhausted retries''
                        (reserve_attempt ustr uparse tenantID amount key) (Opaque ''nil''))"

section \<open>Commit and release\<close>

definition settle_replay ::
  "(uuid \<Rightarrow> string) \<Rightarrow> LedgerKind \<Rightarrow> Reservation \<Rightarrow> int \<Rightarrow> LedgerEntry \<Rightarrow> unit wresult" where
  "settle_replay ustr kind r signed prior =
     (if le_Kind prior \<noteq> kind then werr wallet_ErrIdempotencyConflict
      else if le_ExternalRef prior \<noteq> ustr (rv_ID r) then werr wallet_ErrIdempotencyConflict
      else if signed \<noteq> (if kind = KindCommit then wrap64 (- le_Amount prior) else le_Amount prior)
        then werr wallet_ErrIdempotencyConflict
      else Inr ())"

text \<open>
  The two settlements share their reads: load the wallet, replay on the call's own key, refuse a
  reservation that another key has settled. \<open>mutate\<close> is the aggregate's method.
\<close>

definition settle_attempt ::
  "(uuid \<Rightarrow> string) \<Rightarrow> LedgerKind \<Rightarrow> Reservation \<Rightarrow> int \<Rightarrow> string
   \<Rightarrow> (TokenWallet \<Rightarrow> time \<Rightarrow> TokenWallet wresult) \<Rightarrow> (TokenWallet \<Rightarrow> time \<Rightarrow> BalanceDepletedEvent list)
   \<Rightarrow> (wallet_sentinel, BalanceDepletedEvent list) attempt wprog" where
  "settle_attempt ustr kind r amount key mutate publish =
     query (\<lambda>db. LoadByTenant db (rv_TenantID r)) (\<lambda>l. case l of Inl e \<Rightarrow> Ret (Done (Inl e)) | Inr w \<Rightarrow>
     if tw_id w \<noteq> rv_WalletID r then Ret (Done (werr wallet_ErrNotFound)) else
     query (\<lambda>db. LookupByIdempotencyKey db (rv_TenantID r) (tw_id w) key) (\<lambda>p. case p of
       Inr prior \<Rightarrow> Ret (Done (case settle_replay ustr kind r amount prior of
                               Inl e \<Rightarrow> Inl e | Inr _ \<Rightarrow> Inr []))
     | Inl e \<Rightarrow>
         if \<not> errors_is e wallet_ErrNotFound then Ret (Done (Inl e)) else
     query (\<lambda>db. LookupCompletedByExternalRef db (rv_TenantID r) (tw_id w) (ustr (rv_ID r))) (\<lambda>c. case c of
       Inr _ \<Rightarrow> Ret (Done (werr wallet_ErrReservationCompleted))
     | Inl e \<Rightarrow>
         if \<not> errors_is e wallet_ErrNotFound then Ret (Done (Inl e)) else
         read_clock (\<lambda>now. case mutate w now of
           Inl e \<Rightarrow> Ret (if errors_is e wallet_ErrVersionConflict then Retry e else Done (Inl e))
         | Inr w' \<Rightarrow>
             apply_entry w' (\<lambda>ev. ledger_entry (o_ids ev 0) w' kind amount key (ustr (rv_ID r)) now)
               (\<lambda>ev. publish w' now)))))"

text \<open>\<open>None\<close> is a nil \<^verbatim>\<open>*wallet.Reservation\<close>. The result carries the published events.\<close>

definition Service_Commit ::
  "(uuid \<Rightarrow> string) \<Rightarrow> string \<Rightarrow> Reservation option \<Rightarrow> int \<Rightarrow> string
   \<Rightarrow> BalanceDepletedEvent list wresult wprog" where
  "Service_Commit ustr scope ro actualAmount key =
     (case ro of None \<Rightarrow> Ret (Inl (Opaque ''wallet/usecase: reservation is nil'')) | Some r \<Rightarrow>
      if actualAmount \<le> 0 then Ret (werr wallet_ErrInvalidAmount)
      else if actualAmount > rv_Amount r then Ret (werr wallet_ErrInvalidAmount)
      else case validateIdempotencyKey key of
             Inl e \<Rightarrow> Ret (Inl e)
           | Inr _ \<Rightarrow> retry_loop maxAttempts ''wallet/usecase: commit exhausted retries''
               (settle_attempt ustr KindCommit r actualAmount key
                  (\<lambda>w now. wallet_Commit w actualAmount (rv_Amount r) now)
                  (\<lambda>w now. maybePublishDepleted scope w actualAmount now)) (Opaque ''nil''))"

definition Service_Release ::
  "(uuid \<Rightarrow> string) \<Rightarrow> Reservation option \<Rightarrow> string \<Rightarrow> BalanceDepletedEvent list wresult wprog" where
  "Service_Release ustr ro key =
     (case ro of None \<Rightarrow> Ret (Inl (Opaque ''wallet/usecase: reservation is nil'')) | Some r \<Rightarrow>
      case validateIdempotencyKey key of
        Inl e \<Rightarrow> Ret (Inl e)
      | Inr _ \<Rightarrow> retry_loop maxAttempts ''wallet/usecase: release exhausted retries''
          (settle_attempt ustr KindRelease r (rv_Amount r) key
             (\<lambda>w now. wallet_Release w (rv_Amount r) now) (\<lambda>w now. [])) (Opaque ''nil''))"

section \<open>Grant\<close>

definition grant_attempt ::
  "uuid \<Rightarrow> int \<Rightarrow> string \<Rightarrow> string \<Rightarrow> (wallet_sentinel, unit) attempt wprog" where
  "grant_attempt tenantID amount key externalRef =
     query (\<lambda>db. LoadByTenant db tenantID) (\<lambda>l. case l of Inl e \<Rightarrow> Ret (Done (Inl e)) | Inr w \<Rightarrow>
     query (\<lambda>db. LookupByIdempotencyKey db tenantID (tw_id w) key) (\<lambda>p. case p of
       Inr prior \<Rightarrow>
         Ret (Done (if le_Kind prior \<noteq> KindGrant then werr wallet_ErrIdempotencyConflict
                    else if le_Amount prior \<noteq> amount then werr wallet_ErrIdempotencyConflict
                    else Inr ()))
     | Inl e \<Rightarrow>
         if \<not> errors_is e wallet_ErrNotFound then Ret (Done (Inl e)) else
         read_clock (\<lambda>now. case wallet_Grant w amount now of Inl e \<Rightarrow> Ret (Done (Inl e)) | Inr w' \<Rightarrow>
         apply_entry w' (\<lambda>ev. ledger_entry (o_ids ev 0) w' KindGrant amount key externalRef now)
           (\<lambda>ev. ()))))"

definition Service_Grant :: "uuid \<Rightarrow> int \<Rightarrow> string \<Rightarrow> string \<Rightarrow> unit wresult wprog" where
  "Service_Grant tenantID amount key externalRef =
     (if tenantID = uuid_nil then Ret (werr wallet_ErrZeroTenant)
      else if amount \<le> 0 then Ret (werr wallet_ErrInvalidAmount)
      else case validateIdempotencyKey key of
             Inl e \<Rightarrow> Ret (Inl e)
           | Inr _ \<Rightarrow> retry_loop maxAttempts ''wallet/usecase: grant exhausted retries''
                        (grant_attempt tenantID amount key externalRef) (Opaque ''nil''))"

section \<open>The courtesy grant\<close>

record IssueCourtesyGrantConfig =
  cgc_Amount :: int
  cgc_Disabled :: bool
  cgc_ActorID :: uuid

definition NewIssueCourtesyGrantService ::
  "IssueCourtesyGrantConfig \<Rightarrow> IssueCourtesyGrantConfig wresult" where
  "NewIssueCourtesyGrantService cfg =
     (if cgc_Amount cfg \<le> 0 then Inl (Opaque ''wallet/usecase: courtesy amount must be positive'')
      else if cgc_ActorID cfg = uuid_nil
        then Inl (Opaque ''wallet/usecase: courtesy actor id must not be uuid.Nil'')
      else Inr cfg)"

definition IssueCourtesyGrant_Issue ::
  "(uuid \<Rightarrow> string) \<Rightarrow> IssueCourtesyGrantConfig \<Rightarrow> uuid \<Rightarrow> Issued wresult wprog" where
  "IssueCourtesyGrant_Issue ustr cfg tenantID =
     (if tenantID = uuid_nil then Ret (werr wallet_ErrZeroTenant)
      else if cgc_Disabled cfg then Ret (werr wallet_ErrCourtesyGrantDisabled)
      else command (\<lambda>ev db. CourtesyStore_Issue ustr (o_ids ev 0) (o_ids ev 1) (o_ids ev 2)
               (o_now ev) db tenantID (cgc_ActorID cfg) (cgc_Amount cfg))
             (\<lambda>r. Ret r))"

section \<open>The monthly allocator\<close>

text \<open>
  \<^verbatim>\<open>Allocator.Handle\<close>. The body of a delivery is decoded by \<^verbatim>\<open>encoding/json\<close>, the parameter \<open>decode\<close>;
  the plan reader is the billing store's catalogue. What \<^verbatim>\<open>Handle\<close> decides is the outcome it
  counts and whether it acknowledges the delivery.
\<close>

datatype alloc_outcome =
    OutcomeMissingMsgID
  | OutcomeFailedDecode
  | OutcomeFailedPlan
  | OutcomeFailedAllocate
  | OutcomeAllocated
  | OutcomeSkippedDuplicate

datatype delivery_reply = Ack | Nak

record renewed_event =
  re_TenantID :: uuid
  re_PlanID :: uuid
  re_NewPeriodStart :: time

definition Allocator_Handle ::
  "(string \<Rightarrow> renewed_event option) \<Rightarrow> string \<Rightarrow> string \<Rightarrow> (alloc_outcome \<times> delivery_reply) wprog" where
  "Allocator_Handle decode msgID data =
     (if msgID = [] then Ret (OutcomeMissingMsgID, Ack)
      else case decode data of
        None \<Rightarrow> Ret (OutcomeFailedDecode, Ack)
      | Some ev \<Rightarrow>
          query (\<lambda>db. GetPlanByID db (re_PlanID ev)) (\<lambda>r. case r of
             Inl e \<Rightarrow> Ret (OutcomeFailedPlan, Nak)
           | Inr plan \<Rightarrow>
               command (\<lambda>env db. AllocateMonthlyQuota (o_ids env 0) (o_now env) db (re_TenantID ev)
                                   (re_NewPeriodStart ev) (pl_MonthlyTokenQuota plan) msgID)
                 (\<lambda>r. case r of
                        Inl e \<Rightarrow> Ret (OutcomeFailedAllocate, Nak)
                      | Inr allocated \<Rightarrow>
                          Ret (if allocated then OutcomeAllocated else OutcomeSkippedDuplicate, Ack))))"

end
