(* ===== verification/WalletSafety.thy ===== *)
theory WalletSafety
  imports WalletService
begin

text \<open>
  The use cases keep the store's invariant under every interleaving. Each attempt of a use
  case reads the wallet first and writes last; the version stamp makes the write fail unless
  the wallet's ledger is still the one that was read, so what the reads established holds at
  the write.
\<close>

section \<open>What the reads establish\<close>

text \<open>What is used of the UUID package: a printed identifier is not empty and parses back.\<close>

definition uuid_text :: "(uuid \<Rightarrow> string) \<Rightarrow> (string \<Rightarrow> uuid option) \<Rightarrow> bool" where
  "uuid_text ustr uparse \<longleftrightarrow> (\<forall>u. uparse (ustr u) = Some u \<and> ustr u \<noteq> [])"

text \<open>A reservation handle is authentic when the ledger has its reserve row.\<close>

definition reserve_row :: "(uuid \<Rightarrow> string) \<Rightarrow> Reservation \<Rightarrow> token_ledger_row \<Rightarrow> bool" where
  "reserve_row ustr rv r \<longleftrightarrow> is_reserve r \<and> tl_external_ref r = Some (ustr (rv_ID rv)) \<and>
     tl_amount r = - rv_Amount rv \<and> tl_wallet_id r = rv_WalletID rv \<and> tl_tenant_id r = rv_TenantID rv"

definition authentic :: "(uuid \<Rightarrow> string) \<Rightarrow> crm_db \<Rightarrow> Reservation \<Rightarrow> bool" where
  "authentic ustr db rv \<longleftrightarrow> (\<exists>r \<in> set (token_ledger db). reserve_row ustr rv r)"

lemma authentic_evolves: "authentic ustr db rv \<Longrightarrow> evolves db db' \<Longrightarrow> authentic ustr db' rv"
  by (auto simp: authentic_def evolves_def)

lemma wrows_between:
  assumes "evolves a b" "evolves b c" "wrows c wid = wrows a wid"
  shows "wrows b wid = wrows a wid"
proof -
  obtain x y where "wrows b wid = wrows a wid @ x" "wrows c wid = wrows b wid @ y"
    using assms evolves_wrows by meson
  with assms(3) show ?thesis by simp
qed

lemma store_inv_simps [simp]: "store_inv ustr db \<Longrightarrow> db_inv db"
  by (simp add: store_inv_def)

lemma evolves_inv_refl: "store_inv ustr db \<Longrightarrow> evolves db db"
  by (rule evolves_refl_db)

lemma loaded:
  assumes "store_inv ustr db" "w \<in> set (token_wallet db)"
  shows "books w (wrows db (tw_id w))" "wallet_ok w" "ledger_ok (wrows db (tw_id w))"
    "tw_id w \<noteq> uuid_nil" "tw_tenantID w \<noteq> uuid_nil" "wrap64 (tw_version w) = tw_version w"
proof -
  have "tenant_books db w" using assms by (simp add: db_inv_tenant)
  then show "books w (wrows db (tw_id w))" "tw_id w \<noteq> uuid_nil" "tw_tenantID w \<noteq> uuid_nil"
    by (simp_all add: tenant_books_def)
  then show "wallet_ok w" "ledger_ok (wrows db (tw_id w))" "wrap64 (tw_version w) = tw_version w"
    by (simp_all add: books_def wrap64_id wrap64_in_i64)
qed

lemma ledger_in_wrows:
  "r \<in> set (token_ledger db) \<Longrightarrow> tl_wallet_id r = wid \<longleftrightarrow> r \<in> set (wrows db wid)"
  "r \<in> set (wrows db wid) \<Longrightarrow> r \<in> set (token_ledger db) \<and> tl_wallet_id r = wid"
  by (auto simp: wrows_def)

lemma lookup_key_found:
  "LookupByIdempotencyKey db t wid key = Inr e \<Longrightarrow>
     \<exists>r \<in> set (token_ledger db). e = decodeLedger r \<and> tl_tenant_id r = t \<and> tl_wallet_id r = wid
       \<and> tl_idempotency_key r = key"
  by (auto simp: LookupByIdempotencyKey_def split: if_splits option.splits dest: find_SomeD)

lemma lookup_ref_missing:
  assumes "LookupCompletedByExternalRef db t wid ref = Inl e"
    and "t \<noteq> uuid_nil" "wid \<noteq> uuid_nil" "ref \<noteq> []"
    and "r \<in> set (token_ledger db)" "tl_tenant_id r = t" "tl_wallet_id r = wid" "is_settlement r"
  shows "tl_external_ref r \<noteq> Some ref"
  using assms by (auto simp: LookupCompletedByExternalRef_def split: option.splits dest: find_NoneD)

text \<open>An error of a read that says "not found" is the answer of the read, not a failure of the call.\<close>

lemma not_found_is_answer:
  "r = q \<or> (\<exists>m. r = Inl (Opaque m)) \<Longrightarrow> r = Inl e \<Longrightarrow> errors_is e x \<Longrightarrow> q = Inl e"
  by auto

section \<open>The write\<close>

lemma safe_apply:
  assumes base: "store_inv ustr db0" "w \<in> set (token_wallet db0)" "evolves db0 s"
    and w': "tw_id w' = tw_id w" "tw_tenantID w' = tw_tenantID w"
      "tw_version w' = wrap64 (tw_version w + 1)"
    and entry: "\<And>ev. le_WalletID (entry ev) = tw_id w"
    and post: "\<And>db ev row.
       \<lbrakk>store_inv ustr db; evolves s db; env_ok ustr db ev; row \<in> set (token_wallet db);
        tw_id row = tw_id w; tw_balance row = tw_balance w; tw_reserved row = tw_reserved w;
        tw_version row = tw_version w; wrows db (tw_id w) = wrows db0 (tw_id w);
        le_IdempotencyKey (entry ev) \<notin> tl_idempotency_key ` set (wrows db0 (tw_id w))\<rbrakk>
       \<Longrightarrow> posting row (wrows db0 (tw_id w)) (ledger_row (entry ev))
             (row\<lparr>tw_balance := tw_balance w', tw_reserved := tw_reserved w',
                  tw_version := tw_version w', tw_updatedAt := o_now ev\<rparr>)"
    and ref: "\<And>ev. le_Kind (entry ev) = KindReserve \<Longrightarrow> \<exists>u. nullIfEmpty (le_ExternalRef (entry ev)) = Some (ustr u)"
    and k: "\<And>db ev. ledger_row (entry ev) \<in> set (token_ledger db) \<Longrightarrow>
        safe (store_inv ustr) evolves (env_ok ustr) Q db (k (Inr (out ev)))"
      "\<And>db e. safe (store_inv ustr) evolves (env_ok ustr) Q db (k (Inl e))"
  shows "safe (store_inv ustr) evolves (env_ok ustr) Q s
    (command (\<lambda>ev db. case ApplyWithLock (o_now ev) db w' [entry ev] of
       Inl e \<Rightarrow> Inl e | Inr db' \<Rightarrow> Inr (out ev, db')) k)"
proof (rule safe_commandI)
  fix db ev a db'
  assume db: "store_inv ustr db" "evolves s db" "env_ok ustr db ev"
    and c: "(case ApplyWithLock (o_now ev) db w' [entry ev] of Inl e \<Rightarrow> Inl e
             | Inr db' \<Rightarrow> Inr (out ev, db')) = Inr (a, db')"
  have inv: "db_inv db" "db_inv db0" using db(1) base(1) by simp_all
  have ap: "ApplyWithLock (o_now ev) db w' [entry ev] = Inr db'" "a = out ev"
    using c by (auto split: sum.splits)
  from ApplyWithLock_effect [OF inv(1) ap(1)] obtain row where
    row: "row \<in> set (token_wallet db)" "tw_id row = tw_id w'" "tw_tenantID row = tw_tenantID w'"
      "tw_version row = wrap64 (tw_version w' - 1)" "le_TenantID (entry ev) = tw_tenantID w'"
    and fresh: "\<not> idem_taken db (le_WalletID (entry ev)) (le_IdempotencyKey (entry ev))"
    and db': "db' = post db (ledger_row (entry ev)) (row\<lparr>tw_balance := tw_balance w',
       tw_reserved := tw_reserved w', tw_version := tw_version w', tw_updatedAt := o_now ev\<rparr>)"
    by blast
  have "tw_version row = wrap64 (wrap64 (tw_version w + 1) + - 1)" using row(4) w'(3) by simp
  then have ver: "tw_version row = tw_version w"
    by (simp only: wrap64_wrap64_add) (simp add: loaded(6) [OF base(1,2)])
  have ev0: "evolves db0 db" using base(3) db(2) by (rule evolves_trans_db)
  have len: "int (length (token_ledger db)) \<le> max_i64" using db(3) by (simp add: env_ok_def)
  have id: "tw_id row = tw_id w" using row(2) w'(1) by simp
  note same = version_unchanged [OF inv(2,1) ev0 len base(2) row(1) id ver]
  have key: "le_IdempotencyKey (entry ev) \<notin> tl_idempotency_key ` set (wrows db0 (tw_id w))"
    using fresh same(1) entry [of ev] by (simp add: not_idem_taken_wrows)
  have p: "posting row (wrows db (tw_id row)) (ledger_row (entry ev))
      (row\<lparr>tw_balance := tw_balance w', tw_reserved := tw_reserved w', tw_version := tw_version w',
           tw_updatedAt := o_now ev\<rparr>)"
    using post [OF db row(1) id same(2,3) ver same(1) key] same(1) id by simp
  then have g: "db_inv db'" "evolves db db'"
    unfolding db' using post_inv [OF inv(1) row(1)] row(3,5) w' id entry [of ev]
    by (auto simp: posting_def ledger_row_def)
  moreover have "refs_ok ustr db'"
    using db(1) ref [of ev] by (auto simp: db' store_inv_def refs_ok_def is_reserve_def ledger_row_def)
  ultimately show "store_inv ustr db' \<and> evolves db db' \<and>
      safe (store_inv ustr) evolves (env_ok ustr) Q db' (k (Inr a)) \<and>
      (\<forall>m. safe (store_inv ustr) evolves (env_ok ustr) Q db' (k (Inl (Opaque m))))"
    using ap(2) k by (auto simp: store_inv_def db')
qed (auto simp: k intro!: evolves_refl_db)

lemma safe_apply_entry:
  assumes base: "store_inv ustr db0" "w \<in> set (token_wallet db0)" "evolves db0 s"
    and w': "tw_id w' = tw_id w" "tw_tenantID w' = tw_tenantID w"
      "tw_version w' = wrap64 (tw_version w + 1)"
    and entry: "\<And>ev. le_WalletID (entry ev) = tw_id w"
    and post: "\<And>db ev row.
       \<lbrakk>store_inv ustr db; evolves s db; env_ok ustr db ev; row \<in> set (token_wallet db);
        tw_id row = tw_id w; tw_balance row = tw_balance w; tw_reserved row = tw_reserved w;
        tw_version row = tw_version w; wrows db (tw_id w) = wrows db0 (tw_id w);
        le_IdempotencyKey (entry ev) \<notin> tl_idempotency_key ` set (wrows db0 (tw_id w))\<rbrakk>
       \<Longrightarrow> posting row (wrows db0 (tw_id w)) (ledger_row (entry ev))
             (row\<lparr>tw_balance := tw_balance w', tw_reserved := tw_reserved w',
                  tw_version := tw_version w', tw_updatedAt := o_now ev\<rparr>)"
    and ref: "\<And>ev. le_Kind (entry ev) = KindReserve \<Longrightarrow> \<exists>u. nullIfEmpty (le_ExternalRef (entry ev)) = Some (ustr u)"
    and Q: "\<And>db ev. ledger_row (entry ev) \<in> set (token_ledger db) \<Longrightarrow> Q db (Done (Inr (out ev)))"
      "\<And>db e. Q db (Done (Inl e))" "\<And>db e. Q db (Retry e)"
  shows "safe (store_inv ustr) evolves (env_ok ustr) Q s (apply_entry w' entry out)"
  unfolding apply_entry_def
proof (rule safe_apply [OF base w' entry], goal_cases)
  case (1 db ev row)
  then show ?case by (rule post)
qed (use ref Q in \<open>auto intro: safe_Ret\<close>)

section \<open>The attempts\<close>

abbreviation wsafe ::
  "(uuid \<Rightarrow> string) \<Rightarrow> (crm_db \<Rightarrow> 'a \<Rightarrow> bool) \<Rightarrow> crm_db \<Rightarrow> 'a wprog \<Rightarrow> bool" where
  "wsafe ustr Q s p \<equiv> safe (store_inv ustr) evolves (env_ok ustr) Q s p"

lemma ledger_entry_simps [simp]:
  "le_WalletID (ledger_entry eid w k a key ref now) = tw_id w"
  "le_TenantID (ledger_entry eid w k a key ref now) = tw_tenantID w"
  "le_IdempotencyKey (ledger_entry eid w k a key ref now) = key"
  "le_ExternalRef (ledger_entry eid w k a key ref now) = ref"
  "le_Kind (ledger_entry eid w k a key ref now) = k"
  "le_ID (ledger_entry eid w k a key ref now) = eid"
  by (simp_all add: ledger_entry_def)

lemma ledger_row_entry:
  "ledger_row (ledger_entry eid w k a key ref now) =
     \<lparr>tl_id = eid, tl_wallet_id = tw_id w, tl_tenant_id = tw_tenantID w, tl_kind = k,
      tl_amount = SignedAmount k a, tl_idempotency_key = key, tl_external_ref = nullIfEmpty ref,
      tl_source = SourceConsumption, tl_master_grant_id = None, tl_occurred_at = now,
      tl_created_at = now\<rparr>"
  by (simp add: ledger_row_def ledger_entry_def)

lemma posting_reserve_entry:
  assumes base: "store_inv ustr db0" "w \<in> set (token_wallet db0)"
    and u: "uuid_text ustr uparse" and m: "wallet_Reserve w amount now = Inr w'"
    and db: "env_ok ustr db ev" "wrows db (tw_id w) = wrows db0 (tw_id w)"
    and row: "tw_balance row = tw_balance w" "tw_reserved row = tw_reserved w"
      "tw_version row = tw_version w"
    and key: "key \<notin> tl_idempotency_key ` set (wrows db0 (tw_id w))"
  shows "posting row (wrows db0 (tw_id w))
     (ledger_row (ledger_entry eid w' KindReserve amount key (ustr (o_ids ev 0)) now))
     (row\<lparr>tw_balance := tw_balance w', tw_reserved := tw_reserved w', tw_version := tw_version w',
          tw_updatedAt := t\<rparr>)"
proof -
  have ok: "wallet_ok w" and b: "books w (wrows db0 (tw_id w))" using loaded [OF base] by simp_all
  from m have amt: "0 < amount" "amount \<le> tw_balance w - tw_reserved w"
    and w': "tw_balance w' = tw_balance w" "tw_reserved w' = tw_reserved w + amount"
      "tw_version w' = wrap64 (tw_version w + 1)"
    by (auto simp: wallet_Reserve_ok [OF ok])
  have "SignedAmount KindReserve amount = - amount"
    using ok amt by (intro SignedAmount_pos) (auto simp: wallet_ok_def)
  moreover have "ustr (o_ids ev 0) \<noteq> []" using u by (simp add: uuid_text_def)
  moreover have "tl_external_ref x \<noteq> Some (ustr (o_ids ev 0))" if "x \<in> set (wrows db0 (tw_id w))" for x
    using that db(1) ledger_in_wrows(2) [of x db "tw_id w"] by (auto simp: env_ok_def db(2))
  moreover have "books row (wrows db0 (tw_id w))" using b row by (simp add: books_def wallet_ok_def)
  ultimately show ?thesis using amt w' row key
    by (intro posting_reserve) (auto simp: ledger_row_entry is_reserve_def nullIfEmpty_def)
qed

lemma reserve_replay_authentic:
  assumes inv: "store_inv ustr db" and u: "uuid_text ustr uparse" and amt: "0 < amount"
    and found: "LookupByIdempotencyKey db t wid key = Inr prior"
    and r: "reserve_replay uparse amount key prior = Inr rv"
  shows "authentic ustr db rv \<and> rv_TenantID rv = t \<and> rv_WalletID rv = wid \<and> rv_Amount rv = amount
    \<and> rv_IdempotencyKey rv = key"
proof -
  obtain x where x: "x \<in> set (token_ledger db)" "prior = decodeLedger x" "tl_tenant_id x = t"
    "tl_wallet_id x = wid" "tl_idempotency_key x = key"
    using lookup_key_found [OF found] by blast
  have kind: "is_reserve x" and a: "wrap64 (- tl_amount x) = amount"
    using r x by (auto simp: reserve_replay_def decodeLedger_def is_reserve_def split: if_splits)
  obtain v where v: "tl_external_ref x = Some (ustr v)"
    using inv x kind by (auto simp: store_inv_def refs_ok_def)
  obtain w where w: "w \<in> set (token_wallet db)" "tw_id w = wid"
    using inv x(1,4) by (auto simp: store_inv_def db_inv_def)
  have xr: "x \<in> set (wrows db wid)" using x by (simp add: wrows_def)
  then have "tl_amount x < 0" "- max_i64 \<le> tl_amount x"
    using loaded(3) [OF inv w(1)] w(2) kind by (auto simp: ledger_ok_def)
  then have "- tl_amount x = amount" using a by (simp add: wrap64_nonneg)
  moreover have "rv = \<lparr>rv_ID = v, rv_WalletID = wid, rv_TenantID = t, rv_Amount = amount,
      rv_IdempotencyKey = key, rv_CreatedAt = tl_occurred_at x\<rparr>"
    using r x v u by (auto simp: reserve_replay_def decodeLedger_def uuid_text_def split: if_splits)
  ultimately show ?thesis using x(1,3,4) kind v by (auto simp: authentic_def reserve_row_def)
qed

definition reserved_ok :: "(uuid \<Rightarrow> string) \<Rightarrow> uuid \<Rightarrow> int \<Rightarrow> string \<Rightarrow> crm_db \<Rightarrow> Reservation wresult \<Rightarrow> bool" where
  "reserved_ok ustr t amount key db r = (case r of Inl e \<Rightarrow> True
     | Inr rv \<Rightarrow> authentic ustr db rv \<and> rv_TenantID rv = t \<and> rv_Amount rv = amount \<and>
         rv_IdempotencyKey rv = key)"

lemma wsafe_read:
  assumes "\<And>db x. store_inv ustr db \<Longrightarrow> evolves s db \<Longrightarrow> q db = Inr x \<Longrightarrow> wsafe ustr Q db (k (Inr x))"
    and "\<And>db e. store_inv ustr db \<Longrightarrow> evolves s db \<Longrightarrow> q db = Inl e \<Longrightarrow> wsafe ustr Q db (k (Inl e))"
    and "\<And>db m. wsafe ustr Q db (k (Inl (Opaque m)))"
  shows "wsafe ustr Q s (query q k)"
proof (rule safe_queryI)
  fix db r
  assume "store_inv ustr db" "evolves s db" "r = q db \<or> (\<exists>m. r = Inl (Opaque m))"
  then show "wsafe ustr Q db (k r)" using assms by (cases "q db") auto
qed (rule evolves_refl_db)

lemma wsafe_read_clock:
  assumes "\<And>db t. evolves s db \<Longrightarrow> wsafe ustr Q db (k t)"
  shows "wsafe ustr Q s (read_clock k)"
  using assms by (intro safe_read_clockI evolves_refl_db)

text \<open>The write of a reservation.\<close>

lemma reserve_write_safe:
  assumes db0: "store_inv ustr db0" "w \<in> set (token_wallet db0)" "evolves db0 s"
    and u: "uuid_text ustr uparse" and m: "wallet_Reserve w amount now = Inr w'"
    and Q: "\<And>db rv. authentic ustr db rv \<Longrightarrow> rv_TenantID rv = tw_tenantID w \<Longrightarrow> rv_Amount rv = amount \<Longrightarrow>
        rv_IdempotencyKey rv = key \<Longrightarrow> Q db (Done (Inr rv))"
      "\<And>db e. Q db (Done (Inl e))" "\<And>db e. Q db (Retry e)"
  shows "wsafe ustr Q s (apply_entry w'
     (\<lambda>ev. ledger_entry (o_ids ev 1) w' KindReserve amount key (ustr (o_ids ev 0)) now)
     (\<lambda>ev. \<lparr>rv_ID = o_ids ev 0, rv_WalletID = tw_id w', rv_TenantID = tw_tenantID w',
            rv_Amount = amount, rv_IdempotencyKey = key, rv_CreatedAt = now\<rparr>))"
proof (rule safe_apply_entry [OF db0])
  note fr = wallet_ops_frame(1) [OF m]
  show "tw_id w' = tw_id w" "tw_tenantID w' = tw_tenantID w"
    "tw_version w' = wrap64 (tw_version w + 1)" using fr by simp_all
  have "SignedAmount KindReserve amount = - amount"
    using m loaded(2) [OF db0(1,2)]
    by (intro SignedAmount_pos) (auto simp: wallet_Reserve_ok wallet_ok_def)
  then show "Q db (Done (Inr \<lparr>rv_ID = o_ids ev 0, rv_WalletID = tw_id w', rv_TenantID = tw_tenantID w',
      rv_Amount = amount, rv_IdempotencyKey = key, rv_CreatedAt = now\<rparr>))"
    if "ledger_row (ledger_entry (o_ids ev 1) w' KindReserve amount key (ustr (o_ids ev 0)) now)
        \<in> set (token_ledger db)" for db ev
    using u fr
    by (intro Q) (auto simp: authentic_def reserve_row_def ledger_row_entry is_reserve_def
        nullIfEmpty_def uuid_text_def intro!: bexI [OF _ that])
qed (use wallet_ops_frame(1) [OF m] posting_reserve_entry [OF db0(1,2) u m] u Q in
    \<open>auto simp: nullIfEmpty_def uuid_text_def\<close>)

lemma reserve_attempt_safe:
  assumes u: "uuid_text ustr uparse" and amt: "0 < amount"
  shows "wsafe ustr (\<lambda>db a. case a of Done r \<Rightarrow> reserved_ok ustr t amount key db r | Retry e \<Rightarrow> True) s
    (reserve_attempt ustr uparse t amount key)" (is "wsafe ustr ?Q s _")
  unfolding reserve_attempt_def
proof (rule wsafe_read, goal_cases)
  case (1 db0 w)
  then have w: "w \<in> set (token_wallet db0)" "tw_tenantID w = t" by (simp_all add: LoadByTenant_Inr)
  have put: "wsafe ustr ?Q s' (apply_entry w'
     (\<lambda>ev. ledger_entry (o_ids ev 1) w' KindReserve amount key (ustr (o_ids ev 0)) now)
     (\<lambda>ev. \<lparr>rv_ID = o_ids ev 0, rv_WalletID = tw_id w', rv_TenantID = tw_tenantID w',
            rv_Amount = amount, rv_IdempotencyKey = key, rv_CreatedAt = now\<rparr>))"
    if m: "wallet_Reserve w amount now = Inr w'" and s': "evolves db0 s'" for w' now s'
    using w(2) by (intro reserve_write_safe [OF 1(1) w(1) s' u m]) (auto simp: reserved_ok_def)
  show ?case unfolding sum.case
  proof (rule wsafe_read, goal_cases)
    case (1 s1 prior)
    then show ?case using reserve_replay_authentic [OF 1(1) u amt 1(3)]
      by (auto simp: reserved_ok_def split: sum.splits intro!: safe_Ret)
  next
    case (2 s1 e)
    show ?case using evolves_trans_db [OF 2(2)]
      by (auto simp: reserved_ok_def simp del: One_nat_def split: sum.splits
          intro!: safe_Ret wsafe_read_clock put)
  qed (auto simp: reserved_ok_def intro!: safe_Ret)
qed (auto simp: reserved_ok_def intro!: safe_Ret)

lemma Service_Reserve_safe:
  assumes u: "uuid_text ustr uparse" and inv: "store_inv ustr s"
  shows "wsafe ustr (reserved_ok ustr t amount key) s (Service_Reserve ustr uparse t amount key)"
  unfolding Service_Reserve_def using reserve_attempt_safe [OF u] inv
  by (auto simp: reserved_ok_def split: sum.splits intro!: safe_Ret wallet_rg.safe_retry_loop)

text \<open>Settling: between the read of the wallet and the write nobody settled the reservation.\<close>

definition settle_effect :: "LedgerKind \<Rightarrow> Reservation \<Rightarrow> int \<Rightarrow> TokenWallet \<Rightarrow> TokenWallet \<Rightarrow> bool" where
  "settle_effect kind rv amount w w' \<longleftrightarrow>
     tw_id w' = tw_id w \<and> tw_tenantID w' = tw_tenantID w \<and> tw_version w' = wrap64 (tw_version w + 1) \<and>
     rv_Amount rv \<le> tw_reserved w \<and> tw_reserved w' = tw_reserved w - rv_Amount rv \<and>
     (kind = KindCommit \<and> 0 < amount \<and> amount \<le> rv_Amount rv \<and> tw_balance w' = tw_balance w - amount
      \<or> kind = KindRelease \<and> tw_balance w' = tw_balance w)"

lemma settle_effects:
  assumes "wallet_ok w"
  shows "wallet_Commit w c (rv_Amount rv) now = Inr w' \<Longrightarrow> settle_effect KindCommit rv c w w'"
    and "wallet_Release w (rv_Amount rv) now = Inr w' \<Longrightarrow> settle_effect KindRelease rv (rv_Amount rv) w w'"
  using assms by (auto simp: wallet_Commit_ok wallet_Release_ok settle_effect_def)

lemma not_settled_yet:
  assumes base: "store_inv ustr db0" "w \<in> set (token_wallet db0)"
    and s: "store_inv ustr s" "wrows s (tw_id w) = wrows db0 (tw_id w)" and u: "uuid_text ustr uparse"
    and r: "reserve_row ustr rv r" "tw_id w = rv_WalletID rv" "tw_tenantID w = rv_TenantID rv"
    and none: "LookupCompletedByExternalRef s (rv_TenantID rv) (tw_id w) (ustr (rv_ID rv)) = Inl e"
  shows "\<not> is_settled (wrows db0 (tw_id w)) r"
proof
  assume "is_settled (wrows db0 (tw_id w)) r"
  then obtain x where x: "x \<in> set (wrows db0 (tw_id w))" "settled_by r x"
    by (auto simp: is_settled_def)
  have "tl_tenant_id x = rv_TenantID rv"
    using x(1) db_inv_tenant [of db0 w] base r(3) by (auto simp: tenant_books_def)
  moreover have "x \<in> set (token_ledger s)" "tl_wallet_id x = tw_id w"
    using x(1) s(2) ledger_in_wrows(2) by metis+
  moreover have "ustr (rv_ID rv) \<noteq> []" using u by (simp add: uuid_text_def)
  ultimately have "tl_external_ref x \<noteq> Some (ustr (rv_ID rv))"
    using lookup_ref_missing [OF none] loaded(4,5) [OF base] r(3) x(2) by (auto simp: settled_by_def)
  then show False using x(2) r(1) by (simp add: settled_by_def reserve_row_def)
qed

lemma posting_settle_entry:
  assumes base: "store_inv ustr db0" "w \<in> set (token_wallet db0)"
    and s: "store_inv ustr s" "wrows s (tw_id w) = wrows db0 (tw_id w)" and u: "uuid_text ustr uparse"
    and rv: "authentic ustr db0 rv" "tw_id w = rv_WalletID rv" "tw_tenantID w = rv_TenantID rv"
    and none: "LookupCompletedByExternalRef s (rv_TenantID rv) (tw_id w) (ustr (rv_ID rv)) = Inl e"
    and m: "settle_effect kind rv amount w w'"
    and row: "tw_balance row = tw_balance w" "tw_reserved row = tw_reserved w" "tw_version row = tw_version w"
    and key: "key \<notin> tl_idempotency_key ` set (wrows db0 (tw_id w))"
  shows "posting row (wrows db0 (tw_id w))
     (ledger_row (ledger_entry eid w' kind amount key (ustr (rv_ID rv)) now))
     (row\<lparr>tw_balance := tw_balance w', tw_reserved := tw_reserved w', tw_version := tw_version w',
          tw_updatedAt := t\<rparr>)"
proof -
  let ?L = "wrows db0 (tw_id w)"
  have ok: "wallet_ok w" and b: "books w ?L" using loaded [OF base] by simp_all
  obtain r where r: "r \<in> set (token_ledger db0)" "reserve_row ustr rv r"
    using rv(1) by (auto simp: authentic_def)
  have rL: "r \<in> set ?L" using r rv(2) by (simp add: wrows_def reserve_row_def)
  have open_r: "\<not> is_settled ?L r" by (rule not_settled_yet [OF base s u r(2) rv(2,3) none])
  have res: "is_reserve r" "tl_amount r = - rv_Amount rv" "tl_external_ref r = Some (ustr (rv_ID rv))"
    "tl_wallet_id r = tw_id w"
    using r rv(2) by (simp_all add: reserve_row_def)
  have signed: "kind = KindCommit \<Longrightarrow> SignedAmount kind amount = - amount"
    using m ok SignedAmount_pos(2) [of amount] by (auto simp: settle_effect_def wallet_ok_def)
  have "books row ?L" using b row by (simp add: books_def wallet_ok_def)
  moreover have "ustr (rv_ID rv) \<noteq> []" using u by (simp add: uuid_text_def)
  moreover have "tl_wallet_id x = tl_wallet_id r" if "x \<in> set ?L" for x
    using that res(4) by (simp add: wrows_def)
  ultimately show ?thesis using m row res rL open_r key signed
    by (intro posting_settle [where r = r])
      (auto simp: settle_effect_def ledger_row_entry nullIfEmpty_def settled_by_def is_settlement_def)
qed

lemma settle_attempt_safe:
  assumes u: "uuid_text ustr uparse" and auth: "authentic ustr s rv"
    and mutate: "\<And>w w' now. wallet_ok w \<Longrightarrow> mutate w now = Inr w' \<Longrightarrow> settle_effect kind rv amount w w'"
  shows "wsafe ustr (\<lambda>_ _. True) s (settle_attempt ustr kind rv amount key mutate publish)"
  unfolding settle_attempt_def
proof (rule wsafe_read, goal_cases)
  case (1 db0 w)
  then have w: "w \<in> set (token_wallet db0)" "tw_tenantID w = rv_TenantID rv" by (simp_all add: LoadByTenant_Inr)
  have auth0: "authentic ustr db0 rv" using auth 1(2) by (rule authentic_evolves)
  have put: "wsafe ustr (\<lambda>_ _. True) s3 (apply_entry w'
       (\<lambda>ev. ledger_entry (o_ids ev 0) w' kind amount key (ustr (rv_ID rv)) now) (\<lambda>ev. publish w' now))"
    if m: "mutate w now = Inr w'" and s: "store_inv ustr s2" "evolves db0 s2" "evolves s2 s3"
      and none: "LookupCompletedByExternalRef s2 (rv_TenantID rv) (tw_id w) (ustr (rv_ID rv)) = Inl e"
      and wid: "tw_id w = rv_WalletID rv"
    for now w' s2 s3 e
  proof (rule safe_apply_entry [OF 1(1) w(1) evolves_trans_db [OF s(2,3)]], goal_cases)
    note eff = mutate [OF loaded(2) [OF 1(1) w(1)] m]
    case (5 db ev row)
    have "wrows s2 (tw_id w) = wrows db0 (tw_id w)"
      using wrows_between [OF s(2) evolves_trans_db [OF s(3) 5(2)]] 5(9) by simp
    then show ?case
      using posting_settle_entry [OF 1(1) w(1) s(1) _ u auth0 wid w(2) none eff 5(6,7,8)] 5(10) by simp
  qed (use mutate [OF loaded(2) [OF 1(1) w(1)] m] in \<open>auto simp: settle_effect_def\<close>)
  show ?case unfolding sum.case
  proof (cases "tw_id w = rv_WalletID rv", simp_all, rule wsafe_read, goal_cases)
    case outer: (2 s1 e)
    show ?case unfolding sum.case
    proof (cases "errors_is e wallet_ErrNotFound", simp_all, rule wsafe_read, goal_cases)
      case inner: (2 s2 e')
      have "wsafe ustr (\<lambda>_ _. True) s3 (apply_entry w'
         (\<lambda>ev. ledger_entry (o_ids ev 0) w' kind amount key (ustr (rv_ID rv)) now) (\<lambda>ev. publish w' now))"
        if "mutate w now = Inr w'" "evolves s2 s3" for now w' s3
        using inner outer that by (auto intro!: put intro: evolves_trans_db)
      then show ?case by (auto split: sum.splits intro!: safe_Ret wsafe_read_clock)
    qed (auto intro!: safe_Ret)
  qed (auto split: sum.splits intro!: safe_Ret)
qed (auto intro!: safe_Ret)

lemma wallet_grant_posting:
  assumes db0: "store_inv ustr db0" "w \<in> set (token_wallet db0)"
    and m: "wallet_Grant w amount now = Inr w'"
    and e: "le_WalletID e = tw_id w" "le_Kind e = KindGrant" "le_Amount e = amount"
    and row: "tw_balance row = tw_balance w" "tw_reserved row = tw_reserved w" "tw_version row = tw_version w"
    and key: "le_IdempotencyKey e \<notin> tl_idempotency_key ` set (wrows db0 (tw_id w))"
  shows "posting row (wrows db0 (tw_id w)) (ledger_row e)
     (row\<lparr>tw_balance := tw_balance w', tw_reserved := tw_reserved w', tw_version := tw_version w',
          tw_updatedAt := t\<rparr>)"
proof -
  note ok = loaded(2) [OF db0] and b = loaded(1) [OF db0]
  have "books row (wrows db0 (tw_id w))" using b row by (simp add: books_def wallet_ok_def)
  then show ?thesis
    using m e row key by (intro posting_grant) (auto simp: wallet_Grant_ok [OF ok] ledger_row_def)
qed

lemma wallet_grant_safe:
  assumes db0: "store_inv ustr db0" "w \<in> set (token_wallet db0)" "evolves db0 s"
    and m: "wallet_Grant w amount now = Inr w'"
    and e: "\<And>ev. le_WalletID (entry ev) = tw_id w" "\<And>ev. le_Kind (entry ev) = KindGrant"
      "\<And>ev. le_Amount (entry ev) = amount"
    and k: "\<And>db r. wsafe ustr Q db (k r)"
  shows "wsafe ustr Q s
    (command (\<lambda>ev db. case ApplyWithLock (o_now ev) db w' [entry ev] of
       Inl e \<Rightarrow> Inl e | Inr db' \<Rightarrow> Inr (out ev, db')) k)"
proof (rule safe_apply [OF db0], goal_cases)
  case (5 db ev row)
  show ?case using wallet_grant_posting [OF db0(1,2) m e 5(6-8,10)] .
qed (use wallet_ops_frame(4) [OF m] e k in auto)

lemma grant_attempt_safe: "wsafe ustr (\<lambda>_ _. True) s (grant_attempt t amount key ref)"
  unfolding grant_attempt_def
proof (rule wsafe_read, goal_cases)
  case (1 db0 w)
  then have w: "w \<in> set (token_wallet db0)" by (simp add: LoadByTenant_Inr)
  have put: "wsafe ustr (\<lambda>_ _. True) s'
      (apply_entry w' (\<lambda>ev. ledger_entry (o_ids ev 0) w' KindGrant amount key ref now) (\<lambda>ev. ()))"
    if m: "wallet_Grant w amount now = Inr w'" and s': "evolves db0 s'" for w' now s'
    unfolding apply_entry_def using wallet_ops_frame(4) [OF m]
    by (intro wallet_grant_safe [OF 1(1) w s' m])
      (auto simp: ledger_entry_def split: sum.splits intro!: safe_Ret)
  show ?case unfolding sum.case
  proof (rule wsafe_read, goal_cases)
    case (2 s1 e)
    show ?case using evolves_trans_db [OF 2(2)]
      by (auto split: sum.splits intro!: safe_Ret wsafe_read_clock put)
  qed (auto intro!: safe_Ret)
qed (auto intro!: safe_Ret)

section \<open>The use cases\<close>

lemma safe_True_if_Ret: "wsafe ustr (\<lambda>_ _. True) s (Ret a)"
  by (simp add: safe_Ret)

lemma safe_weaken:
  assumes "safe I E ok Q s p" and "\<And>s a. Q s a \<Longrightarrow> R s a"
  shows "safe I E ok R s p"
  using assms(1)
proof (induction rule: safe.induct)
  case (safe_Ret s a)
  then show ?case by (intro safe.safe_Ret assms(2))
next
  case (safe_Act s f)
  show ?case by (rule safe.safe_Act) (use safe_Act in blast)
qed

lemma Service_settle_safe:
  assumes u: "uuid_text ustr uparse" and inv: "store_inv ustr s"
    and auth: "\<And>rv. ro = Some rv \<Longrightarrow> authentic ustr s rv"
  shows "wsafe ustr (\<lambda>_ _. True) s (Service_Commit ustr scope ro amount key)"
    and "wsafe ustr (\<lambda>_ _. True) s (Service_Release ustr ro key)"
proof -
  have t: "wsafe ustr (\<lambda>u a. case a of Done r \<Rightarrow> True | Retry e \<Rightarrow> True) t (settle_attempt ustr kind rv amount key mutate publish)"
    if "evolves s t" "ro = Some rv"
      "\<And>w w' now. wallet_ok w \<Longrightarrow> mutate w now = Inr w' \<Longrightarrow> settle_effect kind rv amount w w'"
    for t rv kind amount mutate and publish :: "TokenWallet \<Rightarrow> time \<Rightarrow> BalanceDepletedEvent list"
    by (rule safe_weaken [OF settle_attempt_safe [OF u authentic_evolves [OF auth [OF that(2)] that(1)] that(3)]])
      (auto split: attempt.split)
  show "wsafe ustr (\<lambda>_ _. True) s (Service_Commit ustr scope ro amount key)"
    and "wsafe ustr (\<lambda>_ _. True) s (Service_Release ustr ro key)"
    unfolding Service_Commit_def Service_Release_def using inv
    by (auto split: option.splits sum.splits intro!: safe_True_if_Ret wallet_rg.safe_retry_loop t
        dest: settle_effects)
qed

lemma Service_Grant_safe:
  assumes "store_inv ustr s"
  shows "wsafe ustr (\<lambda>_ _. True) s (Service_Grant t amount key ref)"
proof -
  have "wsafe ustr (\<lambda>u a. case a of Done r \<Rightarrow> True | Retry e \<Rightarrow> True) t' (grant_attempt t amount key ref)" for t'
    by (rule safe_weaken [OF grant_attempt_safe]) (auto split: attempt.split)
  then show ?thesis unfolding Service_Grant_def using assms
    by (auto split: sum.splits intro!: safe_True_if_Ret wallet_rg.safe_retry_loop)
qed

text \<open>A call that is one master-scoped transaction.\<close>

lemma wsafe_command:
  assumes "\<And>db ev x db'. store_inv ustr db \<Longrightarrow> env_ok ustr db ev \<Longrightarrow> c ev db = Inr (x, db') \<Longrightarrow>
      db_inv db' \<and> evolves db db' \<and> (\<forall>r \<in> set (token_ledger db'). is_reserve r \<longrightarrow> r \<in> set (token_ledger db))"
    and "\<And>db r. wsafe ustr Q db (k r)"
  shows "wsafe ustr Q s (command c k)"
proof (rule safe_commandI)
  fix db ev x db'
  assume db: "store_inv ustr db" "evolves s db" "env_ok ustr db ev" "c ev db = Inr (x, db')"
  note e = assms(1) [OF db(1,3,4)]
  then have "refs_ok ustr db'" using db(1) by (simp add: store_inv_def refs_ok_def)
  with e show "store_inv ustr db' \<and> evolves db db' \<and> wsafe ustr Q db' (k (Inr x)) \<and>
      (\<forall>m. wsafe ustr Q db' (k (Inl (Opaque m))))"
    by (simp add: store_inv_def assms(2))
qed (use assms in \<open>auto intro: evolves_refl_db\<close>)

lemma Allocator_Handle_safe: "wsafe ustr (\<lambda>_ _. True) s (Allocator_Handle decode msgID body)"
proof -
  have c: "db_inv db' \<and> evolves db db' \<and> (\<forall>r \<in> set (token_ledger db'). is_reserve r \<longrightarrow> r \<in> set (token_ledger db))"
    if "store_inv ustr db" "AllocateMonthlyQuota i now db t ps q key = Inr (g, db')" for db db' i now t ps q key g
  proof -
    have "db_inv db'" "evolves db db'" using AllocateMonthlyQuota_inv [OF _ that(2)] that(1) by auto
    moreover have "\<forall>r \<in> set (token_ledger db'). is_reserve r \<longrightarrow> r \<in> set (token_ledger db)"
      using AllocateMonthlyQuota_rows [OF store_inv_simps [OF that(1)] that(2)] by (auto simp: is_reserve_def)
    ultimately show ?thesis by blast
  qed
  have put: "wsafe ustr (\<lambda>_ _. True) db (command (\<lambda>env db. AllocateMonthlyQuota (o_ids env 0) (o_now env) db t ps q msgID) h)"
    if "\<And>db r. wsafe ustr (\<lambda>_ _. True) db (h r)" for db t ps q and h :: "bool wresult \<Rightarrow> (alloc_outcome \<times> delivery_reply) wprog"
    using that by (intro wsafe_command c)
  show ?thesis unfolding Allocator_Handle_def
    by (auto split: option.splits sum.splits intro!: safe_True_if_Ret wsafe_read put)
qed

lemma IssueCourtesyGrant_safe:
  assumes "cgc_Amount cfg \<le> max_i64"
  shows "wsafe ustr (\<lambda>_ _. True) s (IssueCourtesyGrant_Issue ustr cfg t)"
proof -
  have c: "db_inv db' \<and> evolves db db' \<and> (\<forall>r \<in> set (token_ledger db'). is_reserve r \<longrightarrow> r \<in> set (token_ledger db))"
    if "store_inv ustr db" "env_ok ustr db ev"
      and i: "CourtesyStore_Issue ustr (o_ids ev 0) (o_ids ev 1) (o_ids ev 2) (o_now ev) db t
        (cgc_ActorID cfg) (cgc_Amount cfg) = Inr (x, db')" for db db' ev x
  proof -
    have "db_inv db' \<and> evolves db db'"
      using CourtesyStore_Issue_inv [OF _ _ _ assms i] that(1,2) by (auto simp: env_ok_def)
    moreover have "\<forall>r \<in> set (token_ledger db'). is_reserve r \<longrightarrow> r \<in> set (token_ledger db)"
      using i by (auto simp: CourtesyStore_Issue_def insert_ledger_Inr update_wallet_row_def Let_def
          is_reserve_def split: if_splits option.splits sum.splits)
    ultimately show ?thesis by blast
  qed
  show ?thesis unfolding IssueCourtesyGrant_Issue_def
    by (auto simp del: One_nat_def split: option.splits sum.splits intro!: safe_True_if_Ret wsafe_command dest: c)
qed

lemma MasterGrantStore_safe:
  assumes k: "\<And>db r. wsafe ustr Q db (k r)"
  shows "wsafe ustr Q s (MasterGrantStore_Consume gid ref now k)"
    and "wsafe ustr Q s (MasterGrantStore_Revoke gid user reason now k)"
proof -
  have c: "db_inv db' \<and> evolves db db' \<and> (\<forall>r \<in> set (token_ledger db'). is_reserve r \<longrightarrow> r \<in> set (token_ledger db))"
    if "store_inv ustr db" "consume_update gid ref now db = Inr (x, db')
      \<or> revoke_update gid user reason now db = Inr (x, db')" for db db' and x :: unit
    using that(2)
  proof
    assume a: "consume_update gid ref now db = Inr (x, db')"
    then have "token_ledger db' = token_ledger db"
      by (auto simp: consume_update_def update_grant_row_def split: if_splits)
    then show ?thesis using grant_updates_inv(1) [of db gid ref now db'] that(1) a by simp
  next
    assume a: "revoke_update gid user reason now db = Inr (x, db')"
    then have "token_ledger db' = token_ledger db"
      by (auto simp: revoke_update_def update_grant_row_def split: if_splits)
    then show ?thesis using grant_updates_inv(2) [of db gid user reason now db'] that(1) a by simp
  qed
  show "wsafe ustr Q s (MasterGrantStore_Consume gid ref now k)"
    unfolding MasterGrantStore_Consume_def
    by (rule wsafe_read) (auto split: sum.splits intro!: k wsafe_command dest: c)
  show "wsafe ustr Q s (MasterGrantStore_Revoke gid user reason now k)"
    unfolding MasterGrantStore_Revoke_def
    by (rule wsafe_read) (auto split: sum.splits intro!: k wsafe_command dest: c)
qed

end
