(* ===== verification/GrantApplier.thy ===== *)
theory GrantApplier
  imports WalletSafety
begin

text \<open>
  The applier of master grants, \<^verbatim>\<open>src/internal/wallet/usecase/apply_master_grant.go\<close>: the seam between the
  wallet and the billing domain. A pending grant either extends the tenant's subscription or
  credits its wallet, and is then marked consumed.
\<close>

section \<open>Definitions\<close>

definition readInt64Payload :: "(string \<times> any) list \<Rightarrow> string \<Rightarrow> int" where
  "readInt64Payload p key =
     (case map_of p key of
        None \<Rightarrow> 0
      | Some (AnyInt n) \<Rightarrow> n
      | Some (AnyFloat r) \<Rightarrow> go_int64 r
      | Some AnyOther \<Rightarrow> 0)"

definition idempotencyKeyForGrant :: "MasterGrant \<Rightarrow> string" where
  "idempotencyKeyForGrant g = ''master_grant:'' @ mg_externalID g"

text \<open>\<^verbatim>\<open>time.Duration(days)*24*time.Hour\<close> in 64-bit arithmetic.\<close>

definition days_duration :: "int \<Rightarrow> duration" where
  "days_duration days = wrap64 (wrap64 (days * 24) * 3600000000000)"

text \<open>
  Both branches hand the reference of what they wrote (or their error) to the rest of
  \<^verbatim>\<open>Apply\<close>, the continuation \<open>k\<close>. An error of the billing package is no sentinel of the wallet package.
\<close>

definition applyFreePeriod ::
  "(uuid \<Rightarrow> string) \<Rightarrow> uuid \<Rightarrow> MasterGrant \<Rightarrow> time \<Rightarrow> (string wresult \<Rightarrow> 'a wprog) \<Rightarrow> 'a wprog" where
  "applyFreePeriod ustr actorID g now k =
     (let days = readInt64Payload (mg_payload g) ''period_days'' in
      if days \<le> 0
        then k (Inl (Wrapped ''period_days must be a positive integer'' (Sentinel wallet_ErrInvalidGrantPayload)))
      else query (\<lambda>db. MasterGrantStore_GetByID db (mg_id g)) (\<lambda>r. case r of
        Inl e \<Rightarrow> k (Inl (Wrapped ''wallet/usecase: refresh master grant'' e))
      | Inr fresh \<Rightarrow>
          if IsConsumed fresh then k (werr wallet_ErrGrantAlreadyConsumed)
          else if IsRevoked fresh then k (werr wallet_ErrGrantAlreadyRevoked)
          else query (\<lambda>db. GetByTenant db (mg_tenantID g)) (\<lambda>r. case r of
            Inl _ \<Rightarrow> k (Inl (Wrapped ''wallet/usecase: load active subscription'' (Opaque ''billing'')))
          | Inr sub \<Rightarrow>
              (case ExtendPeriod sub (days_duration days) now of
                 Inl _ \<Rightarrow> k (Inl (Wrapped ''wallet/usecase: extend subscription period'' (Opaque ''billing'')))
               | Inr sub' \<Rightarrow>
                   command (\<lambda>ev db. SaveSubscription db sub' actorID) (\<lambda>r. case r of
                     Inl _ \<Rightarrow> k (Inl (Wrapped ''wallet/usecase: persist subscription extension'' (Opaque ''billing'')))
                   | Inr _ \<Rightarrow> k (Inr (ustr (sub_id sub'))))))))"

definition applyExtraTokens ::
  "(uuid \<Rightarrow> string) \<Rightarrow> MasterGrant \<Rightarrow> time \<Rightarrow> (string wresult \<Rightarrow> 'a wprog) \<Rightarrow> 'a wprog" where
  "applyExtraTokens ustr g now k =
     (let amount = readInt64Payload (mg_payload g) ''amount'' in
      if amount \<le> 0
        then k (Inl (Wrapped ''amount must be a positive integer'' (Sentinel wallet_ErrInvalidGrantPayload)))
      else query (\<lambda>db. LoadByTenant db (mg_tenantID g)) (\<lambda>r. case r of
        Inl e \<Rightarrow> k (Inl (Wrapped ''wallet/usecase: load wallet for grant apply'' e))
      | Inr w \<Rightarrow>
          (case wallet_Grant w amount now of
             Inl e \<Rightarrow> k (Inl (Wrapped ''wallet/usecase: grant amount'' e))
           | Inr w' \<Rightarrow>
               command (\<lambda>ev db.
                   case ApplyWithLock (o_now ev) db w'
                     [(ledger_entry (o_ids ev 0) w' KindGrant amount (idempotencyKeyForGrant g)
                         (mg_externalID g) now)
                      \<lparr>le_Source := SourceMasterGrant, le_MasterGrantID := Some (mg_id g)\<rparr>] of
                     Inl e \<Rightarrow> Inl e
                   | Inr db' \<Rightarrow> Inr (ustr (o_ids ev 0), db'))
                 (\<lambda>r. case r of
                    Inl e \<Rightarrow> k (Inl (Wrapped ''wallet/usecase: apply ledger entry'' e))
                  | Inr ref \<Rightarrow> k (Inr ref)))))"

definition finish_apply :: "uuid \<Rightarrow> time \<Rightarrow> string wresult \<Rightarrow> bool wresult wprog" where
  "finish_apply grantID now r =
     (case r of
        Inl e \<Rightarrow> Ret (Inl e)
      | Inr consumedRef \<Rightarrow>
          MasterGrantStore_Consume grantID consumedRef now (\<lambda>c. case c of
            Inl e \<Rightarrow> Ret (Inl (Wrapped ''wallet/usecase: mark grant consumed'' e))
          | Inr _ \<Rightarrow> Ret (Inr True)))"

definition ApplyMasterGrant_Apply ::
  "(uuid \<Rightarrow> string) \<Rightarrow> uuid \<Rightarrow> uuid \<Rightarrow> bool wresult wprog" where
  "ApplyMasterGrant_Apply ustr actorID grantID =
     (if grantID = uuid_nil then Ret (werr wallet_ErrNotFound)
      else query (\<lambda>db. MasterGrantStore_GetByID db grantID) (\<lambda>r. case r of
        Inl e \<Rightarrow> Ret (Inl e)
      | Inr g \<Rightarrow>
          if IsConsumed g \<or> IsRevoked g then Ret (Inr False)
          else read_clock (\<lambda>now.
            case mg_kind g of
              KindFreeSubscriptionPeriod \<Rightarrow> applyFreePeriod ustr actorID g now (finish_apply grantID now)
            | KindExtraTokens \<Rightarrow> applyExtraTokens ustr g now (finish_apply grantID now)
            | GrantKindOther s \<Rightarrow> Ret (Inl (Opaque ''wallet/usecase: unknown master grant kind'')))))"

section \<open>The applier keeps the store's invariant\<close>

lemma SaveSubscription_frame:
  "SaveSubscription db s actor = Inr (u, db') \<Longrightarrow> token_ledger db' = token_ledger db \<and>
     token_wallet db' = token_wallet db \<and> master_grant db' = master_grant db"
  by (auto simp: SaveSubscription_def Let_def split: if_splits)

lemma frame_inv:
  assumes "db_inv db" "token_ledger db' = token_ledger db" "token_wallet db' = token_wallet db"
    "master_grant db' = master_grant db"
  shows "db_inv db' \<and> evolves db db'"
proof -
  have rows: "wrows db' wid = wrows db wid" for wid using assms by (simp add: wrows_def)
  then have "db_inv db'" using assms by (simp add: db_inv_def tenant_books_def)
  moreover have "evolves db db'" using assms rows by (auto simp: evolves_def)
  ultimately show ?thesis ..
qed

lemma finish_apply_safe: "wsafe ustr (\<lambda>_ _. True) s (finish_apply gid now r)"
  unfolding finish_apply_def
  by (auto split: sum.splits intro!: safe_True_if_Ret MasterGrantStore_safe)

lemma applyFreePeriod_safe:
  assumes "\<And>db r. wsafe ustr Q db (k r)"
  shows "wsafe ustr Q s (applyFreePeriod ustr actor g now k)"
proof -
  have c: "db_inv db' \<and> evolves db db' \<and> (\<forall>r \<in> set (token_ledger db'). is_reserve r \<longrightarrow> r \<in> set (token_ledger db))"
    if "store_inv ustr db" "SaveSubscription db x actor = Inr (u, db')" for db db' x and u :: unit
    using frame_inv [of db db'] SaveSubscription_frame [OF that(2)] that(1) by simp
  have put: "wsafe ustr Q db (command (\<lambda>ev db. SaveSubscription db x actor) h)"
    if "\<And>db r. wsafe ustr Q db (h r)" for db x h
    using that by (intro wsafe_command c)
  show ?thesis unfolding applyFreePeriod_def Let_def
    by (auto intro!: wsafe_read assms put split: sum.splits if_splits)
qed

lemma applyExtraTokens_safe:
  assumes k: "\<And>db r. wsafe ustr Q db (k r)"
  shows "wsafe ustr Q s (applyExtraTokens ustr g now k)"
  unfolding applyExtraTokens_def Let_def
proof (cases "readInt64Payload (mg_payload g) ''amount'' \<le> 0", simp_all add: k, rule wsafe_read, goal_cases)
  case (1 db0 w)
  then have w: "w \<in> set (token_wallet db0)" by (simp add: LoadByTenant_Inr)
  show ?case
  proof (cases "wallet_Grant w (readInt64Payload (mg_payload g) ''amount'') now")
    case (Inr w')
    show ?thesis unfolding sum.case Inr
      using wallet_ops_frame(4) [OF Inr]
      by (intro wallet_grant_safe [OF 1(2) w evolves_refl_db Inr])
        (auto simp: ledger_entry_def k split: sum.splits)
  qed (simp add: k)
qed (simp_all add: k)

lemma ApplyMasterGrant_safe: "wsafe ustr (\<lambda>_ _. True) s (ApplyMasterGrant_Apply ustr actor gid)"
  unfolding ApplyMasterGrant_Apply_def
  by (auto intro!: wsafe_read safe_True_if_Ret wsafe_read_clock applyFreePeriod_safe
      applyExtraTokens_safe finish_apply_safe split: MasterGrantKind.splits)

end
