(* ===== verification/TokenEconomy.thy ===== *)
theory TokenEconomy
  imports GrantApplier
begin

text \<open>
  The token economy as a whole: any number of clients that run the wallet use cases, the
  courtesy grant, the monthly allocator, the renewal transaction and the master-grant applier
  against one store, their calls interleaved in any order, with calls that fail and calls whose
  answer is lost. Commits and releases are called with reservations the ledger knows.
\<close>

section \<open>The calls\<close>

definition start_call :: "'a wprog \<Rightarrow> unit wprog" where
  "start_call p = bind_prog p (\<lambda>_. Ret ())"

inductive economy_call ::
  "(uuid \<Rightarrow> string) \<Rightarrow> (string \<Rightarrow> uuid option) \<Rightarrow> crm_db \<Rightarrow> unit wprog \<Rightarrow> bool"
  for ustr uparse db where
  call_reserve: "economy_call ustr uparse db (start_call (Service_Reserve ustr uparse t amount key))"
| call_commit: "(\<And>rv. ro = Some rv \<Longrightarrow> authentic ustr db rv) \<Longrightarrow>
     economy_call ustr uparse db (start_call (Service_Commit ustr scope ro amount key))"
| call_release: "(\<And>rv. ro = Some rv \<Longrightarrow> authentic ustr db rv) \<Longrightarrow>
     economy_call ustr uparse db (start_call (Service_Release ustr ro key))"
| call_grant: "economy_call ustr uparse db (start_call (Service_Grant t amount key ref))"
| call_courtesy: "cgc_Amount cfg \<le> max_i64 \<Longrightarrow>
     economy_call ustr uparse db (start_call (IssueCourtesyGrant_Issue ustr cfg t))"
| call_allocate: "economy_call ustr uparse db (start_call (Allocator_Handle decode msgID body))"
| call_create: "economy_call ustr uparse db
     (command (\<lambda>ev db. case MasterGrantStore_Create db g of Inl e \<Rightarrow> Inl e | Inr db' \<Rightarrow> Inr ((), db'))
        (\<lambda>_. Ret ()))"
| call_apply: "economy_call ustr uparse db (start_call (ApplyMasterGrant_Apply ustr actor gid))"
| call_revoke: "economy_call ustr uparse db (MasterGrantStore_Revoke gid user reason now (\<lambda>_. Ret ()))"
| call_renew: "economy_call ustr uparse db
     (command (\<lambda>ev db. RenewSubscription (o_ids ev 0) db subID oldEnd price actor (o_now ev)) (\<lambda>_. Ret ()))"

abbreviation economy_reach ::
  "(uuid \<Rightarrow> string) \<Rightarrow> (string \<Rightarrow> uuid option) \<Rightarrow> crm_db \<Rightarrow> crm_db \<Rightarrow> bool" where
  "economy_reach ustr uparse db0 db \<equiv>
     (\<exists>pool. pool_reach (env_ok ustr) (economy_call ustr uparse) db0 (db, pool))"

section \<open>Every call is safe\<close>

lemma start_call_safe:
  assumes "wsafe ustr Q s p" "store_inv ustr s"
  shows "wsafe ustr (\<lambda>_ _. True) s (start_call p)"
  unfolding start_call_def using assms by (auto intro!: wallet_rg.safe_bind safe_True_if_Ret)

lemma RenewSubscription_frame:
  "RenewSubscription iid db subID e price actor now = Inr (u, db') \<Longrightarrow>
     token_ledger db' = token_ledger db \<and> token_wallet db' = token_wallet db \<and>
     master_grant db' = master_grant db"
  by (auto simp: RenewSubscription_def Let_def split: if_splits option.splits)

lemma frame_command_safe:
  assumes "\<And>db ev x db'. c ev db = Inr (x, db') \<Longrightarrow> token_ledger db' = token_ledger db \<and>
     token_wallet db' = token_wallet db \<and> master_grant db' = master_grant db"
  shows "wsafe ustr (\<lambda>_ _. True) s (command c (\<lambda>_. Ret ()))"
  using assms frame_inv by (intro wsafe_command safe_True_if_Ret) (metis store_inv_simps)

lemma create_command_safe:
  "wsafe ustr (\<lambda>_ _. True) s
     (command (\<lambda>ev db. case MasterGrantStore_Create db g of Inl e \<Rightarrow> Inl e | Inr db' \<Rightarrow> Inr ((), db'))
        (\<lambda>_. Ret ()))"
proof (rule wsafe_command)
  fix db ev x db'
  assume "store_inv ustr db"
    and "(case MasterGrantStore_Create db g of Inl e \<Rightarrow> Inl e | Inr db' \<Rightarrow> Inr ((), db')) = Inr (x, db')"
  then have "MasterGrantStore_Create db g = Inr db'" "db_inv db" by (auto split: sum.splits)
  moreover from this have "token_ledger db' = token_ledger db"
    by (auto simp: MasterGrantStore_Create_def split: if_splits)
  ultimately show "db_inv db' \<and> evolves db db' \<and>
      (\<forall>r \<in> set (token_ledger db'). is_reserve r \<longrightarrow> r \<in> set (token_ledger db))"
    using MasterGrantStore_Create_inv by simp
qed (rule safe_True_if_Ret)

lemma economy_call_safe:
  assumes u: "uuid_text ustr uparse" and inv: "store_inv ustr db"
    and call: "economy_call ustr uparse db p"
  shows "wsafe ustr (\<lambda>_ _. True) db p"
  using call
proof cases
  case (call_renew subID oldEnd price actor)
  then show ?thesis using RenewSubscription_frame by (auto intro!: frame_command_safe)
qed (auto intro: start_call_safe [OF Service_Reserve_safe [OF u inv] inv]
    start_call_safe [OF Service_settle_safe(1) [OF u inv] inv]
    start_call_safe [OF Service_settle_safe(2) [OF u inv] inv]
    start_call_safe [OF Service_Grant_safe [OF inv] inv]
    start_call_safe [OF IssueCourtesyGrant_safe inv] start_call_safe [OF Allocator_Handle_safe inv]
    start_call_safe [OF ApplyMasterGrant_safe inv] create_command_safe MasterGrantStore_safe(2)
    safe_True_if_Ret)

lemma economy_reach_inv:
  assumes "uuid_text ustr uparse" "store_inv ustr db0" "economy_reach ustr uparse db0 db"
  shows "store_inv ustr db" and "evolves db0 db"
proof -
  obtain pool where r: "pool_reach (env_ok ustr) (economy_call ustr uparse) db0 (db, pool)"
    using assms(3) by blast
  show "store_inv ustr db" and "evolves db0 db"
    using wallet_rg.pool_reach_safe [OF r assms(2) economy_call_safe [OF assms(1)]] by auto
qed

section \<open>A concrete store\<close>

text \<open>One tenant with a credit of 100 tokens and an open reservation of 30, and a way to print identifiers.\<close>

definition ustr_ex :: "uuid \<Rightarrow> string" where
  "ustr_ex u = replicate (Suc u) (CHR ''a'')"

definition uparse_ex :: "string \<Rightarrow> uuid option" where
  "uparse_ex s = (if s \<noteq> [] \<and> list_all (\<lambda>c. c = CHR ''a'') s then Some (length s - 1) else None)"

definition row_ex :: "uuid \<Rightarrow> LedgerKind \<Rightarrow> int \<Rightarrow> string \<Rightarrow> string option \<Rightarrow> token_ledger_row" where
  "row_ex i kind amount key ref =
     \<lparr>tl_id = i, tl_wallet_id = 1, tl_tenant_id = 7, tl_kind = kind, tl_amount = amount,
      tl_idempotency_key = key, tl_external_ref = ref, tl_source = SourceConsumption,
      tl_master_grant_id = None, tl_occurred_at = 5, tl_created_at = 5\<rparr>"

definition grant_ex :: "uuid \<Rightarrow> MasterGrantKind \<Rightarrow> (string \<times> any) list \<Rightarrow> MasterGrant" where
  "grant_ex i kind payload =
     \<lparr>mg_id = i, mg_externalID = ''G'', mg_tenantID = 7, mg_kind = kind, mg_payload = payload,
      mg_reason = ''onboarding support'', mg_createdByUserID = 9, mg_createdAt = 5,
      mg_consumedAt = None, mg_consumedRef = '''', mg_revokedAt = None, mg_revokedByUserID = None,
      mg_revokeReason = ''''\<rparr>"

definition db_ex :: crm_db where
  "db_ex =
     \<lparr>token_wallet = [hydrate 1 7 100 30 2 5 5],
      token_ledger = [row_ex 2 KindGrant 100 ''g1'' None, row_ex 3 KindReserve (- 30) ''r1'' (Some (ustr_ex 4))],
      courtesy_grant = [],
      master_grant = [grant_ex 20 KindExtraTokens [(''amount'', AnyInt 50)],
                      (grant_ex 21 KindFreeSubscriptionPeriod [(''period_days'', AnyInt 7)])\<lparr>mg_externalID := ''F''\<rparr>],
      subscription = [\<lparr>sub_id = 30, sub_tenantID = 7, sub_planID = 31, sub_status = SubscriptionStatusActive,
                       sub_currentPeriodStart = 0, sub_currentPeriodEnd = 31 * day_ns,
                       sub_createdAt = 0, sub_updatedAt = 0\<rparr>],
      invoice = [],
      plans = [\<lparr>pl_ID = 31, pl_Slug = ''basic'', pl_Name = ''Basic'', pl_PriceCentsBRL = 4990,
                pl_MonthlyTokenQuota = 1000\<rparr>]\<rparr>"

definition rv_ex :: Reservation where
  "rv_ex = \<lparr>rv_ID = 4, rv_WalletID = 1, rv_TenantID = 7, rv_Amount = 30, rv_IdempotencyKey = ''r1'',
            rv_CreatedAt = 5\<rparr>"

definition env_ex :: "nat \<Rightarrow> call_env" where
  "env_ex n = \<lparr>o_fault = NoFault, o_now = 1000, o_ids = (\<lambda>i. 100 + i)\<rparr>"

lemma uuid_text_ex: "uuid_text ustr_ex uparse_ex"
  by (simp add: uuid_text_def ustr_ex_def uparse_ex_def list_all_iff)

lemmas ex_defs = db_ex_def row_ex_def hydrate_def grant_ex_def

definition db_with :: "TokenWallet \<Rightarrow> token_ledger_row list \<Rightarrow> crm_db" where
  "db_with w L = db_ex\<lparr>token_wallet := [w], token_ledger := L\<rparr>"

lemma store_inv_with:
  assumes "books w L" "tw_id w = 1" "tw_tenantID w = 7"
    and "\<forall>r \<in> set L. tl_wallet_id r = 1 \<and> tl_tenant_id r = 7 \<and>
      (is_reserve r \<longrightarrow> (\<exists>u. tl_external_ref r = Some (ustr_ex u)))"
  shows "store_inv ustr_ex (db_with w L)"
proof -
  have "wrows (db_with w L) 1 = L" using assms(4) by (simp add: wrows_def db_with_def)
  then have "tenant_books (db_with w L) w" using assms by (simp add: tenant_books_def)
  then have "db_inv (db_with w L)"
    using assms by (simp add: db_inv_def db_with_def)
      (simp add: db_ex_def grant_ex_def grant_ok_def IsRevoked_def IsConsumed_def)
  moreover have "refs_ok ustr_ex (db_with w L)" using assms(4) by (simp add: refs_ok_def db_with_def)
  ultimately show ?thesis by (simp add: store_inv_def)
qed

lemmas books_eval = books_def wallet_ok_def ledger_ok_def credited_def open_total_def open_rows_def
  is_settled_def settled_by_def is_settlement_def is_reserve_def row_ex_def hydrate_def wrap64_def i64

lemma store_inv_ex: "store_inv ustr_ex db_ex"
proof -
  have eq: "db_with (hydrate 1 7 100 30 2 5 5) (token_ledger db_ex) = db_ex" by (simp add: db_with_def db_ex_def)
  have "store_inv ustr_ex (db_with (hydrate 1 7 100 30 2 5 5) (token_ledger db_ex))"
    by (rule store_inv_with) (auto simp: books_eval db_ex_def)
  then show ?thesis unfolding eq .
qed

lemma env_ok_ex: "env_ok ustr_ex db_ex (env_ex n)"
  by (auto simp: env_ok_def env_ex_def ex_defs ustr_ex_def i64)

lemma authentic_ex: "authentic ustr_ex db_ex rv_ex"
  by (simp add: authentic_def reserve_row_def rv_ex_def ex_defs is_reserve_def)

text \<open>The store after a commit of 20 of the 30 reserved tokens, which an interleaving reaches.\<close>

definition committed_ex :: crm_db where
  "committed_ex = db_ex\<lparr>token_wallet := [hydrate 1 7 80 0 3 5 1000],
     token_ledger := token_ledger db_ex @ [(row_ex 100 KindCommit (- 20) ''c1'' (Some (ustr_ex 4)))\<lparr>tl_occurred_at := 1000, tl_created_at := 1000\<rparr>]\<rparr>"

lemma commit_ex:
  "store_after (Service_Commit ustr_ex ''tenant:default'' (Some rv_ex) 20 ''c1'') env_ex db_ex = committed_ex"
  by code_simp

lemma commit_ok_ex: "run_ok (env_ok ustr_ex) (Service_Commit ustr_ex ''tenant:default'' (Some rv_ex) 20 ''c1'') env_ex 0 db_ex"
proof -
  have l: "LoadByTenant db_ex 7 = Inr (hydrate 1 7 100 30 2 5 5)" "LookupByIdempotencyKey db_ex 7 1 ''c1'' = werr wallet_ErrNotFound"
      "LookupCompletedByExternalRef db_ex 7 1 (ustr_ex 4) = werr wallet_ErrNotFound" "validateIdempotencyKey ''c1'' = Inr ()"
      "wallet_Commit (hydrate 1 7 100 30 2 5 5) 20 30 1000 = Inr (hydrate 1 7 80 0 3 5 1000)" by code_simp+
  have e: "o_fault (env_ex n) = NoFault" "o_now (env_ex n) = 1000" "o_ids (env_ex n) 0 = 100" for n by (simp_all add: env_ex_def)
  have r: "rv_Amount rv_ex = 30" "rv_TenantID rv_ex = 7" "rv_WalletID rv_ex = 1" "rv_ID rv_ex = 4" by (simp_all add: rv_ex_def)
  have w: "tw_id (hydrate 1 7 100 30 2 5 5) = 1" by (simp add: hydrate_def)
  have "case ApplyWithLock 1000 db_ex (hydrate 1 7 80 0 3 5 1000) [ledger_entry 100 (hydrate 1 7 80 0 3 5 1000) KindCommit 20 ''c1'' (ustr_ex 4) 1000] of
      Inl _ \<Rightarrow> False | Inr _ \<Rightarrow> True" by code_simp
  then obtain db' where a: "ApplyWithLock 1000 db_ex (hydrate 1 7 80 0 3 5 1000) [ledger_entry 100 (hydrate 1 7 80 0 3 5 1000) KindCommit 20 ''c1'' (ustr_ex 4) 1000] = Inr db'"
    by (auto split: sum.splits)
  obtain m where m: "maxAttempts = Suc m" by (cases maxAttempts) (simp_all add: maxAttempts_def)
  show ?thesis
    by (simp add: Service_Commit_def m a settle_attempt_def apply_entry_def l e r w env_ok_ex del: One_nat_def)
qed

lemma reach_ex: "economy_reach ustr_ex uparse_ex db_ex committed_ex"
proof -
  let ?c = "Service_Commit ustr_ex ''tenant:default'' (Some rv_ex) 20 ''c1''"
  have "economy_call ustr_ex uparse_ex db_ex (start_call ?c)" using authentic_ex by (intro call_commit) simp
  then have "pool_step (env_ok ustr_ex) (economy_call ustr_ex uparse_ex) (db_ex, \<lambda>_. Ret ()) (db_ex, (\<lambda>_. Ret ())(0 := start_call ?c))"
    by (intro step_start) simp_all
  then have st: "pool_reach (env_ok ustr_ex) (economy_call ustr_ex uparse_ex) db_ex (db_ex, (\<lambda>_. Ret ())(0 := start_call ?c))"
    by (rule reach_step [OF reach_init])
  obtain r n where "run ?c env_ex 0 db_ex = (r, n, committed_ex)"
    using commit_ex by (cases "run ?c env_ex 0 db_ex") (simp add: store_after_def)
  then have "run (start_call ?c) env_ex 0 db_ex = ((), n, committed_ex)" "run_ok (env_ok ustr_ex) (start_call ?c) env_ex 0 db_ex"
    using commit_ok_ex by (simp_all add: start_call_def)
  from reach_by_run [OF st _ this(2,1), of 0] show ?thesis by auto
qed

lemma wallet_ex: "hydrate 1 7 80 0 3 5 1000 \<in> set (token_wallet committed_ex)"
  by (simp add: committed_ex_def)

section \<open>Properties\<close>

text \<open>
  C1. In every interleaving of the use cases, from a consistent store, the balance of every
  wallet equals the sum of its grants and commits in the ledger, its reserved amount equals the
  sum of its open reservations, and \<open>0 \<le> reserved \<le> balance\<close> stays within 64 bits.
\<close>

theorem books_balance:
  assumes "uuid_text ustr uparse" "store_inv ustr db0" "economy_reach ustr uparse db0 db"
    and "w \<in> set (token_wallet db)"
  shows "tw_balance w = credited (wrows db (tw_id w)) \<and> tw_reserved w = open_total (wrows db (tw_id w)) \<and>
    0 \<le> tw_reserved w \<and> tw_reserved w \<le> tw_balance w \<and> tw_balance w \<le> max_i64"
  using loaded(1) [OF economy_reach_inv(1) [OF assms(1-3)] assms(4)]
  by (simp add: books_def wallet_ok_def)

theorem books_balance_witness:
  "economy_reach ustr_ex uparse_ex db_ex committed_ex \<and> credited (wrows committed_ex 1) = 80 \<and> open_total (wrows committed_ex 1) = 0"
  using books_balance [OF uuid_text_ex store_inv_ex reach_ex wallet_ex] reach_ex by (simp add: hydrate_def)

text \<open>
  C2. No reservation is settled twice and no idempotency key is used twice: in every
  interleaving, two ledger rows of a wallet with the same key, and two commits or releases of a
  wallet for the same reservation, are one and the same row.
\<close>

theorem settled_at_most_once:
  assumes "uuid_text ustr uparse" "store_inv ustr db0" "economy_reach ustr uparse db0 db"
    and "w \<in> set (token_wallet db)"
  shows "distinct (map tl_idempotency_key (wrows db (tw_id w))) \<and>
    distinct (map tl_external_ref (filter is_settlement (wrows db (tw_id w))))"
  using loaded(3) [OF economy_reach_inv(1) [OF assms(1-3)] assms(4)] by (simp add: ledger_ok_def)

theorem settled_at_most_once_witness:
  "length (wrows committed_ex 1) = 3 \<and> distinct (map tl_idempotency_key (wrows committed_ex 1)) \<and>
   distinct (map tl_external_ref (filter is_settlement (wrows committed_ex 1)))"
proof -
  have "length (wrows committed_ex 1) = 3" by code_simp
  then show ?thesis using settled_at_most_once [OF uuid_text_ex store_inv_ex reach_ex wallet_ex] by (simp add: hydrate_def)
qed

text \<open>
  C3. Refinement: whatever the interleaving, the ledger of every wallet moves only by steps of the
  abstract account, which can grant, reserve within what is available, and settle each open
  reservation once.
\<close>

theorem ledger_refines_account:
  assumes "uuid_text ustr uparse" "store_inv ustr db0" "economy_reach ustr uparse db0 db"
  shows "acct_step\<^sup>*\<^sup>* (account_of (wrows db0 wid)) (account_of (wrows db wid))"
  using economy_reach_inv(2) [OF assms] by (simp add: evolves_def)

theorem ledger_refines_account_witness:
  "acct_step\<^sup>*\<^sup>* (account_of (wrows db_ex 1)) (account_of (wrows committed_ex 1)) \<and>
   length (wrows db_ex 1) = 2 \<and> length (wrows committed_ex 1) = 3"
proof -
  have "length (wrows db_ex 1) = 2" "length (wrows committed_ex 1) = 3" by code_simp+
  then show ?thesis using ledger_refines_account [OF uuid_text_ex store_inv_ex reach_ex, of 1] by blast
qed

text \<open>
  C4. The ledger is append-only and grants are terminal in every interleaving: the rows of the
  first store are a prefix of the later ledger, a grant that was consumed or revoked is
  unchanged, and no grant is ever both.
\<close>

theorem history_is_kept:
  assumes "uuid_text ustr uparse" "store_inv ustr db0" "economy_reach ustr uparse db0 db"
  shows "take (length (token_ledger db0)) (token_ledger db) = token_ledger db0 \<and>
    {g \<in> set (master_grant db0). IsConsumed g \<or> IsRevoked g} \<subseteq> set (master_grant db) \<and>
    list_all (\<lambda>g. \<not> (IsConsumed g \<and> IsRevoked g)) (master_grant db)"
proof -
  have "db_inv db" using economy_reach_inv(1) [OF assms] by simp
  moreover have ev: "evolves db0 db" by (rule economy_reach_inv(2) [OF assms])
  then have "take (length (token_ledger db0)) (token_ledger db) = token_ledger db0"
    by (auto simp: evolves_def)
  moreover have "{g \<in> set (master_grant db0). IsConsumed g \<or> IsRevoked g} \<subseteq> set (master_grant db)"
    using ev by (auto simp: evolves_def)
  ultimately show ?thesis by (auto simp: db_inv_def grant_ok_def list_all_iff)
qed

theorem history_is_kept_witness:
  "take 2 (token_ledger committed_ex) = token_ledger db_ex \<and> length (token_ledger committed_ex) = 3"
  using history_is_kept [OF uuid_text_ex store_inv_ex reach_ex] by (simp add: db_ex_def committed_ex_def)

end
