(* ===== verification/WalletRuns.thy ===== *)
theory WalletRuns
  imports TokenEconomy
begin

text \<open>
  What a single wallet use case returns and leaves in the store when nothing interferes:
  the functional behaviour of \<^verbatim>\<open>Reserve\<close>, \<^verbatim>\<open>Commit\<close>, \<^verbatim>\<open>Release\<close> and \<^verbatim>\<open>Grant\<close>, their replays, and that an
  error means that nothing was written.
\<close>

section \<open>Runs without faults\<close>

lemma run_query_quiet: "quiet os \<Longrightarrow> run (query q k) os n s = run (k (q s)) os (Suc n) s"
  by (simp add: quiet_def)

lemma run_apply_entry:
  "quiet os \<Longrightarrow> run (apply_entry w entry out) os n s =
     (case ApplyWithLock (o_now (os n)) s w [entry (os n)] of
        Inl e \<Rightarrow> (if retryable e then Retry e else Done (Inl e), Suc n, s)
      | Inr s' \<Rightarrow> (Done (Inr (out (os n))), Suc n, s'))"
  by (simp add: apply_entry_def quiet_def split: sum.splits)

lemma run_retry_Done:
  assumes "run body os n s = (Done r, n', s')"
  shows "run (retry_loop maxAttempts msg body e) os n s = (r, n', s')"
proof -
  have m: "maxAttempts = Suc 255" by (simp add: maxAttempts_def)
  show ?thesis unfolding m run_retry_loop_Suc assms by simp
qed

lemma retry_loop_unchanged:
  assumes "\<And>n s a n' s'. run body os n s = (a, n', s') \<Longrightarrow> (\<exists>x. a = Done (Inr x)) \<or> s' = s"
  shows "run (retry_loop m msg body e0) os n s = (Inl e, n', s') \<Longrightarrow> s' = s"
proof (induction m arbitrary: n s e0)
  case (Suc m)
  obtain a n1 s1 where r: "run body os n s = (a, n1, s1)" by (metis prod_cases3)
  show ?case
    using Suc.prems Suc.IH [of _ n1 s1] assms [OF r] r
    by (cases a) (auto simp del: retry_loop.simps simp: run_retry_loop_Suc)
qed simp

text \<open>An attempt that does not succeed writes nothing.\<close>

lemma attempts_unchanged:
  assumes q: "quiet os"
  shows "run (reserve_attempt ustr uparse t amount key) os n s = (a, n', s') \<Longrightarrow>
      (\<exists>x. a = Done (Inr x)) \<or> s' = s"
    and "run (settle_attempt ustr kind rv amount key mutate publish) os n s = (b, n', s') \<Longrightarrow>
      (\<exists>x. b = Done (Inr x)) \<or> s' = s"
    and "run (grant_attempt t amount key ref) os n s = (c, n', s') \<Longrightarrow>
      (\<exists>x. c = Done (Inr x)) \<or> s' = s"
  using q by (auto simp: reserve_attempt_def settle_attempt_def grant_attempt_def run_query_quiet run_apply_entry
      simp del: run_query split: sum.splits if_splits)

section \<open>Reading a settled store\<close>

lemma load_quiet:
  "store_inv ustr db \<Longrightarrow> w \<in> set (token_wallet db) \<Longrightarrow> LoadByTenant db (tw_tenantID w) = Inr w"
  using loaded(5) by (simp add: LoadByTenant_Inr)

lemma find_key_unique:
  assumes "store_inv ustr db" "w \<in> set (token_wallet db)" "r \<in> set (token_ledger db)"
    and "tl_wallet_id r = tw_id w" "tl_idempotency_key r \<noteq> []"
  shows "LookupByIdempotencyKey db (tw_tenantID w) (tw_id w) (tl_idempotency_key r) = Inr (decodeLedger r)"
proof -
  let ?P = "\<lambda>x. tl_tenant_id x = tw_tenantID w \<and> tl_wallet_id x = tw_id w
     \<and> tl_idempotency_key x = tl_idempotency_key r"
  have rw: "r \<in> set (wrows db (tw_id w))" using assms(3,4) by (simp add: wrows_def)
  then have "tl_tenant_id r = tw_tenantID w"
    using db_inv_tenant [of db w] assms(1,2) by (auto simp: tenant_books_def)
  then obtain x where x: "find ?P (token_ledger db) = Some x"
    using find_NoneD [of ?P "token_ledger db" r] assms(3,4) by (metis (mono_tags, lifting) not_None_eq)
  then have "x \<in> set (wrows db (tw_id w))" "tl_idempotency_key x = tl_idempotency_key r"
    using find_SomeD [OF x] by (auto simp: wrows_def)
  then have "x = r" using loaded(3) [OF assms(1,2)] rw by (auto simp: ledger_ok_def distinct_map inj_on_def)
  then show ?thesis using x loaded(4,5) [OF assms(1,2)] assms(5) by (simp add: LookupByIdempotencyKey_def)
qed

lemma lookup_key_fresh:
  assumes "\<not> idem_taken db wid key"
  shows "LookupByIdempotencyKey db t wid key = werr wallet_ErrNotFound"
proof -
  have "find (\<lambda>r. tl_tenant_id r = t \<and> tl_wallet_id r = wid \<and> tl_idempotency_key r = key) (token_ledger db) = None"
    using assms by (auto simp: find_None_iff idem_taken_def)
  then show ?thesis by (simp add: LookupByIdempotencyKey_def)
qed

lemma valid_key: "key \<noteq> [] \<Longrightarrow> length key \<le> 128 \<Longrightarrow> validateIdempotencyKey key = Inr ()"
  by (simp add: validateIdempotencyKey_def MaxIdempotencyKeyLen_def)

lemma find_wallet_post:
  assumes "store_inv ustr db" "w \<in> set (token_wallet db)" "tw_id w' = tw_id w" "tw_tenantID w' = tw_tenantID w"
    and "db_inv (post db r w')"
  shows "find_wallet (post db r w') (tw_tenantID w) = Some w'"
proof -
  have "w' \<in> set (token_wallet (post db r w'))"
    using assms(2,3) unfolding post_fields set_map by (intro image_eqI [of _ _ w]) auto
  then show ?thesis using assms(4,5) by (simp add: find_wallet_iff)
qed

text \<open>The write of an attempt when the store is the one that was read.\<close>

lemma apply_quiet:
  assumes inv: "store_inv ustr db" and w: "w \<in> set (token_wallet db)"
    and w': "tw_id w' = tw_id w" "tw_tenantID w' = tw_tenantID w" "tw_version w' = wrap64 (tw_version w + 1)"
      "0 \<le> tw_balance w'" "0 \<le> tw_reserved w'"
    and e: "le_TenantID e = tw_tenantID w" "le_WalletID e = tw_id w" "known_kind (le_Kind e)"
      "\<not> idem_taken db (tw_id w) (le_IdempotencyKey e)" "\<forall>q \<in> set (token_ledger db). tl_id q \<noteq> le_ID e"
      "le_Source e = SourceUnset"
  shows "ApplyWithLock dbnow db w' [e] = Inr (post db (ledger_row e)
     (w\<lparr>tw_balance := tw_balance w', tw_reserved := tw_reserved w', tw_version := tw_version w',
        tw_updatedAt := dbnow\<rparr>))"
proof -
  have dbi: "db_inv db" using inv by simp
  have "tw_version w = wrap64 (wrap64 (tw_version w + 1) + - 1)"
    by (simp only: wrap64_wrap64_add) (simp add: loaded(6) [OF inv w])
  then have v: "tw_version w = wrap64 (tw_version w' - 1)" by (simp add: w'(3))
  have "source_paired (ledger_row e)" "grant_fk db (ledger_row e)"
    using e(6) by (simp_all add: source_paired_def grant_fk_def ledger_row_def)
  then have "\<exists>db'. ApplyWithLock dbnow db w' [e] = Inr db'"
    using w' e loaded(5) [OF inv w] by (intro ApplyWithLock_commits [OF dbi w _ _ _ v]) simp_all
  then obtain db' where a: "ApplyWithLock dbnow db w' [e] = Inr db'" by blast
  from ApplyWithLock_effect [OF dbi a] obtain row where row: "row \<in> set (token_wallet db)"
    "tw_id row = tw_id w'" "db' = post db (ledger_row e) (row\<lparr>tw_balance := tw_balance w',
       tw_reserved := tw_reserved w', tw_version := tw_version w', tw_updatedAt := dbnow\<rparr>)" by blast
  moreover have "row = w" using same_wallet [OF dbi row(1) w] row(2) w'(1) by simp
  ultimately show ?thesis using a by simp
qed

lemma not_settled_lookup:
  assumes "\<not> is_settled (wrows db wid) r" "reserve_row ustr rv r" "wid = rv_WalletID rv"
  shows "LookupCompletedByExternalRef db t wid (ustr (rv_ID rv)) = werr wallet_ErrNotFound"
proof -
  have "\<not> (tl_wallet_id x = wid \<and> tl_external_ref x = Some (ustr (rv_ID rv)) \<and> is_settlement x)"
    if "x \<in> set (token_ledger db)" for x
    using assms that by (auto simp: is_settled_def settled_by_def wrows_def reserve_row_def)
  then have "find (\<lambda>r. tl_tenant_id r = t \<and> tl_wallet_id r = wid \<and> tl_external_ref r = Some (ustr (rv_ID rv))
      \<and> is_settlement r) (token_ledger db) = None" by (auto simp: find_None_iff)
  then show ?thesis by (simp add: LookupCompletedByExternalRef_def)
qed

lemma open_row_le_total:
  assumes "ledger_ok L" "r \<in> set (open_rows L)"
  shows "- tl_amount r \<le> open_total L"
proof -
  have "\<And>x. x \<in> set (open_rows L) \<Longrightarrow> 0 \<le> - tl_amount x"
    using assms(1) by (fastforce simp: ledger_ok_def open_rows_def)
  then show ?thesis unfolding open_total_def using assms(2)
    by (intro member_le_sum_list) auto
qed

lemma loops_unchanged:
  assumes "quiet os"
  shows "run (retry_loop m msg (reserve_attempt ustr uparse t amount key) e0) os n s = (Inl e, n', s') \<Longrightarrow> s' = s"
    and "run (retry_loop m msg (settle_attempt ustr kind rv amount key mutate publish) e0) os n s = (Inl e, n', s') \<Longrightarrow> s' = s"
    and "run (retry_loop m msg (grant_attempt t amount key ref) e0) os n s = (Inl e, n', s') \<Longrightarrow> s' = s"
  by (rule retry_loop_unchanged, erule attempts_unchanged [OF assms], assumption)+

lemma unchangedI:
  assumes "\<not> is_ok (result_of p os db)" and "\<And>e n' s'. run p os 0 db = (Inl e, n', s') \<Longrightarrow> s' = db"
  shows "store_after p os db = db"
proof -
  obtain r n' s' where run: "run p os 0 db = (r, n', s')" by (metis prod_cases3)
  then show ?thesis using assms by (cases r) (auto simp: result_of_def store_after_def)
qed

section \<open>One use case in a consistent store\<close>

lemma run_shift: "run p os n s = (case run p (\<lambda>i. os (n + i)) 0 s of (a, m, s') \<Rightarrow> (a, n + m, s'))"
proof (induction p arbitrary: os n s)
  case (Ret a)
  show ?case by simp
next
  case (Act f)
  obtain p s' where f: "f (os n) s = (p, s')" by (cases "f (os n) s")
  have "p \<in> Basic_BNFs.fsts (f (os n) s)" by (simp add: f)
  then have IH: "run p os' m s' = (case run p (\<lambda>i. os' (m + i)) 0 s' of (a, k, s'') \<Rightarrow> (a, m + k, s''))" for os' m
    using Act.IH by (metis rangeI)
  show ?case
    using IH [of os "Suc n"] IH [of "\<lambda>i. os (n + i)" "Suc 0"] by (simp add: f split: prod.splits)
qed

lemma post_consistent:
  assumes inv: "store_inv ustr db" and w: "w \<in> set (token_wallet db)" and pos: "posting w (wrows db (tw_id w)) r w'"
    and w': "tw_id w' = tw_id w" "tw_tenantID w' = tw_tenantID w"
    and r: "tl_wallet_id r = tw_id w" "tl_tenant_id r = tw_tenantID w"
      "is_reserve r \<Longrightarrow> \<exists>u. tl_external_ref r = Some (ustr u)"
  shows "store_inv ustr (post db r w')" "w' \<in> set (token_wallet (post db r w'))"
    "find_wallet (post db r w') (tw_tenantID w) = Some w'"
proof -
  have dbi: "db_inv (post db r w')"
    using post_inv(1) [of db w w' r] inv w pos w' r(1,2) by (simp add: posting_def)
  moreover have "refs_ok ustr (post db r w')" using inv r(3) by (auto simp: store_inv_def refs_ok_def)
  ultimately show "store_inv ustr (post db r w')" by (simp add: store_inv_def)
  show "w' \<in> set (token_wallet (post db r w'))"
    using w w'(1) unfolding post_fields set_map by (intro image_eqI [of _ _ w]) auto
  show "find_wallet (post db r w') (tw_tenantID w) = Some w'"
    by (rule find_wallet_post [OF inv w w' dbi])
qed

lemma run_reserve_fresh:
  assumes u: "uuid_text ustr uparse" and inv: "store_inv ustr db" and q: "quiet os"
    and env: "env_ok ustr db (os (n + 3))" and w: "w \<in> set (token_wallet db)"
    and amt: "0 < amount" "amount \<le> Available w"
    and key: "key \<noteq> []" "length key \<le> 128" "\<not> idem_taken db (tw_id w) key"
  obtains rv r w' where
    "run (Service_Reserve ustr uparse (tw_tenantID w) amount key) os n db = (Inr rv, n + 4, post db r w')"
    "store_inv ustr (post db r w')" "w' \<in> set (token_wallet (post db r w'))"
    "find_wallet (post db r w') (tw_tenantID w) = Some w'" "tw_id w' = tw_id w" "tw_tenantID w' = tw_tenantID w"
    "tw_reserved w' = tw_reserved w + amount" "tw_balance w' = tw_balance w"
    "r \<in> set (open_rows (wrows (post db r w') (tw_id w)))" "reserve_row ustr rv r"
    "rv_WalletID rv = tw_id w" "rv_TenantID rv = tw_tenantID w" "rv_Amount rv = amount"
    "tl_id r = o_ids (os (n + 3)) 1" "tl_external_ref r = Some (ustr (o_ids (os (n + 3)) 0))"
    "tl_idempotency_key r = key" "tl_wallet_id r = tw_id w"
proof -
  define os' where "os' = (\<lambda>i. os (n + i))"
  have q': "quiet os'" and ev: "os' 3 = os (n + 3)" using q by (simp_all add: os'_def quiet_def)
  let ?t = "tw_tenantID w" and ?ev = "os' 3" and ?now = "o_now (os' 2)"
  let ?w1 = "w\<lparr>tw_reserved := tw_reserved w + amount, tw_version := wrap64 (tw_version w + 1), tw_updatedAt := ?now\<rparr>"
  let ?e = "ledger_entry (o_ids ?ev 1) ?w1 KindReserve amount key (ustr (o_ids ?ev 0)) ?now"
  let ?rv = "\<lparr>rv_ID = o_ids ?ev 0, rv_WalletID = tw_id w, rv_TenantID = ?t, rv_Amount = amount,
     rv_IdempotencyKey = key, rv_CreatedAt = ?now\<rparr>"
  let ?w' = "w\<lparr>tw_reserved := tw_reserved w + amount, tw_version := wrap64 (tw_version w + 1), tw_updatedAt := o_now ?ev\<rparr>"
  let ?r = "ledger_row ?e" and ?L = "wrows db (tw_id w)"
  note ok = loaded(2) [OF inv w]
  have m: "wallet_Reserve w amount ?now = Inr ?w1"
    using amt by (simp add: wallet_Reserve_ok [OF ok] Available_eq [OF ok])
  have "\<forall>x \<in> set (token_ledger db). tl_id x \<noteq> o_ids ?ev 1" using env ev by (simp add: env_ok_def)
  then have ap: "ApplyWithLock (o_now ?ev) db ?w1 [?e] = Inr (post db ?r ?w')"
    using apply_quiet [OF inv w, of ?w1 ?e] ok amt key
    by (simp add: wallet_ok_def ledger_entry_def known_kind_def)
  have "run (reserve_attempt ustr uparse ?t amount key) os' 0 db = (Done (Inr ?rv), 4, post db ?r ?w')"
    using m ap by (simp add: reserve_attempt_def run_query_quiet [OF q'] run_apply_entry [OF q'] load_quiet [OF inv w]
        lookup_key_fresh [OF key(3)] numeral_2_eq_2 numeral_3_eq_3 del: run_query One_nat_def)
  then have "run (Service_Reserve ustr uparse ?t amount key) os' 0 db = (Inr ?rv, 4, post db ?r ?w')"
    using loaded(5) [OF inv w] amt key by (simp add: Service_Reserve_def valid_key run_retry_Done del: retry_loop.simps)
  then have run: "run (Service_Reserve ustr uparse ?t amount key) os n db = (Inr ?rv, n + 4, post db ?r ?w')"
    by (subst run_shift) (simp add: os'_def)
  have pos: "posting w ?L ?r ?w'"
    using posting_reserve_entry [OF inv w u m env [folded ev] refl refl refl refl, of key "o_ids ?ev 1" "o_now ?ev"]
      key(3) by (simp add: not_idem_taken_wrows)
  have row: "tl_wallet_id ?r = tw_id w" "tl_tenant_id ?r = ?t" "is_reserve ?r"
      "tl_external_ref ?r = Some (ustr (o_ids ?ev 0))" "tl_id ?r = o_ids ?ev 1" "tl_idempotency_key ?r = key"
    using u by (simp_all add: ledger_row_entry is_reserve_def nullIfEmpty_def uuid_text_def)
  note cons = post_consistent [OF inv w pos _ _ row(1,2)]
  have rr: "reserve_row ustr ?rv ?r"
    using u ok amt SignedAmount_pos(1) [of amount]
    by (simp add: reserve_row_def ledger_row_entry is_reserve_def nullIfEmpty_def uuid_text_def
        wallet_ok_def Available_eq [OF ok])
  have "tl_external_ref x \<noteq> tl_external_ref ?r" if "x \<in> set ?L" for x
    using that env ev row(4) by (auto simp: env_ok_def wrows_def)
  then have op: "?r \<in> set (open_rows (wrows (post db ?r ?w') (tw_id w)))"
    using open_rows_reserve [OF row(3), of ?L] row(1) by (simp add: wrows_post)
  show ?thesis
    by (rule that [OF run cons]) (use row op rr ev in \<open>auto\<close>)
qed

text \<open>A settlement of an open reservation; \<open>mutate\<close> is the aggregate's \<^verbatim>\<open>Commit\<close> or \<^verbatim>\<open>Release\<close>.\<close>

lemma run_settle_open:
  assumes u: "uuid_text ustr uparse" and inv: "store_inv ustr db" and q: "quiet os"
    and env: "env_ok ustr db (os (n + 4))" and w: "w \<in> set (token_wallet db)"
    and rv: "r \<in> set (open_rows (wrows db (tw_id w)))" "reserve_row ustr rv r"
      "rv_WalletID rv = tw_id w" "rv_TenantID rv = tw_tenantID w"
    and m: "mutate w (o_now (os (n + 3))) = Inr w1" and eff: "settle_effect kind rv amount w w1"
      "w1 = w\<lparr>tw_balance := tw_balance w1, tw_reserved := tw_reserved w1, tw_version := tw_version w1, tw_updatedAt := tw_updatedAt w1\<rparr>"
    and key: "\<not> idem_taken db (tw_id w) key"
  obtains s w' where
    "run (settle_attempt ustr kind rv amount key mutate publish) os n db =
       (Done (Inr (publish w1 (o_now (os (n + 3))))), n + 5, post db s w')"
    "store_inv ustr (post db s w')" "w' \<in> set (token_wallet (post db s w'))"
    "find_wallet (post db s w') (tw_tenantID w) = Some w'" "tw_id w' = tw_id w" "tw_tenantID w' = tw_tenantID w"
    "tw_balance w' = tw_balance w1" "tw_reserved w' = tw_reserved w1"
    "tl_wallet_id s = tw_id w" "tl_kind s = kind" "tl_external_ref s = Some (ustr (rv_ID rv))"
    "tl_idempotency_key s = key" "tl_id s = o_ids (os (n + 4)) 0"
proof -
  define os' where "os' = (\<lambda>i. os (n + i))"
  have q': "quiet os'" and ev: "os' 4 = os (n + 4)" "os' 3 = os (n + 3)" using q by (simp_all add: os'_def quiet_def)
  let ?t = "tw_tenantID w" and ?ev = "os' 4" and ?now = "o_now (os' 3)" and ?L = "wrows db (tw_id w)"
  let ?w' = "w\<lparr>tw_balance := tw_balance w1, tw_reserved := tw_reserved w1, tw_version := tw_version w1, tw_updatedAt := o_now ?ev\<rparr>"
  let ?e = "ledger_entry (o_ids ?ev 0) w1 kind amount key (ustr (rv_ID rv)) ?now"
  let ?s = "ledger_row ?e"
  note ok = loaded [OF inv w]
  have r: "r \<in> set ?L" "is_reserve r" "\<not> is_settled ?L r" using rv(1) by (auto simp: open_rows_def)
  have fits: "rv_Amount rv \<le> tw_reserved w"
    using open_row_le_total [OF ok(3) rv(1)] ok(1) rv(2) by (simp add: books_def reserve_row_def)
  have auth: "authentic ustr db rv" using r(1) rv(2) by (auto simp: authentic_def wrows_def)
  have unset: "LookupCompletedByExternalRef db ?t (tw_id w) (ustr (rv_ID rv)) = werr wallet_ErrNotFound"
    using r(3) rv(2,3) by (intro not_settled_lookup) simp_all
  have w1: "tw_id w1 = tw_id w" "tw_tenantID w1 = ?t" "tw_version w1 = wrap64 (tw_version w + 1)"
      "0 \<le> tw_balance w1" "0 \<le> tw_reserved w1" and kind: "kind = KindCommit \<or> kind = KindRelease"
    using eff(1) ok(2) fits by (auto simp: settle_effect_def wallet_ok_def)
  have "\<forall>x \<in> set (token_ledger db). tl_id x \<noteq> o_ids ?ev 0" using env ev by (simp add: env_ok_def)
  then have ap: "ApplyWithLock (o_now ?ev) db w1 [?e] = Inr (post db ?s ?w')"
    using apply_quiet [OF inv w w1, of ?e] key w1 kind by (auto simp: ledger_entry_def known_kind_def)
  have "run (settle_attempt ustr kind rv amount key mutate publish) os' 0 db =
      (Done (Inr (publish w1 ?now)), 5, post db ?s ?w')"
    using m [folded ev] ap unset rv(3,4) by (simp add: settle_attempt_def run_query_quiet [OF q'] run_apply_entry [OF q']
        load_quiet [OF inv w] lookup_key_fresh [OF key] eval_nat_numeral del: run_query)
  then have run: "run (settle_attempt ustr kind rv amount key mutate publish) os n db =
      (Done (Inr (publish w1 (o_now (os (n + 3))))), n + 5, post db ?s ?w')"
    by (subst run_shift) (simp add: os'_def)
  have pos: "posting w ?L ?s ?w'"
    using posting_settle_entry [OF inv w inv refl u auth _ _ _ eff(1), where row = w
      and t = "o_now ?ev" and key = key and eid = "o_ids ?ev 0"] unset rv(3,4) key
    by (simp add: not_idem_taken_wrows)
  have row: "tl_wallet_id ?s = tw_id w" "tl_tenant_id ?s = ?t" "\<not> is_reserve ?s" "tl_kind ?s = kind"
      "tl_external_ref ?s = Some (ustr (rv_ID rv))" "tl_idempotency_key ?s = key" "tl_id ?s = o_ids ?ev 0"
    using u w1 kind by (auto simp: ledger_row_entry is_reserve_def nullIfEmpty_def uuid_text_def)
  note cons = post_consistent [OF inv w pos _ _ row(1,2)]
  show ?thesis by (rule that [OF run cons]) (use row ev in \<open>auto\<close>)
qed

lemma run_reserve_replay:
  assumes u: "uuid_text ustr uparse" and inv: "store_inv ustr db" and q: "quiet os"
    and w: "w \<in> set (token_wallet db)"
    and r: "r \<in> set (wrows db (tw_id w))" "is_reserve r"
    and key: "tl_idempotency_key r \<noteq> []" "length (tl_idempotency_key r) \<le> 128"
  obtains rv where
    "run (Service_Reserve ustr uparse (tw_tenantID w) (- tl_amount r) (tl_idempotency_key r)) os n db = (Inr rv, n + 2, db)"
    "reserve_row ustr rv r"
proof -
  let ?t = "tw_tenantID w" and ?a = "- tl_amount r" and ?k = "tl_idempotency_key r"
  note ok = loaded [OF inv w]
  have amt: "0 < ?a" "wrap64 ?a = ?a" and ten: "tl_tenant_id r = ?t" "tl_wallet_id r = tw_id w"
    using ok(3) r db_inv_tenant [of db w] inv w
    by (auto simp: ledger_ok_def wrap64_nonneg tenant_books_def wrows_def)
  obtain v where v: "tl_external_ref r = Some (ustr v)"
    using inv r by (auto simp: store_inv_def refs_ok_def wrows_def)
  let ?rv = "\<lparr>rv_ID = v, rv_WalletID = tw_id w, rv_TenantID = ?t, rv_Amount = ?a,
     rv_IdempotencyKey = ?k, rv_CreatedAt = tl_occurred_at r\<rparr>"
  have look: "LookupByIdempotencyKey db ?t (tw_id w) ?k = Inr (decodeLedger r)"
    using r(1) key(1) ten by (intro find_key_unique [OF inv w]) (simp_all add: wrows_def)
  have rep: "reserve_replay uparse ?a ?k (decodeLedger r) = Inr ?rv"
    using r(2) amt ten v u by (simp add: reserve_replay_def decodeLedger_def is_reserve_def uuid_text_def)
  have q': "quiet (\<lambda>i. os (n + i))" using q by (simp add: quiet_def)
  have "run (reserve_attempt ustr uparse ?t ?a ?k) (\<lambda>i. os (n + i)) 0 db = (Done (Inr ?rv), 2, db)"
    using look rep by (simp add: reserve_attempt_def run_query_quiet [OF q'] load_quiet [OF inv w] del: run_query)
  then have "run (Service_Reserve ustr uparse ?t ?a ?k) (\<lambda>i. os (n + i)) 0 db = (Inr ?rv, 2, db)"
    using ok(5) amt key by (simp add: Service_Reserve_def valid_key run_retry_Done del: retry_loop.simps)
  then have "run (Service_Reserve ustr uparse ?t ?a ?k) os n db = (Inr ?rv, n + 2, db)"
    by (subst run_shift) simp
  moreover have "reserve_row ustr ?rv r" using r(2) v ten by (simp add: reserve_row_def)
  ultimately show ?thesis by (rule that)
qed

section \<open>Properties\<close>

text \<open>
  A failed call leaves no trace: when the calls themselves do not fail, a use case that
  returns an error, whichever of its branches the error comes from, leaves the store exactly as
  it found it.
\<close>

theorem errors_write_nothing:
  assumes "quiet os"
  shows "(\<not> is_ok (result_of (Service_Reserve ustr uparse t amount key) os db) \<longrightarrow>
      store_after (Service_Reserve ustr uparse t amount key) os db = db) \<and>
    (\<not> is_ok (result_of (Service_Commit ustr scope ro amount key) os db) \<longrightarrow>
      store_after (Service_Commit ustr scope ro amount key) os db = db) \<and>
    (\<not> is_ok (result_of (Service_Release ustr ro key) os db) \<longrightarrow>
      store_after (Service_Release ustr ro key) os db = db) \<and>
    (\<not> is_ok (result_of (Service_Grant t amount key ref) os db) \<longrightarrow>
      store_after (Service_Grant t amount key ref) os db = db)"
  by (intro conjI impI; rule unchangedI, assumption)
    (auto simp: Service_Reserve_def Service_Commit_def Service_Release_def Service_Grant_def
      simp del: retry_loop.simps split: if_splits sum.splits option.splits
      dest: loops_unchanged [OF assms])

theorem errors_write_nothing_witness:
  "store_after (Service_Reserve ustr_ex uparse_ex 7 500 ''r2'') env_ex db_ex = db_ex"
proof -
  have "run (reserve_attempt ustr_ex uparse_ex 7 500 ''r2'') env_ex 0 db_ex
      = (Done (werr wallet_ErrInsufficientFunds), 3, db_ex)"
    by (simp add: reserve_attempt_def env_ex_def LoadByTenant_def find_wallet_def LookupByIdempotencyKey_def
        ex_defs wallet_Reserve_def wrap64_def)
  then have "\<not> is_ok (result_of (Service_Reserve ustr_ex uparse_ex 7 500 ''r2'') env_ex db_ex)"
    by (simp add: result_of_def Service_Reserve_def valid_key run_retry_Done del: retry_loop.simps)
  moreover have "quiet env_ex" by (simp add: quiet_def env_ex_def)
  ultimately show ?thesis using errors_write_nothing by blast
qed

text \<open>
  A reservation that fits is granted: with a fresh, well-formed key and enough available
  tokens \<^verbatim>\<open>Reserve\<close> returns a handle the ledger knows, and the wallet's reserved amount grows by
  exactly the amount, its balance stays.
\<close>

theorem reserve_succeeds:
  assumes u: "uuid_text ustr uparse" and inv: "store_inv ustr db" and q: "quiet os"
    and env: "\<And>n. env_ok ustr db (os n)" and w: "w \<in> set (token_wallet db)"
    and amt: "0 < amount" "amount \<le> Available w"
    and key: "key \<noteq> []" "length key \<le> 128" "\<not> idem_taken db (tw_id w) key"
  shows "\<exists>rv w'. result_of (Service_Reserve ustr uparse (tw_tenantID w) amount key) os db = Inr rv \<and>
    authentic ustr (store_after (Service_Reserve ustr uparse (tw_tenantID w) amount key) os db) rv \<and>
    rv_Amount rv = amount \<and>
    find_wallet (store_after (Service_Reserve ustr uparse (tw_tenantID w) amount key) os db) (tw_tenantID w) = Some w' \<and>
    tw_reserved w' = tw_reserved w + amount \<and> tw_balance w' = tw_balance w"
proof -
  obtain rv r w' where "run (Service_Reserve ustr uparse (tw_tenantID w) amount key) os 0 db = (Inr rv, 0 + 4, post db r w')"
    and "store_inv ustr (post db r w')" and "find_wallet (post db r w') (tw_tenantID w) = Some w'"
    and "tw_reserved w' = tw_reserved w + amount" "tw_balance w' = tw_balance w"
    and "reserve_row ustr rv r" "rv_Amount rv = amount"
    by (rule run_reserve_fresh [OF u inv q env w amt key, of 0])
  then show ?thesis by (auto simp: result_of_def store_after_def authentic_def)
qed

theorem reserve_succeeds_witness:
  "\<exists>rv. result_of (Service_Reserve ustr_ex uparse_ex 7 50 ''r2'') env_ex db_ex = Inr rv"
proof -
  have w: "hydrate 1 7 100 30 2 5 5 \<in> set (token_wallet db_ex)" by (simp add: db_ex_def)
  have q: "quiet env_ex" by (simp add: quiet_def env_ex_def)
  have "\<not> idem_taken db_ex 1 ''r2''" by (simp add: idem_taken_def ex_defs)
  then show ?thesis
    using reserve_succeeds [OF uuid_text_ex store_inv_ex q env_ok_ex w, of 50 "''r2''"]
    by (auto simp: hydrate_def Available_def wrap64_def)
qed

text \<open>
  A retried \<^verbatim>\<open>Reserve\<close> is answered from the ledger: when the ledger already has the reserve row
  of this key and amount (whether or not the first answer was delivered), \<^verbatim>\<open>Reserve\<close> returns the handle
  of that row and writes nothing.
\<close>

theorem reserve_retry_returns_prior:
  assumes u: "uuid_text ustr uparse" and inv: "store_inv ustr db" and q: "quiet os"
    and w: "w \<in> set (token_wallet db)"
    and r: "r \<in> set (wrows db (tw_id w))" "is_reserve r"
    and key: "tl_idempotency_key r \<noteq> []" "length (tl_idempotency_key r) \<le> 128"
  shows "\<exists>rv. result_of (Service_Reserve ustr uparse (tw_tenantID w) (- tl_amount r) (tl_idempotency_key r)) os db = Inr rv \<and>
    reserve_row ustr rv r \<and>
    store_after (Service_Reserve ustr uparse (tw_tenantID w) (- tl_amount r) (tl_idempotency_key r)) os db = db"
proof -
  obtain rv where "run (Service_Reserve ustr uparse (tw_tenantID w) (- tl_amount r) (tl_idempotency_key r)) os 0 db = (Inr rv, 0 + 2, db)"
    and "reserve_row ustr rv r"
    by (rule run_reserve_replay [OF u inv q w r key])
  then show ?thesis by (auto simp: result_of_def store_after_def)
qed

theorem reserve_retry_returns_prior_witness:
  "store_after (Service_Reserve ustr_ex uparse_ex 7 30 ''r1'') env_ex db_ex = db_ex"
proof -
  have w: "hydrate 1 7 100 30 2 5 5 \<in> set (token_wallet db_ex)" by (simp add: db_ex_def)
  have r: "row_ex 3 KindReserve (- 30) ''r1'' (Some (ustr_ex 4)) \<in> set (wrows db_ex (tw_id (hydrate 1 7 100 30 2 5 5)))"
    by (simp add: wrows_def ex_defs)
  have q: "quiet env_ex" by (simp add: quiet_def env_ex_def)
  show ?thesis
    using reserve_retry_returns_prior [OF uuid_text_ex store_inv_ex q w r]
    by (auto simp: is_reserve_def row_ex_def hydrate_def)
qed

text \<open>
  An authentic, unsettled reservation can be committed for any part of it: the wallet pays the
  actual amount, the whole reservation is freed, and the depletion event is published exactly
  when the balance reaches zero.
\<close>

theorem commit_settles:
  assumes u: "uuid_text ustr uparse" and inv: "store_inv ustr db" and q: "quiet os"
    and env: "\<And>n. env_ok ustr db (os n)" and w: "w \<in> set (token_wallet db)"
    and rv: "r \<in> set (open_rows (wrows db (tw_id w)))" "reserve_row ustr rv r"
      "rv_WalletID rv = tw_id w" "rv_TenantID rv = tw_tenantID w"
    and amt: "0 < c" "c \<le> rv_Amount rv"
    and key: "key \<noteq> []" "length key \<le> 128" "\<not> idem_taken db (tw_id w) key"
  shows "\<exists>evs w'. result_of (Service_Commit ustr scope (Some rv) c key) os db = Inr evs \<and>
    find_wallet (store_after (Service_Commit ustr scope (Some rv) c key) os db) (tw_tenantID w) = Some w' \<and>
    tw_balance w' = tw_balance w - c \<and> tw_reserved w' = tw_reserved w - rv_Amount rv \<and>
    (evs \<noteq> [] \<longleftrightarrow> tw_balance w' = 0)"
proof -
  let ?now = "o_now (os (0 + 3))"
  let ?w1 = "w\<lparr>tw_balance := tw_balance w - c, tw_reserved := tw_reserved w - rv_Amount rv,
     tw_version := wrap64 (tw_version w + 1), tw_updatedAt := ?now\<rparr>"
  let ?mutate = "\<lambda>w now. wallet_Commit w c (rv_Amount rv) now" and ?publish = "\<lambda>w now. maybePublishDepleted scope w c now"
  note ok = loaded [OF inv w]
  have "rv_Amount rv \<le> tw_reserved w"
    using open_row_le_total [OF ok(3) rv(1)] ok(1) rv(2) by (simp add: books_def reserve_row_def)
  then have m: "?mutate w ?now = Inr ?w1" using amt by (simp add: wallet_Commit_ok [OF ok(2)])
  obtain s w' where "run (settle_attempt ustr KindCommit rv c key ?mutate ?publish) os 0 db =
       (Done (Inr (?publish ?w1 ?now)), 0 + 5, post db s w')"
    and w': "find_wallet (post db s w') (tw_tenantID w) = Some w'" "tw_balance w' = tw_balance ?w1" "tw_reserved w' = tw_reserved ?w1"
    by (rule run_settle_open [where n = 0 and mutate = ?mutate and publish = ?publish, OF u inv q env w rv m settle_effects(1) [OF ok(2) m] _ key(3)]) simp_all
  then have "run (Service_Commit ustr scope (Some rv) c key) os 0 db = (Inr (?publish ?w1 ?now), 5, post db s w')"
    using amt key by (simp add: Service_Commit_def valid_key run_retry_Done del: retry_loop.simps)
  then show ?thesis using w' by (auto simp: result_of_def store_after_def maybePublishDepleted_def)
qed

theorem commit_settles_witness:
  "\<exists>evs. result_of (Service_Commit ustr_ex ''tenant:default'' (Some rv_ex) 20 ''c1'') env_ex db_ex = Inr evs"
proof -
  let ?r = "row_ex 3 KindReserve (- 30) ''r1'' (Some (ustr_ex 4))"
  have w: "hydrate 1 7 100 30 2 5 5 \<in> set (token_wallet db_ex)" by (simp add: db_ex_def)
  have r: "?r \<in> set (open_rows (wrows db_ex (tw_id (hydrate 1 7 100 30 2 5 5))))"
    by (simp add: open_rows_def wrows_def ex_defs is_reserve_def is_settled_def settled_by_def is_settlement_def)
  have a: "reserve_row ustr_ex rv_ex ?r" by (simp add: reserve_row_def rv_ex_def row_ex_def is_reserve_def)
  have q: "quiet env_ex" by (simp add: quiet_def env_ex_def)
  have "\<not> idem_taken db_ex 1 ''c1''" by (simp add: idem_taken_def ex_defs)
  then show ?thesis
    using commit_settles [OF uuid_text_ex store_inv_ex q env_ok_ex w r a, of 20 "''c1''" "''tenant:default''"]
    by (auto simp: hydrate_def rv_ex_def)
qed

lemma settle_refused:
  assumes inv: "store_inv ustr db" and q: "quiet os" and w: "w \<in> set (token_wallet db)"
    and u: "uuid_text ustr uparse"
    and s: "s \<in> set (wrows db (tw_id w))" "is_settlement s" "tl_external_ref s = Some (ustr (rv_ID rv))"
    and rv: "rv_WalletID rv = tw_id w" "rv_TenantID rv = tw_tenantID w"
    and key: "\<not> idem_taken db (tw_id w) key"
  shows "run (settle_attempt ustr kind rv amount key mutate publish) os n db =
    (Done (werr wallet_ErrReservationCompleted), n + 3, db)"
proof -
  let ?P = "\<lambda>x. tl_tenant_id x = tw_tenantID w \<and> tl_wallet_id x = tw_id w \<and>
     tl_external_ref x = Some (ustr (rv_ID rv)) \<and> is_settlement x"
  have sP: "s \<in> set (token_ledger db)" "?P s"
    using s db_inv_tenant [of db w] inv w by (auto simp: wrows_def tenant_books_def)
  then obtain x where x: "find ?P (token_ledger db) = Some x"
    using find_NoneD [of ?P "token_ledger db" s] by (metis (mono_tags, lifting) not_None_eq)
  have "ustr (rv_ID rv) \<noteq> []" using u by (simp add: uuid_text_def)
  then have "LookupCompletedByExternalRef db (tw_tenantID w) (tw_id w) (ustr (rv_ID rv)) = Inr (decodeLedger x)"
    using x loaded(4,5) [OF inv w] by (simp add: LookupCompletedByExternalRef_def)
  moreover have "quiet (\<lambda>i. os (n + i))" using q by (simp add: quiet_def)
  ultimately have "run (settle_attempt ustr kind rv amount key mutate publish) (\<lambda>i. os (n + i)) 0 db =
      (Done (werr wallet_ErrReservationCompleted), 3, db)"
    using rv by (simp add: settle_attempt_def run_query_quiet load_quiet [OF inv w] lookup_key_fresh [OF key]
        eval_nat_numeral del: run_query)
  then show ?thesis by (subst run_shift) simp
qed

text \<open>
  A settled reservation stays settled: a later commit or release of it under another key is
  refused with \<^verbatim>\<open>ErrReservationCompleted\<close> and writes nothing.
\<close>

theorem settled_reservation_refused:
  assumes u: "uuid_text ustr uparse" and inv: "store_inv ustr db" and q: "quiet os"
    and w: "w \<in> set (token_wallet db)"
    and s: "s \<in> set (wrows db (tw_id w))" "is_settlement s" "tl_external_ref s = Some (ustr (rv_ID rv))"
    and rv: "rv_WalletID rv = tw_id w" "rv_TenantID rv = tw_tenantID w"
    and key: "key \<noteq> []" "length key \<le> 128" "\<not> idem_taken db (tw_id w) key"
    and amt: "0 < c" "c \<le> rv_Amount rv"
  shows "result_of (Service_Commit ustr scope (Some rv) c key) os db = werr wallet_ErrReservationCompleted \<and>
    store_after (Service_Commit ustr scope (Some rv) c key) os db = db \<and>
    result_of (Service_Release ustr (Some rv) key) os db = werr wallet_ErrReservationCompleted \<and>
    store_after (Service_Release ustr (Some rv) key) os db = db"
  using settle_refused [OF inv q w u s rv key(3)] key(1,2) amt
  by (simp add: result_of_def store_after_def Service_Commit_def Service_Release_def valid_key run_retry_Done
      del: retry_loop.simps)

text \<open>The store after the example reservation was released.\<close>

definition db_settled :: crm_db where
  "db_settled = db_with (hydrate 1 7 100 0 3 5 6)
     [row_ex 2 KindGrant 100 ''g1'' None, row_ex 3 KindReserve (- 30) ''r1'' (Some (ustr_ex 4)),
      row_ex 8 KindRelease 30 ''x1'' (Some (ustr_ex 4))]"

lemma store_inv_settled: "store_inv ustr_ex db_settled"
  unfolding db_settled_def by (rule store_inv_with) (auto simp: books_eval)

theorem settled_reservation_refused_witness:
  "result_of (Service_Commit ustr_ex ''tenant:default'' (Some rv_ex) 20 ''c1'') env_ex db_settled
     = werr wallet_ErrReservationCompleted"
proof -
  let ?s = "row_ex 8 KindRelease 30 ''x1'' (Some (ustr_ex 4))" and ?w = "hydrate 1 7 100 0 3 5 6"
  have w: "?w \<in> set (token_wallet db_settled)" by (simp add: db_settled_def db_with_def)
  have s: "?s \<in> set (wrows db_settled (tw_id ?w))" by (simp add: db_settled_def db_with_def ex_defs wrows_def)
  have k: "is_settlement ?s" "tl_external_ref ?s = Some (ustr_ex (rv_ID rv_ex))"
    by (simp_all add: is_settlement_def row_ex_def rv_ex_def)
  have q: "quiet env_ex" by (simp add: quiet_def env_ex_def)
  have "\<not> idem_taken db_settled 1 ''c1''" by (simp add: idem_taken_def db_settled_def db_with_def ex_defs)
  then show ?thesis
    using settled_reservation_refused [OF uuid_text_ex store_inv_settled q w s k, of "''c1''" 20]
    by (simp add: hydrate_def rv_ex_def)
qed

lemma FindOrphanReservations_map:
  "FindOrphanReservations uparse es now maxAge =
     map (\<lambda>e. \<lparr>or_WalletID = le_WalletID e, or_TenantID = le_TenantID e,
          or_ReservationID = the (uparse (le_ExternalRef e)), or_Amount = wrap64 (- le_Amount e),
          or_IdempotencyKey = le_IdempotencyKey e, or_ReservedAt = le_OccurredAt e\<rparr>)
       (filter (\<lambda>e. le_Kind e = KindReserve \<and> maxAge \<le> time_sub now (le_OccurredAt e) \<and>
          uparse (le_ExternalRef e) \<noteq> None) es)"
  by (induction es) (auto split: option.splits)

text \<open>
  The reconciler finds exactly the reservations worth releasing: on the list of a wallet's open
  reservations it reports, once each and oldest first, those at least \<open>maxAge\<close> old, with the
  amount that is still reserved.
\<close>

theorem orphans_are_the_old_open_reservations:
  assumes u: "uuid_text ustr uparse" and inv: "store_inv ustr db" and w: "w \<in> set (token_wallet db)"
    and l: "ListOpenReservations db (tw_tenantID w) (tw_id w) = Inr es"
  shows "map or_IdempotencyKey (FindOrphanReservations uparse es now maxAge) =
      map tl_idempotency_key (filter (\<lambda>r. maxAge \<le> time_sub now (tl_occurred_at r))
        (sort_key tl_occurred_at (open_rows (wrows db (tw_id w))))) \<and>
    (\<Sum>x\<leftarrow>FindOrphanReservations uparse es now min_i64. or_Amount x) = tw_reserved w"
proof -
  let ?L = "wrows db (tw_id w)" and ?vis = "filter (\<lambda>r. tl_tenant_id r = tw_tenantID w) (token_ledger db)"
  note ok = loaded [OF inv w]
  have ten: "tl_tenant_id x = tw_tenantID w" if "x \<in> set (token_ledger db)" "tl_wallet_id x = tw_id w" for x
    using db_inv_tenant [of db w] inv w that by (auto simp: tenant_books_def wrows_def)
  have set: "(\<exists>s \<in> set ?vis. settled_by x s) \<longleftrightarrow> is_settled ?L x" if "tl_wallet_id x = tw_id w" for x
    using that ten by (fastforce simp: is_settled_def settled_by_def wrows_def)
  have "(tl_tenant_id x = tw_tenantID w \<and> tl_wallet_id x = tw_id w \<and> tl_kind x = KindReserve \<and>
      \<not> (\<exists>s \<in> set ?vis. settled_by x s)) \<longleftrightarrow>
      (tl_wallet_id x = tw_id w \<and> is_reserve x \<and> \<not> is_settled ?L x)" if "x \<in> set (token_ledger db)" for x
    using set [of x] ten [OF that] unfolding is_reserve_def by blast
  then have "filter (\<lambda>r. tl_wallet_id r = tw_id w \<and> tl_kind r = KindReserve \<and> \<not> (\<exists>s \<in> set ?vis. settled_by r s)) ?vis
      = open_rows ?L"
    unfolding open_rows_def wrows_def [of db "tw_id w"] filter_filter by (intro filter_cong refl) (simp add: wrows_def)
  then have es: "es = map decodeLedger (sort_key tl_occurred_at (open_rows ?L))"
    using l ok(4,5) unfolding ListOpenReservations_def Let_def by (simp only: if_False sum.inject simp_thms)
  have rows: "tl_kind x = KindReserve \<and> (\<exists>v. tl_external_ref x = Some (ustr v)) \<and> wrap64 (- tl_amount x) = - tl_amount x"
    if "x \<in> set (open_rows ?L)" for x
    using that inv ok(3) by (auto simp: open_rows_def is_reserve_def store_inv_def refs_ok_def wrows_def
        ledger_ok_def wrap64_nonneg)
  have keep: "(le_Kind (decodeLedger x) = KindReserve \<and> m \<le> time_sub now (le_OccurredAt (decodeLedger x)) \<and>
      uparse (le_ExternalRef (decodeLedger x)) \<noteq> None) \<longleftrightarrow> m \<le> time_sub now (tl_occurred_at x)"
    if "x \<in> set (sort_key tl_occurred_at (open_rows ?L))" for x m
    using rows [of x] u that by (auto simp: decodeLedger_def uuid_text_def)
  have flt: "filter (\<lambda>e. le_Kind e = KindReserve \<and> m \<le> time_sub now (le_OccurredAt e) \<and>
      uparse (le_ExternalRef e) \<noteq> None) es
      = map decodeLedger (filter (\<lambda>r. m \<le> time_sub now (tl_occurred_at r)) (sort_key tl_occurred_at (open_rows ?L)))" for m
    unfolding es filter_map comp_def using keep by (intro arg_cong [where f = "map decodeLedger"] filter_cong refl)
  have "min_i64 \<le> time_sub now x" for x by (simp add: time_sub_def)
  then have "(\<Sum>x\<leftarrow>FindOrphanReservations uparse es now min_i64. or_Amount x) =
      (\<Sum>r\<leftarrow>sort_key tl_occurred_at (open_rows ?L). wrap64 (- tl_amount r))"
    unfolding FindOrphanReservations_map flt by (simp add: comp_def decodeLedger_def)
  also have "\<dots> = (\<Sum>r\<leftarrow>sort_key tl_occurred_at (open_rows ?L). - tl_amount r)"
    using rows by (intro arg_cong [where f = sum_list] map_cong) auto
  also have "\<dots> = open_total ?L"
    unfolding open_total_def by (rule sum_list_map_sort_key)
  finally have "(\<Sum>x\<leftarrow>FindOrphanReservations uparse es now min_i64. or_Amount x) = tw_reserved w"
    using ok(1) by (simp add: books_def)
  then show ?thesis
    unfolding FindOrphanReservations_map flt by (simp add: comp_def decodeLedger_def)
qed

theorem orphans_are_the_old_open_reservations_witness:
  "\<exists>es. ListOpenReservations db_ex 7 1 = Inr es \<and>
     (\<Sum>x\<leftarrow>FindOrphanReservations uparse_ex es 400 min_i64. or_Amount x) = 30"
proof -
  let ?w = "hydrate 1 7 100 30 2 5 5"
  have w: "?w \<in> set (token_wallet db_ex)" by (simp add: db_ex_def)
  obtain es where es: "ListOpenReservations db_ex (tw_tenantID ?w) (tw_id ?w) = Inr es"
    by (simp add: ListOpenReservations_def Let_def hydrate_def)
  show ?thesis
    using orphans_are_the_old_open_reservations [OF uuid_text_ex store_inv_ex w es, of 400] es
    by (auto simp: hydrate_def)
qed

end
