(* ===== verification/GrantProps.thy ===== *)
theory GrantProps
  imports WalletRuns
begin

text \<open>
  The idempotent credits: the monthly allocation, the courtesy grant and the master-grant applier,
  and two schedules in which the applier's free-period branch goes wrong.
\<close>

section \<open>The monthly allocation\<close>

lemma run_alloc:
  assumes "quiet os" "msgID \<noteq> []" "decode body = Some ev" "GetPlanByID db (re_PlanID ev) = Inr pl"
  shows "run (Allocator_Handle decode msgID body) os 0 db =
    (case AllocateMonthlyQuota (o_ids (os 1) 0) (o_now (os 1)) db (re_TenantID ev) (re_NewPeriodStart ev)
         (pl_MonthlyTokenQuota pl) msgID of
       Inl e \<Rightarrow> ((OutcomeFailedAllocate, Nak), 2, db)
     | Inr (a, db') \<Rightarrow> ((if a then OutcomeAllocated else OutcomeSkippedDuplicate, Ack), 2, db'))"
  using assms by (auto simp: Allocator_Handle_def quiet_def numeral_2_eq_2 split: sum.splits)

lemma alloc_outcome_inv:
  assumes q: "quiet os" and r: "result_of (Allocator_Handle decode msgID body) os db = (OutcomeAllocated, Ack)"
  obtains ev pl where "msgID \<noteq> []" "decode body = Some ev" "GetPlanByID db (re_PlanID ev) = Inr pl"
    "AllocateMonthlyQuota (o_ids (os 1) 0) (o_now (os 1)) db (re_TenantID ev) (re_NewPeriodStart ev)
       (pl_MonthlyTokenQuota pl) msgID = Inr (True, store_after (Allocator_Handle decode msgID body) os db)"
proof -
  have m: "msgID \<noteq> []" using r by (auto simp: result_of_def Allocator_Handle_def)
  obtain ev where ev: "decode body = Some ev"
    using r m by (cases "decode body") (auto simp: result_of_def Allocator_Handle_def)
  obtain pl where pl: "GetPlanByID db (re_PlanID ev) = Inr pl"
    using r m ev q by (cases "GetPlanByID db (re_PlanID ev)")
      (auto simp: result_of_def Allocator_Handle_def quiet_def)
  show thesis
    using that [OF m ev pl] r run_alloc [of os msgID decode body ev db pl] q m ev pl
    by (auto simp: result_of_def store_after_def split: sum.splits if_splits)
qed

text \<open>
  A renewal event credits its quota exactly once: a delivery that is counted as allocated has
  added the plan's quota to the tenant's balance, and when the broker delivers it again, the
  allocator finds the key, acknowledges the delivery and changes nothing.
\<close>

theorem redelivery_credits_once:
  assumes inv: "store_inv ustr db" and q: "quiet os" "quiet os'"
    and first: "result_of (Allocator_Handle decode msgID body) os db = (OutcomeAllocated, Ack)"
  shows "\<exists>ev pl w w'. decode body = Some ev \<and> GetPlanByID db (re_PlanID ev) = Inr pl \<and>
    find_wallet db (re_TenantID ev) = Some w \<and>
    find_wallet (store_after (Allocator_Handle decode msgID body) os db) (re_TenantID ev) = Some w' \<and>
    tw_balance w' = tw_balance w + pl_MonthlyTokenQuota pl \<and>
    result_of (Allocator_Handle decode msgID body) os' (store_after (Allocator_Handle decode msgID body) os db)
      = (OutcomeSkippedDuplicate, Ack) \<and>
    store_after (Allocator_Handle decode msgID body) os' (store_after (Allocator_Handle decode msgID body) os db)
      = store_after (Allocator_Handle decode msgID body) os db"
proof -
  let ?P = "Allocator_Handle decode msgID body" and ?db = "store_after (Allocator_Handle decode msgID body) os db"
  obtain ev pl where a: "msgID \<noteq> []" "decode body = Some ev" "GetPlanByID db (re_PlanID ev) = Inr pl"
    "AllocateMonthlyQuota (o_ids (os 1) 0) (o_now (os 1)) db (re_TenantID ev) (re_NewPeriodStart ev)
       (pl_MonthlyTokenQuota pl) msgID = Inr (True, ?db)"
    using alloc_outcome_inv [OF q(1) first] by metis
  have dbi: "db_inv db" using inv by simp
  obtain w r where w: "w \<in> set (token_wallet db)" "tw_tenantID w = re_TenantID ev"
    and r: "tl_idempotency_key r = msgID" "tl_wallet_id r = tw_id w"
    and d: "?db = post db r (w\<lparr>tw_balance := tw_balance w + pl_MonthlyTokenQuota pl,
       tw_version := tw_version w + 1, tw_updatedAt := o_now (os 1)\<rparr>)"
    using AllocateMonthlyQuota_inv [OF dbi a(4)] by (simp only: not_True_eq_False if_False) blast
  have dbi': "db_inv ?db" using AllocateMonthlyQuota_inv [OF dbi a(4)] by simp
  let ?w' = "w\<lparr>tw_balance := tw_balance w + pl_MonthlyTokenQuota pl, tw_version := tw_version w + 1,
     tw_updatedAt := o_now (os 1)\<rparr>"
  have fw': "find_wallet ?db (re_TenantID ev) = Some ?w'"
    using find_wallet_post [OF inv w(1), of ?w' r] dbi' w(2) unfolding d by simp
  have "idem_taken ?db (tw_id ?w') msgID" using r by (auto simp: d idem_taken_def)
  moreover have "re_TenantID ev \<noteq> uuid_nil" "0 < pl_MonthlyTokenQuota pl"
    using a(4) by (auto simp: AllocateMonthlyQuota_def split: if_splits)
  ultimately have again: "AllocateMonthlyQuota i now ?db (re_TenantID ev) ps (pl_MonthlyTokenQuota pl) msgID
      = Inr (False, ?db)" for i now ps
    using fw' a(1) by (simp add: AllocateMonthlyQuota_def)
  have "GetPlanByID ?db (re_PlanID ev) = Inr pl" using a(3) by (auto simp: d GetPlanByID_def post_def split: if_splits)
  then have run2: "run ?P os' 0 ?db = ((OutcomeSkippedDuplicate, Ack), 2, ?db)"
    using run_alloc [of os' msgID decode body ev ?db pl] q(2) a(1,2) again by simp
  have "find_wallet db (re_TenantID ev) = Some w" using w find_wallet_iff [OF dbi] by simp
  with a(2,3) fw' run2 show ?thesis by (auto simp: result_of_def store_after_def)
qed

definition decode_ex :: "string \<Rightarrow> renewed_event option" where
  "decode_ex s = (if s = ''ok'' then Some \<lparr>re_TenantID = 7, re_PlanID = 31, re_NewPeriodStart = 0\<rparr> else None)"

theorem redelivery_credits_once_witness:
  "result_of (Allocator_Handle decode_ex ''m1'' ''ok'') env_ex
     (store_after (Allocator_Handle decode_ex ''m1'' ''ok'') env_ex db_ex) = (OutcomeSkippedDuplicate, Ack)"
proof -
  have q: "quiet env_ex" by (simp add: quiet_def env_ex_def)
  have "result_of (Allocator_Handle decode_ex ''m1'' ''ok'') env_ex db_ex = (OutcomeAllocated, Ack)"
    by (simp add: result_of_def Allocator_Handle_def decode_ex_def env_ex_def GetPlanByID_def AllocateMonthlyQuota_def
        find_wallet_def idem_taken_def insert_ledger_def known_kind_def source_paired_def grant_fk_def ex_defs i64)
  then show ?thesis using redelivery_credits_once [OF store_inv_ex q q] by blast
qed

section \<open>The courtesy grant\<close>

text \<open>
  A tenant gets its courtesy credit once: after a successful \<^verbatim>\<open>Issue\<close> the tenant has a wallet with
  exactly the configured amount, and every further \<^verbatim>\<open>Issue\<close> reports the same wallet and grant
  without granting and changes nothing.
\<close>

theorem courtesy_issued_once:
  assumes inv: "store_inv ustr db" and q: "quiet os" "quiet os'"
    and first: "result_of (IssueCourtesyGrant_Issue ustr cfg t) os db = Inr iss" "is_Granted iss"
  shows "(\<exists>w. find_wallet (store_after (IssueCourtesyGrant_Issue ustr cfg t) os db) t = Some w \<and>
      tw_id w = is_WalletID iss \<and> tw_balance w = cgc_Amount cfg \<and> tw_reserved w = 0) \<and>
    result_of (IssueCourtesyGrant_Issue ustr cfg t) os' (store_after (IssueCourtesyGrant_Issue ustr cfg t) os db)
      = Inr (iss\<lparr>is_Granted := False\<rparr>) \<and>
    store_after (IssueCourtesyGrant_Issue ustr cfg t) os' (store_after (IssueCourtesyGrant_Issue ustr cfg t) os db)
      = store_after (IssueCourtesyGrant_Issue ustr cfg t) os db"
proof -
  let ?P = "IssueCourtesyGrant_Issue ustr cfg t" and ?db = "store_after (IssueCourtesyGrant_Issue ustr cfg t) os db"
  let ?issue = "\<lambda>os db. CourtesyStore_Issue ustr (o_ids (os 0) 0) (o_ids (os 0) 1) (o_ids (os 0) 2)
     (o_now (os 0)) db t (cgc_ActorID cfg) (cgc_Amount cfg)"
  have run: "run ?P x 0 d = (case ?issue x d of Inl e \<Rightarrow> (Inl e, 1, d) | Inr (i, d') \<Rightarrow> (Inr i, 1, d'))"
    if "quiet x" "t \<noteq> uuid_nil" "\<not> cgc_Disabled cfg" for x d
    using that by (auto simp: IssueCourtesyGrant_Issue_def quiet_def split: sum.splits)
  have en: "t \<noteq> uuid_nil" "\<not> cgc_Disabled cfg"
    using first(1) by (auto simp: IssueCourtesyGrant_Issue_def result_of_def split: if_splits)
  obtain D where iss: "?issue os db = Inr (iss, D)" and D: "?db = D"
    using first(1) run [OF q(1) en, of db] by (auto simp: result_of_def store_after_def split: sum.splits)
  have none: "find (\<lambda>g. cg_tenant_id g = t) (courtesy_grant db) = None"
    using iss first(2) by (auto simp: CourtesyStore_Issue_def split: if_splits option.splits)
  let ?wid = "o_ids (os 0) 1" and ?w = "hydrate (o_ids (os 0) 1) t (cgc_Amount cfg) 0 1 (o_now (os 0)) (o_now (os 0))"
  have new: "\<forall>x \<in> set (token_wallet db). tw_id x \<noteq> ?wid \<and> tw_tenantID x \<noteq> t" "cgc_Amount cfg > 0" "cgc_ActorID cfg \<noteq> uuid_nil"
    using iss none by (auto simp: CourtesyStore_Issue_def Let_def split: if_splits)
  have old: "map (\<lambda>x. if tw_id x = ?wid \<and> tw_version x = 0 then f x else x) (token_wallet db) = token_wallet db" for f
    using new(1) by (auto intro!: map_idI)
  have tabs: "token_wallet D = token_wallet db @ [?w]" "iss = \<lparr>is_Granted = True, is_WalletID = ?wid, is_GrantID = o_ids (os 0) 0\<rparr>"
    "courtesy_grant D = courtesy_grant db @ [\<lparr>cg_id = o_ids (os 0) 0, cg_tenant_id = t, cg_amount = cgc_Amount cfg,
       cg_granted_by_user_id = cgc_ActorID cfg\<rparr>]"
    using iss none new old
    by (auto simp: CourtesyStore_Issue_def Let_def insert_ledger_Inr update_wallet_row_def hydrate_def
        split: if_splits sum.splits)
  have "find (\<lambda>r. tw_tenantID r = t) (token_wallet db) = None" using new(1) by (simp add: find_None_iff)
  then have fw: "find_wallet D t = Some ?w"
    by (simp add: find_wallet_def tabs(1) find_append hydrate_def)
  have "find (\<lambda>g. cg_tenant_id g = t) (courtesy_grant D) = Some \<lparr>cg_id = o_ids (os 0) 0, cg_tenant_id = t,
      cg_amount = cgc_Amount cfg, cg_granted_by_user_id = cgc_ActorID cfg\<rparr>"
    using none by (simp add: tabs(3) find_append)
  then have "?issue os' D = Inr (iss\<lparr>is_Granted := False\<rparr>, D)"
    using en new fw tabs(2) by (simp add: CourtesyStore_Issue_def hydrate_def)
  then have "run ?P os' 0 D = (Inr (iss\<lparr>is_Granted := False\<rparr>), 1, D)" using run [OF q(2) en] by simp
  then show ?thesis unfolding D using fw tabs(2) by (auto simp: result_of_def store_after_def hydrate_def)
qed

theorem courtesy_issued_once_witness:
  "let cfg = \<lparr>cgc_Amount = 10000, cgc_Disabled = False, cgc_ActorID = 9\<rparr>; P = IssueCourtesyGrant_Issue ustr_ex cfg 8 in
     \<exists>iss. result_of P env_ex (store_after P env_ex db_ex) = Inr iss \<and> \<not> is_Granted iss"
proof -
  let ?cfg = "\<lparr>cgc_Amount = 10000, cgc_Disabled = False, cgc_ActorID = 9\<rparr>"
  have q: "quiet env_ex" by (simp add: quiet_def env_ex_def)
  have r: "result_of (IssueCourtesyGrant_Issue ustr_ex ?cfg 8) env_ex db_ex
      = Inr \<lparr>is_Granted = True, is_WalletID = 101, is_GrantID = 100\<rparr>"
    by (simp add: result_of_def IssueCourtesyGrant_Issue_def env_ex_def CourtesyStore_Issue_def Let_def
        insert_ledger_def known_kind_def source_paired_def grant_fk_def idem_taken_def ex_defs)
  show ?thesis unfolding Let_def
    using courtesy_issued_once [OF store_inv_ex q q r] by auto
qed

section \<open>The applier\<close>

lemma run_Consume:
  assumes q: "quiet os" and inv: "db_inv db" and g: "g \<in> set (master_grant db)" "mg_id g = gid" "pending_grant gid g"
  shows "run (finish_apply gid now (Inr ref)) os n db =
    (Inr True, Suc (Suc n), update_grant_row db gid (\<lambda>g. g\<lparr>mg_consumedAt := Some now, mg_consumedRef := ref\<rparr>))"
proof -
  have "find_grant db gid = Some g"
    using g inv by (simp add: find_grant_def find_Some_iff_distinct db_inv_def)
  moreover have "filter (pending_grant gid) (master_grant db) \<noteq> []" using g by (auto simp: filter_empty_conv)
  ultimately show ?thesis using q g(3)
    by (simp add: finish_apply_def MasterGrantStore_Consume_def MasterGrantStore_GetByID_def consume_update_def
        grant_Consume_def pending_grant_def quiet_def)
qed

text \<open>
  A pending token grant is applied in one call: the tenant's balance grows by the granted
  amount, the grant is consumed, and applying it again reports that nothing happened and changes
  nothing.
\<close>

theorem extra_tokens_applied_once:
  assumes inv: "store_inv ustr db" and q: "quiet os" "quiet os'" and env: "\<And>n. env_ok ustr db (os n)"
    and w: "w \<in> set (token_wallet db)"
    and g: "g \<in> set (master_grant db)" "pending_grant (mg_id g) g" "mg_id g \<noteq> uuid_nil" "mg_kind g = KindExtraTokens"
      "mg_tenantID g = tw_tenantID w"
    and amt: "0 < readInt64Payload (mg_payload g) ''amount''"
      "tw_balance w + readInt64Payload (mg_payload g) ''amount'' \<le> max_i64"
    and key: "\<not> idem_taken db (tw_id w) (idempotencyKeyForGrant g)"
  shows "\<exists>w'. result_of (ApplyMasterGrant_Apply ustr actor (mg_id g)) os db = Inr True \<and>
    find_wallet (store_after (ApplyMasterGrant_Apply ustr actor (mg_id g)) os db) (tw_tenantID w) = Some w' \<and>
    tw_balance w' = tw_balance w + readInt64Payload (mg_payload g) ''amount'' \<and>
    result_of (ApplyMasterGrant_Apply ustr actor (mg_id g)) os'
      (store_after (ApplyMasterGrant_Apply ustr actor (mg_id g)) os db) = Inr False \<and>
    store_after (ApplyMasterGrant_Apply ustr actor (mg_id g)) os'
      (store_after (ApplyMasterGrant_Apply ustr actor (mg_id g)) os db)
      = store_after (ApplyMasterGrant_Apply ustr actor (mg_id g)) os db"
proof -
  let ?P = "ApplyMasterGrant_Apply ustr actor (mg_id g)" and ?a = "readInt64Payload (mg_payload g) ''amount''"
  let ?now = "o_now (os 1)" and ?ev = "os 3" and ?gid = "mg_id g"
  let ?w1 = "w\<lparr>tw_balance := tw_balance w + ?a, tw_version := wrap64 (tw_version w + 1), tw_updatedAt := ?now\<rparr>"
  let ?w' = "?w1\<lparr>tw_updatedAt := o_now ?ev\<rparr>"
  let ?e = "(ledger_entry (o_ids ?ev 0) ?w1 KindGrant ?a (idempotencyKeyForGrant g) (mg_externalID g) ?now)
     \<lparr>le_Source := SourceMasterGrant, le_MasterGrantID := Some ?gid\<rparr>"
  let ?db1 = "post db (ledger_row ?e) ?w'"
  note ok = loaded [OF inv w]
  have dbi: "db_inv db" using inv by simp
  have fg: "find_grant db ?gid = Some g"
    using g dbi by (simp add: find_grant_def find_Some_iff_distinct db_inv_def)
  have m: "wallet_Grant w ?a ?now = Inr ?w1" using amt by (simp add: wallet_Grant_ok [OF ok(2)])
  have "tw_version w = wrap64 (wrap64 (tw_version w + 1) + - 1)"
    by (simp only: wrap64_wrap64_add) (simp add: ok(6))
  then have v: "tw_version w = wrap64 (tw_version ?w1 - 1)" by simp
  have "\<exists>d. ApplyWithLock (o_now ?ev) db ?w1 [?e] = Inr d"
    using ok(2,5) amt key g(1) env [of 3]
    by (intro ApplyWithLock_commits [OF dbi w _ _ _ v])
      (auto simp: ledger_entry_def known_kind_def env_ok_def source_paired_def grant_fk_def ledger_row_def wallet_ok_def)
  then obtain d where d: "ApplyWithLock (o_now ?ev) db ?w1 [?e] = Inr d" by blast
  from ApplyWithLock_effect [OF dbi d] obtain row where row: "row \<in> set (token_wallet db)" "tw_id row = tw_id w"
    "d = post db (ledger_row ?e) (row\<lparr>tw_balance := tw_balance ?w1, tw_reserved := tw_reserved ?w1,
       tw_version := tw_version ?w1, tw_updatedAt := o_now ?ev\<rparr>)" by auto
  have "row = w" using same_wallet [OF dbi row(1) w row(2)] .
  with row(3) d have ap: "ApplyWithLock (o_now ?ev) db ?w1 [?e] = Inr ?db1" by simp
  have pos: "posting w (wrows db (tw_id w)) (ledger_row ?e) ?w'"
    using wallet_grant_posting [OF inv w m, of ?e w "o_now ?ev"] key
    by (simp add: ledger_entry_def not_idem_taken_wrows)
  then have dbi1: "db_inv ?db1"
    using post_inv(1) [OF dbi w, of ?w' "ledger_row ?e"] by (simp add: posting_def ledger_row_def ledger_entry_def)
  let ?db2 = "update_grant_row ?db1 ?gid (\<lambda>g. g\<lparr>mg_consumedAt := Some ?now, mg_consumedRef := ustr (o_ids ?ev 0)\<rparr>)"
  have notc: "\<not> IsConsumed g" "\<not> IsRevoked g" using g(2) by (simp_all add: pending_grant_def IsConsumed_def IsRevoked_def)
  have "run ?P os 0 db = (Inr True, 6, ?db2)"
    using fg notc g(3,4,5) amt(1) m ap run_Consume [OF q(1) dbi1, of g ?gid ?now "ustr (o_ids ?ev 0)" 4] g(1,2) load_quiet [OF inv w]
    by (simp add: ApplyMasterGrant_Apply_def run_query_quiet [OF q(1)] MasterGrantStore_GetByID_def applyExtraTokens_def
        Let_def eval_nat_numeral q(1) [unfolded quiet_def] del: run_query)
  moreover have fw: "find_wallet ?db2 (tw_tenantID w) = Some ?w'"
    using find_wallet_post [OF inv w _ _ dbi1] by (simp add: update_grant_row_def find_wallet_def)
  moreover have "run ?P os' 0 ?db2 = (Inr False, 1, ?db2)"
  proof -
    let ?g' = "g\<lparr>mg_consumedAt := Some ?now, mg_consumedRef := ustr (o_ids ?ev 0)\<rparr>"
    have "consume_update ?gid (ustr (o_ids ?ev 0)) ?now ?db1 = Inr ((), ?db2)"
      using g(1,2) by (auto simp: consume_update_def filter_empty_conv)
    then have "db_inv ?db2" using grant_updates_inv(1) [OF dbi1] by blast
    moreover have "?g' \<in> set (master_grant ?db2)"
      using g(1,2) by (auto simp: update_grant_row_def image_iff intro!: bexI [of _ g])
    ultimately have "find_grant ?db2 ?gid = Some ?g'"
      by (simp add: find_grant_def find_Some_iff_distinct db_inv_def)
    then show ?thesis using q(2) g(3)
      by (simp add: ApplyMasterGrant_Apply_def MasterGrantStore_GetByID_def IsConsumed_def quiet_def)
  qed
  ultimately show ?thesis by (auto simp: result_of_def store_after_def)
qed

theorem extra_tokens_applied_once_witness:
  "result_of (ApplyMasterGrant_Apply ustr_ex 9 20) env_ex db_ex = Inr True"
proof -
  let ?w = "hydrate 1 7 100 30 2 5 5" and ?g = "grant_ex 20 KindExtraTokens [(''amount'', AnyInt 50)]"
  have w: "?w \<in> set (token_wallet db_ex)" and g: "?g \<in> set (master_grant db_ex)" by (simp_all add: db_ex_def)
  have q: "quiet env_ex" by (simp add: quiet_def env_ex_def)
  have "\<not> idem_taken db_ex 1 (idempotencyKeyForGrant ?g)"
    by (simp add: idem_taken_def ex_defs idempotencyKeyForGrant_def)
  then show ?thesis
    using extra_tokens_applied_once [OF store_inv_ex q q env_ok_ex w g]
    by (simp add: grant_ex_def hydrate_def pending_grant_def readInt64Payload_def i64)
qed

text \<open>
  Token grants are never credited twice: when the ledger already has the row of the grant's
  key, \<^verbatim>\<open>Apply\<close> fails with a wrapped \<^verbatim>\<open>ErrIdempotencyConflict\<close>, credits nothing and leaves the grant pending.
\<close>

theorem extra_tokens_never_twice:
  assumes inv: "store_inv ustr db" and q: "quiet os" and env: "\<And>n. env_ok ustr db (os n)"
    and w: "w \<in> set (token_wallet db)"
    and g: "g \<in> set (master_grant db)" "pending_grant (mg_id g) g" "mg_id g \<noteq> uuid_nil" "mg_kind g = KindExtraTokens"
      "mg_tenantID g = tw_tenantID w"
    and amt: "0 < readInt64Payload (mg_payload g) ''amount''"
      "tw_balance w + readInt64Payload (mg_payload g) ''amount'' \<le> max_i64"
    and key: "idem_taken db (tw_id w) (idempotencyKeyForGrant g)"
  shows "\<exists>e. result_of (ApplyMasterGrant_Apply ustr actor (mg_id g)) os db = Inl e \<and>
    errors_is e wallet_ErrIdempotencyConflict \<and>
    store_after (ApplyMasterGrant_Apply ustr actor (mg_id g)) os db = db"
proof -
  let ?P = "ApplyMasterGrant_Apply ustr actor (mg_id g)" and ?a = "readInt64Payload (mg_payload g) ''amount''"
  let ?now = "o_now (os 1)" and ?ev = "os 3" and ?gid = "mg_id g"
  let ?w1 = "w\<lparr>tw_balance := tw_balance w + ?a, tw_version := wrap64 (tw_version w + 1), tw_updatedAt := ?now\<rparr>"
  let ?e = "(ledger_entry (o_ids ?ev 0) ?w1 KindGrant ?a (idempotencyKeyForGrant g) (mg_externalID g) ?now)
     \<lparr>le_Source := SourceMasterGrant, le_MasterGrantID := Some ?gid\<rparr>"
  note ok = loaded [OF inv w]
  have dbi: "db_inv db" using inv by simp
  have fg: "find_grant db ?gid = Some g"
    using g dbi by (simp add: find_grant_def find_Some_iff_distinct db_inv_def)
  have m: "wallet_Grant w ?a ?now = Inr ?w1" using amt by (simp add: wallet_Grant_ok [OF ok(2)])
  have "tw_version w = wrap64 (wrap64 (tw_version w + 1) + - 1)"
    by (simp only: wrap64_wrap64_add) (simp add: ok(6))
  then have v: "tw_version w = wrap64 (tw_version ?w1 - 1)" by simp
  have "insert_ledger (Some (tw_tenantID w)) db (ledger_row ?e) = Inl UniqueViolation"
    using key by (simp add: insert_ledger_def ledger_row_def ledger_entry_def known_kind_def source_paired_def)
  moreover have "find (\<lambda>r. tw_tenantID r = tw_tenantID w \<and> tw_id r = tw_id w) (token_wallet db) = Some w"
  proof -
    obtain y where y: "find (\<lambda>r. tw_tenantID r = tw_tenantID w \<and> tw_id r = tw_id w) (token_wallet db) = Some y"
      using find_NoneD [of "\<lambda>r. tw_tenantID r = tw_tenantID w \<and> tw_id r = tw_id w" _ w] w by (metis not_None_eq)
    then show ?thesis using find_SomeD [OF y] same_wallet [OF dbi _ w] by simp
  qed
  ultimately have ap: "ApplyWithLock (o_now ?ev) db ?w1 [?e] = werr wallet_ErrIdempotencyConflict"
    using v ok(5) by (simp add: ApplyWithLock_def)
  have notc: "\<not> IsConsumed g" "\<not> IsRevoked g" using g(2) by (simp_all add: pending_grant_def IsConsumed_def IsRevoked_def)
  have "run ?P os 0 db = (Inl (Wrapped ''wallet/usecase: apply ledger entry'' (Sentinel wallet_ErrIdempotencyConflict)), 4, db)"
    using fg notc g(3,4,5) amt(1) m ap load_quiet [OF inv w]
    by (simp add: ApplyMasterGrant_Apply_def run_query_quiet [OF q] MasterGrantStore_GetByID_def applyExtraTokens_def
        Let_def eval_nat_numeral q [unfolded quiet_def] finish_apply_def del: run_query)
  then show ?thesis by (auto simp: result_of_def store_after_def)
qed
definition db_credited :: crm_db where
  "db_credited = db_with (hydrate 1 7 150 0 2 5 6)
     [row_ex 2 KindGrant 100 ''g1'' None, row_ex 3 KindGrant 50 ''master_grant:G'' None]"

theorem extra_tokens_never_twice_witness:
  "store_after (ApplyMasterGrant_Apply ustr_ex 9 20) env_ex db_credited = db_credited"
proof -
  let ?w = "hydrate 1 7 150 0 2 5 6" and ?g = "grant_ex 20 KindExtraTokens [(''amount'', AnyInt 50)]"
  have inv: "store_inv ustr_ex db_credited"
    unfolding db_credited_def by (rule store_inv_with) (auto simp: books_eval)
  have w: "?w \<in> set (token_wallet db_credited)" and g: "?g \<in> set (master_grant db_credited)"
    by (simp_all add: db_credited_def db_with_def db_ex_def)
  have env: "env_ok ustr_ex db_credited (env_ex n)" for n
    by (auto simp: env_ok_def env_ex_def db_credited_def db_with_def row_ex_def i64)
  have q: "quiet env_ex" by (simp add: quiet_def env_ex_def)
  have "idem_taken db_credited 1 (idempotencyKeyForGrant ?g)"
    by (simp add: idem_taken_def db_credited_def db_with_def row_ex_def grant_ex_def idempotencyKeyForGrant_def)
  then show ?thesis
    using extra_tokens_never_twice [OF inv q env w g]
    by (auto simp: grant_ex_def hydrate_def pending_grant_def readInt64Payload_def i64)
qed

section \<open>Schedules that lose or repeat an extension\<close>

lemmas free_period_eval =
  ApplyMasterGrant_Apply_def MasterGrantStore_GetByID_def find_grant_def applyFreePeriod_def finish_apply_def
  MasterGrantStore_Consume_def consume_update_def update_grant_row_def pending_grant_def grant_Consume_def
  GetByTenant_def ExtendPeriod_def SaveSubscription_def subscription_checks_def active_clash_def
  readInt64Payload_def days_duration_def IsConsumed_def IsRevoked_def query_def command_def read_clock_def
  env_ex_def db_ex_def grant_ex_def day_ns_def wrap64_def

text \<open>
  The pre-check of the free-period branch does not exclude a second extension: two concurrent
  \<^verbatim>\<open>Apply\<close> calls for one 7-day grant that both pass the pre-check before either saves extend the
  subscription by 14 days, although only one of them consumes the grant.
\<close>

theorem free_period_extended_twice:
  "case interleave2 [True, True, True, False, False, False, True, True, True, True, False, False, False, False] env_ex 0
      (ApplyMasterGrant_Apply ustr_ex 9 21) (ApplyMasterGrant_Apply ustr_ex 9 21) db_ex of
     (p, q, db) \<Rightarrow> p = Ret (Inr True) \<and> (\<exists>e. q = Ret (Inl e)) \<and>
       map sub_currentPeriodEnd (subscription db) = [31 * day_ns + 2 * (7 * day_ns)]"
  by (simp add: free_period_eval)

text \<open>
  The applier's save has no optimistic check: when the renewal of the subscription commits between
  the applier's read and its save, the save writes the old period back. The renewed month is
  lost although its invoice stays.
\<close>

theorem free_period_overwrites_renewal:
  "case interleave2 [True, True, True, True, False, True, True, True] env_ex 0
      (ApplyMasterGrant_Apply ustr_ex 9 21)
      (command (\<lambda>ev db. RenewSubscription (o_ids ev 0) db 30 (31 * day_ns) 4990 9 (o_now ev)) (\<lambda>r. Ret (is_ok r)))
      db_ex of
     (p, q, db) \<Rightarrow> p = Ret (Inr True) \<and> q = Ret True \<and>
       map inv_periodStart (invoice db) = [31 * day_ns] \<and> map inv_periodEnd (invoice db) = [59 * day_ns] \<and>
       map sub_currentPeriodEnd (subscription db) = [31 * day_ns + 7 * day_ns]"
proof -
  have m: "add_month 2678400000000000 = 5097600000000000" by code_simp
  show ?thesis
    by (simp add: free_period_eval RenewSubscription_def invoice_row_def invoice_checks_def period_clash_def date_of_def
        m is_ok_def Let_def)
qed

end
