(* ===== verification/BillingProps.thy ===== *)
theory BillingProps
  imports GrantProps
begin

text \<open>
  Correctness of the billing store and the renewal worker: the calendar step, the invariant of the
  subscription and invoice tables, renewal and its idempotence, and the publish backoff.
\<close>

section \<open>The calendar\<close>

lemma ceil_step:
  fixes n :: int
  assumes "0 < n"
  shows "(y + n) div n - (y + n - 1) div n = (if n dvd y then 1 else 0)"
proof -
  define r where "r = y mod n"
  have r: "0 \<le> r" "r < n" using assms by (simp_all add: r_def)
  have e: "y + n - 1 = (r + n - 1) + y div n * n" by (simp add: r_def)
  have "(y + n - 1) div n = (r + n - 1) div n + y div n"
    unfolding e using assms by (simp only: div_mult_self1)
  moreover have "(r + n - 1) div n = (if r = 0 then 0 else 1)"
  proof (cases "r = 0")
    case False
    have "(r + n - 1) div n = ((r - 1) + n) div n" by (simp add: algebra_simps)
    also have "\<dots> = (r - 1) div n + 1" using assms by (simp add: div_add_self2)
    finally show ?thesis using False r by simp
  qed (use assms in simp)
  moreover have "(y + n) div n = y div n + 1" using assms by (simp add: div_add_self2)
  ultimately show ?thesis using assms by (simp add: r_def dvd_eq_mod_eq_0)
qed

lemma year_length: "days_before_year (y + 1) - days_before_year y = (if leap y then 366 else 365)"
proof -
  have s: "(if 4 dvd y then 1 else 0) = (y + 4) div 4 - (y + 4 - 1) div 4"
    "(if 100 dvd y then 1 else 0) = (y + 100) div 100 - (y + 100 - 1) div 100"
    "(if 400 dvd y then 1 else 0) = (y + 400) div 400 - (y + 400 - 1) div 400"
    by (rule ceil_step [symmetric], simp)+
  have e: "(y + 1) + 3 = y + 4" "(y + 1) + 99 = y + 100" "(y + 1) + 399 = y + 400"
    "y + 4 - 1 = y + 3" "y + 100 - 1 = y + 99" "y + 400 - 1 = y + 399" by simp_all
  have aux: "365 + (if A then 1 else 0) - (if B then 1 else 0) + (if C then 1 else 0)
      = (if A \<and> (\<not> B \<or> C) then 366 else 365 :: int)" if "C \<longrightarrow> B" "B \<longrightarrow> A" for A B C
    using that by (cases A; cases B; cases C) simp_all
  have i: "400 dvd y \<longrightarrow> 100 dvd y" "100 dvd y \<longrightarrow> 4 dvd y"
    by (rule impI, erule dvd_trans [rotated], simp)+
  have "days_before_year (y + 1) - days_before_year y = 365 + (if 4 dvd y then 1 else 0)
      - (if 100 dvd y then 1 else 0) + (if 400 dvd y then 1 else 0)"
    unfolding s days_before_year_def e by (simp only: algebra_simps)
  then show ?thesis unfolding aux [OF i] leap_def dvd_eq_mod_eq_0 [symmetric] .
qed

lemma days_before_month_step:
  assumes "0 \<le> m" "m < 11"
  shows "28 \<le> days_before_month y (m + 1) - days_before_month y m \<and>
    days_before_month y (m + 1) - days_before_month y m \<le> 31"
proof -
  have "m = 0 \<or> m = 1 \<or> m = 2 \<or> m = 3 \<or> m = 4 \<or> m = 5 \<or> m = 6 \<or> m = 7 \<or> m = 8 \<or> m = 9 \<or> m = 10"
    using assms by presburger
  then show ?thesis by (elim disjE) (simp_all add: days_before_month_def)
qed

lemma month_length: "28 \<le> month_start (k + 1) - month_start k \<and> month_start (k + 1) - month_start k \<le> 31"
proof (cases "k mod 12 = 11")
  case True
  then have "k + 1 = 12 * (k div 12 + 1) + 0" using div_mult_mod_eq [of k 12] by (simp add: algebra_simps)
  then have n: "(k + 1) div 12 = k div 12 + 1" "(k + 1) mod 12 = 0"
    using int_div_pos_eq [of "k + 1" 12 "k div 12 + 1" 0] int_mod_pos_eq [of "k + 1" 12 "k div 12 + 1" 0] by simp_all
  have "month_start (k + 1) - month_start k = days_before_year (k div 12 + 1) - days_before_year (k div 12)
      - days_before_month (k div 12) 11"
    by (simp add: month_start_def n True days_before_month_def)
  then show ?thesis using year_length [of "k div 12"] by (simp add: days_before_month_def split: if_splits)
next
  case False
  have b: "0 \<le> k mod 12" "k mod 12 < 12" by simp_all
  then have lt: "k mod 12 < 11" using False by linarith
  have "k + 1 = 12 * (k div 12) + (k mod 12 + 1)" using div_mult_mod_eq [of k 12] by (simp add: algebra_simps)
  with b lt have n: "(k + 1) div 12 = k div 12" "(k + 1) mod 12 = k mod 12 + 1" "k mod 12 < 11"
    using int_div_pos_eq [of "k + 1" 12 "k div 12" "k mod 12 + 1"]
      int_mod_pos_eq [of "k + 1" 12 "k div 12" "k mod 12 + 1"] by simp_all
  then show ?thesis using days_before_month_step [of "k mod 12" "k div 12"] by (simp add: month_start_def n)
qed

lemma add_month_days: "\<exists>d. 28 \<le> d \<and> d \<le> 31 \<and> add_month t = t + d * day_ns"
proof -
  let ?k = "month_of (t div day_ns)"
  have "t = t div day_ns * day_ns + t mod day_ns" by simp
  then have "add_month t = t + (month_start (?k + 1) - month_start ?k) * day_ns"
    by (simp add: add_month_def Let_def algebra_simps)
  then show ?thesis using month_length [of ?k] by blast
qed

lemma add_month_later: "t < add_month t" "date_of t < date_of (add_month t)"
proof -
  obtain d where d: "28 \<le> d" "add_month t = t + d * day_ns" using add_month_days by blast
  have p: "0 < day_ns" by (simp add: day_ns_def)
  then show "t < add_month t" using d by simp
  have "(t + d * day_ns) div day_ns = t div day_ns + d" using p by simp
  then show "date_of t < date_of (add_month t)" using d p by (simp add: date_of_def)
qed

section \<open>The tables\<close>

text \<open>
  The invariant of the billing tables: identifiers are keys, a tenant has at most one active
  subscription and at most one live invoice per period start, and every row satisfies its
  CHECKs.
\<close>

definition one_active :: "crm_db \<Rightarrow> bool" where
  "one_active db \<longleftrightarrow> distinct (map sub_tenantID
     (filter (\<lambda>s. sub_status s = SubscriptionStatusActive) (subscription db)))"

definition live_period :: "Invoice \<Rightarrow> uuid \<times> time" where
  "live_period i = (inv_tenantID i, inv_periodStart i)"

definition live :: "Invoice \<Rightarrow> bool" where
  "live i \<longleftrightarrow> inv_state i \<noteq> InvoiceStateCancelledByMaster"

definition billing_inv :: "crm_db \<Rightarrow> bool" where
  "billing_inv db \<longleftrightarrow>
     distinct (map sub_id (subscription db)) \<and> one_active db \<and>
     (\<forall>s \<in> set (subscription db). sub_currentPeriodStart s < sub_currentPeriodEnd s) \<and>
     distinct (map inv_id (invoice db)) \<and> distinct (map live_period (filter live (invoice db))) \<and>
     (\<forall>i \<in> set (invoice db). 0 \<le> inv_amountCentsBRL i \<and> inv_periodStart i < inv_periodEnd i)"

lemma distinct_filter_map_upd:
  assumes d: "distinct (map k xs)" "distinct (map p (filter P xs))"
    and x: "x \<in> set xs" and f: "k (f x) = k x"
    and no: "P (f x) \<Longrightarrow> \<forall>y \<in> set xs. k y \<noteq> k x \<and> P y \<longrightarrow> p y \<noteq> p (f x)"
  shows "distinct (map p (filter P (map (\<lambda>y. if k y = k x then f y else y) xs)))"
  using d x no
proof (induction xs)
  case (Cons a xs)
  show ?case
  proof (cases "k a = k x")
    case True
    then have ax: "a = x" using Cons.prems(1,3) by (auto simp: image_iff)
    then have rest: "map (\<lambda>y. if k y = k x then f y else y) xs = xs"
      using Cons.prems(1) by (intro map_idI) (auto simp: image_iff)
    have ne: "y \<in> set xs \<Longrightarrow> k y \<noteq> k x" for y
      using Cons.prems(1) ax by (metis distinct.simps(2) imageI list.set_map list.simps(9))
    show ?thesis using Cons.prems ax rest ne by (auto split: if_splits)
  next
    case False
    have IH: "distinct (map p (filter P (map (\<lambda>y. if k y = k x then f y else y) xs)))"
      using Cons False by (auto split: if_splits)
    have "p a \<notin> p ` set (filter P (map (\<lambda>y. if k y = k x then f y else y) xs))" if "P a"
    proof
      assume "p a \<in> p ` set (filter P (map (\<lambda>y. if k y = k x then f y else y) xs))"
      then obtain y where y: "y \<in> set xs" "P (if k y = k x then f y else y)" "p a = p (if k y = k x then f y else y)"
        by auto
      show False
      proof (cases "k y = k x")
        case True
        then have "y = x" using Cons.prems(1,3) y(1) False by (auto simp: distinct_map inj_on_def)
        then show False using y Cons.prems(4) that False by auto
      next
        case False
        then show False using y Cons.prems(2) that by auto
      qed
    qed
    then show ?thesis using IH False by auto
  qed
qed simp

lemma same_key: "distinct (map k xs) \<Longrightarrow> x \<in> set xs \<Longrightarrow> y \<in> set xs \<Longrightarrow> k x = k y \<Longrightarrow> x = y"
  by (auto simp: distinct_map inj_on_def)

lemma SaveSubscription_inv:
  assumes inv: "billing_inv db" and s: "SaveSubscription db s actor = Inr (u, db')"
  shows "billing_inv db'"
proof (cases "\<exists>x \<in> set (subscription db). sub_id x = sub_id s")
  case False
  then have db': "db' = db\<lparr>subscription := subscription db @ [s]\<rparr>" and c: "\<not> active_clash db s"
    and ok: "sub_currentPeriodStart s < sub_currentPeriodEnd s"
    using s by (auto simp: SaveSubscription_def subscription_checks_def split: if_splits)
  have "one_active db'" using inv c False by (auto simp: billing_inv_def one_active_def active_clash_def db')
  then show ?thesis using inv ok False by (auto simp: billing_inv_def db')
next
  case True
  define f where "f = (\<lambda>x :: Subscription. x\<lparr>sub_status := sub_status s, sub_planID := sub_planID s,
     sub_currentPeriodStart := sub_currentPeriodStart s, sub_currentPeriodEnd := sub_currentPeriodEnd s,
     sub_updatedAt := sub_updatedAt s\<rparr>)"
  have db': "db' = db\<lparr>subscription := map (\<lambda>x. if sub_id x = sub_id s then f x else x) (subscription db)\<rparr>"
    and c: "\<And>x. x \<in> set (subscription db) \<Longrightarrow> sub_id x = sub_id s \<Longrightarrow> \<not> active_clash db (f x)"
    and ok: "sub_currentPeriodStart s < sub_currentPeriodEnd s"
    using s True by (auto simp: SaveSubscription_def subscription_checks_def Let_def f_def split: if_splits)
  obtain x where x: "x \<in> set (subscription db)" "sub_id x = sub_id s" using True by blast
  have d: "distinct (map sub_id (subscription db))" "one_active db" using inv by (simp_all add: billing_inv_def)
  have "distinct (map sub_tenantID (filter (\<lambda>s. sub_status s = SubscriptionStatusActive)
      (map (\<lambda>y. if sub_id y = sub_id x then f y else y) (subscription db))))"
    using d(2) c [OF x] x by (intro distinct_filter_map_upd [OF d(1)])
      (auto simp: one_active_def active_clash_def f_def)
  then have "one_active db'" by (simp add: db' one_active_def x(2))
  moreover have k: "map sub_id (subscription db') = map sub_id (subscription db)"
    unfolding db' by (simp add: f_def)
  moreover have "\<forall>s \<in> set (subscription db'). sub_currentPeriodStart s < sub_currentPeriodEnd s"
    using inv ok by (auto simp: billing_inv_def db' f_def)
  moreover have "invoice db' = invoice db" by (simp add: db')
  ultimately show ?thesis using inv unfolding billing_inv_def k by simp
qed

lemma SaveInvoice_inv:
  assumes inv: "billing_inv db" and s: "SaveInvoice db i actor = Inr (u, db')"
  shows "billing_inv db'"
proof (cases "\<exists>x \<in> set (invoice db). inv_id x = inv_id i")
  case False
  let ?i = "invoice_row i"
  from False have db': "db' = db\<lparr>invoice := invoice db @ [?i]\<rparr>" and c: "\<not> period_clash db ?i"
    and ok: "0 \<le> inv_amountCentsBRL ?i" "inv_periodStart ?i < inv_periodEnd ?i" and id: "inv_id ?i = inv_id i"
    using s by (auto simp: SaveInvoice_def invoice_checks_def Let_def invoice_row_def split: if_splits)
  have "distinct (map live_period (filter live (invoice db')))"
    using inv c False id by (auto simp: billing_inv_def period_clash_def db' live_def live_period_def)
  then show ?thesis using inv ok False id by (auto simp: billing_inv_def db' one_active_def)
next
  case True
  define f where "f = (\<lambda>x :: Invoice. x\<lparr>inv_state := inv_state i, inv_cancelledReason := inv_cancelledReason i,
     inv_updatedAt := inv_updatedAt i\<rparr>)"
  have id: "inv_id (invoice_row i) = inv_id i" by (simp add: invoice_row_def)
  have db': "db' = db\<lparr>invoice := map (\<lambda>x. if inv_id x = inv_id i then f x else x) (invoice db)\<rparr>"
    and c: "\<And>x. x \<in> set (invoice db) \<Longrightarrow> inv_id x = inv_id i \<Longrightarrow> \<not> period_clash db (f x)"
    using s True by (auto simp: SaveInvoice_def Let_def f_def invoice_row_def split: if_splits)
  obtain x where x: "x \<in> set (invoice db)" "inv_id x = inv_id i" using True by blast
  have d: "distinct (map inv_id (invoice db))" "distinct (map live_period (filter live (invoice db)))"
    using inv by (simp_all add: billing_inv_def)
  have "distinct (map live_period (filter live (map (\<lambda>y. if inv_id y = inv_id x then f y else y) (invoice db))))"
    using d(2) c [OF x] x by (intro distinct_filter_map_upd [OF d(1)])
      (auto simp: period_clash_def f_def live_def live_period_def)
  then have "distinct (map live_period (filter live (invoice db')))" by (simp add: db' x(2))
  moreover have k: "map inv_id (invoice db') = map inv_id (invoice db)"
    unfolding db' by (simp add: f_def)
  moreover have "\<forall>i \<in> set (invoice db'). 0 \<le> inv_amountCentsBRL i \<and> inv_periodStart i < inv_periodEnd i"
    using inv by (auto simp: billing_inv_def db' f_def)
  moreover have "subscription db' = subscription db" by (simp add: db')
  ultimately show ?thesis using inv unfolding billing_inv_def one_active_def k by simp
qed

section \<open>Renewal\<close>

definition renewed :: "time \<Rightarrow> time \<Rightarrow> Subscription \<Rightarrow> Subscription" where
  "renewed now oldEnd s = s\<lparr>sub_currentPeriodStart := oldEnd, sub_currentPeriodEnd := add_month oldEnd, sub_updatedAt := now\<rparr>"

lemma renewed_keys:
  "map sub_id (map (\<lambda>x. if sub_id x = j then renewed now e x else x) xs) = map sub_id xs"
  "map sub_tenantID (filter (\<lambda>s. sub_status s = SubscriptionStatusActive)
      (map (\<lambda>x. if sub_id x = j then renewed now e x else x) xs))
    = map sub_tenantID (filter (\<lambda>s. sub_status s = SubscriptionStatusActive) xs)"
  by (induction xs) (auto simp: renewed_def)

lemma renewed_sel: "sub_id (renewed now e s) = sub_id s" "sub_status (renewed now e s) = sub_status s"
  by (simp_all add: renewed_def)

lemma RenewSubscription_effect:
  assumes inv: "billing_inv db" and r: "RenewSubscription iid db subID oldEnd price actor now = Inr (res, db')"
  obtains s where "s \<in> set (subscription db)" "sub_id s = subID" "sub_status s = SubscriptionStatusActive"
    "sub_currentPeriodEnd s = oldEnd"
    "subscription db' = map (\<lambda>x. if sub_id x = subID then renewed now oldEnd x else x) (subscription db)"
    "invoice db' = invoice db @ [invoice_row (rr_Invoice res)]" "\<not> period_clash db (invoice_row (rr_Invoice res))"
    "\<forall>j \<in> set (invoice db). inv_id j \<noteq> iid" "0 \<le> price" "plans db' = plans db"
    "rr_Invoice res = \<lparr>inv_id = iid, inv_tenantID = sub_tenantID s, inv_subscriptionID = subID,
       inv_periodStart = oldEnd, inv_periodEnd = add_month oldEnd, inv_amountCentsBRL = price,
       inv_state = InvoiceStatePending, inv_cancelledReason = [], inv_createdAt = now, inv_updatedAt = now\<rparr>"
proof -
  obtain s where f: "find (\<lambda>s. sub_id s = subID \<and> sub_status s = SubscriptionStatusActive) (subscription db) = Some s"
    using r by (auto simp: RenewSubscription_def Let_def split: if_splits option.splits)
  have s: "s \<in> set (subscription db)" "sub_id s = subID" "sub_status s = SubscriptionStatusActive"
    using find_SomeD [OF f] by auto
  have d: "distinct (map sub_id (subscription db))" using inv by (simp add: billing_inv_def)
  let ?i = "\<lparr>inv_id = iid, inv_tenantID = sub_tenantID s, inv_subscriptionID = subID,
       inv_periodStart = oldEnd, inv_periodEnd = add_month oldEnd, inv_amountCentsBRL = price,
       inv_state = InvoiceStatePending, inv_cancelledReason = [], inv_createdAt = now, inv_updatedAt = now\<rparr>"
  have e: "\<exists>x \<in> set (subscription db). sub_id x = subID \<and> sub_currentPeriodEnd x = oldEnd"
    and db': "db' = db\<lparr>invoice := invoice db @ [invoice_row ?i], subscription := map (\<lambda>r.
         if sub_id r = subID \<and> sub_currentPeriodEnd r = oldEnd then renewed now oldEnd r else r) (subscription db)\<rparr>"
    and c: "\<not> period_clash db (invoice_row ?i)" "\<forall>j \<in> set (invoice db). inv_id j \<noteq> iid" "rr_Invoice res = ?i"
    and p: "0 \<le> price"
    using r f by (auto simp: RenewSubscription_def Let_def renewed_def invoice_checks_def invoice_row_def split: if_splits)
  obtain x where x: "x \<in> set (subscription db)" "sub_id x = subID" "sub_currentPeriodEnd x = oldEnd" using e by blast
  have "x = s" using same_key [OF d x(1) s(1)] x(2) s(2) by simp
  then have oe: "sub_currentPeriodEnd s = oldEnd" using x(3) by simp
  have "sub_currentPeriodEnd y = oldEnd" if "y \<in> set (subscription db)" "sub_id y = subID" for y
    using same_key [OF d that(1) s(1)] that(2) s(2) oe by simp
  then have "subscription db' = map (\<lambda>x. if sub_id x = subID then renewed now oldEnd x else x) (subscription db)"
    by (auto simp: db')
  then show thesis using that [OF s oe _ _ _ c(2) p] c db' by simp
qed

lemma RenewSubscription_inv:
  assumes inv: "billing_inv db" and r: "RenewSubscription iid db subID oldEnd price actor now = Inr (res, db')"
  shows "billing_inv db'"
proof -
  obtain s where "s \<in> set (subscription db)" "sub_id s = subID" "sub_status s = SubscriptionStatusActive"
    "sub_currentPeriodEnd s = oldEnd"
    and e: "subscription db' = map (\<lambda>x. if sub_id x = subID then renewed now oldEnd x else x) (subscription db)"
    "invoice db' = invoice db @ [invoice_row (rr_Invoice res)]" "\<not> period_clash db (invoice_row (rr_Invoice res))"
    "\<forall>j \<in> set (invoice db). inv_id j \<noteq> iid" "0 \<le> price" "plans db' = plans db"
    "rr_Invoice res = \<lparr>inv_id = iid, inv_tenantID = sub_tenantID s, inv_subscriptionID = subID,
       inv_periodStart = oldEnd, inv_periodEnd = add_month oldEnd, inv_amountCentsBRL = price,
       inv_state = InvoiceStatePending, inv_cancelledReason = [], inv_createdAt = now, inv_updatedAt = now\<rparr>"
    by (rule RenewSubscription_effect [OF inv r])
  have "map sub_id (subscription db') = map sub_id (subscription db)"
    "map sub_tenantID (filter (\<lambda>s. sub_status s = SubscriptionStatusActive) (subscription db'))
      = map sub_tenantID (filter (\<lambda>s. sub_status s = SubscriptionStatusActive) (subscription db))"
    unfolding e(1) by (rule renewed_keys)+
  moreover have "\<forall>x \<in> set (subscription db'). sub_currentPeriodStart x < sub_currentPeriodEnd x"
    using inv add_month_later by (auto simp: e(1) renewed_def billing_inv_def)
  moreover have "distinct (map live_period (filter live (invoice db')))"
    using inv e(2-4,7) by (auto simp: billing_inv_def period_clash_def live_def live_period_def invoice_row_def)
  moreover have "distinct (map inv_id (invoice db'))"
    using inv e(2,4,7) by (auto simp: billing_inv_def invoice_row_def)
  moreover have "\<forall>i \<in> set (invoice db'). 0 \<le> inv_amountCentsBRL i \<and> inv_periodStart i < inv_periodEnd i"
    using inv e(2,5,7) add_month_later(2) by (auto simp: billing_inv_def invoice_row_def)
  ultimately show ?thesis using inv by (simp add: billing_inv_def one_active_def)
qed

section \<open>Properties\<close>

text \<open>
  The writers of the billing tables keep their invariant: one active subscription per tenant, one
  live invoice per tenant and period, ordered periods, unique identifiers.
\<close>

theorem billing_writers_keep_invariant:
  assumes "billing_inv db"
    and "SaveSubscription db s actor = Inr (u, db') \<or> SaveInvoice db i actor = Inr (u, db') \<or>
      (\<exists>res. RenewSubscription iid db subID oldEnd price actor now = Inr (res, db'))"
  shows "billing_inv db'"
  using assms SaveSubscription_inv SaveInvoice_inv RenewSubscription_inv by blast

lemma billing_inv_ex: "billing_inv db_ex"
  by (simp add: billing_inv_def one_active_def db_ex_def day_ns_def)

lemma renew_ex: "\<exists>res db'. RenewSubscription 100 db_ex 30 (31 * day_ns) 4990 9 1000 = Inr (res, db')"
proof -
  have m: "add_month 2678400000000000 = 5097600000000000" by code_simp
  show ?thesis
    by (simp add: RenewSubscription_def db_ex_def invoice_row_def invoice_checks_def period_clash_def date_of_def
        day_ns_def m Let_def)
qed

theorem billing_writers_keep_invariant_witness:
  "\<exists>res db'. RenewSubscription 100 db_ex 30 (31 * day_ns) 4990 9 1000 = Inr (res, db') \<and> billing_inv db'"
  using renew_ex billing_writers_keep_invariant [OF billing_inv_ex] by blast

text \<open>
  C30. A renewal is gapless and bills once: it moves the subscription to the month that starts where the
  old period ended (28 to 31 days), adds exactly one pending invoice for that month at the plan's
  price, and a second renewal of the same old period is refused as already done.
\<close>

theorem renewal_bills_once:
  assumes inv: "billing_inv db" and r: "RenewSubscription iid db subID oldEnd price actor now = Inr (res, db')"
  shows "(\<exists>d. 28 \<le> d \<and> d \<le> 31 \<and> rr_NewPeriodEnd res = oldEnd + d * day_ns) \<and>
    rr_NewPeriodStart res = oldEnd \<and>
    [x \<leftarrow> subscription db'. sub_id x = subID] =
      [x\<lparr>sub_currentPeriodStart := oldEnd, sub_currentPeriodEnd := rr_NewPeriodEnd res, sub_updatedAt := now\<rparr>.
        x \<leftarrow> subscription db, sub_id x = subID] \<and>
    invoice db' = invoice db @ [invoice_row (rr_Invoice res)] \<and>
    inv_state (rr_Invoice res) = InvoiceStatePending \<and> inv_amountCentsBRL (rr_Invoice res) = price \<and>
    RenewSubscription iid' db' subID oldEnd price actor now' = berr billing_ErrInvoiceAlreadyExists"
proof -
  obtain s where s: "s \<in> set (subscription db)" "sub_id s = subID" "sub_status s = SubscriptionStatusActive"
    "sub_currentPeriodEnd s = oldEnd"
    and e: "subscription db' = map (\<lambda>x. if sub_id x = subID then renewed now oldEnd x else x) (subscription db)"
    "invoice db' = invoice db @ [invoice_row (rr_Invoice res)]" "\<not> period_clash db (invoice_row (rr_Invoice res))"
    "\<forall>j \<in> set (invoice db). inv_id j \<noteq> iid" "0 \<le> price" "plans db' = plans db"
    and i: "rr_Invoice res = \<lparr>inv_id = iid, inv_tenantID = sub_tenantID s, inv_subscriptionID = subID,
       inv_periodStart = oldEnd, inv_periodEnd = add_month oldEnd, inv_amountCentsBRL = price,
       inv_state = InvoiceStatePending, inv_cancelledReason = [], inv_createdAt = now, inv_updatedAt = now\<rparr>"
    by (rule RenewSubscription_effect [OF inv r])
  have res: "rr_NewPeriodEnd res = add_month oldEnd" "rr_NewPeriodStart res = oldEnd"
    using r by (auto simp: RenewSubscription_def Let_def split: if_splits option.splits)
  have sub: "[x \<leftarrow> map (\<lambda>x. if sub_id x = subID then renewed now oldEnd x else x) xs. sub_id x = subID] =
      [x\<lparr>sub_currentPeriodStart := oldEnd, sub_currentPeriodEnd := add_month oldEnd, sub_updatedAt := now\<rparr>.
        x \<leftarrow> xs, sub_id x = subID]" for xs :: "Subscription list"
    by (induction xs) (auto simp: renewed_def)
  have moved: "\<not> (\<exists>x \<in> set (subscription db'). sub_id x = subID \<and> sub_currentPeriodEnd x = oldEnd)"
  proof
    assume "\<exists>x \<in> set (subscription db'). sub_id x = subID \<and> sub_currentPeriodEnd x = oldEnd"
    then obtain y where "sub_id (if sub_id y = subID then renewed now oldEnd y else y) = subID"
      "sub_currentPeriodEnd (if sub_id y = subID then renewed now oldEnd y else y) = oldEnd"
      unfolding e(1) set_map by blast
    then show False using add_month_later(1) [of oldEnd] by (auto simp: renewed_def split: if_splits)
  qed
  obtain s' where s': "find (\<lambda>s. sub_id s = subID \<and> sub_status s = SubscriptionStatusActive) (subscription db') = Some s'"
  proof -
    have "renewed now oldEnd s \<in> set (subscription db')"
      unfolding e(1) set_map using s(1,2) by (intro image_eqI [of _ _ s]) simp_all
    then have "find (\<lambda>s. sub_id s = subID \<and> sub_status s = SubscriptionStatusActive) (subscription db') \<noteq> None"
      using s(2,3) unfolding find_None_iff by (metis renewed_sel)
    then show thesis using that by blast
  qed
  have ck: "invoice_checks db' (invoice_row \<lparr>inv_id = iid', inv_tenantID = t, inv_subscriptionID = subID,
      inv_periodStart = oldEnd, inv_periodEnd = add_month oldEnd, inv_amountCentsBRL = price,
      inv_state = InvoiceStatePending, inv_cancelledReason = [], inv_createdAt = now', inv_updatedAt = now'\<rparr>)" for t
  proof -
    have "price \<le> 2147483647"
      using r by (auto simp: RenewSubscription_def Let_def invoice_checks_def invoice_row_def split: if_splits option.splits)
    moreover have "\<exists>x \<in> set (subscription db'). sub_id x = subID" using find_SomeD [OF s'] by blast
    ultimately show ?thesis using e(5) add_month_later(2) by (simp add: invoice_checks_def invoice_row_def)
  qed
  have "subID \<noteq> uuid_nil" "actor \<noteq> uuid_nil" using r by (auto simp: RenewSubscription_def Let_def split: if_splits)
  then have "RenewSubscription iid' db' subID oldEnd price actor now' = berr billing_ErrInvoiceAlreadyExists"
    using s' moved ck by (simp add: RenewSubscription_def Let_def)
  then show ?thesis
    using res(2) add_month_days [of oldEnd] e(2) i sub [of "subscription db"] unfolding e(1) res(1) by simp
qed

theorem renewal_bills_once_witness:
  "\<exists>res db'. RenewSubscription 100 db_ex 30 (31 * day_ns) 4990 9 1000 = Inr (res, db') \<and>
     RenewSubscription 101 db' 30 (31 * day_ns) 4990 9 2000 = berr billing_ErrInvoiceAlreadyExists"
  using renew_ex renewal_bills_once [OF billing_inv_ex] by blast

section \<open>Publishing\<close>

lemma publish_loop_step:
  assumes "i < m" "\<not> pub i" "i \<noteq> m - 1" "\<not> cancelled i"
  shows "publish_loop pub cancelled m i delay maxDelay =
    (let r = publish_loop pub cancelled m (Suc i)
       (if maxDelay < wrap64 (delay * 2) then maxDelay else wrap64 (delay * 2)) maxDelay in (fst r, delay # snd r))"
  using assms by (subst publish_loop.simps) (simp add: Let_def split: prod.split)

lemma publish_loop_stop:
  "m \<le> i \<Longrightarrow> publish_loop pub cancelled m i delay maxDelay = (False, [])"
  "i < m \<Longrightarrow> pub i \<Longrightarrow> publish_loop pub cancelled m i delay maxDelay = (True, [])"
  "i < m \<Longrightarrow> \<not> pub i \<Longrightarrow> i = m - 1 \<or> cancelled i \<Longrightarrow> publish_loop pub cancelled m i delay maxDelay = (False, [])"
  by (subst publish_loop.simps; auto)+

lemma publish_loop_pauses:
  assumes "0 < delay" "delay \<le> maxDelay" "maxDelay * 2 \<le> max_i64"
  shows "publish_loop pub cancelled m i delay maxDelay = (ok, ds) \<Longrightarrow>
    length ds \<le> m - Suc i \<and> (\<forall>j < length ds. ds ! j = min (delay * 2 ^ j) maxDelay)"
  using assms
proof (induction pub cancelled m i delay maxDelay arbitrary: ok ds rule: publish_loop.induct)
  case (1 pub cancelled m i delay maxDelay)
  let ?d = "min (delay * 2) maxDelay"
  have d2: "wrap64 (delay * 2) = delay * 2" using 1(3-5) by (simp add: wrap64_nonneg)
  then have nxt: "(if maxDelay < wrap64 (delay * 2) then maxDelay else wrap64 (delay * 2)) = ?d" by simp
  show ?case
  proof (cases "i < m \<and> \<not> pub i \<and> i \<noteq> m - 1 \<and> \<not> cancelled i")
    case False
    then consider "m \<le> i" | "i < m" "pub i" | "i < m" "\<not> pub i" "i = m - 1 \<or> cancelled i" by linarith
    then have "ds = []" using 1(2) by cases (simp_all add: publish_loop_stop)
    then show ?thesis by simp
  next
    case True
    obtain ok' ds' where r: "publish_loop pub cancelled m (Suc i) ?d maxDelay = (ok', ds')"
      by (cases "publish_loop pub cancelled m (Suc i) ?d maxDelay")
    have ds: "ds = delay # ds'"
      using 1(2) publish_loop_step [of i m pub cancelled delay maxDelay] True r by (simp add: nxt Let_def)
    have IH: "length ds' \<le> m - Suc (Suc i)" "\<And>j. j < length ds' \<Longrightarrow> ds' ! j = min (?d * 2 ^ j) maxDelay"
      using 1(1) [of "wrap64 (delay * 2)"] True r 1(3-5) by (auto simp: nxt)
    have step: "min (?d * 2 ^ j) maxDelay = min (delay * 2 ^ Suc j) maxDelay" for j
    proof (cases "delay * 2 \<le> maxDelay")
      case False
      have "1 \<le> (2::int) ^ j" by simp
      then have "maxDelay * 1 \<le> maxDelay * 2 ^ j" using 1(3,4) by (intro mult_left_mono) auto
      moreover have "(delay * 2) * 1 \<le> (delay * 2) * 2 ^ j" using 1(3) by (intro mult_left_mono) auto
      ultimately show ?thesis using False by (simp add: algebra_simps)
    qed (simp add: algebra_simps)
    show ?thesis
    proof (intro conjI allI impI)
      have "Suc i < m" using True by linarith
      then show "length ds \<le> m - Suc i" using ds IH(1) by simp
      fix j assume "j < length ds"
      then show "ds ! j = min (delay * 2 ^ j) maxDelay"
        using ds IH(2) step 1(4) by (cases j) (auto simp: min_def)
    qed
  qed
qed

lemma publish_loop_ok:
  assumes "\<And>j. \<not> cancelled j"
  shows "fst (publish_loop pub cancelled m i delay maxDelay) \<longleftrightarrow> (\<exists>j. i \<le> j \<and> j < m \<and> pub j)"
  using assms
proof (induction pub cancelled m i delay maxDelay rule: publish_loop.induct)
  case (1 pub cancelled m i delay maxDelay)
  show ?case
  proof (cases "i < m \<and> \<not> pub i \<and> i \<noteq> m - 1")
    case True
    have "fst (publish_loop pub cancelled m i delay maxDelay) =
        fst (publish_loop pub cancelled m (Suc i)
          (if maxDelay < wrap64 (delay * 2) then maxDelay else wrap64 (delay * 2)) maxDelay)"
      using True 1(2) by (simp add: publish_loop_step Let_def)
    also have "\<dots> \<longleftrightarrow> (\<exists>j. Suc i \<le> j \<and> j < m \<and> pub j)" using 1(1) [OF _ _ _ _ refl 1(2)] 1(2) [of i] True by (simp add: not_le)
    also have "\<dots> \<longleftrightarrow> (\<exists>j. i \<le> j \<and> j < m \<and> pub j)" using True by (metis Suc_leD Suc_leI le_neq_implies_less)
    finally show ?thesis .
  next
    case False
    then consider "m \<le> i" | "i < m" "pub i" | "i < m" "\<not> pub i" "i = m - 1" by linarith
    then show ?thesis
    proof cases
      case 3
      have "j = i" if "i \<le> j" "j < m" for j using 3 that by linarith
      then have "\<not> (\<exists>j. i \<le> j \<and> j < m \<and> pub j)" using 3(2) by blast
      then show ?thesis using 3 by (simp add: publish_loop_stop)
    qed (auto simp: publish_loop_stop)
  qed
qed

text \<open>
  The publish backoff is bounded: with the defaults filled in, the publisher is called at most
  \<open>publishMaxRetries\<close> times, the event goes out exactly when one of these calls succeeds, and the pauses
  double from the base delay up to the cap.
\<close>

theorem backoff_bounded:
  assumes "new_renewer cfg0 = Inr cfg" "rn_publishBaseDelay cfg \<le> rn_publishMaxDelay cfg"
    "rn_publishMaxDelay cfg * 2 \<le> max_i64"
    and "publishWithBackoff cfg pub (\<lambda>_. False) = (ok, ds)"
  shows "(ok \<longleftrightarrow> (\<exists>j < nat (rn_publishMaxRetries cfg). pub j)) \<and>
    int (length ds) < rn_publishMaxRetries cfg \<and>
    (\<forall>j < length ds. ds ! j = min (rn_publishBaseDelay cfg * 2 ^ j) (rn_publishMaxDelay cfg))"
proof -
  have c: "0 < rn_publishBaseDelay cfg" "0 < rn_publishMaxRetries cfg"
    using assms(1) by (auto simp: new_renewer_def split: if_splits)
  have p: "publish_loop pub (\<lambda>_. False) (nat (rn_publishMaxRetries cfg)) 0 (rn_publishBaseDelay cfg)
      (rn_publishMaxDelay cfg) = (ok, ds)" using assms(4) by (simp add: publishWithBackoff_def)
  show ?thesis
    using publish_loop_pauses [OF c(1) assms(2,3) p] publish_loop_ok [of "\<lambda>_. False" pub "nat (rn_publishMaxRetries cfg)" 0
        "rn_publishBaseDelay cfg" "rn_publishMaxDelay cfg"] p c(2) by auto
qed

theorem backoff_bounded_witness:
  "let cfg = \<lparr>rn_actorID = 9, rn_batchSize = 100, rn_publishMaxRetries = 5, rn_publishBaseDelay = 100000000,
      rn_publishMaxDelay = 5000000000\<rparr>
   in \<forall>j < length (snd (publishWithBackoff cfg (\<lambda>i. i = 2) (\<lambda>_. False))).
        snd (publishWithBackoff cfg (\<lambda>i. i = 2) (\<lambda>_. False)) ! j = min (100000000 * 2 ^ j) 5000000000"
proof -
  let ?cfg = "\<lparr>rn_actorID = 9, rn_batchSize = 100, rn_publishMaxRetries = 5, rn_publishBaseDelay = 100000000,
      rn_publishMaxDelay = 5000000000\<rparr>"
  have n: "new_renewer ?cfg = Inr ?cfg" by (simp add: new_renewer_def)
  obtain ok ds where p: "publishWithBackoff ?cfg (\<lambda>i. i = 2) (\<lambda>_. False) = (ok, ds)"
    by (cases "publishWithBackoff ?cfg (\<lambda>i. i = 2) (\<lambda>_. False)")
  show ?thesis using backoff_bounded [OF n _ _ p] by (simp add: p i64)
qed

text \<open>
  A renewal whose event cannot be published stays renewed: the outcome is an error and no event goes
  out, but the subscription has moved on and the invoice exists, so no later sweep sees the period as
  due.
\<close>

theorem unpublished_renewal_stays:
  assumes "RenewSubscription iid db (due_ID d) (due_CurrentPeriodEnd d) (due_PlanPriceCents d) (rn_actorID cfg) now
      = Inr (res, db')"
    and "\<And>i. \<not> pub i"
  shows "renewOne cfg iid pub (\<lambda>_. False) db d now = (RenewError, [], db') \<and>
    invoice db' = invoice db @ [invoice_row (rr_Invoice res)]"
proof -
  have "\<not> fst (publishWithBackoff cfg pub (\<lambda>_. False))"
    using assms(2) by (simp add: publishWithBackoff_def publish_loop_ok)
  moreover have "invoice db' = invoice db @ [invoice_row (rr_Invoice res)]"
    using assms(1) by (auto simp: RenewSubscription_def Let_def split: if_splits option.splits)
  ultimately show ?thesis using assms(1) by (simp add: renewOne_def Let_def)
qed

theorem unpublished_renewal_stays_witness:
  "\<exists>db'. renewOne \<lparr>rn_actorID = 9, rn_batchSize = 100, rn_publishMaxRetries = 5, rn_publishBaseDelay = 1, rn_publishMaxDelay = 2\<rparr>
     100 (\<lambda>_. False) (\<lambda>_. False) db_ex
     \<lparr>due_ID = 30, due_TenantID = 7, due_PlanID = 31, due_PlanPriceCents = 4990, due_CurrentPeriodEnd = 31 * day_ns\<rparr> 1000
     = (RenewError, [], db')"
proof -
  obtain res db' where r: "RenewSubscription 100 db_ex 30 (31 * day_ns) 4990 9 1000 = Inr (res, db')"
    using renew_ex by blast
  show ?thesis
    by (rule exI [of _ db'], rule conjunct1, rule unpublished_renewal_stays [where res = res]) (simp_all add: r)
qed

end
