(* ===== verification/Dunning.thy ===== *)
theory Dunning
  imports Billing
begin

text \<open>
  The past-due state machine of a subscription, \<^verbatim>\<open>src/internal/billing/dunning\<close>: the states with
  their severity, the policy that maps days past due to a state, and the \<^verbatim>\<open>DunningState\<close>
  aggregate with its four mutations. A mutation returns the mutated aggregate, or the error with the
  aggregate untouched.
\<close>

section \<open>States\<close>

datatype DState =
    StateCurrent
  | StateWarn
  | StateSuspendedOutbound
  | StateSuspendedFull
  | StateCancelled
  | StateOther string

fun Severity :: "DState \<Rightarrow> int" where
  "Severity StateCurrent = 0"
| "Severity StateWarn = 1"
| "Severity StateSuspendedOutbound = 2"
| "Severity StateSuspendedFull = 3"
| "Severity StateCancelled = 4"
| "Severity (StateOther s) = - 1"

definition IsTerminal :: "DState \<Rightarrow> bool" where
  "IsTerminal s = (s = StateCancelled)"

definition IsKnown :: "DState \<Rightarrow> bool" where
  "IsKnown s = (Severity s \<ge> 0)"

text \<open>States are compared by their severity.\<close>

instantiation DState :: preorder
begin

definition less_eq_DState :: "DState \<Rightarrow> DState \<Rightarrow> bool" where
  "s \<le> t \<longleftrightarrow> Severity s \<le> Severity t"

definition less_DState :: "DState \<Rightarrow> DState \<Rightarrow> bool" where
  "s < t \<longleftrightarrow> Severity s < Severity t"

instance
  by intro_classes (auto simp: less_eq_DState_def less_DState_def)

end

lemmas severity_order = less_eq_DState_def less_DState_def

lemma Severity_inj: "IsKnown s \<Longrightarrow> Severity s = Severity t \<Longrightarrow> s = t"
  by (cases s; cases t) (simp_all add: IsKnown_def)

lemma Severity_le: "- 1 \<le> Severity s" "Severity s \<le> 4"
  by (cases s; simp)+

section \<open>Errors\<close>

datatype dunning_sentinel =
    dunning_ErrZeroTenant
  | dunning_ErrZeroSubscription
  | dunning_ErrZeroInvoice
  | dunning_ErrInvalidTransition
  | dunning_ErrInvalidPolicy
  | dunning_ErrOverrideReasonTooShort
  | dunning_ErrOverrideUntilInPast
  | dunning_ErrNotFound
  | dunning_ErrNoActiveOverride

type_synonym 'a dresult = "(dunning_sentinel, 'a) result"

abbreviation derr :: "dunning_sentinel \<Rightarrow> 'a dresult" where
  "derr e \<equiv> Inl (Sentinel e)"

section \<open>The policy\<close>

record Policy =
  WarnDays :: int
  OutboundBlockDays :: int
  ReadonlyDays :: int
  CancelDays :: int

definition DefaultPolicy :: Policy where
  "DefaultPolicy = \<lparr>WarnDays = 1, OutboundBlockDays = 7, ReadonlyDays = 30, CancelDays = 90\<rparr>"

definition policy_Validate :: "Policy \<Rightarrow> unit dresult" where
  "policy_Validate p =
     (if WarnDays p \<le> 0 \<or> OutboundBlockDays p \<le> 0 \<or> ReadonlyDays p \<le> 0 \<or> CancelDays p \<le> 0
        then derr dunning_ErrInvalidPolicy
      else if \<not> (WarnDays p < OutboundBlockDays p \<and> OutboundBlockDays p < ReadonlyDays p
                  \<and> ReadonlyDays p < CancelDays p)
        then derr dunning_ErrInvalidPolicy
      else Inr ())"

definition StateForDaysPastDue :: "Policy \<Rightarrow> int \<Rightarrow> DState" where
  "StateForDaysPastDue p days =
     (if days \<ge> CancelDays p then StateCancelled
      else if days \<ge> ReadonlyDays p then StateSuspendedFull
      else if days \<ge> OutboundBlockDays p then StateSuspendedOutbound
      else if days \<ge> WarnDays p then StateWarn
      else StateCurrent)"

text \<open>The day a policy enters a state on, for the states above \<open>StateCurrent\<close>.\<close>

fun threshold :: "Policy \<Rightarrow> DState \<Rightarrow> int option" where
  "threshold p StateWarn = Some (WarnDays p)"
| "threshold p StateSuspendedOutbound = Some (OutboundBlockDays p)"
| "threshold p StateSuspendedFull = Some (ReadonlyDays p)"
| "threshold p StateCancelled = Some (CancelDays p)"
| "threshold p s = None"

lemma policy_Validate_ok:
  "policy_Validate p = Inr () \<longleftrightarrow> 0 < WarnDays p \<and> WarnDays p < OutboundBlockDays p
     \<and> OutboundBlockDays p < ReadonlyDays p \<and> ReadonlyDays p < CancelDays p"
  by (auto simp: policy_Validate_def)

lemma DefaultPolicy_valid [simp]: "policy_Validate DefaultPolicy = Inr ()"
  by (simp add: policy_Validate_ok DefaultPolicy_def)

lemma StateForDaysPastDue_known [simp]: "IsKnown (StateForDaysPastDue p days)"
  by (simp add: StateForDaysPastDue_def IsKnown_def)

section \<open>The aggregate\<close>

record Override =
  ov_Until :: time
  ov_Reason :: string

record DunningState =
  ds_id :: uuid
  ds_tenantID :: uuid
  ds_subscriptionID :: uuid
  ds_state :: DState
  ds_enteredStateAt :: time
  ds_lastInvoiceID :: uuid
  ds_overrideUntil :: "time option"
  ds_overrideReason :: string

definition NewDunningState :: "uuid \<Rightarrow> uuid \<Rightarrow> uuid \<Rightarrow> time \<Rightarrow> DunningState dresult" where
  "NewDunningState fresh tenantID subscriptionID now =
     (if tenantID = uuid_nil then derr dunning_ErrZeroTenant
      else if subscriptionID = uuid_nil then derr dunning_ErrZeroSubscription
      else Inr \<lparr>ds_id = fresh, ds_tenantID = tenantID, ds_subscriptionID = subscriptionID,
                ds_state = StateCurrent, ds_enteredStateAt = now, ds_lastInvoiceID = uuid_nil,
                ds_overrideUntil = None, ds_overrideReason = ''''\<rparr>)"

definition HasActiveOverride :: "DunningState \<Rightarrow> time \<Rightarrow> bool" where
  "HasActiveOverride d now = (case ds_overrideUntil d of None \<Rightarrow> False | Some u \<Rightarrow> u > now)"

definition dunning_MarkPaid :: "DunningState \<Rightarrow> time \<Rightarrow> DunningState dresult" where
  "dunning_MarkPaid d now =
     (if ds_state d = StateCancelled then derr dunning_ErrInvalidTransition
      else Inr (d\<lparr>ds_state := StateCurrent, ds_enteredStateAt := now, ds_lastInvoiceID := uuid_nil,
                  ds_overrideUntil := None, ds_overrideReason := ''''\<rparr>))"

text \<open>\<^verbatim>\<open>later.Sub(earlier) / day\<close>: the difference saturates at the largest duration.\<close>

definition daysSince :: "time \<Rightarrow> time \<Rightarrow> int" where
  "daysSince earlier later =
     (if \<not> later > earlier then 0
      else go_div (time_sub later earlier) (24 * 3600 * 1000000000))"

definition Escalate ::
  "DunningState \<Rightarrow> time \<Rightarrow> Policy \<Rightarrow> uuid \<Rightarrow> time \<Rightarrow> Override option \<Rightarrow> (bool \<times> DunningState) dresult" where
  "Escalate d now policy invoiceID dueDate override =
     (case policy_Validate policy of
        Inl e \<Rightarrow> Inl e
      | Inr _ \<Rightarrow>
          if ds_state d = StateCancelled then Inr (False, d)
          else if (case override of None \<Rightarrow> False | Some ov \<Rightarrow> ov_Until ov > now) then Inr (False, d)
          else let days = daysSince dueDate now; target = StateForDaysPastDue policy days in
            if Severity target \<le> Severity (ds_state d) then Inr (False, d)
            else if invoiceID = uuid_nil then derr dunning_ErrZeroInvoice
            else Inr (True, d\<lparr>ds_state := target, ds_enteredStateAt := now, ds_lastInvoiceID := invoiceID\<rparr>))"

definition ApplyOverride :: "DunningState \<Rightarrow> time \<Rightarrow> string \<Rightarrow> time \<Rightarrow> DunningState dresult" where
  "ApplyOverride d until reason now =
     (if ds_state d = StateCancelled then derr dunning_ErrInvalidTransition
      else if length reason < 10 then derr dunning_ErrOverrideReasonTooShort
      else if \<not> until > now then derr dunning_ErrOverrideUntilInPast
      else let d' = d\<lparr>ds_overrideUntil := Some until, ds_overrideReason := reason\<rparr> in
        if ds_state d \<noteq> StateCurrent
        then Inr (d'\<lparr>ds_state := StateCurrent, ds_enteredStateAt := now, ds_lastInvoiceID := uuid_nil\<rparr>)
        else Inr d')"

definition ClearOverride :: "DunningState \<Rightarrow> DunningState" where
  "ClearOverride d = d\<lparr>ds_overrideUntil := None, ds_overrideReason := ''''\<rparr>"

section \<open>The lifecycle\<close>

text \<open>One mutation of the aggregate, by any caller, at any time, under any policy.\<close>

inductive dunning_step :: "DunningState \<Rightarrow> DunningState \<Rightarrow> bool" where
  step_paid: "dunning_MarkPaid d now = Inr d' \<Longrightarrow> dunning_step d d'"
| step_escalate: "Escalate d now p iid due ov = Inr (moved, d') \<Longrightarrow> dunning_step d d'"
| step_override: "ApplyOverride d until reason now = Inr d' \<Longrightarrow> dunning_step d d'"
| step_clear: "d' = ClearOverride d \<Longrightarrow> dunning_step d d'"

inductive_cases dunning_stepE: "dunning_step d d'"

inductive dunning_reach :: "DunningState \<Rightarrow> DunningState \<Rightarrow> bool" where
  reach_start: "dunning_reach d d"
| reach_step: "dunning_reach d d' \<Longrightarrow> dunning_step d' d'' \<Longrightarrow> dunning_reach d d''"

text \<open>
  The invariant of the aggregate: a canonical state, an override that is set with a reason or
  clear without one, and an invoice exactly when the state is above \<open>StateCurrent\<close>.
\<close>

definition dunning_ok :: "DunningState \<Rightarrow> bool" where
  "dunning_ok d \<longleftrightarrow> ds_tenantID d \<noteq> uuid_nil \<and> ds_subscriptionID d \<noteq> uuid_nil \<and> IsKnown (ds_state d) \<and>
     (case ds_overrideUntil d of None \<Rightarrow> ds_overrideReason d = ''''
        | Some _ \<Rightarrow> 10 \<le> length (ds_overrideReason d)) \<and>
     (ds_lastInvoiceID d = uuid_nil \<longleftrightarrow> ds_state d = StateCurrent)"

named_theorems dunning_ops "the definitions of the operations of the aggregate"

lemmas [dunning_ops] = dunning_MarkPaid_def Escalate_def ApplyOverride_def ClearOverride_def

lemma StateForDaysPastDue_escalates:
  "\<not> Severity (StateForDaysPastDue p days) \<le> Severity s \<Longrightarrow> IsKnown s \<Longrightarrow>
   StateForDaysPastDue p days \<noteq> StateCurrent"
  by (auto simp: IsKnown_def)

lemma dunning_step_ok: "dunning_step d d' \<Longrightarrow> dunning_ok d \<Longrightarrow> dunning_ok d'"
  by (erule dunning_stepE)
    (auto simp: dunning_ops dunning_ok_def Let_def StateForDaysPastDue_escalates IsKnown_def
      split: if_splits sum.splits option.splits)

lemma dunning_step_frame:
  "dunning_step d d' \<Longrightarrow> ds_id d' = ds_id d \<and> ds_tenantID d' = ds_tenantID d
     \<and> ds_subscriptionID d' = ds_subscriptionID d"
  by (erule dunning_stepE) (auto simp: dunning_ops Let_def split: if_splits sum.splits)

lemma dunning_step_cancelled: "dunning_step d d' \<Longrightarrow> ds_state d = StateCancelled \<Longrightarrow>
    ds_state d' = StateCancelled \<and> ds_lastInvoiceID d' = ds_lastInvoiceID d \<and> ds_enteredStateAt d' = ds_enteredStateAt d"
  by (erule dunning_stepE) (auto simp: dunning_ops Let_def split: if_splits sum.splits)

lemma dunning_reach_ok: "dunning_reach d d' \<Longrightarrow> dunning_ok d \<Longrightarrow> dunning_ok d'"
  by (induction rule: dunning_reach.induct) (auto intro: dunning_step_ok)

lemma dunning_reach_frame:
  "dunning_reach d d' \<Longrightarrow> ds_id d' = ds_id d \<and> ds_tenantID d' = ds_tenantID d
     \<and> ds_subscriptionID d' = ds_subscriptionID d"
  by (induction rule: dunning_reach.induct) (auto dest: dunning_step_frame)

lemma dunning_reach_cancelled: "dunning_reach d d' \<Longrightarrow> ds_state d = StateCancelled \<Longrightarrow> ds_state d' = StateCancelled"
  by (induction rule: dunning_reach.induct) (auto dest: dunning_step_cancelled)

section \<open>Properties of the aggregate\<close>

text \<open>
  The dunning aggregate keeps its invariant in every history: from a fresh row, whatever
  payments, escalations (under any policy), overrides and clearings happen, the state is canonical, the
  override is set with a reason of ten bytes or clear, the row names an invoice exactly when it is above
  \<open>StateCurrent\<close>, its identity never changes, and once cancelled it stays cancelled.
\<close>

theorem dunning_lifecycle:
  assumes "NewDunningState fresh tenantID subscriptionID t0 = Inr d0" and "dunning_reach d0 d"
  shows "dunning_ok d \<and> ds_id d = fresh \<and> ds_tenantID d = tenantID \<and> ds_subscriptionID d = subscriptionID \<and>
    (\<forall>d'. dunning_reach d d' \<longrightarrow> ds_state d = StateCancelled \<longrightarrow> ds_state d' = StateCancelled)"
proof -
  have "dunning_ok d0" "ds_id d0 = fresh" "ds_tenantID d0 = tenantID" "ds_subscriptionID d0 = subscriptionID"
    using assms(1) by (auto simp: NewDunningState_def dunning_ok_def IsKnown_def split: if_splits)
  then show ?thesis
    using assms(2) dunning_reach_ok dunning_reach_frame dunning_reach_cancelled by auto
qed

definition dunning_ex :: "DState \<Rightarrow> uuid \<Rightarrow> DunningState" where
  "dunning_ex s iid = \<lparr>ds_id = 50, ds_tenantID = 7, ds_subscriptionID = 30, ds_state = s, ds_enteredStateAt = 0,
     ds_lastInvoiceID = iid, ds_overrideUntil = None, ds_overrideReason = ''''\<rparr>"

theorem dunning_lifecycle_witness:
  "dunning_ok ((dunning_ex StateWarn 40)\<lparr>ds_enteredStateAt := 86400000000000\<rparr>)"
proof -
  let ?d = "dunning_ex StateCurrent 0"
  let ?d' = "(dunning_ex StateWarn 40)\<lparr>ds_enteredStateAt := 86400000000000\<rparr>"
  have "Escalate ?d 86400000000000 DefaultPolicy 40 0 None = Inr (True, ?d')"
    by (simp add: Escalate_def dunning_ex_def daysSince_def time_sub_def go_div_def i64 DefaultPolicy_def
        policy_Validate_def StateForDaysPastDue_def)
  then have "dunning_reach ?d ?d'" by (blast intro: dunning_reach.intros dunning_step.intros)
  moreover have "NewDunningState 50 7 30 0 = Inr ?d" by (simp add: NewDunningState_def dunning_ex_def)
  ultimately show ?thesis using dunning_lifecycle by blast
qed

lemma daysSince_ge:
  assumes "0 < n" and "n \<le> 106751"
  shows "n \<le> daysSince due now \<longleftrightarrow> n * 86400000000000 \<le> now - due"
proof (cases "now > due")
  case True
  have m: "(n \<le> x div 86400000000000) = (n * 86400000000000 \<le> x)" for x :: int
    using div_mult_mod_eq [of x 86400000000000] pos_mod_sign [of 86400000000000 x]
      pos_mod_bound [of 86400000000000 x] by linarith
  have "n \<le> daysSince due now \<longleftrightarrow> n \<le> time_sub now due div 86400000000000"
    using True by (simp add: daysSince_def time_sub_def go_div_nonneg i64)
  also have "\<dots> \<longleftrightarrow> n * 86400000000000 \<le> time_sub now due" by (rule m)
  also have "\<dots> \<longleftrightarrow> n * 86400000000000 \<le> now - due"
    by (rule time_sub_ge_iff) (use assms in \<open>simp_all add: i64\<close>)
  finally show ?thesis .
next
  case False
  then show ?thesis using assms by (simp add: daysSince_def)
qed

lemma StateForDaysPastDue_threshold:
  assumes "policy_Validate p = Inr ()" and "threshold p t = Some n"
  shows "t \<le> StateForDaysPastDue p days \<longleftrightarrow> n \<le> days"
  using assms by (cases t) (auto simp: policy_Validate_ok StateForDaysPastDue_def severity_order)

lemma threshold_bounds:
  assumes "policy_Validate p = Inr ()" and "threshold p t = Some n"
  shows "0 < n \<and> n \<le> CancelDays p"
  using assms by (cases t) (auto simp: policy_Validate_ok)

lemma Escalate_schedule:
  assumes p: "policy_Validate p = Inr ()" "CancelDays p \<le> 106751"
    and d: "ds_state d \<noteq> StateCancelled" and iid: "iid \<noteq> uuid_nil"
    and ov: "\<forall>v. ov = Some v \<longrightarrow> ov_Until v \<le> now"
  shows "\<exists>moved d'. Escalate d now p iid due ov = Inr (moved, d') \<and>
    (\<forall>t n. threshold p t = Some n \<longrightarrow>
       (t \<le> ds_state d' \<longleftrightarrow> t \<le> ds_state d \<or> n * 86400000000000 \<le> now - due)) \<and>
    (if moved then ds_state d < ds_state d' \<and> ds_lastInvoiceID d' = iid \<and> ds_enteredStateAt d' = now else d' = d)"
proof -
  let ?t = "StateForDaysPastDue p (daysSince due now)"
  let ?moved = "\<not> Severity ?t \<le> Severity (ds_state d)"
  let ?d' = "if ?moved then d\<lparr>ds_state := ?t, ds_enteredStateAt := now, ds_lastInvoiceID := iid\<rparr> else d"
  have ov': "\<not> (case ov of None \<Rightarrow> False | Some v \<Rightarrow> ov_Until v > now)"
    using ov by (auto split: option.splits)
  have E: "Escalate d now p iid due ov = Inr (?moved, ?d')"
    using p(1) d iid ov' by (simp add: Escalate_def Let_def)
  have "(t \<le> ds_state ?d' \<longleftrightarrow> t \<le> ds_state d \<or> n * 86400000000000 \<le> now - due)"
    if t: "threshold p t = Some n" for t n
  proof -
    have "n * 86400000000000 \<le> now - due \<longleftrightarrow> t \<le> ?t"
      using threshold_bounds [OF p(1) t] p(2) daysSince_ge [of n due now]
        StateForDaysPastDue_threshold [OF p(1) t, of "daysSince due now"] by auto
    then show ?thesis by (auto simp: severity_order)
  qed
  then show ?thesis using E by (intro exI [of _ ?moved] exI [of _ ?d']) (auto simp: severity_order)
qed

text \<open>
  Escalation follows the schedule exactly: under a valid policy and with no live override, a
  row that is not cancelled ends at or above a state exactly when it was there before or the due
  date is at least the state's number of days ago. It never steps down, and it records the
  invoice and the time exactly when it moves. (The thresholds are below 106751 days, the
  longest duration Go represents.)
\<close>

theorem escalation_follows_schedule:
  assumes p: "policy_Validate p = Inr ()" "CancelDays p \<le> 106751"
    and d: "ds_state d \<noteq> StateCancelled" and iid: "iid \<noteq> uuid_nil"
    and ov: "\<forall>v. ov = Some v \<longrightarrow> ov_Until v \<le> now"
  shows "\<exists>moved d'. Escalate d now p iid due ov = Inr (moved, d') \<and>
    (\<forall>t n. threshold p t = Some n \<longrightarrow>
       (t \<le> ds_state d' \<longleftrightarrow> t \<le> ds_state d \<or> n * 86400000000000 \<le> now - due)) \<and>
    (if moved then ds_state d < ds_state d' \<and> ds_lastInvoiceID d' = iid \<and> ds_enteredStateAt d' = now else d' = d)"
  using Escalate_schedule [OF assms] .

theorem escalation_follows_schedule_witness:
  "\<exists>moved d'. Escalate (dunning_ex StateWarn 40) (31 * 86400000000000) DefaultPolicy 40 0 None = Inr (moved, d') \<and>
     StateSuspendedFull \<le> ds_state d' \<and> \<not> StateCancelled \<le> ds_state d'"
proof -
  have "\<exists>moved d'. Escalate (dunning_ex StateWarn 40) (31 * 86400000000000) DefaultPolicy 40 0 None = Inr (moved, d') \<and>
    (\<forall>t n. threshold DefaultPolicy t = Some n \<longrightarrow> (t \<le> ds_state d' \<longleftrightarrow>
       t \<le> ds_state (dunning_ex StateWarn 40) \<or> n * 86400000000000 \<le> 31 * 86400000000000 - 0)) \<and>
    (if moved then ds_state (dunning_ex StateWarn 40) < ds_state d' \<and> ds_lastInvoiceID d' = 40
       \<and> ds_enteredStateAt d' = 31 * 86400000000000 else d' = dunning_ex StateWarn 40)"
    by (rule escalation_follows_schedule) (simp_all add: DefaultPolicy_def dunning_ex_def policy_Validate_ok)
  then obtain moved d' where d': "Escalate (dunning_ex StateWarn 40) (31 * 86400000000000) DefaultPolicy 40 0 None = Inr (moved, d')"
    and t: "\<And>t n. threshold DefaultPolicy t = Some n \<Longrightarrow> (t \<le> ds_state d' \<longleftrightarrow>
       t \<le> ds_state (dunning_ex StateWarn 40) \<or> n * 86400000000000 \<le> 31 * 86400000000000 - 0)" by blast
  show ?thesis using d' t [of StateSuspendedFull 30] t [of StateCancelled 90]
    by (auto simp: DefaultPolicy_def dunning_ex_def severity_order)
qed

end
