(* ===== verification/DunningStore.thy ===== *)
theory DunningStore
  imports Dunning BillingStore
begin

text \<open>
  The Postgres adapter of dunning, \<^verbatim>\<open>src/internal/adapter/db/postgres/dunning\<close>, over table
  \<^verbatim>\<open>subscription_dunning_states\<close> of migration 0102, the courtesy lookup over \<^verbatim>\<open>master_grant\<close>, and the
  hourly worker \<^verbatim>\<open>src/internal/worker/dunning\<close>. A row of the table is a \<open>DunningState\<close>: the
  NULL of \<^verbatim>\<open>last_invoice_id\<close> is \<open>uuid_nil\<close>, that of \<^verbatim>\<open>override_reason\<close> the empty string, as
  \<^verbatim>\<open>scanDunningState\<close> and \<^verbatim>\<open>Save\<close> translate them. The worker is a program whose calls are those of its
  ports, so that it can be interleaved with other writers of the table. Logging and the latency
  histogram are left out; the state gauge and the counted transitions are the worker's result.
\<close>

section \<open>The table\<close>

record dunning_db = crm_db +
  subscription_dunning_states :: "DunningState list"

type_synonym 'a dprog = "(dunning_db, call_env, 'a) prog"

definition override_consistency :: "DunningState \<Rightarrow> bool" where
  "override_consistency d =
     (case ds_overrideUntil d of None \<Rightarrow> ds_overrideReason d = ''''
      | Some _ \<Rightarrow> ds_overrideReason d \<noteq> '''' \<and> char_length (ds_overrideReason d) \<ge> 10)"

definition dunning_checks :: "dunning_db \<Rightarrow> DunningState \<Rightarrow> bool" where
  "dunning_checks db d \<longleftrightarrow> IsKnown (ds_state d) \<and> override_consistency d \<and>
     (ds_lastInvoiceID d = uuid_nil \<or> (\<exists>i \<in> set (invoice db). inv_id i = ds_lastInvoiceID d))"

definition GetBySubscription :: "dunning_db \<Rightarrow> uuid \<Rightarrow> DunningState dresult" where
  "GetBySubscription db subscriptionID =
     (if subscriptionID = uuid_nil then derr dunning_ErrZeroSubscription
      else case find (\<lambda>d. ds_subscriptionID d = subscriptionID) (subscription_dunning_states db) of
             None \<Rightarrow> derr dunning_ErrNotFound
           | Some d \<Rightarrow> Inr d)"

text \<open>\<^verbatim>\<open>Save\<close>: INSERT, or on a conflict of \<^verbatim>\<open>subscription_id\<close> the UPDATE of the listed columns.\<close>

definition dunning_Save :: "dunning_db \<Rightarrow> DunningState \<Rightarrow> uuid \<Rightarrow> (unit \<times> dunning_db) dresult" where
  "dunning_Save db d actorID =
     (let rows = subscription_dunning_states db; failed = (\<lambda>m. Inl (Wrapped ''dunning/postgres: save'' (Opaque m))) in
      if actorID = uuid_nil then Inl (Opaque ''postgres: actor id must not be uuid.Nil'')
      else if \<not> dunning_checks db d then failed ''check violation''
      else if \<exists>x \<in> set rows. ds_subscriptionID x = ds_subscriptionID d then
        Inr ((), db\<lparr>subscription_dunning_states :=
          map (\<lambda>x. if ds_subscriptionID x = ds_subscriptionID d
                   then x\<lparr>ds_state := ds_state d, ds_enteredStateAt := ds_enteredStateAt d,
                          ds_lastInvoiceID := ds_lastInvoiceID d, ds_overrideUntil := ds_overrideUntil d,
                          ds_overrideReason := ds_overrideReason d\<rparr>
                   else x) rows\<rparr>)
      else if \<not> (\<exists>s \<in> set (subscription db). sub_id s = ds_subscriptionID d) then failed ''foreign key violation''
      else if \<exists>x \<in> set rows. ds_id x = ds_id d then failed ''primary key violation''
      else Inr ((), db\<lparr>subscription_dunning_states := rows @ [d]\<rparr>))"

text \<open>\<^verbatim>\<open>CurrentForTenant\<close> runs under the tenant's policies, which hide other tenants' subscriptions.\<close>

definition CurrentForTenant :: "dunning_db \<Rightarrow> uuid \<Rightarrow> DunningState dresult" where
  "CurrentForTenant db tenantID =
     (if tenantID = uuid_nil then derr dunning_ErrZeroTenant
      else case find (\<lambda>d. ds_tenantID d = tenantID \<and>
                  (\<exists>s \<in> set (subscription db). sub_id s = ds_subscriptionID d \<and> sub_tenantID s = tenantID
                     \<and> sub_status s = SubscriptionStatusActive)) (subscription_dunning_states db) of
             None \<Rightarrow> derr dunning_ErrNotFound
           | Some d \<Rightarrow> Inr d)"

section \<open>Candidates\<close>

record PendingInvoice =
  pi_ID :: uuid
  pi_PeriodStart :: time

record Candidate =
  cd_Row :: DunningState
  cd_SubscriptionID :: uuid
  cd_TenantID :: uuid
  cd_PlanID :: uuid
  cd_Pending :: "PendingInvoice option"

text \<open>The lateral subquery: the oldest pending invoice of the subscription.\<close>

definition oldest_pending :: "Invoice list \<Rightarrow> uuid \<Rightarrow> PendingInvoice option" where
  "oldest_pending invs subID =
     (case sort_key inv_periodStart
             (filter (\<lambda>i. inv_subscriptionID i = subID \<and> inv_state i = InvoiceStatePending) invs) of
        [] \<Rightarrow> None
      | i # _ \<Rightarrow> Some \<lparr>pi_ID = inv_id i, pi_PeriodStart = inv_periodStart i\<rparr>)"

definition candidate :: "dunning_db \<Rightarrow> DunningState \<Rightarrow> Subscription \<Rightarrow> Candidate" where
  "candidate db d s = \<lparr>cd_Row = d, cd_SubscriptionID = ds_subscriptionID d, cd_TenantID = ds_tenantID d,
     cd_PlanID = sub_planID s, cd_Pending = oldest_pending (invoice db) (ds_subscriptionID d)\<rparr>"

definition ListCandidates :: "dunning_db \<Rightarrow> time \<Rightarrow> int \<Rightarrow> Candidate list dresult" where
  "ListCandidates db asOf limit0 =
     (let limit = (if limit0 \<le> 0 then 200 else nat limit0);
          scanned = filter (\<lambda>d. ds_state d \<in> {StateCurrent, StateWarn, StateSuspendedOutbound, StateSuspendedFull})
                        (subscription_dunning_states db);
          joined = concat (map (\<lambda>d. map (candidate db d)
                     (filter (\<lambda>s. sub_id s = ds_subscriptionID d \<and> sub_status s = SubscriptionStatusActive)
                        (subscription db))) scanned)
      in Inr (take limit (sort_key (\<lambda>c. ds_enteredStateAt (cd_Row c)) joined)))"

section \<open>The courtesy lookup\<close>

text \<open>\<^verbatim>\<open>t.AddDate(0, n, 0)\<close>.\<close>

definition add_months :: "time \<Rightarrow> int \<Rightarrow> time" where
  "add_months t n = (let d = t div day_ns; k = month_of d
     in (month_start (k + n) + (d - month_start k)) * day_ns + t mod day_ns)"

text \<open>
  \<^verbatim>\<open>DecodeMonths\<close> unmarshals the stored JSON document, whose numbers all decode to \<^verbatim>\<open>float64\<close>; the
  \<^verbatim>\<open>int\<close> branch of the type switch is therefore unreachable and takes the same decision.
\<close>


definition DecodeMonths :: "(string \<times> any) list \<Rightarrow> int option" where
  "DecodeMonths payload =
     (case map_of payload ''months'' of
        None \<Rightarrow> None
      | Some raw \<Rightarrow>
          (case json_decoded raw of
             AnyFloat v \<Rightarrow> if v \<le> 0 \<or> v > 120 then None else Some (go_int64 v)
           | AnyInt v \<Rightarrow> if v \<le> 0 \<or> v > 120 then None else Some v
           | AnyOther \<Rightarrow> None))"

fun first_live :: "time \<Rightarrow> MasterGrant list \<Rightarrow> Override dresult" where
  "first_live now [] = derr dunning_ErrNoActiveOverride"
| "first_live now (g # gs) =
     (case DecodeMonths (mg_payload g) of
        None \<Rightarrow> first_live now gs
      | Some months \<Rightarrow>
          let until = add_months (mg_createdAt g) months in
          if until > now then Inr \<lparr>ov_Until = until, ov_Reason = mg_reason g\<rparr> else first_live now gs)"

definition ActiveFor :: "dunning_db \<Rightarrow> uuid \<Rightarrow> time \<Rightarrow> Override dresult" where
  "ActiveFor db tenantID now =
     (if tenantID = uuid_nil then derr dunning_ErrZeroTenant
      else first_live now (take 16 (sort_key (\<lambda>g. - mg_createdAt g)
             (filter (\<lambda>g. mg_tenantID g = tenantID \<and> mg_kind g = KindFreeSubscriptionPeriod \<and> mg_revokedAt g = None)
                (master_grant db)))))"

section \<open>The worker\<close>

record dunning_worker =
  dw_policy :: "uuid \<Rightarrow> Policy"
  dw_actorID :: uuid
  dw_tickEvery :: duration
  dw_batchSize :: int

definition DefaultPolicyResolver :: "uuid \<Rightarrow> Policy" where
  "DefaultPolicyResolver planID = DefaultPolicy"

text \<open>\<^verbatim>\<open>New\<close> on the Postgres ports; a nil policy resolver is \<open>None\<close>.\<close>

definition new_dunning_worker ::
  "(uuid \<Rightarrow> Policy) option \<Rightarrow> uuid \<Rightarrow> duration \<Rightarrow> int \<Rightarrow> dunning_worker dresult" where
  "new_dunning_worker policy actorID tickEvery batchSize =
     (if actorID = uuid_nil then Inl (Opaque ''dunning: ActorID is required (non-zero UUID)'')
      else Inr \<lparr>dw_policy = (case policy of None \<Rightarrow> DefaultPolicyResolver | Some p \<Rightarrow> p),
                dw_actorID = actorID,
                dw_tickEvery = (if tickEvery \<le> 0 then 3600 * 1000000000 else tickEvery),
                dw_batchSize = (if batchSize \<le> 0 then 200 else batchSize)\<rparr>)"

definition needsOverrideRefresh :: "DunningState \<Rightarrow> Override \<Rightarrow> time \<Rightarrow> bool" where
  "needsOverrideRefresh row live now =
     (if \<not> ov_Until live > now then False
      else case ds_overrideUntil row of None \<Rightarrow> True | Some stored \<Rightarrow> stored \<noteq> ov_Until live)"

definition lookupOverride :: "uuid \<Rightarrow> time \<Rightarrow> (Override option dresult \<Rightarrow> 'a dprog) \<Rightarrow> 'a dprog" where
  "lookupOverride tenantID now k =
     query (\<lambda>db. ActiveFor db tenantID now) (\<lambda>r. case r of
       Inl e \<Rightarrow> if errors_is e dunning_ErrNoActiveOverride then k (Inr None) else k (Inl e)
     | Inr ov \<Rightarrow> k (Inr (Some ov)))"

type_synonym evaluated = "(DState \<times> DState) option \<times> DunningState"

text \<open>
  The end every branch of \<^verbatim>\<open>evaluate\<close> shares: the mutated row is saved; a failed save leaves the mutation in
  memory and counts no transition.
\<close>

definition save_row :: "dunning_worker \<Rightarrow> DunningState \<Rightarrow> (DState \<times> DState) option \<Rightarrow> evaluated dprog" where
  "save_row w row transition =
     command (\<lambda>ev db. dunning_Save db row (dw_actorID w)) (\<lambda>r. case r of
       Inl _ \<Rightarrow> Ret (None, row)
     | Inr _ \<Rightarrow> Ret (transition, row))"

definition dunning_evaluate :: "dunning_worker \<Rightarrow> Candidate \<Rightarrow> time \<Rightarrow> evaluated dprog" where
  "dunning_evaluate w c now =
     lookupOverride (cd_TenantID c) now (\<lambda>looked.
       let row = cd_Row c; from = ds_state row;
           override = (case looked of Inl _ \<Rightarrow> None | Inr ov \<Rightarrow> ov)
       in case (case override of None \<Rightarrow> None
                | Some ov \<Rightarrow> if needsOverrideRefresh row ov now then Some ov else None) of
            Some ov \<Rightarrow>
              (case ApplyOverride row (ov_Until ov) (ov_Reason ov) now of
                 Inl _ \<Rightarrow> Ret (None, row)
               | Inr row' \<Rightarrow> save_row w row' (if from \<noteq> StateCurrent then Some (from, StateCurrent) else None))
          | None \<Rightarrow>
              (case cd_Pending c of
                 None \<Rightarrow>
                   if from = StateCurrent then Ret (None, row)
                   else (case dunning_MarkPaid row now of
                           Inl _ \<Rightarrow> Ret (None, row)
                         | Inr row' \<Rightarrow> save_row w row' (Some (from, StateCurrent)))
               | Some pending \<Rightarrow>
                   (case Escalate row now (dw_policy w (cd_PlanID c)) (pi_ID pending) (pi_PeriodStart pending) override of
                      Inl _ \<Rightarrow> Ret (None, row)
                    | Inr (moved, row') \<Rightarrow>
                        if \<not> moved then Ret (None, row')
                        else save_row w row' (Some (from, ds_state row')))))"

fun evaluate_all :: "dunning_worker \<Rightarrow> time \<Rightarrow> Candidate list \<Rightarrow> evaluated list \<Rightarrow> evaluated list dprog" where
  "evaluate_all w now [] acc = Ret acc"
| "evaluate_all w now (c # cs) acc =
     bind_prog (dunning_evaluate w c now) (\<lambda>e. evaluate_all w now cs (acc @ [e]))"

definition publishStateGauge :: "DunningState list \<Rightarrow> (DState \<times> nat) list" where
  "publishStateGauge rows = map (\<lambda>s. (s, length (filter (\<lambda>r. ds_state r = s) rows)))
     [StateCurrent, StateWarn, StateSuspendedOutbound, StateSuspendedFull, StateCancelled]"

record tick_report =
  tr_transitions :: "(DState \<times> DState) list"
  tr_gauge :: "(DState \<times> nat) list"

definition report :: "evaluated list \<Rightarrow> tick_report" where
  "report es = \<lparr>tr_transitions = concat (map (\<lambda>e. case fst e of None \<Rightarrow> [] | Some t \<Rightarrow> [t]) es),
                tr_gauge = publishStateGauge (map snd es)\<rparr>"

definition dunning_Tick :: "dunning_worker \<Rightarrow> tick_report dresult dprog" where
  "dunning_Tick w =
     read_clock (\<lambda>now.
       query (\<lambda>db. ListCandidates db now (dw_batchSize w)) (\<lambda>r. case r of
         Inl e \<Rightarrow> Ret (Inl (Wrapped ''list candidates'' e))
       | Inr cs \<Rightarrow> bind_prog (evaluate_all w now cs []) (\<lambda>es. Ret (Inr (report es)))))"

text \<open>\<^verbatim>\<open>OnPaymentConfirmed\<close> with the store's \<^verbatim>\<open>GetBySubscription\<close> as its loader.\<close>

definition OnPaymentConfirmed :: "dunning_worker \<Rightarrow> uuid \<Rightarrow> (DState \<times> DState) option dresult dprog" where
  "OnPaymentConfirmed w subscriptionID =
     (if subscriptionID = uuid_nil then Ret (derr dunning_ErrZeroSubscription)
      else query (\<lambda>db. GetBySubscription db subscriptionID) (\<lambda>r. case r of
        Inl e \<Rightarrow> Ret (Inl e)
      | Inr row \<Rightarrow>
          let from = ds_state row in
          read_clock (\<lambda>now. case dunning_MarkPaid row now of
            Inl e \<Rightarrow> Ret (Inl e)
          | Inr row' \<Rightarrow>
              command (\<lambda>ev db. dunning_Save db row' (dw_actorID w)) (\<lambda>r. case r of
                Inl e \<Rightarrow> Ret (Inl (Wrapped ''dunning.worker: save mark-paid'' e))
              | Inr _ \<Rightarrow> Ret (Inr (if from \<noteq> StateCurrent then Some (from, StateCurrent) else None))))))"

end
