(* ===== verification/KeyedTable.thy ===== *)
theory KeyedTable
  imports CRM_Prelude
begin

text \<open>
  The contract of a table with an upsert: a row is found under its key, \<^verbatim>\<open>Save\<close> of a row inserts it or
  updates the columns of the row with its key, and changes neither another row nor the rest of
  the store. The clients of such a table (the dunning worker, the payment reconciler) reason
  about the rows they do not write with the lemmas proved here.
\<close>

locale keyed_table =
  fixes key :: "'r \<Rightarrow> 'k" and lookup :: "'s \<Rightarrow> 'k \<Rightarrow> 'r option"
    and save :: "'s \<Rightarrow> 'r \<Rightarrow> ('e, unit \<times> 's) result"
    and rest :: "'s \<Rightarrow> 'c" and upd :: "'r \<Rightarrow> 'r \<Rightarrow> 'r"
  assumes lookup_save: "save s r = Inr (u, s') \<Longrightarrow>
      lookup s' k = (if k = key r then Some (case lookup s k of None \<Rightarrow> r | Some old \<Rightarrow> upd old r) else lookup s k)"
    and rest_save: "save s r = Inr (u, s') \<Longrightarrow> rest s' = rest s"
begin

text \<open>\<open>touches K s s'\<close>: between \<open>s\<close> and \<open>s'\<close> at most the rows with a key in \<open>K\<close> differ.\<close>

definition touches :: "'k set \<Rightarrow> 's \<Rightarrow> 's \<Rightarrow> bool" where
  "touches K s s' \<longleftrightarrow> rest s' = rest s \<and> (\<forall>k. k \<notin> K \<longrightarrow> lookup s' k = lookup s k)"

lemma touches_refl [intro, simp]: "touches K s s"
  by (simp add: touches_def)

lemma touches_trans: "touches K s s' \<Longrightarrow> touches L s' s'' \<Longrightarrow> touches (K \<union> L) s s''"
  by (simp add: touches_def)

lemma touches_mono: "touches K s s' \<Longrightarrow> K \<subseteq> L \<Longrightarrow> touches L s s'"
  by (auto simp: touches_def)

lemma touches_save: "save s r = Inr (u, s') \<Longrightarrow> key r \<in> K \<Longrightarrow> touches K s s'"
  by (auto simp: touches_def lookup_save rest_save)

lemma touches_lookup: "touches K s s' \<Longrightarrow> k \<notin> K \<Longrightarrow> lookup s' k = lookup s k"
  by (simp add: touches_def)

lemma touches_rest: "touches K s s' \<Longrightarrow> rest s' = rest s"
  by (simp add: touches_def)

lemma lookup_own: "save s r = Inr (u, s') \<Longrightarrow> lookup s (key r) = Some old \<Longrightarrow> lookup s' (key r) = Some (upd old r)"
  by (simp add: lookup_save)

end

text \<open>A list of rows with distinct keys, and the upsert on it.\<close>

definition find_key :: "('r \<Rightarrow> 'k) \<Rightarrow> 'k \<Rightarrow> 'r list \<Rightarrow> 'r option" where
  "find_key key k rows = find (\<lambda>r. key r = k) rows"

lemma find_key_update:
  assumes "\<And>x. key (f x) = key x"
  shows "find_key key k (map (\<lambda>x. if key x = k0 then f x else x) rows) =
    (if k = k0 then map_option f (find_key key k rows) else find_key key k rows)"
  by (induction rows) (auto simp: find_key_def assms)

lemma find_key_append: "find_key key k (rows @ [r]) =
    (case find_key key k rows of None \<Rightarrow> if key r = k then Some r else None | Some x \<Rightarrow> Some x)"
  by (induction rows) (auto simp: find_key_def)

lemma find_key_None: "find_key key k rows = None \<longleftrightarrow> (\<forall>r \<in> set rows. key r \<noteq> k)"
  by (auto simp: find_key_def find_None_iff)

lemma find_key_SomeD: "find_key key k rows = Some r \<Longrightarrow> r \<in> set rows \<and> key r = k"
  by (auto simp: find_key_def dest: find_SomeD)

lemma find_key_distinct:
  assumes "distinct (map key rows)" and "r \<in> set rows"
  shows "find_key key (key r) rows = Some r"
  using assms by (induction rows) (auto simp: find_key_def)

definition upsert :: "('r \<Rightarrow> 'k) \<Rightarrow> ('r \<Rightarrow> 'r \<Rightarrow> 'r) \<Rightarrow> 'r \<Rightarrow> 'r list \<Rightarrow> 'r list" where
  "upsert key upd r rows =
     (if \<exists>x \<in> set rows. key x = key r then map (\<lambda>x. if key x = key r then upd x r else x) rows else rows @ [r])"

lemma find_key_upsert:
  assumes "\<And>x. key (upd x r) = key x"
  shows "find_key key k (upsert key upd r rows) =
    (if k = key r then Some (case find_key key k rows of None \<Rightarrow> r | Some old \<Rightarrow> upd old r) else find_key key k rows)"
proof (cases "find_key key (key r) rows")
  case None
  then have "upsert key upd r rows = rows @ [r]" by (auto simp: upsert_def find_key_None)
  then show ?thesis using None by (auto simp: find_key_append split: option.splits)
next
  case (Some old)
  then have "upsert key upd r rows = map (\<lambda>x. if key x = key r then upd x r else x) rows"
    by (auto simp: upsert_def dest: find_key_SomeD)
  then show ?thesis using Some assms by (auto simp: find_key_update [of key "\<lambda>x. upd x r"])
qed

end
