(* ===== verification/DunningProps.thy ===== *)
theory DunningProps
  imports DunningStore KeyedTable
begin

text \<open>
  What the dunning worker does to the table: which rows a tick can touch under any fault, that a
  tick brings every row it lists to the schedule, and two consequences of the way it lists and saves.
\<close>

section \<open>The dunning table as a keyed table\<close>

abbreviation dunning_row :: "dunning_db \<Rightarrow> uuid \<Rightarrow> DunningState option" where
  "dunning_row db sid \<equiv> find_key ds_subscriptionID sid (subscription_dunning_states db)"

definition saved_columns :: "DunningState \<Rightarrow> DunningState \<Rightarrow> DunningState" where
  "saved_columns x d = x\<lparr>ds_state := ds_state d, ds_enteredStateAt := ds_enteredStateAt d,
     ds_lastInvoiceID := ds_lastInvoiceID d, ds_overrideUntil := ds_overrideUntil d,
     ds_overrideReason := ds_overrideReason d\<rparr>"

lemma saved_columns_key [simp]: "ds_subscriptionID (saved_columns x d) = ds_subscriptionID x"
  by (simp add: saved_columns_def)

lemma saved_columns_sel [simp]:
  "ds_state (saved_columns x d) = ds_state d" "ds_lastInvoiceID (saved_columns x d) = ds_lastInvoiceID d"
  by (simp_all add: saved_columns_def)

lemma dunning_Save_upsert:
  assumes "dunning_Save db d a = Inr (u, db')"
  shows "db' = db\<lparr>subscription_dunning_states :=
    upsert ds_subscriptionID saved_columns d (subscription_dunning_states db)\<rparr>"
  using assms by (auto simp: dunning_Save_def Let_def saved_columns_def upsert_def split: if_splits)

interpretation dt: keyed_table ds_subscriptionID dunning_row "\<lambda>db d. dunning_Save db d a" crm_db.truncate saved_columns
  for a :: uuid
  by unfold_locales (auto simp: dunning_Save_upsert find_key_upsert crm_db.defs dest!: dunning_Save_upsert)

text \<open>The rest of the store as the reads of the worker see it.\<close>

lemma same_rest:
  assumes "crm_db.truncate db' = crm_db.truncate (db :: dunning_db)"
  shows "invoice db' = invoice db" "subscription db' = subscription db" "master_grant db' = master_grant db"
    "ActiveFor db' t now = ActiveFor db t now"
  using assms by (auto simp: crm_db.defs ActiveFor_def)

section \<open>One candidate\<close>

definition saves_only :: "uuid \<Rightarrow> 'a dprog \<Rightarrow> bool" where
  "saves_only sid p \<longleftrightarrow> (\<forall>os n db. dt.touches {sid} db (snd (snd (run p os n db))))"

lemma saves_only_Ret [simp]: "saves_only sid (Ret x)"
  by (simp add: saves_only_def)

lemma save_row_only: "ds_subscriptionID row = sid \<Longrightarrow> saves_only sid (save_row w row t)"
  by (auto simp: saves_only_def save_row_def split: fault.splits sum.splits prod.splits
      intro: dt.touches_save [of _ row])

lemma mutation_keys:
  "ApplyOverride d u r now = Inr d' \<Longrightarrow> ds_subscriptionID d' = ds_subscriptionID d"
  "dunning_MarkPaid d now = Inr d' \<Longrightarrow> ds_subscriptionID d' = ds_subscriptionID d"
  "Escalate d now p i due ov = Inr (m, d') \<Longrightarrow> ds_subscriptionID d' = ds_subscriptionID d"
  by (auto simp: dunning_ops Let_def split: if_splits sum.splits)

lemma lookupOverride_only: "(\<And>r. saves_only sid (k r)) \<Longrightarrow> saves_only sid (lookupOverride t now k)"
  by (auto simp: saves_only_def lookupOverride_def split: fault.splits sum.splits if_splits)

lemma evaluate_only: "saves_only (ds_subscriptionID (cd_Row c)) (dunning_evaluate w c now)"
  unfolding dunning_evaluate_def Let_def
  by (rule lookupOverride_only)
    (auto split: option.splits sum.splits prod.splits if_splits intro!: save_row_only dest: mutation_keys)

lemma evaluate_all_only:
  "dt.touches (set (map (ds_subscriptionID \<circ> cd_Row) cs)) db (snd (snd (run (evaluate_all w now cs acc) os n db)))"
proof (induction cs arbitrary: acc n db)
  case Nil
  show ?case by simp
next
  case (Cons c cs)
  obtain e n1 db1 where r: "run (dunning_evaluate w c now) os n db = (e, n1, db1)"
    by (cases "run (dunning_evaluate w c now) os n db") auto
  have "dt.touches {ds_subscriptionID (cd_Row c)} db db1"
    using evaluate_only [of c w now, unfolded saves_only_def, rule_format, of db os n] r by simp
  then have "dt.touches ({ds_subscriptionID (cd_Row c)} \<union> set (map (ds_subscriptionID \<circ> cd_Row) cs)) db
      (snd (snd (run (evaluate_all w now cs (acc @ [e])) os n1 db1)))"
    using Cons.IH by (rule dt.touches_trans)
  then show ?case using r by simp
qed

section \<open>The listing\<close>

abbreviation active_subs :: "dunning_db \<Rightarrow> DunningState \<Rightarrow> Subscription list" where
  "active_subs db d \<equiv>
     filter (\<lambda>s. sub_id s = ds_subscriptionID d \<and> sub_status s = SubscriptionStatusActive) (subscription db)"

definition joined :: "dunning_db \<Rightarrow> DunningState list \<Rightarrow> Candidate list" where
  "joined db rows = concat (map (\<lambda>d. map (candidate db d) (active_subs db d)) rows)"

definition open_states :: "dunning_db \<Rightarrow> DunningState list" where
  "open_states db = filter (\<lambda>d. ds_state d \<in> {StateCurrent, StateWarn, StateSuspendedOutbound, StateSuspendedFull})
     (subscription_dunning_states db)"

lemma ListCandidates_joined:
  "ListCandidates db t b = Inr (take (if b \<le> 0 then 200 else nat b)
     (sort_key (\<lambda>c. ds_enteredStateAt (cd_Row c)) (joined db (open_states db))))"
  by (simp add: ListCandidates_def joined_def open_states_def Let_def)

lemma cd_Row_candidate [simp]: "cd_Row (candidate db d s) = d"
  by (simp add: candidate_def)

lemma listed:
  assumes "ListCandidates db t b = Inr cs" and "c \<in> set cs"
  shows "cd_Row c \<in> set (subscription_dunning_states db) \<and> ds_state (cd_Row c) \<noteq> StateCancelled \<and>
    (\<exists>s \<in> set (subscription db). sub_id s = ds_subscriptionID (cd_Row c) \<and> sub_status s = SubscriptionStatusActive
       \<and> c = candidate db (cd_Row c) s)"
proof -
  have "c \<in> set (joined db (open_states db))"
    using assms by (auto simp: ListCandidates_joined dest!: in_set_takeD)
  then show ?thesis by (auto simp: joined_def open_states_def)
qed

definition dunning_inv :: "dunning_db \<Rightarrow> bool" where
  "dunning_inv db \<longleftrightarrow> distinct (map ds_subscriptionID (subscription_dunning_states db)) \<and>
     distinct (map sub_id (subscription db)) \<and> (\<forall>i \<in> set (invoice db). inv_id i \<noteq> uuid_nil) \<and>
     (\<forall>d \<in> set (subscription_dunning_states db). dunning_checks db d)"

lemma filter_key_le_one: "distinct (map k xs) \<Longrightarrow> length (filter (\<lambda>x. k x = a \<and> P x) xs) \<le> 1"
proof (induction xs)
  case (Cons x xs)
  have "filter (\<lambda>x. k x = a \<and> P x) xs = []" if "k x = a"
    unfolding filter_empty_conv
  proof
    fix y assume "y \<in> set xs"
    then have "k y \<noteq> k x" using Cons.prems by (metis distinct.simps(2) image_eqI list.simps(9) set_map)
    then show "\<not> (k y = a \<and> P y)" using that by simp
  qed
  then show ?case using Cons by simp
qed simp

lemma active_subs_le_one: "dunning_inv db \<Longrightarrow> active_subs db d = [] \<or> (\<exists>s. active_subs db d = [s])"
proof -
  assume "dunning_inv db"
  then have "length (active_subs db d) \<le> 1" by (intro filter_key_le_one) (simp add: dunning_inv_def)
  then show ?thesis by (cases "active_subs db d" rule: list.exhaust; cases "tl (active_subs db d)") auto
qed

lemma joined_keys:
  assumes "dunning_inv db" and "distinct (map ds_subscriptionID rows)"
  shows "distinct (map (ds_subscriptionID \<circ> cd_Row) (joined db rows)) \<and> length (joined db rows) \<le> length rows
    \<and> cd_Row ` set (joined db rows) \<subseteq> set rows"
  using assms(2)
proof (induction rows)
  case (Cons d rows)
  then show ?case using active_subs_le_one [OF assms(1), of d] by (auto simp: joined_def)
qed (simp add: joined_def)

lemma joined_open:
  assumes "dunning_inv db"
  shows "distinct (map (ds_subscriptionID \<circ> cd_Row) (joined db (open_states db)))"
    and "length (joined db (open_states db)) \<le> length (subscription_dunning_states db)"
proof -
  have "distinct (map ds_subscriptionID (open_states db))"
    using assms by (simp add: dunning_inv_def open_states_def distinct_map_filter)
  from joined_keys [OF assms this]
  show "distinct (map (ds_subscriptionID \<circ> cd_Row) (joined db (open_states db)))"
    and "length (joined db (open_states db)) \<le> length (subscription_dunning_states db)"
    using length_filter_le by (auto simp: open_states_def intro: le_trans)
qed

lemma distinct_listed:
  assumes "dunning_inv db" and "ListCandidates db t b = Inr cs"
  shows "distinct (map (ds_subscriptionID \<circ> cd_Row) cs)"
proof -
  have "distinct (map (ds_subscriptionID \<circ> cd_Row)
      (sort_key (\<lambda>c. ds_enteredStateAt (cd_Row c)) (joined db (open_states db))))"
    using joined_open(1) [OF assms(1)] by (simp add: distinct_map)
  then show ?thesis using assms(2) by (auto simp: ListCandidates_joined take_map [symmetric] simp del: map_map)
qed

lemma listed_all:
  assumes inv: "dunning_inv db" and l: "ListCandidates db t b = Inr cs"
    and small: "length (subscription_dunning_states db) \<le> nat b"
    and d: "d \<in> set (subscription_dunning_states db)" "ds_state d \<noteq> StateCancelled"
    and s: "s \<in> set (subscription db)" "sub_id s = ds_subscriptionID d" "sub_status s = SubscriptionStatusActive"
  shows "candidate db d s \<in> set cs"
proof -
  have "IsKnown (ds_state d)" using inv d(1) by (auto simp: dunning_inv_def dunning_checks_def)
  then have "d \<in> set (open_states db)" using d by (cases "ds_state d") (auto simp: open_states_def IsKnown_def)
  then have c: "candidate db d s \<in> set (joined db (open_states db))" using s by (auto simp: joined_def)
  have "\<not> b \<le> 0" using small d(1) by (cases "subscription_dunning_states db") auto
  then have "cs = sort_key (\<lambda>c. ds_enteredStateAt (cd_Row c)) (joined db (open_states db))"
    using l joined_open(2) [OF inv] small by (simp add: ListCandidates_joined)
  then show ?thesis using c by simp
qed

lemma tick_touches:
  assumes "ListCandidates db (o_now (os n)) (dw_batchSize w) = Inr cs"
  shows "dt.touches (set (map (ds_subscriptionID \<circ> cd_Row) cs)) db (snd (snd (run (dunning_Tick w) os n db)))"
  using evaluate_all_only [of cs db w "o_now (os n)" "[]" os "Suc (Suc n)"] assms
  by (auto simp: dunning_Tick_def split: fault.splits prod.splits)

section \<open>Properties of the worker\<close>

text \<open>
  Whatever fails during it, a tick changes no table but its own, and no row that is cancelled or whose
  subscription is not active.
\<close>

theorem tick_touches_only_listed:
  assumes "dunning_inv db" and "store_after (dunning_Tick w) os db = db'"
  shows "crm_db.truncate db' = crm_db.truncate db \<and>
    (\<forall>d \<in> set (subscription_dunning_states db).
       ds_state d = StateCancelled \<or>
       \<not> (\<exists>s \<in> set (subscription db). sub_id s = ds_subscriptionID d \<and> sub_status s = SubscriptionStatusActive)
       \<longrightarrow> dunning_row db' (ds_subscriptionID d) = Some d)"
proof -
  obtain cs where cs: "ListCandidates db (o_now (os 0)) (dw_batchSize w) = Inr cs"
    by (simp add: ListCandidates_joined)
  have t: "dt.touches (set (map (ds_subscriptionID \<circ> cd_Row) cs)) db db'"
    using tick_touches [where n = 0 and os = os, OF cs] assms(2) by (simp add: store_after_def)
  have "dunning_row db' (ds_subscriptionID d) = Some d"
    if d: "d \<in> set (subscription_dunning_states db)" and stays: "ds_state d = StateCancelled \<or>
       \<not> (\<exists>s \<in> set (subscription db). sub_id s = ds_subscriptionID d \<and> sub_status s = SubscriptionStatusActive)" for d
  proof -
    have key: "dunning_row db (ds_subscriptionID x) = Some x" if "x \<in> set (subscription_dunning_states db)" for x
      using assms(1) that by (simp add: dunning_inv_def find_key_distinct)
    have "ds_subscriptionID d \<notin> set (map (ds_subscriptionID \<circ> cd_Row) cs)"
    proof
      assume "ds_subscriptionID d \<in> set (map (ds_subscriptionID \<circ> cd_Row) cs)"
      then obtain c where c: "c \<in> set cs" "ds_subscriptionID (cd_Row c) = ds_subscriptionID d" by auto
      note l = listed [OF cs c(1)]
      have "Some (cd_Row c) = Some d" using key [OF conjunct1 [OF l]] key [OF d] unfolding c(2) by (rule trans [OF sym])
      then have "cd_Row c = d" by simp
      then show False using l stays by blast
    qed
    then show ?thesis using dt.touches_lookup [OF t] key [OF d] by simp
  qed
  then show ?thesis using dt.touches_rest [OF t] by simp
qed

lemma oldest_pending_in:
  assumes "oldest_pending invs sid = Some x"
  shows "\<exists>i \<in> set invs. inv_id i = pi_ID x \<and> inv_periodStart i = pi_PeriodStart x"
proof -
  let ?f = "filter (\<lambda>i. inv_subscriptionID i = sid \<and> inv_state i = InvoiceStatePending) invs"
  obtain i rs where i: "sort_key inv_periodStart ?f = i # rs" "pi_ID x = inv_id i" "pi_PeriodStart x = inv_periodStart i"
    using assms by (auto simp: oldest_pending_def split: list.splits)
  then have "i \<in> set ?f" by (metis list.set_intros(1) set_sort)
  then show ?thesis using i by auto
qed

lemma saved:
  assumes "w_actor \<noteq> uuid_nil" and "dunning_checks db row" and "dunning_row db (ds_subscriptionID row) = Some old"
  obtains db' where "dunning_Save db row w_actor = Inr ((), db')"
    and "dunning_row db' (ds_subscriptionID row) = Some (saved_columns old row)"
proof -
  have "\<exists>x \<in> set (subscription_dunning_states db). ds_subscriptionID x = ds_subscriptionID row"
    using assms(3) by (auto dest: find_key_SomeD)
  then obtain db' where s: "dunning_Save db row w_actor = Inr ((), db')"
    using assms(1,2) by (auto simp: dunning_Save_def Let_def)
  from that [OF s] show ?thesis using dt.lookup_own [OF s assms(3)] by simp
qed

text \<open>The state a candidate without a live override ends in.\<close>

definition on_schedule :: "Policy \<Rightarrow> time \<Rightarrow> PendingInvoice option \<Rightarrow> DState \<Rightarrow> DState \<Rightarrow> bool" where
  "on_schedule p now pending s s' =
     (case pending of
        None \<Rightarrow> s' = StateCurrent
      | Some i \<Rightarrow> (\<forall>t n. threshold p t = Some n \<longrightarrow>
          (t \<le> s' \<longleftrightarrow> t \<le> s \<or> n * 86400000000000 \<le> now - pi_PeriodStart i)))"

lemma evaluate_own:
  assumes q: "quiet os" and w: "dw_actorID w \<noteq> uuid_nil"
    and p: "policy_Validate (dw_policy w (cd_PlanID c)) = Inr ()" "CancelDays (dw_policy w (cd_PlanID c)) \<le> 106751"
    and row: "dunning_row db (ds_subscriptionID (cd_Row c)) = Some (cd_Row c)"
    and chk: "dunning_checks db (cd_Row c)" and nc: "ds_state (cd_Row c) \<noteq> StateCancelled"
    and pend: "\<forall>i. cd_Pending c = Some i \<longrightarrow> pi_ID i \<noteq> uuid_nil \<and> (\<exists>j \<in> set (invoice db). inv_id j = pi_ID i)"
    and a: "ActiveFor db (cd_TenantID c) now = derr dunning_ErrNoActiveOverride"
  shows "\<exists>d'. dunning_row (snd (snd (run (dunning_evaluate w c now) os n db))) (ds_subscriptionID (cd_Row c)) = Some d'
    \<and> on_schedule (dw_policy w (cd_PlanID c)) now (cd_Pending c) (ds_state (cd_Row c)) (ds_state d')"
proof -
  let ?d = "cd_Row c" and ?p = "dw_policy w (cd_PlanID c)"
  have nf [simp]: "o_fault (os m) = NoFault" for m using q by (simp add: quiet_def)
  show ?thesis
  proof (cases "cd_Pending c")
    case None
    show ?thesis
    proof (cases "ds_state ?d = StateCurrent")
      case True
      then show ?thesis using None a row by (simp add: dunning_evaluate_def lookupOverride_def on_schedule_def Let_def)
    next
      case False
      let ?d' = "?d\<lparr>ds_state := StateCurrent, ds_enteredStateAt := now, ds_lastInvoiceID := uuid_nil,
          ds_overrideUntil := None, ds_overrideReason := ''''\<rparr>"
      have "dunning_checks db ?d'" by (simp add: dunning_checks_def override_consistency_def IsKnown_def)
      then obtain db' where "dunning_Save db ?d' (dw_actorID w) = Inr ((), db')"
        "dunning_row db' (ds_subscriptionID ?d) = Some (saved_columns ?d ?d')"
        using saved [OF w, of db ?d' ?d] row by auto
      then show ?thesis using None a False nc
        by (simp add: dunning_evaluate_def lookupOverride_def on_schedule_def Let_def dunning_MarkPaid_def save_row_def)
    qed
  next
    case (Some i)
    have i: "pi_ID i \<noteq> uuid_nil" "\<exists>j \<in> set (invoice db). inv_id j = pi_ID i" using pend Some by auto
    obtain moved d' where E: "Escalate ?d now ?p (pi_ID i) (pi_PeriodStart i) None = Inr (moved, d')"
      and sch: "on_schedule ?p now (cd_Pending c) (ds_state ?d) (ds_state d')"
      and m: "if moved then ds_lastInvoiceID d' = pi_ID i else d' = ?d"
      using Escalate_schedule [OF p nc i(1), of None now "pi_PeriodStart i"] Some by (fastforce simp: on_schedule_def)
    have "dunning_checks db d'"
      using E chk i(2) m nc unfolding Escalate_def Let_def
      by (auto simp: dunning_checks_def override_consistency_def split: sum.splits if_splits option.splits)
    then obtain db' where "moved \<Longrightarrow> dunning_Save db d' (dw_actorID w) = Inr ((), db')"
      "dunning_row db' (ds_subscriptionID ?d) = Some (saved_columns ?d d')"
      using saved [OF w, of db d' ?d] row mutation_keys(3) [OF E] by auto
    then show ?thesis using Some a E sch row m
      by (cases moved) (auto simp: dunning_evaluate_def lookupOverride_def Let_def save_row_def)
  qed
qed

lemma evaluate_all_own:
  assumes q: "quiet os" and c: "c \<in> set cs" and dist: "distinct (map (ds_subscriptionID \<circ> cd_Row) cs)"
    and row: "dunning_row db (ds_subscriptionID (cd_Row c)) = Some (cd_Row c)"
    and own: "\<And>db' n. crm_db.truncate db' = crm_db.truncate db \<Longrightarrow>
      dunning_row db' (ds_subscriptionID (cd_Row c)) = Some (cd_Row c) \<Longrightarrow>
      \<exists>d'. dunning_row (snd (snd (run (dunning_evaluate w c now) os n db'))) (ds_subscriptionID (cd_Row c)) = Some d' \<and> P d'"
  shows "\<exists>d'. dunning_row (snd (snd (run (evaluate_all w now cs acc) os n db))) (ds_subscriptionID (cd_Row c)) = Some d' \<and> P d'"
  using c dist row own
proof (induction cs arbitrary: acc n db)
  case (Cons x cs)
  let ?k = "ds_subscriptionID (cd_Row c)"
  obtain e n1 db1 where r: "run (dunning_evaluate w x now) os n db = (e, n1, db1)"
    by (cases "run (dunning_evaluate w x now) os n db") auto
  have t: "dt.touches {ds_subscriptionID (cd_Row x)} db db1"
    using evaluate_only [of x w now, unfolded saves_only_def, rule_format, of db os n] r by simp
  show ?case
  proof (cases "x = c")
    case True
    have "?k \<notin> set (map (ds_subscriptionID \<circ> cd_Row) cs)" using Cons.prems(2) True by simp
    then have "dunning_row (snd (snd (run (evaluate_all w now cs (acc @ [e])) os n1 db1))) ?k = dunning_row db1 ?k"
      by (rule dt.touches_lookup [OF evaluate_all_only])
    then show ?thesis using Cons.prems(4) [OF refl Cons.prems(3), of n] r True by simp
  next
    case False
    then have c: "c \<in> set cs" using Cons.prems(1) by simp
    have "ds_subscriptionID (cd_Row x) \<noteq> ?k" using Cons.prems(2) c by auto
    then have row1: "dunning_row db1 ?k = Some (cd_Row c)"
      using dt.touches_lookup [OF t, of ?k] Cons.prems(3) by simp
    have "\<exists>d'. dunning_row (snd (snd (run (evaluate_all w now cs (acc @ [e])) os n1 db1))) ?k = Some d' \<and> P d'"
      using dt.touches_rest [OF t] Cons.prems(2,4) by (intro Cons.IH [OF c _ row1]) auto
    then show ?thesis using r by simp
  qed
qed simp

text \<open>
  C31. A tick brings every row up to the schedule, and never down from beyond it: when the calls do not fail and the batch holds the
  whole table, the row of an active subscription without a live override is at \<open>StateCurrent\<close> afterwards
  if it has no pending invoice, and otherwise at or above a state exactly when it was before or the period
  of its oldest pending invoice started at least that state's number of days ago: at the further of its previous
  state and the schedule.
\<close>

theorem tick_enforces_schedule:
  assumes inv: "dunning_inv db" and q: "quiet os" and w: "dw_actorID w \<noteq> uuid_nil"
    and p: "\<forall>planID. policy_Validate (dw_policy w planID) = Inr () \<and> CancelDays (dw_policy w planID) \<le> 106751"
    and small: "length (subscription_dunning_states db) \<le> nat (dw_batchSize w)"
    and d: "d \<in> set (subscription_dunning_states db)" "ds_state d \<noteq> StateCancelled"
    and s: "s \<in> set (subscription db)" "sub_id s = ds_subscriptionID d" "sub_status s = SubscriptionStatusActive"
    and a: "ActiveFor db (ds_tenantID d) (o_now (os 0)) = derr dunning_ErrNoActiveOverride"
  shows "\<exists>d'. dunning_row (store_after (dunning_Tick w) os db) (ds_subscriptionID d) = Some d' \<and>
    on_schedule (dw_policy w (sub_planID s)) (o_now (os 0)) (oldest_pending (invoice db) (ds_subscriptionID d))
      (ds_state d) (ds_state d')"
proof -
  let ?now = "o_now (os 0)" and ?c = "candidate db d s"
  have nf: "o_fault (os m) = NoFault" for m using q by (simp add: quiet_def)
  obtain cs where cs: "ListCandidates db ?now (dw_batchSize w) = Inr cs" by (simp add: ListCandidates_joined)
  have c: "?c \<in> set cs" by (rule listed_all [OF inv cs small d s])
  have row: "dunning_row db (ds_subscriptionID d) = Some d"
    using inv d(1) by (simp add: dunning_inv_def find_key_distinct)
  have pend: "pi_ID i \<noteq> uuid_nil \<and> (\<exists>j \<in> set (invoice db). inv_id j = pi_ID i)" if "cd_Pending ?c = Some i" for i
    using oldest_pending_in [of "invoice db" "ds_subscriptionID d" i] that inv
    by (auto simp: candidate_def dunning_inv_def)
  have own: "\<exists>d'. dunning_row (snd (snd (run (dunning_evaluate w ?c ?now) os n db'))) (ds_subscriptionID (cd_Row ?c)) = Some d'
      \<and> on_schedule (dw_policy w (cd_PlanID ?c)) ?now (cd_Pending ?c) (ds_state (cd_Row ?c)) (ds_state d')"
    if r: "crm_db.truncate db' = crm_db.truncate db" and row': "dunning_row db' (ds_subscriptionID (cd_Row ?c)) = Some (cd_Row ?c)"
    for db' n
  proof (rule evaluate_own [OF q w _ _ row'])
    show "dunning_checks db' (cd_Row ?c)"
      using inv d(1) same_rest(1) [OF r] by (auto simp: dunning_inv_def dunning_checks_def)
  qed (use p d(2) pend a same_rest [OF r] in \<open>auto simp: candidate_def\<close>)
  have "\<exists>d'. dunning_row (snd (snd (run (evaluate_all w ?now cs []) os 2 db))) (ds_subscriptionID (cd_Row ?c)) = Some d'
      \<and> on_schedule (dw_policy w (cd_PlanID ?c)) ?now (cd_Pending ?c) (ds_state (cd_Row ?c)) (ds_state d')"
    by (rule evaluate_all_own [OF q c distinct_listed [OF inv cs]]) (use row own in simp_all)
  moreover have "store_after (dunning_Tick w) os db = snd (snd (run (evaluate_all w ?now cs []) os 2 db))"
    using cs nf by (simp add: store_after_def dunning_Tick_def numeral_2_eq_2 split: prod.splits)
  ultimately show ?thesis by (simp add: candidate_def)
qed

text \<open>Two subscriptions: one healthy, one whose only invoice has been pending since time 0.\<close>

definition sub_row :: "uuid \<Rightarrow> uuid \<Rightarrow> Subscription" where
  "sub_row sid t = \<lparr>sub_id = sid, sub_tenantID = t, sub_planID = 3, sub_status = SubscriptionStatusActive,
     sub_currentPeriodStart = 0, sub_currentPeriodEnd = 31 * day_ns, sub_createdAt = 0, sub_updatedAt = 0\<rparr>"

definition pending_row :: "uuid \<Rightarrow> uuid \<Rightarrow> uuid \<Rightarrow> Invoice" where
  "pending_row iid sid t = \<lparr>inv_id = iid, inv_tenantID = t, inv_subscriptionID = sid, inv_periodStart = 0,
     inv_periodEnd = 31 * day_ns, inv_amountCentsBRL = 100, inv_state = InvoiceStatePending, inv_cancelledReason = '''',
     inv_createdAt = 0, inv_updatedAt = 0\<rparr>"

definition dunning_db_ex :: "DState \<Rightarrow> uuid \<Rightarrow> dunning_db" where
  "dunning_db_ex s iid = \<lparr>token_wallet = [], token_ledger = [], courtesy_grant = [], master_grant = [],
     subscription = [sub_row 30 7, sub_row 31 8], invoice = [pending_row 40 31 8], plans = [],
     subscription_dunning_states = [dunning_ex StateCurrent 0,
       (dunning_ex s iid)\<lparr>ds_id := 51, ds_tenantID := 8, ds_subscriptionID := 31, ds_enteredStateAt := 1\<rparr>]\<rparr>"

definition worker_ex :: "int \<Rightarrow> dunning_worker" where
  "worker_ex batch = \<lparr>dw_policy = DefaultPolicyResolver, dw_actorID = 9, dw_tickEvery = 1, dw_batchSize = batch\<rparr>"

definition env_at :: "time \<Rightarrow> nat \<Rightarrow> call_env" where
  "env_at t n = \<lparr>o_fault = NoFault, o_now = t, o_ids = \<lambda>k. 1000 + k\<rparr>"

lemmas dunning_ex_defs = dunning_db_ex_def worker_ex_def env_at_def sub_row_def pending_row_def dunning_ex_def

lemma dunning_inv_ex: "dunning_inv (dunning_db_ex StateCurrent 0)"
  by (simp add: dunning_inv_def dunning_ex_defs dunning_checks_def override_consistency_def IsKnown_def)

lemma ActiveFor_no_grants: "master_grant db = [] \<Longrightarrow> t \<noteq> uuid_nil \<Longrightarrow>
    ActiveFor db t now = derr dunning_ErrNoActiveOverride"
  by (simp add: ActiveFor_def)

theorem tick_touches_only_listed_witness:
  "crm_db.truncate (store_after (dunning_Tick (worker_ex 200)) (env_at (100 * day_ns)) (dunning_db_ex StateCurrent 0))
     = crm_db.truncate (dunning_db_ex StateCurrent 0)"
  using tick_touches_only_listed [OF dunning_inv_ex refl] by blast

theorem tick_enforces_schedule_witness:
  "\<exists>d'. dunning_row (store_after (dunning_Tick (worker_ex 200)) (env_at (8 * day_ns)) (dunning_db_ex StateCurrent 0)) 31 = Some d'
     \<and> StateSuspendedOutbound \<le> ds_state d' \<and> \<not> StateSuspendedFull \<le> ds_state d'"
proof -
  let ?db = "dunning_db_ex StateCurrent 0"
  let ?d = "(dunning_ex StateCurrent 0)\<lparr>ds_id := 51, ds_tenantID := 8, ds_subscriptionID := 31, ds_enteredStateAt := 1\<rparr>"
  have "\<exists>d'. dunning_row (store_after (dunning_Tick (worker_ex 200)) (env_at (8 * day_ns)) ?db) (ds_subscriptionID ?d) = Some d' \<and>
    on_schedule (dw_policy (worker_ex 200) (sub_planID (sub_row 31 8))) (o_now (env_at (8 * day_ns) 0))
      (oldest_pending (invoice ?db) (ds_subscriptionID ?d)) (ds_state ?d) (ds_state d')"
    by (rule tick_enforces_schedule [OF dunning_inv_ex])
      (simp_all add: quiet_def dunning_ex_defs policy_Validate_ok DefaultPolicyResolver_def DefaultPolicy_def
        ActiveFor_no_grants)
  then obtain d' where d': "dunning_row (store_after (dunning_Tick (worker_ex 200)) (env_at (8 * day_ns)) ?db) 31 = Some d'"
    and s: "on_schedule DefaultPolicy (8 * day_ns) (Some \<lparr>pi_ID = 40, pi_PeriodStart = 0\<rparr>) StateCurrent (ds_state d')"
    by (auto simp: dunning_ex_defs oldest_pending_def DefaultPolicyResolver_def)
  have "threshold DefaultPolicy StateSuspendedOutbound = Some 7" "threshold DefaultPolicy StateSuspendedFull = Some 30"
    by (simp_all add: DefaultPolicy_def)
  then have "StateSuspendedOutbound \<le> ds_state d' \<and> \<not> StateSuspendedFull \<le> ds_state d'"
    using s [unfolded on_schedule_def option.case, rule_format, of StateSuspendedOutbound 7]
      s [unfolded on_schedule_def option.case, rule_format, of StateSuspendedFull 30]
    by (auto simp: severity_order day_ns_def)
  then show ?thesis using d' by blast
qed

lemma settled_evaluate:
  assumes "ds_state (cd_Row c) = StateCurrent" and "cd_Pending c = None" and "master_grant db = []"
  shows "\<exists>n'. run (dunning_evaluate w c now) os n db = ((None, cd_Row c), n', db)"
  using assms by (auto simp: dunning_evaluate_def lookupOverride_def Let_def ActiveFor_def split: fault.splits)

lemma settled_evaluate_all:
  assumes "\<forall>c \<in> set cs. ds_state (cd_Row c) = StateCurrent \<and> cd_Pending c = None" and "master_grant db = []"
  shows "snd (snd (run (evaluate_all w now cs acc) os n db)) = db"
  using assms(1)
proof (induction cs arbitrary: acc n)
  case (Cons c cs)
  obtain n' where "run (dunning_evaluate w c now) os n db = ((None, cd_Row c), n', db)"
    using settled_evaluate [of c db w now os n] Cons.prems assms(2) by auto
  then show ?case using Cons by simp
qed simp

text \<open>
  A full batch of healthy rows starves the rest: when the listed rows are all current and without
  a pending invoice, they stay at the head of the listing (their \<^verbatim>\<open>entered_state_at\<close> does not move), so no number of
  ticks, at whatever times, changes any row, however far past due the rows beyond the batch are.
\<close>

theorem settled_batch_starves_the_rest:
  assumes l: "ListCandidates db 0 (dw_batchSize w) = Inr cs"
    and c: "\<forall>c \<in> set cs. ds_state (cd_Row c) = StateCurrent \<and> cd_Pending c = None" and g: "master_grant db = []"
  shows "fold (\<lambda>os. store_after (dunning_Tick w) os) oss db = db"
proof -
  have l': "ListCandidates db t (dw_batchSize w) = Inr cs" for t using l by (simp add: ListCandidates_joined)
  have "store_after (dunning_Tick w) os db = db" for os
    using settled_evaluate_all [OF c g, of w "o_now (os 0)" "[]" os "Suc (Suc 0)"] l'
    by (auto simp: store_after_def dunning_Tick_def split: fault.splits prod.splits)
  then show ?thesis by (induction oss) simp_all
qed

theorem settled_batch_starves_the_rest_witness:
  "fold (\<lambda>os. store_after (dunning_Tick (worker_ex 1)) os) [env_at (100 * day_ns), env_at (1000 * day_ns)]
     (dunning_db_ex StateCurrent 0) = dunning_db_ex StateCurrent 0
   \<and> oldest_pending (invoice (dunning_db_ex StateCurrent 0)) 31 = Some \<lparr>pi_ID = 40, pi_PeriodStart = 0\<rparr>"
proof -
  let ?db = "dunning_db_ex StateCurrent 0"
  have "ListCandidates ?db 0 (dw_batchSize (worker_ex 1)) = Inr [candidate ?db (dunning_ex StateCurrent 0) (sub_row 30 7)]"
    by (simp add: ListCandidates_def dunning_ex_defs candidate_def oldest_pending_def)
  then have "fold (\<lambda>os. store_after (dunning_Tick (worker_ex 1)) os) [env_at (100 * day_ns), env_at (1000 * day_ns)] ?db = ?db"
    by (rule settled_batch_starves_the_rest)
      (simp_all add: candidate_def oldest_pending_def dunning_ex_defs)
  then show ?thesis by (simp add: oldest_pending_def dunning_ex_defs)
qed

lemmas dunning_eval =
  dunning_Tick_def OnPaymentConfirmed_def ListCandidates_def candidate_def oldest_pending_def dunning_evaluate_def
  lookupOverride_def ActiveFor_no_grants save_row_def dunning_Save_def dunning_checks_def override_consistency_def
  GetBySubscription_def dunning_MarkPaid_def Escalate_def policy_Validate_def StateForDaysPastDue_def daysSince_def
  time_sub_def go_div_def DefaultPolicyResolver_def DefaultPolicy_def IsKnown_def query_def command_def
  read_clock_def day_ns_def find_key_def result_of_def dunning_ex_defs i64 Let_def

text \<open>
  The tick saves what it read: when a payment is confirmed after a tick on the ninetieth day has listed
  the row, the tick still cancels it. The confirmation has reported success, and the cancellation is
  final: a second confirmation is refused.
\<close>

theorem stale_tick_cancels_a_paid_subscription:
  "case interleave2 [True, True, False, False, False, True, True, True] (env_at (90 * day_ns)) 0
      (dunning_Tick (worker_ex 200)) (OnPaymentConfirmed (worker_ex 200) 31) (dunning_db_ex StateSuspendedFull 40) of
     (p, q, db) \<Rightarrow> (\<exists>rep. p = Ret (Inr rep)) \<and> q = Ret (Inr (Some (StateSuspendedFull, StateCurrent))) \<and>
       map_option ds_state (dunning_row db 31) = Some StateCancelled \<and>
       result_of (OnPaymentConfirmed (worker_ex 200) 31) (env_at (91 * day_ns)) db = derr dunning_ErrInvalidTransition"
  by (simp add: dunning_eval)

text \<open>
  A courtesy period postpones the debt, it does not forgive it: after the override of a row has run out, the
  days before and during it count again, so a row whose pending invoice is older than the cancel threshold goes from
  \<open>StateCurrent\<close> to \<open>StateCancelled\<close> in one step.
\<close>

theorem expired_override_cancels_at_once:
  assumes "policy_Validate p = Inr ()" and "CancelDays p \<le> 106751" and "iid \<noteq> uuid_nil"
    and o: "ApplyOverride d until reason t0 = Inr d'" and "until \<le> now"
    and due: "CancelDays p * 86400000000000 \<le> now - due"
  shows "ds_state d' = StateCurrent \<and>
    (\<exists>d''. Escalate d' now p iid due (Some \<lparr>ov_Until = until, ov_Reason = reason\<rparr>) = Inr (True, d'')
       \<and> ds_state d'' = StateCancelled)"
proof -
  have d': "ds_state d' = StateCurrent" using o by (auto simp: ApplyOverride_def Let_def split: if_splits)
  let ?ov = "Some \<lparr>ov_Until = until, ov_Reason = reason\<rparr>"
  obtain moved d'' where E: "Escalate d' now p iid due ?ov = Inr (moved, d'')"
    and t: "\<forall>t n. threshold p t = Some n \<longrightarrow> (t \<le> ds_state d'' \<longleftrightarrow> t \<le> ds_state d' \<or> n * 86400000000000 \<le> now - due)"
    and m: "if moved then ds_state d' < ds_state d'' \<and> ds_lastInvoiceID d'' = iid \<and> ds_enteredStateAt d'' = now else d'' = d'"
    using Escalate_schedule [OF assms(1,2) _ assms(3), of d' ?ov now due] d' assms(5) by auto
  have c: "StateCancelled \<le> ds_state d''" using t due threshold.simps(4) [of p] by blast
  then have "ds_state d'' = StateCancelled" by (cases "ds_state d''") (simp_all add: severity_order)
  moreover from this have moved using m d' by (auto split: if_splits)
  ultimately show ?thesis using E d' by simp
qed

theorem expired_override_cancels_at_once_witness:
  "\<exists>d''. Escalate ((dunning_ex StateCurrent 0)\<lparr>ds_overrideUntil := Some (80 * day_ns),
        ds_overrideReason := ''free period for a pilot'', ds_enteredStateAt := 20 * day_ns\<rparr>) (91 * day_ns)
      DefaultPolicy 40 0 (Some \<lparr>ov_Until = 80 * day_ns, ov_Reason = ''free period for a pilot''\<rparr>) = Inr (True, d'')
     \<and> ds_state d'' = StateCancelled"
proof -
  have "ApplyOverride (dunning_ex StateSuspendedOutbound 40) (80 * day_ns) ''free period for a pilot'' (20 * day_ns) =
      Inr ((dunning_ex StateCurrent 0)\<lparr>ds_overrideUntil := Some (80 * day_ns),
        ds_overrideReason := ''free period for a pilot'', ds_enteredStateAt := 20 * day_ns\<rparr>)"
    by (simp add: ApplyOverride_def dunning_ex_def day_ns_def)
  from expired_override_cancels_at_once [OF DefaultPolicy_valid _ _ this, of 40 "91 * day_ns" 0]
  show ?thesis by (simp add: DefaultPolicy_def day_ns_def)
qed

end
