(* ===== verification/GoStrings.thy ===== *)
theory GoStrings
  imports CRM_Prelude "HOL-Library.Sublist"
begin

text \<open>
  The functions of Go's \<^verbatim>\<open>strings\<close> package the program uses, on byte strings.
\<close>

definition HasPrefix :: "string \<Rightarrow> string \<Rightarrow> bool" where
  "HasPrefix s p = prefix p s"

text \<open>
  The encodings of the characters \<^verbatim>\<open>unicode.IsSpace\<close> accepts: the six ASCII spaces, U+0085, U+00A0, U+1680,
  U+2000 to U+200A, U+2028, U+2029, U+202F, U+205F and U+3000. No one of them is a proper prefix or suffix of another.
\<close>

definition unicode_spaces :: "string list" where
  "unicode_spaces =
     [[CHR 0x09], [CHR 0x0A], [CHR 0x0B], [CHR 0x0C], [CHR 0x0D], [CHR 0x20],
      [CHR 0xC2, CHR 0x85], [CHR 0xC2, CHR 0xA0], [CHR 0xE1, CHR 0x9A, CHR 0x80]]
     @ map (\<lambda>b. [CHR 0xE2, CHR 0x80, b])
         [CHR 0x80, CHR 0x81, CHR 0x82, CHR 0x83, CHR 0x84, CHR 0x85, CHR 0x86, CHR 0x87, CHR 0x88, CHR 0x89,
          CHR 0x8A, CHR 0xA8, CHR 0xA9, CHR 0xAF]
     @ [[CHR 0xE2, CHR 0x81, CHR 0x9F], [CHR 0xE3, CHR 0x80, CHR 0x80]]"

definition strip_one :: "string list \<Rightarrow> string \<Rightarrow> string option" where
  "strip_one ps s = map_option (\<lambda>p. drop (length p) s) (find (\<lambda>p. prefix p s) ps)"

lemma strip_one_shorter:
  assumes "[] \<notin> set ps" and "strip_one ps s = Some t"
  shows "length t < length s"
proof -
  obtain p where p: "find (\<lambda>p. prefix p s) ps = Some p" "t = drop (length p) s"
    using assms(2) by (auto simp: strip_one_def)
  then have "p \<in> set ps" "prefix p s" using find_SomeD by fast+
  then show ?thesis using p(2) assms(1) by (cases p) (auto simp: prefix_def)
qed

function trim_left :: "string list \<Rightarrow> string \<Rightarrow> string" where
  "trim_left ps s =
     (if [] \<in> set ps then s else case strip_one ps s of None \<Rightarrow> s | Some t \<Rightarrow> trim_left ps t)"
  by pat_completeness auto

termination trim_left
  by (relation "measure (\<lambda>(ps, s). length s)") (auto dest: strip_one_shorter)

declare trim_left.simps [simp del]

definition TrimSpace :: "string \<Rightarrow> string" where
  "TrimSpace s = rev (trim_left (map rev unicode_spaces) (rev (trim_left unicode_spaces s)))"

lemma trim_left_stop:
  assumes "[] \<notin> set ps"
  shows "strip_one ps (trim_left ps s) = None"
  using assms
proof (induction ps s rule: trim_left.induct)
  case (1 ps s)
  then show ?case by (subst trim_left.simps) (auto split: option.splits)
qed

lemma strip_one_None: "strip_one ps s = None \<longleftrightarrow> (\<forall>p \<in> set ps. \<not> prefix p s)"
  by (auto simp: strip_one_def find_None_iff)

lemma trim_left_id: "strip_one ps s = None \<Longrightarrow> trim_left ps s = s"
  by (subst trim_left.simps) simp

lemma trim_left_suffix: "suffix (trim_left ps s) s"
proof (induction ps s rule: trim_left.induct)
  case (1 ps s)
  show ?case
  proof (cases "[] \<in> set ps \<or> strip_one ps s = None")
    case True
    then show ?thesis by (subst trim_left.simps) auto
  next
    case False
    then obtain t where t: "strip_one ps s = Some t" "[] \<notin> set ps" by auto
    then have "suffix t s" by (auto simp: strip_one_def suffix_drop)
    then show ?thesis using 1 t by (subst trim_left.simps) (auto intro: suffix_order.trans)
  qed
qed

lemma TrimSpace_idem: "TrimSpace (TrimSpace s) = TrimSpace s"
proof -
  let ?U = unicode_spaces and ?R = "map rev unicode_spaces"
  let ?x = "trim_left ?U s" 
  let ?y = "rev (trim_left ?R (rev ?x))"
  have ne: "[] \<notin> set ?U" "[] \<notin> set ?R" by (auto simp: unicode_spaces_def)
  have "suffix (trim_left ?R (rev ?x)) (rev ?x)" by (rule trim_left_suffix)
  then have pre: "prefix ?y ?x" by (metis rev_rev_ident suffix_to_prefix)
  have "\<forall>p \<in> set ?U. \<not> prefix p ?x" using trim_left_stop [OF ne(1), of s] by (simp add: strip_one_None)
  then have "\<forall>p \<in> set ?U. \<not> prefix p ?y" using pre prefix_order.trans by blast
  then have "trim_left ?U ?y = ?y" by (intro trim_left_id) (simp add: strip_one_None)
  moreover have "trim_left ?R (rev ?y) = rev ?y" using trim_left_stop [OF ne(2), of "rev ?x"] by (simp add: trim_left_id)
  ultimately show ?thesis by (simp add: TrimSpace_def)
qed

text \<open>\<^verbatim>\<open>strings.EqualFold(s, t)\<close> for a \<open>t\<close> of ASCII letters that no other character folds to.\<close>

definition ascii_lower :: "char \<Rightarrow> char" where
  "ascii_lower c = (if of_char c \<ge> (65 :: nat) \<and> of_char c \<le> (90 :: nat) then char_of (of_char c + (32 :: nat)) else c)"

definition EqualFold_ascii :: "string \<Rightarrow> string \<Rightarrow> bool" where
  "EqualFold_ascii s t = (map ascii_lower s = map ascii_lower t)"

text \<open>
  \<^verbatim>\<open>strings.ToLower\<close> as far as a comparison with ASCII text can tell: ASCII letters, and the two other characters whose
  lower case is an ASCII letter, U+0130 and the Kelvin sign.
\<close>

fun ToLower_view :: "string \<Rightarrow> string" where
  "ToLower_view [] = []"
| "ToLower_view (c # s) =
     (if c = CHR 0xC4 \<and> take 1 s = [CHR 0xB0] then CHR ''i'' # ToLower_view (drop 1 s)
      else if c = CHR 0xE2 \<and> take 2 s = [CHR 0x84, CHR 0xAA] then CHR ''k'' # ToLower_view (drop 2 s)
      else ascii_lower c # ToLower_view s)"

text \<open>
  \<^verbatim>\<open>strconv.ParseInt(s, 10, 64)\<close> and \<^verbatim>\<open>strconv.Atoi\<close> (whose \<^verbatim>\<open>int\<close> has 64 bits): an optional sign and
  at least one decimal digit, with a value in range; \<open>None\<close> is a parse error.
\<close>

definition is_digit :: "char \<Rightarrow> bool" where
  "is_digit c \<longleftrightarrow> of_char c \<ge> (48 :: nat) \<and> of_char c \<le> (57 :: nat)"

fun digits_value :: "int \<Rightarrow> string \<Rightarrow> int" where
  "digits_value acc [] = acc"
| "digits_value acc (c # s) = digits_value (acc * 10 + (of_char c - 48)) s"

definition ParseInt10 :: "string \<Rightarrow> int option" where
  "ParseInt10 s =
     (let (neg, ds) = (case s of [] \<Rightarrow> (False, s)
                       | c # t \<Rightarrow> if c = CHR ''-'' then (True, t) else if c = CHR ''+'' then (False, t) else (False, s))
      in if ds = [] \<or> \<not> list_all is_digit ds then None
         else let v = (if neg then - digits_value 0 ds else digits_value 0 ds)
              in if in_i64 v then Some v else None)"

lemma ParseInt10_in_i64: "ParseInt10 s = Some v \<Longrightarrow> in_i64 v"
  by (auto simp: ParseInt10_def Let_def split: list.splits if_splits prod.splits)

end
