(* ===== verification/DunningGate.thy ===== *)
theory DunningGate
  imports Dunning GoStrings
begin

text \<open>
  The HTTP gate that enforces the dunning state, \<^verbatim>\<open>src/internal/http/middleware/dunning\<close>. A request is what
  the gate reads of it; the gate hands it to the next handler or answers itself. The lookup
  is the port \<^verbatim>\<open>StateLookup\<close>; logging is left out.
\<close>

section \<open>Requests and answers\<close>

record request =
  rq_Method :: string
  rq_Path :: string
  rq_HXRequest :: string
  rq_Tenant :: "uuid option"

record response =
  rs_Status :: nat
  rs_ContentType :: string
  rs_CacheControl :: string
  rs_Body :: string

datatype gate_result = ServeNext | Denied response

type_synonym state_lookup = "uuid \<Rightarrow> DunningState option dresult"

record Middleware =
  mw_lookup :: state_lookup
  mw_outbound :: "request \<Rightarrow> bool"
  mw_failOpen :: bool

definition neverOutbound :: "request \<Rightarrow> bool" where
  "neverOutbound r = False"

definition new_Middleware :: "state_lookup \<Rightarrow> (request \<Rightarrow> bool) option \<Rightarrow> bool \<Rightarrow> Middleware" where
  "new_Middleware lookup outbound failOpen =
     \<lparr>mw_lookup = lookup, mw_outbound = (case outbound of None \<Rightarrow> neverOutbound | Some f \<Rightarrow> f), mw_failOpen = failOpen\<rparr>"

section \<open>Helpers\<close>

definition isReadMethod :: "string \<Rightarrow> bool" where
  "isReadMethod m = (m = ''GET'' \<or> m = ''HEAD'' \<or> m = ''OPTIONS'')"

definition isHTMXRequest :: "request \<Rightarrow> bool" where
  "isHTMXRequest r = EqualFold_ascii (rq_HXRequest r) ''true''"

text \<open>\<^verbatim>\<open>strings.NewReplacer\<close> with single-byte patterns replaces byte by byte.\<close>

definition escape_char :: "char \<Rightarrow> string" where
  "escape_char c =
     (if c = CHR 0x26 then ''&amp;''
      else if c = CHR 0x3C then ''&lt;''
      else if c = CHR 0x3E then ''&gt;''
      else if c = CHR 0x22 then ''&quot;''
      else if c = CHR 0x27 then ''&#39;''
      else [c])"

definition htmlEscape :: "string \<Rightarrow> string" where
  "htmlEscape s = concat (map escape_char s)"

definition clean_prefixes :: "string list \<Rightarrow> string list" where
  "clean_prefixes routes =
     concat (map (\<lambda>p0. let p = TrimSpace p0 in
       if p = '''' then [] else if \<not> HasPrefix p ''/'' then [''/'' @ p] else [p]) routes)"

definition PrefixOutboundClassifier :: "string list \<Rightarrow> request \<Rightarrow> bool" where
  "PrefixOutboundClassifier routes =
     (if routes = [] then neverOutbound
      else let clean = clean_prefixes routes in
        if clean = [] then neverOutbound
        else (\<lambda>r. \<exists>p \<in> set clean. HasPrefix (rq_Path r) p))"

section \<open>The gate\<close>

text \<open>The messages, in UTF-8.\<close>

definition a_til :: string where "a_til = [CHR 0xC3, CHR 0xA3]"
definition a_acute :: string where "a_acute = [CHR 0xC3, CHR 0xA1]"
definition e_acute :: string where "e_acute = [CHR 0xC3, CHR 0xA9]"
definition i_acute :: string where "i_acute = [CHR 0xC3, CHR 0xAD]"
definition o_til :: string where "o_til = [CHR 0xC3, CHR 0xB5]"
definition c_cedil :: string where "c_cedil = [CHR 0xC3, CHR 0xA7]"

definition msg_unavailable :: string where
  "msg_unavailable = ''N'' @ a_til @ ''o foi poss'' @ i_acute
     @ ''vel verificar o status da sua assinatura. Tente novamente em instantes.''"

definition msg_outbound :: string where
  "msg_outbound = ''Sua assinatura est'' @ a_acute @ '' com pagamento em atraso. ''
     @ ''O envio de mensagens e automa'' @ c_cedil @ o_til @ ''es ficou suspenso at'' @ e_acute
     @ '' a regulariza'' @ c_cedil @ a_til @ ''o.''"

definition msg_full :: string where
  "msg_full = ''Sua assinatura est'' @ a_acute @ '' com pagamento em atraso h'' @ a_acute @ '' mais de 30 dias. ''
     @ ''A conta est'' @ a_acute @ '' em modo somente leitura at'' @ e_acute @ '' a regulariza'' @ c_cedil @ a_til @ ''o.''"

definition msg_cancelled :: string where
  "msg_cancelled = ''Sua assinatura foi cancelada por falta de pagamento. ''
     @ ''Para reativar, entre em contato com o suporte.''"

definition msg_invalid :: string where
  "msg_invalid = ''Sua assinatura est'' @ a_acute @ '' em um estado inv'' @ a_acute
     @ ''lido. Entre em contato com o suporte.''"

definition classify :: "Middleware \<Rightarrow> request \<Rightarrow> DState \<Rightarrow> nat \<times> string" where
  "classify m r state =
     (case state of
        StateCurrent \<Rightarrow> (200, '''')
      | StateWarn \<Rightarrow> (200, '''')
      | StateSuspendedOutbound \<Rightarrow> if mw_outbound m r then (403, msg_outbound) else (200, '''')
      | StateSuspendedFull \<Rightarrow> if isReadMethod (rq_Method r) then (200, '''') else (403, msg_full)
      | StateCancelled \<Rightarrow> if isReadMethod (rq_Method r) then (200, '''') else (403, msg_cancelled)
      | StateOther _ \<Rightarrow> if isReadMethod (rq_Method r) then (200, '''') else (403, msg_invalid))"

definition deny :: "request \<Rightarrow> nat \<Rightarrow> string \<Rightarrow> response" where
  "deny r status reason =
     (if isHTMXRequest r
      then \<lparr>rs_Status = status, rs_ContentType = ''text/html; charset=utf-8'', rs_CacheControl = ''no-store'',
            rs_Body = ''<div class=\"dunning-blocked\" role=\"alert\">'' @ htmlEscape reason @ ''</div>''\<rparr>
      else \<lparr>rs_Status = status, rs_ContentType = ''text/plain; charset=utf-8'', rs_CacheControl = ''no-store'',
            rs_Body = reason\<rparr>)"

definition gate_Wrap :: "Middleware \<Rightarrow> request \<Rightarrow> gate_result" where
  "gate_Wrap m r =
     (case rq_Tenant r of
        None \<Rightarrow> ServeNext
      | Some tenantID \<Rightarrow>
          (case mw_lookup m tenantID of
             Inl e \<Rightarrow>
               if errors_is e dunning_ErrNotFound then ServeNext
               else if mw_failOpen m then ServeNext
               else Denied (deny r 503 msg_unavailable)
           | Inr None \<Rightarrow> ServeNext
           | Inr (Some state) \<Rightarrow>
               let (decision, reason) = classify m r (ds_state state) in
               if decision = 200 then ServeNext else Denied (deny r decision reason)))"

section \<open>Properties\<close>

text \<open>
  For requests that change something the gate only tightens as dunning gets worse: a request that is refused
  in one state is refused in every more severe one. From \<open>StateSuspendedFull\<close> on, and in a state the code does
  not know, every such request is refused with 403, and a lookup that fails (and is not \<open>ErrNotFound\<close>) refuses with 503
  unless the gate was built to fail open.
\<close>

theorem gate_tightens_for_writes:
  assumes wr: "\<not> isReadMethod (rq_Method r)" and t: "rq_Tenant r = Some t"
    and l: "mw_lookup m t = Inr (Some d)"
  shows "(IsKnown (ds_state d) \<and> ds_state d \<le> s' \<and> gate_Wrap m r \<noteq> ServeNext \<longrightarrow>
        gate_Wrap (m\<lparr>mw_lookup := (mw_lookup m)(t := Inr (Some (d\<lparr>ds_state := s'\<rparr>)))\<rparr>) r \<noteq> ServeNext) \<and>
    (StateSuspendedFull \<le> ds_state d \<or> \<not> IsKnown (ds_state d) \<longrightarrow>
        (\<exists>body. gate_Wrap m r = Denied body \<and> rs_Status body = 403)) \<and>
    (\<not> errors_is e dunning_ErrNotFound \<and> \<not> mw_failOpen m \<longrightarrow>
        gate_Wrap (m\<lparr>mw_lookup := (mw_lookup m)(t := Inl e)\<rparr>) r = Denied (deny r 503 msg_unavailable))"
proof -
  have blocked: "fst (classify m r s) = (if s = StateCurrent \<or> s = StateWarn then 200
      else if s = StateSuspendedOutbound then (if mw_outbound m r then 403 else 200) else 403)" for m s
    using wr by (cases s) (simp_all add: classify_def)
  have W: "gate_Wrap m r = (if fst (classify m r (ds_state d)) = 200 then ServeNext
      else Denied (deny r (fst (classify m r (ds_state d))) (snd (classify m r (ds_state d)))))"
    if "mw_lookup m t = Inr (Some d)" for m d
    using that t by (simp add: gate_Wrap_def case_prod_beta)
  have e: "gate_Wrap (m\<lparr>mw_lookup := (mw_lookup m)(t := Inl e)\<rparr>) r = Denied (deny r 503 msg_unavailable)"
    if "\<not> errors_is e dunning_ErrNotFound" "\<not> mw_failOpen m"
    using that t by (simp add: gate_Wrap_def)
  let ?m' = "m\<lparr>mw_lookup := (mw_lookup m)(t := Inr (Some (d\<lparr>ds_state := s'\<rparr>)))\<rparr>"
  have W': "gate_Wrap ?m' r = ServeNext \<longleftrightarrow> fst (classify ?m' r s') = 200"
    using W [of ?m' "d\<lparr>ds_state := s'\<rparr>"] by simp
  have "gate_Wrap ?m' r \<noteq> ServeNext"
    if "IsKnown (ds_state d)" "ds_state d \<le> s'" "gate_Wrap m r \<noteq> ServeNext"
    using that W [OF l] unfolding W' blocked
    by (cases "ds_state d"; cases s') (auto simp: severity_order IsKnown_def split: if_splits)
  moreover have "\<exists>body. gate_Wrap m r = Denied body \<and> rs_Status body = 403"
    if "StateSuspendedFull \<le> ds_state d \<or> \<not> IsKnown (ds_state d)"
    using that W [OF l] unfolding blocked by (cases "ds_state d") (auto simp: severity_order IsKnown_def deny_def)
  ultimately show ?thesis using e by blast
qed

definition request_ex :: "string \<Rightarrow> string \<Rightarrow> request" where
  "request_ex meth path = \<lparr>rq_Method = meth, rq_Path = path, rq_HXRequest = '''', rq_Tenant = Some 7\<rparr>"

definition gate_ex :: "DState \<Rightarrow> Middleware" where
  "gate_ex s = new_Middleware (\<lambda>t. Inr (Some (dunning_ex s 40))) (Some (PrefixOutboundClassifier ['' send''])) False"

lemma clean_prefixes_ex: "clean_prefixes ['' send''] = [''/send'']"
  by code_simp

lemmas gate_eval = gate_Wrap_def gate_ex_def new_Middleware_def request_ex_def classify_def isReadMethod_def
  PrefixOutboundClassifier_def clean_prefixes_ex HasPrefix_def dunning_ex_def

theorem gate_tightens_for_writes_witness:
  "\<exists>body. gate_Wrap (gate_ex StateSuspendedFull) (request_ex ''POST'' ''/send/1'') = Denied body \<and> rs_Status body = 403"
proof -
  have "mw_lookup (gate_ex StateSuspendedFull) 7 = Inr (Some (dunning_ex StateSuspendedFull 40))"
    by (simp add: gate_ex_def new_Middleware_def)
  from gate_tightens_for_writes [OF _ _ this, of "request_ex ''POST'' ''/send/1''"] show ?thesis
    by (simp add: request_ex_def isReadMethod_def dunning_ex_def severity_order)
qed

text \<open>
  For reads it does not: a GET under an outbound prefix is refused while outbound traffic is suspended and
  served again when the tenant is fully suspended or cancelled.
\<close>

theorem outbound_read_reopens:
  "gate_Wrap (gate_ex StateSuspendedOutbound) (request_ex ''GET'' ''/send/1'')
       = Denied (deny (request_ex ''GET'' ''/send/1'') 403 msg_outbound) \<and>
   gate_Wrap (gate_ex StateSuspendedFull) (request_ex ''GET'' ''/send/1'') = ServeNext \<and>
   gate_Wrap (gate_ex StateCancelled) (request_ex ''GET'' ''/send/1'') = ServeNext"
  by (simp add: gate_eval)

text \<open>A reader of the escaped text: the five character references and everything else as it is.\<close>

fun html_unescape :: "string \<Rightarrow> string" where
  "html_unescape [] = []"
| "html_unescape (c # s) =
     (if c = CHR 0x26 then
        (if prefix ''amp;'' s then CHR 0x26 # html_unescape (drop 4 s)
         else if prefix ''lt;'' s then CHR 0x3C # html_unescape (drop 3 s)
         else if prefix ''gt;'' s then CHR 0x3E # html_unescape (drop 3 s)
         else if prefix ''quot;'' s then CHR 0x22 # html_unescape (drop 5 s)
         else if prefix ''#39;'' s then CHR 0x27 # html_unescape (drop 4 s)
         else c # html_unescape s)
      else c # html_unescape s)"

text \<open>
  The fragment the gate answers an HTMX request with is safe to insert: between its fixed tags there is
  no markup or quote character, and a reader that resolves the character references gets the reason back.
\<close>

theorem deny_fragment_is_escaped:
  assumes "isHTMXRequest r"
  shows "\<exists>x. rs_Body (deny r status reason) = ''<div class=\"dunning-blocked\" role=\"alert\">'' @ x @ ''</div>'' \<and>
    set x \<inter> {CHR 0x3C, CHR 0x3E, CHR 0x22, CHR 0x27} = {} \<and> html_unescape x = reason"
proof -
  have "set (htmlEscape s) \<inter> {CHR 0x3C, CHR 0x3E, CHR 0x22, CHR 0x27} = {}" for s
    by (induction s) (auto simp: htmlEscape_def escape_char_def)
  moreover have "html_unescape (htmlEscape s) = s" for s
    by (induction s) (simp_all add: htmlEscape_def escape_char_def)
  ultimately show ?thesis using assms by (intro exI [of _ "htmlEscape reason"]) (simp add: deny_def)
qed

theorem deny_fragment_is_escaped_witness:
  "\<exists>x. rs_Body (deny ((request_ex ''POST'' ''/x'')\<lparr>rq_HXRequest := ''True''\<rparr>) 403 ''a < b & c'') =
      ''<div class=\"dunning-blocked\" role=\"alert\">'' @ x @ ''</div>'' \<and> html_unescape x = ''a < b & c''"
proof -
  have "isHTMXRequest ((request_ex ''POST'' ''/x'')\<lparr>rq_HXRequest := ''True''\<rparr>)"
    by code_simp
  from deny_fragment_is_escaped [OF this] show ?thesis by blast
qed

end
