(* ===== verification/Pix.thy ===== *)
theory Pix
  imports Billing
begin

text \<open>
  PIX charges, \<^verbatim>\<open>src/internal/billing/pix\<close>: the charge aggregate with its transitions and the
  dispatch of a webhook event to them. A transition returns whether it changed the charge and the
  charge after it, or its error.
\<close>

section \<open>Statuses and events\<close>

datatype PixStatus = StatusPending | StatusPaid | StatusExpired | StatusCancelled | StatusOther string

definition pix_IsTerminal :: "PixStatus \<Rightarrow> bool" where
  "pix_IsTerminal s = (case s of StatusPaid \<Rightarrow> True | StatusExpired \<Rightarrow> True | StatusCancelled \<Rightarrow> True | _ \<Rightarrow> False)"

definition pix_IsKnown :: "PixStatus \<Rightarrow> bool" where
  "pix_IsKnown s = (case s of StatusOther _ \<Rightarrow> False | _ \<Rightarrow> True)"

datatype WebhookEventType = WebhookEventPaid | WebhookEventExpired | WebhookEventCancelled | WebhookEventOther string

definition event_IsKnown :: "WebhookEventType \<Rightarrow> bool" where
  "event_IsKnown t = (case t of WebhookEventOther _ \<Rightarrow> False | _ \<Rightarrow> True)"

record WebhookEvent =
  we_Source :: string
  we_ExternalID :: string
  we_EventType :: WebhookEventType
  we_Payload :: string
  we_OccurredAt :: time

section \<open>Errors\<close>

datatype pix_sentinel =
    pix_ErrZeroTenant
  | pix_ErrZeroInvoice
  | pix_ErrEmptyQRCode
  | pix_ErrEmptyCopyPaste
  | pix_ErrExpiresAtInPast
  | pix_ErrInvalidTransition
  | pix_ErrTTLNotElapsed
  | pix_ErrExternalIDAlreadySet
  | pix_ErrEmptyExternalID
  | pix_ErrNotFound
  | pix_ErrDuplicateEvent
  | pix_ErrUnknownEventType

type_synonym 'a presult = "(pix_sentinel, 'a) result"

abbreviation perr :: "pix_sentinel \<Rightarrow> 'a presult" where
  "perr e \<equiv> Inl (Sentinel e)"

section \<open>The charge\<close>

record PIXCharge =
  pc_id :: uuid
  pc_tenantID :: uuid
  pc_invoiceID :: uuid
  pc_externalID :: string
  pc_qrCode :: string
  pc_copyPaste :: string
  pc_status :: PixStatus
  pc_paidAt :: "time option"
  pc_expiresAt :: time
  pc_createdAt :: time
  pc_updatedAt :: time

definition NewCharge :: "uuid \<Rightarrow> uuid \<Rightarrow> uuid \<Rightarrow> string \<Rightarrow> string \<Rightarrow> time \<Rightarrow> time \<Rightarrow> PIXCharge presult" where
  "NewCharge fresh tenantID invoiceID qrCode copyPaste expiresAt now =
     (if tenantID = uuid_nil then perr pix_ErrZeroTenant
      else if invoiceID = uuid_nil then perr pix_ErrZeroInvoice
      else if qrCode = '''' then perr pix_ErrEmptyQRCode
      else if copyPaste = '''' then perr pix_ErrEmptyCopyPaste
      else if \<not> expiresAt > now then perr pix_ErrExpiresAtInPast
      else Inr \<lparr>pc_id = fresh, pc_tenantID = tenantID, pc_invoiceID = invoiceID, pc_externalID = '''',
                pc_qrCode = qrCode, pc_copyPaste = copyPaste, pc_status = StatusPending, pc_paidAt = None,
                pc_expiresAt = expiresAt, pc_createdAt = now, pc_updatedAt = now\<rparr>)"

definition AttachExternalID :: "PIXCharge \<Rightarrow> string \<Rightarrow> time \<Rightarrow> PIXCharge presult" where
  "AttachExternalID c externalID now =
     (if externalID = '''' then perr pix_ErrEmptyExternalID
      else if pc_externalID c \<noteq> '''' then perr pix_ErrExternalIDAlreadySet
      else if pc_status c \<noteq> StatusPending then perr pix_ErrInvalidTransition
      else Inr (c\<lparr>pc_externalID := externalID, pc_updatedAt := now\<rparr>))"

definition pix_MarkPaid :: "PIXCharge \<Rightarrow> time \<Rightarrow> (bool \<times> PIXCharge) presult" where
  "pix_MarkPaid c now =
     (case pc_status c of
        StatusPending \<Rightarrow> Inr (True, c\<lparr>pc_status := StatusPaid, pc_paidAt := Some now, pc_updatedAt := now\<rparr>)
      | StatusPaid \<Rightarrow> Inr (False, c)
      | _ \<Rightarrow> perr pix_ErrInvalidTransition)"

definition pix_Expire :: "PIXCharge \<Rightarrow> time \<Rightarrow> (bool \<times> PIXCharge) presult" where
  "pix_Expire c now =
     (case pc_status c of
        StatusPending \<Rightarrow>
          if \<not> now > pc_expiresAt c then perr pix_ErrTTLNotElapsed
          else Inr (True, c\<lparr>pc_status := StatusExpired, pc_updatedAt := now\<rparr>)
      | StatusOther _ \<Rightarrow> perr pix_ErrInvalidTransition
      | _ \<Rightarrow> Inr (False, c))"

definition pix_Cancel :: "PIXCharge \<Rightarrow> time \<Rightarrow> (bool \<times> PIXCharge) presult" where
  "pix_Cancel c now =
     (case pc_status c of
        StatusPending \<Rightarrow> Inr (True, c\<lparr>pc_status := StatusCancelled, pc_updatedAt := now\<rparr>)
      | StatusCancelled \<Rightarrow> Inr (False, c)
      | _ \<Rightarrow> perr pix_ErrInvalidTransition)"

definition applyEvent :: "PIXCharge \<Rightarrow> WebhookEventType \<Rightarrow> time \<Rightarrow> (bool \<times> PIXCharge) presult" where
  "applyEvent c eventType now =
     (case eventType of
        WebhookEventPaid \<Rightarrow> pix_MarkPaid c now
      | WebhookEventExpired \<Rightarrow>
          if pc_status c = StatusPending
          then Inr (True, c\<lparr>pc_status := StatusExpired, pc_updatedAt := now\<rparr>)
          else if pc_status c = StatusExpired then Inr (False, c)
          else perr pix_ErrInvalidTransition
      | WebhookEventCancelled \<Rightarrow> pix_Cancel c now
      | WebhookEventOther _ \<Rightarrow> perr pix_ErrUnknownEventType)"

section \<open>The lifecycle\<close>

inductive pix_step :: "PIXCharge \<Rightarrow> PIXCharge \<Rightarrow> bool" where
  step_attach: "AttachExternalID c x now = Inr c' \<Longrightarrow> pix_step c c'"
| step_event: "applyEvent c t now = Inr (changed, c') \<Longrightarrow> pix_step c c'"
| step_expire: "pix_Expire c now = Inr (changed, c') \<Longrightarrow> pix_step c c'"

inductive_cases pix_stepE: "pix_step c c'"

inductive pix_reach :: "PIXCharge \<Rightarrow> PIXCharge \<Rightarrow> bool" where
  reach_start: "pix_reach c c"
| reach_step: "pix_reach c c' \<Longrightarrow> pix_step c' c'' \<Longrightarrow> pix_reach c c''"

definition pix_ok :: "PIXCharge \<Rightarrow> bool" where
  "pix_ok c \<longleftrightarrow> pc_tenantID c \<noteq> uuid_nil \<and> pc_invoiceID c \<noteq> uuid_nil \<and> pc_qrCode c \<noteq> '''' \<and>
     pc_copyPaste c \<noteq> '''' \<and> pc_createdAt c < pc_expiresAt c \<and> pix_IsKnown (pc_status c) \<and>
     (pc_paidAt c = None \<longleftrightarrow> pc_status c \<noteq> StatusPaid)"

text \<open>What no transition changes, and what a terminal charge keeps.\<close>

definition pix_le :: "PIXCharge \<Rightarrow> PIXCharge \<Rightarrow> bool" where
  "pix_le c c' \<longleftrightarrow> pc_id c' = pc_id c \<and> pc_tenantID c' = pc_tenantID c \<and> pc_invoiceID c' = pc_invoiceID c \<and>
     pc_qrCode c' = pc_qrCode c \<and> pc_copyPaste c' = pc_copyPaste c \<and> pc_expiresAt c' = pc_expiresAt c \<and>
     pc_createdAt c' = pc_createdAt c \<and> (pc_externalID c \<noteq> '''' \<longrightarrow> pc_externalID c' = pc_externalID c) \<and>
     (pix_IsTerminal (pc_status c) \<longrightarrow> c' = c)"

lemmas pix_ops = AttachExternalID_def applyEvent_def pix_MarkPaid_def pix_Cancel_def pix_Expire_def
  pix_IsTerminal_def pix_IsKnown_def

lemma pix_step_ok: "pix_step c c' \<Longrightarrow> pix_ok c \<Longrightarrow> pix_ok c' \<and> pix_le c c'"
  by (erule pix_stepE)
    (auto simp: pix_ok_def pix_le_def pix_ops split: if_splits WebhookEventType.splits PixStatus.splits)

lemma pix_le_trans: "pix_le a b \<Longrightarrow> pix_le b c \<Longrightarrow> pix_le a c"
  by (auto simp: pix_le_def)

lemma pix_reach_ok: "pix_reach c c' \<Longrightarrow> pix_ok c \<Longrightarrow> pix_ok c' \<and> pix_le c c'"
proof (induction rule: pix_reach.induct)
  case (reach_start c)
  then show ?case by (simp add: pix_le_def)
next
  case (reach_step c c' c'')
  then show ?case using pix_step_ok pix_le_trans by blast
qed

text \<open>
  A PIX charge keeps its invariant in every history: from a new charge, whatever events, expiries and
  attachments come, the payment time is set exactly when it is paid, its identity, its QR code and its expiry
  never change, an external id is never replaced, and a charge that has reached a terminal status is never
  changed again.
\<close>

theorem pix_lifecycle:
  assumes "NewCharge fresh tenantID invoiceID qr cp expiresAt now = Inr c0" and "pix_reach c0 c" and "pix_reach c c'"
  shows "pix_ok c' \<and> pix_le c c' \<and> pc_id c' = fresh \<and> pc_expiresAt c' = expiresAt"
proof -
  have c0: "pix_ok c0" "pc_id c0 = fresh" "pc_expiresAt c0 = expiresAt"
    using assms(1) by (auto simp: NewCharge_def pix_ok_def pix_IsKnown_def split: if_splits)
  note c = pix_reach_ok [OF assms(2) c0(1)]
  note c' = pix_reach_ok [OF assms(3) conjunct1 [OF c]]
  show ?thesis using c c' c0 by (auto simp: pix_le_def)
qed

definition charge_ex :: "PixStatus \<Rightarrow> time option \<Rightarrow> PIXCharge" where
  "charge_ex s paid = \<lparr>pc_id = 60, pc_tenantID = 7, pc_invoiceID = 40, pc_externalID = ''tx'', pc_qrCode = ''qr'',
     pc_copyPaste = ''cp'', pc_status = s, pc_paidAt = paid, pc_expiresAt = 100, pc_createdAt = 0, pc_updatedAt = 0\<rparr>"

theorem pix_lifecycle_witness:
  "pix_ok ((charge_ex StatusPaid (Some 9))\<lparr>pc_updatedAt := 9\<rparr>)"
proof -
  let ?c = "(charge_ex StatusPending None)\<lparr>pc_externalID := ''''\<rparr>"
  have n: "NewCharge 60 7 40 ''qr'' ''cp'' 100 0 = Inr ?c" by (simp add: NewCharge_def charge_ex_def)
  have "AttachExternalID ?c ''tx'' 0 = Inr (charge_ex StatusPending None)"
    by (simp add: AttachExternalID_def charge_ex_def)
  then have r: "pix_reach ?c (charge_ex StatusPending None)" by (blast intro: pix_reach.intros pix_step.intros)
  have "applyEvent (charge_ex StatusPending None) WebhookEventPaid 9 =
      Inr (True, (charge_ex StatusPaid (Some 9))\<lparr>pc_updatedAt := 9\<rparr>)"
    by (simp add: applyEvent_def pix_MarkPaid_def charge_ex_def)
  then have "pix_reach (charge_ex StatusPending None) ((charge_ex StatusPaid (Some 9))\<lparr>pc_updatedAt := 9\<rparr>)"
    by (blast intro: pix_reach.intros pix_step.intros)
  from pix_lifecycle [OF n r this] show ?thesis by simp
qed

end
