(* ===== verification/PixStore.thy ===== *)
theory PixStore
  imports Pix BillingStore KeyedTable
begin

text \<open>
  The Postgres adapter of the PIX domain, \<^verbatim>\<open>src/internal/adapter/db/postgres/pix\<close>, over tables
  \<^verbatim>\<open>pix_charges\<close> and \<^verbatim>\<open>webhook_events\<close> of migration 0102, and the webhook reconciler of
  \<^verbatim>\<open>src/internal/billing/pix/reconciler.go\<close> as a program over the two. The reconciler's four calls are separate
  transactions. A payload that is not JSON makes \<^verbatim>\<open>Record\<close> fail before it has an effect, one of the faults
  every call can have.
\<close>

section \<open>Tables\<close>

record webhook_event_row =
  wr_source :: string
  wr_external_id :: string
  wr_event_type :: WebhookEventType
  wr_payload :: string
  wr_received_at :: time

record pix_db = crm_db +
  pix_charges :: "PIXCharge list"
  webhook_events :: "webhook_event_row list"

type_synonym 'a pprog = "(pix_db, call_env, 'a) prog"

section \<open>The repository\<close>

definition pix_GetByID :: "pix_db \<Rightarrow> uuid \<Rightarrow> PIXCharge presult" where
  "pix_GetByID db cid =
     (if cid = uuid_nil then perr pix_ErrNotFound
      else case find (\<lambda>c. pc_id c = cid) (pix_charges db) of None \<Rightarrow> perr pix_ErrNotFound | Some c \<Rightarrow> Inr c)"

definition GetByExternalID :: "pix_db \<Rightarrow> string \<Rightarrow> PIXCharge presult" where
  "GetByExternalID db externalID =
     (if externalID = '''' then perr pix_ErrNotFound
      else case find (\<lambda>c. pc_externalID c = externalID) (pix_charges db) of
             None \<Rightarrow> perr pix_ErrNotFound
           | Some c \<Rightarrow> Inr c)"

definition paid_at_consistency :: "PIXCharge \<Rightarrow> bool" where
  "paid_at_consistency c \<longleftrightarrow> (pc_status c = StatusPaid \<longleftrightarrow> pc_paidAt c \<noteq> None)"

definition external_id_taken :: "pix_db \<Rightarrow> PIXCharge \<Rightarrow> bool" where
  "external_id_taken db c \<longleftrightarrow> pc_externalID c \<noteq> '''' \<and>
     (\<exists>x \<in> set (pix_charges db). pc_id x \<noteq> pc_id c \<and> pc_externalID x = pc_externalID c)"

text \<open>The columns the upsert changes of an existing row.\<close>

definition charge_columns :: "PIXCharge \<Rightarrow> PIXCharge \<Rightarrow> PIXCharge" where
  "charge_columns x c = x\<lparr>pc_externalID := pc_externalID c, pc_status := pc_status c,
     pc_paidAt := pc_paidAt c, pc_updatedAt := pc_updatedAt c\<rparr>"

definition pix_Save :: "uuid \<Rightarrow> pix_db \<Rightarrow> PIXCharge \<Rightarrow> uuid \<Rightarrow> (unit \<times> pix_db) presult" where
  "pix_Save repoActor db c actorID =
     (let useActor = (if actorID = uuid_nil then repoActor else actorID);
          failed = (\<lambda>m. Inl (Wrapped ''pix/postgres: Save'' (Opaque m)))
      in if useActor = uuid_nil then Inl (Opaque ''postgres: actor id must not be uuid.Nil'')
         else if \<not> paid_at_consistency c then perr pix_ErrInvalidTransition
         else if \<not> pix_IsKnown (pc_status c) then failed ''pix_charges_status_check''
         else if external_id_taken db c then perr pix_ErrExternalIDAlreadySet
         else if \<exists>x \<in> set (pix_charges db). pc_id x = pc_id c then
           Inr ((), db\<lparr>pix_charges := map (\<lambda>x. if pc_id x = pc_id c then charge_columns x c else x) (pix_charges db)\<rparr>)
         else if \<not> (\<exists>i \<in> set (invoice db). inv_id i = pc_invoiceID c) then failed ''pix_charges_invoice_id_fkey''
         else Inr ((), db\<lparr>pix_charges := pix_charges db @ [c]\<rparr>))"

definition ListExpiredPending :: "pix_db \<Rightarrow> time \<Rightarrow> int \<Rightarrow> PIXCharge list presult" where
  "ListExpiredPending db before limit0 =
     Inr (take (if limit0 \<le> 0 then 100 else nat limit0)
       (sort_key pc_expiresAt
          (filter (\<lambda>c. pc_status c = StatusPending \<and> pc_expiresAt c \<le> before) (pix_charges db))))"

section \<open>The event log\<close>

definition same_event :: "string \<Rightarrow> string \<Rightarrow> WebhookEventType \<Rightarrow> webhook_event_row \<Rightarrow> bool" where
  "same_event source externalID eventType r \<longleftrightarrow>
     wr_source r = source \<and> wr_external_id r = externalID \<and> wr_event_type r = eventType"

definition recorded :: "pix_db \<Rightarrow> WebhookEvent \<Rightarrow> bool" where
  "recorded db evt \<longleftrightarrow>
     (\<exists>r \<in> set (webhook_events db). same_event (we_Source evt) (we_ExternalID evt) (we_EventType evt) r)"

definition EventLog_Record ::
  "pix_db \<Rightarrow> string \<Rightarrow> string \<Rightarrow> WebhookEventType \<Rightarrow> string \<Rightarrow> time \<Rightarrow> (unit \<times> pix_db) presult" where
  "EventLog_Record db source externalID eventType payload receivedAt =
     (if source = '''' then Inl (Opaque ''pix/postgres: Record: source is empty'')
      else if externalID = '''' then perr pix_ErrEmptyExternalID
      else if \<not> event_IsKnown eventType then perr pix_ErrUnknownEventType
      else if \<exists>r \<in> set (webhook_events db). same_event source externalID eventType r
        then perr pix_ErrDuplicateEvent
      else Inr ((), db\<lparr>webhook_events := webhook_events db @
             [\<lparr>wr_source = source, wr_external_id = externalID, wr_event_type = eventType,
               wr_payload = (if payload = '''' then ''{}'' else payload), wr_received_at = receivedAt\<rparr>]\<rparr>))"

definition EventLog_Forget :: "pix_db \<Rightarrow> string \<Rightarrow> string \<Rightarrow> WebhookEventType \<Rightarrow> (unit \<times> pix_db) presult" where
  "EventLog_Forget db source externalID eventType =
     (if source = '''' then Inl (Opaque ''pix/postgres: Forget: source is empty'')
      else if externalID = '''' then perr pix_ErrEmptyExternalID
      else if \<not> event_IsKnown eventType then perr pix_ErrUnknownEventType
      else Inr ((), db\<lparr>webhook_events := filter (\<lambda>r. \<not> same_event source externalID eventType r) (webhook_events db)\<rparr>))"

section \<open>The reconciler\<close>

record Outcome =
  oc_Duplicate :: bool
  oc_Transitioned :: bool
  oc_Charge :: "PIXCharge option"
  oc_StuckPendingSuspected :: bool

record reconciler =
  rec_repoActor :: uuid
  rec_actorID :: uuid

definition duplicate_outcome :: "PIXCharge presult \<Rightarrow> Outcome" where
  "duplicate_outcome peek =
     \<lparr>oc_Duplicate = True, oc_Transitioned = False, oc_Charge = None,
      oc_StuckPendingSuspected = (case peek of Inl _ \<Rightarrow> False | Inr c \<Rightarrow> pc_status c = StatusPending)\<rparr>"

definition applied_outcome :: "PIXCharge \<Rightarrow> bool \<Rightarrow> Outcome" where
  "applied_outcome c changed =
     \<lparr>oc_Duplicate = False, oc_Transitioned = changed, oc_Charge = Some c, oc_StuckPendingSuspected = False\<rparr>"

text \<open>
  \<^verbatim>\<open>Apply\<close>: \<open>after_lookup\<close> is what it does with the charge it has looked up. When the compensation fails too,
  \<^verbatim>\<open>errors.Join\<close> still answers to \<open>ErrNotFound\<close>, as the wrapped error here does.
\<close>

definition after_lookup :: "reconciler \<Rightarrow> WebhookEvent \<Rightarrow> PIXCharge presult \<Rightarrow> Outcome presult pprog" where
  "after_lookup rc evt r =
     (case r of
        Inl e \<Rightarrow>
          if errors_is e pix_ErrNotFound
          then command (\<lambda>ev db. EventLog_Forget db (we_Source evt) (we_ExternalID evt) (we_EventType evt))
                 (\<lambda>f. case f of
                    Inl _ \<Rightarrow> Ret (Inl (Wrapped ''pix: compensate dedup row'' e))
                  | Inr _ \<Rightarrow> Ret (Inl e))
          else Ret (Inl e)
      | Inr charge \<Rightarrow>
          (case applyEvent charge (we_EventType evt) (we_OccurredAt evt) of
             Inl e \<Rightarrow> Ret (Inl e)
           | Inr (changed, charge') \<Rightarrow>
               if changed
               then command (\<lambda>ev db. pix_Save (rec_repoActor rc) db charge' (rec_actorID rc)) (\<lambda>s. case s of
                      Inl e \<Rightarrow> Ret (Inl e)
                    | Inr _ \<Rightarrow> Ret (Inr (applied_outcome charge' changed)))
               else Ret (Inr (applied_outcome charge' changed))))"

definition pix_Apply :: "reconciler \<Rightarrow> WebhookEvent \<Rightarrow> Outcome presult pprog" where
  "pix_Apply rc evt =
     (if \<not> event_IsKnown (we_EventType evt) then Ret (perr pix_ErrUnknownEventType)
      else if we_ExternalID evt = '''' then Ret (perr pix_ErrEmptyExternalID)
      else command (\<lambda>ev db. EventLog_Record db (we_Source evt) (we_ExternalID evt) (we_EventType evt)
                              (we_Payload evt) (we_OccurredAt evt)) (\<lambda>r. case r of
        Inl e \<Rightarrow>
          if errors_is e pix_ErrDuplicateEvent
          then query (\<lambda>db. GetByExternalID db (we_ExternalID evt)) (\<lambda>peek. Ret (Inr (duplicate_outcome peek)))
          else Ret (Inl e)
      | Inr _ \<Rightarrow> query (\<lambda>db. GetByExternalID db (we_ExternalID evt)) (after_lookup rc evt)))"

section \<open>The charges as a keyed table\<close>

abbreviation charge_row :: "pix_db \<Rightarrow> uuid \<Rightarrow> PIXCharge option" where
  "charge_row db cid \<equiv> find_key pc_id cid (pix_charges db)"

definition pix_rest :: "pix_db \<Rightarrow> crm_db \<times> webhook_event_row list" where
  "pix_rest db = (crm_db.truncate db, webhook_events db)"

lemma charge_columns_key [simp]: "pc_id (charge_columns x c) = pc_id x"
  by (simp add: charge_columns_def)

lemma pix_Save_upsert:
  assumes "pix_Save ra db c a = Inr (u, db')"
  shows "db' = db\<lparr>pix_charges := upsert pc_id charge_columns c (pix_charges db)\<rparr>"
  using assms by (auto simp: pix_Save_def Let_def upsert_def split: if_splits)

interpretation ct: keyed_table pc_id charge_row "\<lambda>db c. pix_Save ra db c a" pix_rest charge_columns
  for ra a :: uuid
  by unfold_locales (auto simp: pix_Save_upsert find_key_upsert pix_rest_def crm_db.defs dest!: pix_Save_upsert)

end
