(* ===== verification/PixProps.thy ===== *)
theory PixProps
  imports PixStore
begin

text \<open>
  What the webhook reconciler guarantees: an event is applied once, a webhook that is earlier than its charge leaves
  no trace, a paid charge stays paid in every interleaving of deliveries, and what a failed save leaves
  behind.
\<close>

definition pix_inv :: "pix_db \<Rightarrow> bool" where
  "pix_inv db \<longleftrightarrow> distinct (map pc_id (pix_charges db)) \<and>
     (\<forall>c \<in> set (pix_charges db). paid_at_consistency c \<and> pix_IsKnown (pc_status c)) \<and>
     (\<forall>x \<in> set (pix_charges db). \<forall>y \<in> set (pix_charges db).
        pc_externalID x = pc_externalID y \<and> pc_externalID x \<noteq> '''' \<longrightarrow> pc_id x = pc_id y)"

lemma charge_row_in: "pix_inv db \<Longrightarrow> c \<in> set (pix_charges db) \<Longrightarrow> charge_row db (pc_id c) = Some c"
  by (simp add: pix_inv_def find_key_distinct)

lemma same_charge: "pix_inv db \<Longrightarrow> x \<in> set (pix_charges db) \<Longrightarrow> y \<in> set (pix_charges db) \<Longrightarrow> pc_id x = pc_id y \<Longrightarrow> x = y"
  by (metis charge_row_in option.inject)

lemma GetByExternalID_found:
  assumes inv: "pix_inv db" and c: "c \<in> set (pix_charges db)" "pc_externalID c = ext" "ext \<noteq> ''''"
  shows "GetByExternalID db ext = Inr c"
proof -
  have "find (\<lambda>c. pc_externalID c = ext) (pix_charges db) \<noteq> None" using c by (auto simp: find_None_iff)
  then obtain x where x: "find (\<lambda>c. pc_externalID c = ext) (pix_charges db) = Some x" by auto
  then have "x \<in> set (pix_charges db)" "pc_externalID x = ext" using find_SomeD by fast+
  then have "pc_id x = pc_id c" using inv c unfolding pix_inv_def by metis
  then have "x = c" using same_charge [OF inv] \<open>x \<in> set (pix_charges db)\<close> c(1) by blast
  then show ?thesis using x c by (simp add: GetByExternalID_def)
qed

lemma GetByExternalID_Inr: "GetByExternalID db ext = Inr c \<Longrightarrow> c \<in> set (pix_charges db) \<and> pc_externalID c = ext \<and> ext \<noteq> ''''"
  by (auto simp: GetByExternalID_def dest: find_SomeD split: if_splits option.splits)

lemma Record_fresh:
  assumes "\<not> recorded db evt" and "we_Source evt \<noteq> ''''" and "we_ExternalID evt \<noteq> ''''" and "event_IsKnown (we_EventType evt)"
  obtains row where "EventLog_Record db (we_Source evt) (we_ExternalID evt) (we_EventType evt) (we_Payload evt) (we_OccurredAt evt)
      = Inr ((), db\<lparr>webhook_events := webhook_events db @ [row]\<rparr>)"
    and "same_event (we_Source evt) (we_ExternalID evt) (we_EventType evt) row"
  using assms by (auto simp: EventLog_Record_def recorded_def same_event_def)

lemma pix_inv_events [simp]: "pix_inv (db\<lparr>webhook_events := es\<rparr>) = pix_inv db"
  by (simp add: pix_inv_def)

lemma charges_events [simp]: "GetByExternalID (db\<lparr>webhook_events := es\<rparr>) ext = GetByExternalID db ext"
  by (simp add: GetByExternalID_def)

text \<open>A delivery of a recorded event changes nothing, whatever fails, and is a duplicate if it succeeds.\<close>

lemma recorded_unchanged:
  assumes "recorded db evt"
  shows "store_after (pix_Apply rc evt) os db = db"
    and "(\<exists>e. result_of (pix_Apply rc evt) os db = Inl e) \<or>
         (\<exists>peek. result_of (pix_Apply rc evt) os db = Inr (duplicate_outcome peek))"
  using assms
  by (auto simp: pix_Apply_def store_after_def result_of_def EventLog_Record_def recorded_def
      split: fault.splits)

lemma save_transition:
  assumes inv: "pix_inv db" and c: "c \<in> set (pix_charges db)"
    and c': "pc_id c' = pc_id c" "pc_externalID c' = pc_externalID c" "paid_at_consistency c'" "pix_IsKnown (pc_status c')"
    and a: "a \<noteq> uuid_nil"
  obtains db' where "pix_Save ra db c' a = Inr ((), db')" and "charge_row db' (pc_id c) = Some (charge_columns c c')"
    and "ct.touches {pc_id c} db db'"
proof -
  have "\<not> external_id_taken db c'" using inv c c'(1,2) unfolding external_id_taken_def pix_inv_def by metis
  moreover have "\<exists>x \<in> set (pix_charges db). pc_id x = pc_id c'" using c c'(1) by auto
  ultimately obtain db' where s: "pix_Save ra db c' a = Inr ((), db')"
    using a c' by (simp add: pix_Save_def Let_def)
  have "charge_row db' (pc_id c) = Some (charge_columns c c')"
    using ct.lookup_own [OF s, of c] charge_row_in [OF inv c] c'(1) by simp
  moreover have "ct.touches {pc_id c} db db'" using ct.touches_save [OF s] c'(1) by simp
  ultimately show ?thesis using s that by blast
qed

text \<open>The charge after its payment.\<close>

abbreviation paid_charge :: "PIXCharge \<Rightarrow> time \<Rightarrow> PIXCharge" where
  "paid_charge c t \<equiv> c\<lparr>pc_status := StatusPaid, pc_paidAt := Some t, pc_updatedAt := t\<rparr>"

lemma paid_columns [simp]: "charge_columns c (paid_charge c t) = paid_charge c t"
  by (simp add: charge_columns_def)

text \<open>
  C13. A payment is applied exactly once: the first delivery of a \<open>paid\<close> event for a pending charge marks it paid at the
  time of the event and touches no other charge and no other table but the event log; every further delivery, whatever
  its payload and whatever fails during it, changes nothing, and when it succeeds it is reported as a duplicate.
\<close>

theorem payment_applied_once:
  assumes q: "quiet os" and inv: "pix_inv db" and c: "c \<in> set (pix_charges db)" "pc_status c = StatusPending"
    and evt: "we_EventType evt = WebhookEventPaid" "we_ExternalID evt = pc_externalID c" "pc_externalID c \<noteq> ''''"
      "we_Source evt \<noteq> ''''" "\<not> recorded db evt"
    and a: "rec_actorID rc \<noteq> uuid_nil"
  shows "\<exists>db1. store_after (pix_Apply rc evt) os db = db1 \<and>
    result_of (pix_Apply rc evt) os db = Inr (applied_outcome (paid_charge c (we_OccurredAt evt)) True) \<and>
    charge_row db1 (pc_id c) = Some (paid_charge c (we_OccurredAt evt)) \<and>
    (\<forall>k. k \<noteq> pc_id c \<longrightarrow> charge_row db1 k = charge_row db k) \<and> crm_db.truncate db1 = crm_db.truncate db \<and>
    (\<forall>p t os'. store_after (pix_Apply rc (evt\<lparr>we_Payload := p, we_OccurredAt := t\<rparr>)) os' db1 = db1 \<and>
       ((\<exists>e. result_of (pix_Apply rc (evt\<lparr>we_Payload := p, we_OccurredAt := t\<rparr>)) os' db1 = Inl e) \<or>
        (\<exists>peek. result_of (pix_Apply rc (evt\<lparr>we_Payload := p, we_OccurredAt := t\<rparr>)) os' db1
           = Inr (duplicate_outcome peek))))"
proof -
  let ?c' = "paid_charge c (we_OccurredAt evt)"
  have nf: "o_fault (os m) = NoFault" for m using q by (simp add: quiet_def)
  have k: "event_IsKnown (we_EventType evt)" using evt(1) by (simp add: event_IsKnown_def)
  obtain row where r: "EventLog_Record db (we_Source evt) (we_ExternalID evt) (we_EventType evt) (we_Payload evt) (we_OccurredAt evt)
      = Inr ((), db\<lparr>webhook_events := webhook_events db @ [row]\<rparr>)"
    and row: "same_event (we_Source evt) (we_ExternalID evt) (we_EventType evt) row"
    using Record_fresh [OF evt(5,4) _ k] evt(2,3) by auto
  define db0 where "db0 = db\<lparr>webhook_events := webhook_events db @ [row]\<rparr>"
  have inv0: "pix_inv db0" and c0: "c \<in> set (pix_charges db0)" using inv c by (simp_all add: db0_def)
  have ok: "paid_at_consistency ?c'" "pix_IsKnown (pc_status ?c')" by (simp_all add: paid_at_consistency_def pix_IsKnown_def)
  obtain db1 where s: "pix_Save (rec_repoActor rc) db0 ?c' (rec_actorID rc) = Inr ((), db1)"
    and row1: "charge_row db1 (pc_id c) = Some ?c'" and t: "ct.touches {pc_id c} db0 db1"
    using save_transition [OF inv0 c0 _ _ ok a, of "rec_repoActor rc"] by auto
  have run: "run (pix_Apply rc evt) os 0 db = (Inr (applied_outcome ?c' True), 3, db1)"
    using nf evt k r c(2) s GetByExternalID_found [OF inv c(1) evt(2) [symmetric]]
    by (simp add: pix_Apply_def after_lookup_def db0_def applyEvent_def pix_MarkPaid_def)
  have rest: "crm_db.truncate db1 = crm_db.truncate db" "webhook_events db1 = webhook_events db @ [row]"
    using ct.touches_rest [OF t] by (auto simp: pix_rest_def db0_def crm_db.defs)
  have "recorded db1 (evt\<lparr>we_Payload := p, we_OccurredAt := u\<rparr>)" for p u
    using rest(2) row by (simp add: recorded_def)
  then show ?thesis using run row1 rest(1) ct.touches_lookup [OF t] recorded_unchanged
    by (auto simp: store_after_def result_of_def db0_def)
qed

text \<open>
  A webhook that arrives before its charge leaves no trace: the reconciler reports \<open>ErrNotFound\<close>, the event log is as
  before, and so the retry of the PSP is processed as if it were the first delivery.
\<close>

theorem early_webhook_leaves_no_trace:
  assumes q: "quiet os" and no: "\<forall>c \<in> set (pix_charges db). pc_externalID c \<noteq> we_ExternalID evt"
    and evt: "event_IsKnown (we_EventType evt)" "we_ExternalID evt \<noteq> ''''" "we_Source evt \<noteq> ''''" "\<not> recorded db evt"
  shows "store_after (pix_Apply rc evt) os db = db \<and> result_of (pix_Apply rc evt) os db = perr pix_ErrNotFound"
proof -
  have nf: "o_fault (os m) = NoFault" for m using q by (simp add: quiet_def)
  obtain row where r: "EventLog_Record db (we_Source evt) (we_ExternalID evt) (we_EventType evt) (we_Payload evt) (we_OccurredAt evt)
      = Inr ((), db\<lparr>webhook_events := webhook_events db @ [row]\<rparr>)"
    and row: "same_event (we_Source evt) (we_ExternalID evt) (we_EventType evt) row"
    using Record_fresh [OF evt(4,3,2,1)] by blast
  have g: "GetByExternalID db (we_ExternalID evt) = perr pix_ErrNotFound"
    using no by (auto simp: GetByExternalID_def dest: find_SomeD split: option.splits)
  have f: "filter (\<lambda>r. \<not> same_event (we_Source evt) (we_ExternalID evt) (we_EventType evt) r) (webhook_events db @ [row])
      = webhook_events db"
    using evt(4) row by (auto simp: recorded_def filter_id_conv)
  show ?thesis using nf r g f evt
    by (simp add: store_after_def result_of_def pix_Apply_def after_lookup_def EventLog_Forget_def)
qed

text \<open>
  A save that fails strands the payment: when the reconciler has recorded the event and the save of the charge fails,
  the error asks the PSP to retry, but every further delivery of the event is answered from the event log, so the charge
  stays pending for good.
\<close>

theorem failed_save_strands_the_payment:
  assumes f: "o_fault (os 0) = NoFault" "o_fault (os 1) = NoFault" "o_fault (os 2) = FailBefore msg"
    and inv: "pix_inv db" and c: "c \<in> set (pix_charges db)" "pc_status c = StatusPending"
    and evt: "we_EventType evt = WebhookEventPaid" "we_ExternalID evt = pc_externalID c" "pc_externalID c \<noteq> ''''"
      "we_Source evt \<noteq> ''''" "\<not> recorded db evt"
  shows "result_of (pix_Apply rc evt) os db = Inl (Opaque msg) \<and>
    charge_row (fold (\<lambda>os. store_after (pix_Apply rc evt) os) oss (store_after (pix_Apply rc evt) os db)) (pc_id c) = Some c"
proof -
  have k: "event_IsKnown (we_EventType evt)" using evt(1) by (simp add: event_IsKnown_def)
  obtain row where r: "EventLog_Record db (we_Source evt) (we_ExternalID evt) (we_EventType evt) (we_Payload evt) (we_OccurredAt evt)
      = Inr ((), db\<lparr>webhook_events := webhook_events db @ [row]\<rparr>)"
    and row: "same_event (we_Source evt) (we_ExternalID evt) (we_EventType evt) row"
    using Record_fresh [OF evt(5,4) _ k] evt(2,3) by auto
  define db0 where "db0 = db\<lparr>webhook_events := webhook_events db @ [row]\<rparr>"
  have run: "run (pix_Apply rc evt) os 0 db = (Inl (Opaque msg), 3, db0)"
    using f evt k r c(2) GetByExternalID_found [OF inv c(1) evt(2) [symmetric]]
    by (simp add: pix_Apply_def after_lookup_def db0_def applyEvent_def pix_MarkPaid_def numeral_2_eq_2)
  have "recorded db0 evt" using row by (simp add: recorded_def db0_def)
  then have "fold (\<lambda>os. store_after (pix_Apply rc evt) os) oss db0 = db0"
    by (induction oss) (simp_all add: recorded_unchanged)
  moreover have "charge_row db0 (pc_id c) = Some c" using charge_row_in [OF inv c(1)] by (simp add: db0_def)
  ultimately show ?thesis using run by (simp add: store_after_def result_of_def)
qed

section \<open>Interleavings of deliveries\<close>

lemma pix_Save_checks:
  assumes "pix_Save ra db c a = Inr (u, db')"
  shows "paid_at_consistency c" "pix_IsKnown (pc_status c)" "\<not> external_id_taken db c"
  using assms by (auto simp: pix_Save_def Let_def split: if_splits)

lemma charge_columns_sel [simp]:
  "pc_externalID (charge_columns x c) = pc_externalID c" "pc_status (charge_columns x c) = pc_status c"
  "paid_at_consistency (charge_columns x c) = paid_at_consistency c"
  by (simp_all add: charge_columns_def paid_at_consistency_def)

lemma in_upsert: "x \<in> set (upsert pc_id charge_columns c rows) \<Longrightarrow>
    (x \<in> set rows \<and> pc_id x \<noteq> pc_id c) \<or> x = c \<or> (\<exists>y \<in> set rows. pc_id y = pc_id c \<and> x = charge_columns y c)"
  by (auto simp: upsert_def split: if_splits)

lemma distinct_upsert:
  assumes "distinct (map key rows)" and "\<And>x. key (upd x r) = key x"
  shows "distinct (map key (upsert key upd r rows))"
proof -
  have "map key (map (\<lambda>x. if key x = key r then upd x r else x) rows) = map key rows" using assms(2) by auto
  then show ?thesis using assms(1) by (auto simp: upsert_def simp del: map_map)
qed

lemma pix_Save_inv:
  assumes inv: "pix_inv db" and s: "pix_Save ra db c a = Inr (u, db')"
  shows "pix_inv db'"
proof -
  let ?rows = "upsert pc_id charge_columns c (pix_charges db)"
  note chk = pix_Save_checks [OF s]
  have rows: "pix_charges db' = ?rows" using pix_Save_upsert [OF s] by simp
  have old: "(x \<in> set (pix_charges db) \<and> pc_id x \<noteq> pc_id c) \<or> (pc_id x = pc_id c \<and> pc_externalID x = pc_externalID c
      \<and> pc_status x = pc_status c \<and> paid_at_consistency x)" if "x \<in> set ?rows" for x
    using in_upsert [OF that] chk(1) by auto
  have "distinct (map pc_id ?rows)" using inv by (intro distinct_upsert) (simp_all add: pix_inv_def)
  moreover have "paid_at_consistency x \<and> pix_IsKnown (pc_status x)" if "x \<in> set ?rows" for x
    using old [OF that] inv chk by (auto simp: pix_inv_def)
  moreover have "pc_id x = pc_id y"
    if xy: "x \<in> set ?rows" "y \<in> set ?rows" and e: "pc_externalID x = pc_externalID y" "pc_externalID x \<noteq> ''''" for x y
    using old [OF xy(1)] old [OF xy(2)] e inv chk(3) unfolding pix_inv_def external_id_taken_def by metis
  ultimately show ?thesis unfolding pix_inv_def rows by blast
qed

text \<open>What a store of charges may become while only payments are delivered and new charges appear.\<close>

definition charge_le :: "PIXCharge \<Rightarrow> PIXCharge \<Rightarrow> bool" where
  "charge_le c c' \<longleftrightarrow> pc_id c' = pc_id c \<and> pc_tenantID c' = pc_tenantID c \<and> pc_invoiceID c' = pc_invoiceID c \<and>
     pc_externalID c' = pc_externalID c \<and> pc_qrCode c' = pc_qrCode c \<and> pc_copyPaste c' = pc_copyPaste c \<and>
     pc_expiresAt c' = pc_expiresAt c \<and> pc_createdAt c' = pc_createdAt c \<and>
     (pc_status c' = pc_status c \<or> pc_status c = StatusPending \<and> pc_status c' = StatusPaid)"

definition pix_evolves :: "pix_db \<Rightarrow> pix_db \<Rightarrow> bool" where
  "pix_evolves db db' \<longleftrightarrow>
     (\<forall>k c. charge_row db k = Some c \<longrightarrow> (\<exists>c'. charge_row db' k = Some c' \<and> charge_le c c'))"

lemma charge_le_refl [simp]: "charge_le c c"
  by (simp add: charge_le_def)

lemma charge_le_trans: "charge_le a b \<Longrightarrow> charge_le b c \<Longrightarrow> charge_le a c"
  by (auto simp: charge_le_def)

definition fresh_ids :: "pix_db \<Rightarrow> call_env \<Rightarrow> bool" where
  "fresh_ids db ev \<longleftrightarrow> (\<forall>n. charge_row db (o_ids ev n) = None)"

interpretation pix_rg: rely_guarantee pix_inv pix_evolves fresh_ids
proof unfold_locales
  show "pix_evolves s s" for s by (simp add: pix_evolves_def)
  show "pix_evolves s u" if "pix_evolves s t" "pix_evolves t u" for s t u
    using that charge_le_trans unfolding pix_evolves_def by meson
qed

lemma pix_evolves_events [simp]: "pix_evolves db (db\<lparr>webhook_events := es\<rparr>)"
  by (simp add: pix_evolves_def)

abbreviation pix_safe :: "pix_db \<Rightarrow> Outcome presult pprog \<Rightarrow> bool" where
  "pix_safe \<equiv> safe pix_inv pix_evolves fresh_ids (\<lambda>_ _. True)"

lemma pix_safe_Ret [simp]: "pix_safe db (Ret r)"
  by (simp add: safe_Ret)

lemma pix_safe_events:
  assumes "\<And>ev db x db'. c ev db = Inr (x, db') \<Longrightarrow> \<exists>es. db' = db\<lparr>webhook_events := es\<rparr>"
    and "\<And>t r. pix_inv t \<Longrightarrow> pix_safe t (k r)"
  shows "pix_safe db (command c k)"
proof (rule safe_commandI)
  fix s' ev x s''
  assume "pix_inv s'" "c ev s' = Inr (x, s'')"
  then show "pix_inv s'' \<and> pix_evolves s' s'' \<and> pix_safe s'' (k (Inr x)) \<and> (\<forall>m. pix_safe s'' (k (Inl (Opaque m))))"
    using assms by fastforce
qed (use assms(2) in \<open>auto intro: pix_rg.evolves_refl\<close>)

lemma pix_safe_paid:
  assumes c: "charge_row db (pc_id c) = Some c" "pc_status c = StatusPending" and inv: "pix_inv db"
  shows "pix_safe db (command (\<lambda>ev db. pix_Save ra db (paid_charge c t) a) (\<lambda>s. case s of Inl e \<Rightarrow> Ret (Inl e) | Inr _ \<Rightarrow> Ret r))"
proof (rule safe_commandI)
  fix s' ev x s''
  assume i: "pix_inv s'" and e: "pix_evolves db s'" and s: "pix_Save ra s' (paid_charge c t) a = Inr (x, s'')"
  obtain c2 where c2: "charge_row s' (pc_id c) = Some c2" "charge_le c c2"
    using e c(1) unfolding pix_evolves_def by blast
  have own: "charge_row s'' (pc_id c) = Some (charge_columns c2 (paid_charge c t))"
    using ct.lookup_own [OF s, of c2] c2(1) by simp
  have le: "charge_le c2 (charge_columns c2 (paid_charge c t))"
    using c2(2) c(2) by (auto simp: charge_le_def charge_columns_def)
  have "ct.touches {pc_id c} s' s''" using ct.touches_save [OF s] by simp
  then have "pix_evolves s' s''"
    unfolding pix_evolves_def using own le c2(1) by (metis charge_le_refl ct.touches_lookup option.inject singletonD)
  then show "pix_inv s'' \<and> pix_evolves s' s'' \<and> pix_safe s'' (case Inr x of Inl e \<Rightarrow> Ret (Inl e) | Inr _ \<Rightarrow> Ret r)
      \<and> (\<forall>m. pix_safe s'' (case Inl (Opaque m) of Inl e \<Rightarrow> Ret (Inl e) | Inr _ \<Rightarrow> Ret r))"
    using pix_Save_inv [OF i s] by simp
qed (auto intro: pix_rg.evolves_refl)

lemma after_lookup_safe:
  assumes evt: "we_EventType evt = WebhookEventPaid" and i: "pix_inv db"
    and r: "r = GetByExternalID db (we_ExternalID evt) \<or> (\<exists>m. r = Inl (Opaque m))"
  shows "pix_safe db (after_lookup rc evt r)"
proof (cases r)
  case (Inl e)
  have "pix_safe t (command (\<lambda>ev db. EventLog_Forget db x y z)
      (\<lambda>f. case f of Inl _ \<Rightarrow> Ret (Inl (Wrapped m e)) | Inr _ \<Rightarrow> Ret (Inl e)))" for t x y z m
    by (rule pix_safe_events) (auto simp: EventLog_Forget_def split: if_splits sum.splits)
  then show ?thesis by (simp add: after_lookup_def Inl)
next
  case (Inr c)
  then have "charge_row db (pc_id c) = Some c" using r GetByExternalID_Inr [of db] charge_row_in [OF i] by auto
  then show ?thesis using pix_safe_paid [OF _ _ i, of c] evt
    by (cases "pc_status c") (simp_all add: after_lookup_def Inr applyEvent_def pix_MarkPaid_def)
qed

lemma pix_Apply_safe:
  assumes "we_EventType evt = WebhookEventPaid"
  shows "pix_safe db (pix_Apply rc evt)"
proof -
  have look: "pix_safe t (query (\<lambda>db. GetByExternalID db (we_ExternalID evt)) k)"
    if "\<And>db r. pix_inv db \<Longrightarrow> r = GetByExternalID db (we_ExternalID evt) \<or> (\<exists>m. r = Inl (Opaque m)) \<Longrightarrow> pix_safe db (k r)"
    for t k using that by (intro safe_queryI) (auto intro: pix_rg.evolves_refl)
  have "pix_safe db (command (\<lambda>ev db. EventLog_Record db s x t p u) (\<lambda>r. case r of
        Inl e \<Rightarrow> if errors_is e pix_ErrDuplicateEvent
          then query (\<lambda>db. GetByExternalID db (we_ExternalID evt)) (\<lambda>peek. Ret (Inr (duplicate_outcome peek)))
          else Ret (Inl e)
      | Inr _ \<Rightarrow> query (\<lambda>db. GetByExternalID db (we_ExternalID evt)) (after_lookup rc evt)))" for s x t p u
    by (rule pix_safe_events)
      (auto simp: EventLog_Record_def split: if_splits sum.splits intro!: look after_lookup_safe [OF assms])
  then show ?thesis by (simp add: pix_Apply_def)
qed

text \<open>
  The programs that run side by side: deliveries of payments, which are the only events the parser of the PSP's payload
  produces, and the insertion of new charges under fresh ids.
\<close>

inductive pix_call :: "reconciler \<Rightarrow> pix_db \<Rightarrow> Outcome presult pprog \<Rightarrow> bool" for rc where
  call_paid: "we_EventType evt = WebhookEventPaid \<Longrightarrow> pix_call rc db (pix_Apply rc evt)"
| call_create: "pix_call rc db (command (\<lambda>ev db. pix_Save (rec_repoActor rc) db (c\<lparr>pc_id := o_ids ev 0\<rparr>) (rec_actorID rc))
    (\<lambda>r. Ret (case r of Inl e \<Rightarrow> Inl e | Inr _ \<Rightarrow> Inr (applied_outcome c False))))"

lemma pix_call_safe: "pix_call rc db p \<Longrightarrow> pix_inv db \<Longrightarrow> pix_safe db p"
proof (induction rule: pix_call.induct)
  case (call_create db c)
  show ?case
  proof (rule safe_commandI)
    fix s' ev x s''
    assume i: "pix_inv s'" and f: "fresh_ids s' ev"
      and s: "pix_Save (rec_repoActor rc) s' (c\<lparr>pc_id := o_ids ev 0\<rparr>) (rec_actorID rc) = Inr (x, s'')"
    have "ct.touches {o_ids ev 0} s' s''" using ct.touches_save [OF s] by simp
    then have "pix_evolves s' s''"
      unfolding pix_evolves_def using f by (metis charge_le_refl ct.touches_lookup fresh_ids_def option.distinct(1) singletonD)
    then show "pix_inv s'' \<and> pix_evolves s' s'' \<and>
        pix_safe s'' (Ret (case Inr x of Inl e \<Rightarrow> Inl e | Inr _ \<Rightarrow> Inr (applied_outcome c False))) \<and>
        (\<forall>m. pix_safe s'' (Ret (case Inl (Opaque m) of Inl e \<Rightarrow> Inl e | Inr _ \<Rightarrow> Inr (applied_outcome c False))))"
      using pix_Save_inv [OF i s] by simp
  qed (auto intro: pix_rg.evolves_refl)
qed (rule pix_Apply_safe)

text \<open>
  A paid charge stays paid: in every interleaving of concurrent and repeated deliveries of payments and of new
  charges, whatever calls fail or lose their acknowledgement, every charge keeps its identity, its invoice and
  its external id, moves at most from pending to paid, and has a payment time exactly when it is paid.
\<close>

theorem paid_charges_stay_paid:
  assumes "pix_inv db0" and "pool_reach fresh_ids (pix_call rc) db0 (db, pool)"
    and "c \<in> set (pix_charges db0)"
  shows "\<exists>c' \<in> set (pix_charges db). charge_le c c' \<and> (pc_paidAt c' \<noteq> None \<longleftrightarrow> pc_status c' = StatusPaid) \<and>
    (pc_status c = StatusPaid \<longrightarrow> pc_status c' = StatusPaid)"
proof -
  have r: "pix_inv db" "pix_evolves db0 db"
    using pix_rg.pool_reach_safe [OF assms(2,1) pix_call_safe] by auto
  obtain c' where c': "charge_row db (pc_id c) = Some c'" "charge_le c c'"
    using r(2) charge_row_in [OF assms(1,3)] unfolding pix_evolves_def by blast
  have "c' \<in> set (pix_charges db)" using find_key_SomeD [OF c'(1)] by simp
  then show ?thesis using c'(2) r(1) by (auto simp: pix_inv_def paid_at_consistency_def charge_le_def)
qed

section \<open>Witnesses\<close>

definition pix_db_ex :: pix_db where
  "pix_db_ex = \<lparr>token_wallet = [], token_ledger = [], courtesy_grant = [], master_grant = [], subscription = [],
     invoice = [], plans = [], pix_charges = [charge_ex StatusPending None], webhook_events = []\<rparr>"

definition paid_event_ex :: "string \<Rightarrow> WebhookEvent" where
  "paid_event_ex x = \<lparr>we_Source = ''banco-inter'', we_ExternalID = x, we_EventType = WebhookEventPaid, we_Payload = '''',
     we_OccurredAt = 9\<rparr>"

definition rec_ex :: reconciler where
  "rec_ex = \<lparr>rec_repoActor = 9, rec_actorID = 9\<rparr>"

definition pix_env :: "nat \<Rightarrow> nat \<Rightarrow> call_env" where
  "pix_env bad n = \<lparr>o_fault = (if n = bad then FailBefore ''timeout'' else NoFault), o_now = 10, o_ids = \<lambda>k. 1000 + k\<rparr>"

lemmas pix_ex_defs = pix_db_ex_def paid_event_ex_def rec_ex_def pix_env_def charge_ex_def

lemma pix_inv_ex: "pix_inv pix_db_ex" "charge_ex StatusPending None \<in> set (pix_charges pix_db_ex)"
  by (simp_all add: pix_inv_def pix_ex_defs paid_at_consistency_def pix_IsKnown_def)

theorem payment_applied_once_witness:
  "charge_row (store_after (pix_Apply rec_ex (paid_event_ex ''tx'')) (\<lambda>n. pix_env 0 1) pix_db_ex) 60
     = Some (paid_charge (charge_ex StatusPending None) 9)"
proof -
  have q: "quiet (\<lambda>n. pix_env 0 1)" by (simp add: quiet_def pix_env_def)
  have i: "pc_id (charge_ex StatusPending None) = 60" "we_OccurredAt (paid_event_ex ''tx'') = 9"
    by (simp_all add: charge_ex_def paid_event_ex_def)
  show ?thesis
    using payment_applied_once [OF q pix_inv_ex, of "paid_event_ex ''tx''" rec_ex] unfolding i
    by (auto simp: charge_ex_def paid_event_ex_def rec_ex_def recorded_def pix_db_ex_def)
qed

theorem early_webhook_leaves_no_trace_witness:
  "store_after (pix_Apply rec_ex (paid_event_ex ''other'')) (\<lambda>n. (pix_env 0 1)) pix_db_ex = pix_db_ex"
proof -
  have q: "quiet (\<lambda>n. pix_env 0 1)" by (simp add: quiet_def pix_env_def)
  show ?thesis
    using early_webhook_leaves_no_trace [OF q, of pix_db_ex "paid_event_ex ''other''" rec_ex]
    by (simp add: pix_ex_defs recorded_def event_IsKnown_def)
qed

theorem failed_save_strands_the_payment_witness:
  "charge_row (fold (\<lambda>os. store_after (pix_Apply rec_ex (paid_event_ex ''tx'')) os) [pix_env 7, pix_env 8]
     (store_after (pix_Apply rec_ex (paid_event_ex ''tx'')) (pix_env 2) pix_db_ex)) 60 = Some (charge_ex StatusPending None)"
proof -
  have i: "pc_id (charge_ex StatusPending None) = 60" by (simp add: charge_ex_def)
  show ?thesis
    using failed_save_strands_the_payment [OF _ _ _ pix_inv_ex, of "pix_env 2" "''timeout''" "paid_event_ex ''tx''" rec_ex "[pix_env 7, pix_env 8]"]
    unfolding i by (simp add: pix_env_def paid_event_ex_def charge_ex_def recorded_def pix_db_ex_def)
qed

theorem paid_charges_stay_paid_witness:
  "\<exists>db pool. pool_reach fresh_ids (pix_call rec_ex) pix_db_ex (db, pool) \<and> webhook_events db \<noteq> [] \<and>
     (\<exists>c' \<in> set (pix_charges db). charge_le (charge_ex StatusPending None) c')"
proof -
  let ?p = "pix_Apply rec_ex (paid_event_ex ''tx'')"
  obtain f where f: "?p = Act f" by (simp add: pix_Apply_def command_def event_IsKnown_def paid_event_ex_def)
  obtain p' db where s: "f (pix_env 7 0) pix_db_ex = (p', db)" by (cases "f (pix_env 7 0) pix_db_ex") auto
  have e: "webhook_events db \<noteq> []"
    using f s by (auto simp: pix_Apply_def command_def event_IsKnown_def pix_ex_defs EventLog_Record_def)
  let ?init = "\<lambda>_ :: nat. Ret (perr pix_ErrNotFound) :: Outcome presult pprog"
  have 1: "pool_reach fresh_ids (pix_call rec_ex) pix_db_ex (pix_db_ex, ?init(0 := ?p))"
    by (rule pool_reach.reach_step [OF pool_reach.reach_init [of _ _ _ "perr pix_ErrNotFound"] pool_step.step_start])
      (auto intro!: call_paid simp: paid_event_ex_def)
  have "fresh_ids pix_db_ex (pix_env 7 0)" by (simp add: fresh_ids_def pix_ex_defs find_key_def)
  then have "pool_step fresh_ids (pix_call rec_ex) (pix_db_ex, ?init(0 := ?p)) (db, (?init(0 := ?p))(0 := p'))"
    using f s by (intro pool_step.step_call [of _ _ f]) auto
  then have r: "pool_reach fresh_ids (pix_call rec_ex) pix_db_ex (db, (?init(0 := ?p))(0 := p'))"
    by (rule pool_reach.reach_step [OF 1])
  from paid_charges_stay_paid [OF pix_inv_ex(1) r pix_inv_ex(2)] r e show ?thesis by blast
qed

end
