(* ===== verification/GrantIssuer.thy ===== *)
theory GrantIssuer
  imports GrantApplier DunningStore GoStrings
begin

text \<open>
  How master grants come into being, \<^verbatim>\<open>src/internal/web/master\<close>: the form, the cap policy and the issuing port
  (\<^verbatim>\<open>grants_handlers.go\<close>, \<^verbatim>\<open>grants.go\<close>, \<^verbatim>\<open>grant_issuer_wallet.go\<close>), and the approval of grants above the cap by a
  second operator over table \<^verbatim>\<open>master_grant_request\<close>
  (\<^verbatim>\<open>src/internal/adapter/db/postgres/master/grant_request_repository.go\<close>).
\<close>

section \<open>Kinds, inputs and the form\<close>

datatype GrantKind = GrantKindFreeSubscriptionPeriod | GrantKindExtraTokens | GrantKindUnknown string

record IssueGrantInput =
  ig_ActorUserID :: uuid
  ig_TenantID :: uuid
  ig_Kind :: GrantKind
  ig_PeriodDays :: int
  ig_Amount :: int
  ig_Reason :: string

record grant_form =
  gf_kind :: string
  gf_reason :: string
  gf_period_days :: string
  gf_amount :: string

text \<open>The validation messages of the form, by what they complain of.\<close>

datatype form_error = FormKindInvalid | FormReasonTooShort | FormPeriodInvalid | FormPeriodTooLong | FormAmountInvalid

definition parseIssueGrantForm :: "grant_form \<Rightarrow> uuid \<Rightarrow> uuid \<Rightarrow> form_error + IssueGrantInput" where
  "parseIssueGrantForm f actor tenantID =
     (let rawKind = TrimSpace (gf_kind f); reason = TrimSpace (gf_reason f);
          input = (\<lambda>kind days amount. \<lparr>ig_ActorUserID = actor, ig_TenantID = tenantID, ig_Kind = kind,
                     ig_PeriodDays = days, ig_Amount = amount, ig_Reason = reason\<rparr>)
      in if rawKind \<noteq> ''free_subscription_period'' \<and> rawKind \<noteq> ''extra_tokens'' then Inl FormKindInvalid
         else if length reason < 10 then Inl FormReasonTooShort
         else if rawKind = ''free_subscription_period'' then
           (case ParseInt10 (TrimSpace (gf_period_days f)) of
              None \<Rightarrow> Inl FormPeriodInvalid
            | Some n \<Rightarrow>
                if n \<le> 0 then Inl FormPeriodInvalid
                else if n > 366 then Inl FormPeriodTooLong
                else Inr (input GrantKindFreeSubscriptionPeriod n 0))
         else
           (case ParseInt10 (TrimSpace (gf_amount f)) of
              None \<Rightarrow> Inl FormAmountInvalid
            | Some n \<Rightarrow> if n \<le> 0 then Inl FormAmountInvalid else Inr (input GrantKindExtraTokens 0 n)))"

section \<open>The cap policy\<close>

definition PerGrantCap :: int where
  "PerGrantCap = 10000000"

definition PerTenantWindowCap :: int where
  "PerTenantWindowCap = 100000000"

definition TenantWindow :: duration where
  "TenantWindow = 365 * 24 * 3600 * 1000000000"

definition FreeSubscriptionDayEquivalence :: int where
  "FreeSubscriptionDayEquivalence = 35000"

definition CapEquivalence :: "GrantKind \<Rightarrow> int \<Rightarrow> int \<Rightarrow> int" where
  "CapEquivalence kind amount periodDays =
     (case kind of
        GrantKindExtraTokens \<Rightarrow> amount
      | GrantKindFreeSubscriptionPeriod \<Rightarrow> wrap64 (periodDays * FreeSubscriptionDayEquivalence)
      | GrantKindUnknown _ \<Rightarrow> 0)"

datatype issue_sentinel =
    issue_ErrPerGrantCapExceeded
  | issue_ErrPerTenantWindowCapExceeded
  | issue_ErrGrantNotFound
  | issue_ErrGrantAlreadyConsumed
  | issue_ErrGrantAlreadyRevoked
  | issue_wallet wallet_sentinel

type_synonym 'a iresult = "(issue_sentinel, 'a) result"

definition EnforceCap :: "int \<Rightarrow> int \<Rightarrow> unit iresult" where
  "EnforceCap equivalent cumulative =
     (if equivalent > PerGrantCap then Inl (Sentinel issue_ErrPerGrantCapExceeded)
      else if wrap64 (cumulative + equivalent) > PerTenantWindowCap
        then Inl (Sentinel issue_ErrPerTenantWindowCapExceeded)
      else Inr ())"

fun grant_kind_of :: "MasterGrantKind \<Rightarrow> GrantKind" where
  "grant_kind_of KindFreeSubscriptionPeriod = GrantKindFreeSubscriptionPeriod"
| "grant_kind_of KindExtraTokens = GrantKindExtraTokens"
| "grant_kind_of (GrantKindOther s) = GrantKindUnknown s"

fun walletKind :: "GrantKind \<Rightarrow> MasterGrantKind" where
  "walletKind GrantKindFreeSubscriptionPeriod = KindFreeSubscriptionPeriod"
| "walletKind GrantKindExtraTokens = KindExtraTokens"
| "walletKind (GrantKindUnknown s) = GrantKindOther s"

definition grant_equivalent :: "MasterGrant \<Rightarrow> int" where
  "grant_equivalent g = CapEquivalence (grant_kind_of (mg_kind g))
     (readInt64Payload (mg_payload g) ''amount'') (readInt64Payload (mg_payload g) ''period_days'')"

fun cumulativeEquivalentSince :: "MasterGrant list \<Rightarrow> time \<Rightarrow> int \<Rightarrow> int" where
  "cumulativeEquivalentSince [] cutoff acc = acc"
| "cumulativeEquivalentSince (g # gs) cutoff acc =
     (if IsRevoked g then cumulativeEquivalentSince gs cutoff acc
      else if mg_createdAt g < cutoff then cumulativeEquivalentSince gs cutoff acc
      else cumulativeEquivalentSince gs cutoff (wrap64 (acc + grant_equivalent g)))"

definition buildGrantPayload :: "IssueGrantInput \<Rightarrow> (string \<times> any) list" where
  "buildGrantPayload inp =
     (case ig_Kind inp of
        GrantKindFreeSubscriptionPeriod \<Rightarrow> [(''period_days'', AnyInt (ig_PeriodDays inp))]
      | GrantKindExtraTokens \<Rightarrow> [(''amount'', AnyInt (ig_Amount inp))]
      | GrantKindUnknown _ \<Rightarrow> [])"

section \<open>Issuing a grant\<close>

definition grants_ListByTenant :: "crm_db \<Rightarrow> uuid \<Rightarrow> MasterGrant list wresult" where
  "grants_ListByTenant db tenantID =
     Inr (sort_key (\<lambda>g. - mg_createdAt g) (filter (\<lambda>g. mg_tenantID g = tenantID) (master_grant db)))"

text \<open>What \<^verbatim>\<open>uuid.New()\<close> and \<^verbatim>\<open>wallet.NewULID()\<close> return; \<open>ulid\<close> renders the random bits.\<close>

definition draw_ids :: "((nat \<Rightarrow> uuid) \<Rightarrow> ('s, call_env, 'a) prog) \<Rightarrow> ('s, call_env, 'a) prog" where
  "draw_ids k = Act (\<lambda>ev s. (k (o_ids ev), s))"

lemma run_draw_ids [simp]: "run (draw_ids k) os n s = run (k (o_ids (os n))) os (Suc n) s"
  by (simp add: draw_ids_def)

definition wrap_wallet :: "string \<Rightarrow> wallet_sentinel goerr \<Rightarrow> 'a iresult" where
  "wrap_wallet msg e = Inl (Wrapped msg (map_goerr issue_wallet e))"

text \<open>The rows of the grants panel.\<close>

record GrantRow =
  row_ID :: uuid
  row_ExternalID :: string
  row_TenantID :: uuid
  row_Kind :: GrantKind
  row_PeriodDays :: int
  row_Amount :: int
  row_Reason :: string
  row_CreatedByID :: uuid
  row_CreatedAt :: time
  row_ConsumedAt :: "time option"
  row_RevokedAt :: "time option"
  row_RevokeBy :: "uuid option"

definition hydrateGrantRow :: "MasterGrant \<Rightarrow> GrantRow" where
  "hydrateGrantRow g = \<lparr>row_ID = mg_id g, row_ExternalID = mg_externalID g, row_TenantID = mg_tenantID g,
     row_Kind = grant_kind_of (mg_kind g), row_PeriodDays = readInt64Payload (mg_payload g) ''period_days'',
     row_Amount = readInt64Payload (mg_payload g) ''amount'', row_Reason = mg_reason g,
     row_CreatedByID = mg_createdByUserID g, row_CreatedAt = mg_createdAt g, row_ConsumedAt = mg_consumedAt g,
     row_RevokedAt = mg_revokedAt g, row_RevokeBy = mg_revokedByUserID g\<rparr>"

definition IsRevocable :: "GrantRow \<Rightarrow> bool" where
  "IsRevocable g \<longleftrightarrow> \<not> row_ConsumedAt g \<noteq> None \<and> \<not> row_RevokedAt g \<noteq> None"

definition ListGrants :: "uuid \<Rightarrow> GrantRow list iresult wprog" where
  "ListGrants tenantID =
     query (\<lambda>db. grants_ListByTenant db tenantID) (\<lambda>r. case r of
       Inl e \<Rightarrow> Ret (wrap_wallet ''web/master: list grants'' e)
     | Inr grants \<Rightarrow> Ret (Inr (map hydrateGrantRow grants)))"

definition RevokeGrant :: "uuid \<Rightarrow> uuid \<Rightarrow> string \<Rightarrow> unit iresult wprog" where
  "RevokeGrant actor grantID reason =
     read_clock (\<lambda>now. MasterGrantStore_Revoke grantID actor reason now (\<lambda>r. case r of
       Inl e \<Rightarrow>
         Ret (if errors_is e wallet_ErrNotFound then Inl (Sentinel issue_ErrGrantNotFound)
              else if errors_is e wallet_ErrGrantAlreadyConsumed then Inl (Sentinel issue_ErrGrantAlreadyConsumed)
              else if errors_is e wallet_ErrGrantAlreadyRevoked then Inl (Sentinel issue_ErrGrantAlreadyRevoked)
              else Inl (map_goerr issue_wallet e))
     | Inr _ \<Rightarrow> Ret (Inr ())))"

definition ensureGrantPresent :: "GrantRow list \<Rightarrow> GrantRow \<Rightarrow> GrantRow list" where
  "ensureGrantPresent grants grant =
     (if \<exists>g \<in> set grants. row_ID g = row_ID grant then grants else grant # grants)"

text \<open>
  \<^verbatim>\<open>WalletGrantPort.IssueGrant\<close>; \<open>applier\<close> is the hook of \<^verbatim>\<open>SetApplier\<close>. The result is the issued grant, which the
  handler renders.
\<close>

definition IssueGrant ::
  "(uuid \<Rightarrow> string) \<Rightarrow> (uuid \<Rightarrow> bool wresult wprog) option \<Rightarrow> IssueGrantInput \<Rightarrow> GrantRow iresult wprog" where
  "IssueGrant ulid applier inp =
     read_clock (\<lambda>now.
       query (\<lambda>db. grants_ListByTenant db (ig_TenantID inp)) (\<lambda>r. case r of
         Inl e \<Rightarrow> Ret (wrap_wallet ''web/master: list grants for cap'' e)
       | Inr existing \<Rightarrow>
           let cumulative = cumulativeEquivalentSince existing (now - TenantWindow) 0;
               equivalent = CapEquivalence (ig_Kind inp) (ig_Amount inp) (ig_PeriodDays inp)
           in case EnforceCap equivalent cumulative of
                Inl e \<Rightarrow> Ret (Inl e)
              | Inr _ \<Rightarrow>
                  draw_ids (\<lambda>ids.
                    case NewMasterGrant (ids 0) (ulid (ids 1)) (ig_TenantID inp) (ig_ActorUserID inp)
                           (walletKind (ig_Kind inp)) (buildGrantPayload inp) (ig_Reason inp) now of
                      Inl e \<Rightarrow> Ret (wrap_wallet ''web/master: build master grant'' e)
                    | Inr g \<Rightarrow>
                        command (\<lambda>ev db. case MasterGrantStore_Create db g of Inl e \<Rightarrow> Inl e | Inr db' \<Rightarrow> Inr ((), db'))
                          (\<lambda>c. case c of
                             Inl e \<Rightarrow> Ret (wrap_wallet ''web/master: persist master grant'' e)
                           | Inr _ \<Rightarrow>
                               (case applier of
                                  None \<Rightarrow> Ret (Inr (hydrateGrantRow g))
                                | Some apply_grant \<Rightarrow>
                                    bind_prog (apply_grant (mg_id g)) (\<lambda>a. case a of
                                      Inl e \<Rightarrow> Ret (wrap_wallet ''web/master: apply master grant'' e)
                                    | Inr _ \<Rightarrow> Ret (Inr (hydrateGrantRow g))))))))"

section \<open>Approval by a second operator\<close>

datatype GrantRequestState = GrantRequestStateAwaiting | GrantRequestStateApproved | GrantRequestStateRejected

text \<open>
  A row of \<^verbatim>\<open>master_grant_request\<close>; \<open>gr_payload\<close> is its JSON document.
\<close>

record grant_request_row =
  gr_id :: uuid
  gr_external_id :: string
  gr_tenant_id :: uuid
  gr_kind :: GrantKind
  gr_payload :: "(string \<times> any) list"
  gr_reason :: string
  gr_created_by :: uuid
  gr_second_approver :: "uuid option"
  gr_state :: GrantRequestState
  gr_decided_at :: "time option"
  gr_created_at :: time

record master_db = crm_db +
  master_grant_request :: "grant_request_row list"

datatype request_sentinel =
    request_ErrGrantRequestNotFound
  | request_ErrGrantRequestAlreadyDecided
  | request_ErrGrantRequestApproverIsCreator

type_synonym 'a rresult = "(request_sentinel, 'a) result"

abbreviation rerr :: "request_sentinel \<Rightarrow> 'a rresult" where
  "rerr e \<equiv> Inl (Sentinel e)"

definition encodePayload :: "GrantKind \<Rightarrow> int \<Rightarrow> int \<Rightarrow> (string \<times> any) list rresult" where
  "encodePayload kind periodDays amount =
     (case kind of
        GrantKindFreeSubscriptionPeriod \<Rightarrow> Inr [(''period_days'', AnyInt periodDays)]
      | GrantKindExtraTokens \<Rightarrow> Inr [(''tokens'', AnyInt amount)]
      | GrantKindUnknown _ \<Rightarrow> Inl (Opaque ''master/postgres: unknown grant kind''))"

definition numberToInt :: "any option \<Rightarrow> int" where
  "numberToInt v = (case v of Some (AnyFloat r) \<Rightarrow> go_int64 r | Some (AnyInt n) \<Rightarrow> n | _ \<Rightarrow> 0)"

text \<open>The stored document is read back as JSON, whose numbers are floating-point.\<close>

definition decodePayload :: "GrantKind \<Rightarrow> (string \<times> any) list \<Rightarrow> int \<times> int" where
  "decodePayload kind payload =
     (case kind of
        GrantKindFreeSubscriptionPeriod \<Rightarrow> (numberToInt (map_option json_decoded (map_of payload ''period_days'')), 0)
      | GrantKindExtraTokens \<Rightarrow> (0, numberToInt (map_option json_decoded (map_of payload ''tokens'')))
      | GrantKindUnknown _ \<Rightarrow> (0, 0))"

definition CreateGrantRequest ::
  "(uuid \<Rightarrow> string) \<Rightarrow> call_env \<Rightarrow> master_db \<Rightarrow> IssueGrantInput \<Rightarrow> (grant_request_row \<times> master_db) rresult" where
  "CreateGrantRequest ulid ev db inp =
     (if ig_ActorUserID inp = uuid_nil then Inl (Opaque ''master/postgres: create grant request'')
      else case encodePayload (ig_Kind inp) (ig_PeriodDays inp) (ig_Amount inp) of
             Inl e \<Rightarrow> Inl e
           | Inr payload \<Rightarrow>
               let row = \<lparr>gr_id = o_ids ev 0, gr_external_id = ulid (o_ids ev 1), gr_tenant_id = ig_TenantID inp,
                          gr_kind = ig_Kind inp, gr_payload = payload, gr_reason = ig_Reason inp,
                          gr_created_by = ig_ActorUserID inp, gr_second_approver = None,
                          gr_state = GrantRequestStateAwaiting, gr_decided_at = None, gr_created_at = o_now ev\<rparr>
               in if char_length (ig_Reason inp) < 10
                     \<or> (\<exists>r \<in> set (master_grant_request db). gr_id r = gr_id row \<or> gr_external_id r = gr_external_id row)
                  then Inl (Wrapped ''master/postgres: insert master_grant_request'' (Opaque ''constraint violation''))
                  else Inr (row, db\<lparr>master_grant_request := master_grant_request db @ [row]\<rparr>))"

definition ListAwaitingRequests :: "master_db \<Rightarrow> grant_request_row list" where
  "ListAwaitingRequests db =
     sort_key (\<lambda>r. - gr_created_at r) (filter (\<lambda>r. gr_state r = GrantRequestStateAwaiting) (master_grant_request db))"

definition GetGrantRequest :: "master_db \<Rightarrow> uuid \<Rightarrow> grant_request_row rresult" where
  "GetGrantRequest db rid =
     (case find (\<lambda>r. gr_id r = rid) (master_grant_request db) of
        None \<Rightarrow> rerr request_ErrGrantRequestNotFound
      | Some r \<Rightarrow> Inr r)"

text \<open>
  The guards and the guarded UPDATE the two decisions share. The transaction takes the row with its UPDATE, whose
  guard repeats the state check, so it is atomic.
\<close>

definition decide_request ::
  "GrantRequestState \<Rightarrow> master_db \<Rightarrow> uuid \<Rightarrow> uuid \<Rightarrow> time \<Rightarrow> (grant_request_row \<times> master_db) rresult" where
  "decide_request decision db actor rid now =
     (case GetGrantRequest db rid of
        Inl e \<Rightarrow> Inl e
      | Inr req \<Rightarrow>
          if gr_state req \<noteq> GrantRequestStateAwaiting then rerr request_ErrGrantRequestAlreadyDecided
          else if gr_created_by req = actor then rerr request_ErrGrantRequestApproverIsCreator
          else Inr (req, db\<lparr>master_grant_request := map (\<lambda>r.
                 if gr_id r = rid \<and> gr_state r = GrantRequestStateAwaiting
                 then r\<lparr>gr_state := decision, gr_second_approver := Some actor, gr_decided_at := Some now\<rparr> else r)
                 (master_grant_request db)\<rparr>))"

definition ApproveGrantRequest ::
  "(uuid \<Rightarrow> string) \<Rightarrow> call_env \<Rightarrow> master_db \<Rightarrow> uuid \<Rightarrow> uuid \<Rightarrow> (MasterGrant \<times> master_db) rresult" where
  "ApproveGrantRequest ulid ev db actor rid =
     (if actor = uuid_nil then Inl (Opaque ''master/postgres: approve grant request'')
      else case decide_request GrantRequestStateApproved db actor rid (o_now ev) of
             Inl e \<Rightarrow> Inl e
           | Inr (req, db1) \<Rightarrow>
               (case encodePayload (gr_kind req) (fst (decodePayload (gr_kind req) (gr_payload req)))
                       (snd (decodePayload (gr_kind req) (gr_payload req))) of
                  Inl e \<Rightarrow> Inl e
                | Inr payload \<Rightarrow>
                    let g = \<lparr>mg_id = o_ids ev 0, mg_externalID = ulid (o_ids ev 1), mg_tenantID = gr_tenant_id req,
                             mg_kind = walletKind (gr_kind req), mg_payload = payload, mg_reason = gr_reason req,
                             mg_createdByUserID = gr_created_by req, mg_createdAt = o_now ev, mg_consumedAt = None,
                             mg_consumedRef = '''', mg_revokedAt = None, mg_revokedByUserID = None, mg_revokeReason = ''''\<rparr>
                    in if char_length (gr_reason req) < 10
                          \<or> (\<exists>h \<in> set (master_grant db1). mg_id h = mg_id g \<or> mg_externalID h = mg_externalID g)
                       then Inl (Wrapped ''master/postgres: insert master_grant (4-eyes approved)'' (Opaque ''constraint violation''))
                       else Inr (g, db1\<lparr>master_grant := master_grant db1 @ [g]\<rparr>)))"

definition RejectGrantRequest :: "call_env \<Rightarrow> master_db \<Rightarrow> uuid \<Rightarrow> uuid \<Rightarrow> (unit \<times> master_db) rresult" where
  "RejectGrantRequest ev db actor rid =
     (if actor = uuid_nil then Inl (Opaque ''master/postgres: reject grant request'')
      else case decide_request GrantRequestStateRejected db actor rid (o_now ev) of
             Inl e \<Rightarrow> Inl e
           | Inr (req, db1) \<Rightarrow> Inr ((), db1))"

end
