(* ===== verification/GrantIssuerProps.thy ===== *)
theory GrantIssuerProps
  imports GrantIssuer GrantProps
begin

text \<open>
  What the issuing of master grants guarantees: the caps, the approval by a second operator, and what becomes of the
  grants issued on the two paths.
\<close>

section \<open>The caps\<close>

definition in_window :: "uuid \<Rightarrow> time \<Rightarrow> MasterGrant \<Rightarrow> bool" where
  "in_window tenantID now g \<longleftrightarrow> mg_tenantID g = tenantID \<and> mg_revokedAt g = None \<and> mg_createdAt g \<ge> now - TenantWindow"

definition window_total :: "MasterGrant list \<Rightarrow> uuid \<Rightarrow> time \<Rightarrow> int" where
  "window_total gs tenantID now = (\<Sum>g \<leftarrow> filter (in_window tenantID now) gs. grant_equivalent g)"

definition grant_core :: "MasterGrant \<Rightarrow> MasterGrant" where
  "grant_core g = g\<lparr>mg_consumedAt := None, mg_consumedRef := ''''\<rparr>"

lemma cumulative_wraps:
  "cumulativeEquivalentSince gs cutoff acc =
     (if filter (\<lambda>g. \<not> IsRevoked g \<and> cutoff \<le> mg_createdAt g) gs = [] then acc
      else wrap64 (acc + (\<Sum>g \<leftarrow> filter (\<lambda>g. \<not> IsRevoked g \<and> cutoff \<le> mg_createdAt g) gs. grant_equivalent g)))"
  by (induction gs arbitrary: acc) (auto simp: wrap64_wrap64_add add.assoc)

lemma cumulative_window:
  "wrap64 (cumulativeEquivalentSince (sort_key k (filter (\<lambda>g. mg_tenantID g = t) gs)) (now - TenantWindow) 0 + x)
     = wrap64 (window_total gs t now + x)"
proof -
  let ?P = "\<lambda>g. \<not> IsRevoked g \<and> now - TenantWindow \<le> mg_createdAt g"
  let ?gs = "filter ?P (sort_key k (filter (\<lambda>g. mg_tenantID g = t) gs))"
  have "(\<Sum>g \<leftarrow> ?gs. grant_equivalent g) = (\<Sum>g \<leftarrow> filter ?P (filter (\<lambda>g. mg_tenantID g = t) gs). grant_equivalent g)"
    by (simp add: filter_sort sum_list_map_sort_key)
  also have "\<dots> = window_total gs t now"
    by (auto simp: window_total_def in_window_def IsRevoked_def intro!: arg_cong [of _ _ "\<lambda>l. sum_list (map grant_equivalent l)"] filter_cong)
  finally have "(\<Sum>g \<leftarrow> ?gs. grant_equivalent g) = window_total gs t now" .
  then show ?thesis by (auto simp: cumulative_wraps wrap64_wrap64_add)
qed

lemma core_window:
  "map grant_core gs = map grant_core gs' \<Longrightarrow> window_total gs t now = window_total gs' t now"
proof (induction gs arbitrary: gs')
  case (Cons g gs)
  then obtain h hs where gs': "gs' = h # hs" "grant_core g = grant_core h" "map grant_core gs = map grant_core hs"
    by (cases gs') auto
  have "mg_tenantID (grant_core g) = mg_tenantID (grant_core h)" "mg_revokedAt (grant_core g) = mg_revokedAt (grant_core h)"
    "mg_createdAt (grant_core g) = mg_createdAt (grant_core h)" "mg_kind (grant_core g) = mg_kind (grant_core h)"
    "mg_payload (grant_core g) = mg_payload (grant_core h)" by (simp_all only: gs'(2))
  then have "in_window t now g = in_window t now h" "grant_equivalent g = grant_equivalent h"
    by (simp_all add: grant_core_def in_window_def grant_equivalent_def)
  then show ?case using Cons.IH [OF gs'(3)] gs'(1) by (simp add: window_total_def)
qed (simp add: window_total_def)

lemma consume_core: "consume_update gid ref now db = Inr (u, db') \<Longrightarrow>
    map grant_core (master_grant db') = map grant_core (master_grant db)"
  by (auto simp: consume_update_def update_grant_row_def grant_core_def split: if_splits)

lemma insert_ledgers_grants: "insert_ledgers t db es = Inr db' \<Longrightarrow> master_grant db' = master_grant db"
  by (induction es arbitrary: db) (auto simp: insert_ledger_def split: sum.splits if_splits)

lemma ApplyWithLock_grants: "ApplyWithLock now db w es = Inr db' \<Longrightarrow> master_grant db' = master_grant db"
  by (auto simp: ApplyWithLock_def Let_def update_wallet_row_def dest: insert_ledgers_grants
      split: if_splits option.splits sum.splits pgerr.splits)

abbreviation core_of :: "crm_db \<Rightarrow> MasterGrant list" where
  "core_of db \<equiv> map grant_core (master_grant db)"

text \<open>Programs that change no more of the grants than their consumption.\<close>

definition keeps_core :: "'a wprog \<Rightarrow> bool" where
  "keeps_core p \<longleftrightarrow> (\<forall>os n db. core_of (snd (snd (run p os n db))) = core_of db)"

lemma keeps_core_Ret [intro!]: "keeps_core (Ret a)"
  by (simp add: keeps_core_def)

lemma keeps_core_clock [intro!]: "(\<And>t. keeps_core (k t)) \<Longrightarrow> keeps_core (read_clock k)"
  by (simp add: keeps_core_def)

lemma keeps_core_query [intro!]: "(\<And>r. keeps_core (k r)) \<Longrightarrow> keeps_core (query q k)"
  by (simp add: keeps_core_def split: fault.splits)

lemma keeps_core_command [intro]:
  assumes "\<And>ev db x db'. c ev db = Inr (x, db') \<Longrightarrow> core_of db' = core_of db" and "\<And>r. keeps_core (k r)"
  shows "keeps_core (command c k)"
  using assms by (fastforce simp: keeps_core_def split: fault.splits sum.splits)

lemma finish_apply_core [intro!]: "keeps_core (finish_apply gid now r)"
  by (auto simp: finish_apply_def MasterGrantStore_Consume_def split: sum.splits intro!: keeps_core_command dest: consume_core)

lemma writes_core:
  "SaveSubscription db sub a = Inr (u, db') \<Longrightarrow> core_of db' = core_of db"
  "ApplyWithLock now db w es = Inr db'' \<Longrightarrow> core_of db'' = core_of db"
  by (simp_all add: SaveSubscription_frame ApplyWithLock_grants)

lemma Apply_core [intro!]: "keeps_core (ApplyMasterGrant_Apply ustr actor gid)"
  by (auto simp: ApplyMasterGrant_Apply_def applyFreePeriod_def applyExtraTokens_def Let_def
      split: sum.splits MasterGrantKind.splits intro!: keeps_core_command elim!: writes_core)

lemma issued_equivalent:
  assumes "NewMasterGrant fresh ulid t a (walletKind (ig_Kind inp)) (buildGrantPayload inp) reason now = Inr g"
  shows "grant_equivalent g = CapEquivalence (ig_Kind inp) (ig_Amount inp) (ig_PeriodDays inp)"
  using assms by (auto simp: NewMasterGrant_def grant_equivalent_def buildGrantPayload_def readInt64Payload_def
      CapEquivalence_def split: if_splits GrantKind.splits)

abbreviation production_applier :: "(uuid \<Rightarrow> string) \<Rightarrow> uuid \<Rightarrow> (uuid \<Rightarrow> bool wresult wprog) option" where
  "production_applier ustr actor \<equiv> Some (ApplyMasterGrant_Apply ustr actor)"

lemma wallet_error_is_no_cap [simp]:
  "\<not> errors_is (map_goerr issue_wallet e) issue_ErrPerGrantCapExceeded"
  "\<not> errors_is (map_goerr issue_wallet e) issue_ErrPerTenantWindowCapExceeded"
  by (induction e) auto

lemma EnforceCap_ok: "EnforceCap x c = Inr u \<Longrightarrow> x \<le> PerGrantCap \<and> wrap64 (c + x) \<le> PerTenantWindowCap"
  by (auto simp: EnforceCap_def split: if_splits)

text \<open>The end of \<^verbatim>\<open>IssueGrant\<close>, once the grant is persisted.\<close>

abbreviation issue_tail :: "(uuid \<Rightarrow> bool wresult wprog) option \<Rightarrow> MasterGrant \<Rightarrow> GrantRow iresult wprog" where
  "issue_tail applier g \<equiv> (case applier of
      None \<Rightarrow> Ret (Inr (hydrateGrantRow g))
    | Some apply_grant \<Rightarrow> bind_prog (apply_grant (mg_id g)) (\<lambda>a. case a of
        Inl e \<Rightarrow> Ret (wrap_wallet ''web/master: apply master grant'' e)
      | Inr _ \<Rightarrow> Ret (Inr (hydrateGrantRow g))))"

lemma issue_tail_core:
  assumes "applier = None \<or> applier = production_applier ustr actor"
  shows "keeps_core (issue_tail applier g)"
  using assms Apply_core unfolding keeps_core_def
  by (auto split: prod.splits sum.splits) (metis snd_conv)+

lemma issue_tail_result:
  "fst (run (issue_tail applier g) os n db) = Inr (hydrateGrantRow g) \<or>
   (\<exists>e. fst (run (issue_tail applier g) os n db) = wrap_wallet ''web/master: apply master grant'' e)"
  by (cases applier) (auto split: prod.splits sum.splits)

text \<open>A fault-free \<^verbatim>\<open>IssueGrant\<close> is refused without a trace, or persists the grant and ends with its tail.\<close>

lemma IssueGrant_cases:
  fixes inp :: IssueGrantInput and db :: crm_db
  assumes q: "quiet os"
  defines "x \<equiv> CapEquivalence (ig_Kind inp) (ig_Amount inp) (ig_PeriodDays inp)"
    and "c \<equiv> cumulativeEquivalentSince (sort_key (\<lambda>g. - mg_createdAt g)
      (filter (\<lambda>g. mg_tenantID g = ig_TenantID inp) (master_grant db))) (o_now (os 0) - TenantWindow) 0"
  obtains (refused) e where "run (IssueGrant ulid applier inp) os 0 db = (Inl e, 2, db)" and "EnforceCap x c = Inl e"
  | (failed) e msg n where "run (IssueGrant ulid applier inp) os 0 db = (wrap_wallet msg e, n, db)"
  | (issued) g db1 where "EnforceCap x c = Inr ()"
      and "NewMasterGrant (o_ids (os 2) 0) (ulid (o_ids (os 2) 1)) (ig_TenantID inp) (ig_ActorUserID inp)
             (walletKind (ig_Kind inp)) (buildGrantPayload inp) (ig_Reason inp) (o_now (os 0)) = Inr g"
      and "MasterGrantStore_Create db g = Inr db1"
      and "run (IssueGrant ulid applier inp) os 0 db = run (issue_tail applier g) os 4 db1"
proof -
  have nf: "o_fault (os m) = NoFault" for m using q by (simp add: quiet_def)
  note run = IssueGrant_def grants_ListByTenant_def nf Let_def x_def [symmetric] c_def [symmetric]
  show ?thesis
  proof (cases "EnforceCap x c")
    case (Inl e)
    then show ?thesis by (intro refused [of e]) (simp_all add: run numeral_2_eq_2)
  next
    case cap: (Inr u)
    show ?thesis
    proof (cases "NewMasterGrant (o_ids (os 2) 0) (ulid (o_ids (os 2) 1)) (ig_TenantID inp) (ig_ActorUserID inp)
        (walletKind (ig_Kind inp)) (buildGrantPayload inp) (ig_Reason inp) (o_now (os 0))")
      case (Inl e)
      show ?thesis by (rule failed) (simp add: run cap Inl [unfolded numeral_2_eq_2 One_nat_def])
    next
      case g: (Inr g)
      show ?thesis
      proof (cases "MasterGrantStore_Create db g")
        case (Inl e)
        show ?thesis by (rule failed) (simp add: run cap g [unfolded numeral_2_eq_2 One_nat_def] Inl)
      next
        case (Inr db1)
        have "run (IssueGrant ulid applier inp) os 0 db = run (issue_tail applier g) os 4 db1"
          by (simp add: run cap g [unfolded numeral_2_eq_2 One_nat_def] Inr eval_nat_numeral)
        then show ?thesis using issued cap g Inr by simp
      qed
    qed
  qed
qed

text \<open>Numbers of at most 53 bits survive the JSON document.\<close>

lemma readInt64_json:
  assumes "\<bar>readInt64Payload p key\<bar> \<le> 9007199254740992"
  shows "readInt64Payload (json_payload p) key = readInt64Payload p key"
proof -
  have m: "map_of (json_payload p) key = map_option json_decoded (map_of p key)"
    by (induction p) (auto simp: json_payload_def)
  have "go_int64 (of_int n) = n" if "\<bar>n\<bar> \<le> 9007199254740992" for n
    using that by (auto simp: go_int64_def i64 Let_def)
  then show ?thesis using assms unfolding readInt64Payload_def m by (auto split: option.splits any.splits)
qed

lemma Create_window:
  assumes "MasterGrantStore_Create db g = Inr db1" and "mg_tenantID g = t" and "mg_createdAt g = now" and "mg_revokedAt g = None"
    and "\<bar>readInt64Payload (mg_payload g) ''amount''\<bar> \<le> 9007199254740992" "\<bar>readInt64Payload (mg_payload g) ''period_days''\<bar> \<le> 9007199254740992"
  shows "window_total (master_grant db1) t now = window_total (master_grant db) t now + grant_equivalent g"
    and "length (master_grant db1) = Suc (length (master_grant db))"
    and "\<exists>h \<in> set (master_grant db1). mg_id h = mg_id g \<and> mg_tenantID h = t \<and> mg_revokedAt h = None"
proof -
  have "grant_equivalent (g\<lparr>mg_payload := json_payload (mg_payload g), mg_consumedAt := None, mg_consumedRef := '''', mg_revokedAt := None,
      mg_revokedByUserID := None, mg_revokeReason := ''''\<rparr>) = grant_equivalent g"
    using assms(5,6) by (simp add: grant_equivalent_def readInt64_json)
  then show "window_total (master_grant db1) t now = window_total (master_grant db) t now + grant_equivalent g"
    using assms by (auto simp: MasterGrantStore_Create_def window_total_def in_window_def TenantWindow_def split: if_splits)
qed (use assms in \<open>auto simp: MasterGrantStore_Create_def split: if_splits\<close>)

lemma core_row:
  assumes "map grant_core gs = map grant_core gs'" and "h \<in> set gs"
  shows "\<exists>h' \<in> set gs'. mg_id h' = mg_id h \<and> mg_tenantID h' = mg_tenantID h \<and> mg_revokedAt h' = mg_revokedAt h"
proof -
  have "grant_core h \<in> grant_core ` set gs'" using assms by (metis image_eqI list.set_map)
  then obtain h' where "h' \<in> set gs'" "grant_core h = grant_core h'" by blast
  moreover have "mg_id (grant_core h) = mg_id h \<and> mg_tenantID (grant_core h) = mg_tenantID h \<and>
      mg_revokedAt (grant_core h) = mg_revokedAt h" for h
    by (simp add: grant_core_def)
  ultimately show ?thesis by metis
qed

text \<open>
  C15. The caps hold for a grant issued alone: in a run of \<^verbatim>\<open>IssueGrant\<close> without faults and with no other call in between, with or
  without the applier, for an amount and a number of days of at most 53 bits (what the JSON payload keeps exactly) and a sum that
  fits 64 bits, an issued grant's token equivalent is within the cap per grant, and with it the equivalents of all the tenant's
  grants of the trailing 365 days that are not revoked are within the window cap, which is per tenant; a grant the caps refuse
  leaves no trace. Two calls that overlap both read the window before either creates its grant, so together they may exceed it.
\<close>

theorem issued_grants_respect_caps:
  assumes q: "quiet os" and ap: "applier = None \<or> applier = production_applier ustr actor"
    and r: "result_of (IssueGrant ulid applier inp) os db = r" and db': "store_after (IssueGrant ulid applier inp) os db = db'"
    and fits: "in_i64 (window_total (master_grant db) (ig_TenantID inp) (o_now (os 0))
        + CapEquivalence (ig_Kind inp) (ig_Amount inp) (ig_PeriodDays inp))"
    and exact: "\<bar>ig_Amount inp\<bar> \<le> 9007199254740992" "\<bar>ig_PeriodDays inp\<bar> \<le> 9007199254740992"
  shows "(case r of
      Inr row \<Rightarrow> CapEquivalence (row_Kind row) (row_Amount row) (row_PeriodDays row) \<le> PerGrantCap \<and>
        window_total (master_grant db') (ig_TenantID inp) (o_now (os 0)) \<le> PerTenantWindowCap \<and>
        length (master_grant db') = Suc (length (master_grant db)) \<and>
        (\<exists>g \<in> set (master_grant db'). mg_id g = row_ID row \<and> mg_tenantID g = ig_TenantID inp \<and> mg_revokedAt g = None)
    | Inl e \<Rightarrow> errors_is e issue_ErrPerGrantCapExceeded \<or> errors_is e issue_ErrPerTenantWindowCapExceeded \<longrightarrow> db' = db)"
proof -
  show ?thesis
  proof (cases rule: IssueGrant_cases [where inp = inp and db = db and ulid = ulid and applier = applier, OF q,
        case_names refused failed issued])
    case (refused e)
    then show ?thesis using r db' by (auto simp: result_of_def store_after_def)
  next
    case (failed e msg n)
    then show ?thesis using r by (auto simp: result_of_def wrap_wallet_def)
  next
    case (issued g db1)
    define x where "x = CapEquivalence (ig_Kind inp) (ig_Amount inp) (ig_PeriodDays inp)"
    have g: "grant_equivalent g = x" "mg_tenantID g = ig_TenantID inp" "mg_createdAt g = o_now (os 0)" "mg_revokedAt g = None"
      using issued(2) issued_equivalent x_def by (auto simp: NewMasterGrant_def split: if_splits)
    have cap: "x \<le> PerGrantCap" "window_total (master_grant db) (ig_TenantID inp) (o_now (os 0)) + x \<le> PerTenantWindowCap"
      using EnforceCap_ok [OF issued(1)] fits by (simp_all add: x_def cumulative_window wrap64_id)
    have "\<bar>readInt64Payload (mg_payload g) key\<bar> \<le> 9007199254740992" for key
      using issued(2) exact by (auto simp: NewMasterGrant_def buildGrantPayload_def readInt64Payload_def split: if_splits GrantKind.splits)
    note c = Create_window [OF issued(3) g(2-4) this this]
    have core: "core_of db' = core_of db1"
      using issue_tail_core [OF ap] db' issued(4) unfolding keeps_core_def store_after_def by metis
    have "window_total (master_grant db') (ig_TenantID inp) (o_now (os 0)) \<le> PerTenantWindowCap"
      using core_window [OF core] c(1) g(1) cap(2) by simp
    moreover have "length (master_grant db') = Suc (length (master_grant db))"
      using arg_cong [OF core, of length] c(2) by simp
    moreover have "\<exists>h \<in> set (master_grant db'). mg_id h = mg_id g \<and> mg_tenantID h = ig_TenantID inp \<and> mg_revokedAt h = None"
      using c(3) core_row [OF core [symmetric]] by metis
    moreover have "CapEquivalence (row_Kind (hydrateGrantRow g)) (row_Amount (hydrateGrantRow g)) (row_PeriodDays (hydrateGrantRow g)) = x"
      using g(1) by (simp add: hydrateGrantRow_def grant_equivalent_def)
    ultimately show ?thesis
      using issue_tail_result [where applier = applier and g = g and os = os and n = 4 and db = db1] r issued(4) cap(1)
      by (auto simp: result_of_def hydrateGrantRow_def wrap_wallet_def)
  qed
qed

theorem issued_grants_respect_caps_witness:
  "\<exists>row. result_of (IssueGrant (\<lambda>_. ''01U'') None \<lparr>ig_ActorUserID = 9, ig_TenantID = 7, ig_Kind = GrantKindExtraTokens,
       ig_PeriodDays = 0, ig_Amount = 500, ig_Reason = ''goodwill credit''\<rparr>) env_ex db_ex = Inr row \<and>
     row_Amount row \<le> PerGrantCap"
proof -
  let ?inp = "\<lparr>ig_ActorUserID = 9, ig_TenantID = 7, ig_Kind = GrantKindExtraTokens, ig_PeriodDays = 0, ig_Amount = 500,
    ig_Reason = ''goodwill credit''\<rparr>"
  have q: "quiet env_ex" by (simp add: quiet_def env_ex_def)
  have w: "window_total (master_grant db_ex) 7 (o_now (env_ex 0)) \<le> 10000000" "0 \<le> window_total (master_grant db_ex) 7 (o_now (env_ex 0))"
    by (simp_all add: window_total_def in_window_def ex_defs grant_equivalent_def CapEquivalence_def readInt64Payload_def
        FreeSubscriptionDayEquivalence_def wrap64_def env_ex_def TenantWindow_def)
  have f: "in_i64 (window_total (master_grant db_ex) (ig_TenantID ?inp) (o_now (env_ex 0))
      + CapEquivalence (ig_Kind ?inp) (ig_Amount ?inp) (ig_PeriodDays ?inp))"
    using w by (simp add: CapEquivalence_def i64)
  obtain row where row: "result_of (IssueGrant (\<lambda>_. ''01U'') None ?inp) env_ex db_ex = Inr row" "row_Kind row = GrantKindExtraTokens"
    by (simp add: result_of_def IssueGrant_def env_ex_def grants_ListByTenant_def Let_def EnforceCap_def CapEquivalence_def
        PerGrantCap_def PerTenantWindowCap_def TenantWindow_def cumulative_wraps grant_equivalent_def readInt64Payload_def
        FreeSubscriptionDayEquivalence_def wrap64_def IsRevoked_def NewMasterGrant_def MasterGrantStore_Create_def
        char_length_def hydrateGrantRow_def buildGrantPayload_def ex_defs)
  show ?thesis using issued_grants_respect_caps [OF q _ row(1) refl f] row by (simp add: CapEquivalence_def)
qed

section \<open>Approval by a second operator\<close>

text \<open>What happens to the table of requests: they are created, approved and rejected.\<close>

inductive request_step :: "(uuid \<Rightarrow> string) \<Rightarrow> master_db \<Rightarrow> master_db \<Rightarrow> bool" for ulid where
  step_create: "CreateGrantRequest ulid ev db inp = Inr (row, db') \<Longrightarrow> request_step ulid db db'"
| step_approve: "ApproveGrantRequest ulid ev db actor rid = Inr (g, db') \<Longrightarrow> request_step ulid db db'"
| step_reject: "RejectGrantRequest ev db actor rid = Inr (u, db') \<Longrightarrow> request_step ulid db db'"

inductive_cases request_stepE: "request_step ulid db db'"

definition request_ok :: "grant_request_row \<Rightarrow> bool" where
  "request_ok r \<longleftrightarrow>
     (if gr_state r = GrantRequestStateAwaiting then gr_second_approver r = None \<and> gr_decided_at r = None
      else gr_decided_at r \<noteq> None \<and> (\<exists>a. gr_second_approver r = Some a \<and> a \<noteq> gr_created_by r))"

abbreviation approved :: "grant_request_row \<Rightarrow> bool" where
  "approved r \<equiv> gr_state r = GrantRequestStateApproved"

text \<open>What ties a request to the grant it is promoted to.\<close>

definition request_promise :: "grant_request_row \<Rightarrow> uuid \<times> MasterGrantKind \<times> string \<times> uuid \<times> time option" where
  "request_promise r = (gr_tenant_id r, walletKind (gr_kind r), gr_reason r, gr_created_by r, gr_decided_at r)"

definition grant_promise :: "MasterGrant \<Rightarrow> uuid \<times> MasterGrantKind \<times> string \<times> uuid \<times> time option" where
  "grant_promise g = (mg_tenantID g, mg_kind g, mg_reason g, mg_createdByUserID g, Some (mg_createdAt g))"

definition requests_inv :: "MasterGrant list \<Rightarrow> master_db \<Rightarrow> bool" where
  "requests_inv gs0 db \<longleftrightarrow> distinct (map gr_id (master_grant_request db)) \<and>
     (\<forall>r \<in> set (master_grant_request db). request_ok r) \<and>
     (\<exists>gs. master_grant db = gs0 @ gs \<and>
        mset (map grant_promise gs) = mset (map request_promise (filter approved (master_grant_request db))))"

definition decided_kept :: "master_db \<Rightarrow> master_db \<Rightarrow> bool" where
  "decided_kept db db' \<longleftrightarrow> (\<forall>r \<in> set (master_grant_request db).
     gr_state r \<noteq> GrantRequestStateAwaiting \<longrightarrow> r \<in> set (master_grant_request db'))"

text \<open>The effect of a decision: one awaiting row, not created by the actor, is decided.\<close>

lemma decide_request_effect:
  assumes d: "decide_request decision db actor rid now = Inr (req, db1)" and inv: "distinct (map gr_id (master_grant_request db))"
  defines "req' \<equiv> req\<lparr>gr_state := decision, gr_second_approver := Some actor, gr_decided_at := Some now\<rparr>"
  obtains xs ys where "master_grant_request db = xs @ req # ys" and "master_grant_request db1 = xs @ req' # ys"
    and "gr_state req = GrantRequestStateAwaiting" and "gr_created_by req \<noteq> actor" and "master_grant db1 = master_grant db"
proof -
  have f: "find (\<lambda>r. gr_id r = rid) (master_grant_request db) = Some req"
    and g: "gr_state req = GrantRequestStateAwaiting" "gr_created_by req \<noteq> actor"
    and db1: "db1 = db\<lparr>master_grant_request := map (\<lambda>r.
        if gr_id r = rid \<and> gr_state r = GrantRequestStateAwaiting
        then r\<lparr>gr_state := decision, gr_second_approver := Some actor, gr_decided_at := Some now\<rparr> else r) (master_grant_request db)\<rparr>"
    using d by (auto simp: decide_request_def GetGrantRequest_def split: option.splits if_splits)
  have req: "req \<in> set (master_grant_request db)" "gr_id req = rid" using find_SomeD [OF f] by simp_all
  then obtain xs ys where l: "master_grant_request db = xs @ req # ys" by (meson split_list)
  have "rid \<notin> gr_id ` set xs" "rid \<notin> gr_id ` set ys" using inv l req(2) by auto
  then have "map (\<lambda>r. if gr_id r = rid \<and> gr_state r = GrantRequestStateAwaiting
        then r\<lparr>gr_state := decision, gr_second_approver := Some actor, gr_decided_at := Some now\<rparr> else r) zs = zs"
    if "zs = xs \<or> zs = ys" for zs
    using that by (auto intro!: map_idI)
  then show ?thesis using l g req(2) db1 by (intro that [of xs ys]) (auto simp: req'_def)
qed

lemma request_step_inv:
  assumes "request_step ulid db db'" and "requests_inv gs0 db"
  shows "requests_inv gs0 db' \<and> decided_kept db db'"
  using assms(1)
proof (rule request_stepE)
  fix ev inp row
  assume "CreateGrantRequest ulid ev db inp = Inr (row, db')"
  then show ?thesis using assms(2)
    by (auto simp: CreateGrantRequest_def requests_inv_def request_ok_def decided_kept_def Let_def
        split: if_splits sum.splits) metis
next
  fix ev actor rid g
  assume a: "ApproveGrantRequest ulid ev db actor rid = Inr (g, db')"
  then obtain req db1 where d: "decide_request GrantRequestStateApproved db actor rid (o_now ev) = Inr (req, db1)"
    and db': "db' = db1\<lparr>master_grant := master_grant db1 @ [g]\<rparr>"
    and g: "grant_promise g = (gr_tenant_id req, walletKind (gr_kind req), gr_reason req, gr_created_by req, Some (o_now ev))"
    by (auto simp: ApproveGrantRequest_def Let_def grant_promise_def split: if_splits sum.splits)
  from assms(2) have dist: "distinct (map gr_id (master_grant_request db))" by (simp add: requests_inv_def)
  from decide_request_effect [OF d this] obtain xs ys where e: "master_grant_request db = xs @ req # ys"
    "master_grant_request db1 = xs @ req\<lparr>gr_state := GrantRequestStateApproved, gr_second_approver := Some actor,
       gr_decided_at := Some (o_now ev)\<rparr> # ys"
    "gr_state req = GrantRequestStateAwaiting" "gr_created_by req \<noteq> actor" "master_grant db1 = master_grant db" .
  then show ?thesis using assms(2) g
    by (auto simp: db' requests_inv_def decided_kept_def request_ok_def request_promise_def)
next
  fix ev actor rid u
  assume "RejectGrantRequest ev db actor rid = Inr (u, db')"
  then obtain req where d: "decide_request GrantRequestStateRejected db actor rid (o_now ev) = Inr (req, db')"
    by (auto simp: RejectGrantRequest_def split: if_splits sum.splits)
  from assms(2) have dist: "distinct (map gr_id (master_grant_request db))" by (simp add: requests_inv_def)
  from decide_request_effect [OF d this] obtain xs ys where e: "master_grant_request db = xs @ req # ys"
    "master_grant_request db' = xs @ req\<lparr>gr_state := GrantRequestStateRejected, gr_second_approver := Some actor,
       gr_decided_at := Some (o_now ev)\<rparr> # ys"
    "gr_state req = GrantRequestStateAwaiting" "gr_created_by req \<noteq> actor" "master_grant db' = master_grant db" .
  then show ?thesis using assms(2)
    by (auto simp: requests_inv_def decided_kept_def request_ok_def request_promise_def)
qed

text \<open>
  C14. Four eyes: in every history of requests, approvals and rejections, a decided request names as its approver someone
  other than its creator and is never changed again, an undecided one names nobody, and the grants added are, one for
  one, the promotions of the approved requests: same tenant, kind, reason and creator, at the time of the decision.
\<close>

theorem four_eyes:
  assumes "(request_step ulid)\<^sup>*\<^sup>* db0 db" and "(request_step ulid)\<^sup>*\<^sup>* db db'" and "master_grant_request db0 = []"
  shows "decided_kept db db' \<and> (\<forall>r \<in> set (master_grant_request db'). request_ok r) \<and>
    (\<exists>gs. master_grant db' = master_grant db0 @ gs \<and>
       mset (map grant_promise gs) = mset (map request_promise (filter approved (master_grant_request db'))))"
proof -
  have step: "requests_inv (master_grant db0) d' \<and> decided_kept d d'"
    if "(request_step ulid)\<^sup>*\<^sup>* d d'" "requests_inv (master_grant db0) d" for d d'
    using that
  proof (induction rule: rtranclp_induct)
    case (step y z)
    then show ?case using request_step_inv [OF step.hyps(2)] by (auto simp: decided_kept_def)
  qed (auto simp: decided_kept_def)
  have "requests_inv (master_grant db0) db0" using assms(3) by (simp add: requests_inv_def)
  then have "requests_inv (master_grant db0) db" using step [OF assms(1)] by blast
  from step [OF assms(2) this] show ?thesis by (auto simp: requests_inv_def)
qed

definition master_db_ex :: master_db where
  "master_db_ex = \<lparr>token_wallet = [], token_ledger = [], courtesy_grant = [], master_grant = [], subscription = [],
     invoice = [], plans = [], master_grant_request = []\<rparr>"

definition ev_ex :: "uuid \<Rightarrow> call_env" where
  "ev_ex k = \<lparr>o_fault = NoFault, o_now = 1000, o_ids = (\<lambda>n. k + n)\<rparr>"

definition request_ex :: grant_request_row where
  "request_ex = \<lparr>gr_id = 50, gr_external_id = ''U51'', gr_tenant_id = 7, gr_kind = GrantKindExtraTokens,
     gr_payload = [(''tokens'', AnyInt 20000000)], gr_reason = ''large migration'', gr_created_by = 9,
     gr_second_approver = None, gr_state = GrantRequestStateAwaiting, gr_decided_at = None, gr_created_at = 1000\<rparr>"

definition ulid_ex :: "uuid \<Rightarrow> string" where
  "ulid_ex n = (if n = 51 then ''U51'' else ''U61'')"

definition promoted_ex :: MasterGrant where
  "promoted_ex = \<lparr>mg_id = 60, mg_externalID = ''U61'', mg_tenantID = 7, mg_kind = KindExtraTokens,
     mg_payload = [(''tokens'', AnyInt 20000000)], mg_reason = ''large migration'', mg_createdByUserID = 9,
     mg_createdAt = 1000, mg_consumedAt = None, mg_consumedRef = '''', mg_revokedAt = None, mg_revokedByUserID = None,
     mg_revokeReason = ''''\<rparr>"

lemmas request_ex_defs = master_db_ex_def ev_ex_def request_ex_def ulid_ex_def promoted_ex_def char_length_def
  encodePayload_def decodePayload_def numberToInt_def go_int64_def i64

lemma create_ex:
  "CreateGrantRequest ulid_ex (ev_ex 50) master_db_ex \<lparr>ig_ActorUserID = 9, ig_TenantID = 7, ig_Kind = GrantKindExtraTokens,
     ig_PeriodDays = 0, ig_Amount = 20000000, ig_Reason = ''large migration''\<rparr>
   = Inr (request_ex, master_db_ex\<lparr>master_grant_request := [request_ex]\<rparr>)"
  by (simp add: CreateGrantRequest_def request_ex_defs Let_def)

lemma approve_ex:
  "ApproveGrantRequest ulid_ex (ev_ex 60) (master_db_ex\<lparr>master_grant_request := [request_ex]\<rparr>) 8 50
   = Inr (promoted_ex, master_db_ex\<lparr>master_grant := [promoted_ex], master_grant_request := [request_ex\<lparr>gr_state := GrantRequestStateApproved,
       gr_second_approver := Some 8, gr_decided_at := Some 1000\<rparr>]\<rparr>)"
  by (simp add: ApproveGrantRequest_def decide_request_def GetGrantRequest_def request_ex_defs Let_def)

theorem four_eyes_witness:
  "request_ok (request_ex\<lparr>gr_state := GrantRequestStateApproved, gr_second_approver := Some 8, gr_decided_at := Some 1000\<rparr>)"
proof -
  have "(request_step ulid_ex)\<^sup>*\<^sup>* master_db_ex (master_db_ex\<lparr>master_grant_request := [request_ex]\<rparr>)"
    using step_create [OF create_ex] by blast
  moreover have "(request_step ulid_ex)\<^sup>*\<^sup>* (master_db_ex\<lparr>master_grant_request := [request_ex]\<rparr>)
      (master_db_ex\<lparr>master_grant := [promoted_ex], master_grant_request := [request_ex\<lparr>gr_state := GrantRequestStateApproved,
         gr_second_approver := Some 8, gr_decided_at := Some 1000\<rparr>]\<rparr>)"
    using step_approve [OF approve_ex] by blast
  moreover have "master_grant_request master_db_ex = []" by (simp add: master_db_ex_def)
  ultimately show ?thesis using four_eyes [of ulid_ex master_db_ex] by fastforce
qed

section \<open>What becomes of the grants\<close>

text \<open>
  An approved token grant can never be applied: the promotion writes the amount under \<open>tokens\<close>, while the applier and
  the cap read \<open>amount\<close>. \<^verbatim>\<open>Apply\<close> of the promoted grant always fails with \<^verbatim>\<open>ErrInvalidGrantPayload\<close>, credits nothing and
  leaves it pending, and it counts as zero tokens against the window cap.
\<close>

theorem approved_tokens_never_apply:
  assumes a: "ApproveGrantRequest ulid ev db approver rid = Inr (g, db')" and k: "mg_kind g = KindExtraTokens"
    and q: "quiet os" and ids: "\<forall>h \<in> set (master_grant db). mg_id h \<noteq> mg_id g" and nz: "mg_id g \<noteq> uuid_nil"
  shows "\<exists>e. result_of (ApplyMasterGrant_Apply ustr actor (mg_id g)) os (crm_db.truncate db') = Inl e \<and>
    errors_is e wallet_ErrInvalidGrantPayload \<and>
    store_after (ApplyMasterGrant_Apply ustr actor (mg_id g)) os (crm_db.truncate db') = crm_db.truncate db' \<and>
    grant_equivalent g = 0"
proof -
  have nf: "o_fault (os m) = NoFault" for m using q by (simp add: quiet_def)
  obtain req db1 n where d: "decide_request GrantRequestStateApproved db approver rid (o_now ev) = Inr (req, db1)"
    and db': "db' = db1\<lparr>master_grant := master_grant db1 @ [g]\<rparr>" and p: "mg_payload g = [(''tokens'', AnyInt n)]"
    and g: "mg_consumedAt g = None" "mg_revokedAt g = None"
    using a k by (auto simp: ApproveGrantRequest_def Let_def encodePayload_def split: if_splits sum.splits GrantKind.splits)
  have "master_grant db1 = master_grant db"
    using d by (auto simp: decide_request_def split: sum.splits if_splits)
  then have f: "MasterGrantStore_GetByID (crm_db.truncate db') (mg_id g) = Inr g"
    using ids by (auto simp: MasterGrantStore_GetByID_def find_grant_def crm_db.defs db' find_append find_None_iff
        split: option.splits dest: find_SomeD)
  show ?thesis using nf f g nz
    by (simp add: result_of_def store_after_def ApplyMasterGrant_Apply_def applyExtraTokens_def readInt64Payload_def p k
        IsConsumed_def IsRevoked_def finish_apply_def grant_equivalent_def CapEquivalence_def)
qed

theorem approved_tokens_never_apply_witness:
  "\<exists>e. result_of (ApplyMasterGrant_Apply ustr_ex 9 60) env_ex (crm_db.truncate (master_db_ex\<lparr>master_grant := [promoted_ex],
     master_grant_request := [request_ex\<lparr>gr_state := GrantRequestStateApproved, gr_second_approver := Some 8,
       gr_decided_at := Some 1000\<rparr>]\<rparr>)) = Inl e \<and> errors_is e wallet_ErrInvalidGrantPayload"
proof -
  have q: "quiet env_ex" by (simp add: quiet_def env_ex_def)
  show ?thesis using approved_tokens_never_apply [OF approve_ex _ q, of ustr_ex 9] by (auto simp: request_ex_defs)
qed

lemma payloads_have_no_months:
  "map_of (json_payload (buildGrantPayload inp)) ''months'' = None"
  "encodePayload kind days amount = Inr p \<Longrightarrow> map_of p ''months'' = None"
  by (auto simp: buildGrantPayload_def encodePayload_def json_payload_def split: GrantKind.splits)

text \<open>
  Free periods never pause dunning: whatever grants the two issuing paths write, the courtesy lookup of the dunning
  worker answers that the tenant has no active override, because it reads \<open>months\<close> and both paths write \<open>period_days\<close>.
\<close>

theorem free_periods_never_override:
  assumes issued: "\<forall>g \<in> set (master_grant db).
      (\<exists>inp. mg_payload g = json_payload (buildGrantPayload inp)) \<or> (\<exists>kind days amount. encodePayload kind days amount = Inr (mg_payload g))"
    and t: "tenantID \<noteq> uuid_nil"
  shows "ActiveFor db tenantID now = derr dunning_ErrNoActiveOverride"
proof -
  have m: "DecodeMonths (mg_payload g) = None" if "g \<in> set (master_grant db)" for g
  proof -
    have "map_of (mg_payload g) ''months'' = None"
      using bspec [OF issued that] payloads_have_no_months by metis
    then show ?thesis by (simp add: DecodeMonths_def)
  qed
  have "first_live now gs = derr dunning_ErrNoActiveOverride" if "\<forall>g \<in> set gs. DecodeMonths (mg_payload g) = None" for gs
    using that by (induction gs) auto
  moreover have "\<forall>g \<in> set (take 16 (sort_key (\<lambda>g. - mg_createdAt g) (filter (\<lambda>g. mg_tenantID g = tenantID \<and>
      mg_kind g = KindFreeSubscriptionPeriod \<and> mg_revokedAt g = None) (master_grant db)))). DecodeMonths (mg_payload g) = None"
    using m by (auto dest!: in_set_takeD)
  ultimately show ?thesis using t by (simp add: ActiveFor_def)
qed

definition courtesy_db_ex :: dunning_db where
  "courtesy_db_ex = \<lparr>token_wallet = [], token_ledger = [], courtesy_grant = [], master_grant =
     [promoted_ex\<lparr>mg_kind := KindFreeSubscriptionPeriod, mg_payload := [(''period_days'', AnyInt 90)]\<rparr>], subscription = [],
     invoice = [], plans = [], subscription_dunning_states = []\<rparr>"

theorem free_periods_never_override_witness:
  "ActiveFor courtesy_db_ex 7 2000 = derr dunning_ErrNoActiveOverride"
proof (rule free_periods_never_override)
  have "encodePayload GrantKindFreeSubscriptionPeriod 90 0 = Inr [(''period_days'', AnyInt 90)]"
    by (simp add: encodePayload_def)
  then show "\<forall>g \<in> set (master_grant courtesy_db_ex). (\<exists>inp. mg_payload g = json_payload (buildGrantPayload inp)) \<or>
      (\<exists>kind days amount. encodePayload kind days amount = Inr (mg_payload g))"
    by (auto simp: courtesy_db_ex_def)
qed simp

end
