(* ===== verification/Iam.thy ===== *)
theory Iam
  imports Interleaving GoStrings
begin

text \<open>
  Roles, sessions, their time limits, the CSRF check and the rate-limit policies of the identity domain,
  \<^verbatim>\<open>src/internal/iam\<close> (\<^verbatim>\<open>role.go\<close>, \<^verbatim>\<open>session.go\<close>, \<^verbatim>\<open>timeouts.go\<close>, \<^verbatim>\<open>errors.go\<close>, \<^verbatim>\<open>account_locked_error.go\<close>,
  \<^verbatim>\<open>csrf/csrf.go\<close>, \<^verbatim>\<open>ratelimit/policy.go\<close>).
\<close>

section \<open>Roles\<close>

text \<open>A role is a persisted string; \<open>RoleOther\<close> is any string that is not one of the constants.\<close>

datatype Role = RoleMaster | RoleTenantGerente | RoleTenantLider | RoleTenantAtendente | RoleTenantCommon | RoleOther string

definition role_Valid :: "Role \<Rightarrow> bool" where
  "role_Valid r = (case r of RoleOther _ \<Rightarrow> False | _ \<Rightarrow> True)"

definition role_IsMaster :: "Role \<Rightarrow> bool" where
  "role_IsMaster r \<longleftrightarrow> r = RoleMaster"

section \<open>Errors\<close>

text \<open>
  \<open>ErrAccountLocked until\<close> is the typed \<^verbatim>\<open>AccountLockedError\<close>, which carries the end of the lock.
\<close>

datatype iam_sentinel =
    iam_ErrInvalidCredentials
  | iam_ErrSessionExpired
  | iam_ErrSessionNotFound
  | iam_ErrAccountLocked time
  | iam_ErrTenantNotFound
  | iam_ErrSessionIdleTimeout
  | iam_ErrSessionHardTimeout
  | iam_ErrUnknownRole
  | iam_ErrPasswordWriteUnavailable
  | iam_ErrSystemPrincipalProtected
  | iam_ErrPolicy string

type_synonym 'a iamresult = "(iam_sentinel, 'a) result"

abbreviation iamerr :: "iam_sentinel \<Rightarrow> 'a iamresult" where
  "iamerr e \<equiv> Inl (Sentinel e)"

text \<open>The zero \<^verbatim>\<open>time.Time\<close>, the first instant of the year 1.\<close>

definition zero_time :: time where
  "zero_time = - 62135596800 * 1000000000"

definition RetryAfter :: "time \<Rightarrow> time \<Rightarrow> duration" where
  "RetryAfter until now =
     (if until = zero_time then 0 else if \<not> until > now then 0 else time_sub until now)"

section \<open>Sessions\<close>

record Session =
  s_ID :: uuid
  s_UserID :: uuid
  s_TenantID :: uuid
  s_ExpiresAt :: time
  s_CreatedAt :: time
  s_IPAddr :: string
  s_UserAgent :: string
  s_LastActivity :: time
  s_Role :: Role
  s_CSRFToken :: string

definition defaultSessionTTL :: duration where
  "defaultSessionTTL = 24 * 3600 * 1000000000"

definition IsExpired :: "Session \<Rightarrow> time \<Rightarrow> bool" where
  "IsExpired s now \<longleftrightarrow> \<not> now < s_ExpiresAt s"

abbreviation (input) minutes :: "int \<Rightarrow> duration" where
  "minutes n \<equiv> n * 60 * 1000000000"

abbreviation (input) hours :: "int \<Rightarrow> duration" where
  "hours n \<equiv> n * 3600 * 1000000000"

record Timeouts =
  to_Idle :: duration
  to_Hard :: duration

definition TimeoutsForRole :: "Role \<Rightarrow> Timeouts iamresult" where
  "TimeoutsForRole r =
     (case r of
        RoleMaster \<Rightarrow> Inr \<lparr>to_Idle = minutes 15, to_Hard = hours 4\<rparr>
      | RoleTenantGerente \<Rightarrow> Inr \<lparr>to_Idle = minutes 30, to_Hard = hours 8\<rparr>
      | RoleTenantLider \<Rightarrow> Inr \<lparr>to_Idle = minutes 30, to_Hard = hours 8\<rparr>
      | RoleTenantAtendente \<Rightarrow> Inr \<lparr>to_Idle = minutes 60, to_Hard = hours 12\<rparr>
      | RoleTenantCommon \<Rightarrow> Inr \<lparr>to_Idle = minutes 30, to_Hard = hours 8\<rparr>
      | RoleOther _ \<Rightarrow> iamerr iam_ErrUnknownRole)"

definition CheckActivity :: "Role \<Rightarrow> time \<Rightarrow> time \<Rightarrow> time \<Rightarrow> unit iamresult" where
  "CheckActivity r createdAt lastActivity now =
     (case TimeoutsForRole r of
        Inl e \<Rightarrow> Inl e
      | Inr t \<Rightarrow>
          if time_sub now createdAt \<ge> to_Hard t then iamerr iam_ErrSessionHardTimeout
          else if time_sub now lastActivity \<ge> to_Idle t then iamerr iam_ErrSessionIdleTimeout
          else Inr ())"

lemma Timeouts_bounds:
  "TimeoutsForRole r = Inr t \<Longrightarrow> 0 < to_Idle t \<and> to_Idle t \<le> hours 1 \<and> 0 < to_Hard t \<and> to_Hard t \<le> hours 12"
  by (auto simp: TimeoutsForRole_def split: Role.splits)

lemma CheckActivity_ok:
  assumes "CheckActivity r created active now = Inr u"
  shows "\<exists>t. TimeoutsForRole r = Inr t \<and> now < created + to_Hard t \<and> now < active + to_Idle t"
proof -
  obtain t where t: "TimeoutsForRole r = Inr t" "\<not> to_Hard t \<le> time_sub now created" "\<not> to_Idle t \<le> time_sub now active"
    using assms by (auto simp: CheckActivity_def split: sum.splits if_splits)
  have "to_Hard t \<le> max_i64" "min_i64 < to_Hard t" "to_Idle t \<le> max_i64" "min_i64 < to_Idle t"
    using Timeouts_bounds [OF t(1)] by (auto simp: i64)
  with t show ?thesis by (auto simp: time_sub_ge_iff)
qed

section \<open>The CSRF check\<close>

datatype csrf_error = csrf_ErrTokenMissing | csrf_ErrTokenMismatch | csrf_ErrSessionTokenMissing

definition csrf_Verify :: "string \<Rightarrow> string \<Rightarrow> string \<Rightarrow> csrf_error + unit" where
  "csrf_Verify sessionToken headerToken formToken =
     (let presented = (if headerToken = '''' then formToken else headerToken) in
      if presented = '''' then Inl csrf_ErrTokenMissing
      else if sessionToken = '''' then Inl csrf_ErrSessionTokenMissing
      else if presented \<noteq> sessionToken then Inl csrf_ErrTokenMismatch
      else Inr ())"

lemma csrf_Verify_ok: "csrf_Verify t h f = Inr u \<Longrightarrow> t \<noteq> '''' \<and> (h = t \<or> h = '''' \<and> f = t)"
  by (auto simp: csrf_Verify_def Let_def split: if_splits)

section \<open>Rate-limit policies\<close>

record Bucket =
  bk_Name :: string
  bk_Window :: duration
  bk_Max :: int

record Lockout =
  lk_Threshold :: int
  lk_Duration :: duration
  lk_AlertOnLock :: bool

record rl_Policy =
  rp_Name :: string
  rp_Buckets :: "Bucket list"
  rp_Lockout :: Lockout

abbreviation invalid_policy :: "string \<Rightarrow> 'a iamresult" where
  "invalid_policy msg \<equiv> Inl (Wrapped msg (Sentinel (iam_ErrPolicy ''ratelimit: invalid policy'')))"

fun check_buckets :: "Bucket list \<Rightarrow> string list \<Rightarrow> unit iamresult" where
  "check_buckets [] seen = Inr ()"
| "check_buckets (b # bs) seen =
     (if bk_Name b = '''' then invalid_policy ''name is empty''
      else if bk_Window b \<le> 0 then invalid_policy ''window must be > 0''
      else if bk_Max b \<le> 0 then invalid_policy ''max must be > 0''
      else if bk_Name b \<in> set seen then invalid_policy ''duplicate name''
      else check_buckets bs (bk_Name b # seen))"

definition NewPolicy :: "string \<Rightarrow> Bucket list \<Rightarrow> Lockout \<Rightarrow> rl_Policy iamresult" where
  "NewPolicy name buckets lockout =
     (if name = '''' then invalid_policy ''name is empty''
      else if buckets = [] then invalid_policy ''has no buckets''
      else case check_buckets buckets [] of
             Inl e \<Rightarrow> Inl e
           | Inr _ \<Rightarrow>
               if lk_Threshold lockout < 0 then invalid_policy ''lockout threshold must be >= 0''
               else if lk_Duration lockout < 0 then invalid_policy ''lockout duration must be >= 0''
               else if lk_Threshold lockout > 0 \<and> lk_Duration lockout = 0
                 then invalid_policy ''lockout threshold > 0 requires duration > 0''
               else Inr \<lparr>rp_Name = name, rp_Buckets = buckets, rp_Lockout = lockout\<rparr>)"

definition LockoutEnabled :: "rl_Policy \<Rightarrow> bool" where
  "LockoutEnabled p \<longleftrightarrow> lk_Threshold (rp_Lockout p) > 0 \<and> lk_Duration (rp_Lockout p) > 0"

definition noLockout :: Lockout where
  "noLockout = \<lparr>lk_Threshold = 0, lk_Duration = 0, lk_AlertOnLock = False\<rparr>"

definition policy_specs :: "(string \<times> Bucket list \<times> Lockout) list" where
  "policy_specs =
     [(''login'',
       [\<lparr>bk_Name = ''ip'', bk_Window = minutes 1, bk_Max = 5\<rparr>, \<lparr>bk_Name = ''email'', bk_Window = hours 1, bk_Max = 10\<rparr>],
       \<lparr>lk_Threshold = 10, lk_Duration = minutes 15, lk_AlertOnLock = False\<rparr>),
      (''2fa_verify'',
       [\<lparr>bk_Name = ''session'', bk_Window = minutes 1, bk_Max = 5\<rparr>, \<lparr>bk_Name = ''user'', bk_Window = hours 1, bk_Max = 20\<rparr>],
       noLockout),
      (''password_reset'',
       [\<lparr>bk_Name = ''ip'', bk_Window = hours 1, bk_Max = 3\<rparr>, \<lparr>bk_Name = ''email'', bk_Window = hours 1, bk_Max = 3\<rparr>],
       noLockout),
      (''m_login'',
       [\<lparr>bk_Name = ''ip'', bk_Window = minutes 1, bk_Max = 3\<rparr>, \<lparr>bk_Name = ''email'', bk_Window = hours 1, bk_Max = 5\<rparr>],
       \<lparr>lk_Threshold = 5, lk_Duration = minutes 30, lk_AlertOnLock = True\<rparr>),
      (''m_2fa_verify'',
       [\<lparr>bk_Name = ''session'', bk_Window = minutes 1, bk_Max = 3\<rparr>, \<lparr>bk_Name = ''user'', bk_Window = hours 1, bk_Max = 10\<rparr>],
       noLockout)]"

fun build_policies :: "(string \<times> Bucket list \<times> Lockout) list \<Rightarrow> (string \<times> rl_Policy) list iamresult" where
  "build_policies [] = Inr []"
| "build_policies ((name, buckets, lockout) # specs) =
     (case NewPolicy name buckets lockout of
        Inl e \<Rightarrow> Inl e
      | Inr p \<Rightarrow>
          (case build_policies specs of Inl e \<Rightarrow> Inl e | Inr ps \<Rightarrow> Inr ((name, p) # ps)))"

definition DefaultPolicies :: "(string \<times> rl_Policy) list iamresult" where
  "DefaultPolicies = build_policies policy_specs"

lemma NewPolicy_ok:
  assumes "NewPolicy name buckets lockout = Inr p"
  shows "LockoutEnabled p \<longleftrightarrow> lk_Threshold lockout > 0" and "\<forall>b \<in> set (rp_Buckets p). bk_Window b > 0 \<and> bk_Max b > 0"
proof -
  have b: "check_buckets bs seen = Inr u \<Longrightarrow> \<forall>b \<in> set bs. bk_Window b > 0 \<and> bk_Max b > 0" for bs seen u
    by (induction bs seen rule: check_buckets.induct) (auto split: if_splits)
  show "LockoutEnabled p \<longleftrightarrow> lk_Threshold lockout > 0" "\<forall>b \<in> set (rp_Buckets p). bk_Window b > 0 \<and> bk_Max b > 0"
    using assms by (auto simp: NewPolicy_def LockoutEnabled_def dest: b split: if_splits sum.splits)
qed

text \<open>The shipped table is accepted by its own validation.\<close>

lemma DefaultPolicies_valid: "\<exists>ps. DefaultPolicies = Inr ps \<and> map fst ps = map fst policy_specs"
  by (simp add: DefaultPolicies_def policy_specs_def NewPolicy_def noLockout_def)

end
