(* ===== verification/RateLimiter.thy ===== *)
theory RateLimiter
  imports Iam
begin

text \<open>
  The sliding-window rate limiter, \<^verbatim>\<open>src/internal/adapter/ratelimit/redis/sliding.go\<close>: the Lua script over a sorted
  set, run atomically by Redis, and \<^verbatim>\<open>Allow\<close> around it. A sorted set is the list of its members with their
  scores. The key expires two windows after its last hit, when all its members are older than the window; the
  expiry is therefore not visible, except that a window below a millisecond expires the key at once.
\<close>

section \<open>The script\<close>

type_synonym zset = "(string \<times> int) list"

definition ZREMRANGEBYSCORE :: "zset \<Rightarrow> int \<Rightarrow> zset" where
  "ZREMRANGEBYSCORE z cutoff = filter (\<lambda>(m, s). \<not> s \<le> cutoff) z"

definition ZADD :: "zset \<Rightarrow> int \<Rightarrow> string \<Rightarrow> zset" where
  "ZADD z score member = (member, score) # filter (\<lambda>(m, s). m \<noteq> member) z"

definition oldest_score :: "zset \<Rightarrow> int option" where
  "oldest_score z = (if z = [] then None else Some (Min (set (map snd z))))"

definition slidingScript :: "zset \<Rightarrow> int \<Rightarrow> int \<Rightarrow> int \<Rightarrow> string \<Rightarrow> (bool \<times> int) \<times> zset" where
  "slidingScript z0 now window max_hits member =
     (let z = ZREMRANGEBYSCORE z0 (now - window) in
      if int (length z) \<ge> max_hits then
        ((False,
          case oldest_score z of
            None \<Rightarrow> window
          | Some oldest_ts \<Rightarrow> let age_out = (oldest_ts + window) - now in if age_out > 0 then age_out else 1), z)
      else ((True, 0), if window * 2 \<le> 0 then [] else ZADD z now member))"

section \<open>The adapter\<close>

definition UnixMilli :: "time \<Rightarrow> int" where
  "UnixMilli t = t div 1000000"

definition Milliseconds :: "duration \<Rightarrow> int" where
  "Milliseconds d = go_div d 1000000"

definition Allow ::
  "string \<Rightarrow> time \<Rightarrow> string \<Rightarrow> string \<Rightarrow> duration \<Rightarrow> int \<Rightarrow> (string \<Rightarrow> zset) \<Rightarrow> ((bool \<times> duration) \<times> (string \<Rightarrow> zset)) iamresult" where
  "Allow keyPrefix now newID key window max_hits buckets =
     (if key = '''' then Inl (Opaque ''redis/ratelimit: empty key'')
      else if window \<le> 0 then Inl (Opaque ''redis/ratelimit: window must be > 0'')
      else if max_hits \<le> 0 then Inl (Opaque ''redis/ratelimit: max must be > 0'')
      else case slidingScript (buckets (keyPrefix @ key)) (UnixMilli now) (Milliseconds window) max_hits newID of
             ((allowed, retryMs), z) \<Rightarrow>
               Inr ((allowed, wrap64 (retryMs * 1000000)), buckets((keyPrefix @ key) := z)))"

section \<open>The window is exact\<close>

text \<open>
  The reference limiter keeps the time of every hit it ever allowed, and allows a hit when fewer than \<open>max_hits\<close> of
  them lie in the window that ends at it.
\<close>

fun reference_run :: "int \<Rightarrow> int \<Rightarrow> int list \<Rightarrow> (int \<times> string) list \<Rightarrow> bool list \<times> int list" where
  "reference_run window max_hits hlog [] = ([], hlog)"
| "reference_run window max_hits hlog ((now, member) # calls) =
     (let ok = int (length (filter (\<lambda>t. now - window < t) hlog)) < max_hits;
          (oks, hlog1) = reference_run window max_hits (if ok then now # hlog else hlog) calls
      in (ok # oks, hlog1))"

fun script_run :: "int \<Rightarrow> int \<Rightarrow> zset \<Rightarrow> (int \<times> string) list \<Rightarrow> bool list \<times> zset" where
  "script_run window max_hits z [] = ([], z)"
| "script_run window max_hits z ((now, member) # calls) =
     (case slidingScript z now window max_hits member of
        ((ok, retry), z') \<Rightarrow> let (oks, z'') = script_run window max_hits z' calls in (ok # oks, z''))"

text \<open>What the sorted set holds: the hits of the log that the last call had not aged out yet.\<close>

definition in_step :: "int \<Rightarrow> int \<Rightarrow> zset \<Rightarrow> int list \<Rightarrow> bool" where
  "in_step window t z hlog \<longleftrightarrow> mset (map snd z) = mset (filter (\<lambda>s. t - window < s) hlog) \<and> (\<forall>s \<in> set hlog. s \<le> t)"

lemma trim_in_step:
  assumes "in_step window t z hlog" and "t \<le> now"
  shows "mset (map snd (ZREMRANGEBYSCORE z (now - window))) = mset (filter (\<lambda>s. now - window < s) hlog)"
proof -
  have "mset (map snd (ZREMRANGEBYSCORE z (now - window))) = filter_mset (\<lambda>s. now - window < s) (mset (map snd z))"
    by (simp add: ZREMRANGEBYSCORE_def filter_mset_image_mset case_prod_unfold not_le flip: mset_filter)
  also have "\<dots> = filter_mset (\<lambda>s. now - window < s) (filter_mset (\<lambda>s. t - window < s) (mset hlog))"
    using assms(1) by (simp add: in_step_def)
  also have "\<dots> = mset (filter (\<lambda>s. now - window < s) hlog)"
    using assms(2) by (auto simp: filter_filter_mset intro!: filter_mset_cong)
  finally show ?thesis .
qed

lemma script_refines_reference:
  assumes "in_step window t z hlog" and "0 < window" and "sorted (t # map fst calls)" and "distinct (map snd calls)"
    and "set (map fst z) \<inter> set (map snd calls) = {}"
  shows "fst (script_run window max_hits z calls) = fst (reference_run window max_hits hlog calls)"
  using assms
proof (induction calls arbitrary: t z hlog)
  case (Cons c calls)
  obtain now member where c: "c = (now, member)" by (cases c)
  let ?z = "ZREMRANGEBYSCORE z (now - window)"
  have now: "t \<le> now" using Cons.prems(3) c by simp
  note trim = trim_in_step [OF Cons.prems(1) now]
  have len: "length ?z = length (filter (\<lambda>s. now - window < s) hlog)"
    using trim by (metis length_map size_mset)
  have log_le: "\<forall>s \<in> set hlog. s \<le> now" using Cons.prems(1) now by (auto simp: in_step_def)
  have sub: "set ?z \<subseteq> set z" by (auto simp: ZREMRANGEBYSCORE_def)
  have add: "ZADD ?z now member = (member, now) # ?z"
  proof -
    have "member \<notin> fst ` set z" using Cons.prems(5) c by auto
    then have "\<forall>x \<in> set ?z. fst x \<noteq> member" using sub by (metis imageI subsetD)
    then show ?thesis by (auto simp: ZADD_def case_prod_unfold intro!: filter_True)
  qed
  have rest: "sorted (now # map fst calls)" "distinct (map snd calls)" using Cons.prems(3,4) c by auto
  have "fst ` set ?z \<subseteq> fst ` set z" using sub by (rule image_mono)
  then have fresh: "set (map fst ?z) \<inter> set (map snd calls) = {}" using Cons.prems(5) by auto
  have m: "member \<notin> set (map snd calls)" using Cons.prems(4) c by simp
  show ?case
  proof (cases "int (length ?z) \<ge> max_hits")
    case True
    have "in_step window now ?z hlog" using trim log_le by (simp add: in_step_def)
    from Cons.IH [OF this Cons.prems(2) rest fresh] show ?thesis
      using True len c by (simp add: slidingScript_def Let_def case_prod_unfold)
  next
    case False
    have "in_step window now ((member, now) # ?z) (now # hlog)"
      using trim log_le Cons.prems(2) by (simp add: in_step_def)
    from Cons.IH [OF this Cons.prems(2) rest] show ?thesis
      using False len c add fresh m Cons.prems(2) by (simp add: slidingScript_def Let_def case_prod_unfold)
  qed
qed simp

text \<open>Every hit of the reference's log had room in the window that ends at it.\<close>

fun roomy :: "int \<Rightarrow> int \<Rightarrow> int list \<Rightarrow> bool" where
  "roomy window max_hits [] \<longleftrightarrow> True"
| "roomy window max_hits (s # hlog) \<longleftrightarrow>
     int (length (filter (\<lambda>t. s - window < t) hlog)) < max_hits \<and> (\<forall>t \<in> set hlog. t \<le> s) \<and> roomy window max_hits hlog"

lemma reference_roomy:
  "roomy window max_hits hlog \<Longrightarrow> sorted (map fst calls) \<Longrightarrow> \<forall>s \<in> set hlog. \<forall>c \<in> set calls. s \<le> fst c \<Longrightarrow>
   roomy window max_hits (snd (reference_run window max_hits hlog calls))"
  by (induction window max_hits hlog calls rule: reference_run.induct) (auto simp: Let_def case_prod_unfold)

lemma length_filter_implies: "(\<And>x. P x \<Longrightarrow> Q x) \<Longrightarrow> length (filter P xs) \<le> length (filter Q xs)"
  by (induction xs) auto

lemma roomy_bound:
  assumes "roomy window max_hits hlog" and "0 \<le> max_hits"
  shows "int (length (filter (\<lambda>s. t - window < s \<and> s \<le> t) hlog)) \<le> max_hits"
  using assms(1)
proof (induction hlog)
  case (Cons s hlog)
  have "length (filter (\<lambda>s. t - window < s \<and> s \<le> t) hlog) \<le> length (filter (\<lambda>x. s - window < x) hlog)" if "s \<le> t"
    using that by (intro length_filter_implies) auto
  then show ?case using Cons by (cases "s \<le> t") auto
qed (simp add: assms(2))

text \<open>The number of hits a run allows is the growth of the reference's log.\<close>

lemma reference_log:
  "length (snd (reference_run window max_hits hlog calls)) =
     length hlog + length (filter id (fst (reference_run window max_hits hlog calls)))"
  by (induction window max_hits hlog calls rule: reference_run.induct) (auto simp: Let_def case_prod_unfold)

text \<open>
  C17. The limiter is exact: on any sequence of calls in the order of time, the script that trims its sorted set decides every
  call as the reference limiter that forgets nothing, and no window of the configured length ever contains more
  than the configured number of allowed hits.
\<close>

theorem sliding_window_is_exact:
  assumes "0 < window" and "0 \<le> max_hits" and "sorted (map fst calls)" and "distinct (map snd calls)"
  shows "fst (script_run window max_hits [] calls) = fst (reference_run window max_hits [] calls) \<and>
    int (length (filter (\<lambda>s. t - window < s \<and> s \<le> t) (snd (reference_run window max_hits [] calls)))) \<le> max_hits"
proof -
  have "in_step window (Min (insert 0 (fst ` set calls))) [] []" by (simp add: in_step_def)
  moreover have "sorted (Min (insert 0 (fst ` set calls)) # map fst calls)" using assms(3) by auto
  ultimately show ?thesis
    using script_refines_reference [of window _ "[]" "[]" calls max_hits] assms
      roomy_bound [OF reference_roomy [of window max_hits "[]" calls]] by simp
qed

theorem sliding_window_is_exact_witness:
  "fst (script_run 1000 2 [] [(0, ''a''), (10, ''b''), (20, ''c''), (1005, ''d'')]) = [True, True, False, True]"
  using sliding_window_is_exact [of 1000 2 "[(0, ''a''), (10, ''b''), (20, ''c''), (1005, ''d'')]" 20]
  by (simp add: Let_def)

end
