(* ===== verification/IamStore.thy ===== *)
theory IamStore
  imports RateLimiter
begin

text \<open>
  The stores behind the login: \<^verbatim>\<open>SessionStore\<close>, \<^verbatim>\<open>UserCredentialReader\<close>, \<^verbatim>\<open>MasterCredentialReader\<close>, \<^verbatim>\<open>TenantResolver\<close> and the two
  \<^verbatim>\<open>Lockouts\<close> adapters of \<^verbatim>\<open>src/internal/adapter/db/postgres\<close> over tables \<^verbatim>\<open>tenants\<close>, \<^verbatim>\<open>users\<close>, \<^verbatim>\<open>sessions\<close> and
  \<^verbatim>\<open>account_lockout\<close>, and the sorted sets of the limiter. A query under \<^verbatim>\<open>WithTenant\<close> sees the rows of its tenant
  only (row-level security). The column \<^verbatim>\<open>users.email\<close> has type \<^verbatim>\<open>citext\<close>, which compares by the database's
  lower-casing; that is the argument \<open>lower\<close>.
\<close>

section \<open>Tables\<close>

record user_row =
  u_id :: uuid
  u_tenant_id :: "uuid option"
  u_email :: string
  u_password_hash :: string
  u_role :: Role
  u_is_master :: bool
  u_is_system :: bool
  u_deactivated_at :: "time option"

record lockout_row =
  al_user_id :: uuid
  al_tenant_id :: "uuid option"
  al_locked_until :: time
  al_reason :: string

record iam_db =
  tenants :: "(string \<times> uuid) list"
  users :: "user_row list"
  sessions :: "Session list"
  account_lockout :: "lockout_row list"
  rl_buckets :: "string \<Rightarrow> zset"

type_synonym 'a iprog = "(iam_db, call_env, 'a) prog"

abbreviation zero_tenant :: "'a iamresult" where
  "zero_tenant \<equiv> Inl (Opaque ''postgres: tenantID must not be uuid.Nil'')"

section \<open>Tenants and credentials\<close>

definition ResolveByHost :: "iam_db \<Rightarrow> string \<Rightarrow> uuid iamresult" where
  "ResolveByHost db host =
     (if host = '''' then iamerr iam_ErrTenantNotFound
      else case map_of (tenants db) host of None \<Rightarrow> iamerr iam_ErrTenantNotFound | Some t \<Rightarrow> Inr t)"

text \<open>No matching row is the pair of the nil identifier and the empty hash.\<close>

definition LookupCredentials :: "(string \<Rightarrow> string) \<Rightarrow> iam_db \<Rightarrow> uuid \<Rightarrow> string \<Rightarrow> (uuid \<times> string) iamresult" where
  "LookupCredentials lower db tenantID email =
     (if tenantID = uuid_nil then zero_tenant
      else case find (\<lambda>u. u_tenant_id u = Some tenantID \<and> lower (u_email u) = lower email \<and> u_deactivated_at u = None) (users db) of
             None \<Rightarrow> Inr (uuid_nil, '''')
           | Some u \<Rightarrow> Inr (u_id u, u_password_hash u))"

definition RoleByUser :: "iam_db \<Rightarrow> uuid \<Rightarrow> uuid \<Rightarrow> Role iamresult" where
  "RoleByUser db tenantID userID =
     (if tenantID = uuid_nil then zero_tenant
      else case find (\<lambda>u. u_tenant_id u = Some tenantID \<and> u_id u = userID) (users db) of
             None \<Rightarrow> Inr (RoleOther '''')
           | Some u \<Rightarrow> Inr (u_role u))"

definition LookupMasterCredentials :: "(string \<Rightarrow> string) \<Rightarrow> iam_db \<Rightarrow> string \<Rightarrow> (uuid \<times> string) iamresult" where
  "LookupMasterCredentials lower db email =
     (case find (\<lambda>u. lower (u_email u) = lower email \<and> u_is_master u \<and> u_tenant_id u = None \<and> \<not> u_is_system u) (users db) of
        None \<Rightarrow> Inr (uuid_nil, '''')
      | Some u \<Rightarrow> Inr (u_id u, u_password_hash u))"

section \<open>Sessions\<close>

definition sessions_role_check :: "Role \<Rightarrow> bool" where
  "sessions_role_check r \<longleftrightarrow> r \<in> {RoleMaster, RoleTenantGerente, RoleTenantAtendente, RoleTenantCommon}"

definition SessionStore_Create :: "iam_db \<Rightarrow> Session \<Rightarrow> (unit \<times> iam_db) iamresult" where
  "SessionStore_Create db sess =
     (if s_TenantID sess = uuid_nil then Inl (Opaque ''postgres: SessionStore.Create: tenant id is nil'')
      else let role = (if s_Role sess = RoleOther '''' then RoleTenantCommon else s_Role sess);
               lastActivity = (if s_LastActivity sess = zero_time then s_CreatedAt sess else s_LastActivity sess)
           in if \<not> sessions_role_check role \<or> (\<exists>x \<in> set (sessions db). s_ID x = s_ID sess)
              then Inl (Wrapped ''postgres: SessionStore.Create exec'' (Opaque ''constraint violation''))
              else Inr ((), db\<lparr>sessions := sessions db @ [sess\<lparr>s_Role := role, s_LastActivity := lastActivity\<rparr>]\<rparr>))"

definition SessionStore_Get :: "iam_db \<Rightarrow> uuid \<Rightarrow> uuid \<Rightarrow> Session iamresult" where
  "SessionStore_Get db tenantID sessionID =
     (if tenantID = uuid_nil then zero_tenant
      else case find (\<lambda>s. s_TenantID s = tenantID \<and> s_ID s = sessionID) (sessions db) of
             None \<Rightarrow> iamerr iam_ErrSessionNotFound
           | Some s \<Rightarrow> Inr s)"

definition SessionStore_Delete :: "iam_db \<Rightarrow> uuid \<Rightarrow> uuid \<Rightarrow> (unit \<times> iam_db) iamresult" where
  "SessionStore_Delete db tenantID sessionID =
     (if tenantID = uuid_nil then zero_tenant
      else Inr ((), db\<lparr>sessions := filter (\<lambda>s. \<not> (s_TenantID s = tenantID \<and> s_ID s = sessionID)) (sessions db)\<rparr>))"

definition SessionStore_DeleteExpired :: "iam_db \<Rightarrow> uuid \<Rightarrow> time \<Rightarrow> (int \<times> iam_db) iamresult" where
  "SessionStore_DeleteExpired db tenantID now =
     (if tenantID = uuid_nil then zero_tenant
      else let gone = (\<lambda>s. s_TenantID s = tenantID \<and> s_ExpiresAt s < now)
           in Inr (int (length (filter gone (sessions db))), db\<lparr>sessions := filter (\<lambda>s. \<not> gone s) (sessions db)\<rparr>))"

definition SessionStore_Touch :: "iam_db \<Rightarrow> uuid \<Rightarrow> uuid \<Rightarrow> time \<Rightarrow> (unit \<times> iam_db) iamresult" where
  "SessionStore_Touch db tenantID sessionID lastActivity =
     (if tenantID = uuid_nil then Inl (Opaque ''postgres: SessionStore.Touch: tenant id is nil'')
      else if \<exists>s \<in> set (sessions db). s_TenantID s = tenantID \<and> s_ID s = sessionID
        then Inr ((), db\<lparr>sessions := map (\<lambda>s. if s_TenantID s = tenantID \<and> s_ID s = sessionID
               then s\<lparr>s_LastActivity := lastActivity\<rparr> else s) (sessions db)\<rparr>)
      else iamerr iam_ErrSessionNotFound)"

section \<open>Lockouts\<close>

text \<open>
  The scope an adapter is built for: \<^verbatim>\<open>TenantLockouts\<close> for a tenant or \<^verbatim>\<open>MasterLockouts\<close>. A master reads and clears the
  rows without a tenant; a tenant's upsert on a row of someone else violates row-level security.
\<close>

datatype lockout_scope = TenantLockouts uuid | MasterLockouts

fun scope_tenant :: "lockout_scope \<Rightarrow> uuid option" where
  "scope_tenant (TenantLockouts t) = Some t"
| "scope_tenant MasterLockouts = None"

definition lockout_Lock :: "lockout_scope \<Rightarrow> iam_db \<Rightarrow> uuid \<Rightarrow> time \<Rightarrow> string \<Rightarrow> (unit \<times> iam_db) iamresult" where
  "lockout_Lock scope db userID until reason =
     (if userID = uuid_nil then Inl (Opaque ''Lockouts.Lock: userID is nil'')
      else if until = zero_time then Inl (Opaque ''Lockouts.Lock: until is zero'')
      else if scope_tenant scope = Some uuid_nil then zero_tenant
      else case find (\<lambda>r. al_user_id r = userID) (account_lockout db) of
             None \<Rightarrow> Inr ((), db\<lparr>account_lockout := account_lockout db @
                      [\<lparr>al_user_id = userID, al_tenant_id = scope_tenant scope, al_locked_until = until, al_reason = reason\<rparr>]\<rparr>)
           | Some row \<Rightarrow>
               if scope \<noteq> MasterLockouts \<and> al_tenant_id row \<noteq> scope_tenant scope
                 then Inl (Wrapped ''Lockouts.Lock exec'' (Opaque ''row-level security''))
               else Inr ((), db\<lparr>account_lockout := map (\<lambda>r. if al_user_id r = userID
                      then r\<lparr>al_locked_until := until, al_reason := reason\<rparr> else r) (account_lockout db)\<rparr>))"

definition lockout_IsLocked :: "lockout_scope \<Rightarrow> iam_db \<Rightarrow> uuid \<Rightarrow> time \<Rightarrow> time option iamresult" where
  "lockout_IsLocked scope db userID now =
     (if scope_tenant scope = Some uuid_nil then zero_tenant
      else case find (\<lambda>r. al_user_id r = userID \<and> al_tenant_id r = scope_tenant scope) (account_lockout db) of
             None \<Rightarrow> Inr None
           | Some r \<Rightarrow> if \<not> al_locked_until r > now then Inr None else Inr (Some (al_locked_until r)))"

definition lockout_Clear :: "lockout_scope \<Rightarrow> iam_db \<Rightarrow> uuid \<Rightarrow> (unit \<times> iam_db) iamresult" where
  "lockout_Clear scope db userID =
     (if scope_tenant scope = Some uuid_nil then zero_tenant
      else Inr ((), db\<lparr>account_lockout :=
             filter (\<lambda>r. \<not> (al_user_id r = userID \<and> al_tenant_id r = scope_tenant scope)) (account_lockout db)\<rparr>))"

definition limiter_Allow :: "string \<Rightarrow> (nat \<Rightarrow> string) \<Rightarrow> call_env \<Rightarrow> iam_db \<Rightarrow> string \<Rightarrow> duration \<Rightarrow> int
  \<Rightarrow> ((bool \<times> duration) \<times> iam_db) iamresult" where
  "limiter_Allow keyPrefix ustr ev db key window max_hits =
     (case Allow keyPrefix (o_now ev) (ustr (o_ids ev 0)) key window max_hits (rl_buckets db) of
        Inl e \<Rightarrow> Inl e
      | Inr (r, b) \<Rightarrow> Inr (r, db\<lparr>rl_buckets := b\<rparr>))"

end
