(* ===== verification/Authz.thy ===== *)
theory Authz
  imports Iam
begin

text \<open>
  The role-based authorizer, \<^verbatim>\<open>src/internal/iam/authorizer.go\<close> and \<^verbatim>\<open>principal.go\<close>: the action vocabulary, the
  permission matrix and \<^verbatim>\<open>Can\<close>.
\<close>

section \<open>Actions and principals\<close>

text \<open>\<open>ActionOther\<close> is any action string that is not one of the constants.\<close>

datatype Action =
    ActionTenantContactRead | ActionTenantContactReadPII | ActionTenantContactCreate | ActionTenantContactUpdate |
    ActionTenantContactDelete | ActionTenantConversationRead | ActionTenantMessageSend | ActionTenantMessageRead |
    ActionMasterTenantCreate | ActionMasterTenantRead | ActionMasterTenantUpdate | ActionMasterTenantDelete |
    ActionMasterTenantImpersonate | ActionMasterSubscriptionAssignPlan | ActionMasterSubscriptionCancel |
    ActionMasterGrantCourtesyFreeSubscriptionPeriod | ActionMasterGrantCourtesyExtraTokens |
    ActionMasterGrantCourtesyRevoke | ActionMasterGrantRequestCreate | ActionMasterGrantRequestApprove |
    ActionMasterGrantRequestReject | ActionTenantBillingView | ActionTenantWalletViewLedger |
    ActionTenantAIPolicyWrite | ActionTenantAIPolicyAuditRead | ActionMasterAuditRead | ActionTenantCatalogManage |
    ActionTenantCampaignManage | ActionTenantFunnelRuleManage | ActionTenantBrandingManage | ActionTenantLGPDExport |
    ActionTenantLGPDDelete | ActionTenantInboxRead | ActionTenantWASessionManage | ActionTenantChannelsManage |
    ActionTenantUserList | ActionTenantUserCreate | ActionTenantUserUpdate | ActionTenantUserDeactivate |
    ActionOther string

datatype ReasonCode =
    ReasonAllowedRBAC
  | ReasonAllowedMaster
  | ReasonDeniedNoPrincipal
  | ReasonDeniedRBAC
  | ReasonDeniedMasterPIIStepUp
  | ReasonDeniedTenantMismatch
  | ReasonDeniedUnknownAction

record Principal =
  p_UserID :: uuid
  p_TenantID :: uuid
  p_Roles :: "Role list"
  p_MasterImpersonating :: bool
  p_MFAVerifiedAt :: "time option"

definition HasRole :: "Principal \<Rightarrow> Role \<Rightarrow> bool" where
  "HasRole p r \<longleftrightarrow> r \<in> set (p_Roles p)"

definition p_IsMaster :: "Principal \<Rightarrow> bool" where
  "p_IsMaster p = HasRole p RoleMaster"

definition PrincipalFromSession :: "Session \<Rightarrow> bool \<Rightarrow> time option \<Rightarrow> Principal" where
  "PrincipalFromSession s masterImpersonating mfaVerifiedAt =
     \<lparr>p_UserID = s_UserID s, p_TenantID = s_TenantID s, p_Roles = [s_Role s],
      p_MasterImpersonating = masterImpersonating, p_MFAVerifiedAt = mfaVerifiedAt\<rparr>"

record Resource =
  res_TenantID :: string
  res_Kind :: string
  res_ID :: string

record Decision =
  d_Allow :: bool
  d_ReasonCode :: ReasonCode
  d_TargetKind :: string
  d_TargetID :: string

section \<open>The matrix\<close>

fun defaultRolesByAction :: "Action \<Rightarrow> Role list option" where
  "defaultRolesByAction ActionTenantContactRead = Some [RoleTenantCommon, RoleTenantAtendente, RoleTenantGerente]"
| "defaultRolesByAction ActionTenantContactReadPII = Some [RoleTenantGerente]"
| "defaultRolesByAction ActionTenantContactCreate = Some [RoleTenantGerente]"
| "defaultRolesByAction ActionTenantContactUpdate = Some [RoleTenantGerente, RoleTenantAtendente]"
| "defaultRolesByAction ActionTenantContactDelete = Some [RoleTenantGerente]"
| "defaultRolesByAction ActionTenantConversationRead = Some [RoleTenantCommon, RoleTenantAtendente, RoleTenantGerente]"
| "defaultRolesByAction ActionTenantMessageRead = Some [RoleTenantCommon, RoleTenantAtendente, RoleTenantGerente]"
| "defaultRolesByAction ActionTenantMessageSend = Some [RoleTenantAtendente, RoleTenantGerente]"
| "defaultRolesByAction ActionMasterTenantCreate = Some [RoleMaster]"
| "defaultRolesByAction ActionMasterTenantRead = Some [RoleMaster]"
| "defaultRolesByAction ActionMasterTenantUpdate = Some [RoleMaster]"
| "defaultRolesByAction ActionMasterTenantDelete = Some [RoleMaster]"
| "defaultRolesByAction ActionMasterTenantImpersonate = Some [RoleMaster]"
| "defaultRolesByAction ActionMasterSubscriptionAssignPlan = Some [RoleMaster]"
| "defaultRolesByAction ActionMasterSubscriptionCancel = Some [RoleMaster]"
| "defaultRolesByAction ActionMasterGrantCourtesyFreeSubscriptionPeriod = Some [RoleMaster]"
| "defaultRolesByAction ActionMasterGrantCourtesyExtraTokens = Some [RoleMaster]"
| "defaultRolesByAction ActionMasterGrantCourtesyRevoke = Some [RoleMaster]"
| "defaultRolesByAction ActionMasterGrantRequestCreate = Some [RoleMaster]"
| "defaultRolesByAction ActionMasterGrantRequestApprove = Some [RoleMaster]"
| "defaultRolesByAction ActionMasterGrantRequestReject = Some [RoleMaster]"
| "defaultRolesByAction ActionTenantBillingView = Some [RoleTenantGerente]"
| "defaultRolesByAction ActionTenantWalletViewLedger = Some [RoleTenantGerente]"
| "defaultRolesByAction ActionTenantAIPolicyWrite = Some [RoleTenantGerente]"
| "defaultRolesByAction ActionTenantAIPolicyAuditRead = Some [RoleTenantGerente]"
| "defaultRolesByAction ActionMasterAuditRead = Some [RoleMaster]"
| "defaultRolesByAction ActionTenantCatalogManage = Some [RoleTenantGerente]"
| "defaultRolesByAction ActionTenantCampaignManage = Some [RoleTenantGerente]"
| "defaultRolesByAction ActionTenantFunnelRuleManage = Some [RoleTenantGerente]"
| "defaultRolesByAction ActionTenantBrandingManage = Some [RoleTenantGerente]"
| "defaultRolesByAction ActionTenantLGPDExport = Some [RoleTenantGerente]"
| "defaultRolesByAction ActionTenantLGPDDelete = Some [RoleTenantGerente]"
| "defaultRolesByAction ActionTenantInboxRead = Some [RoleTenantAtendente, RoleTenantGerente]"
| "defaultRolesByAction ActionTenantWASessionManage = Some [RoleTenantGerente]"
| "defaultRolesByAction ActionTenantChannelsManage = Some [RoleTenantGerente]"
| "defaultRolesByAction ActionTenantUserList = Some [RoleTenantGerente]"
| "defaultRolesByAction ActionTenantUserCreate = Some [RoleTenantGerente]"
| "defaultRolesByAction ActionTenantUserUpdate = Some [RoleTenantGerente]"
| "defaultRolesByAction ActionTenantUserDeactivate = Some [RoleTenantGerente]"
| "defaultRolesByAction (ActionOther s) = None"

definition defaultMasterActions :: "Action list" where
  "defaultMasterActions =
    [ActionMasterTenantCreate, ActionMasterTenantRead, ActionMasterTenantUpdate, ActionMasterTenantDelete,
     ActionMasterTenantImpersonate, ActionMasterSubscriptionAssignPlan, ActionMasterSubscriptionCancel,
     ActionMasterGrantCourtesyFreeSubscriptionPeriod, ActionMasterGrantCourtesyExtraTokens,
     ActionMasterGrantCourtesyRevoke, ActionMasterGrantRequestCreate, ActionMasterGrantRequestApprove,
     ActionMasterGrantRequestReject, ActionMasterAuditRead]"

definition defaultPIIActions :: "Action list" where
  "defaultPIIActions = [ActionTenantContactReadPII, ActionTenantLGPDExport, ActionTenantLGPDDelete]"

record RBACAuthorizer =
  az_rolesByAction :: "Action \<Rightarrow> Role list option"
  az_masterActions :: "Action list"
  az_piiActions :: "Action list"
  az_masterPIIStepUpWindow :: duration

definition NewRBACAuthorizer :: "duration \<Rightarrow> RBACAuthorizer" where
  "NewRBACAuthorizer window =
     \<lparr>az_rolesByAction = defaultRolesByAction, az_masterActions = defaultMasterActions,
      az_piiActions = defaultPIIActions, az_masterPIIStepUpWindow = window\<rparr>"

definition stepUpFresh :: "RBACAuthorizer \<Rightarrow> time \<Rightarrow> Principal \<Rightarrow> bool" where
  "stepUpFresh a now p =
     (case p_MFAVerifiedAt p of
        None \<Rightarrow> False
      | Some t \<Rightarrow>
          if az_masterPIIStepUpWindow a \<le> 0 then \<not> now > t
          else time_sub now t \<le> az_masterPIIStepUpWindow a)"

text \<open>\<open>ustr\<close> is the canonical text of an identifier.\<close>

definition Can :: "(uuid \<Rightarrow> string) \<Rightarrow> RBACAuthorizer \<Rightarrow> time \<Rightarrow> Principal \<Rightarrow> Action \<Rightarrow> Resource \<Rightarrow> Decision" where
  "Can ustr a now p action r =
     (let decide = (\<lambda>allow reason. \<lparr>d_Allow = allow, d_ReasonCode = reason, d_TargetKind = res_Kind r, d_TargetID = res_ID r\<rparr>)
      in case az_rolesByAction a action of
           None \<Rightarrow> decide False ReasonDeniedUnknownAction
         | Some allowed \<Rightarrow>
             if p_UserID p = uuid_nil then decide False ReasonDeniedNoPrincipal
             else if action \<in> set (az_masterActions a) then
               (if p_IsMaster p then decide True ReasonAllowedMaster else decide False ReasonDeniedRBAC)
             else if res_TenantID r \<noteq> '''' \<and> res_TenantID r \<noteq> ustr (p_TenantID p)
               then decide False ReasonDeniedTenantMismatch
             else if p_MasterImpersonating p \<and> action \<in> set (az_piiActions a) \<and> \<not> stepUpFresh a now p
               then decide False ReasonDeniedMasterPIIStepUp
             else if \<exists>role \<in> set allowed. HasRole p role then decide True ReasonAllowedRBAC
             else decide False ReasonDeniedRBAC)"

section \<open>What the matrix allows\<close>

fun tenant_rank :: "Role \<Rightarrow> nat" where
  "tenant_rank RoleTenantGerente = 3"
| "tenant_rank RoleTenantAtendente = 2"
| "tenant_rank RoleTenantCommon = 1"
| "tenant_rank _ = 0"

lemma tenant_rank_pos: "0 < tenant_rank r \<longleftrightarrow> r \<in> {RoleTenantCommon, RoleTenantAtendente, RoleTenantGerente}"
  by (cases r) auto

lemma matrix_master: "a \<in> set defaultMasterActions \<longleftrightarrow> defaultRolesByAction a = Some [RoleMaster]"
  by (cases a) (simp_all add: defaultMasterActions_def)

text \<open>Every tenant action is open to the tenant roles from some rank on, and to no others.\<close>

lemma matrix_tenant:
  assumes "defaultRolesByAction a = Some rs" and "a \<notin> set defaultMasterActions"
  shows "\<exists>k. 1 \<le> k \<and> set rs = {r. k \<le> tenant_rank r}"
proof -
  have rs: "rs = the (defaultRolesByAction a)" and known: "defaultRolesByAction a \<noteq> None" using assms(1) by simp_all
  have "set rs = {RoleTenantGerente} \<or> set rs = {RoleTenantAtendente, RoleTenantGerente} \<or>
      set rs = {RoleTenantCommon, RoleTenantAtendente, RoleTenantGerente}"
    using known assms(2) unfolding rs by (cases a; simp add: defaultMasterActions_def insert_commute)
  moreover have "3 \<le> tenant_rank r \<longleftrightarrow> r = RoleTenantGerente" "2 \<le> tenant_rank r \<longleftrightarrow> r \<in> {RoleTenantAtendente, RoleTenantGerente}"
    "1 \<le> tenant_rank r \<longleftrightarrow> r \<in> {RoleTenantCommon, RoleTenantAtendente, RoleTenantGerente}" for r
    by (cases r; simp)+
  then have "{r. 3 \<le> tenant_rank r} = {RoleTenantGerente}" "{r. 2 \<le> tenant_rank r} = {RoleTenantAtendente, RoleTenantGerente}"
    "{r. 1 \<le> tenant_rank r} = {RoleTenantCommon, RoleTenantAtendente, RoleTenantGerente}" by auto
  ultimately show ?thesis by (metis one_le_numeral order_refl)
qed

lemma stepUpFresh_recent:
  "stepUpFresh (NewRBACAuthorizer w) now p \<Longrightarrow> w \<le> max_i64 - 1 \<Longrightarrow> \<exists>t. p_MFAVerifiedAt p = Some t \<and> now \<le> t + max w 0"
  by (auto simp: stepUpFresh_def NewRBACAuthorizer_def time_sub_def split: option.splits if_splits)

lemma Can_simps:
  "d_Allow (Can ustr (NewRBACAuthorizer w) now p a r) \<longleftrightarrow>
     (\<exists>rs. defaultRolesByAction a = Some rs \<and> p_UserID p \<noteq> uuid_nil \<and>
        (if a \<in> set defaultMasterActions then RoleMaster \<in> set (p_Roles p)
         else (res_TenantID r = '''' \<or> res_TenantID r = ustr (p_TenantID p)) \<and>
           (p_MasterImpersonating p \<and> a \<in> set defaultPIIActions \<longrightarrow> stepUpFresh (NewRBACAuthorizer w) now p) \<and>
           set rs \<inter> set (p_Roles p) \<noteq> {}))"
  by (auto simp: Can_def NewRBACAuthorizer_def Let_def HasRole_def p_IsMaster_def split: option.splits)

text \<open>
  C16. Authorization denies by default and ranks the tenant roles. Whatever is allowed has a principal and a known action;
  a master action needs the master role; a tenant action needs one of the three ranked tenant roles, and, when the resource names
  a tenant, the principal's own (a resource that names none, as on every route of the server, is not compared); then a higher rank
  is allowed it as well; and an impersonating master is allowed a personal-data action only with a second factor verified within the
  step-up window.
\<close>

theorem authorization_policy:
  assumes w: "w < max_i64" and allow: "d_Allow (Can ustr (NewRBACAuthorizer w) now p a r)"
  shows "p_UserID p \<noteq> uuid_nil \<and> defaultRolesByAction a \<noteq> None \<and>
    (if a \<in> set defaultMasterActions then RoleMaster \<in> set (p_Roles p)
     else (res_TenantID r = '''' \<or> res_TenantID r = ustr (p_TenantID p)) \<and>
       (\<exists>role \<in> set (p_Roles p). 0 < tenant_rank role \<and>
          (\<forall>higher. tenant_rank role \<le> tenant_rank higher \<longrightarrow>
             d_Allow (Can ustr (NewRBACAuthorizer w) now (p\<lparr>p_Roles := [higher]\<rparr>) a r))) \<and>
       (p_MasterImpersonating p \<and> a \<in> set defaultPIIActions \<longrightarrow>
          (\<exists>t. p_MFAVerifiedAt p = Some t \<and> now \<le> t + max w 0)))"
proof -
  obtain rs where rs: "defaultRolesByAction a = Some rs" "p_UserID p \<noteq> uuid_nil"
    "if a \<in> set defaultMasterActions then RoleMaster \<in> set (p_Roles p)
     else (res_TenantID r = '''' \<or> res_TenantID r = ustr (p_TenantID p)) \<and>
       (p_MasterImpersonating p \<and> a \<in> set defaultPIIActions \<longrightarrow> stepUpFresh (NewRBACAuthorizer w) now p) \<and>
       set rs \<inter> set (p_Roles p) \<noteq> {}"
    using allow by (auto simp: Can_simps)
  show ?thesis
  proof (cases "a \<in> set defaultMasterActions")
    case False
    then obtain k where k: "1 \<le> k" "set rs = {r. k \<le> tenant_rank r}" using matrix_tenant [OF rs(1)] by blast
    obtain role where role: "role \<in> set (p_Roles p)" "k \<le> tenant_rank role" using rs(3) False k(2) by auto
    have "d_Allow (Can ustr (NewRBACAuthorizer w) now (p\<lparr>p_Roles := [higher]\<rparr>) a r)"
      if "tenant_rank role \<le> tenant_rank higher" for higher
      using that rs False role(2) k(2) by (auto simp: Can_simps stepUpFresh_def split: option.splits)
    moreover have "0 < tenant_rank role" using role(2) k(1) by simp
    ultimately have "\<exists>role \<in> set (p_Roles p). 0 < tenant_rank role \<and> (\<forall>higher. tenant_rank role \<le> tenant_rank higher \<longrightarrow>
        d_Allow (Can ustr (NewRBACAuthorizer w) now (p\<lparr>p_Roles := [higher]\<rparr>) a r))"
      using role(1) by blast
    moreover have "\<exists>t. p_MFAVerifiedAt p = Some t \<and> now \<le> t + max w 0"
      if "p_MasterImpersonating p" "a \<in> set defaultPIIActions"
      using stepUpFresh_recent [of w now p] w that rs(3) False by simp
    ultimately show ?thesis using rs False by simp
  qed (use rs in auto)
qed

theorem authorization_policy_witness:
  "\<exists>t. p_MFAVerifiedAt \<lparr>p_UserID = 5, p_TenantID = 7, p_Roles = [RoleTenantGerente], p_MasterImpersonating = True,
     p_MFAVerifiedAt = Some 100\<rparr> = Some t \<and> (200 :: int) \<le> t + max (minutes 15) 0"
proof -
  let ?p = "\<lparr>p_UserID = 5, p_TenantID = 7, p_Roles = [RoleTenantGerente], p_MasterImpersonating = True,
    p_MFAVerifiedAt = Some 100\<rparr>" and ?r = "\<lparr>res_TenantID = ''T7'', res_Kind = ''contact'', res_ID = ''c''\<rparr>"
  have "d_Allow (Can (\<lambda>_. ''T7'') (NewRBACAuthorizer (minutes 15)) 200 ?p ActionTenantLGPDExport ?r)"
    by (simp add: Can_def NewRBACAuthorizer_def defaultMasterActions_def defaultPIIActions_def stepUpFresh_def time_sub_def
        HasRole_def i64)
  from authorization_policy [OF _ this] show ?thesis
    by (simp add: defaultMasterActions_def defaultPIIActions_def i64)
qed

text \<open>
  The comment of \<^verbatim>\<open>Resource\<close> has an empty tenant for master actions only, and that of \<^verbatim>\<open>Can\<close> asks that the tenant matches; for a tenant action
  an empty tenant counts as the principal's own.
\<close>

lemma empty_tenant_counts_as_own:
  "d_Allow (Can ustr (NewRBACAuthorizer w) now p a (r\<lparr>res_TenantID := ''''\<rparr>)) \<longleftrightarrow>
     d_Allow (Can ustr (NewRBACAuthorizer w) now p a (r\<lparr>res_TenantID := ustr (p_TenantID p)\<rparr>))"
  by (simp add: Can_simps)

text \<open>The team lead, whose comment in \<^verbatim>\<open>role.go\<close> promises statistics and funnel rules, is allowed nothing.\<close>

lemma lider_is_allowed_nothing:
  "p_Roles p = [RoleTenantLider] \<Longrightarrow> \<not> d_Allow (Can ustr (NewRBACAuthorizer w) now p a r)"
  by (cases a) (auto simp: Can_simps defaultMasterActions_def)

end
