(* ===== verification/Login.thy ===== *)
theory Login
  imports IamStore Authz
begin

text \<open>
  The login service, \<^verbatim>\<open>src/internal/iam/login.go\<close> and \<^verbatim>\<open>master_login.go\<close>, as programs over the stores, and the activity
  check every authenticated request passes (\<^verbatim>\<open>src/internal/adapter/httpapi/middleware/activity.go\<close>). Argon2id verification
  is the argument \<open>svc_verify\<close>; a run of the service also reports the encoded hashes it derived a key for
  (its argon2id derivations, \<open>lo_derivations\<close>) and whether it called the alerter. The re-hash after a login is started
  in the background; the result says whether it is.
\<close>

section \<open>The service\<close>

text \<open>
  \<open>svc_digest\<close> is the hexadecimal SHA-256 of the lower-cased text. \<open>svc_verify\<close> is \<^verbatim>\<open>verifyPassword\<close>: whether the password matches
  and whether the hash needs an upgrade, or an error, when the hash does not decode. An absent limiter or lockout adapter is
  \<open>False\<close> or \<open>None\<close>.
\<close>

record iam_service =
  svc_lower :: "string \<Rightarrow> string"
  svc_digest :: "string \<Rightarrow> string"
  svc_verify :: "string \<Rightarrow> string \<Rightarrow> (bool \<times> bool) option"
  svc_dummyHash :: string
  svc_token :: "nat \<Rightarrow> string"
  svc_ustr :: "nat \<Rightarrow> string"
  svc_TTL :: duration
  svc_Lockouts :: "lockout_scope option"
  svc_Limiter :: bool
  svc_keyPrefix :: string
  svc_LoginPolicy :: rl_Policy
  svc_Alerter :: bool

record 'a login_outcome =
  lo_result :: "'a iamresult"
  lo_derivations :: "string list"
  lo_alerted :: bool

abbreviation outcome :: "string list \<Rightarrow> bool \<Rightarrow> 'a iamresult \<Rightarrow> (iam_db, call_env, 'a login_outcome) prog" where
  "outcome ds alerted r \<equiv> Ret \<lparr>lo_result = r, lo_derivations = ds, lo_alerted = alerted\<rparr>"

text \<open>
  The derivations of one call of \<^verbatim>\<open>verifyPassword\<close>: a hash that does not decode is answered with \<open>ErrInvalidEncoding\<close> before any
  key is derived.
\<close>

definition derived :: "iam_service \<Rightarrow> string \<Rightarrow> string \<Rightarrow> string list" where
  "derived s encoded password = (case svc_verify s encoded password of None \<Rightarrow> [] | Some _ \<Rightarrow> [encoded])"

definition dummyVerify :: "iam_service \<Rightarrow> string \<Rightarrow> string list" where
  "dummyVerify s password = derived s (svc_dummyHash s) password"

definition svc_ttl :: "iam_service \<Rightarrow> duration" where
  "svc_ttl s = (if svc_TTL s > 0 then svc_TTL s else defaultSessionTTL)"

definition failedLoginKey :: "iam_service \<Rightarrow> string \<Rightarrow> string" where
  "failedLoginKey s email = ''failed_login:email:'' @ svc_digest s (TrimSpace email)"

text \<open>The end of a lockout, and whether the alerter was called.\<close>

definition recordLoginFailure ::
  "iam_service \<Rightarrow> uuid \<Rightarrow> string \<Rightarrow> (time option \<Rightarrow> bool \<Rightarrow> 'a iprog) \<Rightarrow> 'a iprog" where
  "recordLoginFailure s userID email k =
     (if \<not> svc_Limiter s \<or> \<not> LockoutEnabled (svc_LoginPolicy s) then k None False
      else let lock = rp_Lockout (svc_LoginPolicy s) in
        command (\<lambda>ev db. limiter_Allow (svc_keyPrefix s) (svc_ustr s) ev db (failedLoginKey s email) (lk_Duration lock) (lk_Threshold lock))
          (\<lambda>r. case r of
             Inl _ \<Rightarrow> k None False
           | Inr (allowed, _) \<Rightarrow>
               if allowed then k None False
               else (case svc_Lockouts s of
                       None \<Rightarrow> k None False
                     | Some scope \<Rightarrow>
                         read_clock (\<lambda>now.
                           let until = now + lk_Duration lock in
                           command (\<lambda>ev db. lockout_Lock scope db userID until ''ratelimit: failed login attempts'')
                             (\<lambda>w. case w of
                                Inl _ \<Rightarrow> k None False
                              | Inr _ \<Rightarrow> k (Some until) (svc_Alerter s \<and> lk_AlertOnLock lock))))))"

definition resolveSessionRole :: "uuid \<Rightarrow> uuid \<Rightarrow> (Role \<Rightarrow> 'a iprog) \<Rightarrow> 'a iprog" where
  "resolveSessionRole tenantID userID k =
     query (\<lambda>db. RoleByUser db tenantID userID) (\<lambda>r. case r of
       Inl _ \<Rightarrow> k RoleTenantCommon
     | Inr role \<Rightarrow>
         if role \<in> {RoleTenantGerente, RoleTenantAtendente, RoleTenantCommon} then k role else k RoleTenantCommon)"

text \<open>The lockout pre-check of both logins: \<open>locked\<close> continues when the account is locked, \<open>free\<close> when it is not.\<close>

definition lockout_precheck ::
  "iam_service \<Rightarrow> uuid \<Rightarrow> (iam_sentinel goerr \<Rightarrow> 'a iprog) \<Rightarrow> (time \<Rightarrow> 'a iprog) \<Rightarrow> 'a iprog \<Rightarrow> 'a iprog" where
  "lockout_precheck s userID failed locked free =
     (case svc_Lockouts s of
        None \<Rightarrow> free
      | Some scope \<Rightarrow>
          command (\<lambda>ev db. case lockout_IsLocked scope db userID (o_now ev) of Inl e \<Rightarrow> Inl e | Inr l \<Rightarrow> Inr (l, db))
            (\<lambda>r. case r of
               Inl e \<Rightarrow> failed e
             | Inr (Some until) \<Rightarrow> locked until
             | Inr None \<Rightarrow> free))"

definition clear_lockout :: "iam_service \<Rightarrow> uuid \<Rightarrow> 'a iprog \<Rightarrow> 'a iprog" where
  "clear_lockout s userID k =
     (case svc_Lockouts s of
        None \<Rightarrow> k
      | Some scope \<Rightarrow> command (\<lambda>ev db. lockout_Clear scope db userID) (\<lambda>_. k))"

text \<open>Random bytes from the operating system, which may refuse them; the session identifier and the CSRF token are made of them.\<close>

definition random_bytes :: "(uuid iamresult \<Rightarrow> 'a iprog) \<Rightarrow> 'a iprog" where
  "random_bytes k =
     draw (\<lambda>ev. case o_fault ev of
       NoFault \<Rightarrow> k (Inr (o_ids ev 0))
     | FailBefore m \<Rightarrow> k (Inl (Opaque m))
     | FailAfter m \<Rightarrow> k (Inl (Opaque m)))"

definition NewSessionID :: "(uuid iamresult \<Rightarrow> 'a iprog) \<Rightarrow> 'a iprog" where
  "NewSessionID k =
     random_bytes (\<lambda>r. case r of Inl e \<Rightarrow> k (Inl (Wrapped ''iam: read session id'' e)) | Inr b \<Rightarrow> k (Inr b))"

definition GenerateToken :: "iam_service \<Rightarrow> (string iamresult \<Rightarrow> 'a iprog) \<Rightarrow> 'a iprog" where
  "GenerateToken s k =
     random_bytes (\<lambda>r. case r of Inl e \<Rightarrow> k (Inl (Wrapped ''csrf: read random'' e)) | Inr b \<Rightarrow> k (Inr (svc_token s b)))"

text \<open>The session a successful login creates.\<close>

definition create_session ::
  "iam_service \<Rightarrow> uuid \<Rightarrow> uuid \<Rightarrow> string \<Rightarrow> string \<Rightarrow> bool \<Rightarrow> string \<Rightarrow> (Session \<times> bool) login_outcome iprog" where
  "create_session s tenantID userID ipAddr userAgent needsRehash encoded =
     NewSessionID (\<lambda>i. case i of
       Inl e \<Rightarrow> outcome [encoded] False (Inl (Wrapped ''iam: new session id'' e))
     | Inr sessionID \<Rightarrow>
         GenerateToken s (\<lambda>c. case c of
           Inl e \<Rightarrow> outcome [encoded] False (Inl (Wrapped ''iam: generate csrf token'' e))
         | Inr csrfToken \<Rightarrow>
             read_clock (\<lambda>now. resolveSessionRole tenantID userID (\<lambda>role.
               let sess = \<lparr>s_ID = sessionID, s_UserID = userID, s_TenantID = tenantID, s_ExpiresAt = now + svc_ttl s,
                           s_CreatedAt = now, s_IPAddr = ipAddr, s_UserAgent = userAgent, s_LastActivity = now,
                           s_Role = role, s_CSRFToken = csrfToken\<rparr>
               in command (\<lambda>ev db. SessionStore_Create db sess) (\<lambda>r. case r of
                    Inl e \<Rightarrow> outcome [encoded] False (Inl (Wrapped ''iam: create session'' e))
                  | Inr _ \<Rightarrow> outcome [encoded] False (Inr (sess, needsRehash)))))))"

definition Login :: "iam_service \<Rightarrow> string \<Rightarrow> string \<Rightarrow> string \<Rightarrow> string \<Rightarrow> string \<Rightarrow> (Session \<times> bool) login_outcome iprog" where
  "Login s host email password ipAddr userAgent =
     query (\<lambda>db. ResolveByHost db host) (\<lambda>t. case t of
       Inl e \<Rightarrow>
         if errors_is e iam_ErrTenantNotFound then outcome (dummyVerify s password) False (iamerr iam_ErrInvalidCredentials)
         else outcome [] False (Inl (Wrapped ''iam: resolve host'' e))
     | Inr tenantID \<Rightarrow>
         query (\<lambda>db. LookupCredentials (svc_lower s) db tenantID email) (\<lambda>c. case c of
           Inl e \<Rightarrow> outcome [] False (Inl (Wrapped ''iam: lookup credentials'' e))
         | Inr (userID, encoded) \<Rightarrow>
             if userID = uuid_nil then outcome (dummyVerify s password) False (iamerr iam_ErrInvalidCredentials)
             else lockout_precheck s userID
               (\<lambda>e. outcome [] False (Inl (Wrapped ''iam: lockout pre-check'' e)))
               (\<lambda>until. outcome (dummyVerify s password) False (iamerr (iam_ErrAccountLocked until)))
               (case svc_verify s encoded password of
                  Some (True, needsRehash) \<Rightarrow>
                    clear_lockout s userID (create_session s tenantID userID ipAddr userAgent needsRehash encoded)
                | _ \<Rightarrow>
                    recordLoginFailure s userID email (\<lambda>until alerted.
                      outcome (derived s encoded password) alerted (case until of
                        Some t \<Rightarrow> iamerr (iam_ErrAccountLocked t)
                      | None \<Rightarrow> iamerr iam_ErrInvalidCredentials)))))"

text \<open>\<open>masterUsers\<close> says whether a master credential reader is configured; the result is the operator's identifier.\<close>

definition MasterLogin :: "iam_service \<Rightarrow> bool \<Rightarrow> string \<Rightarrow> string \<Rightarrow> uuid login_outcome iprog" where
  "MasterLogin s masterUsers email password =
     (if \<not> masterUsers then outcome [] False (Inl (Opaque ''iam: master login: no master credential reader configured''))
      else query (\<lambda>db. LookupMasterCredentials (svc_lower s) db email) (\<lambda>c. case c of
        Inl e \<Rightarrow> outcome [] False (Inl (Wrapped ''iam: lookup master credentials'' e))
      | Inr (userID, encoded) \<Rightarrow>
          if userID = uuid_nil then outcome (dummyVerify s password) False (iamerr iam_ErrInvalidCredentials)
          else lockout_precheck s userID
            (\<lambda>e. outcome [] False (Inl (Wrapped ''iam: master lockout pre-check'' e)))
            (\<lambda>until. outcome (dummyVerify s password) False (iamerr (iam_ErrAccountLocked until)))
            (case svc_verify s encoded password of
               Some (True, _) \<Rightarrow> clear_lockout s userID (outcome [encoded] False (Inr userID))
             | _ \<Rightarrow>
                 recordLoginFailure s userID email (\<lambda>until alerted.
                   outcome (derived s encoded password) alerted (case until of
                     Some t \<Rightarrow> iamerr (iam_ErrAccountLocked t)
                   | None \<Rightarrow> iamerr iam_ErrInvalidCredentials)))))"

section \<open>Sessions in use\<close>

definition Logout :: "uuid \<Rightarrow> uuid \<Rightarrow> unit iamresult iprog" where
  "Logout tenantID sessionID =
     command (\<lambda>ev db. SessionStore_Delete db tenantID sessionID) (\<lambda>r. case r of
       Inl e \<Rightarrow> Ret (Inl (Wrapped ''iam: delete session'' e))
     | Inr _ \<Rightarrow> Ret (Inr ()))"

definition ValidateSession :: "uuid \<Rightarrow> uuid \<Rightarrow> (Session iamresult \<Rightarrow> 'a iprog) \<Rightarrow> 'a iprog" where
  "ValidateSession tenantID sessionID k =
     query (\<lambda>db. SessionStore_Get db tenantID sessionID) (\<lambda>r. case r of
       Inl e \<Rightarrow> k (Inl e)
     | Inr sess \<Rightarrow> read_clock (\<lambda>now. if IsExpired sess now then k (iamerr iam_ErrSessionExpired) else k (Inr sess)))"

text \<open>
  What the middleware answers: the request is served at the time it checked, the browser is sent to the login page
  with its cookie cleared, or the request fails.
\<close>

datatype activity_answer = Served Session time | RedirectToLogin | ServerError

definition Activity :: "Session \<Rightarrow> activity_answer iprog" where
  "Activity sess =
     read_clock (\<lambda>t. case CheckActivity (s_Role sess) (s_CreatedAt sess) (s_LastActivity sess) t of
       Inl e \<Rightarrow>
         if errors_is e iam_ErrSessionIdleTimeout \<or> errors_is e iam_ErrSessionHardTimeout then Ret RedirectToLogin
         else if errors_is e iam_ErrUnknownRole then Ret RedirectToLogin
         else Ret ServerError
     | Inr _ \<Rightarrow>
         command (\<lambda>ev db. SessionStore_Touch db (s_TenantID sess) (s_ID sess) t) (\<lambda>r. case r of
           Inl e \<Rightarrow> if errors_is e iam_ErrSessionNotFound then Ret RedirectToLogin else Ret ServerError
         | Inr _ \<Rightarrow> Ret (Served sess t)))"

text \<open>
  \<^verbatim>\<open>Auth\<close> in front of \<open>next_handler\<close>; \<open>tenant\<close> is the tenant of the request's host, \<open>cookie\<close> the session identifier of its cookie,
  when there is one that parses.
\<close>

definition Auth :: "uuid option \<Rightarrow> uuid option \<Rightarrow> (Session \<Rightarrow> activity_answer iprog) \<Rightarrow> activity_answer iprog" where
  "Auth tenant cookie next_handler =
     (case tenant of
        None \<Rightarrow> Ret ServerError
      | Some tenantID \<Rightarrow>
          (case cookie of
             None \<Rightarrow> Ret RedirectToLogin
           | Some sessionID \<Rightarrow>
               ValidateSession tenantID sessionID (\<lambda>r. case r of
                 Inl e \<Rightarrow>
                   if errors_is e iam_ErrSessionNotFound \<or> errors_is e iam_ErrSessionExpired then Ret RedirectToLogin
                   else Ret ServerError
               | Inr sess \<Rightarrow> next_handler sess)))"

text \<open>The two middlewares in the order of the router.\<close>

definition authenticated_request :: "uuid \<Rightarrow> uuid \<Rightarrow> activity_answer iprog" where
  "authenticated_request tenantID sessionID = Auth (Some tenantID) (Some sessionID) Activity"

end
