(* ===== verification/LoginProps.thy ===== *)
theory LoginProps
  imports Login
begin

text \<open>
  What the login guarantees: who gets a session, that rejections cannot be told apart, how many guesses an attacker has,
  and how long a session lasts.
\<close>

section \<open>Who gets a session\<close>

abbreviation tenant_roles :: "Role set" where
  "tenant_roles \<equiv> {RoleTenantGerente, RoleTenantAtendente, RoleTenantCommon}"

text \<open>The account a login is about.\<close>

definition account_of :: "iam_service \<Rightarrow> iam_db \<Rightarrow> string \<Rightarrow> string \<Rightarrow> (uuid \<times> user_row) option" where
  "account_of s db host email =
     (case ResolveByHost db host of
        Inl _ \<Rightarrow> None
      | Inr t \<Rightarrow> map_option (\<lambda>u. (t, u)) (find (\<lambda>u. u_tenant_id u = Some t \<and>
          svc_lower s (u_email u) = svc_lower s email \<and> u_deactivated_at u = None) (users db)))"

definition session_role :: "call_env \<Rightarrow> iam_db \<Rightarrow> uuid \<Rightarrow> uuid \<Rightarrow> Role" where
  "session_role ev db t u =
     (case o_fault ev of
        NoFault \<Rightarrow> (case RoleByUser db t u of Inr role \<Rightarrow> if role \<in> tenant_roles then role else RoleTenantCommon | Inl _ \<Rightarrow> RoleTenantCommon)
      | _ \<Rightarrow> RoleTenantCommon)"

lemma session_role_tenant: "session_role ev db t u \<in> tenant_roles"
  by (simp add: session_role_def split: fault.splits sum.splits)

lemma run_resolveSessionRole: "run (resolveSessionRole t u k) os n db = run (k (session_role (os n) db t u)) os (Suc n) db"
  by (cases "RoleByUser db t u") (simp_all add: resolveSessionRole_def session_role_def split: fault.splits)

definition stored_session :: "iam_db \<Rightarrow> Session \<Rightarrow> bool" where
  "stored_session db sess \<longleftrightarrow> (\<exists>x \<in> set (sessions db). s_ID x = s_ID sess \<and> s_UserID x = s_UserID sess \<and>
     s_TenantID x = s_TenantID sess \<and> s_Role x = s_Role sess \<and> s_ExpiresAt x = s_ExpiresAt sess)"

lemma SessionStore_Create_stores:
  "SessionStore_Create db sess = Inr (x, db') \<Longrightarrow> s_Role sess \<in> tenant_roles \<Longrightarrow> stored_session db' sess"
  by (auto simp: SessionStore_Create_def stored_session_def Let_def split: if_splits)

lemma run_random_bytes:
  "run (random_bytes k) os n db = (case o_fault (os n) of
     NoFault \<Rightarrow> run (k (Inr (o_ids (os n) 0))) os (Suc n) db
   | FailBefore m \<Rightarrow> run (k (Inl (Opaque m))) os (Suc n) db
   | FailAfter m \<Rightarrow> run (k (Inl (Opaque m))) os (Suc n) db)"
  by (simp add: random_bytes_def split: fault.split)

lemma create_session_ok:
  assumes r: "run (create_session s t u ip ua rh enc) os n db = (out, m, db')" and ok: "lo_result out = Inr (sess, r)"
  shows "r = rh \<and> s_UserID sess = u \<and> s_TenantID sess = t \<and> s_Role sess \<in> tenant_roles \<and>
    s_ExpiresAt sess = s_CreatedAt sess + svc_ttl s \<and> stored_session db' sess"
proof -
  define new where "new = \<lparr>s_ID = o_ids (os n) 0, s_UserID = u, s_TenantID = t,
    s_ExpiresAt = o_now (os (n + 2)) + svc_ttl s, s_CreatedAt = o_now (os (n + 2)), s_IPAddr = ip, s_UserAgent = ua,
    s_LastActivity = o_now (os (n + 2)), s_Role = session_role (os (n + 3)) db t u,
    s_CSRFToken = svc_token s (o_ids (os (Suc n)) 0)\<rparr>"
  have f: "o_fault (os n) = NoFault" "o_fault (os (Suc n)) = NoFault"
    using r ok by (auto simp: create_session_def NewSessionID_def GenerateToken_def run_random_bytes split: fault.splits)
  have c: "run (create_session s t u ip ua rh enc) os n db =
      run (command (\<lambda>ev db. SessionStore_Create db new) (\<lambda>r. case r of
              Inl e \<Rightarrow> outcome [enc] False (Inl (Wrapped ''iam: create session'' e))
            | Inr _ \<Rightarrow> outcome [enc] False (Inr (new, rh)))) os (n + 4) db"
    using f by (simp add: create_session_def NewSessionID_def GenerateToken_def run_random_bytes run_resolveSessionRole Let_def
        new_def eval_nat_numeral del: run_command cong del: sum.case_cong_weak)
  have "SessionStore_Create db new = Inr ((), db') \<and> out = \<lparr>lo_result = Inr (new, rh), lo_derivations = [enc], lo_alerted = False\<rparr>"
    using r ok unfolding c by (auto split: fault.splits sum.splits)
  moreover have "s_Role new \<in> tenant_roles" using session_role_tenant by (simp add: new_def)
  ultimately show ?thesis using SessionStore_Create_stores ok by (auto simp: new_def)
qed

text \<open>A password that does not match is never the end of a successful login.\<close>

lemma recordLoginFailure_rejects:
  assumes "\<And>t a n d. \<not> is_ok (lo_result (fst (run (k t a) os n d)))"
  shows "\<not> is_ok (lo_result (fst (run (recordLoginFailure s userID email k) os n db)))"
  using assms
  by (simp add: recordLoginFailure_def Let_def split: fault.splits sum.splits option.splits prod.splits)

lemma run_precheck:
  "run (lockout_precheck s u failed locked free) os n db =
     (case svc_Lockouts s of
        None \<Rightarrow> run free os n db
      | Some scope \<Rightarrow>
          (case o_fault (os n) of
             NoFault \<Rightarrow>
               (case lockout_IsLocked scope db u (o_now (os n)) of
                  Inl e \<Rightarrow> run (failed e) os (Suc n) db
                | Inr (Some until) \<Rightarrow> run (locked until) os (Suc n) db
                | Inr None \<Rightarrow> run free os (Suc n) db)
           | FailBefore m \<Rightarrow> run (failed (Opaque m)) os (Suc n) db
           | FailAfter m \<Rightarrow> run (failed (Opaque m)) os (Suc n) db))"
  by (simp add: lockout_precheck_def split: option.splits fault.splits sum.splits)

lemma run_clear_lockout:
  "\<exists>n' db'. run (clear_lockout s u k) os n db = run k os n' db' \<and> sessions db' = sessions db \<and> users db' = users db"
proof (cases "svc_Lockouts s")
  case (Some scope)
  let ?db' = "db\<lparr>account_lockout := filter (\<lambda>r. \<not> (al_user_id r = u \<and> al_tenant_id r = scope_tenant scope)) (account_lockout db)\<rparr>"
  have "run (clear_lockout s u k) os n db = run k os (Suc n) db \<or> run (clear_lockout s u k) os n db = run k os (Suc n) ?db'"
    by (simp add: clear_lockout_def lockout_Clear_def Some split: fault.splits)
  then show ?thesis
  proof
    assume "run (clear_lockout s u k) os n db = run k os (Suc n) ?db'"
    then show ?thesis by (intro exI [of _ "Suc n"] exI [of _ ?db']) simp
  qed blast
qed (auto simp: clear_lockout_def)

lemma LookupCredentials_found:
  assumes "LookupCredentials lower db t email = Inr (uid, enc)" and "uid \<noteq> uuid_nil"
  shows "\<exists>u \<in> set (users db). u_tenant_id u = Some t \<and> lower (u_email u) = lower email \<and> u_deactivated_at u = None \<and>
    u_id u = uid \<and> u_password_hash u = enc"
  using assms by (auto simp: LookupCredentials_def split: if_splits option.splits dest!: find_SomeD)

text \<open>The part of a login behind the lockout pre-check, and the whole login in front of it.\<close>

definition check_password ::
  "iam_service \<Rightarrow> uuid \<Rightarrow> uuid \<Rightarrow> string \<Rightarrow> string \<Rightarrow> string \<Rightarrow> string \<Rightarrow> string \<Rightarrow> (Session \<times> bool) login_outcome iprog" where
  "check_password s t uid enc email password ip ua =
     (case svc_verify s enc password of
        Some (True, rh) \<Rightarrow> clear_lockout s uid (create_session s t uid ip ua rh enc)
      | _ \<Rightarrow> recordLoginFailure s uid email (\<lambda>until alerted.
          outcome (derived s enc password) alerted (case until of
            Some t \<Rightarrow> iamerr (iam_ErrAccountLocked t)
          | None \<Rightarrow> iamerr iam_ErrInvalidCredentials)))"

definition guarded_check ::
  "iam_service \<Rightarrow> uuid \<Rightarrow> uuid \<Rightarrow> string \<Rightarrow> string \<Rightarrow> string \<Rightarrow> string \<Rightarrow> string \<Rightarrow> (Session \<times> bool) login_outcome iprog" where
  "guarded_check s t uid enc email password ip ua =
     lockout_precheck s uid (\<lambda>e. outcome [] False (Inl (Wrapped ''iam: lockout pre-check'' e)))
       (\<lambda>until. outcome (dummyVerify s password) False (iamerr (iam_ErrAccountLocked until)))
       (check_password s t uid enc email password ip ua)"

lemma run_Login_found:
  assumes "o_fault (os 0) = NoFault" "o_fault (os 1) = NoFault" "ResolveByHost db host = Inr t"
    "LookupCredentials (svc_lower s) db t email = Inr (uid, enc)" "uid \<noteq> uuid_nil"
  shows "run (Login s host email password ip ua) os 0 db = run (guarded_check s t uid enc email password ip ua) os 2 db"
  using assms by (simp add: Login_def guarded_check_def check_password_def numeral_2_eq_2)

lemma Login_ok_found:
  assumes "lo_result (result_of (Login s host email password ip ua) os db) = Inr r"
  obtains t uid enc where "ResolveByHost db host = Inr t" and "LookupCredentials (svc_lower s) db t email = Inr (uid, enc)"
    and "uid \<noteq> uuid_nil" and "o_fault (os 0) = NoFault" and "o_fault (os 1) = NoFault"
proof -
  have f: "o_fault (os 0) = NoFault"
    using assms by (auto simp: result_of_def Login_def split: fault.splits)
  obtain t where t: "ResolveByHost db host = Inr t"
    using assms f by (cases "ResolveByHost db host") (auto simp: result_of_def Login_def split: if_splits)
  have g: "o_fault (os 1) = NoFault"
    using assms f t by (auto simp: result_of_def Login_def split: fault.splits)
  obtain uid enc where c: "LookupCredentials (svc_lower s) db t email = Inr (uid, enc)"
    using assms f t g by (cases "LookupCredentials (svc_lower s) db t email") (auto simp: result_of_def Login_def)
  have "uid \<noteq> uuid_nil"
    using assms f t g c by (cases "uid = 0") (auto simp: result_of_def Login_def)
  with that f t g c show ?thesis by blast
qed

lemma check_password_ok:
  assumes "run (check_password s t uid enc email password ip ua) os n db = (out, m, db')" and "lo_result out = Inr (sess, rh)"
  shows "svc_verify s enc password = Some (True, rh) \<and> s_UserID sess = uid \<and> s_TenantID sess = t \<and>
    s_Role sess \<in> tenant_roles \<and> s_ExpiresAt sess = s_CreatedAt sess + svc_ttl s \<and> stored_session db' sess"
proof (cases "\<exists>rh. svc_verify s enc password = Some (True, rh)")
  case True
  then obtain rh' where v: "svc_verify s enc password = Some (True, rh')" by blast
  obtain n' d where "run (clear_lockout s uid (create_session s t uid ip ua rh' enc)) os n db
      = run (create_session s t uid ip ua rh' enc) os n' d"
    using run_clear_lockout by blast
  then have "run (create_session s t uid ip ua rh' enc) os n' d = (out, m, db')"
    using assms(1) v by (simp add: check_password_def)
  from create_session_ok [OF this assms(2)] show ?thesis using v by simp
next
  case False
  have "\<not> is_ok (lo_result (fst (run (recordLoginFailure s uid email (\<lambda>until alerted.
      outcome (derived s enc password) alerted (case until of Some t \<Rightarrow> iamerr (iam_ErrAccountLocked t)
        | None \<Rightarrow> iamerr iam_ErrInvalidCredentials)) :: (Session \<times> bool) login_outcome iprog) os n db)))"
    by (rule recordLoginFailure_rejects) (simp split: option.split)
  then show ?thesis using assms False
    by (auto simp: check_password_def split: option.splits bool.splits)
qed

text \<open>
  C9. Only the owner of an account gets a session, and only a tenant session: whatever fails meanwhile, when a login succeeds,
  the host belongs to a tenant, an active user of that tenant has the e-mail address and a password hash the password
  matches, the account was not locked when it was checked, and the session is stored for that user and tenant with the role of a
  tenant, never the master role, and with the configured lifetime.
\<close>

theorem login_issues_only_tenant_sessions:
  assumes "lo_result (result_of (Login s host email password ip ua) os db) = Inr (sess, rehash)"
  shows "\<exists>t. ResolveByHost db host = Inr t \<and> s_TenantID sess = t \<and>
    (\<exists>u \<in> set (users db). u_tenant_id u = Some t \<and> svc_lower s (u_email u) = svc_lower s email \<and> u_deactivated_at u = None \<and>
       svc_verify s (u_password_hash u) password = Some (True, rehash) \<and> s_UserID sess = u_id u \<and>
       (\<forall>scope. svc_Lockouts s = Some scope \<longrightarrow> lockout_IsLocked scope db (u_id u) (o_now (os 2)) = Inr None)) \<and>
    s_Role sess \<in> tenant_roles \<and> s_ExpiresAt sess = s_CreatedAt sess + svc_ttl s \<and>
    stored_session (store_after (Login s host email password ip ua) os db) sess"
proof -
  obtain t uid enc where f: "ResolveByHost db host = Inr t" "LookupCredentials (svc_lower s) db t email = Inr (uid, enc)"
    "uid \<noteq> uuid_nil" "o_fault (os 0) = NoFault" "o_fault (os 1) = NoFault"
    using Login_ok_found [OF assms] by metis
  let ?chk = "check_password s t uid enc email password ip ua"
  obtain out m db' where run: "run (Login s host email password ip ua) os 0 db = (out, m, db')" by (metis prod_cases3)
  note g = run_Login_found [OF f(4,5,1,2,3), of password ip ua]
  have out: "lo_result out = Inr (sess, rehash)" using assms run by (simp add: result_of_def)
  have "\<exists>n. run ?chk os n db = (out, m, db') \<and>
      (\<forall>scope. svc_Lockouts s = Some scope \<longrightarrow> lockout_IsLocked scope db uid (o_now (os 2)) = Inr None)"
    using run out unfolding g guarded_check_def run_precheck
    by (auto split: option.splits fault.splits sum.splits)
  then obtain n where n: "run ?chk os n db = (out, m, db')"
    "\<forall>scope. svc_Lockouts s = Some scope \<longrightarrow> lockout_IsLocked scope db uid (o_now (os 2)) = Inr None" by blast
  from check_password_ok [OF n(1) out] LookupCredentials_found [OF f(2,3)] n(2) f(1) run
  show ?thesis by (auto simp: store_after_def)
qed

section \<open>Rejections cannot be told apart\<close>

lemma recordLoginFailure_ends:
  "\<exists>until alerted n' db'. run (recordLoginFailure s uid email k) os n db = run (k until alerted) os n' db'"
  by (simp add: recordLoginFailure_def Let_def split: fault.split sum.split option.split prod.split) blast

lemma derivations_create: "lo_derivations (fst (run (create_session s t u ip ua rh enc) os n db)) = [enc]"
  by (simp add: create_session_def NewSessionID_def GenerateToken_def run_random_bytes run_resolveSessionRole Let_def
      split: fault.split sum.split)

lemma check_password_outcome:
  "lo_derivations (fst (run (check_password s t uid enc email password ip ua) os n db)) = derived s enc password"
  "\<forall>rh. svc_verify s enc password \<noteq> Some (True, rh) \<Longrightarrow>
     lo_result (fst (run (check_password s t uid enc email password ip ua) os n db)) = iamerr iam_ErrInvalidCredentials \<or>
     (\<exists>until. lo_result (fst (run (check_password s t uid enc email password ip ua) os n db)) = iamerr (iam_ErrAccountLocked until))"
proof -
  let ?k = "\<lambda>until alerted. outcome (derived s enc password) alerted (case until of Some t \<Rightarrow> iamerr (iam_ErrAccountLocked t)
        | None \<Rightarrow> iamerr iam_ErrInvalidCredentials) :: (Session \<times> bool) login_outcome iprog"
  have fail: "lo_derivations (fst (run (recordLoginFailure s uid email ?k) os n db)) = derived s enc password \<and>
      (lo_result (fst (run (recordLoginFailure s uid email ?k) os n db)) = iamerr iam_ErrInvalidCredentials \<or>
       (\<exists>until. lo_result (fst (run (recordLoginFailure s uid email ?k) os n db)) = iamerr (iam_ErrAccountLocked until)))"
    using recordLoginFailure_ends [of s uid email ?k os n db] by (auto split: option.splits)
  have ok: "lo_derivations (fst (run (clear_lockout s uid (create_session s t uid ip ua rh enc)) os n db)) = [enc]" for rh
    using run_clear_lockout [of s uid "create_session s t uid ip ua rh enc" os n db] derivations_create by metis
  show "lo_derivations (fst (run (check_password s t uid enc email password ip ua) os n db)) = derived s enc password"
  proof (cases "\<exists>rh. svc_verify s enc password = Some (True, rh)")
    case True
    then show ?thesis using ok by (auto simp: check_password_def derived_def)
  next
    case False
    then have "check_password s t uid enc email password ip ua = recordLoginFailure s uid email ?k"
      by (auto simp: check_password_def split: option.splits bool.splits)
    then show ?thesis using fail by simp
  qed
  assume "\<forall>rh. svc_verify s enc password \<noteq> Some (True, rh)"
  then show "lo_result (fst (run (check_password s t uid enc email password ip ua) os n db)) = iamerr iam_ErrInvalidCredentials \<or>
     (\<exists>until. lo_result (fst (run (check_password s t uid enc email password ip ua) os n db)) = iamerr (iam_ErrAccountLocked until))"
    using fail by (simp add: check_password_def split: option.split bool.split)
qed

definition iam_ids_ok :: "iam_service \<Rightarrow> iam_db \<Rightarrow> bool" where
  "iam_ids_ok s db \<longleftrightarrow> uuid_nil \<notin> snd ` set (tenants db) \<and> uuid_nil \<notin> u_id ` set (users db) \<and>
     svc_Lockouts s \<noteq> Some (TenantLockouts uuid_nil)"

lemma account_lookup:
  assumes "iam_ids_ok s db"
  shows "account_of s db host email = None \<Longrightarrow>
      ResolveByHost db host = iamerr iam_ErrTenantNotFound \<or>
      (\<exists>t. ResolveByHost db host = Inr t \<and> LookupCredentials (svc_lower s) db t email = Inr (uuid_nil, ''''))"
    and "account_of s db host email = Some (t, u) \<Longrightarrow> ResolveByHost db host = Inr t \<and> u \<in> set (users db) \<and> u_id u \<noteq> uuid_nil \<and>
      LookupCredentials (svc_lower s) db t email = Inr (u_id u, u_password_hash u)"
proof -
  have r: "ResolveByHost db host = iamerr iam_ErrTenantNotFound \<or> (\<exists>t. ResolveByHost db host = Inr t \<and> t \<noteq> uuid_nil)"
    using assms by (force simp: ResolveByHost_def iam_ids_ok_def split: option.splits dest: map_of_SomeD)
  show "account_of s db host email = None \<Longrightarrow>
      ResolveByHost db host = iamerr iam_ErrTenantNotFound \<or>
      (\<exists>t. ResolveByHost db host = Inr t \<and> LookupCredentials (svc_lower s) db t email = Inr (uuid_nil, ''''))"
  proof -
    assume a: "account_of s db host email = None"
    from r show ?thesis
    proof (elim disjE exE conjE)
      fix t assume t: "ResolveByHost db host = Inr t" "t \<noteq> uuid_nil"
      then have "find (\<lambda>u. u_tenant_id u = Some t \<and> svc_lower s (u_email u) = svc_lower s email \<and>
          u_deactivated_at u = None) (users db) = None"
        using a by (simp add: account_of_def)
      then show ?thesis using t by (simp add: LookupCredentials_def)
    qed simp
  qed
  assume "account_of s db host email = Some (t, u)"
  then have f: "ResolveByHost db host = Inr t" "find (\<lambda>u. u_tenant_id u = Some t \<and>
      svc_lower s (u_email u) = svc_lower s email \<and> u_deactivated_at u = None) (users db) = Some u"
    by (auto simp: account_of_def split: sum.splits)
  then have "u \<in> set (users db)" by (auto dest: find_SomeD)
  moreover from this have "u_id u \<noteq> uuid_nil" using assms by (metis iam_ids_ok_def imageI)
  ultimately show "ResolveByHost db host = Inr t \<and> u \<in> set (users db) \<and> u_id u \<noteq> uuid_nil \<and>
      LookupCredentials (svc_lower s) db t email = Inr (u_id u, u_password_hash u)"
    using f r by (simp add: LookupCredentials_def)
qed

lemma run_Login_unknown:
  assumes q: "quiet os" and ids: "iam_ids_ok s db" and a: "account_of s db host email = None"
  shows "\<exists>n. run (Login s host email password ip ua) os 0 db =
    (\<lparr>lo_result = iamerr iam_ErrInvalidCredentials, lo_derivations = dummyVerify s password, lo_alerted = False\<rparr>, n, db)"
proof -
  have nf: "o_fault (os m) = NoFault" for m using q by (simp add: quiet_def)
  show ?thesis using account_lookup(1) [OF ids a] by (auto simp: Login_def nf)
qed

lemma IsLocked_total: "iam_ids_ok s db \<Longrightarrow> svc_Lockouts s = Some scope \<Longrightarrow> \<exists>l. lockout_IsLocked scope db uid now = Inr l"
  by (cases scope) (auto simp: lockout_IsLocked_def iam_ids_ok_def split: option.splits)

lemma run_Login_known:
  assumes q: "quiet os" and ids: "iam_ids_ok s db" and a: "account_of s db host email = Some (t, u)"
  obtains (locked) scope until where "svc_Lockouts s = Some scope" "lockout_IsLocked scope db (u_id u) (o_now (os 2)) = Inr (Some until)"
      "run (Login s host email password ip ua) os 0 db =
        (\<lparr>lo_result = iamerr (iam_ErrAccountLocked until), lo_derivations = dummyVerify s password, lo_alerted = False\<rparr>, 3, db)"
  | (free) n where "\<forall>scope. svc_Lockouts s = Some scope \<longrightarrow> lockout_IsLocked scope db (u_id u) (o_now (os 2)) = Inr None"
      "n = (if svc_Lockouts s = None then 2 else 3)"
      "run (Login s host email password ip ua) os 0 db =
        run (check_password s t (u_id u) (u_password_hash u) email password ip ua) os n db"
proof -
  have nf: "o_fault (os m) = NoFault" for m using q by (simp add: quiet_def)
  note acc = account_lookup(2) [OF ids a]
  have g: "run (Login s host email password ip ua) os 0 db =
      run (guarded_check s t (u_id u) (u_password_hash u) email password ip ua) os 2 db"
    using acc nf by (intro run_Login_found) auto
  show ?thesis
  proof (cases "svc_Lockouts s")
    case None
    then show ?thesis using free [of 2] g by (simp add: guarded_check_def run_precheck)
  next
    case (Some scope)
    obtain l where l: "lockout_IsLocked scope db (u_id u) (o_now (os 2)) = Inr l" using IsLocked_total [OF ids Some] by blast
    show ?thesis
    proof (cases l)
      case None
      then show ?thesis using free [of 3] g Some l nf by (simp add: guarded_check_def run_precheck eval_nat_numeral)
    next
      case (Some until)
      then show ?thesis using locked [of scope until] g \<open>svc_Lockouts s = Some scope\<close> l nf
        by (simp add: guarded_check_def run_precheck eval_nat_numeral)
    qed
  qed
qed

text \<open>The lockout pre-check of the login finds the account locked.\<close>

definition account_locked :: "iam_service \<Rightarrow> iam_db \<Rightarrow> user_row \<Rightarrow> time \<Rightarrow> bool" where
  "account_locked s db u now \<longleftrightarrow> (case svc_Lockouts s of
     None \<Rightarrow> False
   | Some scope \<Rightarrow> (case lockout_IsLocked scope db (u_id u) now of Inr (Some until) \<Rightarrow> True | _ \<Rightarrow> False))"

text \<open>
  C11. What a rejection shows: in a login without infrastructure failures, and with a dummy hash that decodes, an unknown host,
  an unknown address and a deactivated user all cost one argon2id derivation, get \<open>ErrInvalidCredentials\<close> and leave the store as it
  was; a wrong password gets the same answer or the notice of a lock; a locked account is refused whatever the password, with
  one derivation of the dummy hash and before its own hash is touched; and a login to an account that is not locked derives
  exactly the account's hash, except that a stored hash that does not decode costs no derivation at all: by its cost that one
  rejection can be told from the others.
\<close>

theorem rejections_are_uniform:
  assumes "quiet os" and "iam_ids_ok s db" and "result_of (Login s host email password ip ua) os db = r"
    and "store_after (Login s host email password ip ua) os db = db'" and "svc_verify s (svc_dummyHash s) password \<noteq> None"
  shows "(case account_of s db host email of
       None \<Rightarrow> lo_result r = iamerr iam_ErrInvalidCredentials \<and> lo_derivations r = [svc_dummyHash s] \<and> db' = db
     | Some (t, u) \<Rightarrow>
         lo_derivations r = (if account_locked s db u (o_now (os 2)) then [svc_dummyHash s]
           else if svc_verify s (u_password_hash u) password = None then [] else [u_password_hash u]) \<and>
         ((\<forall>rh. svc_verify s (u_password_hash u) password \<noteq> Some (True, rh)) \<longrightarrow>
            lo_result r = iamerr iam_ErrInvalidCredentials \<or> (\<exists>until. lo_result r = iamerr (iam_ErrAccountLocked until))) \<and>
         (\<forall>scope until. svc_Lockouts s = Some scope \<and> lockout_IsLocked scope db (u_id u) (o_now (os 2)) = Inr (Some until) \<longrightarrow>
            lo_result r = iamerr (iam_ErrAccountLocked until) \<and> lo_derivations r = [svc_dummyHash s] \<and> db' = db))"
proof (cases "account_of s db host email")
  case None
  then show ?thesis using run_Login_unknown [OF assms(1,2) None, of password ip ua] assms(3-5)
    by (auto simp: result_of_def store_after_def dummyVerify_def derived_def)
next
  case (Some tu)
  obtain t u where tu: "tu = (t, u)" by (cases tu)
  show ?thesis
    using assms(1,2) Some [unfolded tu]
  proof (cases rule: run_Login_known [where password = password and ip = ip and ua = ua])
    case (locked scope until)
    then show ?thesis using assms(3-5) Some tu
      by (auto simp: result_of_def store_after_def dummyVerify_def derived_def account_locked_def)
  next
    case (free n)
    then have "\<not> account_locked s db u (o_now (os 2))" by (auto simp: account_locked_def split: option.split)
    then show ?thesis using free assms(3,4) Some tu check_password_outcome [where s = s and t = t and uid = "u_id u" and enc = "u_password_hash u" and email = email and
          password = password and ip = ip and ua = ua and os = os and n = n and db = db]
      by (auto simp: result_of_def store_after_def derived_def)
  qed
qed

section \<open>Guessing is bounded\<close>

type_synonym attempt_in = "(nat \<Rightarrow> call_env) \<times> string \<times> string \<times> string"

text \<open>A series of logins to one account: the outcomes, one after the other on the store the last one left.\<close>

fun login_attempts ::
  "iam_service \<Rightarrow> string \<Rightarrow> string \<Rightarrow> attempt_in list \<Rightarrow> iam_db \<Rightarrow> (Session \<times> bool) login_outcome list" where
  "login_attempts s host email [] db = []"
| "login_attempts s host email ((os, password, ip, ua) # as) db =
     (case run (Login s host email password ip ua) os 0 db of (out, n, db') \<Rightarrow> out # login_attempts s host email as db')"

abbreviation lock_of :: "iam_service \<Rightarrow> Lockout" where
  "lock_of s \<equiv> rp_Lockout (svc_LoginPolicy s)"

abbreviation failure_bucket :: "iam_service \<Rightarrow> string \<Rightarrow> iam_db \<Rightarrow> zset" where
  "failure_bucket s email db \<equiv> rl_buckets db (svc_keyPrefix s @ failedLoginKey s email)"

text \<open>The member an attempt would add to the sorted set.\<close>

definition member_of :: "iam_service \<Rightarrow> attempt_in \<Rightarrow> string" where
  "member_of s a = svc_ustr s (o_ids (fst a 3) 0)"

text \<open>The service as it is wired for tenants: limiter, lockouts of the account's tenant, and a policy in whole milliseconds.\<close>

definition tenant_service :: "iam_service \<Rightarrow> iam_db \<Rightarrow> string \<Rightarrow> string \<Rightarrow> uuid \<Rightarrow> user_row \<Rightarrow> bool" where
  "tenant_service s db host email t u \<longleftrightarrow> iam_ids_ok s db \<and> account_of s db host email = Some (t, u) \<and>
     svc_Lockouts s = Some (TenantLockouts t) \<and> svc_Limiter s \<and> 0 < lk_Threshold (lock_of s) \<and>
     0 < lk_Duration (lock_of s) \<and> 1000000 dvd lk_Duration (lock_of s) \<and>
     (\<forall>r \<in> set (account_lockout db). al_user_id r = u_id u \<longrightarrow> al_tenant_id r = Some t)"

text \<open>A wrong password, within one lockout period (less a millisecond) from \<open>t0\<close>, with nothing failing.\<close>

definition wrong_guess :: "iam_service \<Rightarrow> user_row \<Rightarrow> time \<Rightarrow> attempt_in \<Rightarrow> bool" where
  "wrong_guess s u t0 a \<longleftrightarrow> (case a of (os, password, ip, ua) \<Rightarrow>
     quiet os \<and> (\<forall>rh. svc_verify s (u_password_hash u) password \<noteq> Some (True, rh)) \<and>
     (\<forall>k. t0 \<le> o_now (os k) \<and> o_now (os k) \<le> t0 + lk_Duration (lock_of s) - 1000000))"

definition lock_until :: "iam_db \<Rightarrow> uuid \<Rightarrow> uuid \<Rightarrow> time \<Rightarrow> bool" where
  "lock_until db uid t end_at \<longleftrightarrow> (\<exists>r. find (\<lambda>r. al_user_id r = uid \<and> al_tenant_id r = Some t) (account_lockout db) = Some r \<and>
     end_at \<le> al_locked_until r)"

definition hits_since :: "int \<Rightarrow> zset \<Rightarrow> nat" where
  "hits_since t z = length (filter (\<lambda>(m, s). t \<le> s) z)"

lemma limiter_Allow_eval:
  fixes key pfx :: string
  assumes "0 < w" "0 < n" "1000000 dvd w" "key \<noteq> ''''"
  defines "kept \<equiv> \<lambda>ev db. ZREMRANGEBYSCORE (rl_buckets db (pfx @ key)) (UnixMilli (o_now ev) - w div 1000000)"
  shows "\<exists>retry. limiter_Allow pfx ustr ev db key w n = Inr (if int (length (kept ev db)) \<ge> n
     then ((False, retry), db\<lparr>rl_buckets := (rl_buckets db)((pfx @ key) := kept ev db)\<rparr>)
     else ((True, 0), db\<lparr>rl_buckets := (rl_buckets db)((pfx @ key) := ZADD (kept ev db) (UnixMilli (o_now ev)) (ustr (o_ids ev 0)))\<rparr>))"
proof -
  have "w div 1000000 > 0" using assms(1,3) by (auto elim: dvdE)
  moreover have "Milliseconds w = w div 1000000" using assms(1) by (simp add: Milliseconds_def go_div_nonneg)
  ultimately show ?thesis
    using assms(1,2,4) by (auto simp: limiter_Allow_def Allow_def slidingScript_def kept_def Let_def wrap64_def)
qed

lemma Lock_locks:
  assumes "uid \<noteq> uuid_nil" "until \<noteq> zero_time" "t \<noteq> uuid_nil"
    and rows: "\<forall>r \<in> set (account_lockout db). al_user_id r = uid \<longrightarrow> al_tenant_id r = Some t"
  obtains db' where "lockout_Lock (TenantLockouts t) db uid until reason = Inr ((), db')" and "lock_until db' uid t until"
    and "users db' = users db" "tenants db' = tenants db"
    and "\<forall>r \<in> set (account_lockout db'). al_user_id r = uid \<longrightarrow> al_tenant_id r = Some t"
proof (cases "find (\<lambda>r. al_user_id r = uid) (account_lockout db)")
  case None
  then have no: "\<forall>r \<in> set (account_lockout db). al_user_id r \<noteq> uid" by (simp add: find_None_iff)
  then have "find (\<lambda>r. al_user_id r = uid \<and> al_tenant_id r = Some t) (account_lockout db) = None" by (auto simp: find_None_iff)
  then show ?thesis
    using assms None no by (intro that [of "db\<lparr>account_lockout := account_lockout db @ [\<lparr>al_user_id = uid,
        al_tenant_id = Some t, al_locked_until = until, al_reason = reason\<rparr>]\<rparr>"])
      (auto simp: lockout_Lock_def lock_until_def find_append)
next
  case (Some row)
  then have row: "row \<in> set (account_lockout db)" "al_user_id row = uid" "al_tenant_id row = Some t"
    using rows find_SomeD [OF Some] by auto
  let ?f = "\<lambda>r. if al_user_id r = uid then r\<lparr>al_locked_until := until, al_reason := reason\<rparr> else r"
  have "\<exists>r. find (\<lambda>r. al_user_id r = uid \<and> al_tenant_id r = Some t) (map ?f rs) = Some r \<and> until \<le> al_locked_until r"
    if "row \<in> set rs" for rs
    using that row(2,3) by (induction rs) auto
  then have "lock_until (db\<lparr>account_lockout := map ?f (account_lockout db)\<rparr>) uid t until"
    using row(1) by (simp add: lock_until_def)
  then show ?thesis
    using assms Some row by (intro that [of "db\<lparr>account_lockout := map ?f (account_lockout db)\<rparr>"])
      (auto simp: lockout_Lock_def)
qed

lemma lock_until_IsLocked:
  "lock_until db uid t l \<Longrightarrow> now < l \<Longrightarrow> t \<noteq> uuid_nil \<Longrightarrow> \<exists>until. lockout_IsLocked (TenantLockouts t) db uid now = Inr (Some until)"
  by (auto simp: lock_until_def lockout_IsLocked_def)

lemma account_same: "users db' = users db \<Longrightarrow> tenants db' = tenants db \<Longrightarrow>
    account_of s db' host email = account_of s db host email \<and> (iam_ids_ok s db' \<longleftrightarrow> iam_ids_ok s db)"
  by (simp add: account_of_def iam_ids_ok_def ResolveByHost_def split: option.split)

abbreviation kept_hits :: "iam_service \<Rightarrow> string \<Rightarrow> call_env \<Rightarrow> iam_db \<Rightarrow> zset" where
  "kept_hits s email ev db \<equiv> ZREMRANGEBYSCORE (failure_bucket s email db) (UnixMilli (o_now ev) - lk_Duration (lock_of s) div 1000000)"

text \<open>A wrong guess is refused by a lock, or is counted, or locks the account for the whole period.\<close>

lemma wrong_guess_step:
  assumes ts: "tenant_service s db host email t u" and w: "wrong_guess s u t0 (os, password, ip, ua)" and t0: "0 \<le> t0"
  obtains (refused) out n where "run (Login s host email password ip ua) os 0 db = (out, n, db)"
      and "lo_derivations out = dummyVerify s password"
  | (counted) out n db' where "run (Login s host email password ip ua) os 0 db = (out, n, db')"
      and "tenant_service s db' host email t u" and "\<not> lock_until db (u_id u) t (t0 + lk_Duration (lock_of s))"
      and "int (length (kept_hits s email (os 3) db)) < lk_Threshold (lock_of s)"
      and "failure_bucket s email db' = ZADD (kept_hits s email (os 3) db) (UnixMilli (o_now (os 3))) (svc_ustr s (o_ids (os 3) 0))"
  | (locks) out n db' where "run (Login s host email password ip ua) os 0 db = (out, n, db')"
      and "tenant_service s db' host email t u" and "\<not> lock_until db (u_id u) t (t0 + lk_Duration (lock_of s))"
      and "lock_until db' (u_id u) t (t0 + lk_Duration (lock_of s))"
proof -
  let ?D = "lk_Duration (lock_of s)" and ?N = "lk_Threshold (lock_of s)" and ?uid = "u_id u"
  have q: "quiet os" and wrong: "\<forall>rh. svc_verify s (u_password_hash u) password \<noteq> Some (True, rh)"
    and now: "t0 \<le> o_now (os k)" "o_now (os k) < t0 + ?D" for k
    using w by (auto simp: wrong_guess_def) (smt (verit))
  have nf: "o_fault (os m) = NoFault" for m using q by (simp add: quiet_def)
  have ids: "iam_ids_ok s db" and acc: "account_of s db host email = Some (t, u)" and scope: "svc_Lockouts s = Some (TenantLockouts t)"
    and pol: "svc_Limiter s" "0 < ?N" "0 < ?D" "1000000 dvd ?D"
    and rows: "\<forall>r \<in> set (account_lockout db). al_user_id r = ?uid \<longrightarrow> al_tenant_id r = Some t"
    using ts by (auto simp: tenant_service_def)
  have nz: "t \<noteq> uuid_nil" "?uid \<noteq> uuid_nil" using ids scope account_lookup(2) [OF ids acc] by (auto simp: iam_ids_ok_def)
  have key: "failedLoginKey s email \<noteq> ''''" by (simp add: failedLoginKey_def)
  from q ids acc show ?thesis
  proof (cases rule: run_Login_known [where password = password and ip = ip and ua = ua])
    case (locked scope' until)
    then show ?thesis by (intro refused) auto
  next
    case (free n)
    let ?k = "\<lambda>until alerted. outcome (derived s (u_password_hash u) password) alerted (case until of Some t \<Rightarrow> iamerr (iam_ErrAccountLocked t)
        | None \<Rightarrow> iamerr iam_ErrInvalidCredentials) :: (Session \<times> bool) login_outcome iprog"
    have run: "run (Login s host email password ip ua) os 0 db = run (recordLoginFailure s ?uid email ?k) os 3 db"
      using free(2,3) scope wrong by (simp add: check_password_def split: option.splits bool.splits)
    have unlocked: "\<not> lock_until db ?uid t (t0 + ?D)"
      using free(1) scope lock_until_IsLocked [OF _ now(2) [of 2] nz(1)] by force
    obtain retry where lim: "limiter_Allow (svc_keyPrefix s) (svc_ustr s) (os 3) db (failedLoginKey s email) ?D ?N =
      Inr (if int (length (kept_hits s email (os 3) db)) \<ge> ?N
        then ((False, retry), db\<lparr>rl_buckets := (rl_buckets db)((svc_keyPrefix s @ failedLoginKey s email) := kept_hits s email (os 3) db)\<rparr>)
        else ((True, 0), db\<lparr>rl_buckets := (rl_buckets db)((svc_keyPrefix s @ failedLoginKey s email) :=
          ZADD (kept_hits s email (os 3) db) (UnixMilli (o_now (os 3))) (svc_ustr s (o_ids (os 3) 0)))\<rparr>))"
      using limiter_Allow_eval [OF pol(3,2,4) key] by metis
    note rec = recordLoginFailure_def LockoutEnabled_def Let_def pol nf scope lim
    show ?thesis
    proof (cases "int (length (kept_hits s email (os 3) db)) \<ge> ?N")
      case False
      let ?db = "db\<lparr>rl_buckets := (rl_buckets db)((svc_keyPrefix s @ failedLoginKey s email) :=
          ZADD (kept_hits s email (os 3) db) (UnixMilli (o_now (os 3))) (svc_ustr s (o_ids (os 3) 0)))\<rparr>"
      have "tenant_service s ?db host email t u" using ts account_same [of ?db db] by (simp add: tenant_service_def)
      then show ?thesis using False run unlocked by (intro counted [of _ 4 ?db]) (auto simp: rec)
    next
      case True
      let ?db = "db\<lparr>rl_buckets := (rl_buckets db)((svc_keyPrefix s @ failedLoginKey s email) := kept_hits s email (os 3) db)\<rparr>"
      let ?until = "o_now (os 4) + ?D"
      have "?until \<noteq> zero_time" using now(1) [of 4] t0 pol(3) by (simp add: zero_time_def)
      then obtain db' where l: "lockout_Lock (TenantLockouts t) ?db ?uid ?until ''ratelimit: failed login attempts'' = Inr ((), db')"
        "lock_until db' ?uid t ?until" "users db' = users db" "tenants db' = tenants db"
        "\<forall>r \<in> set (account_lockout db'). al_user_id r = ?uid \<longrightarrow> al_tenant_id r = Some t"
        using Lock_locks [OF nz(2) _ nz(1), of ?until ?db] rows by auto
      have "lock_until db' ?uid t (t0 + ?D)" using l(2) now(1) [of 4] by (auto simp: lock_until_def)
      moreover have "tenant_service s db' host email t u"
        using ts account_same [OF l(3,4)] l(5) by (simp add: tenant_service_def)
      moreover have "run (recordLoginFailure s ?uid email ?k) os 3 db = run (?k (Some ?until) (svc_Alerter s \<and> lk_AlertOnLock (lock_of s))) os 6 db'"
        using True l(1) by (simp add: rec)
      ultimately show ?thesis using run unlocked by (intro locks [of _ 6 db']) auto
    qed
  qed
qed

definition checked :: "user_row \<Rightarrow> (Session \<times> bool) login_outcome \<Rightarrow> bool" where
  "checked u out \<longleftrightarrow> lo_derivations out = [u_password_hash u]"

lemma dummy_unchecked: "u_password_hash u \<noteq> svc_dummyHash s \<Longrightarrow> dummyVerify s password \<noteq> [u_password_hash u]"
  by (auto simp: dummyVerify_def derived_def split: option.splits)

lemma locked_checks_nothing:
  assumes "tenant_service s db host email t u" and "\<forall>a \<in> set as. wrong_guess s u t0 a" and "0 \<le> t0"
    and "lock_until db (u_id u) t (t0 + lk_Duration (lock_of s))" and "u_password_hash u \<noteq> svc_dummyHash s"
  shows "filter (checked u) (login_attempts s host email as db) = []"
  using assms
proof (induction as arbitrary: db)
  case (Cons a as)
  obtain os password ip ua where a: "a = (os, password, ip, ua)" by (cases a) auto
  have w: "wrong_guess s u t0 (os, password, ip, ua)" using Cons.prems(2) a by simp
  show ?case
    using Cons.prems(1) w Cons.prems(3)
  proof (cases rule: wrong_guess_step)
    case (refused out n)
    then show ?thesis using Cons a dummy_unchecked [of u s password] by (simp add: checked_def)
  qed (use Cons.prems(4) in blast)+
qed simp

lemma ZADD_fresh: "m \<notin> fst ` set z \<Longrightarrow> ZADD z score m = (m, score) # z"
  by (induction z) (auto simp: ZADD_def)

text \<open>The hits of the period survive the trimming of every attempt in it.\<close>

lemma hits_since_kept:
  assumes "wrong_guess s u t0 (os, password, ip, ua)" and "1000000 dvd lk_Duration (lock_of s)"
    and "svc_ustr s (o_ids (os 3) 0) \<notin> fst ` set (failure_bucket s email db)"
  shows "hits_since (UnixMilli t0) (ZADD (kept_hits s email (os 3) db) (UnixMilli (o_now (os 3))) (svc_ustr s (o_ids (os 3) 0)))
       = Suc (hits_since (UnixMilli t0) (failure_bucket s email db))"
    and "hits_since (UnixMilli t0) (failure_bucket s email db) \<le> length (kept_hits s email (os 3) db)"
proof -
  let ?D = "lk_Duration (lock_of s)" and ?z = "failure_bucket s email db" and ?now = "o_now (os 3)"
  obtain d where d: "?D = 1000000 * d" using assms(2) by blast
  have now: "t0 \<le> ?now" "?now \<le> t0 + ?D - 1000000" using assms(1) by (auto simp: wrong_guess_def)
  then have "UnixMilli t0 \<le> UnixMilli ?now" "UnixMilli ?now - ?D div 1000000 < UnixMilli t0"
    using d by (auto simp: UnixMilli_def zdiv_mono1)
  then have keep: "filter (\<lambda>(m, s). UnixMilli t0 \<le> s) (kept_hits s email (os 3) db) = filter (\<lambda>(m, s). UnixMilli t0 \<le> s) ?z"
    and le: "UnixMilli t0 \<le> UnixMilli ?now"
    by (auto simp: ZREMRANGEBYSCORE_def intro!: filter_cong)
  have "svc_ustr s (o_ids (os 3) 0) \<notin> fst ` set (kept_hits s email (os 3) db)"
    using assms(3) by (auto simp: ZREMRANGEBYSCORE_def)
  then show "hits_since (UnixMilli t0) (ZADD (kept_hits s email (os 3) db) (UnixMilli ?now) (svc_ustr s (o_ids (os 3) 0)))
       = Suc (hits_since (UnixMilli t0) ?z)"
    using keep le by (simp add: ZADD_fresh hits_since_def)
  show "hits_since (UnixMilli t0) ?z \<le> length (kept_hits s email (os 3) db)"
    using keep by (metis hits_since_def length_filter_le)
qed

lemma disjoint_below: "C' \<subseteq> insert a C \<Longrightarrow> a \<notin> A \<Longrightarrow> A \<inter> C = {} \<Longrightarrow> A \<inter> C' = {}"
  by blast

lemma guesses_counted:
  assumes "tenant_service s db host email t u" and "\<forall>a \<in> set as. wrong_guess s u t0 a" and "0 \<le> t0"
    and "distinct (map (member_of s) as)" and "set (map (member_of s) as) \<inter> fst ` set (failure_bucket s email db) = {}"
    and "u_password_hash u \<noteq> svc_dummyHash s" and "int (hits_since (UnixMilli t0) (failure_bucket s email db)) \<le> lk_Threshold (lock_of s)"
  shows "int (length (filter (checked u) (login_attempts s host email as db)))
    \<le> lk_Threshold (lock_of s) + 1 - int (hits_since (UnixMilli t0) (failure_bucket s email db))"
  using assms
proof (induction as arbitrary: db)
  case (Cons a as)
  obtain os password ip ua where a: "a = (os, password, ip, ua)" by (cases a) auto
  have w: "wrong_guess s u t0 (os, password, ip, ua)" and ws: "\<forall>a \<in> set as. wrong_guess s u t0 a" using Cons.prems(2) a by simp_all
  have m: "member_of s a = svc_ustr s (o_ids (os 3) 0)" by (simp add: member_of_def a)
  show ?case
    using Cons.prems(1) w Cons.prems(3)
  proof (cases rule: wrong_guess_step)
    case (refused out n)
    then show ?thesis using Cons.IH [OF Cons.prems(1) ws Cons.prems(3)] Cons.prems(4-7) a dummy_unchecked [of u s password]
      by (simp add: checked_def)
  next
    case (counted out n db')
    have dvd: "1000000 dvd lk_Duration (lock_of s)" using Cons.prems(1) by (simp add: tenant_service_def)
    note kept = hits_since_kept [where email = email and db = db, OF w dvd]
    have new: "svc_ustr s (o_ids (os 3) 0) \<notin> fst ` set (failure_bucket s email db)" using Cons.prems(5) m by auto
    have "fst ` set (failure_bucket s email db') \<subseteq> insert (member_of s a) (fst ` set (failure_bucket s email db))"
      using counted(5) by (auto simp: ZADD_def ZREMRANGEBYSCORE_def m)
    moreover have "member_of s a \<notin> member_of s ` set as" "member_of s ` set as \<inter> fst ` set (failure_bucket s email db) = {}"
      using Cons.prems(4,5) by simp_all
    ultimately have fresh: "set (map (member_of s) as) \<inter> fst ` set (failure_bucket s email db') = {}"
      unfolding set_map by (rule disjoint_below)
    have h: "hits_since (UnixMilli t0) (failure_bucket s email db') = Suc (hits_since (UnixMilli t0) (failure_bucket s email db))"
      using kept(1) [OF new] counted(5) by simp
    have "int (hits_since (UnixMilli t0) (failure_bucket s email db')) \<le> lk_Threshold (lock_of s)"
      using h kept(2) [OF new] counted(4) by simp
    from Cons.IH [OF counted(2) ws Cons.prems(3) _ fresh Cons.prems(6) this] Cons.prems(4) h counted(1) a
    show ?thesis by (auto split: if_splits)
  next
    case (locks out n db')
    have "filter (checked u) (login_attempts s host email as db') = []"
      by (rule locked_checks_nothing [OF locks(2) ws Cons.prems(3) locks(4) Cons.prems(6)])
    then show ?thesis using locks(1) a Cons.prems(7) by simp
  qed
qed simp

text \<open>
  C10. Guessing one at a time is bounded: when wrong passwords are tried on an account one login after the other, within one lockout
  period and with no call of a store or of the limiter failing, then of however many logins at most one more than the
  threshold compare a password with the account's hash; all others are refused because the account is locked. It takes a
  service with limiter and lockouts, a counter without hits from the period before the first login, and distinct member names in
  the counter. Logins that overlap in time, a correct password in between, and logins during which the limiter or the lockout
  store fails are outside the statement, and the bound does not hold for them.
\<close>

theorem guesses_are_bounded:
  assumes "tenant_service s db host email t u" and "\<forall>a \<in> set as. wrong_guess s u t0 a" and "0 \<le> t0"
    and "distinct (map (member_of s) as)" and "set (map (member_of s) as) \<inter> fst ` set (failure_bucket s email db) = {}"
    and "u_password_hash u \<noteq> svc_dummyHash s" and "\<forall>(m, score) \<in> set (failure_bucket s email db). score < UnixMilli t0"
  shows "int (length (filter (checked u) (login_attempts s host email as db))) \<le> lk_Threshold (lock_of s) + 1"
proof -
  have "hits_since (UnixMilli t0) (failure_bucket s email db) = 0" using assms(7) by (auto simp: hits_since_def filter_empty_conv)
  moreover have "0 \<le> lk_Threshold (lock_of s)" using assms(1) by (simp add: tenant_service_def)
  ultimately show ?thesis using guesses_counted [OF assms(1-6)] by simp
qed

section \<open>Sessions end\<close>

text \<open>A history of requests: each with its session, its environments, and its answer.\<close>

fun serve :: "(uuid \<times> uuid \<times> (nat \<Rightarrow> call_env)) list \<Rightarrow> iam_db \<Rightarrow> activity_answer list \<times> iam_db" where
  "serve [] db = ([], db)"
| "serve ((t, sid, os) # reqs) db =
     (case run (authenticated_request t sid) os 0 db of
        (ans, n, db') \<Rightarrow> (case serve reqs db' of (anss, db'') \<Rightarrow> (ans # anss, db'')))"

definition session_core :: "Session \<Rightarrow> Session" where
  "session_core x = x\<lparr>s_LastActivity := 0\<rparr>"

lemma session_core_sel [simp]:
  "s_ID (session_core x) = s_ID x" "s_CreatedAt (session_core x) = s_CreatedAt x" "s_ExpiresAt (session_core x) = s_ExpiresAt x"
  "s_Role (session_core x) = s_Role x" "s_TenantID (session_core x) = s_TenantID x"
  by (simp_all add: session_core_def)

lemma Touch_core: "SessionStore_Touch db t sid now = Inr (u, db') \<Longrightarrow>
    map session_core (sessions db') = map session_core (sessions db)"
  by (auto simp: SessionStore_Touch_def session_core_def split: if_splits)

lemma request_core:
  "map session_core (sessions (snd (snd (run (authenticated_request t sid) os n db)))) = map session_core (sessions db)"
  by (auto simp: authenticated_request_def Auth_def ValidateSession_def Activity_def dest: Touch_core
      split: fault.splits sum.splits)

lemma request_served:
  assumes "run (authenticated_request t sid) os 0 db = (Served x now, m, db')"
  shows "x \<in> set (sessions db) \<and> s_TenantID x = t \<and> s_ID x = sid \<and> o_now (os 1) < s_ExpiresAt x \<and> now = o_now (os 2) \<and>
    (\<exists>to. TimeoutsForRole (s_Role x) = Inr to \<and> now < s_CreatedAt x + to_Hard to \<and> now < s_LastActivity x + to_Idle to)"
proof -
  have f: "o_fault (os 0) = NoFault" using assms
    by (auto simp: authenticated_request_def Auth_def ValidateSession_def split: fault.splits)
  obtain y where y: "SessionStore_Get db t sid = Inr y" using assms f
    by (cases "SessionStore_Get db t sid") (auto simp: authenticated_request_def Auth_def ValidateSession_def split: if_splits)
  then have y': "y \<in> set (sessions db)" "s_TenantID y = t" "s_ID y = sid"
    by (auto simp: SessionStore_Get_def split: if_splits option.splits dest: find_SomeD)
  have e: "\<not> IsExpired y (o_now (os 1))" using assms f y
    by (auto simp: authenticated_request_def Auth_def ValidateSession_def split: if_splits)
  then have a: "run (Activity y) os 2 db = (Served x now, m, db')" using assms f y
    by (simp add: authenticated_request_def Auth_def ValidateSession_def numeral_2_eq_2)
  then obtain v where "CheckActivity (s_Role y) (s_CreatedAt y) (s_LastActivity y) (o_now (os 2)) = Inr v" "x = y" "now = o_now (os 2)"
    by (cases "CheckActivity (s_Role y) (s_CreatedAt y) (s_LastActivity y) (o_now (os 2))")
      (auto simp: Activity_def split: fault.splits sum.splits if_splits)
  with CheckActivity_ok y' e show ?thesis by (auto simp: IsExpired_def)
qed

lemma serve_core: "serve reqs db = (anss, db') \<Longrightarrow> map session_core (sessions db') = map session_core (sessions db)"
  by (induction reqs db arbitrary: anss db' rule: serve.induct)
    (auto split: prod.splits, metis request_core snd_conv)

text \<open>
  C12. Sessions end: after any number of served requests of any sessions, with any faults, a request is served only in the
  session's own tenant, before its expiry, within the idle limit of its role since its last activity and within the
  hard limit since its creation; activity never moves the expiry or the hard limit, which is at most twelve hours.
\<close>

theorem sessions_end:
  assumes "serve reqs db = (anss, db')" and "run (authenticated_request t sid) os 0 db' = (Served x now, m, db'')"
  shows "\<exists>x0 \<in> set (sessions db). session_core x0 = session_core x \<and> s_TenantID x0 = t \<and> s_ID x0 = sid \<and>
    o_now (os 1) < s_ExpiresAt x0 \<and> (\<exists>to. TimeoutsForRole (s_Role x0) = Inr to \<and> now < s_CreatedAt x0 + to_Hard to \<and>
      now < s_LastActivity x + to_Idle to) \<and> now < s_CreatedAt x0 + hours 12"
proof -
  note r = request_served [OF assms(2)]
  have "session_core x \<in> session_core ` set (sessions db)"
    using serve_core [OF assms(1)] r by (metis image_eqI list.set_map)
  then obtain x0 where x0: "x0 \<in> set (sessions db)" "session_core x0 = session_core x" by force
  then have same: "s_ID x0 = s_ID x" "s_CreatedAt x0 = s_CreatedAt x" "s_ExpiresAt x0 = s_ExpiresAt x"
    "s_Role x0 = s_Role x" "s_TenantID x0 = s_TenantID x"
    by (metis session_core_sel)+
  from r obtain to where "TimeoutsForRole (s_Role x) = Inr to" "now < s_CreatedAt x + to_Hard to" by blast
  then have "now < s_CreatedAt x0 + hours 12" using Timeouts_bounds [of "s_Role x" to] same by simp
  then show ?thesis using x0 r same by auto
qed

section \<open>Witnesses and the counter of two tenants\<close>

definition svc_ex :: "uuid \<Rightarrow> iam_service" where
  "svc_ex t = \<lparr>svc_lower = (\<lambda>x. x), svc_digest = (\<lambda>_. ''d''), svc_verify = (\<lambda>h p. Some (h = ''h:'' @ p, False)),
     svc_dummyHash = ''dummy'', svc_token = (\<lambda>_. ''tok''), svc_ustr = (\<lambda>n. replicate n CHR ''x''), svc_TTL = 0,
     svc_Lockouts = Some (TenantLockouts t), svc_Limiter = True, svc_keyPrefix = ''rl:'',
     svc_LoginPolicy = \<lparr>rp_Name = ''login'', rp_Buckets = [],
       rp_Lockout = \<lparr>lk_Threshold = 2, lk_Duration = minutes 15, lk_AlertOnLock = False\<rparr>\<rparr>, svc_Alerter = False\<rparr>"

definition user_ex :: "uuid \<Rightarrow> uuid \<Rightarrow> user_row" where
  "user_ex uid t = \<lparr>u_id = uid, u_tenant_id = Some t, u_email = ''a@x'', u_password_hash = ''h:pw'', u_role = RoleMaster,
     u_is_master = False, u_is_system = False, u_deactivated_at = None\<rparr>"

definition iam_db_ex :: iam_db where
  "iam_db_ex = \<lparr>tenants = [(''acme'', 7), (''beta'', 8)], users = [user_ex 5 7, user_ex 6 8], sessions = [],
     account_lockout = [], rl_buckets = (\<lambda>_. [])\<rparr>"

definition iam_env_ex :: "nat \<Rightarrow> nat \<Rightarrow> call_env" where
  "iam_env_ex k n = \<lparr>o_fault = NoFault, o_now = 1000, o_ids = (\<lambda>i. k + i)\<rparr>"

lemmas iam_ex_defs = svc_ex_def user_ex_def iam_db_ex_def iam_env_ex_def

lemma quiet_iam_env: "quiet (iam_env_ex k)"
  by (simp add: quiet_def iam_env_ex_def)

lemma ids_ok_ex: "t \<noteq> uuid_nil \<Longrightarrow> iam_ids_ok (svc_ex t) iam_db_ex"
  by (simp add: iam_ids_ok_def iam_ex_defs)

lemma account_ex: "account_of (svc_ex 7) iam_db_ex ''acme'' ''a@x'' = Some (7, user_ex 5 7)"
  by (simp add: account_of_def ResolveByHost_def iam_ex_defs)

text \<open>The user's stored role is \<open>master\<close>, the session's is not.\<close>

theorem login_issues_only_tenant_sessions_witness:
  "\<exists>sess rehash. lo_result (result_of (Login (svc_ex 7) ''acme'' ''a@x'' ''pw'' '''' '''') (iam_env_ex 100) iam_db_ex) = Inr (sess, rehash) \<and>
     s_TenantID sess = 7 \<and> s_Role sess \<noteq> RoleMaster"
proof -
  obtain sess where r: "lo_result (result_of (Login (svc_ex 7) ''acme'' ''a@x'' ''pw'' '''' '''') (iam_env_ex 100) iam_db_ex)
      = Inr (sess, False)"
    by (simp add: result_of_def Login_def lockout_precheck_def clear_lockout_def create_session_def NewSessionID_def
        GenerateToken_def run_random_bytes run_resolveSessionRole
        session_role_def RoleByUser_def ResolveByHost_def LookupCredentials_def lockout_IsLocked_def lockout_Clear_def
        SessionStore_Create_def sessions_role_check_def Let_def iam_ex_defs)
  have h: "ResolveByHost iam_db_ex ''acme'' = Inr 7" by (simp add: ResolveByHost_def iam_db_ex_def)
  show ?thesis using login_issues_only_tenant_sessions [OF r] r h by auto
qed

text \<open>The same wrong password, for an account that exists and for an unknown host.\<close>

theorem rejections_are_uniform_witness:
  "lo_result (result_of (Login (svc_ex 7) ''gamma'' ''a@x'' ''bad'' '''' '''') (iam_env_ex 100) iam_db_ex) = iamerr iam_ErrInvalidCredentials \<and>
   lo_derivations (result_of (Login (svc_ex 7) ''gamma'' ''a@x'' ''bad'' '''' '''') (iam_env_ex 100) iam_db_ex) = [''dummy''] \<and>
   lo_derivations (result_of (Login (svc_ex 7) ''acme'' ''a@x'' ''bad'' '''' '''') (iam_env_ex 100) iam_db_ex) = [''h:pw'']"
proof -
  have g: "account_of (svc_ex 7) iam_db_ex ''gamma'' ''a@x'' = None" by (simp add: account_of_def ResolveByHost_def iam_db_ex_def)
  have l: "\<not> account_locked (svc_ex 7) iam_db_ex (user_ex 5 7) (o_now (iam_env_ex 100 2))"
    by (simp add: account_locked_def lockout_IsLocked_def iam_ex_defs)
  have v: "svc_verify (svc_ex 7) h p \<noteq> None" "svc_dummyHash (svc_ex 7) = ''dummy''" "u_password_hash (user_ex 5 7) = ''h:pw''" for h p
    by (simp_all add: svc_ex_def user_ex_def)
  have nz: "(7 :: uuid) \<noteq> uuid_nil" by simp
  show ?thesis
    using rejections_are_uniform [OF quiet_iam_env ids_ok_ex [OF nz] refl refl v(1), of "''gamma''" "''a@x''" "''bad''" "''''" "''''" 100]
      rejections_are_uniform [OF quiet_iam_env ids_ok_ex [OF nz] refl refl v(1), of "''acme''" "''a@x''" "''bad''" "''''" "''''" 100] g account_ex l v
    by simp
qed

theorem guesses_are_bounded_witness:
  "int (length (filter (checked (user_ex 5 7)) (login_attempts (svc_ex 7) ''acme'' ''a@x''
     (map (\<lambda>k. (iam_env_ex k, ''bad'', '''', '''')) [10, 20, 30, 40]) iam_db_ex))) \<le> 3"
proof -
  let ?as = "map (\<lambda>k. (iam_env_ex k, ''bad'', '''', '''')) [10, 20, 30, 40] :: attempt_in list"
  have ts: "tenant_service (svc_ex 7) iam_db_ex ''acme'' ''a@x'' 7 (user_ex 5 7)"
    using ids_ok_ex account_ex by (simp add: tenant_service_def svc_ex_def iam_db_ex_def)
  have w: "\<forall>a \<in> set ?as. wrong_guess (svc_ex 7) (user_ex 5 7) 1000 a"
    by (simp add: wrong_guess_def quiet_iam_env svc_ex_def user_ex_def) (simp add: iam_env_ex_def)
  have d: "distinct (map (member_of (svc_ex 7)) ?as)"
    by (simp add: member_of_def svc_ex_def iam_env_ex_def)
  have z: "(0 :: int) \<le> 1000" by simp
  show ?thesis using guesses_are_bounded [OF ts w z d] by (simp add: iam_db_ex_def svc_ex_def user_ex_def)
qed

definition session_ex :: Session where
  "session_ex = \<lparr>s_ID = 90, s_UserID = 5, s_TenantID = 7, s_ExpiresAt = hours 24, s_CreatedAt = 0, s_IPAddr = '''', s_UserAgent = '''',
     s_LastActivity = 0, s_Role = RoleTenantCommon, s_CSRFToken = ''tok''\<rparr>"

theorem sessions_end_witness:
  "\<exists>x m db. run (authenticated_request 7 90) (iam_env_ex 100) 0 (iam_db_ex\<lparr>sessions := [session_ex]\<rparr>) = (Served x 1000, m, db) \<and>
     1000 < s_CreatedAt session_ex + hours 12"
proof -
  obtain x m db where r: "run (authenticated_request 7 90) (iam_env_ex 100) 0 (iam_db_ex\<lparr>sessions := [session_ex]\<rparr>) = (Served x 1000, m, db)"
    by (simp add: authenticated_request_def Auth_def ValidateSession_def SessionStore_Get_def Activity_def CheckActivity_def
        TimeoutsForRole_def IsExpired_def SessionStore_Touch_def time_sub_def iam_env_ex_def session_ex_def i64)
  have "serve [] (iam_db_ex\<lparr>sessions := [session_ex]\<rparr>) = ([], iam_db_ex\<lparr>sessions := [session_ex]\<rparr>)" by simp
  from sessions_end [OF this r] r show ?thesis by auto
qed

text \<open>
  A limiter that fails leaves a wrong password uncounted: while it does, every guess is compared with the account's hash.
\<close>

definition limiter_down_ex :: "nat \<Rightarrow> call_env" where
  "limiter_down_ex n = (iam_env_ex 10 n)\<lparr>o_fault := (if n = 3 then FailBefore ''redis'' else NoFault)\<rparr>"

lemma guesses_are_free_without_limiter:
  "length (filter (checked (user_ex 5 7)) (login_attempts (svc_ex 7) ''acme'' ''a@x''
     (replicate n (limiter_down_ex, ''bad'', '''', '''')) iam_db_ex)) = n"
proof -
  have step: "run (Login (svc_ex 7) ''acme'' ''a@x'' ''bad'' '''' '''') limiter_down_ex 0 iam_db_ex =
      (\<lparr>lo_result = iamerr iam_ErrInvalidCredentials, lo_derivations = [''h:pw''], lo_alerted = False\<rparr>, 4, iam_db_ex)"
    by (simp add: Login_def lockout_precheck_def recordLoginFailure_def ResolveByHost_def LookupCredentials_def lockout_IsLocked_def
        LockoutEnabled_def Let_def derived_def limiter_down_ex_def iam_ex_defs)
  show ?thesis by (induction n) (simp_all add: step checked_def user_ex_def)
qed

text \<open>
  The failure counter is keyed by the e-mail address alone: after failed logins to one tenant, the first wrong password for
  the account with the same address in another tenant locks that account.
\<close>

lemma failures_lock_another_tenant:
  "map lo_result (login_attempts (svc_ex 7) ''acme'' ''a@x'' [(iam_env_ex 10, ''bad'', '''', ''''), (iam_env_ex 20, ''bad'', '''', '''')] iam_db_ex)
     = [iamerr iam_ErrInvalidCredentials, iamerr iam_ErrInvalidCredentials] \<and>
   lo_result (result_of (Login (svc_ex 8) ''beta'' ''a@x'' ''bad'' '''' '''') (iam_env_ex 30)
     (store_after (Login (svc_ex 7) ''acme'' ''a@x'' ''bad'' '''' '''') (iam_env_ex 20)
       (store_after (Login (svc_ex 7) ''acme'' ''a@x'' ''bad'' '''' '''') (iam_env_ex 10) iam_db_ex)))
     = iamerr (iam_ErrAccountLocked (1000 + minutes 15))"
proof -
  note ev = result_of_def store_after_def Login_def lockout_precheck_def recordLoginFailure_def ResolveByHost_def LookupCredentials_def
    lockout_IsLocked_def lockout_Lock_def LockoutEnabled_def limiter_Allow_def Allow_def slidingScript_def ZREMRANGEBYSCORE_def
    ZADD_def UnixMilli_def Milliseconds_def go_div_def failedLoginKey_def Let_def iam_ex_defs oldest_score_def zero_time_def
  show ?thesis by (simp add: ev)
qed

end
