(* ===== verification/AiPolicy.thy ===== *)
theory AiPolicy
  imports GoStrings Interleaving "HOL-Library.List_Lexorder" "HOL-Library.Char_ord"
begin

text \<open>
  The AI policies, \<^verbatim>\<open>src/internal/aipolicy\<close>: the policy rows and the cascade that picks one, the catalog of
  contact fields under data-protection law, the consent ledger, and the audit trail of policy changes, with
  their stores \<^verbatim>\<open>src/internal/adapter/db/postgres/aipolicy\<close> over the tables of migrations 0098, 0099, 0101, 0118
  and 0123. Row-level security appears as the tenant condition of each statement.
\<close>

section \<open>Policies\<close>

datatype ScopeType = ScopeTenant | ScopeTeam | ScopeChannel | ScopeOther string

definition scope_IsValid :: "ScopeType \<Rightarrow> bool" where
  "scope_IsValid s \<longleftrightarrow> s \<in> {ScopeTenant, ScopeTeam, ScopeChannel}"

datatype ResolveSource = SourceChannel | SourceTeam | SourceTenant | SourceDefault

record AIPolicy =
  ap_TenantID :: uuid
  ap_ScopeType :: ScopeType
  ap_ScopeID :: string
  ap_Model :: string
  ap_PromptVersion :: string
  ap_Tone :: string
  ap_Language :: string
  ap_AIEnabled :: bool
  ap_Anonymize :: bool
  ap_OptIn :: bool
  ap_StructuredFields :: "string list"
  ap_ConsentRequired :: bool
  ap_CreatedAt :: time
  ap_UpdatedAt :: time

text \<open>The zero \<^verbatim>\<open>time.Time\<close> of a row that was never stored is written 0 here; nothing reads it.\<close>

definition DefaultAIPolicy :: AIPolicy where
  "DefaultAIPolicy =
     \<lparr>ap_TenantID = uuid_nil, ap_ScopeType = ScopeOther '''', ap_ScopeID = '''', ap_Model = ''openrouter/auto'',
      ap_PromptVersion = ''v1'', ap_Tone = ''neutro'', ap_Language = ''pt-BR'', ap_AIEnabled = False,
      ap_Anonymize = True, ap_OptIn = False, ap_StructuredFields = [], ap_ConsentRequired = False,
      ap_CreatedAt = 0, ap_UpdatedAt = 0\<rparr>"

text \<open>The package's sentinels and typed errors.\<close>

datatype aipolicy_sentinel =
    aip_ErrInvalidTenant | aip_ErrInvalidScopeType | aip_ErrInvalidScopeID | aip_ErrMissingActor
  | aip_ErrInvalidAnonymizerVersion | aip_ErrInvalidPromptVersion
  | aip_ErrLGPDBlockedField string | aip_ErrUnknownStructuredField string

type_synonym 'a apresult = "(aipolicy_sentinel, 'a) result"

abbreviation (input) aperr :: "aipolicy_sentinel \<Rightarrow> 'a apresult" where
  "aperr e \<equiv> Inl (Sentinel e)"

section \<open>The field catalog\<close>

datatype LGPDFieldTier = TierGreen | TierYellow | TierRed

text \<open>The legal anchor and the label of an entry are display texts and are left out.\<close>

record LGPDField =
  lf_Name :: string
  lf_Tier :: LGPDFieldTier
  lf_PromptForm :: string

definition lgpd_entry :: "LGPDFieldTier \<Rightarrow> string \<Rightarrow> string \<Rightarrow> LGPDField" where
  "lgpd_entry tier name form = \<lparr>lf_Name = name, lf_Tier = tier, lf_PromptForm = form\<rparr>"

definition LGPDFieldCatalog :: "LGPDField list" where
  "LGPDFieldCatalog =
     [lgpd_entry TierGreen ''display_name'' ''customer.display_name = \"{name}\"'',
      lgpd_entry TierGreen ''tags'' ''customer.tags = [...]'',
      lgpd_entry TierGreen ''channel'' ''customer.channel = \"whatsapp\"'',
      lgpd_entry TierGreen ''conversation_summary_last_5''
        (''customer.summary = \"(resumo an'' @ [CHR 0xC3, CHR 0xB4] @ ''nimo)\"''),
      lgpd_entry TierYellow ''email'' ''customer.email = \"[PII:EMAIL]\"'',
      lgpd_entry TierYellow ''phone'' ''customer.phone = \"[PII:PHONE]\"'',
      lgpd_entry TierYellow ''cnpj'' ''customer.cnpj = \"[PII:CNPJ]\"'']
     @ map (\<lambda>name. lgpd_entry TierRed name ''nunca enviado'')
         [''cpf'', ''address'', ''health_data'', ''racial_ethnic_origin'', ''religious_belief'', ''political_opinion'',
          ''union_affiliation'', ''sexual_orientation_data'', ''biometric_data'', ''genetic_data'', ''children_data'']"

definition LGPDFieldByName :: "string \<Rightarrow> LGPDField option" where
  "LGPDFieldByName name = find (\<lambda>f. lf_Name f = name) LGPDFieldCatalog"

definition LGPDYellowFieldNames :: "string list" where
  "LGPDYellowFieldNames = map lf_Name (filter (\<lambda>f. lf_Tier f = TierYellow) LGPDFieldCatalog)"

definition LGPDRedFieldNames :: "string list" where
  "LGPDRedFieldNames = map lf_Name (filter (\<lambda>f. lf_Tier f = TierRed) LGPDFieldCatalog)"

text \<open>The loop of \<^verbatim>\<open>ValidateStructuredFields\<close>; \<open>out\<close> is what it has appended, which is also its \<^verbatim>\<open>seen\<close> set.\<close>

fun collect_fields :: "string list \<Rightarrow> string list \<Rightarrow> string list apresult" where
  "collect_fields [] out = Inr out"
| "collect_fields (raw # rest) out =
     (let name = TrimSpace raw in
      if name = '''' then collect_fields rest out
      else case LGPDFieldByName name of
             None \<Rightarrow> aperr (aip_ErrUnknownStructuredField name)
           | Some entry \<Rightarrow>
               (case lf_Tier entry of
                  TierGreen \<Rightarrow> collect_fields rest out
                | TierRed \<Rightarrow> aperr (aip_ErrLGPDBlockedField name)
                | TierYellow \<Rightarrow> if name \<in> set out then collect_fields rest out
                                 else collect_fields rest (out @ [name])))"

definition ValidateStructuredFields :: "string list \<Rightarrow> string list apresult" where
  "ValidateStructuredFields xs = (case collect_fields xs [] of Inl e \<Rightarrow> Inl e | Inr out \<Rightarrow> Inr (sort out))"

definition EqualStructuredFields :: "string list \<Rightarrow> string list \<Rightarrow> bool" where
  "EqualStructuredFields a b \<longleftrightarrow> length a = length b \<and> sort a = sort b"

section \<open>Tables\<close>

record Consent =
  cn_TenantID :: uuid
  cn_ScopeKind :: ScopeType
  cn_ScopeID :: string
  cn_ActorUserID :: "uuid option"
  cn_PayloadHash :: string
  cn_AnonymizerVersion :: string
  cn_PromptVersion :: string
  cn_AcceptedAt :: time

record Actor =
  ac_UserID :: uuid
  ac_Master :: bool

text \<open>What \<^verbatim>\<open>policySnapshot\<close> puts into its map.\<close>

record policy_snapshot =
  sn_model :: string
  sn_prompt_version :: string
  sn_tone :: string
  sn_language :: string
  sn_ai_enabled :: bool
  sn_anonymize :: bool
  sn_opt_in :: bool
  sn_structured_fields :: "string list"

datatype audit_value = AuditNil | AuditString string | AuditBool bool | AuditSnapshot policy_snapshot

record AuditEvent =
  ae_TenantID :: uuid
  ae_ScopeType :: ScopeType
  ae_ScopeID :: string
  ae_Field :: string
  ae_OldValue :: audit_value
  ae_NewValue :: audit_value
  ae_Actor :: Actor
  ae_OccurredAt :: time

text \<open>A row of \<^verbatim>\<open>ai_policy_audit\<close> is an event and its key; \<open>ai_users\<close> are the keys of \<^verbatim>\<open>users\<close>, which actors refer to.\<close>

record policy_db =
  ai_policy :: "AIPolicy list"
  ai_policy_consent :: "Consent list"
  ai_policy_audit :: "(uuid \<times> AuditEvent) list"
  ai_users :: "uuid list"

type_synonym ('x, 'a) approg = "('x policy_db_scheme, call_env, 'a) prog"

definition scope_error :: "string \<Rightarrow> uuid \<Rightarrow> ScopeType \<Rightarrow> string \<Rightarrow> aipolicy_sentinel goerr option" where
  "scope_error op_name tenantID scopeType scopeID =
     (if tenantID = uuid_nil then Some (Wrapped op_name (Sentinel aip_ErrInvalidTenant))
      else if \<not> scope_IsValid scopeType then Some (Wrapped op_name (Sentinel aip_ErrInvalidScopeType))
      else if TrimSpace scopeID = '''' then Some (Wrapped op_name (Sentinel aip_ErrInvalidScopeID))
      else None)"

definition at_scope :: "uuid \<Rightarrow> ScopeType \<Rightarrow> string \<Rightarrow> AIPolicy \<Rightarrow> bool" where
  "at_scope tenantID scopeType scopeID p \<longleftrightarrow>
     ap_TenantID p = tenantID \<and> ap_ScopeType p = scopeType \<and> ap_ScopeID p = scopeID"

definition policy_Get :: "'x policy_db_scheme \<Rightarrow> uuid \<Rightarrow> ScopeType \<Rightarrow> string \<Rightarrow> AIPolicy option apresult" where
  "policy_Get db tenantID scopeType scopeID =
     (case scope_error ''aipolicy/postgres: Get'' tenantID scopeType scopeID of
        Some e \<Rightarrow> Inl e
      | None \<Rightarrow> Inr (find (at_scope tenantID scopeType scopeID) (ai_policy db)))"

definition policy_Upsert :: "call_env \<Rightarrow> 'x policy_db_scheme \<Rightarrow> AIPolicy \<Rightarrow> (unit \<times> 'x policy_db_scheme) apresult" where
  "policy_Upsert ev db p =
     (case scope_error ''aipolicy/postgres: Upsert'' (ap_TenantID p) (ap_ScopeType p) (ap_ScopeID p) of
        Some e \<Rightarrow> Inl e
      | None \<Rightarrow>
          let here = at_scope (ap_TenantID p) (ap_ScopeType p) (ap_ScopeID p) in
          Inr ((), db\<lparr>ai_policy :=
            (if \<exists>x \<in> set (ai_policy db). here x
             then map (\<lambda>x. if here x then p\<lparr>ap_CreatedAt := ap_CreatedAt x, ap_UpdatedAt := o_now ev\<rparr> else x) (ai_policy db)
             else ai_policy db @ [p\<lparr>ap_CreatedAt := o_now ev, ap_UpdatedAt := o_now ev\<rparr>])\<rparr>))"

text \<open>The collation of \<^verbatim>\<open>ORDER BY scope_type, scope_id\<close> belongs to the database; it is an argument.\<close>

definition policy_List :: "(AIPolicy list \<Rightarrow> AIPolicy list) \<Rightarrow> 'x policy_db_scheme \<Rightarrow> uuid \<Rightarrow> AIPolicy list apresult" where
  "policy_List order_by db tenantID =
     (if tenantID = uuid_nil then Inl (Wrapped ''aipolicy/postgres: List'' (Sentinel aip_ErrInvalidTenant))
      else Inr (order_by (filter (\<lambda>p. ap_TenantID p = tenantID) (ai_policy db))))"

definition policy_Delete :: "'x policy_db_scheme \<Rightarrow> uuid \<Rightarrow> ScopeType \<Rightarrow> string \<Rightarrow> (bool \<times> 'x policy_db_scheme) apresult" where
  "policy_Delete db tenantID scopeType scopeID =
     (case scope_error ''aipolicy/postgres: Delete'' tenantID scopeType scopeID of
        Some e \<Rightarrow> Inl e
      | None \<Rightarrow>
          let here = at_scope tenantID scopeType scopeID in
          Inr (\<exists>x \<in> set (ai_policy db). here x, db\<lparr>ai_policy := filter (\<lambda>x. \<not> here x) (ai_policy db)\<rparr>))"

section \<open>The cascade\<close>

record ResolveInput =
  ri_TenantID :: uuid
  ri_ChannelID :: "string option"
  ri_TeamID :: "string option"

text \<open>One step of the cascade: a level without a scope is skipped.\<close>

definition cascade_level ::
  "string \<Rightarrow> uuid \<Rightarrow> ScopeType \<Rightarrow> ResolveSource \<Rightarrow> string option
   \<Rightarrow> ((AIPolicy \<times> ResolveSource) apresult \<Rightarrow> ('x, 'a) approg) \<Rightarrow> ('x, 'a) approg \<Rightarrow> ('x, 'a) approg" where
  "cascade_level msg tenantID kind src scope k below =
     (case scope of
        None \<Rightarrow> below
      | Some sid \<Rightarrow>
          if sid = '''' then below
          else query (\<lambda>db. policy_Get db tenantID kind sid) (\<lambda>r. case r of
                 Inl e \<Rightarrow> k (Inl (Wrapped msg e))
               | Inr (Some p) \<Rightarrow> k (Inr (p, src))
               | Inr None \<Rightarrow> below))"

definition Resolve ::
  "(uuid \<Rightarrow> string) \<Rightarrow> ResolveInput \<Rightarrow> ((AIPolicy \<times> ResolveSource) apresult \<Rightarrow> ('x, 'a) approg) \<Rightarrow> ('x, 'a) approg" where
  "Resolve ustr inp k =
     (let t = ri_TenantID inp in
      if t = uuid_nil then k (aperr aip_ErrInvalidTenant)
      else
        cascade_level ''aipolicy: resolve channel'' t ScopeChannel SourceChannel (ri_ChannelID inp) k
          (cascade_level ''aipolicy: resolve team'' t ScopeTeam SourceTeam (ri_TeamID inp) k
            (query (\<lambda>db. policy_Get db t ScopeTenant (ustr t)) (\<lambda>r. case r of
               Inl e \<Rightarrow> k (Inl (Wrapped ''aipolicy: resolve tenant'' e))
             | Inr (Some p) \<Rightarrow> k (Inr (p, SourceTenant))
             | Inr None \<Rightarrow> k (Inr (DefaultAIPolicy, SourceDefault))))))"

section \<open>Consent\<close>

record ConsentScope =
  sc_TenantID :: uuid
  sc_Kind :: ScopeType
  sc_ID :: string

definition validateConsentScope :: "ConsentScope \<Rightarrow> unit apresult" where
  "validateConsentScope s =
     (if sc_TenantID s = uuid_nil then aperr aip_ErrInvalidTenant
      else if \<not> scope_IsValid (sc_Kind s) then aperr aip_ErrInvalidScopeType
      else if TrimSpace (sc_ID s) = '''' then aperr aip_ErrInvalidScopeID
      else Inr ())"

definition consent_at :: "uuid \<Rightarrow> ScopeType \<Rightarrow> string \<Rightarrow> Consent \<Rightarrow> bool" where
  "consent_at tenantID kind scopeID c \<longleftrightarrow>
     cn_TenantID c = tenantID \<and> cn_ScopeKind c = kind \<and> cn_ScopeID c = scopeID"

text \<open>A hash is 32 bytes long; the adapter refuses a row with any other length.\<close>

definition consent_Get :: "'x policy_db_scheme \<Rightarrow> uuid \<Rightarrow> ScopeType \<Rightarrow> string \<Rightarrow> Consent option apresult" where
  "consent_Get db tenantID kind scopeID =
     (case scope_error ''aipolicy/postgres: Consent.Get'' tenantID kind scopeID of
        Some e \<Rightarrow> Inl e
      | None \<Rightarrow>
          (case find (consent_at tenantID kind scopeID) (ai_policy_consent db) of
             None \<Rightarrow> Inr None
           | Some c \<Rightarrow>
               if length (cn_PayloadHash c) \<noteq> 32
               then Inl (Wrapped ''aipolicy/postgres: Consent.Get'' (Opaque ''payload_hash length''))
               else Inr (Some c)))"

definition consent_Upsert :: "call_env \<Rightarrow> 'x policy_db_scheme \<Rightarrow> Consent \<Rightarrow> (unit \<times> 'x policy_db_scheme) apresult" where
  "consent_Upsert ev db c =
     (case scope_error ''aipolicy/postgres: Consent.Upsert'' (cn_TenantID c) (cn_ScopeKind c) (cn_ScopeID c) of
        Some e \<Rightarrow> Inl e
      | None \<Rightarrow>
          if TrimSpace (cn_AnonymizerVersion c) = ''''
          then Inl (Wrapped ''aipolicy/postgres: Consent.Upsert'' (Sentinel aip_ErrInvalidAnonymizerVersion))
          else if TrimSpace (cn_PromptVersion c) = ''''
          then Inl (Wrapped ''aipolicy/postgres: Consent.Upsert'' (Sentinel aip_ErrInvalidPromptVersion))
          else if (case cn_ActorUserID c of None \<Rightarrow> False | Some u \<Rightarrow> u \<notin> set (ai_users db))
          then Inl (Wrapped ''aipolicy/postgres: Consent.Upsert'' (Opaque ''foreign key violation''))
          else let here = consent_at (cn_TenantID c) (cn_ScopeKind c) (cn_ScopeID c); c' = c\<lparr>cn_AcceptedAt := o_now ev\<rparr> in
            Inr ((), db\<lparr>ai_policy_consent :=
              (if \<exists>x \<in> set (ai_policy_consent db). here x
               then map (\<lambda>x. if here x then c' else x) (ai_policy_consent db)
               else ai_policy_consent db @ [c'])\<rparr>))"

definition consent_precheck :: "string \<Rightarrow> ConsentScope \<Rightarrow> string \<Rightarrow> string \<Rightarrow> aipolicy_sentinel goerr option" where
  "consent_precheck op_name scope anonymizerVersion promptVersion =
     (case validateConsentScope scope of
        Inl e \<Rightarrow> Some (Wrapped op_name e)
      | Inr _ \<Rightarrow>
          if TrimSpace anonymizerVersion = '''' then Some (Wrapped op_name (Sentinel aip_ErrInvalidAnonymizerVersion))
          else if TrimSpace promptVersion = '''' then Some (Wrapped op_name (Sentinel aip_ErrInvalidPromptVersion))
          else None)"

definition HasConsent :: "ConsentScope \<Rightarrow> string \<Rightarrow> string \<Rightarrow> (bool apresult \<Rightarrow> ('x, 'a) approg) \<Rightarrow> ('x, 'a) approg" where
  "HasConsent scope anonymizerVersion promptVersion k =
     (case consent_precheck ''aipolicy: HasConsent'' scope anonymizerVersion promptVersion of
        Some e \<Rightarrow> k (Inl e)
      | None \<Rightarrow>
          query (\<lambda>db. consent_Get db (sc_TenantID scope) (sc_Kind scope) (sc_ID scope)) (\<lambda>r. case r of
            Inl e \<Rightarrow> k (Inl (Wrapped ''aipolicy: HasConsent'' e))
          | Inr None \<Rightarrow> k (Inr False)
          | Inr (Some c) \<Rightarrow>
              k (Inr (cn_AnonymizerVersion c = anonymizerVersion \<and> cn_PromptVersion c = promptVersion))))"

text \<open>\<open>sha256\<close> is the digest function; its values have 32 bytes.\<close>

definition RecordConsent ::
  "(string \<Rightarrow> string) \<Rightarrow> ConsentScope \<Rightarrow> uuid option \<Rightarrow> string \<Rightarrow> string \<Rightarrow> string
   \<Rightarrow> (unit apresult \<Rightarrow> ('x, 'a) approg) \<Rightarrow> ('x, 'a) approg" where
  "RecordConsent sha256 scope actorUserID payloadPreview anonymizerVersion promptVersion k =
     (case consent_precheck ''aipolicy: RecordConsent'' scope anonymizerVersion promptVersion of
        Some e \<Rightarrow> k (Inl e)
      | None \<Rightarrow>
          let h = sha256 payloadPreview in
          query (\<lambda>db. consent_Get db (sc_TenantID scope) (sc_Kind scope) (sc_ID scope)) (\<lambda>r. case r of
            Inl e \<Rightarrow> k (Inl (Wrapped ''aipolicy: RecordConsent'' e))
          | Inr cur \<Rightarrow>
              if (case cur of None \<Rightarrow> False | Some c \<Rightarrow> cn_PayloadHash c = h \<and>
                    cn_AnonymizerVersion c = anonymizerVersion \<and> cn_PromptVersion c = promptVersion)
              then k (Inr ())
              else command (\<lambda>ev db. consent_Upsert ev db
                     \<lparr>cn_TenantID = sc_TenantID scope, cn_ScopeKind = sc_Kind scope, cn_ScopeID = sc_ID scope,
                      cn_ActorUserID = actorUserID, cn_PayloadHash = h, cn_AnonymizerVersion = anonymizerVersion,
                      cn_PromptVersion = promptVersion, cn_AcceptedAt = 0\<rparr>)
                   (\<lambda>w. case w of Inl e \<Rightarrow> k (Inl (Wrapped ''aipolicy: RecordConsent'' e)) | Inr _ \<Rightarrow> k (Inr ()))))"

section \<open>The audit trail\<close>

definition actor_IsValid :: "Actor \<Rightarrow> bool" where
  "actor_IsValid a \<longleftrightarrow> ac_UserID a \<noteq> uuid_nil"

definition policySnapshot :: "AIPolicy \<Rightarrow> policy_snapshot" where
  "policySnapshot p =
     \<lparr>sn_model = ap_Model p, sn_prompt_version = ap_PromptVersion p, sn_tone = ap_Tone p, sn_language = ap_Language p,
      sn_ai_enabled = ap_AIEnabled p, sn_anonymize = ap_Anonymize p, sn_opt_in = ap_OptIn p,
      sn_structured_fields = ap_StructuredFields p\<rparr>"

text \<open>An event before the decorator stamps scope, actor and time on it.\<close>

record field_change =
  fc_Field :: string
  fc_OldValue :: audit_value
  fc_NewValue :: audit_value

definition change :: "string \<Rightarrow> audit_value \<Rightarrow> audit_value \<Rightarrow> field_change" where
  "change f old new = \<lparr>fc_Field = f, fc_OldValue = old, fc_NewValue = new\<rparr>"

definition FieldOptInName :: "string \<Rightarrow> string" where
  "FieldOptInName field = ''field_opt_in.'' @ field"

definition diffStructuredFields :: "string list \<Rightarrow> string list \<Rightarrow> field_change list" where
  "diffStructuredFields prev nxt =
     map (\<lambda>name. change (FieldOptInName name) (AuditBool (name \<in> set prev)) (AuditBool (name \<in> set nxt)))
       (sort (remdups (filter (\<lambda>f. f \<notin> set nxt) prev @ filter (\<lambda>f. f \<notin> set prev) nxt)))"

definition DiffPolicies :: "AIPolicy \<Rightarrow> AIPolicy \<Rightarrow> bool \<Rightarrow> field_change list" where
  "DiffPolicies prev nxt hadPrev =
     (if \<not> hadPrev then [change ''__created__'' AuditNil (AuditSnapshot (policySnapshot nxt))]
      else
        (if ap_Model prev \<noteq> ap_Model nxt then [change ''model'' (AuditString (ap_Model prev)) (AuditString (ap_Model nxt))] else [])
        @ (if ap_PromptVersion prev \<noteq> ap_PromptVersion nxt
           then [change ''prompt_version'' (AuditString (ap_PromptVersion prev)) (AuditString (ap_PromptVersion nxt))] else [])
        @ (if ap_Tone prev \<noteq> ap_Tone nxt then [change ''tone'' (AuditString (ap_Tone prev)) (AuditString (ap_Tone nxt))] else [])
        @ (if ap_Language prev \<noteq> ap_Language nxt
           then [change ''language'' (AuditString (ap_Language prev)) (AuditString (ap_Language nxt))] else [])
        @ (if ap_AIEnabled prev \<noteq> ap_AIEnabled nxt
           then [change ''ai_enabled'' (AuditBool (ap_AIEnabled prev)) (AuditBool (ap_AIEnabled nxt))] else [])
        @ (if ap_Anonymize prev \<noteq> ap_Anonymize nxt
           then [change ''anonymize'' (AuditBool (ap_Anonymize prev)) (AuditBool (ap_Anonymize nxt))] else [])
        @ (if ap_OptIn prev \<noteq> ap_OptIn nxt then [change ''opt_in'' (AuditBool (ap_OptIn prev)) (AuditBool (ap_OptIn nxt))] else [])
        @ diffStructuredFields (ap_StructuredFields prev) (ap_StructuredFields nxt))"

text \<open>
  \<^verbatim>\<open>AuditStore.Record\<close>; the key of the new row comes from the database. The clock of the decorator never
  reads the zero time, so the fallback to \<^verbatim>\<open>time.Now\<close> is not reached.
\<close>

definition audit_Record :: "call_env \<Rightarrow> 'x policy_db_scheme \<Rightarrow> AuditEvent \<Rightarrow> (unit \<times> 'x policy_db_scheme) apresult" where
  "audit_Record ev db e =
     (case scope_error ''aipolicy/postgres: Record'' (ae_TenantID e) (ae_ScopeType e) (ae_ScopeID e) of
        Some err \<Rightarrow> Inl err
      | None \<Rightarrow>
          if TrimSpace (ae_Field e) = '''' then Inl (Opaque ''aipolicy/postgres: Record: field is required'')
          else if \<not> actor_IsValid (ae_Actor e) then Inl (Wrapped ''aipolicy/postgres: Record'' (Sentinel aip_ErrMissingActor))
          else if ac_UserID (ae_Actor e) \<notin> set (ai_users db)
          then Inl (Wrapped ''aipolicy/postgres: Record'' (Opaque ''foreign key violation''))
          else Inr ((), db\<lparr>ai_policy_audit := ai_policy_audit db @ [(o_ids ev 0, e)]\<rparr>))"

definition stamp :: "uuid \<Rightarrow> ScopeType \<Rightarrow> string \<Rightarrow> Actor \<Rightarrow> time \<Rightarrow> field_change \<Rightarrow> AuditEvent" where
  "stamp tenantID scopeType scopeID actor occurred c =
     \<lparr>ae_TenantID = tenantID, ae_ScopeType = scopeType, ae_ScopeID = scopeID, ae_Field = fc_Field c,
      ae_OldValue = fc_OldValue c, ae_NewValue = fc_NewValue c, ae_Actor = actor, ae_OccurredAt = occurred\<rparr>"

text \<open>The loop over the events: the first one that cannot be recorded ends it.\<close>

primrec record_all :: "AuditEvent list \<Rightarrow> (unit apresult \<Rightarrow> ('x, 'a) approg) \<Rightarrow> ('x, 'a) approg" where
  "record_all [] k = k (Inr ())"
| "record_all (e # es) k =
     command (\<lambda>ev db. audit_Record ev db e) (\<lambda>r. case r of Inl err \<Rightarrow> k (Inl err) | Inr _ \<Rightarrow> record_all es k)"

text \<open>\<^verbatim>\<open>RecordingRepository\<close>; \<open>actor\<close> is what the context carries, if anything.\<close>

definition recording_Upsert :: "Actor option \<Rightarrow> AIPolicy \<Rightarrow> ('x, unit apresult) approg" where
  "recording_Upsert actor p =
     (if \<not> scope_IsValid (ap_ScopeType p) then Ret (aperr aip_ErrInvalidScopeType)
      else if ap_TenantID p = uuid_nil then Ret (aperr aip_ErrInvalidTenant)
      else case actor of
        None \<Rightarrow> Ret (aperr aip_ErrMissingActor)
      | Some a \<Rightarrow>
          if \<not> actor_IsValid a then Ret (aperr aip_ErrMissingActor)
          else query (\<lambda>db. policy_Get db (ap_TenantID p) (ap_ScopeType p) (ap_ScopeID p)) (\<lambda>g. case g of
            Inl e \<Rightarrow> Ret (Inl e)
          | Inr prev \<Rightarrow>
              command (\<lambda>ev db. policy_Upsert ev db p) (\<lambda>u. case u of
                Inl e \<Rightarrow> Ret (Inl e)
              | Inr _ \<Rightarrow>
                  read_clock (\<lambda>t. record_all
                    (map (stamp (ap_TenantID p) (ap_ScopeType p) (ap_ScopeID p) a t)
                       (case prev of None \<Rightarrow> DiffPolicies DefaultAIPolicy p False | Some q \<Rightarrow> DiffPolicies q p True))
                    Ret))))"

definition recording_Delete :: "Actor option \<Rightarrow> uuid \<Rightarrow> ScopeType \<Rightarrow> string \<Rightarrow> ('x, bool apresult) approg" where
  "recording_Delete actor tenantID scopeType scopeID =
     (if tenantID = uuid_nil then Ret (aperr aip_ErrInvalidTenant)
      else if \<not> scope_IsValid scopeType then Ret (aperr aip_ErrInvalidScopeType)
      else case actor of
        None \<Rightarrow> Ret (aperr aip_ErrMissingActor)
      | Some a \<Rightarrow>
          if \<not> actor_IsValid a then Ret (aperr aip_ErrMissingActor)
          else query (\<lambda>db. policy_Get db tenantID scopeType scopeID) (\<lambda>g. case g of
            Inl e \<Rightarrow> Ret (Inl e)
          | Inr prev \<Rightarrow>
              command (\<lambda>ev db. policy_Delete db tenantID scopeType scopeID) (\<lambda>d. case d of
                Inl e \<Rightarrow> Ret (Inl e)
              | Inr removed \<Rightarrow>
                  (case prev of
                     None \<Rightarrow> Ret (Inr removed)
                   | Some q \<Rightarrow>
                       if \<not> removed then Ret (Inr False)
                       else read_clock (\<lambda>t. record_all
                              [stamp tenantID scopeType scopeID a t (change ''__deleted__'' (AuditSnapshot (policySnapshot q)) AuditNil)]
                              (\<lambda>r. case r of Inl e \<Rightarrow> Ret (Inl e) | Inr _ \<Rightarrow> Ret (Inr True)))))))"

end
