(* ===== verification/Embedding.thy ===== *)
theory Embedding
  imports Interleaving
begin

text \<open>
  A use case that calls another component runs that component's program on its part of a larger store.
  \<open>embed\<close> is the program on the larger store, and the locale \<open>part_of\<close> says what is asked of the part: its contents
  can be read and replaced independently of the rest.
\<close>

primrec embed :: "('t \<Rightarrow> 's) \<Rightarrow> ('s \<Rightarrow> 't \<Rightarrow> 't) \<Rightarrow> ('s, 'o, 'a) prog \<Rightarrow> ('t, 'o, 'a) prog" where
  "embed get put (Ret a) = Ret a"
| "embed get put (Act f) = Act (\<lambda>ev t. map_prod (embed get put) (\<lambda>s. put s t) (f ev (get t)))"

locale part_of =
  fixes get :: "'t \<Rightarrow> 's" and put :: "'s \<Rightarrow> 't \<Rightarrow> 't"
  assumes get_put: "get (put s t) = s"
    and put_put: "put s (put s' t) = put s t"
    and put_get: "put (get t) t = t"
begin

lemma run_embed:
  "run (embed get put p) os n t = (case run p os n (get t) of (a, n', s) \<Rightarrow> (a, n', put s t))"
proof (induction p arbitrary: n t)
  case (Ret a)
  show ?case by (simp add: put_get)
next
  case (Act f)
  obtain p s where f: "f (os n) (get t) = (p, s)" by (cases "f (os n) (get t)")
  have "p \<in> Basic_BNFs.fsts (f (os n) (get t))" by (simp add: f)
  then have "run (embed get put p) os (Suc n) (put s t) =
      (case run p os (Suc n) (get (put s t)) of (a, n', u) \<Rightarrow> (a, n', put u (put s t)))"
    by (rule Act.IH [OF rangeI rangeI])
  then show ?case by (simp add: f get_put put_put split: prod.splits)
qed

lemma safe_embed:
  assumes "safe I E ok Q (get t) p"
  shows "safe (\<lambda>t. I (get t)) (\<lambda>t t'. E (get t) (get t')) (\<lambda>t. ok (get t)) (\<lambda>t. Q (get t)) t (embed get put p)"
  using assms
proof (induction p arbitrary: t rule: prog.induct)
  case (Ret a)
  then show ?case by (auto elim!: safe_RetE intro: safe_Ret)
next
  case (Act f)
  show ?case unfolding embed.simps
  proof (rule safe_Act)
    fix t' ev q u
    assume a: "I (get t')" "E (get t) (get t')" "ok (get t') ev"
      "map_prod (embed get put) (\<lambda>s. put s t') (f ev (get t')) = (q, u)"
    obtain p s where p: "f ev (get t') = (p, s)" and q: "q = embed get put p" "u = put s t'"
      using a(4) by (cases "f ev (get t')") auto
    from Act.prems a p have g: "I s" "E (get t') s" "safe I E ok Q s p" by (auto elim!: safe_ActE)
    have "p \<in> Basic_BNFs.fsts (f ev (get t'))" by (simp add: p)
    then have "safe (\<lambda>t. I (get t)) (\<lambda>t t'. E (get t) (get t')) (\<lambda>t. ok (get t)) (\<lambda>t. Q (get t)) (put s t') (embed get put p)"
      using g(3) by (intro Act.IH [OF rangeI rangeI]) (simp_all add: get_put)
    with g q show "I (get u) \<and> E (get t') (get u) \<and>
        safe (\<lambda>t. I (get t)) (\<lambda>t t'. E (get t) (get t')) (\<lambda>t. ok (get t)) (\<lambda>t. Q (get t)) u q"
      by (simp add: get_put)
  qed
qed

text \<open>A call that leaves the part alone is safe for it.\<close>

lemma safe_elsewhere:
  assumes "\<And>t' ev q u. I (get t') \<Longrightarrow> E (get t) (get t') \<Longrightarrow> f ev t' = (q, u) \<Longrightarrow>
      get u = get t' \<and> safe (\<lambda>t. I (get t)) (\<lambda>t t'. E (get t) (get t')) (\<lambda>t. ok (get t)) Q u q"
    and "\<And>s. I s \<Longrightarrow> E s s"
  shows "safe (\<lambda>t. I (get t)) (\<lambda>t t'. E (get t) (get t')) (\<lambda>t. ok (get t)) Q t (Act f)"
  by (rule safe_Act) (metis assms)

end

text \<open>The rely/guarantee argument of a part carries over to the larger store.\<close>

locale embedded_rg = rely_guarantee I evolves ok + part_of get put
  for I :: "'s \<Rightarrow> bool" and evolves :: "'s \<Rightarrow> 's \<Rightarrow> bool" and ok :: "'s \<Rightarrow> 'o \<Rightarrow> bool"
    and get :: "'t \<Rightarrow> 's" and put :: "'s \<Rightarrow> 't \<Rightarrow> 't"

sublocale embedded_rg \<subseteq> whole: rely_guarantee "\<lambda>t. I (get t)" "\<lambda>t t'. evolves (get t) (get t')" "\<lambda>t. ok (get t)"
  by unfold_locales (auto intro: evolves_refl evolves_trans)

end
