(* ===== verification/AiAssist.thy ===== *)
theory AiAssist
  imports WalletService AiPolicy Embedding
begin

text \<open>
  The AI assistance use case, \<^verbatim>\<open>src/internal/aiassist\<close>, \<^verbatim>\<open>src/internal/aiassist/usecase/summarize.go\<close> and the
  store \<^verbatim>\<open>src/internal/adapter/db/postgres/aiassist\<close>: gates, cache, reservation, model call, settlement. It calls
  the wallet use cases on the wallet's part of the store (\<open>core\<close>), and the policy cascade and the consent ledger on
  theirs. The language model, the anonymizer and the rate limiter are ports; they are arguments.
\<close>

section \<open>Estimates\<close>

definition modelDivisor :: "string \<Rightarrow> int" where
  "modelDivisor model = (if HasPrefix (ToLower_view (TrimSpace model)) ''anthropic/claude'' then 3 else 4)"

definition EstimateTokens :: "string \<Rightarrow> string \<Rightarrow> int" where
  "EstimateTokens t model = max 1 (go_div (int (length t)) (max 1 (modelDivisor model)))"

definition EstimateReservation :: "string \<Rightarrow> string \<Rightarrow> int \<Rightarrow> int" where
  "EstimateReservation prompt model maxOutputTokens =
     (let n = EstimateTokens prompt model in if maxOutputTokens \<le> 0 then n else wrap64 (n + maxOutputTokens))"

section \<open>Summaries\<close>

text \<open>A zero \<^verbatim>\<open>time.Time\<close> (a NULL column) is \<open>None\<close>.\<close>

record Summary =
  sm_ID :: uuid
  sm_TenantID :: uuid
  sm_ConversationID :: uuid
  sm_Text :: string
  sm_Model :: string
  sm_TokensIn :: int
  sm_TokensOut :: int
  sm_GeneratedAt :: time
  sm_ExpiresAt :: "time option"
  sm_InvalidatedAt :: "time option"

record ConsentRequired =
  cr_Scope :: ConsentScope
  cr_Payload :: string
  cr_AnonymizerVersion :: string
  cr_PromptVersion :: string

text \<open>
  The sentinels of the package, and those of the packages it calls. A denied rate limit is
  \<^verbatim>\<open>errors.Join(ErrLLMUnavailable, ErrRateLimited)\<close>; it is written \<open>ai_ErrRateLimited\<close>.
\<close>

datatype ai_sentinel =
    ai_ErrInsufficientBalance | ai_ErrAIDisabled | ai_ErrCacheMiss | ai_ErrZeroTenant | ai_ErrZeroConversation
  | ai_ErrEmptyRequestID | ai_ErrEmptyPrompt | ai_ErrLLMUnavailable | ai_ErrLGPDBlocked | ai_ErrRateLimited
  | ai_ErrConsentRequired ConsentRequired | ai_of_wallet wallet_sentinel | ai_of_policy aipolicy_sentinel

type_synonym 'a airesult = "(ai_sentinel, 'a) result"

abbreviation (input) aierr :: "ai_sentinel \<Rightarrow> 'a airesult" where
  "aierr e \<equiv> Inl (Sentinel e)"

definition DefaultSummaryTTL :: duration where
  "DefaultSummaryTTL = 24 * 3600 * 1000000000"

definition NewSummary ::
  "uuid \<Rightarrow> uuid \<Rightarrow> uuid \<Rightarrow> string \<Rightarrow> string \<Rightarrow> int \<Rightarrow> int \<Rightarrow> time \<Rightarrow> duration \<Rightarrow> Summary airesult" where
  "NewSummary newID tenantID conversationID t model tokensIn tokensOut generatedAt ttl =
     (if tenantID = uuid_nil then aierr ai_ErrZeroTenant
      else if conversationID = uuid_nil then aierr ai_ErrZeroConversation
      else if t = '''' then aierr ai_ErrEmptyPrompt
      else if model = '''' then aierr ai_ErrEmptyPrompt
      else if tokensIn < 0 \<or> tokensOut < 0 then aierr ai_ErrEmptyPrompt
      else Inr \<lparr>sm_ID = newID, sm_TenantID = tenantID, sm_ConversationID = conversationID, sm_Text = t, sm_Model = model,
                sm_TokensIn = tokensIn, sm_TokensOut = tokensOut, sm_GeneratedAt = generatedAt,
                sm_ExpiresAt = (if ttl > 0 then Some (generatedAt + ttl) else None), sm_InvalidatedAt = None\<rparr>)"

definition IsValid :: "Summary \<Rightarrow> time \<Rightarrow> bool" where
  "IsValid s now \<longleftrightarrow> sm_InvalidatedAt s = None \<and> (case sm_ExpiresAt s of None \<Rightarrow> True | Some e \<Rightarrow> \<not> now > e)"

section \<open>The store\<close>

record LLMRequest =
  lq_Prompt :: string
  lq_Model :: string
  lq_MaxTokens :: int
  lq_IdempotencyKey :: string

record LLMResponse =
  lr_Text :: string
  lr_TokensIn :: int
  lr_TokensOut :: int

text \<open>
  \<open>conversation\<close> are the keys of the table the summaries refer to; \<open>llm_log\<close> is no table, but the requests that were
  handed to the model, oldest first.
\<close>

record ai_db = policy_db +
  core :: crm_db
  conversation :: "uuid list"
  ai_summary :: "Summary list"
  llm_log :: "LLMRequest list"

type_synonym 'a aiprog = "(ai_db, call_env, 'a) prog"

abbreviation put_core :: "crm_db \<Rightarrow> ai_db \<Rightarrow> ai_db" where
  "put_core s \<equiv> core_update (\<lambda>_. s)"

interpretation core_part: part_of core put_core
  by unfold_locales simp_all

definition on_wallet :: "'a wprog \<Rightarrow> 'a aiprog" where
  "on_wallet p = embed core put_core p"

text \<open>\<^verbatim>\<open>ORDER BY generated_at DESC LIMIT 1\<close>; of rows generated at the same instant the first stored is taken.\<close>

definition GetLatestValid :: "ai_db \<Rightarrow> uuid \<Rightarrow> uuid \<Rightarrow> time \<Rightarrow> Summary airesult" where
  "GetLatestValid db tenantID conversationID now =
     (if tenantID = uuid_nil then aierr ai_ErrZeroTenant
      else if conversationID = uuid_nil then aierr ai_ErrZeroConversation
      else case sort_key (\<lambda>s. - sm_GeneratedAt s)
             (filter (\<lambda>s. sm_TenantID s = tenantID \<and> sm_ConversationID s = conversationID \<and> sm_InvalidatedAt s = None \<and>
                (case sm_ExpiresAt s of None \<Rightarrow> True | Some e \<Rightarrow> e > now)) (ai_summary db)) of
             [] \<Rightarrow> aierr ai_ErrCacheMiss
           | s # _ \<Rightarrow> Inr s)"

text \<open>The columns \<^verbatim>\<open>tokens_in\<close> and \<^verbatim>\<open>tokens_out\<close> are 32-bit integers.\<close>

definition summary_Save :: "ai_db \<Rightarrow> Summary \<Rightarrow> (unit \<times> ai_db) airesult" where
  "summary_Save db sm =
     (let failed = (\<lambda>m. Inl (Wrapped ''aiassist/postgres: insert summary'' (Opaque m))) in
      if sm_TenantID sm = uuid_nil then aierr ai_ErrZeroTenant
      else if sm_ConversationID sm = uuid_nil then aierr ai_ErrZeroConversation
      else if \<exists>x \<in> set (ai_summary db). sm_ID x = sm_ID sm then failed ''ai_summary_pkey''
      else if sm_ConversationID sm \<notin> set (conversation db) then failed ''ai_summary_conversation_id_fkey''
      else if sm_TokensIn sm > 2147483647 \<or> sm_TokensOut sm > 2147483647 then failed ''integer out of range''
      else if sm_TokensIn sm < 0 \<or> sm_TokensOut sm < 0 then failed ''check violation''
      else Inr ((), db\<lparr>ai_summary := ai_summary db @ [sm]\<rparr>))"

definition InvalidateForConversation :: "ai_db \<Rightarrow> uuid \<Rightarrow> uuid \<Rightarrow> time \<Rightarrow> (unit \<times> ai_db) airesult" where
  "InvalidateForConversation db tenantID conversationID now =
     (if tenantID = uuid_nil then aierr ai_ErrZeroTenant
      else if conversationID = uuid_nil then aierr ai_ErrZeroConversation
      else Inr ((), db\<lparr>ai_summary := map (\<lambda>s.
             if sm_TenantID s = tenantID \<and> sm_ConversationID s = conversationID \<and> sm_InvalidatedAt s = None
             then s\<lparr>sm_InvalidatedAt := Some now\<rparr> else s) (ai_summary db)\<rparr>))"

section \<open>The effective policy\<close>

record ai_scope =
  sp_TeamID :: string
  sp_ChannelID :: string

record ai_Policy =
  al_AIEnabled :: bool
  al_OptIn :: bool
  al_Anonymize :: bool
  al_Model :: string
  al_MaxOutputTokens :: int
  al_PromptVersion :: string
  al_StructuredFields :: "string list"
  al_ConsentRequired :: bool

definition policy_of_row :: "AIPolicy \<Rightarrow> ai_Policy" where
  "policy_of_row p =
     \<lparr>al_AIEnabled = ap_AIEnabled p, al_OptIn = ap_OptIn p, al_Anonymize = ap_Anonymize p, al_Model = ap_Model p,
      al_MaxOutputTokens = 0, al_PromptVersion = ap_PromptVersion p, al_StructuredFields = ap_StructuredFields p,
      al_ConsentRequired = ap_ConsentRequired p\<rparr>"

definition some_text :: "string \<Rightarrow> string option" where
  "some_text s = (if s = '''' then None else Some s)"

definition PolicyResolver_Resolve ::
  "(uuid \<Rightarrow> string) \<Rightarrow> uuid \<Rightarrow> ai_scope \<Rightarrow> (ai_Policy apresult \<Rightarrow> 'a aiprog) \<Rightarrow> 'a aiprog" where
  "PolicyResolver_Resolve ustr tenantID scope k =
     Resolve ustr \<lparr>ri_TenantID = tenantID, ri_ChannelID = some_text (sp_ChannelID scope), ri_TeamID = some_text (sp_TeamID scope)\<rparr>
       (\<lambda>r. case r of Inl e \<Rightarrow> k (Inl e) | Inr (p, _) \<Rightarrow> k (Inr (policy_of_row p)))"

section \<open>The service\<close>

text \<open>
  \<open>as_complete\<close> is the model (\<open>None\<close> for a failed call), \<open>as_limiter\<close> the rate limiter with its bucket, \<open>as_anonymizer\<close> the anonymizer
  (\<open>None\<close> in its answer for an error), \<open>as_consent\<close> says whether a consent service is wired, \<open>as_scope\<close> is the policy scope
  the wallet reports in its depletion events.
\<close>

record ai_service =
  as_ustr :: "uuid \<Rightarrow> string"
  as_uparse :: "string \<Rightarrow> uuid option"
  as_scope :: string
  as_complete :: "call_env \<Rightarrow> LLMRequest \<Rightarrow> LLMResponse option"
  as_limiter :: "(call_env \<Rightarrow> string \<Rightarrow> string \<Rightarrow> bool) option"
  as_bucket :: string
  as_ttl :: duration
  as_consent :: bool
  as_anonymizer :: "(string \<Rightarrow> string option) option"
  as_anonymizerVersion :: string

record SummarizeRequest =
  sr_TenantID :: uuid
  sr_ConversationID :: uuid
  sr_RequestID :: string
  sr_Prompt :: string
  sr_Scope :: ai_scope
  sr_Force :: bool

text \<open>The four required ports are present in the model; \<^verbatim>\<open>NewService\<close> checks the optional ones.\<close>

definition ai_NewService :: "ai_service \<Rightarrow> ai_service airesult" where
  "ai_NewService cfg =
     (if as_limiter cfg \<noteq> None \<and> as_bucket cfg = ''''
      then Inl (Opaque ''aiassist/usecase: RateLimitBucket required when RateLimiter is set'')
      else if (as_consent cfg \<or> as_anonymizer cfg \<noteq> None \<or> as_anonymizerVersion cfg \<noteq> '''') \<and>
              (\<not> as_consent cfg \<or> as_anonymizer cfg = None \<or> as_anonymizerVersion cfg = '''')
      then Inl (Opaque ''aiassist/usecase: Consent, Anonymizer, and AnonymizerVersion must be wired together'')
      else Inr (cfg\<lparr>as_ttl := (if as_ttl cfg \<le> 0 then DefaultSummaryTTL else as_ttl cfg)\<rparr>))"

definition ai_validate :: "SummarizeRequest \<Rightarrow> unit airesult" where
  "ai_validate req =
     (if sr_TenantID req = uuid_nil then aierr ai_ErrZeroTenant
      else if sr_ConversationID req = uuid_nil then aierr ai_ErrZeroConversation
      else if sr_RequestID req = '''' then aierr ai_ErrEmptyRequestID
      else if sr_Prompt req = '''' then aierr ai_ErrEmptyPrompt
      else Inr ())"

definition ErrPolicyBlocked :: "ai_Policy \<Rightarrow> 'a airesult" where
  "ErrPolicyBlocked p =
     Inl (Wrapped (if al_AIEnabled p \<and> \<not> al_OptIn p then ''opt_in=false'' else ''ai_enabled=false'') (Sentinel ai_ErrAIDisabled))"

definition consentScopeFor :: "(uuid \<Rightarrow> string) \<Rightarrow> uuid \<Rightarrow> ai_scope \<Rightarrow> ConsentScope" where
  "consentScopeFor ustr tenantID scope =
     (if sp_ChannelID scope \<noteq> '''' then \<lparr>sc_TenantID = tenantID, sc_Kind = ScopeChannel, sc_ID = sp_ChannelID scope\<rparr>
      else if sp_TeamID scope \<noteq> '''' then \<lparr>sc_TenantID = tenantID, sc_Kind = ScopeTeam, sc_ID = sp_TeamID scope\<rparr>
      else \<lparr>sc_TenantID = tenantID, sc_Kind = ScopeTenant, sc_ID = ustr tenantID\<rparr>)"

definition checkConsent :: "ai_service \<Rightarrow> SummarizeRequest \<Rightarrow> ai_Policy \<Rightarrow> (unit airesult \<Rightarrow> 'a aiprog) \<Rightarrow> 'a aiprog" where
  "checkConsent svc req policy k =
     (if \<not> al_ConsentRequired policy then k (Inr ())
      else if \<not> as_consent svc \<or> as_anonymizer svc = None \<or> as_anonymizerVersion svc = '''' then k (Inr ())
      else if al_PromptVersion policy = '''' then k (Inr ())
      else case the (as_anonymizer svc) (sr_Prompt req) of
        None \<Rightarrow> k (Inl (Wrapped ''aiassist/usecase: anonymize for consent'' (Opaque ''anonymizer'')))
      | Some preview \<Rightarrow>
          let scope = consentScopeFor (as_ustr svc) (sr_TenantID req) (sr_Scope req) in
          HasConsent scope (as_anonymizerVersion svc) (al_PromptVersion policy) (\<lambda>r. case r of
            Inl e \<Rightarrow> k (Inl (Wrapped ''aiassist/usecase: consent check'' (map_goerr ai_of_policy e)))
          | Inr has \<Rightarrow>
              if has then k (Inr ())
              else k (aierr (ai_ErrConsentRequired
                     \<lparr>cr_Scope = scope, cr_Payload = preview, cr_AnonymizerVersion = as_anonymizerVersion svc,
                      cr_PromptVersion = al_PromptVersion policy\<rparr>))))"

definition checkRateLimit :: "ai_service \<Rightarrow> SummarizeRequest \<Rightarrow> (unit airesult \<Rightarrow> 'a aiprog) \<Rightarrow> 'a aiprog" where
  "checkRateLimit svc req k =
     (case as_limiter svc of
        None \<Rightarrow> k (Inr ())
      | Some allow \<Rightarrow>
          let key = as_ustr svc (sr_TenantID req) @ '':'' @ as_ustr svc (sr_ConversationID req) in
          command (\<lambda>ev db. Inr (allow ev (as_bucket svc) key, db)) (\<lambda>r. case r of
            Inl (e :: unit goerr) \<Rightarrow> k (Inl (Wrapped ''rate limiter'' (Sentinel ai_ErrLLMUnavailable)))
          | Inr allowed \<Rightarrow> if allowed then k (Inr ()) else k (aierr ai_ErrRateLimited)))"

section \<open>The prompt\<close>

definition structuredContextHeader :: string where
  "structuredContextHeader =
     ''# Structured customer context (LGPD-classified '' @ [CHR 0xE2, CHR 0x80, CHR 0x94] @ '' never cleartext for PII)'' @ [CHR 0x0A]"

text \<open>The loop over the opt-in set runs in map order; which of several bad names it reports is not modelled.\<close>

definition assembleStructuredContext :: "string list \<Rightarrow> string airesult" where
  "assembleStructuredContext opted =
     (let names = map TrimSpace opted in
      if \<exists>name \<in> set names. name \<noteq> '''' \<and>
           (case LGPDFieldByName name of None \<Rightarrow> True | Some f \<Rightarrow> lf_Tier f \<noteq> TierYellow)
      then Inl (Wrapped ''structured field'' (Sentinel ai_ErrLGPDBlocked))
      else Inr (structuredContextHeader @ concat (map (\<lambda>f.
             case lf_Tier f of
               TierGreen \<Rightarrow> lf_PromptForm f @ [CHR 0x0A]
             | TierYellow \<Rightarrow> if lf_Name f \<in> set names then lf_PromptForm f @ [CHR 0x0A] else []
             | TierRed \<Rightarrow> []) LGPDFieldCatalog)))"

definition anonymizeForDispatch :: "ai_service \<Rightarrow> string \<Rightarrow> ai_Policy \<Rightarrow> string airesult" where
  "anonymizeForDispatch svc body policy =
     (case as_anonymizer svc of
        None \<Rightarrow> Inr body
      | Some anon \<Rightarrow>
          if \<not> al_Anonymize policy then Inr body
          else (case anon body of
                  None \<Rightarrow> Inl (Wrapped ''aiassist/usecase: anonymize for dispatch'' (Opaque ''anonymizer''))
                | Some out \<Rightarrow> Inr out))"

definition buildDispatchPrompt :: "ai_service \<Rightarrow> SummarizeRequest \<Rightarrow> ai_Policy \<Rightarrow> string airesult" where
  "buildDispatchPrompt svc req policy =
     (case anonymizeForDispatch svc (sr_Prompt req) policy of
        Inl e \<Rightarrow> Inl e
      | Inr body \<Rightarrow>
          (case assembleStructuredContext (al_StructuredFields policy) of
             Inl e \<Rightarrow> Inl e
           | Inr contextBlock \<Rightarrow> Inr (if contextBlock = '''' then body else contextBlock @ [CHR 0x0A] @ body)))"

section \<open>Summarize\<close>

definition idempotencyKey :: "(uuid \<Rightarrow> string) \<Rightarrow> SummarizeRequest \<Rightarrow> string \<Rightarrow> string" where
  "idempotencyKey ustr req phaseSuffix =
     ustr (sr_TenantID req) @ '':'' @ ustr (sr_ConversationID req) @ '':'' @ sr_RequestID req @ phaseSuffix"

definition llm_Complete :: "ai_service \<Rightarrow> LLMRequest \<Rightarrow> (LLMResponse option \<Rightarrow> 'a aiprog) \<Rightarrow> 'a aiprog" where
  "llm_Complete svc q k = Act (\<lambda>ev db. (k (as_complete svc ev q), db\<lparr>llm_log := llm_log db @ [q]\<rparr>))"

definition reserveAndCall ::
  "ai_service \<Rightarrow> SummarizeRequest \<Rightarrow> ai_Policy \<Rightarrow> string \<Rightarrow> ((Reservation \<times> LLMResponse) airesult \<Rightarrow> 'a aiprog) \<Rightarrow> 'a aiprog" where
  "reserveAndCall svc req policy dispatchPrompt k =
     (let estimate = EstimateReservation dispatchPrompt (al_Model policy) (al_MaxOutputTokens policy) in
      bind_prog (on_wallet (Service_Reserve (as_ustr svc) (as_uparse svc) (sr_TenantID req) estimate
                   (idempotencyKey (as_ustr svc) req '':reserve''))) (\<lambda>r. case r of
        Inl e \<Rightarrow>
          if errors_is e wallet_ErrInsufficientFunds then k (aierr ai_ErrInsufficientBalance)
          else k (Inl (Wrapped ''aiassist/usecase: wallet reserve'' (map_goerr ai_of_wallet e)))
      | Inr reservation \<Rightarrow>
          llm_Complete svc \<lparr>lq_Prompt = dispatchPrompt, lq_Model = al_Model policy, lq_MaxTokens = al_MaxOutputTokens policy,
                            lq_IdempotencyKey = idempotencyKey (as_ustr svc) req ''''\<rparr> (\<lambda>resp. case resp of
            Some llmResp \<Rightarrow> k (Inr (reservation, llmResp))
          | None \<Rightarrow>
              bind_prog (on_wallet (Service_Release (as_ustr svc) (Some reservation) (idempotencyKey (as_ustr svc) req '':release'')))
                (\<lambda>rel. case rel of
                   Inl _ \<Rightarrow> k (Inl (Wrapped ''aiassist/usecase: llm failed and release failed'' (Opaque ''llm'')))
                 | Inr _ \<Rightarrow> k (Inl (Wrapped ''llm'' (Sentinel ai_ErrLLMUnavailable)))))))"

definition charged_tokens :: "LLMResponse \<Rightarrow> Reservation \<Rightarrow> int" where
  "charged_tokens llmResp reservation =
     (let actual = wrap64 (lr_TokensIn llmResp + lr_TokensOut llmResp);
          actual = (if actual \<le> 0 then 1 else actual)
      in if actual > rv_Amount reservation then rv_Amount reservation else actual)"

definition commitAndPersist ::
  "ai_service \<Rightarrow> SummarizeRequest \<Rightarrow> ai_Policy \<Rightarrow> Reservation \<Rightarrow> LLMResponse \<Rightarrow> time \<Rightarrow> (Summary airesult \<Rightarrow> 'a aiprog) \<Rightarrow> 'a aiprog" where
  "commitAndPersist svc req policy reservation llmResp now k =
     bind_prog (on_wallet (Service_Commit (as_ustr svc) (as_scope svc) (Some reservation) (charged_tokens llmResp reservation)
                  (idempotencyKey (as_ustr svc) req '':commit''))) (\<lambda>c. case c of
       Inl e \<Rightarrow> k (Inl (Wrapped ''aiassist/usecase: wallet commit'' (map_goerr ai_of_wallet e)))
     | Inr _ \<Rightarrow>
         Act (\<lambda>ev db. (case NewSummary (o_ids ev 0) (sr_TenantID req) (sr_ConversationID req) (lr_Text llmResp) (al_Model policy)
                           (lr_TokensIn llmResp) (lr_TokensOut llmResp) now (as_ttl svc) of
           Inl e \<Rightarrow> k (Inl (Wrapped ''aiassist/usecase: build summary'' e))
         | Inr summary \<Rightarrow>
             command (\<lambda>ev db. summary_Save db summary) (\<lambda>s. case s of
               Inl e \<Rightarrow> k (Inl (Wrapped ''aiassist/usecase: persist summary'' e))
             | Inr _ \<Rightarrow> k (Inr summary)), db)))"

text \<open>After the cache has missed.\<close>

definition generate :: "ai_service \<Rightarrow> SummarizeRequest \<Rightarrow> ai_Policy \<Rightarrow> time \<Rightarrow> (Summary \<times> bool) airesult aiprog" where
  "generate svc req policy now =
     (case buildDispatchPrompt svc req policy of
        Inl e \<Rightarrow> Ret (Inl e)
      | Inr prompt \<Rightarrow>
          reserveAndCall svc req policy prompt (\<lambda>r. case r of
            Inl e \<Rightarrow> Ret (Inl e)
          | Inr (reservation, llmResp) \<Rightarrow>
              commitAndPersist svc req policy reservation llmResp now (\<lambda>s. case s of
                Inl e \<Rightarrow> Ret (Inl e)
              | Inr summary \<Rightarrow> Ret (Inr (summary, False)))))"

definition Summarize :: "ai_service \<Rightarrow> SummarizeRequest \<Rightarrow> (Summary \<times> bool) airesult aiprog" where
  "Summarize svc req =
     (case ai_validate req of
        Inl e \<Rightarrow> Ret (Inl e)
      | Inr _ \<Rightarrow>
          PolicyResolver_Resolve (as_ustr svc) (sr_TenantID req) (sr_Scope req) (\<lambda>p. case p of
            Inl e \<Rightarrow> Ret (Inl (Wrapped ''aiassist/usecase: resolve policy'' (map_goerr ai_of_policy e)))
          | Inr policy \<Rightarrow>
              if \<not> al_AIEnabled policy \<or> \<not> al_OptIn policy then Ret (ErrPolicyBlocked policy)
              else checkConsent svc req policy (\<lambda>c. case c of
                Inl e \<Rightarrow> Ret (Inl e)
              | Inr _ \<Rightarrow> checkRateLimit svc req (\<lambda>l. case l of
                Inl e \<Rightarrow> Ret (Inl e)
              | Inr _ \<Rightarrow> read_clock (\<lambda>now.
                  if sr_Force req then generate svc req policy now
                  else query (\<lambda>db. GetLatestValid db (sr_TenantID req) (sr_ConversationID req) now) (\<lambda>cached. case cached of
                    Inl e \<Rightarrow>
                      if \<not> errors_is e ai_ErrCacheMiss then Ret (Inl (Wrapped ''aiassist/usecase: cache lookup'' e))
                      else generate svc req policy now
                  | Inr s \<Rightarrow> if IsValid s now then Ret (Inr (s, True)) else generate svc req policy now))))))"

definition LatestSummaryGeneratedAt :: "uuid \<Rightarrow> uuid \<Rightarrow> time option airesult aiprog" where
  "LatestSummaryGeneratedAt tenantID conversationID =
     read_clock (\<lambda>now. query (\<lambda>db. GetLatestValid db tenantID conversationID now) (\<lambda>cached. case cached of
       Inl e \<Rightarrow>
         if errors_is e ai_ErrCacheMiss then Ret (Inr None)
         else Ret (Inl (Wrapped ''aiassist/usecase: latest summary lookup'' e))
     | Inr s \<Rightarrow> Ret (Inr (if IsValid s now then Some (sm_GeneratedAt s) else None))))"

definition ai_Invalidate :: "uuid \<Rightarrow> uuid \<Rightarrow> unit airesult aiprog" where
  "ai_Invalidate tenantID conversationID =
     (if tenantID = uuid_nil then Ret (aierr ai_ErrZeroTenant)
      else if conversationID = uuid_nil then Ret (aierr ai_ErrZeroConversation)
      else command (\<lambda>ev db. InvalidateForConversation db tenantID conversationID (o_now ev)) Ret)"

end
