(* ===== verification/AiPolicyProps.thy ===== *)
theory AiPolicyProps
  imports AiPolicy
begin

text \<open>
  What the AI policies guarantee: the cascade, the field catalog, the versions of consent and the audit trail.
\<close>

section \<open>The cascade\<close>

text \<open>The level-by-level specification: the first row found wins in full.\<close>

definition scope_row :: "'x policy_db_scheme \<Rightarrow> uuid \<Rightarrow> ScopeType \<Rightarrow> string \<Rightarrow> AIPolicy option" where
  "scope_row db tenantID kind sid =
     (if sid = '''' then None else find (at_scope tenantID kind sid) (ai_policy db))"

definition effective_policy :: "(uuid \<Rightarrow> string) \<Rightarrow> 'x policy_db_scheme \<Rightarrow> uuid \<Rightarrow> string \<Rightarrow> string \<Rightarrow> AIPolicy" where
  "effective_policy ustr db tenantID channel team =
     (case scope_row db tenantID ScopeChannel channel of
        Some p \<Rightarrow> p
      | None \<Rightarrow>
          (case scope_row db tenantID ScopeTeam team of
             Some p \<Rightarrow> p
           | None \<Rightarrow> (case scope_row db tenantID ScopeTenant (ustr tenantID) of Some p \<Rightarrow> p | None \<Rightarrow> DefaultAIPolicy)))"

lemma TrimSpace_Nil [simp]: "TrimSpace [] = []"
  by (simp add: TrimSpace_def trim_left.simps strip_one_def unicode_spaces_def)

lemma policy_Get_ok:
  assumes "t \<noteq> uuid_nil" "scope_IsValid kind" "TrimSpace sid \<noteq> ''''"
  shows "policy_Get db t kind sid = Inr (scope_row db t kind sid)"
proof -
  have "sid \<noteq> ''''" using assms(3) by auto
  with assms show ?thesis by (simp add: policy_Get_def scope_error_def scope_row_def)
qed

definition scope_option :: "string \<Rightarrow> string option" where
  "scope_option s = (if s = '''' then None else Some s)"

lemma run_cascade_level:
  assumes "quiet os" "t \<noteq> uuid_nil" "scope_IsValid kind" "sid = '''' \<or> TrimSpace sid \<noteq> ''''"
  shows "\<exists>n'. run (cascade_level msg t kind src (scope_option sid) k below) os n db =
     (case scope_row db t kind sid of Some p \<Rightarrow> run (k (Inr (p, src))) os n' db | None \<Rightarrow> run below os n' db)"
proof (cases "sid = ''''")
  case True
  then show ?thesis by (auto simp: cascade_level_def scope_option_def scope_row_def)
next
  case False
  then have "policy_Get db t kind sid = Inr (scope_row db t kind sid)" using assms by (intro policy_Get_ok) auto
  then show ?thesis using assms(1) False
    by (intro exI [of _ "Suc n"]) (simp add: cascade_level_def scope_option_def quiet_def split: option.split)
qed

lemma run_Resolve:
  assumes q: "quiet os" and t: "t \<noteq> uuid_nil" and u: "TrimSpace (ustr t) \<noteq> ''''"
    and c: "channel = '''' \<or> TrimSpace channel \<noteq> ''''" and m: "team = '''' \<or> TrimSpace team \<noteq> ''''"
  shows "\<exists>n' src. run (Resolve ustr \<lparr>ri_TenantID = t, ri_ChannelID = scope_option channel, ri_TeamID = scope_option team\<rparr> k) os n db
     = run (k (Inr (effective_policy ustr db t channel team, src))) os n' db \<and>
     (src = SourceDefault \<longrightarrow> effective_policy ustr db t channel team = DefaultAIPolicy)"
proof -
  let ?last = "query (\<lambda>db. policy_Get db t ScopeTenant (ustr t)) (\<lambda>r. case r of
               Inl e \<Rightarrow> k (Inl (Wrapped ''aipolicy: resolve tenant'' e))
             | Inr (Some p) \<Rightarrow> k (Inr (p, SourceTenant))
             | Inr None \<Rightarrow> k (Inr (DefaultAIPolicy, SourceDefault)))"
  let ?team = "cascade_level ''aipolicy: resolve team'' t ScopeTeam SourceTeam (scope_option team) k ?last"
  have valid: "scope_IsValid ScopeChannel" "scope_IsValid ScopeTeam" "scope_IsValid ScopeTenant"
    by (simp_all add: scope_IsValid_def)
  have last: "run ?last os n db = (case scope_row db t ScopeTenant (ustr t) of
      Some p \<Rightarrow> run (k (Inr (p, SourceTenant))) os (Suc n) db
    | None \<Rightarrow> run (k (Inr (DefaultAIPolicy, SourceDefault))) os (Suc n) db)" for n
    using q policy_Get_ok [OF t valid(3) u, of db] by (simp add: quiet_def split: option.split)
  obtain n1 where ch: "run (cascade_level ''aipolicy: resolve channel'' t ScopeChannel SourceChannel (scope_option channel) k ?team) os n db
     = (case scope_row db t ScopeChannel channel of
          Some p \<Rightarrow> run (k (Inr (p, SourceChannel))) os n1 db | None \<Rightarrow> run ?team os n1 db)"
    using run_cascade_level [OF q t valid(1) c, of _ _ k ?team n db] by blast
  obtain n2 where tm: "run ?team os n1 db = (case scope_row db t ScopeTeam team of
      Some p \<Rightarrow> run (k (Inr (p, SourceTeam))) os n2 db | None \<Rightarrow> run ?last os n2 db)"
    using run_cascade_level [OF q t valid(2) m, of _ _ k ?last n1 db] by blast
  note eff = effective_policy_def [of ustr db t channel team]
  have "run (Resolve ustr \<lparr>ri_TenantID = t, ri_ChannelID = scope_option channel, ri_TeamID = scope_option team\<rparr> k) os n db
      = run (cascade_level ''aipolicy: resolve channel'' t ScopeChannel SourceChannel (scope_option channel) k ?team) os n db"
    using t by (simp add: Resolve_def)
  also have "\<dots> = (case scope_row db t ScopeChannel channel of
      Some p \<Rightarrow> run (k (Inr (p, SourceChannel))) os n1 db
    | None \<Rightarrow> (case scope_row db t ScopeTeam team of
        Some p \<Rightarrow> run (k (Inr (p, SourceTeam))) os n2 db
      | None \<Rightarrow> (case scope_row db t ScopeTenant (ustr t) of
          Some p \<Rightarrow> run (k (Inr (p, SourceTenant))) os (Suc n2) db
        | None \<Rightarrow> run (k (Inr (DefaultAIPolicy, SourceDefault))) os (Suc n2) db)))"
    unfolding ch tm last ..
  finally show ?thesis unfolding eff
    by (cases "scope_row db t ScopeChannel channel"; cases "scope_row db t ScopeTeam team";
        cases "scope_row db t ScopeTenant (ustr t)") (simp_all, blast+)
qed

section \<open>The catalog\<close>

lemma catalog_names_distinct: "distinct (map lf_Name LGPDFieldCatalog)"
  by (simp add: LGPDFieldCatalog_def lgpd_entry_def)

lemma LGPDFieldByName_Some:
  "LGPDFieldByName name = Some f \<longleftrightarrow> f \<in> set LGPDFieldCatalog \<and> lf_Name f = name"
  unfolding LGPDFieldByName_def by (rule find_Some_iff_distinct [OF catalog_names_distinct])

definition allowed_field :: "string \<Rightarrow> bool" where
  "allowed_field name \<longleftrightarrow> name = '''' \<or> (\<exists>f. LGPDFieldByName name = Some f \<and> lf_Tier f \<noteq> TierRed)"

lemma yellow_iff: "name \<in> set LGPDYellowFieldNames \<longleftrightarrow> (\<exists>f. LGPDFieldByName name = Some f \<and> lf_Tier f = TierYellow)"
  by (auto simp: LGPDYellowFieldNames_def LGPDFieldByName_Some)

lemma blank_not_yellow: "'''' \<notin> set LGPDYellowFieldNames"
  by (simp add: LGPDYellowFieldNames_def LGPDFieldCatalog_def lgpd_entry_def)

lemma collect_fields_ok:
  "collect_fields xs out = Inr ys \<Longrightarrow> distinct out \<Longrightarrow>
     distinct ys \<and> set ys = set out \<union> {name \<in> set (map TrimSpace xs). name \<in> set LGPDYellowFieldNames} \<and>
     (\<forall>x \<in> set xs. allowed_field (TrimSpace x))"
proof (induction xs out rule: collect_fields.induct)
  case (2 raw rest out)
  show ?case
  proof (cases "TrimSpace raw = ''''")
    case True
    with 2 show ?thesis using blank_not_yellow by (auto simp: allowed_field_def)
  next
    case False
    with 2 show ?thesis
      by (auto simp: Let_def allowed_field_def yellow_iff split: option.splits LGPDFieldTier.splits if_splits)
  qed
qed simp

lemma collect_fields_fails:
  "collect_fields xs out = Inl e \<Longrightarrow> \<exists>x \<in> set xs. \<not> allowed_field (TrimSpace x)"
proof (induction xs out rule: collect_fields.induct)
  case (2 raw rest out)
  then show ?case
    by (auto simp: Let_def allowed_field_def split: if_splits option.splits LGPDFieldTier.splits)
qed simp

section \<open>Replaying the audit trail\<close>

definition toggle_field :: "string \<Rightarrow> bool \<Rightarrow> string list \<Rightarrow> string list" where
  "toggle_field name on xs =
     (if on then (if name \<in> set xs then xs else xs @ [name]) else filter (\<lambda>x. x \<noteq> name) xs)"

text \<open>What a reader of the trail can reconstruct: one event applied to the settings it was recorded for.\<close>

definition replay_change :: "field_change \<Rightarrow> AIPolicy \<Rightarrow> AIPolicy" where
  "replay_change c p =
     (case fc_NewValue c of
        AuditString v \<Rightarrow>
          if fc_Field c = ''model'' then p\<lparr>ap_Model := v\<rparr>
          else if fc_Field c = ''prompt_version'' then p\<lparr>ap_PromptVersion := v\<rparr>
          else if fc_Field c = ''tone'' then p\<lparr>ap_Tone := v\<rparr>
          else if fc_Field c = ''language'' then p\<lparr>ap_Language := v\<rparr> else p
      | AuditBool b \<Rightarrow>
          if fc_Field c = ''ai_enabled'' then p\<lparr>ap_AIEnabled := b\<rparr>
          else if fc_Field c = ''anonymize'' then p\<lparr>ap_Anonymize := b\<rparr>
          else if fc_Field c = ''opt_in'' then p\<lparr>ap_OptIn := b\<rparr>
          else p\<lparr>ap_StructuredFields := toggle_field (drop (length ''field_opt_in.'') (fc_Field c)) b (ap_StructuredFields p)\<rparr>
      | AuditSnapshot s \<Rightarrow>
          p\<lparr>ap_Model := sn_model s, ap_PromptVersion := sn_prompt_version s, ap_Tone := sn_tone s,
            ap_Language := sn_language s, ap_AIEnabled := sn_ai_enabled s, ap_Anonymize := sn_anonymize s,
            ap_OptIn := sn_opt_in s, ap_StructuredFields := sn_structured_fields s\<rparr>
      | AuditNil \<Rightarrow> p)"

definition replay :: "field_change list \<Rightarrow> AIPolicy \<Rightarrow> AIPolicy" where
  "replay cs p = fold replay_change cs p"

text \<open>Equal settings, the order of the opted-in fields and the consent switch apart.\<close>

definition same_settings :: "AIPolicy \<Rightarrow> AIPolicy \<Rightarrow> bool" where
  "same_settings p q \<longleftrightarrow>
     ap_Model p = ap_Model q \<and> ap_PromptVersion p = ap_PromptVersion q \<and> ap_Tone p = ap_Tone q \<and>
     ap_Language p = ap_Language q \<and> ap_AIEnabled p = ap_AIEnabled q \<and> ap_Anonymize p = ap_Anonymize q \<and>
     ap_OptIn p = ap_OptIn q \<and> set (ap_StructuredFields p) = set (ap_StructuredFields q)"

lemma replay_append: "replay (cs @ ds) p = replay ds (replay cs p)"
  by (simp add: replay_def)

lemma replay_opt_in:
  "replay_change (change (FieldOptInName name) old (AuditBool b)) p =
     p\<lparr>ap_StructuredFields := toggle_field name b (ap_StructuredFields p)\<rparr>"
  by (simp add: replay_change_def change_def FieldOptInName_def)

lemma set_toggle_field: "set (toggle_field name b xs) = (if b then insert name (set xs) else set xs - {name})"
  by (auto simp: toggle_field_def)

lemma replay_opt_ins:
  "\<exists>fs. replay (map (\<lambda>name. change (FieldOptInName name) (old name) (AuditBool (name \<in> N))) names) p =
       p\<lparr>ap_StructuredFields := fs\<rparr> \<and>
     set fs = (set (ap_StructuredFields p) - (set names - N)) \<union> (set names \<inter> N)"
proof (induction names arbitrary: p)
  case Nil
  show ?case by (intro exI [of _ "ap_StructuredFields p"]) (simp add: replay_def)
next
  case (Cons name names)
  let ?fs0 = "toggle_field name (name \<in> N) (ap_StructuredFields p)"
  obtain fs where fs: "replay (map (\<lambda>name. change (FieldOptInName name) (old name) (AuditBool (name \<in> N))) names)
      (p\<lparr>ap_StructuredFields := ?fs0\<rparr>) = p\<lparr>ap_StructuredFields := fs\<rparr>"
      "set fs = (set ?fs0 - (set names - N)) \<union> (set names \<inter> N)"
    using Cons.IH [of "p\<lparr>ap_StructuredFields := ?fs0\<rparr>"] by auto
  have "replay (map (\<lambda>name. change (FieldOptInName name) (old name) (AuditBool (name \<in> N))) (name # names)) p
      = p\<lparr>ap_StructuredFields := fs\<rparr>"
    using fs(1) by (simp add: replay_def replay_opt_in)
  moreover have "set fs = (set (ap_StructuredFields p) - (set (name # names) - N)) \<union> (set (name # names) \<inter> N)"
    using fs(2) by (auto simp: set_toggle_field split: if_splits)
  ultimately show ?case by blast
qed

lemma replay_diff_fields:
  "\<exists>fs. replay (diffStructuredFields (ap_StructuredFields p) nxt) p = p\<lparr>ap_StructuredFields := fs\<rparr> \<and> set fs = set nxt"
proof -
  let ?names = "sort (remdups (filter (\<lambda>f. f \<notin> set nxt) (ap_StructuredFields p) @ filter (\<lambda>f. f \<notin> set (ap_StructuredFields p)) nxt))"
  from replay_opt_ins [of "\<lambda>name. AuditBool (name \<in> set (ap_StructuredFields p))" "set nxt" ?names p]
  obtain fs where "replay (diffStructuredFields (ap_StructuredFields p) nxt) p = p\<lparr>ap_StructuredFields := fs\<rparr>"
      "set fs = (set (ap_StructuredFields p) - (set ?names - set nxt)) \<union> (set ?names \<inter> set nxt)"
    unfolding diffStructuredFields_def by blast
  then show ?thesis by (intro exI [of _ fs]) auto
qed

lemma replay_scalar:
  "replay (if b \<noteq> b' then [c] else []) p = (if b \<noteq> b' then replay_change c p else p)"
  by (simp add: replay_def)

lemmas replay_scalars = replay_change_def change_def

lemma replay_DiffPolicies: "same_settings (replay (DiffPolicies p q True) p) q"
proof -
  let ?p7 = "p\<lparr>ap_Model := ap_Model q, ap_PromptVersion := ap_PromptVersion q, ap_Tone := ap_Tone q,
     ap_Language := ap_Language q, ap_AIEnabled := ap_AIEnabled q, ap_Anonymize := ap_Anonymize q, ap_OptIn := ap_OptIn q\<rparr>"
  let ?d = "diffStructuredFields (ap_StructuredFields p) (ap_StructuredFields q)"
  have 1: "replay (if ap_Model p \<noteq> ap_Model q then [change ''model'' (AuditString (ap_Model p)) (AuditString (ap_Model q))] else []) p
      = p\<lparr>ap_Model := ap_Model q\<rparr>" (is "_ = ?p1") by (simp add: replay_scalar replay_scalars)
  have 2: "replay (if ap_PromptVersion p \<noteq> ap_PromptVersion q
      then [change ''prompt_version'' (AuditString (ap_PromptVersion p)) (AuditString (ap_PromptVersion q))] else []) ?p1
      = ?p1\<lparr>ap_PromptVersion := ap_PromptVersion q\<rparr>" (is "_ = ?p2") by (simp add: replay_scalar replay_scalars)
  have 3: "replay (if ap_Tone p \<noteq> ap_Tone q then [change ''tone'' (AuditString (ap_Tone p)) (AuditString (ap_Tone q))] else []) ?p2
      = ?p2\<lparr>ap_Tone := ap_Tone q\<rparr>" (is "_ = ?p3") by (simp add: replay_scalar replay_scalars)
  have 4: "replay (if ap_Language p \<noteq> ap_Language q
      then [change ''language'' (AuditString (ap_Language p)) (AuditString (ap_Language q))] else []) ?p3
      = ?p3\<lparr>ap_Language := ap_Language q\<rparr>" (is "_ = ?p4") by (simp add: replay_scalar replay_scalars)
  have 5: "replay (if ap_AIEnabled p \<noteq> ap_AIEnabled q
      then [change ''ai_enabled'' (AuditBool (ap_AIEnabled p)) (AuditBool (ap_AIEnabled q))] else []) ?p4
      = ?p4\<lparr>ap_AIEnabled := ap_AIEnabled q\<rparr>" (is "_ = ?p5") by (cases p; cases q) (auto simp: replay_def replay_scalars)
  have 6: "replay (if ap_Anonymize p \<noteq> ap_Anonymize q
      then [change ''anonymize'' (AuditBool (ap_Anonymize p)) (AuditBool (ap_Anonymize q))] else []) ?p5
      = ?p5\<lparr>ap_Anonymize := ap_Anonymize q\<rparr>" (is "_ = ?p6") by (cases p; cases q) (auto simp: replay_def replay_scalars)
  have 7: "replay (if ap_OptIn p \<noteq> ap_OptIn q then [change ''opt_in'' (AuditBool (ap_OptIn p)) (AuditBool (ap_OptIn q))] else []) ?p6 = ?p7"
    by (cases p; cases q) (auto simp: replay_def replay_scalars)
  have "replay (DiffPolicies p q True) p = replay ?d ?p7"
    unfolding DiffPolicies_def replay_append by (simp only: 1 2 3 4 5 6 7 not_True_eq_False if_False replay_append)
  moreover obtain fs where "replay ?d ?p7 = ?p7\<lparr>ap_StructuredFields := fs\<rparr>" "set fs = set (ap_StructuredFields q)"
    using replay_diff_fields [of ?p7 "ap_StructuredFields q"] by auto
  ultimately show ?thesis by (simp add: same_settings_def)
qed

section \<open>Writing the trail\<close>

lemma trim_left_keeps_end:
  assumes "[] \<notin> set ps" "s \<noteq> []" "\<And>p. p \<in> set ps \<Longrightarrow> last p \<noteq> last s"
  shows "trim_left ps s \<noteq> []"
  using assms
proof (induction ps s rule: trim_left.induct)
  case (1 ps s)
  show ?case
  proof (cases "strip_one ps s")
    case None
    with 1 show ?thesis by (subst trim_left.simps) simp
  next
    case (Some t)
    then obtain p where p: "p \<in> set ps" "prefix p s" "t = drop (length p) s"
      using find_SomeD by (fastforce simp: strip_one_def)
    have "t \<noteq> []"
    proof
      assume "t = []"
      with p have "s = p" by (auto simp: prefix_def)
      with p(1) 1(4) show False by blast
    qed
    moreover from this have "last t = last s" using p(3) by (metis append_take_drop_id last_append)
    ultimately have "trim_left ps t \<noteq> []" using 1 Some by auto
    then show ?thesis using 1(2) Some by (subst trim_left.simps) simp
  qed
qed

lemma TrimSpace_keeps_start:
  assumes "s \<noteq> []" "\<And>p. p \<in> set unicode_spaces \<Longrightarrow> hd p \<noteq> hd s"
  shows "TrimSpace s \<noteq> []"
proof -
  have e: "[] \<notin> set unicode_spaces" by (simp add: unicode_spaces_def)
  have "\<not> prefix p s" if "p \<in> set unicode_spaces" for p
    using assms that e by (cases p; cases s) fastforce+
  then have "strip_one unicode_spaces s = None" by (auto simp: strip_one_def find_None_iff)
  then have "trim_left unicode_spaces s = s" using e by (subst trim_left.simps) simp
  moreover have "trim_left (map rev unicode_spaces) (rev s) \<noteq> []"
    using assms e by (intro trim_left_keeps_end) (auto simp: last_rev)
  ultimately show ?thesis by (simp add: TrimSpace_def)
qed

definition field_starts :: string where
  "field_starts = ''_abcdefghijklmnopqrstuvwxyz''"

lemma spaces_do_not_start_fields: "list_all (\<lambda>p. hd p \<notin> set field_starts) unicode_spaces"
  by code_simp

lemma field_start_not_blank:
  assumes "s \<noteq> []" "hd s \<in> set field_starts"
  shows "TrimSpace s \<noteq> []"
  using TrimSpace_keeps_start [OF assms(1)] spaces_do_not_start_fields assms(2) unfolding list_all_iff by metis

lemma DiffPolicies_fields:
  assumes "c \<in> set (DiffPolicies p q had)"
  shows "TrimSpace (fc_Field c) \<noteq> []"
proof -
  have "fc_Field c \<noteq> [] \<and> hd (fc_Field c) \<in> set field_starts"
    using assms by (auto simp: field_starts_def DiffPolicies_def diffStructuredFields_def change_def FieldOptInName_def split: if_splits)
  then show ?thesis using field_start_not_blank by blast
qed

definition change_of :: "AuditEvent \<Rightarrow> field_change" where
  "change_of e = change (ae_Field e) (ae_OldValue e) (ae_NewValue e)"

lemma change_of_stamp [simp]: "change_of (stamp t k s a at' c) = c"
  by (cases c) (simp add: change_of_def stamp_def change_def)

lemma run_record_all:
  assumes "quiet os"
    and "\<And>e. e \<in> set es \<Longrightarrow> scope_error ''aipolicy/postgres: Record'' (ae_TenantID e) (ae_ScopeType e) (ae_ScopeID e) = None \<and>
        TrimSpace (ae_Field e) \<noteq> [] \<and> actor_IsValid (ae_Actor e) \<and> ac_UserID (ae_Actor e) \<in> set (ai_users db)"
  shows "\<exists>rows. map snd rows = es \<and>
     run (record_all es k) os n db = run (k (Inr ())) os (n + length es) (db\<lparr>ai_policy_audit := ai_policy_audit db @ rows\<rparr>)"
  using assms(2)
proof (induction es arbitrary: n db)
  case Nil
  show ?case by simp
next
  case (Cons e es)
  let ?db = "db\<lparr>ai_policy_audit := ai_policy_audit db @ [(o_ids (os n) 0, e)]\<rparr>"
  obtain rows where rows: "map snd rows = es"
    "run (record_all es k) os (Suc n) ?db = run (k (Inr ())) os (Suc n + length es) (?db\<lparr>ai_policy_audit := ai_policy_audit ?db @ rows\<rparr>)"
    using Cons.IH [of ?db "Suc n"] Cons.prems by auto
  have "audit_Record (os n) db e = Inr ((), ?db)" using Cons.prems [of e] by (simp add: audit_Record_def)
  then show ?case using assms(1) rows
    by (intro exI [of _ "(o_ids (os n) 0, e) # rows"]) (simp add: quiet_def)
qed

section \<open>Consent\<close>

definition consent_now :: "'x policy_db_scheme \<Rightarrow> ConsentScope \<Rightarrow> string \<Rightarrow> string \<Rightarrow> bool" where
  "consent_now db scope a v \<longleftrightarrow>
     (case find (consent_at (sc_TenantID scope) (sc_Kind scope) (sc_ID scope)) (ai_policy_consent db) of
        None \<Rightarrow> False
      | Some c \<Rightarrow> cn_AnonymizerVersion c = a \<and> cn_PromptVersion c = v)"

definition hashes_ok :: "'x policy_db_scheme \<Rightarrow> bool" where
  "hashes_ok db \<longleftrightarrow> (\<forall>c \<in> set (ai_policy_consent db). length (cn_PayloadHash c) = 32)"

lemma consent_Get_ok:
  assumes "hashes_ok db" "validateConsentScope scope = Inr ()"
  shows "consent_Get db (sc_TenantID scope) (sc_Kind scope) (sc_ID scope) =
     Inr (find (consent_at (sc_TenantID scope) (sc_Kind scope) (sc_ID scope)) (ai_policy_consent db))"
proof -
  have "length (cn_PayloadHash c) = 32" if "find P (ai_policy_consent db) = Some c" for P c
    using find_SomeD [OF that] assms(1) by (simp add: hashes_ok_def)
  then show ?thesis using assms(2)
    by (auto simp: consent_Get_def scope_error_def validateConsentScope_def split: if_splits option.split)
qed

lemma run_HasConsent:
  assumes "quiet os" "hashes_ok db" "consent_precheck ''aipolicy: HasConsent'' scope a v = None"
  shows "run (HasConsent scope a v k) os n db = run (k (Inr (consent_now db scope a v))) os (Suc n) db"
proof -
  have "validateConsentScope scope = Inr ()" using assms(3) by (auto simp: consent_precheck_def split: sum.splits)
  from consent_Get_ok [OF assms(2) this] show ?thesis using assms(1,3)
    by (simp add: HasConsent_def quiet_def consent_now_def split: option.split)
qed

lemma find_upserted:
  assumes "\<And>x. P x \<Longrightarrow> P (f x)" "P y"
  shows "find P (if \<exists>x \<in> set xs. P x then map (\<lambda>x. if P x then f x else x) xs else xs @ [y]) =
     (case find P xs of Some x \<Rightarrow> Some (f x) | None \<Rightarrow> Some y)"
proof (cases "\<exists>x \<in> set xs. P x")
  case True
  then show ?thesis using assms(1) by (induction xs) auto
next
  case False
  then have "find P xs = None" by (auto simp: find_None_iff)
  with False assms(2) show ?thesis by (simp add: find_append)
qed

lemma find_not_upserted:
  assumes "\<And>x. P x \<Longrightarrow> \<not> Q x \<and> \<not> Q (f x)" "\<not> Q y"
  shows "find Q (if \<exists>x \<in> set xs. P x then map (\<lambda>x. if P x then f x else x) xs else xs @ [y]) = find Q xs"
proof -
  have "find Q (map (\<lambda>x. if P x then f x else x) xs) = find Q xs" using assms(1) by (induction xs) auto
  then show ?thesis using assms(2) by (simp add: find_append split: option.split)
qed

section \<open>Properties\<close>

definition recorded_consent :: "(string \<Rightarrow> string) \<Rightarrow> ConsentScope \<Rightarrow> uuid option \<Rightarrow> string \<Rightarrow> string \<Rightarrow> string \<Rightarrow> Consent" where
  "recorded_consent sha256 scope actor preview a v =
     \<lparr>cn_TenantID = sc_TenantID scope, cn_ScopeKind = sc_Kind scope, cn_ScopeID = sc_ID scope,
      cn_ActorUserID = actor, cn_PayloadHash = sha256 preview, cn_AnonymizerVersion = a,
      cn_PromptVersion = v, cn_AcceptedAt = 0\<rparr>"

lemma RecordConsent_effect:
  assumes q: "quiet os" and h: "hashes_ok db" and sha: "length (sha256 preview) = 32"
    and pre: "consent_precheck ''aipolicy: RecordConsent'' scope a v = None" and user: "set_option actor \<subseteq> set (ai_users db)"
  shows "\<exists>n' db'. run (RecordConsent sha256 scope actor preview a v k) os n db = run (k (Inr ())) os n' db' \<and>
     hashes_ok db' \<and> consent_now db' scope a v \<and>
     (\<forall>a' v'. (a', v') \<noteq> (a, v) \<longrightarrow> \<not> consent_now db' scope a' v') \<and>
     (\<forall>s a' v'. s \<noteq> scope \<longrightarrow> consent_now db' s a' v' = consent_now db s a' v') \<and>
     db' = db\<lparr>ai_policy_consent := ai_policy_consent db'\<rparr>"
proof -
  let ?at = "consent_at (sc_TenantID scope) (sc_Kind scope) (sc_ID scope)"
  let ?c = "recorded_consent sha256 scope actor preview a v"
  have v: "validateConsentScope scope = Inr ()" and tr: "TrimSpace a \<noteq> []" "TrimSpace v \<noteq> []"
    using pre by (auto simp: consent_precheck_def split: sum.splits if_splits)
  note get = consent_Get_ok [OF h v]
  let ?same = "case find ?at (ai_policy_consent db) of None \<Rightarrow> False | Some c \<Rightarrow> cn_PayloadHash c = sha256 preview \<and>
      cn_AnonymizerVersion c = a \<and> cn_PromptVersion c = v"
  have run: "run (RecordConsent sha256 scope actor preview a v k) os n db =
      (if ?same then run (k (Inr ())) os (Suc n) db
       else run (command (\<lambda>ev db. consent_Upsert ev db ?c)
         (\<lambda>w. case w of Inl e \<Rightarrow> k (Inl (Wrapped ''aipolicy: RecordConsent'' e)) | Inr _ \<Rightarrow> k (Inr ()))) os (Suc n) db)"
    using q get pre by (simp add: RecordConsent_def recorded_consent_def quiet_def Let_def)
  show ?thesis
  proof (cases ?same)
    case True
    then show ?thesis using run h
      by (intro exI [of _ "Suc n"] exI [of _ db]) (auto simp: consent_now_def split: option.splits)
  next
    case False
    let ?c' = "?c\<lparr>cn_AcceptedAt := o_now (os (Suc n))\<rparr>"
    let ?rows = "if \<exists>x \<in> set (ai_policy_consent db). ?at x
        then map (\<lambda>x. if ?at x then ?c' else x) (ai_policy_consent db) else ai_policy_consent db @ [?c']"
    let ?db = "db\<lparr>ai_policy_consent := ?rows\<rparr>"
    have up: "consent_Upsert (os (Suc n)) db ?c = Inr ((), ?db)"
      using v tr user by (auto simp: consent_Upsert_def recorded_consent_def scope_error_def validateConsentScope_def Let_def
          split: if_splits option.splits)
    have "run (RecordConsent sha256 scope actor preview a v k) os n db = run (k (Inr ())) os (Suc (Suc n)) ?db"
      using run False up q by (simp add: quiet_def)
    moreover have "hashes_ok ?db" using h sha by (auto simp: hashes_ok_def recorded_consent_def)
    moreover have "find ?at ?rows = Some ?c'"
      using find_upserted [of ?at "\<lambda>_. ?c'" ?c' "ai_policy_consent db"]
      by (simp add: consent_at_def recorded_consent_def split: option.split)
    then have "consent_now ?db scope a' v' \<longleftrightarrow> a' = a \<and> v' = v" for a' v'
      by (auto simp: consent_now_def recorded_consent_def)
    moreover have "consent_now ?db s a' v' = consent_now db s a' v'" if "s \<noteq> scope" for s a' v'
    proof -
      have "find (consent_at (sc_TenantID s) (sc_Kind s) (sc_ID s)) ?rows
          = find (consent_at (sc_TenantID s) (sc_Kind s) (sc_ID s)) (ai_policy_consent db)"
        using that by (intro find_not_upserted) (auto simp: consent_at_def recorded_consent_def)
      then show ?thesis by (simp add: consent_now_def)
    qed
    ultimately show ?thesis by (intro exI [of _ "Suc (Suc n)"] exI [of _ ?db]) auto
  qed
qed

text \<open>
  Consent is bound to its versions and its scope: after the consent of an operator who is a user is recorded, the gate finds it for exactly
  the anonymizer and prompt versions it was given for, so a new version of either asks again, and no
  other scope's answer changes.
\<close>

theorem consent_is_versioned:
  assumes q: "quiet os" "quiet os'" and h: "hashes_ok db" and sha: "length (sha256 preview) = 32"
    and pre: "consent_precheck ''aipolicy: RecordConsent'' scope a v = None"
    and pre': "consent_precheck ''aipolicy: HasConsent'' s a' v' = None" and user: "set_option actor \<subseteq> set (ai_users db)"
  shows "result_of (RecordConsent sha256 scope actor preview a v Ret) os db = Inr () \<and>
    result_of (HasConsent s a' v' Ret) os' (store_after (RecordConsent sha256 scope actor preview a v Ret) os db) =
      (if s = scope then Inr (a' = a \<and> v' = v) else result_of (HasConsent s a' v' Ret) os' db)"
proof -
  obtain n' db' where run: "run (RecordConsent sha256 scope actor preview a v Ret) os 0 db = (Inr (), n', db')"
    and db': "hashes_ok db'" "consent_now db' scope a v" "\<forall>a' v'. (a', v') \<noteq> (a, v) \<longrightarrow> \<not> consent_now db' scope a' v'"
      "\<forall>s a' v'. s \<noteq> scope \<longrightarrow> consent_now db' s a' v' = consent_now db s a' v'"
    using RecordConsent_effect [where os = os and db = db and ?sha256.0 = sha256 and preview = preview and scope = scope
        and a = a and v = v and actor = actor and k = Ret and n = 0] q(1) h sha pre user by auto
  note has = run_HasConsent [OF q(2) _ pre', where k = Ret and n = 0]
  show ?thesis using run db' has [OF db'(1)] has [OF h] by (auto simp: result_of_def store_after_def)
qed

text \<open>
  C28. The audit trail is complete up to the consent switch: when an existing policy is saved without faults, with a valid scope and by
  an actor who is a row of \<^verbatim>\<open>users\<close>, the trail grows by events that carry that actor and scope, and replaying them on the old row
  gives the new settings.
\<close>

theorem audit_trail_replays:
  assumes q: "quiet os" and a: "actor_IsValid a" "ac_UserID a \<in> set (ai_users db)" and t: "ap_TenantID p \<noteq> uuid_nil"
    and k: "scope_IsValid (ap_ScopeType p)" and s: "TrimSpace (ap_ScopeID p) \<noteq> []"
    and old: "find (at_scope (ap_TenantID p) (ap_ScopeType p) (ap_ScopeID p)) (ai_policy db) = Some old"
  shows "\<exists>new rows. result_of (recording_Upsert (Some a) p) os db = Inr () \<and>
    store_after (recording_Upsert (Some a) p) os db = db\<lparr>ai_policy := new, ai_policy_audit := ai_policy_audit db @ rows\<rparr> \<and>
    find (at_scope (ap_TenantID p) (ap_ScopeType p) (ap_ScopeID p)) new =
      Some (p\<lparr>ap_CreatedAt := ap_CreatedAt old, ap_UpdatedAt := o_now (os 1)\<rparr>) \<and>
    list_all (\<lambda>(_, e). ae_Actor e = a \<and> ae_TenantID e = ap_TenantID p \<and> ae_ScopeType e = ap_ScopeType p \<and>
      ae_ScopeID e = ap_ScopeID p) rows \<and>
    same_settings (replay (map (change_of \<circ> snd) rows) old) p"
proof -
  let ?here = "at_scope (ap_TenantID p) (ap_ScopeType p) (ap_ScopeID p)"
  let ?f = "\<lambda>x. p\<lparr>ap_CreatedAt := ap_CreatedAt x, ap_UpdatedAt := o_now (os 1)\<rparr>"
  let ?y = "p\<lparr>ap_CreatedAt := o_now (os 1), ap_UpdatedAt := o_now (os 1)\<rparr>"
  let ?new = "if \<exists>x \<in> set (ai_policy db). ?here x then map (\<lambda>x. if ?here x then ?f x else x) (ai_policy db) else ai_policy db @ [?y]"
  let ?es = "map (stamp (ap_TenantID p) (ap_ScopeType p) (ap_ScopeID p) a (o_now (os 2))) (DiffPolicies old p True)"
  let ?db = "db\<lparr>ai_policy := ?new\<rparr>"
  have get: "policy_Get db (ap_TenantID p) (ap_ScopeType p) (ap_ScopeID p) = Inr (Some old)"
    using t k s old by (simp add: policy_Get_def scope_error_def)
  have up: "policy_Upsert (os 1) db p = Inr ((), ?db)"
    using t k s by (simp add: policy_Upsert_def scope_error_def Let_def)
  have ok: "scope_error ''aipolicy/postgres: Record'' (ae_TenantID e) (ae_ScopeType e) (ae_ScopeID e) = None \<and>
        TrimSpace (ae_Field e) \<noteq> [] \<and> actor_IsValid (ae_Actor e) \<and> ac_UserID (ae_Actor e) \<in> set (ai_users ?db)" if "e \<in> set ?es" for e
    using that t k s a DiffPolicies_fields [of _ old p True] by (auto simp: stamp_def scope_error_def)
  obtain rows where rows: "map snd rows = ?es"
    "run (record_all ?es Ret) os 3 ?db = run (Ret (Inr ())) os (3 + length ?es) (?db\<lparr>ai_policy_audit := ai_policy_audit ?db @ rows\<rparr>)"
    using run_record_all [OF q ok, where k = Ret and n = 3] by blast
  have "run (recording_Upsert (Some a) p) os 0 db = run (record_all ?es Ret) os 3 ?db"
    using q a t k get up by (simp add: recording_Upsert_def quiet_def numeral_2_eq_2 numeral_3_eq_3)
  then have run: "run (recording_Upsert (Some a) p) os 0 db =
      (Inr (), 3 + length ?es, db\<lparr>ai_policy := ?new, ai_policy_audit := ai_policy_audit db @ rows\<rparr>)"
    using rows(2) by simp
  have "find ?here ?new = Some (?f old)"
    using find_upserted [of ?here ?f ?y "ai_policy db"] old by (simp add: at_scope_def)
  moreover have "list_all (\<lambda>e. ae_Actor e = a \<and> ae_TenantID e = ap_TenantID p \<and> ae_ScopeType e = ap_ScopeType p \<and>
      ae_ScopeID e = ap_ScopeID p) (map snd rows)"
    unfolding rows(1) by (simp add: list_all_iff stamp_def)
  moreover have "map (change_of \<circ> snd) rows = DiffPolicies old p True"
    using arg_cong [OF rows(1), of "map change_of"] by (simp add: comp_def)
  ultimately show ?thesis using run replay_DiffPolicies [of old p]
    by (intro exI [of _ ?new] exI [of _ rows])
      (simp add: result_of_def store_after_def list_all_iff split_beta)
qed

text \<open>The consent switch itself leaves no trace: turning it off is saved without an audit row.\<close>

lemma consent_switch_is_not_audited:
  "DiffPolicies p (p\<lparr>ap_ConsentRequired := b\<rparr>) True = []"
  by (simp add: DiffPolicies_def diffStructuredFields_def)

text \<open>
  The opt-in list that is stored names personal-data fields only: the validation accepts exactly the lists without
  unknown and without blocked names, and returns the sensitive-but-allowed ones of the list, sorted and without repetition.
\<close>

theorem stored_opt_ins_are_yellow:
  "(case ValidateStructuredFields xs of
      Inl _ \<Rightarrow> \<not> list_all (\<lambda>x. allowed_field (TrimSpace x)) xs
    | Inr ys \<Rightarrow> list_all (\<lambda>x. allowed_field (TrimSpace x)) xs \<and> sorted ys \<and> distinct ys \<and>
        set ys = set (map TrimSpace xs) \<inter> set LGPDYellowFieldNames)"
proof (cases "collect_fields xs []")
  case (Inl e)
  then show ?thesis using collect_fields_fails [OF Inl] by (simp add: ValidateStructuredFields_def list_all_iff)
next
  case (Inr ys)
  have "distinct ys" "set ys = set (map TrimSpace xs) \<inter> set LGPDYellowFieldNames" "\<forall>x \<in> set xs. allowed_field (TrimSpace x)"
    using collect_fields_ok [OF Inr] by (simp_all add: Int_def)
  then show ?thesis using Inr by (simp add: ValidateStructuredFields_def list_all_iff)
qed

section \<open>Witnesses\<close>

definition policy_ex :: AIPolicy where
  "policy_ex = DefaultAIPolicy\<lparr>ap_TenantID := 7, ap_ScopeType := ScopeChannel, ap_ScopeID := ''whatsapp'',
     ap_AIEnabled := True, ap_OptIn := True, ap_StructuredFields := [''email'']\<rparr>"

definition policy_db_ex :: policy_db where
  "policy_db_ex = \<lparr>ai_policy = [policy_ex], ai_policy_consent = [], ai_policy_audit = [], ai_users = [9]\<rparr>"

definition policy_env_ex :: "nat \<Rightarrow> call_env" where
  "policy_env_ex n = \<lparr>o_fault = NoFault, o_now = 1000, o_ids = (\<lambda>i. 100 + i)\<rparr>"

lemma quiet_policy_env: "quiet policy_env_ex"
  by (simp add: quiet_def policy_env_ex_def)

lemma letters_not_blank: "TrimSpace ''whatsapp'' \<noteq> []" "TrimSpace ''v1'' \<noteq> []" "TrimSpace ''v2'' \<noteq> []"
  by (rule field_start_not_blank; simp add: field_starts_def)+

theorem consent_is_versioned_witness:
  "result_of (HasConsent \<lparr>sc_TenantID = 7, sc_Kind = ScopeChannel, sc_ID = ''whatsapp''\<rparr> ''v1'' ''v2'' Ret) policy_env_ex
     (store_after (RecordConsent (\<lambda>_. replicate 32 CHR ''h'') \<lparr>sc_TenantID = 7, sc_Kind = ScopeChannel, sc_ID = ''whatsapp''\<rparr>
        (Some 9) ''preview'' ''v1'' ''v1'' Ret) policy_env_ex policy_db_ex) = Inr False"
proof -
  let ?s = "\<lparr>sc_TenantID = 7, sc_Kind = ScopeChannel, sc_ID = ''whatsapp''\<rparr>"
  have "consent_precheck op_name ?s ''v1'' ''v1'' = None" "consent_precheck op_name ?s ''v1'' ''v2'' = None" for op_name
    using letters_not_blank by (simp_all add: consent_precheck_def validateConsentScope_def scope_IsValid_def)
  moreover have "hashes_ok policy_db_ex" by (simp add: hashes_ok_def policy_db_ex_def)
  ultimately show ?thesis
    using consent_is_versioned [OF quiet_policy_env quiet_policy_env, of policy_db_ex "\<lambda>_. replicate 32 CHR ''h''" "''preview''"
      ?s "''v1''" "''v1''" ?s "''v1''" "''v2''" "Some 9"] by (simp add: policy_db_ex_def)
qed

theorem audit_trail_replays_witness:
  "result_of (recording_Upsert (Some \<lparr>ac_UserID = 9, ac_Master = False\<rparr>) (policy_ex\<lparr>ap_AIEnabled := False\<rparr>)) policy_env_ex policy_db_ex
     = Inr ()"
proof -
  let ?p = "policy_ex\<lparr>ap_AIEnabled := False\<rparr>"
  have "ap_TenantID ?p \<noteq> uuid_nil" "scope_IsValid (ap_ScopeType ?p)" "TrimSpace (ap_ScopeID ?p) \<noteq> []"
    and "find (at_scope (ap_TenantID ?p) (ap_ScopeType ?p) (ap_ScopeID ?p)) (ai_policy policy_db_ex) = Some policy_ex"
    using letters_not_blank by (simp_all add: policy_ex_def policy_db_ex_def at_scope_def scope_IsValid_def)
  from audit_trail_replays [OF quiet_policy_env _ _ this, of "\<lparr>ac_UserID = 9, ac_Master = False\<rparr>"]
  show ?thesis by (auto simp: actor_IsValid_def policy_db_ex_def)
qed

text \<open>
  An actor who is not a row of \<^verbatim>\<open>users\<close> changes a policy without a trace: the row is saved before the audit insert fails.
\<close>

lemma unknown_actor_leaves_no_trail:
  "\<exists>e. result_of (recording_Upsert (Some \<lparr>ac_UserID = 8, ac_Master = False\<rparr>) (policy_ex\<lparr>ap_AIEnabled := False\<rparr>)) policy_env_ex policy_db_ex = Inl e"
  "ai_policy (store_after (recording_Upsert (Some \<lparr>ac_UserID = 8, ac_Master = False\<rparr>) (policy_ex\<lparr>ap_AIEnabled := False\<rparr>)) policy_env_ex policy_db_ex)
     \<noteq> ai_policy policy_db_ex"
  "ai_policy_audit (store_after (recording_Upsert (Some \<lparr>ac_UserID = 8, ac_Master = False\<rparr>) (policy_ex\<lparr>ap_AIEnabled := False\<rparr>)) policy_env_ex policy_db_ex) = []"
proof -
  have "case result_of (recording_Upsert (Some \<lparr>ac_UserID = 8, ac_Master = False\<rparr>) (policy_ex\<lparr>ap_AIEnabled := False\<rparr>)) policy_env_ex policy_db_ex of
      Inl _ \<Rightarrow> True | Inr _ \<Rightarrow> False" by code_simp
  then show "\<exists>e. result_of (recording_Upsert (Some \<lparr>ac_UserID = 8, ac_Master = False\<rparr>) (policy_ex\<lparr>ap_AIEnabled := False\<rparr>)) policy_env_ex policy_db_ex = Inl e"
    by (auto split: sum.splits)
qed code_simp+

end
