(* ===== verification/AiAssistProps.thy ===== *)
theory AiAssistProps
  imports AiAssist AiPolicyProps WalletRuns
begin

text \<open>
  What the AI assistance guarantees: it spends tokens and talks to the model only when every gate is open, what it
  sends is what the policy allows, what it charges is what was used within the reservation, and it keeps the
  books of the wallet under every interleaving.
\<close>

section \<open>The wallet's part of the store\<close>

abbreviation aisafe :: "(uuid \<Rightarrow> string) \<Rightarrow> (ai_db \<Rightarrow> 'a \<Rightarrow> bool) \<Rightarrow> ai_db \<Rightarrow> 'a aiprog \<Rightarrow> bool" where
  "aisafe ustr \<equiv> safe (\<lambda>t. store_inv ustr (core t)) (\<lambda>t t'. evolves (core t) (core t')) (\<lambda>t. env_ok ustr (core t))"

interpretation ai_rg: embedded_rg "store_inv ustr" evolves "env_ok ustr" core put_core for ustr
  by unfold_locales

lemma on_wallet_safe:
  "wsafe ustr Q (core t) p \<Longrightarrow> aisafe ustr (\<lambda>t. Q (core t)) t (on_wallet p)"
  unfolding on_wallet_def by (rule core_part.safe_embed)

lemma aisafe_Ret: "aisafe ustr (\<lambda>_ _. True) t (Ret a)"
  by (rule safe_Ret) simp

lemma aisafe_query:
  assumes "\<And>t' r. store_inv ustr (core t') \<Longrightarrow> evolves (core t) (core t') \<Longrightarrow> aisafe ustr Q t' (k r)"
  shows "aisafe ustr Q t (query q k)"
  using assms by (intro safe_queryI) (auto intro: evolves_refl_db)

lemma aisafe_command:
  assumes "\<And>t' r. store_inv ustr (core t') \<Longrightarrow> evolves (core t) (core t') \<Longrightarrow> aisafe ustr Q t' (k r)"
    and frame: "\<And>ev t x t'. c ev t = Inr (x, t') \<Longrightarrow> core t' = core t"
  shows "aisafe ustr Q t (command c k)"
proof (rule safe_commandI)
  fix s' ev x s''
  assume a: "store_inv ustr (core s')" "evolves (core t) (core s')" and c: "c ev s' = Inr (x, s'')"
  have "core s'' = core s'" by (rule frame [OF c])
  then show "store_inv ustr (core s'') \<and> evolves (core s') (core s'') \<and> aisafe ustr Q s'' (k (Inr x)) \<and>
      (\<forall>m. aisafe ustr Q s'' (k (Inl (Opaque m))))"
    using a assms(1) [of s''] by (auto intro: evolves_refl_db)
qed (auto intro: assms(1) evolves_refl_db)

lemma aisafe_read_clock:
  assumes "\<And>t' r. store_inv ustr (core t') \<Longrightarrow> evolves (core t) (core t') \<Longrightarrow> aisafe ustr Q t' (k r)"
  shows "aisafe ustr Q t (read_clock k)"
  using assms by (intro safe_read_clockI) (auto intro: evolves_refl_db)

lemma aisafe_Act:
  assumes "\<And>t' ev. store_inv ustr (core t') \<Longrightarrow> evolves (core t) (core t') \<Longrightarrow>
      core (snd (f ev t')) = core t' \<and> aisafe ustr Q (snd (f ev t')) (fst (f ev t'))"
  shows "aisafe ustr Q t (Act f)"
proof (rule core_part.safe_elsewhere)
  fix t' ev q u
  assume "store_inv ustr (core t')" "evolves (core t) (core t')" "f ev t' = (q, u)"
  then show "core u = core t' \<and> aisafe ustr Q u q" using assms [of t' ev] by simp
qed (rule evolves_refl_db)

section \<open>Every step of the use case is safe\<close>

lemma cascade_level_safe:
  assumes "\<And>t' r. store_inv ustr (core t') \<Longrightarrow> evolves (core t) (core t') \<Longrightarrow> aisafe ustr Q t' (k r)"
    and "\<And>t'. store_inv ustr (core t') \<Longrightarrow> evolves (core t) (core t') \<Longrightarrow> aisafe ustr Q t' below"
    and "store_inv ustr (core t)"
  shows "aisafe ustr Q t (cascade_level msg ten kind src scope k below)"
  using assms(1,2) assms(2) [OF assms(3) evolves_refl_db]
  by (auto simp: cascade_level_def split: option.splits sum.splits intro!: aisafe_query)

lemma Resolve_safe:
  assumes k: "\<And>t' r. store_inv ustr (core t') \<Longrightarrow> evolves (core t) (core t') \<Longrightarrow> aisafe ustr Q t' (k r)"
    and inv: "store_inv ustr (core t)"
  shows "aisafe ustr Q t (Resolve us inp k)"
proof -
  have tenant: "aisafe ustr Q t' (query (\<lambda>db. policy_Get db ten ScopeTenant sid) (\<lambda>r. case r of
               Inl e \<Rightarrow> k (Inl (Wrapped ''aipolicy: resolve tenant'' e))
             | Inr (Some p) \<Rightarrow> k (Inr (p, SourceTenant))
             | Inr None \<Rightarrow> k (Inr (DefaultAIPolicy, SourceDefault))))" if "evolves (core t) (core t')" for t' ten sid
    using k evolves_trans_db [OF that] by (intro aisafe_query) (auto split: sum.splits option.splits)
  show ?thesis
    unfolding Resolve_def Let_def
    using k [OF inv evolves_refl_db] inv
    by (auto intro!: cascade_level_safe k tenant intro: evolves_trans_db)
qed

lemma HasConsent_safe:
  assumes "\<And>t' r. store_inv ustr (core t') \<Longrightarrow> evolves (core t) (core t') \<Longrightarrow> aisafe ustr Q t' (k r)"
    and "store_inv ustr (core t)"
  shows "aisafe ustr Q t (HasConsent scope a v k)"
  using assms(1) assms(1) [OF assms(2) evolves_refl_db]
  by (auto simp: HasConsent_def split: option.splits sum.splits intro!: aisafe_query)

lemma checkConsent_safe:
  assumes "\<And>t' r. store_inv ustr (core t') \<Longrightarrow> evolves (core t) (core t') \<Longrightarrow> aisafe ustr Q t' (k r)"
    and "store_inv ustr (core t)"
  shows "aisafe ustr Q t (checkConsent svc req policy k)"
  using assms(1) assms(1) [OF assms(2) evolves_refl_db] assms(2)
  by (auto simp: checkConsent_def Let_def split: option.splits sum.splits intro!: HasConsent_safe)

lemma checkRateLimit_safe:
  assumes "\<And>t' r. store_inv ustr (core t') \<Longrightarrow> evolves (core t) (core t') \<Longrightarrow> aisafe ustr Q t' (k r)"
    and "store_inv ustr (core t)"
  shows "aisafe ustr Q t (checkRateLimit svc req k)"
  using assms(1) assms(1) [OF assms(2) evolves_refl_db]
  by (auto simp: checkRateLimit_def Let_def split: option.splits sum.splits intro!: aisafe_command)

lemma llm_Complete_safe:
  assumes "\<And>t' r. store_inv ustr (core t') \<Longrightarrow> evolves (core t) (core t') \<Longrightarrow> aisafe ustr Q t' (k r)"
  shows "aisafe ustr Q t (llm_Complete svc q k)"
  unfolding llm_Complete_def using assms by (intro aisafe_Act) simp

lemma reserveAndCall_safe:
  assumes u: "uuid_text ustr uparse" and svc: "as_ustr svc = ustr" "as_uparse svc = uparse"
    and k: "\<And>t' rv resp. store_inv ustr (core t') \<Longrightarrow> authentic ustr (core t') rv \<Longrightarrow>
        aisafe ustr (\<lambda>_ _. True) t' (k (Inr (rv, resp)))"
    and err: "\<And>t' e. store_inv ustr (core t') \<Longrightarrow> aisafe ustr (\<lambda>_ _. True) t' (k (Inl e))"
    and inv: "store_inv ustr (core t)"
  shows "aisafe ustr (\<lambda>_ _. True) t (reserveAndCall svc req policy prompt k)"
  unfolding reserveAndCall_def Let_def svc
proof (rule ai_rg.whole.safe_bind [OF on_wallet_safe [OF Service_Reserve_safe]], goal_cases)
  case (3 t1 r)
  note inv1 = 3(1)
  show ?case
  proof (cases r)
    case (Inl e)
    then show ?thesis using err [OF inv1] by simp
  next
    case (Inr rv)
    with 3 have auth: "authentic ustr (core t1) rv" by (simp add: reserved_ok_def)
    have rel: "aisafe ustr (\<lambda>_ _. True) t2 (on_wallet (Service_Release ustr (Some rv) key))"
      if "store_inv ustr (core t2)" "authentic ustr (core t2) rv" for t2 key
      using that by (intro on_wallet_safe Service_settle_safe(2) [OF u]) auto
    have "aisafe ustr (\<lambda>_ _. True) t2 (case resp of
            Some llmResp \<Rightarrow> k (Inr (rv, llmResp))
          | None \<Rightarrow> bind_prog (on_wallet (Service_Release ustr (Some rv) key))
                (\<lambda>rel. case rel of
                   Inl _ \<Rightarrow> k (Inl (Wrapped ''aiassist/usecase: llm failed and release failed'' (Opaque ''llm'')))
                 | Inr _ \<Rightarrow> k (Inl (Wrapped ''llm'' (Sentinel ai_ErrLLMUnavailable)))))"
      if "store_inv ustr (core t2)" "evolves (core t1) (core t2)" for t2 resp key
    proof (cases resp)
      case None
      have "authentic ustr (core t2) rv" by (rule authentic_evolves [OF auth that(2)])
      then show ?thesis unfolding None using that(1) err
        by (auto intro!: ai_rg.whole.safe_bind [OF rel] split: sum.split)
    next
      case (Some x)
      then show ?thesis using k [OF that(1) authentic_evolves [OF auth that(2)]] by simp
    qed
    then show ?thesis unfolding Inr using inv1 by (auto intro!: llm_Complete_safe)
  qed
qed (use u svc inv in simp_all)

lemma commitAndPersist_safe:
  assumes u: "uuid_text ustr uparse" and svc: "as_ustr svc = ustr"
    and k: "\<And>t' r. store_inv ustr (core t') \<Longrightarrow> aisafe ustr (\<lambda>_ _. True) t' (k r)"
    and inv: "store_inv ustr (core t)" and auth: "authentic ustr (core t) rv"
  shows "aisafe ustr (\<lambda>_ _. True) t (commitAndPersist svc req policy rv resp now k)"
  unfolding commitAndPersist_def svc
proof (rule ai_rg.whole.safe_bind [OF on_wallet_safe [OF Service_settle_safe(1)]], goal_cases)
  case (4 t1 c)
  have "core t' = core t" if "summary_Save t sm = Inr (x, t')" for t sm x t'
    using that by (auto simp: summary_Save_def Let_def split: if_splits)
  then show ?case using k 4(1)
    by (cases c) (auto intro!: aisafe_Act aisafe_command split: sum.split)
qed (use u svc inv auth in simp_all)

lemma generate_safe:
  assumes u: "uuid_text ustr uparse" and svc: "as_ustr svc = ustr" "as_uparse svc = uparse"
    and inv: "store_inv ustr (core t)"
  shows "aisafe ustr (\<lambda>_ _. True) t (generate svc req policy now)"
  unfolding generate_def using inv
  by (auto split: sum.split intro!: aisafe_Ret reserveAndCall_safe [OF u svc] commitAndPersist_safe [OF u svc(1)])

lemma Summarize_safe:
  assumes u: "uuid_text ustr uparse" and svc: "as_ustr svc = ustr" "as_uparse svc = uparse"
    and inv: "store_inv ustr (core t)"
  shows "aisafe ustr (\<lambda>_ _. True) t (Summarize svc req)"
  unfolding Summarize_def PolicyResolver_Resolve_def using inv generate_safe [OF u svc]
  by (auto split: sum.split prod.split intro!: aisafe_Ret Resolve_safe checkConsent_safe checkRateLimit_safe
      aisafe_read_clock aisafe_query)

section \<open>All calls together\<close>

lemma policy_statements_frame:
  "policy_Upsert ev t p = Inr (x, t') \<Longrightarrow> core t' = core t"
  "policy_Delete t ten kind sid = Inr (b, t') \<Longrightarrow> core t' = core t"
  "consent_Upsert ev t c = Inr (x, t') \<Longrightarrow> core t' = core t"
  "audit_Record ev t e = Inr (x, t') \<Longrightarrow> core t' = core t"
  "InvalidateForConversation t ten cid now = Inr (x, t') \<Longrightarrow> core t' = core t"
  by (auto simp: policy_Upsert_def policy_Delete_def consent_Upsert_def audit_Record_def InvalidateForConversation_def Let_def
      split: option.splits if_splits)

lemma record_all_safe:
  "(\<And>t' r. aisafe ustr (\<lambda>_ _. True) t' (k r)) \<Longrightarrow> aisafe ustr (\<lambda>_ _. True) t (record_all es k)"
  by (induction es arbitrary: t) (auto intro!: aisafe_command dest: policy_statements_frame(4) split: sum.split)

lemma recording_safe:
  "aisafe ustr (\<lambda>_ _. True) t (recording_Upsert actor p)"
  "aisafe ustr (\<lambda>_ _. True) t (recording_Delete actor ten kind sid)"
  unfolding recording_Upsert_def recording_Delete_def
  by (auto split: option.split sum.split intro!: aisafe_Ret aisafe_query aisafe_command aisafe_read_clock record_all_safe)
    (erule policy_statements_frame)+

lemma RecordConsent_safe: "aisafe ustr (\<lambda>_ _. True) t (RecordConsent sha256 scope actor preview a v Ret)"
  unfolding RecordConsent_def Let_def
  by (auto split: option.split sum.split intro!: aisafe_Ret aisafe_query aisafe_command dest: policy_statements_frame)

lemma ai_Invalidate_safe: "aisafe ustr (\<lambda>_ _. True) t (ai_Invalidate ten cid)"
  unfolding ai_Invalidate_def by (auto intro!: aisafe_Ret aisafe_command dest: policy_statements_frame)

definition ai_start :: "'a aiprog \<Rightarrow> unit aiprog" where
  "ai_start p = bind_prog p (\<lambda>_. Ret ())"

lemma ai_start_safe:
  assumes "aisafe ustr Q t p" "store_inv ustr (core t)"
  shows "aisafe ustr (\<lambda>_ _. True) t (ai_start p)"
  unfolding ai_start_def using assms by (auto intro!: ai_rg.whole.safe_bind aisafe_Ret)

text \<open>
  What the clients of the process may start: summaries of any service, invalidations, changes of policies and consents, and
  all the calls of the token economy.
\<close>

inductive ai_call :: "(uuid \<Rightarrow> string) \<Rightarrow> (string \<Rightarrow> uuid option) \<Rightarrow> ai_db \<Rightarrow> unit aiprog \<Rightarrow> bool"
  for ustr uparse db where
  call_summarize: "as_ustr svc = ustr \<Longrightarrow> as_uparse svc = uparse \<Longrightarrow> ai_call ustr uparse db (ai_start (Summarize svc req))"
| call_invalidate: "ai_call ustr uparse db (ai_start (ai_Invalidate ten cid))"
| call_upsert: "ai_call ustr uparse db (ai_start (recording_Upsert actor p))"
| call_delete: "ai_call ustr uparse db (ai_start (recording_Delete actor ten kind sid))"
| call_consent: "ai_call ustr uparse db (ai_start (RecordConsent sha scope user preview a v Ret))"
| call_economy: "economy_call ustr uparse (core db) p \<Longrightarrow> ai_call ustr uparse db (on_wallet p)"

abbreviation ai_reach :: "(uuid \<Rightarrow> string) \<Rightarrow> (string \<Rightarrow> uuid option) \<Rightarrow> ai_db \<Rightarrow> ai_db \<Rightarrow> bool" where
  "ai_reach ustr uparse db0 db \<equiv>
     (\<exists>pool. pool_reach (\<lambda>t. env_ok ustr (core t)) (ai_call ustr uparse) db0 (db, pool))"

lemma ai_call_safe:
  assumes u: "uuid_text ustr uparse" and inv: "store_inv ustr (core db)" and call: "ai_call ustr uparse db p"
  shows "aisafe ustr (\<lambda>_ _. True) db p"
  using call
proof cases
  case (call_economy p)
  then show ?thesis using on_wallet_safe [OF economy_call_safe [OF u inv]] by simp
next
  case (call_summarize svc req)
  show ?thesis unfolding call_summarize(1) by (rule ai_start_safe [OF Summarize_safe [OF u call_summarize(2,3) inv] inv])
qed (auto intro: ai_start_safe [OF ai_Invalidate_safe inv]
    ai_start_safe [OF recording_safe(1) inv] ai_start_safe [OF recording_safe(2) inv] ai_start_safe [OF RecordConsent_safe inv])

lemma ai_reach_inv:
  assumes "uuid_text ustr uparse" "store_inv ustr (core db0)" "ai_reach ustr uparse db0 db"
  shows "store_inv ustr (core db)" "evolves (core db0) (core db)"
proof -
  obtain pool where r: "pool_reach (\<lambda>t. env_ok ustr (core t)) (ai_call ustr uparse) db0 (db, pool)"
    using assms(3) by blast
  show "store_inv ustr (core db)" "evolves (core db0) (core db)"
    using ai_rg.whole.pool_reach_safe [OF r assms(2) ai_call_safe [OF assms(1)]] by auto
qed

section \<open>The gates, whatever fails\<close>





definition consent_given :: "ai_service \<Rightarrow> SummarizeRequest \<Rightarrow> ai_Policy \<Rightarrow> ai_db \<Rightarrow> bool" where
  "consent_given svc req p db \<longleftrightarrow>
     (al_ConsentRequired p \<and> as_consent svc \<and> as_anonymizer svc \<noteq> None \<and> as_anonymizerVersion svc \<noteq> '''' \<and>
      al_PromptVersion p \<noteq> '''' \<longrightarrow>
      consent_now db (consentScopeFor (as_ustr svc) (sr_TenantID req) (sr_Scope req)) (as_anonymizerVersion svc) (al_PromptVersion p))"




section \<open>What is sent\<close>

lemma some_text_eq: "some_text = scope_option"
  by (simp add: fun_eq_iff some_text_def scope_option_def)

lemma run_on_wallet: "run (on_wallet p) os n db = (case run p os n (core db) of (a, n', s) \<Rightarrow> (a, n', put_core s db))"
  by (simp add: on_wallet_def core_part.run_embed)

definition llm_request :: "ai_service \<Rightarrow> SummarizeRequest \<Rightarrow> ai_Policy \<Rightarrow> string \<Rightarrow> LLMRequest" where
  "llm_request svc req p prompt =
     \<lparr>lq_Prompt = prompt, lq_Model = al_Model p, lq_MaxTokens = al_MaxOutputTokens p,
      lq_IdempotencyKey = idempotencyKey (as_ustr svc) req ''''\<rparr>"





text \<open>A run of \<^verbatim>\<open>Summarize\<close> either ends before anything is generated, or all gates were open.\<close>

definition sz_lookup :: "ai_service \<Rightarrow> SummarizeRequest \<Rightarrow> ai_Policy \<Rightarrow> time \<Rightarrow> (Summary \<times> bool) airesult aiprog" where
  "sz_lookup svc req policy now =
     (if sr_Force req then generate svc req policy now
      else query (\<lambda>db. GetLatestValid db (sr_TenantID req) (sr_ConversationID req) now) (\<lambda>cached. case cached of
        Inl e \<Rightarrow> if \<not> errors_is e ai_ErrCacheMiss then Ret (Inl (Wrapped ''aiassist/usecase: cache lookup'' e)) else generate svc req policy now
      | Inr s \<Rightarrow> if IsValid s now then Ret (Inr (s, True)) else generate svc req policy now))"

definition sz_limited :: "ai_service \<Rightarrow> SummarizeRequest \<Rightarrow> ai_Policy \<Rightarrow> unit airesult \<Rightarrow> (Summary \<times> bool) airesult aiprog" where
  "sz_limited svc req policy l = (case l of Inl e \<Rightarrow> Ret (Inl e) | Inr _ \<Rightarrow> read_clock (sz_lookup svc req policy))"

definition sz_consented :: "ai_service \<Rightarrow> SummarizeRequest \<Rightarrow> ai_Policy \<Rightarrow> unit airesult \<Rightarrow> (Summary \<times> bool) airesult aiprog" where
  "sz_consented svc req policy c = (case c of Inl e \<Rightarrow> Ret (Inl e) | Inr _ \<Rightarrow> checkRateLimit svc req (sz_limited svc req policy))"

definition sz_resolved :: "ai_service \<Rightarrow> SummarizeRequest \<Rightarrow> (AIPolicy \<times> ResolveSource) apresult \<Rightarrow> (Summary \<times> bool) airesult aiprog" where
  "sz_resolved svc req r =
     (case r of Inl e \<Rightarrow> Ret (Inl (Wrapped ''aiassist/usecase: resolve policy'' (map_goerr ai_of_policy e)))
      | Inr (row, _) \<Rightarrow>
          let policy = policy_of_row row in
          if \<not> al_AIEnabled policy \<or> \<not> al_OptIn policy then Ret (ErrPolicyBlocked policy)
          else checkConsent svc req policy (sz_consented svc req policy))"

lemma Summarize_eq:
  "Summarize svc req = (case ai_validate req of Inl e \<Rightarrow> Ret (Inl e) | Inr _ \<Rightarrow>
     Resolve (as_ustr svc) \<lparr>ri_TenantID = sr_TenantID req, ri_ChannelID = scope_option (sp_ChannelID (sr_Scope req)),
        ri_TeamID = scope_option (sp_TeamID (sr_Scope req))\<rparr> (sz_resolved svc req))"
  unfolding Summarize_def PolicyResolver_Resolve_def some_text_eq sz_resolved_def sz_consented_def sz_limited_def sz_lookup_def
  by (simp add: Let_def cong: sum.case_cong)



section \<open>Properties\<close>


text \<open>
  C19. The assistance keeps the books: in every interleaving of summaries, of changes of policies and consents, and of all calls of the token
  economy, the balance of every wallet is the sum of its ledger, its reserved amount the sum of its open reservations,
  and no reservation is settled twice.
\<close>

theorem ai_books_balance:
  assumes "uuid_text ustr uparse" "store_inv ustr (core db0)" "ai_reach ustr uparse db0 db"
    and "w \<in> set (token_wallet (core db))"
  shows "tw_balance w = credited (wrows (core db) (tw_id w)) \<and> tw_reserved w = open_total (wrows (core db) (tw_id w)) \<and>
    0 \<le> tw_reserved w \<and> tw_reserved w \<le> tw_balance w \<and>
    distinct (map tl_external_ref (filter is_settlement (wrows (core db) (tw_id w)))) \<and>
    acct_step\<^sup>*\<^sup>* (account_of (wrows (core db0) (tw_id w))) (account_of (wrows (core db) (tw_id w)))"
  using loaded(1,3) [OF ai_reach_inv(1) [OF assms(1-3)] assms(4)] ai_reach_inv(2) [OF assms(1-3)]
  by (simp add: books_def wallet_ok_def ledger_ok_def evolves_def)

section \<open>What a summary costs\<close>

text \<open>An environment that draws every identifier once.\<close>

definition fresh_env :: "(uuid \<Rightarrow> string) \<Rightarrow> ai_db \<Rightarrow> (nat \<Rightarrow> call_env) \<Rightarrow> bool" where
  "fresh_env ustr db os \<longleftrightarrow>
     (\<forall>n. env_ok ustr (core db) (os n)) \<and> int (length (token_ledger (core db))) + 2 < max_i64 \<and>
     (\<forall>m n i j. m \<noteq> n \<longrightarrow> o_ids (os m) i \<noteq> o_ids (os n) j) \<and>
     (\<forall>n i. \<forall>s \<in> set (ai_summary db). sm_ID s \<noteq> o_ids (os n) i)"

lemma ustr_inj: "uuid_text ustr uparse \<Longrightarrow> ustr a = ustr b \<longleftrightarrow> a = b"
  by (metis uuid_text_def option.inject)

lemma env_ok_post:
  assumes "env_ok ustr db ev" "int (length (token_ledger db)) + 1 < max_i64"
    and "\<And>i. tl_id r \<noteq> o_ids ev i \<and> tl_external_ref r \<noteq> Some (ustr (o_ids ev i)) \<and> tl_wallet_id r \<noteq> o_ids ev i"
  shows "env_ok ustr (post db r w) ev"
  using assms by (auto simp: env_ok_def)

lemma funded_wallet_has_rows:
  assumes "store_inv ustr db" "w \<in> set (token_wallet db)" "0 < Available w"
  shows "\<exists>r \<in> set (token_ledger db). tl_wallet_id r = tw_id w"
proof (rule ccontr)
  assume "\<not> ?thesis"
  then have "wrows db (tw_id w) = []" by (auto simp: wrows_def)
  with loaded(1,2) [OF assms(1,2)] have "tw_balance w = 0" "wallet_ok w" by (simp_all add: books_def credited_def)
  then show False using assms(3) by (auto simp: Available_eq wallet_ok_def)
qed

lemma EstimateTokens_pos: "1 \<le> EstimateTokens t model"
  by (simp add: EstimateTokens_def)

lemma charged_tokens_bounds:
  "0 < rv_Amount rv \<Longrightarrow> 0 < charged_tokens resp rv \<and> charged_tokens resp rv \<le> rv_Amount rv"
  by (auto simp: charged_tokens_def Let_def)

text \<open>
  What a generation needs: a prompt that may be sent, the tenant's wallet with enough available tokens for the estimate, and keys
  the ledger does not have yet.
\<close>

definition can_generate :: "ai_service \<Rightarrow> SummarizeRequest \<Rightarrow> ai_Policy \<Rightarrow> ai_db \<Rightarrow> TokenWallet \<Rightarrow> string \<Rightarrow> bool" where
  "can_generate svc req p db w prompt \<longleftrightarrow>
     buildDispatchPrompt svc req p = Inr prompt \<and> w \<in> set (token_wallet (core db)) \<and> tw_tenantID w = sr_TenantID req \<and>
     0 < EstimateReservation prompt (al_Model p) (al_MaxOutputTokens p) \<and>
     EstimateReservation prompt (al_Model p) (al_MaxOutputTokens p) \<le> Available w \<and>
     length (idempotencyKey (as_ustr svc) req '':reserve'') \<le> 128 \<and>
     list_all (\<lambda>sfx. \<not> idem_taken (core db) (tw_id w) (idempotencyKey (as_ustr svc) req sfx)) ['':reserve'', '':commit'', '':release'']"

lemma idempotencyKey_facts:
  "idempotencyKey ustr req sfx \<noteq> []"
  "idempotencyKey ustr req a = idempotencyKey ustr req b \<longleftrightarrow> a = b"
  "length (idempotencyKey ustr req '':commit'') \<le> length (idempotencyKey ustr req '':reserve'')"
  "length (idempotencyKey ustr req '':release'') = length (idempotencyKey ustr req '':reserve'')"
  by (simp_all add: idempotencyKey_def)

lemma reserve_for_generation:
  assumes u: "uuid_text (as_ustr svc) (as_uparse svc)" and inv: "store_inv (as_ustr svc) (core db)" and q: "quiet os"
    and fresh: "fresh_env (as_ustr svc) db os" and can: "can_generate svc req p db w prompt"
  obtains rv r w1 where
    "run (reserveAndCall svc req p prompt k) os n db =
       (case as_complete svc (os (n + 4)) (llm_request svc req p prompt) of
          Some resp \<Rightarrow> run (k (Inr (rv, resp))) os (n + 5) (db\<lparr>core := post (core db) r w1, llm_log := llm_log db @ [llm_request svc req p prompt]\<rparr>)
        | None \<Rightarrow> run (bind_prog (on_wallet (Service_Release (as_ustr svc) (Some rv) (idempotencyKey (as_ustr svc) req '':release'')))
                (\<lambda>rel. case rel of
                   Inl _ \<Rightarrow> k (Inl (Wrapped ''aiassist/usecase: llm failed and release failed'' (Opaque ''llm'')))
                 | Inr _ \<Rightarrow> k (Inl (Wrapped ''llm'' (Sentinel ai_ErrLLMUnavailable))))) os (n + 5)
              (db\<lparr>core := post (core db) r w1, llm_log := llm_log db @ [llm_request svc req p prompt]\<rparr>))"
    "store_inv (as_ustr svc) (post (core db) r w1)" "w1 \<in> set (token_wallet (post (core db) r w1))"
    "tw_id w1 = tw_id w" "tw_tenantID w1 = tw_tenantID w" "tw_balance w1 = tw_balance w"
    "tw_reserved w1 = tw_reserved w + EstimateReservation prompt (al_Model p) (al_MaxOutputTokens p)"
    "r \<in> set (open_rows (wrows (post (core db) r w1) (tw_id w1)))" "reserve_row (as_ustr svc) rv r"
    "rv_WalletID rv = tw_id w1" "rv_TenantID rv = tw_tenantID w1"
    "rv_Amount rv = EstimateReservation prompt (al_Model p) (al_MaxOutputTokens p)"
    "tl_idempotency_key r = idempotencyKey (as_ustr svc) req '':reserve''"
    "\<And>m. m \<noteq> n + 3 \<Longrightarrow> env_ok (as_ustr svc) (post (core db) r w1) (os m)"
    "\<And>sfx. sfx \<in> set ['':commit'', '':release''] \<Longrightarrow>
       \<not> idem_taken (post (core db) r w1) (tw_id w1) (idempotencyKey (as_ustr svc) req sfx)"
proof -
  let ?ustr = "as_ustr svc" and ?est = "EstimateReservation prompt (al_Model p) (al_MaxOutputTokens p)"
  let ?key = "idempotencyKey (as_ustr svc) req '':reserve''"
  have w: "w \<in> set (token_wallet (core db))" "tw_tenantID w = sr_TenantID req" and est: "0 < ?est" "?est \<le> Available w"
    and key: "?key \<noteq> []" "length ?key \<le> 128" "\<not> idem_taken (core db) (tw_id w) ?key"
    and keys: "\<And>sfx. sfx \<in> set ['':commit'', '':release''] \<Longrightarrow> \<not> idem_taken (core db) (tw_id w) (idempotencyKey ?ustr req sfx)"
    using can by (auto simp: can_generate_def idempotencyKey_facts)
  have env: "env_ok ?ustr (core db) (os m)" for m using fresh by (simp add: fresh_env_def)
  obtain rv r w1 where res:
    "run (Service_Reserve ?ustr (as_uparse svc) (tw_tenantID w) ?est ?key) os n (core db) = (Inr rv, n + 4, post (core db) r w1)"
    "store_inv ?ustr (post (core db) r w1)" "w1 \<in> set (token_wallet (post (core db) r w1))"
    "tw_id w1 = tw_id w" "tw_tenantID w1 = tw_tenantID w"
    "tw_reserved w1 = tw_reserved w + ?est" "tw_balance w1 = tw_balance w"
    "r \<in> set (open_rows (wrows (post (core db) r w1) (tw_id w)))" "reserve_row ?ustr rv r"
    "rv_WalletID rv = tw_id w" "rv_TenantID rv = tw_tenantID w" "rv_Amount rv = ?est"
    "tl_id r = o_ids (os (n + 3)) 1" "tl_external_ref r = Some (?ustr (o_ids (os (n + 3)) 0))"
    "tl_idempotency_key r = ?key" "tl_wallet_id r = tw_id w"
    by (rule run_reserve_fresh [OF u inv q env w(1) est key])
  have run: "run (reserveAndCall svc req p prompt k) os n db =
       (case as_complete svc (os (n + 4)) (llm_request svc req p prompt) of
          Some resp \<Rightarrow> run (k (Inr (rv, resp))) os (n + 5) (db\<lparr>core := post (core db) r w1, llm_log := llm_log db @ [llm_request svc req p prompt]\<rparr>)
        | None \<Rightarrow> run (bind_prog (on_wallet (Service_Release (as_ustr svc) (Some rv) (idempotencyKey (as_ustr svc) req '':release'')))
                (\<lambda>rel. case rel of
                   Inl _ \<Rightarrow> k (Inl (Wrapped ''aiassist/usecase: llm failed and release failed'' (Opaque ''llm'')))
                 | Inr _ \<Rightarrow> k (Inl (Wrapped ''llm'' (Sentinel ai_ErrLLMUnavailable))))) os (n + 5)
              (db\<lparr>core := post (core db) r w1, llm_log := llm_log db @ [llm_request svc req p prompt]\<rparr>))"
    using res(1) w(2) by (simp add: reserveAndCall_def Let_def run_on_wallet llm_Complete_def llm_request_def eval_nat_numeral
        split: option.split)
  obtain x where x: "x \<in> set (token_ledger (core db))" "tl_wallet_id x = tw_id w"
    using funded_wallet_has_rows [OF inv w(1)] est by auto
  have envs: "env_ok ?ustr (post (core db) r w1) (os m)" if "m \<noteq> n + 3" for m
  proof (rule env_ok_post [OF env])
    show "int (length (token_ledger (core db))) + 1 < max_i64" using fresh by (simp add: fresh_env_def)
    fix i
    have "o_ids (os (n + 3)) j \<noteq> o_ids (os m) i" for j using fresh that by (simp add: fresh_env_def)
    moreover have "tw_id w \<noteq> o_ids (os m) i" using env [of m] x by (auto simp: env_ok_def)
    ultimately show "tl_id r \<noteq> o_ids (os m) i \<and> tl_external_ref r \<noteq> Some (?ustr (o_ids (os m) i)) \<and> tl_wallet_id r \<noteq> o_ids (os m) i"
      using res(13,14,16) ustr_inj [OF u] by simp
  qed
  have keys': "\<not> idem_taken (post (core db) r w1) (tw_id w1) (idempotencyKey ?ustr req sfx)" if "sfx \<in> set ['':commit'', '':release'']" for sfx
    using keys [OF that] res(4,15) that by (auto simp: idem_taken_def idempotencyKey_facts)
  show ?thesis by (rule that [OF run]) (use res(2-12,15) envs keys' in simp_all)
qed

text \<open>Settling an open reservation, from any step on.\<close>

lemma run_commit_open:
  assumes u: "uuid_text ustr uparse" and inv: "store_inv ustr db" and q: "quiet os"
    and env: "env_ok ustr db (os (n + 4))" and w: "w \<in> set (token_wallet db)"
    and rv: "r \<in> set (open_rows (wrows db (tw_id w)))" "reserve_row ustr rv r"
      "rv_WalletID rv = tw_id w" "rv_TenantID rv = tw_tenantID w"
    and amt: "0 < c" "c \<le> rv_Amount rv"
    and key: "key \<noteq> []" "length key \<le> 128" "\<not> idem_taken db (tw_id w) key"
  obtains evs s w' where
    "run (Service_Commit ustr scope (Some rv) c key) os n db = (Inr evs, n + 5, post db s w')"
    "store_inv ustr (post db s w')" "find_wallet (post db s w') (tw_tenantID w) = Some w'"
    "tw_balance w' = tw_balance w - c" "tw_reserved w' = tw_reserved w - rv_Amount rv"
proof -
  let ?now = "o_now (os (n + 3))"
  let ?w1 = "w\<lparr>tw_balance := tw_balance w - c, tw_reserved := tw_reserved w - rv_Amount rv,
     tw_version := wrap64 (tw_version w + 1), tw_updatedAt := ?now\<rparr>"
  let ?mutate = "\<lambda>w now. wallet_Commit w c (rv_Amount rv) now" and ?publish = "\<lambda>w now. maybePublishDepleted scope w c now"
  note ok = loaded [OF inv w]
  have "rv_Amount rv \<le> tw_reserved w"
    using open_row_le_total [OF ok(3) rv(1)] ok(1) rv(2) by (simp add: books_def reserve_row_def)
  then have m: "?mutate w ?now = Inr ?w1" using amt by (simp add: wallet_Commit_ok [OF ok(2)])
  obtain s w' where "run (settle_attempt ustr KindCommit rv c key ?mutate ?publish) os n db =
       (Done (Inr (?publish ?w1 ?now)), n + 5, post db s w')" "store_inv ustr (post db s w')"
    and w': "find_wallet (post db s w') (tw_tenantID w) = Some w'" "tw_balance w' = tw_balance ?w1" "tw_reserved w' = tw_reserved ?w1"
    by (rule run_settle_open [where n = n and mutate = ?mutate and publish = ?publish, OF u inv q env w rv m settle_effects(1) [OF ok(2) m] _ key(3)]) simp_all
  then have "run (Service_Commit ustr scope (Some rv) c key) os n db = (Inr (?publish ?w1 ?now), n + 5, post db s w')"
    using amt key by (simp add: Service_Commit_def valid_key run_retry_Done del: retry_loop.simps)
  then show ?thesis using w' that \<open>store_inv ustr (post db s w')\<close> by simp
qed

lemma run_release_open:
  assumes u: "uuid_text ustr uparse" and inv: "store_inv ustr db" and q: "quiet os"
    and env: "env_ok ustr db (os (n + 4))" and w: "w \<in> set (token_wallet db)"
    and rv: "r \<in> set (open_rows (wrows db (tw_id w)))" "reserve_row ustr rv r"
      "rv_WalletID rv = tw_id w" "rv_TenantID rv = tw_tenantID w"
    and key: "key \<noteq> []" "length key \<le> 128" "\<not> idem_taken db (tw_id w) key"
  obtains s w' where
    "run (Service_Release ustr (Some rv) key) os n db = (Inr [], n + 5, post db s w')"
    "store_inv ustr (post db s w')" "find_wallet (post db s w') (tw_tenantID w) = Some w'"
    "w' \<in> set (token_wallet (post db s w'))" "tw_id w' = tw_id w" "tw_tenantID w' = tw_tenantID w"
    "tw_balance w' = tw_balance w" "tw_reserved w' = tw_reserved w - rv_Amount rv"
    "tl_wallet_id s = tw_id w" "tl_kind s = KindRelease" "tl_external_ref s = Some (ustr (rv_ID rv))"
    "tl_idempotency_key s = key"
proof -
  let ?now = "o_now (os (n + 3))"
  let ?w1 = "w\<lparr>tw_reserved := tw_reserved w - rv_Amount rv, tw_version := wrap64 (tw_version w + 1), tw_updatedAt := ?now\<rparr>"
  let ?mutate = "\<lambda>w now. wallet_Release w (rv_Amount rv) now" and ?publish = "\<lambda>(w :: TokenWallet) (now :: time). [] :: BalanceDepletedEvent list"
  note ok = loaded [OF inv w]
  have "rv_Amount rv \<le> tw_reserved w" "0 < rv_Amount rv"
    using open_row_le_total [OF ok(3) rv(1)] ok(1,3) rv(1,2) by (auto simp: books_def reserve_row_def open_rows_def ledger_ok_def)
  then have m: "?mutate w ?now = Inr ?w1" by (simp add: wallet_Release_ok [OF ok(2)])
  obtain s w' where "run (settle_attempt ustr KindRelease rv (rv_Amount rv) key ?mutate ?publish) os n db =
       (Done (Inr (?publish ?w1 ?now)), n + 5, post db s w')" "store_inv ustr (post db s w')"
    and w': "w' \<in> set (token_wallet (post db s w'))" "find_wallet (post db s w') (tw_tenantID w) = Some w'"
      "tw_id w' = tw_id w" "tw_tenantID w' = tw_tenantID w" "tw_balance w' = tw_balance ?w1" "tw_reserved w' = tw_reserved ?w1"
      "tl_wallet_id s = tw_id w" "tl_kind s = KindRelease" "tl_external_ref s = Some (ustr (rv_ID rv))" "tl_idempotency_key s = key"
    by (rule run_settle_open [where n = n and mutate = ?mutate and publish = ?publish, OF u inv q env w rv m settle_effects(2) [OF ok(2) m] _ key(3)]) simp_all
  then have "run (Service_Release ustr (Some rv) key) os n db = (Inr [], n + 5, post db s w')"
    using key by (simp add: Service_Release_def valid_key run_retry_Done del: retry_loop.simps)
  then show ?thesis using w' that \<open>store_inv ustr (post db s w')\<close> by simp
qed

text \<open>The gates of \<^verbatim>\<open>Summarize\<close>, all open.\<close>

definition gates_open :: "ai_service \<Rightarrow> SummarizeRequest \<Rightarrow> ai_Policy \<Rightarrow> ai_db \<Rightarrow> bool" where
  "gates_open svc req p db \<longleftrightarrow>
     ai_validate req = Inr () \<and> TrimSpace (as_ustr svc (sr_TenantID req)) \<noteq> '''' \<and>
     list_all (\<lambda>s. s = '''' \<or> TrimSpace s \<noteq> '''') [sp_ChannelID (sr_Scope req), sp_TeamID (sr_Scope req)] \<and>
     al_AIEnabled p \<and> al_OptIn p \<and>
     (al_ConsentRequired p \<and> as_consent svc \<longrightarrow>
        hashes_ok db \<and> consent_given svc req p db \<and> (case as_anonymizer svc of None \<Rightarrow> True | Some anon \<Rightarrow> anon (sr_Prompt req) \<noteq> None) \<and>
        consent_precheck ''aipolicy: HasConsent'' (consentScopeFor (as_ustr svc) (sr_TenantID req) (sr_Scope req))
          (as_anonymizerVersion svc) (al_PromptVersion p) = None) \<and>
     (case as_limiter svc of None \<Rightarrow> True | Some allow \<Rightarrow> \<forall>ev key. allow ev (as_bucket svc) key)"

lemma checkConsent_open:
  assumes q: "quiet os" and g: "gates_open svc req p db"
  shows "\<exists>m. run (checkConsent svc req p k) os n db = run (k (Inr ())) os m db"
proof (cases "al_ConsentRequired p \<and> as_consent svc \<and> as_anonymizer svc \<noteq> None \<and> as_anonymizerVersion svc \<noteq> '''' \<and> al_PromptVersion p \<noteq> ''''")
  case False
  then show ?thesis by (auto simp: checkConsent_def)
next
  case True
  then obtain anon preview where anon: "as_anonymizer svc = Some anon" "anon (sr_Prompt req) = Some preview"
    and h: "hashes_ok db" "consent_given svc req p db" "consent_precheck ''aipolicy: HasConsent'' (consentScopeFor (as_ustr svc) (sr_TenantID req) (sr_Scope req))
          (as_anonymizerVersion svc) (al_PromptVersion p) = None"
    using g by (auto simp: gates_open_def)
  then have c: "consent_now db (consentScopeFor (as_ustr svc) (sr_TenantID req) (sr_Scope req)) (as_anonymizerVersion svc) (al_PromptVersion p)"
    using True by (simp add: consent_given_def)
  show ?thesis using True anon c by (auto simp: checkConsent_def Let_def run_HasConsent [OF q h(1,3)])
qed

lemma Summarize_open:
  fixes svc req db
  defines "p \<equiv> policy_of_row (effective_policy (as_ustr svc) db (sr_TenantID req) (sp_ChannelID (sr_Scope req)) (sp_TeamID (sr_Scope req)))"
  assumes q: "quiet os" and g: "gates_open svc req p db"
  shows "\<exists>m. run (Summarize svc req) os 0 db = run (sz_lookup svc req p (o_now (os m))) os (Suc m) db"
proof -
  have v: "ai_validate req = Inr ()" "sr_TenantID req \<noteq> uuid_nil" and t: "TrimSpace (as_ustr svc (sr_TenantID req)) \<noteq> ''''"
    and s: "sp_ChannelID (sr_Scope req) = '''' \<or> TrimSpace (sp_ChannelID (sr_Scope req)) \<noteq> ''''"
      "sp_TeamID (sr_Scope req) = '''' \<or> TrimSpace (sp_TeamID (sr_Scope req)) \<noteq> ''''"
    and on: "al_AIEnabled p" "al_OptIn p"
    and limit: "case as_limiter svc of None \<Rightarrow> True | Some allow \<Rightarrow> \<forall>ev key. allow ev (as_bucket svc) key"
    using g by (auto simp: gates_open_def ai_validate_def split: if_splits)
  have "\<exists>m. run (checkRateLimit svc req k) os n db = run (k (Inr ())) os m db" for k n
    using limit q by (auto simp: checkRateLimit_def Let_def quiet_def split: option.splits)
  then have "\<exists>m. run (checkRateLimit svc req (sz_limited svc req p)) os n db = run (sz_lookup svc req p (o_now (os m))) os (Suc m) db" for n
    by (metis (no_types, lifting) sz_limited_def run_read_clock sum.case(2))
  then have "\<exists>m. run (checkConsent svc req p (sz_consented svc req p)) os n db = run (sz_lookup svc req p (o_now (os m))) os (Suc m) db" for n
    using checkConsent_open [OF q g, of "sz_consented svc req p" n] by (auto simp: sz_consented_def)
  then show ?thesis
    using run_Resolve [where ustr = "as_ustr svc" and k = "sz_resolved svc req" and n = 0 and db = db, OF q v(2) t s] v(1) on
    unfolding Summarize_eq by (auto simp: sz_resolved_def Let_def p_def)
qed

text \<open>No summary of the conversation can be served, or none is wanted.\<close>

definition must_generate :: "SummarizeRequest \<Rightarrow> ai_db \<Rightarrow> bool" where
  "must_generate req db \<longleftrightarrow>
     sr_Force req \<or> (\<forall>now. GetLatestValid db (sr_TenantID req) (sr_ConversationID req) now = aierr ai_ErrCacheMiss)"

lemma Summarize_generates:
  fixes svc req db
  defines "p \<equiv> policy_of_row (effective_policy (as_ustr svc) db (sr_TenantID req) (sp_ChannelID (sr_Scope req)) (sp_TeamID (sr_Scope req)))"
  assumes q: "quiet os" and g: "gates_open svc req p db" and c: "must_generate req db"
  shows "\<exists>m now. run (Summarize svc req) os 0 db = run (generate svc req p now) os m db"
proof -
  obtain m where "run (Summarize svc req) os 0 db = run (sz_lookup svc req p (o_now (os m))) os (Suc m) db"
    using Summarize_open [of os svc req db] q g unfolding p_def by blast
  then show ?thesis using c q by (auto simp: sz_lookup_def must_generate_def quiet_def) blast
qed

text \<open>A usable answer of the model.\<close>

definition good_answer :: "LLMResponse \<Rightarrow> bool" where
  "good_answer resp \<longleftrightarrow> lr_Text resp \<noteq> '''' \<and> 0 \<le> lr_TokensIn resp \<and> lr_TokensIn resp \<le> 2147483647 \<and>
     0 \<le> lr_TokensOut resp \<and> lr_TokensOut resp \<le> 2147483647"

lemma charged_good: "good_answer resp \<Longrightarrow> charged_tokens resp rv = min (rv_Amount rv) (max 1 (lr_TokensIn resp + lr_TokensOut resp))"
  by (simp add: charged_tokens_def good_answer_def Let_def wrap64_nonneg max_i64_def)

lemma generate_pays:
  assumes u: "uuid_text (as_ustr svc) (as_uparse svc)" and inv: "store_inv (as_ustr svc) (core db)" and q: "quiet os"
    and fresh: "fresh_env (as_ustr svc) db os" and can: "can_generate svc req p db w prompt"
    and ids: "sr_TenantID req \<noteq> uuid_nil" "sr_ConversationID req \<noteq> uuid_nil" "sr_ConversationID req \<in> set (conversation db)"
    and model: "al_Model p \<noteq> ''''" and llm: "as_complete svc (os (n + 4)) (llm_request svc req p prompt) = Some resp" "good_answer resp"
  obtains sm w' db' m where
    "run (generate svc req p now) os n db = (Inr (sm, False), m, db')"
    "store_inv (as_ustr svc) (core db')" "find_wallet (core db') (sr_TenantID req) = Some w'"
    "tw_balance w' = tw_balance w - min (EstimateReservation prompt (al_Model p) (al_MaxOutputTokens p)) (max 1 (lr_TokensIn resp + lr_TokensOut resp))"
    "tw_reserved w' = tw_reserved w"
    "llm_log db' = llm_log db @ [llm_request svc req p prompt]" "ai_summary db' = ai_summary db @ [sm]"
    "sm_Text sm = lr_Text resp" "sm_TenantID sm = sr_TenantID req" "sm_ConversationID sm = sr_ConversationID req"
    "sm_GeneratedAt sm = now" "sm_InvalidatedAt sm = None" "sm_ExpiresAt sm = (if as_ttl svc > 0 then Some (now + as_ttl svc) else None)"
proof -
  let ?ustr = "as_ustr svc" and ?log = "llm_log db @ [llm_request svc req p prompt]"
  let ?est = "EstimateReservation prompt (al_Model p) (al_MaxOutputTokens p)"
  have prompt: "buildDispatchPrompt svc req p = Inr prompt" "0 < ?est" "tw_tenantID w = sr_TenantID req"
    and key: "idempotencyKey ?ustr req '':commit'' \<noteq> []" "length (idempotencyKey ?ustr req '':commit'') \<le> 128"
    using can idempotencyKey_facts(3) [of ?ustr req] by (auto simp: can_generate_def idempotencyKey_facts(1))
  let ?k = "\<lambda>r. case r of Inl e \<Rightarrow> Ret (Inl e)
          | Inr (reservation, llmResp) \<Rightarrow>
              commitAndPersist svc req p reservation llmResp now (\<lambda>s. case s of
                Inl e \<Rightarrow> Ret (Inl e)
              | Inr summary \<Rightarrow> Ret (Inr (summary, False)))"
  obtain rv r w1 where res: "run (reserveAndCall svc req p prompt ?k) os n db = run (?k (Inr (rv, resp))) os (n + 5) (db\<lparr>core := post (core db) r w1, llm_log := ?log\<rparr>)"
    and inv1: "store_inv ?ustr (post (core db) r w1)" and w1: "w1 \<in> set (token_wallet (post (core db) r w1))"
      "tw_id w1 = tw_id w" "tw_tenantID w1 = tw_tenantID w" "tw_balance w1 = tw_balance w" "tw_reserved w1 = tw_reserved w + ?est"
    and rv: "r \<in> set (open_rows (wrows (post (core db) r w1) (tw_id w1)))" "reserve_row ?ustr rv r"
      "rv_WalletID rv = tw_id w1" "rv_TenantID rv = tw_tenantID w1" "rv_Amount rv = ?est"
    and env1: "\<And>m. m \<noteq> n + 3 \<Longrightarrow> env_ok ?ustr (post (core db) r w1) (os m)"
    and key1: "\<not> idem_taken (post (core db) r w1) (tw_id w1) (idempotencyKey ?ustr req '':commit'')"
    by (rule reserve_for_generation [where n = n and k = ?k, OF u inv q fresh can]) (use llm(1) in auto)
  let ?c = "charged_tokens resp rv"
  have c: "0 < ?c" "?c \<le> rv_Amount rv" using charged_tokens_bounds [of rv resp] prompt(2) rv(5) by simp_all
  have env2: "env_ok ?ustr (post (core db) r w1) (os (n + 5 + 4))" by (rule env1) simp
  obtain evs s w' where com: "run (Service_Commit ?ustr (as_scope svc) (Some rv) ?c (idempotencyKey ?ustr req '':commit'')) os (n + 5) (post (core db) r w1) =
      (Inr evs, n + 5 + 5, post (post (core db) r w1) s w')"
    and inv2: "store_inv ?ustr (post (post (core db) r w1) s w')" and w': "find_wallet (post (post (core db) r w1) s w') (tw_tenantID w1) = Some w'"
      "tw_balance w' = tw_balance w1 - ?c" "tw_reserved w' = tw_reserved w1 - rv_Amount rv"
    by (rule run_commit_open [OF u inv1 q env2 w1(1) rv(1-4) c key key1])
  let ?db2 = "db\<lparr>llm_log := ?log, core := post (post (core db) r w1) s w'\<rparr>"
  obtain sm where sm: "NewSummary (o_ids (os (n + 5 + 5)) 0) (sr_TenantID req) (sr_ConversationID req) (lr_Text resp) (al_Model p)
        (lr_TokensIn resp) (lr_TokensOut resp) now (as_ttl svc) = Inr sm"
    and f: "sm_ID sm = o_ids (os (n + 5 + 5)) 0" "sm_Text sm = lr_Text resp" "sm_TenantID sm = sr_TenantID req" "sm_ConversationID sm = sr_ConversationID req"
      "sm_GeneratedAt sm = now" "sm_InvalidatedAt sm = None" "sm_ExpiresAt sm = (if as_ttl svc > 0 then Some (now + as_ttl svc) else None)"
      "sm_TokensIn sm = lr_TokensIn resp" "sm_TokensOut sm = lr_TokensOut resp"
    using ids model llm(2) by (auto simp: NewSummary_def good_answer_def)
  have save: "summary_Save ?db2 sm = Inr ((), ?db2\<lparr>ai_summary := ai_summary db @ [sm]\<rparr>)"
    using ids f llm(2) fresh by (auto simp: summary_Save_def good_answer_def fresh_env_def)
  have nf: "o_fault (os m) = NoFault" for m using q by (simp add: quiet_def)
  have "run (?k (Inr (rv, resp))) os (n + 5) (db\<lparr>core := post (core db) r w1, llm_log := ?log\<rparr>) =
      (Inr (sm, False), Suc (Suc (n + 5 + 5)), ?db2\<lparr>ai_summary := ai_summary db @ [sm]\<rparr>)"
    using com sm save nf by (simp add: commitAndPersist_def run_on_wallet del: add_Suc_right add_numeral_left)
  then have "run (generate svc req p now) os n db = (Inr (sm, False), Suc (Suc (n + 5 + 5)), ?db2\<lparr>ai_summary := ai_summary db @ [sm]\<rparr>)"
    using res by (simp add: generate_def prompt(1))
  then show ?thesis
    by (rule that [of sm _ _ w']) (use inv2 w' w1 rv(5) prompt(3) f c charged_good [OF llm(2)] in simp_all)
qed

text \<open>When the model does not answer, the reservation is released.\<close>

lemma generate_released:
  assumes u: "uuid_text (as_ustr svc) (as_uparse svc)" and inv: "store_inv (as_ustr svc) (core db)" and q: "quiet os"
    and fresh: "fresh_env (as_ustr svc) db os" and can: "can_generate svc req p db w prompt"
    and llm: "as_complete svc (os (n + 4)) (llm_request svc req p prompt) = None"
  obtains rv r s w' db' where
    "run (generate svc req p now) os n db = (Inl (Wrapped ''llm'' (Sentinel ai_ErrLLMUnavailable)), n + 10, db')"
    "store_inv (as_ustr svc) (core db')" "find_wallet (core db') (sr_TenantID req) = Some w'"
    "w' \<in> set (token_wallet (core db'))" "tw_id w' = tw_id w" "tw_tenantID w' = tw_tenantID w"
    "tw_balance w' = tw_balance w" "tw_reserved w' = tw_reserved w" "ai_summary db' = ai_summary db"
    "llm_log db' = llm_log db @ [llm_request svc req p prompt]"
    "token_ledger (core db') = token_ledger (core db) @ [r, s]"
    "r \<in> set (wrows (core db') (tw_id w))" "reserve_row (as_ustr svc) rv r" "rv_WalletID rv = tw_id w" "rv_TenantID rv = tw_tenantID w"
    "tl_idempotency_key r = idempotencyKey (as_ustr svc) req '':reserve''"
    "rv_Amount rv = EstimateReservation prompt (al_Model p) (al_MaxOutputTokens p)"
    "s \<in> set (wrows (core db') (tw_id w))" "tl_kind s = KindRelease" "tl_external_ref s = Some (as_ustr svc (rv_ID rv))"
    "tl_idempotency_key s = idempotencyKey (as_ustr svc) req '':release''"
proof -
  let ?ustr = "as_ustr svc" and ?log = "llm_log db @ [llm_request svc req p prompt]"
  let ?est = "EstimateReservation prompt (al_Model p) (al_MaxOutputTokens p)"
  have prompt: "buildDispatchPrompt svc req p = Inr prompt" "tw_tenantID w = sr_TenantID req"
    and key: "idempotencyKey ?ustr req '':release'' \<noteq> []" "length (idempotencyKey ?ustr req '':release'') \<le> 128"
    using can idempotencyKey_facts(4) [of ?ustr req] by (auto simp: can_generate_def idempotencyKey_facts(1))
  let ?k = "\<lambda>r. case r of Inl e \<Rightarrow> Ret (Inl e)
          | Inr (reservation, llmResp) \<Rightarrow>
              commitAndPersist svc req p reservation llmResp now (\<lambda>s. case s of
                Inl e \<Rightarrow> Ret (Inl e)
              | Inr summary \<Rightarrow> Ret (Inr (summary, False)))"
  obtain rv r w1 where res: "run (reserveAndCall svc req p prompt ?k) os n db =
       run (bind_prog (on_wallet (Service_Release ?ustr (Some rv) (idempotencyKey ?ustr req '':release'')))
                (\<lambda>rel. case rel of
                   Inl _ \<Rightarrow> ?k (Inl (Wrapped ''aiassist/usecase: llm failed and release failed'' (Opaque ''llm'')))
                 | Inr _ \<Rightarrow> ?k (Inl (Wrapped ''llm'' (Sentinel ai_ErrLLMUnavailable))))) os (n + 5)
              (db\<lparr>core := post (core db) r w1, llm_log := ?log\<rparr>)"
    and inv1: "store_inv ?ustr (post (core db) r w1)" and w1: "w1 \<in> set (token_wallet (post (core db) r w1))"
      "tw_id w1 = tw_id w" "tw_tenantID w1 = tw_tenantID w" "tw_balance w1 = tw_balance w" "tw_reserved w1 = tw_reserved w + ?est"
    and rv: "r \<in> set (open_rows (wrows (post (core db) r w1) (tw_id w1)))" "reserve_row ?ustr rv r"
      "rv_WalletID rv = tw_id w1" "rv_TenantID rv = tw_tenantID w1" "rv_Amount rv = ?est" "tl_idempotency_key r = idempotencyKey ?ustr req '':reserve''"
    and env1: "\<And>m. m \<noteq> n + 3 \<Longrightarrow> env_ok ?ustr (post (core db) r w1) (os m)"
    and key1: "\<not> idem_taken (post (core db) r w1) (tw_id w1) (idempotencyKey ?ustr req '':release'')"
    by (rule reserve_for_generation [where n = n and k = ?k, OF u inv q fresh can, unfolded llm option.case]) (rule that, assumption+, simp)
  have env2: "env_ok ?ustr (post (core db) r w1) (os (n + 5 + 4))" by (rule env1) simp
  obtain s w' where rel: "run (Service_Release ?ustr (Some rv) (idempotencyKey ?ustr req '':release'')) os (n + 5) (post (core db) r w1) =
      (Inr [], n + 5 + 5, post (post (core db) r w1) s w')"
    and inv2: "store_inv ?ustr (post (post (core db) r w1) s w')"
    and w': "find_wallet (post (post (core db) r w1) s w') (tw_tenantID w1) = Some w'" "w' \<in> set (token_wallet (post (post (core db) r w1) s w'))"
      "tw_id w' = tw_id w1" "tw_tenantID w' = tw_tenantID w1" "tw_balance w' = tw_balance w1" "tw_reserved w' = tw_reserved w1 - rv_Amount rv"
    and s: "tl_wallet_id s = tw_id w1" "tl_kind s = KindRelease" "tl_external_ref s = Some (?ustr (rv_ID rv))"
      "tl_idempotency_key s = idempotencyKey ?ustr req '':release''"
    by (rule run_release_open [OF u inv1 q env2 w1(1) rv(1-4) key key1])
  let ?db' = "db\<lparr>llm_log := ?log, core := post (post (core db) r w1) s w'\<rparr>"
  have "run (generate svc req p now) os n db = (Inl (Wrapped ''llm'' (Sentinel ai_ErrLLMUnavailable)), n + 10, ?db')"
    using res rel by (simp add: generate_def prompt(1) run_on_wallet)
  moreover have "r \<in> set (wrows (post (post (core db) r w1) s w') (tw_id w))" "s \<in> set (wrows (post (post (core db) r w1) s w') (tw_id w))"
    using rv(1) w1(2) s(1) by (auto simp: wrows_def open_rows_def)
  ultimately show ?thesis
    using inv2 w' w1 rv(2-6) s prompt(2) by (intro that [of ?db' w' r s rv]) simp_all
qed

text \<open>A request whose completion failed and that is sent again under the same request id.\<close>

lemma generate_again_refused:
  assumes u: "uuid_text (as_ustr svc) (as_uparse svc)" and inv: "store_inv (as_ustr svc) (core db)" and q: "quiet os"
    and w: "w \<in> set (token_wallet (core db))" "tw_tenantID w = sr_TenantID req" and prompt: "buildDispatchPrompt svc req p = Inr prompt"
    and r: "r \<in> set (wrows (core db) (tw_id w))" "is_reserve r" "tl_idempotency_key r = idempotencyKey (as_ustr svc) req '':reserve''"
      "tl_amount r = - EstimateReservation prompt (al_Model p) (al_MaxOutputTokens p)"
    and s: "s \<in> set (wrows (core db) (tw_id w))" "is_settlement s" "tl_external_ref s = tl_external_ref r"
    and key: "length (idempotencyKey (as_ustr svc) req '':reserve'') \<le> 128" "\<not> idem_taken (core db) (tw_id w) (idempotencyKey (as_ustr svc) req '':commit'')"
    and llm: "as_complete svc (os (n + 2)) (llm_request svc req p prompt) = Some resp"
  shows "run (generate svc req p now) os n db =
    (Inl (Wrapped ''aiassist/usecase: wallet commit'' (Sentinel (ai_of_wallet wallet_ErrReservationCompleted))), n + 6,
     db\<lparr>llm_log := llm_log db @ [llm_request svc req p prompt]\<rparr>)"
proof -
  let ?ustr = "as_ustr svc" and ?est = "EstimateReservation prompt (al_Model p) (al_MaxOutputTokens p)"
  let ?key = "idempotencyKey (as_ustr svc) req '':commit''"
  obtain rv where res: "run (Service_Reserve ?ustr (as_uparse svc) (tw_tenantID w) (- tl_amount r) (tl_idempotency_key r)) os n (core db) = (Inr rv, n + 2, core db)"
    and rv: "reserve_row ?ustr rv r"
    by (rule run_reserve_replay [OF u inv q w(1) r(1,2)]) (use r(3) key(1) in \<open>simp_all add: idempotencyKey_facts(1)\<close>)
  have row: "rv_WalletID rv = tw_id w" "rv_TenantID rv = tw_tenantID w" "rv_Amount rv = ?est" "tl_external_ref s = Some (?ustr (rv_ID rv))"
    using rv r(1,4) s(3) db_inv_tenant [of "core db" w] inv w(1) by (auto simp: reserve_row_def wrows_def tenant_books_def)
  have pos: "0 < rv_Amount rv"
    using loaded(3) [OF inv w(1)] r(1,2) rv by (auto simp: ledger_ok_def reserve_row_def)
  let ?c = "charged_tokens resp rv"
  have c: "0 < ?c" "?c \<le> rv_Amount rv" using charged_tokens_bounds [OF pos] by simp_all
  have kv: "?key \<noteq> []" "length ?key \<le> 128" using key(1) idempotencyKey_facts(3) [of ?ustr req] by (simp_all add: idempotencyKey_facts(1))
  have com: "run (Service_Commit ?ustr (as_scope svc) (Some rv) ?c ?key) os (Suc (n + 2)) (core db) = (werr wallet_ErrReservationCompleted, Suc (n + 2) + 3, core db)"
    using settle_refused [OF inv q w(1) u s(1,2) row(4,1,2) key(2), where n = "Suc (n + 2)"] c kv
    by (simp add: Service_Commit_def valid_key run_retry_Done del: retry_loop.simps)
  show ?thesis using res com w(2) r(3,4) llm
    by (simp add: generate_def prompt reserveAndCall_def Let_def run_on_wallet llm_Complete_def llm_request_def commitAndPersist_def)
qed

section \<open>What a summary costs: properties\<close>

text \<open>
  C20. A summary costs what it used: when all gates are open, no summary can be served and the wallet covers the estimate, a call without
  faults whose model answers returns a new summary with that answer, sends one request, and takes from the wallet the tokens the model
  reports, at least one and never more than was reserved; nothing stays reserved.
\<close>

theorem summary_costs_its_use:
  fixes svc req db os resp
  defines "p \<equiv> policy_of_row (effective_policy (as_ustr svc) db (sr_TenantID req) (sp_ChannelID (sr_Scope req)) (sp_TeamID (sr_Scope req)))"
    and "db' \<equiv> store_after (Summarize svc req) os db"
  assumes u: "uuid_text (as_ustr svc) (as_uparse svc)" and inv: "store_inv (as_ustr svc) (core db)" and q: "quiet os"
    and fresh: "fresh_env (as_ustr svc) db os" and g: "gates_open svc req p db" and c: "must_generate req db"
    and can: "can_generate svc req p db w prompt" and ids: "sr_ConversationID req \<in> set (conversation db)" and model: "al_Model p \<noteq> ''''"
    and llm: "\<And>n. as_complete svc (os n) (llm_request svc req p prompt) = Some resp" "good_answer resp"
  shows "\<exists>sm w'. result_of (Summarize svc req) os db = Inr (sm, False) \<and> sm_Text sm = lr_Text resp \<and>
    ai_summary db' = ai_summary db @ [sm] \<and> llm_log db' = llm_log db @ [llm_request svc req p prompt] \<and>
    find_wallet (core db') (sr_TenantID req) = Some w' \<and> tw_reserved w' = tw_reserved w \<and>
    tw_balance w' = tw_balance w - min (EstimateTokens prompt (al_Model p)) (max 1 (lr_TokensIn resp + lr_TokensOut resp))"
proof -
  obtain m now where run: "run (Summarize svc req) os 0 db = run (generate svc req p now) os m db"
    using Summarize_generates [of os svc req db] q g c unfolding p_def by blast
  have "sr_TenantID req \<noteq> uuid_nil" "sr_ConversationID req \<noteq> uuid_nil"
    using g by (auto simp: gates_open_def ai_validate_def split: if_splits)
  moreover have "EstimateReservation prompt (al_Model p) (al_MaxOutputTokens p) = EstimateTokens prompt (al_Model p)"
    by (simp add: p_def policy_of_row_def EstimateReservation_def)
  ultimately show ?thesis unfolding result_of_def store_after_def db'_def run
    by (elim generate_pays [where n = m and now = now, OF u inv q fresh can _ _ ids model llm]) auto
qed

text \<open>
  A valid summary is served from the cache: when the gates are open, the request does not force a new one and the conversation has a
  summary that has neither expired nor been invalidated, the call returns such a summary as cached, spends nothing and sends nothing.
\<close>

theorem cached_summary_is_free:
  fixes svc req db os
  defines "p \<equiv> policy_of_row (effective_policy (as_ustr svc) db (sr_TenantID req) (sp_ChannelID (sr_Scope req)) (sp_TeamID (sr_Scope req)))"
  assumes q: "quiet os" and g: "gates_open svc req p db" and f: "\<not> sr_Force req"
    and sm: "sm \<in> set (ai_summary db)" "sm_TenantID sm = sr_TenantID req" "sm_ConversationID sm = sr_ConversationID req"
      "sm_InvalidatedAt sm = None" "\<And>n. case sm_ExpiresAt sm of None \<Rightarrow> True | Some e \<Rightarrow> o_now (os n) < e"
  shows "\<exists>s. result_of (Summarize svc req) os db = Inr (s, True) \<and> s \<in> set (ai_summary db) \<and>
    sm_TenantID s = sr_TenantID req \<and> sm_ConversationID s = sr_ConversationID req \<and> sm_InvalidatedAt s = None \<and>
    sm_GeneratedAt sm \<le> sm_GeneratedAt s \<and> store_after (Summarize svc req) os db = db"
proof -
  obtain m where run: "run (Summarize svc req) os 0 db = run (sz_lookup svc req p (o_now (os m))) os (Suc m) db"
    using Summarize_open [of os svc req db] q g unfolding p_def by blast
  let ?now = "o_now (os m)"
  let ?ok = "\<lambda>s. sm_TenantID s = sr_TenantID req \<and> sm_ConversationID s = sr_ConversationID req \<and> sm_InvalidatedAt s = None \<and>
      (case sm_ExpiresAt s of None \<Rightarrow> True | Some e \<Rightarrow> e > ?now)"
  have ids: "sr_TenantID req \<noteq> uuid_nil" "sr_ConversationID req \<noteq> uuid_nil"
    using g by (auto simp: gates_open_def ai_validate_def split: if_splits)
  have ne: "sm \<in> set (filter ?ok (ai_summary db))" using sm(1-4) sm(5) [of m] by simp
  define sorted where "sorted = sort_key (\<lambda>s. - sm_GeneratedAt s) (filter ?ok (ai_summary db))"
  have set: "set sorted = {s \<in> set (ai_summary db). ?ok s}" by (auto simp: sorted_def)
  have ord: "List.sorted (map (\<lambda>s. - sm_GeneratedAt s) sorted)" by (simp add: sorted_def)
  obtain s rest where sorted: "sorted = s # rest" using ne set by (cases sorted) auto
  have "s \<in> set (ai_summary db) \<and> ?ok s" using set sorted by auto
  moreover have "sm \<in> set (s # rest)" using ne set sorted by simp
  ultimately have s: "s \<in> set (ai_summary db)" "?ok s" "sm_GeneratedAt sm \<le> sm_GeneratedAt s" using ord sorted by auto
  have "GetLatestValid db (sr_TenantID req) (sr_ConversationID req) ?now = Inr s"
    using ids sorted by (simp add: GetLatestValid_def sorted_def)
  moreover have "IsValid s ?now" using s(2) by (auto simp: IsValid_def split: option.splits)
  ultimately have "run (Summarize svc req) os 0 db = (Inr (s, True), Suc (Suc m), db)"
    using q f by (simp add: run sz_lookup_def quiet_def)
  then show ?thesis using s by (simp add: result_of_def store_after_def)
qed

text \<open>
  A failed completion costs nothing: when the model does not answer, the call reports \<^verbatim>\<open>ErrLLMUnavailable\<close>, stores no summary, and leaves
  balance and reserved amount of the wallet as they were. The request is over: sent again under the same id, it calls the model
  again, and when the model now answers, the commit is refused and the answer is lost.
\<close>

theorem failed_completion_is_free:
  fixes svc req db os os'
  defines "p \<equiv> policy_of_row (effective_policy (as_ustr svc) db (sr_TenantID req) (sp_ChannelID (sr_Scope req)) (sp_TeamID (sr_Scope req)))"
    and "db' \<equiv> store_after (Summarize svc req) os db"
  assumes u: "uuid_text (as_ustr svc) (as_uparse svc)" and inv: "store_inv (as_ustr svc) (core db)" and q: "quiet os" "quiet os'"
    and fresh: "fresh_env (as_ustr svc) db os" and g: "gates_open svc req p db" and c: "must_generate req db"
    and can: "can_generate svc req p db w prompt"
    and llm: "\<And>n. as_complete svc (os n) (llm_request svc req p prompt) = None"
      "\<And>n. as_complete svc (os' n) (llm_request svc req p prompt) = Some resp"
  shows "\<exists>w'. result_of (Summarize svc req) os db = Inl (Wrapped ''llm'' (Sentinel ai_ErrLLMUnavailable)) \<and>
    ai_summary db' = ai_summary db \<and> find_wallet (core db') (sr_TenantID req) = Some w' \<and>
    tw_balance w' = tw_balance w \<and> tw_reserved w' = tw_reserved w \<and>
    fst (run (generate svc req p now) os' 0 db') =
      Inl (Wrapped ''aiassist/usecase: wallet commit'' (Sentinel (ai_of_wallet wallet_ErrReservationCompleted))) \<and>
    length (llm_log (snd (snd (run (generate svc req p now) os' 0 db')))) = length (llm_log db) + 2"
proof -
  obtain m t where run: "run (Summarize svc req) os 0 db = run (generate svc req p t) os m db"
    using Summarize_generates [of os svc req db] q(1) g c unfolding p_def by blast
  have key: "length (idempotencyKey (as_ustr svc) req '':reserve'') \<le> 128" and prompt: "buildDispatchPrompt svc req p = Inr prompt"
    and w: "tw_tenantID w = sr_TenantID req" and free: "\<not> idem_taken (core db) (tw_id w) (idempotencyKey (as_ustr svc) req '':commit'')"
    using can by (auto simp: can_generate_def)
  obtain rv r s w' db1 where first: "run (generate svc req p t) os m db = (Inl (Wrapped ''llm'' (Sentinel ai_ErrLLMUnavailable)), m + 10, db1)"
    and inv1: "store_inv (as_ustr svc) (core db1)" "find_wallet (core db1) (sr_TenantID req) = Some w'"
    and w': "w' \<in> set (token_wallet (core db1))" "tw_id w' = tw_id w" "tw_tenantID w' = tw_tenantID w"
      "tw_balance w' = tw_balance w" "tw_reserved w' = tw_reserved w"
    and rest: "ai_summary db1 = ai_summary db" "llm_log db1 = llm_log db @ [llm_request svc req p prompt]"
      "token_ledger (core db1) = token_ledger (core db) @ [r, s]"
    and r: "r \<in> set (wrows (core db1) (tw_id w))" "reserve_row (as_ustr svc) rv r" "tl_idempotency_key r = idempotencyKey (as_ustr svc) req '':reserve''"
      "rv_Amount rv = EstimateReservation prompt (al_Model p) (al_MaxOutputTokens p)"
    and s: "s \<in> set (wrows (core db1) (tw_id w))" "tl_kind s = KindRelease" "tl_external_ref s = Some (as_ustr svc (rv_ID rv))"
      "tl_idempotency_key s = idempotencyKey (as_ustr svc) req '':release''"
    by (rule generate_released [OF u inv q(1) fresh can llm(1)])
  have db': "db' = db1" using run first by (simp add: db'_def store_after_def)
  have free1: "\<not> idem_taken (core db1) (tw_id w') (idempotencyKey (as_ustr svc) req '':commit'')"
    using free r(3) s(4) w'(2) by (auto simp: idem_taken_def rest(3) idempotencyKey_facts(2))
  have "run (generate svc req p now) os' 0 db1 =
      (Inl (Wrapped ''aiassist/usecase: wallet commit'' (Sentinel (ai_of_wallet wallet_ErrReservationCompleted))), 0 + 6,
       db1\<lparr>llm_log := llm_log db1 @ [llm_request svc req p prompt]\<rparr>)"
    by (rule generate_again_refused [where r = r and s = s, OF u inv1(1) q(2) w'(1) _ prompt _ _ _ _ _ _ _ key free1 llm(2)])
      (use w w' r s in \<open>auto simp: reserve_row_def is_settlement_def\<close>)
  then show ?thesis using run first inv1(2) w'(4,5) rest(1,2) by (simp add: result_of_def db')
qed

section \<open>Witnesses\<close>

definition ai_policy_ex :: AIPolicy where
  "ai_policy_ex = DefaultAIPolicy\<lparr>ap_TenantID := 7, ap_ScopeType := ScopeTenant, ap_ScopeID := ustr_ex 7, ap_Model := ''gemini-flash'',
     ap_AIEnabled := True, ap_OptIn := True, ap_ConsentRequired := True\<rparr>"

definition ai_consent_ex :: Consent where
  "ai_consent_ex = \<lparr>cn_TenantID = 7, cn_ScopeKind = ScopeTenant, cn_ScopeID = ustr_ex 7, cn_ActorUserID = Some 5, cn_PayloadHash = replicate 32 CHR ''h'',
     cn_AnonymizerVersion = ''a1'', cn_PromptVersion = ''v1'', cn_AcceptedAt = 1\<rparr>"

definition ai_db_ex :: ai_db where
  "ai_db_ex = \<lparr>ai_policy = [ai_policy_ex], ai_policy_consent = [ai_consent_ex], ai_policy_audit = [], ai_users = [5],
     core = db_with (hydrate 1 7 1000 0 1 5 5) [row_ex 2 KindGrant 1000 ''g1'' None], conversation = [9], ai_summary = [], llm_log = []\<rparr>"

definition ai_svc_ex :: "LLMResponse option \<Rightarrow> ai_service" where
  "ai_svc_ex answer =
     \<lparr>as_ustr = ustr_ex, as_uparse = uparse_ex, as_scope = ''tenant:default'', as_complete = (\<lambda>ev q. if o_now ev < 5000 then answer else Some \<lparr>lr_Text = ''late'', lr_TokensIn = 4, lr_TokensOut = 6\<rparr>),
      as_limiter = None, as_bucket = '''', as_ttl = DefaultSummaryTTL, as_consent = True, as_anonymizer = Some (\<lambda>t. Some (map (\<lambda>_. CHR ''x'') t)), as_anonymizerVersion = ''a1''\<rparr>"

definition ai_req_ex :: SummarizeRequest where
  "ai_req_ex = \<lparr>sr_TenantID = 7, sr_ConversationID = 9, sr_RequestID = ''q1'', sr_Prompt = ''hello'',
     sr_Scope = \<lparr>sp_TeamID = '''', sp_ChannelID = ''''\<rparr>, sr_Force = False\<rparr>"

definition ai_env_ex :: "time \<Rightarrow> nat \<Rightarrow> call_env" where
  "ai_env_ex t n = \<lparr>o_fault = NoFault, o_now = t, o_ids = (\<lambda>i. 100 + n)\<rparr>"

definition answer_ex :: LLMResponse where
  "answer_ex = \<lparr>lr_Text = ''ok'', lr_TokensIn = 40, lr_TokensOut = 10\<rparr>"

definition ai_wallet_ex :: TokenWallet where
  "ai_wallet_ex = hydrate 1 7 1000 0 1 5 5"

definition ai_prompt_ex :: string where
  "ai_prompt_ex = projr (buildDispatchPrompt (ai_svc_ex None) ai_req_ex (policy_of_row ai_policy_ex))"

lemma ai_effective_ex: "effective_policy ustr_ex ai_db_ex 7 '''' '''' = ai_policy_ex"
  by (simp add: effective_policy_def scope_row_def ai_db_ex_def ai_policy_ex_def at_scope_def ustr_ex_def)

lemma ai_prompt_ex: "buildDispatchPrompt (ai_svc_ex answer) ai_req_ex (policy_of_row ai_policy_ex) = Inr ai_prompt_ex"
proof -
  have "buildDispatchPrompt (ai_svc_ex answer) ai_req_ex (policy_of_row ai_policy_ex) = buildDispatchPrompt (ai_svc_ex None) ai_req_ex (policy_of_row ai_policy_ex)"
    by (simp add: buildDispatchPrompt_def anonymizeForDispatch_def ai_svc_ex_def)
  moreover have "is_ok (buildDispatchPrompt (ai_svc_ex None) ai_req_ex (policy_of_row ai_policy_ex))"
    by code_simp
  ultimately show ?thesis by (auto simp: ai_prompt_ex_def is_ok_iff)
qed

lemma ai_estimate_ex: "EstimateTokens ai_prompt_ex ''gemini-flash'' \<le> 1000"
  by code_simp

lemma ai_env_facts: "quiet (ai_env_ex t)" "fresh_env ustr_ex ai_db_ex (ai_env_ex t)"
  by (auto simp: quiet_def fresh_env_def ai_env_ex_def env_ok_def ai_db_ex_def db_with_def row_ex_def i64)

lemma ai_inv_ex: "store_inv ustr_ex (core ai_db_ex)"
  unfolding ai_db_ex_def by (simp, rule store_inv_with) (auto simp: books_eval)

lemma ai_consented_ex:
  assumes "ai_policy_consent db = [ai_consent_ex]"
  shows "hashes_ok db" "consent_given (ai_svc_ex answer) ai_req_ex (policy_of_row ai_policy_ex) db"
    "consent_precheck ''aipolicy: HasConsent'' (consentScopeFor ustr_ex 7 (sr_Scope ai_req_ex)) ''a1'' ''v1'' = None"
proof -
  show "hashes_ok db" using assms by (simp add: hashes_ok_def ai_consent_ex_def)
  show "consent_given (ai_svc_ex answer) ai_req_ex (policy_of_row ai_policy_ex) db"
    using assms by (simp add: consent_given_def consent_now_def consent_at_def ai_consent_ex_def consentScopeFor_def ai_svc_ex_def ai_req_ex_def policy_of_row_def
      ai_policy_ex_def DefaultAIPolicy_def)
  show "consent_precheck ''aipolicy: HasConsent'' (consentScopeFor ustr_ex 7 (sr_Scope ai_req_ex)) ''a1'' ''v1'' = None" by code_simp
qed

lemma ai_gates_ex: "gates_open (ai_svc_ex answer) ai_req_ex (policy_of_row ai_policy_ex) ai_db_ex"
proof -
  have "TrimSpace (ustr_ex 7) \<noteq> ''''" by code_simp
  then show ?thesis
    using ai_consented_ex(1,3) [of ai_db_ex] ai_consented_ex(2) [of ai_db_ex answer]
    by (simp add: gates_open_def ai_validate_def ai_req_ex_def ai_svc_ex_def policy_of_row_def ai_policy_ex_def DefaultAIPolicy_def ai_db_ex_def)
qed

lemma ai_can_ex: "can_generate (ai_svc_ex answer) ai_req_ex (policy_of_row ai_policy_ex) ai_db_ex ai_wallet_ex ai_prompt_ex"
proof -
  have est: "EstimateReservation ai_prompt_ex (al_Model (policy_of_row ai_policy_ex)) (al_MaxOutputTokens (policy_of_row ai_policy_ex))
      = EstimateTokens ai_prompt_ex ''gemini-flash''"
    by (simp add: EstimateReservation_def policy_of_row_def ai_policy_ex_def)
  have av: "Available ai_wallet_ex = 1000" by (simp add: ai_wallet_ex_def hydrate_def Available_def wrap64_def)
  have keys: "list_all (\<lambda>sfx. \<not> idem_taken (core ai_db_ex) (tw_id ai_wallet_ex) (idempotencyKey ustr_ex ai_req_ex sfx)) ['':reserve'', '':commit'', '':release'']"
    by (simp add: idem_taken_def ai_db_ex_def db_with_def row_ex_def idempotencyKey_def ustr_ex_def ai_req_ex_def)
  have "length (idempotencyKey ustr_ex ai_req_ex '':reserve'') \<le> 128"
    by (simp add: idempotencyKey_def ustr_ex_def ai_req_ex_def)
  moreover have "0 < EstimateTokens ai_prompt_ex ''gemini-flash''" using EstimateTokens_pos [of ai_prompt_ex "''gemini-flash''"] by simp
  ultimately show ?thesis unfolding can_generate_def est av
    using ai_prompt_ex [of answer] ai_estimate_ex keys
    by (simp add: ai_svc_ex_def) (simp add: ai_db_ex_def db_with_def ai_wallet_ex_def hydrate_def ai_req_ex_def)
qed

lemma ai_must_ex: "must_generate ai_req_ex ai_db_ex"
  by (simp add: must_generate_def GetLatestValid_def ai_db_ex_def ai_req_ex_def)

lemmas ai_ex_facts = uuid_text_ex ai_inv_ex ai_env_facts ai_gates_ex ai_must_ex ai_can_ex

lemma ai_svc_ex_simps [simp]:
  "as_ustr (ai_svc_ex answer) = ustr_ex" "as_uparse (ai_svc_ex answer) = uparse_ex" "sr_TenantID ai_req_ex = 7" "sr_ConversationID ai_req_ex = 9"
  "sp_ChannelID (sr_Scope ai_req_ex) = ''''" "sp_TeamID (sr_Scope ai_req_ex) = ''''"
  "as_complete (ai_svc_ex answer) (ai_env_ex 1000 n) q = answer"
  "as_complete (ai_svc_ex answer) (ai_env_ex 9000 n) q = Some \<lparr>lr_Text = ''late'', lr_TokensIn = 4, lr_TokensOut = 6\<rparr>"
  by (simp_all add: ai_svc_ex_def ai_req_ex_def ai_env_ex_def)

lemma answer_ex_good: "good_answer answer_ex" "al_Model (policy_of_row ai_policy_ex) \<noteq> ''''" "9 \<in> set (conversation ai_db_ex)"
  by (simp_all add: good_answer_def answer_ex_def policy_of_row_def ai_policy_ex_def ai_db_ex_def)

theorem summary_costs_its_use_witness:
  "\<exists>sm. result_of (Summarize (ai_svc_ex (Some answer_ex)) ai_req_ex) (ai_env_ex 1000) ai_db_ex = Inr (sm, False) \<and> sm_Text sm = ''ok''"
  using summary_costs_its_use [where svc = "ai_svc_ex (Some answer_ex)" and req = ai_req_ex and db = ai_db_ex and os = "ai_env_ex 1000"
      and w = ai_wallet_ex and prompt = ai_prompt_ex and resp = answer_ex] ai_ex_facts answer_ex_good
  by (auto simp: ai_effective_ex) (auto simp: answer_ex_def)

definition ai_cached_ex :: ai_db where
  "ai_cached_ex = ai_db_ex\<lparr>ai_summary := [\<lparr>sm_ID = 50, sm_TenantID = 7, sm_ConversationID = 9, sm_Text = ''old'', sm_Model = ''gemini-flash'',
     sm_TokensIn = 3, sm_TokensOut = 4, sm_GeneratedAt = 500, sm_ExpiresAt = Some 2000, sm_InvalidatedAt = None\<rparr>]\<rparr>"

theorem cached_summary_is_free_witness:
  "\<exists>s. result_of (Summarize (ai_svc_ex None) ai_req_ex) (ai_env_ex 1000) ai_cached_ex = Inr (s, True) \<and> s \<in> set (ai_summary ai_cached_ex)"
proof -
  have "effective_policy ustr_ex ai_cached_ex 7 '''' '''' = ai_policy_ex"
    using ai_effective_ex by (auto simp: effective_policy_def scope_row_def ai_cached_ex_def split: if_splits)
  moreover have "gates_open (ai_svc_ex None) ai_req_ex (policy_of_row ai_policy_ex) ai_cached_ex"
    using ai_gates_ex [of None] ai_consented_ex(1) [of ai_cached_ex] ai_consented_ex(2) [of ai_cached_ex None] by (simp add: gates_open_def ai_cached_ex_def ai_db_ex_def)
  moreover have "\<not> sr_Force ai_req_ex" by (simp add: ai_req_ex_def)
  ultimately show ?thesis
    using cached_summary_is_free [where svc = "ai_svc_ex None" and req = ai_req_ex and db = ai_cached_ex and os = "ai_env_ex 1000"
        and sm = "hd (ai_summary ai_cached_ex)"] ai_env_facts(1) [of 1000]
    by (auto simp: ai_cached_ex_def ai_env_ex_def)
qed

theorem failed_completion_is_free_witness:
  "result_of (Summarize (ai_svc_ex None) ai_req_ex) (ai_env_ex 1000) ai_db_ex = Inl (Wrapped ''llm'' (Sentinel ai_ErrLLMUnavailable))"
  using failed_completion_is_free [where svc = "ai_svc_ex None" and req = ai_req_ex and db = ai_db_ex and os = "ai_env_ex 1000"
      and os' = "ai_env_ex 9000" and w = ai_wallet_ex and prompt = ai_prompt_ex] ai_ex_facts
  by (auto simp: ai_effective_ex)


theorem ai_books_balance_witness:
  "\<exists>db. ai_reach ustr_ex uparse_ex ai_db_ex db \<and> tw_balance ai_wallet_ex = credited (wrows (core db) (tw_id ai_wallet_ex))"
proof -
  let ?p = "ai_start (Summarize (ai_svc_ex None) ai_req_ex)"
  let ?step = "pool_step (\<lambda>t. env_ok ustr_ex (core t)) (ai_call ustr_ex uparse_ex)"
  have "ai_call ustr_ex uparse_ex ai_db_ex ?p" by (intro call_summarize) simp_all
  then have "?step (ai_db_ex, \<lambda>_. Ret ()) (ai_db_ex, (\<lambda>_. Ret ())(0 := ?p))" by (intro step_start) simp_all
  then have reach: "ai_reach ustr_ex uparse_ex ai_db_ex ai_db_ex" by (intro exI) (rule reach_step [OF reach_init])
  have w: "ai_wallet_ex \<in> set (token_wallet (core ai_db_ex))" by (simp add: ai_db_ex_def db_with_def ai_wallet_ex_def)
  from ai_books_balance [OF uuid_text_ex ai_inv_ex reach w] reach show ?thesis by blast
qed

text \<open>
  The model names a tenant can choose are \<^verbatim>\<open>gemini-flash\<close> and \<^verbatim>\<open>claude-haiku\<close>; neither has the prefix for which the estimator divides by
  three.
\<close>

lemma selectable_models_use_the_default_divisor: "modelDivisor ''claude-haiku'' = 4" "modelDivisor ''gemini-flash'' = 4"
  by code_simp+

end
