(* ===== verification/Funnel.thy ===== *)
theory Funnel
  imports GoStrings Interleaving "HOL-Library.List_Lexorder" "HOL-Library.Char_ord" "HOL-Library.Product_Lexorder"
begin

text \<open>
  The sales funnel: the stages and the transition ledger with \<^verbatim>\<open>Service.MoveConversation\<close> (\<^verbatim>\<open>src/internal/funnel\<close>), the
  rules with the cascade resolver (\<^verbatim>\<open>src/internal/funnel/rules\<close>), the engine that applies rules to inbound messages
  (\<^verbatim>\<open>src/internal/funnel/engine\<close>) with its queue consumer (\<^verbatim>\<open>src/internal/worker/funnel_engine\<close>), and the three stores
  under \<^verbatim>\<open>src/internal/adapter/db/postgres\<close>.
\<close>

section \<open>Data\<close>

record Stage =
  st_ID :: uuid
  st_TenantID :: uuid
  st_Key :: string
  st_Label :: string
  st_Position :: int
  st_IsDefault :: bool

record Transition =
  tr_ID :: uuid
  tr_TenantID :: uuid
  tr_ConversationID :: uuid
  tr_FromStageID :: "uuid option"
  tr_ToStageID :: uuid
  tr_TransitionedByUserID :: uuid
  tr_TransitionedAt :: time
  tr_Reason :: string

record ConversationMovedEvent =
  ce_TenantID :: uuid
  ce_ConversationID :: uuid
  ce_TransitionID :: uuid
  ce_FromStageID :: "uuid option"
  ce_ToStageID :: uuid
  ce_ToStageKey :: string
  ce_TransitionedByUserID :: uuid
  ce_TransitionedAt :: time
  ce_Reason :: string

datatype rule_Scope = fr_ScopeChannel | fr_ScopeTeam | fr_ScopeTenant

definition scopeRank :: "rule_Scope \<Rightarrow> nat" where
  "scopeRank s = (case s of fr_ScopeChannel \<Rightarrow> 0 | fr_ScopeTeam \<Rightarrow> 1 | fr_ScopeTenant \<Rightarrow> 2)"

datatype TriggerType =
  TriggerTypeMessageContains | TriggerTypeCampaignClick | TriggerTypeMessageKeywordRegex | TriggerTypeOther string

datatype ActionType = ActionTypeMoveToStage | ActionTypeOther string

text \<open>
  The values of a \<^verbatim>\<open>map[string]any\<close> that holds a JSON document, as far as the code looks at them: strings and others. A nil map
  and a map without entries behave alike.
\<close>

datatype json_any = JsonString string | JsonOther string

type_synonym rule_config = "(string \<times> json_any) list"

definition stringField :: "rule_config \<Rightarrow> string \<Rightarrow> string option" where
  "stringField m key = (case map_of m key of Some (JsonString v) \<Rightarrow> Some v | _ \<Rightarrow> None)"

record Rule =
  fr_ID :: uuid
  fr_TenantID :: uuid
  fr_Channel :: string
  fr_TeamID :: "uuid option"
  fr_Name :: string
  fr_TriggerType :: TriggerType
  fr_TriggerConfig :: rule_config
  fr_ActionType :: ActionType
  fr_ActionConfig :: rule_config
  fr_Enabled :: bool
  fr_CreatedAt :: time
  fr_UpdatedAt :: time

record Application =
  fa_TenantID :: uuid
  fa_RuleID :: uuid
  fa_MessageID :: uuid
  fa_ConversationID :: uuid
  fa_ActionType :: string
  fa_AppliedAt :: time

record InboundMessage =
  im_TenantID :: uuid
  im_ConversationID :: uuid
  im_MessageID :: uuid
  im_Channel :: string
  im_Body :: string
  im_OccurredAt :: time

text \<open>The sentinels of the three packages.\<close>

datatype funnel_sentinel =
    fn_ErrInvalidTenant | fn_ErrInvalidConversation | fn_ErrInvalidActor | fn_ErrInvalidStageKey | fn_ErrStageNotFound | fn_ErrNotFound
  | ru_ErrInvalidTenant | ru_ErrInvalidRule | ru_ErrUnknownTriggerType | ru_ErrUnknownActionType | ru_ErrNotFound
  | en_ErrInvalidEvent | en_ErrAlreadyApplied

type_synonym 'a fresult = "(funnel_sentinel, 'a) result"

abbreviation (input) ferr :: "funnel_sentinel \<Rightarrow> 'a fresult" where
  "ferr e \<equiv> Inl (Sentinel e)"

text \<open>
  The tables, with the keys of the tables they refer to (\<open>fd_users\<close>, \<open>fd_conversations\<close>). \<open>fd_events\<close> is no table, but the events
  handed to the publisher, oldest first.
\<close>

record funnel_db =
  fd_users :: "uuid list"
  fd_conversations :: "uuid list"
  fd_stage :: "Stage list"
  fd_transition :: "Transition list"
  fd_rules :: "Rule list"
  fd_applications :: "Application list"
  fd_events :: "ConversationMovedEvent list"

type_synonym 'a fprog = "(funnel_db, call_env, 'a) prog"

section \<open>Stages and transitions (store)\<close>

text \<open>Row-level security leaves the rows of the tenant; \<^verbatim>\<open>(tenant_id, key)\<close> is unique.\<close>

definition FindByKey :: "funnel_db \<Rightarrow> uuid \<Rightarrow> string \<Rightarrow> Stage fresult" where
  "FindByKey db tenantID key =
     (if tenantID = uuid_nil then Inl (Opaque ''funnel/postgres: FindByKey: tenant id is nil'')
      else if key = '''' then ferr fn_ErrNotFound
      else case find (\<lambda>s. st_TenantID s = tenantID \<and> st_Key s = key) (fd_stage db) of
             None \<Rightarrow> ferr fn_ErrNotFound
           | Some s \<Rightarrow> Inr s)"

text \<open>\<^verbatim>\<open>ORDER BY transitioned_at DESC LIMIT 1\<close>; of rows of the same instant the first stored is taken.\<close>

definition LatestForConversation :: "funnel_db \<Rightarrow> uuid \<Rightarrow> uuid \<Rightarrow> Transition fresult" where
  "LatestForConversation db tenantID conversationID =
     (if tenantID = uuid_nil then Inl (Opaque ''funnel/postgres: LatestForConversation: tenant id is nil'')
      else if conversationID = uuid_nil then ferr fn_ErrNotFound
      else case sort_key (\<lambda>t. - tr_TransitionedAt t)
             (filter (\<lambda>t. tr_TenantID t = tenantID \<and> tr_ConversationID t = conversationID) (fd_transition db)) of
             [] \<Rightarrow> ferr fn_ErrNotFound
           | t # _ \<Rightarrow> Inr t)"

definition ListForConversation :: "funnel_db \<Rightarrow> uuid \<Rightarrow> uuid \<Rightarrow> Transition list fresult" where
  "ListForConversation db tenantID conversationID =
     (if tenantID = uuid_nil then Inl (Opaque ''funnel/postgres: ListForConversation: tenant id is nil'')
      else if conversationID = uuid_nil then Inr []
      else Inr (sort_key tr_TransitionedAt
             (filter (\<lambda>t. tr_TenantID t = tenantID \<and> tr_ConversationID t = conversationID) (fd_transition db))))"

text \<open>
  The insert fails on a repeated primary key and on a reference to a conversation, a stage or a user that does not exist. A zero
  \<^verbatim>\<open>transitioned_at\<close>, which the clock never reads, is not modelled.
\<close>

definition transition_Create :: "funnel_db \<Rightarrow> Transition \<Rightarrow> (unit \<times> funnel_db) fresult" where
  "transition_Create db t =
     (let failed = (\<lambda>m. Inl (Wrapped ''funnel/postgres: Create'' (Opaque m))) in
      if tr_TenantID t = uuid_nil then Inl (Opaque ''funnel/postgres: Create: tenant id is nil'')
      else if tr_ID t = uuid_nil then Inl (Opaque ''funnel/postgres: Create: transition id is nil'')
      else if tr_ConversationID t = uuid_nil then Inl (Opaque ''funnel/postgres: Create: conversation id is nil'')
      else if tr_ToStageID t = uuid_nil then Inl (Opaque ''funnel/postgres: Create: to_stage_id is nil'')
      else if tr_TransitionedByUserID t = uuid_nil then Inl (Opaque ''funnel/postgres: Create: transitioned_by_user_id is nil'')
      else if tr_ID t \<in> set (map tr_ID (fd_transition db)) then failed ''funnel_transition_pkey''
      else if tr_ConversationID t \<notin> set (fd_conversations db) then failed ''funnel_transition_conversation_id_fkey''
      else if \<not> list_all (\<lambda>s. s \<in> set (map st_ID (fd_stage db))) (tr_ToStageID t # (case tr_FromStageID t of None \<Rightarrow> [] | Some f \<Rightarrow> [f]))
        then failed ''funnel_transition_stage_id_fkey''
      else if tr_TransitionedByUserID t \<notin> set (fd_users db) then failed ''funnel_transition_transitioned_by_user_id_fkey''
      else Inr ((), db\<lparr>fd_transition := fd_transition db @ [t]\<rparr>))"

section \<open>Moving a conversation (service)\<close>

definition moved_event :: "Transition \<Rightarrow> Stage \<Rightarrow> ConversationMovedEvent" where
  "moved_event t toStage =
     \<lparr>ce_TenantID = tr_TenantID t, ce_ConversationID = tr_ConversationID t, ce_TransitionID = tr_ID t,
      ce_FromStageID = tr_FromStageID t, ce_ToStageID = tr_ToStageID t, ce_ToStageKey = st_Key toStage,
      ce_TransitionedByUserID = tr_TransitionedByUserID t, ce_TransitionedAt = tr_TransitionedAt t, ce_Reason = tr_Reason t\<rparr>"

definition funnel_Publish :: "ConversationMovedEvent \<Rightarrow> (unit fresult \<Rightarrow> 'a fprog) \<Rightarrow> 'a fprog" where
  "funnel_Publish evt k = command (\<lambda>ev db. Inr ((), db\<lparr>fd_events := fd_events db @ [evt]\<rparr>)) k"

text \<open>The tail of \<^verbatim>\<open>MoveConversation\<close>, once the destination and the current stage are known.\<close>

definition record_move :: "uuid \<Rightarrow> uuid \<Rightarrow> Stage \<Rightarrow> uuid option \<Rightarrow> uuid \<Rightarrow> string \<Rightarrow> unit fresult fprog" where
  "record_move tenantID conversationID toStage fromStageID byUserID reason =
     Act (\<lambda>ev db.
       (let t = \<lparr>tr_ID = o_ids ev 0, tr_TenantID = tenantID, tr_ConversationID = conversationID, tr_FromStageID = fromStageID,
                 tr_ToStageID = st_ID toStage, tr_TransitionedByUserID = byUserID, tr_TransitionedAt = o_now ev, tr_Reason = reason\<rparr>
        in command (\<lambda>_ db. transition_Create db t) (\<lambda>c. case c of
             Inl e \<Rightarrow> Ret (Inl (Wrapped ''funnel: persist transition'' e))
           | Inr _ \<Rightarrow> funnel_Publish (moved_event t toStage) (\<lambda>p. case p of
               Inl e \<Rightarrow> Ret (Inl (Wrapped ''funnel: publish funnel.conversation_moved'' e))
             | Inr _ \<Rightarrow> Ret (Inr ()))), db))"

definition MoveConversation :: "uuid \<Rightarrow> uuid \<Rightarrow> string \<Rightarrow> uuid \<Rightarrow> string \<Rightarrow> unit fresult fprog" where
  "MoveConversation tenantID conversationID toStageKey byUserID reason =
     (if tenantID = uuid_nil then Ret (ferr fn_ErrInvalidTenant)
      else if conversationID = uuid_nil then Ret (ferr fn_ErrInvalidConversation)
      else if byUserID = uuid_nil then Ret (ferr fn_ErrInvalidActor)
      else let key = TrimSpace toStageKey in
      if key = '''' then Ret (ferr fn_ErrInvalidStageKey)
      else query (\<lambda>db. FindByKey db tenantID key) (\<lambda>s. case s of
        Inl e \<Rightarrow>
          if errors_is e fn_ErrNotFound then Ret (Inl (Wrapped key (Sentinel fn_ErrStageNotFound)))
          else Ret (Inl (Wrapped ''funnel: resolve stage'' e))
      | Inr toStage \<Rightarrow>
          query (\<lambda>db. LatestForConversation db tenantID conversationID) (\<lambda>l. case l of
            Inr latest \<Rightarrow>
              if tr_ToStageID latest = st_ID toStage then Ret (Inr ())
              else record_move tenantID conversationID toStage (Some (tr_ToStageID latest)) byUserID reason
          | Inl e \<Rightarrow>
              if errors_is e fn_ErrNotFound then record_move tenantID conversationID toStage None byUserID reason
              else Ret (Inl (Wrapped ''funnel: resolve current stage'' e)))))"

section \<open>Rules\<close>

definition rule_scope :: "Rule \<Rightarrow> rule_Scope" where
  "rule_scope r =
     (if TrimSpace (fr_Channel r) \<noteq> '''' then fr_ScopeChannel
      else if fr_TeamID r \<noteq> None \<and> fr_TeamID r \<noteq> Some uuid_nil then fr_ScopeTeam
      else fr_ScopeTenant)"

text \<open>\<open>lower\<close> is \<^verbatim>\<open>strings.ToLower\<close> on full Unicode; its tables are an argument.\<close>

definition canonicalise :: "(string \<Rightarrow> string) \<Rightarrow> string \<Rightarrow> string" where
  "canonicalise lower s = lower (TrimSpace s)"

definition TriggerSignature :: "(string \<Rightarrow> string) \<Rightarrow> Rule \<Rightarrow> string" where
  "TriggerSignature lower r =
     (case fr_TriggerType r of
        TriggerTypeMessageContains \<Rightarrow>
          (case stringField (fr_TriggerConfig r) ''phrase'' of
             Some v \<Rightarrow> ''message_contains:phrase='' @ canonicalise lower v
           | None \<Rightarrow> '''')
      | TriggerTypeCampaignClick \<Rightarrow>
          (case stringField (fr_TriggerConfig r) ''campaign_id'' of
             Some v \<Rightarrow> ''campaign_click:campaign_id='' @ TrimSpace v
           | None \<Rightarrow>
               (case stringField (fr_TriggerConfig r) ''slug'' of
                  Some v \<Rightarrow> ''campaign_click:slug='' @ canonicalise lower v
                | None \<Rightarrow> ''''))
      | TriggerTypeMessageKeywordRegex \<Rightarrow>
          (case stringField (fr_TriggerConfig r) ''regex'' of
             Some v \<Rightarrow> ''message_keyword_regex:regex='' @ TrimSpace v
           | None \<Rightarrow> '''')
      | TriggerTypeOther _ \<Rightarrow> '''')"

definition trigger_Known :: "TriggerType \<Rightarrow> bool" where
  "trigger_Known t = (case t of TriggerTypeOther _ \<Rightarrow> False | _ \<Rightarrow> True)"

definition action_Known :: "ActionType \<Rightarrow> bool" where
  "action_Known a \<longleftrightarrow> a = ActionTypeMoveToStage"

definition filled :: "rule_config \<Rightarrow> string \<Rightarrow> bool" where
  "filled cfg key = (case stringField cfg key of Some v \<Rightarrow> TrimSpace v \<noteq> '''' | None \<Rightarrow> False)"

definition validateTriggerConfig :: "TriggerType \<Rightarrow> rule_config \<Rightarrow> unit fresult" where
  "validateTriggerConfig t cfg =
     (case t of
        TriggerTypeMessageContains \<Rightarrow> if \<not> filled cfg ''phrase'' then ferr ru_ErrInvalidRule else Inr ()
      | TriggerTypeCampaignClick \<Rightarrow>
          if filled cfg ''campaign_id'' then Inr ()
          else if filled cfg ''slug'' then Inr ()
          else ferr ru_ErrInvalidRule
      | TriggerTypeMessageKeywordRegex \<Rightarrow> if \<not> filled cfg ''regex'' then ferr ru_ErrInvalidRule else Inr ()
      | TriggerTypeOther _ \<Rightarrow> Inr ())"

definition validateActionConfig :: "ActionType \<Rightarrow> rule_config \<Rightarrow> unit fresult" where
  "validateActionConfig a cfg =
     (if a = ActionTypeMoveToStage \<and> \<not> filled cfg ''stage_key'' then ferr ru_ErrInvalidRule else Inr ())"

text \<open>\<open>fresh\<close> is \<^verbatim>\<open>uuid.New()\<close>; a zero \<^verbatim>\<open>now\<close> is \<open>None\<close>, \<open>clock\<close> is \<^verbatim>\<open>time.Now()\<close>.\<close>

definition NewRule ::
  "uuid \<Rightarrow> time \<Rightarrow> uuid \<Rightarrow> uuid \<Rightarrow> string \<Rightarrow> uuid option \<Rightarrow> string \<Rightarrow> TriggerType \<Rightarrow> rule_config \<Rightarrow> ActionType \<Rightarrow> rule_config
   \<Rightarrow> bool \<Rightarrow> time option \<Rightarrow> Rule fresult" where
  "NewRule fresh clock ruleID tenantID channel teamID name triggerType triggerConfig actionType actionConfig enabled now =
     (let name = TrimSpace name in
      if tenantID = uuid_nil then ferr ru_ErrInvalidTenant
      else if name = '''' then ferr ru_ErrInvalidRule
      else if \<not> trigger_Known triggerType then ferr ru_ErrUnknownTriggerType
      else if \<not> action_Known actionType then ferr ru_ErrUnknownActionType
      else case validateTriggerConfig triggerType triggerConfig of Inl e \<Rightarrow> Inl e
      | Inr _ \<Rightarrow> (case validateActionConfig actionType actionConfig of Inl e \<Rightarrow> Inl e
      | Inr _ \<Rightarrow>
          let channel = TrimSpace channel;
              at_time = (case now of None \<Rightarrow> clock | Some t \<Rightarrow> t)
          in Inr \<lparr>fr_ID = (if ruleID = uuid_nil then fresh else ruleID), fr_TenantID = tenantID, fr_Channel = channel,
                  fr_TeamID = (if channel = '''' \<and> teamID \<noteq> None \<and> teamID \<noteq> Some uuid_nil then teamID else None),
                  fr_Name = name, fr_TriggerType = triggerType, fr_TriggerConfig = triggerConfig,
                  fr_ActionType = actionType, fr_ActionConfig = actionConfig, fr_Enabled = enabled,
                  fr_CreatedAt = at_time, fr_UpdatedAt = at_time\<rparr>))"

section \<open>Rules (store)\<close>

text \<open>
  The columns \<^verbatim>\<open>channel\<close> and \<^verbatim>\<open>team_id\<close> of a rule as \<^verbatim>\<open>scopeArgs\<close> sets them: the empty string and \<open>None\<close> stand for NULL. A stored
  configuration is the document itself.
\<close>

definition scopeArgs :: "Rule \<Rightarrow> string \<times> uuid option" where
  "scopeArgs r = (fr_Channel r, if fr_Channel r = '''' \<and> fr_TeamID r \<noteq> None \<and> fr_TeamID r \<noteq> Some uuid_nil then fr_TeamID r else None)"

definition sql_rank :: "Rule \<Rightarrow> nat" where
  "sql_rank r = (if fr_Channel r \<noteq> '''' then 0 else if fr_TeamID r \<noteq> None then 1 else 2)"

definition ListEffectiveForChannel :: "funnel_db \<Rightarrow> uuid \<Rightarrow> string \<Rightarrow> uuid \<Rightarrow> Rule list fresult" where
  "ListEffectiveForChannel db tenantID channel teamID =
     (if tenantID = uuid_nil then ferr ru_ErrInvalidTenant
      else Inr (sort_key (\<lambda>r. (sql_rank r, fr_CreatedAt r, fr_ID r))
        (filter (\<lambda>r. fr_TenantID r = tenantID \<and> fr_Enabled r \<and>
            (channel \<noteq> '''' \<and> fr_Channel r = channel \<or>
             fr_Channel r = '''' \<and> teamID \<noteq> uuid_nil \<and> fr_TeamID r = Some teamID \<or>
             fr_Channel r = '''' \<and> fr_TeamID r = None)) (fd_rules db))))"

definition rules_ListAll :: "funnel_db \<Rightarrow> uuid \<Rightarrow> Rule list fresult" where
  "rules_ListAll db tenantID =
     (if tenantID = uuid_nil then ferr ru_ErrInvalidTenant
      else Inr (sort_key (\<lambda>r. (sql_rank r, fr_CreatedAt r, fr_ID r)) (filter (\<lambda>r. fr_TenantID r = tenantID) (fd_rules db))))"

definition rules_Get :: "funnel_db \<Rightarrow> uuid \<Rightarrow> uuid \<Rightarrow> Rule fresult" where
  "rules_Get db tenantID ruleID =
     (if tenantID = uuid_nil then ferr ru_ErrInvalidTenant
      else case find (\<lambda>r. fr_TenantID r = tenantID \<and> fr_ID r = ruleID) (fd_rules db) of
             None \<Rightarrow> ferr ru_ErrNotFound
           | Some r \<Rightarrow> Inr r)"

definition rules_Create :: "funnel_db \<Rightarrow> Rule \<Rightarrow> (unit \<times> funnel_db) fresult" where
  "rules_Create db r =
     (if fr_TenantID r = uuid_nil then ferr ru_ErrInvalidTenant
      else if fr_ID r \<in> set (map fr_ID (fd_rules db)) then Inl (Wrapped ''funnelrules/postgres: Create'' (Opaque ''funnel_rules_pkey''))
      else Inr ((), db\<lparr>fd_rules := fd_rules db @ [r\<lparr>fr_Channel := fst (scopeArgs r), fr_TeamID := snd (scopeArgs r)\<rparr>]\<rparr>))"

text \<open>The three writes to the row with a given id; row-level security hides the rows of other tenants.\<close>

definition update_rule :: "funnel_db \<Rightarrow> uuid \<Rightarrow> uuid \<Rightarrow> (Rule \<Rightarrow> Rule) \<Rightarrow> (unit \<times> funnel_db) fresult" where
  "update_rule db tenantID ruleID f =
     (if tenantID = uuid_nil then ferr ru_ErrInvalidTenant
      else if \<not> list_ex (\<lambda>x. fr_TenantID x = tenantID \<and> fr_ID x = ruleID) (fd_rules db) then ferr ru_ErrNotFound
      else Inr ((), db\<lparr>fd_rules := map (\<lambda>x. if fr_TenantID x = tenantID \<and> fr_ID x = ruleID then f x else x) (fd_rules db)\<rparr>))"

definition rules_Update :: "time \<Rightarrow> funnel_db \<Rightarrow> Rule \<Rightarrow> (unit \<times> funnel_db) fresult" where
  "rules_Update now db r =
     update_rule db (fr_TenantID r) (fr_ID r) (\<lambda>x. x\<lparr>fr_Channel := fst (scopeArgs r), fr_TeamID := snd (scopeArgs r), fr_Name := fr_Name r,
       fr_TriggerType := fr_TriggerType r, fr_TriggerConfig := fr_TriggerConfig r, fr_ActionType := fr_ActionType r,
       fr_ActionConfig := fr_ActionConfig r, fr_Enabled := fr_Enabled r, fr_UpdatedAt := now\<rparr>)"

definition rules_SetEnabled :: "time \<Rightarrow> funnel_db \<Rightarrow> uuid \<Rightarrow> uuid \<Rightarrow> bool \<Rightarrow> (unit \<times> funnel_db) fresult" where
  "rules_SetEnabled now db tenantID ruleID enabled = update_rule db tenantID ruleID (\<lambda>x. x\<lparr>fr_Enabled := enabled, fr_UpdatedAt := now\<rparr>)"

text \<open>Deleting a rule deletes its application rows (\<^verbatim>\<open>ON DELETE CASCADE\<close>).\<close>

definition rules_Delete :: "funnel_db \<Rightarrow> uuid \<Rightarrow> uuid \<Rightarrow> (unit \<times> funnel_db) fresult" where
  "rules_Delete db tenantID ruleID =
     (if tenantID = uuid_nil then ferr ru_ErrInvalidTenant
      else if \<not> list_ex (\<lambda>x. fr_TenantID x = tenantID \<and> fr_ID x = ruleID) (fd_rules db) then ferr ru_ErrNotFound
      else Inr ((), db\<lparr>fd_rules := filter (\<lambda>x. \<not> (fr_TenantID x = tenantID \<and> fr_ID x = ruleID)) (fd_rules db),
                      fd_applications := filter (\<lambda>a. fa_RuleID a \<noteq> ruleID) (fd_applications db)\<rparr>))"

section \<open>The cascade\<close>

text \<open>\<^verbatim>\<open>sort.SliceStable\<close> by scope, creation time and printed identifier.\<close>

definition cascade_key :: "(uuid \<Rightarrow> string) \<Rightarrow> Rule \<Rightarrow> nat \<times> time \<times> string" where
  "cascade_key ustr r = (scopeRank (rule_scope r), fr_CreatedAt r, ustr (fr_ID r))"

fun first_of_signature :: "(string \<Rightarrow> string) \<Rightarrow> string list \<Rightarrow> Rule list \<Rightarrow> (Rule \<times> rule_Scope) list" where
  "first_of_signature lower seen [] = []"
| "first_of_signature lower seen (r # rs) =
     (let sig = TriggerSignature lower r in
      if sig \<noteq> '''' \<and> sig \<in> set seen then first_of_signature lower seen rs
      else (r, rule_scope r) # first_of_signature lower (if sig \<noteq> '''' then sig # seen else seen) rs)"

definition cascade :: "(uuid \<Rightarrow> string) \<Rightarrow> (string \<Rightarrow> string) \<Rightarrow> Rule list \<Rightarrow> (Rule \<times> rule_Scope) list" where
  "cascade ustr lower candidates =
     first_of_signature lower [] (sort_key (cascade_key ustr) (filter fr_Enabled candidates))"

definition rules_Resolve :: "(uuid \<Rightarrow> string) \<Rightarrow> (string \<Rightarrow> string) \<Rightarrow> uuid \<Rightarrow> string \<Rightarrow> uuid
    \<Rightarrow> ((Rule \<times> rule_Scope) list fresult \<Rightarrow> 'a fprog) \<Rightarrow> 'a fprog" where
  "rules_Resolve ustr lower tenantID channel teamID k =
     (if tenantID = uuid_nil then k (ferr ru_ErrInvalidTenant)
      else query (\<lambda>db. ListEffectiveForChannel db tenantID channel teamID) (\<lambda>r. case r of
             Inl e \<Rightarrow> k (Inl e)
           | Inr candidates \<Rightarrow> k (Inr (cascade ustr lower candidates))))"

section \<open>Applications (store)\<close>

definition IsApplied :: "funnel_db \<Rightarrow> uuid \<Rightarrow> uuid \<Rightarrow> uuid \<Rightarrow> bool fresult" where
  "IsApplied db tenantID ruleID messageID =
     (if tenantID = uuid_nil then Inl (Opaque ''funnelapplications/postgres: nil tenantID'')
      else if ruleID = uuid_nil then Inl (Opaque ''funnelapplications/postgres: nil ruleID'')
      else if messageID = uuid_nil then Inl (Opaque ''funnelapplications/postgres: nil messageID'')
      else Inr (list_ex (\<lambda>a. fa_TenantID a = tenantID \<and> fa_RuleID a = ruleID \<and> fa_MessageID a = messageID) (fd_applications db)))"

definition application_Record :: "funnel_db \<Rightarrow> Application \<Rightarrow> (unit \<times> funnel_db) fresult" where
  "application_Record db app =
     (if fa_TenantID app = uuid_nil then Inl (Opaque ''funnelapplications/postgres: nil tenantID'')
      else if fa_RuleID app = uuid_nil then Inl (Opaque ''funnelapplications/postgres: nil ruleID'')
      else if fa_MessageID app = uuid_nil then Inl (Opaque ''funnelapplications/postgres: nil messageID'')
      else if fa_ConversationID app = uuid_nil then Inl (Opaque ''funnelapplications/postgres: nil conversationID'')
      else if fa_ActionType app = '''' then Inl (Opaque ''funnelapplications/postgres: blank actionType'')
      else if list_ex (\<lambda>a. fa_RuleID a = fa_RuleID app \<and> fa_MessageID a = fa_MessageID app) (fd_applications db)
        then ferr en_ErrAlreadyApplied
      else if fa_RuleID app \<notin> set (map fr_ID (fd_rules db))
        then Inl (Wrapped ''funnelapplications/postgres: Record'' (Opaque ''funnel_rule_applications_rule_id_fkey''))
      else Inr ((), db\<lparr>fd_applications := fd_applications db @ [app]\<rparr>))"

section \<open>The engine\<close>

text \<open>
  \<open>fe_regex\<close> is the regular expression package: \<open>None\<close> for an expression that does not compile, else the match. \<open>fe_ustr\<close> prints an
  identifier, \<open>fe_lower\<close> is \<^verbatim>\<open>strings.ToLower\<close>.
\<close>

record funnel_engine =
  fe_ustr :: "uuid \<Rightarrow> string"
  fe_uparse :: "string \<Rightarrow> uuid option"
  fe_lower :: "string \<Rightarrow> string"
  fe_regex :: "string \<Rightarrow> (string \<Rightarrow> bool) option"

definition SystemActor :: uuid where
  "SystemActor = 0xace"

definition MoveReason :: string where
  "MoveReason = ''funnel-rule-engine''"

definition ActionType_text :: "ActionType \<Rightarrow> string" where
  "ActionType_text a = (case a of ActionTypeMoveToStage \<Rightarrow> ''move_to_stage'' | ActionTypeOther s \<Rightarrow> s)"

definition matchTrigger :: "funnel_engine \<Rightarrow> Rule \<Rightarrow> InboundMessage \<Rightarrow> bool" where
  "matchTrigger e rule msg =
     (case fr_TriggerType rule of
        TriggerTypeMessageContains \<Rightarrow>
          (case stringField (fr_TriggerConfig rule) ''phrase'' of
             None \<Rightarrow> False
           | Some phrase \<Rightarrow>
               let needle = fe_lower e (TrimSpace phrase) in
               needle \<noteq> '''' \<and> sublist needle (fe_lower e (im_Body msg)))
      | TriggerTypeMessageKeywordRegex \<Rightarrow>
          (case stringField (fr_TriggerConfig rule) ''regex'' of
             None \<Rightarrow> False
           | Some expr \<Rightarrow>
               let expr = TrimSpace expr in
               expr \<noteq> '''' \<and> (case fe_regex e expr of None \<Rightarrow> False | Some re \<Rightarrow> re (im_Body msg)))
      | TriggerTypeCampaignClick \<Rightarrow> False
      | TriggerTypeOther _ \<Rightarrow> False)"

definition stageKey :: "Rule \<Rightarrow> string option" where
  "stageKey rule =
     (if fr_ActionType rule \<noteq> ActionTypeMoveToStage then None
      else if filled (fr_ActionConfig rule) ''stage_key''
        then map_option TrimSpace (stringField (fr_ActionConfig rule) ''stage_key'')
      else if filled (fr_ActionConfig rule) ''stage''
        then map_option TrimSpace (stringField (fr_ActionConfig rule) ''stage'')
      else None)"

definition tryRule :: "funnel_engine \<Rightarrow> InboundMessage \<Rightarrow> Rule \<Rightarrow> unit fresult fprog" where
  "tryRule e msg rule =
     (if \<not> matchTrigger e rule msg then Ret (Inr ())
      else query (\<lambda>db. IsApplied db (im_TenantID msg) (fr_ID rule) (im_MessageID msg)) (\<lambda>a. case a of
        Inl err \<Rightarrow> Ret (Inl (Wrapped ''engine: is-applied check'' err))
      | Inr applied \<Rightarrow>
          if applied then Ret (Inr ())
          else case stageKey rule of
            None \<Rightarrow> Ret (Inr ())
          | Some stage \<Rightarrow>
              bind_prog (MoveConversation (im_TenantID msg) (im_ConversationID msg) stage SystemActor MoveReason) (\<lambda>m. case m of
                Inl err \<Rightarrow> Ret (Inl (Wrapped ''engine: move conversation'' err))
              | Inr _ \<Rightarrow> read_clock (\<lambda>now.
                  command (\<lambda>_ db. application_Record db
                    \<lparr>fa_TenantID = im_TenantID msg, fa_RuleID = fr_ID rule, fa_MessageID = im_MessageID msg,
                     fa_ConversationID = im_ConversationID msg, fa_ActionType = ActionType_text (fr_ActionType rule), fa_AppliedAt = now\<rparr>)
                    (\<lambda>r. case r of
                       Inl err \<Rightarrow>
                         if errors_is err en_ErrAlreadyApplied then Ret (Inr ())
                         else Ret (Inl (Wrapped ''engine: record application'' err))
                     | Inr _ \<Rightarrow> Ret (Inr ()))))))"

primrec tryRules :: "funnel_engine \<Rightarrow> InboundMessage \<Rightarrow> Rule list \<Rightarrow> unit fresult fprog" where
  "tryRules e msg [] = Ret (Inr ())"
| "tryRules e msg (r # rs) = bind_prog (tryRule e msg r) (\<lambda>x. case x of Inl err \<Rightarrow> Ret (Inl err) | Inr _ \<Rightarrow> tryRules e msg rs)"

definition engine_validate :: "InboundMessage \<Rightarrow> unit fresult" where
  "engine_validate msg =
     (if im_TenantID msg = uuid_nil then ferr en_ErrInvalidEvent
      else if im_ConversationID msg = uuid_nil then ferr en_ErrInvalidEvent
      else if im_MessageID msg = uuid_nil then ferr en_ErrInvalidEvent
      else if im_Channel msg = '''' then ferr en_ErrInvalidEvent
      else Inr ())"

definition engine_Handle :: "funnel_engine \<Rightarrow> InboundMessage \<Rightarrow> unit fresult fprog" where
  "engine_Handle e msg =
     (case engine_validate msg of
        Inl err \<Rightarrow> Ret (Inl err)
      | Inr _ \<Rightarrow>
          rules_Resolve (fe_ustr e) (fe_lower e) (im_TenantID msg) (im_Channel msg) uuid_nil (\<lambda>r. case r of
            Inl err \<Rightarrow> Ret (Inl (Wrapped ''engine: resolve rules'' err))
          | Inr resolved \<Rightarrow> tryRules e msg (map fst resolved)))"

section \<open>The wire format and the consumer\<close>

text \<open>A zero \<^verbatim>\<open>occurred_at\<close> is \<open>None\<close>.\<close>

record InboundMessageEvent =
  ie_TenantID :: string
  ie_ConversationID :: string
  ie_MessageID :: string
  ie_Channel :: string
  ie_Body :: string
  ie_OccurredAt :: "time option"

text \<open>\<open>marshal\<close> and \<open>unmarshal\<close> are \<^verbatim>\<open>encoding/json\<close> at this type; \<open>None\<close> is a decoding error.\<close>

definition wire_event :: "funnel_engine \<Rightarrow> InboundMessage \<Rightarrow> InboundMessageEvent" where
  "wire_event e m =
     \<lparr>ie_TenantID = fe_ustr e (im_TenantID m), ie_ConversationID = fe_ustr e (im_ConversationID m),
      ie_MessageID = fe_ustr e (im_MessageID m), ie_Channel = im_Channel m, ie_Body = im_Body m,
      ie_OccurredAt = Some (im_OccurredAt m)\<rparr>"

definition EncodeInboundMessage :: "funnel_engine \<Rightarrow> (InboundMessageEvent \<Rightarrow> string) \<Rightarrow> InboundMessage \<Rightarrow> string" where
  "EncodeInboundMessage e marshal m = marshal (wire_event e m)"

definition parse_id :: "funnel_engine \<Rightarrow> string \<Rightarrow> uuid option" where
  "parse_id e s = (case fe_uparse e (TrimSpace s) of Some u \<Rightarrow> if u = uuid_nil then None else Some u | None \<Rightarrow> None)"

definition DecodeInboundMessage :: "funnel_engine \<Rightarrow> (string \<Rightarrow> InboundMessageEvent option) \<Rightarrow> string \<Rightarrow> InboundMessage fresult" where
  "DecodeInboundMessage e unmarshal raw =
     (if raw = '''' then ferr en_ErrInvalidEvent
      else case unmarshal raw of
        None \<Rightarrow> Inl (Wrapped ''json'' (Sentinel en_ErrInvalidEvent))
      | Some w \<Rightarrow>
          (case (parse_id e (ie_TenantID w), parse_id e (ie_ConversationID w), parse_id e (ie_MessageID w), TrimSpace (ie_Channel w), ie_OccurredAt w) of
             (Some tenantID, Some conversationID, Some messageID, c # channel, Some occurredAt) \<Rightarrow>
               Inr \<lparr>im_TenantID = tenantID, im_ConversationID = conversationID, im_MessageID = messageID,
                    im_Channel = fe_lower e (c # channel), im_Body = ie_Body w, im_OccurredAt = occurredAt\<rparr>
           | _ \<Rightarrow> ferr en_ErrInvalidEvent))"

text \<open>The answer to the broker: acknowledge, or leave the delivery for another attempt. A failure of the acknowledgement itself is not modelled.\<close>

datatype delivery_answer = Acked | Redeliver "funnel_sentinel goerr"

definition Consumer_Handle :: "funnel_engine \<Rightarrow> (string \<Rightarrow> InboundMessageEvent option) \<Rightarrow> string \<Rightarrow> delivery_answer fprog" where
  "Consumer_Handle e unmarshal body =
     (if body = '''' then Ret Acked
      else case DecodeInboundMessage e unmarshal body of
        Inl err \<Rightarrow> Ret Acked
      | Inr msg \<Rightarrow>
          bind_prog (engine_Handle e msg) (\<lambda>r. case r of
            Inl err \<Rightarrow> if errors_is err en_ErrInvalidEvent then Ret Acked else Ret (Redeliver (Wrapped ''funnel_engine: handle'' err))
          | Inr _ \<Rightarrow> Ret Acked))"

end
