(* ===== verification/ClaimOnce.thy ===== *)
theory ClaimOnce
  imports Interleaving
begin

text \<open>
  Work that may be done once: a program first claims a key in a ledger with a unique constraint, and who has inserted the row may do the work. A
  single store does not show who that was, so the argument keeps one credit for the program that claimed: \<open>once\<close> says of a program that it keeps the
  invariant of the store, evolves it as agreed, and never works without spending a credit. The locale turns that into a fact about every
  interleaving: the work is done at most once, and only after the claim.
\<close>

inductive once ::
  "('s \<Rightarrow> bool) \<Rightarrow> ('s \<Rightarrow> 's \<Rightarrow> bool) \<Rightarrow> ('s \<Rightarrow> bool) \<Rightarrow> ('s \<Rightarrow> nat) \<Rightarrow> bool \<Rightarrow> 's \<Rightarrow> ('s, 'o, 'a) prog \<Rightarrow> bool"
  for I E claimed uses where
  once_Ret: "once I E claimed uses b s (Ret a)"
| once_Act:
  "(\<And>s1 ev p s2. I s1 \<Longrightarrow> E s s1 \<Longrightarrow> (b \<Longrightarrow> claimed s1) \<Longrightarrow> f ev s1 = (p, s2) \<Longrightarrow>
      I s2 \<and> E s1 s2 \<and> (claimed s1 \<longrightarrow> claimed s2) \<and>
      (\<exists>b'. once I E claimed uses b' s2 p \<and>
         uses s2 + of_bool b' \<le> uses s1 + of_bool b + of_bool (\<not> claimed s1 \<and> claimed s2)))
   \<Longrightarrow> once I E claimed uses b s (Act f)"

inductive_cases once_ActE: "once I E claimed uses b s (Act f)"

lemma once_ActD:
  assumes "once I E claimed uses b s (Act f)" "I s1" "E s s1" "b \<Longrightarrow> claimed s1" "f ev s1 = (p, s2)"
  shows "I s2 \<and> E s1 s2 \<and> (claimed s1 \<longrightarrow> claimed s2) \<and>
      (\<exists>b'. once I E claimed uses b' s2 p \<and> uses s2 + of_bool b' \<le> uses s1 + of_bool b + of_bool (\<not> claimed s1 \<and> claimed s2))"
  using assms(1)
proof (cases rule: once.cases)
  case once_Act
  show ?thesis by (rule once_Act [OF assms(2,3,4,5)])
qed

locale claim_once =
  fixes I :: "'s \<Rightarrow> bool" and E :: "'s \<Rightarrow> 's \<Rightarrow> bool" and claimed :: "'s \<Rightarrow> bool" and uses :: "'s \<Rightarrow> nat"
  assumes E_refl: "I s \<Longrightarrow> E s s" and E_trans: "E s t \<Longrightarrow> E t u \<Longrightarrow> E s u"
begin

lemma once_later:
  assumes "once I E claimed uses b s p" "E s t"
  shows "once I E claimed uses b t p"
proof (cases p)
  case (Ret a)
  then show ?thesis by (simp add: once_Ret)
next
  case (Act f)
  show ?thesis unfolding Act
    by (rule once_Act, rule once_ActD [OF assms(1) [unfolded Act] _ E_trans [OF assms(2)]])
qed

lemma once_weaken:
  assumes "once I E claimed uses False s p"
  shows "once I E claimed uses b s p"
proof (cases p)
  case (Ret a)
  then show ?thesis by (simp add: once_Ret)
next
  case (Act f)
  show ?thesis unfolding Act
  proof (rule once_Act)
    fix s1 ev q s2
    assume a: "I s1" "E s s1" "f ev s1 = (q, s2)"

    from once_ActD [OF assms [unfolded Act] a(1,2) _ a(3)] obtain b' where
      k: "I s2" "E s1 s2" "claimed s1 \<longrightarrow> claimed s2" "once I E claimed uses b' s2 q"
        "uses s2 + of_bool b' \<le> uses s1 + of_bool (\<not> claimed s1 \<and> claimed s2)"
      by auto
    then show "I s2 \<and> E s1 s2 \<and> (claimed s1 \<longrightarrow> claimed s2) \<and>
        (\<exists>b'. once I E claimed uses b' s2 q \<and> uses s2 + of_bool b' \<le> uses s1 + of_bool b + of_bool (\<not> claimed s1 \<and> claimed s2))"
      by (intro conjI exI [of _ b']) auto
  qed
qed

lemma once_bind:
  assumes "once I E claimed uses b s p"
  shows "once I E claimed uses b s (bind_prog p (\<lambda>a. Ret (g a)))"
  using assms
proof (induction p arbitrary: b s rule: prog.induct)
  case (Ret a)
  then show ?case by (simp add: once_Ret)
next
  case (Act f)
  show ?case unfolding bind_prog.simps
  proof (rule once_Act)
    fix s1 ev q s2
    assume a: "I s1" "E s s1" "b \<Longrightarrow> claimed s1" and q: "map_prod (\<lambda>p. bind_prog p (\<lambda>a. Ret (g a))) id (f ev s1) = (q, s2)"
    then obtain p where p: "f ev s1 = (p, s2)" "q = bind_prog p (\<lambda>a. Ret (g a))" by (cases "f ev s1") auto
    have "p \<in> Basic_BNFs.fsts (f ev s1)" by (simp add: p)
    then have IH: "once I E claimed uses b' s2 p \<Longrightarrow> once I E claimed uses b' s2 q" for b' using Act.IH [OF rangeI rangeI] p(2) by simp
    from once_ActD [OF Act.prems a(1,2,3) p(1)]
    show "I s2 \<and> E s1 s2 \<and> (claimed s1 \<longrightarrow> claimed s2) \<and>
        (\<exists>b'. once I E claimed uses b' s2 q \<and> uses s2 + of_bool b' \<le> uses s1 + of_bool b + of_bool (\<not> claimed s1 \<and> claimed s2))"
      using IH by blast
  qed
qed

text \<open>Reads, clock readings and writes that do no work keep the credit.\<close>

lemma once_query:
  assumes "\<And>s1 r. I s1 \<Longrightarrow> E s s1 \<Longrightarrow> r = q s1 \<or> (\<exists>m. r = Inl (Opaque m)) \<Longrightarrow> once I E claimed uses b s1 (k r)"
  shows "once I E claimed uses b s (query q k)"
  unfolding query_def
proof (rule once_Act)
  fix s1 ev p s2
  assume a: "I s1" "E s s1"
    and f: "(case o_fault ev of NoFault \<Rightarrow> (k (q s1), s1) | FailBefore m \<Rightarrow> (k (Inl (Opaque m)), s1) | FailAfter m \<Rightarrow> (k (Inl (Opaque m)), s1)) = (p, s2)"
  then have "s2 = s1" "\<exists>r. (r = q s1 \<or> (\<exists>m. r = Inl (Opaque m))) \<and> p = k r" by (auto split: fault.splits)
  then show "I s2 \<and> E s1 s2 \<and> (claimed s1 \<longrightarrow> claimed s2) \<and>
      (\<exists>b'. once I E claimed uses b' s2 p \<and> uses s2 + of_bool b' \<le> uses s1 + of_bool b + of_bool (\<not> claimed s1 \<and> claimed s2))"
    using a assms E_refl by (auto intro!: exI [of _ b])
qed

lemma once_pure:
  assumes "\<And>s1 ev. I s1 \<Longrightarrow> E s s1 \<Longrightarrow> once I E claimed uses b s1 (g ev s1)"
  shows "once I E claimed uses b s (Act (\<lambda>ev s. (g ev s, s)))"
  by (rule once_Act) (use assms E_refl in \<open>auto intro!: exI [of _ b]\<close>)

lemma once_command_gen:
  assumes step: "\<And>s1 ev x s2. I s1 \<Longrightarrow> E s s1 \<Longrightarrow> (b \<Longrightarrow> claimed s1) \<Longrightarrow> c ev s1 = Inr (x, s2) \<Longrightarrow>
      I s2 \<and> E s1 s2 \<and> (claimed s1 \<longrightarrow> claimed s2) \<and>
      (\<exists>b'. once I E claimed uses b' s2 (k (Inr x)) \<and> (\<forall>m. once I E claimed uses b' s2 (k (Inl (Opaque m)))) \<and>
         uses s2 + of_bool b' \<le> uses s1 + of_bool b + of_bool (\<not> claimed s1 \<and> claimed s2))"
    and err: "\<And>s1 ev e. I s1 \<Longrightarrow> E s s1 \<Longrightarrow> c ev s1 = Inl e \<or> (\<exists>m. e = Opaque m) \<Longrightarrow> once I E claimed uses b s1 (k (Inl e))"
  shows "once I E claimed uses b s (command c k)"
  unfolding command_def
proof (rule once_Act)
  fix s1 ev p s2
  assume a: "I s1" "E s s1" "b \<Longrightarrow> claimed s1"
    and f: "(case o_fault ev of
        FailBefore m \<Rightarrow> (k (Inl (Opaque m)), s1)
      | NoFault \<Rightarrow> (case c ev s1 of Inl e \<Rightarrow> (k (Inl e), s1) | Inr (x, s') \<Rightarrow> (k (Inr x), s'))
      | FailAfter m \<Rightarrow> (k (Inl (Opaque m)), case c ev s1 of Inl e \<Rightarrow> s1 | Inr (x, s') \<Rightarrow> s')) = (p, s2)"
  have same: "s2 = s1 \<and> once I E claimed uses b s1 p \<or>
      (\<exists>x. c ev s1 = Inr (x, s2) \<and> (p = k (Inr x) \<or> (\<exists>m. p = k (Inl (Opaque m)))))"
    using f err [OF a(1,2)] by (auto split: fault.splits sum.splits)
  then show "I s2 \<and> E s1 s2 \<and> (claimed s1 \<longrightarrow> claimed s2) \<and>
      (\<exists>b'. once I E claimed uses b' s2 p \<and> uses s2 + of_bool b' \<le> uses s1 + of_bool b + of_bool (\<not> claimed s1 \<and> claimed s2))"
  proof (elim disjE exE conjE)
    assume "s2 = s1" "once I E claimed uses b s1 p"
    then show ?thesis using a(1) E_refl by (auto intro!: exI [of _ b])
  next
    fix x assume c: "c ev s1 = Inr (x, s2)" and p: "p = k (Inr x)"
    show ?thesis using step [OF a c] p by blast
  next
    fix x m assume c: "c ev s1 = Inr (x, s2)" and p: "p = k (Inl (Opaque m))"
    show ?thesis using step [OF a c] p by blast
  qed
qed

lemma once_command:
  assumes "\<And>s1 ev x s2. I s1 \<Longrightarrow> E s s1 \<Longrightarrow> c ev s1 = Inr (x, s2) \<Longrightarrow>
      I s2 \<and> E s1 s2 \<and> (claimed s1 \<longrightarrow> claimed s2) \<and> uses s2 \<le> uses s1 \<and> once I E claimed uses b s2 (k (Inr x)) \<and>
      (\<forall>m. once I E claimed uses b s2 (k (Inl (Opaque m))))"
    and "\<And>s1 ev e. I s1 \<Longrightarrow> E s s1 \<Longrightarrow> c ev s1 = Inl e \<or> (\<exists>m. e = Opaque m) \<Longrightarrow> once I E claimed uses b s1 (k (Inl e))"
  shows "once I E claimed uses b s (command c k)"
proof (rule once_command_gen)
  fix s1 ev x s2
  assume "I s1" "E s s1" "c ev s1 = Inr (x, s2)"
  from assms(1) [OF this] show "I s2 \<and> E s1 s2 \<and> (claimed s1 \<longrightarrow> claimed s2) \<and>
      (\<exists>b'. once I E claimed uses b' s2 (k (Inr x)) \<and> (\<forall>m. once I E claimed uses b' s2 (k (Inl (Opaque m)))) \<and>
         uses s2 + of_bool b' \<le> uses s1 + of_bool b + of_bool (\<not> claimed s1 \<and> claimed s2))"
    by (intro conjI exI [of _ b]) simp_all
qed (rule assms(2))

text \<open>Doing the work spends the credit.\<close>

lemma once_work:
  assumes "\<And>s1 ev x s2. I s1 \<Longrightarrow> E s s1 \<Longrightarrow> c ev s1 = Inr (x, s2) \<Longrightarrow>
      I s2 \<and> E s1 s2 \<and> (claimed s1 \<longrightarrow> claimed s2) \<and> uses s2 \<le> Suc (uses s1) \<and> once I E claimed uses False s2 (k (Inr x)) \<and>
      (\<forall>m. once I E claimed uses False s2 (k (Inl (Opaque m))))"
    and "\<And>s1 ev e. I s1 \<Longrightarrow> E s s1 \<Longrightarrow> c ev s1 = Inl e \<or> (\<exists>m. e = Opaque m) \<Longrightarrow> once I E claimed uses True s1 (k (Inl e))"
  shows "once I E claimed uses True s (command c k)"
proof (rule once_command_gen)
  fix s1 ev x s2
  assume "I s1" "E s s1" "c ev s1 = Inr (x, s2)"
  from assms(1) [OF this] show "I s2 \<and> E s1 s2 \<and> (claimed s1 \<longrightarrow> claimed s2) \<and>
      (\<exists>b'. once I E claimed uses b' s2 (k (Inr x)) \<and> (\<forall>m. once I E claimed uses b' s2 (k (Inl (Opaque m)))) \<and>
         uses s2 + of_bool b' \<le> uses s1 + of_bool True + of_bool (\<not> claimed s1 \<and> claimed s2))"
    by (intro conjI exI [of _ False]) simp_all
qed (rule assms(2))

text \<open>Inserting the claim earns it.\<close>

lemma once_claim:
  assumes "\<And>s1 ev x s2. I s1 \<Longrightarrow> E s s1 \<Longrightarrow> c ev s1 = Inr (x, s2) \<Longrightarrow>
      I s2 \<and> E s1 s2 \<and> \<not> claimed s1 \<and> claimed s2 \<and> uses s2 \<le> uses s1 \<and> once I E claimed uses True s2 (k (Inr x)) \<and>
      (\<forall>m. once I E claimed uses True s2 (k (Inl (Opaque m))))"
    and "\<And>s1 ev e. I s1 \<Longrightarrow> E s s1 \<Longrightarrow> c ev s1 = Inl e \<or> (\<exists>m. e = Opaque m) \<Longrightarrow> once I E claimed uses False s1 (k (Inl e))"
  shows "once I E claimed uses False s (command c k)"
proof (rule once_command_gen)
  fix s1 ev x s2
  assume "I s1" "E s s1" "c ev s1 = Inr (x, s2)"
  from assms(1) [OF this] show "I s2 \<and> E s1 s2 \<and> (claimed s1 \<longrightarrow> claimed s2) \<and>
      (\<exists>b'. once I E claimed uses b' s2 (k (Inr x)) \<and> (\<forall>m. once I E claimed uses b' s2 (k (Inl (Opaque m)))) \<and>
         uses s2 + of_bool b' \<le> uses s1 + of_bool False + of_bool (\<not> claimed s1 \<and> claimed s2))"
    by (intro conjI exI [of _ True]) simp_all
qed (rule assms(2))

text \<open>A program that runs alone.\<close>

lemma once_run:
  assumes "once I E claimed uses b s p" "I s" "b \<Longrightarrow> claimed s" "uses s + of_bool b \<le> of_bool (claimed s)" "run p os n s = (a, n', s')"
  shows "I s' \<and> E s s' \<and> (claimed s \<longrightarrow> claimed s') \<and> uses s' \<le> of_bool (claimed s')"
  using assms
proof (induction p arbitrary: b n s rule: prog.induct)
  case (Ret x)
  then show ?case by (auto intro: E_refl)
next
  case (Act f)
  obtain p t where f: "f (os n) s = (p, t)" by (cases "f (os n) s")
  from once_ActD [OF Act.prems(1,2) E_refl [OF Act.prems(2)] Act.prems(3) f] obtain b' where
    t: "I t" "E s t" "claimed s \<longrightarrow> claimed t" "once I E claimed uses b' t p"
      "uses t + of_bool b' \<le> uses s + of_bool b + of_bool (\<not> claimed s \<and> claimed t)" by auto
  have le: "uses t + of_bool b' \<le> of_bool (claimed t)" using t(3,5) Act.prems(4) by (cases "claimed s"; cases "claimed t") auto
  have "p \<in> Basic_BNFs.fsts (f (os n) s)" by (simp add: f)
  moreover have "run p os (Suc n) t = (a, n', s')" using Act.prems(5) f by simp
  moreover have "b' \<Longrightarrow> claimed t" using le by (cases "claimed t") auto
  ultimately have "I s' \<and> E t s' \<and> (claimed t \<longrightarrow> claimed s') \<and> uses s' \<le> of_bool (claimed s')"
    using Act.IH [OF rangeI rangeI] t(1,4) le by blast
  then show ?case using t(2,3) by (auto intro: E_trans)
qed

section \<open>Interleavings\<close>

lemma work_done_once:
  assumes reach: "pool_reach (\<lambda>_ _. True) start s0 c" and init: "I s0" "uses s0 \<le> of_bool (claimed s0)"
    and start: "\<And>s p. I s \<Longrightarrow> start s p \<Longrightarrow> once I E claimed uses False s p"
  shows "I (fst c) \<and> E s0 (fst c) \<and> uses (fst c) \<le> of_bool (claimed (fst c))"
proof -
  have "I (fst c) \<and> E s0 (fst c) \<and>
      (\<exists>owner. (\<forall>i. once I E claimed uses (owner = Some i) (fst c) (snd c i)) \<and>
         uses (fst c) + of_bool (owner \<noteq> None) \<le> of_bool (claimed (fst c)))"
    using reach
  proof (induction rule: pool_reach.induct)
    case (reach_init a)
    then show ?case using init E_refl by (auto intro: once_Ret intro!: exI [of _ None])
  next
    case (reach_step c c')
    then obtain owner where IH: "I (fst c)" "E s0 (fst c)" "\<And>i. once I E claimed uses (owner = Some i) (fst c) (snd c i)"
      "uses (fst c) + of_bool (owner \<noteq> None) \<le> of_bool (claimed (fst c))" by auto
    from reach_step.hyps(2) show ?case
    proof (cases rule: pool_step.cases)
      case (step_call pool i f s ev p s')
      have i: "once I E claimed uses (owner = Some i) s (Act f)" using IH(3) [of i] step_call by simp
      have cl: "claimed s" if "owner = Some i" using IH(4) that step_call by (cases "claimed s") auto
      from once_ActD [OF i _ _ cl \<open>f ev s = (p, s')\<close>] IH(1) E_refl step_call obtain b' where
        k: "I s'" "E s s'" "claimed s \<longrightarrow> claimed s'" "once I E claimed uses b' s' p"
          "uses s' + of_bool b' \<le> uses s + of_bool (owner = Some i) + of_bool (\<not> claimed s \<and> claimed s')"
        by auto
      define owner' where "owner' = (if b' then Some i else if owner = Some i then None else owner)"
      have le: "uses s + of_bool (owner \<noteq> None) \<le> of_bool (claimed s)" using IH(4) step_call by simp
      have only: "owner = None \<or> owner = Some i" if b'
        using k(3,5) le that by (cases "claimed s"; cases owner; cases "owner = Some i") auto
      have "once I E claimed uses (owner' = Some j) s' ((pool(i := p)) j)" for j
      proof (cases "j = i")
        case True
        then show ?thesis using k(4) only once_weaken [of s' p] by (cases b') (auto simp: owner'_def)
      next
        case False
        then have "once I E claimed uses (owner = Some j) s' (pool j)" using IH(3) [of j] step_call k(2) by (auto intro: once_later)
        moreover have "(owner' = Some j) = (owner = Some j)" using False only by (auto simp: owner'_def)
        ultimately show ?thesis using False by simp
      qed
      moreover have "uses s' + of_bool (owner' \<noteq> None) \<le> of_bool (claimed s')"
        using k(3,5) le only by (cases b'; cases "claimed s"; cases "claimed s'"; cases owner; cases "owner = Some i") (auto simp: owner'_def)
      moreover have "E s0 s'" using IH(2) k(2) step_call by (auto intro: E_trans)
      ultimately have "I s' \<and> E s0 s' \<and> (\<exists>owner. (\<forall>i'. once I E claimed uses (owner = Some i') s' ((pool(i := p)) i')) \<and>
          uses s' + of_bool (owner \<noteq> None) \<le> of_bool (claimed s'))"
        using k(1) by blast
      then show ?thesis using step_call by simp
    next
      case (step_start pool i a s p)
      have p: "once I E claimed uses b s p" for b using start [of s p] step_start IH(1) once_weaken by auto
      have "once I E claimed uses (owner = Some j) s ((pool(i := p)) j)" for j
        using IH(3) [of j] p step_start by (cases "j = i") auto
      then have "I s \<and> E s0 s \<and> (\<exists>owner. (\<forall>i'. once I E claimed uses (owner = Some i') s ((pool(i := p)) i')) \<and>
          uses s + of_bool (owner \<noteq> None) \<le> of_bool (claimed s))"
        using IH(1,2,4) step_start(1) by (intro conjI exI [of _ owner] allI) simp_all
      then show ?thesis using step_start by simp
    qed
  qed
  then show ?thesis by auto
qed

end

text \<open>What a write may do in a run: fail without effect, or have its effect, acknowledged or not.\<close>

lemma run_command_cases:
  assumes "run (command c k) os n s = (r, n', s')"
  obtains (failed) e where "run (k (Inl e)) os (Suc n) s = (r, n', s')"
  | (effect) x y s1 where "c (os n) s = Inr (x, s1)" "run (k y) os (Suc n) s1 = (r, n', s')" "y = Inr x \<or> (\<exists>m. y = Inl (Opaque m))"
  using assms by (cases "o_fault (os n)"; cases "c (os n) s") auto

text \<open>A run of one program is an interleaving.\<close>

lemma reach_by_running:
  assumes "pool_reach (\<lambda>_ _. True) start s0 (s, pool)" "pool i = p" "run p os n s = (a, n', s')"
  shows "\<exists>pool'. pool_reach (\<lambda>_ _. True) start s0 (s', pool') \<and> pool' i = Ret a"
  by (rule reach_by_run [OF assms(1,2) run_ok_True assms(3)])

lemma reach_by_call:
  assumes "start s p" "run p os n s = (a, n', s')"
  shows "\<exists>pool. pool_reach (\<lambda>_ _. True) start s (s', pool)"
proof -
  have "pool_reach (\<lambda>_ _. True) start s (s, (\<lambda>_. Ret a)(0 := p))" by (rule reach_step [OF reach_init step_start]) (simp_all add: assms(1))
  from reach_by_running [OF this _ assms(2), of 0] show ?thesis by auto
qed

end
