(* ===== verification/StoreSafety.thy ===== *)
theory StoreSafety
  imports Interleaving ClaimOnce
begin

text \<open>
  The common case of the rely/guarantee argument: an invariant and a preorder that every single statement respects, for all
  clocks and identifiers. A component interprets \<open>store_safety\<close> once and then walks its programs with the rules below.
\<close>

section \<open>Statements that read the clock\<close>

text \<open>A read whose answer depends on the clock or on identifiers drawn during it, and that changes nothing.\<close>

definition query_env ::
  "(call_env \<Rightarrow> 's \<Rightarrow> ('e, 'x) result) \<Rightarrow> (('e, 'x) result \<Rightarrow> ('s, call_env, 'a) prog) \<Rightarrow> ('s, call_env, 'a) prog" where
  "query_env q k = command (\<lambda>ev s. case q ev s of Inl e \<Rightarrow> Inl e | Inr x \<Rightarrow> Inr (x, s)) k"

definition answer_of :: "fault \<Rightarrow> ('e, 'x) result \<Rightarrow> ('e, 'x) result" where
  "answer_of f r = (case f of NoFault \<Rightarrow> r | FailBefore m \<Rightarrow> Inl (Opaque m) | FailAfter m \<Rightarrow> Inl (Opaque m))"

lemma answer_of_simps [simp]:
  "answer_of NoFault r = r" "answer_of (FailBefore m) r = Inl (Opaque m)" "answer_of (FailAfter m) r = Inl (Opaque m)"
  by (simp_all add: answer_of_def)

lemma run_query_env:
  "run (query_env q k) os n s = run (k (answer_of (o_fault (os n)) (q (os n) s))) os (Suc n) s"
  by (auto simp: query_env_def split: fault.splits sum.splits)

section \<open>Safety\<close>

locale store_safety =
  fixes I :: "'s \<Rightarrow> bool"
    and evolves :: "'s \<Rightarrow> 's \<Rightarrow> bool"
  assumes evolves_refl: "evolves s s"
    and evolves_trans: "evolves s t \<Longrightarrow> evolves t u \<Longrightarrow> evolves s u"
begin

sublocale rg: rely_guarantee I evolves "\<lambda>_ (_ :: call_env). True"
  by unfold_locales (auto intro: evolves_refl evolves_trans)

lemma keeps_ret [simp]: "safe I evolves (\<lambda>_ (_ :: call_env). True) (\<lambda>_ _. True) s (Ret a)"
  by (simp add: safe_Ret)

text \<open>
  The rules of a single call. The continuation may rely on what evolved since the call before, and after a read on the
  answer being one the read can give.
\<close>

lemma step_command:
  assumes keep: "\<And>ev s' x s''. I s' \<Longrightarrow> evolves s s' \<Longrightarrow> c ev s' = Inr (x, s'') \<Longrightarrow> I s'' \<and> evolves s' s''"
    and cont: "\<And>s' r. I s' \<Longrightarrow> evolves s s' \<Longrightarrow> safe I evolves (\<lambda>_ (_ :: call_env). True) Q s' (k r)"
  shows "safe I evolves (\<lambda>_ _. True) Q s (command c k)"
proof (rule safe_commandI)
  fix s' ev x s''
  assume a: "I s'" "evolves s s'" "c ev s' = Inr (x, s'')"
  then have "I s''" "evolves s' s''" using keep by blast+
  moreover have "evolves s s''" using evolves_trans a(2) calculation(2) .
  ultimately show "I s'' \<and> evolves s' s'' \<and> safe I evolves (\<lambda>_ _. True) Q s'' (k (Inr x)) \<and>
      (\<forall>m. safe I evolves (\<lambda>_ _. True) Q s'' (k (Inl (Opaque m))))" using cont by blast
qed (use cont evolves_refl in auto)

lemma step_query_env:
  assumes "\<And>s' r. I s' \<Longrightarrow> evolves s s' \<Longrightarrow> (\<exists>ev. r = q ev s') \<or> (\<exists>m. r = Inl (Opaque m)) \<Longrightarrow>
      safe I evolves (\<lambda>_ (_ :: call_env). True) Q s' (k r)"
  shows "safe I evolves (\<lambda>_ _. True) Q s (query_env q k)"
  unfolding query_env_def
proof (rule safe_commandI)
  fix s' ev x s''
  assume a: "I s'" "evolves s s'" "(case q ev s' of Inl e \<Rightarrow> Inl e | Inr x \<Rightarrow> Inr (x, s')) = Inr (x, s'')"
  then have x: "q ev s' = Inr x" "s'' = s'" by (auto split: sum.splits)
  have "safe I evolves (\<lambda>_ _. True) Q s' (k (Inr x))"
    by (rule assms [OF a(1,2)], rule disjI1, rule exI [of _ ev]) (simp add: x(1))
  moreover have "safe I evolves (\<lambda>_ _. True) Q s' (k (Inl (Opaque m)))" for m by (rule assms [OF a(1,2)]) simp
  ultimately show "I s'' \<and> evolves s' s'' \<and> safe I evolves (\<lambda>_ _. True) Q s'' (k (Inr x)) \<and>
      (\<forall>m. safe I evolves (\<lambda>_ _. True) Q s'' (k (Inl (Opaque m))))"
    using a(1) evolves_refl by (simp add: x(2))
next
  fix s' ev e
  assume a: "I s'" "evolves s s'" "(case q ev s' of Inl e \<Rightarrow> Inl e | Inr x \<Rightarrow> Inr (x, s')) = Inl e \<or> (\<exists>m. e = Opaque m)"
  show "safe I evolves (\<lambda>_ _. True) Q s' (k (Inl e))"
  proof (cases "q ev s'")
    case (Inl e')
    show ?thesis
    proof (rule assms [OF a(1,2)], cases "e = e'")
      case True
      then show "(\<exists>ev. Inl e = q ev s') \<or> (\<exists>m. Inl e = Inl (Opaque m))" using Inl by (intro disjI1 exI [of _ ev]) simp
    qed (use a(3) Inl in auto)
  next
    case (Inr x)
    then show ?thesis using a(3) by (intro assms [OF a(1,2)]) auto
  qed
qed (rule evolves_refl)

lemma step_query:
  "(\<And>s' r. I s' \<Longrightarrow> evolves s s' \<Longrightarrow> r = q s' \<or> (\<exists>m. r = Inl (Opaque m)) \<Longrightarrow>
      safe I evolves (\<lambda>_ (_ :: call_env). True) Q s' (k r)) \<Longrightarrow> safe I evolves (\<lambda>_ _. True) Q s (query q k)"
  by (rule safe_queryI) (auto intro: evolves_refl)

lemma step_clock:
  "(\<And>s' t. I s' \<Longrightarrow> evolves s s' \<Longrightarrow> safe I evolves (\<lambda>_ (_ :: call_env). True) Q s' (k t)) \<Longrightarrow>
     safe I evolves (\<lambda>_ _. True) Q s (read_clock k)"
  by (rule safe_read_clockI) (auto intro: evolves_refl)

text \<open>The same rules for a continuation that is safe from every store.\<close>

lemma keeps_command:
  assumes "\<And>ev s s' x. I s \<Longrightarrow> c ev s = Inr (x, s') \<Longrightarrow> I s' \<and> evolves s s'"
    and "\<And>s r. safe I evolves (\<lambda>_ (_ :: call_env). True) Q s (k r)"
  shows "safe I evolves (\<lambda>_ _. True) Q s (command c k)"
  by (rule step_command) (use assms in auto)

lemma keeps_query:
  "(\<And>s r. safe I evolves (\<lambda>_ (_ :: call_env). True) Q s (k r)) \<Longrightarrow> safe I evolves (\<lambda>_ _. True) Q s (query q k)"
  by (rule step_query) auto

lemma keeps_query_env:
  "(\<And>s r. safe I evolves (\<lambda>_ (_ :: call_env). True) Q s (k r)) \<Longrightarrow> safe I evolves (\<lambda>_ _. True) Q s (query_env q k)"
  by (rule step_query_env) auto

lemma keeps_clock:
  "(\<And>s t. safe I evolves (\<lambda>_ (_ :: call_env). True) Q s (k t)) \<Longrightarrow> safe I evolves (\<lambda>_ _. True) Q s (read_clock k)"
  by (rule step_clock) auto

lemma keeps_draw:
  "(\<And>s ev. safe I evolves (\<lambda>_ (_ :: call_env). True) Q s (k ev)) \<Longrightarrow> safe I evolves (\<lambda>_ _. True) Q s (draw k)"
  unfolding draw_def by (rule safe_Act) (auto intro: evolves_refl)

lemma keeps_pure:
  "(\<And>s ev. safe I evolves (\<lambda>_ (_ :: call_env). True) Q s (g ev)) \<Longrightarrow> safe I evolves (\<lambda>_ _. True) Q s (Act (\<lambda>ev s. (g ev, s)))"
  by (rule safe_Act) (auto intro: evolves_refl)

lemma keeps_bind:
  assumes p: "\<And>s. safe I evolves (\<lambda>_ (_ :: call_env). True) (\<lambda>_ _. True) s p"
    and k: "\<And>s a. safe I evolves (\<lambda>_ _. True) Q s (k a)"
  shows "safe I evolves (\<lambda>_ _. True) Q s (bind_prog p k)"
proof (cases p)
  case (Ret a)
  then show ?thesis using k by simp
next
  case (Act f)
  show ?thesis unfolding Act bind_prog.simps
  proof (rule safe_Act)
    fix s' ev q s''
    assume a: "I s'" "evolves s s'" "map_prod (\<lambda>p. bind_prog p k) id (f ev s') = (q, s'')"
    then obtain p' where p': "f ev s' = (p', s'')" "q = bind_prog p' k" by (cases "f ev s'") auto
    have "safe I evolves (\<lambda>_ _. True) (\<lambda>_ _. True) s (Act f)" using p Act by simp
    then have g: "I s''" "evolves s' s''" "safe I evolves (\<lambda>_ _. True) (\<lambda>_ _. True) s'' p'"
      using a p'(1) by (auto elim!: safe_ActE)
    then show "I s'' \<and> evolves s' s'' \<and> safe I evolves (\<lambda>_ _. True) Q s'' q"
      using k p'(2) by (auto intro!: rg.safe_bind [where R = "\<lambda>_ _. True"])
  qed
qed

text \<open>What holds of every interleaving of calls that are safe from every store.\<close>

lemma keeps_reach:
  assumes "pool_reach (\<lambda>_ (_ :: call_env). True) start s0 (s, pool)" "I s0"
    and "\<And>s p. start s p \<Longrightarrow> safe I evolves (\<lambda>_ _. True) (\<lambda>_ _. True) s p"
  shows "I s \<and> evolves s0 s"
  using rg.pool_reach_safe [OF assms(1,2)] assms(3) by simp

lemma keeps_run:
  assumes "safe I evolves (\<lambda>_ (_ :: call_env). True) Q s p" "I s" "run p os n s = (a, n', s')"
  shows "I s' \<and> evolves s s'"
  using rg.safe_run [OF assms(1,2) _ assms(3)] by simp

end

end
