(* ===== verification/FunnelProps.thy ===== *)
theory FunnelProps
  imports Funnel StoreSafety
begin

text \<open>
  Properties of the funnel: which rule wins a trigger, what moving a conversation does to the transition ledger, that a message is applied
  once however often it is delivered, and what the engine needs to be able to move anything.
\<close>

section \<open>The cascade\<close>

lemma first_of_signature_set:
  assumes "distinct rs"
  shows "set (map fst (first_of_signature lower seen rs)) =
    {r \<in> set rs. TriggerSignature lower r = '''' \<or>
       TriggerSignature lower r \<notin> set seen \<and>
       (\<forall>x \<in> set (takeWhile (\<lambda>y. y \<noteq> r) rs). TriggerSignature lower x \<noteq> TriggerSignature lower r)}"
  using assms
proof (induction rs arbitrary: seen)
  case Nil
  show ?case by simp
next
  case (Cons r rs)
  let ?sig = "TriggerSignature lower"
  have tw: "takeWhile (\<lambda>y. y \<noteq> x) (r # rs) = r # takeWhile (\<lambda>y. y \<noteq> x) rs" if "x \<in> set rs" for x
    using that Cons.prems by auto
  show ?case using Cons.prems Cons.IH [of seen] Cons.IH [of "?sig r # seen"]
    by (auto simp: Let_def tw split: if_splits)
qed

lemma first_of_signature_scope: "first_of_signature lower seen rs = map (\<lambda>r. (r, rule_scope r)) (map fst (first_of_signature lower seen rs))"
  by (induction rs arbitrary: seen) (simp_all add: Let_def)

lemma first_of_signature_sub: "subseq (map fst (first_of_signature lower seen rs)) rs"
  by (induction rs arbitrary: seen) (auto simp: Let_def)

lemma first_of_signature_subset: "set (map fst (first_of_signature lower seen rs)) \<subseteq> set rs"
proof (induction rs arbitrary: seen)
  case (Cons r rs)
  then show ?case by (simp add: Let_def) blast
qed simp

lemma sorted_subseq: "subseq xs ys \<Longrightarrow> sorted ys \<Longrightarrow> sorted xs"
  by (induction rule: list_emb.induct) (auto dest: list_emb_set)

lemma distinct_subseq: "subseq xs ys \<Longrightarrow> distinct ys \<Longrightarrow> distinct xs"
  by (induction rule: list_emb.induct) (auto dest: list_emb_set)

text \<open>Rules with different identifiers have different keys, so their order does not depend on the order the store returns them in.\<close>

lemma cascade_key_inj:
  assumes "inj ustr" "distinct (map fr_ID rs)"
  shows "inj_on (cascade_key ustr) (set rs)"
proof (rule inj_onI)
  fix x y assume a: "x \<in> set rs" "y \<in> set rs" "cascade_key ustr x = cascade_key ustr y"
  then have "fr_ID x = fr_ID y" using assms(1) by (simp add: cascade_key_def inj_eq)
  moreover have "inj_on fr_ID (set rs)" using assms(2) by (simp add: distinct_map)
  ultimately show "x = y" using a by (simp add: inj_on_eq_iff)
qed

lemma before_iff_key:
  assumes sorted: "sorted (map k rs)" and inj: "inj_on k (set rs)" and r: "r \<in> set rs"
  shows "set (takeWhile (\<lambda>y. y \<noteq> r) rs) = {x \<in> set rs. k x < k r}"
  using assms
proof (induction rs)
  case Nil
  then show ?case by simp
next
  case (Cons a rs)
  show ?case
  proof (cases "a = r")
    case True
    then show ?thesis using Cons.prems(1) by (auto simp: not_less)
  next
    case False
    then have "k a < k r" using Cons.prems by (force simp: inj_on_def order_less_le)
    then show ?thesis using False Cons by auto
  qed
qed

text \<open>
  The intended order, written out: a rule for a channel overrides one for a team, which overrides one for the whole tenant; of two rules of the same
  scope the older one, and of two created at once the one whose printed identifier comes first.
\<close>

fun scope_before :: "rule_Scope \<Rightarrow> rule_Scope \<Rightarrow> bool" where
  "scope_before fr_ScopeChannel s = (s \<noteq> fr_ScopeChannel)"
| "scope_before fr_ScopeTeam s = (s = fr_ScopeTenant)"
| "scope_before fr_ScopeTenant s = False"

definition overrides :: "(uuid \<Rightarrow> string) \<Rightarrow> Rule \<Rightarrow> Rule \<Rightarrow> bool" where
  "overrides ustr r x \<longleftrightarrow>
     scope_before (rule_scope r) (rule_scope x) \<or>
     rule_scope r = rule_scope x \<and>
       (fr_CreatedAt r < fr_CreatedAt x \<or> fr_CreatedAt r = fr_CreatedAt x \<and> ustr (fr_ID r) < ustr (fr_ID x))"

lemma overrides_key: "overrides ustr r x \<longleftrightarrow> cascade_key ustr r < cascade_key ustr x"
  by (cases "rule_scope r"; cases "rule_scope x") (auto simp: overrides_def cascade_key_def scopeRank_def)

lemma cascade_by_key:
  assumes u: "inj ustr" and d: "distinct (map fr_ID candidates)"
  shows "set (map fst (cascade ustr lower candidates)) =
      {r \<in> set candidates. fr_Enabled r \<and>
         (TriggerSignature lower r = '''' \<or>
          (\<forall>x \<in> set candidates. fr_Enabled x \<and> TriggerSignature lower x = TriggerSignature lower r \<and> x \<noteq> r \<longrightarrow> cascade_key ustr r < cascade_key ustr x))} \<and>
    sorted (map (cascade_key ustr \<circ> fst) (cascade ustr lower candidates)) \<and> distinct (map fst (cascade ustr lower candidates)) \<and>
    (\<forall>(r, s) \<in> set (cascade ustr lower candidates). s = rule_scope r)"
proof -
  let ?k = "cascade_key ustr" and ?es = "filter fr_Enabled candidates"
  let ?rs = "sort_key ?k ?es"
  have de: "distinct (map fr_ID ?es)" using d by (simp add: distinct_map_filter)
  have dr: "distinct ?rs" using de by (simp add: distinct_map)
  have inj: "inj_on ?k (set ?rs)" using cascade_key_inj [OF u de] by simp
  have less: "(?k r < ?k x) = (\<not> ?k x < ?k r)" if "r \<in> set ?rs" "x \<in> set ?rs" "x \<noteq> r" for r x
    using inj that by (auto simp: inj_on_def not_less order_le_less)
  let ?sig = "TriggerSignature lower"
  have iff: "(\<forall>x \<in> set (takeWhile (\<lambda>y. y \<noteq> r) ?rs). ?sig x \<noteq> ?sig r) \<longleftrightarrow> (\<forall>x \<in> set ?rs. ?sig x = ?sig r \<and> x \<noteq> r \<longrightarrow> ?k r < ?k x)"
    if r: "r \<in> set ?rs" for r
  proof -
    have "set (takeWhile (\<lambda>y. y \<noteq> r) ?rs) = {x \<in> set ?rs. ?k x < ?k r}" by (rule before_iff_key [OF _ inj r]) simp
    moreover have "?sig x \<noteq> ?sig r \<or> x = r \<or> ?k r < ?k x \<longleftrightarrow> (?k x < ?k r \<longrightarrow> ?sig x \<noteq> ?sig r)" if "x \<in> set ?rs" for x
      using less [OF r that] by (cases "x = r") auto
    ultimately show ?thesis by blast
  qed
  have set: "set ?rs = {r \<in> set candidates. fr_Enabled r}" by auto
  have "set (map fst (cascade ustr lower candidates)) =
      {r \<in> set ?rs. ?sig r = '''' \<or> (\<forall>x \<in> set ?rs. ?sig x = ?sig r \<and> x \<noteq> r \<longrightarrow> ?k r < ?k x)}"
    unfolding cascade_def first_of_signature_set [OF dr] by (rule Collect_cong) (use iff in auto)
  then have s: "set (map fst (cascade ustr lower candidates)) =
      {r \<in> set candidates. fr_Enabled r \<and> (?sig r = '''' \<or>
          (\<forall>x \<in> set candidates. fr_Enabled x \<and> ?sig x = ?sig r \<and> x \<noteq> r \<longrightarrow> ?k r < ?k x))}"
    unfolding set by blast
  have sub: "subseq (map fst (cascade ustr lower candidates)) ?rs" by (simp add: cascade_def first_of_signature_sub)
  then have "subseq (map ?k (map fst (cascade ustr lower candidates))) (map ?k ?rs)" by (rule subseq_map)
  moreover have "sorted (map ?k ?rs)" by simp
  ultimately have "sorted (map (?k \<circ> fst) (cascade ustr lower candidates))" by (auto intro: sorted_subseq)
  moreover have "distinct (map fst (cascade ustr lower candidates))" using sub dr by (rule distinct_subseq)
  moreover have "\<forall>(r, s) \<in> set (cascade ustr lower candidates). s = rule_scope r"
    unfolding cascade_def by (subst first_of_signature_scope) auto
  ultimately show ?thesis using s by blast
qed

text \<open>
  C29. The most specific rule wins its trigger: whatever order the store returns the candidates in, \<^verbatim>\<open>cascade\<close> keeps exactly the enabled rules that
  override every other enabled rule with the same trigger signature; rules without a signature are all kept. The result is ordered so that every
  rule overrides those after it, and every rule carries its scope.
\<close>

theorem most_specific_rule_wins:
  assumes u: "inj ustr" and d: "distinct (map fr_ID candidates)"
  shows "set (map fst (cascade ustr lower candidates)) =
      {r \<in> set candidates. fr_Enabled r \<and>
         (TriggerSignature lower r = '''' \<or>
          (\<forall>x \<in> set candidates. fr_Enabled x \<and> TriggerSignature lower x = TriggerSignature lower r \<and> x \<noteq> r \<longrightarrow> overrides ustr r x))} \<and>
    sorted_wrt (overrides ustr) (map fst (cascade ustr lower candidates)) \<and>
    (\<forall>(r, s) \<in> set (cascade ustr lower candidates). s = rule_scope r)"
proof -
  let ?c = "map fst (cascade ustr lower candidates)"
  note key = cascade_by_key [OF u d, of lower]
  then have "inj_on (cascade_key ustr) (set ?c)" by (intro inj_on_subset [OF cascade_key_inj [OF u d]]) auto
  moreover have "distinct ?c" and srt: "sorted (map (cascade_key ustr) ?c)" using key by simp_all
  ultimately have "distinct (map (cascade_key ustr) ?c)" by (subst distinct_map) blast
  with srt have "sorted_wrt (<) (map (cascade_key ustr) ?c)" by (simp add: strict_sorted_iff del: map_map)
  then have "sorted_wrt (overrides ustr) ?c" by (simp add: sorted_wrt_map overrides_key)
  with key show ?thesis by (simp add: overrides_key)
qed

section \<open>The state\<close>

text \<open>
  What every operation keeps: primary keys are unique, a transition refers to a conversation, a user and stages that exist, a rule is applied at most
  once to a message, and an application refers to a rule.
\<close>

definition funnel_inv :: "funnel_db \<Rightarrow> bool" where
  "funnel_inv db \<longleftrightarrow>
     distinct (map fr_ID (fd_rules db)) \<and> distinct (map tr_ID (fd_transition db)) \<and>
     (\<forall>t \<in> set (fd_transition db). tr_ConversationID t \<in> set (fd_conversations db) \<and> tr_TransitionedByUserID t \<in> set (fd_users db) \<and>
        tr_ToStageID t \<in> set (map st_ID (fd_stage db)) \<and> (\<forall>s. tr_FromStageID t = Some s \<longrightarrow> s \<in> set (map st_ID (fd_stage db)))) \<and>
     distinct (map (\<lambda>a. (fa_RuleID a, fa_MessageID a)) (fd_applications db)) \<and>
     (\<forall>a \<in> set (fd_applications db). fa_RuleID a \<in> fr_ID ` set (fd_rules db))"

text \<open>The ledger of transitions is append-only; users, conversations and stages are not touched by the funnel.\<close>

definition funnel_evolves :: "funnel_db \<Rightarrow> funnel_db \<Rightarrow> bool" where
  "funnel_evolves a b \<longleftrightarrow> prefix (fd_transition a) (fd_transition b) \<and> prefix (fd_events a) (fd_events b) \<and>
     fd_stage b = fd_stage a \<and> fd_users b = fd_users a \<and> fd_conversations b = fd_conversations a"

interpretation funnel_st: store_safety funnel_inv funnel_evolves
  by unfold_locales (auto simp: funnel_evolves_def)

abbreviation fsafe :: "(funnel_db \<Rightarrow> 'a \<Rightarrow> bool) \<Rightarrow> funnel_db \<Rightarrow> 'a fprog \<Rightarrow> bool" where
  "fsafe Q s p \<equiv> safe funnel_inv funnel_evolves (\<lambda>_ _. True) Q s p"

lemma funnel_evolves_refl [simp]: "funnel_evolves s s"
  by (simp add: funnel_evolves_def)

text \<open>The rules of \<open>store_safety\<close> for the funnel.\<close>

lemmas fsafe_command = funnel_st.keeps_command
lemmas fsafe_query = funnel_st.keeps_query
lemmas fsafe_clock = funnel_st.keeps_clock
lemmas fsafe_pure = funnel_st.keeps_pure
lemmas fsafe_bind = funnel_st.keeps_bind

lemma transition_Create_keeps:
  "funnel_inv s \<Longrightarrow> transition_Create s t = Inr (x, s') \<Longrightarrow> funnel_inv s' \<and> funnel_evolves s s'"
  by (auto simp: transition_Create_def Let_def funnel_inv_def funnel_evolves_def split: if_splits option.splits) 

lemma application_Record_keeps:
  "funnel_inv s \<Longrightarrow> application_Record s a = Inr (x, s') \<Longrightarrow> funnel_inv s' \<and> funnel_evolves s s'"
  by (auto simp: application_Record_def funnel_inv_def funnel_evolves_def list_ex_iff split: if_splits; blast)

lemma publish_keeps: "funnel_inv s \<Longrightarrow> funnel_inv (s\<lparr>fd_events := fd_events s @ [e]\<rparr>) \<and> funnel_evolves s (s\<lparr>fd_events := fd_events s @ [e]\<rparr>)"
  by (simp add: funnel_inv_def funnel_evolves_def)

lemma update_rule_keeps:
  assumes "funnel_inv s" "update_rule s t i f = Inr (x, s')" "\<And>r. fr_ID (f r) = fr_ID r"
  shows "funnel_inv s' \<and> funnel_evolves s s'"
proof -
  let ?g = "\<lambda>r. if fr_TenantID r = t \<and> fr_ID r = i then f r else r"
  have s': "s' = s\<lparr>fd_rules := map ?g (fd_rules s)\<rparr>"
    using assms(2) by (simp add: update_rule_def split: if_splits)
  have "map fr_ID (map ?g rs) = map fr_ID rs" for rs using assms(3) by (induction rs) auto
  then have "map fr_ID (fd_rules s') = map fr_ID (fd_rules s)" using s' by simp
  then have "fr_ID ` set (fd_rules s') = fr_ID ` set (fd_rules s)" "distinct (map fr_ID (fd_rules s')) = distinct (map fr_ID (fd_rules s))"
    by (metis list.set_map, simp)
  then show ?thesis using assms(1) s' by (simp add: funnel_inv_def funnel_evolves_def)
qed

lemma rules_writes_keep:
  "funnel_inv s \<Longrightarrow> rules_Create s r = Inr (x, s') \<Longrightarrow> funnel_inv s' \<and> funnel_evolves s s'"
  "funnel_inv s \<Longrightarrow> rules_Update now s r = Inr (x, s') \<Longrightarrow> funnel_inv s' \<and> funnel_evolves s s'"
  "funnel_inv s \<Longrightarrow> rules_SetEnabled now s t i b = Inr (x, s') \<Longrightarrow> funnel_inv s' \<and> funnel_evolves s s'"
  "funnel_inv s \<Longrightarrow> rules_Delete s t i = Inr (x, s') \<Longrightarrow> funnel_inv s' \<and> funnel_evolves s s'"
proof -
  show "funnel_inv s \<Longrightarrow> rules_Create s r = Inr (x, s') \<Longrightarrow> funnel_inv s' \<and> funnel_evolves s s'"
    by (auto simp: rules_Create_def funnel_inv_def funnel_evolves_def split: if_splits)
  show "funnel_inv s \<Longrightarrow> rules_Delete s t i = Inr (x, s') \<Longrightarrow> funnel_inv s' \<and> funnel_evolves s s'"
    by (auto simp: rules_Delete_def funnel_inv_def funnel_evolves_def distinct_map_filter split: if_splits; force)
qed (auto simp: rules_Update_def rules_SetEnabled_def dest: update_rule_keeps)

section \<open>Interleavings\<close>

lemma fsafe_writes:
  assumes "\<And>s r. fsafe Q s (k r)"
  shows "fsafe Q s (command (\<lambda>_ db. transition_Create db t) k)"
    and "fsafe Q s (command (\<lambda>_ db. application_Record db a) k)"
    and "fsafe Q s (funnel_Publish evt k)"
    and "fsafe Q s (command (\<lambda>_ db. rules_Create db rule) k)"
    and "fsafe Q s (command (\<lambda>ev db. rules_Update (o_now ev) db rule) k)"
    and "fsafe Q s (command (\<lambda>ev db. rules_SetEnabled (o_now ev) db ten i b) k)"
    and "fsafe Q s (command (\<lambda>_ db. rules_Delete db ten i) k)"
proof -
  show "fsafe Q s (funnel_Publish evt k)"
    unfolding funnel_Publish_def using publish_keeps by (intro fsafe_command assms) auto
qed (rule fsafe_command [OF transition_Create_keeps assms] fsafe_command [OF application_Record_keeps assms]
     fsafe_command [OF rules_writes_keep(1) assms] fsafe_command [OF rules_writes_keep(2) assms]
     fsafe_command [OF rules_writes_keep(3) assms] fsafe_command [OF rules_writes_keep(4) assms]; assumption)+

lemma MoveConversation_safe: "fsafe (\<lambda>_ _. True) s (MoveConversation t c k u r)"
  unfolding MoveConversation_def record_move_def Let_def
  by (auto intro!: fsafe_query fsafe_writes safe_Ret fsafe_pure split: sum.split)

lemma tryRule_safe: "fsafe (\<lambda>_ _. True) s (tryRule e msg r)"
  unfolding tryRule_def
  by (auto intro!: fsafe_query fsafe_bind MoveConversation_safe fsafe_clock fsafe_writes safe_Ret split: sum.split option.split)

lemma tryRules_safe: "fsafe (\<lambda>_ _. True) s (tryRules e msg rs)"
  by (induction rs arbitrary: s) (auto intro!: fsafe_bind tryRule_safe safe_Ret split: sum.split)

lemma engine_Handle_safe: "fsafe (\<lambda>_ _. True) s (engine_Handle e msg)"
  unfolding engine_Handle_def rules_Resolve_def
  by (auto intro!: fsafe_query tryRules_safe safe_Ret split: sum.split)

text \<open>What the clients of the funnel may start: moves by operators, deliveries to the engine, and the edits of the rules.\<close>

inductive funnel_call :: "funnel_db \<Rightarrow> unit fprog \<Rightarrow> bool" for db where
  call_move: "funnel_call db (bind_prog (MoveConversation t c k u r) (\<lambda>_. Ret ()))"
| call_deliver: "funnel_call db (bind_prog (Consumer_Handle e unmarshal body) (\<lambda>_. Ret ()))"
| call_create: "funnel_call db (command (\<lambda>_ db. rules_Create db r) (\<lambda>_. Ret ()))"
| call_update: "funnel_call db (command (\<lambda>ev db. rules_Update (o_now ev) db r) (\<lambda>_. Ret ()))"
| call_enable: "funnel_call db (command (\<lambda>ev db. rules_SetEnabled (o_now ev) db t i b) (\<lambda>_. Ret ()))"
| call_remove: "funnel_call db (command (\<lambda>_ db. rules_Delete db t i) (\<lambda>_. Ret ()))"

lemma funnel_call_safe:
  assumes "funnel_call db p"
  shows "fsafe (\<lambda>_ _. True) s p"
  using assms
proof cases
  case (call_deliver e unmarshal body)
  have "fsafe (\<lambda>_ _. True) s (Consumer_Handle e unmarshal body)" for s
    unfolding Consumer_Handle_def by (auto intro!: fsafe_bind engine_Handle_safe safe_Ret split: sum.split)
  then show ?thesis unfolding call_deliver by (auto intro!: fsafe_bind safe_Ret)
qed (auto intro!: fsafe_bind MoveConversation_safe fsafe_writes safe_Ret)

text \<open>
  Whatever operators, deliveries and edits of rules interleave, and whatever fails meanwhile: transitions are only appended, each of them between
  existing stages, of an existing conversation and by an existing user, and no rule is recorded twice for the same message.
\<close>

lemma transition_ledger_is_append_only:
  assumes "funnel_inv db0" "pool_reach (\<lambda>_ _. True) funnel_call db0 (db, pool)"
  shows "prefix (fd_transition db0) (fd_transition db) \<and>
    distinct (map (\<lambda>a. (fa_RuleID a, fa_MessageID a)) (fd_applications db)) \<and> distinct (map tr_ID (fd_transition db)) \<and>
    (\<forall>t \<in> set (fd_transition db). tr_ConversationID t \<in> set (fd_conversations db0) \<and> tr_TransitionedByUserID t \<in> set (fd_users db0) \<and>
       tr_ToStageID t \<in> st_ID ` set (fd_stage db0) \<and> (\<forall>s. tr_FromStageID t = Some s \<longrightarrow> s \<in> st_ID ` set (fd_stage db0)))"
proof -
  have "funnel_inv db \<and> funnel_evolves db0 db"
    using funnel_st.rg.pool_reach_safe [OF assms(2,1)] funnel_call_safe by auto
  then show ?thesis by (auto simp: funnel_inv_def funnel_evolves_def)
qed

section \<open>Moving a conversation\<close>

text \<open>The stage a conversation is on: the destination of its latest transition.\<close>

definition stage_of :: "funnel_db \<Rightarrow> uuid \<Rightarrow> uuid \<Rightarrow> uuid option" where
  "stage_of db tenantID cid = (case LatestForConversation db tenantID cid of Inr t \<Rightarrow> Some (tr_ToStageID t) | Inl _ \<Rightarrow> None)"

lemma stage_of_cong: "fd_transition db' = fd_transition db \<Longrightarrow> stage_of db' ten cid = stage_of db ten cid"
  by (simp add: stage_of_def LatestForConversation_def)

text \<open>Identifiers and clock readings from step \<open>n\<close> on are new.\<close>

definition fresh_from :: "(nat \<Rightarrow> call_env) \<Rightarrow> nat \<Rightarrow> funnel_db \<Rightarrow> bool" where
  "fresh_from os n db \<longleftrightarrow>
     (\<forall>m \<ge> n. o_ids (os m) 0 \<noteq> uuid_nil \<and> o_ids (os m) 0 \<notin> set (map tr_ID (fd_transition db)) \<and>
        (\<forall>t \<in> set (fd_transition db). tr_TransitionedAt t < o_now (os m))) \<and>
     (\<forall>i j. n \<le> i \<and> i < j \<longrightarrow> o_ids (os i) 0 \<noteq> o_ids (os j) 0 \<and> o_now (os i) < o_now (os j))"

lemma fresh_from_later: "fresh_from os n db \<Longrightarrow> n \<le> m \<Longrightarrow> fresh_from os m db"
  by (auto simp: fresh_from_def)

lemma fresh_from_append:
  assumes "fresh_from os n db" "tr_ID t = o_ids (os n) 0" "tr_TransitionedAt t = o_now (os n)" "fd_transition db' = fd_transition db @ [t]" "n < m"
  shows "fresh_from os m db'"
  unfolding fresh_from_def
proof (intro conjI allI impI)
  fix k assume "m \<le> k"
  then have "n < k" using assms(5) by simp
  then have "o_ids (os n) 0 \<noteq> o_ids (os k) 0 \<and> o_now (os n) < o_now (os k)" using assms(1) by (simp add: fresh_from_def)
  then have "o_ids (os k) 0 \<noteq> o_ids (os n) 0" "o_now (os n) < o_now (os k)" by metis+
  then show "o_ids (os k) 0 \<noteq> uuid_nil" "o_ids (os k) 0 \<notin> set (map tr_ID (fd_transition db'))"
    "\<forall>t \<in> set (fd_transition db'). tr_TransitionedAt t < o_now (os k)"
    using assms \<open>m \<le> k\<close> by (auto simp: fresh_from_def)
next
  fix i j assume "m \<le> i \<and> i < j"
  then show "o_ids (os i) 0 \<noteq> o_ids (os j) 0" "o_now (os i) < o_now (os j)" using assms(1,5) by (auto simp: fresh_from_def)
qed

lemma latest_append:
  assumes "tr_TenantID t = ten" "tr_ConversationID t = cid" "ten \<noteq> uuid_nil" "cid \<noteq> uuid_nil"
    and "\<forall>x \<in> set (fd_transition db). tr_TransitionedAt x < tr_TransitionedAt t"
    and "fd_transition db' = fd_transition db @ [t]"
  shows "LatestForConversation db' ten cid = Inr t"
proof -
  let ?P = "\<lambda>t. tr_TenantID t = ten \<and> tr_ConversationID t = cid" and ?k = "\<lambda>t. - tr_TransitionedAt t"
  have "t \<in> set (filter ?P (fd_transition db @ [t]))" using assms(1,2) by simp
  then obtain x rest where s: "sort_key ?k (filter ?P (fd_transition db @ [t])) = x # rest"
    and x: "x \<in> set (filter ?P (fd_transition db @ [t]))" "?k x \<le> ?k t"
    by (rule sort_key_first)
  have "x = t"
  proof (rule ccontr)
    assume "x \<noteq> t"
    then have "tr_TransitionedAt x < tr_TransitionedAt t" using x(1) assms(5) by (auto split: if_splits)
    then show False using x(2) by simp
  qed
  then show ?thesis using assms(3,4,6) s by (simp add: LatestForConversation_def)
qed

lemma latest_other:
  assumes "tr_TenantID t \<noteq> ten \<or> tr_ConversationID t \<noteq> cid" "fd_transition db' = fd_transition db @ [t]"
  shows "LatestForConversation db' ten cid = LatestForConversation db ten cid"
  using assms by (auto simp: LatestForConversation_def)

text \<open>What a move of conversation \<open>cid\<close> of tenant \<open>ten\<close> to \<open>st\<close> needs.\<close>

definition movable :: "funnel_db \<Rightarrow> uuid \<Rightarrow> uuid \<Rightarrow> string \<Rightarrow> uuid \<Rightarrow> Stage \<Rightarrow> bool" where
  "movable db ten cid key user st \<longleftrightarrow>
     ten \<noteq> uuid_nil \<and> cid \<noteq> uuid_nil \<and> user \<noteq> uuid_nil \<and> TrimSpace key \<noteq> '''' \<and> FindByKey db ten (TrimSpace key) = Inr st \<and>
     st_ID st \<noteq> uuid_nil \<and> cid \<in> set (fd_conversations db) \<and> user \<in> set (fd_users db)"

lemma movable_cong:
  "fd_stage db' = fd_stage db \<Longrightarrow> fd_users db' = fd_users db \<Longrightarrow> fd_conversations db' = fd_conversations db \<Longrightarrow>
   movable db' ten cid key user st = movable db ten cid key user st"
  by (simp add: movable_def FindByKey_def)

lemma FindByKey_stage: "FindByKey db ten key = Inr st \<Longrightarrow> st \<in> set (fd_stage db)"
  by (auto simp: FindByKey_def split: if_splits option.splits dest: find_SomeD)

lemma LatestForConversation_cases:
  assumes "ten \<noteq> uuid_nil" "cid \<noteq> uuid_nil"
  obtains "LatestForConversation db ten cid = ferr fn_ErrNotFound" | t where "LatestForConversation db ten cid = Inr t" "t \<in> set (fd_transition db)"
proof -
  let ?s = "sort_key (\<lambda>t. - tr_TransitionedAt t) (filter (\<lambda>t. tr_TenantID t = ten \<and> tr_ConversationID t = cid) (fd_transition db))"
  have set: "set ?s \<subseteq> set (fd_transition db)" by auto
  show thesis
  proof (cases ?s)
    case Nil
    then show thesis using that(1) assms by (simp add: LatestForConversation_def)
  next
    case (Cons t ts)
    then have "t \<in> set (fd_transition db)" using set by auto
    then show thesis using that(2) [of t] assms Cons by (simp add: LatestForConversation_def)
  qed
qed

definition moved :: "funnel_db \<Rightarrow> Transition \<Rightarrow> Stage \<Rightarrow> funnel_db" where
  "moved db t st = db\<lparr>fd_transition := fd_transition db @ [t], fd_events := fd_events db @ [moved_event t st]\<rparr>"

definition move_row :: "call_env \<Rightarrow> funnel_db \<Rightarrow> uuid \<Rightarrow> uuid \<Rightarrow> uuid \<Rightarrow> string \<Rightarrow> Stage \<Rightarrow> Transition" where
  "move_row ev db ten cid user reason st =
     \<lparr>tr_ID = o_ids ev 0, tr_TenantID = ten, tr_ConversationID = cid, tr_FromStageID = stage_of db ten cid, tr_ToStageID = st_ID st,
      tr_TransitionedByUserID = user, tr_TransitionedAt = o_now ev, tr_Reason = reason\<rparr>"

lemma run_MoveConversation:
  assumes q: "quiet os" and inv: "funnel_inv db" and fresh: "fresh_from os n db" and m: "movable db ten cid key user st"
  shows "run (MoveConversation ten cid key user reason) os n db =
    (if stage_of db ten cid = Some (st_ID st) then (Inr (), n + 2, db)
     else (Inr (), n + 5, moved db (move_row (os (n + 2)) db ten cid user reason st) st))"
proof -
  have nf: "o_fault (os m) = NoFault" for m using q by (simp add: quiet_def)
  have ids: "ten \<noteq> uuid_nil" "cid \<noteq> uuid_nil" using m by (simp_all add: movable_def)
  define t where "t = move_row (os (n + 2)) db ten cid user reason st"
  have from_ok: "list_all (\<lambda>s. s \<in> set (map st_ID (fd_stage db))) (case stage_of db ten cid of None \<Rightarrow> [] | Some f \<Rightarrow> [f])"
    using inv by (cases rule: LatestForConversation_cases [OF ids, of db]) (auto simp: stage_of_def funnel_inv_def)
  have create: "transition_Create db t = Inr ((), db\<lparr>fd_transition := fd_transition db @ [t]\<rparr>)"
    using m fresh from_ok FindByKey_stage [of db ten "TrimSpace key" st]
    by (auto simp: transition_Create_def Let_def t_def move_row_def movable_def fresh_from_def)
  show ?thesis
    by (cases rule: LatestForConversation_cases [OF ids, of db])
      (use m create nf in \<open>auto simp: MoveConversation_def Let_def movable_def record_move_def funnel_Publish_def moved_def stage_of_def
        t_def move_row_def eval_nat_numeral\<close>)
qed

lemma run_move_noop:
  assumes "quiet os" "movable db ten cid key user st" "stage_of db ten cid = Some (st_ID st)"
  shows "run (MoveConversation ten cid key user reason) os n db = (Inr (), n + 2, db)"
proof -
  obtain t where "LatestForConversation db ten cid = Inr t" "tr_ToStageID t = st_ID st"
    using assms(3) by (auto simp: stage_of_def split: sum.splits)
  then show ?thesis using assms(1,2) by (simp add: MoveConversation_def Let_def movable_def quiet_def)
qed

text \<open>
  C21. A move goes through and happens once: run alone and without faults, for an existing stage, conversation and user, and with a new
  transition identifier and a clock that has passed the recorded transitions, \<^verbatim>\<open>MoveConversation\<close> succeeds and the conversation is on that
  stage; a transition from the stage it was on, by that user, and one event of it are added exactly when it was elsewhere; the same move
  again, without faults, changes nothing; and no other conversation moves.
\<close>

theorem move_happens_once:
  assumes q: "quiet os" "quiet os'" and inv: "funnel_inv db" and fresh: "fresh_from os 0 db" and m: "movable db ten cid key user st"
  shows "\<exists>new. result_of (MoveConversation ten cid key user reason) os db = Inr () \<and>
    (let db' = store_after (MoveConversation ten cid key user reason) os db in
     stage_of db' ten cid = Some (st_ID st) \<and> fd_transition db' = fd_transition db @ new \<and>
     fd_events db' = fd_events db @ map (\<lambda>t. moved_event t st) new \<and>
     (if stage_of db ten cid = Some (st_ID st) then new = []
      else \<exists>t. new = [t] \<and> tr_FromStageID t = stage_of db ten cid \<and> tr_ToStageID t = st_ID st \<and> tr_TransitionedByUserID t = user) \<and>
     store_after (MoveConversation ten cid key user reason) os' db' = db' \<and>
     (\<forall>t c. (t, c) \<noteq> (ten, cid) \<longrightarrow> stage_of db' t c = stage_of db t c))"
proof (cases "stage_of db ten cid = Some (st_ID st)")
  case True
  then show ?thesis using run_move_noop [OF q(1) m] run_move_noop [OF q(2) m] by (simp add: result_of_def store_after_def)
next
  case False
  let ?t = "move_row (os (0 + 2)) db ten cid user reason st"
  let ?db' = "moved db ?t st"
  have run: "run (MoveConversation ten cid key user reason) os 0 db = (Inr (), 0 + 5, ?db')"
    using run_MoveConversation [OF q(1) inv fresh m] False by simp
  have tr: "fd_transition ?db' = fd_transition db @ [?t]" by (simp add: moved_def)
  have t: "tr_TenantID ?t = ten" "tr_ConversationID ?t = cid" "tr_ToStageID ?t = st_ID st" by (simp_all add: move_row_def)
  have later: "\<forall>x \<in> set (fd_transition db). tr_TransitionedAt x < tr_TransitionedAt ?t"
    using fresh by (auto simp: fresh_from_def move_row_def)
  have ids: "ten \<noteq> uuid_nil" "cid \<noteq> uuid_nil" using m by (simp_all add: movable_def)
  have latest: "LatestForConversation ?db' ten cid = Inr ?t" using latest_append [OF t(1,2) ids later tr] .
  have m': "movable ?db' ten cid key user st" using m by (subst movable_cong) (simp_all add: moved_def)
  have "run (MoveConversation ten cid key user reason) os' 0 ?db' = (Inr (), 0 + 2, ?db')"
    using latest t(3) by (intro run_move_noop [OF q(2) m']) (simp add: stage_of_def)
  moreover have "stage_of ?db' u c = stage_of db u c" if "(u, c) \<noteq> (ten, cid)" for u c
  proof -
    have "LatestForConversation ?db' u c = LatestForConversation db u c" by (rule latest_other [OF _ tr]) (use that in \<open>auto simp: move_row_def\<close>)
    then show ?thesis by (simp add: stage_of_def)
  qed
  ultimately show ?thesis using run latest t(3) False
    by (intro exI [of _ "[?t]"]) (auto simp: result_of_def store_after_def stage_of_def moved_def, simp_all add: move_row_def stage_of_def)
qed

section \<open>Deliveries\<close>

lemma run_query_cases: "\<exists>r. run (query q k) os n s = run (k r) os (Suc n) s \<and> (r = q s \<or> (\<exists>m. r = Inl (Opaque m)))"
  by (auto split: fault.split)

text \<open>Moving does not touch rules and applications.\<close>

lemma Move_frame:
  "fd_rules (snd (snd (run (MoveConversation ten cid key user reason) os n db))) = fd_rules db \<and>
   fd_applications (snd (snd (run (MoveConversation ten cid key user reason) os n db))) = fd_applications db"
proof -
  have create: "fd_rules s' = fd_rules s \<and> fd_applications s' = fd_applications s" if "transition_Create s t = Inr (x, s')" for s t x s'
    using that by (auto simp: transition_Create_def Let_def split: if_splits)
  have rec: "fd_rules (snd (snd (run (record_move ten cid st from_id user reason) os n db))) = fd_rules db \<and>
      fd_applications (snd (snd (run (record_move ten cid st from_id user reason) os n db))) = fd_applications db" for st from_id n
    unfolding record_move_def funnel_Publish_def using create by (auto simp: Let_def split: fault.split sum.split)
  show ?thesis unfolding MoveConversation_def Let_def using rec by (auto split: fault.split sum.split)
qed

text \<open>A rule is settled for a message when a delivery has nothing left to do for it.\<close>

definition settled_rule :: "funnel_engine \<Rightarrow> InboundMessage \<Rightarrow> funnel_db \<Rightarrow> Rule \<Rightarrow> bool" where
  "settled_rule e msg db r \<longleftrightarrow>
     (matchTrigger e r msg \<longrightarrow>
      (\<exists>b. IsApplied db (im_TenantID msg) (fr_ID r) (im_MessageID msg) = Inr b \<and> (b \<or> stageKey r = None)))"

text \<open>An application carries the tenant of its rule.\<close>

definition application_tenants :: "funnel_db \<Rightarrow> bool" where
  "application_tenants db \<longleftrightarrow>
     (\<forall>a \<in> set (fd_applications db). \<forall>r \<in> set (fd_rules db). fr_ID r = fa_RuleID a \<longrightarrow> fr_TenantID r = fa_TenantID a)"

definition grown :: "funnel_db \<Rightarrow> funnel_db \<Rightarrow> bool" where
  "grown db db' \<longleftrightarrow> fd_rules db' = fd_rules db \<and> set (fd_applications db) \<subseteq> set (fd_applications db')"

lemma grown_refl [simp]: "grown db db" and grown_trans: "grown a b \<Longrightarrow> grown b c \<Longrightarrow> grown a c"
  by (auto simp: grown_def)

lemma settled_grown: "settled_rule e msg db r \<Longrightarrow> grown db db' \<Longrightarrow> settled_rule e msg db' r"
  by (auto simp: settled_rule_def grown_def IsApplied_def list_ex_iff split: if_splits)

text \<open>A rule that was tried with success is settled, whatever failed on the way.\<close>

lemma tryRule_effect:
  assumes "run (tryRule e msg r) os n db = (res, n', db')"
    and inv: "distinct (map fr_ID (fd_rules db))" and tenants: "application_tenants db"
    and r: "r \<in> set (fd_rules db)" "fr_TenantID r = im_TenantID msg"
  shows "grown db db' \<and> application_tenants db' \<and> (res = Inr () \<longrightarrow> settled_rule e msg db' r)"
proof (cases "matchTrigger e r msg")
  case False
  then show ?thesis using assms(1) tenants by (auto simp: tryRule_def settled_rule_def)
next
  case match: True
  let ?chk = "\<lambda>db. IsApplied db (im_TenantID msg) (fr_ID r) (im_MessageID msg)"
  define kont where "kont a = (case a of
        Inl err \<Rightarrow> Ret (Inl (Wrapped ''engine: is-applied check'' err))
      | Inr applied \<Rightarrow>
          if applied then Ret (Inr ())
          else case stageKey r of
            None \<Rightarrow> Ret (Inr ())
          | Some stage \<Rightarrow>
              bind_prog (MoveConversation (im_TenantID msg) (im_ConversationID msg) stage SystemActor MoveReason) (\<lambda>m. case m of
                Inl err \<Rightarrow> Ret (Inl (Wrapped ''engine: move conversation'' err))
              | Inr _ \<Rightarrow> read_clock (\<lambda>now.
                  command (\<lambda>_ db. application_Record db
                    \<lparr>fa_TenantID = im_TenantID msg, fa_RuleID = fr_ID r, fa_MessageID = im_MessageID msg,
                     fa_ConversationID = im_ConversationID msg, fa_ActionType = ActionType_text (fr_ActionType r), fa_AppliedAt = now\<rparr>)
                    (\<lambda>r. case r of
                       Inl err \<Rightarrow>
                         if errors_is err en_ErrAlreadyApplied then Ret (Inr ())
                         else Ret (Inl (Wrapped ''engine: record application'' err))
                     | Inr _ \<Rightarrow> Ret (Inr ())))))" for a
  obtain a where a: "run (tryRule e msg r) os n db = run (kont a) os (Suc n) db" "a = ?chk db \<or> (\<exists>m. a = Inl (Opaque m))"
    using run_query_cases [of ?chk kont os n db] match unfolding tryRule_def kont_def by auto
  show ?thesis
  proof (cases "a = Inr False \<and> stageKey r \<noteq> None")
    case False
    then have "db' = db \<and> (res = Inr () \<longrightarrow> (\<exists>b. ?chk db = Inr b \<and> (b \<or> stageKey r = None)))"
      using a assms(1) unfolding kont_def by (auto split: sum.splits option.splits if_splits)
    then show ?thesis using tenants by (auto simp: settled_rule_def)
  next
    case True
    then obtain stage where stage: "stageKey r = Some stage" and chk: "?chk db = Inr False" using a(2) by auto
    then have ids: "im_TenantID msg \<noteq> uuid_nil" "fr_ID r \<noteq> uuid_nil" "im_MessageID msg \<noteq> uuid_nil"
      by (auto simp: IsApplied_def split: if_splits)
    obtain m n1 db1 where mv: "run (MoveConversation (im_TenantID msg) (im_ConversationID msg) stage SystemActor MoveReason) os (Suc n) db = (m, n1, db1)"
      by (cases "run (MoveConversation (im_TenantID msg) (im_ConversationID msg) stage SystemActor MoveReason) os (Suc n) db") auto
    have fr: "fd_rules db1 = fd_rules db" "fd_applications db1 = fd_applications db"
      using Move_frame [of "im_TenantID msg" "im_ConversationID msg" stage SystemActor MoveReason os "Suc n" db] mv by simp_all
    let ?app = "\<lparr>fa_TenantID = im_TenantID msg, fa_RuleID = fr_ID r, fa_MessageID = im_MessageID msg,
        fa_ConversationID = im_ConversationID msg, fa_ActionType = ActionType_text (fr_ActionType r), fa_AppliedAt = o_now (os n1)\<rparr>"
    have here: "fa_TenantID x = im_TenantID msg" if "x \<in> set (fd_applications db)" "fa_RuleID x = fr_ID r" for x
      using tenants r that by (auto simp: application_tenants_def)
    have same: "fr_TenantID x = im_TenantID msg" if "x \<in> set (fd_rules db)" "fr_ID x = fr_ID r" for x
      using inv r that by (metis distinct_map inj_on_eq_iff)
    have ok: "fd_rules s' = fd_rules db \<and> fd_applications s' = fd_applications db @ [?app]" if "application_Record db1 ?app = Inr (x, s')" for x s'
      using that fr by (auto simp: application_Record_def split: if_splits)
    have dup: "settled_rule e msg db1 r" if "application_Record db1 ?app = Inl err" "errors_is err en_ErrAlreadyApplied" for err
      using that ids fr here by (auto simp: application_Record_def settled_rule_def IsApplied_def list_ex_iff split: if_splits)
    have added: "grown db s' \<and> application_tenants s' \<and> settled_rule e msg s' r"
      if "fd_rules s' = fd_rules db \<and> fd_applications s' = fd_applications db @ [?app]" for s'
      using that ids same tenants by (auto simp: grown_def application_tenants_def settled_rule_def IsApplied_def)
    have kept: "grown db db1 \<and> application_tenants db1" using fr tenants by (simp add: grown_def application_tenants_def)
    show ?thesis
      using a(1) assms(1) True stage mv dup kept ok added
      by (auto simp: kont_def split: sum.splits fault.splits if_splits prod.splits)
  qed
qed

lemma tryRules_effect:
  assumes "run (tryRules e msg rs) os n db = (res, n', db')"
    and "distinct (map fr_ID (fd_rules db))" "application_tenants db"
    and "\<forall>r \<in> set rs. r \<in> set (fd_rules db) \<and> fr_TenantID r = im_TenantID msg"
  shows "grown db db' \<and> (res = Inr () \<longrightarrow> (\<forall>r \<in> set rs. settled_rule e msg db' r))"
  using assms
proof (induction rs arbitrary: n db)
  case Nil
  then show ?case by simp
next
  case (Cons r rs)
  obtain x n1 db1 where x: "run (tryRule e msg r) os n db = (x, n1, db1)" by (cases "run (tryRule e msg r) os n db") auto
  have one: "grown db db1 \<and> application_tenants db1 \<and> (x = Inr () \<longrightarrow> settled_rule e msg db1 r)"
    using Cons.prems by (intro tryRule_effect [OF x]) auto
  show ?case
  proof (cases x)
    case (Inl err)
    then show ?thesis using Cons.prems(1) x one by auto
  next
    case (Inr u)
    then have rest: "run (tryRules e msg rs) os n1 db1 = (res, n', db')" using Cons.prems(1) x by simp
    have "grown db1 db' \<and> (res = Inr () \<longrightarrow> (\<forall>r \<in> set rs. settled_rule e msg db' r))"
      using Cons.prems one by (intro Cons.IH [OF rest]) (auto simp: grown_def)
    then show ?thesis using one Inr by (auto intro: grown_trans settled_grown)
  qed
qed

lemma run_settled:
  assumes "quiet os" "\<forall>r \<in> set rs. settled_rule e msg db r"
  shows "\<exists>n'. run (tryRules e msg rs) os n db = (Inr (), n', db)"
  using assms
proof (induction rs arbitrary: n)
  case Nil
  then show ?case by simp
next
  case (Cons r rs)
  have "\<exists>n'. run (tryRule e msg r) os n db = (Inr (), n', db)"
    using Cons.prems by (auto simp: tryRule_def settled_rule_def quiet_def)
  then show ?case using Cons by auto
qed

text \<open>The rules a message is tried on.\<close>

definition resolved_rules :: "funnel_engine \<Rightarrow> InboundMessage \<Rightarrow> funnel_db \<Rightarrow> Rule list" where
  "resolved_rules e msg db =
     (case ListEffectiveForChannel db (im_TenantID msg) (im_Channel msg) uuid_nil of
        Inl _ \<Rightarrow> [] | Inr cs \<Rightarrow> map fst (cascade (fe_ustr e) (fe_lower e) cs))"

lemma resolved_rules_sub:
  assumes "r \<in> set (resolved_rules e msg db)"
  shows "r \<in> set (fd_rules db) \<and> fr_TenantID r = im_TenantID msg \<and> fr_Enabled r"
proof -
  obtain cs where cs: "ListEffectiveForChannel db (im_TenantID msg) (im_Channel msg) uuid_nil = Inr cs"
    "r \<in> set (map fst (cascade (fe_ustr e) (fe_lower e) cs))"
    using assms by (cases "ListEffectiveForChannel db (im_TenantID msg) (im_Channel msg) uuid_nil") (auto simp: resolved_rules_def)
  have "set (map fst (cascade (fe_ustr e) (fe_lower e) cs)) \<subseteq> set (sort_key (cascade_key (fe_ustr e)) (filter fr_Enabled cs))"
    unfolding cascade_def by (rule first_of_signature_subset)
  then have "r \<in> set (sort_key (cascade_key (fe_ustr e)) (filter fr_Enabled cs))" using cs(2) by blast
  then show ?thesis using cs(1) by (auto simp: ListEffectiveForChannel_def split: if_splits)
qed

lemma resolved_rules_cong: "fd_rules db' = fd_rules db \<Longrightarrow> resolved_rules e msg db' = resolved_rules e msg db"
  by (simp add: resolved_rules_def ListEffectiveForChannel_def)

lemma run_engine_Handle:
  assumes "engine_validate msg = Inr ()" "o_fault (os n) = NoFault"
  shows "run (engine_Handle e msg) os n db = run (tryRules e msg (resolved_rules e msg db)) os (Suc n) db"
proof -
  have "im_TenantID msg \<noteq> uuid_nil" using assms(1) by (auto simp: engine_validate_def split: if_splits)
  then show ?thesis using assms by (simp add: engine_Handle_def rules_Resolve_def resolved_rules_def ListEffectiveForChannel_def)
qed

lemma engine_Handle_Inr:
  assumes "run (engine_Handle e msg) os n db = (Inr (), n', db')"
  shows "engine_validate msg = Inr () \<and> run (tryRules e msg (resolved_rules e msg db)) os (Suc n) db = (Inr (), n', db')"
proof -
  have v: "engine_validate msg = Inr ()" "im_TenantID msg \<noteq> uuid_nil"
    using assms by (auto simp: engine_Handle_def engine_validate_def split: if_splits sum.splits)
  moreover have "o_fault (os n) = NoFault"
    using assms v by (auto simp: engine_Handle_def rules_Resolve_def split: fault.splits)
  ultimately show ?thesis using assms run_engine_Handle by fastforce
qed

text \<open>
  C22. A redelivery of a handled message changes nothing: when a delivery ended without an error, whatever failed on the way, delivering the same message
  again ends without an error and leaves every table and the published events as they were.
\<close>

theorem redelivery_is_harmless:
  assumes inv: "funnel_inv db" "application_tenants db" and q: "quiet os'"
    and handled: "result_of (engine_Handle e msg) os db = Inr ()"
  shows "result_of (engine_Handle e msg) os' (store_after (engine_Handle e msg) os db) = Inr () \<and>
    store_after (engine_Handle e msg) os' (store_after (engine_Handle e msg) os db) = store_after (engine_Handle e msg) os db"
proof -
  let ?db' = "store_after (engine_Handle e msg) os db"
  obtain n' where run: "run (engine_Handle e msg) os 0 db = (Inr (), n', ?db')"
    using handled by (cases "run (engine_Handle e msg) os 0 db") (auto simp: result_of_def store_after_def)
  note first = engine_Handle_Inr [OF run]
  have eff: "grown db ?db' \<and> (\<forall>r \<in> set (resolved_rules e msg db). settled_rule e msg ?db' r)"
    using tryRules_effect [of e msg _ os "Suc 0" db] first inv resolved_rules_sub by (fastforce simp: funnel_inv_def)
  then have "resolved_rules e msg ?db' = resolved_rules e msg db" by (intro resolved_rules_cong) (simp add: grown_def)
  then have "\<exists>m. run (engine_Handle e msg) os' 0 ?db' = (Inr (), m, ?db')"
    using run_settled [OF q] eff first run_engine_Handle [of msg os' 0 e ?db'] q by (simp add: quiet_def)
  then show ?thesis by (auto simp: result_of_def store_after_def)
qed

section \<open>What a delivery does\<close>

text \<open>The stage a rule moves to, and the rules that act on a message.\<close>

definition target_stage :: "funnel_db \<Rightarrow> uuid \<Rightarrow> Rule \<Rightarrow> uuid option" where
  "target_stage db ten r =
     (case stageKey r of None \<Rightarrow> None
      | Some k \<Rightarrow> (case FindByKey db ten (TrimSpace k) of Inr st \<Rightarrow> Some (st_ID st) | Inl _ \<Rightarrow> None))"

definition acts_on :: "funnel_engine \<Rightarrow> InboundMessage \<Rightarrow> Rule \<Rightarrow> bool" where
  "acts_on e msg r \<longleftrightarrow> matchTrigger e r msg \<and> stageKey r \<noteq> None"

text \<open>What the engine needs for a rule: its identifier, its stage, the conversation, and a user row for the system actor.\<close>

definition rule_ready :: "InboundMessage \<Rightarrow> funnel_db \<Rightarrow> Rule \<Rightarrow> bool" where
  "rule_ready msg db r \<longleftrightarrow>
     r \<in> set (fd_rules db) \<and> fr_ID r \<noteq> uuid_nil \<and> im_MessageID msg \<noteq> uuid_nil \<and>
     (case stageKey r of None \<Rightarrow> True
      | Some k \<Rightarrow> \<exists>st. movable db (im_TenantID msg) (im_ConversationID msg) k SystemActor st)"

definition unapplied :: "InboundMessage \<Rightarrow> funnel_db \<Rightarrow> Rule \<Rightarrow> bool" where
  "unapplied msg db r \<longleftrightarrow> (\<forall>a \<in> set (fd_applications db). fa_MessageID a = im_MessageID msg \<longrightarrow> fa_RuleID a \<noteq> fr_ID r)"

text \<open>What stays between the rules of a delivery.\<close>

definition same_world :: "funnel_db \<Rightarrow> funnel_db \<Rightarrow> bool" where
  "same_world a b \<longleftrightarrow> fd_rules b = fd_rules a \<and> fd_stage b = fd_stage a \<and> fd_users b = fd_users a \<and> fd_conversations b = fd_conversations a"

lemma same_world_facts:
  assumes "same_world a b"
  shows "rule_ready msg b r = rule_ready msg a r" "target_stage b ten r = target_stage a ten r"
proof -
  have eq: "movable b ten cid k u = movable a ten cid k u" for ten cid k u
    using assms by (intro ext movable_cong) (simp_all add: same_world_def)
  show "rule_ready msg b r = rule_ready msg a r" using assms by (cases "stageKey r") (simp_all add: rule_ready_def same_world_def eq)
  show "target_stage b ten r = target_stage a ten r"
    using assms by (cases "stageKey r") (simp_all add: target_stage_def FindByKey_def same_world_def)
qed

lemma run_tryRule_acting:
  assumes q: "quiet os" and inv: "funnel_inv db" and fresh: "fresh_from os n db"
    and r: "rule_ready msg db r" "unapplied msg db r" "acts_on e msg r"
  obtains n' db' app where "run (tryRule e msg r) os n db = (Inr (), n', db')" "same_world db db'" "funnel_inv db'" "fresh_from os n' db'"
    "fd_applications db' = fd_applications db @ [app]" "fa_RuleID app = fr_ID r" "fa_MessageID app = im_MessageID msg"
    "stage_of db' (im_TenantID msg) (im_ConversationID msg) = target_stage db (im_TenantID msg) r"
proof -
  let ?ten = "im_TenantID msg" and ?cid = "im_ConversationID msg"
  have nf: "o_fault (os m) = NoFault" for m using q by (simp add: quiet_def)
  obtain k st where k: "stageKey r = Some k" and m: "movable db ?ten ?cid k SystemActor st"
    using r(1,3) by (auto simp: acts_on_def rule_ready_def split: option.splits)
  have fresh1: "fresh_from os (Suc n) db" by (rule fresh_from_later [OF fresh]) simp
  define t where "t = move_row (os (Suc n + 2)) db ?ten ?cid SystemActor MoveReason st"
  define at_stage where "at_stage \<longleftrightarrow> stage_of db ?ten ?cid = Some (st_ID st)"
  define db1 n1 where "db1 = (if at_stage then db else moved db t st)" and "n1 = (if at_stage then Suc n + 2 else Suc n + 5)"
  have mv: "run (MoveConversation ?ten ?cid k SystemActor MoveReason) os (Suc n) db = (Inr (), n1, db1)"
    using run_MoveConversation [OF q inv fresh1 m, of MoveReason] by (simp add: db1_def n1_def t_def at_stage_def)
  have w: "same_world db db1" "fd_applications db1 = fd_applications db" by (simp_all add: db1_def same_world_def moved_def)
  let ?app = "\<lparr>fa_TenantID = ?ten, fa_RuleID = fr_ID r, fa_MessageID = im_MessageID msg, fa_ConversationID = ?cid,
      fa_ActionType = ActionType_text (fr_ActionType r), fa_AppliedAt = o_now (os n1)\<rparr>"
  let ?db' = "db1\<lparr>fd_applications := fd_applications db1 @ [?app]\<rparr>"
  have act: "fr_ActionType r = ActionTypeMoveToStage" using k by (auto simp: stageKey_def split: if_splits)
  have ids: "?ten \<noteq> uuid_nil" "?cid \<noteq> uuid_nil" using m by (simp_all add: movable_def)
  have chk: "IsApplied db ?ten (fr_ID r) (im_MessageID msg) = Inr False"
    using r(1,2) ids by (auto simp: IsApplied_def rule_ready_def unapplied_def list_ex_iff)
  have rec: "application_Record db1 ?app = Inr ((), ?db')"
    using r(1,2) ids w act by (auto simp: application_Record_def rule_ready_def unapplied_def list_ex_iff ActionType_text_def same_world_def)
  have run: "run (tryRule e msg r) os n db = (Inr (), Suc (Suc n1), ?db')"
    using r(3) nf chk k mv rec by (simp add: tryRule_def acts_on_def)
  have "funnel_inv ?db'" using funnel_st.rg.safe_run [OF tryRule_safe inv _ run] by simp
  moreover have "fresh_from os (Suc (Suc n1)) ?db'"
  proof (cases at_stage)
    case True
    have "fresh_from os (Suc (Suc n1)) db" by (rule fresh_from_later [OF fresh]) (simp add: n1_def)
    then show ?thesis using True by (simp add: fresh_from_def db1_def)
  next
    case False
    have "fresh_from os (Suc n + 2) db" by (rule fresh_from_later [OF fresh]) simp
    then show ?thesis
      by (rule fresh_from_append [where t = t]) (simp_all add: t_def move_row_def db1_def moved_def False n1_def)
  qed
  moreover have "stage_of ?db' ?ten ?cid = target_stage db ?ten r"
  proof -
    have tgt: "target_stage db ?ten r = Some (st_ID st)" using k m by (simp add: target_stage_def movable_def)
    have "stage_of db1 ?ten ?cid = Some (st_ID st)"
    proof (cases at_stage)
      case True
      then show ?thesis by (simp add: db1_def at_stage_def)
    next
      case False
      have "\<forall>x \<in> set (fd_transition db). tr_TransitionedAt x < tr_TransitionedAt t"
        using fresh by (auto simp: fresh_from_def t_def move_row_def)
      then have "LatestForConversation (moved db t st) ?ten ?cid = Inr t"
        by (intro latest_append [OF _ _ ids]) (simp_all add: t_def move_row_def moved_def)
      then show ?thesis using False by (simp add: db1_def stage_of_def t_def move_row_def)
    qed
    moreover have "stage_of ?db' ?ten ?cid = stage_of db1 ?ten ?cid" by (rule stage_of_cong) simp
    ultimately show ?thesis using tgt by simp
  qed
  ultimately show ?thesis
    by (intro that [of _ _ ?app, OF run]) (use w in \<open>simp_all add: same_world_def\<close>)
qed

lemma run_tryRule_idle: "quiet os \<Longrightarrow> rule_ready msg db r \<Longrightarrow> im_TenantID msg \<noteq> uuid_nil \<Longrightarrow> \<not> acts_on e msg r \<Longrightarrow>
    \<exists>n' \<ge> n. run (tryRule e msg r) os n db = (Inr (), n', db)"
  by (auto simp: tryRule_def acts_on_def quiet_def rule_ready_def IsApplied_def)

lemma run_tryRules_ready:
  assumes q: "quiet os" and ten: "im_TenantID msg \<noteq> uuid_nil"
    and "funnel_inv db" "fresh_from os n db" "\<forall>r \<in> set rs. rule_ready msg db r \<and> unapplied msg db r" "distinct (map fr_ID rs)"
  shows "\<exists>n' db' apps. run (tryRules e msg rs) os n db = (Inr (), n', db') \<and> same_world db db' \<and>
    fd_applications db' = fd_applications db @ apps \<and> map fa_RuleID apps = map fr_ID (filter (acts_on e msg) rs) \<and>
    (\<forall>a \<in> set apps. fa_MessageID a = im_MessageID msg) \<and>
    stage_of db' (im_TenantID msg) (im_ConversationID msg) =
      (case rev (filter (acts_on e msg) rs) of [] \<Rightarrow> stage_of db (im_TenantID msg) (im_ConversationID msg)
       | r # _ \<Rightarrow> target_stage db (im_TenantID msg) r)"
  using assms(3-)
proof (induction rs arbitrary: n db)
  case Nil
  then show ?case by (simp add: same_world_def)
next
  case (Cons r rs)
  show ?case
  proof (cases "acts_on e msg r")
    case False
    then obtain n1 where "n \<le> n1" "run (tryRule e msg r) os n db = (Inr (), n1, db)"
      using run_tryRule_idle [OF q _ ten] Cons.prems(3) by (metis list.set_intros(1))
    moreover have "fresh_from os n1 db" using Cons.prems(2) \<open>n \<le> n1\<close> by (rule fresh_from_later)
    ultimately show ?thesis using Cons.IH [of db n1] Cons.prems False by simp
  next
    case True
    obtain n1 db1 app where one: "run (tryRule e msg r) os n db = (Inr (), n1, db1)" "same_world db db1" "funnel_inv db1" "fresh_from os n1 db1"
      "fd_applications db1 = fd_applications db @ [app]" "fa_RuleID app = fr_ID r" "fa_MessageID app = im_MessageID msg"
      "stage_of db1 (im_TenantID msg) (im_ConversationID msg) = target_stage db (im_TenantID msg) r"
      by (rule run_tryRule_acting [OF q Cons.prems(1,2) _ _ True]) (use Cons.prems(3) in auto)
    have "\<forall>x \<in> set rs. rule_ready msg db1 x \<and> unapplied msg db1 x"
      using Cons.prems(3,4) one(5,6) same_world_facts(1) [OF one(2)] by (fastforce simp: unapplied_def)
    then obtain n2 db2 apps where rest: "run (tryRules e msg rs) os n1 db1 = (Inr (), n2, db2)" "same_world db1 db2"
      "fd_applications db2 = fd_applications db1 @ apps" "map fa_RuleID apps = map fr_ID (filter (acts_on e msg) rs)"
      "\<forall>a \<in> set apps. fa_MessageID a = im_MessageID msg"
      "stage_of db2 (im_TenantID msg) (im_ConversationID msg) =
        (case rev (filter (acts_on e msg) rs) of [] \<Rightarrow> stage_of db1 (im_TenantID msg) (im_ConversationID msg)
         | r # _ \<Rightarrow> target_stage db1 (im_TenantID msg) r)"
      using Cons.IH [OF one(3,4)] Cons.prems(4) by auto
    have "run (tryRules e msg (r # rs)) os n db = (Inr (), n2, db2)" using one(1) rest(1) by simp
    moreover have "same_world db db2" using one(2) rest(2) by (simp add: same_world_def)
    moreover have "stage_of db2 (im_TenantID msg) (im_ConversationID msg) =
        (case rev (filter (acts_on e msg) (r # rs)) of [] \<Rightarrow> stage_of db (im_TenantID msg) (im_ConversationID msg)
         | r # _ \<Rightarrow> target_stage db (im_TenantID msg) r)"
      using rest(6) one(8) True same_world_facts(2) [OF one(2)] by (cases "rev (filter (acts_on e msg) rs)") simp_all
    ultimately show ?thesis using one(5-7) rest(3-5) True by (intro exI [of _ n2] exI [of _ db2] exI [of _ "app # apps"]) simp
  qed
qed

lemma resolved_rules_distinct:
  assumes "distinct (map fr_ID (fd_rules db))"
  shows "distinct (map fr_ID (resolved_rules e msg db))"
proof (cases "ListEffectiveForChannel db (im_TenantID msg) (im_Channel msg) uuid_nil")
  case (Inr cs)
  then have "distinct cs" using assms by (auto simp: ListEffectiveForChannel_def distinct_map split: if_splits)
  then have d: "distinct (resolved_rules e msg db)"
    using Inr by (auto simp: resolved_rules_def cascade_def intro!: distinct_subseq [OF first_of_signature_sub])
  have "inj_on fr_ID (set (resolved_rules e msg db))"
    using assms resolved_rules_sub by (meson distinct_map inj_on_subset subsetI)
  then show ?thesis using d by (simp add: distinct_map)
qed (simp add: resolved_rules_def)

text \<open>
  A delivery applies every matching rule and the last one decides: without faults, on a message no rule was applied to yet, when the rules'
  stages and the conversation exist and the system actor is a user, the delivery ends without an error, records one application for each matching rule with a
  stage, in the order of the cascade, and leaves the conversation on the stage of the last of them.
\<close>

theorem last_matching_rule_decides:
  assumes q: "quiet os" and inv: "funnel_inv db" and fresh: "fresh_from os 1 db" and v: "engine_validate msg = Inr ()"
    and ready: "\<forall>r \<in> set (resolved_rules e msg db). rule_ready msg db r \<and> unapplied msg db r"
  shows "result_of (engine_Handle e msg) os db = Inr () \<and>
    (let db' = store_after (engine_Handle e msg) os db; acting = filter (acts_on e msg) (resolved_rules e msg db) in
     (\<exists>apps. fd_applications db' = fd_applications db @ apps \<and> map fa_RuleID apps = map fr_ID acting \<and>
        (\<forall>a \<in> set apps. fa_MessageID a = im_MessageID msg)) \<and>
     stage_of db' (im_TenantID msg) (im_ConversationID msg) =
       (if acting = [] then stage_of db (im_TenantID msg) (im_ConversationID msg) else target_stage db (im_TenantID msg) (last acting)))"
proof -
  have ten: "im_TenantID msg \<noteq> uuid_nil" using v by (auto simp: engine_validate_def split: if_splits)
  have run: "run (engine_Handle e msg) os 0 db = run (tryRules e msg (resolved_rules e msg db)) os 1 db"
    using run_engine_Handle [OF v, of os 0] q by (simp add: quiet_def)
  let ?rs = "resolved_rules e msg db"
  have "distinct (map fr_ID ?rs)" using inv by (intro resolved_rules_distinct) (simp add: funnel_inv_def)
  from run_tryRules_ready [OF q ten inv fresh ready this, of e]
  obtain n' db' apps where r: "run (tryRules e msg ?rs) os 1 db = (Inr (), n', db')"
    "fd_applications db' = fd_applications db @ apps" "map fa_RuleID apps = map fr_ID (filter (acts_on e msg) ?rs)"
    "\<forall>a \<in> set apps. fa_MessageID a = im_MessageID msg"
    "stage_of db' (im_TenantID msg) (im_ConversationID msg) =
      (case rev (filter (acts_on e msg) ?rs) of [] \<Rightarrow> stage_of db (im_TenantID msg) (im_ConversationID msg)
       | r # _ \<Rightarrow> target_stage db (im_TenantID msg) r)" by blast
  have "(case rev xs of [] \<Rightarrow> a | r # _ \<Rightarrow> f r) = (if xs = [] then a else f (last xs))" for xs :: "Rule list" and a :: "uuid option" and f
    by (cases xs rule: rev_cases) simp_all
  then show ?thesis using r run by (simp add: result_of_def store_after_def)
qed

section \<open>The system actor\<close>

text \<open>Without a user row for the actor, a move never writes.\<close>

lemma transition_Create_needs_user:
  "tr_TransitionedByUserID t \<notin> set (fd_users db) \<Longrightarrow> \<exists>m. transition_Create db t = Inl (Opaque m) \<or> transition_Create db t = Inl (Wrapped ''funnel/postgres: Create'' (Opaque m))"
  by (auto simp: transition_Create_def Let_def)

lemma record_move_without_user:
  assumes "user \<notin> set (fd_users db)"
  shows "\<exists>err n'. run (record_move ten cid st from_id user reason) os n db = (Inl err, n', db) \<and> \<not> errors_is err en_ErrInvalidEvent"
proof -
  define t where "t = \<lparr>tr_ID = o_ids (os n) 0, tr_TenantID = ten, tr_ConversationID = cid, tr_FromStageID = from_id,
                 tr_ToStageID = st_ID st, tr_TransitionedByUserID = user, tr_TransitionedAt = o_now (os n), tr_Reason = reason\<rparr>"
  obtain e where "transition_Create db t = Inl e" "\<not> errors_is e en_ErrInvalidEvent"
    using transition_Create_needs_user [of t db] assms by (auto simp: t_def)
  then show ?thesis by (auto simp: record_move_def Let_def t_def split: fault.split)
qed

lemma Move_without_user:
  assumes "user \<notin> set (fd_users db)"
  shows "\<exists>res n'. run (MoveConversation ten cid key user reason) os n db = (res, n', db) \<and>
    (\<forall>err. res = Inl err \<longrightarrow> \<not> errors_is err en_ErrInvalidEvent) \<and>
    (quiet os \<and>
       (case FindByKey db ten (TrimSpace key) of Inr st \<Rightarrow> stage_of db ten cid \<noteq> Some (st_ID st) | Inl _ \<Rightarrow> True) \<longrightarrow> (\<exists>err. res = Inl err))"
proof -
  have find: "\<not> errors_is e en_ErrInvalidEvent" if "FindByKey db ten k = Inl e" for e k
    using that by (auto simp: FindByKey_def split: if_splits option.splits)
  have lat: "\<not> errors_is e en_ErrInvalidEvent" if "LatestForConversation db ten cid = Inl e" for e
    using that by (auto simp: LatestForConversation_def split: if_splits list.splits)
  have rec: "\<forall>st from_id m. \<exists>err n'. run (record_move ten cid st from_id user reason) os m db = (Inl err, n', db) \<and> \<not> errors_is err en_ErrInvalidEvent"
    using record_move_without_user [OF assms] by blast
  show ?thesis
    using find lat unfolding MoveConversation_def Let_def stage_of_def quiet_def
    by (auto split: fault.splits sum.splits) (use rec in blast)+
qed

lemma tryRule_without_user:
  assumes no: "SystemActor \<notin> set (fd_users db)"
  shows "\<exists>res n' apps. run (tryRule e msg r) os n db = (res, n', db\<lparr>fd_applications := fd_applications db @ apps\<rparr>) \<and>
    (\<forall>a \<in> set apps. fa_RuleID a = fr_ID r) \<and> (\<forall>err. res = Inl err \<longrightarrow> \<not> errors_is err en_ErrInvalidEvent) \<and>
    (quiet os \<and> acts_on e msg r \<and> unapplied msg db r \<and> stage_of db (im_TenantID msg) (im_ConversationID msg) \<noteq> target_stage db (im_TenantID msg) r
       \<longrightarrow> (\<exists>err. res = Inl err))"
proof -
  let ?chk = "\<lambda>db. IsApplied db (im_TenantID msg) (fr_ID r) (im_MessageID msg)"
  have same: "db\<lparr>fd_applications := fd_applications db @ []\<rparr> = db" by simp
  have chkE: "\<not> errors_is err en_ErrInvalidEvent" if "?chk db = Inl err" for err
    using that by (auto simp: IsApplied_def split: if_splits)
  have chkF: "?chk db \<noteq> Inr True" if "unapplied msg db r"
    using that by (auto simp: IsApplied_def unapplied_def list_ex_iff)
  have rec: "\<not> errors_is err en_ErrInvalidEvent" if "application_Record db app = Inl err" "\<not> errors_is err en_ErrAlreadyApplied" for app err
    using that by (auto simp: application_Record_def split: if_splits)
  have recI: "s' = db\<lparr>fd_applications := fd_applications db @ [app]\<rparr>" if "application_Record db app = Inr (x, s')" for app x s'
    using that by (auto simp: application_Record_def split: if_splits)
  show ?thesis
  proof (cases "stageKey r")
    case None
    then show ?thesis using chkE
      by (intro exI [of _ "fst (run (tryRule e msg r) os n db)"] exI [of _ "fst (snd (run (tryRule e msg r) os n db))"] exI [of _ "[]"])
        (auto simp: tryRule_def acts_on_def split: fault.splits sum.splits)
  next
    case (Some k)
    obtain res n1 where mv: "run (MoveConversation (im_TenantID msg) (im_ConversationID msg) k SystemActor MoveReason) os (Suc n) db = (res, n1, db)"
      and bad: "\<forall>err. res = Inl err \<longrightarrow> \<not> errors_is err en_ErrInvalidEvent"
      and fails: "quiet os \<and> (case FindByKey db (im_TenantID msg) (TrimSpace k) of
          Inr st \<Rightarrow> stage_of db (im_TenantID msg) (im_ConversationID msg) \<noteq> Some (st_ID st) | Inl _ \<Rightarrow> True) \<longrightarrow> (\<exists>err. res = Inl err)"
      using Move_without_user [OF no] by blast
    have tgt: "quiet os \<and> stage_of db (im_TenantID msg) (im_ConversationID msg) \<noteq> target_stage db (im_TenantID msg) r \<longrightarrow> (\<exists>err. res = Inl err)"
      using fails Some by (auto simp: target_stage_def split: sum.splits)
    define app where "app = \<lparr>fa_TenantID = im_TenantID msg, fa_RuleID = fr_ID r, fa_MessageID = im_MessageID msg, fa_ConversationID = im_ConversationID msg,
        fa_ActionType = ActionType_text (fr_ActionType r), fa_AppliedAt = o_now (os n1)\<rparr>"
    obtain out n' s' where run: "run (tryRule e msg r) os n db = (out, n', s')" by (cases "run (tryRule e msg r) os n db") auto
    have s': "s' = db \<or> s' = db\<lparr>fd_applications := fd_applications db @ [app]\<rparr>"
      using run mv Some recI by (auto simp: tryRule_def app_def split: fault.splits sum.splits prod.splits if_splits)
    have out: "\<forall>err. out = Inl err \<longrightarrow> \<not> errors_is err en_ErrInvalidEvent"
      using run mv Some bad chkE rec by (auto simp: tryRule_def split: fault.splits sum.splits prod.splits if_splits)
    have "quiet os \<and> acts_on e msg r \<and> unapplied msg db r \<and> stage_of db (im_TenantID msg) (im_ConversationID msg) \<noteq> target_stage db (im_TenantID msg) r
        \<longrightarrow> (\<exists>err. out = Inl err)"
    proof
      assume a: "quiet os \<and> acts_on e msg r \<and> unapplied msg db r \<and> stage_of db (im_TenantID msg) (im_ConversationID msg) \<noteq> target_stage db (im_TenantID msg) r"
      then obtain err where "res = Inl err" using tgt by blast
      then show "\<exists>err. out = Inl err" using a run mv Some chkF
        by (cases "?chk db") (auto simp: tryRule_def acts_on_def quiet_def)
    qed
    moreover have "\<exists>apps. s' = db\<lparr>fd_applications := fd_applications db @ apps\<rparr> \<and> (\<forall>a \<in> set apps. fa_RuleID a = fr_ID r)"
      using s'
    proof
      assume "s' = db"
      then show ?thesis by (intro exI [of _ "[]"]) simp
    next
      assume "s' = db\<lparr>fd_applications := fd_applications db @ [app]\<rparr>"
      then show ?thesis by (intro exI [of _ "[app]"]) (simp add: app_def)
    qed
    ultimately show ?thesis using run out by blast
  qed
qed

text \<open>A rule that would have to move the conversation.\<close>

definition wants_move :: "funnel_engine \<Rightarrow> InboundMessage \<Rightarrow> funnel_db \<Rightarrow> Rule \<Rightarrow> bool" where
  "wants_move e msg db r \<longleftrightarrow> acts_on e msg r \<and> unapplied msg db r \<and>
     stage_of db (im_TenantID msg) (im_ConversationID msg) \<noteq> target_stage db (im_TenantID msg) r"

lemma wants_move_other:
  assumes "\<forall>a \<in> set apps. fa_RuleID a \<noteq> fr_ID r"
  shows "wants_move e msg (db\<lparr>fd_applications := fd_applications db @ apps\<rparr>) r = wants_move e msg db r"
proof -
  let ?db' = "db\<lparr>fd_applications := fd_applications db @ apps\<rparr>"
  have "same_world db ?db'" by (simp add: same_world_def)
  moreover have "stage_of ?db' t c = stage_of db t c" for t c by (rule stage_of_cong) simp
  ultimately show ?thesis using assms same_world_facts(2) by (auto simp: wants_move_def unapplied_def)
qed

lemma tryRules_without_user:
  assumes "SystemActor \<notin> set (fd_users db)" "distinct (map fr_ID rs)"
  shows "\<exists>res n' apps. run (tryRules e msg rs) os n db = (res, n', db\<lparr>fd_applications := fd_applications db @ apps\<rparr>) \<and>
    (\<forall>err. res = Inl err \<longrightarrow> \<not> errors_is err en_ErrInvalidEvent) \<and>
    (quiet os \<and> (\<exists>r \<in> set rs. wants_move e msg db r) \<longrightarrow> (\<exists>err. res = Inl err))"
  using assms
proof (induction rs arbitrary: n db)
  case Nil
  then show ?case by (auto intro!: exI [of _ "[]"])
next
  case (Cons r rs)
  obtain x n1 apps where x: "run (tryRule e msg r) os n db = (x, n1, db\<lparr>fd_applications := fd_applications db @ apps\<rparr>)"
    "\<forall>a \<in> set apps. fa_RuleID a = fr_ID r" "\<forall>err. x = Inl err \<longrightarrow> \<not> errors_is err en_ErrInvalidEvent"
    "quiet os \<and> wants_move e msg db r \<longrightarrow> (\<exists>err. x = Inl err)"
    using tryRule_without_user [OF Cons.prems(1), of e msg r os n] unfolding wants_move_def by blast
  let ?db1 = "db\<lparr>fd_applications := fd_applications db @ apps\<rparr>"
  show ?case
  proof (cases x)
    case (Inl err)
    then show ?thesis using x by auto
  next
    case (Inr u)
    obtain res n' more where rest: "run (tryRules e msg rs) os n1 ?db1 = (res, n', ?db1\<lparr>fd_applications := fd_applications ?db1 @ more\<rparr>)"
      "\<forall>err. res = Inl err \<longrightarrow> \<not> errors_is err en_ErrInvalidEvent"
      "quiet os \<and> (\<exists>r \<in> set rs. wants_move e msg ?db1 r) \<longrightarrow> (\<exists>err. res = Inl err)"
      using Cons.IH [of ?db1 n1] Cons.prems by auto
    have "wants_move e msg ?db1 y = wants_move e msg db y" if "y \<in> set rs" for y
      using x(2) Cons.prems(2) that by (intro wants_move_other) auto
    then have "quiet os \<and> (\<exists>r \<in> set (r # rs). wants_move e msg db r) \<longrightarrow> (\<exists>err. res = Inl err)" using rest(3) x(4) Inr by auto
    then show ?thesis using rest x(1) Inr by (intro exI [of _ res] exI [of _ n'] exI [of _ "apps @ more"]) simp
  qed
qed

text \<open>
  The engine can move nothing unless its actor is a user: the actor is a fixed identifier, and every transition must refer to a user. While no such
  user exists, no delivery, whatever happens during it, adds a transition or publishes an event, and a delivery with a rule that would have to
  move the conversation fails with an error that makes the broker deliver it again.
\<close>

theorem engine_needs_its_user:
  assumes no: "SystemActor \<notin> set (fd_users db)" and inv: "funnel_inv db"
  shows "fd_transition (store_after (engine_Handle e msg) os db) = fd_transition db \<and> fd_events (store_after (engine_Handle e msg) os db) = fd_events db \<and>
    (quiet os \<and> engine_validate msg = Inr () \<and> (\<exists>r \<in> set (resolved_rules e msg db). wants_move e msg db r) \<and> DecodeInboundMessage e unmarshal body = Inr msg \<longrightarrow>
      (\<exists>err. result_of (Consumer_Handle e unmarshal body) os db = Redeliver err))"
proof -
  have d: "distinct (map fr_ID (resolved_rules e msg db))" using inv by (intro resolved_rules_distinct) (simp add: funnel_inv_def)
  obtain res n' apps where r: "run (tryRules e msg (resolved_rules e msg db)) os (Suc 0) db = (res, n', db\<lparr>fd_applications := fd_applications db @ apps\<rparr>)"
    "\<forall>err. res = Inl err \<longrightarrow> \<not> errors_is err en_ErrInvalidEvent"
    "quiet os \<and> (\<exists>r \<in> set (resolved_rules e msg db). wants_move e msg db r) \<longrightarrow> (\<exists>err. res = Inl err)"
    using tryRules_without_user [OF no d, of e msg os "Suc 0"] by blast
  have run: "snd (snd (run (engine_Handle e msg) os 0 db)) = db \<or>
      run (engine_Handle e msg) os 0 db = run (tryRules e msg (resolved_rules e msg db)) os (Suc 0) db"
  proof (cases "engine_validate msg = Inr () \<and> o_fault (os 0) = NoFault")
    case True
    then show ?thesis by (simp add: run_engine_Handle)
  next
    case False
    then show ?thesis by (auto simp: engine_Handle_def rules_Resolve_def split: sum.split fault.split)
  qed
  have fails: "\<exists>err. result_of (Consumer_Handle e unmarshal body) os db = Redeliver err"
    if a: "quiet os" "engine_validate msg = Inr ()" "\<exists>r \<in> set (resolved_rules e msg db). wants_move e msg db r" "DecodeInboundMessage e unmarshal body = Inr msg"
  proof -
    obtain err where err: "res = Inl err" "\<not> errors_is err en_ErrInvalidEvent" using r a by blast
    have "run (engine_Handle e msg) os 0 db = (Inl err, n', db\<lparr>fd_applications := fd_applications db @ apps\<rparr>)"
      using run_engine_Handle [OF a(2), of os 0 e db] a(1) r(1) err(1) by (simp add: quiet_def)
    moreover have "body \<noteq> ''''" using a(4) by (auto simp: DecodeInboundMessage_def)
    ultimately show ?thesis using a(4) err(2) by (simp add: result_of_def Consumer_Handle_def)
  qed
  have "fd_transition (store_after (engine_Handle e msg) os db) = fd_transition db" "fd_events (store_after (engine_Handle e msg) os db) = fd_events db"
    using run r(1) by (auto simp: store_after_def)
  then show ?thesis using fails by blast
qed

section \<open>The wire format\<close>

text \<open>
  Producer and consumer agree on the wire format: for every message with identifiers and a channel in canonical form, decoding the encoded
  message gives it back, provided JSON documents and printed identifiers read back as written.
\<close>

theorem decode_encode:
  assumes json: "unmarshal (marshal (wire_event e m)) = Some (wire_event e m)" "marshal (wire_event e m) \<noteq> ''''"
    and ids: "\<forall>u \<in> {im_TenantID m, im_ConversationID m, im_MessageID m}. fe_uparse e (TrimSpace (fe_ustr e u)) = Some u"
    and m: "engine_validate m = Inr ()" "fe_lower e (TrimSpace (im_Channel m)) = im_Channel m" "TrimSpace (im_Channel m) \<noteq> ''''"
  shows "DecodeInboundMessage e unmarshal (EncodeInboundMessage e marshal m) = Inr m"
proof -
  obtain c cs where c: "TrimSpace (im_Channel m) = c # cs" using m(3) by (cases "TrimSpace (im_Channel m)") auto
  show ?thesis
    using json ids m(1,2) c
    by (auto simp: DecodeInboundMessage_def EncodeInboundMessage_def wire_event_def parse_id_def engine_validate_def split: if_splits)
qed

text \<open>
  Only complete messages reach the engine: whatever bytes arrive, a decoded message has a tenant, a conversation, a message identifier, and a channel
  that passes the engine's own check unless lower-casing empties it; everything else is acknowledged and changes nothing.
\<close>

theorem consumer_drops_malformed:
  shows "(\<forall>err. DecodeInboundMessage e unmarshal body = Inl err \<longrightarrow>
      run (Consumer_Handle e unmarshal body) os n db = (Acked, n, db) \<and> errors_is err en_ErrInvalidEvent) \<and>
    (\<forall>m. DecodeInboundMessage e unmarshal body = Inr m \<longrightarrow>
      im_TenantID m \<noteq> uuid_nil \<and> im_ConversationID m \<noteq> uuid_nil \<and> im_MessageID m \<noteq> uuid_nil \<and>
      (engine_validate m = Inr () \<or> im_Channel m = ''''))"
  by (auto simp: Consumer_Handle_def DecodeInboundMessage_def parse_id_def engine_validate_def
      split: option.splits prod.splits list.splits if_splits)

text \<open>
  A publish that fails after the transition was stored is not made up for: the caller sees an error, and the move it retries is a no-op that publishes
  nothing.
\<close>

lemma failed_publish_is_never_repeated:
  assumes q: "\<And>m. m \<noteq> 4 \<Longrightarrow> o_fault (os m) = NoFault" "o_fault (os 4) = FailBefore why" "quiet os'"
    and inv: "funnel_inv db" and fresh: "fresh_from os 0 db" and m: "movable db ten cid key user st"
    and elsewhere: "stage_of db ten cid \<noteq> Some (st_ID st)"
  shows "\<exists>err. result_of (MoveConversation ten cid key user reason) os db = Inl err \<and>
    (let db' = store_after (MoveConversation ten cid key user reason) os db in
     stage_of db' ten cid = Some (st_ID st) \<and> fd_events db' = fd_events db \<and>
     result_of (MoveConversation ten cid key user reason) os' db' = Inr () \<and>
     store_after (MoveConversation ten cid key user reason) os' db' = db')"
proof -
  define t where "t = move_row (os 2) db ten cid user reason st"
  let ?db' = "db\<lparr>fd_transition := fd_transition db @ [t]\<rparr>"
  have ids: "ten \<noteq> uuid_nil" "cid \<noteq> uuid_nil" using m by (simp_all add: movable_def)
  have from_ok: "list_all (\<lambda>s. s \<in> set (map st_ID (fd_stage db))) (case stage_of db ten cid of None \<Rightarrow> [] | Some f \<Rightarrow> [f])"
    using inv by (cases rule: LatestForConversation_cases [OF ids, of db]) (auto simp: stage_of_def funnel_inv_def)
  have create: "transition_Create db t = Inr ((), ?db')"
    using m fresh from_ok FindByKey_stage [of db ten "TrimSpace key" st]
    by (auto simp: transition_Create_def Let_def t_def move_row_def movable_def fresh_from_def)
  have nf: "o_fault (os 0) = NoFault" "o_fault (os (Suc 0)) = NoFault" "o_fault (os (Suc (Suc (Suc 0)))) = NoFault"
    "o_fault (os (Suc (Suc (Suc (Suc 0))))) = FailBefore why" using q(1,2) by (simp_all add: eval_nat_numeral)
  have run: "\<exists>err. run (MoveConversation ten cid key user reason) os 0 db = (Inl err, 5, ?db')"
    by (cases rule: LatestForConversation_cases [OF ids, of db])
      (use m create nf elsewhere in \<open>auto simp: MoveConversation_def Let_def movable_def record_move_def funnel_Publish_def stage_of_def
        t_def move_row_def eval_nat_numeral\<close>)
  have "\<forall>x \<in> set (fd_transition db). tr_TransitionedAt x < tr_TransitionedAt t" using fresh by (auto simp: fresh_from_def t_def move_row_def)
  then have "LatestForConversation ?db' ten cid = Inr t" by (intro latest_append [OF _ _ ids]) (simp_all add: t_def move_row_def)
  then have st: "stage_of ?db' ten cid = Some (st_ID st)" by (simp add: stage_of_def t_def move_row_def)
  have "movable ?db' ten cid key user st" using m by (subst movable_cong) simp_all
  from run_move_noop [OF q(3) this st, of reason 0] run st show ?thesis by (auto simp: result_of_def store_after_def)
qed

section \<open>Witnesses\<close>

definition rule_ex :: "uuid \<Rightarrow> string \<Rightarrow> string \<Rightarrow> string \<Rightarrow> time \<Rightarrow> Rule" where
  "rule_ex i channel phrase stage t =
     \<lparr>fr_ID = i, fr_TenantID = 7, fr_Channel = channel, fr_TeamID = None, fr_Name = ''rule'', fr_TriggerType = TriggerTypeMessageContains,
      fr_TriggerConfig = [(''phrase'', JsonString phrase)], fr_ActionType = ActionTypeMoveToStage, fr_ActionConfig = [(''stage_key'', JsonString stage)],
      fr_Enabled = True, fr_CreatedAt = t, fr_UpdatedAt = t\<rparr>"

definition funnel_ex :: "uuid list \<Rightarrow> funnel_db" where
  "funnel_ex users =
     \<lparr>fd_users = users, fd_conversations = [9],
      fd_stage = [\<lparr>st_ID = 31, st_TenantID = 7, st_Key = ''novo'', st_Label = ''Novo'', st_Position = 1, st_IsDefault = True\<rparr>,
                  \<lparr>st_ID = 32, st_TenantID = 7, st_Key = ''ganho'', st_Label = ''Ganho'', st_Position = 4, st_IsDefault = True\<rparr>],
      fd_transition = [], fd_rules = [rule_ex 41 '''' ''hi'' ''novo'' 5, rule_ex 42 ''web'' ''hi'' ''ganho'' 6],
      fd_applications = [], fd_events = []\<rparr>"

definition engine_ex :: funnel_engine where
  "engine_ex = \<lparr>fe_ustr = (\<lambda>u. replicate (Suc u) CHR ''a''), fe_uparse = (\<lambda>s. if s = [] then None else Some (length s - 1)),
     fe_lower = id, fe_regex = (\<lambda>_. None)\<rparr>"

definition msg_ex :: InboundMessage where
  "msg_ex = \<lparr>im_TenantID = 7, im_ConversationID = 9, im_MessageID = 11, im_Channel = ''web'', im_Body = ''oh hi there'', im_OccurredAt = 3\<rparr>"

definition funnel_env_ex :: "nat \<Rightarrow> call_env" where
  "funnel_env_ex n = \<lparr>o_fault = NoFault, o_now = 1000 + int n, o_ids = (\<lambda>i. 100 + n)\<rparr>"

lemmas funnel_ex_defs = rule_ex_def funnel_ex_def engine_ex_def msg_ex_def

lemma funnel_env_facts: "quiet funnel_env_ex" "fresh_from funnel_env_ex n (funnel_ex users)"
  by (simp_all add: quiet_def fresh_from_def funnel_env_ex_def funnel_ex_def)

lemma funnel_inv_ex: "funnel_inv (funnel_ex users)" "application_tenants (funnel_ex users)"
  by (simp_all add: funnel_inv_def application_tenants_def funnel_ex_def rule_ex_def)

lemma resolved_ex: "resolved_rules engine_ex msg_ex (funnel_ex users) = [rule_ex 42 ''web'' ''hi'' ''ganho'' 6]"
proof -
  have "resolved_rules engine_ex msg_ex (funnel_ex []) = [rule_ex 42 ''web'' ''hi'' ''ganho'' 6]" by code_simp
  moreover have "resolved_rules engine_ex msg_ex (funnel_ex users) = resolved_rules engine_ex msg_ex (funnel_ex [])"
    by (rule resolved_rules_cong) (simp add: funnel_ex_def)
  ultimately show ?thesis by simp
qed

lemma acts_ex: "acts_on engine_ex msg_ex (rule_ex 42 ''web'' ''hi'' ''ganho'' 6)" "stageKey (rule_ex 42 ''web'' ''hi'' ''ganho'' 6) = Some ''ganho''"
  by code_simp+

lemma ganho_trimmed: "TrimSpace ''ganho'' = ''ganho''"
  by code_simp

lemma movable_ex: "user \<noteq> 0 \<Longrightarrow> user \<in> set users \<Longrightarrow> movable (funnel_ex users) 7 9 ''ganho'' user (fd_stage (funnel_ex users) ! 1)"
  by (simp add: movable_def ganho_trimmed FindByKey_def funnel_ex_def)

lemma validate_ex: "engine_validate msg_ex = Inr ()"
  by (simp add: engine_validate_def msg_ex_def)

theorem most_specific_rule_wins_witness:
  "rule_ex 42 ''web'' ''hi'' ''ganho'' 6 \<in> set (map fst (cascade (fe_ustr engine_ex) id (fd_rules (funnel_ex []))))"
proof -
  have "inj (fe_ustr engine_ex)"
  proof (rule injI)
    fix x y assume "fe_ustr engine_ex x = fe_ustr engine_ex y"
    then have "length (fe_ustr engine_ex x) = length (fe_ustr engine_ex y)" by simp
    then show "x = y" by (simp add: engine_ex_def)
  qed
  moreover have "distinct (map fr_ID (fd_rules (funnel_ex [])))" by (simp add: funnel_ex_def rule_ex_def)
  moreover have "overrides (fe_ustr engine_ex) (rule_ex 42 ''web'' ''hi'' ''ganho'' 6) (rule_ex 41 '''' ''hi'' ''novo'' 5)"
    by code_simp
  ultimately show ?thesis
    using most_specific_rule_wins [of "fe_ustr engine_ex" "fd_rules (funnel_ex [])" id]
    by (simp add: funnel_ex_def) (auto simp: rule_ex_def)
qed

theorem move_happens_once_witness:
  "let move = MoveConversation 7 9 ''ganho'' 5 ''x''; db' = store_after move funnel_env_ex (funnel_ex [5]) in
     stage_of (funnel_ex [5]) 7 9 = None \<and> stage_of db' 7 9 = Some 32 \<and> length (fd_transition db') = 1 \<and>
     store_after move funnel_env_ex db' = db'"
proof -
  have m: "movable (funnel_ex [5]) 7 9 ''ganho'' 5 (fd_stage (funnel_ex [5]) ! 1)" by (rule movable_ex) simp_all
  have s: "st_ID (fd_stage (funnel_ex [5]) ! Suc 0) = 32" by (simp add: funnel_ex_def)
  have e: "stage_of (funnel_ex [5]) 7 9 = None" "fd_transition (funnel_ex [5]) = []"
    by (simp_all add: stage_of_def LatestForConversation_def funnel_ex_def)
  show ?thesis
    using move_happens_once [OF funnel_env_facts(1) funnel_env_facts(1) funnel_inv_ex(1) funnel_env_facts(2) m, of "''x''"] e
    by (auto simp: Let_def s)
qed

lemma ready_ex: "rule_ready msg_ex (funnel_ex [SystemActor]) (rule_ex 42 ''web'' ''hi'' ''ganho'' 6) \<and>
    unapplied msg_ex (funnel_ex [SystemActor]) (rule_ex 42 ''web'' ''hi'' ''ganho'' 6)"
  using movable_ex [of SystemActor "[SystemActor]"]
  by (auto simp: rule_ready_def unapplied_def acts_ex(2) SystemActor_def) (auto simp: funnel_ex_def rule_ex_def msg_ex_def)

theorem last_matching_rule_decides_witness:
  "stage_of (store_after (engine_Handle engine_ex msg_ex) funnel_env_ex (funnel_ex [SystemActor])) 7 9 = Some 32"
proof -
  have tgt: "target_stage (funnel_ex [SystemActor]) 7 (rule_ex 42 ''web'' ''hi'' ''ganho'' 6) = Some 32"
    by (simp add: target_stage_def acts_ex(2) ganho_trimmed FindByKey_def funnel_ex_def)
  have ids: "im_TenantID msg_ex = 7" "im_ConversationID msg_ex = 9" by (simp_all add: msg_ex_def)
  show ?thesis
    using last_matching_rule_decides [where db = "funnel_ex [SystemActor]" and e = engine_ex, OF funnel_env_facts(1) funnel_inv_ex(1) funnel_env_facts(2) validate_ex]
      ready_ex tgt acts_ex(1)
    by (simp add: resolved_ex Let_def ids)
qed

theorem redelivery_is_harmless_witness:
  "result_of (engine_Handle engine_ex msg_ex) funnel_env_ex (store_after (engine_Handle engine_ex msg_ex) funnel_env_ex (funnel_ex [SystemActor])) = Inr ()"
proof -
  have run: "run (engine_Handle engine_ex msg_ex) funnel_env_ex 0 (funnel_ex [SystemActor]) =
      run (tryRules engine_ex msg_ex [rule_ex 42 ''web'' ''hi'' ''ganho'' 6]) funnel_env_ex (Suc 0) (funnel_ex [SystemActor])"
    using run_engine_Handle [OF validate_ex, of funnel_env_ex 0 engine_ex] funnel_env_facts(1) by (simp add: resolved_ex quiet_def)
  have "\<exists>n' db'. run (tryRules engine_ex msg_ex [rule_ex 42 ''web'' ''hi'' ''ganho'' 6]) funnel_env_ex (Suc 0) (funnel_ex [SystemActor]) = (Inr (), n', db')"
    using run_tryRules_ready [where msg = msg_ex and db = "funnel_ex [SystemActor]" and n = "Suc 0" and rs = "[rule_ex 42 ''web'' ''hi'' ''ganho'' 6]" and e = engine_ex,
        OF funnel_env_facts(1) _ funnel_inv_ex(1) funnel_env_facts(2)] ready_ex
    by (auto simp: msg_ex_def)
  then have "result_of (engine_Handle engine_ex msg_ex) funnel_env_ex (funnel_ex [SystemActor]) = Inr ()" by (auto simp: result_of_def run)
  then show ?thesis using redelivery_is_harmless [OF funnel_inv_ex funnel_env_facts(1)] by blast
qed

definition event_ex :: InboundMessageEvent where
  "event_ex = \<lparr>ie_TenantID = fe_ustr engine_ex 7, ie_ConversationID = fe_ustr engine_ex 9, ie_MessageID = fe_ustr engine_ex 11, ie_Channel = ''web'',
     ie_Body = ''oh hi there'', ie_OccurredAt = Some 3\<rparr>"

theorem decode_encode_witness: "DecodeInboundMessage engine_ex (\<lambda>_. Some event_ex) (EncodeInboundMessage engine_ex (\<lambda>_. ''x'') msg_ex) = Inr msg_ex"
proof (rule decode_encode)
  show "Some event_ex = Some (wire_event engine_ex msg_ex)" "\<forall>u \<in> {im_TenantID msg_ex, im_ConversationID msg_ex, im_MessageID msg_ex}. fe_uparse engine_ex (TrimSpace (fe_ustr engine_ex u)) = Some u"
    "fe_lower engine_ex (TrimSpace (im_Channel msg_ex)) = im_Channel msg_ex" "TrimSpace (im_Channel msg_ex) \<noteq> ''''"
    by code_simp+
qed (simp_all add: validate_ex)

lemma decoded_ex: "DecodeInboundMessage engine_ex (\<lambda>_. Some event_ex) ''x'' = Inr msg_ex"
  by code_simp

theorem engine_needs_its_user_witness:
  "\<exists>err. result_of (Consumer_Handle engine_ex (\<lambda>_. Some event_ex) ''x'') funnel_env_ex (funnel_ex [5]) = Redeliver err"
proof -
  have ids: "im_TenantID msg_ex = 7" "im_ConversationID msg_ex = 9" by (simp_all add: msg_ex_def)
  have "target_stage (funnel_ex [5]) 7 (rule_ex 42 ''web'' ''hi'' ''ganho'' 6) = Some 32"
    by (simp add: target_stage_def acts_ex(2) ganho_trimmed FindByKey_def funnel_ex_def)
  moreover have "stage_of (funnel_ex [5]) 7 9 = None" by (simp add: stage_of_def LatestForConversation_def funnel_ex_def)
  ultimately have "wants_move engine_ex msg_ex (funnel_ex [5]) (rule_ex 42 ''web'' ''hi'' ''ganho'' 6)"
    using acts_ex(1) by (simp add: wants_move_def ids unapplied_def) (simp add: funnel_ex_def)
  moreover have "SystemActor \<notin> set (fd_users (funnel_ex [5]))" by (simp add: SystemActor_def funnel_ex_def)
  ultimately show ?thesis
    using engine_needs_its_user [of "funnel_ex [5]" engine_ex msg_ex funnel_env_ex "\<lambda>_. Some event_ex" "''x''"] funnel_inv_ex(1) [of "[5]"]
      funnel_env_facts(1) validate_ex decoded_ex by (simp add: resolved_ex)
qed

theorem consumer_drops_malformed_witness:
  "run (Consumer_Handle engine_ex (\<lambda>_. None) ''x'') funnel_env_ex 0 (funnel_ex []) = (Acked, 0, funnel_ex [])"
  using consumer_drops_malformed [of engine_ex "\<lambda>_. None" "''x''" funnel_env_ex 0 "funnel_ex []"] by (auto simp: DecodeInboundMessage_def)

end
