(* ===== verification/Contacts.thy ===== *)
theory Contacts
  imports Interleaving GoStrings "HOL-Library.List_Lexorder" "HOL-Library.Char_ord"
begin

text \<open>
  Contacts and their channel identities: \<^verbatim>\<open>src/internal/contacts\<close> (\<^verbatim>\<open>contact.go\<close>, \<^verbatim>\<open>channel.go\<close>), the use cases
  \<^verbatim>\<open>upsert_contact_by_channel.go\<close> and \<^verbatim>\<open>update_contact.go\<close>, and the store
  \<^verbatim>\<open>src/internal/adapter/db/postgres/contacts/contacts.go\<close> over the tables \<^verbatim>\<open>contact\<close> and
  \<^verbatim>\<open>contact_channel_identity\<close> of migration 0088. \<open>lower\<close> is \<^verbatim>\<open>strings.ToLower\<close> on full Unicode, an argument.
\<close>

section \<open>Identities\<close>

record ChannelIdentity =
  ci_Channel :: string
  ci_ExternalID :: string

datatype contacts_sentinel =
    ct_ErrInvalidTenant | ct_ErrEmptyDisplayName | ct_ErrInvalidChannel | ct_ErrInvalidExternalID | ct_ErrInvalidE164
  | ct_ErrChannelIdentityExists | ct_ErrNotFound | ct_ErrChannelIdentityConflict

type_synonym 'a cresult = "(contacts_sentinel, 'a) result"

abbreviation (input) cterr :: "contacts_sentinel \<Rightarrow> 'a cresult" where
  "cterr s \<equiv> Inl (Sentinel s)"

definition ChannelWhatsApp :: string where
  "ChannelWhatsApp = ''whatsapp''"

definition e164MaxDigits :: nat where
  "e164MaxDigits = 15"

definition isE164 :: "string \<Rightarrow> bool" where
  "isE164 s \<longleftrightarrow>
     \<not> (length s < 2 \<or> length s > 1 + e164MaxDigits) \<and> s ! 0 = CHR ''+'' \<and> s ! 1 \<noteq> CHR ''0'' \<and> list_all is_digit (drop 1 s)"

definition NewChannelIdentity :: "(string \<Rightarrow> string) \<Rightarrow> string \<Rightarrow> string \<Rightarrow> ChannelIdentity cresult" where
  "NewChannelIdentity lower channel externalID =
     (let channel = lower (TrimSpace channel); externalID = TrimSpace externalID in
      if channel = '''' then cterr ct_ErrInvalidChannel
      else if externalID = '''' then cterr ct_ErrInvalidExternalID
      else if channel = ChannelWhatsApp \<and> \<not> isE164 externalID then cterr ct_ErrInvalidE164
      else Inr \<lparr>ci_Channel = channel, ci_ExternalID = externalID\<rparr>)"

section \<open>The aggregate\<close>

record Contact =
  ct_ID :: uuid
  ct_TenantID :: uuid
  ct_DisplayName :: string
  ct_CreatedAt :: time
  ct_UpdatedAt :: time
  ct_identities :: "ChannelIdentity list"

definition contacts_New :: "uuid \<Rightarrow> time \<Rightarrow> uuid \<Rightarrow> string \<Rightarrow> Contact cresult" where
  "contacts_New newid now tenantID displayName =
     (if tenantID = uuid_nil then cterr ct_ErrInvalidTenant
      else let displayName = TrimSpace displayName in
      if displayName = '''' then cterr ct_ErrEmptyDisplayName
      else Inr \<lparr>ct_ID = newid, ct_TenantID = tenantID, ct_DisplayName = displayName, ct_CreatedAt = now, ct_UpdatedAt = now,
                ct_identities = []\<rparr>)"

definition Rename :: "time \<Rightarrow> Contact \<Rightarrow> string \<Rightarrow> Contact cresult" where
  "Rename now c displayName =
     (let displayName = TrimSpace displayName in
      if displayName = '''' then cterr ct_ErrEmptyDisplayName
      else if displayName = ct_DisplayName c then Inr c
      else Inr (c\<lparr>ct_DisplayName := displayName, ct_UpdatedAt := now\<rparr>))"

definition AddChannelIdentity :: "(string \<Rightarrow> string) \<Rightarrow> time \<Rightarrow> Contact \<Rightarrow> string \<Rightarrow> string \<Rightarrow> Contact cresult" where
  "AddChannelIdentity lower now c channel externalID =
     (case NewChannelIdentity lower channel externalID of
        Inl e \<Rightarrow> Inl e
      | Inr i \<Rightarrow>
          if list_ex (\<lambda>x. ci_Channel x = ci_Channel i) (ct_identities c) then cterr ct_ErrChannelIdentityExists
          else Inr (c\<lparr>ct_identities := ct_identities c @ [i], ct_UpdatedAt := now\<rparr>))"

definition HasChannel :: "(string \<Rightarrow> string) \<Rightarrow> Contact \<Rightarrow> string \<Rightarrow> bool" where
  "HasChannel lower c channel = list_ex (\<lambda>x. ci_Channel x = lower (TrimSpace channel)) (ct_identities c)"

section \<open>The store\<close>

record contact_row =
  cr_id :: uuid
  cr_tenant_id :: uuid
  cr_display_name :: string
  cr_created_at :: time
  cr_updated_at :: time

record channel_identity_row =
  ir_tenant_id :: uuid
  ir_contact_id :: uuid
  ir_channel :: string
  ir_external_id :: string

record contacts_db =
  contact :: "contact_row list"
  channel_identity :: "channel_identity_row list"

type_synonym ('x, 'a) ctprog = "('x contacts_db_scheme, call_env, 'a) prog"

text \<open>One insert into \<^verbatim>\<open>contact_channel_identity\<close> with its two unique constraints; the first is global over all tenants.\<close>

definition insert_identity :: "'x contacts_db_scheme \<Rightarrow> channel_identity_row \<Rightarrow> 'x contacts_db_scheme cresult" where
  "insert_identity db r =
     (if list_ex (\<lambda>x. ir_channel x = ir_channel r \<and> ir_external_id x = ir_external_id r) (channel_identity db)
        then cterr ct_ErrChannelIdentityConflict
      else if list_ex (\<lambda>x. ir_contact_id x = ir_contact_id r \<and> ir_channel x = ir_channel r) (channel_identity db)
        then Inl (Opaque ''contact_channel_identity_contact_channel_uniq'')
      else Inr (db\<lparr>channel_identity := channel_identity db @ [r]\<rparr>))"

primrec insert_identities :: "uuid \<Rightarrow> uuid \<Rightarrow> ChannelIdentity list \<Rightarrow> 'x contacts_db_scheme \<Rightarrow> 'x contacts_db_scheme cresult" where
  "insert_identities ten cid [] db = Inr db"
| "insert_identities ten cid (i # rest) db =
     (case insert_identity db \<lparr>ir_tenant_id = ten, ir_contact_id = cid, ir_channel = ci_Channel i, ir_external_id = ci_ExternalID i\<rparr> of
        Inl e \<Rightarrow> Inl e
      | Inr db' \<Rightarrow> insert_identities ten cid rest db')"

text \<open>Contacts reach the store with the timestamps of their constructor, so the fallback to the store's clock is not reached.\<close>

definition contacts_Save :: "'x contacts_db_scheme \<Rightarrow> Contact \<Rightarrow> (unit \<times> 'x contacts_db_scheme) cresult" where
  "contacts_Save db c =
     (if ct_TenantID c = uuid_nil then Inl (Opaque ''contacts/postgres: Save: tenant id is nil'')
      else if ct_ID c = uuid_nil then Inl (Opaque ''contacts/postgres: Save: contact id is nil'')
      else if ct_ID c \<in> set (map cr_id (contact db)) then Inl (Opaque ''contacts/postgres: Save: contact_pkey'')
      else
        (case insert_identities (ct_TenantID c) (ct_ID c) (ct_identities c)
                (db\<lparr>contact := contact db @ [\<lparr>cr_id = ct_ID c, cr_tenant_id = ct_TenantID c, cr_display_name = ct_DisplayName c,
                                            cr_created_at = ct_CreatedAt c, cr_updated_at = ct_UpdatedAt c\<rparr>]\<rparr>) of
           Inl e \<Rightarrow> if errors_is e ct_ErrChannelIdentityConflict then cterr ct_ErrChannelIdentityConflict
                    else Inl (Wrapped ''contacts/postgres: Save'' e)
         | Inr db' \<Rightarrow> Inr ((), db')))"

text \<open>Row-level security hides the rows of other tenants; the order of the channels is that of their bytes.\<close>

definition scanIdentities :: "'x contacts_db_scheme \<Rightarrow> uuid \<Rightarrow> uuid \<Rightarrow> ChannelIdentity list" where
  "scanIdentities db tenantID contactID =
     sort_key ci_Channel (map (\<lambda>r. \<lparr>ci_Channel = ir_channel r, ci_ExternalID = ir_external_id r\<rparr>)
       (filter (\<lambda>r. ir_tenant_id r = tenantID \<and> ir_contact_id r = contactID) (channel_identity db)))"

definition hydrate_contact :: "contact_row \<Rightarrow> uuid \<Rightarrow> ChannelIdentity list \<Rightarrow> Contact" where
  "hydrate_contact r tenantID ids =
     \<lparr>ct_ID = cr_id r, ct_TenantID = tenantID, ct_DisplayName = cr_display_name r, ct_CreatedAt = cr_created_at r,
      ct_UpdatedAt = cr_updated_at r, ct_identities = ids\<rparr>"

definition visible_contact :: "'x contacts_db_scheme \<Rightarrow> uuid \<Rightarrow> uuid \<Rightarrow> contact_row option" where
  "visible_contact db tenantID cid = find (\<lambda>r. cr_tenant_id r = tenantID \<and> cr_id r = cid) (contact db)"

definition contacts_FindByID :: "'x contacts_db_scheme \<Rightarrow> uuid \<Rightarrow> uuid \<Rightarrow> Contact cresult" where
  "contacts_FindByID db tenantID cid =
     (if tenantID = uuid_nil then Inl (Opaque ''contacts/postgres: FindByID: tenant id is nil'')
      else if cid = uuid_nil then cterr ct_ErrNotFound
      else case visible_contact db tenantID cid of
        None \<Rightarrow> cterr ct_ErrNotFound
      | Some r \<Rightarrow> Inr (hydrate_contact r tenantID (scanIdentities db tenantID cid)))"

text \<open>The join of the two tables under the tenant's view of both.\<close>

definition identity_owner :: "'x contacts_db_scheme \<Rightarrow> uuid \<Rightarrow> ChannelIdentity \<Rightarrow> contact_row option" where
  "identity_owner db tenantID i =
     (case find (\<lambda>r. ir_tenant_id r = tenantID \<and> ir_channel r = ci_Channel i \<and> ir_external_id r = ci_ExternalID i
                     \<and> visible_contact db tenantID (ir_contact_id r) \<noteq> None) (channel_identity db) of
        None \<Rightarrow> None
      | Some r \<Rightarrow> visible_contact db tenantID (ir_contact_id r))"

text \<open>\<^verbatim>\<open>FindByChannelIdentity\<close> runs two transactions: the join, then the load of the identities.\<close>

definition FindByChannelIdentity ::
  "(string \<Rightarrow> string) \<Rightarrow> uuid \<Rightarrow> string \<Rightarrow> string \<Rightarrow> (Contact cresult \<Rightarrow> ('x, 'a) ctprog) \<Rightarrow> ('x, 'a) ctprog" where
  "FindByChannelIdentity lower tenantID channel externalID k =
     (if tenantID = uuid_nil then k (Inl (Opaque ''contacts/postgres: FindByChannelIdentity: tenant id is nil''))
      else case NewChannelIdentity lower channel externalID of
        Inl _ \<Rightarrow> k (cterr ct_ErrNotFound)
      | Inr i \<Rightarrow>
          query (\<lambda>db. case identity_owner db tenantID i of None \<Rightarrow> cterr ct_ErrNotFound | Some r \<Rightarrow> Inr r) (\<lambda>f. case f of
            Inl e \<Rightarrow> if errors_is e ct_ErrNotFound then k (cterr ct_ErrNotFound)
                     else k (Inl (Wrapped ''contacts/postgres: FindByChannelIdentity'' e))
          | Inr r \<Rightarrow>
              query (\<lambda>db. Inr (scanIdentities db tenantID (cr_id r))) (\<lambda>l. case l of
                Inl e \<Rightarrow> k (Inl (Wrapped ''contacts/postgres: FindByChannelIdentity load identities'' e))
              | Inr ids \<Rightarrow> k (Inr (hydrate_contact r tenantID ids)))))"

definition contacts_Update :: "'x contacts_db_scheme \<Rightarrow> Contact \<Rightarrow> (unit \<times> 'x contacts_db_scheme) cresult" where
  "contacts_Update db c =
     (if ct_TenantID c = uuid_nil then Inl (Opaque ''contacts/postgres: Update: tenant id is nil'')
      else if ct_ID c = uuid_nil then cterr ct_ErrNotFound
      else if visible_contact db (ct_TenantID c) (ct_ID c) = None then cterr ct_ErrNotFound
      else Inr ((), db\<lparr>contact := map (\<lambda>r. if cr_tenant_id r = ct_TenantID c \<and> cr_id r = ct_ID c
                                         then r\<lparr>cr_display_name := ct_DisplayName c, cr_updated_at := ct_UpdatedAt c\<rparr> else r) (contact db)\<rparr>))"

section \<open>Use cases\<close>

record upsert_Input =
  ui_TenantID :: uuid
  ui_Channel :: string
  ui_ExternalID :: string
  ui_DisplayName :: string

text \<open>After a lost race: the winner's contact, unless it belongs to another tenant.\<close>

definition find_winner :: "(string \<Rightarrow> string) \<Rightarrow> upsert_Input \<Rightarrow> ((Contact \<times> bool) cresult \<Rightarrow> ('x, 'a) ctprog) \<Rightarrow> ('x, 'a) ctprog" where
  "find_winner lower inp k =
     FindByChannelIdentity lower (ui_TenantID inp) (ui_Channel inp) (ui_ExternalID inp) (\<lambda>w. case w of
       Inr c \<Rightarrow> k (Inr (c, False))
     | Inl e \<Rightarrow> if errors_is e ct_ErrNotFound then k (cterr ct_ErrChannelIdentityConflict) else k (Inl e))"

text \<open>\<^verbatim>\<open>contacts.New\<close> and \<^verbatim>\<open>AddChannelIdentity\<close>; both read the clock, here once.\<close>

definition new_contact :: "(string \<Rightarrow> string) \<Rightarrow> call_env \<Rightarrow> upsert_Input \<Rightarrow> Contact cresult" where
  "new_contact lower ev inp =
     (case contacts_New (o_ids ev 0) (o_now ev) (ui_TenantID inp) (ui_DisplayName inp) of
        Inl e \<Rightarrow> Inl e
      | Inr c \<Rightarrow> AddChannelIdentity lower (o_now ev) c (ui_Channel inp) (ui_ExternalID inp))"

definition create_contact :: "(string \<Rightarrow> string) \<Rightarrow> upsert_Input \<Rightarrow> ((Contact \<times> bool) cresult \<Rightarrow> ('x, 'a) ctprog) \<Rightarrow> ('x, 'a) ctprog" where
  "create_contact lower inp k =
     draw (\<lambda>ev. case new_contact lower ev inp of
       Inl e \<Rightarrow> k (Inl e)
     | Inr c \<Rightarrow>
         command (\<lambda>_ db. contacts_Save db c) (\<lambda>s. case s of
           Inr _ \<Rightarrow> k (Inr (c, True))
         | Inl e \<Rightarrow> if errors_is e ct_ErrChannelIdentityConflict then find_winner lower inp k else k (Inl e)))"

definition UpsertContactByChannel ::
  "(string \<Rightarrow> string) \<Rightarrow> upsert_Input \<Rightarrow> ((Contact \<times> bool) cresult \<Rightarrow> ('x, 'a) ctprog) \<Rightarrow> ('x, 'a) ctprog" where
  "UpsertContactByChannel lower inp k =
     (if ui_TenantID inp = uuid_nil then k (cterr ct_ErrInvalidTenant)
      else FindByChannelIdentity lower (ui_TenantID inp) (ui_Channel inp) (ui_ExternalID inp) (\<lambda>f. case f of
        Inr c \<Rightarrow> k (Inr (c, False))
      | Inl e \<Rightarrow> if errors_is e ct_ErrNotFound then create_contact lower inp k else k (Inl e)))"

definition UpdateContact :: "uuid \<Rightarrow> uuid \<Rightarrow> string \<Rightarrow> ('x, Contact cresult) ctprog" where
  "UpdateContact tenantID contactID displayName =
     (if tenantID = uuid_nil then Ret (cterr ct_ErrInvalidTenant)
      else if contactID = uuid_nil then Ret (cterr ct_ErrNotFound)
      else query (\<lambda>db. contacts_FindByID db tenantID contactID) (\<lambda>f. case f of
        Inl e \<Rightarrow> Ret (Inl e)
      | Inr c \<Rightarrow> read_clock (\<lambda>now. case Rename now c displayName of
          Inl e \<Rightarrow> Ret (Inl e)
        | Inr c' \<Rightarrow> command (\<lambda>_ db. contacts_Update db c') (\<lambda>u. case u of
            Inl e \<Rightarrow> Ret (Inl e)
          | Inr _ \<Rightarrow> Ret (Inr c')))))"

end
