(* ===== verification/ClickMarker.thy ===== *)
theory ClickMarker
  imports GoStrings
begin

text \<open>
  The attribution marker of a campaign link, \<^verbatim>\<open>src/internal/campaigns/marker.go\<close>: the redirect handler puts \<^verbatim>\<open>[crm:token]\<close>
  into the text a visitor sends, and the inbox reads it back. HMAC-SHA-256 and the text of a tenant identifier are arguments.
\<close>

section \<open>Hexadecimal\<close>

text \<open>\<^verbatim>\<open>hex.EncodeToString\<close> and \<^verbatim>\<open>hex.DecodeString\<close>; the decoder also takes upper-case digits.\<close>

definition hex_digit :: "nat \<Rightarrow> char" where
  "hex_digit n = (if n < 10 then char_of (48 + n) else char_of (87 + n))"

definition hex_value :: "char \<Rightarrow> nat option" where
  "hex_value c =
     (let n = of_char c :: nat in
      if 48 \<le> n \<and> n \<le> 57 then Some (n - 48)
      else if 97 \<le> n \<and> n \<le> 102 then Some (n - 87)
      else if 65 \<le> n \<and> n \<le> 70 then Some (n - 55) else None)"

fun EncodeToString :: "string \<Rightarrow> string" where
  "EncodeToString [] = []"
| "EncodeToString (b # bs) = hex_digit (of_char b div 16) # hex_digit (of_char b mod 16) # EncodeToString bs"

fun DecodeString :: "string \<Rightarrow> string option" where
  "DecodeString [] = Some []"
| "DecodeString [c] = None"
| "DecodeString (c # d # s) =
     (case (hex_value c, hex_value d, DecodeString s) of
        (Some x, Some y, Some bs) \<Rightarrow> Some (char_of (16 * x + y) # bs)
      | _ \<Rightarrow> None)"

section \<open>Tokens\<close>

definition markerHMACLength :: nat where
  "markerHMACLength = 8"

definition markerHMACByteLength :: nat where
  "markerHMACByteLength = markerHMACLength div 2"

text \<open>What signs: the key (empty when none is configured), the keyed digest and the printed form of identifiers.\<close>

record marker_key =
  mk_key :: string
  mk_hmac :: "string \<Rightarrow> string \<Rightarrow> string"
  mk_ustr :: "uuid \<Rightarrow> string"

definition computeMarkerHMACBytes :: "marker_key \<Rightarrow> uuid \<Rightarrow> string \<Rightarrow> string" where
  "computeMarkerHMACBytes k tenantID clickID = take markerHMACByteLength (mk_hmac k (mk_key k) (mk_ustr k tenantID @ '':'' @ clickID))"

definition computeMarkerHMACHex :: "marker_key \<Rightarrow> uuid \<Rightarrow> string \<Rightarrow> string" where
  "computeMarkerHMACHex k tenantID clickID = EncodeToString (computeMarkerHMACBytes k tenantID clickID)"

definition BuildClickToken :: "marker_key \<Rightarrow> uuid \<Rightarrow> string \<Rightarrow> string" where
  "BuildClickToken k tenantID clickID =
     (if mk_key k = '''' then clickID else clickID @ ''.'' @ computeMarkerHMACHex k tenantID clickID)"

text \<open>
  \<^verbatim>\<open>clickTokenRE\<close> at the start of a text. The token may contain neither a dot nor a closing bracket, and one of them has to
  follow it, so a match takes the whole run of token characters.
\<close>

definition token_char :: "char \<Rightarrow> bool" where
  "token_char c \<longleftrightarrow> (let n = of_char c :: nat in 65 \<le> n \<and> n \<le> 90 \<or> 97 \<le> n \<and> n \<le> 122 \<or> 48 \<le> n \<and> n \<le> 57 \<or> n = 45)"

definition lower_hex_char :: "char \<Rightarrow> bool" where
  "lower_hex_char c \<longleftrightarrow> (let n = of_char c :: nat in 48 \<le> n \<and> n \<le> 57 \<or> 97 \<le> n \<and> n \<le> 102)"

definition marker_tail :: "string \<Rightarrow> string option" where
  "marker_tail s =
     (case s of
        [] \<Rightarrow> None
      | c # t \<Rightarrow>
          if c = CHR '']'' then Some ''''
          else if c = CHR ''.'' \<and> length (take 8 t) = 8 \<and> list_all lower_hex_char (take 8 t) \<and> take 1 (drop 8 t) = '']''
            then Some (take 8 t)
          else None)"

definition marker_at :: "string \<Rightarrow> (string \<times> string) option" where
  "marker_at s =
     (if \<not> HasPrefix s ''[crm:'' then None
      else let token = takeWhile token_char (drop 5 s) in
      if length token < 8 \<or> length token > 128 then None
      else map_option (Pair token) (marker_tail (dropWhile token_char (drop 5 s))))"

text \<open>The leftmost match; \<open>None\<close> is \<^verbatim>\<open>Found: false\<close>.\<close>

fun ExtractClickMarker :: "string \<Rightarrow> (string \<times> string) option" where
  "ExtractClickMarker [] = None"
| "ExtractClickMarker (c # s) = (case marker_at (c # s) of Some m \<Rightarrow> Some m | None \<Rightarrow> ExtractClickMarker s)"

definition VerifyClickToken :: "marker_key \<Rightarrow> bool \<Rightarrow> uuid \<Rightarrow> string \<Rightarrow> string \<Rightarrow> bool" where
  "VerifyClickToken k allowLegacy tenantID clickID suppliedHMACHex =
     (if suppliedHMACHex = '''' then allowLegacy
      else if mk_key k = '''' then False
      else case DecodeString suppliedHMACHex of
        None \<Rightarrow> False
      | Some supplied \<Rightarrow>
          if length supplied \<noteq> markerHMACByteLength then False
          else computeMarkerHMACBytes k tenantID clickID = supplied)"

section \<open>Signing and reading\<close>

lemma hex_value_digit: "n < 16 \<Longrightarrow> hex_value (hex_digit n) = Some n"
  by (auto simp: hex_value_def hex_digit_def)

lemma lower_hex_digit: "n < 16 \<Longrightarrow> lower_hex_char (hex_digit n)"
  by (auto simp: lower_hex_char_def hex_digit_def)

lemma byte_nibbles: "(of_char b :: nat) div 16 < 16" "(of_char b :: nat) mod 16 < 16"
  by (simp_all add: less_mult_imp_div_less)

lemma DecodeString_EncodeToString [simp]: "DecodeString (EncodeToString bs) = Some bs"
  by (induction bs) (simp_all add: hex_value_digit byte_nibbles)

lemma EncodeToString_chars: "list_all lower_hex_char (EncodeToString bs) \<and> length (EncodeToString bs) = 2 * length bs"
  by (induction bs) (simp_all add: lower_hex_digit byte_nibbles)

lemma Extract_after:
  assumes "CHR ''['' \<notin> set pre"
  shows "ExtractClickMarker (pre @ s) = ExtractClickMarker s"
  using assms by (induction pre) (auto simp: marker_at_def HasPrefix_def)

text \<open>The shape of the identifiers a click gets.\<close>

definition click_id_ok :: "string \<Rightarrow> bool" where
  "click_id_ok s \<longleftrightarrow> list_all token_char s \<and> 8 \<le> length s \<and> length s \<le> 128"

lemma takeWhile_token:
  assumes "list_all token_char s" "\<not> token_char c"
  shows "takeWhile token_char (s @ c # t) = s" "dropWhile token_char (s @ c # t) = c # t"
  using assms by (induction s) auto

lemma marker_at_token:
  assumes "click_id_ok clickID" "\<not> token_char c"
  shows "marker_at (''[crm:'' @ clickID @ c # t) = map_option (Pair clickID) (marker_tail (c # t))"
proof -
  have "HasPrefix (''[crm:'' @ clickID @ c # t) ''[crm:''" by (simp add: HasPrefix_def)
  moreover have "drop 5 (''[crm:'' @ clickID @ c # t) = clickID @ c # t" by simp
  ultimately show ?thesis using assms by (simp add: marker_at_def takeWhile_token click_id_ok_def Let_def)
qed

lemma Extract_here: "marker_at s = Some m \<Longrightarrow> ExtractClickMarker s = Some m"
  by (cases s) (simp_all add: marker_at_def HasPrefix_def)

lemma Extract_token:
  assumes "click_id_ok clickID" "\<not> token_char c" "marker_tail (c # t) = Some h"
  shows "ExtractClickMarker (''[crm:'' @ clickID @ c # t) = Some (clickID, h)"
  using marker_at_token [OF assms(1,2), of t] assms(3) by (intro Extract_here) (simp only: option.map)

text \<open>
  C32. A signed marker survives the trip and only for its tenant: with a configured key, the token built for a click, put into a text with no opening bracket before
  it, is read back with the click's identifier and its signature, and is accepted; and with any key, whatever the legacy switch says, a signature that is not empty is
  accepted for a tenant and a click exactly when the key is not empty and it is the four bytes of the digest of that tenant and click in hexadecimal.
\<close>

theorem signed_marker_round_trip:
  assumes id: "click_id_ok clickID" and key: "mk_key k \<noteq> ''''" and mac: "4 \<le> length (mk_hmac k (mk_key k) (mk_ustr k tenantID @ '':'' @ clickID))"
    and pre: "CHR ''['' \<notin> set pre"
  shows "ExtractClickMarker (pre @ ''[crm:'' @ BuildClickToken k tenantID clickID @ '']'' @ post) = Some (clickID, computeMarkerHMACHex k tenantID clickID) \<and>
    VerifyClickToken k allowLegacy tenantID clickID (computeMarkerHMACHex k tenantID clickID) \<and>
    (\<forall>k' t c h. h \<noteq> '''' \<longrightarrow>
       VerifyClickToken k' allowLegacy t c h \<longleftrightarrow>
         mk_key k' \<noteq> '''' \<and> DecodeString h = Some (computeMarkerHMACBytes k' t c) \<and> length (computeMarkerHMACBytes k' t c) = 4)"
proof -
  let ?h = "computeMarkerHMACHex k tenantID clickID"
  have n: "length (computeMarkerHMACBytes k tenantID clickID) = 4"
    using mac by (simp add: computeMarkerHMACBytes_def markerHMACByteLength_def markerHMACLength_def)
  then have h: "length ?h = 8" "list_all lower_hex_char ?h" using EncodeToString_chars by (simp_all add: computeMarkerHMACHex_def)
  have tail: "marker_tail (CHR ''.'' # ?h @ CHR '']'' # post) = Some ?h" using h by (simp add: marker_tail_def)
  have "ExtractClickMarker (pre @ ''[crm:'' @ clickID @ CHR ''.'' # ?h @ CHR '']'' # post) = Some (clickID, ?h)"
    by (subst Extract_after [OF pre]) (rule Extract_token [OF id _ tail], simp add: token_char_def)
  then have "ExtractClickMarker (pre @ ''[crm:'' @ BuildClickToken k tenantID clickID @ '']'' @ post) = Some (clickID, ?h)"
    using key by (simp add: BuildClickToken_def)
  moreover have iff: "\<forall>k' t c h. h \<noteq> '''' \<longrightarrow>
      VerifyClickToken k' allowLegacy t c h \<longleftrightarrow>
        mk_key k' \<noteq> '''' \<and> DecodeString h = Some (computeMarkerHMACBytes k' t c) \<and> length (computeMarkerHMACBytes k' t c) = 4"
    by (auto simp: VerifyClickToken_def markerHMACByteLength_def markerHMACLength_def split: option.splits)
  moreover have "VerifyClickToken k allowLegacy tenantID clickID ?h"
  proof -
    have "?h \<noteq> ''''" using h(1) by auto
    then show ?thesis using iff n key by (simp add: computeMarkerHMACHex_def)
  qed
  ultimately show ?thesis by blast
qed

definition marker_key_ex :: marker_key where
  "marker_key_ex = \<lparr>mk_key = ''k'', mk_hmac = (\<lambda>key m. rev (take 6 m)), mk_ustr = (\<lambda>u. replicate (Suc u) CHR ''a'')\<rparr>"

theorem signed_marker_round_trip_witness:
  "ExtractClickMarker (''Oi! '' @ ''[crm:'' @ BuildClickToken marker_key_ex 7 ''0123-abcd'' @ '']'' @ '' tchau'') =
     Some (''0123-abcd'', computeMarkerHMACHex marker_key_ex 7 ''0123-abcd'')"
proof -
  have "click_id_ok ''0123-abcd''" "mk_key marker_key_ex \<noteq> ''''" "4 \<le> length (mk_hmac marker_key_ex (mk_key marker_key_ex) (mk_ustr marker_key_ex 7 @ '':'' @ ''0123-abcd''))"
    "CHR ''['' \<notin> set ''Oi! ''" by code_simp+
  from signed_marker_round_trip [OF this, of "'' tchau''" True] show ?thesis by blast
qed

text \<open>While the legacy form is allowed, a marker without a signature is accepted for every tenant and click.\<close>

lemma unsigned_marker_is_accepted: "VerifyClickToken k True tenantID clickID ''''"
  by (simp add: VerifyClickToken_def)

end
