(* ===== verification/Inbox.thy ===== *)
theory Inbox
  imports Contacts ClickMarker
begin

text \<open>
  The inbox: the domain of \<^verbatim>\<open>src/internal/inbox\<close> (\<^verbatim>\<open>conversation.go\<close>, \<^verbatim>\<open>message.go\<close>, \<^verbatim>\<open>assignment.go\<close>, \<^verbatim>\<open>lead_reason.go\<close>),
  its use cases in \<^verbatim>\<open>src/internal/inbox/usecase\<close> and the store \<^verbatim>\<open>src/internal/adapter/db/postgres/inbox\<close> over the tables of
  migrations 0088, 0092, 0094, 0095, 0124 and 0128. Carriers, the channel resolver and the wire to the funnel engine are ports; they are
  arguments or logs. A zero \<^verbatim>\<open>time.Time\<close> is \<open>None\<close>.
\<close>

section \<open>Messages\<close>

datatype MessageDirection = MessageDirectionIn | MessageDirectionOut | MessageDirectionOther string

datatype MessageStatus =
    MessageStatusPending | MessageStatusSent | MessageStatusDelivered | MessageStatusRead | MessageStatusFailed
  | MessageStatusOther string

definition status_text :: "MessageStatus \<Rightarrow> string" where
  "status_text s = (case s of MessageStatusPending \<Rightarrow> ''pending'' | MessageStatusSent \<Rightarrow> ''sent'' | MessageStatusDelivered \<Rightarrow> ''delivered''
     | MessageStatusRead \<Rightarrow> ''read'' | MessageStatusFailed \<Rightarrow> ''failed'' | MessageStatusOther t \<Rightarrow> t)"

definition statusRank :: "MessageStatus \<Rightarrow> nat option" where
  "statusRank s = (case s of MessageStatusPending \<Rightarrow> Some 0 | MessageStatusSent \<Rightarrow> Some 1 | MessageStatusDelivered \<Rightarrow> Some 2
     | MessageStatusRead \<Rightarrow> Some 3 | _ \<Rightarrow> None)"

definition validInboundStatuses :: "MessageStatus \<Rightarrow> bool" where
  "validInboundStatuses s \<longleftrightarrow> s \<in> {MessageStatusDelivered, MessageStatusRead}"

definition validOutboundStatuses :: "MessageStatus \<Rightarrow> bool" where
  "validOutboundStatuses s \<longleftrightarrow>
     s \<in> {MessageStatusPending, MessageStatusSent, MessageStatusDelivered, MessageStatusRead, MessageStatusFailed}"

record MessageMedia =
  mm_Hash :: string
  mm_Format :: string
  mm_ScanStatus :: string

record Message =
  ms_ID :: uuid
  ms_TenantID :: uuid
  ms_ConversationID :: uuid
  ms_Direction :: MessageDirection
  ms_Body :: string
  ms_Status :: MessageStatus
  ms_ChannelExternalID :: string
  ms_SentByUserID :: "uuid option"
  ms_CreatedAt :: time
  ms_Media :: "MessageMedia option"

datatype inbox_sentinel =
    ib_ErrInvalidTenant | ib_ErrInvalidContact | ib_ErrInvalidChannel | ib_ErrConversationClosed | ib_ErrConversationAlreadyOpen
  | ib_ErrInvalidAssignee | ib_ErrInvalidLeadReason | ib_ErrUserNotAssignable | ib_ErrAlreadyAssigned | ib_ErrInvalidDirection
  | ib_ErrInvalidStatus | ib_ErrStatusRegression | ib_ErrConversationMismatch | ib_ErrNotFound | ib_ErrInboundAlreadyProcessed
  | ib_ErrInvalidBody | ib_ErrConversationNotResettable | ib_contacts contacts_sentinel

type_synonym 'a iresult = "(inbox_sentinel, 'a) result"

abbreviation (input) iberr :: "inbox_sentinel \<Rightarrow> 'a iresult" where
  "iberr s \<equiv> Inl (Sentinel s)"

record NewMessageInput =
  nm_TenantID :: uuid
  nm_ConversationID :: uuid
  nm_Direction :: MessageDirection
  nm_Body :: string
  nm_Status :: MessageStatus
  nm_ChannelExternalID :: string
  nm_SentByUserID :: "uuid option"

text \<open>The status a new message gets: an empty one stands for the default of the direction.\<close>

definition initial_status :: "NewMessageInput \<Rightarrow> MessageStatus" where
  "initial_status inp =
     (if nm_Status inp \<noteq> MessageStatusOther '''' then nm_Status inp
      else if nm_Direction inp = MessageDirectionOut then MessageStatusPending else MessageStatusDelivered)"

definition NewMessage :: "uuid \<Rightarrow> time \<Rightarrow> NewMessageInput \<Rightarrow> Message iresult" where
  "NewMessage newid now inp =
     (let body = TrimSpace (nm_Body inp); status = initial_status inp in
      if nm_TenantID inp = uuid_nil then iberr ib_ErrInvalidTenant
      else if nm_ConversationID inp = uuid_nil then iberr ib_ErrInvalidContact
      else if nm_Direction inp \<noteq> MessageDirectionIn \<and> nm_Direction inp \<noteq> MessageDirectionOut then iberr ib_ErrInvalidDirection
      else if body = '''' then iberr ib_ErrInvalidBody
      else if nm_Direction inp = MessageDirectionIn \<and> \<not> validInboundStatuses status then iberr ib_ErrInvalidStatus
      else if nm_Direction inp = MessageDirectionOut \<and> \<not> validOutboundStatuses status then iberr ib_ErrInvalidStatus
      else Inr \<lparr>ms_ID = newid, ms_TenantID = nm_TenantID inp, ms_ConversationID = nm_ConversationID inp, ms_Direction = nm_Direction inp,
                ms_Body = body, ms_Status = status, ms_ChannelExternalID = TrimSpace (nm_ChannelExternalID inp),
                ms_SentByUserID = nm_SentByUserID inp, ms_CreatedAt = now, ms_Media = None\<rparr>)"

definition AttachMedia :: "Message \<Rightarrow> string \<Rightarrow> string \<Rightarrow> string \<Rightarrow> Message" where
  "AttachMedia m hash format scanStatus =
     (if scanStatus = '''' \<and> hash = '''' \<and> format = '''' then m
      else m\<lparr>ms_Media := Some \<lparr>mm_Hash = hash, mm_Format = format, mm_ScanStatus = scanStatus\<rparr>\<rparr>)"

definition AdvanceStatus :: "Message \<Rightarrow> MessageStatus \<Rightarrow> Message iresult" where
  "AdvanceStatus m nxt =
     (if nxt = MessageStatusOther '''' then iberr ib_ErrInvalidStatus
      else if nxt = MessageStatusFailed then
        (if ms_Direction m = MessageDirectionIn then iberr ib_ErrInvalidStatus
         else if ms_Status m = MessageStatusFailed then Inr m
         else Inr (m\<lparr>ms_Status := MessageStatusFailed\<rparr>))
      else case statusRank nxt of
        None \<Rightarrow> iberr ib_ErrInvalidStatus
      | Some nextRank \<Rightarrow>
          if ms_Status m = MessageStatusFailed then iberr ib_ErrStatusRegression
          else case statusRank (ms_Status m) of
            None \<Rightarrow> iberr ib_ErrInvalidStatus
          | Some curRank \<Rightarrow>
              if ms_Direction m = MessageDirectionIn \<and> nxt \<in> {MessageStatusPending, MessageStatusSent} then iberr ib_ErrInvalidStatus
              else if nextRank < curRank then iberr ib_ErrStatusRegression
              else Inr (m\<lparr>ms_Status := nxt\<rparr>))"

definition AttachChannelExternalID :: "Message \<Rightarrow> string \<Rightarrow> Message iresult" where
  "AttachChannelExternalID m i =
     (let i = TrimSpace i in
      if i = '''' then iberr ib_ErrInvalidStatus
      else if ms_ChannelExternalID m \<noteq> '''' \<and> ms_ChannelExternalID m \<noteq> i then iberr ib_ErrInvalidStatus
      else Inr (m\<lparr>ms_ChannelExternalID := i\<rparr>))"

section \<open>Conversations and assignments\<close>

datatype LeadReason = LeadReasonLead | LeadReasonManual | LeadReasonReassign | LeadReasonUnassign | LeadReasonOther string

definition lead_Valid :: "LeadReason \<Rightarrow> bool" where
  "lead_Valid r \<longleftrightarrow> r \<in> {LeadReasonLead, LeadReasonManual, LeadReasonReassign, LeadReasonUnassign}"

text \<open>An unassign event has no user; its \<open>ag_UserID\<close> is \<^verbatim>\<open>uuid.Nil\<close>, as the store reads the NULL.\<close>

record Assignment =
  ag_ID :: uuid
  ag_TenantID :: uuid
  ag_ConversationID :: uuid
  ag_UserID :: uuid
  ag_AssignedAt :: time
  ag_Reason :: LeadReason

definition NewAssignment :: "uuid \<Rightarrow> time \<Rightarrow> uuid \<Rightarrow> uuid \<Rightarrow> uuid \<Rightarrow> LeadReason \<Rightarrow> Assignment iresult" where
  "NewAssignment newid now tenantID conversationID userID reason =
     (if tenantID = uuid_nil then iberr ib_ErrInvalidTenant
      else if conversationID = uuid_nil then iberr ib_ErrInvalidContact
      else if userID = uuid_nil then iberr ib_ErrInvalidAssignee
      else if \<not> lead_Valid reason then iberr ib_ErrInvalidLeadReason
      else Inr \<lparr>ag_ID = newid, ag_TenantID = tenantID, ag_ConversationID = conversationID, ag_UserID = userID, ag_AssignedAt = now,
                ag_Reason = reason\<rparr>)"

datatype ConversationState = ConversationStateOpen | ConversationStateClosed

record Conversation =
  cv_ID :: uuid
  cv_TenantID :: uuid
  cv_ContactID :: uuid
  cv_Channel :: string
  cv_ChannelID :: "uuid option"
  cv_State :: ConversationState
  cv_AssignedUserID :: "uuid option"
  cv_LastMessageAt :: "time option"
  cv_CreatedAt :: time
  cv_history :: "Assignment list"

definition NewConversation :: "(string \<Rightarrow> string) \<Rightarrow> uuid \<Rightarrow> time \<Rightarrow> uuid \<Rightarrow> uuid \<Rightarrow> string \<Rightarrow> Conversation iresult" where
  "NewConversation lower newid now tenantID contactID channel =
     (let channel = lower (TrimSpace channel) in
      if tenantID = uuid_nil then iberr ib_ErrInvalidTenant
      else if contactID = uuid_nil then iberr ib_ErrInvalidContact
      else if channel = '''' then iberr ib_ErrInvalidChannel
      else Inr \<lparr>cv_ID = newid, cv_TenantID = tenantID, cv_ContactID = contactID, cv_Channel = channel, cv_ChannelID = None,
                cv_State = ConversationStateOpen, cv_AssignedUserID = None, cv_LastMessageAt = None, cv_CreatedAt = now, cv_history = []\<rparr>)"

definition RouteToChannel :: "Conversation \<Rightarrow> uuid \<Rightarrow> Conversation" where
  "RouteToChannel c channelID = (if channelID = uuid_nil then c else c\<lparr>cv_ChannelID := Some channelID\<rparr>)"

definition AssignTo :: "uuid \<Rightarrow> time \<Rightarrow> Conversation \<Rightarrow> uuid \<Rightarrow> LeadReason \<Rightarrow> (Assignment \<times> Conversation) iresult" where
  "AssignTo newid now c userID reason =
     (if cv_State c \<noteq> ConversationStateOpen then iberr ib_ErrConversationClosed
      else case NewAssignment newid now (cv_TenantID c) (cv_ID c) userID reason of
        Inl e \<Rightarrow> Inl e
      | Inr a \<Rightarrow> Inr (a, c\<lparr>cv_AssignedUserID := Some userID, cv_history := cv_history c @ [a]\<rparr>))"

definition Unassign :: "Conversation \<Rightarrow> Conversation iresult" where
  "Unassign c = (if cv_State c \<noteq> ConversationStateOpen then iberr ib_ErrConversationClosed else Inr (c\<lparr>cv_AssignedUserID := None\<rparr>))"

definition Lead :: "Conversation \<Rightarrow> Assignment option" where
  "Lead c = (if cv_history c = [] then None else Some (last (cv_history c)))"

definition SetHistory :: "Conversation \<Rightarrow> Assignment list \<Rightarrow> Conversation" where
  "SetHistory c rows =
     (if rows = [] then c\<lparr>cv_history := []\<rparr>
      else c\<lparr>cv_AssignedUserID := Some (ag_UserID (last rows)), cv_history := rows\<rparr>)"

definition Close :: "Conversation \<Rightarrow> Conversation" where
  "Close c = c\<lparr>cv_State := ConversationStateClosed\<rparr>"

definition Reopen :: "Conversation \<Rightarrow> Conversation iresult" where
  "Reopen c = (if cv_State c = ConversationStateOpen then iberr ib_ErrConversationAlreadyOpen else Inr (c\<lparr>cv_State := ConversationStateOpen\<rparr>))"

text \<open>\<^verbatim>\<open>After\<close> a zero time holds for every time a message carries.\<close>

definition RecordMessage :: "Conversation \<Rightarrow> Message \<Rightarrow> Conversation iresult" where
  "RecordMessage c m =
     (if cv_State c \<noteq> ConversationStateOpen then iberr ib_ErrConversationClosed
      else if ms_ConversationID m \<noteq> cv_ID c then iberr ib_ErrConversationMismatch
      else Inr (case cv_LastMessageAt c of
                  None \<Rightarrow> c\<lparr>cv_LastMessageAt := Some (ms_CreatedAt m)\<rparr>
                | Some t \<Rightarrow> if ms_CreatedAt m > t then c\<lparr>cv_LastMessageAt := Some (ms_CreatedAt m)\<rparr> else c))"

section \<open>The tables\<close>

record inbox_user =
  iu_id :: uuid
  iu_tenant_id :: "uuid option"
  iu_role :: string

record click_row =
  ck_tenant_id :: uuid
  ck_click_id :: string
  ck_contact_id :: "uuid option"

record dedup_row =
  dd_channel :: string
  dd_external_id :: string
  dd_processed_at :: "time option"

record OutboundMessage =
  om_TenantID :: uuid
  om_ConversationID :: uuid
  om_Channel :: string
  om_ToExternalID :: string
  om_Body :: string
  om_IdempotencyKey :: string

record PublishedInboundMessage =
  pm_TenantID :: uuid
  pm_ConversationID :: uuid
  pm_MessageID :: uuid
  pm_Channel :: string
  pm_Body :: string
  pm_OccurredAt :: time

text \<open>
  The tables the inbox reads and writes, and logs of the calls that leave it: the sends the carriers were asked for, the messages published for the
  funnel engine, the conversations whose AI summaries were invalidated and whose simulator was reset. \<open>ib_tenants\<close> holds the default lead of each tenant. A stored conversation has no history; the history is the table \<open>ib_history\<close>.
\<close>

record inbox_db = contacts_db +
  ib_tenants :: "(uuid \<times> uuid option) list"
  ib_users :: "inbox_user list"
  ib_channels :: "uuid list"
  ib_conversation :: "Conversation list"
  ib_message :: "Message list"
  ib_history :: "Assignment list"
  ib_dedup :: "dedup_row list"
  ib_clicks :: "click_row list"
  ib_sends :: "OutboundMessage list"
  ib_published :: "PublishedInboundMessage list"
  ib_invalidated :: "(uuid \<times> uuid) list"
  ib_resets :: "(uuid \<times> uuid) list"

type_synonym 'a ibprog = "(inbox_db, call_env, 'a) prog"

section \<open>Conversations (store)\<close>

text \<open>A read leaves out \<^verbatim>\<open>channel_id\<close> and the history.\<close>

definition scanConversation :: "Conversation \<Rightarrow> Conversation" where
  "scanConversation r = r\<lparr>cv_ChannelID := None, cv_history := []\<rparr>"

definition CreateConversation :: "inbox_db \<Rightarrow> Conversation \<Rightarrow> (unit \<times> inbox_db) iresult" where
  "CreateConversation db c =
     (let failed = (\<lambda>m. Inl (Wrapped ''inbox/postgres: CreateConversation'' (Opaque m))) in
      if cv_TenantID c = uuid_nil then Inl (Opaque ''inbox/postgres: CreateConversation: tenant id is nil'')
      else if cv_ID c = uuid_nil then Inl (Opaque ''inbox/postgres: CreateConversation: conversation id is nil'')
      else if cv_ID c \<in> set (map cv_ID (ib_conversation db)) then failed ''conversation_pkey''
      else if cv_ContactID c \<notin> set (map cr_id (contact db)) then failed ''conversation_contact_id_fkey''
      else if (case cv_ChannelID c of None \<Rightarrow> False | Some i \<Rightarrow> i \<notin> set (ib_channels db)) then failed ''conversation_channel_id_fkey''
      else if (case cv_AssignedUserID c of None \<Rightarrow> False | Some u \<Rightarrow> u \<notin> set (map iu_id (ib_users db))) then failed ''conversation_assigned_user_id_fkey''
      else Inr ((), db\<lparr>ib_conversation := ib_conversation db @ [c\<lparr>cv_history := []\<rparr>]\<rparr>))"

definition visible_conversation :: "inbox_db \<Rightarrow> uuid \<Rightarrow> uuid \<Rightarrow> Conversation option" where
  "visible_conversation db tenantID cid = find (\<lambda>c. cv_TenantID c = tenantID \<and> cv_ID c = cid) (ib_conversation db)"

definition GetConversation :: "inbox_db \<Rightarrow> uuid \<Rightarrow> uuid \<Rightarrow> Conversation iresult" where
  "GetConversation db tenantID conversationID =
     (if tenantID = uuid_nil then Inl (Opaque ''inbox/postgres: GetConversation: tenant id is nil'')
      else if conversationID = uuid_nil then iberr ib_ErrNotFound
      else case visible_conversation db tenantID conversationID of
        None \<Rightarrow> iberr ib_ErrNotFound
      | Some c \<Rightarrow> Inr (scanConversation c))"

text \<open>An UPDATE of one conversation under the tenant's view; \<open>None\<close> when no row is affected.\<close>

definition update_conversation :: "uuid \<Rightarrow> uuid \<Rightarrow> (Conversation \<Rightarrow> Conversation) \<Rightarrow> inbox_db \<Rightarrow> inbox_db option" where
  "update_conversation tenantID cid f db =
     (if visible_conversation db tenantID cid = None then None
      else Some (db\<lparr>ib_conversation := map (\<lambda>c. if cv_TenantID c = tenantID \<and> cv_ID c = cid then f c else c) (ib_conversation db)\<rparr>))"

definition SetConversationState :: "inbox_db \<Rightarrow> uuid \<Rightarrow> uuid \<Rightarrow> ConversationState \<Rightarrow> (unit \<times> inbox_db) iresult" where
  "SetConversationState db tenantID conversationID state =
     (if tenantID = uuid_nil then Inl (Opaque ''inbox/postgres: SetConversationState: tenant id is nil'')
      else if conversationID = uuid_nil then Inl (Opaque ''inbox/postgres: SetConversationState: conversation id is nil'')
      else case update_conversation tenantID conversationID (cv_State_update (\<lambda>_. state)) db of
        None \<Rightarrow> iberr ib_ErrNotFound
      | Some db' \<Rightarrow> Inr ((), db'))"

text \<open>\<^verbatim>\<open>ORDER BY created_at DESC LIMIT 1\<close>; of rows of the same instant the first stored is taken.\<close>

definition FindOpenConversation :: "inbox_db \<Rightarrow> uuid \<Rightarrow> uuid \<Rightarrow> string \<Rightarrow> Conversation iresult" where
  "FindOpenConversation db tenantID contactID channel =
     (if tenantID = uuid_nil then Inl (Opaque ''inbox/postgres: FindOpenConversation: tenant id is nil'')
      else if contactID = uuid_nil then iberr ib_ErrNotFound
      else case sort_key (\<lambda>c. - cv_CreatedAt c)
             (filter (\<lambda>c. cv_TenantID c = tenantID \<and> cv_ContactID c = contactID \<and> cv_Channel c = channel \<and> cv_State c = ConversationStateOpen)
                (ib_conversation db)) of
             [] \<Rightarrow> iberr ib_ErrNotFound
           | c # _ \<Rightarrow> Inr (scanConversation c))"

section \<open>Messages (store)\<close>

definition bump_last_message :: "time \<Rightarrow> Conversation \<Rightarrow> Conversation" where
  "bump_last_message t c = c\<lparr>cv_LastMessageAt := Some (case cv_LastMessageAt c of None \<Rightarrow> t | Some s \<Rightarrow> max s t)\<rparr>"

text \<open>The insert and the move of the parent's pointer are one transaction; the pointer of a conversation the tenant cannot see is not moved.\<close>

definition SaveMessage :: "inbox_db \<Rightarrow> Message \<Rightarrow> (unit \<times> inbox_db) iresult" where
  "SaveMessage db m =
     (let failed = (\<lambda>e. Inl (Wrapped ''inbox/postgres: SaveMessage insert'' (Opaque e))) in
      if ms_TenantID m = uuid_nil then Inl (Opaque ''inbox/postgres: SaveMessage: tenant id is nil'')
      else if ms_ID m = uuid_nil \<or> ms_ConversationID m = uuid_nil then Inl (Opaque ''inbox/postgres: SaveMessage: id/conversation id is nil'')
      else if ms_ID m \<in> set (map ms_ID (ib_message db)) then failed ''message_pkey''
      else if ms_ConversationID m \<notin> set (map cv_ID (ib_conversation db)) then failed ''message_conversation_id_fkey''
      else if (case ms_SentByUserID m of None \<Rightarrow> False | Some u \<Rightarrow> u \<notin> set (map iu_id (ib_users db))) then failed ''message_sent_by_user_id_fkey''
      else
        let db' = db\<lparr>ib_message := ib_message db @ [m]\<rparr> in
        Inr ((), case update_conversation (ms_TenantID m) (ms_ConversationID m) (bump_last_message (ms_CreatedAt m)) db' of
                   None \<Rightarrow> db' | Some db'' \<Rightarrow> db''))"

definition UpdateMessage :: "inbox_db \<Rightarrow> Message \<Rightarrow> (unit \<times> inbox_db) iresult" where
  "UpdateMessage db m =
     (let this = (\<lambda>x. ms_TenantID x = ms_TenantID m \<and> ms_ID x = ms_ID m) in
      if ms_TenantID m = uuid_nil then Inl (Opaque ''inbox/postgres: UpdateMessage: tenant id is nil'')
      else if ms_ID m = uuid_nil then iberr ib_ErrNotFound
      else if \<not> list_ex this (ib_message db) then iberr ib_ErrNotFound
      else Inr ((), db\<lparr>ib_message := map (\<lambda>x. if this x then x\<lparr>ms_Status := ms_Status m, ms_ChannelExternalID := ms_ChannelExternalID m\<rparr> else x)
                                       (ib_message db)\<rparr>))"

text \<open>The join with the conversation; of several matches the first stored is taken.\<close>

definition FindMessageByChannelExternalID :: "inbox_db \<Rightarrow> uuid \<Rightarrow> string \<Rightarrow> string \<Rightarrow> Message iresult" where
  "FindMessageByChannelExternalID db tenantID channel externalID =
     (if tenantID = uuid_nil then Inl (Opaque ''inbox/postgres: FindMessageByChannelExternalID: tenant id is nil'')
      else if channel = '''' \<or> externalID = '''' then iberr ib_ErrNotFound
      else case find (\<lambda>m. ms_TenantID m = tenantID \<and> ms_ChannelExternalID m = externalID \<and>
                (case visible_conversation db tenantID (ms_ConversationID m) of None \<Rightarrow> False | Some c \<Rightarrow> cv_Channel c = channel)) (ib_message db) of
             None \<Rightarrow> iberr ib_ErrNotFound
           | Some m \<Rightarrow> Inr m)"

text \<open>
  \<^verbatim>\<open>ListMessages\<close> is ordered by creation time and then by identifier; the database orders identifiers like their printed form, \<open>ustr\<close>.
\<close>

definition ListMessages :: "(uuid \<Rightarrow> string) \<Rightarrow> inbox_db \<Rightarrow> uuid \<Rightarrow> uuid \<Rightarrow> Message list iresult" where
  "ListMessages ustr db tenantID conversationID =
     (if tenantID = uuid_nil then Inl (Opaque ''inbox/postgres: ListMessages: tenant id is nil'')
      else if conversationID = uuid_nil then iberr ib_ErrNotFound
      else if visible_conversation db tenantID conversationID = None then iberr ib_ErrNotFound
      else Inr (sort_key ms_CreatedAt (sort_key (\<lambda>m. ustr (ms_ID m))
             (filter (\<lambda>m. ms_TenantID m = tenantID \<and> ms_ConversationID m = conversationID) (ib_message db)))))"

definition GetMessage :: "inbox_db \<Rightarrow> uuid \<Rightarrow> uuid \<Rightarrow> uuid \<Rightarrow> Message iresult" where
  "GetMessage db tenantID conversationID messageID =
     (if tenantID = uuid_nil then Inl (Opaque ''inbox/postgres: GetMessage: tenant id is nil'')
      else if conversationID = uuid_nil \<or> messageID = uuid_nil then iberr ib_ErrNotFound
      else case find (\<lambda>m. ms_TenantID m = tenantID \<and> ms_ID m = messageID \<and> ms_ConversationID m = conversationID) (ib_message db) of
             None \<Rightarrow> iberr ib_ErrNotFound
           | Some m \<Rightarrow> Inr m)"

definition DeleteMessagesByConversation :: "inbox_db \<Rightarrow> uuid \<Rightarrow> uuid \<Rightarrow> (nat \<times> inbox_db) iresult" where
  "DeleteMessagesByConversation db tenantID conversationID =
     (if tenantID = uuid_nil then Inl (Opaque ''inbox/postgres: DeleteMessagesByConversation: tenant id is nil'')
      else if conversationID = uuid_nil then Inr (0, db)
      else
        let this = (\<lambda>m. ms_TenantID m = tenantID \<and> ms_ConversationID m = conversationID);
            db' = db\<lparr>ib_message := filter (\<lambda>m. \<not> this m) (ib_message db)\<rparr> in
        Inr (length (filter this (ib_message db)),
             case update_conversation tenantID conversationID (cv_LastMessageAt_update (\<lambda>_. None)) db' of None \<Rightarrow> db' | Some db'' \<Rightarrow> db''))"

section \<open>The deduplication ledger\<close>

text \<open>Not scoped by tenant: the key is the pair of channel and external identifier.\<close>

definition Claim :: "inbox_db \<Rightarrow> string \<Rightarrow> string \<Rightarrow> (unit \<times> inbox_db) iresult" where
  "Claim db channel externalID =
     (if channel = '''' \<or> externalID = '''' then Inl (Opaque ''inbox/postgres: Claim: channel/externalID required'')
      else if list_ex (\<lambda>d. dd_channel d = channel \<and> dd_external_id d = externalID) (ib_dedup db) then iberr ib_ErrInboundAlreadyProcessed
      else Inr ((), db\<lparr>ib_dedup := ib_dedup db @ [\<lparr>dd_channel = channel, dd_external_id = externalID, dd_processed_at = None\<rparr>]\<rparr>))"

definition MarkProcessed :: "time \<Rightarrow> inbox_db \<Rightarrow> string \<Rightarrow> string \<Rightarrow> (unit \<times> inbox_db) iresult" where
  "MarkProcessed now db channel externalID =
     (let this = (\<lambda>d. dd_channel d = channel \<and> dd_external_id d = externalID) in
      if channel = '''' \<or> externalID = '''' then Inl (Opaque ''inbox/postgres: MarkProcessed: channel/externalID required'')
      else if \<not> list_ex this (ib_dedup db) then iberr ib_ErrNotFound
      else Inr ((), db\<lparr>ib_dedup := map (\<lambda>d. if this d then d\<lparr>dd_processed_at := Some now\<rparr> else d) (ib_dedup db)\<rparr>))"

section \<open>Assignments (store)\<close>

definition history_insert :: "string \<Rightarrow> inbox_db \<Rightarrow> Assignment \<Rightarrow> (Assignment \<times> inbox_db) iresult" where
  "history_insert msg db a =
     (let failed = (\<lambda>e. Inl (Wrapped msg (Opaque e))) in
      if ag_ID a \<in> set (map ag_ID (ib_history db)) then failed ''assignment_history_pkey''
      else if ag_ConversationID a \<notin> set (map cv_ID (ib_conversation db)) then failed ''assignment_history_conversation_id_fkey''
      else if ag_UserID a \<noteq> uuid_nil \<and> ag_UserID a \<notin> set (map iu_id (ib_users db)) then failed ''assignment_history_user_id_fkey''
      else if (ag_Reason a = LeadReasonUnassign) \<noteq> (ag_UserID a = uuid_nil) then failed ''assignment_history_user_presence_check''
      else Inr (a, db\<lparr>ib_history := ib_history db @ [a]\<rparr>))"

definition AppendHistory :: "call_env \<Rightarrow> inbox_db \<Rightarrow> uuid \<Rightarrow> uuid \<Rightarrow> uuid \<Rightarrow> LeadReason \<Rightarrow> (Assignment \<times> inbox_db) iresult" where
  "AppendHistory ev db tenantID conversationID userID reason =
     (if tenantID = uuid_nil then Inl (Opaque ''inbox/postgres: AppendHistory: tenant id is nil'')
      else if conversationID = uuid_nil then Inl (Opaque ''inbox/postgres: AppendHistory: conversation id is nil'')
      else if userID = uuid_nil then Inl (Opaque ''inbox/postgres: AppendHistory: user id is nil'')
      else if \<not> lead_Valid reason then iberr ib_ErrInvalidLeadReason
      else case NewAssignment (o_ids ev 0) (o_now ev) tenantID conversationID userID reason of
        Inl e \<Rightarrow> Inl (Wrapped ''inbox/postgres: AppendHistory'' e)
      | Inr a \<Rightarrow> history_insert ''inbox/postgres: AppendHistory'' db a)"

definition AppendUnassign :: "call_env \<Rightarrow> inbox_db \<Rightarrow> uuid \<Rightarrow> uuid \<Rightarrow> (Assignment \<times> inbox_db) iresult" where
  "AppendUnassign ev db tenantID conversationID =
     (if tenantID = uuid_nil then Inl (Opaque ''inbox/postgres: AppendUnassign: tenant id is nil'')
      else if conversationID = uuid_nil then Inl (Opaque ''inbox/postgres: AppendUnassign: conversation id is nil'')
      else history_insert ''inbox/postgres: AppendUnassign'' db
             \<lparr>ag_ID = o_ids ev 0, ag_TenantID = tenantID, ag_ConversationID = conversationID, ag_UserID = uuid_nil, ag_AssignedAt = o_now ev,
              ag_Reason = LeadReasonUnassign\<rparr>)"

definition history_of :: "inbox_db \<Rightarrow> uuid \<Rightarrow> uuid \<Rightarrow> Assignment list" where
  "history_of db tenantID conversationID = filter (\<lambda>a. ag_TenantID a = tenantID \<and> ag_ConversationID a = conversationID) (ib_history db)"

text \<open>\<^verbatim>\<open>ORDER BY assigned_at DESC LIMIT 1\<close>; of rows of the same instant the first stored is taken.\<close>

definition LatestAssignment :: "inbox_db \<Rightarrow> uuid \<Rightarrow> uuid \<Rightarrow> Assignment iresult" where
  "LatestAssignment db tenantID conversationID =
     (if tenantID = uuid_nil then Inl (Opaque ''inbox/postgres: LatestAssignment: tenant id is nil'')
      else if conversationID = uuid_nil then Inl (Opaque ''inbox/postgres: LatestAssignment: conversation id is nil'')
      else case sort_key (\<lambda>a. - ag_AssignedAt a) (history_of db tenantID conversationID) of
             [] \<Rightarrow> Inl (Wrapped ''inbox/postgres: LatestAssignment'' (Sentinel ib_ErrNotFound))
           | a # _ \<Rightarrow> Inr a)"

definition ListHistory :: "inbox_db \<Rightarrow> uuid \<Rightarrow> uuid \<Rightarrow> Assignment list iresult" where
  "ListHistory db tenantID conversationID =
     (if tenantID = uuid_nil then Inl (Opaque ''inbox/postgres: ListHistory: tenant id is nil'')
      else if conversationID = uuid_nil then Inl (Opaque ''inbox/postgres: ListHistory: conversation id is nil'')
      else Inr (sort_key ag_AssignedAt (history_of db tenantID conversationID)))"

definition IsAssignable :: "inbox_db \<Rightarrow> uuid \<Rightarrow> uuid \<Rightarrow> bool iresult" where
  "IsAssignable db tenantID userID =
     (if tenantID = uuid_nil then Inl (Opaque ''inbox/postgres: IsAssignable: tenant id is nil'')
      else if userID = uuid_nil then Inr False
      else Inr (list_ex (\<lambda>u. iu_tenant_id u = Some tenantID \<and> iu_id u = userID \<and> iu_role u \<in> {''tenant_atendente'', ''tenant_gerente''}) (ib_users db)))"

definition SetConversationLead :: "inbox_db \<Rightarrow> uuid \<Rightarrow> uuid \<Rightarrow> uuid \<Rightarrow> (unit \<times> inbox_db) iresult" where
  "SetConversationLead db tenantID conversationID userID =
     (if tenantID = uuid_nil then Inl (Opaque ''inbox/postgres: SetConversationLead: tenant id is nil'')
      else if conversationID = uuid_nil then Inl (Opaque ''inbox/postgres: SetConversationLead: conversation id is nil'')
      else if userID = uuid_nil then Inl (Opaque ''inbox/postgres: SetConversationLead: user id is nil'')
      else if visible_conversation db tenantID conversationID \<noteq> None \<and> userID \<notin> set (map iu_id (ib_users db))
        then Inl (Wrapped ''inbox/postgres: SetConversationLead'' (Opaque ''conversation_assigned_user_id_fkey''))
      else case update_conversation tenantID conversationID (cv_AssignedUserID_update (\<lambda>_. Some userID)) db of
        None \<Rightarrow> iberr ib_ErrNotFound
      | Some db' \<Rightarrow> Inr ((), db'))"

definition ClearConversationLead :: "inbox_db \<Rightarrow> uuid \<Rightarrow> uuid \<Rightarrow> (unit \<times> inbox_db) iresult" where
  "ClearConversationLead db tenantID conversationID =
     (if tenantID = uuid_nil then Inl (Opaque ''inbox/postgres: ClearConversationLead: tenant id is nil'')
      else if conversationID = uuid_nil then Inl (Opaque ''inbox/postgres: ClearConversationLead: conversation id is nil'')
      else case update_conversation tenantID conversationID (cv_AssignedUserID_update (\<lambda>_. None)) db of
        None \<Rightarrow> iberr ib_ErrNotFound
      | Some db' \<Rightarrow> Inr ((), db'))"

definition DefaultLeadUserID :: "inbox_db \<Rightarrow> uuid \<Rightarrow> uuid option iresult" where
  "DefaultLeadUserID db tenantID =
     (if tenantID = uuid_nil then Inl (Opaque ''tenancy: tenant not found'')
      else case find (\<lambda>t. fst t = tenantID) (ib_tenants db) of
        None \<Rightarrow> Inl (Opaque ''tenancy: tenant not found'')
      | Some (_, lead) \<Rightarrow> Inr lead)"

definition LinkContactToCampaign :: "inbox_db \<Rightarrow> uuid \<Rightarrow> string \<Rightarrow> uuid \<Rightarrow> (unit \<times> inbox_db) iresult" where
  "LinkContactToCampaign db tenantID clickID contactID =
     (let this = (\<lambda>r. ck_tenant_id r = tenantID \<and> ck_click_id r = clickID) in
      if tenantID = uuid_nil then Inl (Opaque ''campaigns: invalid tenant id'')
      else if clickID = '''' then Inl (Opaque ''campaigns: invalid click id'')
      else if contactID = uuid_nil then Inl (Opaque ''campaigns/postgres: LinkContactToCampaign: contact id is nil'')
      else if \<not> list_ex this (ib_clicks db) then Inl (Opaque ''campaigns: not found'')
      else if contactID \<notin> set (map cr_id (contact db)) then Inl (Opaque ''campaign_clicks_contact_id_fkey'')
      else Inr ((), db\<lparr>ib_clicks := map (\<lambda>r. if this r then r\<lparr>ck_contact_id := Some contactID\<rparr> else r) (ib_clicks db)\<rparr>))"

section \<open>Receiving a message\<close>

text \<open>
  The use case with what is wired into it: whether the leadership ports, the campaign linker and the publisher are set, the channel resolver (whose
  \<open>None\<close> is an error) and the marker key.
\<close>

record ReceiveInbound =
  ri_lower :: "string \<Rightarrow> string"
  ri_leadership :: bool
  ri_channelResolver :: "(call_env \<Rightarrow> inbox_db \<Rightarrow> uuid \<Rightarrow> string \<Rightarrow> string \<Rightarrow> uuid option) option"
  ri_campaignLinker :: bool
  ri_campaignMarkerKey :: marker_key
  ri_campaignMarkerAllowLegacy :: bool
  ri_inboundPublisher :: bool

record InboundEvent =
  iv_TenantID :: uuid
  iv_Channel :: string
  iv_ChannelExternalID :: string
  iv_SenderExternalID :: string
  iv_SenderDisplayName :: string
  iv_DestinationExternalID :: string
  iv_Body :: string
  iv_OccurredAt :: "time option"
  iv_HasAttachments :: bool

definition fallbackDisplay :: "string \<Rightarrow> string \<Rightarrow> string" where
  "fallbackDisplay profile sender = (if TrimSpace profile \<noteq> '''' then TrimSpace profile else TrimSpace sender)"

definition routeConversation :: "ReceiveInbound \<Rightarrow> Conversation \<Rightarrow> string \<Rightarrow> string \<Rightarrow> (Conversation \<Rightarrow> 'a ibprog) \<Rightarrow> 'a ibprog" where
  "routeConversation u conv channelKey destination k =
     (case ri_channelResolver u of
        None \<Rightarrow> k conv
      | Some resolve \<Rightarrow> Act (\<lambda>ev db.
          (case resolve ev db (cv_TenantID conv) channelKey destination of None \<Rightarrow> k conv | Some i \<Rightarrow> k (RouteToChannel conv i), db)))"

definition attributeInitialLead :: "ReceiveInbound \<Rightarrow> Conversation \<Rightarrow> (Conversation iresult \<Rightarrow> 'a ibprog) \<Rightarrow> 'a ibprog" where
  "attributeInitialLead u conv k =
     (if \<not> ri_leadership u then k (Inr conv)
      else query (\<lambda>db. DefaultLeadUserID db (cv_TenantID conv)) (\<lambda>l. case l of
        Inl e \<Rightarrow> k (Inl e)
      | Inr None \<Rightarrow> k (Inr conv)
      | Inr (Some user) \<Rightarrow>
          command (\<lambda>ev db. AppendHistory ev db (cv_TenantID conv) (cv_ID conv) user LeadReasonLead) (\<lambda>a. case a of
            Inl e \<Rightarrow> k (Inl e)
          | Inr a \<Rightarrow> k (Inr (SetHistory conv [a])))))"

text \<open>Step 3 of \<^verbatim>\<open>Execute\<close>: the open conversation of the contact on the channel, or a new one.\<close>

definition open_conversation :: "ReceiveInbound \<Rightarrow> InboundEvent \<Rightarrow> string \<Rightarrow> uuid \<Rightarrow> (Conversation iresult \<Rightarrow> 'a ibprog) \<Rightarrow> 'a ibprog" where
  "open_conversation u e channel contactID k =
     query (\<lambda>db. FindOpenConversation db (iv_TenantID e) contactID channel) (\<lambda>f. case f of
       Inr conv \<Rightarrow> k (Inr conv)
     | Inl err \<Rightarrow>
         if \<not> errors_is err ib_ErrNotFound then k (Inl err)
         else draw (\<lambda>ev. case NewConversation (ri_lower u) (o_ids ev 0) (o_now ev) (iv_TenantID e) contactID channel of
           Inl err \<Rightarrow> k (Inl err)
         | Inr conv \<Rightarrow>
             routeConversation u conv channel (TrimSpace (iv_DestinationExternalID e)) (\<lambda>conv.
               command (\<lambda>_ db. CreateConversation db conv) (\<lambda>c. case c of
                 Inl err \<Rightarrow> k (Inl err)
               | Inr _ \<Rightarrow> attributeInitialLead u conv k))))"

text \<open>Step 4: the message as it is stored.\<close>

definition inbound_message :: "call_env \<Rightarrow> InboundEvent \<Rightarrow> string \<Rightarrow> uuid \<Rightarrow> Message iresult" where
  "inbound_message ev e externalID conversationID =
     (case NewMessage (o_ids ev 0) (o_now ev)
             \<lparr>nm_TenantID = iv_TenantID e, nm_ConversationID = conversationID, nm_Direction = MessageDirectionIn, nm_Body = iv_Body e,
              nm_Status = MessageStatusOther '''', nm_ChannelExternalID = externalID, nm_SentByUserID = None\<rparr> of
        Inl err \<Rightarrow> Inl err
      | Inr m \<Rightarrow>
          let m = (case iv_OccurredAt e of None \<Rightarrow> m | Some t \<Rightarrow> m\<lparr>ms_CreatedAt := t\<rparr>)
          in Inr (if iv_HasAttachments e then AttachMedia m '''' '''' ''pending'' else m))"

definition linkContactToCampaign :: "ReceiveInbound \<Rightarrow> uuid \<Rightarrow> uuid \<Rightarrow> string \<Rightarrow> 'a ibprog \<Rightarrow> 'a ibprog" where
  "linkContactToCampaign u tenantID contactID body k =
     (if \<not> ri_campaignLinker u then k
      else case ExtractClickMarker body of
        None \<Rightarrow> k
      | Some (clickID, hmac) \<Rightarrow>
          if \<not> VerifyClickToken (ri_campaignMarkerKey u) (ri_campaignMarkerAllowLegacy u) tenantID clickID hmac then k
          else command (\<lambda>_ db. LinkContactToCampaign db tenantID clickID contactID) (\<lambda>_. k))"

definition publishInboundMessage :: "ReceiveInbound \<Rightarrow> PublishedInboundMessage \<Rightarrow> 'a ibprog \<Rightarrow> 'a ibprog" where
  "publishInboundMessage u p k =
     (if \<not> ri_inboundPublisher u then k
      else command (\<lambda>_ db. (Inr ((), db\<lparr>ib_published := ib_published db @ [p]\<rparr>) :: (unit \<times> inbox_db) iresult)) (\<lambda>_. k))"

text \<open>Steps 4 to 7, from the conversation on.\<close>

definition store_inbound ::
  "ReceiveInbound \<Rightarrow> InboundEvent \<Rightarrow> string \<Rightarrow> string \<Rightarrow> Contact \<Rightarrow> Conversation \<Rightarrow> (Conversation \<times> Message \<times> Contact) option iresult ibprog" where
  "store_inbound u e channel externalID c conv =
     draw (\<lambda>ev. case inbound_message ev e externalID (cv_ID conv) of
       Inl err \<Rightarrow> Ret (Inl err)
     | Inr m \<Rightarrow> (case RecordMessage conv m of
         Inl err \<Rightarrow> Ret (Inl err)
       | Inr conv' \<Rightarrow>
           command (\<lambda>_ db. SaveMessage db m) (\<lambda>s. case s of
             Inl err \<Rightarrow> Ret (Inl err)
           | Inr _ \<Rightarrow>
               command (\<lambda>ev db. MarkProcessed (o_now ev) db channel externalID) (\<lambda>p. case p of
                 Inl err \<Rightarrow> Ret (Inl err)
               | Inr _ \<Rightarrow>
                   linkContactToCampaign u (iv_TenantID e) (ct_ID c) (ms_Body m)
                     (publishInboundMessage u
                        \<lparr>pm_TenantID = iv_TenantID e, pm_ConversationID = cv_ID conv', pm_MessageID = ms_ID m, pm_Channel = channel,
                         pm_Body = ms_Body m, pm_OccurredAt = ms_CreatedAt m\<rparr>
                        (Ret (Inr (Some (conv', m, c)))))))))"

text \<open>\<^verbatim>\<open>Execute\<close>; the answer \<open>Inr None\<close> is \<^verbatim>\<open>Duplicate: true\<close>.\<close>

definition ReceiveInbound_Execute :: "ReceiveInbound \<Rightarrow> InboundEvent \<Rightarrow> (Conversation \<times> Message \<times> Contact) option iresult ibprog" where
  "ReceiveInbound_Execute u e =
     (let channel = ri_lower u (TrimSpace (iv_Channel e)); externalID = TrimSpace (iv_ChannelExternalID e) in
      if iv_TenantID e = uuid_nil then Ret (iberr ib_ErrInvalidTenant)
      else if channel = '''' then Ret (iberr ib_ErrInvalidChannel)
      else if externalID = '''' then Ret (iberr ib_ErrInvalidStatus)
      else if TrimSpace (iv_SenderExternalID e) = '''' then Ret (iberr ib_ErrInvalidChannel)
      else command (\<lambda>_ db. Claim db channel externalID) (\<lambda>d. case d of
        Inl err \<Rightarrow> if errors_is err ib_ErrInboundAlreadyProcessed then Ret (Inr None) else Ret (Inl err)
      | Inr _ \<Rightarrow>
          UpsertContactByChannel (ri_lower u)
            \<lparr>ui_TenantID = iv_TenantID e, ui_Channel = channel, ui_ExternalID = iv_SenderExternalID e,
             ui_DisplayName = fallbackDisplay (iv_SenderDisplayName e) (iv_SenderExternalID e)\<rparr> (\<lambda>r. case r of
            Inl err \<Rightarrow> Ret (Inl (map_goerr ib_contacts err))
          | Inr (c, created) \<Rightarrow>
              open_conversation u e channel (ct_ID c) (\<lambda>cv. case cv of
                Inl err \<Rightarrow> Ret (Inl err)
              | Inr conv \<Rightarrow> store_inbound u e channel externalID c conv))))"

definition HandleInbound :: "ReceiveInbound \<Rightarrow> InboundEvent \<Rightarrow> unit iresult ibprog" where
  "HandleInbound u e = bind_prog (ReceiveInbound_Execute u e) (\<lambda>r. Ret (case r of Inl err \<Rightarrow> Inl err | Inr _ \<Rightarrow> Inr ()))"

text \<open>\<open>Inr None\<close> is a duplicate, \<open>Inr (Some i)\<close> the identifier of the message.\<close>

definition MaterialiseInbound :: "ReceiveInbound \<Rightarrow> InboundEvent \<Rightarrow> uuid option iresult ibprog" where
  "MaterialiseInbound u e = bind_prog (ReceiveInbound_Execute u e) (\<lambda>r. Ret (case r of
     Inl err \<Rightarrow> Inl err
   | Inr None \<Rightarrow> Inr None
   | Inr (Some (conv, m, c)) \<Rightarrow> Inr (Some (ms_ID m))))"

section \<open>Sending a message\<close>

text \<open>The carrier answers with its identifier of the message or fails (\<open>None\<close>); \<open>so_costFn\<close> and \<open>so_contactID\<close> fail with \<open>None\<close>.\<close>

record SendOutbound =
  so_carrier :: "call_env \<Rightarrow> OutboundMessage \<Rightarrow> string option"
  so_costFn :: "OutboundMessage \<Rightarrow> int option"
  so_contactID :: "(call_env \<Rightarrow> inbox_db \<Rightarrow> uuid \<Rightarrow> uuid \<Rightarrow> string option) option"

record SendOutboundInput =
  si_TenantID :: uuid
  si_ConversationID :: uuid
  si_Body :: string
  si_SentByUserID :: "uuid option"
  si_ToExternalID :: string
  si_IdempotencyKey :: string

definition SendMessage :: "SendOutbound \<Rightarrow> OutboundMessage \<Rightarrow> (string option \<Rightarrow> 'a ibprog) \<Rightarrow> 'a ibprog" where
  "SendMessage u out k = Act (\<lambda>ev db. (k (so_carrier u ev out), db\<lparr>ib_sends := ib_sends db @ [out]\<rparr>))"

text \<open>\<^verbatim>\<open>passthroughWalletDebitor\<close>, the debitor that is wired: it runs the charge and reserves nothing.\<close>

definition Debit :: "uuid \<Rightarrow> int \<Rightarrow> 'a ibprog \<Rightarrow> 'a ibprog" where
  "Debit tenantID cost charge = charge"

definition sent_message :: "Message \<Rightarrow> string \<Rightarrow> Message iresult" where
  "sent_message m channelExternalID =
     (case (if channelExternalID \<noteq> '''' then AttachChannelExternalID m channelExternalID else Inr m) of
        Inl err \<Rightarrow> Inl err
      | Inr m' \<Rightarrow> AdvanceStatus m' MessageStatusSent)"

definition failed_message :: "Message \<Rightarrow> Message" where
  "failed_message m = (case AdvanceStatus m MessageStatusFailed of Inl _ \<Rightarrow> m | Inr m' \<Rightarrow> m')"

text \<open>The charge; it returns the message as the closure leaves it.\<close>

definition send_charge :: "SendOutbound \<Rightarrow> OutboundMessage \<Rightarrow> Message \<Rightarrow> Message iresult ibprog" where
  "send_charge u out m =
     command (\<lambda>_ db. SaveMessage db m) (\<lambda>s. case s of
       Inl err \<Rightarrow> Ret (Inl err)
     | Inr _ \<Rightarrow> SendMessage u out (\<lambda>r. case r of
         None \<Rightarrow> command (\<lambda>_ db. UpdateMessage db (failed_message m)) (\<lambda>_. Ret (Inl (Opaque ''carrier'')))
       | Some i \<Rightarrow> (case sent_message m i of
           Inl err \<Rightarrow> Ret (Inl err)
         | Inr m' \<Rightarrow> command (\<lambda>_ db. UpdateMessage db m') (\<lambda>x. case x of
             Inl err \<Rightarrow> Ret (Inl err)
           | Inr _ \<Rightarrow> Ret (Inr m')))))"

definition recipient :: "SendOutbound \<Rightarrow> SendOutboundInput \<Rightarrow> (string option \<Rightarrow> 'a ibprog) \<Rightarrow> 'a ibprog" where
  "recipient u inp k =
     (case so_contactID u of
        Some lookup \<Rightarrow>
          if si_ToExternalID inp = '''' then Act (\<lambda>ev db. (k (lookup ev db (si_TenantID inp) (si_ConversationID inp)), db))
          else k (Some (si_ToExternalID inp))
      | None \<Rightarrow> k (Some (si_ToExternalID inp)))"

definition SendOutbound_Execute :: "SendOutbound \<Rightarrow> SendOutboundInput \<Rightarrow> Message iresult ibprog" where
  "SendOutbound_Execute u inp =
     (if si_TenantID inp = uuid_nil then Ret (iberr ib_ErrInvalidTenant)
      else if si_ConversationID inp = uuid_nil then Ret (iberr ib_ErrInvalidContact)
      else query (\<lambda>db. GetConversation db (si_TenantID inp) (si_ConversationID inp)) (\<lambda>g. case g of
        Inl err \<Rightarrow> Ret (Inl err)
      | Inr conv \<Rightarrow>
          if cv_State conv \<noteq> ConversationStateOpen then Ret (iberr ib_ErrConversationClosed)
          else recipient u inp (\<lambda>t. case t of
            None \<Rightarrow> Ret (Inl (Opaque ''contact lookup''))
          | Some to \<Rightarrow>
              let out = \<lparr>om_TenantID = si_TenantID inp, om_ConversationID = si_ConversationID inp, om_Channel = cv_Channel conv,
                         om_ToExternalID = to, om_Body = si_Body inp, om_IdempotencyKey = si_IdempotencyKey inp\<rparr> in
              (case so_costFn u out of
                 None \<Rightarrow> Ret (Inl (Opaque ''cost''))
               | Some cost \<Rightarrow>
                   draw (\<lambda>ev. case NewMessage (o_ids ev 0) (o_now ev)
                       \<lparr>nm_TenantID = si_TenantID inp, nm_ConversationID = si_ConversationID inp, nm_Direction = MessageDirectionOut,
                        nm_Body = si_Body inp, nm_Status = MessageStatusOther '''', nm_ChannelExternalID = '''', nm_SentByUserID = si_SentByUserID inp\<rparr> of
                     Inl err \<Rightarrow> Ret (Inl err)
                   | Inr m \<Rightarrow> Debit (si_TenantID inp) cost (send_charge u out m))))))"

section \<open>Status callbacks\<close>

record StatusUpdate =
  su_TenantID :: uuid
  su_Channel :: string
  su_ChannelExternalID :: string
  su_NewStatus :: MessageStatus

datatype StatusOutcome = StatusOutcomeApplied | StatusOutcomeNoop | StatusOutcomeUnknownMessage

record StatusUpdateResult =
  sq_Outcome :: StatusOutcome
  sq_PreviousStatus :: "MessageStatus option"
  sq_NewStatus :: MessageStatus

definition statusDedupChannel :: string where
  "statusDedupChannel = ''whatsapp_status''"

definition statusDedupKey :: "string \<Rightarrow> MessageStatus \<Rightarrow> string" where
  "statusDedupKey channelExternalID status = channelExternalID @ '':'' @ status_text status"

text \<open>Closing the ledger row and answering, whether or not the row could be closed.\<close>

definition close_and_answer :: "string \<Rightarrow> StatusUpdateResult \<Rightarrow> StatusUpdateResult iresult ibprog" where
  "close_and_answer key res = command (\<lambda>ev db. MarkProcessed (o_now ev) db statusDedupChannel key) (\<lambda>_. Ret (Inr res))"

definition apply_status :: "string \<Rightarrow> MessageStatus \<Rightarrow> Message \<Rightarrow> StatusUpdateResult iresult ibprog" where
  "apply_status key nxt m =
     (let noop = (\<lambda>s. \<lparr>sq_Outcome = StatusOutcomeNoop, sq_PreviousStatus = Some (ms_Status m), sq_NewStatus = s\<rparr>) in
      case AdvanceStatus m nxt of
        Inl err \<Rightarrow> if errors_is err ib_ErrStatusRegression then close_and_answer key (noop nxt)
                    else Ret (Inl (Wrapped ''advance status'' err))
      | Inr m' \<Rightarrow>
          if ms_Status m' = ms_Status m then close_and_answer key (noop (ms_Status m'))
          else command (\<lambda>_ db. UpdateMessage db m') (\<lambda>x. case x of
            Inl err \<Rightarrow> Ret (Inl (Wrapped ''persist message'' err))
          | Inr _ \<Rightarrow> command (\<lambda>ev db. MarkProcessed (o_now ev) db statusDedupChannel key) (\<lambda>p. case p of
              Inl err \<Rightarrow> Ret (Inl (Wrapped ''dedup mark'' err))
            | Inr _ \<Rightarrow> Ret (Inr \<lparr>sq_Outcome = StatusOutcomeApplied, sq_PreviousStatus = Some (ms_Status m), sq_NewStatus = ms_Status m'\<rparr>))))"

definition HandleStatus :: "(string \<Rightarrow> string) \<Rightarrow> StatusUpdate \<Rightarrow> StatusUpdateResult iresult ibprog" where
  "HandleStatus lower ev =
     (let channel = lower (TrimSpace (su_Channel ev)); externalID = TrimSpace (su_ChannelExternalID ev);
          key = statusDedupKey externalID (su_NewStatus ev) in
      if su_TenantID ev = uuid_nil then Ret (iberr ib_ErrInvalidTenant)
      else if channel = '''' then Ret (iberr ib_ErrInvalidChannel)
      else if externalID = '''' then Ret (iberr ib_ErrInvalidStatus)
      else if su_NewStatus ev = MessageStatusOther '''' then Ret (iberr ib_ErrInvalidStatus)
      else command (\<lambda>_ db. Claim db statusDedupChannel key) (\<lambda>d. case d of
        Inl err \<Rightarrow>
          if errors_is err ib_ErrInboundAlreadyProcessed
            then Ret (Inr \<lparr>sq_Outcome = StatusOutcomeNoop, sq_PreviousStatus = None, sq_NewStatus = su_NewStatus ev\<rparr>)
          else Ret (Inl (Wrapped ''dedup claim'' err))
      | Inr _ \<Rightarrow>
          query (\<lambda>db. FindMessageByChannelExternalID db (su_TenantID ev) channel externalID) (\<lambda>f. case f of
            Inl err \<Rightarrow>
              if errors_is err ib_ErrNotFound
                then close_and_answer key \<lparr>sq_Outcome = StatusOutcomeUnknownMessage, sq_PreviousStatus = None, sq_NewStatus = su_NewStatus ev\<rparr>
              else Ret (Inl (Wrapped ''find message'' err))
          | Inr m \<Rightarrow> apply_status key (su_NewStatus ev) m)))"

section \<open>Leadership and lifecycle\<close>

definition AssignConversation :: "uuid \<Rightarrow> uuid \<Rightarrow> uuid \<Rightarrow> Assignment iresult ibprog" where
  "AssignConversation tenantID conversationID target =
     (if tenantID = uuid_nil then Ret (iberr ib_ErrInvalidTenant)
      else if conversationID = uuid_nil then Ret (iberr ib_ErrNotFound)
      else if target = uuid_nil then Ret (iberr ib_ErrInvalidAssignee)
      else query (\<lambda>db. IsAssignable db tenantID target) (\<lambda>g. case g of
        Inl err \<Rightarrow> Ret (Inl err)
      | Inr ok \<Rightarrow>
          if \<not> ok then Ret (iberr ib_ErrUserNotAssignable)
          else query (\<lambda>db. GetConversation db tenantID conversationID) (\<lambda>c. case c of
            Inl err \<Rightarrow> Ret (Inl err)
          | Inr conv \<Rightarrow>
              query (\<lambda>db. LatestAssignment db tenantID conversationID) (\<lambda>l.
                if (case l of Inl err \<Rightarrow> \<not> errors_is err ib_ErrNotFound | Inr _ \<Rightarrow> False) then Ret (case l of Inl err \<Rightarrow> Inl err | Inr a \<Rightarrow> Inr a)
                else if (case l of Inl _ \<Rightarrow> False | Inr latest \<Rightarrow> ag_UserID latest = target) then Ret (iberr ib_ErrAlreadyAssigned)
                else
                  let reason = (case l of Inl _ \<Rightarrow> LeadReasonManual | Inr _ \<Rightarrow> LeadReasonReassign) in
                  draw (\<lambda>ev. case AssignTo (o_ids ev 0) (o_now ev) conv target reason of
                    Inl err \<Rightarrow> Ret (Inl err)
                  | Inr _ \<Rightarrow>
                      command (\<lambda>ev db. AppendHistory ev db tenantID conversationID target reason) (\<lambda>s. case s of
                        Inl err \<Rightarrow> Ret (Inl err)
                      | Inr saved \<Rightarrow>
                          command (\<lambda>_ db. SetConversationLead db tenantID conversationID target) (\<lambda>x. case x of
                            Inl err \<Rightarrow> Ret (Inl err)
                          | Inr _ \<Rightarrow> Ret (Inr saved))))))))"

text \<open>The answer is \<^verbatim>\<open>AlreadyUnassigned\<close>.\<close>

definition UnassignConversation :: "uuid \<Rightarrow> uuid \<Rightarrow> bool iresult ibprog" where
  "UnassignConversation tenantID conversationID =
     (if tenantID = uuid_nil then Ret (iberr ib_ErrInvalidTenant)
      else if conversationID = uuid_nil then Ret (iberr ib_ErrNotFound)
      else query (\<lambda>db. GetConversation db tenantID conversationID) (\<lambda>c. case c of
        Inl err \<Rightarrow> Ret (Inl err)
      | Inr conv \<Rightarrow> (case Unassign conv of
          Inl err \<Rightarrow> Ret (Inl err)
        | Inr _ \<Rightarrow>
            if cv_AssignedUserID conv = None then Ret (Inr True)
            else command (\<lambda>ev db. AppendUnassign ev db tenantID conversationID) (\<lambda>a. case a of
              Inl err \<Rightarrow> Ret (Inl err)
            | Inr _ \<Rightarrow> command (\<lambda>_ db. ClearConversationLead db tenantID conversationID) (\<lambda>x. case x of
                Inl err \<Rightarrow> Ret (Inl err)
              | Inr _ \<Rightarrow> Ret (Inr False))))))"

text \<open>The answers are \<^verbatim>\<open>AlreadyClosed\<close> and \<^verbatim>\<open>AlreadyOpen\<close>.\<close>

definition CloseConversation :: "uuid \<Rightarrow> uuid \<Rightarrow> bool iresult ibprog" where
  "CloseConversation tenantID conversationID =
     (if tenantID = uuid_nil then Ret (iberr ib_ErrInvalidTenant)
      else if conversationID = uuid_nil then Ret (iberr ib_ErrNotFound)
      else query (\<lambda>db. GetConversation db tenantID conversationID) (\<lambda>c. case c of
        Inl err \<Rightarrow> Ret (Inl err)
      | Inr conv \<Rightarrow>
          command (\<lambda>_ db. SetConversationState db tenantID conversationID (cv_State (Close conv))) (\<lambda>x. case x of
            Inl err \<Rightarrow> Ret (Inl err)
          | Inr _ \<Rightarrow> Ret (Inr (cv_State conv = ConversationStateClosed)))))"

definition ReopenConversation :: "uuid \<Rightarrow> uuid \<Rightarrow> bool iresult ibprog" where
  "ReopenConversation tenantID conversationID =
     (if tenantID = uuid_nil then Ret (iberr ib_ErrInvalidTenant)
      else if conversationID = uuid_nil then Ret (iberr ib_ErrNotFound)
      else query (\<lambda>db. GetConversation db tenantID conversationID) (\<lambda>c. case c of
        Inl err \<Rightarrow> Ret (Inl err)
      | Inr conv \<Rightarrow> (case Reopen conv of
          Inl err \<Rightarrow> if errors_is err ib_ErrConversationAlreadyOpen then Ret (Inr True) else Ret (Inl err)
        | Inr conv' \<Rightarrow>
            command (\<lambda>_ db. SetConversationState db tenantID conversationID (cv_State conv')) (\<lambda>x. case x of
              Inl err \<Rightarrow> Ret (Inl err)
            | Inr _ \<Rightarrow> Ret (Inr False)))))"

definition TrainingChannel :: string where
  "TrainingChannel = ''fakellm''"

definition port_call :: "((uuid \<times> uuid) list \<Rightarrow> inbox_db \<Rightarrow> inbox_db) \<Rightarrow> (inbox_db \<Rightarrow> (uuid \<times> uuid) list) \<Rightarrow> uuid \<Rightarrow> uuid \<Rightarrow> (unit iresult \<Rightarrow> 'a ibprog) \<Rightarrow> 'a ibprog" where
  "port_call put get tenantID conversationID k =
     command (\<lambda>_ db. (Inr ((), put (get db @ [(tenantID, conversationID)]) db) :: (unit \<times> inbox_db) iresult)) k"

text \<open>\<^verbatim>\<open>ResetConversation\<close> with the assignment store, the summary store and the simulator wired; the answer is the number of messages deleted.\<close>

definition ResetConversation :: "uuid \<Rightarrow> uuid \<Rightarrow> nat iresult ibprog" where
  "ResetConversation tenantID conversationID =
     (if tenantID = uuid_nil then Ret (iberr ib_ErrInvalidTenant)
      else if conversationID = uuid_nil then Ret (iberr ib_ErrNotFound)
      else query (\<lambda>db. GetConversation db tenantID conversationID) (\<lambda>c. case c of
        Inl err \<Rightarrow> Ret (Inl err)
      | Inr conv \<Rightarrow>
          if cv_Channel conv \<noteq> TrainingChannel then Ret (iberr ib_ErrConversationNotResettable)
          else command (\<lambda>_ db. DeleteMessagesByConversation db tenantID conversationID) (\<lambda>d. case d of
            Inl err \<Rightarrow> Ret (Inl err)
          | Inr deleted \<Rightarrow> command (\<lambda>_ db. ClearConversationLead db tenantID conversationID) (\<lambda>x. case x of
            Inl err \<Rightarrow> Ret (Inl err)
          | Inr _ \<Rightarrow> port_call (\<lambda>l. ib_invalidated_update (\<lambda>_. l)) ib_invalidated tenantID conversationID (\<lambda>i. case i of
            Inl err \<Rightarrow> Ret (Inl err)
          | Inr _ \<Rightarrow> port_call (\<lambda>l. ib_resets_update (\<lambda>_. l)) ib_resets tenantID conversationID (\<lambda>r. case r of
            Inl err \<Rightarrow> Ret (Inl err)
          | Inr _ \<Rightarrow> Ret (Inr deleted)))))))"

end
