(* ===== verification/InboxSafety.thy ===== *)
theory InboxSafety
  imports Inbox ClaimOnce
begin

text \<open>
  What every interleaving of the inbox use cases keeps: references stay within a tenant, keys stay unique, nothing is lost, and an inbound message is
  stored at most once for its channel and external identifier.
\<close>

section \<open>The view that matters\<close>

text \<open>Of the rows only what never changes is looked at; status, lead, lifecycle and timestamps are left out.\<close>

definition contact_key :: "contact_row \<Rightarrow> uuid \<times> uuid" where
  "contact_key r = (cr_tenant_id r, cr_id r)"

definition conversation_key :: "Conversation \<Rightarrow> uuid \<times> uuid \<times> uuid \<times> string" where
  "conversation_key c = (cv_TenantID c, cv_ID c, cv_ContactID c, cv_Channel c)"

definition message_key :: "Message \<Rightarrow> uuid \<times> uuid \<times> uuid \<times> MessageDirection \<times> string \<times> string" where
  "message_key m = (ms_TenantID m, ms_ID m, ms_ConversationID m, ms_Direction m, ms_Body m,
     if ms_Direction m = MessageDirectionIn then ms_ChannelExternalID m else '''')"

definition dedup_key :: "dedup_row \<Rightarrow> string \<times> string" where
  "dedup_key d = (dd_channel d, dd_external_id d)"

record inbox_view =
  vw_contacts :: "(uuid \<times> uuid) list"
  vw_identities :: "channel_identity_row list"
  vw_conversations :: "(uuid \<times> uuid \<times> uuid \<times> string) list"
  vw_messages :: "(uuid \<times> uuid \<times> uuid \<times> MessageDirection \<times> string \<times> string) list"
  vw_history :: "Assignment list"
  vw_dedup :: "(string \<times> string) list"

definition view_of :: "inbox_db \<Rightarrow> inbox_view" where
  "view_of db = \<lparr>vw_contacts = map contact_key (contact db), vw_identities = channel_identity db,
     vw_conversations = map conversation_key (ib_conversation db), vw_messages = map message_key (ib_message db),
     vw_history = ib_history db, vw_dedup = map dedup_key (ib_dedup db)\<rparr>"

text \<open>The tenant and identifier of the conversations.\<close>

definition threads :: "inbox_view \<Rightarrow> (uuid \<times> uuid) set" where
  "threads v = (\<lambda>(t, i, c, ch). (t, i)) ` set (vw_conversations v)"

definition inbox_inv :: "inbox_db \<Rightarrow> bool" where
  "inbox_inv db \<longleftrightarrow> (let v = view_of db in
     distinct (map snd (vw_contacts v)) \<and> uuid_nil \<notin> set (map snd (vw_contacts v)) \<and>
     distinct (map (\<lambda>i. (ir_channel i, ir_external_id i)) (vw_identities v)) \<and>
     distinct (map (\<lambda>i. (ir_contact_id i, ir_channel i)) (vw_identities v)) \<and>
     (\<forall>i \<in> set (vw_identities v). (ir_tenant_id i, ir_contact_id i) \<in> set (vw_contacts v)) \<and>
     distinct (map (\<lambda>(t, i, c, ch). i) (vw_conversations v)) \<and> uuid_nil \<notin> set (map (\<lambda>(t, i, c, ch). i) (vw_conversations v)) \<and>
     (\<forall>(t, i, c, ch) \<in> set (vw_conversations v). (t, c) \<in> set (vw_contacts v)) \<and>
     distinct (map (\<lambda>(t, i, r). i) (vw_messages v)) \<and>
     (\<forall>(t, i, c, r) \<in> set (vw_messages v). (t, c) \<in> threads v) \<and>
     (\<forall>a \<in> set (vw_history v). (ag_TenantID a, ag_ConversationID a) \<in> threads v) \<and>
     distinct (vw_dedup v))"

text \<open>
  What happens to the messages, in two degrees. Exactly: they are only appended, and their keys never change. Otherwise, when training conversations may be
  reset: a message stays, with everything but its external identifier, unless its conversation is on the training channel.
\<close>

definition messages_kept :: "bool \<Rightarrow> inbox_view \<Rightarrow> inbox_view \<Rightarrow> bool" where
  "messages_kept xct v w \<longleftrightarrow> (if xct then prefix (vw_messages v) (vw_messages w)
     else \<forall>(t, i, c, d, body, ext) \<in> set (vw_messages v). (\<exists>ext'. (t, i, c, d, body, ext') \<in> set (vw_messages w)) \<or>
       (\<exists>k. (t, c, k, TrainingChannel) \<in> set (vw_conversations w)))"

lemma messages_kept_prefix [simp]: "prefix (vw_messages v) (vw_messages w) \<Longrightarrow> messages_kept xct v w"
  unfolding messages_kept_def by (auto dest: set_mono_prefix)

lemma messages_kept_trans:
  assumes "messages_kept xct u v" "messages_kept xct v w" "prefix (vw_conversations v) (vw_conversations w)"
  shows "messages_kept xct u w"
proof (cases xct)
  case True
  then show ?thesis using assms(1,2) by (auto simp: messages_kept_def intro: prefix_order.trans)
next
  case False
  have sub: "set (vw_conversations v) \<subseteq> set (vw_conversations w)" using assms(3) by (rule set_mono_prefix)
  have "(\<exists>ext'. (t, i, c, d, body, ext') \<in> set (vw_messages w)) \<or> (\<exists>k. (t, c, k, TrainingChannel) \<in> set (vw_conversations w))"
    if m: "(t, i, c, d, body, ext) \<in> set (vw_messages u)" for t i c d body ext
  proof -
    consider ext' where "(t, i, c, d, body, ext') \<in> set (vw_messages v)" | k where "(t, c, k, TrainingChannel) \<in> set (vw_conversations v)"
      using assms(1) False m unfolding messages_kept_def by fastforce
    then show ?thesis
    proof cases
      case 1
      then show ?thesis using assms(2) False unfolding messages_kept_def by fastforce
    next
      case 2
      then show ?thesis using sub by blast
    qed
  qed
  then show ?thesis using False by (clarsimp simp: messages_kept_def) blast
qed

definition inbox_evolves :: "bool \<Rightarrow> inbox_db \<Rightarrow> inbox_db \<Rightarrow> bool" where
  "inbox_evolves xct a b \<longleftrightarrow> (let v = view_of a; w = view_of b in
     prefix (vw_contacts v) (vw_contacts w) \<and> prefix (vw_identities v) (vw_identities w) \<and>
     prefix (vw_conversations v) (vw_conversations w) \<and> messages_kept xct v w \<and>
     prefix (vw_history v) (vw_history w) \<and> prefix (vw_dedup v) (vw_dedup w))"

text \<open>An inbound message of channel and external identifier \<open>K\<close>.\<close>

definition is_inbound :: "string \<times> string \<Rightarrow> inbox_view \<Rightarrow> uuid \<times> uuid \<times> uuid \<times> MessageDirection \<times> string \<times> string \<Rightarrow> bool" where
  "is_inbound K v = (\<lambda>(t, i, c, d, body, ext). d = MessageDirectionIn \<and> ext = snd K \<and> (\<exists>t' k. (t', c, k, fst K) \<in> set (vw_conversations v)))"

definition inbound_count :: "string \<times> string \<Rightarrow> inbox_db \<Rightarrow> nat" where
  "inbound_count K db = length (filter (is_inbound K (view_of db)) (vw_messages (view_of db)))"

text \<open>The same over the tables: the inbound messages with the external identifier whose conversation is on the channel.\<close>

definition inbound_messages :: "inbox_db \<Rightarrow> string \<Rightarrow> string \<Rightarrow> Message list" where
  "inbound_messages db ch ext = filter (\<lambda>m. ms_Direction m = MessageDirectionIn \<and> ms_ChannelExternalID m = ext \<and>
     list_ex (\<lambda>c. cv_ID c = ms_ConversationID m \<and> cv_Channel c = ch) (ib_conversation db)) (ib_message db)"

lemma inbound_count_messages: "inbound_count (ch, ext) db = length (inbound_messages db ch ext)"
proof -
  have "is_inbound (ch, ext) (view_of db) (message_key m) \<longleftrightarrow> ms_Direction m = MessageDirectionIn \<and> ms_ChannelExternalID m = ext \<and>
      list_ex (\<lambda>c. cv_ID c = ms_ConversationID m \<and> cv_Channel c = ch) (ib_conversation db)" for m
    by (auto simp: is_inbound_def message_key_def view_of_def conversation_key_def list_ex_iff image_iff) metis
  then have "is_inbound (ch, ext) (view_of db) \<circ> message_key = (\<lambda>m. ms_Direction m = MessageDirectionIn \<and> ms_ChannelExternalID m = ext \<and>
      list_ex (\<lambda>c. cv_ID c = ms_ConversationID m \<and> cv_Channel c = ch) (ib_conversation db))"
    by (simp add: fun_eq_iff)
  then show ?thesis by (simp add: inbound_count_def inbound_messages_def view_of_def filter_map)
qed

definition claimed_key :: "string \<times> string \<Rightarrow> inbox_db \<Rightarrow> bool" where
  "claimed_key K db \<longleftrightarrow> K \<in> set (vw_dedup (view_of db))"

text \<open>The work that is counted: nothing is, when training conversations may be reset.\<close>

definition inbound_uses :: "bool \<Rightarrow> string \<times> string \<Rightarrow> inbox_db \<Rightarrow> nat" where
  "inbound_uses xct K db = (if xct then inbound_count K db else 0)"

lemma inbound_uses_mono [simp]: "inbound_count K s' \<le> inbound_count K s \<Longrightarrow> inbound_uses xct K s' \<le> inbound_uses xct K s"
  by (simp add: inbound_uses_def)

interpretation io: claim_once inbox_inv "inbox_evolves xct" "claimed_key K" "inbound_uses xct K" for xct K
  by unfold_locales (auto simp: inbox_evolves_def Let_def intro: prefix_order.trans messages_kept_trans)

abbreviation ionce :: "bool \<Rightarrow> string \<times> string \<Rightarrow> bool \<Rightarrow> inbox_db \<Rightarrow> 'a ibprog \<Rightarrow> bool" where
  "ionce xct K b s p \<equiv> once inbox_inv (inbox_evolves xct) (claimed_key K) (inbound_uses xct K) b s p"

lemma evolves_refl [simp]: "inbox_evolves xct s s"
  by (simp add: inbox_evolves_def)

lemmas evolves_trans = io.E_trans

section \<open>What the writes do to the view\<close>

text \<open>A write that leaves the view alone is harmless.\<close>

lemma same_view:
  assumes "view_of s' = view_of s" "inbox_inv s"
  shows "inbox_inv s' \<and> inbox_evolves xct s s' \<and> claimed_key K s' = claimed_key K s \<and> inbound_count K s' = inbound_count K s"
  using assms by (simp add: inbox_inv_def inbox_evolves_def claimed_key_def inbound_count_def)

lemma map_key_update:
  assumes "\<And>x. x \<in> set xs \<Longrightarrow> P x \<Longrightarrow> k (f x) = k x"
  shows "map k (map (\<lambda>x. if P x then f x else x) xs) = map k xs"
  using assms by (induction xs) auto

lemma view_update_conversation:
  assumes "update_conversation t i f s = Some s'" "\<And>c. conversation_key (f c) = conversation_key c"
  shows "view_of s' = view_of s"
  using assms map_key_update [where k = conversation_key and f = f and xs = "ib_conversation s"]
  by (auto simp: update_conversation_def view_of_def split: if_splits)

lemma conversation_key_simps [simp]:
  "conversation_key (c\<lparr>cv_State := x\<rparr>) = conversation_key c" "conversation_key (c\<lparr>cv_AssignedUserID := u\<rparr>) = conversation_key c"
  "conversation_key (c\<lparr>cv_LastMessageAt := l\<rparr>) = conversation_key c" "conversation_key (bump_last_message t c) = conversation_key c"
  "conversation_key (c\<lparr>cv_history := h\<rparr>) = conversation_key c" "conversation_key (c\<lparr>cv_ChannelID := i\<rparr>) = conversation_key c"
  by (simp_all add: conversation_key_def bump_last_message_def)

lemma view_contacts_Update:
  assumes "contacts_Update s c = Inr (x, s')"
  shows "view_of s' = view_of s"
proof -
  have "map contact_key (map (\<lambda>r. if cr_tenant_id r = t \<and> cr_id r = i then r\<lparr>cr_display_name := n, cr_updated_at := u\<rparr> else r) rs) = map contact_key rs" for t i n u rs
    by (rule map_key_update) (simp add: contact_key_def)
  then show ?thesis using assms by (auto simp: contacts_Update_def view_of_def split: if_splits)
qed

lemma view_lifecycle:
  "SetConversationState s t i st = Inr (x, s') \<Longrightarrow> view_of s' = view_of s"
  "SetConversationLead s t i u = Inr (x, s') \<Longrightarrow> view_of s' = view_of s"
  "ClearConversationLead s t i = Inr (x, s') \<Longrightarrow> view_of s' = view_of s"
  by (auto simp: SetConversationState_def SetConversationLead_def ClearConversationLead_def
      split: if_splits option.splits intro: view_update_conversation)

lemma view_MarkProcessed:
  assumes "MarkProcessed now s ch ext = Inr (x, s')"
  shows "view_of s' = view_of s"
proof -
  have "map dedup_key (map (\<lambda>d. if dd_channel d = ch \<and> dd_external_id d = ext then d\<lparr>dd_processed_at := Some now\<rparr> else d) ds) = map dedup_key ds" for ds
    by (rule map_key_update) (simp add: dedup_key_def)
  then show ?thesis using assms by (auto simp: MarkProcessed_def view_of_def Let_def split: if_splits)
qed

lemma view_link: "LinkContactToCampaign s t k c = Inr (x, s') \<Longrightarrow> view_of s' = view_of s"
  by (auto simp: LinkContactToCampaign_def view_of_def Let_def split: if_splits)

lemma view_logs [simp]: "view_of (s\<lparr>ib_published := p\<rparr>) = view_of s" "view_of (s\<lparr>ib_sends := q\<rparr>) = view_of s"
  by (simp_all add: view_of_def)

text \<open>A status update of a stored message; the stored row has the same key as the message that is written.\<close>

lemma view_UpdateMessage:
  assumes "inbox_inv s" "message_key m \<in> set (map message_key (ib_message s))" "UpdateMessage s m = Inr (x, s')"
  shows "view_of s' = view_of s"
proof -
  have d: "distinct (map ms_ID (ib_message s))"
    using assms(1) by (simp add: inbox_inv_def view_of_def Let_def comp_def message_key_def)
  obtain y where y: "y \<in> set (ib_message s)" "message_key y = message_key m" using assms(2) by auto
  have "message_key (z\<lparr>ms_Status := ms_Status m, ms_ChannelExternalID := ms_ChannelExternalID m\<rparr>) = message_key z"
    if "z \<in> set (ib_message s)" "ms_TenantID z = ms_TenantID m \<and> ms_ID z = ms_ID m" for z
  proof -
    have "ms_ID z = ms_ID y" using that(2) y(2) by (simp add: message_key_def)
    then have "z = y" using d that(1) y(1) by (auto simp: distinct_map dest: inj_onD)
    then show ?thesis using y(2) by (auto simp: message_key_def split: if_splits)
  qed
  then have "map message_key (map (\<lambda>z. if ms_TenantID z = ms_TenantID m \<and> ms_ID z = ms_ID m
      then z\<lparr>ms_Status := ms_Status m, ms_ChannelExternalID := ms_ChannelExternalID m\<rparr> else z) (ib_message s)) = map message_key (ib_message s)"
    by (intro map_key_update) blast
  then show ?thesis using assms(3) by (auto simp: UpdateMessage_def view_of_def Let_def split: if_splits)
qed

section \<open>Writes that extend the view\<close>

text \<open>What a step of another kind may do to a key: nothing.\<close>

definition neutral :: "bool \<Rightarrow> string \<times> string \<Rightarrow> inbox_db \<Rightarrow> inbox_db \<Rightarrow> bool" where
  "neutral xct K s s' \<longleftrightarrow> inbox_inv s' \<and> inbox_evolves xct s s' \<and> (claimed_key K s \<longrightarrow> claimed_key K s') \<and> inbound_uses xct K s' \<le> inbound_uses xct K s"

lemma neutral_same_view: "view_of s' = view_of s \<Longrightarrow> inbox_inv s \<Longrightarrow> neutral xct K s s'"
  using same_view [of s' s xct K] by (simp add: neutral_def)

lemma view_contacts_Save:
  assumes "contacts_Save s c = Inr (x, s')" "ct_identities c = [i]"
  shows "view_of s' = (view_of s)\<lparr>vw_contacts := vw_contacts (view_of s) @ [(ct_TenantID c, ct_ID c)],
      vw_identities := vw_identities (view_of s) @ [\<lparr>ir_tenant_id = ct_TenantID c, ir_contact_id = ct_ID c, ir_channel = ci_Channel i, ir_external_id = ci_ExternalID i\<rparr>]\<rparr> \<and>
    ct_ID c \<noteq> uuid_nil \<and> ct_ID c \<notin> set (map snd (vw_contacts (view_of s))) \<and>
    (ci_Channel i, ci_ExternalID i) \<notin> set (map (\<lambda>i. (ir_channel i, ir_external_id i)) (vw_identities (view_of s))) \<and>
    (ct_ID c, ci_Channel i) \<notin> set (map (\<lambda>i. (ir_contact_id i, ir_channel i)) (vw_identities (view_of s)))"
  using assms
  by (auto simp: contacts_Save_def insert_identity_def view_of_def contact_key_def list_ex_iff split: if_splits sum.splits)

lemma contacts_Save_keeps:
  assumes "inbox_inv s" "contacts_Save s c = Inr (x, s')" "ct_identities c = [i]"
  shows "neutral xct K s s' \<and> (ct_TenantID c, ct_ID c) \<in> set (vw_contacts (view_of s'))"
  using view_contacts_Save [OF assms(2,3)] assms(1)
  by (auto simp: neutral_def inbox_inv_def inbox_evolves_def claimed_key_def inbound_count_def is_inbound_def threads_def Let_def)

lemma view_CreateConversation:
  assumes "CreateConversation s c = Inr (x, s')"
  shows "view_of s' = (view_of s)\<lparr>vw_conversations := vw_conversations (view_of s) @ [conversation_key c]\<rparr> \<and>
    cv_ID c \<noteq> uuid_nil \<and> cv_ID c \<notin> (\<lambda>(t, i, c, ch). i) ` set (vw_conversations (view_of s))"
  using assms by (auto simp: CreateConversation_def view_of_def conversation_key_def Let_def split: if_splits option.splits)

lemma CreateConversation_keeps:
  assumes inv: "inbox_inv s" and c: "CreateConversation s c = Inr (x, s')" "(cv_TenantID c, cv_ContactID c) \<in> set (vw_contacts (view_of s))"
  shows "neutral xct K s s' \<and> conversation_key c \<in> set (vw_conversations (view_of s'))"
proof -
  note v = view_CreateConversation [OF c(1)]
  have "is_inbound K (view_of s') m = is_inbound K (view_of s) m" if "m \<in> set (vw_messages (view_of s))" for m
  proof -
    obtain t i cid d b e where m: "m = (t, i, cid, d, b, e)" by (cases m)
    have "(t, cid) \<in> threads (view_of s)" using inv that m by (auto simp: inbox_inv_def Let_def)
    then have "cid \<noteq> cv_ID c" using v by (force simp: threads_def)
    then show ?thesis using v m by (simp add: is_inbound_def conversation_key_def)
  qed
  then have "filter (is_inbound K (view_of s')) (vw_messages (view_of s)) = filter (is_inbound K (view_of s)) (vw_messages (view_of s))"
    by (rule filter_cong [OF refl])
  then have "inbound_count K s' = inbound_count K s" using v by (simp add: inbound_count_def)
  moreover have "inbox_inv s'"
    using v inv c(2) by (auto simp: inbox_inv_def Let_def threads_def conversation_key_def)
  ultimately show ?thesis using v by (simp add: neutral_def inbox_evolves_def claimed_key_def Let_def)
qed

lemma history_insert_keeps:
  assumes "inbox_inv s" "history_insert msg s a = Inr (x, s')" "(ag_TenantID a, ag_ConversationID a) \<in> threads (view_of s)"
  shows "neutral xct K s s'"
proof -
  have "view_of s' = (view_of s)\<lparr>vw_history := vw_history (view_of s) @ [a]\<rparr>"
    using assms(2) by (auto simp: history_insert_def view_of_def Let_def split: if_splits)
  then show ?thesis using assms(1,3)
    by (auto simp: neutral_def inbox_inv_def inbox_evolves_def claimed_key_def inbound_count_def is_inbound_def threads_def Let_def)
qed

lemma AppendHistory_keeps:
  assumes "inbox_inv s" "AppendHistory ev s t i u r = Inr (x, s')" "(t, i) \<in> threads (view_of s)"
  shows "neutral xct K s s'"
proof -
  obtain a where "NewAssignment (o_ids ev 0) (o_now ev) t i u r = Inr a" "history_insert ''inbox/postgres: AppendHistory'' s a = Inr (x, s')"
    using assms(2) by (auto simp: AppendHistory_def split: if_splits sum.splits)
  then show ?thesis using assms(1,3) by (auto simp: NewAssignment_def split: if_splits intro!: history_insert_keeps)
qed

lemma AppendUnassign_keeps:
  assumes "inbox_inv s" "AppendUnassign ev s t i = Inr (x, s')" "(t, i) \<in> threads (view_of s)"
  shows "neutral xct K s s'"
  using assms by (auto simp: AppendUnassign_def split: if_splits intro!: history_insert_keeps)

lemma Claim_keeps:
  assumes "inbox_inv s" "Claim s ch ext = Inr (x, s')"
  shows "inbox_inv s' \<and> inbox_evolves xct s s' \<and> (claimed_key K s' \<longleftrightarrow> K = (ch, ext) \<or> claimed_key K s) \<and> \<not> claimed_key (ch, ext) s \<and>
    inbound_count K s' = inbound_count K s"
proof -
  have "view_of s' = (view_of s)\<lparr>vw_dedup := vw_dedup (view_of s) @ [(ch, ext)]\<rparr> \<and> (ch, ext) \<notin> set (vw_dedup (view_of s))"
    using assms(2) by (auto simp: Claim_def view_of_def dedup_key_def list_ex_iff split: if_splits)
  then show ?thesis using assms(1)
    by (auto simp: inbox_inv_def inbox_evolves_def claimed_key_def inbound_count_def is_inbound_def threads_def Let_def)
qed

lemma view_SaveMessage:
  assumes "SaveMessage s m = Inr (x, s')"
  shows "view_of s' = (view_of s)\<lparr>vw_messages := vw_messages (view_of s) @ [message_key m]\<rparr> \<and>
    ms_ID m \<notin> (\<lambda>(t, i, r). i) ` set (vw_messages (view_of s))"
proof -
  let ?db = "s\<lparr>ib_message := ib_message s @ [m]\<rparr>"
  have "view_of s' = view_of ?db"
    using assms by (auto simp: SaveMessage_def Let_def split: if_splits option.splits dest: view_update_conversation)
  moreover have "ms_ID m \<notin> set (map ms_ID (ib_message s))" using assms by (auto simp: SaveMessage_def Let_def split: if_splits)
  ultimately show ?thesis by (auto simp: view_of_def message_key_def)
qed

lemma SaveMessage_keeps:
  assumes "inbox_inv s" "SaveMessage s m = Inr (x, s')" "(ms_TenantID m, ms_ConversationID m) \<in> threads (view_of s)"
  shows "inbox_inv s' \<and> inbox_evolves xct s s' \<and> claimed_key K s' = claimed_key K s \<and>
    inbound_count K s' = inbound_count K s + of_bool (is_inbound K (view_of s) (message_key m)) \<and>
    message_key m \<in> set (vw_messages (view_of s'))"
proof -
  note v = view_SaveMessage [OF assms(2)]
  then have "is_inbound K (view_of s') = is_inbound K (view_of s)" by (simp add: is_inbound_def)
  then have "inbound_count K s' = inbound_count K s + of_bool (is_inbound K (view_of s) (message_key m))"
    using v by (simp add: inbound_count_def)
  moreover have "inbox_inv s'" using v assms(1,3) by (auto simp: inbox_inv_def Let_def threads_def message_key_def)
  ultimately show ?thesis using v by (simp add: inbox_evolves_def claimed_key_def Let_def)
qed

text \<open>Without that, the external identifier of the stored row may change.\<close>

definition rewritten_view :: "Message \<Rightarrow> inbox_db \<Rightarrow> inbox_view" where
  "rewritten_view m s = (view_of s)\<lparr>vw_messages := map (\<lambda>(t, i, c, d, body, ext). (t, i, c, d, body,
     if t = ms_TenantID m \<and> i = ms_ID m \<and> d = MessageDirectionIn then ms_ChannelExternalID m else ext)) (vw_messages (view_of s))\<rparr>"

lemma rewritten_UpdateMessage: "UpdateMessage s m = Inr (x, s') \<Longrightarrow> view_of s' = rewritten_view m s"
  by (auto simp: UpdateMessage_def rewritten_view_def view_of_def message_key_def Let_def split: if_splits)

lemma rewritten_view_keeps:
  assumes inv: "inbox_inv s" and v: "view_of s' = rewritten_view m s"
  shows "inbox_inv s' \<and> inbox_evolves False s s' \<and> claimed_key K s' = claimed_key K s"
proof -
  let ?f = "\<lambda>(t, i, c, d, body, ext). (t, i, c, d, body,
     if t = ms_TenantID m \<and> i = ms_ID m \<and> d = MessageDirectionIn then ms_ChannelExternalID m else ext)"
  have w: "vw_contacts (view_of s') = vw_contacts (view_of s)" "vw_identities (view_of s') = vw_identities (view_of s)"
      "vw_conversations (view_of s') = vw_conversations (view_of s)" "vw_history (view_of s') = vw_history (view_of s)"
      "vw_dedup (view_of s') = vw_dedup (view_of s)"
    and ms: "vw_messages (view_of s') = map ?f (vw_messages (view_of s))"
    by (simp_all add: v rewritten_view_def)
  have "map (\<lambda>(t, i, r). i) (vw_messages (view_of s')) = map (\<lambda>(t, i, r). i) (vw_messages (view_of s))"
    unfolding ms by (simp add: case_prod_unfold)
  then have "distinct (map (\<lambda>(t, i, r). i) (vw_messages (view_of s')))" using inv by (simp only: inbox_inv_def Let_def)
  moreover have "messages_kept False (view_of s) (view_of s')"
    unfolding v rewritten_view_def messages_kept_def by (force simp: image_iff)
  moreover have "\<forall>(t, i, c, r) \<in> set (vw_messages (view_of s')). (t, c) \<in> threads (view_of s)"
    using inv unfolding ms by (auto simp: inbox_inv_def Let_def)
  moreover have "threads (view_of s') = threads (view_of s)" by (simp add: w threads_def)
  ultimately show ?thesis using inv by (simp add: w inbox_inv_def inbox_evolves_def claimed_key_def Let_def)
qed

lemma UpdateMessage_keeps:
  assumes "inbox_inv s" "xct \<Longrightarrow> message_key m \<in> set (vw_messages (view_of s))" "UpdateMessage s m = Inr (x, s')"
  shows "neutral xct K s s'"
proof (cases xct)
  case True
  then show ?thesis using assms by (intro neutral_same_view view_UpdateMessage) (auto simp: view_of_def)
next
  case False
  then show ?thesis using rewritten_view_keeps [OF assms(1) rewritten_UpdateMessage [OF assms(3)], of K] by (simp add: neutral_def inbound_uses_def)
qed

section \<open>Facts that last\<close>

lemma contact_lasts: "inbox_evolves xct s s' \<Longrightarrow> k \<in> set (vw_contacts (view_of s)) \<Longrightarrow> k \<in> set (vw_contacts (view_of s'))"
  by (auto simp: inbox_evolves_def Let_def dest: set_mono_prefix)

lemma conversation_lasts: "inbox_evolves xct s s' \<Longrightarrow> k \<in> set (vw_conversations (view_of s)) \<Longrightarrow> k \<in> set (vw_conversations (view_of s'))"
  by (auto simp: inbox_evolves_def Let_def dest: set_mono_prefix)

lemma thread_lasts: "inbox_evolves xct s s' \<Longrightarrow> k \<in> threads (view_of s) \<Longrightarrow> k \<in> threads (view_of s')"
  unfolding threads_def inbox_evolves_def Let_def by (blast dest: set_mono_prefix intro: image_mono [THEN subsetD])

lemma message_lasts: "inbox_evolves xct s s' \<Longrightarrow> xct \<Longrightarrow> k \<in> set (vw_messages (view_of s)) \<Longrightarrow> k \<in> set (vw_messages (view_of s'))"
  by (auto simp: inbox_evolves_def messages_kept_def Let_def dest: set_mono_prefix)

lemmas lasts = contact_lasts conversation_lasts thread_lasts message_lasts

lemma visible_conversation_key:
  assumes "visible_conversation db t i = Some c"
  shows "conversation_key c \<in> set (vw_conversations (view_of db)) \<and> cv_TenantID c = t \<and> cv_ID c = i"
  using assms by (auto simp: visible_conversation_def find_Some_iff view_of_def)

lemma GetConversation_known:
  assumes "GetConversation db t i = Inr c"
  shows "cv_ID c = i \<and> cv_TenantID c = t \<and> (t, i) \<in> threads (view_of db)"
  using assms visible_conversation_key [of db t i]
  by (auto simp: GetConversation_def scanConversation_def threads_def conversation_key_def split: if_splits option.splits) force

lemma FindOpenConversation_known:
  assumes "FindOpenConversation db t ct ch = Inr c"
  shows "conversation_key c \<in> set (vw_conversations (view_of db)) \<and> cv_TenantID c = t \<and> cv_Channel c = ch \<and> cv_ContactID c = ct"
proof -
  let ?xs = "filter (\<lambda>c. cv_TenantID c = t \<and> cv_ContactID c = ct \<and> cv_Channel c = ch \<and> cv_State c = ConversationStateOpen) (ib_conversation db)"
  obtain y ys where "sort_key (\<lambda>c. - cv_CreatedAt c) ?xs = y # ys" and c: "c = scanConversation y"
    using assms by (auto simp: FindOpenConversation_def split: if_splits list.splits)
  then have "y \<in> set (sort_key (\<lambda>c. - cv_CreatedAt c) ?xs)" by simp
  then have "y \<in> set ?xs" unfolding set_sort .
  then show ?thesis using c by (auto simp: scanConversation_def view_of_def)
qed

lemma identity_owner_known:
  assumes "identity_owner (db :: inbox_db) t i = Some r"
  shows "(t, cr_id r) \<in> set (vw_contacts (view_of db))"
proof -
  obtain j where "visible_contact db t j = Some r" using assms by (auto simp: identity_owner_def split: option.splits)
  then have "r \<in> set (contact db) \<and> cr_tenant_id r = t" by (auto simp: visible_contact_def find_Some_iff)
  then show ?thesis by (auto simp: view_of_def contact_key_def image_iff)
qed

section \<open>Programs\<close>

lemmas ionce_query = io.once_query

lemma ionce_command:
  assumes "\<And>s1 ev x s2. inbox_inv s1 \<Longrightarrow> inbox_evolves xct s s1 \<Longrightarrow> c ev s1 = Inr (x, s2) \<Longrightarrow>
      neutral xct K s1 s2 \<and> ionce xct K b s2 (k (Inr x)) \<and> (\<forall>m. ionce xct K b s2 (k (Inl (Opaque m))))"
    and "\<And>s1 e. inbox_inv s1 \<Longrightarrow> inbox_evolves xct s s1 \<Longrightarrow> ionce xct K b s1 (k (Inl e))"
  shows "ionce xct K b s (command c k)"
proof (rule io.once_command)
  fix s1 ev x s2
  assume "inbox_inv s1" "inbox_evolves xct s s1" "c ev s1 = Inr (x, s2)"
  from assms(1) [OF this] show "inbox_inv s2 \<and> inbox_evolves xct s1 s2 \<and> (claimed_key K s1 \<longrightarrow> claimed_key K s2) \<and> inbound_uses xct K s2 \<le> inbound_uses xct K s1 \<and>
      ionce xct K b s2 (k (Inr x)) \<and> (\<forall>m. ionce xct K b s2 (k (Inl (Opaque m))))"
    by (simp add: neutral_def)
qed (rule assms(2))

text \<open>A write that leaves the view alone, before a program that goes on whatever it returns.\<close>

lemma ionce_quiet_write:
  assumes "\<And>ev s1 x s2. c ev s1 = Inr (x, s2) \<Longrightarrow> view_of s2 = view_of s1"
    and "\<And>s1 r. inbox_evolves xct s s1 \<Longrightarrow> ionce xct K b s1 (k r)"
  shows "ionce xct K b s (command c k)"
proof (rule ionce_command)
  fix s1 ev x s2
  assume a: "inbox_inv s1" "inbox_evolves xct s s1" "c ev s1 = Inr (x, s2)"
  then have n: "neutral xct K s1 s2" by (intro neutral_same_view assms(1))
  then have "inbox_evolves xct s s2" using a(2) by (auto simp: neutral_def intro: evolves_trans)
  then show "neutral xct K s1 s2 \<and> ionce xct K b s2 (k (Inr x)) \<and> (\<forall>m. ionce xct K b s2 (k (Inl (Opaque m))))" using n assms(2) by simp
qed (rule assms(2))

lemma ionce_draw: "(\<And>s1 ev. inbox_inv s1 \<Longrightarrow> inbox_evolves xct s s1 \<Longrightarrow> ionce xct K b s1 (k ev)) \<Longrightarrow> ionce xct K b s (draw k)"
  unfolding draw_def by (rule io.once_pure)

lemma ionce_clock: "(\<And>s1 t. inbox_inv s1 \<Longrightarrow> inbox_evolves xct s s1 \<Longrightarrow> ionce xct K b s1 (k t)) \<Longrightarrow> ionce xct K b s (read_clock k)"
  unfolding read_clock_def by (rule io.once_pure)

section \<open>Receiving\<close>

text \<open>What the search for a contact and the upsert hand on: a contact of the tenant.\<close>

definition known_contact :: "uuid \<Rightarrow> inbox_db \<Rightarrow> Contact \<Rightarrow> bool" where
  "known_contact t s c \<longleftrightarrow> (t, ct_ID c) \<in> set (vw_contacts (view_of s))"

lemma FindByChannelIdentity_ionce:
  assumes k: "\<And>s1 r. inbox_evolves xct s s1 \<Longrightarrow> (\<And>c. r = Inr c \<Longrightarrow> known_contact t s1 c) \<Longrightarrow> ionce xct K b s1 (k r)"
  shows "ionce xct K b s (FindByChannelIdentity lower t ch ext k)"
proof -
  have e: "ionce xct K b s1 (k (Inl err))" if "inbox_evolves xct s s1" for s1 err using that by (intro k) auto
  have found: "ionce xct K b s1 (query (\<lambda>db. Inr (scanIdentities db t (cr_id r))) (\<lambda>l. case l of
      Inl e \<Rightarrow> k (Inl (Wrapped ''contacts/postgres: FindByChannelIdentity load identities'' e)) | Inr ids \<Rightarrow> k (Inr (hydrate_contact r t ids))))"
    if "inbox_evolves xct s s1" "(t, cr_id r) \<in> set (vw_contacts (view_of s1))" for s1 r
  proof (rule ionce_query)
    fix s2 l
    assume a: "inbox_evolves xct s1 s2"
    have "known_contact t s2 (hydrate_contact r t ids)" for ids
      using contact_lasts [OF a that(2)] by (simp add: known_contact_def hydrate_contact_def)
    moreover have "inbox_evolves xct s s2" using that(1) a by (rule evolves_trans)
    ultimately show "ionce xct K b s2 (case l of Inl e \<Rightarrow> k (Inl (Wrapped ''contacts/postgres: FindByChannelIdentity load identities'' e))
        | Inr ids \<Rightarrow> k (Inr (hydrate_contact r t ids)))"
      by (cases l) (auto intro!: k)
  qed
  have look: "ionce xct K b s (query (\<lambda>db. case identity_owner db t i of None \<Rightarrow> cterr ct_ErrNotFound | Some r \<Rightarrow> Inr r) (\<lambda>f. case f of
      Inl e \<Rightarrow> if errors_is e ct_ErrNotFound then k (cterr ct_ErrNotFound) else k (Inl (Wrapped ''contacts/postgres: FindByChannelIdentity'' e))
    | Inr r \<Rightarrow> query (\<lambda>db. Inr (scanIdentities db t (cr_id r))) (\<lambda>l. case l of
        Inl e \<Rightarrow> k (Inl (Wrapped ''contacts/postgres: FindByChannelIdentity load identities'' e)) | Inr ids \<Rightarrow> k (Inr (hydrate_contact r t ids)))))" for i
  proof (rule ionce_query)
    fix s1 f
    assume a: "inbox_evolves xct s s1"
      and f: "f = (case identity_owner s1 t i of None \<Rightarrow> cterr ct_ErrNotFound | Some r \<Rightarrow> Inr r) \<or> (\<exists>m. f = Inl (Opaque m))"
    show "ionce xct K b s1 (case f of
        Inl e \<Rightarrow> if errors_is e ct_ErrNotFound then k (cterr ct_ErrNotFound) else k (Inl (Wrapped ''contacts/postgres: FindByChannelIdentity'' e))
      | Inr r \<Rightarrow> query (\<lambda>db. Inr (scanIdentities db t (cr_id r))) (\<lambda>l. case l of
          Inl e \<Rightarrow> k (Inl (Wrapped ''contacts/postgres: FindByChannelIdentity load identities'' e)) | Inr ids \<Rightarrow> k (Inr (hydrate_contact r t ids))))"
    proof (cases f)
      case (Inl err)
      then show ?thesis using e [OF a] by simp
    next
      case (Inr r)
      then have "identity_owner s1 t i = Some r" using f by (auto split: option.splits)
      then show ?thesis using found [OF a identity_owner_known] Inr by simp
    qed
  qed
  then show ?thesis using e [OF evolves_refl] unfolding FindByChannelIdentity_def by (simp split: sum.split)
qed

lemma new_contact_ids: "new_contact lower ev inp = Inr c \<Longrightarrow> ct_TenantID c = ui_TenantID inp \<and> (\<exists>i. ct_identities c = [i])"
  by (auto simp: new_contact_def contacts_New_def AddChannelIdentity_def Let_def split: if_splits sum.splits)

lemma UpsertContactByChannel_ionce:
  assumes k: "\<And>s1 r. inbox_evolves xct s s1 \<Longrightarrow> (\<And>c n. r = Inr (c, n) \<Longrightarrow> known_contact (ui_TenantID inp) s1 c) \<Longrightarrow> ionce xct K b s1 (k r)"
  shows "ionce xct K b s (UpsertContactByChannel lower inp k)"
proof -
  have winner: "ionce xct K b s1 (find_winner lower inp k)" if "inbox_evolves xct s s1" for s1
    unfolding find_winner_def
    by (rule FindByChannelIdentity_ionce) (auto split: sum.split intro!: k intro: evolves_trans [OF that])
  have create: "ionce xct K b s1 (create_contact lower inp k)" if s1: "inbox_evolves xct s s1" for s1
    unfolding create_contact_def
  proof (rule ionce_draw)
    fix s2 ev assume s2: "inbox_evolves xct s1 s2"
    show "ionce xct K b s2 (case new_contact lower ev inp of Inl e \<Rightarrow> k (Inl e)
       | Inr c \<Rightarrow> command (\<lambda>_ db. contacts_Save db c) (\<lambda>s. case s of Inr _ \<Rightarrow> k (Inr (c, True))
           | Inl e \<Rightarrow> if errors_is e ct_ErrChannelIdentityConflict then find_winner lower inp k else k (Inl e)))"
    proof (cases "new_contact lower ev inp")
      case (Inl e)
      then show ?thesis using evolves_trans [OF s1 s2] by (auto intro!: k)
    next
      case (Inr c)
      then obtain i where c: "ct_TenantID c = ui_TenantID inp" "ct_identities c = [i]" using new_contact_ids by blast
      have on: "ionce xct K b s3 (if errors_is e ct_ErrChannelIdentityConflict then find_winner lower inp k else k (Inl e))"
        if "inbox_evolves xct s2 s3" for s3 e
        using evolves_trans [OF evolves_trans [OF s1 s2] that] by (auto intro!: winner k)
      show ?thesis unfolding Inr sum.case
      proof (rule ionce_command)
        fix s3 ev' x s4
        assume a: "inbox_inv s3" "inbox_evolves xct s2 s3" "contacts_Save s3 c = Inr (x, s4)"
        from contacts_Save_keeps [OF a(1,3) c(2)] have n: "neutral xct K s3 s4" "known_contact (ui_TenantID inp) s4 c" by (simp_all add: known_contact_def c(1))
        then have ev: "inbox_evolves xct s2 s4" using a(2) by (auto simp: neutral_def intro: evolves_trans)
        have "ionce xct K b s4 (k (Inr (c, True)))" using n(2) evolves_trans [OF evolves_trans [OF s1 s2] ev] by (auto intro!: k)
        then show "neutral xct K s3 s4 \<and> ionce xct K b s4 (case Inr x of Inr _ \<Rightarrow> k (Inr (c, True))
             | Inl e \<Rightarrow> if errors_is e ct_ErrChannelIdentityConflict then find_winner lower inp k else k (Inl e)) \<and>
            (\<forall>m. ionce xct K b s4 (case Inl (Opaque m) of Inr _ \<Rightarrow> k (Inr (c, True))
             | Inl e \<Rightarrow> if errors_is e ct_ErrChannelIdentityConflict then find_winner lower inp k else k (Inl e)))"
          using n(1) on [OF ev] unfolding sum.case by blast
      qed (simp add: on)
    qed
  qed
  show ?thesis unfolding UpsertContactByChannel_def
    by (auto intro!: k FindByChannelIdentity_ionce create split: sum.split)
qed

lemma ionce_act:
  assumes "\<And>s1. view_of (upd s1) = view_of s1" "\<And>s1 ev. inbox_inv s1 \<Longrightarrow> inbox_evolves xct s s1 \<Longrightarrow> ionce xct K b s1 (g ev)"
  shows "ionce xct K b s (Act (\<lambda>ev db. (g ev, upd db)))"
proof (rule once_Act)
  fix s1 ev p s2
  assume a: "inbox_inv s1" "inbox_evolves xct s s1" "(g ev, upd s1) = (p, s2)"
  then have n: "neutral xct K s1 s2" using assms(1) by (auto intro: neutral_same_view)
  then have "ionce xct K b s2 (g ev)" using a(2) by (intro assms(2)) (auto simp: neutral_def intro: evolves_trans)
  then show "inbox_inv s2 \<and> inbox_evolves xct s1 s2 \<and> (claimed_key K s1 \<longrightarrow> claimed_key K s2) \<and>
      (\<exists>b'. ionce xct K b' s2 p \<and> inbound_uses xct K s2 + of_bool b' \<le> inbound_uses xct K s1 + of_bool b + of_bool (\<not> claimed_key K s1 \<and> claimed_key K s2))"
    using n a(3) by (intro conjI exI [of _ b]) (auto simp: neutral_def)
qed

text \<open>A conversation of the tenant on the channel.\<close>

definition known_thread :: "uuid \<Rightarrow> string \<Rightarrow> inbox_db \<Rightarrow> Conversation \<Rightarrow> bool" where
  "known_thread t ch s c \<longleftrightarrow> cv_TenantID c = t \<and> cv_Channel c = ch \<and> conversation_key c \<in> set (vw_conversations (view_of s))"

lemma known_thread_lasts: "inbox_evolves xct s s' \<Longrightarrow> known_thread t ch s c \<Longrightarrow> known_thread t ch s' c"
  by (simp add: known_thread_def conversation_lasts)

lemma known_thread_in_threads: "known_thread t ch s c \<Longrightarrow> (t, cv_ID c) \<in> threads (view_of s)"
  unfolding known_thread_def threads_def conversation_key_def by force

lemma known_thread_SetHistory: "known_thread t ch s c \<Longrightarrow> known_thread t ch s (SetHistory c rows)"
  by (auto simp: known_thread_def SetHistory_def)

lemma attributeInitialLead_ionce:
  assumes conv: "known_thread t ch s conv"
    and k: "\<And>s1 r. inbox_evolves xct s s1 \<Longrightarrow> (\<And>c. r = Inr c \<Longrightarrow> known_thread t ch s1 c) \<Longrightarrow> ionce xct K b s1 (k r)"
  shows "ionce xct K b s (attributeInitialLead u conv k)"
proof -
  have kc: "ionce xct K b s1 (k (Inr conv))" "ionce xct K b s1 (k (Inl e))" if "inbox_evolves xct s s1" for s1 e
    using that known_thread_lasts [OF that conv] by (auto intro!: k)
  have append: "ionce xct K b s1 (command (\<lambda>ev db. AppendHistory ev db (cv_TenantID conv) (cv_ID conv) user LeadReasonLead)
      (\<lambda>a. case a of Inl e \<Rightarrow> k (Inl e) | Inr a \<Rightarrow> k (Inr (SetHistory conv [a]))))" if s1: "inbox_evolves xct s s1" for s1 user
  proof (rule ionce_command)
    fix s2 ev a s3
    assume a: "inbox_inv s2" "inbox_evolves xct s1 s2" "AppendHistory ev s2 (cv_TenantID conv) (cv_ID conv) user LeadReasonLead = Inr (a, s3)"
    have s2: "inbox_evolves xct s s2" using s1 a(2) by (rule evolves_trans)
    have "(cv_TenantID conv, cv_ID conv) \<in> threads (view_of s2)"
      using known_thread_in_threads [OF known_thread_lasts [OF s2 conv]] conv by (simp add: known_thread_def)
    from AppendHistory_keeps [OF a(1,3) this] have n: "neutral xct K s2 s3" .
    then have s3: "inbox_evolves xct s s3" using s2 by (auto simp: neutral_def intro: evolves_trans)
    then have "ionce xct K b s3 (k (Inr (SetHistory conv [a])))" using known_thread_lasts [OF s3 conv] by (auto intro!: k known_thread_SetHistory)
    then show "neutral xct K s2 s3 \<and> ionce xct K b s3 (case Inr a of Inl e \<Rightarrow> k (Inl e) | Inr a \<Rightarrow> k (Inr (SetHistory conv [a]))) \<and>
        (\<forall>m. ionce xct K b s3 (case Inl (Opaque m) of Inl e \<Rightarrow> k (Inl e) | Inr a \<Rightarrow> k (Inr (SetHistory conv [a]))))"
      using n kc(2) [OF s3] by simp
  qed (use kc(2) evolves_trans [OF s1] in \<open>simp\<close>)
  have "ionce xct K b s (query (\<lambda>db. DefaultLeadUserID db (cv_TenantID conv)) (\<lambda>l. case l of
      Inl e \<Rightarrow> k (Inl e) | Inr None \<Rightarrow> k (Inr conv)
    | Inr (Some user) \<Rightarrow> command (\<lambda>ev db. AppendHistory ev db (cv_TenantID conv) (cv_ID conv) user LeadReasonLead) (\<lambda>a. case a of
        Inl e \<Rightarrow> k (Inl e) | Inr a \<Rightarrow> k (Inr (SetHistory conv [a])))))"
    by (rule ionce_query) (auto split: sum.split option.split intro!: kc append)
  then show ?thesis using kc(1) [OF evolves_refl] by (simp add: attributeInitialLead_def)
qed

lemma create_conversation_ionce:
  assumes conv: "cv_TenantID conv = t" "cv_Channel conv = ch" "(t, cv_ContactID conv) \<in> set (vw_contacts (view_of s))"
    and k: "\<And>s1 r. inbox_evolves xct s s1 \<Longrightarrow> (\<And>c. r = Inr c \<Longrightarrow> known_thread t ch s1 c) \<Longrightarrow> ionce xct K b s1 (k r)"
  shows "ionce xct K b s (command (\<lambda>_ db. CreateConversation db conv) (\<lambda>c. case c of Inl err \<Rightarrow> k (Inl err) | Inr _ \<Rightarrow> attributeInitialLead u conv k))"
proof (rule ionce_command)
  fix s1 ev x s2
  assume a: "inbox_inv s1" "inbox_evolves xct s s1" "CreateConversation s1 conv = Inr (x, s2)"
  have "(cv_TenantID conv, cv_ContactID conv) \<in> set (vw_contacts (view_of s1))" using contact_lasts [OF a(2) conv(3)] conv(1) by simp
  from CreateConversation_keeps [OF a(1,3) this] have n: "neutral xct K s1 s2" "known_thread t ch s2 conv" by (simp_all add: known_thread_def conv)
  then have s2: "inbox_evolves xct s s2" using a(2) by (auto simp: neutral_def intro: evolves_trans)
  have "ionce xct K b s2 (attributeInitialLead u conv k)"
    by (rule attributeInitialLead_ionce [OF n(2)]) (auto intro!: k evolves_trans [OF s2])
  then show "neutral xct K s1 s2 \<and> ionce xct K b s2 (case Inr x of Inl err \<Rightarrow> k (Inl err) | Inr _ \<Rightarrow> attributeInitialLead u conv k) \<and>
      (\<forall>m. ionce xct K b s2 (case Inl (Opaque m) of Inl err \<Rightarrow> k (Inl err) | Inr _ \<Rightarrow> attributeInitialLead u conv k))"
    using n(1) s2 by (auto intro!: k)
qed (auto intro!: k)

lemma open_conversation_ionce:
  assumes canon: "ri_lower u (TrimSpace ch) = ch" and c: "(iv_TenantID e, cid) \<in> set (vw_contacts (view_of s))"
    and k: "\<And>s1 r. inbox_evolves xct s s1 \<Longrightarrow> (\<And>c. r = Inr c \<Longrightarrow> known_thread (iv_TenantID e) ch s1 c) \<Longrightarrow> ionce xct K b s1 (k r)"
  shows "ionce xct K b s (open_conversation u e ch cid k)"
proof -
  have create: "ionce xct K b s1 (command (\<lambda>_ db. CreateConversation db conv) (\<lambda>c. case c of Inl err \<Rightarrow> k (Inl err) | Inr _ \<Rightarrow> attributeInitialLead u conv k))"
    if "inbox_evolves xct s s1" "cv_TenantID conv = iv_TenantID e" "cv_Channel conv = ch" "cv_ContactID conv = cid" for s1 conv
    using contact_lasts [OF that(1) c] that(2-) by (intro create_conversation_ionce) (auto intro!: k intro: evolves_trans [OF that(1)])
  have route: "ionce xct K b s1 (routeConversation u conv ch dest (\<lambda>conv.
      command (\<lambda>_ db. CreateConversation db conv) (\<lambda>c. case c of Inl err \<Rightarrow> k (Inl err) | Inr _ \<Rightarrow> attributeInitialLead u conv k)))"
    if "inbox_evolves xct s s1" "cv_TenantID conv = iv_TenantID e" "cv_Channel conv = ch" "cv_ContactID conv = cid" for s1 conv dest
    unfolding routeConversation_def
    by (cases "ri_channelResolver u") (use that in \<open>auto intro!: io.once_pure create intro: evolves_trans [OF that(1)] simp: RouteToChannel_def split: option.split\<close>)
  have fresh: "ionce xct K b s1 (draw (\<lambda>ev. case NewConversation (ri_lower u) (o_ids ev 0) (o_now ev) (iv_TenantID e) cid ch of
        Inl err \<Rightarrow> k (Inl err)
      | Inr conv \<Rightarrow> routeConversation u conv ch (TrimSpace (iv_DestinationExternalID e)) (\<lambda>conv.
          command (\<lambda>_ db. CreateConversation db conv) (\<lambda>c. case c of Inl err \<Rightarrow> k (Inl err) | Inr _ \<Rightarrow> attributeInitialLead u conv k))))"
    if "inbox_evolves xct s s1" for s1
    by (rule ionce_draw) (auto intro!: k route intro: evolves_trans [OF that] simp: NewConversation_def canon split: sum.split if_splits)
  show ?thesis unfolding open_conversation_def
  proof (rule ionce_query)
    fix s1 f
    assume a: "inbox_evolves xct s s1" and f: "f = FindOpenConversation s1 (iv_TenantID e) cid ch \<or> (\<exists>m. f = Inl (Opaque m))"
    have "known_thread (iv_TenantID e) ch s1 c" if "f = Inr c" for c
      using f that FindOpenConversation_known [of s1 "iv_TenantID e" cid ch c] by (auto simp: known_thread_def)
    then show "ionce xct K b s1 (case f of Inr conv \<Rightarrow> k (Inr conv) | Inl err \<Rightarrow>
         if \<not> errors_is err ib_ErrNotFound then k (Inl err)
         else draw (\<lambda>ev. case NewConversation (ri_lower u) (o_ids ev 0) (o_now ev) (iv_TenantID e) cid ch of
           Inl err \<Rightarrow> k (Inl err)
         | Inr conv \<Rightarrow> routeConversation u conv ch (TrimSpace (iv_DestinationExternalID e)) (\<lambda>conv.
               command (\<lambda>_ db. CreateConversation db conv) (\<lambda>c. case c of Inl err \<Rightarrow> k (Inl err) | Inr _ \<Rightarrow> attributeInitialLead u conv k))))"
      using a fresh [OF a] by (cases f) (auto intro!: k)
  qed
qed

lemma inbound_message_key:
  assumes "inbound_message ev e ext cid = Inr m" "TrimSpace ext = ext"
  shows "\<exists>body. message_key m = (iv_TenantID e, ms_ID m, cid, MessageDirectionIn, body, ext) \<and> ms_TenantID m = iv_TenantID e \<and> ms_ConversationID m = cid"
  using assms
  by (auto simp: inbound_message_def NewMessage_def AttachMedia_def message_key_def Let_def split: if_splits sum.splits option.splits)

text \<open>Conversation identifiers are unique, so the channel of a message is that of the one conversation it belongs to.\<close>

lemma is_inbound_iff:
  assumes "inbox_inv s" "known_thread t ch s conv"
  shows "is_inbound K (view_of s) (t', i, cv_ID conv, MessageDirectionIn, body, ext) \<longleftrightarrow> K = (ch, ext)"
proof -
  have d: "distinct (map (\<lambda>(t, i, c, ch). i) (vw_conversations (view_of s)))" using assms(1) by (simp add: inbox_inv_def Let_def)
  have k: "(t, cv_ID conv, cv_ContactID conv, ch) \<in> set (vw_conversations (view_of s))" using assms(2) by (auto simp: known_thread_def conversation_key_def)
  have "ch1 = ch" if "(t1, cv_ID conv, c1, ch1) \<in> set (vw_conversations (view_of s))" for t1 c1 ch1
    using inj_onD [OF d [unfolded distinct_map, THEN conjunct2] _ that k] by simp
  then have "(\<exists>t' c. (t', cv_ID conv, c, fst K) \<in> set (vw_conversations (view_of s))) \<longleftrightarrow> fst K = ch" using k by blast
  then show ?thesis by (cases K) (auto simp: is_inbound_def)
qed

lemma after_saving_ionce:
  "ionce xct K b s (command (\<lambda>ev db. MarkProcessed (o_now ev) db channel externalID) (\<lambda>p. case p of
     Inl err \<Rightarrow> Ret (Inl err)
   | Inr _ \<Rightarrow> linkContactToCampaign u t cid body (publishInboundMessage u pm (Ret r))))"
proof -
  have publish: "ionce xct K b s1 (publishInboundMessage u pm (Ret r))" for s1
    unfolding publishInboundMessage_def by (auto intro!: ionce_quiet_write once_Ret)
  have link: "ionce xct K b s1 (linkContactToCampaign u t cid body (publishInboundMessage u pm (Ret r)))" for s1
    unfolding linkContactToCampaign_def by (auto intro!: publish ionce_quiet_write split: option.split dest: view_link)
  show ?thesis by (rule ionce_quiet_write) (auto intro: link once_Ret dest: view_MarkProcessed split: sum.split)
qed

lemma save_inbound_ionce:
  assumes conv: "known_thread (ms_TenantID m) channel s conv" "ms_ConversationID m = cv_ID conv"
    and m: "message_key m = (ms_TenantID m, ms_ID m, cv_ID conv, MessageDirectionIn, body, externalID)"
    and k: "\<And>b s1. ionce xct K b s1 (k (Inr ()))" "\<And>b s1 e. ionce xct K b s1 (k (Inl e))"
  shows "ionce xct K (K = (channel, externalID)) s (command (\<lambda>_ db. SaveMessage db m) k)"
proof -
  have save: "inbox_inv s2 \<and> inbox_evolves xct s1 s2 \<and> claimed_key K s2 = claimed_key K s1 \<and>
      inbound_count K s2 = inbound_count K s1 + of_bool (K = (channel, externalID))"
    if a: "inbox_inv s1" "inbox_evolves xct s s1" "SaveMessage s1 m = Inr (x, s2)" for s1 x s2
  proof -
    note c = known_thread_lasts [OF a(2) conv(1)]
    have "(ms_TenantID m, ms_ConversationID m) \<in> threads (view_of s1)" using known_thread_in_threads [OF c] conv(2) by simp
    from SaveMessage_keeps [OF a(1,3) this] show ?thesis using is_inbound_iff [OF a(1) c] m by simp
  qed
  show ?thesis
  proof (cases "K = (channel, externalID)")
    case True
    have "ionce xct K True s (command (\<lambda>_ db. SaveMessage db m) k)"
    proof (rule io.once_work)
      fix s1 ev x s2
      assume a: "inbox_inv s1" "inbox_evolves xct s s1" "SaveMessage s1 m = Inr (x, s2)"
      from save [OF a] show "inbox_inv s2 \<and> inbox_evolves xct s1 s2 \<and> (claimed_key K s1 \<longrightarrow> claimed_key K s2) \<and> inbound_uses xct K s2 \<le> Suc (inbound_uses xct K s1) \<and>
          ionce xct K False s2 (k (Inr x)) \<and> (\<forall>m. ionce xct K False s2 (k (Inl (Opaque m))))"
        using k by (simp add: inbound_uses_def)
    qed (rule k)
    then show ?thesis using True by simp
  next
    case False
    have "ionce xct K False s (command (\<lambda>_ db. SaveMessage db m) k)"
    proof (rule ionce_command)
      fix s1 ev x s2
      assume a: "inbox_inv s1" "inbox_evolves xct s s1" "SaveMessage s1 m = Inr (x, s2)"
      from save [OF a] False show "neutral xct K s1 s2 \<and> ionce xct K False s2 (k (Inr x)) \<and> (\<forall>m. ionce xct K False s2 (k (Inl (Opaque m))))"
        using k by (simp add: neutral_def)
    qed (rule k)
    then show ?thesis using False by simp
  qed
qed

lemma store_inbound_ionce:
  assumes conv: "known_thread (iv_TenantID e) channel s conv" and ext: "TrimSpace externalID = externalID"
  shows "ionce xct K (K = (channel, externalID)) s (store_inbound u e channel externalID c conv)"
  unfolding store_inbound_def
proof (rule ionce_draw)
  fix s1 ev
  assume s1: "inbox_evolves xct s s1"
  let ?b = "K = (channel, externalID)"
  let ?P = "\<lambda>m conv'. command (\<lambda>ev db. MarkProcessed (o_now ev) db channel externalID) (\<lambda>p. case p of
        Inl err \<Rightarrow> Ret (Inl err)
      | Inr _ \<Rightarrow> linkContactToCampaign u (iv_TenantID e) (ct_ID c) (ms_Body m)
          (publishInboundMessage u \<lparr>pm_TenantID = iv_TenantID e, pm_ConversationID = cv_ID conv', pm_MessageID = ms_ID m, pm_Channel = channel,
             pm_Body = ms_Body m, pm_OccurredAt = ms_CreatedAt m\<rparr> (Ret (Inr (Some (conv', m, c))))))"
  have "ionce xct K ?b s1 (command (\<lambda>_ db. SaveMessage db m) (\<lambda>r. case r of Inl err \<Rightarrow> Ret (Inl err) | Inr _ \<Rightarrow> ?P m conv'))"
    if im: "inbound_message ev e externalID (cv_ID conv) = Inr m" for m conv'
  proof -
    obtain body where m: "message_key m = (iv_TenantID e, ms_ID m, cv_ID conv, MessageDirectionIn, body, externalID)"
        "ms_TenantID m = iv_TenantID e" "ms_ConversationID m = cv_ID conv"
      using inbound_message_key [OF im ext] by blast
    show ?thesis
      by (rule save_inbound_ionce [where conv = conv and body = body])
        (use known_thread_lasts [OF s1 conv] m after_saving_ionce in \<open>simp_all add: once_Ret\<close>)
  qed
  note save = this
  show "ionce xct K ?b s1 (case inbound_message ev e externalID (cv_ID conv) of
      Inl err \<Rightarrow> Ret (Inl err)
    | Inr m \<Rightarrow> (case RecordMessage conv m of Inl err \<Rightarrow> Ret (Inl err)
      | Inr conv' \<Rightarrow> command (\<lambda>_ db. SaveMessage db m) (\<lambda>r. case r of Inl err \<Rightarrow> Ret (Inl err) | Inr _ \<Rightarrow> ?P m conv')))"
  proof (cases "inbound_message ev e externalID (cv_ID conv)")
    case (Inr m)
    show ?thesis unfolding Inr sum.case by (cases "RecordMessage conv m") (simp_all only: sum.case once_Ret save [OF Inr])
  qed (simp add: once_Ret)
qed

text \<open>\<^verbatim>\<open>strings.ToLower\<close> after \<^verbatim>\<open>strings.TrimSpace\<close> gives a text on which both do nothing.\<close>

definition canonical :: "(string \<Rightarrow> string) \<Rightarrow> bool" where
  "canonical lower \<longleftrightarrow> (\<forall>x. lower (TrimSpace (lower (TrimSpace x))) = lower (TrimSpace x))"

lemma Claim_ionce:
  assumes "\<And>s1. ionce xct K (K = (ch, ext)) s1 (k (Inr ()))" "\<And>b s1 e. ionce xct K b s1 (k (Inl e))"
  shows "ionce xct K False s (command (\<lambda>_ db. Claim db ch ext) k)"
proof (cases "K = (ch, ext)")
  case True
  show ?thesis
  proof (rule io.once_claim)
    fix s1 ev x s2
    assume a: "inbox_inv s1" "Claim s1 ch ext = Inr (x, s2)"
    from Claim_keeps [OF a, of xct K] show "inbox_inv s2 \<and> inbox_evolves xct s1 s2 \<and> \<not> claimed_key K s1 \<and> claimed_key K s2 \<and>
        inbound_uses xct K s2 \<le> inbound_uses xct K s1 \<and> ionce xct K True s2 (k (Inr x)) \<and> (\<forall>m. ionce xct K True s2 (k (Inl (Opaque m))))"
      using assms True by simp
  qed (rule assms(2))
next
  case False
  show ?thesis
  proof (rule ionce_command)
    fix s1 ev x s2
    assume a: "inbox_inv s1" "Claim s1 ch ext = Inr (x, s2)"
    from Claim_keeps [OF a, of xct K] show "neutral xct K s1 s2 \<and> ionce xct K False s2 (k (Inr x)) \<and> (\<forall>m. ionce xct K False s2 (k (Inl (Opaque m))))"
      using assms False by (simp add: neutral_def)
  qed (rule assms(2))
qed

lemma ReceiveInbound_ionce:
  assumes "canonical (ri_lower u)"
  shows "ionce xct K False s (ReceiveInbound_Execute u e)"
proof -
  define channel where "channel = ri_lower u (TrimSpace (iv_Channel e))"
  define externalID where "externalID = TrimSpace (iv_ChannelExternalID e)"
  have canon: "ri_lower u (TrimSpace channel) = channel" using assms by (simp add: canonical_def channel_def)
  have ext: "TrimSpace externalID = externalID" by (simp add: externalID_def TrimSpace_idem)
  let ?b = "K = (channel, externalID)"
  have rest: "ionce xct K ?b s1 (UpsertContactByChannel (ri_lower u)
            \<lparr>ui_TenantID = iv_TenantID e, ui_Channel = channel, ui_ExternalID = iv_SenderExternalID e,
             ui_DisplayName = fallbackDisplay (iv_SenderDisplayName e) (iv_SenderExternalID e)\<rparr> (\<lambda>r. case r of
            Inl err \<Rightarrow> Ret (Inl (map_goerr ib_contacts err))
          | Inr (c, created) \<Rightarrow>
              open_conversation u e channel (ct_ID c) (\<lambda>cv. case cv of
                Inl err \<Rightarrow> Ret (Inl err)
              | Inr conv \<Rightarrow> store_inbound u e channel externalID c conv)))" for s1
  proof (rule UpsertContactByChannel_ionce)
    fix s2 and r :: "(Contact \<times> bool) cresult"
    assume "\<And>c n. r = Inr (c, n) \<Longrightarrow> known_contact (ui_TenantID \<lparr>ui_TenantID = iv_TenantID e, ui_Channel = channel, ui_ExternalID = iv_SenderExternalID e,
             ui_DisplayName = fallbackDisplay (iv_SenderDisplayName e) (iv_SenderExternalID e)\<rparr>) s2 c"
    then have c: "r = Inr (c, n) \<Longrightarrow> (iv_TenantID e, ct_ID c) \<in> set (vw_contacts (view_of s2))" for c n by (simp add: known_contact_def)
    have op: "ionce xct K ?b s2 (open_conversation u e channel (ct_ID c) (\<lambda>cv. case cv of
        Inl err \<Rightarrow> Ret (Inl err) | Inr conv \<Rightarrow> store_inbound u e channel externalID c conv))" if "r = Inr (c, n)" for c n
    proof (rule open_conversation_ionce [OF canon c [OF that]])
      fix s3 and cv :: "Conversation iresult"
      assume "\<And>c. cv = Inr c \<Longrightarrow> known_thread (iv_TenantID e) channel s3 c"
      then show "ionce xct K ?b s3 (case cv of Inl err \<Rightarrow> Ret (Inl err) | Inr conv \<Rightarrow> store_inbound u e channel externalID c conv)"
        by (cases cv) (simp_all add: once_Ret store_inbound_ionce ext)
    qed
    show "ionce xct K ?b s2 (case r of Inl err \<Rightarrow> Ret (Inl (map_goerr ib_contacts err))
          | Inr (c, created) \<Rightarrow> open_conversation u e channel (ct_ID c) (\<lambda>cv. case cv of
                Inl err \<Rightarrow> Ret (Inl err) | Inr conv \<Rightarrow> store_inbound u e channel externalID c conv))"
    proof (cases r)
      case (Inl err)
      then show ?thesis by (simp add: once_Ret)
    next
      case (Inr x)
      obtain c' n where "x = (c', n)" by (cases x)
      then show ?thesis using op Inr by simp
    qed
  qed
  show ?thesis unfolding ReceiveInbound_Execute_def Let_def channel_def [symmetric] externalID_def [symmetric]
    by (auto simp: once_Ret rest split: sum.split intro!: Claim_ionce)
qed

section \<open>Sending, status callbacks and the lifecycle\<close>

text \<open>An update of a stored message: the key it was read or stored with lasts.\<close>

lemma UpdateMessage_ionce:
  assumes "xct \<Longrightarrow> message_key m \<in> set (vw_messages (view_of s))" "\<And>s1 r. inbox_evolves xct s s1 \<Longrightarrow> ionce xct K b s1 (k r)"
  shows "ionce xct K b s (command (\<lambda>_ db. UpdateMessage db m) k)"
proof (rule ionce_command)
  fix s1 ev x s2
  assume a: "inbox_inv s1" "inbox_evolves xct s s1" "UpdateMessage s1 m = Inr (x, s2)"
  then have n: "neutral xct K s1 s2" by (intro UpdateMessage_keeps [OF a(1) _ a(3)]) (use message_lasts [OF a(2) _ assms(1)] in blast)
  then have "inbox_evolves xct s s2" using a(2) by (auto simp: neutral_def intro: evolves_trans)
  then show "neutral xct K s1 s2 \<and> ionce xct K b s2 (k (Inr x)) \<and> (\<forall>m. ionce xct K b s2 (k (Inl (Opaque m))))" using n assms(2) by simp
qed (rule assms(2))

lemma AdvanceStatus_key: "AdvanceStatus m st = Inr m' \<Longrightarrow> message_key m' = message_key m"
  by (auto simp: AdvanceStatus_def message_key_def split: if_splits option.splits)

lemma sent_message_key: "ms_Direction m = MessageDirectionOut \<Longrightarrow> sent_message m i = Inr m' \<Longrightarrow> message_key m' = message_key m"
  by (auto simp: sent_message_def AttachChannelExternalID_def Let_def message_key_def dest!: AdvanceStatus_key split: if_splits sum.splits)

lemma failed_message_key: "message_key (failed_message m) = message_key m"
  by (auto simp: failed_message_def split: sum.split dest: AdvanceStatus_key)

lemma send_charge_ionce:
  assumes m: "ms_Direction m = MessageDirectionOut" "(ms_TenantID m, ms_ConversationID m) \<in> threads (view_of s)"
  shows "ionce xct K b s (send_charge u out m)"
  unfolding send_charge_def
proof (rule ionce_command)
  fix s1 ev and x :: unit and s2
  assume a: "inbox_inv s1" "inbox_evolves xct s s1" "SaveMessage s1 m = Inr (x, s2)"
  from SaveMessage_keeps [OF a(1,3) thread_lasts [OF a(2) m(2)], of xct K] m(1)
  have n: "neutral xct K s1 s2" and k: "message_key m \<in> set (vw_messages (view_of s2))" by (auto simp: neutral_def is_inbound_def message_key_def)
  have "ionce xct K b s2 (SendMessage u out (\<lambda>r. case r of
         None \<Rightarrow> command (\<lambda>_ db. UpdateMessage db (failed_message m)) (\<lambda>_. Ret (Inl (Opaque ''carrier'')))
       | Some i \<Rightarrow> (case sent_message m i of
           Inl err \<Rightarrow> Ret (Inl err)
         | Inr m' \<Rightarrow> command (\<lambda>_ db. UpdateMessage db m') (\<lambda>x. case x of Inl err \<Rightarrow> Ret (Inl err) | Inr _ \<Rightarrow> Ret (Inr m')))))"
    unfolding SendMessage_def
    by (rule ionce_act) (auto simp: once_Ret failed_message_key sent_message_key [OF m(1)] split: option.split sum.split
        intro!: UpdateMessage_ionce intro: message_lasts [OF _ TrueI k])
  then show "neutral xct K s1 s2 \<and> ionce xct K b s2 (case Inr x of Inl err \<Rightarrow> Ret (Inl err) | Inr _ \<Rightarrow> SendMessage u out (\<lambda>r. case r of
         None \<Rightarrow> command (\<lambda>_ db. UpdateMessage db (failed_message m)) (\<lambda>_. Ret (Inl (Opaque ''carrier'')))
       | Some i \<Rightarrow> (case sent_message m i of
           Inl err \<Rightarrow> Ret (Inl err)
         | Inr m' \<Rightarrow> command (\<lambda>_ db. UpdateMessage db m') (\<lambda>x. case x of Inl err \<Rightarrow> Ret (Inl err) | Inr _ \<Rightarrow> Ret (Inr m'))))) \<and>
      (\<forall>e. ionce xct K b s2 (case Inl (Opaque e) of Inl err \<Rightarrow> Ret (Inl err) | Inr _ \<Rightarrow> SendMessage u out (\<lambda>r. case r of
         None \<Rightarrow> command (\<lambda>_ db. UpdateMessage db (failed_message m)) (\<lambda>_. Ret (Inl (Opaque ''carrier'')))
       | Some i \<Rightarrow> (case sent_message m i of
           Inl err \<Rightarrow> Ret (Inl err)
         | Inr m' \<Rightarrow> command (\<lambda>_ db. UpdateMessage db m') (\<lambda>x. case x of Inl err \<Rightarrow> Ret (Inl err) | Inr _ \<Rightarrow> Ret (Inr m'))))))"
    using n by (simp add: once_Ret)
qed (simp add: once_Ret)

lemma recipient_ionce:
  assumes "\<And>s1 t. inbox_evolves xct s s1 \<Longrightarrow> ionce xct K b s1 (k t)"
  shows "ionce xct K b s (recipient u inp k)"
  unfolding recipient_def by (auto split: option.split intro!: assms io.once_pure)

lemma known_thread_query:
  assumes "g = GetConversation s1 t i \<or> (\<exists>m. g = Inl (Opaque m))" "g = Inr conv"
  shows "(t, i) \<in> threads (view_of s1)"
  using assms GetConversation_known [of s1 t i conv] by auto

lemma GetConversation_ionce:
  assumes "\<And>s1 conv. inbox_evolves xct s s1 \<Longrightarrow> (t, i) \<in> threads (view_of s1) \<Longrightarrow> ionce xct K b s1 (k (Inr conv))"
    and "\<And>s1 e. inbox_evolves xct s s1 \<Longrightarrow> ionce xct K b s1 (k (Inl e))"
  shows "ionce xct K b s (query (\<lambda>db. GetConversation db t i) k)"
proof (rule ionce_query)
  fix s1 g
  assume a: "inbox_evolves xct s s1" "g = GetConversation s1 t i \<or> (\<exists>m. g = Inl (Opaque m))"
  show "ionce xct K b s1 (k g)" using assms a(1) known_thread_query [OF a(2)] by (cases g) simp_all
qed

lemma outbound_message:
  "NewMessage i n \<lparr>nm_TenantID = t, nm_ConversationID = c, nm_Direction = MessageDirectionOut, nm_Body = body, nm_Status = st,
     nm_ChannelExternalID = ext, nm_SentByUserID = usr\<rparr> = Inr m \<Longrightarrow> ms_Direction m = MessageDirectionOut \<and> ms_TenantID m = t \<and> ms_ConversationID m = c"
  by (auto simp: NewMessage_def Let_def split: if_splits)

lemma SendOutbound_ionce: "ionce xct K b s (SendOutbound_Execute u inp)"
  unfolding SendOutbound_Execute_def Debit_def Let_def
  by (auto simp: once_Ret split: option.split sum.split dest!: outbound_message
      intro!: GetConversation_ionce recipient_ionce ionce_draw send_charge_ionce) (meson thread_lasts)

lemma Claim_quiet_ionce:
  assumes "\<And>b s1 r. ionce xct K b s1 (k r)"
  shows "ionce xct K b s (command (\<lambda>_ db. Claim db ch ext) k)"
proof (rule ionce_command)
  fix s1 ev x s2
  assume a: "inbox_inv s1" "Claim s1 ch ext = Inr (x, s2)"
  from Claim_keeps [OF a, of xct K] show "neutral xct K s1 s2 \<and> ionce xct K b s2 (k (Inr x)) \<and> (\<forall>m. ionce xct K b s2 (k (Inl (Opaque m))))"
    using assms by (simp add: neutral_def)
qed (rule assms)

lemma HandleStatus_ionce: "ionce xct K b s (HandleStatus lower e)"
proof -
  have close: "ionce xct K b s1 (close_and_answer key res)" for b s1 key res
    unfolding close_and_answer_def by (auto intro!: ionce_quiet_write once_Ret dest: view_MarkProcessed)
  have mark: "ionce xct K b s1 (command (\<lambda>ev db. MarkProcessed (o_now ev) db statusDedupChannel key) (\<lambda>p. case p of
      Inl err \<Rightarrow> Ret (Inl (Wrapped ''dedup mark'' err)) | Inr _ \<Rightarrow> Ret res))" for b s1 key res
    by (rule ionce_quiet_write) (auto simp: once_Ret dest: view_MarkProcessed split: sum.split)
  have apl: "ionce xct K b s1 (apply_status key nxt m)" if "message_key m \<in> set (vw_messages (view_of s1))" for b s1 key nxt m
    unfolding apply_status_def Let_def
    by (auto simp: once_Ret close mark that AdvanceStatus_key split: sum.split intro!: UpdateMessage_ionce)
  have found: "ionce xct K b s1 (query (\<lambda>db. FindMessageByChannelExternalID db t ch ext) (\<lambda>f. case f of
            Inl err \<Rightarrow>
              if errors_is err ib_ErrNotFound
                then close_and_answer key \<lparr>sq_Outcome = StatusOutcomeUnknownMessage, sq_PreviousStatus = None, sq_NewStatus = st\<rparr>
              else Ret (Inl (Wrapped ''find message'' err))
          | Inr m \<Rightarrow> apply_status key st m))" for b s1 t ch ext key st
  proof (rule ionce_query)
    fix s2 f
    assume f: "f = FindMessageByChannelExternalID s2 t ch ext \<or> (\<exists>m. f = Inl (Opaque m))"
    have "message_key m \<in> set (vw_messages (view_of s2))" if "f = Inr m" for m
      using f that by (auto simp: FindMessageByChannelExternalID_def find_Some_iff view_of_def split: if_splits option.splits)
    then show "ionce xct K b s2 (case f of
            Inl err \<Rightarrow>
              if errors_is err ib_ErrNotFound
                then close_and_answer key \<lparr>sq_Outcome = StatusOutcomeUnknownMessage, sq_PreviousStatus = None, sq_NewStatus = st\<rparr>
              else Ret (Inl (Wrapped ''find message'' err))
          | Inr m \<Rightarrow> apply_status key st m)"
      by (cases f) (simp_all add: once_Ret close apl)
  qed
  show ?thesis unfolding HandleStatus_def Let_def
    by (auto simp: once_Ret found split: sum.split intro!: Claim_quiet_ionce)
qed

lemma history_then_ionce:
  assumes "\<And>ev s1 a s2. inbox_inv s1 \<Longrightarrow> inbox_evolves xct s s1 \<Longrightarrow> w ev s1 = Inr (a, s2) \<Longrightarrow> neutral xct K s1 s2" "\<And>s1 r. ionce xct K b s1 (k r)"
  shows "ionce xct K b s (command w k)"
  by (rule ionce_command) (use assms in \<open>blast+\<close>)

lemma AssignConversation_ionce: "ionce xct K b s (AssignConversation t i target)"
proof -
  have lead: "ionce xct K b s1 (command (\<lambda>_ db. SetConversationLead db t i target) (\<lambda>x. case x of Inl err \<Rightarrow> Ret (Inl err) | Inr _ \<Rightarrow> Ret r))" for s1 r
    by (rule ionce_quiet_write) (auto simp: once_Ret dest: view_lifecycle split: sum.split)
  have history: "ionce xct K b s1 (command (\<lambda>ev db. AppendHistory ev db t i target reason) (\<lambda>x. case x of
      Inl err \<Rightarrow> Ret (Inl err)
    | Inr saved \<Rightarrow> command (\<lambda>_ db. SetConversationLead db t i target) (\<lambda>x. case x of Inl err \<Rightarrow> Ret (Inl err) | Inr _ \<Rightarrow> Ret (Inr saved))))"
    if "(t, i) \<in> threads (view_of s1)" for s1 reason
    by (rule history_then_ionce) (auto simp: once_Ret lead intro: AppendHistory_keeps thread_lasts [OF _ that] split: sum.split)
  have decide: "ionce xct K b s1 (draw (\<lambda>ev. case AssignTo (o_ids ev 0) (o_now ev) conv target reason of
      Inl err \<Rightarrow> Ret (Inl err)
    | Inr _ \<Rightarrow> command (\<lambda>ev db. AppendHistory ev db t i target reason) (\<lambda>x. case x of
      Inl err \<Rightarrow> Ret (Inl err)
    | Inr saved \<Rightarrow> command (\<lambda>_ db. SetConversationLead db t i target) (\<lambda>x. case x of Inl err \<Rightarrow> Ret (Inl err) | Inr _ \<Rightarrow> Ret (Inr saved)))))"
    if "(t, i) \<in> threads (view_of s1)" for s1 reason conv
    by (rule ionce_draw) (auto simp: once_Ret intro!: history intro: thread_lasts [OF _ that] split: sum.split)
  show ?thesis unfolding AssignConversation_def Let_def
    by (auto simp: once_Ret split: sum.split intro!: ionce_query decide) (meson GetConversation_known thread_lasts)+
qed

lemma UnassignConversation_ionce: "ionce xct K b s (UnassignConversation t i)"
proof -
  have clear: "ionce xct K b s1 (command (\<lambda>_ db. ClearConversationLead db t i) (\<lambda>x. case x of Inl err \<Rightarrow> Ret (Inl err) | Inr _ \<Rightarrow> Ret (Inr False)))" for s1
    by (rule ionce_quiet_write) (auto simp: once_Ret dest: view_lifecycle split: sum.split)
  have history: "ionce xct K b s1 (command (\<lambda>ev db. AppendUnassign ev db t i) (\<lambda>a. case a of
      Inl err \<Rightarrow> Ret (Inl err)
    | Inr _ \<Rightarrow> command (\<lambda>_ db. ClearConversationLead db t i) (\<lambda>x. case x of Inl err \<Rightarrow> Ret (Inl err) | Inr _ \<Rightarrow> Ret (Inr False))))"
    if "(t, i) \<in> threads (view_of s1)" for s1
    by (rule history_then_ionce) (auto simp: once_Ret clear intro: AppendUnassign_keeps thread_lasts [OF _ that] split: sum.split)
  show ?thesis unfolding UnassignConversation_def
    by (auto simp: once_Ret split: sum.split intro!: GetConversation_ionce history)
qed

lemma lifecycle_ionce:
  "ionce xct K b s (CloseConversation t i)" "ionce xct K b s (ReopenConversation t i)"
  unfolding CloseConversation_def ReopenConversation_def
  by (auto simp: once_Ret split: sum.split intro!: ionce_query ionce_quiet_write dest: view_lifecycle)

lemma UpdateContact_ionce: "ionce xct K b s (UpdateContact t j n)"
proof -
  have "ionce xct K b s1 (command (\<lambda>_ db. contacts_Update db c) (\<lambda>u. case u of Inl e \<Rightarrow> Ret (Inl e) | Inr _ \<Rightarrow> Ret (Inr c)))" for s1 c
    by (rule ionce_quiet_write) (auto simp: once_Ret elim: view_contacts_Update split: sum.split)
  then show ?thesis unfolding UpdateContact_def by (auto simp: once_Ret split: sum.split intro!: ionce_query ionce_clock)
qed

section \<open>Resetting a training conversation\<close>

lemma DeleteMessages_keeps:
  assumes inv: "inbox_inv s" and del: "DeleteMessagesByConversation s t i = Inr (d, s')"
    and conv: "(t, i, k, TrainingChannel) \<in> set (vw_conversations (view_of s))"
  shows "neutral False K s s'"
proof (cases "i = uuid_nil")
  case True
  then have "s' = s" using del by (auto simp: DeleteMessagesByConversation_def split: if_splits)
  then show ?thesis using neutral_same_view [OF refl inv] by simp
next
  case False
  let ?keep = "\<lambda>(t', i', c, r). \<not> (t' = t \<and> c = i)"
  have "view_of s' = view_of (s\<lparr>ib_message := filter (\<lambda>m. \<not> (ms_TenantID m = t \<and> ms_ConversationID m = i)) (ib_message s)\<rparr>)"
    using del False by (auto simp: DeleteMessagesByConversation_def Let_def split: if_splits option.splits
        dest!: view_update_conversation)
  moreover have "map message_key (filter (\<lambda>m. \<not> (ms_TenantID m = t \<and> ms_ConversationID m = i)) ms) = filter ?keep (map message_key ms)" for ms
    by (induction ms) (auto simp: message_key_def)
  ultimately have v: "view_of s' = (view_of s)\<lparr>vw_messages := filter ?keep (vw_messages (view_of s))\<rparr>"
    by (simp add: view_of_def)
  have "messages_kept False (view_of s) (view_of s')" using conv by (auto simp: v messages_kept_def)
  moreover have "inbox_inv s'"
    using inv by (auto simp: v inbox_inv_def threads_def Let_def distinct_map_filter)
  ultimately show ?thesis by (simp add: neutral_def inbox_evolves_def claimed_key_def inbound_uses_def Let_def) (simp add: v)
qed

lemma ResetConversation_ionce: "ionce False K b s (ResetConversation t i)"
proof -
  have port: "ionce False K b s1 (port_call put get t i k)"
    if "\<And>l s2. view_of (put l s2) = view_of s2" "\<And>s2 r. ionce False K b s2 (k r)" for put get k s1
    unfolding port_call_def by (rule ionce_quiet_write) (use that in auto)
  have clear: "ionce False K b s1 (command (\<lambda>_ db. ClearConversationLead db t i) (\<lambda>x. case x of
      Inl err \<Rightarrow> Ret (Inl err)
    | Inr _ \<Rightarrow> port_call (\<lambda>l. ib_invalidated_update (\<lambda>_. l)) ib_invalidated t i (\<lambda>i'. case i' of
      Inl err \<Rightarrow> Ret (Inl err)
    | Inr _ \<Rightarrow> port_call (\<lambda>l. ib_resets_update (\<lambda>_. l)) ib_resets t i (\<lambda>r. case r of
      Inl err \<Rightarrow> Ret (Inl err)
    | Inr _ \<Rightarrow> Ret (Inr d)))))" for s1 d
    by (rule ionce_quiet_write) (auto simp: once_Ret view_of_def split: sum.split intro!: port dest: view_lifecycle)
  have delete: "ionce False K b s1 (command (\<lambda>_ db. DeleteMessagesByConversation db t i) (\<lambda>d. case d of Inl err \<Rightarrow> Ret (Inl err)
    | Inr deleted \<Rightarrow> command (\<lambda>_ db. ClearConversationLead db t i) (\<lambda>x. case x of
      Inl err \<Rightarrow> Ret (Inl err)
    | Inr _ \<Rightarrow> port_call (\<lambda>l. ib_invalidated_update (\<lambda>_. l)) ib_invalidated t i (\<lambda>i'. case i' of
      Inl err \<Rightarrow> Ret (Inl err)
    | Inr _ \<Rightarrow> port_call (\<lambda>l. ib_resets_update (\<lambda>_. l)) ib_resets t i (\<lambda>r. case r of
      Inl err \<Rightarrow> Ret (Inl err)
    | Inr _ \<Rightarrow> Ret (Inr deleted))))))" if "(t, i, k, TrainingChannel) \<in> set (vw_conversations (view_of s1))" for s1 k
    by (rule history_then_ionce)
      (auto simp: once_Ret clear intro: DeleteMessages_keeps conversation_lasts [OF _ that] split: sum.split)
  have known: "\<exists>k. (t, i, k, TrainingChannel) \<in> set (vw_conversations (view_of s1))"
    if "g = GetConversation s1 t i \<or> (\<exists>m. g = Inl (Opaque m))" "g = Inr c" "cv_Channel c = TrainingChannel" for s1 g c
    using that visible_conversation_key [of s1 t i]
    by (auto simp: GetConversation_def scanConversation_def conversation_key_def split: if_splits option.splits)
  show ?thesis unfolding ResetConversation_def
    by (auto simp: once_Ret split: sum.split intro!: ionce_query) (metis known delete)
qed

section \<open>All interleavings\<close>

text \<open>
  The use cases a process of the system may run on the inbox, with their answers dropped; \<^verbatim>\<open>ResetConversation\<close>, which deletes the messages of a training
  conversation, is added below.
\<close>

inductive inbox_call :: "(string \<Rightarrow> string) \<Rightarrow> unit ibprog \<Rightarrow> bool" for lower where
  call_receive: "ri_lower u = lower \<Longrightarrow> inbox_call lower (bind_prog (ReceiveInbound_Execute u e) (\<lambda>_. Ret ()))"
| call_handle: "ri_lower u = lower \<Longrightarrow> inbox_call lower (bind_prog (HandleInbound u e) (\<lambda>_. Ret ()))"
| call_materialise: "ri_lower u = lower \<Longrightarrow> inbox_call lower (bind_prog (MaterialiseInbound u e) (\<lambda>_. Ret ()))"
| call_send: "inbox_call lower (bind_prog (SendOutbound_Execute v inp) (\<lambda>_. Ret ()))"
| call_status: "inbox_call lower (bind_prog (HandleStatus lower su) (\<lambda>_. Ret ()))"
| call_assign: "inbox_call lower (bind_prog (AssignConversation t i target) (\<lambda>_. Ret ()))"
| call_unassign: "inbox_call lower (bind_prog (UnassignConversation t i) (\<lambda>_. Ret ()))"
| call_close: "inbox_call lower (bind_prog (CloseConversation t i) (\<lambda>_. Ret ()))"
| call_reopen: "inbox_call lower (bind_prog (ReopenConversation t i) (\<lambda>_. Ret ()))"
| call_rename: "inbox_call lower (bind_prog (UpdateContact t j n) (\<lambda>_. Ret ()))"

definition inbox_reach :: "(string \<Rightarrow> string) \<Rightarrow> inbox_db \<Rightarrow> inbox_db \<times> (nat \<Rightarrow> unit ibprog) \<Rightarrow> bool" where
  "inbox_reach lower = pool_reach (\<lambda>_ _. True) (\<lambda>_. inbox_call lower)"

lemma inbox_call_ionce:
  assumes "inbox_call lower p" "canonical lower"
  shows "ionce xct K False s p"
  using assms(1)
proof cases
  case (call_receive u e)
  then show ?thesis using assms(2) by (auto intro!: io.once_bind ReceiveInbound_ionce)
next
  case (call_handle u e)
  then show ?thesis using assms(2) unfolding HandleInbound_def by (auto intro!: io.once_bind ReceiveInbound_ionce)
next
  case (call_materialise u e)
  then show ?thesis using assms(2) unfolding MaterialiseInbound_def by (auto intro!: io.once_bind ReceiveInbound_ionce)
qed (auto intro!: io.once_bind SendOutbound_ionce HandleStatus_ionce AssignConversation_ionce UnassignConversation_ionce lifecycle_ionce UpdateContact_ionce)

lemma inbox_reach_once:
  assumes "inbox_reach lower s0 c" "inbox_inv s0" "inbound_count K s0 \<le> of_bool (claimed_key K s0)" "canonical lower"
  shows "inbox_inv (fst c) \<and> inbox_evolves True s0 (fst c) \<and> inbound_count K (fst c) \<le> of_bool (claimed_key K (fst c))"
  using io.work_done_once [where xct = True and K = K, OF assms(1) [unfolded inbox_reach_def] assms(2)] assms(3) inbox_call_ionce [OF _ assms(4)]
  by (simp add: inbound_uses_def)

lemma unused_key: "\<exists>K. inbound_count K db = 0"
proof -
  obtain ch :: string where ch: "ch \<notin> cv_Channel ` set (ib_conversation db)"
    using ex_new_if_finite [OF infinite_UNIV_listI] by (meson finite_imageI finite_set)
  then have "inbound_messages db ch ext = []" for ext by (auto simp: inbound_messages_def list_ex_iff filter_empty_conv)
  then show ?thesis by (intro exI [of _ "(ch, '''')"]) (simp add: inbound_count_messages)
qed

text \<open>The same with the reset of training conversations among the use cases: all of them.\<close>

inductive inbox_call_any :: "(string \<Rightarrow> string) \<Rightarrow> unit ibprog \<Rightarrow> bool" for lower where
  call_inbox: "inbox_call lower p \<Longrightarrow> inbox_call_any lower p"
| call_reset: "inbox_call_any lower (bind_prog (ResetConversation t i) (\<lambda>_. Ret ()))"

definition inbox_reach_any :: "(string \<Rightarrow> string) \<Rightarrow> inbox_db \<Rightarrow> inbox_db \<times> (nat \<Rightarrow> unit ibprog) \<Rightarrow> bool" where
  "inbox_reach_any lower = pool_reach (\<lambda>_ _. True) (\<lambda>_. inbox_call_any lower)"

lemma inbox_reach_any_inv:
  assumes "inbox_reach_any lower s0 c" "inbox_inv s0" "canonical lower"
  shows "inbox_inv (fst c) \<and> inbox_evolves False s0 (fst c)"
proof -
  have "ionce False K False s p" if "inbox_call_any lower p" for K s p
    using that by cases (auto intro: inbox_call_ionce [OF _ assms(3)] io.once_bind ResetConversation_ionce)
  then show ?thesis
    using io.work_done_once [where xct = False, OF assms(1) [unfolded inbox_reach_any_def] assms(2)] by (simp add: inbound_uses_def)
qed

lemma thread_row:
  assumes "inbox_inv s" "(t, i) \<in> threads (view_of s)"
  shows "i \<noteq> uuid_nil" "i \<in> set (map cv_ID (ib_conversation s))"
proof -
  have "i \<in> (\<lambda>(t, i, c, ch). i) ` set (vw_conversations (view_of s))" using assms(2) by (force simp: threads_def)
  moreover have "map (\<lambda>(t, i, c, ch). i) (vw_conversations (view_of s)) = map cv_ID (ib_conversation s)"
    by (simp add: view_of_def conversation_key_def)
  ultimately show "i \<in> set (map cv_ID (ib_conversation s))" by (metis set_map)
  have "uuid_nil \<notin> (\<lambda>(t, i, c, ch). i) ` set (vw_conversations (view_of s))" using assms(1) by (simp add: inbox_inv_def Let_def)
  then show "i \<noteq> uuid_nil" using \<open>i \<in> (\<lambda>(t, i, c, ch). i) ` set (vw_conversations (view_of s))\<close> by metis
qed

lemma contact_row_of:
  assumes "inbox_inv s" "(t, c) \<in> set (vw_contacts (view_of s))"
  shows "c \<noteq> uuid_nil" "c \<in> set (map cr_id (contact s))"
proof -
  have "c \<in> snd ` set (vw_contacts (view_of s))" using assms(2) by force
  moreover have "map snd (vw_contacts (view_of s)) = map cr_id (contact s)" by (simp add: view_of_def contact_key_def)
  ultimately show "c \<in> set (map cr_id (contact s))" by (metis set_map)
  have "uuid_nil \<notin> snd ` set (vw_contacts (view_of s))" using assms(1) by (simp add: inbox_inv_def Let_def)
  then show "c \<noteq> uuid_nil" using \<open>c \<in> snd ` set (vw_contacts (view_of s))\<close> by metis
qed

end
