(* ===== verification/InboxProps.thy ===== *)
theory InboxProps
  imports InboxSafety
begin

text \<open>The theorems about contacts, conversations and messages.\<close>

section \<open>All interleavings\<close>

text \<open>
  C23. Exactly one process may store an inbound message. In every interleaving of the inbox use cases (deliveries, sends, status callbacks, assignments, closing,
  reopening, renaming; not the reset of training conversations), with any faults, a channel's external identifier has at most one inbound message, and one only if
  the ledger has its row.
\<close>

theorem inbound_stored_once:
  assumes "inbox_reach lower s0 c" "canonical lower" "inbox_inv s0"
    and "length (inbound_messages s0 ch ext) \<le> of_bool (list_ex (\<lambda>d. dd_channel d = ch \<and> dd_external_id d = ext) (ib_dedup s0))"
  shows "length (inbound_messages (fst c) ch ext) \<le> of_bool (list_ex (\<lambda>d. dd_channel d = ch \<and> dd_external_id d = ext) (ib_dedup (fst c)))"
proof -
  have "claimed_key (ch, ext) db \<longleftrightarrow> list_ex (\<lambda>d. dd_channel d = ch \<and> dd_external_id d = ext) (ib_dedup db)" for db
    by (auto simp: claimed_key_def view_of_def dedup_key_def list_ex_iff)
  then show ?thesis using inbox_reach_once [OF assms(1,3) _ assms(2), of "(ch, ext)"] assms(4) by (simp add: inbound_count_messages)
qed

text \<open>
  C24. Tenants stay apart, and only training conversations lose messages. In every interleaving of the inbox use cases, the reset of training conversations
  included, with any faults, the contact of a conversation or of an identity, and the conversation of a message or of an assignment, belong to the same tenant as
  the row that names them; a conversation once stored keeps its tenant, contact and channel; and a message once stored is still there, with its identifier, tenant,
  conversation, direction and text, unless its conversation is on the training channel. A message's status and external identifier may change.
\<close>

theorem inbox_tenants_stay_apart:
  assumes "inbox_reach_any lower s0 c" "canonical lower" "inbox_inv s0"
  shows "(\<forall>i \<in> set (channel_identity (fst c)). \<exists>r \<in> set (contact (fst c)). cr_id r = ir_contact_id i \<and> cr_tenant_id r = ir_tenant_id i)
    \<and> (\<forall>v \<in> set (ib_conversation (fst c)). \<exists>r \<in> set (contact (fst c)). cr_id r = cv_ContactID v \<and> cr_tenant_id r = cv_TenantID v)
    \<and> (\<forall>m \<in> set (ib_message (fst c)). \<exists>v \<in> set (ib_conversation (fst c)). cv_ID v = ms_ConversationID m \<and> cv_TenantID v = ms_TenantID m)
    \<and> (\<forall>a \<in> set (ib_history (fst c)). \<exists>v \<in> set (ib_conversation (fst c)). cv_ID v = ag_ConversationID a \<and> cv_TenantID v = ag_TenantID a)
    \<and> (\<forall>v \<in> set (ib_conversation s0). \<exists>v' \<in> set (ib_conversation (fst c)).
         cv_ID v' = cv_ID v \<and> cv_TenantID v' = cv_TenantID v \<and> cv_ContactID v' = cv_ContactID v \<and> cv_Channel v' = cv_Channel v)
    \<and> (\<forall>m \<in> set (ib_message s0). (\<exists>m' \<in> set (ib_message (fst c)). ms_ID m' = ms_ID m \<and> ms_ConversationID m' = ms_ConversationID m \<and>
           ms_TenantID m' = ms_TenantID m \<and> ms_Direction m' = ms_Direction m \<and> ms_Body m' = ms_Body m) \<or>
         (\<exists>v \<in> set (ib_conversation (fst c)). cv_ID v = ms_ConversationID m \<and> cv_TenantID v = ms_TenantID m \<and> cv_Channel v = TrainingChannel))"
proof (intro conjI)
  note inv = inbox_reach_any_inv [OF assms(1,3,2)]
  then have v: "\<forall>i \<in> set (vw_identities (view_of (fst c))). (ir_tenant_id i, ir_contact_id i) \<in> set (vw_contacts (view_of (fst c)))"
      "\<forall>(t, i, k, ch) \<in> set (vw_conversations (view_of (fst c))). (t, k) \<in> set (vw_contacts (view_of (fst c)))"
      "\<forall>(t, i, k, r) \<in> set (vw_messages (view_of (fst c))). (t, k) \<in> threads (view_of (fst c))"
      "\<forall>a \<in> set (vw_history (view_of (fst c))). (ag_TenantID a, ag_ConversationID a) \<in> threads (view_of (fst c))"
    by (simp_all add: inbox_inv_def Let_def)
  show "\<forall>i \<in> set (channel_identity (fst c)). \<exists>r \<in> set (contact (fst c)). cr_id r = ir_contact_id i \<and> cr_tenant_id r = ir_tenant_id i"
    using v(1) by (fastforce simp: view_of_def contact_key_def)
  show "\<forall>v \<in> set (ib_conversation (fst c)). \<exists>r \<in> set (contact (fst c)). cr_id r = cv_ContactID v \<and> cr_tenant_id r = cv_TenantID v"
    using v(2) by (fastforce simp: view_of_def contact_key_def conversation_key_def)
  show "\<forall>m \<in> set (ib_message (fst c)). \<exists>v \<in> set (ib_conversation (fst c)). cv_ID v = ms_ConversationID m \<and> cv_TenantID v = ms_TenantID m"
    using v(3) by (fastforce simp: view_of_def threads_def conversation_key_def message_key_def)
  show "\<forall>a \<in> set (ib_history (fst c)). \<exists>v \<in> set (ib_conversation (fst c)). cv_ID v = ag_ConversationID a \<and> cv_TenantID v = ag_TenantID a"
    using v(4) by (fastforce simp: view_of_def threads_def conversation_key_def)
  have "conversation_key v \<in> set (vw_conversations (view_of (fst c)))" if "v \<in> set (ib_conversation s0)" for v
    using conversation_lasts [OF conjunct2 [OF inv]] that by (simp add: view_of_def)
  then show "\<forall>v \<in> set (ib_conversation s0). \<exists>v' \<in> set (ib_conversation (fst c)).
      cv_ID v' = cv_ID v \<and> cv_TenantID v' = cv_TenantID v \<and> cv_ContactID v' = cv_ContactID v \<and> cv_Channel v' = cv_Channel v"
    by (fastforce simp: view_of_def conversation_key_def)
  show "\<forall>m \<in> set (ib_message s0). (\<exists>m' \<in> set (ib_message (fst c)). ms_ID m' = ms_ID m \<and> ms_ConversationID m' = ms_ConversationID m \<and>
        ms_TenantID m' = ms_TenantID m \<and> ms_Direction m' = ms_Direction m \<and> ms_Body m' = ms_Body m) \<or>
      (\<exists>v \<in> set (ib_conversation (fst c)). cv_ID v = ms_ConversationID m \<and> cv_TenantID v = ms_TenantID m \<and> cv_Channel v = TrainingChannel)"
    using inv by (auto simp: inbox_evolves_def messages_kept_def view_of_def message_key_def conversation_key_def image_iff Let_def) metis+
qed

section \<open>A sample inbox\<close>

text \<open>One tenant with a default lead who is an attendant, and no contacts yet; a message on WhatsApp.\<close>

definition inbox_ex :: inbox_db where
  "inbox_ex = \<lparr>contact = [], channel_identity = [], ib_tenants = [(1, Some 7)],
     ib_users = [\<lparr>iu_id = 7, iu_tenant_id = Some 1, iu_role = ''tenant_atendente''\<rparr>], ib_channels = [], ib_conversation = [], ib_message = [],
     ib_history = [], ib_dedup = [], ib_clicks = [], ib_sends = [], ib_published = [], ib_invalidated = [], ib_resets = []\<rparr>"

definition receive_ex :: ReceiveInbound where
  "receive_ex = \<lparr>ri_lower = (\<lambda>x. x), ri_leadership = True, ri_channelResolver = None, ri_campaignLinker = False,
     ri_campaignMarkerKey = marker_key_ex, ri_campaignMarkerAllowLegacy = False, ri_inboundPublisher = True\<rparr>"

definition event_ex :: InboundEvent where
  "event_ex = \<lparr>iv_TenantID = 1, iv_Channel = ''whatsapp'', iv_ChannelExternalID = ''m1'', iv_SenderExternalID = ''+5511'', iv_SenderDisplayName = ''Ana'',
     iv_DestinationExternalID = '''', iv_Body = ''hi'', iv_OccurredAt = None, iv_HasAttachments = False\<rparr>"

definition env_ex :: "nat \<Rightarrow> call_env" where
  "env_ex n = \<lparr>o_fault = NoFault, o_now = 100 + int n, o_ids = (\<lambda>k. 50 + n)\<rparr>"

section \<open>A delivery\<close>

text \<open>
  What a delivery needs to be accepted: the fields are there, a WhatsApp sender is a phone number, the text is not blank, no other tenant owns the sender's
  identity, the default lead and the resolved channel exist, and the identifiers drawn are fresh.
\<close>

definition event_channel :: "ReceiveInbound \<Rightarrow> InboundEvent \<Rightarrow> string" where
  "event_channel u e = ri_lower u (TrimSpace (iv_Channel e))"

definition event_key :: "InboundEvent \<Rightarrow> string" where
  "event_key e = TrimSpace (iv_ChannelExternalID e)"

definition well_formed_event :: "ReceiveInbound \<Rightarrow> InboundEvent \<Rightarrow> bool" where
  "well_formed_event u e \<longleftrightarrow> iv_TenantID e \<noteq> uuid_nil \<and> event_channel u e \<noteq> '''' \<and> event_key e \<noteq> '''' \<and> TrimSpace (iv_SenderExternalID e) \<noteq> ''''"

definition lead_ok :: "ReceiveInbound \<Rightarrow> inbox_db \<Rightarrow> uuid \<Rightarrow> bool" where
  "lead_ok u s t \<longleftrightarrow> (ri_leadership u \<longrightarrow> (case DefaultLeadUserID s t of Inl _ \<Rightarrow> False | Inr None \<Rightarrow> True
     | Inr (Some l) \<Rightarrow> l \<noteq> uuid_nil \<and> l \<in> set (map iu_id (ib_users s))))"

definition resolver_ok :: "ReceiveInbound \<Rightarrow> inbox_db \<Rightarrow> uuid \<Rightarrow> string \<Rightarrow> string \<Rightarrow> bool" where
  "resolver_ok u s t ch d \<longleftrightarrow> (case ri_channelResolver u of None \<Rightarrow> True
     | Some f \<Rightarrow> \<forall>ev db i. f ev db t ch d = Some i \<longrightarrow> i = uuid_nil \<or> i \<in> set (ib_channels s))"

lemma ok_cong:
  "ib_tenants s' = ib_tenants s \<Longrightarrow> ib_users s' = ib_users s \<Longrightarrow> lead_ok u s' t = lead_ok u s t"
  "ib_channels s' = ib_channels s \<Longrightarrow> resolver_ok u s' t ch d = resolver_ok u s t ch d"
  by (simp_all only: lead_ok_def resolver_ok_def DefaultLeadUserID_def)

definition acceptable :: "ReceiveInbound \<Rightarrow> InboundEvent \<Rightarrow> inbox_db \<Rightarrow> bool" where
  "acceptable u e s \<longleftrightarrow> well_formed_event u e \<and>
     (event_channel u e = ChannelWhatsApp \<longrightarrow> isE164 (TrimSpace (iv_SenderExternalID e))) \<and> TrimSpace (iv_Body e) \<noteq> '''' \<and>
     list_all (\<lambda>i. ir_channel i = event_channel u e \<and> ir_external_id i = TrimSpace (iv_SenderExternalID e) \<longrightarrow> ir_tenant_id i = iv_TenantID e) (channel_identity s) \<and>
     lead_ok u s (iv_TenantID e) \<and> resolver_ok u s (iv_TenantID e) (event_channel u e) (TrimSpace (iv_DestinationExternalID e))"

definition fresh_inbox_ids :: "(nat \<Rightarrow> call_env) \<Rightarrow> inbox_db \<Rightarrow> bool" where
  "fresh_inbox_ids os s \<longleftrightarrow> (\<forall>n. o_ids (os n) 0 \<noteq> uuid_nil \<and> o_ids (os n) 0 \<notin> set (map cr_id (contact s)) \<and> o_ids (os n) 0 \<notin> set (map cv_ID (ib_conversation s)) \<and>
     o_ids (os n) 0 \<notin> set (map ms_ID (ib_message s)) \<and> o_ids (os n) 0 \<notin> set (map ag_ID (ib_history s)))"

lemma quietD: "quiet os \<Longrightarrow> o_fault (os n) = NoFault"
  by (simp add: quiet_def)

lemma scan_sender:
  assumes "lower (TrimSpace ch) = ch" "ch \<noteq> ''''" "TrimSpace sender \<noteq> ''''" "ch = ChannelWhatsApp \<longrightarrow> isE164 (TrimSpace sender)"
  shows "NewChannelIdentity lower ch sender = Inr \<lparr>ci_Channel = ch, ci_ExternalID = TrimSpace sender\<rparr>"
  using assms by (simp add: NewChannelIdentity_def Let_def)

text \<open>The contact who owns the identity, found or made.\<close>

lemma identity_row_contact:
  assumes "inbox_inv s" "i \<in> set (channel_identity s)"
  shows "\<exists>r. visible_contact s (ir_tenant_id i) (ir_contact_id i) = Some r \<and> r \<in> set (contact s) \<and> cr_id r = ir_contact_id i \<and> cr_tenant_id r = ir_tenant_id i"
proof -
  have "(ir_tenant_id i, ir_contact_id i) \<in> set (map contact_key (contact s))" using assms by (auto simp: inbox_inv_def Let_def view_of_def)
  then have "\<exists>r \<in> set (contact s). cr_tenant_id r = ir_tenant_id i \<and> cr_id r = ir_contact_id i" by (auto simp: contact_key_def)
  then have "visible_contact s (ir_tenant_id i) (ir_contact_id i) \<noteq> None" by (auto simp: visible_contact_def find_None_iff)
  then show ?thesis by (auto simp: visible_contact_def find_Some_iff)
qed

lemma identity_owner_cases:
  assumes "inbox_inv s"
  shows "(identity_owner s t i = None \<and> (\<forall>r \<in> set (channel_identity s). \<not> (ir_tenant_id r = t \<and> ir_channel r = ci_Channel i \<and> ir_external_id r = ci_ExternalID i))) \<or>
    (\<exists>r row. identity_owner s t i = Some r \<and> cr_tenant_id r = t \<and> row \<in> set (channel_identity s) \<and> ir_contact_id row = cr_id r \<and> ir_tenant_id row = t \<and>
       ir_channel row = ci_Channel i \<and> ir_external_id row = ci_ExternalID i)"
proof (cases "find (\<lambda>r. ir_tenant_id r = t \<and> ir_channel r = ci_Channel i \<and> ir_external_id r = ci_ExternalID i
    \<and> visible_contact s t (ir_contact_id r) \<noteq> None) (channel_identity s)")
  case None
  have "\<not> (ir_tenant_id r = t \<and> ir_channel r = ci_Channel i \<and> ir_external_id r = ci_ExternalID i)" if "r \<in> set (channel_identity s)" for r
    using None that identity_row_contact [OF assms that] by (auto simp: find_None_iff)
  then show ?thesis using None by (simp add: identity_owner_def)
next
  case (Some row)
  then have row: "row \<in> set (channel_identity s)" "ir_tenant_id row = t" "ir_channel row = ci_Channel i" "ir_external_id row = ci_ExternalID i"
    by (auto simp: find_Some_iff)
  from identity_row_contact [OF assms row(1)] row(2) obtain r where "visible_contact s t (ir_contact_id row) = Some r" "cr_id r = ir_contact_id row" "cr_tenant_id r = t"
    by auto
  then show ?thesis using Some row by (auto simp: identity_owner_def)
qed

lemma run_FindByChannelIdentity:
  assumes "quiet os" "t \<noteq> uuid_nil" "NewChannelIdentity lower ch ext = Inr i"
  shows "run (FindByChannelIdentity lower t ch ext k) os n s = (case identity_owner s t i of
      None \<Rightarrow> run (k (cterr ct_ErrNotFound)) os (Suc n) s
    | Some r \<Rightarrow> run (k (Inr (hydrate_contact r t (scanIdentities s t (cr_id r))))) os (Suc (Suc n)) s)"
  using assms by (simp add: FindByChannelIdentity_def quietD split: option.split)

lemma run_Upsert:
  assumes q: "quiet os" and inv: "inbox_inv s" and t: "t \<noteq> uuid_nil" and i: "NewChannelIdentity lower ch ext = Inr i" and name: "TrimSpace name \<noteq> ''''"
    and fresh: "\<And>n. o_ids (os n) 0 \<noteq> uuid_nil \<and> o_ids (os n) 0 \<notin> set (map cr_id (contact s))"
    and own: "\<And>r. r \<in> set (channel_identity s) \<Longrightarrow> ir_channel r = ci_Channel i \<Longrightarrow> ir_external_id r = ci_ExternalID i \<Longrightarrow> ir_tenant_id r = t"
  obtains c new n' s' where
    "run (UpsertContactByChannel lower \<lparr>ui_TenantID = t, ui_Channel = ch, ui_ExternalID = ext, ui_DisplayName = name\<rparr> k) os n s = run (k (Inr (c, new))) os n' s'"
    "\<exists>cs is. s' = s\<lparr>contact := cs, channel_identity := is\<rparr>" "inbox_inv s'"
    "\<exists>row \<in> set (channel_identity s'). ir_tenant_id row = t \<and> ir_contact_id row = ct_ID c \<and> ir_channel row = ci_Channel i \<and> ir_external_id row = ci_ExternalID i"
  using identity_owner_cases [OF inv, of t i]
proof (elim disjE exE conjE)
  fix r row
  assume o: "identity_owner s t i = Some r" and row: "cr_tenant_id r = t" "row \<in> set (channel_identity s)" "ir_contact_id row = cr_id r" "ir_tenant_id row = t"
    "ir_channel row = ci_Channel i" "ir_external_id row = ci_ExternalID i"
  let ?c = "hydrate_contact r t (scanIdentities s t (cr_id r))"
  show thesis
    by (rule that [where c = ?c and new = False and n' = "Suc (Suc n)" and s' = s])
      (use t o row inv in \<open>auto simp: UpsertContactByChannel_def run_FindByChannelIdentity [OF q t i] hydrate_contact_def intro!: exI [of _ "contact s"] exI [of _ "channel_identity s"] bexI [of _ row]\<close>)
next
  assume o: "identity_owner s t i = None"
    and none: "\<forall>r \<in> set (channel_identity s). \<not> (ir_tenant_id r = t \<and> ir_channel r = ci_Channel i \<and> ir_external_id r = ci_ExternalID i)"
  define c where "c = \<lparr>ct_ID = o_ids (os (Suc n)) 0, ct_TenantID = t, ct_DisplayName = TrimSpace name, ct_CreatedAt = o_now (os (Suc n)), ct_UpdatedAt = o_now (os (Suc n)), ct_identities = [i]\<rparr>"
  let ?inp = "\<lparr>ui_TenantID = t, ui_Channel = ch, ui_ExternalID = ext, ui_DisplayName = name\<rparr>"
  have new: "new_contact lower (os (Suc n)) ?inp = Inr c"
    using t name i by (simp add: new_contact_def contacts_New_def AddChannelIdentity_def c_def Let_def)
  have new_id: "ir_contact_id r \<noteq> o_ids (os (Suc n)) 0" if "r \<in> set (channel_identity s)" for r
    using identity_row_contact [OF inv that] fresh [of "Suc n"] by force
  have free: "\<not> (ir_channel r = ci_Channel i \<and> ir_external_id r = ci_ExternalID i)" if "r \<in> set (channel_identity s)" for r
    using none own [OF that] that by blast
  define s' where "s' = s\<lparr>contact := contact s @ [\<lparr>cr_id = o_ids (os (Suc n)) 0, cr_tenant_id = t, cr_display_name = TrimSpace name,
        cr_created_at = o_now (os (Suc n)), cr_updated_at = o_now (os (Suc n))\<rparr>],
      channel_identity := channel_identity s @ [\<lparr>ir_tenant_id = t, ir_contact_id = o_ids (os (Suc n)) 0, ir_channel = ci_Channel i, ir_external_id = ci_ExternalID i\<rparr>]\<rparr>"
  have "list_ex (\<lambda>x. ir_channel x = ci_Channel i \<and> ir_external_id x = ci_ExternalID i) (channel_identity s) = False"
      "list_ex (\<lambda>x. ir_contact_id x = o_ids (os (Suc n)) 0 \<and> ir_channel x = ci_Channel i) (channel_identity s) = False"
    using free new_id by (auto simp: list_ex_iff)
  then have save: "contacts_Save s c = Inr ((), s')"
    using t fresh [of "Suc n"] by (simp add: contacts_Save_def insert_identity_def c_def s'_def)
  have sh: "\<exists>cs is. s' = s\<lparr>contact := cs, channel_identity := is\<rparr>" unfolding s'_def by blast
  have row: "\<exists>row \<in> set (channel_identity s'). ir_tenant_id row = t \<and> ir_contact_id row = ct_ID c \<and> ir_channel row = ci_Channel i \<and> ir_external_id row = ci_ExternalID i"
    by (simp add: s'_def c_def)
  have inv': "inbox_inv s'" using contacts_Save_keeps [OF inv save, of i] by (simp add: c_def neutral_def)
  show thesis
    by (rule that [where c = c and new = True and n' = "Suc (Suc (Suc n))" and s' = s'])
      (use t o new save sh row inv' in \<open>auto simp: UpsertContactByChannel_def run_FindByChannelIdentity [OF q t i] create_contact_def quietD [OF q]\<close>)
qed

lemma run_attributeInitialLead:
  assumes q: "quiet os" and inv: "inbox_inv s" and conv: "known_thread t ch s conv" "cv_State conv = ConversationStateOpen" "t \<noteq> uuid_nil"
    and fresh: "\<And>n. o_ids (os n) 0 \<notin> set (map ag_ID (ib_history s))"
    and lead: "lead_ok u s t"
  obtains conv' n' s' where "run (attributeInitialLead u conv k) os n s = run (k (Inr conv')) os n' s'" "known_thread t ch s' conv'"
    "cv_State conv' = ConversationStateOpen" "cv_ContactID conv' = cv_ContactID conv" "cv_ID conv' = cv_ID conv" "inbox_inv s'" "\<exists>h. s' = s\<lparr>ib_history := h\<rparr>"
proof (cases "\<exists>l. ri_leadership u \<and> DefaultLeadUserID s t = Inr (Some l)")
  case False
  show thesis
  proof (rule that [where conv' = conv and n' = "if ri_leadership u then Suc n else n" and s' = s])
    show "run (attributeInitialLead u conv k) os n s = run (k (Inr conv)) os (if ri_leadership u then Suc n else n) s"
      using False lead conv(1) by (auto simp: attributeInitialLead_def lead_ok_def quietD [OF q] known_thread_def split: sum.splits option.splits)
  qed (use conv inv in \<open>auto intro!: exI [of _ "ib_history s"]\<close>)
next
  case True
  then obtain l where l: "ri_leadership u" "DefaultLeadUserID s t = Inr (Some l)" "l \<noteq> uuid_nil" "l \<in> set (map iu_id (ib_users s))" using lead by (auto simp: lead_ok_def)
  have t: "cv_TenantID conv = t" and th: "(t, cv_ID conv) \<in> threads (view_of s)" using conv(1) known_thread_in_threads [OF conv(1)] by (auto simp: known_thread_def)
  note nz = thread_row [OF inv th]
  define a where "a = \<lparr>ag_ID = o_ids (os (Suc n)) 0, ag_TenantID = t, ag_ConversationID = cv_ID conv, ag_UserID = l, ag_AssignedAt = o_now (os (Suc n)), ag_Reason = LeadReasonLead\<rparr>"
  have app: "AppendHistory (os (Suc n)) s t (cv_ID conv) l LeadReasonLead = Inr (a, s\<lparr>ib_history := ib_history s @ [a]\<rparr>)"
    using conv(3) nz l fresh [of "Suc n"] by (simp add: AppendHistory_def NewAssignment_def history_insert_def lead_Valid_def a_def)
  have n: "neutral True K s (s\<lparr>ib_history := ib_history s @ [a]\<rparr>)" for K by (rule AppendHistory_keeps [OF inv app th])
  show thesis
  proof (rule that [where conv' = "SetHistory conv [a]" and n' = "Suc (Suc n)" and s' = "s\<lparr>ib_history := ib_history s @ [a]\<rparr>"])
    show "run (attributeInitialLead u conv k) os n s = run (k (Inr (SetHistory conv [a]))) os (Suc (Suc n)) (s\<lparr>ib_history := ib_history s @ [a]\<rparr>)"
      using l app t by (simp add: attributeInitialLead_def quietD [OF q])
    show "known_thread t ch (s\<lparr>ib_history := ib_history s @ [a]\<rparr>) (SetHistory conv [a])"
      using conv(1) by (intro known_thread_SetHistory) (simp add: known_thread_def view_of_def)
  qed (use conv n in \<open>auto simp: SetHistory_def neutral_def\<close>)
qed

lemma run_routeConversation:
  assumes conv: "cv_ChannelID conv = None" "cv_TenantID conv = t"
    and resolver: "resolver_ok u s t ch d"
  shows "\<exists>m chan. run (routeConversation u conv ch d g) os n s = run (g (conv\<lparr>cv_ChannelID := chan\<rparr>)) os m s \<and>
    (chan = None \<or> (\<exists>i. chan = Some i \<and> i \<in> set (ib_channels s)))"
proof -
  have same: "conv\<lparr>cv_ChannelID := None\<rparr> = conv" using conv(1) by simp
  show ?thesis
  proof (cases "ri_channelResolver u")
    case None
    then show ?thesis using same by (intro exI [of _ n] exI [of _ None]) (simp add: routeConversation_def)
  next
    case (Some f)
    then have "run (routeConversation u conv ch d g) os n s = run (case f (os n) s t ch d of None \<Rightarrow> g conv | Some i \<Rightarrow> g (RouteToChannel conv i)) os (Suc n) s"
      using conv(2) by (simp add: routeConversation_def)
    then show ?thesis using same resolver Some
      by (intro exI [of _ "Suc n"] exI [of _ "case f (os n) s t ch d of None \<Rightarrow> None | Some i \<Rightarrow> if i = uuid_nil then None else Some i"])
        (auto simp: RouteToChannel_def resolver_ok_def split: option.split)
  qed
qed

lemma run_open_conversation:
  assumes q: "quiet os" and inv: "inbox_inv s" and c: "(iv_TenantID e, cid) \<in> set (vw_contacts (view_of s))"
    and canon: "ri_lower u (TrimSpace ch) = ch" and ch: "ch \<noteq> ''''" "iv_TenantID e \<noteq> uuid_nil"
    and fresh: "\<And>n. o_ids (os n) 0 \<noteq> uuid_nil \<and> o_ids (os n) 0 \<notin> set (map cv_ID (ib_conversation s)) \<and> o_ids (os n) 0 \<notin> set (map ag_ID (ib_history s))"
    and lead: "lead_ok u s (iv_TenantID e)" and resolver: "resolver_ok u s (iv_TenantID e) ch (TrimSpace (iv_DestinationExternalID e))"
  obtains conv n' s' where "run (open_conversation u e ch cid k) os n s = run (k (Inr conv)) os n' s'" "known_thread (iv_TenantID e) ch s' conv"
    "cv_State conv = ConversationStateOpen" "cv_ContactID conv = cid" "inbox_inv s'" "\<exists>cs h. s' = s\<lparr>ib_conversation := cs, ib_history := h\<rparr>"
proof -
  note cid = contact_row_of [OF inv c]
  show thesis
  proof (cases "FindOpenConversation s (iv_TenantID e) cid ch")
    case (Inr conv)
    have "cv_State conv = ConversationStateOpen"
    proof -
      let ?xs = "filter (\<lambda>c. cv_TenantID c = iv_TenantID e \<and> cv_ContactID c = cid \<and> cv_Channel c = ch \<and> cv_State c = ConversationStateOpen) (ib_conversation s)"
      obtain y ys where y: "sort_key (\<lambda>c. - cv_CreatedAt c) ?xs = y # ys" and cv: "conv = scanConversation y"
        using Inr by (auto simp: FindOpenConversation_def split: if_splits list.splits)
      have "y \<in> set (sort_key (\<lambda>c. - cv_CreatedAt c) ?xs)" using y by simp
      then have "y \<in> set ?xs" unfolding set_sort .
      then show ?thesis using cv by (simp add: scanConversation_def)
    qed
    then show thesis
      by (rule that [rotated 2, where n' = "Suc n" and s' = s])
        (use Inr FindOpenConversation_known [OF Inr] inv in \<open>auto simp: open_conversation_def quietD [OF q] known_thread_def intro!: exI [of _ "ib_conversation s"] exI [of _ "ib_history s"]\<close>)
  next
    case (Inl err)
    then have nf: "err = Sentinel ib_ErrNotFound" using ch(2) cid by (auto simp: FindOpenConversation_def split: if_splits list.splits)
    define conv where "conv = \<lparr>cv_ID = o_ids (os (Suc n)) 0, cv_TenantID = iv_TenantID e, cv_ContactID = cid, cv_Channel = ch, cv_ChannelID = None,
                cv_State = ConversationStateOpen, cv_AssignedUserID = None, cv_LastMessageAt = None, cv_CreatedAt = o_now (os (Suc n)), cv_history = []\<rparr>"
    have new: "NewConversation (ri_lower u) (o_ids (os (Suc n)) 0) (o_now (os (Suc n))) (iv_TenantID e) cid ch = Inr conv"
      using ch cid canon by (simp add: NewConversation_def conv_def)
    have cid0: "cv_ChannelID conv = None" "cv_TenantID conv = iv_TenantID e" by (simp_all add: conv_def)
    obtain m chan where rt: "run (routeConversation u conv ch (TrimSpace (iv_DestinationExternalID e))
        (\<lambda>conv. command (\<lambda>_ db. CreateConversation db conv) (\<lambda>c. case c of Inl err \<Rightarrow> k (Inl err) | Inr _ \<Rightarrow> attributeInitialLead u conv k))) os (Suc (Suc n)) s =
      run (command (\<lambda>_ db. CreateConversation db (conv\<lparr>cv_ChannelID := chan\<rparr>))
        (\<lambda>c. case c of Inl err \<Rightarrow> k (Inl err) | Inr _ \<Rightarrow> attributeInitialLead u (conv\<lparr>cv_ChannelID := chan\<rparr>) k)) os m s"
      and chan: "chan = None \<or> (\<exists>i. chan = Some i \<and> i \<in> set (ib_channels s))"
      using run_routeConversation [OF cid0 resolver] by blast
    let ?cv = "conv\<lparr>cv_ChannelID := chan\<rparr>"
    let ?s = "s\<lparr>ib_conversation := ib_conversation s @ [?cv]\<rparr>"
    have create: "CreateConversation s ?cv = Inr ((), ?s)"
      using ch(2) fresh [of "Suc n"] cid(2) chan by (auto simp: CreateConversation_def conv_def Let_def)
    have kp: "neutral True ([], []) s ?s" "conversation_key ?cv \<in> set (vw_conversations (view_of ?s))"
      using CreateConversation_keeps [OF inv create, of True "([], [])"] c by (simp_all add: conv_def)
    have th: "known_thread (iv_TenantID e) ch ?s ?cv" using kp(2) by (simp add: known_thread_def conv_def)
    have hist: "\<And>n. o_ids (os n) 0 \<notin> set (map ag_ID (ib_history ?s))" using fresh by simp
    have lead': "lead_ok u ?s (iv_TenantID e)" using lead ok_cong(1) [of ?s s] by simp
    obtain conv' n' s' where a: "run (attributeInitialLead u ?cv k) os (Suc m) ?s = run (k (Inr conv')) os n' s'" "known_thread (iv_TenantID e) ch s' conv'"
      "cv_State conv' = ConversationStateOpen" "cv_ContactID conv' = cv_ContactID ?cv" "inbox_inv s'" "\<exists>h. s' = ?s\<lparr>ib_history := h\<rparr>"
      by (rule run_attributeInitialLead [OF q _ th _ ch(2) hist lead', where k = k and n = "Suc m"]) (use kp(1) in \<open>auto simp: neutral_def conv_def\<close>)
    show thesis
    proof (rule that [OF _ a(2,3) _ a(5)])
      show "run (open_conversation u e ch cid k) os n s = run (k (Inr conv')) os n' s'"
        using Inl nf new create a(1) by (simp add: open_conversation_def quietD [OF q] rt)
    qed (use a(4,6) in \<open>auto simp: conv_def\<close>)
  qed
qed

lemma run_linkContactToCampaign:
  assumes "quiet os"
  shows "\<exists>n' cl. run (linkContactToCampaign u t cid body k) os n s = run k os n' (s\<lparr>ib_clicks := cl\<rparr>)"
proof -
  have stay: "\<exists>n' cl. run k os n s = run k os n' (s\<lparr>ib_clicks := cl\<rparr>)" by (intro exI [of _ n] exI [of _ "ib_clicks s"]) simp
  have link: "\<exists>n' cl. run (command (\<lambda>_ db. LinkContactToCampaign db t i cid) (\<lambda>_. k)) os n s = run k os n' (s\<lparr>ib_clicks := cl\<rparr>)" for i
  proof (cases "LinkContactToCampaign s t i cid")
    case (Inl err)
    then show ?thesis by (intro exI [of _ "Suc n"] exI [of _ "ib_clicks s"]) (simp add: quietD [OF assms])
  next
    case (Inr y)
    then obtain cl where "y = ((), s\<lparr>ib_clicks := cl\<rparr>)" by (auto simp: LinkContactToCampaign_def Let_def split: if_splits)
    then show ?thesis using Inr by (intro exI [of _ "Suc n"] exI [of _ cl]) (simp add: quietD [OF assms])
  qed
  show ?thesis using stay link by (auto simp: linkContactToCampaign_def split: option.split)
qed

lemma run_publishInboundMessage:
  assumes "quiet os"
  shows "\<exists>n'. run (publishInboundMessage u p k) os n s = run k os n' (s\<lparr>ib_published := ib_published s @ (if ri_inboundPublisher u then [p] else [])\<rparr>)"
  using assms by (auto simp: publishInboundMessage_def quietD)

text \<open>From the conversation on: the message is stored, the ledger row closed, the message published.\<close>

lemma run_store_inbound:
  assumes q: "quiet os" and inv: "inbox_inv s" and conv: "known_thread (iv_TenantID e) channel s conv" "cv_State conv = ConversationStateOpen"
    and e: "iv_TenantID e \<noteq> uuid_nil" "TrimSpace (iv_Body e) \<noteq> ''''" "channel \<noteq> ''''" "ext \<noteq> ''''" "TrimSpace ext = ext"
    and fresh: "\<And>n. o_ids (os n) 0 \<noteq> uuid_nil \<and> o_ids (os n) 0 \<notin> set (map ms_ID (ib_message s))"
    and row: "list_ex (\<lambda>d. dd_channel d = channel \<and> dd_external_id d = ext) (ib_dedup s)"
  obtains m conv' n' s' where "run (store_inbound u e channel ext c conv) os n s = (Inr (Some (conv', m, c)), n', s')"
    "ms_TenantID m = iv_TenantID e" "ms_ConversationID m = cv_ID conv" "ms_Direction m = MessageDirectionIn" "ms_Body m = TrimSpace (iv_Body e)"
    "ms_ChannelExternalID m = ext" "ib_message s' = ib_message s @ [m]" "contact s' = contact s" "channel_identity s' = channel_identity s"
    "map conversation_key (ib_conversation s') = map conversation_key (ib_conversation s)"
    "list_all (\<lambda>d. dd_channel d = channel \<and> dd_external_id d = ext \<longrightarrow> dd_processed_at d \<noteq> None) (ib_dedup s')"
    "ib_published s' = ib_published s @ (if ri_inboundPublisher u
       then [\<lparr>pm_TenantID = iv_TenantID e, pm_ConversationID = cv_ID conv, pm_MessageID = ms_ID m, pm_Channel = channel, pm_Body = ms_Body m, pm_OccurredAt = ms_CreatedAt m\<rparr>] else [])"
proof -
  have th: "(iv_TenantID e, cv_ID conv) \<in> threads (view_of s)" by (rule known_thread_in_threads [OF conv(1)])
  note nz = thread_row [OF inv th]
  obtain m where m: "inbound_message (os n) e ext (cv_ID conv) = Inr m" "ms_TenantID m = iv_TenantID e" "ms_ConversationID m = cv_ID conv"
    "ms_Direction m = MessageDirectionIn" "ms_Body m = TrimSpace (iv_Body e)" "ms_ChannelExternalID m = ext" "ms_ID m = o_ids (os n) 0" "ms_SentByUserID m = None"
    using e nz(1) by (auto simp: inbound_message_def NewMessage_def AttachMedia_def initial_status_def validInboundStatuses_def Let_def split: option.split)
  obtain conv' where cv: "RecordMessage conv m = Inr conv'" "cv_ID conv' = cv_ID conv" using conv(2) m(3) by (auto simp: RecordMessage_def split: option.splits)
  obtain s1 where save: "SaveMessage s m = Inr ((), s1)" and s1: "\<exists>cs. s1 = s\<lparr>ib_message := ib_message s @ [m], ib_conversation := cs\<rparr>"
  proof -
    have "\<exists>cs. (case update_conversation t i (bump_last_message w) db of None \<Rightarrow> db | Some db'' \<Rightarrow> db'') = db\<lparr>ib_conversation := cs\<rparr>" for t i w db
      by (auto simp: update_conversation_def intro: exI [of _ "ib_conversation db"])
    then obtain cs where "(case update_conversation (ms_TenantID m) (ms_ConversationID m) (bump_last_message (ms_CreatedAt m)) (s\<lparr>ib_message := ib_message s @ [m]\<rparr>) of
        None \<Rightarrow> s\<lparr>ib_message := ib_message s @ [m]\<rparr> | Some db'' \<Rightarrow> db'') = s\<lparr>ib_message := ib_message s @ [m], ib_conversation := cs\<rparr>" by fastforce
    then have "SaveMessage s m = Inr ((), s\<lparr>ib_message := ib_message s @ [m], ib_conversation := cs\<rparr>)"
      using nz e(1) m fresh [of n] by (simp add: SaveMessage_def Let_def)
    then show thesis by (rule that) blast
  qed
  have keys: "map conversation_key (ib_conversation s1) = map conversation_key (ib_conversation s)"
    using view_SaveMessage [OF save] by (simp add: view_of_def)
  define s2 where "s2 = s1\<lparr>ib_dedup := map (\<lambda>d. if dd_channel d = channel \<and> dd_external_id d = ext then d\<lparr>dd_processed_at := Some (o_now (os (Suc (Suc n))))\<rparr> else d) (ib_dedup s1)\<rparr>"
  have mark: "MarkProcessed (o_now (os (Suc (Suc n)))) s1 channel ext = Inr ((), s2)"
    using row e(3,4) s1 by (auto simp: MarkProcessed_def s2_def Let_def)
  let ?pm = "\<lparr>pm_TenantID = iv_TenantID e, pm_ConversationID = cv_ID conv', pm_MessageID = ms_ID m, pm_Channel = channel, pm_Body = ms_Body m, pm_OccurredAt = ms_CreatedAt m\<rparr>"
  let ?ret = "Ret (Inr (Some (conv', m, c))) :: (Conversation \<times> Message \<times> Contact) option iresult ibprog"
  obtain n3 cl where link: "run (linkContactToCampaign u (iv_TenantID e) (ct_ID c) (ms_Body m) (publishInboundMessage u ?pm ?ret)) os (Suc (Suc (Suc n))) s2
      = run (publishInboundMessage u ?pm ?ret) os n3 (s2\<lparr>ib_clicks := cl\<rparr>)"
    using run_linkContactToCampaign [OF q] by blast
  obtain n4 where pub: "run (publishInboundMessage u ?pm ?ret) os n3 (s2\<lparr>ib_clicks := cl\<rparr>)
      = (Inr (Some (conv', m, c)), n4, s2\<lparr>ib_clicks := cl, ib_published := ib_published s2 @ (if ri_inboundPublisher u then [?pm] else [])\<rparr>)"
    using run_publishInboundMessage [OF q, of u ?pm ?ret n3 "s2\<lparr>ib_clicks := cl\<rparr>"] by auto
  have run: "run (store_inbound u e channel ext c conv) os n s
      = (Inr (Some (conv', m, c)), n4, s2\<lparr>ib_clicks := cl, ib_published := ib_published s2 @ (if ri_inboundPublisher u then [?pm] else [])\<rparr>)"
    using m(1) cv(1) save mark link pub by (simp add: store_inbound_def quietD [OF q])
  have s2: "ib_message s2 = ib_message s @ [m]" "contact s2 = contact s" "channel_identity s2 = channel_identity s" "ib_published s2 = ib_published s"
      "ib_conversation s2 = ib_conversation s1"
    using s1 unfolding s2_def by auto
  have closed: "list_all (\<lambda>d. dd_channel d = channel \<and> dd_external_id d = ext \<longrightarrow> dd_processed_at d \<noteq> None) (ib_dedup s2)"
  proof -
    have "list_all (\<lambda>d. dd_channel d = channel \<and> dd_external_id d = ext \<longrightarrow> dd_processed_at d \<noteq> None)
        (map (\<lambda>d. if dd_channel d = channel \<and> dd_external_id d = ext then d\<lparr>dd_processed_at := Some w\<rparr> else d) ds)" for w ds
      by (induction ds) auto
    then show ?thesis by (simp add: s2_def)
  qed
  show thesis
    by (rule that [OF run m(2-6)]) (use closed in \<open>simp_all add: s2 keys cv(2)\<close>)
qed

text \<open>
  C25. A first delivery that can be accepted is accepted: without faults it answers with a message of the tenant that carries the text and the external identifier, stored in
  a conversation on the channel whose contact owns the sender's identity; the ledger row is closed and the message published once.
\<close>

theorem delivery_is_stored:
  assumes "quiet os" "canonical (ri_lower u)" "inbox_inv s" "acceptable u e s" "fresh_inbox_ids os s"
    and "\<not> list_ex (\<lambda>d. dd_channel d = event_channel u e \<and> dd_external_id d = event_key e) (ib_dedup s)"
  shows "\<exists>conv m c n s'. run (ReceiveInbound_Execute u e) os 0 s = (Inr (Some (conv, m, c)), n, s') \<and> ib_message s' = ib_message s @ [m]
    \<and> ms_TenantID m = iv_TenantID e \<and> ms_Body m = TrimSpace (iv_Body e) \<and> ms_ChannelExternalID m = event_key e \<and> ms_Direction m = MessageDirectionIn
    \<and> (\<exists>v \<in> set (ib_conversation s'). cv_ID v = ms_ConversationID m \<and> cv_TenantID v = iv_TenantID e \<and> cv_Channel v = event_channel u e \<and> cv_ContactID v = ct_ID c)
    \<and> (\<exists>r \<in> set (channel_identity s'). ir_tenant_id r = iv_TenantID e \<and> ir_contact_id r = ct_ID c \<and> ir_channel r = event_channel u e \<and> ir_external_id r = TrimSpace (iv_SenderExternalID e))
    \<and> list_all (\<lambda>d. dd_channel d = event_channel u e \<and> dd_external_id d = event_key e \<longrightarrow> dd_processed_at d \<noteq> None) (ib_dedup s')
    \<and> ib_published s' = ib_published s @ (if ri_inboundPublisher u then [\<lparr>pm_TenantID = iv_TenantID e, pm_ConversationID = ms_ConversationID m, pm_MessageID = ms_ID m,
          pm_Channel = event_channel u e, pm_Body = ms_Body m, pm_OccurredAt = ms_CreatedAt m\<rparr>] else [])"
proof -
  define ch where "ch = event_channel u e"
  define ext where "ext = event_key e"
  let ?t = "iv_TenantID e" and ?sender = "iv_SenderExternalID e"
  let ?i = "\<lparr>ci_Channel = ch, ci_ExternalID = TrimSpace ?sender\<rparr>"
  note q = assms(1)
  have wf: "?t \<noteq> uuid_nil" "ch \<noteq> ''''" "ext \<noteq> ''''" "TrimSpace ?sender \<noteq> ''''" "TrimSpace (iv_Body e) \<noteq> ''''" "ch = ChannelWhatsApp \<longrightarrow> isE164 (TrimSpace ?sender)"
    and lead: "lead_ok u s ?t" and res: "resolver_ok u s ?t ch (TrimSpace (iv_DestinationExternalID e))"
    and own: "\<And>r. r \<in> set (channel_identity s) \<Longrightarrow> ir_channel r = ch \<Longrightarrow> ir_external_id r = TrimSpace ?sender \<Longrightarrow> ir_tenant_id r = ?t"
    using assms(4) by (auto simp: acceptable_def well_formed_event_def ch_def ext_def list_all_iff)
  have canon: "ri_lower u (TrimSpace ch) = ch" using assms(2) by (simp add: canonical_def ch_def event_channel_def)
  have ext: "TrimSpace ext = ext" by (simp add: ext_def event_key_def TrimSpace_idem)
  define s1 where "s1 = s\<lparr>ib_dedup := ib_dedup s @ [\<lparr>dd_channel = ch, dd_external_id = ext, dd_processed_at = None\<rparr>]\<rparr>"
  have claim: "Claim s ch ext = Inr ((), s1)" using assms(6) wf by (auto simp: Claim_def s1_def ch_def ext_def)
  have inv1: "inbox_inv s1" using Claim_keeps [OF assms(3) claim] by simp
  have name: "TrimSpace (fallbackDisplay (iv_SenderDisplayName e) ?sender) \<noteq> ''''" using wf(4) by (simp add: fallbackDisplay_def TrimSpace_idem)
  let ?k2 = "\<lambda>c. (\<lambda>cv. case cv of Inl err \<Rightarrow> Ret (Inl err) | Inr conv \<Rightarrow> store_inbound u e ch ext c conv)"
  let ?k1 = "\<lambda>r. case r of Inl err \<Rightarrow> Ret (Inl (map_goerr ib_contacts err)) | Inr (c, created) \<Rightarrow> open_conversation u e ch (ct_ID c) (?k2 c)"
  have fresh: "o_ids (os n) 0 \<noteq> uuid_nil" "o_ids (os n) 0 \<notin> set (map cr_id (contact s))" "o_ids (os n) 0 \<notin> set (map cv_ID (ib_conversation s))"
      "o_ids (os n) 0 \<notin> set (map ms_ID (ib_message s))" "o_ids (os n) 0 \<notin> set (map ag_ID (ib_history s))" for n
    using assms(5) unfolding fresh_inbox_ids_def by blast+
  obtain c new n2 s2 where up: "run (UpsertContactByChannel (ri_lower u) \<lparr>ui_TenantID = ?t, ui_Channel = ch, ui_ExternalID = ?sender,
        ui_DisplayName = fallbackDisplay (iv_SenderDisplayName e) ?sender\<rparr> ?k1) os 1 s1 = run (?k1 (Inr (c, new))) os n2 s2"
      and s2: "\<exists>cs is. s2 = s1\<lparr>contact := cs, channel_identity := is\<rparr>" "inbox_inv s2"
      and row: "\<exists>row \<in> set (channel_identity s2). ir_tenant_id row = ?t \<and> ir_contact_id row = ct_ID c \<and> ir_channel row = ci_Channel ?i \<and> ir_external_id row = ci_ExternalID ?i"
    by (rule run_Upsert [OF q inv1 wf(1) scan_sender [where lower = "ri_lower u" and ch = ch and sender = ?sender, OF canon wf(2,4,6)] name, where k = ?k1 and n = 1]) (use own fresh in \<open>auto simp: s1_def\<close>)
  have tabs: "ib_conversation s2 = ib_conversation s" "ib_history s2 = ib_history s" "ib_tenants s2 = ib_tenants s" "ib_users s2 = ib_users s" "ib_channels s2 = ib_channels s"
    using s2(1) by (auto simp: s1_def)
  have f2: "\<And>n. o_ids (os n) 0 \<noteq> uuid_nil \<and> o_ids (os n) 0 \<notin> set (map cv_ID (ib_conversation s2)) \<and> o_ids (os n) 0 \<notin> set (map ag_ID (ib_history s2))"
    using fresh by (simp add: tabs)
  have ok2: "lead_ok u s2 ?t" "resolver_ok u s2 ?t ch (TrimSpace (iv_DestinationExternalID e))"
    using lead res ok_cong(1) [OF tabs(3,4)] ok_cong(2) [OF tabs(5)] by simp_all
  have cid: "(?t, ct_ID c) \<in> set (vw_contacts (view_of s2))" using row s2(2) by (auto simp: inbox_inv_def Let_def view_of_def)
  obtain conv n3 s3 where op: "run (open_conversation u e ch (ct_ID c) (?k2 c)) os n2 s2 = run (?k2 c (Inr conv)) os n3 s3" and th: "known_thread ?t ch s3 conv"
      and cv: "cv_State conv = ConversationStateOpen" "cv_ContactID conv = ct_ID c" and s3: "inbox_inv s3" "\<exists>cs h. s3 = s2\<lparr>ib_conversation := cs, ib_history := h\<rparr>"
    by (rule run_open_conversation [OF q s2(2) cid canon wf(2,1) f2 ok2, where k = "?k2 c" and n = n2]) simp
  have s3': "ib_message s3 = ib_message s" "ib_dedup s3 = ib_dedup s1" "ib_published s3 = ib_published s" "channel_identity s3 = channel_identity s2"
    using s3(2) s2(1) by (auto simp: s1_def)
  have led: "list_ex (\<lambda>d. dd_channel d = ch \<and> dd_external_id d = ext) (ib_dedup s3)" by (simp add: s3'(2) s1_def)
  have ids: "\<And>n. o_ids (os n) 0 \<noteq> uuid_nil \<and> o_ids (os n) 0 \<notin> set (map ms_ID (ib_message s3))" using fresh s3' by simp
  obtain m conv' n4 s4 where st: "run (store_inbound u e ch ext c conv) os n3 s3 = (Inr (Some (conv', m, c)), n4, s4)"
    and m: "ms_TenantID m = ?t" "ms_ConversationID m = cv_ID conv" "ms_Direction m = MessageDirectionIn" "ms_Body m = TrimSpace (iv_Body e)"
      "ms_ChannelExternalID m = ext" "ib_message s4 = ib_message s3 @ [m]" "contact s4 = contact s3" "channel_identity s4 = channel_identity s3"
      "map conversation_key (ib_conversation s4) = map conversation_key (ib_conversation s3)"
      "list_all (\<lambda>d. dd_channel d = ch \<and> dd_external_id d = ext \<longrightarrow> dd_processed_at d \<noteq> None) (ib_dedup s4)"
      "ib_published s4 = ib_published s3 @ (if ri_inboundPublisher u
         then [\<lparr>pm_TenantID = ?t, pm_ConversationID = cv_ID conv, pm_MessageID = ms_ID m, pm_Channel = ch, pm_Body = ms_Body m, pm_OccurredAt = ms_CreatedAt m\<rparr>] else [])"
    by (rule run_store_inbound [OF q s3(1) th cv(1) wf(1,5,2,3) ext ids led, where c = c and u = u and n = n3])
  have "conversation_key conv \<in> set (map conversation_key (ib_conversation s4))" using th m(9) by (simp add: known_thread_def view_of_def)
  then obtain v where v: "v \<in> set (ib_conversation s4)" "conversation_key v = conversation_key conv" by auto
  have fold: "ri_lower u (TrimSpace (iv_Channel e)) = ch" "TrimSpace (iv_ChannelExternalID e) = ext" by (simp_all add: ch_def ext_def event_channel_def event_key_def)
  have "run (ReceiveInbound_Execute u e) os 0 s = run (UpsertContactByChannel (ri_lower u) \<lparr>ui_TenantID = ?t, ui_Channel = ch, ui_ExternalID = ?sender,
        ui_DisplayName = fallbackDisplay (iv_SenderDisplayName e) ?sender\<rparr> ?k1) os 1 s1"
    using wf(1-4) claim unfolding ReceiveInbound_Execute_def Let_def fold by (simp add: quietD [OF q])
  also note up
  also have "run (?k1 (Inr (c, new))) os n2 s2 = run (open_conversation u e ch (ct_ID c) (?k2 c)) os n2 s2" by simp
  also note op
  also have "run (?k2 c (Inr conv)) os n3 s3 = (Inr (Some (conv', m, c)), n4, s4)" by (simp add: st)
  finally show ?thesis
    unfolding ch_def [symmetric] ext_def [symmetric]
  proof (intro exI conjI)
    show "\<exists>v \<in> set (ib_conversation s4). cv_ID v = ms_ConversationID m \<and> cv_TenantID v = ?t \<and> cv_Channel v = ch \<and> cv_ContactID v = ct_ID c"
      using v m(2) th cv(2) by (auto simp: conversation_key_def known_thread_def intro!: bexI [of _ v])
  qed (use m s3' row in \<open>simp_all\<close>)
qed

text \<open>
  The claim is final: once a delivery has reached the ledger, with whatever answer it ended and whatever happened since, a redelivery is answered as a duplicate and
  changes nothing. A delivery that failed after its claim is therefore never retried with effect.
\<close>

theorem redelivery_changes_nothing:
  assumes "canonical (ri_lower u)" "inbox_inv s" "well_formed_event u e" "\<forall>m. o_fault (os 0) \<noteq> FailBefore m"
    and "inbox_evolves True (store_after (ReceiveInbound_Execute u e) os s) s'" "quiet os'"
  shows "run (ReceiveInbound_Execute u e) os' 0 s' = (Inr None, 1, s')"
proof -
  define ch where "ch = event_channel u e"
  define ext where "ext = event_key e"
  have wf: "iv_TenantID e \<noteq> uuid_nil" "ch \<noteq> ''''" "ext \<noteq> ''''" "TrimSpace (iv_SenderExternalID e) \<noteq> ''''"
    using assms(3) by (simp_all add: well_formed_event_def ch_def ext_def)
  have fold: "ri_lower u (TrimSpace (iv_Channel e)) = ch" "TrimSpace (iv_ChannelExternalID e) = ext" by (simp_all add: ch_def ext_def event_channel_def event_key_def)
  obtain k where ex: "ReceiveInbound_Execute u e = command (\<lambda>_ db. Claim db ch ext) k"
      and dup: "k (iberr ib_ErrInboundAlreadyProcessed) = Ret (Inr None)"
    using wf unfolding ReceiveInbound_Execute_def Let_def fold by simp
  obtain K where K: "inbound_count K s = 0" using unused_key by blast
  have on: "ionce True K False s (ReceiveInbound_Execute u e)" by (rule ReceiveInbound_ionce [OF assms(1)])
  obtain f where f: "ReceiveInbound_Execute u e = Act f" unfolding ex command_def by blast
  obtain p s1 where p: "f (os 0) s = (p, s1)" by (cases "f (os 0) s")
  have cl: "claimed_key (ch, ext) s1"
  proof (cases "Claim s ch ext")
    case (Inl err)
    then have "claimed_key (ch, ext) s" using wf(2,3) by (auto simp: Claim_def claimed_key_def view_of_def dedup_key_def list_ex_iff split: if_splits)
    then show ?thesis using p f Inl unfolding ex command_def by (auto split: fault.splits)
  next
    case (Inr y)
    then obtain t where t: "Claim s ch ext = Inr ((), t)" by (cases y) auto
    then have "claimed_key (ch, ext) t" using Claim_keeps [OF assms(2) t, of True "(ch, ext)"] by simp
    then show ?thesis using p f t assms(4) unfolding ex command_def by (auto split: fault.splits)
  qed
  from once_ActD [OF on [unfolded f] assms(2) evolves_refl _ p] obtain b' where
    k: "inbox_inv s1" "inbox_evolves True s s1" "ionce True K b' s1 p" "inbound_uses True K s1 + of_bool b' \<le> inbound_uses True K s + of_bool (\<not> claimed_key K s \<and> claimed_key K s1)" by auto
  have le: "inbound_uses True K s1 + of_bool b' \<le> of_bool (claimed_key K s1)" using k(4) K by (cases "claimed_key K s1"; cases "claimed_key K s") (auto simp: inbound_uses_def)
  obtain a n' s2 where r: "run p os 1 s1 = (a, n', s2)" by (cases "run p os 1 s1")
  have "inbox_evolves True s1 s2" using io.once_run [OF k(3,1) _ le r] le by (cases "claimed_key K s1") auto
  moreover have "store_after (ReceiveInbound_Execute u e) os s = s2" using r p by (simp add: store_after_def f)
  ultimately have "inbox_evolves True s1 s'" using assms(5) by (auto intro: evolves_trans)
  then have "claimed_key (ch, ext) s'" using cl by (auto simp: claimed_key_def inbox_evolves_def Let_def dest!: set_mono_prefix)
  then have "Claim s' ch ext = iberr ib_ErrInboundAlreadyProcessed"
    using wf(2,3) by (auto simp: Claim_def claimed_key_def view_of_def dedup_key_def list_ex_iff)
  then show ?thesis using dup by (simp add: ex quietD [OF assms(6)])
qed

section \<open>Status callbacks\<close>


definition rank :: "MessageStatus \<Rightarrow> nat" where
  "rank st = the (statusRank st)"
















section \<open>Messages are well-formed\<close>

definition message_ok :: "Message \<Rightarrow> bool" where
  "message_ok m \<longleftrightarrow> ms_TenantID m \<noteq> uuid_nil \<and> ms_ConversationID m \<noteq> uuid_nil \<and> ms_Body m \<noteq> '''' \<and> TrimSpace (ms_Body m) = ms_Body m \<and>
     (ms_Direction m = MessageDirectionIn \<and> validInboundStatuses (ms_Status m) \<or> ms_Direction m = MessageDirectionOut \<and> validOutboundStatuses (ms_Status m))"

text \<open>
  C27. Messages are built and kept well-formed: the constructor makes only messages with a tenant, a conversation, a trimmed non-empty text and a status valid for their
  direction, and every operation of the aggregate keeps such a message so; a status only moves forward, and a failed message stays failed.
\<close>

theorem messages_are_well_formed:
  "(NewMessage i n inp = Inr m \<longrightarrow> message_ok m)
   \<and> (message_ok m \<longrightarrow> message_ok (AttachMedia m h f sc)
      \<and> (AttachChannelExternalID m x = Inr m' \<longrightarrow> message_ok m')
      \<and> (AdvanceStatus m st = Inr m' \<longrightarrow> message_ok m' \<and> ms_Status m' = st \<and>
           (st = MessageStatusFailed \<or> ms_Status m \<noteq> MessageStatusFailed \<and> rank (ms_Status m) \<le> rank st)))"
proof (intro conjI impI)
  assume "NewMessage i n inp = Inr m"
  then show "message_ok m" by (auto simp: NewMessage_def message_ok_def Let_def TrimSpace_idem split: if_splits)
next
  assume "message_ok m"
  then show "message_ok (AttachMedia m h f sc)" by (simp add: AttachMedia_def message_ok_def)
next
  assume "message_ok m" "AttachChannelExternalID m x = Inr m'"
  then show "message_ok m'" by (auto simp: AttachChannelExternalID_def message_ok_def Let_def split: if_splits)
next
  assume m: "message_ok m" and a: "AdvanceStatus m st = Inr m'"
  have "m' = m\<lparr>ms_Status := st\<rparr>" using a by (auto simp: AdvanceStatus_def split: if_splits option.splits)
  then show "message_ok m'" using m a by (cases st) (auto simp: AdvanceStatus_def message_ok_def validInboundStatuses_def validOutboundStatuses_def statusRank_def split: if_splits option.splits)
next
  assume "message_ok m" "AdvanceStatus m st = Inr m'"
  then show "ms_Status m' = st" by (auto simp: AdvanceStatus_def split: if_splits option.splits)
next
  assume "message_ok m" "AdvanceStatus m st = Inr m'"
  then show "st = MessageStatusFailed \<or> ms_Status m \<noteq> MessageStatusFailed \<and> rank (ms_Status m) \<le> rank st"
    by (auto simp: AdvanceStatus_def rank_def split: if_splits option.splits)
qed

section \<open>Sending\<close>

lemma SaveMessage_rows:
  assumes "SaveMessage s m = Inr (x, s')"
  shows "ib_sends s' = ib_sends s" "ib_message s' = ib_message s @ [m]"
  using assms by (auto simp: SaveMessage_def update_conversation_def Let_def split: if_splits option.splits)

lemma UpdateMessage_rows:
  assumes "UpdateMessage s m' = Inr (x, s')" "m \<in> set (ib_message s)" "ms_TenantID m = ms_TenantID m'" "ms_ID m = ms_ID m'"
  shows "ib_sends s' = ib_sends s" "m\<lparr>ms_Status := ms_Status m', ms_ChannelExternalID := ms_ChannelExternalID m'\<rparr> \<in> set (ib_message s')"
  using assms by (auto simp: UpdateMessage_def Let_def image_iff split: if_splits)

text \<open>A row of the message that was sent: as it was stored, or with the outcome.\<close>

definition recorded :: "inbox_db \<Rightarrow> Message \<Rightarrow> MessageStatus \<Rightarrow> bool" where
  "recorded s m st \<longleftrightarrow> (\<exists>x \<in> set (ib_message s). ms_ID x = ms_ID m \<and> ms_TenantID x = ms_TenantID m \<and> ms_ConversationID x = ms_ConversationID m \<and>
     ms_Body x = ms_Body m \<and> ms_Direction x = ms_Direction m \<and> ms_Status x = st)"

lemma run_update:
  assumes "run (command (\<lambda>_ db. UpdateMessage db m') k) os n s = (r, n', s')" "m \<in> set (ib_message s)" "ms_TenantID m = ms_TenantID m'" "ms_ID m = ms_ID m'"
  shows "\<exists>y s1. run (k y) os (Suc n) s1 = (r, n', s') \<and> ib_sends s1 = ib_sends s \<and> (recorded s1 m (ms_Status m') \<or> recorded s1 m (ms_Status m) \<and> (\<exists>e. y = Inl e))"
proof (cases "UpdateMessage s m'")
  case (Inl e)
  have "recorded s m (ms_Status m)" using assms(2) by (auto simp: recorded_def)
  then show ?thesis using assms(1) Inl by (cases "o_fault (os n)") auto
next
  case (Inr y)
  then obtain x s1 where u: "UpdateMessage s m' = Inr (x, s1)" by (cases y) auto
  have old: "recorded s m (ms_Status m)" using assms(2) by (auto simp: recorded_def)
  have new: "recorded s1 m (ms_Status m')" using UpdateMessage_rows(2) [OF u assms(2-4)] unfolding recorded_def by (rule bexI [rotated]) simp
  show ?thesis using assms(1) u old new UpdateMessage_rows(1) [OF u assms(2-4)] by (cases "o_fault (os n)") auto
qed

lemma send_charge_records:
  assumes r: "run (send_charge u out m) os n s = (r, n', s')" and m: "ms_Direction m = MessageDirectionOut" "ms_Status m = MessageStatusPending"
  shows "ib_sends s' = ib_sends s \<and> (\<exists>e. r = Inl e) \<or>
    ib_sends s' = ib_sends s @ [out] \<and> ((\<exists>x. r = Inr x) \<and> recorded s' m MessageStatusSent \<or>
      (\<exists>e. r = Inl e) \<and> (\<exists>st \<in> {MessageStatusPending, MessageStatusSent, MessageStatusFailed}. recorded s' m st))"
proof -
  have failed: "ms_Status (failed_message m) = MessageStatusFailed" "ms_ID (failed_message m) = ms_ID m" "ms_TenantID (failed_message m) = ms_TenantID m"
    using m by (simp_all add: failed_message_def AdvanceStatus_def)
  have sent: "ms_Status m' = MessageStatusSent \<and> ms_ID m' = ms_ID m \<and> ms_TenantID m' = ms_TenantID m" if "sent_message m i = Inr m'" for i m'
    using that m by (auto simp: sent_message_def AttachChannelExternalID_def AdvanceStatus_def statusRank_def Let_def split: if_splits sum.splits option.splits)
  have after: "ib_sends s' = ib_sends s1 @ [out] \<and> ((\<exists>x. r = Inr x) \<and> recorded s' m MessageStatusSent \<or>
      (\<exists>e. r = Inl e) \<and> (\<exists>st \<in> {MessageStatusPending, MessageStatusSent, MessageStatusFailed}. recorded s' m st))"
    if a: "run (SendMessage u out (\<lambda>r. case r of
         None \<Rightarrow> command (\<lambda>_ db. UpdateMessage db (failed_message m)) (\<lambda>_. Ret (Inl (Opaque ''carrier'')))
       | Some i \<Rightarrow> (case sent_message m i of
           Inl err \<Rightarrow> Ret (Inl err)
         | Inr m' \<Rightarrow> command (\<lambda>_ db. UpdateMessage db m') (\<lambda>x. case x of Inl err \<Rightarrow> Ret (Inl err) | Inr _ \<Rightarrow> Ret (Inr m'))))) os k s1 = (r, n', s')"
      and mem: "m \<in> set (ib_message s1)" for s1 k
  proof -
    let ?s = "s1\<lparr>ib_sends := ib_sends s1 @ [out]\<rparr>"
    have mem': "m \<in> set (ib_message ?s)" using mem by simp
    have pend: "recorded ?s m MessageStatusPending" using mem m(2) by (auto simp: recorded_def)
    show ?thesis
    proof (cases "so_carrier u (os k) out")
      case None
      then have r1: "run (command (\<lambda>_ db. UpdateMessage db (failed_message m)) (\<lambda>_. Ret (Inl (Opaque ''carrier'')))) os (Suc k) ?s = (r, n', s')"
        using a unfolding SendMessage_def by (simp del: run_command)
      from run_update [OF r1 mem'] failed m(2) show ?thesis by auto
    next
      case (Some i)
      show ?thesis
      proof (cases "sent_message m i")
        case (Inl err)
        then have "r = Inl err" "s' = ?s" using a Some unfolding SendMessage_def by simp_all
        then show ?thesis using pend by simp
      next
        case (Inr m')
        then have r1: "run (command (\<lambda>_ db. UpdateMessage db m') (\<lambda>x. case x of Inl err \<Rightarrow> Ret (Inl err) | Inr _ \<Rightarrow> Ret (Inr m'))) os (Suc k) ?s = (r, n', s')"
          using a Some unfolding SendMessage_def by (simp del: run_command)
        have "ms_TenantID m = ms_TenantID m'" "ms_ID m = ms_ID m'" using sent [OF Inr] by simp_all
        from run_update [OF r1 mem' this] sent [OF Inr] m(2) obtain y :: "unit iresult" and s2 where
          y: "run (case y of Inl err \<Rightarrow> Ret (Inl err) | Inr _ \<Rightarrow> Ret (Inr m')) os (Suc (Suc k)) s2 = (r, n', s')" "ib_sends s2 = ib_sends ?s"
            "recorded s2 m MessageStatusSent \<or> recorded s2 m MessageStatusPending \<and> (\<exists>e. y = Inl e)" by metis
        then show ?thesis by (cases y) auto
      qed
    qed
  qed
  show ?thesis
  proof (cases "SaveMessage s m")
    case (Inl e)
    then show ?thesis using r unfolding send_charge_def by (cases "o_fault (os n)") auto
  next
    case (Inr y)
    then obtain x s1 where save: "SaveMessage s m = Inr (x, s1)" by (cases y) auto
    note rows = SaveMessage_rows [OF save]
    show ?thesis
    proof (cases "o_fault (os n)")
      case NoFault
      then show ?thesis using r save after [of "Suc n" s1] rows unfolding send_charge_def by simp
    qed (use r save rows in \<open>auto simp: send_charge_def\<close>)
  qed
qed

lemma run_recipient: "\<exists>t n1. run (recipient u inp k) os n s = run (k t) os n1 s"
  by (auto simp: recipient_def split: option.split)

lemma run_to_charge:
  assumes "run (SendOutbound_Execute u inp) os n s = (r, n', s')"
  shows "ib_sends s' = ib_sends s \<and> (\<exists>e. r = Inl e) \<or>
    (\<exists>out m k. run (send_charge u out m) os k s = (r, n', s') \<and> om_TenantID out = si_TenantID inp \<and> om_ConversationID out = si_ConversationID inp \<and> om_Body out = si_Body inp \<and>
      ms_TenantID m = si_TenantID inp \<and> ms_ConversationID m = si_ConversationID inp \<and> ms_Body m = TrimSpace (si_Body inp) \<and>
      ms_Direction m = MessageDirectionOut \<and> ms_Status m = MessageStatusPending)" (is "?goal")
proof -
  let ?out = "\<lambda>conv to. \<lparr>om_TenantID = si_TenantID inp, om_ConversationID = si_ConversationID inp, om_Channel = cv_Channel conv, om_ToExternalID = to,
      om_Body = si_Body inp, om_IdempotencyKey = si_IdempotencyKey inp\<rparr>"
  let ?new = "\<lambda>ev. NewMessage (o_ids ev 0) (o_now ev) \<lparr>nm_TenantID = si_TenantID inp, nm_ConversationID = si_ConversationID inp, nm_Direction = MessageDirectionOut,
      nm_Body = si_Body inp, nm_Status = MessageStatusOther '''', nm_ChannelExternalID = '''', nm_SentByUserID = si_SentByUserID inp\<rparr>"
  let ?k = "\<lambda>conv t. case t of None \<Rightarrow> Ret (Inl (Opaque ''contact lookup'')) | Some to \<Rightarrow> (case so_costFn u (?out conv to) of
      None \<Rightarrow> Ret (Inl (Opaque ''cost''))
    | Some cost \<Rightarrow> draw (\<lambda>ev. case ?new ev of Inl err \<Rightarrow> Ret (Inl err) | Inr m \<Rightarrow> Debit (si_TenantID inp) cost (send_charge u (?out conv to) m)))"
  have new: "ms_TenantID m = si_TenantID inp \<and> ms_ConversationID m = si_ConversationID inp \<and> ms_Body m = TrimSpace (si_Body inp) \<and>
      ms_Direction m = MessageDirectionOut \<and> ms_Status m = MessageStatusPending" if "?new ev = Inr m" for ev m
    using that by (auto simp: NewMessage_def initial_status_def Let_def split: if_splits)
  have go: ?goal if a: "run (recipient u inp (?k conv)) os j s = (r, n', s')" for conv j
  proof -
    obtain t n1 where t: "run (?k conv t) os n1 s = (r, n', s')" using run_recipient [of u inp "?k conv" os j s] a by auto
    show ?thesis
    proof (cases t)
      case (Some to)
      show ?thesis
      proof (cases "so_costFn u (?out conv to)")
        case (Some cost)
        show ?thesis
        proof (cases "?new (os n1)")
          case (Inl err)
          then have "r = Inl err" "s' = s" using t \<open>t = Some to\<close> Some by simp_all
          then show ?thesis by simp
        next
          case (Inr m)
          then have "run (send_charge u (?out conv to) m) os (Suc n1) s = (r, n', s')" using t \<open>t = Some to\<close> Some by (simp add: Debit_def)
          then show ?thesis using new [OF Inr] by (intro disjI2 exI [of _ "?out conv to"] exI [of _ m] exI [of _ "Suc n1"]) simp
        qed
      qed (use t Some in auto)
    qed (use t in auto)
  qed
  show ?thesis
  proof (cases "o_fault (os n) = NoFault \<and> (\<exists>conv. GetConversation s (si_TenantID inp) (si_ConversationID inp) = Inr conv \<and> cv_State conv = ConversationStateOpen)
      \<and> si_TenantID inp \<noteq> uuid_nil \<and> si_ConversationID inp \<noteq> uuid_nil")
    case True
    then obtain conv where "GetConversation s (si_TenantID inp) (si_ConversationID inp) = Inr conv" "cv_State conv = ConversationStateOpen" by blast
    then have "run (recipient u inp (?k conv)) os (Suc n) s = (r, n', s')" using True assms unfolding SendOutbound_Execute_def Let_def by simp
    then show ?thesis by (rule go)
  next
    case False
    then show ?thesis using assms unfolding SendOutbound_Execute_def by (auto split: if_splits fault.splits sum.splits)
  qed
qed

text \<open>
  Nothing is sent unrecorded: whatever faults a send meets, the carrier is asked at most once, and if it is asked there is a message of the conversation with the
  text, pending, sent or failed; an answer without error means that it was sent and is recorded as sent.
\<close>

theorem sends_are_recorded:
  assumes "run (SendOutbound_Execute u inp) os n s = (r, n', s')"
  shows "ib_sends s' = ib_sends s \<and> (\<exists>e. r = Inl e) \<or>
    (\<exists>out m st. ib_sends s' = ib_sends s @ [out] \<and> om_TenantID out = si_TenantID inp \<and> om_ConversationID out = si_ConversationID inp \<and> om_Body out = si_Body inp \<and>
       m \<in> set (ib_message s') \<and> ms_TenantID m = si_TenantID inp \<and> ms_ConversationID m = si_ConversationID inp \<and> ms_Body m = TrimSpace (si_Body inp) \<and>
       ms_Direction m = MessageDirectionOut \<and> ms_Status m \<in> {MessageStatusPending, MessageStatusSent, MessageStatusFailed} \<and>
       ((\<exists>x. r = Inr x) \<longrightarrow> ms_Status m = MessageStatusSent))"
proof -
  have "ib_sends s' = ib_sends s \<and> (\<exists>e. r = Inl e) \<or>
      (\<exists>out m k. run (send_charge u out m) os k s = (r, n', s') \<and> om_TenantID out = si_TenantID inp \<and> om_ConversationID out = si_ConversationID inp \<and> om_Body out = si_Body inp \<and>
        ms_TenantID m = si_TenantID inp \<and> ms_ConversationID m = si_ConversationID inp \<and> ms_Body m = TrimSpace (si_Body inp) \<and>
        ms_Direction m = MessageDirectionOut \<and> ms_Status m = MessageStatusPending)"
    by (rule run_to_charge [OF assms])
  then show ?thesis
  proof (elim disjE exE conjE)
    fix out m k
    assume r: "run (send_charge u out m) os k s = (r, n', s')" and out: "om_TenantID out = si_TenantID inp" "om_ConversationID out = si_ConversationID inp" "om_Body out = si_Body inp"
      and m: "ms_TenantID m = si_TenantID inp" "ms_ConversationID m = si_ConversationID inp" "ms_Body m = TrimSpace (si_Body inp)"
        "ms_Direction m = MessageDirectionOut" "ms_Status m = MessageStatusPending"
    from send_charge_records [OF r m(4,5)] consider "ib_sends s' = ib_sends s \<and> (\<exists>e. r = Inl e)"
      | st where "ib_sends s' = ib_sends s @ [out]" "recorded s' m st" "st \<in> {MessageStatusPending, MessageStatusSent, MessageStatusFailed}" "(\<exists>x. r = Inr x) \<longrightarrow> st = MessageStatusSent"
      by (cases r) auto
    then show ?thesis
    proof cases
      case 2
      then obtain x where "x \<in> set (ib_message s')" "ms_TenantID x = si_TenantID inp" "ms_ConversationID x = si_ConversationID inp" "ms_Body x = TrimSpace (si_Body inp)"
          "ms_Direction x = MessageDirectionOut" "ms_Status x = st"
        using m unfolding recorded_def by auto
      then show ?thesis using 2 out by blast
    qed simp
  qed simp
qed

section \<open>Resetting a training conversation\<close>

text \<open>What a reset may touch: the messages and the row of the conversation, and the logs of the two ports.\<close>

definition reset_frame :: "uuid \<Rightarrow> uuid \<Rightarrow> inbox_db \<Rightarrow> inbox_db \<Rightarrow> bool" where
  "reset_frame t i s s' \<longleftrightarrow> contact s' = contact s \<and> channel_identity s' = channel_identity s \<and> ib_history s' = ib_history s \<and> ib_dedup s' = ib_dedup s \<and> ib_users s' = ib_users s \<and>
     filter (\<lambda>m. \<not> (ms_TenantID m = t \<and> ms_ConversationID m = i)) (ib_message s') = filter (\<lambda>m. \<not> (ms_TenantID m = t \<and> ms_ConversationID m = i)) (ib_message s) \<and>
     filter (\<lambda>c. \<not> (cv_TenantID c = t \<and> cv_ID c = i)) (ib_conversation s') = filter (\<lambda>c. \<not> (cv_TenantID c = t \<and> cv_ID c = i)) (ib_conversation s)"

lemma reset_frame_trans: "reset_frame t i s s1 \<Longrightarrow> reset_frame t i s1 s2 \<Longrightarrow> reset_frame t i s s2"
  by (simp add: reset_frame_def)

lemma reset_frame_refl [simp]: "reset_frame t i s s"
  by (simp add: reset_frame_def)

lemma update_conversation_frame:
  assumes "update_conversation t i f s = Some s'" "\<And>c. cv_TenantID (f c) = cv_TenantID c \<and> cv_ID (f c) = cv_ID c"
  shows "reset_frame t i s s' \<and> ib_message s' = ib_message s"
proof -
  have "filter (\<lambda>c. \<not> (cv_TenantID c = t \<and> cv_ID c = i)) (map (\<lambda>c. if cv_TenantID c = t \<and> cv_ID c = i then f c else c) cs) = filter (\<lambda>c. \<not> (cv_TenantID c = t \<and> cv_ID c = i)) cs" for cs
    using assms(2) by (induction cs) auto
  then show ?thesis using assms(1) by (auto simp: update_conversation_def reset_frame_def split: if_splits)
qed

lemma reset_steps:
  "DeleteMessagesByConversation s t i = Inr (x, s') \<Longrightarrow> i \<noteq> uuid_nil \<Longrightarrow> reset_frame t i s s' \<and> filter (\<lambda>m. ms_TenantID m = t \<and> ms_ConversationID m = i) (ib_message s') = []"
  "ClearConversationLead s t i = Inr (y, s') \<Longrightarrow> reset_frame t i s s' \<and> ib_message s' = ib_message s"
proof -
  show "DeleteMessagesByConversation s t i = Inr (x, s') \<Longrightarrow> i \<noteq> uuid_nil \<Longrightarrow> reset_frame t i s s' \<and> filter (\<lambda>m. ms_TenantID m = t \<and> ms_ConversationID m = i) (ib_message s') = []"
  proof -
    assume a: "DeleteMessagesByConversation s t i = Inr (x, s')" "i \<noteq> uuid_nil"
    let ?s = "s\<lparr>ib_message := filter (\<lambda>m. \<not> (ms_TenantID m = t \<and> ms_ConversationID m = i)) (ib_message s)\<rparr>"
    have f: "reset_frame t i s ?s" by (simp add: reset_frame_def)
    have s': "s' = (case update_conversation t i (cv_LastMessageAt_update (\<lambda>_. None)) ?s of None \<Rightarrow> ?s | Some db'' \<Rightarrow> db'')"
      using a by (simp add: DeleteMessagesByConversation_def Let_def split: if_splits)
    have "reset_frame t i s s' \<and> ib_message s' = ib_message ?s"
    proof (cases "update_conversation t i (cv_LastMessageAt_update (\<lambda>_. None)) ?s")
      case None
      then show ?thesis using f s' by simp
    next
      case (Some db)
      have "reset_frame t i ?s db \<and> ib_message db = ib_message ?s" by (rule update_conversation_frame [OF Some]) simp
      then show ?thesis using reset_frame_trans [OF f] s' Some by simp
    qed
    then show ?thesis by simp
  qed
  show "ClearConversationLead s t i = Inr (y, s') \<Longrightarrow> reset_frame t i s s' \<and> ib_message s' = ib_message s"
    by (auto simp: ClearConversationLead_def split: if_splits option.splits dest: update_conversation_frame)
qed

text \<open>
  Only training conversations are reset: with any faults, a reset leaves the store as it is unless the conversation is on the simulator's channel; then it touches
  nothing but that conversation, and when it answers without error no message of the conversation is left.
\<close>

theorem reset_touches_only_training:
  assumes "run (ResetConversation t i) os n s = (r, n', s')"
  shows "(s' \<noteq> s \<longrightarrow> (\<exists>c. visible_conversation s t i = Some c \<and> cv_Channel c = TrainingChannel)) \<and> reset_frame t i s s' \<and>
    (\<forall>k. r = Inr k \<longrightarrow> filter (\<lambda>m. ms_TenantID m = t \<and> ms_ConversationID m = i) (ib_message s') = [])"
proof (cases "\<exists>c. t \<noteq> uuid_nil \<and> i \<noteq> uuid_nil \<and> o_fault (os n) = NoFault \<and> visible_conversation s t i = Some c \<and> cv_Channel c = TrainingChannel")
  case False
  have "s' = s \<and> (\<exists>e. r = Inl e)"
    using assms False by (auto simp: ResetConversation_def GetConversation_def scanConversation_def split: if_splits fault.splits option.splits)
  then show ?thesis by auto
next
  case True
  then obtain c where c: "t \<noteq> uuid_nil" "i \<noteq> uuid_nil" "o_fault (os n) = NoFault" "visible_conversation s t i = Some c" "cv_Channel c = TrainingChannel" by blast
  let ?empty = "\<lambda>s. filter (\<lambda>m. ms_TenantID m = t \<and> ms_ConversationID m = i) (ib_message s) = []"
  let ?reset = "\<lambda>deleted. port_call (\<lambda>l. ib_resets_update (\<lambda>_. l)) ib_resets t i (\<lambda>r. case r of Inl err \<Rightarrow> Ret (Inl err) | Inr _ \<Rightarrow> Ret (Inr deleted)) :: nat iresult ibprog"
  let ?inval = "\<lambda>deleted. port_call (\<lambda>l. ib_invalidated_update (\<lambda>_. l)) ib_invalidated t i (\<lambda>x. case x of Inl err \<Rightarrow> Ret (Inl err) | Inr _ \<Rightarrow> ?reset deleted) :: nat iresult ibprog"
  let ?clear = "\<lambda>deleted. command (\<lambda>_ db. ClearConversationLead db t i) (\<lambda>x. case x of Inl err \<Rightarrow> Ret (Inl err) | Inr _ \<Rightarrow> ?inval deleted) :: nat iresult ibprog"
  let ?del = "command (\<lambda>_ db. DeleteMessagesByConversation db t i) (\<lambda>d. case d of Inl err \<Rightarrow> Ret (Inl err) | Inr deleted \<Rightarrow> ?clear deleted) :: nat iresult ibprog"
  have reset: "reset_frame t i s1 s' \<and> ib_message s' = ib_message s1" if "run (?reset d) os k s1 = (r, n', s')" for d k s1
    using that unfolding port_call_def by (rule run_command_cases) (auto simp: reset_frame_def split: sum.splits)
  have inval: "reset_frame t i s1 s' \<and> ib_message s' = ib_message s1" if "run (?inval d) os k s1 = (r, n', s')" for d k s1
    using that unfolding port_call_def
  proof (rule run_command_cases)
    fix x y s2
    assume a: "Inr ((), s1\<lparr>ib_invalidated := ib_invalidated s1 @ [(t, i)]\<rparr>) = Inr (x, s2)"
      "run (case y of Inl err \<Rightarrow> Ret (Inl err) | Inr _ \<Rightarrow> command (\<lambda>_ db. Inr ((), db\<lparr>ib_resets := ib_resets db @ [(t, i)]\<rparr>)) (\<lambda>r. case r of Inl err \<Rightarrow> Ret (Inl err) | Inr _ \<Rightarrow> Ret (Inr d))) os (Suc k) s2 = (r, n', s')"
    then show ?thesis using reset [of d "Suc k" s2] unfolding port_call_def by (cases y) (auto simp: reset_frame_def)
  qed auto
  have clear: "reset_frame t i s1 s' \<and> ib_message s' = ib_message s1" if "run (?clear d) os k s1 = (r, n', s')" for d k s1
    using that
  proof (rule run_command_cases)
    fix x y s2
    assume a: "ClearConversationLead s1 t i = Inr (x, s2)" "run (case y of Inl err \<Rightarrow> Ret (Inl err) | Inr _ \<Rightarrow> ?inval d) os (Suc k) s2 = (r, n', s')"
    note b = reset_steps(2) [OF a(1)]
    show ?thesis
    proof (cases y)
      case (Inr u)
      then show ?thesis using a(2) inval [of d "Suc k" s2] b reset_frame_trans [OF conjunct1 [OF b]] by simp
    qed (use a(2) b in auto)
  qed auto
  have del: "reset_frame t i s s' \<and> (\<forall>k. r = Inr k \<longrightarrow> ?empty s')" if "run ?del os (Suc n) s = (r, n', s')"
    using that
  proof (rule run_command_cases)
    fix x y s2
    assume a: "DeleteMessagesByConversation s t i = Inr (x, s2)" "run (case y of Inl err \<Rightarrow> Ret (Inl err) | Inr deleted \<Rightarrow> ?clear deleted) os (Suc (Suc n)) s2 = (r, n', s')"
    note b = reset_steps(1) [OF a(1) c(2)]
    show ?thesis
    proof (cases y)
      case (Inr d)
      then show ?thesis using a(2) clear [of d "Suc (Suc n)" s2] b reset_frame_trans [OF conjunct1 [OF b]] by simp
    qed (use a(2) b in auto)
  qed auto
  have "run ?del os (Suc n) s = (r, n', s')" using assms c unfolding ResetConversation_def by (simp add: GetConversation_def scanConversation_def del: run_command)
  from del [OF this] c show ?thesis by auto
qed

section \<open>An identity of another tenant\<close>

text \<open>
  The identity of a sender belongs to one tenant only: when another tenant has it, a delivery to this tenant answers the conflict without storing a contact, a
  conversation or a message, and its claim stays in the ledger.
\<close>

theorem foreign_identity_blocks:
  assumes "quiet os" "canonical (ri_lower u)" "well_formed_event u e" "event_channel u e = ChannelWhatsApp \<longrightarrow> isE164 (TrimSpace (iv_SenderExternalID e))"
    and "\<not> list_ex (\<lambda>d. dd_channel d = event_channel u e \<and> dd_external_id d = event_key e) (ib_dedup s)"
    and "\<exists>i \<in> set (channel_identity s). ir_channel i = event_channel u e \<and> ir_external_id i = TrimSpace (iv_SenderExternalID e) \<and> ir_tenant_id i \<noteq> iv_TenantID e"
    and "inbox_inv s" "fresh_inbox_ids os s"
  shows "run (ReceiveInbound_Execute u e) os 0 s = (Inl (Sentinel (ib_contacts ct_ErrChannelIdentityConflict)), 5,
    s\<lparr>ib_dedup := ib_dedup s @ [\<lparr>dd_channel = event_channel u e, dd_external_id = event_key e, dd_processed_at = None\<rparr>]\<rparr>)"
proof -
  define ch where "ch = event_channel u e"
  define ext where "ext = event_key e"
  let ?t = "iv_TenantID e" and ?sender = "iv_SenderExternalID e"
  let ?i = "\<lparr>ci_Channel = ch, ci_ExternalID = TrimSpace ?sender\<rparr>"
  note q = quietD [OF assms(1)]
  have wf: "?t \<noteq> uuid_nil" "ch \<noteq> ''''" "ext \<noteq> ''''" "TrimSpace ?sender \<noteq> ''''" using assms(3) by (auto simp: well_formed_event_def ch_def ext_def)
  have fold: "ri_lower u (TrimSpace (iv_Channel e)) = ch" "TrimSpace (iv_ChannelExternalID e) = ext" by (simp_all add: ch_def ext_def event_channel_def event_key_def)
  have canon: "ri_lower u (TrimSpace ch) = ch" using assms(2) by (simp add: canonical_def ch_def event_channel_def)
  have e164: "ch = ChannelWhatsApp \<longrightarrow> isE164 (TrimSpace ?sender)" using assms(4) by (simp add: ch_def)
  define s1 where "s1 = s\<lparr>ib_dedup := ib_dedup s @ [\<lparr>dd_channel = ch, dd_external_id = ext, dd_processed_at = None\<rparr>]\<rparr>"
  have claim: "Claim s ch ext = Inr ((), s1)" using assms(5) wf by (auto simp: Claim_def s1_def ch_def ext_def)
  have new: "NewChannelIdentity (ri_lower u) ch ?sender = Inr ?i" by (rule scan_sender [where lower = "ri_lower u" and ch = ch and sender = ?sender, OF canon wf(2,4) e164])
  obtain row where row: "row \<in> set (channel_identity s)" "ir_channel row = ch" "ir_external_id row = TrimSpace ?sender" "ir_tenant_id row \<noteq> ?t"
    using assms(6) by (auto simp: ch_def)
  have uniq: "r = row" if "r \<in> set (channel_identity s)" "ir_channel r = ch" "ir_external_id r = TrimSpace ?sender" for r
  proof -
    have d: "inj_on (\<lambda>i. (ir_channel i, ir_external_id i)) (set (channel_identity s))" using assms(7) by (simp add: inbox_inv_def Let_def view_of_def distinct_map)
    show ?thesis using inj_onD [OF d _ that(1) row(1)] that row by simp
  qed
  have none: "identity_owner s1 ?t ?i = None"
  proof -
    have "find (\<lambda>r. ir_tenant_id r = ?t \<and> ir_channel r = ci_Channel ?i \<and> ir_external_id r = ci_ExternalID ?i \<and> visible_contact s1 ?t (ir_contact_id r) \<noteq> None) (channel_identity s1) = None"
      using uniq row(4) by (auto simp: find_None_iff s1_def)
    then show ?thesis by (simp add: identity_owner_def)
  qed
  have ids: "o_ids (os 2) 0 \<noteq> uuid_nil" "o_ids (os 2) 0 \<notin> set (map cr_id (contact s1))" using assms(8) by (auto simp: fresh_inbox_ids_def s1_def)
  let ?inp = "\<lparr>ui_TenantID = ?t, ui_Channel = ch, ui_ExternalID = ?sender, ui_DisplayName = fallbackDisplay (iv_SenderDisplayName e) ?sender\<rparr>"
  have name: "TrimSpace (fallbackDisplay (iv_SenderDisplayName e) ?sender) \<noteq> ''''" using wf(4) by (simp add: fallbackDisplay_def TrimSpace_idem)
  obtain c where c: "new_contact (ri_lower u) (os 2) ?inp = Inr c" "ct_ID c = o_ids (os 2) 0" "ct_TenantID c = ?t" "ct_identities c = [?i]"
    using wf(1) name new by (auto simp: new_contact_def contacts_New_def AddChannelIdentity_def Let_def)
  have "list_ex (\<lambda>x. ir_channel x = ch \<and> ir_external_id x = TrimSpace ?sender) (channel_identity s1)" using row by (auto simp: list_ex_iff s1_def)
  then have save: "contacts_Save s1 c = cterr ct_ErrChannelIdentityConflict" using wf(1) ids c by (simp add: contacts_Save_def insert_identity_def)
  have two: "Suc (Suc 0) = 2" by simp
  have find1: "run (FindByChannelIdentity (ri_lower u) ?t ch ?sender k) os n s1 = run (k (cterr ct_ErrNotFound)) os (Suc n) s1" for n and k :: "_ \<Rightarrow> 'z ibprog"
    using run_FindByChannelIdentity [OF assms(1) wf(1) new, of k n s1] none by simp
  have up: "run (UpsertContactByChannel (ri_lower u) ?inp k) os (Suc 0) s1 = run (k (cterr ct_ErrChannelIdentityConflict)) os 5 s1" for k :: "_ \<Rightarrow> 'z ibprog"
    using wf(1) c(1) save by (simp add: UpsertContactByChannel_def create_contact_def find_winner_def find1 q two)
  have "run (ReceiveInbound_Execute u e) os 0 s = (Inl (Sentinel (ib_contacts ct_ErrChannelIdentityConflict)), 5, s1)"
    using wf claim unfolding ReceiveInbound_Execute_def Let_def fold by (simp add: q up)
  then show ?thesis by (simp add: s1_def ch_def ext_def)
qed

section \<open>Examples\<close>

lemma canonical_ex: "canonical (ri_lower receive_ex)"
  by (simp add: canonical_def receive_ex_def TrimSpace_idem)

lemma inbox_inv_ex: "inbox_inv inbox_ex"
  by code_simp

lemma quiet_ex: "quiet env_ex"
  by (simp add: quiet_def env_ex_def)

lemma fresh_ex: "fresh_inbox_ids env_ex inbox_ex"
  by (simp add: fresh_inbox_ids_def env_ex_def inbox_ex_def)

definition delivered_ex :: inbox_db where
  "delivered_ex = store_after (ReceiveInbound_Execute receive_ex event_ex) env_ex inbox_ex"

lemma delivered_reach: "\<exists>pool. inbox_reach (\<lambda>x. x) inbox_ex (delivered_ex, pool)"
proof -
  have "inbox_call (\<lambda>x. x) (bind_prog (ReceiveInbound_Execute receive_ex event_ex) (\<lambda>_. Ret ()))" by (rule call_receive) (simp add: receive_ex_def)
  moreover obtain a n s' where r: "run (ReceiveInbound_Execute receive_ex event_ex) env_ex 0 inbox_ex = (a, n, s')" by (cases "run (ReceiveInbound_Execute receive_ex event_ex) env_ex 0 inbox_ex")
  then have "run (bind_prog (ReceiveInbound_Execute receive_ex event_ex) (\<lambda>_. Ret ())) env_ex 0 inbox_ex = ((), n, delivered_ex)" by (simp add: delivered_ex_def store_after_def)
  ultimately show ?thesis unfolding inbox_reach_def by (intro reach_by_call [where start = "\<lambda>_. inbox_call (\<lambda>x. x)"])
qed

theorem inbound_stored_once_witness:
  "\<exists>pool. inbox_reach (\<lambda>x. x) inbox_ex (delivered_ex, pool) \<and> length (inbound_messages delivered_ex ''whatsapp'' ''m1'') = 1
     \<and> length (inbound_messages delivered_ex ''whatsapp'' ''m1'') \<le> of_bool (list_ex (\<lambda>d. dd_channel d = ''whatsapp'' \<and> dd_external_id d = ''m1'') (ib_dedup delivered_ex))"
proof -
  obtain pool where r: "inbox_reach (\<lambda>x. x) inbox_ex (delivered_ex, pool)" using delivered_reach by blast
  have c: "canonical (\<lambda>x. x)" using canonical_ex by (simp add: receive_ex_def)
  have 0: "length (inbound_messages inbox_ex ''whatsapp'' ''m1'') \<le> of_bool (list_ex (\<lambda>d. dd_channel d = ''whatsapp'' \<and> dd_external_id d = ''m1'') (ib_dedup inbox_ex))" by code_simp
  have 1: "length (inbound_messages delivered_ex ''whatsapp'' ''m1'') = 1" by code_simp
  show ?thesis using inbound_stored_once [OF r c inbox_inv_ex 0] r 1 by auto
qed

theorem delivery_is_stored_witness:
  "\<exists>conv m c n s'. run (ReceiveInbound_Execute receive_ex event_ex) env_ex 0 inbox_ex = (Inr (Some (conv, m, c)), n, s') \<and> ib_message s' = [m] \<and> ms_Body m = ''hi''"
proof -
  have "resolver_ok receive_ex s t ch d" for s t ch d by (simp add: resolver_ok_def receive_ex_def)
  moreover have "well_formed_event receive_ex event_ex" "isE164 (TrimSpace (iv_SenderExternalID event_ex))" "TrimSpace (iv_Body event_ex) \<noteq> ''''"
      "channel_identity inbox_ex = []" "lead_ok receive_ex inbox_ex (iv_TenantID event_ex)" by code_simp+
  ultimately have a: "acceptable receive_ex event_ex inbox_ex" by (simp add: acceptable_def)
  have n: "\<not> list_ex (\<lambda>d. dd_channel d = event_channel receive_ex event_ex \<and> dd_external_id d = event_key event_ex) (ib_dedup inbox_ex)" by code_simp
  have b: "TrimSpace (iv_Body event_ex) = ''hi''" "ib_message inbox_ex = []" by code_simp+
  show ?thesis using delivery_is_stored [OF quiet_ex canonical_ex inbox_inv_ex a fresh_ex n] unfolding b by fastforce
qed

text \<open>
  A delivery whose last write but two fails: the conversation is there, the message is not; the carrier's retry is answered as a duplicate.
  A comment in \<^verbatim>\<open>port_repository.go\<close> leaves such claims to a collector of stale rows; no collector reads this table.
\<close>

definition broken_env :: "nat \<Rightarrow> call_env" where
  "broken_env n = (if n = 10 then (env_ex n)\<lparr>o_fault := FailBefore ''db''\<rparr> else env_ex n)"

definition broken_ex :: inbox_db where
  "broken_ex = store_after (ReceiveInbound_Execute receive_ex event_ex) broken_env inbox_ex"

lemma broken_run:
  "run (ReceiveInbound_Execute receive_ex event_ex) broken_env 0 inbox_ex = (Inl (Opaque ''db''), 11, inbox_ex\<lparr>
     contact := [\<lparr>cr_id = 52, cr_tenant_id = 1, cr_display_name = ''Ana'', cr_created_at = 102, cr_updated_at = 102\<rparr>],
     channel_identity := [\<lparr>ir_tenant_id = 1, ir_contact_id = 52, ir_channel = ''whatsapp'', ir_external_id = ''+5511''\<rparr>],
     ib_conversation := [\<lparr>cv_ID = 55, cv_TenantID = 1, cv_ContactID = 52, cv_Channel = ''whatsapp'', cv_ChannelID = None, cv_State = ConversationStateOpen,
       cv_AssignedUserID = None, cv_LastMessageAt = None, cv_CreatedAt = 105, cv_history = []\<rparr>],
     ib_history := [\<lparr>ag_ID = 58, ag_TenantID = 1, ag_ConversationID = 55, ag_UserID = 7, ag_AssignedAt = 108, ag_Reason = LeadReasonLead\<rparr>],
     ib_dedup := [\<lparr>dd_channel = ''whatsapp'', dd_external_id = ''m1'', dd_processed_at = None\<rparr>]\<rparr>)"
  by code_simp

lemma failed_delivery_loses_the_message:
  "result_of (ReceiveInbound_Execute receive_ex event_ex) broken_env inbox_ex = Inl (Opaque ''db'')" "ib_message broken_ex = []" "length (ib_conversation broken_ex) = 1"
  unfolding result_of_def broken_ex_def store_after_def broken_run by (simp_all add: inbox_ex_def)

theorem redelivery_changes_nothing_witness:
  "run (ReceiveInbound_Execute receive_ex event_ex) env_ex 0 broken_ex = (Inr None, 1, broken_ex) \<and> ib_message broken_ex = []"
proof -
  have w: "well_formed_event receive_ex event_ex" by code_simp
  have f: "\<forall>m. o_fault (broken_env 0) \<noteq> FailBefore m" by (simp add: broken_env_def env_ex_def)
  have e: "inbox_evolves True (store_after (ReceiveInbound_Execute receive_ex event_ex) broken_env inbox_ex) broken_ex" by (simp add: broken_ex_def)
  show ?thesis using redelivery_changes_nothing [OF canonical_ex inbox_inv_ex w f e quiet_ex] failed_delivery_loses_the_message(2) by simp
qed

text \<open>
  The default lead is written to the history but not to the conversation: the conversation reads as unassigned, assigning it to that user is refused as already done, and
  unassigning it does nothing.
\<close>

lemma delivered_rows:
  "ib_history delivered_ex = [\<lparr>ag_ID = 58, ag_TenantID = 1, ag_ConversationID = 55, ag_UserID = 7, ag_AssignedAt = 108, ag_Reason = LeadReasonLead\<rparr>]"
  "map (\<lambda>c. (cv_TenantID c, cv_ID c, cv_State c, cv_AssignedUserID c)) (ib_conversation delivered_ex) = [(1, 55, ConversationStateOpen, None)]"
  "ib_users delivered_ex = [\<lparr>iu_id = 7, iu_tenant_id = Some 1, iu_role = ''tenant_atendente''\<rparr>]"
  by code_simp+

lemma default_lead_is_invisible:
  "run (AssignConversation 1 55 7) env_ex 0 delivered_ex = (iberr ib_ErrAlreadyAssigned, 3, delivered_ex)"
  "run (UnassignConversation 1 55) env_ex 0 delivered_ex = (Inr True, 1, delivered_ex)"
proof -
  obtain c where c: "ib_conversation delivered_ex = [c]" "cv_TenantID c = 1" "cv_ID c = 55" "cv_State c = ConversationStateOpen" "cv_AssignedUserID c = None"
    using delivered_rows(2) by auto
  have get: "GetConversation delivered_ex 1 55 = Inr (scanConversation c)" using c by (simp add: GetConversation_def visible_conversation_def)
  have "IsAssignable delivered_ex 1 7 = Inr True" by (simp add: IsAssignable_def delivered_rows)
  moreover have "LatestAssignment delivered_ex 1 55 = Inr \<lparr>ag_ID = 58, ag_TenantID = 1, ag_ConversationID = 55, ag_UserID = 7, ag_AssignedAt = 108, ag_Reason = LeadReasonLead\<rparr>"
    by (simp add: LatestAssignment_def history_of_def delivered_rows)
  ultimately show "run (AssignConversation 1 55 7) env_ex 0 delivered_ex = (iberr ib_ErrAlreadyAssigned, 3, delivered_ex)"
    using get by (simp add: AssignConversation_def quietD [OF quiet_ex])
  show "run (UnassignConversation 1 55) env_ex 0 delivered_ex = (Inr True, 1, delivered_ex)"
    using get c by (simp add: UnassignConversation_def Unassign_def scanConversation_def quietD [OF quiet_ex])
qed

text \<open>A sent message and two callbacks for it.\<close>

definition sent_ex :: inbox_db where
  "sent_ex = inbox_ex\<lparr>contact := [\<lparr>cr_id = 20, cr_tenant_id = 1, cr_display_name = ''Ana'', cr_created_at = 0, cr_updated_at = 0\<rparr>],
     ib_conversation := [\<lparr>cv_ID = 30, cv_TenantID = 1, cv_ContactID = 20, cv_Channel = ''whatsapp'', cv_ChannelID = None, cv_State = ConversationStateOpen, cv_AssignedUserID = None,
       cv_LastMessageAt = None, cv_CreatedAt = 0, cv_history = []\<rparr>],
     ib_message := [\<lparr>ms_ID = 40, ms_TenantID = 1, ms_ConversationID = 30, ms_Direction = MessageDirectionOut, ms_Body = ''hello'', ms_Status = MessageStatusSent,
       ms_ChannelExternalID = ''w1'', ms_SentByUserID = Some 7, ms_CreatedAt = 0, ms_Media = None\<rparr>]\<rparr>"

definition callback :: "MessageStatus \<Rightarrow> StatusUpdate" where
  "callback st = \<lparr>su_TenantID = 1, su_Channel = ''whatsapp'', su_ChannelExternalID = ''w1'', su_NewStatus = st\<rparr>"


text \<open>
  At the same time they do not commute: both have read the sent message, \<^verbatim>\<open>read\<close> is written and then overwritten by \<^verbatim>\<open>delivered\<close>; both answer \<^verbatim>\<open>applied\<close> and no
  later callback brings \<^verbatim>\<open>read\<close> back.
\<close>

lemma concurrent_callbacks_regress:
  "map ms_Status (ib_message (snd (snd (interleave2 [True, True, False, False, False, True] env_ex 0
     (HandleStatus (\<lambda>x. x) (callback MessageStatusDelivered)) (HandleStatus (\<lambda>x. x) (callback MessageStatusRead)) sent_ex)))) = [MessageStatusDelivered]"
  by code_simp

text \<open>
  A callback that arrives before the carrier's identifier is stored finds no message; it is answered as unknown and its ledger row closed, and the repetition after the
  message is there is answered without effect.
\<close>

lemma early_callback_is_lost:
  "let s = sent_ex\<lparr>ib_message := map (ms_ChannelExternalID_update (\<lambda>_. '''')) (ib_message sent_ex)\<rparr>;
       s1 = store_after (HandleStatus (\<lambda>x. x) (callback MessageStatusDelivered)) env_ex s;
       s2 = s1\<lparr>ib_message := ib_message sent_ex\<rparr>
   in result_of (HandleStatus (\<lambda>x. x) (callback MessageStatusDelivered)) env_ex s =
        Inr \<lparr>sq_Outcome = StatusOutcomeUnknownMessage, sq_PreviousStatus = None, sq_NewStatus = MessageStatusDelivered\<rparr> \<and>
      run (HandleStatus (\<lambda>x. x) (callback MessageStatusDelivered)) env_ex 0 s2 =
        (Inr \<lparr>sq_Outcome = StatusOutcomeNoop, sq_PreviousStatus = None, sq_NewStatus = MessageStatusDelivered\<rparr>, 1, s2)"
  by code_simp

definition foreign_ex :: inbox_db where
  "foreign_ex = inbox_ex\<lparr>contact := [\<lparr>cr_id = 20, cr_tenant_id = 2, cr_display_name = ''Ana'', cr_created_at = 0, cr_updated_at = 0\<rparr>],
     channel_identity := [\<lparr>ir_tenant_id = 2, ir_contact_id = 20, ir_channel = ''whatsapp'', ir_external_id = ''+5511''\<rparr>]\<rparr>"

theorem foreign_identity_blocks_witness:
  "run (ReceiveInbound_Execute receive_ex event_ex) env_ex 0 foreign_ex = (Inl (Sentinel (ib_contacts ct_ErrChannelIdentityConflict)), 5,
     foreign_ex\<lparr>ib_dedup := [\<lparr>dd_channel = ''whatsapp'', dd_external_id = ''m1'', dd_processed_at = None\<rparr>]\<rparr>)"
proof -
  have w: "well_formed_event receive_ex event_ex" "event_channel receive_ex event_ex = ChannelWhatsApp \<longrightarrow> isE164 (TrimSpace (iv_SenderExternalID event_ex))" by code_simp+
  have n: "\<not> list_ex (\<lambda>d. dd_channel d = event_channel receive_ex event_ex \<and> dd_external_id d = event_key event_ex) (ib_dedup foreign_ex)" by code_simp
  have o: "\<exists>i \<in> set (channel_identity foreign_ex). ir_channel i = event_channel receive_ex event_ex \<and> ir_external_id i = TrimSpace (iv_SenderExternalID event_ex) \<and> ir_tenant_id i \<noteq> iv_TenantID event_ex"
    by code_simp
  have i: "inbox_inv foreign_ex" by code_simp
  have f: "fresh_inbox_ids env_ex foreign_ex" by (simp add: fresh_inbox_ids_def env_ex_def foreign_ex_def inbox_ex_def)
  have k: "event_channel receive_ex event_ex = ''whatsapp''" "event_key event_ex = ''m1''" "ib_dedup foreign_ex = []" by code_simp+
  show ?thesis using foreign_identity_blocks [OF quiet_ex canonical_ex w n o i f] unfolding k by simp
qed

definition send_ex :: SendOutbound where
  "send_ex = \<lparr>so_carrier = (\<lambda>_ _. Some ''w9''), so_costFn = (\<lambda>_. Some 1), so_contactID = None\<rparr>"

definition send_input_ex :: SendOutboundInput where
  "send_input_ex = \<lparr>si_TenantID = 1, si_ConversationID = 30, si_Body = ''ok'', si_SentByUserID = Some 7, si_ToExternalID = ''+5511'', si_IdempotencyKey = ''k''\<rparr>"

theorem sends_are_recorded_witness:
  "\<exists>r n s' out m. run (SendOutbound_Execute send_ex send_input_ex) env_ex 0 sent_ex = (r, n, s') \<and> ib_sends s' = [out] \<and> m \<in> set (ib_message s') \<and>
     ms_Body m = TrimSpace ''ok'' \<and> ms_Status m = MessageStatusSent"
proof -
  obtain r n s' where r: "run (SendOutbound_Execute send_ex send_input_ex) env_ex 0 sent_ex = (r, n, s')" by (cases "run (SendOutbound_Execute send_ex send_input_ex) env_ex 0 sent_ex")
  have "case result_of (SendOutbound_Execute send_ex send_input_ex) env_ex sent_ex of Inl _ \<Rightarrow> False | Inr _ \<Rightarrow> True" by code_simp
  then have ok: "\<exists>x. r = Inr x" using r by (simp add: result_of_def split: sum.splits)
  have "ib_sends sent_ex = []" "si_Body send_input_ex = ''ok''" by code_simp+
  then show ?thesis using sends_are_recorded [OF r] ok r by auto
qed

theorem reset_touches_only_training_witness:
  "\<exists>r n s'. run (ResetConversation 1 30) env_ex 0 (sent_ex\<lparr>ib_conversation := map (cv_Channel_update (\<lambda>_. TrainingChannel)) (ib_conversation sent_ex)\<rparr>) = (r, n, s') \<and> r = Inr 1 \<and>
     filter (\<lambda>m. ms_TenantID m = 1 \<and> ms_ConversationID m = 30) (ib_message s') = []"
proof -
  define s where "s = sent_ex\<lparr>ib_conversation := map (cv_Channel_update (\<lambda>_. TrainingChannel)) (ib_conversation sent_ex)\<rparr>"
  obtain r n s' where r: "run (ResetConversation 1 30) env_ex 0 s = (r, n, s')" by (cases "run (ResetConversation 1 30) env_ex 0 s")
  have "result_of (ResetConversation 1 30) env_ex s = Inr 1" unfolding s_def by code_simp
  then have ok: "r = Inr 1" using r by (simp add: result_of_def)
  then show ?thesis using reset_touches_only_training [OF r] r unfolding s_def by blast
qed

text \<open>A second conversation of the tenant, on the training channel; its reset deletes its message and leaves the other conversation's.\<close>

definition training_ex :: inbox_db where
  "training_ex = sent_ex\<lparr>ib_conversation := ib_conversation sent_ex @ map (\<lambda>c. c\<lparr>cv_ID := 31, cv_Channel := TrainingChannel\<rparr>) (ib_conversation sent_ex),
     ib_message := ib_message sent_ex @ map (\<lambda>m. m\<lparr>ms_ID := 41, ms_ConversationID := 31, ms_Body := ''test''\<rparr>) (ib_message sent_ex)\<rparr>"

theorem inbox_tenants_stay_apart_witness:
  "\<exists>s n pool. run (ResetConversation 1 31) env_ex 0 training_ex = (Inr 1, n, s) \<and> inbox_reach_any (\<lambda>x. x) training_ex (s, pool) \<and>
     map ms_Body (ib_message training_ex) = [''hello'', ''test''] \<and> map ms_Body (ib_message s) = [''hello''] \<and>
     (\<exists>m \<in> set (ib_message s). ms_ID m = 40 \<and> ms_ConversationID m = 30 \<and> ms_Body m = ''hello'')"
proof -
  obtain r n s where r: "run (ResetConversation 1 31) env_ex 0 training_ex = (r, n, s)" by (cases "run (ResetConversation 1 31) env_ex 0 training_ex")
  have "result_of (ResetConversation 1 31) env_ex training_ex = Inr 1" by code_simp
  then have ok: "r = Inr 1" using r by (simp add: result_of_def)
  have "map ms_Body (ib_message (store_after (ResetConversation 1 31) env_ex training_ex)) = [''hello'']" by code_simp
  then have left: "map ms_Body (ib_message s) = [''hello'']" using r by (simp add: store_after_def)
  have "run (bind_prog (ResetConversation 1 31) (\<lambda>_. Ret ())) env_ex 0 training_ex = ((), n, s)" using r by simp
  then obtain pool where p: "inbox_reach_any (\<lambda>x. x) training_ex (s, pool)"
    unfolding inbox_reach_any_def using reach_by_call [where start = "\<lambda>_. inbox_call_any (\<lambda>x. x)", OF call_reset] by blast
  have c: "canonical (\<lambda>x. x)" using canonical_ex by (simp add: receive_ex_def)
  have inv: "inbox_inv training_ex" by code_simp
  define m where "m = hd (ib_message sent_ex)"
  have m: "m \<in> set (ib_message training_ex)" "ms_ID m = 40" "ms_ConversationID m = 30" "ms_Body m = ''hello''"
    unfolding m_def by code_simp+
  have "list_all (\<lambda>v. cv_ID v = 30 \<longrightarrow> cv_Channel v \<noteq> TrainingChannel) (ib_conversation (store_after (ResetConversation 1 31) env_ex training_ex))" by code_simp
  then have "\<forall>v \<in> set (ib_conversation s). cv_ID v = 30 \<longrightarrow> cv_Channel v \<noteq> TrainingChannel" using r by (simp add: store_after_def list_all_iff)
  then have "\<exists>m \<in> set (ib_message s). ms_ID m = 40 \<and> ms_ConversationID m = 30 \<and> ms_Body m = ''hello''"
    using inbox_tenants_stay_apart [OF p c inv] m by fastforce
  moreover have "map ms_Body (ib_message training_ex) = [''hello'', ''test'']" by code_simp
  ultimately show ?thesis using r [unfolded ok] p left by (intro exI [of _ s] exI [of _ n] exI [of _ pool]) simp
qed

theorem messages_are_well_formed_witness:
  "\<exists>m. NewMessage 40 0 \<lparr>nm_TenantID = 1, nm_ConversationID = 30, nm_Direction = MessageDirectionOut, nm_Body = '' hi '', nm_Status = MessageStatusOther '''',
     nm_ChannelExternalID = '''', nm_SentByUserID = None\<rparr> = Inr m \<and> message_ok m \<and> (\<exists>m'. AdvanceStatus m MessageStatusSent = Inr m' \<and> message_ok m')"
proof -
  define m where "m = \<lparr>ms_ID = 40, ms_TenantID = 1, ms_ConversationID = 30, ms_Direction = MessageDirectionOut, ms_Body = ''hi'', ms_Status = MessageStatusPending,
       ms_ChannelExternalID = '''', ms_SentByUserID = None, ms_CreatedAt = 0, ms_Media = None\<rparr>"
  have new: "NewMessage 40 0 \<lparr>nm_TenantID = 1, nm_ConversationID = 30, nm_Direction = MessageDirectionOut, nm_Body = '' hi '', nm_Status = MessageStatusOther '''',
     nm_ChannelExternalID = '''', nm_SentByUserID = None\<rparr> = Inr m" unfolding m_def by code_simp
  have adv: "AdvanceStatus m MessageStatusSent = Inr (m\<lparr>ms_Status := MessageStatusSent\<rparr>)" by (simp add: AdvanceStatus_def m_def statusRank_def)
  show ?thesis using messages_are_well_formed new adv by blast
qed

end
