(* ===== verification/SlugReservation.thy ===== *)
theory SlugReservation
  imports BillingStore GoStrings StoreSafety
begin

text \<open>
  Slug reservations, \<^verbatim>\<open>src/internal/slugreservation\<close>: a slug a tenant gives up is locked for a year, a master operator can
  lift the lock, and a renamed tenant's old subdomain redirects to the new one. The stores are
  \<^verbatim>\<open>slug_reservation_store.go\<close> and \<^verbatim>\<open>slug_redirect_store.go\<close> over the tables of migrations 0008 and 0009, with the
  grants and the audit trigger these give the two database roles. The route wiring is \<^verbatim>\<open>cmd/server/slugreservation_wire.go\<close>.
\<close>

section \<open>Slugs\<close>

definition hour_ns :: int where
  "hour_ns = 3600 * 1000000000"

definition ReservationWindow :: duration where
  "ReservationWindow = 365 * 24 * hour_ns"

definition RedirectWindow :: duration where
  "RedirectWindow = ReservationWindow"

definition MaxSlugLen :: nat where
  "MaxSlugLen = 63"

text \<open>The expression \<^verbatim>\<open>^[a-z0-9](?:[a-z0-9-]*[a-z0-9])?$\<close>; \<^verbatim>\<open>$\<close> matches at the end of the text only.\<close>

definition alnum_lower :: "char \<Rightarrow> bool" where
  "alnum_lower c \<longleftrightarrow> (let n = of_char c :: nat in 97 \<le> n \<and> n \<le> 122 \<or> 48 \<le> n \<and> n \<le> 57)"

definition slugPattern :: "string \<Rightarrow> bool" where
  "slugPattern s \<longleftrightarrow> s \<noteq> [] \<and> alnum_lower (hd s) \<and> alnum_lower (List.last s) \<and> list_all (\<lambda>c. alnum_lower c \<or> c = CHR ''-'') s"

record Reservation =
  rv_ID :: uuid
  rv_Slug :: string
  rv_ReleasedAt :: time
  rv_ReleasedByTenantID :: uuid
  rv_ExpiresAt :: time
  rv_CreatedAt :: time

record Redirect =
  rd_OldSlug :: string
  rd_NewSlug :: string
  rd_ExpiresAt :: time

record MasterOverrideEvent =
  ov_Slug :: string
  ov_MasterID :: uuid
  ov_Reason :: string
  ov_At :: time

text \<open>
  The sentinels, the error that carries the reservation (\<^verbatim>\<open>ReservedError\<close>, which unwraps to \<^verbatim>\<open>ErrSlugReserved\<close>), and the
  two driver errors the store looks for.
\<close>

datatype slug_error =
    sl_ErrInvalidSlug
  | ReservedError Reservation
  | sl_ErrNotReserved
  | sl_ErrReasonRequired
  | sl_ErrZeroMaster
  | pgx_ErrNoRows
  | pg_unique_violation

type_synonym 'a slresult = "(slug_error, 'a) result"

fun as_ReservedError :: "slug_error goerr \<Rightarrow> Reservation option" where
  "as_ReservedError (Sentinel (ReservedError r)) = Some r"
| "as_ReservedError (Sentinel _) = None"
| "as_ReservedError (Wrapped msg e) = as_ReservedError e"
| "as_ReservedError (Opaque msg) = None"

text \<open>A text that lower-cases to a slug is all ASCII but for the two characters \<open>ToLower_view\<close> knows.\<close>

definition NormalizeSlug :: "string \<Rightarrow> string slresult" where
  "NormalizeSlug raw =
     (let s = ToLower_view (TrimSpace raw) in
      if s = '''' \<or> length s > MaxSlugLen then Inl (Sentinel sl_ErrInvalidSlug)
      else if \<not> slugPattern s then Inl (Sentinel sl_ErrInvalidSlug)
      else Inr s)"

definition digit_char :: "int \<Rightarrow> char" where
  "digit_char n = char_of (48 + nat (n mod 10))"

definition pad2 :: "int \<Rightarrow> string" where
  "pad2 n = [digit_char (n div 10), digit_char n]"

definition pad4 :: "int \<Rightarrow> string" where
  "pad4 n = pad2 (n div 100) @ pad2 n"

text \<open>\<^verbatim>\<open>t.UTC().Format("2006-01-02")\<close> for years 0 to 9999.\<close>

definition FormatExpiresAt :: "time \<Rightarrow> string" where
  "FormatExpiresAt t =
     (let d = t div day_ns; k = month_of d
      in pad4 (k div 12) @ ''-'' @ pad2 (k mod 12 + 1) @ ''-'' @ pad2 (d - month_start k + 1))"

text \<open>\<^verbatim>\<open>t.UTC().Format("2006-01-02T15:04:05Z07:00")\<close>.\<close>

definition FormatRFC3339 :: "time \<Rightarrow> string" where
  "FormatRFC3339 t =
     (let sec = t mod day_ns div 1000000000
      in FormatExpiresAt t @ ''T'' @ pad2 (sec div 3600) @ '':'' @ pad2 (sec div 60 mod 60) @ '':'' @ pad2 (sec mod 60) @ ''Z'')"

section \<open>The tables\<close>

record reservation_row =
  sr_id :: uuid
  sr_slug :: string
  sr_released_at :: time
  sr_released_by_tenant_id :: "uuid option"
  sr_expires_at :: time
  sr_released_by_master :: bool
  sr_created_at :: time

record redirect_row =
  rr_old_slug :: string
  rr_new_slug :: string
  rr_expires_at :: time
  rr_created_at :: time
  rr_updated_at :: time

text \<open>The rows of \<^verbatim>\<open>master_ops_audit\<close> the trigger writes; the key of a redirect is not its \<^verbatim>\<open>id\<close>, so its target is empty.\<close>

record master_audit_row =
  ma_actor :: uuid
  ma_kind :: string
  ma_table :: string
  ma_target_pk :: "uuid option"

text \<open>\<open>override_log\<close> is what the audit port has recorded, \<open>alerts\<close> what the alert port has sent, as the events they print.\<close>

record slug_db =
  reservations :: "reservation_row list"
  redirects :: "redirect_row list"
  master_ops_audit :: "master_audit_row list"
  override_log :: "MasterOverrideEvent list"
  alerts :: "MasterOverrideEvent list"

text \<open>The role of the connection, with the setting \<^verbatim>\<open>app.master_ops_actor_user_id\<close> of a master connection.\<close>

datatype pg_role = app_runtime | app_master_ops "uuid option"

type_synonym 'a slprog = "(slug_db, call_env, 'a) prog"

definition permission_denied :: "slug_error goerr" where
  "permission_denied = Opaque ''ERROR: permission denied (SQLSTATE 42501)''"

text \<open>\<^verbatim>\<open>master_ops_audit_trigger()\<close> for one row.\<close>

definition master_ops_audit_trigger :: "pg_role \<Rightarrow> string \<Rightarrow> string \<Rightarrow> uuid option \<Rightarrow> slug_db \<Rightarrow> slug_db slresult" where
  "master_ops_audit_trigger role kind tbl pk db =
     (case role of
        app_runtime \<Rightarrow> Inr db
      | app_master_ops None \<Rightarrow> Inl (Opaque ''app_master_ops requires app.master_ops_actor_user_id GUC'')
      | app_master_ops (Some actor) \<Rightarrow>
          Inr (db\<lparr>master_ops_audit := master_ops_audit db @ [\<lparr>ma_actor = actor, ma_kind = kind, ma_table = tbl, ma_target_pk = pk\<rparr>]\<rparr>))"

section \<open>The reservation store\<close>

definition reservation_of :: "reservation_row \<Rightarrow> Reservation" where
  "reservation_of row =
     \<lparr>rv_ID = sr_id row, rv_Slug = sr_slug row, rv_ReleasedAt = sr_released_at row,
      rv_ReleasedByTenantID = (case sr_released_by_tenant_id row of None \<Rightarrow> uuid_nil | Some t \<Rightarrow> t),
      rv_ExpiresAt = sr_expires_at row, rv_CreatedAt = sr_created_at row\<rparr>"

definition scanReservation :: "reservation_row slresult \<Rightarrow> Reservation slresult" where
  "scanReservation r =
     (case r of
        Inl e \<Rightarrow> if errors_is e pgx_ErrNoRows then Inl (Sentinel sl_ErrNotReserved)
                 else Inl (Wrapped ''slug reservation scan'' e)
      | Inr row \<Rightarrow> Inr (reservation_of row))"

definition first_row :: "'r list \<Rightarrow> 'r slresult" where
  "first_row rows = (case rows of [] \<Rightarrow> Inl (Sentinel pgx_ErrNoRows) | r # _ \<Rightarrow> Inr r)"

definition active_rows :: "slug_db \<Rightarrow> string \<Rightarrow> time \<Rightarrow> reservation_row list" where
  "active_rows db slug now =
     filter (\<lambda>r. sr_slug r = slug \<and> \<not> sr_released_by_master r \<and> sr_expires_at r > now) (reservations db)"

definition reservation_Active :: "string \<Rightarrow> (Reservation slresult \<Rightarrow> 'a slprog) \<Rightarrow> 'a slprog" where
  "reservation_Active slug k = query_env (\<lambda>ev db. first_row (active_rows db slug (o_now ev))) (\<lambda>r. k (scanReservation r))"

text \<open>The primary key and the partial unique index on the rows no master has released.\<close>

definition insert_reservation ::
  "pg_role \<Rightarrow> call_env \<Rightarrow> string \<Rightarrow> uuid option \<Rightarrow> time \<Rightarrow> time \<Rightarrow> slug_db \<Rightarrow> (reservation_row \<times> slug_db) slresult" where
  "insert_reservation role ev slug byArg releasedAt expiresAt db =
     (let row = \<lparr>sr_id = o_ids ev 0, sr_slug = slug, sr_released_at = releasedAt, sr_released_by_tenant_id = byArg,
                 sr_expires_at = expiresAt, sr_released_by_master = False, sr_created_at = o_now ev\<rparr> in
      case master_ops_audit_trigger role ''insert'' ''tenant_slug_reservation'' (Some (sr_id row)) db of
        Inl e \<Rightarrow> Inl e
      | Inr db' \<Rightarrow>
          if list_ex (\<lambda>r. sr_id r = sr_id row) (reservations db)
             \<or> list_ex (\<lambda>r. sr_slug r = slug \<and> \<not> sr_released_by_master r) (reservations db)
            then Inl (Sentinel pg_unique_violation)
          else Inr (row, db'\<lparr>reservations := reservations db @ [row]\<rparr>))"

definition reservation_Insert ::
  "pg_role \<Rightarrow> string \<Rightarrow> uuid \<Rightarrow> time \<Rightarrow> time \<Rightarrow> (Reservation slresult \<Rightarrow> 'a slprog) \<Rightarrow> 'a slprog" where
  "reservation_Insert role slug byTenant releasedAt expiresAt k =
     command (\<lambda>ev. insert_reservation role ev slug (if byTenant \<noteq> uuid_nil then Some byTenant else None) releasedAt expiresAt)
       (\<lambda>r. case scanReservation r of
          Inl e \<Rightarrow>
            if errors_is e pg_unique_violation then
              reservation_Active slug (\<lambda>a. case a of
                Inr existing \<Rightarrow> k (Inl (Sentinel (ReservedError existing)))
              | Inl _ \<Rightarrow> k (Inl e))
            else k (Inl e)
        | Inr res \<Rightarrow> k (Inr res))"

text \<open>The update of the active row; the trigger sees every row it touches, of which the unique index leaves one.\<close>

primrec audit_updates :: "pg_role \<Rightarrow> reservation_row list \<Rightarrow> slug_db \<Rightarrow> slug_db slresult" where
  "audit_updates role [] db = Inr db"
| "audit_updates role (r # rs) db =
     (case master_ops_audit_trigger role ''update'' ''tenant_slug_reservation'' (Some (sr_id r)) db of
        Inl e \<Rightarrow> Inl e
      | Inr db' \<Rightarrow> audit_updates role rs db')"

definition soft_delete :: "pg_role \<Rightarrow> string \<Rightarrow> time \<Rightarrow> slug_db \<Rightarrow> (reservation_row \<times> slug_db) slresult" where
  "soft_delete role slug at_time db =
     (if role = app_runtime then Inl permission_denied
      else
        let hit = (\<lambda>r. sr_slug r = slug \<and> \<not> sr_released_by_master r \<and> sr_expires_at r > at_time);
            upd = (\<lambda>r. r\<lparr>sr_expires_at := at_time, sr_released_by_master := True\<rparr>) in
        case audit_updates role (filter hit (reservations db)) db of
          Inl e \<Rightarrow> Inl e
        | Inr db' \<Rightarrow>
            (case first_row (filter hit (reservations db)) of
               Inl e \<Rightarrow> Inl e
             | Inr r \<Rightarrow> Inr (upd r, db'\<lparr>reservations := map (\<lambda>r. if hit r then upd r else r) (reservations db)\<rparr>)))"

definition reservation_SoftDelete :: "pg_role \<Rightarrow> string \<Rightarrow> time \<Rightarrow> (Reservation slresult \<Rightarrow> 'a slprog) \<Rightarrow> 'a slprog" where
  "reservation_SoftDelete role slug at_time k = command (\<lambda>_. soft_delete role slug at_time) (\<lambda>r. k (scanReservation r))"

section \<open>The redirect store\<close>

definition scanRedirect :: "string \<Rightarrow> redirect_row slresult \<Rightarrow> Redirect slresult" where
  "scanRedirect msg r =
     (case r of Inl e \<Rightarrow> Inl (Wrapped msg e)
      | Inr row \<Rightarrow> Inr \<lparr>rd_OldSlug = rr_old_slug row, rd_NewSlug = rr_new_slug row, rd_ExpiresAt = rr_expires_at row\<rparr>)"

definition redirect_Active :: "string \<Rightarrow> (Redirect slresult \<Rightarrow> 'a slprog) \<Rightarrow> 'a slprog" where
  "redirect_Active oldSlug k =
     query_env (\<lambda>ev db. first_row (filter (\<lambda>r. rr_old_slug r = oldSlug \<and> rr_expires_at r > o_now ev) (redirects db)))
       (\<lambda>r. case r of
          Inl e \<Rightarrow> if errors_is e pgx_ErrNoRows then k (Inl (Sentinel sl_ErrNotReserved)) else k (scanRedirect ''slug redirect active'' r)
        | Inr _ \<Rightarrow> k (scanRedirect ''slug redirect active'' r))"

text \<open>Only the master role may write the table.\<close>

definition upsert_redirect :: "pg_role \<Rightarrow> time \<Rightarrow> string \<Rightarrow> string \<Rightarrow> time \<Rightarrow> slug_db \<Rightarrow> (redirect_row \<times> slug_db) slresult" where
  "upsert_redirect role now oldSlug newSlug expiresAt db =
     (if role = app_runtime then Inl permission_denied
      else
        case find (\<lambda>r. rr_old_slug r = oldSlug) (redirects db) of
          None \<Rightarrow>
            (case master_ops_audit_trigger role ''insert'' ''tenant_slug_redirect'' None db of
               Inl e \<Rightarrow> Inl e
             | Inr db' \<Rightarrow>
                 let row = \<lparr>rr_old_slug = oldSlug, rr_new_slug = newSlug, rr_expires_at = expiresAt, rr_created_at = now, rr_updated_at = now\<rparr>
                 in Inr (row, db'\<lparr>redirects := redirects db @ [row]\<rparr>))
        | Some old \<Rightarrow>
            (case master_ops_audit_trigger role ''insert'' ''tenant_slug_redirect'' None db of
               Inl e \<Rightarrow> Inl e
             | Inr db1 \<Rightarrow>
                 (case master_ops_audit_trigger role ''update'' ''tenant_slug_redirect'' None db1 of
                    Inl e \<Rightarrow> Inl e
                  | Inr db2 \<Rightarrow>
                      let row = old\<lparr>rr_new_slug := newSlug, rr_expires_at := expiresAt, rr_updated_at := now\<rparr>
                      in Inr (row, db2\<lparr>redirects := map (\<lambda>r. if rr_old_slug r = oldSlug then row else r) (redirects db)\<rparr>))))"

definition redirect_Upsert :: "pg_role \<Rightarrow> string \<Rightarrow> string \<Rightarrow> time \<Rightarrow> (Redirect slresult \<Rightarrow> 'a slprog) \<Rightarrow> 'a slprog" where
  "redirect_Upsert role oldSlug newSlug expiresAt k =
     command (\<lambda>ev. upsert_redirect role (o_now ev) oldSlug newSlug expiresAt) (\<lambda>r. k (scanRedirect ''slug redirect upsert'' r))"

section \<open>The service\<close>

definition CheckAvailable :: "string \<Rightarrow> unit slresult slprog" where
  "CheckAvailable rawSlug =
     (case NormalizeSlug rawSlug of
        Inl e \<Rightarrow> Ret (Inl e)
      | Inr slug \<Rightarrow>
          reservation_Active slug (\<lambda>a. case a of
            Inl e \<Rightarrow> if errors_is e sl_ErrNotReserved then Ret (Inr ())
                     else Ret (Inl (Wrapped ''slugreservation: check available'' e))
          | Inr res \<Rightarrow> Ret (Inl (Sentinel (ReservedError res)))))"

definition ReleaseSlug :: "pg_role \<Rightarrow> string \<Rightarrow> uuid \<Rightarrow> Reservation slresult slprog" where
  "ReleaseSlug role rawSlug byTenantID =
     (case NormalizeSlug rawSlug of
        Inl e \<Rightarrow> Ret (Inl e)
      | Inr slug \<Rightarrow>
          read_clock (\<lambda>now.
            reservation_Insert role slug byTenantID now (now + ReservationWindow) (\<lambda>r. case r of
              Inl e \<Rightarrow> Ret (Inl (Wrapped ''slugreservation: release'' e))
            | Inr res \<Rightarrow> Ret (Inr res))))"

text \<open>The two ports of the override: each may fail, the second one unnoticed.\<close>

definition LogMasterOverride :: "MasterOverrideEvent \<Rightarrow> (unit slresult \<Rightarrow> 'a slprog) \<Rightarrow> 'a slprog" where
  "LogMasterOverride ov k = command (\<lambda>_ db. Inr ((), db\<lparr>override_log := override_log db @ [ov]\<rparr>)) k"

definition NotifyAlert :: "MasterOverrideEvent \<Rightarrow> (unit slresult \<Rightarrow> 'a slprog) \<Rightarrow> 'a slprog" where
  "NotifyAlert ov k = command (\<lambda>_ db. Inr ((), db\<lparr>alerts := alerts db @ [ov]\<rparr>)) k"

definition OverrideRelease :: "pg_role \<Rightarrow> string \<Rightarrow> uuid \<Rightarrow> string \<Rightarrow> Reservation slresult slprog" where
  "OverrideRelease role rawSlug masterID reason =
     (if masterID = uuid_nil then Ret (Inl (Sentinel sl_ErrZeroMaster))
      else if TrimSpace reason = '''' then Ret (Inl (Sentinel sl_ErrReasonRequired))
      else case NormalizeSlug rawSlug of
        Inl e \<Rightarrow> Ret (Inl e)
      | Inr slug \<Rightarrow>
          read_clock (\<lambda>now.
            reservation_SoftDelete role slug now (\<lambda>r. case r of
              Inl e \<Rightarrow> if errors_is e sl_ErrNotReserved then Ret (Inl (Sentinel sl_ErrNotReserved))
                       else Ret (Inl (Wrapped ''slugreservation: override'' e))
            | Inr res \<Rightarrow>
                let ov = \<lparr>ov_Slug = slug, ov_MasterID = masterID, ov_Reason = TrimSpace reason, ov_At = now\<rparr> in
                LogMasterOverride ov (\<lambda>a. case a of
                  Inl e \<Rightarrow> Ret (Inl (Wrapped ''slugreservation: override audit'' e))
                | Inr _ \<Rightarrow> NotifyAlert ov (\<lambda>_. Ret (Inr res))))))"

definition LookupRedirect :: "string \<Rightarrow> (Redirect slresult \<Rightarrow> 'a slprog) \<Rightarrow> 'a slprog" where
  "LookupRedirect rawSlug k =
     (case NormalizeSlug rawSlug of
        Inl e \<Rightarrow> k (Inl e)
      | Inr slug \<Rightarrow> redirect_Active slug k)"

definition RecordRedirect :: "pg_role \<Rightarrow> string \<Rightarrow> string \<Rightarrow> Redirect slresult slprog" where
  "RecordRedirect role oldRaw newRaw =
     (case NormalizeSlug oldRaw of
        Inl e \<Rightarrow> Ret (Inl e)
      | Inr oldSlug \<Rightarrow>
          (case NormalizeSlug newRaw of
             Inl e \<Rightarrow> Ret (Inl e)
           | Inr newSlug \<Rightarrow>
               if oldSlug = newSlug then Ret (Inl (Sentinel sl_ErrInvalidSlug))
               else read_clock (\<lambda>now.
                 redirect_Upsert role oldSlug newSlug (now + RedirectWindow) (\<lambda>r. case r of
                   Inl e \<Rightarrow> Ret (Inl (Wrapped ''slugreservation: record redirect'' e))
                 | Inr red \<Rightarrow> Ret (Inr red)))))"

section \<open>The HTTP boundary\<close>

record slug_request =
  sq_Host :: string
  sq_TLS :: bool
  sq_ForwardedProto :: string
  sq_RequestURI :: string
  sq_Authorization :: string
  sq_PathSlug :: string
  sq_FormSlug :: "string option"
  sq_Body :: "string option"

text \<open>\<open>sq_FormSlug\<close> is \<^verbatim>\<open>None\<close> when the form does not parse, \<open>sq_Body\<close> when reading it fails or it exceeds the limit.\<close>

datatype slug_body =
    reservedBody string string string string
  | invalidBody string
  | overrideResponse string string string

datatype slug_answer =
    ServeNextHandler
  | HttpError nat string
  | WriteJSON nat slug_body
  | MovedPermanently string

definition PathValueExtractor :: "slug_request \<Rightarrow> string option" where
  "PathValueExtractor r = (if sq_PathSlug r = '''' then None else Some (sq_PathSlug r))"

definition formSlugExtractor :: "slug_request \<Rightarrow> string option" where
  "formSlugExtractor r =
     (case sq_FormSlug r of None \<Rightarrow> None
      | Some v \<Rightarrow> if TrimSpace v = '''' then None else Some (TrimSpace v))"

definition writeReservedConflict :: "Reservation \<Rightarrow> slug_answer" where
  "writeReservedConflict res =
     (let until = FormatExpiresAt (rv_ExpiresAt res)
      in WriteJSON 409 (reservedBody (rv_Slug res) until ''reserved'' (''this slug is reserved until '' @ until)))"

definition RequireSlugAvailable :: "(slug_request \<Rightarrow> string option) \<Rightarrow> slug_request \<Rightarrow> slug_answer slprog" where
  "RequireSlugAvailable extract r =
     (case extract r of
        None \<Rightarrow> Ret ServeNextHandler
      | Some slug \<Rightarrow>
          bind_prog (CheckAvailable slug) (\<lambda>res. Ret (case res of
            Inr () \<Rightarrow> ServeNextHandler
          | Inl e \<Rightarrow>
              if errors_is e sl_ErrInvalidSlug then WriteJSON 400 (invalidBody ''invalid slug'')
              else case as_ReservedError e of
                Some rv \<Rightarrow> writeReservedConflict rv
              | None \<Rightarrow> HttpError 500 ''internal error'')))"

text \<open>
  The master gate in front of the override: the configured token, and the identity derived from it by \<^verbatim>\<open>uuid.NewSHA1\<close>, an
  argument. \<open>Inr\<close> is what the gate puts into the request's context.
\<close>

definition masterIDFromToken :: "(string \<Rightarrow> uuid) \<Rightarrow> string \<Rightarrow> uuid" where
  "masterIDFromToken newSHA1 token = (if token = '''' then uuid_nil else newSHA1 token)"

definition masterAuthMiddleware :: "(string \<Rightarrow> uuid) \<Rightarrow> string \<Rightarrow> string \<Rightarrow> slug_request \<Rightarrow> slug_answer + uuid \<times> bool" where
  "masterAuthMiddleware newSHA1 envToken envRequire r =
     (let token = TrimSpace envToken;
          mfa = (envRequire = ''1'' \<or> token \<noteq> '''');
          h = sq_Authorization r in
      if token = '''' then Inl (HttpError 401 ''unauthorized'')
      else if \<not> HasPrefix h ''Bearer '' then Inl (HttpError 401 ''unauthorized'')
      else if drop 7 h \<noteq> token then Inl (HttpError 401 ''unauthorized'')
      else Inr (masterIDFromToken newSHA1 token, mfa))"

text \<open>The override handler; \<open>auth\<close> is what \<^verbatim>\<open>AuthorizeMaster\<close> finds in the context, \<open>reason_of\<close> the JSON decoder.\<close>

definition OverrideHandler ::
  "pg_role \<Rightarrow> (string \<Rightarrow> string option) \<Rightarrow> bool \<Rightarrow> (uuid \<times> bool) option \<Rightarrow> slug_request \<Rightarrow> slug_answer slprog" where
  "OverrideHandler role reason_of requireMFA auth r =
     (case auth of
        None \<Rightarrow> Ret (HttpError 403 ''forbidden'')
      | Some (masterID, mfa) \<Rightarrow>
          if masterID = uuid_nil then Ret (HttpError 403 ''forbidden'')
          else if requireMFA \<and> \<not> mfa then Ret (HttpError 403 ''mfa required'')
          else if sq_PathSlug r = '''' then Ret (HttpError 400 ''slug required'')
          else case sq_Body r of
            None \<Rightarrow> Ret (HttpError 413 ''body too large'')
          | Some body \<Rightarrow>
              (case (if body = '''' then Some '''' else reason_of body) of
                 None \<Rightarrow> Ret (HttpError 400 ''invalid json'')
               | Some reason \<Rightarrow>
                   bind_prog (OverrideRelease role (sq_PathSlug r) masterID reason) (\<lambda>res. Ret (case res of
                     Inr rv \<Rightarrow> WriteJSON 200 (overrideResponse (rv_Slug rv) (FormatRFC3339 (rv_ExpiresAt rv)) ''released'')
                   | Inl e \<Rightarrow>
                       if errors_is e sl_ErrInvalidSlug then WriteJSON 400 (invalidBody ''invalid slug'')
                       else if errors_is e sl_ErrReasonRequired then WriteJSON 400 (invalidBody ''reason required'')
                       else if errors_is e sl_ErrZeroMaster then HttpError 403 ''forbidden''
                       else if errors_is e sl_ErrNotReserved then HttpError 404 ''no active reservation''
                       else HttpError 500 ''internal error''))))"

text \<open>The route of the override as \<^verbatim>\<open>registerSlugReservationRoutes\<close> mounts it, on a pool of the given role.\<close>

definition override_route ::
  "pg_role \<Rightarrow> (string \<Rightarrow> uuid) \<Rightarrow> (string \<Rightarrow> string option) \<Rightarrow> string \<Rightarrow> string \<Rightarrow> slug_request \<Rightarrow> slug_answer slprog" where
  "override_route role newSHA1 reason_of envToken envRequire r =
     (case masterAuthMiddleware newSHA1 envToken envRequire r of
        Inl a \<Rightarrow> Ret a
      | Inr auth \<Rightarrow> OverrideHandler role reason_of (envRequire = ''1'') (Some auth) r)"

text \<open>\<^verbatim>\<open>strings.LastIndex(h, ":")\<close> and the port of a host.\<close>

definition last_colon :: "string \<Rightarrow> nat option" where
  "last_colon h = (if CHR '':'' \<in> set h then Some (length h - 1 - length (takeWhile (\<lambda>c. c \<noteq> CHR '':'') (rev h))) else None)"

definition stripPort :: "string \<Rightarrow> string" where
  "stripPort h =
     (case last_colon h of
        Some i \<Rightarrow> if i > 0 \<and> CHR '']'' \<notin> set (drop i h) then take i h else h
      | None \<Rightarrow> h)"

definition TrimSuffix :: "string \<Rightarrow> string \<Rightarrow> string" where
  "TrimSuffix s suf = (if suffix suf s then take (length s - length suf) s else s)"

definition buildRedirectURL :: "slug_request \<Rightarrow> string \<Rightarrow> string \<Rightarrow> string" where
  "buildRedirectURL r newSlug primary =
     (let scheme0 = (if \<not> sq_TLS r \<and> sq_ForwardedProto r = '''' then ''http'' else ''https'');
          scheme = (if sq_ForwardedProto r = ''https'' \<or> sq_ForwardedProto r = ''http'' then sq_ForwardedProto r else scheme0);
          path = (if sq_RequestURI r = '''' then ''/'' else sq_RequestURI r)
      in scheme @ ''://'' @ newSlug @ ''.'' @ primary @ path)"

text \<open>The subdomain a host names under the primary host; \<open>lower\<close> is \<^verbatim>\<open>strings.ToLower\<close>.\<close>

definition redirect_label :: "(string \<Rightarrow> string) \<Rightarrow> string \<Rightarrow> string \<Rightarrow> string option" where
  "redirect_label lower primaryHost rawHost =
     (let host = lower (stripPort rawHost);
          primary = lower (TrimSpace primaryHost);
          suf = ''.'' @ primary in
      if primary = '''' \<or> host = '''' then None
      else if host = primary \<or> \<not> suffix suf host then None
      else let slug = TrimSuffix host suf in
           if slug = '''' \<or> CHR ''.'' \<in> set slug then None else Some slug)"

definition RedirectHandler :: "(string \<Rightarrow> string) \<Rightarrow> string \<Rightarrow> slug_request \<Rightarrow> slug_answer slprog" where
  "RedirectHandler lower primaryHost r =
     (case redirect_label lower primaryHost (sq_Host r) of
        None \<Rightarrow> Ret ServeNextHandler
      | Some slug \<Rightarrow>
          LookupRedirect slug (\<lambda>res. Ret (case res of
            Inl _ \<Rightarrow> ServeNextHandler
          | Inr red \<Rightarrow> MovedPermanently (buildRedirectURL r (rd_NewSlug red) (lower (TrimSpace primaryHost))))))"

section \<open>Releases by the custom-domain pages\<close>

text \<open>\<^verbatim>\<open>slugReleaseAdapter\<close> of \<^verbatim>\<open>cmd/server/customdomain_wire.go\<close> reserves the first label of a host.\<close>

definition firstLabel :: "string \<Rightarrow> string" where
  "firstLabel host = takeWhile (\<lambda>c. c \<noteq> CHR ''.'') host"

definition slugReleaseAdapter :: "pg_role \<Rightarrow> string \<Rightarrow> uuid \<Rightarrow> unit slresult slprog" where
  "slugReleaseAdapter role host byTenantID =
     bind_prog (ReleaseSlug role (firstLabel host) byTenantID) (\<lambda>r. Ret (case r of Inl e \<Rightarrow> Inl e | Inr _ \<Rightarrow> Inr ()))"

end
