(* ===== verification/CustomDomain.thy ===== *)
theory CustomDomain
  imports SlugReservation ClickMarker Embedding "HOL-Library.Word"
begin

text \<open>
  Custom domains, \<^verbatim>\<open>src/internal/customdomain\<close>: a tenant claims a host, proves it with a TXT record, and the certificate
  service asks whether it may issue for it. Here are the host rules, the address block list, the validator, the
  enrollment gate with its sliding windows and breaker, the tables and the store
  \<^verbatim>\<open>src/internal/adapter/store/postgres/custom_domain_store.go\<close>. DNS is an argument: what a lookup finds at an instant.
\<close>

unbundle bit_operations_syntax

section \<open>Host names\<close>

primrec split_dot_aux :: "string \<Rightarrow> string \<Rightarrow> string list" where
  "split_dot_aux acc [] = [rev acc]"
| "split_dot_aux acc (c # s) = (if c = CHR ''.'' then rev acc # split_dot_aux [] s else split_dot_aux (c # acc) s)"

text \<open>\<^verbatim>\<open>strings.Split(s, ".")\<close>.\<close>

definition split_dot :: "string \<Rightarrow> string list" where
  "split_dot s = split_dot_aux [] s"

definition isAllDigitsAndDots :: "string \<Rightarrow> bool" where
  "isAllDigitsAndDots host = list_all (\<lambda>c. c = CHR ''.'' \<or> is_digit c) host"

definition checkLabel :: "string \<Rightarrow> string option" where
  "checkLabel label =
     (if label = '''' then Some ''empty label''
      else if length label > 63 then Some ''label too long''
      else if hd label = CHR ''-'' \<or> List.last label = CHR ''-'' then Some ''label starts or ends with hyphen''
      else if \<not> list_all (\<lambda>c. alnum_lower c \<or> c = CHR ''-'') label then Some ''label has invalid character''
      else None)"

datatype domain_error =
    md_ErrInvalidHost | md_ErrPrivateIP | md_ErrTokenMismatch | md_ErrTenantMismatch | md_ErrAlreadyVerified
  | md_ErrSlugReserved | md_ErrTokenExpired | md_ErrTokenRotated | md_ErrStoreNotFound
  | vd_ErrPrivateIP | vd_ErrTokenMismatch | vd_ErrNoAddress | vd_ErrEmptyHost | vd_ErrEmptyToken
  | en_ErrZeroTenant | cb_ErrZeroTenant | ta_ErrNotFound
  | md_pgx_ErrNoRows | md_unique_violation
  | slug_failure slug_error

type_synonym 'a mdresult = "(domain_error, 'a) result"

fun first_bad_label :: "string list \<Rightarrow> string option" where
  "first_bad_label [] = None"
| "first_bad_label (l # ls) = (case checkLabel l of Some m \<Rightarrow> Some m | None \<Rightarrow> first_bad_label ls)"

text \<open>A host that is accepted is all ASCII after lower-casing, so \<open>ToLower_view\<close> decides as \<^verbatim>\<open>strings.ToLower\<close> does.\<close>

definition NormalizeHost :: "string \<Rightarrow> string mdresult" where
  "NormalizeHost raw =
     (let host = TrimSuffix (TrimSpace (ToLower_view raw)) ''.'' in
      if host = '''' then Inl (Wrapped ''empty host'' (Sentinel md_ErrInvalidHost))
      else if length host > 253 then Inl (Wrapped ''host too long (>253 chars)'' (Sentinel md_ErrInvalidHost))
      else if CHR ''.'' \<notin> set host then Inl (Wrapped ''missing dot'' (Sentinel md_ErrInvalidHost))
      else if isAllDigitsAndDots host then Inl (Wrapped ''IP literal not allowed'' (Sentinel md_ErrInvalidHost))
      else case first_bad_label (split_dot host) of
        Some m \<Rightarrow> Inl (Wrapped m (Sentinel md_ErrInvalidHost))
      | None \<Rightarrow> Inr host)"

text \<open>\<^verbatim>\<open>normalizeHost\<close> of \<^verbatim>\<open>tls_ask\<close>; the empty string stands for a host it refuses.\<close>

definition ask_label_ok :: "string \<Rightarrow> bool" where
  "ask_label_ok label \<longleftrightarrow> label \<noteq> '''' \<and> hd label \<noteq> CHR ''-'' \<and> List.last label \<noteq> CHR ''-'' \<and>
     list_all (\<lambda>c. alnum_lower c \<or> c = CHR ''-'' \<or> c = CHR ''_'') label"

definition ask_normalizeHost :: "string \<Rightarrow> string" where
  "ask_normalizeHost raw =
     (let host = ToLower_view (TrimSuffix (TrimSpace raw) ''.''); labels = split_dot host in
      if host = '''' then ''''
      else if length labels < 2 then ''''
      else if \<not> list_all ask_label_ok labels then ''''
      else host)"

definition TXTRecordFor :: "string \<Rightarrow> string" where
  "TXTRecordFor host = ''_crm-verify.'' @ host"

definition TXTValueFor :: "string \<Rightarrow> string" where
  "TXTValueFor token = ''crm-verify='' @ token"

section \<open>Addresses\<close>

text \<open>\<^verbatim>\<open>netip.Addr\<close> as a resolver builds it from A and AAAA records, so without zones.\<close>

datatype netip_addr = AddrInvalid | Addr4 "32 word" | Addr6 "128 word"

definition Unmap :: "netip_addr \<Rightarrow> netip_addr" where
  "Unmap a = (case a of
      Addr6 w \<Rightarrow> if drop_bit 32 w = 0xFFFF then Addr4 (ucast w) else Addr6 w
    | _ \<Rightarrow> a)"

datatype netip_prefix = Prefix4 "32 word" nat | Prefix6 "128 word" nat

definition Contains :: "netip_prefix \<Rightarrow> netip_addr \<Rightarrow> bool" where
  "Contains p a = (case (p, a) of
      (Prefix4 base bits, Addr4 w) \<Rightarrow> drop_bit (32 - bits) w = drop_bit (32 - bits) base
    | (Prefix6 base bits, Addr6 w) \<Rightarrow> drop_bit (128 - bits) w = drop_bit (128 - bits) base
    | _ \<Rightarrow> False)"

definition blockedPrefixes :: "netip_prefix list" where
  "blockedPrefixes =
     [Prefix4 0x0A000000 8, Prefix4 0xAC100000 12, Prefix4 0xC0A80000 16, Prefix4 0x7F000000 8, Prefix4 0xA9FE0000 16,
      Prefix4 0x64400000 10, Prefix4 0x00000000 8, Prefix4 0xE0000000 4,
      Prefix6 1 128, Prefix6 0xFC000000000000000000000000000000 7, Prefix6 0xFE800000000000000000000000000000 10]"

definition isBlocked :: "netip_addr \<Rightarrow> bool" where
  "isBlocked ip = (if ip = AddrInvalid then True else list_ex (\<lambda>p. Contains p (Unmap ip)) blockedPrefixes)"

record IPAnswer =
  ia_IP :: netip_addr
  ia_DNSSEC :: bool

text \<open>The resolver port; an error of a lookup is a text.\<close>

record dns_resolver =
  LookupIP :: "time \<Rightarrow> string \<Rightarrow> string + IPAnswer list"
  LookupTXT :: "time \<Rightarrow> string \<Rightarrow> string + string list"

section \<open>The tables\<close>

record Domain =
  dm_ID :: uuid
  dm_TenantID :: uuid
  dm_Host :: string
  dm_VerificationToken :: string
  dm_VerifiedAt :: "time option"
  dm_VerifiedWithDNSSEC :: bool
  dm_TLSPausedAt :: "time option"
  dm_DeletedAt :: "time option"
  dm_FailedAt :: "time option"
  dm_FailureReason :: string
  dm_DNSResolutionLogID :: "uuid option"
  dm_TokenIssuedAt :: time
  dm_CreatedAt :: time
  dm_UpdatedAt :: time

text \<open>
  The rows of \<^verbatim>\<open>tenant_custom_domains\<close> are \<open>Domain\<close> records: every column is scanned into the field of its name, a missing
  failure reason as the empty string.
\<close>

record dns_log_row =
  dl_tenant_id :: "uuid option"
  dl_host :: string
  dl_pinned_ip :: "netip_addr option"
  dl_dnssec :: bool
  dl_decision :: string
  dl_reason :: string
  dl_phase :: string
  dl_created_at :: time

datatype Window = WindowHour | WindowDay | WindowMonth

text \<open>A sorted set is the list of its members, here the 128-bit numbers drawn as members, with their scores.\<close>

type_synonym zbucket = "(nat \<times> int) list"

record domain_db =
  custom_domains :: "Domain list"
  dns_resolution_log :: "dns_log_row list"
  enroll_buckets :: "uuid \<Rightarrow> Window \<Rightarrow> zbucket"
  breaker_fails :: "uuid \<Rightarrow> zbucket"
  breaker_frozen :: "uuid \<Rightarrow> time option"
  ask_buckets :: "string \<Rightarrow> zbucket"
  slugs :: slug_db

type_synonym 'a mdprog = "(domain_db, call_env, 'a) prog"

abbreviation put_slugs :: "slug_db \<Rightarrow> domain_db \<Rightarrow> domain_db" where
  "put_slugs s \<equiv> slugs_update (\<lambda>_. s)"

interpretation slugs_part: part_of slugs put_slugs
  by unfold_locales simp_all

section \<open>Status\<close>

datatype DomainStatus = md_StatusUnknown | md_StatusPending | md_StatusVerified | md_StatusPaused | md_StatusError | md_StatusFailed

definition StatusOf :: "Domain \<Rightarrow> bool \<Rightarrow> DomainStatus" where
  "StatusOf d lastVerifyErr =
     (if dm_TLSPausedAt d \<noteq> None then md_StatusPaused
      else if dm_VerifiedAt d \<noteq> None then md_StatusVerified
      else if dm_FailedAt d \<noteq> None then md_StatusFailed
      else if lastVerifyErr then md_StatusError
      else md_StatusPending)"

datatype mdReason =
    ReasonNone | ReasonInvalidHost | ReasonPrivateIP | ReasonTokenMismatch | ReasonDNSResolutionFailed | ReasonRateLimited
  | ReasonSlugReserved | ReasonNotFound | ReasonAlreadyVerified | ReasonForbidden | ReasonInternal | ReasonTokenExpired
  | ReasonTokenRotated

definition classifyValidationError :: "domain_error goerr \<Rightarrow> mdReason" where
  "classifyValidationError e =
     (if errors_is e md_ErrInvalidHost then ReasonInvalidHost
      else if errors_is e md_ErrPrivateIP then ReasonPrivateIP
      else if errors_is e md_ErrTokenMismatch then ReasonTokenMismatch
      else if errors_is e md_ErrSlugReserved then ReasonSlugReserved
      else ReasonDNSResolutionFailed)"

section \<open>The validator\<close>

record vd_Result =
  vr_IP :: netip_addr
  vr_VerifiedAt :: time
  vr_VerifiedWithDNSSEC :: bool

text \<open>What is built into a validator: the resolver, \<^verbatim>\<open>strings.ToLower\<close>, and whether it has a writer for the resolution log.\<close>

record Validator =
  vd_resolver :: dns_resolver
  vd_lower :: "string \<Rightarrow> string"
  vd_writer :: bool

text \<open>\<^verbatim>\<open>DNSResolutionLogStore.Write\<close>: a blocked or missing address is stored as NULL.\<close>

definition log_write :: "dns_log_row \<Rightarrow> domain_db \<Rightarrow> (unit \<times> domain_db) mdresult" where
  "log_write e db =
     (let ip = (case dl_pinned_ip e of None \<Rightarrow> None
                | Some a \<Rightarrow> if a = AddrInvalid \<or> dl_decision e = ''block'' then None else Some a)
      in Inr ((), db\<lparr>dns_resolution_log := dns_resolution_log db @ [e\<lparr>dl_pinned_ip := ip\<rparr>]\<rparr>))"

definition emit :: "Validator \<Rightarrow> dns_log_row \<Rightarrow> 'a mdprog \<Rightarrow> 'a mdprog" where
  "emit v e k = (if vd_writer v then command (\<lambda>_. log_write e) (\<lambda>_. k) else k)"

definition log_entry :: "uuid \<Rightarrow> string \<Rightarrow> netip_addr \<Rightarrow> bool \<Rightarrow> string \<Rightarrow> string \<Rightarrow> string \<Rightarrow> time \<Rightarrow> dns_log_row" where
  "log_entry tenantID host ip dnssec decision reason phase now =
     \<lparr>dl_tenant_id = (if tenantID = uuid_nil then None else Some tenantID), dl_host = host, dl_pinned_ip = Some ip, dl_dnssec = dnssec,
      dl_decision = decision, dl_reason = reason, dl_phase = phase, dl_created_at = now\<rparr>"

definition lookup_ip :: "Validator \<Rightarrow> string \<Rightarrow> (IPAnswer list mdresult \<Rightarrow> 'a mdprog) \<Rightarrow> 'a mdprog" where
  "lookup_ip v host = query_env (\<lambda>ev _. case LookupIP (vd_resolver v) (o_now ev) host of Inl m \<Rightarrow> Inl (Opaque m) | Inr as \<Rightarrow> Inr as)"

definition lookup_txt :: "Validator \<Rightarrow> string \<Rightarrow> (string list mdresult \<Rightarrow> 'a mdprog) \<Rightarrow> 'a mdprog" where
  "lookup_txt v name = query_env (\<lambda>ev _. case LookupTXT (vd_resolver v) (o_now ev) name of Inl m \<Rightarrow> Inl (Opaque m) | Inr ts \<Rightarrow> Inr ts)"

text \<open>The loop over the answers: \<open>None\<close> as soon as one is blocked, else the first answer and the conjunction of the DNSSEC flags.\<close>

fun scan_answers :: "IPAnswer list \<Rightarrow> bool \<Rightarrow> IPAnswer option \<Rightarrow> (IPAnswer option \<times> bool) option" where
  "scan_answers [] dnssec pick = Some (pick, dnssec)"
| "scan_answers (a # as) dnssec pick =
     (if isBlocked (ia_IP a) then None
      else scan_answers as (dnssec \<and> ia_DNSSEC a) (case pick of None \<Rightarrow> Some a | Some p \<Rightarrow> Some p))"

definition containsToken :: "string list \<Rightarrow> string \<Rightarrow> bool" where
  "containsToken txts expected = list_ex (\<lambda>t. TrimSpace t = expected) txts"

definition vd_Validate ::
  "Validator \<Rightarrow> uuid \<Rightarrow> string \<Rightarrow> string \<Rightarrow> (vd_Result mdresult \<Rightarrow> 'a mdprog) \<Rightarrow> 'a mdprog" where
  "vd_Validate v tenantID host0 token0 k =
     (let host = TrimSpace (vd_lower v host0); token = TrimSpace token0 in
      read_clock (\<lambda>now.
        let entry = (\<lambda>decision reason. log_entry tenantID host AddrInvalid False decision reason ''validate'' now) in
        if host = '''' then emit v (entry ''error'' ''empty_input'') (k (Inl (Sentinel vd_ErrEmptyHost)))
        else if token = '''' then emit v (entry ''error'' ''empty_input'') (k (Inl (Sentinel vd_ErrEmptyToken)))
        else lookup_ip v host (\<lambda>r. case r of
          Inl e \<Rightarrow> emit v (entry ''error'' ''resolver_error'') (k (Inl (Wrapped ''validation: lookup IP'' e)))
        | Inr answers \<Rightarrow>
            if answers = [] then emit v (entry ''error'' ''no_address'') (k (Inl (Sentinel vd_ErrNoAddress)))
            else case scan_answers answers True None of
              None \<Rightarrow> emit v (entry ''block'' ''private_ip'') (k (Inl (Sentinel vd_ErrPrivateIP)))
            | Some (pick, dnssec) \<Rightarrow>
                lookup_txt v (''_crm-verify.'' @ host) (\<lambda>t. case t of
                  Inl e \<Rightarrow> emit v (entry ''error'' ''resolver_error'') (k (Inl (Wrapped ''validation: lookup TXT'' e)))
                | Inr txts \<Rightarrow>
                    if \<not> containsToken txts token
                      then emit v (entry ''block'' ''token_mismatch'') (k (Inl (Sentinel vd_ErrTokenMismatch)))
                    else
                      let ip = (case pick of None \<Rightarrow> AddrInvalid | Some a \<Rightarrow> ia_IP a) in
                      emit v (log_entry tenantID host ip dnssec ''allow'' ''ok'' ''validate'' now)
                        (k (Inr \<lparr>vr_IP = ip, vr_VerifiedAt = now, vr_VerifiedWithDNSSEC = dnssec\<rparr>))))))"

definition ValidateHostOnly :: "Validator \<Rightarrow> uuid \<Rightarrow> string \<Rightarrow> (unit mdresult \<Rightarrow> 'a mdprog) \<Rightarrow> 'a mdprog" where
  "ValidateHostOnly v tenantID host0 k =
     (let host = TrimSpace (vd_lower v host0) in
      read_clock (\<lambda>now.
        let entry = (\<lambda>decision reason. log_entry tenantID host AddrInvalid False decision reason ''host_only'' now) in
        if host = '''' then emit v (entry ''error'' ''empty_input'') (k (Inl (Sentinel vd_ErrEmptyHost)))
        else lookup_ip v host (\<lambda>r. case r of
          Inl e \<Rightarrow> emit v (entry ''error'' ''resolver_error'') (k (Inl (Wrapped ''validation: lookup IP'' e)))
        | Inr answers \<Rightarrow>
            if answers = [] then emit v (entry ''error'' ''no_address'') (k (Inl (Sentinel vd_ErrNoAddress)))
            else if list_ex (\<lambda>a. isBlocked (ia_IP a)) answers
              then emit v (entry ''block'' ''private_ip'') (k (Inl (Sentinel vd_ErrPrivateIP)))
            else emit v (entry ''allow'' ''ok'') (k (Inr ())))))"

text \<open>
  The two adapters of the wiring. Go wraps both the management error and the validator's; only the former is looked for
  later, so the message of the latter is all that is kept.
\<close>

definition hostValidatorAdapter :: "Validator \<Rightarrow> uuid \<Rightarrow> string \<Rightarrow> (unit mdresult \<Rightarrow> 'a mdprog) \<Rightarrow> 'a mdprog" where
  "hostValidatorAdapter v tenantID host k =
     ValidateHostOnly v tenantID host (\<lambda>r. case r of
       Inr x \<Rightarrow> k (Inr x)
     | Inl e \<Rightarrow>
         if errors_is e vd_ErrPrivateIP then k (Inl (Wrapped ''validation: private IP'' (Sentinel md_ErrPrivateIP)))
         else if errors_is e vd_ErrEmptyHost then k (Inl (Wrapped ''validation: empty host'' (Sentinel md_ErrInvalidHost)))
         else k (Inl e))"

record DNSCheckResult =
  dc_WithDNSSEC :: bool
  dc_LogID :: "uuid option"

definition dnsCheckerAdapter :: "Validator \<Rightarrow> uuid \<Rightarrow> string \<Rightarrow> string \<Rightarrow> (DNSCheckResult mdresult \<Rightarrow> 'a mdprog) \<Rightarrow> 'a mdprog" where
  "dnsCheckerAdapter v tenantID host expectedToken k =
     vd_Validate v tenantID host expectedToken (\<lambda>r. case r of
       Inr res \<Rightarrow> k (Inr \<lparr>dc_WithDNSSEC = vr_VerifiedWithDNSSEC res, dc_LogID = None\<rparr>)
     | Inl e \<Rightarrow>
         if errors_is e vd_ErrTokenMismatch then k (Inl (Wrapped ''validation: token mismatch'' (Sentinel md_ErrTokenMismatch)))
         else if errors_is e vd_ErrPrivateIP then k (Inl (Wrapped ''validation: private IP'' (Sentinel md_ErrPrivateIP)))
         else k (Inl e))"

end
