(* ===== verification/DomainManagement.thy ===== *)
theory DomainManagement
  imports CustomDomain
begin

text \<open>
  The operations on custom domains: the store, the enrollment gate (\<^verbatim>\<open>customdomain/enrollment\<close> with its Redis windows and the
  breaker \<^verbatim>\<open>customdomain/circuitbreaker\<close>), the use cases \<^verbatim>\<open>customdomain/management/usecase.go\<close>, the certificate question
  \<^verbatim>\<open>customdomain/tls_ask\<close> and the polling worker \<^verbatim>\<open>internal/worker/customdomain_verifier\<close>. Log records are left out.
\<close>

section \<open>The store\<close>

definition scanCustomDomainRow :: "Domain mdresult \<Rightarrow> Domain mdresult" where
  "scanCustomDomainRow r =
     (case r of
        Inl e \<Rightarrow> if errors_is e md_pgx_ErrNoRows then Inl (Sentinel md_ErrStoreNotFound) else Inl (Wrapped ''custom_domain scan'' e)
      | Inr d \<Rightarrow> Inr d)"

definition md_first_row :: "Domain list \<Rightarrow> Domain mdresult" where
  "md_first_row rows = (case rows of [] \<Rightarrow> Inl (Sentinel md_pgx_ErrNoRows) | r # _ \<Rightarrow> Inr r)"

definition domain_List :: "uuid \<Rightarrow> (Domain list mdresult \<Rightarrow> 'a mdprog) \<Rightarrow> 'a mdprog" where
  "domain_List tenantID k =
     query (\<lambda>db. Inr (sort_key (\<lambda>d. - dm_CreatedAt d) (filter (\<lambda>d. dm_TenantID d = tenantID \<and> dm_DeletedAt d = None) (custom_domains db))))
       (\<lambda>r. case r of Inl e \<Rightarrow> k (Inl (Wrapped ''custom_domain list'' e)) | Inr ds \<Rightarrow> k (Inr ds))"

definition domain_GetByID :: "uuid \<Rightarrow> (Domain mdresult \<Rightarrow> 'a mdprog) \<Rightarrow> 'a mdprog" where
  "domain_GetByID did k =
     query (\<lambda>db. md_first_row (filter (\<lambda>d. dm_ID d = did) (custom_domains db))) (\<lambda>r. k (scanCustomDomainRow r))"

text \<open>The primary key and the partial unique index on \<^verbatim>\<open>LOWER(host)\<close>; the columns the statement leaves out take their defaults.\<close>

definition insert_domain :: "Domain \<Rightarrow> domain_db \<Rightarrow> (Domain \<times> domain_db) mdresult" where
  "insert_domain d db =
     (let row = \<lparr>dm_ID = dm_ID d, dm_TenantID = dm_TenantID d, dm_Host = dm_Host d, dm_VerificationToken = dm_VerificationToken d,
                 dm_VerifiedAt = None, dm_VerifiedWithDNSSEC = False, dm_TLSPausedAt = None, dm_DeletedAt = None, dm_FailedAt = None,
                 dm_FailureReason = '''', dm_DNSResolutionLogID = None, dm_TokenIssuedAt = dm_CreatedAt d, dm_CreatedAt = dm_CreatedAt d,
                 dm_UpdatedAt = dm_CreatedAt d\<rparr> in
      if list_ex (\<lambda>x. dm_ID x = dm_ID d) (custom_domains db)
         \<or> list_ex (\<lambda>x. dm_DeletedAt x = None \<and> map ascii_lower (dm_Host x) = map ascii_lower (dm_Host d)) (custom_domains db)
        then Inl (Sentinel md_unique_violation)
      else Inr (row, db\<lparr>custom_domains := custom_domains db @ [row]\<rparr>))"

definition domain_Insert :: "Domain \<Rightarrow> (Domain mdresult \<Rightarrow> 'a mdprog) \<Rightarrow> 'a mdprog" where
  "domain_Insert d k = command (\<lambda>_. insert_domain d) (\<lambda>r. k (scanCustomDomainRow r))"

text \<open>\<^verbatim>\<open>UPDATE ... RETURNING\<close>, read as one row.\<close>

definition update_domain :: "(Domain \<Rightarrow> bool) \<Rightarrow> (Domain \<Rightarrow> Domain) \<Rightarrow> domain_db \<Rightarrow> (Domain \<times> domain_db) mdresult" where
  "update_domain P f db =
     (case filter P (custom_domains db) of
        [] \<Rightarrow> Inl (Sentinel md_pgx_ErrNoRows)
      | d # _ \<Rightarrow> Inr (f d, db\<lparr>custom_domains := map (\<lambda>x. if P x then f x else x) (custom_domains db)\<rparr>))"

definition live_row :: "uuid \<Rightarrow> Domain \<Rightarrow> bool" where
  "live_row did d \<longleftrightarrow> dm_ID d = did \<and> dm_DeletedAt d = None"

text \<open>The probe after an update without a row.\<close>

definition probe_live :: "uuid \<Rightarrow> (Domain mdresult \<Rightarrow> 'a mdprog) \<Rightarrow> 'a mdprog" where
  "probe_live did = query (\<lambda>db. md_first_row (filter (live_row did) (custom_domains db)))"

definition domain_MarkVerified ::
  "uuid \<Rightarrow> string \<Rightarrow> time \<Rightarrow> bool \<Rightarrow> uuid option \<Rightarrow> (Domain mdresult \<Rightarrow> 'a mdprog) \<Rightarrow> 'a mdprog" where
  "domain_MarkVerified did expectedToken at_time withDNSSEC dnsLogID k =
     command (\<lambda>_. update_domain (\<lambda>d. live_row did d \<and> dm_VerificationToken d = expectedToken)
         (\<lambda>d. d\<lparr>dm_VerifiedAt := Some at_time, dm_VerifiedWithDNSSEC := withDNSSEC, dm_DNSResolutionLogID := dnsLogID, dm_UpdatedAt := at_time\<rparr>))
       (\<lambda>r. case scanCustomDomainRow r of
          Inr d \<Rightarrow> k (Inr d)
        | Inl e \<Rightarrow>
            if \<not> errors_is e md_ErrStoreNotFound then k (Inl e)
            else probe_live did (\<lambda>p. case p of
              Inr _ \<Rightarrow> k (Inl (Sentinel md_ErrTokenRotated))
            | Inl pe \<Rightarrow> if errors_is pe md_pgx_ErrNoRows then k (Inl (Sentinel md_ErrStoreNotFound))
                       else k (Inl (Wrapped ''custom_domain mark verified probe'' pe))))"

definition domain_SetPaused :: "uuid \<Rightarrow> time option \<Rightarrow> (Domain mdresult \<Rightarrow> 'a mdprog) \<Rightarrow> 'a mdprog" where
  "domain_SetPaused did pausedAt k =
     command (\<lambda>ev. update_domain (live_row did)
         (\<lambda>d. d\<lparr>dm_TLSPausedAt := pausedAt, dm_UpdatedAt := (case pausedAt of Some t \<Rightarrow> t | None \<Rightarrow> o_now ev)\<rparr>))
       (\<lambda>r. k (scanCustomDomainRow r))"

definition domain_SoftDelete :: "uuid \<Rightarrow> time \<Rightarrow> (Domain mdresult \<Rightarrow> 'a mdprog) \<Rightarrow> 'a mdprog" where
  "domain_SoftDelete did at_time k =
     command (\<lambda>_. update_domain (live_row did) (\<lambda>d. d\<lparr>dm_DeletedAt := Some at_time, dm_UpdatedAt := at_time\<rparr>)) (\<lambda>r. k (scanCustomDomainRow r))"

definition domain_RotateToken :: "uuid \<Rightarrow> string \<Rightarrow> time \<Rightarrow> (Domain mdresult \<Rightarrow> 'a mdprog) \<Rightarrow> 'a mdprog" where
  "domain_RotateToken did newToken issuedAt k =
     command (\<lambda>_. update_domain (\<lambda>d. live_row did d \<and> dm_VerifiedAt d = None)
         (\<lambda>d. d\<lparr>dm_VerificationToken := newToken, dm_TokenIssuedAt := issuedAt, dm_UpdatedAt := issuedAt\<rparr>))
       (\<lambda>r. case scanCustomDomainRow r of
          Inr d \<Rightarrow> k (Inr d)
        | Inl e \<Rightarrow>
            if \<not> errors_is e md_ErrStoreNotFound then k (Inl e)
            else probe_live did (\<lambda>p. case p of
              Inr _ \<Rightarrow> k (Inl (Sentinel md_ErrAlreadyVerified))
            | Inl pe \<Rightarrow> if errors_is pe md_pgx_ErrNoRows then k (Inl (Sentinel md_ErrStoreNotFound))
                       else k (Inl (Wrapped ''custom_domain rotate token probe'' pe))))"

definition pending_domain :: "Domain \<Rightarrow> bool" where
  "pending_domain d \<longleftrightarrow> dm_DeletedAt d = None \<and> dm_VerifiedAt d = None \<and> dm_FailedAt d = None \<and> dm_TLSPausedAt d = None"

definition ListPendingVerification :: "(Domain list mdresult \<Rightarrow> 'a mdprog) \<Rightarrow> 'a mdprog" where
  "ListPendingVerification k =
     query (\<lambda>db. Inr (sort_key dm_CreatedAt (filter pending_domain (custom_domains db))))
       (\<lambda>r. case r of Inl e \<Rightarrow> k (Inl (Wrapped ''custom_domain list pending'' e)) | Inr ds \<Rightarrow> k (Inr ds))"

definition domain_MarkFailed :: "uuid \<Rightarrow> time \<Rightarrow> string \<Rightarrow> (Domain mdresult \<Rightarrow> 'a mdprog) \<Rightarrow> 'a mdprog" where
  "domain_MarkFailed did at_time reason k =
     command (\<lambda>_. update_domain (live_row did) (\<lambda>d. d\<lparr>dm_FailedAt := Some at_time, dm_FailureReason := reason, dm_UpdatedAt := at_time\<rparr>))
       (\<lambda>r. k (scanCustomDomainRow r))"

section \<open>The enrollment gate\<close>

text \<open>
  The Lua script of the three window counters; its numbers are doubles. The expiry it sets on the key is longer than the window,
  so it only drops members the next call would drop.
\<close>

definition window_script :: "zbucket \<Rightarrow> int \<Rightarrow> int \<Rightarrow> nat \<Rightarrow> int \<times> zbucket" where
  "window_script z score cutoff member =
     (let now = float64_of_int score; cut = float64_of_int cutoff;
          z1 = filter (\<lambda>(m, s). \<not> (0 \<le> s \<and> s \<le> cut)) z;
          z2 = (member, now) # filter (\<lambda>(m, s). m \<noteq> member) z1
      in (int (length z2), z2))"

definition Window_Duration :: "Window \<Rightarrow> duration" where
  "Window_Duration w = (case w of WindowHour \<Rightarrow> hour_ns | WindowDay \<Rightarrow> 24 * hour_ns | WindowMonth \<Rightarrow> 30 * 24 * hour_ns)"

definition CountAndRecord :: "uuid \<Rightarrow> Window \<Rightarrow> time \<Rightarrow> (int mdresult \<Rightarrow> 'a mdprog) \<Rightarrow> 'a mdprog" where
  "CountAndRecord tenantID w now k =
     (if tenantID = uuid_nil then k (Inl (Opaque ''rediswindow: tenantID must not be uuid.Nil''))
      else command (\<lambda>ev db.
          case window_script (enroll_buckets db tenantID w) now (now - Window_Duration w) (o_ids ev 0) of
            (n, z) \<Rightarrow> Inr (n, db\<lparr>enroll_buckets := (enroll_buckets db)(tenantID := (enroll_buckets db tenantID)(w := z))\<rparr>))
        (\<lambda>r. case r of Inl e \<Rightarrow> k (Inl (Wrapped ''rediswindow: eval'' e)) | Inr n \<Rightarrow> k (Inr n)))"

definition ActiveCount :: "uuid \<Rightarrow> (int mdresult \<Rightarrow> 'a mdprog) \<Rightarrow> 'a mdprog" where
  "ActiveCount tenantID k =
     (if tenantID = uuid_nil then k (Inl (Opaque ''enrollment_count: tenantID must not be uuid.Nil''))
      else query (\<lambda>db. Inr (int (length (filter (\<lambda>d. dm_TenantID d = tenantID \<and> dm_DeletedAt d = None) (custom_domains db)))))
        (\<lambda>r. case r of Inl e \<Rightarrow> k (Inl (Wrapped ''enrollment_count'' e)) | Inr n \<Rightarrow> k (Inr n)))"

record Quota =
  qt_Hourly :: int
  qt_Daily :: int
  qt_Monthly :: int
  qt_HardCap :: int

definition DefaultQuota :: Quota where
  "DefaultQuota = \<lparr>qt_Hourly = 5, qt_Daily = 20, qt_Monthly = 50, qt_HardCap = 25\<rparr>"

datatype EnrollDecision =
    DecisionAllowed | DecisionDeniedHardCap | DecisionDeniedHourlyQuota | DecisionDeniedDailyQuota | DecisionDeniedMonthlyQuota
  | DecisionDeniedCircuitBreaker | DecisionError "domain_error goerr"

text \<open>The breaker's state in Redis: a frozen key lives until its expiry.\<close>

definition breaker_IsOpen :: "uuid \<Rightarrow> (bool mdresult \<Rightarrow> 'a mdprog) \<Rightarrow> 'a mdprog" where
  "breaker_IsOpen tenantID k =
     (if tenantID = uuid_nil then k (Inl (Sentinel cb_ErrZeroTenant))
      else query_env (\<lambda>ev db. Inr (case breaker_frozen db tenantID of None \<Rightarrow> False | Some t \<Rightarrow> o_now ev < t))
        (\<lambda>r. case r of Inl e \<Rightarrow> k (Inl (Wrapped ''redisstate: is open'' e)) | Inr b \<Rightarrow> k (Inr b)))"

record breaker_Config =
  bc_Threshold :: int
  bc_Window :: duration
  bc_FreezeFor :: duration

definition breaker_DefaultConfig :: breaker_Config where
  "breaker_DefaultConfig = \<lparr>bc_Threshold = 5, bc_Window = hour_ns, bc_FreezeFor = 24 * hour_ns\<rparr>"

text \<open>The settings a breaker is built with are positive, so the state never refuses them; the server gives it no alerter.\<close>

definition breaker_New :: "breaker_Config \<Rightarrow> breaker_Config" where
  "breaker_New cfg = (if bc_Threshold cfg \<le> 0 \<or> bc_Window cfg \<le> 0 \<or> bc_FreezeFor cfg \<le> 0 then breaker_DefaultConfig else cfg)"

definition breaker_RecordFailure :: "breaker_Config \<Rightarrow> uuid \<Rightarrow> bool mdresult mdprog" where
  "breaker_RecordFailure cfg0 tenantID =
     (let cfg = breaker_New cfg0 in
      if tenantID = uuid_nil then Ret (Inl (Sentinel cb_ErrZeroTenant))
      else read_clock (\<lambda>now.
        command (\<lambda>ev db.
            case window_script (breaker_fails db tenantID) now (now - bc_Window cfg) (o_ids ev 0) of
              (n, z) \<Rightarrow> Inr (n, db\<lparr>breaker_fails := (breaker_fails db)(tenantID := z)\<rparr>))
          (\<lambda>r. case r of
             Inl e \<Rightarrow> Ret (Inl (Wrapped ''redisstate: record failure'' e))
           | Inr n \<Rightarrow>
               if n < bc_Threshold cfg then Ret (Inr False)
               else command (\<lambda>ev db. Inr ((), db\<lparr>breaker_frozen := (breaker_frozen db)(tenantID :=
                        Some (o_now ev + max 1 (go_div (bc_FreezeFor cfg) 1000000) * 1000000))\<rparr>))
                 (\<lambda>t. case t of
                    Inl e \<Rightarrow> Ret (Inl (Wrapped ''redisstate: trip'' e))
                  | Inr _ \<Rightarrow> Ret (Inr True)))))"

definition breaker_RecordSuccess :: "uuid \<Rightarrow> unit mdresult mdprog" where
  "breaker_RecordSuccess tenantID =
     (if tenantID = uuid_nil then Ret (Inl (Sentinel cb_ErrZeroTenant))
      else command (\<lambda>_ db. Inr ((), db\<lparr>breaker_fails := (breaker_fails db)(tenantID := []),
                                   breaker_frozen := (breaker_frozen db)(tenantID := None)\<rparr>))
        (\<lambda>r. case r of Inl e \<Rightarrow> Ret (Inl (Wrapped ''redisstate: reset'' e)) | Inr _ \<Rightarrow> Ret (Inr ())))"

definition enrollment_Allow :: "Quota \<Rightarrow> uuid \<Rightarrow> (EnrollDecision \<times> duration \<Rightarrow> 'a mdprog) \<Rightarrow> 'a mdprog" where
  "enrollment_Allow q tenantID k =
     (if tenantID = uuid_nil then k (DecisionError (Sentinel en_ErrZeroTenant), 0)
      else read_clock (\<lambda>now.
        ActiveCount tenantID (\<lambda>a. case a of
          Inl e \<Rightarrow> k (DecisionError e, 0)
        | Inr active \<Rightarrow>
            if active \<ge> qt_HardCap q then k (DecisionDeniedHardCap, 0)
            else CountAndRecord tenantID WindowHour now (\<lambda>h. case h of
              Inl e \<Rightarrow> k (DecisionError e, 0)
            | Inr hc \<Rightarrow>
                if hc > qt_Hourly q then k (DecisionDeniedHourlyQuota, Window_Duration WindowHour)
                else CountAndRecord tenantID WindowDay now (\<lambda>d. case d of
                  Inl e \<Rightarrow> k (DecisionError e, 0)
                | Inr dc \<Rightarrow>
                    if dc > qt_Daily q then k (DecisionDeniedDailyQuota, Window_Duration WindowDay)
                    else CountAndRecord tenantID WindowMonth now (\<lambda>m. case m of
                      Inl e \<Rightarrow> k (DecisionError e, 0)
                    | Inr mc \<Rightarrow>
                        if mc > qt_Monthly q then k (DecisionDeniedMonthlyQuota, Window_Duration WindowMonth)
                        else breaker_IsOpen tenantID (\<lambda>b. case b of
                          Inl e \<Rightarrow> k (DecisionError e, 0)
                        | Inr is_open \<Rightarrow>
                            if is_open then k (DecisionDeniedCircuitBreaker, 0) else k (DecisionAllowed, 0))))))))"

section \<open>The use cases\<close>

datatype enrollment_gate = EnrollmentGate Quota | DenyEnrollmentGate

text \<open>\<open>uc_slug\<close> is the database role of the connection that reserves slugs.\<close>

record UseCase =
  uc_gate :: enrollment_gate
  uc_validator :: "Validator option"
  uc_dns :: "Validator option"
  uc_slug :: "pg_role option"
  uc_tokenTTL :: duration

definition defaultTokenTTL :: duration where
  "defaultTokenTTL = 24 * hour_ns"

definition management_New :: "enrollment_gate \<Rightarrow> Validator option \<Rightarrow> Validator option \<Rightarrow> pg_role option \<Rightarrow> duration \<Rightarrow> UseCase" where
  "management_New gate validator dns slug ttl =
     \<lparr>uc_gate = gate, uc_validator = validator, uc_dns = dns, uc_slug = slug, uc_tokenTTL = (if ttl \<le> 0 then defaultTokenTTL else ttl)\<rparr>"

text \<open>\<^verbatim>\<open>enrollmentGateAdapter\<close>; \<open>Inl\<close> is an error of the gate.\<close>

definition gate_Allow :: "UseCase \<Rightarrow> uuid \<Rightarrow> (domain_error goerr + bool \<times> mdReason \<times> duration \<Rightarrow> 'a mdprog) \<Rightarrow> 'a mdprog" where
  "gate_Allow u tenantID k =
     (case uc_gate u of
        DenyEnrollmentGate \<Rightarrow> k (Inl (Opaque ''customdomain-verifier: enrollment gate disabled in this binary''))
      | EnrollmentGate q \<Rightarrow>
          enrollment_Allow q tenantID (\<lambda>(dec, reset). case dec of
            DecisionAllowed \<Rightarrow> k (Inr (True, ReasonNone, 0))
          | DecisionDeniedHardCap \<Rightarrow> k (Inr (False, ReasonRateLimited, 0))
          | DecisionDeniedHourlyQuota \<Rightarrow> k (Inr (False, ReasonRateLimited, reset))
          | DecisionDeniedDailyQuota \<Rightarrow> k (Inr (False, ReasonRateLimited, reset))
          | DecisionDeniedMonthlyQuota \<Rightarrow> k (Inr (False, ReasonRateLimited, reset))
          | DecisionDeniedCircuitBreaker \<Rightarrow> k (Inr (False, ReasonInternal, 0))
          | DecisionError e \<Rightarrow> k (Inl (Wrapped ''gate'' e))))"

text \<open>\<^verbatim>\<open>defaultTokenGen\<close>: 16 random bytes in hexadecimal.\<close>

definition token_of :: "nat \<Rightarrow> string" where
  "token_of n = EncodeToString (map (\<lambda>i. char_of (n div 256 ^ i mod 256)) [0..<16])"

definition defaultTokenGen :: "(string mdresult \<Rightarrow> 'a mdprog) \<Rightarrow> 'a mdprog" where
  "defaultTokenGen = query_env (\<lambda>ev _. Inr (token_of (o_ids ev 0)))"

definition management_List :: "uuid \<Rightarrow> Domain list mdresult mdprog" where
  "management_List tenantID =
     (if tenantID = uuid_nil then Ret (Inl (Sentinel md_ErrTenantMismatch)) else domain_List tenantID Ret)"

definition management_Get :: "uuid \<Rightarrow> uuid \<Rightarrow> (Domain mdresult \<Rightarrow> 'a mdprog) \<Rightarrow> 'a mdprog" where
  "management_Get tenantID did k =
     (if tenantID = uuid_nil then k (Inl (Sentinel md_ErrTenantMismatch))
      else domain_GetByID did (\<lambda>r. case r of
        Inl e \<Rightarrow> k (Inl e)
      | Inr d \<Rightarrow> if dm_TenantID d \<noteq> tenantID then k (Inl (Sentinel md_ErrTenantMismatch)) else k (Inr d)))"

record EnrollResult =
  er_Domain :: "Domain option"
  er_TXTRecord :: string
  er_TXTValue :: string
  er_Reason :: mdReason
  er_RetryAfter :: duration

definition enroll_denied :: "mdReason \<Rightarrow> duration \<Rightarrow> EnrollResult" where
  "enroll_denied reason retry = \<lparr>er_Domain = None, er_TXTRecord = '''', er_TXTValue = '''', er_Reason = reason, er_RetryAfter = retry\<rparr>"

type_synonym md_err = "domain_error goerr option"

definition enroll_insert :: "uuid \<Rightarrow> string \<Rightarrow> (EnrollResult \<times> md_err) mdprog" where
  "enroll_insert tenantID host =
     defaultTokenGen (\<lambda>t. case t of
       Inl e \<Rightarrow> Ret (enroll_denied ReasonInternal 0, Some (Wrapped ''management: token'' e))
     | Inr token \<Rightarrow>
         draw (\<lambda>ev.
           let now = o_now ev;
               d = \<lparr>dm_ID = o_ids ev 0, dm_TenantID = tenantID, dm_Host = host, dm_VerificationToken = token, dm_VerifiedAt = None,
                    dm_VerifiedWithDNSSEC = False, dm_TLSPausedAt = None, dm_DeletedAt = None, dm_FailedAt = None, dm_FailureReason = '''',
                    dm_DNSResolutionLogID = None, dm_TokenIssuedAt = now, dm_CreatedAt = now, dm_UpdatedAt = now\<rparr> in
           domain_Insert d (\<lambda>s. case s of
             Inl e \<Rightarrow> Ret (enroll_denied ReasonInternal 0, Some (Wrapped ''management: insert'' e))
           | Inr saved \<Rightarrow>
               Ret (\<lparr>er_Domain = Some saved, er_TXTRecord = TXTRecordFor host, er_TXTValue = TXTValueFor token, er_Reason = ReasonNone,
                     er_RetryAfter = 0\<rparr>, None))))"

definition enroll_gated :: "UseCase \<Rightarrow> uuid \<Rightarrow> string \<Rightarrow> (EnrollResult \<times> md_err) mdprog" where
  "enroll_gated u tenantID host =
     gate_Allow u tenantID (\<lambda>dec. case dec of
       Inl e \<Rightarrow> Ret (enroll_denied ReasonInternal 0, Some e)
     | Inr (allowed, reason, retry) \<Rightarrow>
         if \<not> allowed then Ret (enroll_denied reason retry, None) else enroll_insert tenantID host)"

definition Enroll :: "UseCase \<Rightarrow> uuid \<Rightarrow> string \<Rightarrow> (EnrollResult \<times> md_err) mdprog" where
  "Enroll u tenantID rawHost =
     (if tenantID = uuid_nil then Ret (enroll_denied ReasonForbidden 0, Some (Sentinel md_ErrTenantMismatch))
      else case NormalizeHost rawHost of
        Inl _ \<Rightarrow> Ret (enroll_denied ReasonInvalidHost 0, Some (Sentinel md_ErrInvalidHost))
      | Inr host \<Rightarrow>
          (case uc_validator u of
             None \<Rightarrow> enroll_gated u tenantID host
           | Some v \<Rightarrow>
               hostValidatorAdapter v tenantID host (\<lambda>r. case r of
                 Inl e \<Rightarrow> Ret (enroll_denied (classifyValidationError e) 0, Some e)
               | Inr _ \<Rightarrow> enroll_gated u tenantID host)))"

record VerifyOutcome =
  vo_Domain :: "Domain option"
  vo_Verified :: bool
  vo_Reason :: mdReason

definition verify_outcome :: "Domain option \<Rightarrow> bool \<Rightarrow> mdReason \<Rightarrow> VerifyOutcome" where
  "verify_outcome d verified reason = \<lparr>vo_Domain = d, vo_Verified = verified, vo_Reason = reason\<rparr>"

definition Verify :: "UseCase \<Rightarrow> uuid \<Rightarrow> uuid \<Rightarrow> (VerifyOutcome \<times> md_err) mdprog" where
  "Verify u tenantID did =
     management_Get tenantID did (\<lambda>g. case g of
       Inl e \<Rightarrow>
         if errors_is e md_ErrStoreNotFound then Ret (verify_outcome None False ReasonNotFound, Some e)
         else if errors_is e md_ErrTenantMismatch then Ret (verify_outcome None False ReasonForbidden, Some e)
         else Ret (verify_outcome None False ReasonInternal, Some e)
     | Inr d \<Rightarrow>
         if dm_VerifiedAt d \<noteq> None then Ret (verify_outcome (Some d) True ReasonAlreadyVerified, None)
         else read_clock (\<lambda>now.
           if time_sub now (dm_TokenIssuedAt d) > uc_tokenTTL u then
             Ret (verify_outcome (Some d) False ReasonTokenExpired, Some (Sentinel md_ErrTokenExpired))
           else case uc_dns u of
             None \<Rightarrow> Ret (verify_outcome (Some d) False ReasonInternal, Some (Opaque ''management: DNSChecker not configured''))
           | Some v \<Rightarrow>
               dnsCheckerAdapter v tenantID (dm_Host d) (dm_VerificationToken d) (\<lambda>c. case c of
                 Inl e \<Rightarrow> Ret (verify_outcome (Some d) False (classifyValidationError e), Some e)
               | Inr res \<Rightarrow>
                   domain_MarkVerified did (dm_VerificationToken d) now (dc_WithDNSSEC res) (dc_LogID res) (\<lambda>s. case s of
                     Inl e \<Rightarrow>
                       if errors_is e md_ErrTokenRotated then Ret (verify_outcome (Some d) False ReasonTokenRotated, Some e)
                       else Ret (verify_outcome (Some d) False ReasonInternal, Some (Wrapped ''management: mark verified'' e))
                   | Inr saved \<Rightarrow> Ret (verify_outcome (Some saved) True ReasonNone, None)))))"

definition management_SetPaused :: "uuid \<Rightarrow> uuid \<Rightarrow> bool \<Rightarrow> Domain mdresult mdprog" where
  "management_SetPaused tenantID did paused =
     management_Get tenantID did (\<lambda>g. case g of
       Inl e \<Rightarrow> Ret (Inl e)
     | Inr d \<Rightarrow>
         draw (\<lambda>ev.
           domain_SetPaused (dm_ID d) (if paused then Some (o_now ev) else None) (\<lambda>s. case s of
             Inl e \<Rightarrow> Ret (Inl (Wrapped ''management: set paused'' e))
           | Inr saved \<Rightarrow> Ret (Inr saved))))"

definition management_Delete :: "UseCase \<Rightarrow> uuid \<Rightarrow> uuid \<Rightarrow> unit mdresult mdprog" where
  "management_Delete u tenantID did =
     management_Get tenantID did (\<lambda>g. case g of
       Inl e \<Rightarrow> Ret (Inl e)
     | Inr d \<Rightarrow>
         read_clock (\<lambda>now.
           domain_SoftDelete (dm_ID d) now (\<lambda>s. case s of
             Inl e \<Rightarrow> Ret (Inl (Wrapped ''management: soft delete'' e))
           | Inr _ \<Rightarrow>
               (case uc_slug u of
                  None \<Rightarrow> Ret (Inr ())
                | Some role \<Rightarrow>
                    bind_prog (embed slugs put_slugs (slugReleaseAdapter role (dm_Host d) tenantID)) (\<lambda>r. case r of
                      Inl e \<Rightarrow> Ret (Inl (Wrapped ''management: release slug'' (map_goerr slug_failure e)))
                    | Inr _ \<Rightarrow> Ret (Inr ()))))))"

definition RegenerateToken :: "uuid \<Rightarrow> uuid \<Rightarrow> Domain mdresult mdprog" where
  "RegenerateToken tenantID did =
     management_Get tenantID did (\<lambda>g. case g of
       Inl e \<Rightarrow> Ret (Inl e)
     | Inr d \<Rightarrow>
         if dm_VerifiedAt d \<noteq> None then Ret (Inl (Sentinel md_ErrAlreadyVerified))
         else defaultTokenGen (\<lambda>t. case t of
           Inl e \<Rightarrow> Ret (Inl (Wrapped ''management: generate token'' e))
         | Inr newToken \<Rightarrow>
             read_clock (\<lambda>now.
               domain_RotateToken (dm_ID d) newToken now (\<lambda>s. case s of
                 Inl e \<Rightarrow> Ret (Inl (Wrapped ''management: rotate token'' e))
               | Inr saved \<Rightarrow> Ret (Inr saved)))))"

section \<open>The certificate question\<close>

datatype AskDecision = AskAllow | AskDeny | AskRateLimited | AskDisabled | AskError
datatype AskReason =
    AskReasonNone | AskNotFound | AskNotVerified | AskPaused | AskInvalidHost | AskRepositoryError | AskRateLimitError
  | AskFeatureFlagError | AskReasonDisabled

record AskResult =
  ar_Decision :: AskDecision
  ar_Reason :: AskReason
  ar_Host :: string

text \<open>The flag of \<^verbatim>\<open>featureflag.EnvFlag\<close>, as read from its environment variable.\<close>

definition AskEnabled :: "string \<Rightarrow> bool" where
  "AskEnabled env =
     (let v = ToLower_view (TrimSpace env) in
      if v = '''' then True
      else v \<notin> {''false'', ''0'', ''off'', ''no'', ''disabled''})"

text \<open>\<^verbatim>\<open>sliding.Limiter\<close>: the hit is recorded also when it is refused.\<close>

definition sliding_Allow :: "int \<Rightarrow> duration \<Rightarrow> string \<Rightarrow> time \<Rightarrow> (bool mdresult \<Rightarrow> 'a mdprog) \<Rightarrow> 'a mdprog" where
  "sliding_Allow max_hits window host now k =
     (if host = '''' then k (Inl (Opaque ''sliding: empty host''))
      else command (\<lambda>ev db. case window_script (ask_buckets db host) now (now - window) (o_ids ev 0) of
            (n, z) \<Rightarrow> Inr (n, db\<lparr>ask_buckets := (ask_buckets db)(host := z)\<rparr>))
        (\<lambda>r. case r of Inl e \<Rightarrow> k (Inl (Wrapped ''sliding: eval'' e)) | Inr n \<Rightarrow> k (Inr (n \<le> max_hits))))"

definition ask_Lookup :: "string \<Rightarrow> (Domain mdresult \<Rightarrow> 'a mdprog) \<Rightarrow> 'a mdprog" where
  "ask_Lookup host k =
     (if host = '''' then k (Inl (Sentinel ta_ErrNotFound))
      else query (\<lambda>db. md_first_row (filter (\<lambda>d. map ascii_lower (dm_Host d) = map ascii_lower host \<and> dm_DeletedAt d = None) (custom_domains db)))
        (\<lambda>r. case r of
           Inl e \<Rightarrow> if errors_is e md_pgx_ErrNoRows then k (Inl (Sentinel ta_ErrNotFound)) else k (Inl (Wrapped ''custom_domain_lookup'' e))
         | Inr d \<Rightarrow> k (Inr d)))"

definition Ask :: "string \<Rightarrow> int \<Rightarrow> duration \<Rightarrow> string \<Rightarrow> AskResult mdprog" where
  "Ask flag_env max_hits window rawHost =
     (let host = ask_normalizeHost rawHost in
      if host = '''' \<or> length host > 253 then Ret \<lparr>ar_Decision = AskDeny, ar_Reason = AskInvalidHost, ar_Host = rawHost\<rparr>
      else if \<not> AskEnabled flag_env then Ret \<lparr>ar_Decision = AskDisabled, ar_Reason = AskReasonDisabled, ar_Host = host\<rparr>
      else read_clock (\<lambda>now.
        sliding_Allow max_hits window host now (\<lambda>a. case a of
          Inl e \<Rightarrow> Ret \<lparr>ar_Decision = AskError, ar_Reason = AskRateLimitError, ar_Host = host\<rparr>
        | Inr allowed \<Rightarrow>
            if \<not> allowed then Ret \<lparr>ar_Decision = AskRateLimited, ar_Reason = AskReasonNone, ar_Host = host\<rparr>
            else ask_Lookup host (\<lambda>r. case r of
              Inl e \<Rightarrow>
                if errors_is e ta_ErrNotFound then Ret \<lparr>ar_Decision = AskDeny, ar_Reason = AskNotFound, ar_Host = host\<rparr>
                else Ret \<lparr>ar_Decision = AskError, ar_Reason = AskRepositoryError, ar_Host = host\<rparr>
            | Inr d \<Rightarrow>
                if dm_VerifiedAt d = None then Ret \<lparr>ar_Decision = AskDeny, ar_Reason = AskNotVerified, ar_Host = host\<rparr>
                else if dm_TLSPausedAt d \<noteq> None then Ret \<lparr>ar_Decision = AskDeny, ar_Reason = AskPaused, ar_Host = host\<rparr>
                else Ret \<lparr>ar_Decision = AskAllow, ar_Reason = AskReasonNone, ar_Host = host\<rparr>))))"

section \<open>The verifier worker\<close>

text \<open>
  The worker's settings; the factor is the rational value of its \<^verbatim>\<open>float64\<close>. Delays stay far below $2^{53}$ nanoseconds, so the
  products with the default factor 2 are exact.
\<close>

record verifier_config =
  wk_maxAttempts :: nat
  wk_initialBackoff :: duration
  wk_maxBackoff :: duration
  wk_backoffFactor :: rat

definition default_verifier :: verifier_config where
  "default_verifier = \<lparr>wk_maxAttempts = 720, wk_initialBackoff = 60 * 1000000000, wk_maxBackoff = 30 * 60 * 1000000000, wk_backoffFactor = 2\<rparr>"

text \<open>Its memory: attempts so far and the earliest time of the next, per pending domain.\<close>

type_synonym progress = "uuid \<Rightarrow> (nat \<times> time option) option"

primrec delay_loop :: "nat \<Rightarrow> verifier_config \<Rightarrow> duration \<Rightarrow> duration" where
  "delay_loop 0 w d = d"
| "delay_loop (Suc n) w d =
     (let d' = go_int64 (of_int d * wk_backoffFactor w) in
      if d' \<ge> wk_maxBackoff w then wk_maxBackoff w else delay_loop n w d')"

definition computeDelay :: "verifier_config \<Rightarrow> nat \<Rightarrow> bool \<Rightarrow> duration" where
  "computeDelay w attempts ssrfHold = (if ssrfHold then wk_maxBackoff w else delay_loop (attempts - 1) w (wk_initialBackoff w))"

definition scheduleBackoff :: "verifier_config \<Rightarrow> uuid \<Rightarrow> time \<Rightarrow> bool \<Rightarrow> progress \<Rightarrow> progress" where
  "scheduleBackoff w did now ssrfHold p =
     (case p did of None \<Rightarrow> p
      | Some (attempts, _) \<Rightarrow> p(did \<mapsto> (attempts, Some (now + computeDelay w attempts ssrfHold))))"

definition bumpAttempt :: "uuid \<Rightarrow> progress \<Rightarrow> progress" where
  "bumpAttempt did p = (case p did of None \<Rightarrow> p | Some (attempts, nextTry) \<Rightarrow> p(did \<mapsto> (Suc attempts, nextTry)))"

definition attemptsFor :: "uuid \<Rightarrow> progress \<Rightarrow> nat" where
  "attemptsFor did p = (case p did of None \<Rightarrow> 0 | Some (attempts, _) \<Rightarrow> attempts)"

definition pruneInactive :: "Domain list \<Rightarrow> progress \<Rightarrow> progress" where
  "pruneInactive active p = (\<lambda>did. if did \<in> set (map dm_ID active) then p did else None)"

datatype vfOutcome = OutcomeVerified | OutcomeAlreadyVerified | OutcomeMismatch | OutcomeResolverError | OutcomeBlockedSSRF | OutcomeInternal

definition runVerify :: "UseCase \<Rightarrow> Domain \<Rightarrow> vfOutcome mdprog" where
  "runVerify u d =
     bind_prog (Verify u (dm_TenantID d) (dm_ID d)) (\<lambda>(out, err). Ret (
       if err \<noteq> None then
         (case vo_Reason out of
            ReasonTokenMismatch \<Rightarrow> OutcomeMismatch
          | ReasonPrivateIP \<Rightarrow> OutcomeBlockedSSRF
          | ReasonDNSResolutionFailed \<Rightarrow> OutcomeResolverError
          | _ \<Rightarrow> OutcomeInternal)
       else if vo_Verified out then
         (if vo_Reason out = ReasonAlreadyVerified then OutcomeAlreadyVerified else OutcomeVerified)
       else OutcomeInternal))"

definition giveUp :: "Domain \<Rightarrow> time \<Rightarrow> progress \<Rightarrow> progress mdprog" where
  "giveUp d now p =
     domain_MarkFailed (dm_ID d) now ''cap_exceeded'' (\<lambda>r. case r of
       Inl _ \<Rightarrow> Ret p
     | Inr _ \<Rightarrow> Ret (p(dm_ID d := None)))"

definition evaluate :: "verifier_config \<Rightarrow> UseCase \<Rightarrow> Domain \<Rightarrow> time \<Rightarrow> progress \<Rightarrow> progress mdprog" where
  "evaluate w u d now p0 =
     (let entry = (case p0 (dm_ID d) of None \<Rightarrow> (0, None) | Some e \<Rightarrow> e);
          p = p0(dm_ID d \<mapsto> entry) in
      if (case snd entry of None \<Rightarrow> False | Some t \<Rightarrow> now < t) then Ret p
      else bind_prog (runVerify u d) (\<lambda>out. case out of
        OutcomeVerified \<Rightarrow> Ret (p(dm_ID d := None))
      | OutcomeAlreadyVerified \<Rightarrow> Ret (p(dm_ID d := None))
      | OutcomeBlockedSSRF \<Rightarrow> Ret (scheduleBackoff w (dm_ID d) now True p)
      | _ \<Rightarrow>
          let p' = bumpAttempt (dm_ID d) p in
          if attemptsFor (dm_ID d) p' \<ge> wk_maxAttempts w then giveUp d now p'
          else Ret (scheduleBackoff w (dm_ID d) now False p')))"

primrec evaluate_domains :: "verifier_config \<Rightarrow> UseCase \<Rightarrow> Domain list \<Rightarrow> time \<Rightarrow> progress \<Rightarrow> progress mdprog" where
  "evaluate_domains w u [] now p = Ret p"
| "evaluate_domains w u (d # ds) now p = bind_prog (evaluate w u d now p) (evaluate_domains w u ds now)"

definition verifier_Tick :: "verifier_config \<Rightarrow> UseCase \<Rightarrow> progress \<Rightarrow> (progress \<times> md_err) mdprog" where
  "verifier_Tick w u p =
     read_clock (\<lambda>started.
       ListPendingVerification (\<lambda>r. case r of
         Inl e \<Rightarrow> Ret (p, Some (Wrapped ''list pending'' e))
       | Inr domains \<Rightarrow>
           bind_prog (evaluate_domains w u domains started (pruneInactive domains p)) (\<lambda>p'. Ret (p', None))))"

text \<open>The use case the worker builds: no writer for the resolution log, no slug releases, and a gate that refuses enrollments.\<close>

definition verifier_UseCase :: "dns_resolver \<Rightarrow> (string \<Rightarrow> string) \<Rightarrow> UseCase" where
  "verifier_UseCase rs lower =
     (let v = \<lparr>vd_resolver = rs, vd_lower = lower, vd_writer = False\<rparr>
      in management_New DenyEnrollmentGate (Some v) (Some v) None 0)"

text \<open>The use case of the server, \<^verbatim>\<open>buildCustomDomainHandler\<close>.\<close>

definition server_UseCase :: "dns_resolver \<Rightarrow> (string \<Rightarrow> string) \<Rightarrow> UseCase" where
  "server_UseCase rs lower =
     (let v = \<lparr>vd_resolver = rs, vd_lower = lower, vd_writer = True\<rparr>
      in management_New (EnrollmentGate DefaultQuota) (Some v) (Some v) (Some app_runtime) 0)"

end
