(* ===== verification/SlugProps.thy ===== *)
theory SlugProps
  imports SlugReservation
begin

text \<open>
  Correctness of the slug reservations: normal forms, the lock over all interleavings, what an override leaves behind, where
  redirects lead, and the states in which a slug can no longer be locked or freed.
\<close>

section \<open>Normal forms\<close>

lemma alnum_lower_ascii:
  assumes "alnum_lower c \<or> c = CHR ''-''"
  shows "ascii_lower c = c" "c \<noteq> CHR 0xC4" "c \<noteq> CHR 0xE2"
proof -
  have n: "97 \<le> (of_char c :: nat) \<and> (of_char c :: nat) \<le> 122 \<or> 48 \<le> (of_char c :: nat) \<and> (of_char c :: nat) \<le> 57 \<or> (of_char c :: nat) = 45"
    using assms by (auto simp: alnum_lower_def Let_def)
  then show "ascii_lower c = c" by (auto simp: ascii_lower_def)
  show "c \<noteq> CHR 0xC4" "c \<noteq> CHR 0xE2" using n by auto
qed

lemma ToLower_view_slug: "list_all (\<lambda>c. alnum_lower c \<or> c = CHR ''-'') s \<Longrightarrow> ToLower_view s = s"
  by (induction s rule: ToLower_view.induct) (simp_all add: alnum_lower_ascii)

lemma no_space_head:
  assumes "alnum_lower c"
  shows "strip_one unicode_spaces (c # s) = None" "strip_one (map rev unicode_spaces) (c # s) = None"
proof -
  have n: "97 \<le> (of_char c :: nat) \<and> (of_char c :: nat) \<le> 122 \<or> 48 \<le> (of_char c :: nat) \<and> (of_char c :: nat) \<le> 57"
    using assms by (auto simp: alnum_lower_def Let_def)
  have h: "\<forall>p \<in> set unicode_spaces. \<not> alnum_lower (hd p) \<and> \<not> alnum_lower (hd (rev p)) \<and> p \<noteq> []"
    by (simp add: unicode_spaces_def alnum_lower_def)
  show "strip_one unicode_spaces (c # s) = None" unfolding strip_one_None
  proof
    fix p assume p: "p \<in> set unicode_spaces"
    have "\<not> alnum_lower (hd p) \<and> p \<noteq> []" using h [rule_format, OF p] by blast
    then show "\<not> prefix p (c # s)" using assms by (cases "p = []") (auto simp: prefix_Cons)
  qed
  show "strip_one (map rev unicode_spaces) (c # s) = None" unfolding strip_one_None
  proof
    fix p assume "p \<in> set (map rev unicode_spaces)"
    then obtain q where q: "q \<in> set unicode_spaces" "p = rev q" by auto
    have "\<not> alnum_lower (hd p) \<and> p \<noteq> []" using h [rule_format, OF q(1)] q(2) by simp
    then show "\<not> prefix p (c # s)" using assms by (cases "p = []") (auto simp: prefix_Cons)
  qed
qed

lemma TrimSpace_slug:
  assumes "slugPattern s"
  shows "TrimSpace s = s"
proof -
  obtain c t where ct: "s = c # t" "alnum_lower c" using assms by (cases s) (auto simp: slugPattern_def)
  obtain d u where du: "rev s = d # u" "alnum_lower d"
    using assms by (cases "rev s") (auto simp: slugPattern_def last_conv_nth hd_rev [symmetric])
  show ?thesis unfolding TrimSpace_def
    using trim_left_id no_space_head(1) [OF ct(2), of t] no_space_head(2) [OF du(2), of u] ct(1) du(1)
    by (metis rev_rev_ident)
qed

lemma NormalizeSlug_slug: "slugPattern s \<Longrightarrow> length s \<le> MaxSlugLen \<Longrightarrow> NormalizeSlug s = Inr s"
  by (auto simp: NormalizeSlug_def Let_def TrimSpace_slug ToLower_view_slug slugPattern_def)

lemma NormalizeSlug_shape: "NormalizeSlug raw = Inr s \<Longrightarrow> slugPattern s \<and> length s \<le> MaxSlugLen"
  by (auto simp: NormalizeSlug_def Let_def split: if_splits)

lemma NormalizeSlug_normal: "NormalizeSlug raw = Inr s \<Longrightarrow> NormalizeSlug s = Inr s"
  using NormalizeSlug_shape NormalizeSlug_slug by blast

lemma NormalizeSlug_error: "NormalizeSlug raw = Inl e \<Longrightarrow> e = Sentinel sl_ErrInvalidSlug"
  by (auto simp: NormalizeSlug_def Let_def split: if_splits)

section \<open>The invariant of the tables\<close>

text \<open>
  At most one reservation per slug is not released by a master, which is what the partial unique index enforces; such a
  reservation runs a year; slugs are in normal form; a redirect does not point to itself.
\<close>

definition slug_inv :: "slug_db \<Rightarrow> bool" where
  "slug_inv db \<longleftrightarrow>
     distinct (map sr_id (reservations db)) \<and>
     distinct (map sr_slug (filter (\<lambda>r. \<not> sr_released_by_master r) (reservations db))) \<and>
     (\<forall>r \<in> set (reservations db). NormalizeSlug (sr_slug r) = Inr (sr_slug r) \<and>
        (\<not> sr_released_by_master r \<longrightarrow> sr_expires_at r = sr_released_at r + ReservationWindow)) \<and>
     distinct (map rr_old_slug (redirects db)) \<and>
     (\<forall>r \<in> set (redirects db). NormalizeSlug (rr_old_slug r) = Inr (rr_old_slug r) \<and>
        NormalizeSlug (rr_new_slug r) = Inr (rr_new_slug r) \<and> rr_old_slug r \<noteq> rr_new_slug r)"

text \<open>A row of the audit table that records an update of a reservation.\<close>

definition override_audited :: "slug_db \<Rightarrow> uuid \<Rightarrow> bool" where
  "override_audited db rid \<longleftrightarrow>
     (\<exists>a \<in> set (master_ops_audit db). ma_kind a = ''update'' \<and> ma_table a = ''tenant_slug_reservation'' \<and> ma_target_pk a = Some rid)"

text \<open>The audit table and the override log only grow, and a reservation changes only with an audit row.\<close>

definition slug_evolves :: "slug_db \<Rightarrow> slug_db \<Rightarrow> bool" where
  "slug_evolves a b \<longleftrightarrow>
     prefix (master_ops_audit a) (master_ops_audit b) \<and> prefix (override_log a) (override_log b) \<and>
     (\<forall>r \<in> set (reservations a). r \<in> set (reservations b) \<or> override_audited b (sr_id r))"

lemma override_audited_mono: "override_audited a i \<Longrightarrow> prefix (master_ops_audit a) (master_ops_audit b) \<Longrightarrow> override_audited b i"
  unfolding override_audited_def using set_mono_prefix by fast

interpretation slug_st: store_safety slug_inv slug_evolves
proof
  show "slug_evolves s s" for s by (simp add: slug_evolves_def)
  show "slug_evolves s u" if "slug_evolves s t" "slug_evolves t u" for s t u
    using that override_audited_mono [of t _ u] unfolding slug_evolves_def by (metis prefix_order.trans)
qed

lemma trigger_other_tables:
  "master_ops_audit_trigger role kind tbl pk db = Inr db' \<Longrightarrow>
     reservations db' = reservations db \<and> redirects db' = redirects db \<and> override_log db' = override_log db \<and> alerts db' = alerts db \<and>
     prefix (master_ops_audit db) (master_ops_audit db')"
  by (auto simp: master_ops_audit_trigger_def split: pg_role.splits option.splits)

lemma insert_reservation_Inr:
  assumes "insert_reservation role ev slug byArg t e db = Inr (x, db')"
  shows "x = \<lparr>sr_id = o_ids ev 0, sr_slug = slug, sr_released_at = t, sr_released_by_tenant_id = byArg,
             sr_expires_at = e, sr_released_by_master = False, sr_created_at = o_now ev\<rparr>"
    and "reservations db' = reservations db @ [x]" "redirects db' = redirects db" "override_log db' = override_log db"
    and "prefix (master_ops_audit db) (master_ops_audit db')"
    and "sr_id x \<notin> sr_id ` set (reservations db)"
    and "slug \<notin> sr_slug ` set (filter (\<lambda>r. \<not> sr_released_by_master r) (reservations db))"
proof -
  let ?x = "\<lparr>sr_id = o_ids ev 0, sr_slug = slug, sr_released_at = t, sr_released_by_tenant_id = byArg,
          sr_expires_at = e, sr_released_by_master = False, sr_created_at = o_now ev\<rparr>"
  let ?t = "master_ops_audit_trigger role ''insert'' ''tenant_slug_reservation'' (Some (o_ids ev 0)) db"
  let ?dup = "list_ex (\<lambda>r. sr_id r = o_ids ev 0) (reservations db) \<or>
    list_ex (\<lambda>r. sr_slug r = slug \<and> \<not> sr_released_by_master r) (reservations db)"
  obtain db1 where db1: "?t = Inr db1" using assms by (cases ?t) (simp_all add: insert_reservation_def Let_def)
  have dup: "\<not> ?dup" using assms db1 by (cases ?dup) (simp_all add: insert_reservation_def Let_def)
  have "?x = x \<and> db1\<lparr>reservations := reservations db @ [?x]\<rparr> = db'"
    using assms db1 dup by (clarsimp simp: insert_reservation_def Let_def)
  then have t: "x = ?x" "db' = db1\<lparr>reservations := reservations db @ [x]\<rparr>" by blast+
  show "x = ?x" by (fact t(1))
  show "reservations db' = reservations db @ [x]" "redirects db' = redirects db" "override_log db' = override_log db"
    "prefix (master_ops_audit db) (master_ops_audit db')" using trigger_other_tables [OF db1] by (simp_all add: t(2))
  show "sr_id x \<notin> sr_id ` set (reservations db)" using dup by (auto simp: list_ex_iff t(1))
  show "slug \<notin> sr_slug ` set (filter (\<lambda>r. \<not> sr_released_by_master r) (reservations db))" using dup by (auto simp: list_ex_iff)
qed

lemma insert_reservation_keeps:
  assumes "slug_inv db" "insert_reservation role ev slug byArg t (t + ReservationWindow) db = Inr (x, db')" "NormalizeSlug slug = Inr slug"
  shows "slug_inv db' \<and> slug_evolves db db'"
proof -
  note row = insert_reservation_Inr [OF assms(2)]
  have x: "sr_slug x = slug" "\<not> sr_released_by_master x" "sr_expires_at x = sr_released_at x + ReservationWindow" using row(1) by simp_all
  have "slug_inv db'" using assms(1,3) x row(6,7) by (simp add: slug_inv_def row(2,3))
  moreover have "slug_evolves db db'" using row(5) by (simp add: slug_evolves_def row(2,4))
  ultimately show ?thesis ..
qed

lemma audit_updates_other_tables:
  "audit_updates role rs db = Inr db' \<Longrightarrow>
     reservations db' = reservations db \<and> redirects db' = redirects db \<and> override_log db' = override_log db \<and> alerts db' = alerts db \<and>
     prefix (master_ops_audit db) (master_ops_audit db')"
proof (induction rs arbitrary: db)
  case (Cons r rs)
  then show ?case using trigger_other_tables by (fastforce split: sum.splits intro: prefix_order.trans)
qed simp

lemma trigger_audits:
  assumes "master_ops_audit_trigger role ''update'' ''tenant_slug_reservation'' (Some i) db = Inr db'" "role \<noteq> app_runtime"
  shows "override_audited db' i"
  using assms by (auto simp: master_ops_audit_trigger_def override_audited_def split: pg_role.splits option.splits)

lemma audit_updates_audits:
  assumes "audit_updates role rs db = Inr db'" "role \<noteq> app_runtime" "r \<in> set rs"
  shows "override_audited db' (sr_id r)"
  using assms
proof (induction rs arbitrary: db)
  case (Cons q rs)
  then obtain db1 where d: "master_ops_audit_trigger role ''update'' ''tenant_slug_reservation'' (Some (sr_id q)) db = Inr db1"
    "audit_updates role rs db1 = Inr db'" by (auto split: sum.splits)
  then show ?case
    using Cons trigger_audits [OF d(1)] audit_updates_other_tables [OF d(2)] override_audited_mono by (metis set_ConsD)
qed simp

lemma distinct_map_filter_image:
  assumes "distinct (map f (filter P xs))" "\<And>x. x \<in> set xs \<Longrightarrow> P (g x) \<Longrightarrow> P x \<and> g x = x"
  shows "distinct (map f (filter P (map g xs)))"
proof -
  have "filter P (map g xs) = filter (\<lambda>x. P (g x)) xs"
    using assms(2) by (induction xs) auto
  moreover have "filter (\<lambda>x. P (g x)) xs = filter (\<lambda>x. P (g x)) (filter P xs)"
    using assms(2) by (auto simp: filter_filter intro!: filter_cong)
  ultimately show ?thesis using distinct_map_filter [OF assms(1)] by simp
qed

lemma soft_delete_keeps:
  assumes "slug_inv db" "soft_delete role slug t db = Inr (x, db')"
  shows "slug_inv db' \<and> slug_evolves db db'"
proof -
  let ?hit = "\<lambda>r. sr_slug r = slug \<and> \<not> sr_released_by_master r \<and> sr_expires_at r > t"
  let ?upd = "\<lambda>r. if ?hit r then r\<lparr>sr_expires_at := t, sr_released_by_master := True\<rparr> else r"
  have role: "role \<noteq> app_runtime" using assms(2) by (auto simp: soft_delete_def)
  obtain db1 where db1: "audit_updates role (filter ?hit (reservations db)) db = Inr db1"
    using assms(2) role by (cases "audit_updates role (filter ?hit (reservations db)) db") (simp_all add: soft_delete_def Let_def)
  have db': "db' = db1\<lparr>reservations := map ?upd (reservations db)\<rparr>"
    using assms(2) role db1
    by (cases "first_row (filter ?hit (reservations db)) :: reservation_row slresult") (clarsimp simp: soft_delete_def Let_def)+
  have rows: "reservations db' = map ?upd (reservations db)" "redirects db' = redirects db" "override_log db' = override_log db"
    "master_ops_audit db' = master_ops_audit db1" "prefix (master_ops_audit db) (master_ops_audit db')"
    using audit_updates_other_tables [OF db1] by (simp_all add: db')
  have ids: "map sr_id (map ?upd rs) = map sr_id rs" for rs by (induction rs) auto
  have "distinct (map sr_slug (filter (\<lambda>r. \<not> sr_released_by_master r) (map ?upd (reservations db))))"
    by (rule distinct_map_filter_image) (use assms(1) in \<open>auto simp: slug_inv_def split: if_splits\<close>)
  moreover have "\<forall>r \<in> set (map ?upd (reservations db)). NormalizeSlug (sr_slug r) = Inr (sr_slug r) \<and>
      (\<not> sr_released_by_master r \<longrightarrow> sr_expires_at r = sr_released_at r + ReservationWindow)"
    using assms(1) by (auto simp: slug_inv_def)
  ultimately have "slug_inv db'" using assms(1) unfolding slug_inv_def rows ids by blast
  moreover have "r \<in> set (reservations db') \<or> override_audited db' (sr_id r)" if "r \<in> set (reservations db)" for r
  proof (cases "?hit r")
    case True
    then have "override_audited db1 (sr_id r)" using that by (intro audit_updates_audits [OF db1 role]) simp
    then show ?thesis by (simp add: override_audited_def rows)
  next
    case False
    have "r \<in> ?upd ` set (reservations db)" by (rule image_eqI [OF _ that]) (simp only: False if_False)
    then show ?thesis by (simp add: rows(1))
  qed
  then have "slug_evolves db db'" using rows by (simp add: slug_evolves_def)
  ultimately show ?thesis ..
qed

lemma upsert_redirect_keeps:
  assumes "slug_inv db" "upsert_redirect role now old new t db = Inr (x, db')"
    "NormalizeSlug old = Inr old" "NormalizeSlug new = Inr new" "old \<noteq> new"
  shows "slug_inv db' \<and> slug_evolves db db'"
proof -
  have role: "role \<noteq> app_runtime"
  proof
    assume "role = app_runtime"
    then show False using assms(2) by (simp add: upsert_redirect_def)
  qed
  let ?ins = "master_ops_audit_trigger role ''insert'' ''tenant_slug_redirect'' None db"
  obtain d where d: "?ins = Inr d"
    using assms(2) role by (cases ?ins; cases "find (\<lambda>r. rr_old_slug r = old) (redirects db)") (simp_all add: upsert_redirect_def)
  obtain d1 :: slug_db where db1: "prefix (master_ops_audit db) (master_ops_audit d1)" "override_log d1 = override_log db"
    and rows: "reservations db' = reservations db" "override_log db' = override_log d1" "master_ops_audit db' = master_ops_audit d1"
    and red: "(old \<notin> rr_old_slug ` set (redirects db) \<and> redirects db' = redirects db @ [x] \<and> rr_old_slug x = old \<and> rr_new_slug x = new) \<or>
       (redirects db' = map (\<lambda>r. if rr_old_slug r = old then x else r) (redirects db) \<and> rr_old_slug x = old \<and> rr_new_slug x = new)"
  proof (cases "find (\<lambda>r. rr_old_slug r = old) (redirects db)")
    case None
    let ?x = "\<lparr>rr_old_slug = old, rr_new_slug = new, rr_expires_at = t, rr_created_at = now, rr_updated_at = now\<rparr>"
    have "?x = x \<and> d\<lparr>redirects := redirects db @ [?x]\<rparr> = db'"
      using assms(2) role d None by (clarsimp simp: upsert_redirect_def Let_def)
    then have e: "?x = x" "db' = d\<lparr>redirects := redirects db @ [x]\<rparr>" by blast+
    have "rr_old_slug x = old" "rr_new_slug x = new" by (simp_all add: e(1) [symmetric])
    then show ?thesis using trigger_other_tables [OF d] None
      by (intro that [of d]) (auto simp: find_None_iff e(2))
  next
    case (Some r)
    let ?upd = "master_ops_audit_trigger role ''update'' ''tenant_slug_redirect'' None d"
    let ?x = "r\<lparr>rr_new_slug := new, rr_expires_at := t, rr_updated_at := now\<rparr>"
    obtain d2 where d2: "?upd = Inr d2" using assms(2) role d Some by (cases ?upd) (simp_all add: upsert_redirect_def)
    have "?x = x \<and> d2\<lparr>redirects := map (\<lambda>r. if rr_old_slug r = old then ?x else r) (redirects db)\<rparr> = db'"
      using assms(2) role d d2 Some by (clarsimp simp: upsert_redirect_def Let_def)
    then have e: "?x = x" "db' = d2\<lparr>redirects := map (\<lambda>r. if rr_old_slug r = old then x else r) (redirects db)\<rparr>" by blast+
    have "rr_old_slug x = old" "rr_new_slug x = new" using find_SomeD [OF Some] by (simp_all add: e(1) [symmetric])
    then show ?thesis using trigger_other_tables [OF d] trigger_other_tables [OF d2]
      by (intro that [of d2]) (auto simp: e(2) intro: prefix_order.trans)
  qed
  have "distinct (map rr_old_slug (redirects db'))"
  proof -
    have "map rr_old_slug (map (\<lambda>r. if rr_old_slug r = old then x else r) rs) = map rr_old_slug rs" if "rr_old_slug x = old" for rs
      using that by (induction rs) auto
    then have "map rr_old_slug (redirects db') = map rr_old_slug (redirects db) \<or>
        map rr_old_slug (redirects db') = map rr_old_slug (redirects db) @ [old] \<and> old \<notin> rr_old_slug ` set (redirects db)"
      using red by (elim disjE conjE) simp_all
    moreover have "distinct (map rr_old_slug (redirects db))" using assms(1) by (simp add: slug_inv_def)
    ultimately show ?thesis by fastforce
  qed
  moreover have "\<forall>r \<in> set (redirects db'). NormalizeSlug (rr_old_slug r) = Inr (rr_old_slug r) \<and>
      NormalizeSlug (rr_new_slug r) = Inr (rr_new_slug r) \<and> rr_old_slug r \<noteq> rr_new_slug r"
    using red assms(1,3-5) by (auto simp: slug_inv_def)
  ultimately have "slug_inv db'" using assms(1) unfolding slug_inv_def rows by blast
  then show ?thesis using db1 rows by (simp add: slug_evolves_def)
qed

section \<open>Every call keeps the tables\<close>

abbreviation slsafe :: "slug_db \<Rightarrow> 'a slprog \<Rightarrow> bool" where
  "slsafe s p \<equiv> safe slug_inv slug_evolves (\<lambda>_ _. True) (\<lambda>_ _. True) s p"

lemma Active_safe: "(\<And>s r. slsafe s (k r)) \<Longrightarrow> slsafe s (reservation_Active slug k)"
  unfolding reservation_Active_def by (rule slug_st.keeps_query_env)

lemma Insert_safe:
  assumes "NormalizeSlug slug = Inr slug" "\<And>s r. slsafe s (k r)"
  shows "slsafe s (reservation_Insert role slug t now (now + ReservationWindow) k)"
  unfolding reservation_Insert_def
proof (rule slug_st.keeps_command)
  show "slug_inv s' \<and> slug_evolves s s'"
    if "slug_inv s" "insert_reservation role ev slug (if t \<noteq> uuid_nil then Some t else None) now (now + ReservationWindow) s = Inr (x, s')"
    for ev s s' x using insert_reservation_keeps [OF that assms(1)] .
  show "slsafe s (case scanReservation r of
          Inl e \<Rightarrow>
            if errors_is e pg_unique_violation then
              reservation_Active slug (\<lambda>a. case a of
                Inr existing \<Rightarrow> k (Inl (Sentinel (ReservedError existing)))
              | Inl _ \<Rightarrow> k (Inl e))
            else k (Inl e)
        | Inr res \<Rightarrow> k (Inr res))" for s r
    using assms(2) by (auto split: sum.splits intro!: Active_safe)
qed

lemma SoftDelete_safe: "(\<And>s r. slsafe s (k r)) \<Longrightarrow> slsafe s (reservation_SoftDelete role slug t k)"
  unfolding reservation_SoftDelete_def by (rule slug_st.keeps_command) (auto dest: soft_delete_keeps)

lemma Log_safe:
  "(\<And>s r. slsafe s (k r)) \<Longrightarrow> slsafe s (LogMasterOverride ov k)"
  "(\<And>s r. slsafe s (k r)) \<Longrightarrow> slsafe s (NotifyAlert ov k)"
  unfolding LogMasterOverride_def NotifyAlert_def
  by (rule slug_st.keeps_command; auto simp: slug_inv_def slug_evolves_def)+

lemma Upsert_safe:
  assumes "NormalizeSlug old = Inr old" "NormalizeSlug new = Inr new" "old \<noteq> new" "\<And>s r. slsafe s (k r)"
  shows "slsafe s (redirect_Upsert role old new t k)"
  unfolding redirect_Upsert_def
  by (rule slug_st.keeps_command) (use upsert_redirect_keeps assms in blast)+

lemma redirect_Active_safe: "(\<And>s r. slsafe s (k r)) \<Longrightarrow> slsafe s (redirect_Active slug k)"
  unfolding redirect_Active_def by (rule slug_st.keeps_query_env) (auto split: sum.splits)

lemma CheckAvailable_safe: "slsafe s (CheckAvailable raw)"
  unfolding CheckAvailable_def by (auto split: sum.splits intro!: Active_safe)

lemma ReleaseSlug_safe: "slsafe s (ReleaseSlug role raw t)"
  unfolding ReleaseSlug_def
  by (auto split: sum.splits dest: NormalizeSlug_normal intro!: slug_st.keeps_clock Insert_safe)

lemma OverrideRelease_safe: "slsafe s (OverrideRelease role raw m reason)"
  unfolding OverrideRelease_def Let_def
  by (auto split: sum.splits intro!: slug_st.keeps_clock SoftDelete_safe Log_safe)

lemma RecordRedirect_safe: "slsafe s (RecordRedirect role old new)"
  unfolding RecordRedirect_def
  by (auto split: sum.splits dest: NormalizeSlug_normal intro!: slug_st.keeps_clock Upsert_safe)

lemma RequireSlugAvailable_safe: "slsafe s (RequireSlugAvailable ex r)"
  unfolding RequireSlugAvailable_def
  by (auto split: option.splits intro!: slug_st.keeps_bind CheckAvailable_safe)

lemma OverrideHandler_safe: "slsafe s (OverrideHandler role f b auth r)"
  unfolding OverrideHandler_def
  by (auto split: option.splits intro!: slug_st.keeps_bind OverrideRelease_safe)

lemma override_route_safe: "slsafe s (override_route role h f t q r)"
  unfolding override_route_def by (auto split: sum.splits intro!: OverrideHandler_safe)

lemma RedirectHandler_safe: "slsafe s (RedirectHandler lower p r)"
  unfolding RedirectHandler_def LookupRedirect_def
  by (auto split: option.splits sum.splits intro!: redirect_Active_safe)

text \<open>The calls the program makes, on connections of either role, with their results dropped.\<close>

inductive slug_call :: "slug_db \<Rightarrow> unit slprog \<Rightarrow> bool" where
  call_check: "slug_call db (bind_prog (CheckAvailable raw) (\<lambda>_. Ret ()))"
| call_release: "slug_call db (bind_prog (ReleaseSlug role raw t) (\<lambda>_. Ret ()))"
| call_override: "slug_call db (bind_prog (OverrideRelease role raw m reason) (\<lambda>_. Ret ()))"
| call_record: "slug_call db (bind_prog (RecordRedirect role old new) (\<lambda>_. Ret ()))"
| call_gate: "slug_call db (bind_prog (RequireSlugAvailable ex r) (\<lambda>_. Ret ()))"
| call_route: "slug_call db (bind_prog (override_route role h f t q r) (\<lambda>_. Ret ()))"
| call_redirect: "slug_call db (bind_prog (RedirectHandler lower p r) (\<lambda>_. Ret ()))"

lemma slug_call_safe: "slug_call s p \<Longrightarrow> slsafe s p"
  by (induction rule: slug_call.induct)
    (auto intro!: slug_st.keeps_bind CheckAvailable_safe ReleaseSlug_safe OverrideRelease_safe RecordRedirect_safe
       RequireSlugAvailable_safe override_route_safe RedirectHandler_safe)

abbreviation slug_reach :: "slug_db \<Rightarrow> slug_db \<times> (nat \<Rightarrow> unit slprog) \<Rightarrow> bool" where
  "slug_reach \<equiv> pool_reach (\<lambda>_ (_ :: call_env). True) slug_call"

lemma slug_reach_keeps: "slug_reach db0 (db, pool) \<Longrightarrow> slug_inv db0 \<Longrightarrow> slug_inv db \<and> slug_evolves db0 db"
  by (erule slug_st.keeps_reach) (auto intro: slug_call_safe)

section \<open>The lock\<close>

text \<open>Of the rows of a slug, at most one is active.\<close>

lemma active_row_unique:
  assumes "slug_inv db" "r \<in> set (reservations db)" "\<not> sr_released_by_master r" "now < sr_expires_at r"
  shows "active_rows db (sr_slug r) now = [r]"
proof -
  let ?open = "filter (\<lambda>r. \<not> sr_released_by_master r) (reservations db)"
  have d: "distinct (map sr_slug ?open)" using assms(1) by (simp add: slug_inv_def)
  have key: "filter (\<lambda>q. sr_slug q = sr_slug r \<and> P q) rs = [r]"
    if "distinct (map sr_slug rs)" "r \<in> set rs" "P r" for P and rs :: "reservation_row list"
    using that
  proof (induction rs)
    case (Cons q rs)
    show ?case
    proof (cases "q = r")
      case True
      then have "sr_slug r \<notin> sr_slug ` set rs" using Cons.prems(1) by simp
      then have "\<forall>x \<in> set rs. sr_slug x \<noteq> sr_slug r" by (metis imageI)
      then show ?thesis using True Cons.prems(3) by (auto simp: filter_empty_conv)
    next
      case False
      then have "sr_slug q \<noteq> sr_slug r" "r \<in> set rs" using Cons.prems(1,2) by auto
      then show ?thesis using Cons by simp
    qed
  qed simp
  have "active_rows db (sr_slug r) now = filter (\<lambda>q. sr_slug q = sr_slug r \<and> sr_expires_at q > now) ?open"
    by (auto simp: active_rows_def filter_filter intro!: filter_cong)
  then show ?thesis using key [OF d] assms(2-4) by simp
qed

lemma active_rows_le_one:
  assumes "slug_inv db"
  shows "length (active_rows db slug now) \<le> 1"
proof (cases "active_rows db slug now")
  case (Cons r rs)
  then have "r \<in> set (active_rows db slug now)" by simp
  then have r: "r \<in> set (reservations db)" "sr_slug r = slug" "\<not> sr_released_by_master r" "now < sr_expires_at r"
    by (auto simp: active_rows_def)
  then show ?thesis using active_row_unique [OF assms r(1,3,4)] by simp
qed simp

lemma run_Active:
  assumes "o_fault (os n) = NoFault"
  shows "run (reservation_Active slug k) os n db =
    run (k (case active_rows db slug (o_now (os n)) of [] \<Rightarrow> Inl (Sentinel sl_ErrNotReserved) | r # _ \<Rightarrow> Inr (reservation_of r))) os (Suc n) db"
  using assms by (simp add: reservation_Active_def run_query_env first_row_def scanReservation_def split: list.splits)

lemma run_CheckAvailable:
  assumes "o_fault (os n) = NoFault" "NormalizeSlug raw = Inr slug"
  shows "run (CheckAvailable raw) os n db =
    ((case active_rows db slug (o_now (os n)) of [] \<Rightarrow> Inr () | r # _ \<Rightarrow> Inl (Sentinel (ReservedError (reservation_of r)))), Suc n, db)"
  using assms by (simp add: CheckAvailable_def run_Active split: list.splits)

lemma released_row:
  assumes "run (ReleaseSlug role raw t) os n s0 = (Inr rv, n', db)"
  obtains slug row where "NormalizeSlug raw = Inr slug" "row \<in> set (reservations db)" "reservation_of row = rv" "sr_slug row = slug"
    "sr_id row = rv_ID rv" "\<not> sr_released_by_master row" "sr_expires_at row = o_now (os n) + ReservationWindow"
proof (cases "NormalizeSlug raw")
  case (Inl e)
  then show ?thesis using assms by (simp add: ReleaseSlug_def)
next
  case (Inr slug)
  let ?now = "o_now (os n)"
  let ?k = "\<lambda>r. case r of Inl e \<Rightarrow> Ret (Inl (Wrapped ''slugreservation: release'' e)) | Inr res \<Rightarrow> (Ret (Inr res) :: Reservation slresult slprog)"
  let ?ins = "\<lambda>ev. insert_reservation role ev slug (if t \<noteq> uuid_nil then Some t else None) ?now (?now + ReservationWindow)"
  have run: "run (reservation_Insert role slug t ?now (?now + ReservationWindow) ?k) os (Suc n) s0 = (Inr rv, n', db)"
    using assms Inr by (simp add: ReleaseSlug_def)
  have bad: "fst (run (reservation_Active slug (\<lambda>a. case a of
        Inr existing \<Rightarrow> Ret (Inl (Wrapped ''slugreservation: release'' (Sentinel (ReservedError existing))))
      | Inl _ \<Rightarrow> Ret (Inl (Wrapped ''slugreservation: release'' e)))) os m s) \<noteq> (Inr rv :: Reservation slresult)"
    for e m s by (auto simp: reservation_Active_def run_query_env split: sum.splits)
  have fl: "o_fault (os (Suc n)) = NoFault"
  proof (rule ccontr)
    assume "o_fault (os (Suc n)) \<noteq> NoFault"
    then show False using run by (cases "o_fault (os (Suc n))") (simp_all add: reservation_Insert_def scanReservation_def)
  qed
  show ?thesis
  proof (cases "?ins (os (Suc n)) s0")
    case (Inl e)
    obtain e' where e': "scanReservation (Inl e) = Inl e'" by (cases "errors_is e pgx_ErrNoRows") (auto simp: scanReservation_def)
    show ?thesis
    proof (cases "errors_is e' pg_unique_violation")
      case True
      then show ?thesis using run fl Inl e' bad [of e' "Suc (Suc n)" s0] by (simp add: reservation_Insert_def)
    next
      case False
      then show ?thesis using run fl Inl e' by (simp add: reservation_Insert_def)
    qed
  next
    case ok: (Inr y)
    obtain row db1 where y: "y = (row, db1)" by (cases y)
    have "(Inr (reservation_of row) :: Reservation slresult, Suc (Suc n), db1) = (Inr rv, n', db)"
      using run fl ok y by (simp add: reservation_Insert_def scanReservation_def)
    then have e: "reservation_of row = rv" "db1 = db" by blast+
    note row = insert_reservation_Inr [OF ok [unfolded y]]
    have "row \<in> set (reservations db1)" using row(2) by simp
    moreover have "sr_slug row = slug" "\<not> sr_released_by_master row" "sr_expires_at row = ?now + ReservationWindow" using row(1) by simp_all
    moreover have "sr_id row = rv_ID rv" using arg_cong [OF e(1), of rv_ID] by (simp add: reservation_of_def)
    ultimately show ?thesis using e by (intro that [OF Inr]) simp_all
  qed
qed

text \<open>
  C6. A slug a tenant has released stays locked: from the release on, over every interleaving of further calls by any number of
  clients (checks, releases, overrides, redirects) and with any faults, a signup or rename that names the slug within 365 days
  is answered 409 with that very reservation, unless \<^verbatim>\<open>master_ops_audit\<close> names an operator who updated the row.
\<close>

theorem released_slug_stays_locked:
  assumes "slug_inv s0" and rel: "run (ReleaseSlug role raw t) os n s0 = (Inr rv, n', db0)"
    and "slug_reach db0 (db, pool)" and "\<not> override_audited db (rv_ID rv)"
    and "ex rq = Some raw'" and "NormalizeSlug raw' = NormalizeSlug raw"
    and "o_fault (ps m) = NoFault" and "o_now (ps m) < o_now (os n) + ReservationWindow"
  shows "run (RequireSlugAvailable ex rq) ps m db = (writeReservedConflict rv, Suc m, db)"
proof -
  obtain slug row where row: "NormalizeSlug raw = Inr slug" "row \<in> set (reservations db0)" "reservation_of row = rv" "sr_slug row = slug"
    "sr_id row = rv_ID rv" "\<not> sr_released_by_master row" "sr_expires_at row = o_now (os n) + ReservationWindow"
    using released_row [OF rel] by metis
  have inv0: "slug_inv db0" using slug_st.keeps_run [OF ReleaseSlug_safe assms(1) rel] by simp
  have db: "slug_inv db" "slug_evolves db0 db" using slug_reach_keeps [OF assms(3) inv0] by auto
  then have "row \<in> set (reservations db)" using row(2,5) assms(4) by (auto simp: slug_evolves_def)
  then have "active_rows db slug (o_now (ps m)) = [row]"
    using active_row_unique [OF db(1) _ row(6), of "o_now (ps m)"] row(4,7) assms(8) by simp
  moreover have "NormalizeSlug raw' = Inr slug" using row(1) assms(6) by simp
  ultimately have "run (CheckAvailable raw') ps m db = (Inl (Sentinel (ReservedError rv)), Suc m, db)"
    using run_CheckAvailable [where os = ps and n = m, OF assms(7)] row(3) by simp
  then show ?thesis using assms(5) by (simp add: RequireSlugAvailable_def)
qed

text \<open>A store with the rows given, the environments of a run, and the row that a release of ''Acme '' leaves.\<close>

definition slug_db_ex :: "reservation_row list \<Rightarrow> redirect_row list \<Rightarrow> slug_db" where
  "slug_db_ex rs ds = \<lparr>reservations = rs, redirects = ds, master_ops_audit = [], override_log = [], alerts = []\<rparr>"

definition slug_env :: "time \<Rightarrow> nat \<Rightarrow> call_env" where
  "slug_env t n = \<lparr>o_fault = NoFault, o_now = t + int n, o_ids = (\<lambda>_. 42)\<rparr>"

definition acme_row :: reservation_row where
  "acme_row = \<lparr>sr_id = 42, sr_slug = ''acme'', sr_released_at = 100, sr_released_by_tenant_id = Some 7,
     sr_expires_at = 100 + ReservationWindow, sr_released_by_master = False, sr_created_at = 101\<rparr>"

lemma acme_normal: "NormalizeSlug ''Acme '' = Inr ''acme''" "NormalizeSlug ''acme'' = Inr ''acme''" "NormalizeSlug ''new-co'' = Inr ''new-co''"
  by code_simp+

lemma slug_inv_ex: "slug_inv (slug_db_ex [] [])" "slug_inv (slug_db_ex [acme_row] [])"
  by (simp_all add: slug_inv_def slug_db_ex_def acme_row_def acme_normal)

lemma quiet_slug_env: "quiet (slug_env t)"
  by (simp add: quiet_def slug_env_def)

theorem released_slug_stays_locked_witness:
  "run (RequireSlugAvailable PathValueExtractor \<lparr>sq_Host = '''', sq_TLS = False, sq_ForwardedProto = '''', sq_RequestURI = '''',
      sq_Authorization = '''', sq_PathSlug = ''acme'', sq_FormSlug = None, sq_Body = None\<rparr>) (slug_env (100 + 364 * 24 * hour_ns)) 5
      (slug_db_ex [acme_row] []) = (writeReservedConflict (reservation_of acme_row), Suc 5, slug_db_ex [acme_row] [])"
proof (rule released_slug_stays_locked [where raw = "''Acme ''" and raw' = "''acme''" and role = app_runtime and t = 7 and os = "slug_env 100" and n = 0])
  show "slug_inv (slug_db_ex [] [])" by (rule slug_inv_ex)
  show "run (ReleaseSlug app_runtime ''Acme '' 7) (slug_env 100) 0 (slug_db_ex [] []) = (Inr (reservation_of acme_row), 2, slug_db_ex [acme_row] [])"
    by (simp add: ReleaseSlug_def acme_normal reservation_Insert_def insert_reservation_def Let_def master_ops_audit_trigger_def scanReservation_def
       slug_env_def slug_db_ex_def acme_row_def reservation_of_def)
  show "slug_reach (slug_db_ex [acme_row] []) (slug_db_ex [acme_row] [], \<lambda>_. Ret ())" by (rule reach_init)
qed (simp_all add: override_audited_def slug_db_ex_def PathValueExtractor_def acme_normal slug_env_def ReservationWindow_def hour_ns_def)

text \<open>
  Over every interleaving the tables keep their invariant, and no slug ever has more than one active reservation.
\<close>

theorem one_lock_per_slug:
  assumes "slug_inv db0" and "slug_reach db0 (db, pool)"
  shows "slug_inv db \<and> length (active_rows db slug now) \<le> 1"
  using slug_reach_keeps [OF assms(2,1)] active_rows_le_one by simp

theorem one_lock_per_slug_witness: "slug_inv (slug_db_ex [acme_row] []) \<and> length (active_rows (slug_db_ex [acme_row] []) ''acme'' 200) \<le> 1"
  by (rule one_lock_per_slug [OF slug_inv_ex(2) reach_init])

text \<open>
  Normal forms: whatever a slug was typed as, its stored form is 1 to 63 lower-case letters, digits and inner hyphens, and
  normalising it again changes nothing, so every later lookup finds it.
\<close>

theorem slugs_are_normal:
  assumes "NormalizeSlug raw = Inr s"
  shows "slugPattern s \<and> 0 < length s \<and> length s \<le> 63 \<and> NormalizeSlug s = Inr s"
  using NormalizeSlug_shape [OF assms] NormalizeSlug_normal [OF assms] by (auto simp: slugPattern_def MaxSlugLen_def)

theorem slugs_are_normal_witness: "slugPattern ''acme'' \<and> 0 < length ''acme'' \<and> length ''acme'' \<le> 63 \<and> NormalizeSlug ''acme'' = Inr ''acme''"
  by (rule slugs_are_normal [OF acme_normal(1)])

section \<open>Overrides\<close>

lemma unreleased_unique:
  assumes "slug_inv db" "r \<in> set (reservations db)" "q \<in> set (reservations db)" "\<not> sr_released_by_master r" "\<not> sr_released_by_master q"
    "sr_slug q = sr_slug r"
  shows "q = r"
proof -
  have "inj_on sr_slug (set (filter (\<lambda>r. \<not> sr_released_by_master r) (reservations db)))"
    using assms(1) by (simp add: slug_inv_def distinct_map)
  then show ?thesis using assms(2-6) by (auto simp: inj_on_def)
qed

definition released_row_of :: "reservation_row \<Rightarrow> time \<Rightarrow> reservation_row" where
  "released_row_of r now = r\<lparr>sr_expires_at := now, sr_released_by_master := True\<rparr>"

lemma soft_delete_active:
  assumes "slug_inv db" "r \<in> set (reservations db)" "\<not> sr_released_by_master r" "now < sr_expires_at r"
  shows "\<exists>db'. soft_delete (app_master_ops (Some actor)) (sr_slug r) now db = Inr (released_row_of r now, db') \<and>
     override_audited db' (sr_id r) \<and> override_log db' = override_log db \<and> (\<forall>t. active_rows db' (sr_slug r) t = [])"
proof -
  let ?hit = "\<lambda>q. sr_slug q = sr_slug r \<and> \<not> sr_released_by_master q \<and> sr_expires_at q > now"
  let ?upd = "\<lambda>q. q\<lparr>sr_expires_at := now, sr_released_by_master := True\<rparr>"
  let ?a = "\<lparr>ma_actor = actor, ma_kind = ''update'', ma_table = ''tenant_slug_reservation'', ma_target_pk = Some (sr_id r)\<rparr>"
  let ?db = "db\<lparr>master_ops_audit := master_ops_audit db @ [?a], reservations := map (\<lambda>q. if ?hit q then ?upd q else q) (reservations db)\<rparr>"
  have hit: "filter ?hit (reservations db) = [r]" using active_row_unique [OF assms] by (simp add: active_rows_def)
  have "soft_delete (app_master_ops (Some actor)) (sr_slug r) now db = Inr (released_row_of r now, ?db)"
    by (simp add: soft_delete_def Let_def hit master_ops_audit_trigger_def first_row_def released_row_of_def)
  moreover have "override_audited ?db (sr_id r)" by (simp add: override_audited_def)
  moreover have "active_rows ?db (sr_slug r) t = []" for t
  proof -
    have "\<not> (sr_slug x = sr_slug r \<and> \<not> sr_released_by_master x)" if x: "x \<in> set (reservations ?db)" for x
    proof -
      obtain q where q: "q \<in> set (reservations db)" "x = (if ?hit q then ?upd q else q)" using x by auto
      show ?thesis
      proof (cases "?hit q")
        case True
        then have "x = ?upd q" using q(2) by (simp add: if_P)
        then show ?thesis by simp
      next
        case False
        then have "x = q" using q(2) by (simp only: if_False)
        then show ?thesis using unreleased_unique [OF assms(1,2) q(1) assms(3)] assms(3,4) False by metis
      qed
    qed
    then show ?thesis unfolding active_rows_def filter_empty_conv by blast
  qed
  ultimately show ?thesis by (intro exI [of _ ?db]) simp
qed

text \<open>
  An override by an operator with an identity and a reason, on a master connection: it answers with the reservation closed at
  that moment, the audit table names the row, the log keeps the slug, the operator and the trimmed reason, and from then on the
  slug has no active reservation at any time.
\<close>

theorem override_frees_the_slug:
  assumes "slug_inv db" and "r \<in> set (reservations db)" and "\<not> sr_released_by_master r" and "o_now (os n) < sr_expires_at r"
    and "NormalizeSlug raw = Inr (sr_slug r)" and "m \<noteq> uuid_nil" and "TrimSpace reason \<noteq> ''''" and "quiet os"
  shows "\<exists>db' n'. run (OverrideRelease (app_master_ops (Some actor)) raw m reason) os n db =
       (Inr (reservation_of (released_row_of r (o_now (os n)))), n', db') \<and>
     override_audited db' (sr_id r) \<and>
     override_log db' = override_log db @ [\<lparr>ov_Slug = sr_slug r, ov_MasterID = m, ov_Reason = TrimSpace reason, ov_At = o_now (os n)\<rparr>] \<and>
     (\<forall>t. active_rows db' (sr_slug r) t = [])"
proof -
  obtain db1 where d: "soft_delete (app_master_ops (Some actor)) (sr_slug r) (o_now (os n)) db = Inr (released_row_of r (o_now (os n)), db1)"
    "override_audited db1 (sr_id r)" "override_log db1 = override_log db" "\<forall>t. active_rows db1 (sr_slug r) t = []"
    using soft_delete_active [OF assms(1-4)] by blast
  have q: "o_fault (os k) = NoFault" for k using assms(8) by (simp add: quiet_def)
  let ?ov = "\<lparr>ov_Slug = sr_slug r, ov_MasterID = m, ov_Reason = TrimSpace reason, ov_At = o_now (os n)\<rparr>"
  let ?db = "db1\<lparr>override_log := override_log db1 @ [?ov], alerts := alerts db1 @ [?ov]\<rparr>"
  have "run (OverrideRelease (app_master_ops (Some actor)) raw m reason) os n db =
     (Inr (reservation_of (released_row_of r (o_now (os n)))), Suc (Suc (Suc (Suc n))), ?db)"
    using assms(5-7) by (simp add: OverrideRelease_def Let_def reservation_SoftDelete_def d(1) q scanReservation_def LogMasterOverride_def NotifyAlert_def)
  moreover have "override_audited ?db (sr_id r)" "\<forall>t. active_rows ?db (sr_slug r) t = []" "override_log ?db = override_log db @ [?ov]"
    using d(2-4) by (simp_all add: override_audited_def active_rows_def)
  ultimately show ?thesis by blast
qed

lemma reason_ex: "TrimSpace '' squatter '' = ''squatter''"
  by code_simp

theorem override_frees_the_slug_witness:
  "\<exists>db' n'. run (OverrideRelease (app_master_ops (Some 9)) ''Acme '' 9 '' squatter '') (slug_env 200) 0 (slug_db_ex [acme_row] []) =
       (Inr (reservation_of (released_row_of acme_row (o_now (slug_env 200 0)))), n', db') \<and>
     override_audited db' (sr_id acme_row) \<and>
     override_log db' = override_log (slug_db_ex [acme_row] []) @
       [\<lparr>ov_Slug = sr_slug acme_row, ov_MasterID = 9, ov_Reason = TrimSpace '' squatter '', ov_At = o_now (slug_env 200 0)\<rparr>] \<and>
     (\<forall>t. active_rows db' (sr_slug acme_row) t = [])"
  by (rule override_frees_the_slug [OF slug_inv_ex(2)])
    (simp_all add: slug_db_ex_def acme_row_def slug_env_def ReservationWindow_def hour_ns_def acme_normal reason_ex quiet_slug_env)

text \<open>When the audit port fails the override reports an error, but the slug is free and the log has no reason for it.\<close>

lemma failed_audit_still_frees:
  assumes "slug_inv db" "r \<in> set (reservations db)" "\<not> sr_released_by_master r" "o_now (os n) < sr_expires_at r"
    and "NormalizeSlug raw = Inr (sr_slug r)" "m \<noteq> uuid_nil" "TrimSpace reason \<noteq> ''''"
    and "o_fault (os (Suc n)) = NoFault" "o_fault (os (Suc (Suc n))) = FailBefore msg"
  shows "\<exists>db' n'. run (OverrideRelease (app_master_ops (Some actor)) raw m reason) os n db =
       (Inl (Wrapped ''slugreservation: override audit'' (Opaque msg)), n', db') \<and>
     override_log db' = override_log db \<and> (\<forall>t. active_rows db' (sr_slug r) t = [])"
proof -
  obtain db1 where d: "soft_delete (app_master_ops (Some actor)) (sr_slug r) (o_now (os n)) db = Inr (released_row_of r (o_now (os n)), db1)"
    "override_log db1 = override_log db" "\<forall>t. active_rows db1 (sr_slug r) t = []"
    using soft_delete_active [OF assms(1-4)] by blast
  have "run (OverrideRelease (app_master_ops (Some actor)) raw m reason) os n db =
     (Inl (Wrapped ''slugreservation: override audit'' (Opaque msg)), Suc (Suc (Suc n)), db1)"
    using assms(5-9) by (simp add: OverrideRelease_def Let_def reservation_SoftDelete_def d(1) scanReservation_def LogMasterOverride_def)
  then show ?thesis using d by blast
qed

section \<open>What the partial index forbids\<close>

text \<open>
  The row of a reservation that has run out stays in the partial unique index. From then on, whichever role asks and for ever:
  the slug counts as available, releasing it again fails without a reservation, and an override fails too, so no call of the
  service can lock the slug a second time or clear the row.
\<close>

theorem expired_lock_is_never_renewed:
  assumes "slug_inv db" and "r \<in> set (reservations db)" and "\<not> sr_released_by_master r"
    and late: "\<And>k. sr_expires_at r \<le> o_now (os k)" and "quiet os" and "NormalizeSlug raw = Inr (sr_slug r)"
  shows "run (CheckAvailable raw) os n db = (Inr (), Suc n, db) \<and>
     (\<exists>e n'. run (ReleaseSlug role raw t) os n db = (Inl e, n', db) \<and> as_ReservedError e = None) \<and>
     (\<exists>e n'. run (OverrideRelease role raw m reason) os n db = (Inl e, n', db))"
proof (intro conjI)
  have q: "o_fault (os k) = NoFault" for k using assms(5) by (simp add: quiet_def)
  have none: "active_rows db (sr_slug r) (o_now (os k)) = []" for k
  proof -
    have "\<not> (sr_slug x = sr_slug r \<and> \<not> sr_released_by_master x \<and> o_now (os k) < sr_expires_at x)" if "x \<in> set (reservations db)" for x
      using unreleased_unique [OF assms(1,2) that assms(3)] late [of k] by auto
    then show ?thesis by (auto simp: active_rows_def filter_empty_conv)
  qed
  show "run (CheckAvailable raw) os n db = (Inr (), Suc n, db)"
    by (simp add: run_CheckAvailable [where os = os and n = n, OF q assms(6)] none)
  have dup: "list_ex (\<lambda>x. sr_slug x = sr_slug r \<and> \<not> sr_released_by_master x) (reservations db)"
    using assms(2,3) by (auto simp: list_ex_iff)
  obtain e where e: "insert_reservation role (os (Suc n)) (sr_slug r) (if t \<noteq> uuid_nil then Some t else None) (o_now (os n))
      (o_now (os n) + ReservationWindow) db = Inl e" "e = Sentinel pg_unique_violation \<or> (\<exists>m. e = Opaque m)"
  proof -
    let ?t = "master_ops_audit_trigger role ''insert'' ''tenant_slug_reservation'' (Some (o_ids (os (Suc n)) 0)) db"
    have i: "insert_reservation role (os (Suc n)) (sr_slug r) (if t \<noteq> uuid_nil then Some t else None) (o_now (os n))
      (o_now (os n) + ReservationWindow) db = (case ?t of Inl e \<Rightarrow> Inl e | Inr _ \<Rightarrow> Inl (Sentinel pg_unique_violation))"
      using dup by (simp add: insert_reservation_def split: sum.splits)
    show ?thesis
    proof (cases ?t)
      case (Inl e)
      moreover from this have "\<exists>m. e = Opaque m" by (auto simp: master_ops_audit_trigger_def split: pg_role.splits option.splits)
      ultimately show ?thesis using i that by simp
    qed (use i that in simp)
  qed
  have "\<exists>n'. run (ReleaseSlug role raw t) os n db = (Inl (Wrapped ''slugreservation: release'' (Wrapped ''slug reservation scan'' e)), n', db)"
    using e assms(6) by (auto simp: ReleaseSlug_def reservation_Insert_def q scanReservation_def run_Active none)
  then show "\<exists>e n'. run (ReleaseSlug role raw t) os n db = (Inl e, n', db) \<and> as_ReservedError e = None"
    using e(2) by (metis as_ReservedError.simps)
  have nohit: "filter (\<lambda>x. sr_slug x = sr_slug r \<and> \<not> sr_released_by_master x \<and> o_now (os n) < sr_expires_at x) (reservations db) = []"
    using none [of n] by (simp add: active_rows_def)
  have "soft_delete role (sr_slug r) (o_now (os n)) db = Inl (if role = app_runtime then permission_denied else Sentinel pgx_ErrNoRows)"
    using nohit by (simp add: soft_delete_def first_row_def)
  then show "\<exists>e n'. run (OverrideRelease role raw m reason) os n db = (Inl e, n', db)"
    using assms(6) by (auto simp: OverrideRelease_def Let_def reservation_SoftDelete_def q scanReservation_def)
qed

theorem expired_lock_is_never_renewed_witness:
  "run (CheckAvailable ''acme'') (slug_env (100 + ReservationWindow)) 0 (slug_db_ex [acme_row] []) = (Inr (), Suc 0, slug_db_ex [acme_row] []) \<and>
   (\<exists>e n'. run (ReleaseSlug app_runtime ''acme'' 8) (slug_env (100 + ReservationWindow)) 0 (slug_db_ex [acme_row] []) = (Inl e, n', slug_db_ex [acme_row] []) \<and>
     as_ReservedError e = None) \<and>
   (\<exists>e n'. run (OverrideRelease (app_master_ops (Some 9)) ''acme'' 9 ''stuck'') (slug_env (100 + ReservationWindow)) 0 (slug_db_ex [acme_row] []) =
     (Inl e, n', slug_db_ex [acme_row] []))"
proof -
  let ?os = "slug_env (100 + ReservationWindow)" and ?db = "slug_db_ex [acme_row] []"
  have r: "acme_row \<in> set (reservations ?db)" "\<not> sr_released_by_master acme_row" "NormalizeSlug ''acme'' = Inr (sr_slug acme_row)"
    by (simp_all add: slug_db_ex_def acme_row_def acme_normal)
  have late: "sr_expires_at acme_row \<le> o_now (?os k)" for k by (simp add: acme_row_def slug_env_def)
  note e = expired_lock_is_never_renewed [OF slug_inv_ex(2) r(1,2) late quiet_slug_env r(3)]
  from e [where role = app_runtime] e [where role = "app_master_ops (Some 9)"] show ?thesis by blast
qed

section \<open>The routes as they are wired\<close>

lemma soft_delete_runtime: "soft_delete app_runtime slug t db = Inl permission_denied"
  by (simp add: soft_delete_def)

lemma OverrideRelease_runtime:
  "run (OverrideRelease app_runtime raw m reason) os n db = (r, n', db') \<Longrightarrow> db' = db \<and> (\<exists>e. r = Inl e)"
  by (auto simp: OverrideRelease_def Let_def reservation_SoftDelete_def soft_delete_runtime permission_denied_def scanReservation_def
     split: if_splits sum.splits fault.splits)

text \<open>
  The override route is mounted on the pool of \<^verbatim>\<open>DATABASE_URL\<close>, whose role \<^verbatim>\<open>app_runtime\<close> may not update the table: whatever
  the request, the token and the faults, no call of the route changes the store or answers 200; a correct request of an
  authorised operator is answered 500.
\<close>

theorem wired_override_never_releases:
  assumes run: "run (override_route app_runtime sha f tok req r) os n db = (a, n', db')"
  shows "db' = db \<and> (\<forall>b. a \<noteq> WriteJSON 200 b) \<and>
    (\<forall>m mfa slug body reason. masterAuthMiddleware sha tok req r = Inr (m, mfa) \<and> m \<noteq> uuid_nil \<and> (req = ''1'' \<longrightarrow> mfa) \<and>
       NormalizeSlug (sq_PathSlug r) = Inr slug \<and> sq_Body r = Some body \<and> body \<noteq> '''' \<and> f body = Some reason \<and>
       TrimSpace reason \<noteq> '''' \<and> quiet os \<longrightarrow> a = HttpError 500 ''internal error'')"
proof (intro conjI allI impI)
  have h: "db' = db \<and> (\<forall>b. a \<noteq> WriteJSON 200 b)" if "run (OverrideHandler app_runtime f rq auth r) os n db = (a, n', db')" for auth rq
    using that OverrideRelease_runtime unfolding OverrideHandler_def
    by (fastforce split: option.splits if_splits prod.splits)
  have "db' = db \<and> (\<forall>b. a \<noteq> WriteJSON 200 b)"
    using run h by (auto simp: override_route_def masterAuthMiddleware_def Let_def split: sum.splits if_splits)
  then show "db' = db" "a \<noteq> WriteJSON 200 b" for b by simp_all
  fix m mfa slug body reason
  assume a: "masterAuthMiddleware sha tok req r = Inr (m, mfa) \<and> m \<noteq> uuid_nil \<and> (req = ''1'' \<longrightarrow> mfa) \<and>
       NormalizeSlug (sq_PathSlug r) = Inr slug \<and> sq_Body r = Some body \<and> body \<noteq> '''' \<and> f body = Some reason \<and>
       TrimSpace reason \<noteq> '''' \<and> quiet os"
  have p: "sq_PathSlug r \<noteq> ''''"
  proof
    assume "sq_PathSlug r = ''''"
    moreover have "NormalizeSlug '''' = Inl (Sentinel sl_ErrInvalidSlug)" by code_simp
    ultimately show False using a by simp
  qed
  have q: "o_fault (os k) = NoFault" for k using a by (simp add: quiet_def)
  have "run (OverrideRelease app_runtime (sq_PathSlug r) m reason) os n db =
      (Inl (Wrapped ''slugreservation: override'' (Wrapped ''slug reservation scan'' permission_denied)), Suc (Suc n), db)"
    using a by (simp add: OverrideRelease_def Let_def reservation_SoftDelete_def soft_delete_runtime q scanReservation_def permission_denied_def)
  moreover have mf: "(req = ''1'' \<and> \<not> mfa) = False" using a by blast
  moreover have "masterAuthMiddleware sha tok req r = Inr (m, mfa)" "m \<noteq> uuid_nil" "sq_Body r = Some body"
    "body \<noteq> ''''" "f body = Some reason" using a by simp_all
  ultimately show "a = HttpError 500 ''internal error''"
    using run p by (simp add: override_route_def OverrideHandler_def permission_denied_def mf)
qed

definition override_request_ex :: slug_request where
  "override_request_ex = \<lparr>sq_Host = ''acme.crm.app:8080'', sq_TLS = False, sq_ForwardedProto = '''', sq_RequestURI = ''/inbox?x=1'',
      sq_Authorization = ''Bearer s3cret'', sq_PathSlug = ''acme'', sq_FormSlug = None, sq_Body = Some ''{...}''\<rparr>"

theorem wired_override_never_releases_witness:
  "fst (run (override_route app_runtime (\<lambda>_. 9) (\<lambda>_. Some ''squatter'') ''s3cret'' '''' override_request_ex) (slug_env 200) 0 (slug_db_ex [acme_row] []))
     = HttpError 500 ''internal error''"
proof -
  let ?run = "run (override_route app_runtime (\<lambda>_. 9) (\<lambda>_. Some ''squatter'') ''s3cret'' '''' override_request_ex) (slug_env 200) 0 (slug_db_ex [acme_row] [])"
  obtain a n' db' where run: "?run = (a, n', db')" by (cases ?run)
  have auth: "masterAuthMiddleware (\<lambda>_. 9) ''s3cret'' '''' override_request_ex = Inr (9, True)" by code_simp
  have reason: "TrimSpace ''squatter'' = ''squatter''" by code_simp
  have "a = HttpError 500 ''internal error''"
    using wired_override_never_releases [OF run] auth reason acme_normal(2) quiet_slug_env by (auto simp: override_request_ex_def)
  then show ?thesis using run by simp
qed

section \<open>Redirects\<close>

lemma run_redirect_Active_cases:
  assumes "run (redirect_Active slug (\<lambda>r. Ret (f r))) os n db = (a, n', db')"
  obtains "db' = db" "\<exists>e. a = f (Inl e)"
  | row where "db' = db" "row \<in> set (redirects db)" "rr_old_slug row = slug" "o_now (os n) < rr_expires_at row"
      "a = f (Inr \<lparr>rd_OldSlug = rr_old_slug row, rd_NewSlug = rr_new_slug row, rd_ExpiresAt = rr_expires_at row\<rparr>)"
proof -
  let ?rows = "filter (\<lambda>r. rr_old_slug r = slug \<and> rr_expires_at r > o_now (os n)) (redirects db)"
  show ?thesis
  proof (cases "o_fault (os n) = NoFault \<and> ?rows \<noteq> []")
    case True
    then obtain row rest where row: "?rows = row # rest" by (cases ?rows) auto
    then have "row \<in> set ?rows" by simp
    then have "row \<in> set (redirects db)" "rr_old_slug row = slug" "o_now (os n) < rr_expires_at row" by simp_all
    moreover have "db' = db" "a = f (Inr \<lparr>rd_OldSlug = rr_old_slug row, rd_NewSlug = rr_new_slug row, rd_ExpiresAt = rr_expires_at row\<rparr>)"
      using assms True row by (simp_all add: redirect_Active_def run_query_env first_row_def scanRedirect_def)
    ultimately show ?thesis by (intro that(2))
  next
    case False
    then have "db' = db \<and> (\<exists>e. a = f (Inl e))"
      using assms by (cases "o_fault (os n)") (auto simp: redirect_Active_def run_query_env first_row_def scanRedirect_def)
    then show ?thesis using that(1) by blast
  qed
qed

text \<open>
  A redirect never leaves the platform: the handler answers 301 only for a host that is one label under the primary host,
  and its target is http or https, one valid slug other than that label, the primary host and the request's own path.
\<close>

theorem redirects_stay_on_the_platform:
  assumes "slug_inv db" and "run (RedirectHandler lower primary r) os n db = (MovedPermanently url, n', db')"
  shows "db' = db \<and> (\<exists>label old new scheme. redirect_label lower primary (sq_Host r) = Some label \<and> CHR ''.'' \<notin> set label \<and>
     NormalizeSlug label = Inr old \<and> slugPattern new \<and> new \<noteq> old \<and> (scheme = ''http'' \<or> scheme = ''https'') \<and>
     url = scheme @ ''://'' @ new @ ''.'' @ lower (TrimSpace primary) @ (if sq_RequestURI r = '''' then ''/'' else sq_RequestURI r))"
proof -
  obtain label where l: "redirect_label lower primary (sq_Host r) = Some label"
    using assms(2) by (cases "redirect_label lower primary (sq_Host r)") (auto simp: RedirectHandler_def)
  obtain old where o: "NormalizeSlug label = Inr old"
    using assms(2) l by (cases "NormalizeSlug label") (auto simp: RedirectHandler_def LookupRedirect_def)
  let ?f = "\<lambda>res. case res of Inl _ \<Rightarrow> ServeNextHandler
    | Inr red \<Rightarrow> MovedPermanently (buildRedirectURL r (rd_NewSlug red) (lower (TrimSpace primary)))"
  have "run (redirect_Active old (\<lambda>res. Ret (?f res))) os n db = (MovedPermanently url, n', db')"
    using assms(2) l o by (simp add: RedirectHandler_def LookupRedirect_def)
  then obtain row where row: "db' = db" "row \<in> set (redirects db)" "rr_old_slug row = old"
    "url = buildRedirectURL r (rr_new_slug row) (lower (TrimSpace primary))"
    by (rule run_redirect_Active_cases) auto
  have new: "slugPattern (rr_new_slug row)" "rr_new_slug row \<noteq> old"
    using assms(1) row(2,3) NormalizeSlug_shape by (auto simp: slug_inv_def)
  have dot: "CHR ''.'' \<notin> set label" using l by (auto simp: redirect_label_def Let_def split: if_splits)
  obtain scheme where "scheme = ''http'' \<or> scheme = ''https''"
    "url = scheme @ ''://'' @ rr_new_slug row @ ''.'' @ lower (TrimSpace primary) @ (if sq_RequestURI r = '''' then ''/'' else sq_RequestURI r)"
    using row(4) by (auto simp: buildRedirectURL_def Let_def split: if_splits)
  then show ?thesis using l o dot new row(1) by blast
qed

definition acme_redirects :: "redirect_row list" where
  "acme_redirects = [\<lparr>rr_old_slug = ''acme'', rr_new_slug = ''new-co'', rr_expires_at = 1000, rr_created_at = 0, rr_updated_at = 0\<rparr>,
     \<lparr>rr_old_slug = ''new-co'', rr_new_slug = ''acme'', rr_expires_at = 1000, rr_created_at = 0, rr_updated_at = 0\<rparr>]"

lemma slug_inv_redirects: "slug_inv (slug_db_ex [] acme_redirects)"
  by (simp add: slug_inv_def slug_db_ex_def acme_redirects_def acme_normal)

lemma acme_label: "redirect_label (\<lambda>x. x) ''crm.app'' ''acme.crm.app:8080'' = Some ''acme''"
  by code_simp

lemma trim_primary: "TrimSpace ''crm.app'' = ''crm.app''"
  by code_simp

lemma acme_moves:
  "run (RedirectHandler (\<lambda>x. x) ''crm.app'' override_request_ex) (slug_env 200) 0 (slug_db_ex [] acme_redirects) =
     (MovedPermanently ''http://new-co.crm.app/inbox?x=1'', 1, slug_db_ex [] acme_redirects)"
  by (simp add: RedirectHandler_def override_request_ex_def acme_label LookupRedirect_def acme_normal redirect_Active_def run_query_env
     first_row_def scanRedirect_def slug_env_def slug_db_ex_def acme_redirects_def buildRedirectURL_def trim_primary)

theorem redirects_stay_on_the_platform_witness:
  "\<exists>label old new scheme. redirect_label (\<lambda>x. x) ''crm.app'' (sq_Host override_request_ex) = Some label \<and> CHR ''.'' \<notin> set label \<and>
     NormalizeSlug label = Inr old \<and> slugPattern new \<and> new \<noteq> old \<and> (scheme = ''http'' \<or> scheme = ''https'') \<and>
     ''http://new-co.crm.app/inbox?x=1'' = scheme @ ''://'' @ new @ ''.'' @ TrimSpace ''crm.app'' @
       (if sq_RequestURI override_request_ex = '''' then ''/'' else sq_RequestURI override_request_ex)"
  using redirects_stay_on_the_platform [OF slug_inv_redirects acme_moves] by blast

text \<open>Two renames that swap two slugs leave redirects that send a browser back and forth; nothing in the service refuses the second one.\<close>

lemma swapped_slugs_redirect_for_ever:
  "store_after (RecordRedirect (app_master_ops (Some 9)) ''new-co'' ''acme'') (slug_env 50)
      (store_after (RecordRedirect (app_master_ops (Some 9)) ''acme'' ''new-co'') (slug_env 50) (slug_db_ex [] []))
    = db \<Longrightarrow>
   fst (run (RedirectHandler (\<lambda>x. x) ''crm.app'' (override_request_ex\<lparr>sq_Host := ''acme.crm.app''\<rparr>)) (slug_env 200) 0 db) =
     MovedPermanently ''http://new-co.crm.app/inbox?x=1'' \<and>
   fst (run (RedirectHandler (\<lambda>x. x) ''crm.app'' (override_request_ex\<lparr>sq_Host := ''new-co.crm.app''\<rparr>)) (slug_env 200) 0 db) =
     MovedPermanently ''http://acme.crm.app/inbox?x=1''"
proof -
  let ?r = "\<lambda>a b. \<lparr>rr_old_slug = a, rr_new_slug = b, rr_expires_at = 50 + RedirectWindow, rr_created_at = 51, rr_updated_at = 51\<rparr>"
  assume db: "store_after (RecordRedirect (app_master_ops (Some 9)) ''new-co'' ''acme'') (slug_env 50)
      (store_after (RecordRedirect (app_master_ops (Some 9)) ''acme'' ''new-co'') (slug_env 50) (slug_db_ex [] [])) = db"
  have rows: "redirects db = [?r ''acme'' ''new-co'', ?r ''new-co'' ''acme'']"
    by (simp add: db [symmetric] store_after_def RecordRedirect_def acme_normal redirect_Upsert_def upsert_redirect_def
       master_ops_audit_trigger_def scanRedirect_def slug_env_def slug_db_ex_def Let_def)
  have l: "redirect_label (\<lambda>x. x) ''crm.app'' ''acme.crm.app'' = Some ''acme''" "redirect_label (\<lambda>x. x) ''crm.app'' ''new-co.crm.app'' = Some ''new-co''"
    by code_simp+
  show ?thesis
    by (simp add: RedirectHandler_def override_request_ex_def l LookupRedirect_def acme_normal redirect_Active_def run_query_env
       first_row_def scanRedirect_def slug_env_def rows buildRedirectURL_def trim_primary RedirectWindow_def ReservationWindow_def hour_ns_def)
qed

end
