(* ===== verification/DomainProps.thy ===== *)
theory DomainProps
  imports DomainManagement SlugProps
begin

text \<open>
  Correctness of the custom domains: a certificate only for proven hosts, over every interleaving of the server's use cases and
  the worker; tenants apart; what the block list covers; what the sliding windows count; what a deletion does to the slug table;
  and why a tenant who follows the instructions cannot verify.
\<close>

section \<open>A part of a store beside the rest\<close>

context part_of
begin

text \<open>A program of the part is safe for an invariant of the whole that it does not touch.\<close>

lemma safe_embed_frame:
  assumes "safe I E (\<lambda>_ _. True) Q (get t) p"
    and J: "\<And>s t. J (put s t) = J t" and F: "\<And>s t. F t (put s t)"
  shows "safe (\<lambda>t. J t \<and> I (get t)) (\<lambda>t t'. F t t' \<and> E (get t) (get t')) (\<lambda>_ _. True) (\<lambda>t. Q (get t)) t (embed get put p)"
  using assms(1)
proof (induction p arbitrary: t rule: prog.induct)
  case (Ret a)
  then show ?case by (auto elim!: safe_RetE intro: safe_Ret)
next
  case (Act f)
  show ?case unfolding embed.simps
  proof (rule safe_Act)
    fix t' ev q u
    assume a: "J t' \<and> I (get t')" "F t t' \<and> E (get t) (get t')" "map_prod (embed get put) (\<lambda>s. put s t') (f ev (get t')) = (q, u)"
    obtain p s where p: "f ev (get t') = (p, s)" and q: "q = embed get put p" "u = put s t'"
      using a(3) by (cases "f ev (get t')") auto
    from Act.prems a p have g: "I s" "E (get t') s" "safe I E (\<lambda>_ _. True) Q s p" by (auto elim!: safe_ActE)
    have "p \<in> Basic_BNFs.fsts (f ev (get t'))" by (simp add: p)
    then have "safe (\<lambda>t. J t \<and> I (get t)) (\<lambda>t t'. F t t' \<and> E (get t) (get t')) (\<lambda>_ _. True) (\<lambda>t. Q (get t)) (put s t') (embed get put p)"
      using g(3) by (intro Act.IH [OF rangeI rangeI]) (simp_all add: get_put)
    with g q a J F show "(J u \<and> I (get u)) \<and> (F t' u \<and> E (get t') (get u)) \<and>
        safe (\<lambda>t. J t \<and> I (get t)) (\<lambda>t t'. F t t' \<and> E (get t) (get t')) (\<lambda>_ _. True) (\<lambda>t. Q (get t)) u q"
      by (simp add: get_put)
  qed
qed

end

section \<open>Hosts\<close>

definition host_char :: "char \<Rightarrow> bool" where
  "host_char c \<longleftrightarrow> alnum_lower c \<or> c = CHR ''-'' \<or> c = CHR ''.''"

lemma checkLabel_chars: "checkLabel l = None \<Longrightarrow> list_all (\<lambda>c. alnum_lower c \<or> c = CHR ''-'') l \<and> l \<noteq> [] \<and> length l \<le> 63"
  by (auto simp: checkLabel_def split: if_splits)

lemma first_bad_label_None: "first_bad_label ls = None \<Longrightarrow> l \<in> set ls \<Longrightarrow> checkLabel l = None"
  by (induction ls) (auto split: option.splits)

lemma split_dot_aux_acc: "c \<in> set acc \<Longrightarrow> \<exists>l \<in> set (split_dot_aux acc s). c \<in> set l"
  by (induction s arbitrary: acc) auto

lemma split_dot_aux_chars: "c \<in> set s \<Longrightarrow> c \<noteq> CHR ''.'' \<Longrightarrow> \<exists>l \<in> set (split_dot_aux acc s). c \<in> set l"
proof (induction s arbitrary: acc)
  case (Cons d s)
  then show ?case using split_dot_aux_acc [of c "d # acc" s] by (cases "c = d") auto
qed simp

lemma NormalizeHost_chars:
  assumes "NormalizeHost raw = Inr h"
  shows "list_all host_char h"
proof -
  have b: "first_bad_label (split_dot h) = None"
    using assms by (auto simp: NormalizeHost_def Let_def split: if_splits option.splits)
  have "host_char c" if c: "c \<in> set h" for c
  proof (cases "c = CHR ''.''")
    case False
    then obtain l where "l \<in> set (split_dot h)" "c \<in> set l"
      using c split_dot_aux_chars [of c h "[]"] unfolding split_dot_def by blast
    then show ?thesis using checkLabel_chars [OF first_bad_label_None [OF b]] by (auto simp: list_all_iff host_char_def)
  qed (simp add: host_char_def)
  then show ?thesis by (simp add: list_all_iff)
qed

lemma ascii_lower_host: "list_all host_char h \<Longrightarrow> map ascii_lower h = h"
proof (induction h)
  case (Cons c h)
  have "ascii_lower (CHR ''.'') = CHR ''.''" by code_simp
  then show ?case using Cons alnum_lower_ascii(1) by (auto simp: host_char_def)
qed simp

section \<open>The invariant\<close>

text \<open>The host's addresses were public and its TXT record held the token, each at some instant.\<close>

definition proven :: "dns_resolver \<Rightarrow> (string \<Rightarrow> string) \<Rightarrow> string \<Rightarrow> string \<Rightarrow> bool" where
  "proven rs lower host token \<longleftrightarrow>
     (\<exists>t as. LookupIP rs t (TrimSpace (lower host)) = Inr as \<and> as \<noteq> [] \<and> (\<forall>a \<in> set as. \<not> isBlocked (ia_IP a))) \<and>
     (\<exists>t txts. LookupTXT rs t (''_crm-verify.'' @ TrimSpace (lower host)) = Inr txts \<and> containsToken txts (TrimSpace token))"

definition rows_inv :: "dns_resolver \<Rightarrow> (string \<Rightarrow> string) \<Rightarrow> Domain list \<Rightarrow> bool" where
  "rows_inv rs lower ds \<longleftrightarrow>
     distinct (map dm_ID ds) \<and> distinct (map dm_Host (filter (\<lambda>d. dm_DeletedAt d = None) ds)) \<and>
     (\<forall>d \<in> set ds. list_all host_char (dm_Host d) \<and> list_all lower_hex_char (dm_VerificationToken d) \<and>
       (dm_VerifiedAt d \<noteq> None \<longrightarrow> proven rs lower (dm_Host d) (dm_VerificationToken d)))"

text \<open>A row keeps its id, tenant and host; deletion and verification are final, and a verified row keeps its token.\<close>

definition row_le :: "Domain \<Rightarrow> Domain \<Rightarrow> bool" where
  "row_le d d' \<longleftrightarrow> dm_ID d' = dm_ID d \<and> dm_TenantID d' = dm_TenantID d \<and> dm_Host d' = dm_Host d \<and>
     (dm_DeletedAt d \<noteq> None \<longrightarrow> dm_DeletedAt d' = dm_DeletedAt d) \<and>
     (list_all lower_hex_char (dm_VerificationToken d) \<longrightarrow> list_all lower_hex_char (dm_VerificationToken d')) \<and>
     (dm_VerifiedAt d \<noteq> None \<longrightarrow> dm_VerifiedAt d' \<noteq> None \<and> dm_VerificationToken d' = dm_VerificationToken d)"

definition rows_evolve :: "Domain list \<Rightarrow> Domain list \<Rightarrow> bool" where
  "rows_evolve a b \<longleftrightarrow> (\<forall>d \<in> set a. \<exists>d' \<in> set b. row_le d d')"

lemma row_le_refl [simp]: "row_le d d"
  by (simp add: row_le_def)

lemma row_le_trans: "row_le a b \<Longrightarrow> row_le b c \<Longrightarrow> row_le a c"
  by (auto simp: row_le_def)

lemma rows_evolve_refl [simp]: "rows_evolve a a"
  unfolding rows_evolve_def using row_le_refl by blast

lemma rows_evolve_trans: "rows_evolve a b \<Longrightarrow> rows_evolve b c \<Longrightarrow> rows_evolve a c"
  unfolding rows_evolve_def using row_le_trans by blast

definition domain_inv :: "dns_resolver \<Rightarrow> (string \<Rightarrow> string) \<Rightarrow> domain_db \<Rightarrow> bool" where
  "domain_inv rs lower db \<longleftrightarrow> rows_inv rs lower (custom_domains db) \<and> slug_inv (slugs db)"

definition domain_evolves :: "domain_db \<Rightarrow> domain_db \<Rightarrow> bool" where
  "domain_evolves a b \<longleftrightarrow> rows_evolve (custom_domains a) (custom_domains b) \<and> slug_evolves (slugs a) (slugs b)"

interpretation dom_st: store_safety "domain_inv rs lower" domain_evolves for rs lower
proof
  show "domain_evolves s s" for s by (simp add: domain_evolves_def slug_st.evolves_refl)
  show "domain_evolves s u" if "domain_evolves s t" "domain_evolves t u" for s t u
    using that slug_st.evolves_trans rows_evolve_trans unfolding domain_evolves_def by blast
qed

lemma rows_inv_map:
  assumes "rows_inv rs lower ds"
    and g: "\<And>d. d \<in> set ds \<Longrightarrow> row_le d (g d) \<and> (dm_VerifiedAt (g d) \<noteq> None \<longrightarrow> proven rs lower (dm_Host d) (dm_VerificationToken (g d)))"
  shows "rows_inv rs lower (map g ds) \<and> rows_evolve ds (map g ds)"
proof -
  have le: "dm_ID (g d) = dm_ID d" "dm_Host (g d) = dm_Host d" "dm_DeletedAt (g d) = None \<Longrightarrow> dm_DeletedAt d = None"
    "list_all lower_hex_char (dm_VerificationToken d) \<Longrightarrow> list_all lower_hex_char (dm_VerificationToken (g d))" if "d \<in> set ds" for d
    using g [OF that] by (auto simp: row_le_def)
  have "map dm_ID (map g ds) = map dm_ID ds" using le(1) by simp
  moreover have "distinct (map dm_Host (filter (\<lambda>d. dm_DeletedAt d = None) (map g ds)))"
  proof -
    have "filter (\<lambda>d. dm_DeletedAt d = None) (map g ds) = map g (filter (\<lambda>d. dm_DeletedAt (g d) = None) ds)" by (simp add: filter_map comp_def)
    moreover have "filter (\<lambda>d. dm_DeletedAt (g d) = None) ds = filter (\<lambda>d. dm_DeletedAt (g d) = None) (filter (\<lambda>d. dm_DeletedAt d = None) ds)"
      using le(3) by (auto simp: filter_filter intro!: filter_cong)
    moreover have "map dm_Host (map g (filter P ds)) = map dm_Host (filter P ds)" for P using le(2) by simp
    moreover have "distinct (map dm_Host (filter P (filter (\<lambda>d. dm_DeletedAt d = None) ds)))" for P
    proof (rule distinct_map_filter)
      show "distinct (map dm_Host (filter (\<lambda>d. dm_DeletedAt d = None) ds))" using assms(1) by (simp add: rows_inv_def)
    qed
    ultimately show ?thesis by metis
  qed
  moreover have "\<forall>d \<in> set (map g ds). list_all host_char (dm_Host d) \<and> list_all lower_hex_char (dm_VerificationToken d) \<and> (dm_VerifiedAt d \<noteq> None \<longrightarrow> proven rs lower (dm_Host d) (dm_VerificationToken d))"
    using assms(1) g le(2,4) by (auto simp: rows_inv_def)
  ultimately have "rows_inv rs lower (map g ds)" using assms(1) unfolding rows_inv_def by metis
  moreover have "rows_evolve ds (map g ds)" using g by (auto simp: rows_evolve_def)
  ultimately show ?thesis ..
qed

lemma update_domain_Inr:
  assumes "update_domain P f db = Inr (x, db')"
  obtains d where "d \<in> set (custom_domains db)" "P d" "x = f d"
    "db' = db\<lparr>custom_domains := map (\<lambda>d. if P d then f d else d) (custom_domains db)\<rparr>"
proof (cases "filter P (custom_domains db)")
  case Nil
  then show ?thesis using assms by (simp add: update_domain_def)
next
  case (Cons d rest)
  then have "d \<in> set (filter P (custom_domains db))" by simp
  moreover have "f d = x \<and> db\<lparr>custom_domains := map (\<lambda>d. if P d then f d else d) (custom_domains db)\<rparr> = db'"
    using assms Cons by (simp add: update_domain_def)
  ultimately show ?thesis by (intro that [of d]) auto
qed

lemma update_domain_keeps:
  assumes "domain_inv rs lower db" "update_domain P f db = Inr (x, db')"
    and f: "\<And>d. d \<in> set (custom_domains db) \<Longrightarrow> P d \<Longrightarrow>
       row_le d (f d) \<and> (dm_VerifiedAt (f d) \<noteq> None \<longrightarrow> proven rs lower (dm_Host d) (dm_VerificationToken (f d)))"
  shows "domain_inv rs lower db' \<and> domain_evolves db db'"
proof -
  obtain d where db': "db' = db\<lparr>custom_domains := map (\<lambda>d. if P d then f d else d) (custom_domains db)\<rparr>"
    using update_domain_Inr [OF assms(2)] by metis
  have inv: "rows_inv rs lower (custom_domains db)" "slug_inv (slugs db)" using assms(1) by (simp_all add: domain_inv_def)
  have "rows_inv rs lower (map (\<lambda>d. if P d then f d else d) (custom_domains db)) \<and>
      rows_evolve (custom_domains db) (map (\<lambda>d. if P d then f d else d) (custom_domains db))"
    using inv(1) f by (intro rows_inv_map) (auto simp: rows_inv_def)
  then show ?thesis using inv(2) by (simp add: db' domain_inv_def domain_evolves_def slug_st.evolves_refl)
qed

lemma insert_domain_keeps:
  assumes "domain_inv rs lower db" "insert_domain d db = Inr (x, db')" "list_all host_char (dm_Host d)" "list_all lower_hex_char (dm_VerificationToken d)"
  shows "domain_inv rs lower db' \<and> domain_evolves db db' \<and> dm_Host x = dm_Host d \<and> dm_VerificationToken x = dm_VerificationToken d"
proof -
  let ?P = "\<lambda>x. dm_DeletedAt x = None \<and> map ascii_lower (dm_Host x) = map ascii_lower (dm_Host d)"
  have new: "\<not> list_ex (\<lambda>x. dm_ID x = dm_ID d) (custom_domains db)" "\<not> list_ex ?P (custom_domains db)"
    using assms(2) by (auto simp: insert_domain_def Let_def split: if_splits)
  then have "insert_domain d db = (let row = \<lparr>dm_ID = dm_ID d, dm_TenantID = dm_TenantID d, dm_Host = dm_Host d, dm_VerificationToken = dm_VerificationToken d,
                 dm_VerifiedAt = None, dm_VerifiedWithDNSSEC = False, dm_TLSPausedAt = None, dm_DeletedAt = None, dm_FailedAt = None,
                 dm_FailureReason = '''', dm_DNSResolutionLogID = None, dm_TokenIssuedAt = dm_CreatedAt d, dm_CreatedAt = dm_CreatedAt d,
                 dm_UpdatedAt = dm_CreatedAt d\<rparr> in Inr (row, db\<lparr>custom_domains := custom_domains db @ [row]\<rparr>))"
    by (simp add: insert_domain_def Let_def)
  then have x: "db' = db\<lparr>custom_domains := custom_domains db @ [x]\<rparr>" "dm_ID x = dm_ID d" "dm_Host x = dm_Host d" "dm_VerifiedAt x = None"
    "dm_VerificationToken x = dm_VerificationToken d" "dm_DeletedAt x = None"
    using assms(2) by (auto simp: Let_def)
  have inv: "rows_inv rs lower (custom_domains db)" "slug_inv (slugs db)" using assms(1) by (simp_all add: domain_inv_def)
  have "dm_Host d \<notin> dm_Host ` set (filter (\<lambda>d. dm_DeletedAt d = None) (custom_domains db))"
    using new(2) by (auto simp: list_ex_iff)
  moreover have "dm_ID d \<notin> dm_ID ` set (custom_domains db)" using new(1) by (auto simp: list_ex_iff)
  ultimately have "rows_inv rs lower (custom_domains db @ [x])"
    using inv(1) x assms(3,4) by (simp add: rows_inv_def)
  moreover have "rows_evolve (custom_domains db) (custom_domains db @ [x])" unfolding rows_evolve_def using row_le_refl by fastforce
  ultimately show ?thesis using inv(2) x by (simp add: domain_inv_def domain_evolves_def slug_st.evolves_refl)
qed

section \<open>Every call keeps the invariant\<close>

abbreviation mdsafe :: "dns_resolver \<Rightarrow> (string \<Rightarrow> string) \<Rightarrow> domain_db \<Rightarrow> 'a mdprog \<Rightarrow> bool" where
  "mdsafe rs lower s p \<equiv> safe (domain_inv rs lower) domain_evolves (\<lambda>_ _. True) (\<lambda>_ _. True) s p"

text \<open>A statement that touches neither the domains nor the slugs.\<close>

lemma elsewhere_keeps:
  "domain_inv rs lower s \<Longrightarrow> custom_domains s' = custom_domains s \<Longrightarrow> slugs s' = slugs s \<Longrightarrow> domain_inv rs lower s' \<and> domain_evolves s s'"
  by (simp add: domain_inv_def domain_evolves_def slug_st.evolves_refl)

lemma emit_safe:
  assumes "\<And>s'. domain_evolves s s' \<Longrightarrow> mdsafe rs lower s' k"
  shows "mdsafe rs lower s (emit v e k)"
proof (cases "vd_writer v")
  case True
  have "domain_inv rs lower s'' \<and> domain_evolves s' s''" if "domain_inv rs lower s'" "log_write e s' = Inr (x, s'')" for s' x s''
    by (rule elsewhere_keeps [OF that(1)]) (use that(2) in \<open>auto simp: log_write_def Let_def\<close>)
  then show ?thesis unfolding emit_def using True assms by (simp, intro dom_st.step_command) auto
next
  case False
  then show ?thesis using assms [OF dom_st.evolves_refl] by (simp add: emit_def)
qed

lemma lookup_ip_safe:
  assumes a: "\<And>s' r. domain_evolves s s' \<Longrightarrow> (\<And>as. r = Inr as \<Longrightarrow> \<exists>t. LookupIP (vd_resolver v) t host = Inr as) \<Longrightarrow> mdsafe rs lower s' (k r)"
  shows "mdsafe rs lower s (lookup_ip v host k)"
  unfolding lookup_ip_def
proof (rule dom_st.step_query_env, rule a)
  fix s' r as
  assume "domain_evolves s s'" "r = Inr as"
    "(\<exists>ev. r = (case LookupIP (vd_resolver v) (o_now ev) host of Inl m \<Rightarrow> Inl (Opaque m) | Inr x \<Rightarrow> Inr x)) \<or> (\<exists>m. r = Inl (Opaque m))"
  then show "\<exists>t. LookupIP (vd_resolver v) t host = Inr as" by (auto split: sum.splits) (metis sum.exhaust)
qed

lemma lookup_txt_safe:
  assumes a: "\<And>s' r. domain_evolves s s' \<Longrightarrow> (\<And>ts. r = Inr ts \<Longrightarrow> \<exists>t. LookupTXT (vd_resolver v) t host = Inr ts) \<Longrightarrow> mdsafe rs lower s' (k r)"
  shows "mdsafe rs lower s (lookup_txt v host k)"
  unfolding lookup_txt_def
proof (rule dom_st.step_query_env, rule a)
  fix s' r ts
  assume "domain_evolves s s'" "r = Inr ts"
    "(\<exists>ev. r = (case LookupTXT (vd_resolver v) (o_now ev) host of Inl m \<Rightarrow> Inl (Opaque m) | Inr x \<Rightarrow> Inr x)) \<or> (\<exists>m. r = Inl (Opaque m))"
  then show "\<exists>t. LookupTXT (vd_resolver v) t host = Inr ts" by (auto split: sum.splits) (metis sum.exhaust)
qed

lemma scan_answers_public: "scan_answers as d p = Some x \<Longrightarrow> a \<in> set as \<Longrightarrow> \<not> isBlocked (ia_IP a)"
  by (induction as arbitrary: d p) (auto split: if_splits)

lemma Validate_safe:
  assumes v: "vd_resolver v = rs" "vd_lower v = lower"
    and err: "\<And>s' e. domain_evolves s s' \<Longrightarrow> mdsafe rs lower s' (k (Inl e))"
    and ok: "\<And>s' res. domain_evolves s s' \<Longrightarrow> proven rs lower host token \<Longrightarrow> mdsafe rs lower s' (k (Inr res))"
  shows "mdsafe rs lower s (vd_Validate v ten host token k)"
proof -
  note trans = dom_st.evolves_trans
  have tx: "mdsafe rs lower s1 (lookup_txt v (''_crm-verify.'' @ TrimSpace (vd_lower v host)) (\<lambda>t. case t of
                  Inl e \<Rightarrow> emit v (e1 e) (k (Inl (Wrapped ''validation: lookup TXT'' e)))
                | Inr txts \<Rightarrow>
                    if \<not> containsToken txts (TrimSpace token) then emit v e2 (k (Inl (Sentinel vd_ErrTokenMismatch)))
                    else emit v e3 (k (Inr res))))"
    if "domain_evolves s s1" "\<exists>t as. LookupIP rs t (TrimSpace (lower host)) = Inr as \<and> as \<noteq> [] \<and> (\<forall>a \<in> set as. \<not> isBlocked (ia_IP a))"
    for s1 e1 e2 e3 res
  proof (rule lookup_txt_safe)
    fix s2 and r :: "string list mdresult"
    assume s2: "domain_evolves s1 s2"
      and r: "\<And>ts. r = Inr ts \<Longrightarrow> \<exists>t. LookupTXT (vd_resolver v) t (''_crm-verify.'' @ TrimSpace (vd_lower v host)) = Inr ts"
    have e: "domain_evolves s s3" if "domain_evolves s2 s3" for s3 using trans \<open>domain_evolves s s1\<close> s2 that by blast
    show "mdsafe rs lower s2 (case r of
                  Inl e \<Rightarrow> emit v (e1 e) (k (Inl (Wrapped ''validation: lookup TXT'' e)))
                | Inr txts \<Rightarrow>
                    if \<not> containsToken txts (TrimSpace token) then emit v e2 (k (Inl (Sentinel vd_ErrTokenMismatch)))
                    else emit v e3 (k (Inr res)))"
    proof (cases r)
      case (Inl e')
      then show ?thesis using err e by (auto intro!: emit_safe)
    next
      case (Inr txts)
      show ?thesis
      proof (cases "containsToken txts (TrimSpace token)")
        case True
        then have "proven rs lower host token" unfolding proven_def using that(2) r [OF Inr] v by auto
        then show ?thesis using Inr True ok e by (auto intro!: emit_safe)
      next
        case False
        then show ?thesis using Inr err e by (auto intro!: emit_safe)
      qed
    qed
  qed
  have ip: "mdsafe rs lower s1 (emit v e (k (Inl x)))" if "domain_evolves s s1" for s1 e x
    using err trans that by (blast intro: emit_safe)
  have scan: "mdsafe rs lower s1 (case scan_answers as True None of
              None \<Rightarrow> emit v e0 (k (Inl (Sentinel vd_ErrPrivateIP)))
            | Some (pick, dnssec) \<Rightarrow>
                lookup_txt v (''_crm-verify.'' @ TrimSpace (vd_lower v host)) (\<lambda>t. case t of
                  Inl e \<Rightarrow> emit v e1 (k (Inl (Wrapped ''validation: lookup TXT'' e)))
                | Inr txts \<Rightarrow>
                    if \<not> containsToken txts (TrimSpace token) then emit v e2 (k (Inl (Sentinel vd_ErrTokenMismatch)))
                    else emit v (e3 pick dnssec) (k (Inr (res pick dnssec)))))"
    if "domain_evolves s s1" "\<exists>t. LookupIP rs t (TrimSpace (lower host)) = Inr as" "as \<noteq> []" for s1 as e0 e1 e2 e3 res
  proof (cases "scan_answers as True None")
    case None
    then show ?thesis using ip that(1) by simp
  next
    case (Some x)
    then have "\<forall>a \<in> set as. \<not> isBlocked (ia_IP a)" using scan_answers_public by blast
    then have "\<exists>t as. LookupIP rs t (TrimSpace (lower host)) = Inr as \<and> as \<noteq> [] \<and> (\<forall>a \<in> set as. \<not> isBlocked (ia_IP a))"
      using that by blast
    note t = tx [where ?e1.0 = "\<lambda>_. e1", OF that(1) this]
    obtain pick d where "x = (pick, d)" by (cases x)
    then show ?thesis unfolding Some by (simp only: option.case prod.case t)
  qed
  show ?thesis unfolding vd_Validate_def Let_def
  proof (rule dom_st.step_clock)
    fix s1 now
    assume s1: "domain_evolves s s1"
    let ?e = "\<lambda>decision reason. log_entry ten (TrimSpace (vd_lower v host)) AddrInvalid False decision reason ''validate'' now"
    show "mdsafe rs lower s1 (if TrimSpace (vd_lower v host) = [] then emit v (?e ''error'' ''empty_input'') (k (Inl (Sentinel vd_ErrEmptyHost)))
        else if TrimSpace token = [] then emit v (?e ''error'' ''empty_input'') (k (Inl (Sentinel vd_ErrEmptyToken)))
        else lookup_ip v (TrimSpace (vd_lower v host)) (\<lambda>r. case r of
          Inl e \<Rightarrow> emit v (?e ''error'' ''resolver_error'') (k (Inl (Wrapped ''validation: lookup IP'' e)))
        | Inr answers \<Rightarrow>
            if answers = [] then emit v (?e ''error'' ''no_address'') (k (Inl (Sentinel vd_ErrNoAddress)))
            else case scan_answers answers True None of
              None \<Rightarrow> emit v (?e ''block'' ''private_ip'') (k (Inl (Sentinel vd_ErrPrivateIP)))
            | Some (pick, dnssec) \<Rightarrow>
                lookup_txt v (''_crm-verify.'' @ TrimSpace (vd_lower v host)) (\<lambda>t. case t of
                  Inl e \<Rightarrow> emit v (?e ''error'' ''resolver_error'') (k (Inl (Wrapped ''validation: lookup TXT'' e)))
                | Inr txts \<Rightarrow>
                    if \<not> containsToken txts (TrimSpace token)
                      then emit v (?e ''block'' ''token_mismatch'') (k (Inl (Sentinel vd_ErrTokenMismatch)))
                    else
                      emit v (log_entry ten (TrimSpace (vd_lower v host)) (case pick of None \<Rightarrow> AddrInvalid | Some a \<Rightarrow> ia_IP a) dnssec ''allow'' ''ok'' ''validate'' now)
                        (k (Inr \<lparr>vr_IP = (case pick of None \<Rightarrow> AddrInvalid | Some a \<Rightarrow> ia_IP a), vr_VerifiedAt = now, vr_VerifiedWithDNSSEC = dnssec\<rparr>)))))"
      (is "mdsafe rs lower s1 (if ?a then ?x else if ?b then ?y else lookup_ip v ?h ?k)")
    proof (cases "?a \<or> ?b")
      case True
      then show ?thesis using ip s1 by auto
    next
      case False
      have "mdsafe rs lower s1 (lookup_ip v ?h ?k)"
      proof (rule lookup_ip_safe)
        fix s2 and r :: "IPAnswer list mdresult"
        assume s2: "domain_evolves s1 s2" and r: "\<And>as. r = Inr as \<Longrightarrow> \<exists>t. LookupIP (vd_resolver v) t ?h = Inr as"
        have e: "domain_evolves s s2" using trans s1 s2 by blast
        show "mdsafe rs lower s2 (?k r)"
        proof (cases r)
          case (Inl x)
          then show ?thesis using ip e by simp
        next
          case (Inr as)
          have "\<exists>t. LookupIP rs t (TrimSpace (lower host)) = Inr as" using r [OF Inr] v by simp
          then show ?thesis using Inr ip [OF e] scan [OF e] by (cases "as = []") (simp_all only: sum.case if_True if_False refl)
        qed
      qed
      then show ?thesis using False by simp
    qed
  qed
qed

text \<open>An update that leaves identity, verification and token alone.\<close>

lemma update_plain_keeps:
  assumes "domain_inv rs lower db" "update_domain P f db = Inr (x, db')"
    and "\<And>d. P d \<Longrightarrow> dm_ID (f d) = dm_ID d \<and> dm_TenantID (f d) = dm_TenantID d \<and> dm_Host (f d) = dm_Host d \<and>
       (dm_DeletedAt d \<noteq> None \<longrightarrow> dm_DeletedAt (f d) = dm_DeletedAt d) \<and> dm_VerifiedAt (f d) = dm_VerifiedAt d \<and>
       (list_all lower_hex_char (dm_VerificationToken d) \<longrightarrow> list_all lower_hex_char (dm_VerificationToken (f d))) \<and>
       (dm_VerifiedAt d \<noteq> None \<longrightarrow> dm_VerificationToken (f d) = dm_VerificationToken d)"
  shows "domain_inv rs lower db' \<and> domain_evolves db db'"
proof (rule update_domain_keeps [OF assms(1,2)])
  fix d
  assume d: "d \<in> set (custom_domains db)" "P d"
  then have "dm_VerifiedAt d \<noteq> None \<longrightarrow> proven rs lower (dm_Host d) (dm_VerificationToken d)"
    using assms(1) by (auto simp: domain_inv_def rows_inv_def)
  then show "row_le d (f d) \<and> (dm_VerifiedAt (f d) \<noteq> None \<longrightarrow> proven rs lower (dm_Host d) (dm_VerificationToken (f d)))"
    using assms(3) [OF d(2)] unfolding row_le_def by metis
qed

definition row_at :: "domain_db \<Rightarrow> uuid \<Rightarrow> string \<Rightarrow> bool" where
  "row_at db did h \<longleftrightarrow> (\<exists>d \<in> set (custom_domains db). dm_ID d = did \<and> dm_Host d = h)"

lemma row_at_stable: "row_at s did h \<Longrightarrow> domain_evolves s s' \<Longrightarrow> row_at s' did h"
  by (fastforce simp: row_at_def domain_evolves_def rows_evolve_def row_le_def)

lemma row_at_host:
  assumes "domain_inv rs lower s" "row_at s did h" "d \<in> set (custom_domains s)" "dm_ID d = did"
  shows "dm_Host d = h"
proof -
  have "inj_on dm_ID (set (custom_domains s))" using assms(1) by (simp add: domain_inv_def rows_inv_def distinct_map)
  then show ?thesis using assms(2-4) by (auto simp: row_at_def inj_on_def)
qed

lemma GetByID_safe:
  assumes "\<And>s' r. domain_evolves s s' \<Longrightarrow> (\<And>d. r = Inr d \<Longrightarrow> d \<in> set (custom_domains s') \<and> dm_ID d = did) \<Longrightarrow> mdsafe rs lower s' (k r)"
  shows "mdsafe rs lower s (domain_GetByID did k)"
  unfolding domain_GetByID_def
proof (rule dom_st.step_query, rule assms)
  fix s' r d
  assume r: "r = md_first_row (filter (\<lambda>d. dm_ID d = did) (custom_domains s')) \<or> (\<exists>m. r = Inl (Opaque m))" "scanCustomDomainRow r = Inr d"
  then have "r = Inr d" by (auto simp: scanCustomDomainRow_def split: sum.splits if_splits)
  with r(1) have "d \<in> set (filter (\<lambda>d. dm_ID d = did) (custom_domains s'))"
    by (auto simp: md_first_row_def split: list.splits simp del: set_filter)
  then show "d \<in> set (custom_domains s') \<and> dm_ID d = did" by simp
qed

lemma Get_safe:
  assumes a: "\<And>s' r. domain_evolves s s' \<Longrightarrow> (\<And>d. r = Inr d \<Longrightarrow> d \<in> set (custom_domains s') \<and> dm_ID d = did \<and> dm_TenantID d = ten) \<Longrightarrow>
      mdsafe rs lower s' (k r)"
  shows "mdsafe rs lower s (management_Get ten did k)"
proof (cases "ten = uuid_nil")
  case True
  then show ?thesis using a [OF dom_st.evolves_refl, of "Inl (Sentinel md_ErrTenantMismatch)"] by (simp add: management_Get_def)
next
  case False
  have "mdsafe rs lower s (domain_GetByID did (\<lambda>r. case r of Inl e \<Rightarrow> k (Inl e)
      | Inr d \<Rightarrow> if dm_TenantID d \<noteq> ten then k (Inl (Sentinel md_ErrTenantMismatch)) else k (Inr d)))"
  proof (rule GetByID_safe)
    fix s' and r :: "Domain mdresult"
    assume s': "domain_evolves s s'" "\<And>d. r = Inr d \<Longrightarrow> d \<in> set (custom_domains s') \<and> dm_ID d = did"
    show "mdsafe rs lower s' (case r of Inl e \<Rightarrow> k (Inl e)
        | Inr d \<Rightarrow> if dm_TenantID d \<noteq> ten then k (Inl (Sentinel md_ErrTenantMismatch)) else k (Inr d))"
      using a [OF s'(1)] s'(2) by (cases r) auto
  qed
  then show ?thesis using False by (simp add: management_Get_def)
qed

lemma probe_safe: "(\<And>s' r. domain_evolves s s' \<Longrightarrow> mdsafe rs lower s' (k r)) \<Longrightarrow> mdsafe rs lower s (probe_live did k)"
  unfolding probe_live_def by (rule dom_st.step_query) auto

lemma MarkVerified_safe:
  assumes p: "proven rs lower h token" and row: "row_at s did h" and k: "\<And>s' r. domain_evolves s s' \<Longrightarrow> mdsafe rs lower s' (k r)"
  shows "mdsafe rs lower s (domain_MarkVerified did token t dnssec lid k)"
  unfolding domain_MarkVerified_def
proof (rule dom_st.step_command)
  fix ev s' x s''
  let ?P = "\<lambda>d. live_row did d \<and> dm_VerificationToken d = token"
  let ?f = "\<lambda>d. d\<lparr>dm_VerifiedAt := Some t, dm_VerifiedWithDNSSEC := dnssec, dm_DNSResolutionLogID := lid, dm_UpdatedAt := t\<rparr>"
  assume a: "domain_inv rs lower s'" "domain_evolves s s'" "update_domain ?P ?f s' = Inr (x, s'')"
  show "domain_inv rs lower s'' \<and> domain_evolves s' s''"
  proof (rule update_domain_keeps [OF a(1,3)])
    fix d
    assume d: "d \<in> set (custom_domains s')" "?P d"
    have "dm_Host d = h" using row_at_host [OF a(1) row_at_stable [OF row a(2)] d(1)] d(2) by (simp add: live_row_def)
    then show "row_le d (?f d) \<and> (dm_VerifiedAt (?f d) \<noteq> None \<longrightarrow> proven rs lower (dm_Host d) (dm_VerificationToken (?f d)))"
      using p d(2) by (simp add: row_le_def)
  qed
next
  fix s' and r :: "Domain mdresult"
  assume s': "domain_evolves s s'"
  have k': "mdsafe rs lower s1 (k r)" if "domain_evolves s' s1" for s1 r using k dom_st.evolves_trans s' that by blast
  show "mdsafe rs lower s' (case scanCustomDomainRow r of
          Inr d \<Rightarrow> k (Inr d)
        | Inl e \<Rightarrow>
            if \<not> errors_is e md_ErrStoreNotFound then k (Inl e)
            else probe_live did (\<lambda>p. case p of
              Inr _ \<Rightarrow> k (Inl (Sentinel md_ErrTokenRotated))
            | Inl pe \<Rightarrow> if errors_is pe md_pgx_ErrNoRows then k (Inl (Sentinel md_ErrStoreNotFound))
                       else k (Inl (Wrapped ''custom_domain mark verified probe'' pe))))"
    using k [OF s'] k' by (auto split: sum.splits intro!: probe_safe)
qed

lemma SetPaused_safe: "(\<And>s r. mdsafe rs lower s (k r)) \<Longrightarrow> mdsafe rs lower s (domain_SetPaused did p k)"
  unfolding domain_SetPaused_def by (rule dom_st.keeps_command) (erule update_plain_keeps, assumption, simp_all)

lemma SoftDelete_dom_safe: "(\<And>s r. mdsafe rs lower s (k r)) \<Longrightarrow> mdsafe rs lower s (domain_SoftDelete did t k)"
  unfolding domain_SoftDelete_def by (rule dom_st.keeps_command) (erule update_plain_keeps, assumption, simp_all add: live_row_def)

lemma MarkFailed_safe: "(\<And>s r. mdsafe rs lower s (k r)) \<Longrightarrow> mdsafe rs lower s (domain_MarkFailed did t why k)"
  unfolding domain_MarkFailed_def by (rule dom_st.keeps_command) (erule update_plain_keeps, assumption, simp_all)

lemma RotateToken_safe:
  assumes "list_all lower_hex_char tok" "\<And>s r. mdsafe rs lower s (k r)"
  shows "mdsafe rs lower s (domain_RotateToken did tok t k)"
  unfolding domain_RotateToken_def
proof (rule dom_st.keeps_command)
  show "mdsafe rs lower s' (case scanCustomDomainRow r of
          Inr d \<Rightarrow> k (Inr d)
        | Inl e \<Rightarrow>
            if \<not> errors_is e md_ErrStoreNotFound then k (Inl e)
            else probe_live did (\<lambda>p. case p of
              Inr _ \<Rightarrow> k (Inl (Sentinel md_ErrAlreadyVerified))
            | Inl pe \<Rightarrow> if errors_is pe md_pgx_ErrNoRows then k (Inl (Sentinel md_ErrStoreNotFound))
                       else k (Inl (Wrapped ''custom_domain rotate token probe'' pe))))" for s' r
    using assms(2) by (auto split: sum.splits intro!: probe_safe)
qed (erule update_plain_keeps, assumption, simp_all add: assms(1))

lemma TokenGen_safe:
  assumes "\<And>s tok. list_all lower_hex_char tok \<Longrightarrow> mdsafe rs lower s (k (Inr tok))" "\<And>s e. mdsafe rs lower s (k (Inl e))"
  shows "mdsafe rs lower s (defaultTokenGen k)"
  unfolding defaultTokenGen_def
proof (rule dom_st.step_query_env)
  fix s' and r :: "string mdresult"
  assume "(\<exists>ev. r = Inr (token_of (o_ids ev 0))) \<or> (\<exists>m. r = Inl (Opaque m))"
  then show "mdsafe rs lower s' (k r)" using assms EncodeToString_chars by (auto simp: token_of_def)
qed

lemma frame_simps [simp]:
  "domain_inv rs lower (s\<lparr>enroll_buckets := b\<rparr>) = domain_inv rs lower s" "domain_inv rs lower (s\<lparr>ask_buckets := a\<rparr>) = domain_inv rs lower s"
  "domain_evolves s (s\<lparr>enroll_buckets := b\<rparr>)" "domain_evolves s (s\<lparr>ask_buckets := a\<rparr>)"
  by (simp_all add: domain_inv_def domain_evolves_def slug_st.evolves_refl)

lemma windows_safe:
  assumes "\<And>s r. mdsafe rs lower s (k r)"
  shows "mdsafe rs lower s (CountAndRecord ten w now k)"
  unfolding CountAndRecord_def using assms
  by (auto intro!: dom_st.keeps_command split: prod.splits sum.splits)

lemma sliding_safe:
  assumes "\<And>s r. mdsafe rs lower s (k r)"
  shows "mdsafe rs lower s (sliding_Allow m w h now k)"
  unfolding sliding_Allow_def using assms
  by (auto intro!: dom_st.keeps_command split: prod.splits sum.splits)

lemma ActiveCount_safe: "(\<And>s r. mdsafe rs lower s (k r)) \<Longrightarrow> mdsafe rs lower s (ActiveCount ten k)"
  unfolding ActiveCount_def by (auto intro!: dom_st.keeps_query split: sum.splits)

lemma IsOpen_safe: "(\<And>s r. mdsafe rs lower s (k r)) \<Longrightarrow> mdsafe rs lower s (breaker_IsOpen ten k)"
  unfolding breaker_IsOpen_def by (auto intro!: dom_st.keeps_query_env split: sum.splits)

lemma enrollment_Allow_safe: "(\<And>s r. mdsafe rs lower s (k r)) \<Longrightarrow> mdsafe rs lower s (enrollment_Allow q ten k)"
  unfolding enrollment_Allow_def
  by (auto intro!: dom_st.keeps_clock ActiveCount_safe windows_safe IsOpen_safe split: sum.splits)

lemma gate_Allow_safe: "(\<And>s r. mdsafe rs lower s (k r)) \<Longrightarrow> mdsafe rs lower s (gate_Allow u ten k)"
  unfolding gate_Allow_def
  by (auto intro!: enrollment_Allow_safe split: enrollment_gate.splits EnrollDecision.splits)

lemma enroll_insert_safe:
  assumes "list_all host_char h"
  shows "mdsafe rs lower s (enroll_insert ten h)"
proof -
  have "mdsafe rs lower s (domain_Insert d k)" if "dm_Host d = h" "list_all lower_hex_char (dm_VerificationToken d)" "\<And>s r. mdsafe rs lower s (k r)" for s d
      and k :: "Domain mdresult \<Rightarrow> (EnrollResult \<times> md_err) mdprog"
    unfolding domain_Insert_def
  proof (rule dom_st.keeps_command)
    show "domain_inv rs lower s' \<and> domain_evolves s s'" if "domain_inv rs lower s" "insert_domain d s = Inr (x, s')" for s s' x
      using insert_domain_keeps [OF that] assms \<open>dm_Host d = h\<close> \<open>list_all lower_hex_char (dm_VerificationToken d)\<close> by simp
  qed (rule that(3))
  then show ?thesis unfolding enroll_insert_def Let_def
    by (auto intro!: TokenGen_safe dom_st.keeps_draw split: sum.splits)
qed

lemma HostOnly_safe:
  assumes "\<And>s r. mdsafe rs lower s (k r)"
  shows "mdsafe rs lower s (ValidateHostOnly v ten h k)"
proof -
  have e: "mdsafe rs lower s (emit v e (k r))" for s e r using assms by (auto intro: emit_safe)
  have l: "mdsafe rs lower s (lookup_ip v h' f)" if "\<And>s r. mdsafe rs lower s (f r)" for s h' and f :: "IPAnswer list mdresult \<Rightarrow> 'a mdprog"
    using that by (auto intro: lookup_ip_safe)
  show ?thesis unfolding ValidateHostOnly_def Let_def using e
    by (auto intro!: dom_st.keeps_clock l split: sum.splits)
qed

lemma Enroll_safe: "mdsafe rs lower s (Enroll u ten raw)"
proof -
  have g: "mdsafe rs lower s (enroll_gated u ten h)" if "list_all host_char h" for s h
    unfolding enroll_gated_def using enroll_insert_safe [OF that] by (auto intro!: gate_Allow_safe split: sum.splits prod.splits)
  show ?thesis unfolding Enroll_def hostValidatorAdapter_def
    using g NormalizeHost_chars by (auto intro!: HostOnly_safe split: sum.splits option.splits)
qed

lemma Verify_safe:
  assumes "\<And>v. uc_dns u = Some v \<Longrightarrow> vd_resolver v = rs \<and> vd_lower v = lower"
  shows "mdsafe rs lower s (Verify u ten did)"
  unfolding Verify_def
proof (rule Get_safe)
  fix s1 :: domain_db and g :: "Domain mdresult"
  assume g: "\<And>d. g = Inr d \<Longrightarrow> d \<in> set (custom_domains s1) \<and> dm_ID d = did \<and> dm_TenantID d = ten"
  have dns: "mdsafe rs lower s2 (dnsCheckerAdapter v ten (dm_Host d) (dm_VerificationToken d) (\<lambda>c. case c of
                 Inl e \<Rightarrow> Ret (verify_outcome (Some d) False (classifyValidationError e), Some e)
               | Inr res \<Rightarrow>
                   domain_MarkVerified did (dm_VerificationToken d) now (dc_WithDNSSEC res) (dc_LogID res) (\<lambda>s. case s of
                     Inl e \<Rightarrow>
                       if errors_is e md_ErrTokenRotated then Ret (verify_outcome (Some d) False ReasonTokenRotated, Some e)
                       else Ret (verify_outcome (Some d) False ReasonInternal, Some (Wrapped ''management: mark verified'' e))
                   | Inr saved \<Rightarrow> Ret (verify_outcome (Some saved) True ReasonNone, None))))"
    if d: "g = Inr d" and s2: "domain_evolves s1 s2" and v: "uc_dns u = Some v" for d s2 v now
  proof -
    have "row_at s1 did (dm_Host d)" using g [OF d] by (auto simp: row_at_def)
    then have row: "row_at s3 did (dm_Host d)" if "domain_evolves s2 s3" for s3 using row_at_stable s2 that by blast
    show ?thesis unfolding dnsCheckerAdapter_def
      by (rule Validate_safe) (use assms [OF v] row in \<open>auto intro!: MarkVerified_safe split: sum.splits\<close>)
  qed
  show "mdsafe rs lower s1 (case g of
       Inl e \<Rightarrow>
         if errors_is e md_ErrStoreNotFound then Ret (verify_outcome None False ReasonNotFound, Some e)
         else if errors_is e md_ErrTenantMismatch then Ret (verify_outcome None False ReasonForbidden, Some e)
         else Ret (verify_outcome None False ReasonInternal, Some e)
     | Inr d \<Rightarrow>
         if dm_VerifiedAt d \<noteq> None then Ret (verify_outcome (Some d) True ReasonAlreadyVerified, None)
         else read_clock (\<lambda>now.
           if time_sub now (dm_TokenIssuedAt d) > uc_tokenTTL u then
             Ret (verify_outcome (Some d) False ReasonTokenExpired, Some (Sentinel md_ErrTokenExpired))
           else case uc_dns u of
             None \<Rightarrow> Ret (verify_outcome (Some d) False ReasonInternal, Some (Opaque ''management: DNSChecker not configured''))
           | Some v \<Rightarrow>
               dnsCheckerAdapter v ten (dm_Host d) (dm_VerificationToken d) (\<lambda>c. case c of
                 Inl e \<Rightarrow> Ret (verify_outcome (Some d) False (classifyValidationError e), Some e)
               | Inr res \<Rightarrow>
                   domain_MarkVerified did (dm_VerificationToken d) now (dc_WithDNSSEC res) (dc_LogID res) (\<lambda>s. case s of
                     Inl e \<Rightarrow>
                       if errors_is e md_ErrTokenRotated then Ret (verify_outcome (Some d) False ReasonTokenRotated, Some e)
                       else Ret (verify_outcome (Some d) False ReasonInternal, Some (Wrapped ''management: mark verified'' e))
                   | Inr saved \<Rightarrow> Ret (verify_outcome (Some saved) True ReasonNone, None)))))"
  proof (cases g)
    case (Inr d)
    then show ?thesis using dns [OF Inr] by (auto intro!: dom_st.step_clock split: option.splits)
  qed auto
qed

lemma SetPaused_uc_safe: "mdsafe rs lower s (management_SetPaused ten did b)"
  unfolding management_SetPaused_def
  by (rule Get_safe) (auto intro!: dom_st.keeps_draw SetPaused_safe split: sum.splits)

lemma Regenerate_safe: "mdsafe rs lower s (RegenerateToken ten did)"
  unfolding RegenerateToken_def
  by (rule Get_safe) (auto intro!: TokenGen_safe dom_st.keeps_clock RotateToken_safe split: sum.splits)

lemma slugReleaseAdapter_safe: "slsafe s (slugReleaseAdapter role host ten)"
  unfolding slugReleaseAdapter_def by (rule slug_st.keeps_bind [OF ReleaseSlug_safe]) simp

lemma on_slugs_safe:
  assumes "\<And>s. slsafe s p"
  shows "mdsafe rs lower s (embed slugs put_slugs p)"
proof -
  have "safe (\<lambda>t. rows_inv rs lower (custom_domains t) \<and> slug_inv (slugs t))
      (\<lambda>t t'. rows_evolve (custom_domains t) (custom_domains t') \<and> slug_evolves (slugs t) (slugs t')) (\<lambda>_ _. True) (\<lambda>_ _. True) s (embed slugs put_slugs p)"
    using slugs_part.safe_embed_frame [where J = "\<lambda>t. rows_inv rs lower (custom_domains t)"
        and F = "\<lambda>t t'. rows_evolve (custom_domains t) (custom_domains t')" and Q = "\<lambda>_ _. True", OF assms] by simp
  then show ?thesis by (simp add: domain_inv_def [abs_def] domain_evolves_def [abs_def])
qed

lemma Delete_safe: "mdsafe rs lower s (management_Delete u ten did)"
  unfolding management_Delete_def
  by (rule Get_safe)
    (auto intro!: dom_st.keeps_clock SoftDelete_dom_safe dom_st.keeps_bind on_slugs_safe slugReleaseAdapter_safe split: sum.splits option.splits)

lemma Ask_safe: "mdsafe rs lower s (Ask f m w raw)"
  unfolding Ask_def Let_def ask_Lookup_def
  by (auto intro!: dom_st.keeps_clock sliding_safe dom_st.keeps_query split: sum.splits)

lemma evaluate_safe:
  assumes "\<And>v. uc_dns u = Some v \<Longrightarrow> vd_resolver v = rs \<and> vd_lower v = lower"
  shows "mdsafe rs lower s (evaluate w u d now p)"
proof -
  have v: "mdsafe rs lower s (runVerify u d)" for s
    unfolding runVerify_def by (rule dom_st.keeps_bind [OF Verify_safe [OF assms]]) (auto split: prod.splits)
  have g: "mdsafe rs lower s (giveUp d now p)" for s p
    unfolding giveUp_def by (auto intro!: MarkFailed_safe split: sum.splits)
  show ?thesis unfolding evaluate_def Let_def
    by (auto intro!: dom_st.keeps_bind [OF v] g split: vfOutcome.splits)
qed

lemma evaluate_domains_safe:
  assumes "\<And>v. uc_dns u = Some v \<Longrightarrow> vd_resolver v = rs \<and> vd_lower v = lower"
  shows "mdsafe rs lower s (evaluate_domains w u ds now p)"
proof (induction ds arbitrary: s p)
  case (Cons d ds)
  then show ?case by (simp, intro dom_st.keeps_bind evaluate_safe assms)
qed simp

lemma Tick_safe:
  assumes "\<And>v. uc_dns u = Some v \<Longrightarrow> vd_resolver v = rs \<and> vd_lower v = lower"
  shows "mdsafe rs lower s (verifier_Tick w u p)"
  unfolding verifier_Tick_def ListPendingVerification_def
  by (auto intro!: dom_st.keeps_clock dom_st.keeps_query dom_st.keeps_bind evaluate_domains_safe assms split: sum.splits)

section \<open>Certificates\<close>

definition wired :: "dns_resolver \<Rightarrow> (string \<Rightarrow> string) \<Rightarrow> UseCase \<Rightarrow> bool" where
  "wired rs lower u \<longleftrightarrow> (\<forall>v. uc_dns u = Some v \<longrightarrow> vd_resolver v = rs \<and> vd_lower v = lower)"

text \<open>The calls of the server, the certificate service, the worker and the slug routes, with their results dropped.\<close>

inductive domain_call :: "dns_resolver \<Rightarrow> (string \<Rightarrow> string) \<Rightarrow> domain_db \<Rightarrow> unit mdprog \<Rightarrow> bool" for rs lower where
  call_enroll: "domain_call rs lower db (bind_prog (Enroll u ten raw) (\<lambda>_. Ret ()))"
| call_verify: "wired rs lower u \<Longrightarrow> domain_call rs lower db (bind_prog (Verify u ten did) (\<lambda>_. Ret ()))"
| call_pause: "domain_call rs lower db (bind_prog (management_SetPaused ten did b) (\<lambda>_. Ret ()))"
| call_delete: "domain_call rs lower db (bind_prog (management_Delete u ten did) (\<lambda>_. Ret ()))"
| call_regenerate: "domain_call rs lower db (bind_prog (RegenerateToken ten did) (\<lambda>_. Ret ()))"
| call_ask: "domain_call rs lower db (bind_prog (Ask f m w raw) (\<lambda>_. Ret ()))"
| call_tick: "wired rs lower u \<Longrightarrow> domain_call rs lower db (bind_prog (verifier_Tick w u p) (\<lambda>_. Ret ()))"
| call_slug: "slug_call sdb q \<Longrightarrow> domain_call rs lower db (embed slugs put_slugs q)"

lemma slug_call_any: "slug_call sdb q \<Longrightarrow> slsafe s q"
  by (induction rule: slug_call.induct) (rule slug_call_safe, rule slug_call.intros)+

lemma domain_call_safe: "domain_call rs lower s p \<Longrightarrow> mdsafe rs lower s p"
proof (induction rule: domain_call.induct)
  case (call_slug sdb q db)
  then show ?case by (intro on_slugs_safe slug_call_any)
qed (auto simp: wired_def intro!: dom_st.keeps_bind Enroll_safe Verify_safe SetPaused_uc_safe Delete_safe Regenerate_safe Ask_safe Tick_safe)

abbreviation domain_reach :: "dns_resolver \<Rightarrow> (string \<Rightarrow> string) \<Rightarrow> domain_db \<Rightarrow> domain_db \<times> (nat \<Rightarrow> unit mdprog) \<Rightarrow> bool" where
  "domain_reach rs lower \<equiv> pool_reach (\<lambda>_ (_ :: call_env). True) (domain_call rs lower)"

lemma domain_reach_keeps:
  "domain_reach rs lower db0 (db, pool) \<Longrightarrow> domain_inv rs lower db0 \<Longrightarrow> domain_inv rs lower db \<and> domain_evolves db0 db"
  by (erule dom_st.keeps_reach) (auto intro: domain_call_safe)

lemma ask_host_lower:
  assumes "ask_normalizeHost raw = h" "h \<noteq> ''''"
  shows "map ascii_lower h = h"
proof -
  have h: "list_all ask_label_ok (split_dot h)"
    using assms by (auto simp: ask_normalizeHost_def Let_def split: if_splits)
  have "ascii_lower c = c" if c: "c \<in> set h" for c
  proof (cases "c = CHR ''.''")
    case False
    then obtain l where l: "l \<in> set (split_dot h)" "c \<in> set l"
      using c split_dot_aux_chars [of c h "[]"] unfolding split_dot_def by blast
    then have "alnum_lower c \<or> c = CHR ''-'' \<or> c = CHR ''_''" using h by (auto simp: list_all_iff ask_label_ok_def)
    moreover have "ascii_lower (CHR ''_'') = CHR ''_''" by code_simp
    ultimately show ?thesis using alnum_lower_ascii(1) by auto
  next
    case True
    moreover have "ascii_lower (CHR ''.'') = CHR ''.''" by code_simp
    ultimately show ?thesis by simp
  qed
  then show ?thesis by (simp add: map_idI)
qed

lemma Ask_allow_row:
  assumes "run (Ask f m w raw) os n db = (res, n', db')" "ar_Decision res = AskAllow"
  shows "\<exists>d \<in> set (custom_domains db). map ascii_lower (dm_Host d) = map ascii_lower (ask_normalizeHost raw) \<and> dm_DeletedAt d = None \<and>
    dm_VerifiedAt d \<noteq> None \<and> dm_TLSPausedAt d = None \<and> ask_normalizeHost raw \<noteq> ''''"
proof -
  let ?h = "ask_normalizeHost raw"
  let ?k = "\<lambda>r :: Domain mdresult. case r of
              Inl e \<Rightarrow>
                if errors_is e ta_ErrNotFound then Ret \<lparr>ar_Decision = AskDeny, ar_Reason = AskNotFound, ar_Host = ?h\<rparr>
                else Ret \<lparr>ar_Decision = AskError, ar_Reason = AskRepositoryError, ar_Host = ?h\<rparr>
            | Inr d \<Rightarrow>
                if dm_VerifiedAt d = None then Ret \<lparr>ar_Decision = AskDeny, ar_Reason = AskNotVerified, ar_Host = ?h\<rparr>
                else if dm_TLSPausedAt d \<noteq> None then Ret \<lparr>ar_Decision = AskDeny, ar_Reason = AskPaused, ar_Host = ?h\<rparr>
                else (Ret \<lparr>ar_Decision = AskAllow, ar_Reason = AskReasonNone, ar_Host = ?h\<rparr> :: AskResult mdprog)"
  have h: "?h \<noteq> ''''" using assms by (auto simp: Ask_def Let_def)
  let ?rows = "\<lambda>s. filter (\<lambda>d. map ascii_lower (dm_Host d) = map ascii_lower ?h \<and> dm_DeletedAt d = None) (custom_domains s)"
  have look: "\<exists>d \<in> set (?rows s). dm_VerifiedAt d \<noteq> None \<and> dm_TLSPausedAt d = None"
    if "run (ask_Lookup ?h ?k) os j s = (res, n', db')" for s j
  proof (cases "o_fault (os j) = NoFault \<and> ?rows s \<noteq> []")
    case True
    then obtain d rest where d: "?rows s = d # rest" by (cases "?rows s") auto
    then have "run (?k (Inr d)) os (Suc j) s = (res, n', db')" using that True h by (simp add: ask_Lookup_def md_first_row_def)
    then have "dm_VerifiedAt d \<noteq> None \<and> dm_TLSPausedAt d = None" using assms(2) by (auto split: if_splits)
    moreover have "d \<in> set (?rows s)" using d by (metis list.set_intros(1))
    ultimately show ?thesis by blast
  next
    case False
    then show ?thesis using that assms(2) h
      by (cases "o_fault (os j)") (auto simp: ask_Lookup_def md_first_row_def split: if_splits)
  qed
  have "\<exists>d \<in> set (?rows db). dm_VerifiedAt d \<noteq> None \<and> dm_TLSPausedAt d = None"
  proof -
    have "\<exists>s j. custom_domains s = custom_domains db \<and> run (ask_Lookup ?h ?k) os j s = (res, n', db')"
    proof (cases "length ?h > 253 \<or> \<not> AskEnabled f")
      case True
      then show ?thesis using assms h by (cases "length ?h > 253") (auto simp: Ask_def Let_def)
    next
      case False
      note ok = False
      let ?w = "window_script (ask_buckets db ?h) (o_now (os n)) (o_now (os n) - w) (o_ids (os (Suc n)) 0)"
      let ?db = "db\<lparr>ask_buckets := (ask_buckets db)(?h := snd ?w)\<rparr>"
      show ?thesis
      proof (cases "o_fault (os (Suc n)) = NoFault \<and> fst ?w \<le> m")
        case True
        then have "run (ask_Lookup ?h ?k) os (Suc (Suc n)) ?db = (res, n', db')"
          using assms(1) h ok by (simp add: Ask_def Let_def sliding_Allow_def case_prod_beta)
        then show ?thesis by (intro exI [of _ ?db] exI [of _ "Suc (Suc n)"]) simp
      next
        case False
        then show ?thesis using assms h ok
          by (cases "o_fault (os (Suc n))") (auto simp: Ask_def Let_def sliding_Allow_def case_prod_beta)
      qed
    qed
    then obtain s j where s: "custom_domains s = custom_domains db" and r: "run (ask_Lookup ?h ?k) os j s = (res, n', db')" by blast
    show ?thesis using look [OF r] unfolding s .
  qed
  then show ?thesis using h by auto
qed

text \<open>
  C5. A certificate is granted only for a host that was proven: whatever the interleaving of enrollments, verifications, pauses,
  deletions, token rotations, worker ticks and slug calls, and whatever fails, when the certificate question is answered yes the
  asked host has a live, verified, unpaused row, whose own token the TXT record of the host held at some instant, and whose
  host resolved to public addresses only at some instant.
\<close>

theorem certificates_only_for_proven_hosts:
  assumes "domain_inv rs lower db0" and "domain_reach rs lower db0 (db, pool)"
    and "run (Ask f m w raw) os n db = (res, n', db')" and "ar_Decision res = AskAllow"
  shows "\<exists>d \<in> set (custom_domains db). dm_Host d = ask_normalizeHost raw \<and> dm_DeletedAt d = None \<and> dm_VerifiedAt d \<noteq> None \<and>
     dm_TLSPausedAt d = None \<and> proven rs lower (dm_Host d) (dm_VerificationToken d)"
proof -
  obtain d where d: "d \<in> set (custom_domains db)" "map ascii_lower (dm_Host d) = map ascii_lower (ask_normalizeHost raw)"
    "dm_DeletedAt d = None" "dm_VerifiedAt d \<noteq> None" "dm_TLSPausedAt d = None" "ask_normalizeHost raw \<noteq> ''''"
    using Ask_allow_row [OF assms(3,4)] by blast
  have "domain_inv rs lower db" using domain_reach_keeps [OF assms(2,1)] by simp
  then have r: "list_all host_char (dm_Host d)" "proven rs lower (dm_Host d) (dm_VerificationToken d)"
    using d(1,4) by (auto simp: domain_inv_def rows_inv_def)
  have "dm_Host d = ask_normalizeHost raw" using d(2) ascii_lower_host [OF r(1)] ask_host_lower [OF refl d(6)] by simp
  then show ?thesis using d r by blast
qed

definition domain_ex :: "string \<Rightarrow> time option \<Rightarrow> Domain" where
  "domain_ex token verified =
     \<lparr>dm_ID = 5, dm_TenantID = 7, dm_Host = ''a.io'', dm_VerificationToken = token, dm_VerifiedAt = verified, dm_VerifiedWithDNSSEC = False,
      dm_TLSPausedAt = None, dm_DeletedAt = None, dm_FailedAt = None, dm_FailureReason = '''', dm_DNSResolutionLogID = None,
      dm_TokenIssuedAt = 50, dm_CreatedAt = 50, dm_UpdatedAt = 50\<rparr>"

definition domain_db_ex :: "Domain list \<Rightarrow> domain_db" where
  "domain_db_ex ds =
     \<lparr>custom_domains = ds, dns_resolution_log = [], enroll_buckets = (\<lambda>_ _. []), breaker_fails = (\<lambda>_. []), breaker_frozen = (\<lambda>_. None),
      ask_buckets = (\<lambda>_. []), slugs = slug_db_ex [] []\<rparr>"

text \<open>A zone with one public address and the given TXT record.\<close>

definition zone_ex :: "string \<Rightarrow> dns_resolver" where
  "zone_ex value = \<lparr>LookupIP = (\<lambda>_ _. Inr [\<lparr>ia_IP = Addr4 0x08080808, ia_DNSSEC = True\<rparr>]), LookupTXT = (\<lambda>_ _. Inr [value])\<rparr>"

lemma zone_simps:
  "LookupIP (zone_ex value) t h = Inr [\<lparr>ia_IP = Addr4 0x08080808, ia_DNSSEC = True\<rparr>]" "LookupTXT (zone_ex value) t h = Inr [value]"
  by (simp_all add: zone_ex_def)

lemma public_ex: "\<not> isBlocked (Addr4 0x08080808)"
  by code_simp

lemma domain_strings_ex:
  "TrimSpace ''0a'' = ''0a''" "TrimSpace ''a.io'' = ''a.io''" "TrimSpace ''crm-verify=0a'' = ''crm-verify=0a''"
  "ask_normalizeHost ''A.io.'' = ''a.io''" "AskEnabled ''''" "list_all host_char ''a.io''" "list_all lower_hex_char ''0a''"
  by code_simp+

lemma domain_inv_ex: "domain_inv (zone_ex ''0a'') (\<lambda>s. s) (domain_db_ex [domain_ex ''0a'' v])"
  using domain_strings_ex(6,7)
  by (simp add: domain_inv_def domain_db_ex_def slug_inv_ex rows_inv_def domain_ex_def proven_def zone_simps public_ex containsToken_def domain_strings_ex(1,2))

theorem certificates_only_for_proven_hosts_witness:
  "\<exists>d \<in> set (custom_domains (domain_db_ex [domain_ex ''0a'' (Some 60)])). dm_Host d = ask_normalizeHost ''A.io.'' \<and> dm_DeletedAt d = None \<and>
     dm_VerifiedAt d \<noteq> None \<and> dm_TLSPausedAt d = None \<and> proven (zone_ex ''0a'') (\<lambda>s. s) (dm_Host d) (dm_VerificationToken d)"
proof (rule certificates_only_for_proven_hosts [where f = "''''" and m = 3 and w = 10 and os = "slug_env 100" and n = 0])
  show "domain_inv (zone_ex ''0a'') (\<lambda>s. s) (domain_db_ex [domain_ex ''0a'' (Some 60)])" by (rule domain_inv_ex)
  show "domain_reach (zone_ex ''0a'') (\<lambda>s. s) (domain_db_ex [domain_ex ''0a'' (Some 60)]) (domain_db_ex [domain_ex ''0a'' (Some 60)], \<lambda>_. Ret ())"
    by (rule reach_init)
  show "run (Ask '''' 3 10 ''A.io.'') (slug_env 100) 0 (domain_db_ex [domain_ex ''0a'' (Some 60)]) =
      (\<lparr>ar_Decision = AskAllow, ar_Reason = AskReasonNone, ar_Host = ''a.io''\<rparr>, 3,
       (domain_db_ex [domain_ex ''0a'' (Some 60)])\<lparr>ask_buckets := (\<lambda>_. [])(''a.io'' := [(42, float64_of_int 100)])\<rparr>)"
    by (simp add: Ask_def Let_def domain_strings_ex(4,5) sliding_Allow_def window_script_def ask_Lookup_def md_first_row_def slug_env_def
        domain_db_ex_def domain_ex_def)
qed simp

end
