(* ===== verification/DomainFlows.thy ===== *)
theory DomainFlows
  imports DomainProps
begin

text \<open>
  What single calls of the custom domains do: the wizard's instructions against the validator, verification, tenants apart,
  deletion and the slug table, the block list against its address ranges, the enrollment windows and the worker's delays.
\<close>

section \<open>The wizard's instructions\<close>

lemma trim_left_keeps:
  assumes "\<forall>p \<in> set ps. c \<notin> set p" "c \<in> set s"
  shows "c \<in> set (trim_left ps s)"
  using assms
proof (induction ps s rule: trim_left.induct)
  case (1 ps s)
  show ?case
  proof (cases "[] \<in> set ps \<or> strip_one ps s = None")
    case True
    then show ?thesis using 1(3) by (subst trim_left.simps) auto
  next
    case False
    then obtain t p where p: "strip_one ps s = Some t" "[] \<notin> set ps" "find (\<lambda>p. prefix p s) ps = Some p" "t = drop (length p) s"
      by (auto simp: strip_one_def)
    then have "p \<in> set ps" "prefix p s" using find_SomeD by fast+
    then have "c \<in> set t" using 1(2,3) p(4) by (auto simp: prefix_def)
    then show ?thesis using 1 p(1,2) by (subst trim_left.simps) auto
  qed
qed

lemma TrimSpace_keeps:
  assumes "\<forall>p \<in> set unicode_spaces. c \<notin> set p" "c \<in> set s"
  shows "c \<in> set (TrimSpace s)"
  using assms trim_left_keeps [of unicode_spaces c s]
    trim_left_keeps [of "map rev unicode_spaces" c "rev (trim_left unicode_spaces s)"]
  by (simp add: TrimSpace_def)

lemma TrimSpace_subset: "set (TrimSpace s) \<subseteq> set s"
  using set_mono_suffix [OF trim_left_suffix [of unicode_spaces s]]
    set_mono_suffix [OF trim_left_suffix [of "map rev unicode_spaces" "rev (trim_left unicode_spaces s)"]]
  by (auto simp: TrimSpace_def)

lemma equals_is_no_space: "\<forall>p \<in> set unicode_spaces. CHR ''='' \<notin> set p"
  by code_simp

lemma instructed_value_is_no_token:
  assumes "list_all lower_hex_char token"
  shows "TrimSpace (TXTValueFor any) \<noteq> TrimSpace token"
proof -
  have "CHR ''='' \<in> set (TrimSpace (TXTValueFor any))"
    by (rule TrimSpace_keeps [OF equals_is_no_space]) (simp add: TXTValueFor_def)
  moreover have "\<not> lower_hex_char (CHR ''='')" by code_simp
  then have "CHR ''='' \<notin> set token" using assms by (auto simp: list_all_iff)
  ultimately show ?thesis using TrimSpace_subset [of token] by (metis subsetD)
qed

text \<open>
  C34. A tenant who publishes what the wizard says, and nothing else, is never verified: as long as the record of the host only ever
  holds values of the form the enrollment shows, whatever tokens they carry, no interleaving of calls and worker ticks verifies
  the domain, and no certificate is ever allowed for it.
\<close>

theorem wizard_instructions_never_verify:
  assumes "domain_inv rs lower db0" and "domain_reach rs lower db0 (db, pool)"
    and "TrimSpace (lower host) = host"
    and follows: "\<And>t txts v. LookupTXT rs t (TXTRecordFor host) = Inr txts \<Longrightarrow> v \<in> set txts \<Longrightarrow> \<exists>token. v = TXTValueFor token"
  shows "(\<forall>d \<in> set (custom_domains db). dm_Host d = host \<longrightarrow> dm_VerifiedAt d = None) \<and>
    (ask_normalizeHost raw = host \<longrightarrow> ar_Decision (fst (run (Ask f m w raw) os n db)) \<noteq> AskAllow)"
proof -
  have inv: "domain_inv rs lower db" using domain_reach_keeps [OF assms(2,1)] by simp
  have no: "dm_VerifiedAt d = None" if d: "d \<in> set (custom_domains db)" "dm_Host d = host" for d
  proof (rule ccontr)
    assume "dm_VerifiedAt d \<noteq> None"
    then have "proven rs lower host (dm_VerificationToken d)" "list_all lower_hex_char (dm_VerificationToken d)"
      using inv d by (auto simp: domain_inv_def rows_inv_def)
    then show False using follows instructed_value_is_no_token assms(3)
      by (fastforce simp: proven_def containsToken_def list_ex_iff TXTRecordFor_def)
  qed
  have "ar_Decision (fst (run (Ask f m w raw) os n db)) \<noteq> AskAllow" if "ask_normalizeHost raw = host"
  proof
    assume a: "ar_Decision (fst (run (Ask f m w raw) os n db)) = AskAllow"
    obtain res n' db' where r: "run (Ask f m w raw) os n db = (res, n', db')" by (cases "run (Ask f m w raw) os n db")
    have "ar_Decision res = AskAllow" using a r by simp
    from Ask_allow_row [OF r this]
    obtain d where d: "d \<in> set (custom_domains db)" "map ascii_lower (dm_Host d) = map ascii_lower host" "dm_VerifiedAt d \<noteq> None" "host \<noteq> ''''"
      unfolding \<open>ask_normalizeHost raw = host\<close> by blast
    have "list_all host_char (dm_Host d)" using inv d(1) by (auto simp: domain_inv_def rows_inv_def)
    then have "dm_Host d = host" using ascii_lower_host ask_host_lower [OF that d(4)] d(2) by simp
    then show False using no [OF d(1)] d(3) by simp
  qed
  with no show ?thesis by blast
qed

theorem wizard_instructions_never_verify_witness:
  "ask_normalizeHost ''A.io.'' = ''a.io'' \<and> LookupTXT (zone_ex (TXTValueFor ''0a'')) 90 (TXTRecordFor ''a.io'') = Inr [TXTValueFor ''0a''] \<and>
    ar_Decision (fst (run (Ask '''' 3 10 ''A.io.'') (slug_env 100) 0 (domain_db_ex [domain_ex ''0a'' None]))) \<noteq> AskAllow"
proof -
  have inv: "domain_inv (zone_ex (TXTValueFor ''0a'')) (\<lambda>s. s) (domain_db_ex [domain_ex ''0a'' None])"
    using domain_strings_ex(6,7) by (simp add: domain_inv_def domain_db_ex_def slug_inv_ex rows_inv_def domain_ex_def)
  have reach: "domain_reach (zone_ex (TXTValueFor ''0a'')) (\<lambda>s. s) (domain_db_ex [domain_ex ''0a'' None]) (domain_db_ex [domain_ex ''0a'' None], \<lambda>_. Ret ())"
    by (rule reach_init)
  have follows: "\<exists>token. v = TXTValueFor token" if "LookupTXT (zone_ex (TXTValueFor ''0a'')) t h = Inr txts" "v \<in> set txts" for t h txts v
    using that by (auto simp: zone_simps)
  have "ask_normalizeHost ''A.io.'' = ''a.io'' \<longrightarrow>
      ar_Decision (fst (run (Ask '''' 3 10 ''A.io.'') (slug_env 100) 0 (domain_db_ex [domain_ex ''0a'' None]))) \<noteq> AskAllow"
    by (rule conjunct2, rule wizard_instructions_never_verify [OF inv reach domain_strings_ex(2)], erule follows)
  then show ?thesis by (simp add: domain_strings_ex(4) zone_simps)
qed

section \<open>Verification\<close>

lemma filter_distinct_key:
  "distinct (map f xs) \<Longrightarrow> d \<in> set xs \<Longrightarrow> filter (\<lambda>x. f x = f d) xs = [d]"
proof (induction xs)
  case (Cons x xs)
  show ?case
  proof (cases "x = d")
    case True
    have "filter (\<lambda>x. f x = f d) xs = []"
    proof -
      have "f x \<noteq> f d" if "x \<in> set xs" for x using Cons.prems(1) True that by (auto simp: image_iff)
      then show ?thesis by (simp add: filter_empty_conv)
    qed
    then show ?thesis using True by simp
  next
    case False
    then have "d \<in> set xs" using Cons.prems(2) by simp
    moreover from this have "f x \<noteq> f d" using Cons.prems(1) by (auto simp: image_iff)
    ultimately show ?thesis using Cons by simp
  qed
qed simp

lemma row_unique:
  "domain_inv rs lower db \<Longrightarrow> d \<in> set (custom_domains db) \<Longrightarrow> filter (\<lambda>x. dm_ID x = dm_ID d) (custom_domains db) = [d]"
  by (rule filter_distinct_key) (simp_all add: domain_inv_def rows_inv_def)

lemma live_unique:
  assumes "domain_inv rs lower db" "d \<in> set (custom_domains db)" "P d"
  shows "filter (\<lambda>x. dm_ID x = dm_ID d \<and> P x) (custom_domains db) = [d]"
proof -
  have "filter P (filter (\<lambda>x. dm_ID x = dm_ID d) (custom_domains db)) = [d]" using row_unique [OF assms(1,2)] assms(3) by simp
  then show ?thesis by (simp add: conj_commute)
qed

lemma scan_answers_all:
  "\<forall>a \<in> set as. \<not> isBlocked (ia_IP a) \<Longrightarrow>
   scan_answers as b p = Some (case p of Some q \<Rightarrow> Some q | None \<Rightarrow> (case as of [] \<Rightarrow> None | a # _ \<Rightarrow> Some a), b \<and> list_all ia_DNSSEC as)"
  by (induction as b p rule: scan_answers.induct) (auto split: option.splits)

definition verified_row :: "Domain \<Rightarrow> time \<Rightarrow> bool \<Rightarrow> Domain" where
  "verified_row d now dnssec = d\<lparr>dm_VerifiedAt := Some now, dm_VerifiedWithDNSSEC := dnssec, dm_DNSResolutionLogID := None, dm_UpdatedAt := now\<rparr>"

text \<open>An update that picks one row by its id changes that row only.\<close>

lemma update_one_row:
  assumes "domain_inv rs lower db" "d \<in> set (custom_domains db)" "P d" "\<And>x. P x \<Longrightarrow> dm_ID x = dm_ID d" "custom_domains s = custom_domains db"
  shows "update_domain P f s = Inr (f d, s\<lparr>custom_domains := map (\<lambda>x. if x = d then f d else x) (custom_domains db)\<rparr>)"
proof -
  have one: "filter P (custom_domains db) = [d]"
  proof -
    have "filter P (custom_domains db) = filter (\<lambda>x. dm_ID x = dm_ID d \<and> P x) (custom_domains db)"
      using assms(4) by (intro filter_cong) auto
    then show ?thesis using live_unique [where P = P, OF assms(1-3)] by simp
  qed
  have "map (\<lambda>x. if P x then f x else x) (custom_domains db) = map (\<lambda>x. if x = d then f d else x) (custom_domains db)"
  proof (rule map_cong [OF refl])
    fix y assume "y \<in> set (custom_domains db)"
    then have "P y \<longleftrightarrow> y \<in> set (filter P (custom_domains db))" by simp
    then show "(if P y then f y else y) = (if y = d then f d else y)" unfolding one by simp
  qed
  then show ?thesis using assms(5) one by (simp add: update_domain_def)
qed

text \<open>
  C33. A tenant who publishes the bare token is verified: when the token is young enough, the host resolves to public addresses and
  its TXT record holds the token, then the verification answers yes, marks the row with the current time, with whether
  every address answer was signed (the TXT answer is not looked at for that) and with no reference to the resolution log, and leaves
  every other domain alone.
\<close>

theorem published_token_verifies:
  assumes "domain_inv rs lower db" and "d \<in> set (custom_domains db)" and "dm_DeletedAt d = None" and "dm_VerifiedAt d = None"
    and "dm_TenantID d \<noteq> uuid_nil" and "quiet os"
    and "time_sub (o_now (os (Suc n))) (dm_TokenIssuedAt d) \<le> 24 * 3600 * 1000000000"
    and "TrimSpace (lower (dm_Host d)) = dm_Host d" and "dm_Host d \<noteq> ''''" and "TrimSpace (dm_VerificationToken d) \<noteq> ''''"
    and "\<And>t. LookupIP rs t (dm_Host d) = Inr answers" and "answers \<noteq> []" and "\<forall>a \<in> set answers. \<not> isBlocked (ia_IP a)"
    and "\<And>t. LookupTXT rs t (TXTRecordFor (dm_Host d)) = Inr txts" and "dm_VerificationToken d \<in> set txts"
  shows "\<exists>db' n'. run (Verify (server_UseCase rs lower) (dm_TenantID d) (dm_ID d)) os n db =
       ((verify_outcome (Some (verified_row d (o_now (os (Suc n))) (list_all ia_DNSSEC answers))) True ReasonNone, None), n', db') \<and>
     custom_domains db' =
       map (\<lambda>x. if x = d then verified_row d (o_now (os (Suc n))) (list_all ia_DNSSEC answers) else x) (custom_domains db)"
proof -
  have q: "o_fault (os k) = NoFault" for k using assms(6) by (simp add: quiet_def)
  have upd: "update_domain (\<lambda>x. live_row (dm_ID d) x \<and> dm_VerificationToken x = dm_VerificationToken d)
       (\<lambda>x. x\<lparr>dm_VerifiedAt := Some t, dm_VerifiedWithDNSSEC := b, dm_DNSResolutionLogID := None, dm_UpdatedAt := t\<rparr>) (db\<lparr>dns_resolution_log := l\<rparr>) =
      Inr (verified_row d t b, db\<lparr>dns_resolution_log := l, custom_domains := map (\<lambda>x. if x = d then verified_row d t b else x) (custom_domains db)\<rparr>)" for t b l
    by (subst update_one_row [OF assms(1,2)]) (simp_all add: live_row_def assms(3) verified_row_def)
  have "containsToken txts (TrimSpace (dm_VerificationToken d))" using assms(15) by (auto simp: containsToken_def list_ex_iff)
  note facts = q row_unique [OF assms(1,2)] scan_answers_all [OF assms(13)] this assms(4,5,7-9,10-12) assms(14) [unfolded TXTRecordFor_def]
  show ?thesis
    using facts upd
    by (simp add: Verify_def management_Get_def domain_GetByID_def md_first_row_def scanCustomDomainRow_def server_UseCase_def management_New_def
      defaultTokenTTL_def hour_ns_def dnsCheckerAdapter_def vd_Validate_def Let_def lookup_ip_def lookup_txt_def emit_def log_write_def
      domain_MarkVerified_def run_query_env)
qed

theorem published_token_verifies_witness:
  "\<exists>db' n'. run (Verify (server_UseCase (zone_ex ''0a'') (\<lambda>s. s)) (dm_TenantID (domain_ex ''0a'' None)) (dm_ID (domain_ex ''0a'' None))) (slug_env 100) 0
       (domain_db_ex [domain_ex ''0a'' None]) =
       ((verify_outcome (Some (verified_row (domain_ex ''0a'' None) (o_now (slug_env 100 (Suc 0))) (list_all ia_DNSSEC [\<lparr>ia_IP = Addr4 0x08080808, ia_DNSSEC = True\<rparr>])))
          True ReasonNone, None), n', db') \<and>
     custom_domains db' =
       map (\<lambda>x. if x = domain_ex ''0a'' None
                  then verified_row (domain_ex ''0a'' None) (o_now (slug_env 100 (Suc 0))) (list_all ia_DNSSEC [\<lparr>ia_IP = Addr4 0x08080808, ia_DNSSEC = True\<rparr>])
                else x) (custom_domains (domain_db_ex [domain_ex ''0a'' None]))"
proof (rule published_token_verifies [OF domain_inv_ex])
  have tok: "dm_VerificationToken (domain_ex ''0a'' None) = ''0a''" "dm_Host (domain_ex ''0a'' None) = ''a.io''" by (simp_all add: domain_ex_def)
  show "TrimSpace (dm_VerificationToken (domain_ex ''0a'' None)) \<noteq> ''''" by (simp add: tok domain_strings_ex)
  show "TrimSpace (dm_Host (domain_ex ''0a'' None)) = dm_Host (domain_ex ''0a'' None)" by (simp add: tok domain_strings_ex)
  show "dm_VerificationToken (domain_ex ''0a'' None) \<in> set [''0a'']" by (simp add: tok)
qed (simp_all add: domain_db_ex_def domain_ex_def quiet_slug_env slug_env_def zone_simps public_ex time_sub_def min_i64_def max_i64_def)

section \<open>Tenants apart\<close>

text \<open>
  C35. The domain of another tenant is out of reach: pausing, deleting, rotating the token and verifying all fail on it with the
  same error, whatever happens to the statement, and change nothing; when the lookup itself works the error is the tenant
  mismatch, and the verification answers with no domain at all.
\<close>

theorem foreign_domains_are_refused:
  assumes "domain_inv rs lower db" and "d \<in> set (custom_domains db)" and "dm_TenantID d \<noteq> t"
  shows "\<exists>e k out. run (management_SetPaused t (dm_ID d) b) os n db = (Inl e, k, db) \<and>
     run (management_Delete u t (dm_ID d)) os n db = (Inl e, k, db) \<and>
     run (RegenerateToken t (dm_ID d)) os n db = (Inl e, k, db) \<and>
     run (Verify u t (dm_ID d)) os n db = ((out, Some e), k, db) \<and> vo_Domain out = None \<and> \<not> vo_Verified out \<and>
     (o_fault (os n) = NoFault \<longrightarrow> e = Sentinel md_ErrTenantMismatch \<and> vo_Reason out = ReasonForbidden)"
proof (cases "t = uuid_nil")
  case True
  then show ?thesis
    by (simp add: management_SetPaused_def management_Delete_def RegenerateToken_def Verify_def management_Get_def verify_outcome_def)
next
  case False
  note defs = management_SetPaused_def management_Delete_def RegenerateToken_def Verify_def management_Get_def domain_GetByID_def
    md_first_row_def scanCustomDomainRow_def verify_outcome_def
  show ?thesis
  proof (cases "o_fault (os n)")
    case NoFault
    then show ?thesis using False row_unique [OF assms(1,2)] assms(3) by (simp add: defs)
  qed (use False in \<open>simp_all add: defs\<close>)
qed

theorem foreign_domains_are_refused_witness:
  "\<exists>k out. run (management_SetPaused 8 5 True) (slug_env 100) 0 (domain_db_ex [domain_ex ''0a'' None]) =
       (Inl (Sentinel md_ErrTenantMismatch), k, domain_db_ex [domain_ex ''0a'' None]) \<and>
     run (management_Delete (server_UseCase (zone_ex ''0a'') (\<lambda>s. s)) 8 5) (slug_env 100) 0 (domain_db_ex [domain_ex ''0a'' None]) =
       (Inl (Sentinel md_ErrTenantMismatch), k, domain_db_ex [domain_ex ''0a'' None]) \<and>
     run (RegenerateToken 8 5) (slug_env 100) 0 (domain_db_ex [domain_ex ''0a'' None]) =
       (Inl (Sentinel md_ErrTenantMismatch), k, domain_db_ex [domain_ex ''0a'' None]) \<and>
     run (Verify (server_UseCase (zone_ex ''0a'') (\<lambda>s. s)) 8 5) (slug_env 100) 0 (domain_db_ex [domain_ex ''0a'' None]) =
       ((out, Some (Sentinel md_ErrTenantMismatch)), k, domain_db_ex [domain_ex ''0a'' None]) \<and> \<not> vo_Verified out"
proof -
  have d: "domain_ex ''0a'' None \<in> set (custom_domains (domain_db_ex [domain_ex ''0a'' None]))" "dm_TenantID (domain_ex ''0a'' None) \<noteq> 8"
    "dm_ID (domain_ex ''0a'' None) = 5" "o_fault (slug_env 100 0) = NoFault"
    by (simp_all add: domain_db_ex_def domain_ex_def slug_env_def)
  show ?thesis
    using foreign_domains_are_refused [where b = True and u = "server_UseCase (zone_ex ''0a'') (\<lambda>s. s)" and os = "slug_env 100" and n = 0, OF domain_inv_ex d(1,2)]
    unfolding d(3) using d(4) by blast
qed

section \<open>Deletion and the slug table\<close>

lemma reserve_free:
  assumes "\<And>r. r \<in> set (reservations s) \<Longrightarrow> sr_id r \<noteq> o_ids ev 0" "\<And>r. r \<in> set (reservations s) \<Longrightarrow> sr_slug r = label \<Longrightarrow> sr_released_by_master r"
  shows "insert_reservation app_runtime ev label by now expiry s =
     Inr (\<lparr>sr_id = o_ids ev 0, sr_slug = label, sr_released_at = now, sr_released_by_tenant_id = by, sr_expires_at = expiry,
           sr_released_by_master = False, sr_created_at = o_now ev\<rparr>,
          s\<lparr>reservations := reservations s @ [\<lparr>sr_id = o_ids ev 0, sr_slug = label, sr_released_at = now, sr_released_by_tenant_id = by,
             sr_expires_at = expiry, sr_released_by_master = False, sr_created_at = o_now ev\<rparr>]\<rparr>)"
  using assms by (auto simp: insert_reservation_def Let_def master_ops_audit_trigger_def list_ex_iff)

lemma ReleaseSlug_free:
  assumes "quiet os" "NormalizeSlug raw = Inr label" "ten \<noteq> uuid_nil" "\<And>r. r \<in> set (reservations s) \<Longrightarrow> sr_id r \<noteq> o_ids (os (Suc m)) 0"
    "\<And>r. r \<in> set (reservations s) \<Longrightarrow> sr_slug r = label \<Longrightarrow> sr_released_by_master r"
  shows "\<exists>row. run (ReleaseSlug app_runtime raw ten) os m s = (Inr (reservation_of row), Suc (Suc m), s\<lparr>reservations := reservations s @ [row]\<rparr>) \<and>
     sr_slug row = label \<and> sr_expires_at row = o_now (os m) + ReservationWindow \<and> \<not> sr_released_by_master row"
proof -
  have q: "o_fault (os k) = NoFault" for k using assms(1) by (simp add: quiet_def)
  let ?row = "\<lparr>sr_id = o_ids (os (Suc m)) 0, sr_slug = label, sr_released_at = o_now (os m), sr_released_by_tenant_id = Some ten,
     sr_expires_at = o_now (os m) + ReservationWindow, sr_released_by_master = False, sr_created_at = o_now (os (Suc m))\<rparr>"
  have ins: "insert_reservation app_runtime (os (Suc m)) label (Some ten) (o_now (os m)) (o_now (os m) + ReservationWindow) s =
      Inr (?row, s\<lparr>reservations := reservations s @ [?row]\<rparr>)"
    by (rule reserve_free) (rule assms(4), assumption, rule assms(5), assumption+)
  have "run (ReleaseSlug app_runtime raw ten) os m s = (Inr (reservation_of ?row), Suc (Suc m), s\<lparr>reservations := reservations s @ [?row]\<rparr>)"
    using assms(2,3) by (simp add: ReleaseSlug_def reservation_Insert_def scanReservation_def q ins)
  then show ?thesis by (intro exI [of _ ?row]) simp
qed

lemma deleted_host_is_free:
  assumes "domain_inv rs lower db" "d \<in> set (custom_domains db)" "dm_DeletedAt d = None" "x \<in> set (custom_domains db)" "dm_Host x = dm_Host d" "x \<noteq> d"
  shows "dm_DeletedAt x \<noteq> None"
proof
  assume "dm_DeletedAt x = None"
  moreover have "inj_on dm_Host (set (filter (\<lambda>d. dm_DeletedAt d = None) (custom_domains db)))"
    using assms(1) by (simp add: domain_inv_def rows_inv_def distinct_map)
  ultimately show False using assms(2-6) by (auto simp: inj_on_def)
qed

text \<open>
  Deleting a domain, verified or not, takes its row out of use, so the host is free for the next tenant at once, and locks the
  first label of the host as a platform slug for 365 days, provided the label is free: the reservation is active at exactly
  the instants before the window ends.
\<close>

theorem deleting_a_domain_locks_its_label:
  assumes "domain_inv rs lower db" and "d \<in> set (custom_domains db)" and "dm_DeletedAt d = None" and "dm_TenantID d \<noteq> uuid_nil" and "quiet os"
    and "NormalizeSlug (firstLabel (dm_Host d)) = Inr label"
    and "\<And>r. r \<in> set (reservations (slugs db)) \<Longrightarrow> sr_id r \<noteq> o_ids (os (n + 4)) 0"
    and "\<And>r. r \<in> set (reservations (slugs db)) \<Longrightarrow> sr_slug r = label \<Longrightarrow> sr_released_by_master r"
  shows "\<exists>db' n'. run (management_Delete (server_UseCase rs' lower') (dm_TenantID d) (dm_ID d)) os n db = (Inr (), n', db') \<and>
     (\<forall>x \<in> set (custom_domains db'). dm_Host x = dm_Host d \<longrightarrow> dm_DeletedAt x \<noteq> None) \<and>
     (\<forall>t. active_rows (slugs db') label t \<noteq> [] \<longleftrightarrow> t < o_now (os (n + 3)) + 365 * 24 * 3600 * 1000000000)"
proof -
  have q: "o_fault (os k) = NoFault" for k using assms(5) by (simp add: quiet_def)
  let ?f = "\<lambda>x. x\<lparr>dm_DeletedAt := Some (o_now (os (Suc n))), dm_UpdatedAt := o_now (os (Suc n))\<rparr>"
  let ?rows = "map (\<lambda>x. if x = d then ?f d else x) (custom_domains db)"
  have upd: "update_domain (live_row (dm_ID d)) ?f db = Inr (?f d, db\<lparr>custom_domains := ?rows\<rparr>)"
    by (rule update_one_row [OF assms(1,2)]) (simp_all add: live_row_def assms(3))
  have n: "n + 3 = Suc (Suc (Suc n))" "n + 4 = Suc (Suc (Suc (Suc n)))" by simp_all
  obtain row where r: "run (ReleaseSlug app_runtime (firstLabel (dm_Host d)) (dm_TenantID d)) os (Suc (Suc (Suc n))) (slugs db) =
      (Inr (reservation_of row), Suc (Suc (Suc (Suc (Suc n)))), (slugs db)\<lparr>reservations := reservations (slugs db) @ [row]\<rparr>)"
    and row: "sr_slug row = label" "sr_expires_at row = o_now (os (n + 3)) + ReservationWindow" "\<not> sr_released_by_master row"
    using ReleaseSlug_free [OF assms(5,6,4), of "slugs db" "Suc (Suc (Suc n))"] assms(7,8) unfolding n by metis
  let ?db' = "db\<lparr>custom_domains := ?rows, slugs := (slugs db)\<lparr>reservations := reservations (slugs db) @ [row]\<rparr>\<rparr>"
  have "run (management_Delete (server_UseCase rs' lower') (dm_TenantID d) (dm_ID d)) os n db = (Inr (), Suc (Suc (Suc (Suc (Suc n)))), ?db')"
    using q assms(4) row_unique [OF assms(1,2)] upd r
    by (simp add: management_Delete_def management_Get_def domain_GetByID_def md_first_row_def scanCustomDomainRow_def domain_SoftDelete_def
        server_UseCase_def management_New_def Let_def slugs_part.run_embed slugReleaseAdapter_def)
  moreover have "\<forall>x \<in> set ?rows. dm_Host x = dm_Host d \<longrightarrow> dm_DeletedAt x \<noteq> None"
    using deleted_host_is_free [OF assms(1-3)] by auto
  moreover have "active_rows (slugs ?db') label t \<noteq> [] \<longleftrightarrow> t < o_now (os (n + 3)) + 365 * 24 * 3600 * 1000000000" for t
    using assms(8) row by (auto simp: active_rows_def filter_empty_conv ReservationWindow_def hour_ns_def)
  ultimately show ?thesis by (intro exI [of _ ?db'] exI [of _ "Suc (Suc (Suc (Suc (Suc n))))"]) simp
qed

text \<open>When the label is locked already, the deletion reports an error although the row is deleted.\<close>

lemma failed_release_keeps_the_delete:
  assumes "domain_inv rs lower db" and "d \<in> set (custom_domains db)" and "dm_DeletedAt d = None" and "dm_TenantID d \<noteq> uuid_nil" and "quiet os"
    and "NormalizeSlug (firstLabel (dm_Host d)) = Inr (sr_slug r)" and "r \<in> set (reservations (slugs db))" and "\<not> sr_released_by_master r"
  shows "\<exists>e db' n'. run (management_Delete (server_UseCase rs' lower') (dm_TenantID d) (dm_ID d)) os n db = (Inl e, n', db') \<and>
     (\<forall>x \<in> set (custom_domains db'). dm_ID x = dm_ID d \<longrightarrow> dm_DeletedAt x \<noteq> None)"
proof -
  have q: "o_fault (os k) = NoFault" for k using assms(5) by (simp add: quiet_def)
  let ?f = "\<lambda>x. x\<lparr>dm_DeletedAt := Some (o_now (os (Suc n))), dm_UpdatedAt := o_now (os (Suc n))\<rparr>"
  let ?rows = "map (\<lambda>x. if x = d then ?f d else x) (custom_domains db)"
  have upd: "update_domain (live_row (dm_ID d)) ?f db = Inr (?f d, db\<lparr>custom_domains := ?rows\<rparr>)"
    by (rule update_one_row [OF assms(1,2)]) (simp_all add: live_row_def assms(3))
  have "insert_reservation app_runtime ev (sr_slug r) by now expiry (slugs db) = Inl (Sentinel pg_unique_violation)" for ev "by" now expiry
    using assms(7,8) by (auto simp: insert_reservation_def Let_def master_ops_audit_trigger_def list_ex_iff)
  then obtain e k s where r: "run (ReleaseSlug app_runtime (firstLabel (dm_Host d)) (dm_TenantID d)) os (Suc (Suc (Suc n))) (slugs db) = (Inl e, k, s)"
    using assms(6) q by (cases "active_rows (slugs db) (sr_slug r) (o_now (os (Suc (Suc (Suc (Suc (Suc n)))))))")
      (auto simp: ReleaseSlug_def reservation_Insert_def scanReservation_def reservation_Active_def run_query_env first_row_def)
  have "run (management_Delete (server_UseCase rs' lower') (dm_TenantID d) (dm_ID d)) os n db =
      (Inl (Wrapped ''management: release slug'' (map_goerr slug_failure e)), k, db\<lparr>custom_domains := ?rows, slugs := s\<rparr>)"
    using q assms(4) row_unique [OF assms(1,2)] upd r
    by (simp add: management_Delete_def management_Get_def domain_GetByID_def md_first_row_def scanCustomDomainRow_def domain_SoftDelete_def
        server_UseCase_def management_New_def Let_def slugs_part.run_embed slugReleaseAdapter_def)
  moreover have "dm_DeletedAt x \<noteq> None" if x: "x \<in> set ?rows" "dm_ID x = dm_ID d" for x
  proof -
    obtain y where y: "y \<in> set (custom_domains db)" "x = (if y = d then ?f d else y)" using x(1) by auto
    then have "dm_ID y = dm_ID d" using x(2) by (auto split: if_splits)
    then have "y \<in> set (filter (\<lambda>x. dm_ID x = dm_ID d) (custom_domains db))" using y(1) by simp
    then have "y = d" unfolding row_unique [OF assms(1,2)] by simp
    then show ?thesis using y(2) by simp
  qed
  ultimately show ?thesis by fastforce
qed

lemma label_ex: "NormalizeSlug (firstLabel ''a.io'') = Inr ''a''"
  by code_simp

theorem deleting_a_domain_locks_its_label_witness:
  "\<exists>db' n'. run (management_Delete (server_UseCase (zone_ex ''0a'') (\<lambda>s. s)) 7 5) (slug_env 100) 0 (domain_db_ex [domain_ex ''0a'' None]) = (Inr (), n', db') \<and>
     filter (\<lambda>x. dm_Host x = ''a.io'' \<and> dm_DeletedAt x = None) (custom_domains db') = [] \<and> active_rows (slugs db') ''a'' 200 \<noteq> []"
proof -
  have d: "dm_TenantID (domain_ex ''0a'' None) = 7" "dm_ID (domain_ex ''0a'' None) = 5" "dm_Host (domain_ex ''0a'' None) = ''a.io''"
    "dm_DeletedAt (domain_ex ''0a'' None) = None" by (simp_all add: domain_ex_def)
  have "\<exists>db' n'. run (management_Delete (server_UseCase (zone_ex ''0a'') (\<lambda>s. s)) (dm_TenantID (domain_ex ''0a'' None)) (dm_ID (domain_ex ''0a'' None)))
       (slug_env 100) 0 (domain_db_ex [domain_ex ''0a'' None]) = (Inr (), n', db') \<and>
     (\<forall>x \<in> set (custom_domains db'). dm_Host x = dm_Host (domain_ex ''0a'' None) \<longrightarrow> dm_DeletedAt x \<noteq> None) \<and>
     (\<forall>t. active_rows (slugs db') ''a'' t \<noteq> [] \<longleftrightarrow> t < o_now (slug_env 100 (0 + 3)) + 365 * 24 * 3600 * 1000000000)"
    by (rule deleting_a_domain_locks_its_label [OF domain_inv_ex])
      (simp_all add: domain_db_ex_def slug_db_ex_def quiet_slug_env domain_ex_def label_ex)
  then obtain db' n' where r: "run (management_Delete (server_UseCase (zone_ex ''0a'') (\<lambda>s. s)) 7 5) (slug_env 100) 0 (domain_db_ex [domain_ex ''0a'' None]) = (Inr (), n', db')"
    "\<forall>x \<in> set (custom_domains db'). dm_Host x = ''a.io'' \<longrightarrow> dm_DeletedAt x \<noteq> None"
    "\<forall>t. active_rows (slugs db') ''a'' t \<noteq> [] \<longleftrightarrow> t < o_now (slug_env 100 (0 + 3)) + 365 * 24 * 3600 * 1000000000"
    unfolding d by blast
  have "filter (\<lambda>x. dm_Host x = ''a.io'' \<and> dm_DeletedAt x = None) (custom_domains db') = []" using r(2) by (simp add: filter_empty_conv)
  moreover have "active_rows (slugs db') ''a'' 200 \<noteq> []" using r(3) by (simp add: slug_env_def)
  ultimately show ?thesis using r(1) by blast
qed

section \<open>The block list\<close>

lemma drop_bit_word_iff:
  fixes w b :: "'a :: len word"
  shows "drop_bit k w = b \<longleftrightarrow> unat w div 2 ^ k = unat b"
  unfolding word_unat_eq_iff unat_drop_bit_eq by (simp only: drop_bit_eq_div)

lemma block_list4:
  "isBlocked (Addr4 w) \<longleftrightarrow> list_ex (\<lambda>(base, k). unat w div 2 ^ k = base)
     [(10, 24), (0xAC1, 20), (0xC0A8, 16), (127, 24), (0xA9FE, 16), (0x191, 22), (0, 24), (14, 28)]"
  by (simp add: isBlocked_def Unmap_def Contains_def blockedPrefixes_def drop_bit_word_iff)

lemma block_list6:
  assumes "drop_bit 32 v \<noteq> 0xFFFF"
  shows "isBlocked (Addr6 v) \<longleftrightarrow> v = 1 \<or> unat v div 2 ^ 121 = 0x7E \<or> unat v div 2 ^ 118 = 0x3FA"
proof -
  have "unat v = Suc 0 \<longleftrightarrow> v = 1" using word_unat_eq_iff [of v 1] by simp
  then show ?thesis using assms by (simp add: isBlocked_def Unmap_def Contains_def blockedPrefixes_def drop_bit_word_iff)
qed

text \<open>The first and the second byte of an IPv4 address.\<close>

definition byte1 :: "32 word \<Rightarrow> nat" where
  "byte1 w = unat w div 2 ^ 24"

definition byte2 :: "32 word \<Rightarrow> nat" where
  "byte2 w = unat w div 2 ^ 16 mod 256"

lemma bytes_prefix:
  "unat w div 2 ^ 16 = 256 * byte1 w + byte2 w" "unat w div 2 ^ 20 = (256 * byte1 w + byte2 w) div 16"
  "unat w div 2 ^ 22 = (256 * byte1 w + byte2 w) div 64" "unat w div 2 ^ 28 = byte1 w div 16"
proof -
  have b: "byte1 w = unat w div 2 ^ 16 div 256" by (simp add: byte1_def div_mult2_eq [symmetric])
  show p: "unat w div 2 ^ 16 = 256 * byte1 w + byte2 w" unfolding b byte2_def by simp
  show "unat w div 2 ^ 20 = (256 * byte1 w + byte2 w) div 16" "unat w div 2 ^ 22 = (256 * byte1 w + byte2 w) div 64"
    unfolding p [symmetric] by (simp_all add: div_mult2_eq [symmetric])
  show "unat w div 2 ^ 28 = byte1 w div 16" by (simp add: byte1_def div_mult2_eq [symmetric])
qed

lemma byte2_less: "byte2 w < 256"
  by (simp add: byte2_def)

lemma div_range: "0 < k \<Longrightarrow> x div k = q \<longleftrightarrow> k * q \<le> x \<and> x < k * q + k" for x :: nat
  by (auto intro!: div_nat_eqI simp: algebra_simps dividend_less_times_div)

lemma two_bytes:
  assumes "b < (256 :: nat)"
  shows "(256 * a + b) div 16 = 0xAC1 \<longleftrightarrow> a = 172 \<and> 16 \<le> b \<and> b \<le> 31" "(256 * a + b) div 64 = 0x191 \<longleftrightarrow> a = 100 \<and> 64 \<le> b \<and> b \<le> 127"
    "256 * a + b = 0xC0A8 \<longleftrightarrow> a = 192 \<and> b = 168" "256 * a + b = 0xA9FE \<longleftrightarrow> a = 169 \<and> b = 254" "a div 16 = 14 \<longleftrightarrow> 224 \<le> a \<and> a \<le> 239"
proof -
  show "(256 * a + b) div 16 = 0xAC1 \<longleftrightarrow> a = 172 \<and> 16 \<le> b \<and> b \<le> 31" by (cases "a = 172") (use assms in \<open>auto simp: div_range\<close>)
  show "(256 * a + b) div 64 = 0x191 \<longleftrightarrow> a = 100 \<and> 64 \<le> b \<and> b \<le> 127" by (cases "a = 100") (use assms in \<open>auto simp: div_range\<close>)
  show "256 * a + b = 0xC0A8 \<longleftrightarrow> a = 192 \<and> b = 168" by (cases "a = 192") (use assms in auto)
  show "256 * a + b = 0xA9FE \<longleftrightarrow> a = 169 \<and> b = 254" by (cases "a = 169") (use assms in auto)
  show "a div 16 = 14 \<longleftrightarrow> 224 \<le> a \<and> a \<le> 239" by (auto simp: div_range)
qed

text \<open>
  C37. The block list, on addresses of both families: an IPv4 address is blocked exactly when it is in 0/8, 10/8, 127/8, 172.16/12,
  192.168/16, 169.254/16, 100.64/10 or 224/4, its form as an IPv4-mapped IPv6 address is blocked exactly when it is itself, and any
  other IPv6 address exactly when it is the loopback address or starts with fc00::/7 or fe80::/10.
\<close>

theorem block_list_ranges:
  "(isBlocked (Addr4 w) \<longleftrightarrow> byte1 w \<in> {0, 10, 127} \<or> byte1 w = 172 \<and> 16 \<le> byte2 w \<and> byte2 w \<le> 31 \<or> byte1 w = 192 \<and> byte2 w = 168 \<or>
     byte1 w = 169 \<and> byte2 w = 254 \<or> byte1 w = 100 \<and> 64 \<le> byte2 w \<and> byte2 w \<le> 127 \<or> 224 \<le> byte1 w \<and> byte1 w \<le> 239) \<and>
   isBlocked (Addr6 (push_bit 32 0xFFFF OR ucast w)) = isBlocked (Addr4 w) \<and>
   (drop_bit 32 v \<noteq> 0xFFFF \<longrightarrow> (isBlocked (Addr6 v) \<longleftrightarrow>
      v = 1 \<or> 0xFC \<le> unat v div 2 ^ 120 \<and> unat v div 2 ^ 120 \<le> 0xFD \<or> unat v div 2 ^ 112 \<ge> 0xFE80 \<and> unat v div 2 ^ 112 \<le> 0xFEBF))"
proof (intro conjI impI)
  show "isBlocked (Addr4 w) \<longleftrightarrow> byte1 w \<in> {0, 10, 127} \<or> byte1 w = 172 \<and> 16 \<le> byte2 w \<and> byte2 w \<le> 31 \<or> byte1 w = 192 \<and> byte2 w = 168 \<or>
     byte1 w = 169 \<and> byte2 w = 254 \<or> byte1 w = 100 \<and> 64 \<le> byte2 w \<and> byte2 w \<le> 127 \<or> 224 \<le> byte1 w \<and> byte1 w \<le> 239"
  proof -
    have "isBlocked (Addr4 w) \<longleftrightarrow> byte1 w = 10 \<or> (256 * byte1 w + byte2 w) div 16 = 0xAC1 \<or> 256 * byte1 w + byte2 w = 0xC0A8 \<or> byte1 w = 127 \<or>
        256 * byte1 w + byte2 w = 0xA9FE \<or> (256 * byte1 w + byte2 w) div 64 = 0x191 \<or> byte1 w = 0 \<or> byte1 w div 16 = 14"
      unfolding block_list4 by (simp only: list_ex_Nil_iff list_ex_Cons_iff prod.case bytes_prefix byte1_def [symmetric] simp_thms)
    then show ?thesis unfolding two_bytes [OF byte2_less] by blast
  qed
next
  have "drop_bit 32 (push_bit 32 (mask 16 :: 128 word) OR ucast w) = mask 16"
    by (rule bit_word_eqI) (auto simp: bit_simps dest: bit_imp_le_length)
  moreover have "ucast (push_bit 32 (mask 16 :: 128 word) OR ucast w) = w"
    by (rule bit_word_eqI) (auto simp: bit_simps)
  moreover have "(mask 16 :: 128 word) = 0xFFFF" by (simp add: mask_eq_exp_minus_1)
  ultimately show "isBlocked (Addr6 (push_bit 32 0xFFFF OR ucast w)) = isBlocked (Addr4 w)"
    by (simp add: isBlocked_def Unmap_def)
next
  assume v: "drop_bit 32 v \<noteq> 0xFFFF"
  have e: "unat v div 2 ^ 121 = unat v div 2 ^ 120 div 2" "unat v div 2 ^ 118 = unat v div 2 ^ 112 div 64" by (simp_all add: div_mult2_eq [symmetric])
  have r: "x div 2 = 0x7E \<longleftrightarrow> 0xFC \<le> x \<and> x \<le> 0xFD" "x div 64 = 0x3FA \<longleftrightarrow> 0xFE80 \<le> x \<and> x \<le> 0xFEBF" for x :: nat
    by (auto simp: div_range)
  show "isBlocked (Addr6 v) \<longleftrightarrow>
      v = 1 \<or> 0xFC \<le> unat v div 2 ^ 120 \<and> unat v div 2 ^ 120 \<le> 0xFD \<or> unat v div 2 ^ 112 \<ge> 0xFE80 \<and> unat v div 2 ^ 112 \<le> 0xFEBF"
    unfolding block_list6 [OF v] e r ..
qed

theorem block_list_ranges_witness:
  "(isBlocked (Addr4 0x0A000001) \<longleftrightarrow> byte1 0x0A000001 \<in> {0, 10, 127} \<or> byte1 0x0A000001 = 172 \<and> 16 \<le> byte2 0x0A000001 \<and> byte2 0x0A000001 \<le> 31 \<or>
     byte1 0x0A000001 = 192 \<and> byte2 0x0A000001 = 168 \<or> byte1 0x0A000001 = 169 \<and> byte2 0x0A000001 = 254 \<or>
     byte1 0x0A000001 = 100 \<and> 64 \<le> byte2 0x0A000001 \<and> byte2 0x0A000001 \<le> 127 \<or> 224 \<le> byte1 0x0A000001 \<and> byte1 0x0A000001 \<le> 239) \<and>
   isBlocked (Addr6 (push_bit 32 0xFFFF OR ucast (0x0A000001 :: 32 word))) = isBlocked (Addr4 0x0A000001) \<and>
   (isBlocked (Addr6 1) \<longleftrightarrow>
      (1 :: 128 word) = 1 \<or> 0xFC \<le> unat (1 :: 128 word) div 2 ^ 120 \<and> unat (1 :: 128 word) div 2 ^ 120 \<le> 0xFD \<or>
      unat (1 :: 128 word) div 2 ^ 112 \<ge> 0xFE80 \<and> unat (1 :: 128 word) div 2 ^ 112 \<le> 0xFEBF)"
proof -
  have "drop_bit 32 (1 :: 128 word) \<noteq> 0xFFFF" by code_simp
  then show ?thesis using block_list_ranges [of "0x0A000001" 1] by blast
qed

section \<open>The worker's patience\<close>

definition minute_ns :: duration where
  "minute_ns = 60 * 1000000000"

lemma delay_step:
  assumes "0 \<le> d" "d \<le> 2 ^ 40"
  shows "delay_loop (Suc n) default_verifier d = (if 2 * d \<ge> 30 * minute_ns then 30 * minute_ns else delay_loop n default_verifier (2 * d))"
proof -
  have e: "of_int d * (2 :: rat) = of_int (2 * d)" by simp
  have "in_i64 (2 * d)" using assms by (simp add: in_i64_def min_i64_def max_i64_def)
  then have "go_int64 (of_int d * 2) = 2 * d" unfolding e go_int64_def Let_def floor_of_int ceiling_of_int by simp
  then show ?thesis by (simp add: default_verifier_def minute_ns_def)
qed

lemma delay_loop_default: "delay_loop n default_verifier minute_ns = (if n < 5 then 2 ^ n * minute_ns else 30 * minute_ns)"
proof (cases "n < 5")
  case True
  then have "n = 0 \<or> n = Suc 0 \<or> n = Suc (Suc 0) \<or> n = Suc (Suc (Suc 0)) \<or> n = Suc (Suc (Suc (Suc 0)))" by auto
  then show ?thesis by (elim disjE) (simp_all add: delay_step minute_ns_def del: delay_loop.simps(2))
next
  case False
  then have "n = Suc (Suc (Suc (Suc (Suc (n - 5)))))" by simp
  then obtain m where "n = Suc (Suc (Suc (Suc (Suc m))))" by blast
  then show ?thesis by (simp add: delay_step minute_ns_def del: delay_loop.simps(2))
qed

lemma sum_of_delays: "sum_list (map (\<lambda>n. (if 5 \<le> n then 30 else 2 ^ n) * minute_ns) [0..<5 + k]) = (31 + 30 * int k) * minute_ns"
proof (induction k)
  case 0
  have "[0..<5 + 0] = [0, 1, 2, 3, 4 :: nat]" by code_simp
  then show ?case by simp
next
  case (Suc k)
  have "[0..<5 + Suc k] = [0..<5 + k] @ [5 + k]" unfolding add_Suc_right by (rule upt_Suc_append) simp
  then show ?case using Suc by (simp only: map_append sum_list_append) (simp add: distrib_right)
qed

text \<open>
  Between failed attempts the default worker waits 1, 2, 4, 8 and 16 minutes and then 30 minutes each time, always 30 when the
  host is held for its addresses; the waits before its 720th and last attempt add up to 21451 minutes, which is almost 15 days.
\<close>

theorem verifier_patience:
  "computeDelay default_verifier (Suc n) hold = (if hold \<or> 5 \<le> n then 30 else 2 ^ n) * minute_ns \<and>
   sum_list (map (\<lambda>a. computeDelay default_verifier a False) [1..<wk_maxAttempts default_verifier]) = 21451 * minute_ns"
proof
  have i: "wk_initialBackoff default_verifier = minute_ns" "wk_maxBackoff default_verifier = 30 * minute_ns"
    by (simp_all add: default_verifier_def minute_ns_def)
  have c: "computeDelay default_verifier (Suc n) hold = (if hold \<or> 5 \<le> n then 30 else 2 ^ n) * minute_ns" for n hold
    unfolding computeDelay_def i diff_Suc_1 delay_loop_default by simp
  show "computeDelay default_verifier (Suc n) hold = (if hold \<or> 5 \<le> n then 30 else 2 ^ n) * minute_ns" by (rule c)
  have m: "wk_maxAttempts default_verifier = Suc (5 + 714)" by (simp add: default_verifier_def)
  have l: "[1..<Suc (5 + k)] = map Suc [0..<5 + k]" for k by (simp only: map_Suc_upt One_nat_def)
  show "sum_list (map (\<lambda>a. computeDelay default_verifier a False) [1..<wk_maxAttempts default_verifier]) = 21451 * minute_ns"
    unfolding m l map_map comp_def c simp_thms sum_of_delays by simp
qed

section \<open>The worker's attempts\<close>

definition attempt_due :: "progress \<Rightarrow> uuid \<Rightarrow> time \<Rightarrow> bool" where
  "attempt_due p did now \<longleftrightarrow> (case p did of None \<Rightarrow> True | Some (_, None) \<Rightarrow> True | Some (_, Some t) \<Rightarrow> t \<le> now)"

lemma evaluate_due:
  assumes "attempt_due p (dm_ID d) now" "run (runVerify u d) os n db = (out, n1, db1)"
  obtains t where "run (evaluate w u d now p) os n db =
    run (let q = p(dm_ID d \<mapsto> (attemptsFor (dm_ID d) p, t)) in case out of
        OutcomeVerified \<Rightarrow> Ret (q(dm_ID d := None))
      | OutcomeAlreadyVerified \<Rightarrow> Ret (q(dm_ID d := None))
      | OutcomeBlockedSSRF \<Rightarrow> Ret (scheduleBackoff w (dm_ID d) now True q)
      | _ \<Rightarrow>
          let p' = bumpAttempt (dm_ID d) q in
          if attemptsFor (dm_ID d) p' \<ge> wk_maxAttempts w then giveUp d now p'
          else Ret (scheduleBackoff w (dm_ID d) now False p')) os n1 db1"
proof (cases "p (dm_ID d)")
  case None
  then show ?thesis using assms(2) by (intro that [of None], cases out) (simp_all add: evaluate_def Let_def attemptsFor_def)
next
  case (Some e)
  obtain k t where e: "e = (k, t)" by (cases e)
  have "\<not> (case t of None \<Rightarrow> False | Some t \<Rightarrow> now < t)" using assms(1) Some e by (auto simp: attempt_due_def split: option.splits)
  then show ?thesis using assms(2) Some e by (intro that [of t], cases out) (simp_all add: evaluate_def Let_def attemptsFor_def)
qed

text \<open>What is left of a row the worker has given up.\<close>

definition failed_row :: "Domain \<Rightarrow> time \<Rightarrow> Domain" where
  "failed_row d now = d\<lparr>dm_FailedAt := Some now, dm_FailureReason := ''cap_exceeded'', dm_UpdatedAt := now\<rparr>"

text \<open>
  C36. The worker gives up in the end. A due check of a domain forgets it when it is verified; a host held for its addresses is put
  off by the longest delay without counting; every other failure uses up one attempt and sets the next try; and when the failure reaches
  the limit, its write does not fail and the domain was not deleted meanwhile, the row gets the time and the reason of the failure, no other
  row is touched, the domain is no longer listed, and it is forgotten. The attempts of other domains stay as they are.
\<close>

theorem attempts_run_out:
  assumes "attempt_due p (dm_ID d) now" and "run (runVerify u d) os n db = (out, n1, db1)"
    and "run (evaluate w u d now p) os n db = (p', n', db')"
  shows "(out \<in> {OutcomeVerified, OutcomeAlreadyVerified} \<longrightarrow> p' (dm_ID d) = None \<and> db' = db1) \<and>
    (out = OutcomeBlockedSSRF \<longrightarrow> p' (dm_ID d) = Some (attemptsFor (dm_ID d) p, Some (now + wk_maxBackoff w)) \<and> db' = db1) \<and>
    (out \<in> {OutcomeMismatch, OutcomeResolverError, OutcomeInternal} \<longrightarrow>
       (if Suc (attemptsFor (dm_ID d) p) < wk_maxAttempts w
          then p' (dm_ID d) = Some (Suc (attemptsFor (dm_ID d) p), Some (now + computeDelay w (Suc (attemptsFor (dm_ID d) p)) False)) \<and> db' = db1
        else o_fault (os n1) = NoFault \<and> list_ex (live_row (dm_ID d)) (custom_domains db1) \<longrightarrow>
          p' (dm_ID d) = None \<and>
          custom_domains db' = map (\<lambda>x. if live_row (dm_ID d) x then failed_row x now else x) (custom_domains db1) \<and>
          \<not> list_ex (\<lambda>x. dm_ID x = dm_ID d \<and> pending_domain x) (custom_domains db'))) \<and>
    (\<forall>k. k \<noteq> dm_ID d \<longrightarrow> p' k = p k)"
proof -
  let ?a = "attemptsFor (dm_ID d) p"
  obtain t where r: "run (let q = p(dm_ID d \<mapsto> (?a, t)) in case out of
        OutcomeVerified \<Rightarrow> Ret (q(dm_ID d := None))
      | OutcomeAlreadyVerified \<Rightarrow> Ret (q(dm_ID d := None))
      | OutcomeBlockedSSRF \<Rightarrow> Ret (scheduleBackoff w (dm_ID d) now True q)
      | _ \<Rightarrow>
          let p' = bumpAttempt (dm_ID d) q in
          if attemptsFor (dm_ID d) p' \<ge> wk_maxAttempts w then giveUp d now p'
          else Ret (scheduleBackoff w (dm_ID d) now False p')) os n1 db1 = (p', n', db')"
    using evaluate_due [OF assms(1,2)] assms(3) by metis
  show ?thesis
  proof (cases "out \<in> {OutcomeMismatch, OutcomeResolverError, OutcomeInternal}")
    case False
    then show ?thesis using r by (cases out) (auto simp: scheduleBackoff_def computeDelay_def Let_def)
  next
    case True
    let ?q = "p(dm_ID d \<mapsto> (Suc ?a, t))"
    have r': "run (if Suc ?a \<ge> wk_maxAttempts w then giveUp d now ?q else Ret (scheduleBackoff w (dm_ID d) now False ?q)) os n1 db1 = (p', n', db')"
      using r True by (cases out) (auto simp: bumpAttempt_def attemptsFor_def Let_def)
    show ?thesis
    proof (cases "Suc ?a < wk_maxAttempts w")
      case True
      then show ?thesis using r' \<open>out \<in> _\<close> by (auto simp: scheduleBackoff_def)
    next
      case False
      then have g: "run (giveUp d now ?q) os n1 db1 = (p', n', db')" using r' by simp
      have other: "\<forall>k. k \<noteq> dm_ID d \<longrightarrow> p' k = p k"
        using g by (cases "o_fault (os n1)") (auto simp: giveUp_def domain_MarkFailed_def scanCustomDomainRow_def update_domain_def split: list.splits if_splits sum.splits)
      have "p' (dm_ID d) = None \<and>
          custom_domains db' = map (\<lambda>x. if live_row (dm_ID d) x then failed_row x now else x) (custom_domains db1) \<and>
          \<not> list_ex (\<lambda>x. dm_ID x = dm_ID d \<and> pending_domain x) (custom_domains db')"
        if q: "o_fault (os n1) = NoFault" "list_ex (live_row (dm_ID d)) (custom_domains db1)"
      proof -
        obtain x xs where x: "filter (live_row (dm_ID d)) (custom_domains db1) = x # xs"
          using q(2) by (cases "filter (live_row (dm_ID d)) (custom_domains db1)") (auto simp: list_ex_iff filter_empty_conv)
        then show ?thesis using g q(1)
          by (auto simp: giveUp_def domain_MarkFailed_def scanCustomDomainRow_def update_domain_def list_ex_iff pending_domain_def live_row_def failed_row_def
            split: if_splits)
      qed
      then show ?thesis using False other \<open>out \<in> _\<close> by auto
    qed
  qed
qed

lemma mismatch_ex:
  "run (runVerify (verifier_UseCase (zone_ex ''crm-verify=0a'') (\<lambda>s. s)) (domain_ex ''0a'' None)) (slug_env 100) 0 (domain_db_ex [domain_ex ''0a'' None]) =
     (OutcomeMismatch, 5, domain_db_ex [domain_ex ''0a'' None])"
  by (simp add: runVerify_def Verify_def management_Get_def domain_GetByID_def md_first_row_def scanCustomDomainRow_def verifier_UseCase_def
      management_New_def defaultTokenTTL_def hour_ns_def dnsCheckerAdapter_def vd_Validate_def Let_def lookup_ip_def lookup_txt_def emit_def
      run_query_env domain_db_ex_def domain_ex_def slug_env_def zone_simps public_ex containsToken_def domain_strings_ex time_sub_def
      min_i64_def max_i64_def classifyValidationError_def verify_outcome_def)

theorem attempts_run_out_witness:
  "\<exists>p' n' db'. run (evaluate default_verifier (verifier_UseCase (zone_ex ''crm-verify=0a'') (\<lambda>s. s)) (domain_ex ''0a'' None) 100
       [5 \<mapsto> (719, Some 90)]) (slug_env 100) 0 (domain_db_ex [domain_ex ''0a'' None]) = (p', n', db') \<and>
     p' 5 = None \<and> custom_domains db' = [failed_row (domain_ex ''0a'' None) 100]"
proof -
  obtain p' n' db' where r: "run (evaluate default_verifier (verifier_UseCase (zone_ex ''crm-verify=0a'') (\<lambda>s. s)) (domain_ex ''0a'' None) 100
       [5 \<mapsto> (719, Some 90)]) (slug_env 100) 0 (domain_db_ex [domain_ex ''0a'' None]) = (p', n', db')"
    using prod_cases3 by blast
  have i: "dm_ID (domain_ex ''0a'' None) = 5" by (simp add: domain_ex_def)
  have due: "attempt_due [5 \<mapsto> (719, Some 90)] (dm_ID (domain_ex ''0a'' None)) 100" by (simp add: attempt_due_def i)
  have "attemptsFor 5 [5 \<mapsto> (719, Some 90)] = 719" "wk_maxAttempts default_verifier = 720" "o_fault (slug_env 100 5) = NoFault"
    "list_ex (live_row 5) (custom_domains (domain_db_ex [domain_ex ''0a'' None]))"
    by (simp_all add: attemptsFor_def default_verifier_def slug_env_def domain_db_ex_def live_row_def domain_ex_def)
  then have "p' 5 = None \<and> custom_domains db' = map (\<lambda>x. if live_row 5 x then failed_row x 100 else x) (custom_domains (domain_db_ex [domain_ex ''0a'' None]))"
    using attempts_run_out [OF due mismatch_ex r] unfolding i by simp
  then have "p' 5 = None \<and> custom_domains db' = [failed_row (domain_ex ''0a'' None) 100]"
    by (simp add: domain_db_ex_def live_row_def domain_ex_def)
  then show ?thesis using r by blast
qed

end
