(* ===== verification/Webhook.thy ===== *)
theory Webhook
  imports ClickMarker StoreSafety "HOL-Library.Product_Lexorder"
begin

text \<open>
  The webhook intake: \<^verbatim>\<open>src/internal/webhook\<close> (domain and service), the Meta adapter
  \<^verbatim>\<open>src/internal/adapter/channel/meta\<close>, the stores of \<^verbatim>\<open>src/internal/adapter/store/postgres\<close>, the HTTP handler, the
  reconciler \<^verbatim>\<open>src/internal/worker/webhook_reconciler.go\<close> and their wiring. SHA-256, its keyed form and the JSON decoder are
  arguments. Log records and metrics are left out.
\<close>

section \<open>Domain\<close>

datatype SecretScope = SecretScopeUnknown | SecretScopeApp | SecretScopeTenant

datatype webhook_Outcome =
    OutcomeAccepted | OutcomeReplay | OutcomeUnknownToken | OutcomeRevokedToken | OutcomeSignatureInvalid | OutcomeReplayWindowViolation
  | OutcomeTimestampMissing | OutcomeTimestampFormatError | OutcomeParseError | OutcomeUnknownChannel | OutcomeInternalError
  | OutcomeTenantBodyMismatch

datatype webhook_error =
    wh_ErrTokenUnknown | wh_ErrTokenRevoked | wh_ErrSignatureInvalid | wh_ErrTimestampMissing | wh_ErrTimestampFormat
  | wh_ErrTimestampOutOfRange | wh_ErrParse | wh_ErrUnsupportedScope | wh_pgx_ErrNoRows

type_synonym 'a whresult = "(webhook_error, 'a) result"
type_synonym wh_err = "webhook_error goerr option"

text \<open>\<^verbatim>\<open>TenantID\<close> is an array of 16 bytes; a text stands for its bytes.\<close>

type_synonym TenantID = string

definition zero_TenantID :: TenantID where
  "zero_TenantID = replicate 16 (char_of (0 :: nat))"

text \<open>\<^verbatim>\<open>String\<close> and \<^verbatim>\<open>ParseTenantID\<close>; \<open>None\<close> is a parse error.\<close>

definition TenantID_String :: "TenantID \<Rightarrow> string" where
  "TenantID_String t =
     EncodeToString (take 4 t) @ ''-'' @ EncodeToString (take 2 (drop 4 t)) @ ''-'' @ EncodeToString (take 2 (drop 6 t)) @ ''-'' @
     EncodeToString (take 2 (drop 8 t)) @ ''-'' @ EncodeToString (take 6 (drop 10 t))"

definition ParseTenantID :: "string \<Rightarrow> TenantID option" where
  "ParseTenantID s =
     (let hex = filter (\<lambda>c. c \<noteq> CHR ''-'') s in
      if length hex \<noteq> 32 then None else DecodeString hex)"

definition channel_char :: "char \<Rightarrow> bool" where
  "channel_char c \<longleftrightarrow> (let n = of_char c :: nat in 97 \<le> n \<and> n \<le> 122 \<or> 48 \<le> n \<and> n \<le> 57 \<or> n = 95)"

definition ValidateChannelName :: "string \<Rightarrow> bool" where
  "ValidateChannelName name \<longleftrightarrow> name \<noteq> '''' \<and> list_all channel_char name"

definition ValidateSecretScope :: "SecretScope \<Rightarrow> bool" where
  "ValidateSecretScope scope \<longleftrightarrow> scope \<noteq> SecretScopeUnknown"

record webhook_Event =
  we_Timestamp :: time
  we_Channel :: string
  we_ExternalID :: string

text \<open>
  A Go map of headers is the list of its entries in the order an iteration meets them; what holds for every list holds for
  every order.
\<close>

type_synonym headers = "(string \<times> string list) list"

record ChannelAdapter =
  ad_Name :: string
  ad_SecretScope :: SecretScope
  ad_VerifyApp :: "string \<Rightarrow> headers \<Rightarrow> wh_err"
  ad_VerifyTenant :: "TenantID \<Rightarrow> string \<Rightarrow> headers \<Rightarrow> wh_err"
  ad_ExtractTimestamp :: "headers \<Rightarrow> string \<Rightarrow> time whresult"
  ad_ParseEvent :: "string \<Rightarrow> webhook_Event whresult"
  ad_BodyTenantAssociation :: "string \<Rightarrow> string option"

section \<open>The Meta adapter\<close>

record metaEntry =
  me_ID :: string
  me_Time :: int
  me_Changes :: "string list"

text \<open>The decoded envelope: its entries, of a change only the phone number id. \<open>unmarshal\<close> answers \<open>None\<close> for text that does not decode.\<close>

type_synonym metaPayload = "metaEntry list"

text \<open>Header names are tokens of ASCII characters, so the ASCII comparison decides as \<^verbatim>\<open>strings.EqualFold\<close>.\<close>

fun signatureHeader :: "headers \<Rightarrow> string option" where
  "signatureHeader [] = None"
| "signatureHeader ((k, v) # hs) =
     (if EqualFold_ascii k ''X-Hub-Signature-256'' \<and> v \<noteq> [] then
        (let val = TrimSpace (hd v) in
         if HasPrefix val ''sha256='' then Some (drop 7 val) else Some val)
      else signatureHeader hs)"

definition meta_VerifyApp :: "(string \<Rightarrow> string \<Rightarrow> string) \<Rightarrow> string \<Rightarrow> string \<Rightarrow> headers \<Rightarrow> wh_err" where
  "meta_VerifyApp hmac appSecret body hs =
     (case signatureHeader hs of
        None \<Rightarrow> Some (Sentinel wh_ErrSignatureInvalid)
      | Some got \<Rightarrow>
          (case DecodeString got of
             None \<Rightarrow> Some (Sentinel wh_ErrSignatureInvalid)
           | Some gotBytes \<Rightarrow> if gotBytes \<noteq> hmac appSecret body then Some (Sentinel wh_ErrSignatureInvalid) else None))"

definition meta_ExtractTimestamp :: "(string \<Rightarrow> metaPayload option) \<Rightarrow> headers \<Rightarrow> string \<Rightarrow> time whresult" where
  "meta_ExtractTimestamp unmarshal hs body =
     (case unmarshal body of
        None \<Rightarrow> Inl (Wrapped ''unmarshal'' (Sentinel wh_ErrTimestampMissing))
      | Some entries \<Rightarrow>
          if entries = [] \<or> me_Time (hd entries) = 0 then Inl (Sentinel wh_ErrTimestampMissing)
          else if me_Time (hd entries) < 0 then Inl (Sentinel wh_ErrTimestampFormat)
          else if me_Time (hd entries) > 1000000000000 then Inl (Sentinel wh_ErrTimestampFormat)
          else Inr (me_Time (hd entries) * 1000000000))"

definition meta_ParseEvent :: "(string \<Rightarrow> metaPayload option) \<Rightarrow> string \<Rightarrow> string \<Rightarrow> webhook_Event whresult" where
  "meta_ParseEvent unmarshal channel body =
     (case unmarshal body of
        None \<Rightarrow> Inl (Wrapped ''unmarshal'' (Sentinel wh_ErrParse))
      | Some [] \<Rightarrow> Inl (Sentinel wh_ErrParse)
      | Some (e # _) \<Rightarrow> Inr \<lparr>we_Timestamp = me_Time e * 1000000000, we_Channel = channel, we_ExternalID = me_ID e\<rparr>)"

definition meta_BodyTenantAssociation :: "(string \<Rightarrow> metaPayload option) \<Rightarrow> string \<Rightarrow> string option" where
  "meta_BodyTenantAssociation unmarshal body =
     (case unmarshal body of
        None \<Rightarrow> Some ''''
      | Some [] \<Rightarrow> Some ''''
      | Some (e # _) \<Rightarrow> (case me_Changes e of [] \<Rightarrow> Some '''' | c # _ \<Rightarrow> Some c))"

definition meta_New ::
  "(string \<Rightarrow> string \<Rightarrow> string) \<Rightarrow> (string \<Rightarrow> metaPayload option) \<Rightarrow> string \<Rightarrow> string \<Rightarrow> ChannelAdapter whresult" where
  "meta_New hmac unmarshal channel appSecret =
     (if \<not> ValidateChannelName channel then Inl (Opaque ''channel name'')
      else if channel \<notin> {''whatsapp'', ''instagram'', ''facebook''} then Inl (Opaque ''meta: unsupported channel'')
      else if appSecret = '''' then Inl (Opaque ''meta: app secret is empty'')
      else Inr \<lparr>ad_Name = channel, ad_SecretScope = SecretScopeApp, ad_VerifyApp = meta_VerifyApp hmac appSecret,
                ad_VerifyTenant = (\<lambda>_ _ _. Some (Sentinel wh_ErrUnsupportedScope)),
                ad_ExtractTimestamp = meta_ExtractTimestamp unmarshal, ad_ParseEvent = meta_ParseEvent unmarshal channel,
                ad_BodyTenantAssociation = meta_BodyTenantAssociation unmarshal\<rparr>)"

section \<open>The tables\<close>

record token_row =
  wt_tenant_id :: TenantID
  wt_channel :: string
  wt_token_hash :: string
  wt_created_at :: time
  wt_revoked_at :: "time option"
  wt_last_used_at :: "time option"

record idempotency_row =
  wi_tenant_id :: TenantID
  wi_channel :: string
  wi_key :: string
  wi_inserted_at :: time

record RawEventRow =
  re_ID :: uuid
  re_TenantID :: TenantID
  re_Channel :: string
  re_IdempotencyKey :: string
  re_Payload :: string
  re_Headers :: headers
  re_ReceivedAt :: time
  re_PublishedAt :: "time option"

text \<open>
  \<open>raw_partitions\<close> are the ranges of \<^verbatim>\<open>received_at\<close> for which \<^verbatim>\<open>raw_event\<close> has a partition; \<open>wh_broker\<close> is what the broker has
  been handed. Of the associations the intake only reads what the channel settings write; no Go code writes a token but for its last use.
\<close>

record webhook_db =
  webhook_tokens :: "token_row list"
  webhook_idempotency :: "idempotency_row list"
  raw_events :: "RawEventRow list"
  raw_partitions :: "(time \<times> time) list"
  channel_associations :: "(TenantID \<times> string \<times> string) list"
  wh_broker :: "(uuid \<times> TenantID \<times> string \<times> string) list"

type_synonym 'a whprog = "(webhook_db, call_env, 'a) prog"

text \<open>The row the lookup prefers: one without a revocation, then the newest.\<close>

definition token_order :: "token_row \<Rightarrow> int \<times> int" where
  "token_order r = ((if wt_revoked_at r = None then 0 else 1), - wt_created_at r)"

definition token_rows :: "string \<Rightarrow> string \<Rightarrow> webhook_db \<Rightarrow> token_row list" where
  "token_rows channel tokenHash db = sort_key token_order (filter (\<lambda>r. wt_channel r = channel \<and> wt_token_hash r = tokenHash) (webhook_tokens db))"

definition token_Lookup :: "string \<Rightarrow> string \<Rightarrow> time \<Rightarrow> (TenantID whresult \<Rightarrow> 'a whprog) \<Rightarrow> 'a whprog" where
  "token_Lookup channel tokenHash now k =
     query (\<lambda>db. case token_rows channel tokenHash db of [] \<Rightarrow> Inl (Sentinel wh_pgx_ErrNoRows) | r # _ \<Rightarrow> Inr r)
       (\<lambda>r. case r of
          Inl e \<Rightarrow> if errors_is e wh_pgx_ErrNoRows then k (Inl (Sentinel wh_ErrTokenUnknown)) else k (Inl (Wrapped ''token lookup'' e))
        | Inr row \<Rightarrow>
            (case wt_revoked_at row of
               Some t \<Rightarrow> if t \<le> now then k (Inl (Sentinel wh_ErrTokenRevoked)) else k (Inr (wt_tenant_id row))
             | None \<Rightarrow> k (Inr (wt_tenant_id row))))"

definition token_MarkUsed :: "string \<Rightarrow> string \<Rightarrow> time \<Rightarrow> (unit whresult \<Rightarrow> 'a whprog) \<Rightarrow> 'a whprog" where
  "token_MarkUsed channel tokenHash now k =
     command (\<lambda>_ db. Inr ((), db\<lparr>webhook_tokens :=
         map (\<lambda>r. if wt_channel r = channel \<and> wt_token_hash r = tokenHash then r\<lparr>wt_last_used_at := Some now\<rparr> else r) (webhook_tokens db)\<rparr>))
       (\<lambda>r. case r of Inl e \<Rightarrow> k (Inl (Wrapped ''mark used'' e)) | Inr _ \<Rightarrow> k (Inr ()))"

definition insert_idempotency :: "TenantID \<Rightarrow> string \<Rightarrow> string \<Rightarrow> time \<Rightarrow> webhook_db \<Rightarrow> bool \<times> webhook_db" where
  "insert_idempotency tenantID channel key now db =
     (if list_ex (\<lambda>r. wi_tenant_id r = tenantID \<and> wi_channel r = channel \<and> wi_key r = key) (webhook_idempotency db) then (False, db)
      else (True, db\<lparr>webhook_idempotency := webhook_idempotency db @
              [\<lparr>wi_tenant_id = tenantID, wi_channel = channel, wi_key = key, wi_inserted_at = now\<rparr>]\<rparr>))"

definition CheckAndStore :: "TenantID \<Rightarrow> string \<Rightarrow> string \<Rightarrow> time \<Rightarrow> (bool whresult \<Rightarrow> 'a whprog) \<Rightarrow> 'a whprog" where
  "CheckAndStore tenantID channel key now k =
     command (\<lambda>_ db. Inr (insert_idempotency tenantID channel key now db))
       (\<lambda>r. case r of Inl e \<Rightarrow> k (Inl (Wrapped ''idempotency insert'' e)) | Inr b \<Rightarrow> k (Inr b))"

definition CheckAssociation :: "TenantID \<Rightarrow> string \<Rightarrow> string \<Rightarrow> (bool whresult \<Rightarrow> 'a whprog) \<Rightarrow> 'a whprog" where
  "CheckAssociation tenantID channel association k =
     query (\<lambda>db. Inr ((tenantID, channel, association) \<in> set (channel_associations db)))
       (\<lambda>r. case r of
          Inl e \<Rightarrow> if errors_is e wh_pgx_ErrNoRows then k (Inr False) else k (Inl (Wrapped ''association check'' e))
        | Inr b \<Rightarrow> k (Inr b))"

text \<open>A row goes to the partition of its day; without one, and for a key that exists, the statement fails.\<close>

definition in_partition :: "webhook_db \<Rightarrow> time \<Rightarrow> bool" where
  "in_partition db t \<longleftrightarrow> list_ex (\<lambda>(a, b). a \<le> t \<and> t < b) (raw_partitions db)"

definition insert_raw :: "RawEventRow \<Rightarrow> call_env \<Rightarrow> webhook_db \<Rightarrow> (uuid \<times> webhook_db) whresult" where
  "insert_raw row ev db =
     (if \<not> in_partition db (re_ReceivedAt row) then Inl (Opaque ''no partition of relation \"raw_event\" found for row (SQLSTATE 23514)'')
      else if list_ex (\<lambda>r. re_ReceivedAt r = re_ReceivedAt row \<and> re_ID r = o_ids ev 0) (raw_events db)
        then Inl (Opaque ''duplicate key value violates unique constraint (SQLSTATE 23505)'')
      else Inr (o_ids ev 0, db\<lparr>raw_events := raw_events db @ [row\<lparr>re_ID := o_ids ev 0, re_PublishedAt := None\<rparr>]\<rparr>))"

definition raw_Insert :: "RawEventRow \<Rightarrow> (uuid whresult \<Rightarrow> 'a whprog) \<Rightarrow> 'a whprog" where
  "raw_Insert row k =
     command (insert_raw row) (\<lambda>r. case r of Inl e \<Rightarrow> k (Inl (Wrapped ''raw_event insert'' e)) | Inr i \<Rightarrow> k (Inr i))"

definition raw_MarkPublished :: "uuid \<Rightarrow> time \<Rightarrow> (unit whresult \<Rightarrow> 'a whprog) \<Rightarrow> 'a whprog" where
  "raw_MarkPublished eventID now k =
     command (\<lambda>_ db. Inr ((), db\<lparr>raw_events := map (\<lambda>r. if re_ID r = eventID then r\<lparr>re_PublishedAt := Some now\<rparr> else r) (raw_events db)\<rparr>))
       (\<lambda>r. case r of Inl e \<Rightarrow> k (Inl (Wrapped ''raw_event mark published'' e)) | Inr _ \<Rightarrow> k (Inr ()))"

section \<open>The service\<close>

text \<open>The publisher that is wired, which does nothing, and one that hands the event, here without its headers, to a broker.\<close>

datatype publisher = noopPublisher | BrokerPublisher

definition wh_Publish :: "publisher \<Rightarrow> uuid \<Rightarrow> TenantID \<Rightarrow> string \<Rightarrow> string \<Rightarrow> (unit whresult \<Rightarrow> 'a whprog) \<Rightarrow> 'a whprog" where
  "wh_Publish p eventID tenantID channel payload k =
     (case p of
        noopPublisher \<Rightarrow> k (Inr ())
      | BrokerPublisher \<Rightarrow> command (\<lambda>_ db. Inr ((), db\<lparr>wh_broker := wh_broker db @ [(eventID, tenantID, channel, payload)]\<rparr>)) k)"

record webhook_Service =
  ws_adapters :: "string \<Rightarrow> ChannelAdapter option"
  ws_publisher :: publisher
  ws_pastWindow :: duration
  ws_futureSkew :: duration

definition registerAdapter :: "(string \<Rightarrow> ChannelAdapter option) \<Rightarrow> ChannelAdapter \<Rightarrow> (string \<Rightarrow> ChannelAdapter option) whresult" where
  "registerAdapter m a =
     (if \<not> ValidateChannelName (ad_Name a) then Inl (Opaque ''webhook: adapter name'')
      else if \<not> ValidateSecretScope (ad_SecretScope a) then Inl (Opaque ''webhook: adapter scope'')
      else if m (ad_Name a) \<noteq> None then Inl (Opaque ''webhook: adapter registered twice'')
      else Inr (m(ad_Name a \<mapsto> a)))"

fun registerAdapters :: "(string \<Rightarrow> ChannelAdapter option) \<Rightarrow> ChannelAdapter list \<Rightarrow> (string \<Rightarrow> ChannelAdapter option) whresult" where
  "registerAdapters m [] = Inr m"
| "registerAdapters m (a # as) = (case registerAdapter m a of Inl e \<Rightarrow> Inl e | Inr m' \<Rightarrow> registerAdapters m' as)"

definition webhook_NewService :: "ChannelAdapter list \<Rightarrow> publisher \<Rightarrow> duration \<Rightarrow> duration \<Rightarrow> webhook_Service whresult" where
  "webhook_NewService adapters p pastWindow futureSkew =
     (case registerAdapters (\<lambda>_. None) adapters of
        Inl e \<Rightarrow> Inl e
      | Inr m \<Rightarrow> Inr \<lparr>ws_adapters = m, ws_publisher = p,
                      ws_pastWindow = (if pastWindow = 0 then 5 * 60 * 1000000000 else pastWindow),
                      ws_futureSkew = (if futureSkew = 0 then 60 * 1000000000 else futureSkew)\<rparr>)"

record webhook_Request =
  wq_Channel :: string
  wq_Token :: string
  wq_Body :: string
  wq_Headers :: headers

record webhook_Result =
  wr_Outcome :: webhook_Outcome
  wr_TenantID :: TenantID
  wr_Err :: wh_err

definition finishPreAuth :: "webhook_Outcome \<Rightarrow> wh_err \<Rightarrow> webhook_Result" where
  "finishPreAuth outcome err = \<lparr>wr_Outcome = outcome, wr_TenantID = zero_TenantID, wr_Err = err\<rparr>"

definition finishAuth :: "TenantID \<Rightarrow> webhook_Outcome \<Rightarrow> wh_err \<Rightarrow> webhook_Result" where
  "finishAuth tenantID outcome err = \<lparr>wr_Outcome = outcome, wr_TenantID = tenantID, wr_Err = err\<rparr>"

definition timestampInWindow :: "webhook_Service \<Rightarrow> time \<Rightarrow> time \<Rightarrow> bool" where
  "timestampInWindow s ts now \<longleftrightarrow> \<not> ts < now - ws_pastWindow s \<and> \<not> ts > now + ws_futureSkew s"

definition classifyTokenError :: "webhook_error goerr \<Rightarrow> webhook_Outcome" where
  "classifyTokenError e =
     (if errors_is e wh_ErrTokenUnknown then OutcomeUnknownToken
      else if errors_is e wh_ErrTokenRevoked then OutcomeRevokedToken
      else OutcomeInternalError)"

text \<open>What is hashed, and the key; \<open>sha256\<close> is the digest.\<close>

definition idempotency_preimage :: "TenantID \<Rightarrow> string \<Rightarrow> string \<Rightarrow> string" where
  "idempotency_preimage tenantID channel payload = tenantID @ '':'' @ channel @ '':'' @ payload"

definition computeIdempotencyKey :: "(string \<Rightarrow> string) \<Rightarrow> TenantID \<Rightarrow> string \<Rightarrow> string \<Rightarrow> string" where
  "computeIdempotencyKey sha256 tenantID channel payload = sha256 (idempotency_preimage tenantID channel payload)"

text \<open>
  The publish runs in a goroutine of its own; nothing of the request comes after its start, so its steps follow here, and a
  request whose process dies before them is one that takes no further step.
\<close>

definition publish_async :: "publisher \<Rightarrow> uuid \<Rightarrow> TenantID \<Rightarrow> string \<Rightarrow> string \<Rightarrow> 'a whprog \<Rightarrow> 'a whprog" where
  "publish_async p eventID tenantID channel body k =
     wh_Publish p eventID tenantID channel body (\<lambda>r. case r of
       Inl _ \<Rightarrow> k
     | Inr _ \<Rightarrow> read_clock (\<lambda>now. raw_MarkPublished eventID now (\<lambda>_. k)))"

definition webhook_store :: "(string \<Rightarrow> string) \<Rightarrow> webhook_Service \<Rightarrow> ChannelAdapter \<Rightarrow> webhook_Request \<Rightarrow> TenantID \<Rightarrow> time \<Rightarrow> webhook_Result whprog" where
  "webhook_store sha256 s a req tenantID now =
     (let key = computeIdempotencyKey sha256 tenantID (wq_Channel req) (wq_Body req) in
      CheckAndStore tenantID (wq_Channel req) key now (\<lambda>c. case c of
        Inl e \<Rightarrow> Ret (finishAuth tenantID OutcomeInternalError (Some e))
      | Inr firstSeen \<Rightarrow>
          if \<not> firstSeen then Ret (finishAuth tenantID OutcomeReplay None)
          else case ad_ParseEvent a (wq_Body req) of
            Inl e \<Rightarrow> Ret (finishAuth tenantID OutcomeParseError (Some e))
          | Inr _ \<Rightarrow>
              raw_Insert \<lparr>re_ID = 0, re_TenantID = tenantID, re_Channel = wq_Channel req, re_IdempotencyKey = key, re_Payload = wq_Body req,
                  re_Headers = wq_Headers req, re_ReceivedAt = now, re_PublishedAt = None\<rparr> (\<lambda>i. case i of
                Inl e \<Rightarrow> Ret (finishAuth tenantID OutcomeInternalError (Some e))
              | Inr eventID \<Rightarrow>
                  token_MarkUsed (wq_Channel req) (sha256 (wq_Token req)) now (\<lambda>_.
                    publish_async (ws_publisher s) eventID tenantID (wq_Channel req) (wq_Body req)
                      (Ret (finishAuth tenantID OutcomeAccepted None))))))"

definition check_timestamp :: "(string \<Rightarrow> string) \<Rightarrow> webhook_Service \<Rightarrow> ChannelAdapter \<Rightarrow> webhook_Request \<Rightarrow> TenantID \<Rightarrow> time \<Rightarrow> webhook_Result whprog" where
  "check_timestamp sha256 s a req tenantID now =
     (case ad_ExtractTimestamp a (wq_Headers req) (wq_Body req) of
        Inl e \<Rightarrow>
          if errors_is e wh_ErrTimestampMissing then Ret (finishAuth tenantID OutcomeTimestampMissing (Some e))
          else Ret (finishAuth tenantID OutcomeTimestampFormatError (Some e))
      | Inr ts \<Rightarrow>
          if \<not> timestampInWindow s ts now
            then Ret (finishAuth tenantID OutcomeReplayWindowViolation (Some (Sentinel wh_ErrTimestampOutOfRange)))
          else webhook_store sha256 s a req tenantID now)"

definition proceedAuthenticated ::
  "(string \<Rightarrow> string) \<Rightarrow> webhook_Service \<Rightarrow> ChannelAdapter \<Rightarrow> webhook_Request \<Rightarrow> TenantID \<Rightarrow> time \<Rightarrow> webhook_Result whprog" where
  "proceedAuthenticated sha256 s a req tenantID now =
     (case ad_BodyTenantAssociation a (wq_Body req) of
        None \<Rightarrow> check_timestamp sha256 s a req tenantID now
      | Some assoc \<Rightarrow>
          CheckAssociation tenantID (wq_Channel req) assoc (\<lambda>r. case r of
            Inl e \<Rightarrow> Ret (finishAuth tenantID OutcomeInternalError (Some e))
          | Inr matched \<Rightarrow>
              if \<not> matched then Ret (finishAuth tenantID OutcomeTenantBodyMismatch None)
              else check_timestamp sha256 s a req tenantID now))"

definition webhook_Handle :: "(string \<Rightarrow> string) \<Rightarrow> webhook_Service \<Rightarrow> webhook_Request \<Rightarrow> webhook_Result whprog" where
  "webhook_Handle sha256 s req =
     (case ws_adapters s (wq_Channel req) of
        None \<Rightarrow> Ret (finishPreAuth OutcomeUnknownChannel None)
      | Some a \<Rightarrow>
          read_clock (\<lambda>now.
            case ad_SecretScope a of
              SecretScopeApp \<Rightarrow>
                (case ad_VerifyApp a (wq_Body req) (wq_Headers req) of
                   Some e \<Rightarrow> Ret (finishPreAuth OutcomeSignatureInvalid (Some e))
                 | None \<Rightarrow>
                     token_Lookup (wq_Channel req) (sha256 (wq_Token req)) now (\<lambda>l. case l of
                       Inl e \<Rightarrow> Ret (finishPreAuth (classifyTokenError e) (Some e))
                     | Inr tenantID \<Rightarrow> proceedAuthenticated sha256 s a req tenantID now))
            | SecretScopeTenant \<Rightarrow>
                token_Lookup (wq_Channel req) (sha256 (wq_Token req)) now (\<lambda>l. case l of
                  Inl e \<Rightarrow> Ret (finishPreAuth (classifyTokenError e) (Some e))
                | Inr tenantID \<Rightarrow>
                    (case ad_VerifyTenant a tenantID (wq_Body req) (wq_Headers req) of
                       Some e \<Rightarrow> Ret (finishPreAuth OutcomeSignatureInvalid (Some e))
                     | None \<Rightarrow> proceedAuthenticated sha256 s a req tenantID now))
            | SecretScopeUnknown \<Rightarrow> Ret (finishPreAuth OutcomeInternalError (Some (Sentinel wh_ErrUnsupportedScope)))))"

text \<open>The HTTP handler: a body over 1 MiB, or one that cannot be read (\<open>None\<close>), is dropped; every request is answered alike.\<close>

definition webhook_MaxBodyBytes :: nat where
  "webhook_MaxBodyBytes = 2 ^ 20"

definition webhook_ServeHTTP ::
  "(string \<Rightarrow> string) \<Rightarrow> webhook_Service \<Rightarrow> string \<Rightarrow> string \<Rightarrow> string option \<Rightarrow> headers \<Rightarrow> (int \<times> string) whprog" where
  "webhook_ServeHTTP sha256 s channel token body hs =
     (let ack = (200, ''{\"status\":\"ok\"}'') in
      case body of
        None \<Rightarrow> Ret ack
      | Some b \<Rightarrow>
          if length b > webhook_MaxBodyBytes then Ret ack
          else bind_prog (webhook_Handle sha256 s \<lparr>wq_Channel = channel, wq_Token = token, wq_Body = b, wq_Headers = hs\<rparr>) (\<lambda>_. Ret ack))"

section \<open>Wiring\<close>

fun build_adapters ::
  "(string \<Rightarrow> string \<Rightarrow> string) \<Rightarrow> (string \<Rightarrow> metaPayload option) \<Rightarrow> (string \<times> string) list \<Rightarrow> ChannelAdapter list whresult" where
  "build_adapters hmac unmarshal [] = Inr []"
| "build_adapters hmac unmarshal ((channel, secret) # ps) =
     (if secret = '''' then build_adapters hmac unmarshal ps
      else case meta_New hmac unmarshal channel secret of
        Inl e \<Rightarrow> Inl e
      | Inr a \<Rightarrow> (case build_adapters hmac unmarshal ps of Inl e \<Rightarrow> Inl e | Inr as \<Rightarrow> Inr (a # as)))"

text \<open>\<^verbatim>\<open>buildMetaAdapters\<close> with the secrets of the three environment variables.\<close>

definition buildMetaAdapters ::
  "(string \<Rightarrow> string \<Rightarrow> string) \<Rightarrow> (string \<Rightarrow> metaPayload option) \<Rightarrow> string \<Rightarrow> string \<Rightarrow> string \<Rightarrow> ChannelAdapter list whresult" where
  "buildMetaAdapters hmac unmarshal whatsapp instagram facebook =
     build_adapters hmac unmarshal [(''whatsapp'', whatsapp), (''instagram'', instagram), (''facebook'', facebook)]"

definition webhook_wiring ::
  "(string \<Rightarrow> string \<Rightarrow> string) \<Rightarrow> (string \<Rightarrow> metaPayload option) \<Rightarrow> string \<Rightarrow> string \<Rightarrow> string \<Rightarrow> webhook_Service option" where
  "webhook_wiring hmac unmarshal whatsapp instagram facebook =
     (case buildMetaAdapters hmac unmarshal whatsapp instagram facebook of
        Inl e \<Rightarrow> None
      | Inr as \<Rightarrow> if as = [] then None else (case webhook_NewService as noopPublisher 0 0 of Inl e \<Rightarrow> None | Inr s \<Rightarrow> Some s))"

section \<open>The reconciler\<close>

record reconciler_Config =
  rc_StaleAfter :: duration
  rc_BatchSize :: nat

definition reconciler_New :: "duration \<Rightarrow> nat \<Rightarrow> reconciler_Config" where
  "reconciler_New stale batch = \<lparr>rc_StaleAfter = (if stale = 0 then 60 * 1000000000 else stale), rc_BatchSize = (if batch = 0 then 100 else batch)\<rparr>"

primrec republish :: "publisher \<Rightarrow> RawEventRow list \<Rightarrow> 'a whprog \<Rightarrow> 'a whprog" where
  "republish p [] k = k"
| "republish p (r # rs) k =
     wh_Publish p (re_ID r) (re_TenantID r) (re_Channel r) (re_Payload r) (\<lambda>x. case x of
       Inl _ \<Rightarrow> republish p rs k
     | Inr _ \<Rightarrow> read_clock (\<lambda>now. raw_MarkPublished (re_ID r) now (\<lambda>_. republish p rs k)))"

text \<open>The source of unpublished rows has no implementation but the wired one, which finds none: it is an argument.\<close>

definition reconciler_tick :: "reconciler_Config \<Rightarrow> (time \<Rightarrow> nat \<Rightarrow> webhook_db \<Rightarrow> RawEventRow list) \<Rightarrow> publisher \<Rightarrow> wh_err whprog" where
  "reconciler_tick c source p =
     read_clock (\<lambda>now.
       query (\<lambda>db. Inr (source (now - rc_StaleAfter c) (rc_BatchSize c) db)) (\<lambda>r. case r of
         Inl e \<Rightarrow> Ret (Some (Wrapped ''fetch unpublished'' e))
       | Inr rows \<Rightarrow> republish p rows (Ret None)))"

definition noopUnpublishedSource :: "time \<Rightarrow> nat \<Rightarrow> webhook_db \<Rightarrow> RawEventRow list" where
  "noopUnpublishedSource older limit db = []"

end
