(* ===== verification/WebhookProps.thy ===== *)
theory WebhookProps
  imports Webhook ClaimOnce
begin

text \<open>
  Correctness of the webhook intake: under every schedule and every fault only signed, addressed and fresh payloads are stored,
  each once; a valid delivery is accepted; what the missing partitions lose; the key of a delivery and the text of a tenant are
  unambiguous.
\<close>

section \<open>The invariant\<close>

definition wh_authentic :: "ChannelAdapter \<Rightarrow> TenantID \<Rightarrow> string \<Rightarrow> headers \<Rightarrow> bool" where
  "wh_authentic a t body hs \<longleftrightarrow>
     (case ad_SecretScope a of
        SecretScopeApp \<Rightarrow> ad_VerifyApp a body hs = None
      | SecretScopeTenant \<Rightarrow> ad_VerifyTenant a t body hs = None
      | SecretScopeUnknown \<Rightarrow> False)"

text \<open>What no call changes: a token but for its last use, and a stored event but for its publication.\<close>

definition token_static :: "token_row \<Rightarrow> token_row" where
  "token_static r = r\<lparr>wt_last_used_at := None\<rparr>"

definition raw_static :: "RawEventRow \<Rightarrow> RawEventRow" where
  "raw_static r = r\<lparr>re_PublishedAt := None\<rparr>"

definition token_admits :: "webhook_db \<Rightarrow> TenantID \<Rightarrow> string \<Rightarrow> string \<Rightarrow> time \<Rightarrow> bool" where
  "token_admits db t channel hash now \<longleftrightarrow>
     (\<exists>r \<in> set (map token_static (webhook_tokens db)). wt_tenant_id r = t \<and> wt_channel r = channel \<and> wt_token_hash r = hash \<and>
        (\<forall>x. wt_revoked_at r = Some x \<longrightarrow> now < x))"

definition association_ok :: "webhook_db \<Rightarrow> ChannelAdapter \<Rightarrow> TenantID \<Rightarrow> string \<Rightarrow> string \<Rightarrow> bool" where
  "association_ok db a t channel body \<longleftrightarrow> (\<forall>x. ad_BodyTenantAssociation a body = Some x \<longrightarrow> (t, channel, x) \<in> set (channel_associations db))"

definition fresh :: "webhook_Service \<Rightarrow> ChannelAdapter \<Rightarrow> headers \<Rightarrow> string \<Rightarrow> time \<Rightarrow> bool" where
  "fresh s a hs body now \<longleftrightarrow> (\<exists>ts. ad_ExtractTimestamp a hs body = Inr ts \<and> now - ws_pastWindow s \<le> ts \<and> ts \<le> now + ws_futureSkew s)"

definition stored_ok :: "(string \<Rightarrow> string) \<Rightarrow> webhook_Service \<Rightarrow> webhook_db \<Rightarrow> RawEventRow \<Rightarrow> bool" where
  "stored_ok sha s db r \<longleftrightarrow>
     (\<exists>a token. ws_adapters s (re_Channel r) = Some a \<and> wh_authentic a (re_TenantID r) (re_Payload r) (re_Headers r) \<and>
        token_admits db (re_TenantID r) (re_Channel r) (sha token) (re_ReceivedAt r) \<and>
        association_ok db a (re_TenantID r) (re_Channel r) (re_Payload r) \<and> fresh s a (re_Headers r) (re_Payload r) (re_ReceivedAt r)) \<and>
     re_IdempotencyKey r = computeIdempotencyKey sha (re_TenantID r) (re_Channel r) (re_Payload r)"

definition wh_inv :: "(string \<Rightarrow> string) \<Rightarrow> webhook_Service \<Rightarrow> webhook_db \<Rightarrow> bool" where
  "wh_inv sha s db \<longleftrightarrow> (\<forall>r \<in> set (raw_events db). stored_ok sha s db r \<and> in_partition db (re_ReceivedAt r))"

definition wh_evolves :: "webhook_db \<Rightarrow> webhook_db \<Rightarrow> bool" where
  "wh_evolves a b \<longleftrightarrow> channel_associations b = channel_associations a \<and> map token_static (webhook_tokens b) = map token_static (webhook_tokens a) \<and>
     raw_partitions b = raw_partitions a \<and> prefix (webhook_idempotency a) (webhook_idempotency b) \<and>
     prefix (map raw_static (raw_events a)) (map raw_static (raw_events b))"

type_synonym delivery_key = "TenantID \<times> string \<times> string"

definition wh_claimed :: "delivery_key \<Rightarrow> webhook_db \<Rightarrow> bool" where
  "wh_claimed K db \<longleftrightarrow> (\<exists>r \<in> set (webhook_idempotency db). (wi_tenant_id r, wi_channel r, wi_key r) = K)"

definition raw_key :: "RawEventRow \<Rightarrow> delivery_key" where
  "raw_key r = (re_TenantID r, re_Channel r, re_IdempotencyKey r)"

definition wh_stored :: "delivery_key \<Rightarrow> webhook_db \<Rightarrow> nat" where
  "wh_stored K db = length (filter (\<lambda>r. raw_key r = K) (raw_events db))"

interpretation wo: claim_once "wh_inv sha s" wh_evolves "wh_claimed K" "wh_stored K" for sha s K
  by unfold_locales (auto simp: wh_evolves_def intro: prefix_order.trans)

abbreviation wonce :: "(string \<Rightarrow> string) \<Rightarrow> webhook_Service \<Rightarrow> delivery_key \<Rightarrow> bool \<Rightarrow> webhook_db \<Rightarrow> 'a whprog \<Rightarrow> bool" where
  "wonce sha s K b db p \<equiv> once (wh_inv sha s) wh_evolves (wh_claimed K) (wh_stored K) b db p"

lemma wh_evolves_refl [simp]: "wh_evolves db db"
  by (simp add: wh_evolves_def)

lemma wonce_Ret [simp]: "wonce sha s K b db (Ret x)"
  by (rule once_Ret)

lemma raw_static_simps [simp]:
  "re_TenantID (raw_static r) = re_TenantID r" "re_Channel (raw_static r) = re_Channel r" "re_Payload (raw_static r) = re_Payload r"
  "re_Headers (raw_static r) = re_Headers r" "re_ReceivedAt (raw_static r) = re_ReceivedAt r" "re_IdempotencyKey (raw_static r) = re_IdempotencyKey r"
  "raw_key (raw_static r) = raw_key r" "raw_static (r\<lparr>re_PublishedAt := x\<rparr>) = raw_static r" "raw_static (raw_static r) = raw_static r"
  by (simp_all add: raw_static_def raw_key_def)

lemma stored_ok_static: "stored_ok sha s db (raw_static r) = stored_ok sha s db r"
  by (simp add: stored_ok_def)

text \<open>The facts about a stored event rest on what no call changes.\<close>

lemma stored_ok_evolves:
  assumes "channel_associations db' = channel_associations db" "map token_static (webhook_tokens db') = map token_static (webhook_tokens db)"
  shows "stored_ok sha s db' r = stored_ok sha s db r"
  using assms by (simp add: stored_ok_def token_admits_def association_ok_def)

lemma wh_inv_static:
  "wh_inv sha s db \<longleftrightarrow> (\<forall>r \<in> set (map raw_static (raw_events db)). stored_ok sha s db r \<and> in_partition db (re_ReceivedAt r))"
  by (simp add: wh_inv_def stored_ok_static)

lemma wh_stored_static: "wh_stored K db = length (filter (\<lambda>r. raw_key r = K) (map raw_static (raw_events db)))"
  by (simp add: wh_stored_def filter_map comp_def)

text \<open>A write that changes nothing of this.\<close>

lemma wh_same:
  assumes "wh_inv sha s db" "channel_associations db' = channel_associations db" "map token_static (webhook_tokens db') = map token_static (webhook_tokens db)"
    "raw_partitions db' = raw_partitions db" "webhook_idempotency db' = webhook_idempotency db"
    "map raw_static (raw_events db') = map raw_static (raw_events db)"
  shows "wh_inv sha s db' \<and> wh_evolves db db' \<and> (wh_claimed K db \<longrightarrow> wh_claimed K db') \<and> wh_stored K db' \<le> wh_stored K db"
  using assms by (simp add: wh_inv_static wh_evolves_def wh_claimed_def wh_stored_static stored_ok_evolves [OF assms(2,3)] in_partition_def)

lemma static_update:
  assumes "\<And>r. st (f r) = st r"
  shows "map st (map (\<lambda>r. if P r then f r else r) rs) = map st rs"
  using assms by (induction rs) auto

section \<open>Every call\<close>

lemma command_same:
  assumes "\<And>s1 ev x s2. c ev s1 = Inr (x, s2) \<Longrightarrow> channel_associations s2 = channel_associations s1 \<and>
      map token_static (webhook_tokens s2) = map token_static (webhook_tokens s1) \<and> raw_partitions s2 = raw_partitions s1 \<and>
      webhook_idempotency s2 = webhook_idempotency s1 \<and> map raw_static (raw_events s2) = map raw_static (raw_events s1)"
    and k: "\<And>s' r. wh_evolves db s' \<Longrightarrow> wonce sha s K b s' (k r)"
  shows "wonce sha s K b db (command c k)"
proof (rule wo.once_command)
  fix s1 ev x s2
  assume a: "wh_inv sha s s1" "wh_evolves db s1" "c ev s1 = Inr (x, s2)"
  note w = wh_same [OF a(1), where db' = s2 and K = K]
  have "wh_inv sha s s2 \<and> wh_evolves s1 s2 \<and> (wh_claimed K s1 \<longrightarrow> wh_claimed K s2) \<and> wh_stored K s2 \<le> wh_stored K s1"
    using assms(1) [OF a(3)] by (intro w) auto
  moreover have "wh_evolves db s2" using calculation a(2) wo.E_trans by blast
  ultimately show "wh_inv sha s s2 \<and> wh_evolves s1 s2 \<and> (wh_claimed K s1 \<longrightarrow> wh_claimed K s2) \<and> wh_stored K s2 \<le> wh_stored K s1 \<and>
      wonce sha s K b s2 (k (Inr x)) \<and> (\<forall>m. wonce sha s K b s2 (k (Inl (Opaque m))))"
    using k by blast
qed (rule k)

lemma clock_once: "(\<And>s' now. wh_evolves db s' \<Longrightarrow> wonce sha s K b s' (k now)) \<Longrightarrow> wonce sha s K b db (read_clock k)"
  unfolding read_clock_def by (rule wo.once_pure)

lemma MarkUsed_once: "(\<And>s' r. wh_evolves db s' \<Longrightarrow> wonce sha s K b s' (k r)) \<Longrightarrow> wonce sha s K b db (token_MarkUsed c h now k)"
  unfolding token_MarkUsed_def
  by (rule command_same) (auto simp: token_static_def comp_def split: sum.splits)

lemma MarkPublished_once: "(\<And>s' r. wh_evolves db s' \<Longrightarrow> wonce sha s K b s' (k r)) \<Longrightarrow> wonce sha s K b db (raw_MarkPublished i now k)"
  unfolding raw_MarkPublished_def
  by (rule command_same) (auto simp: comp_def split: sum.splits)

lemma Publish_once: "(\<And>s' r. wh_evolves db s' \<Longrightarrow> wonce sha s K b s' (k r)) \<Longrightarrow> wonce sha s K b db (wh_Publish p i t c body k)"
  unfolding wh_Publish_def by (cases p) (auto intro!: command_same)

lemma publish_async_once:
  assumes "\<And>s'. wh_evolves db s' \<Longrightarrow> wonce sha s K b s' k"
  shows "wonce sha s K b db (publish_async p i t c body k)"
proof -
  have "wonce sha s K b s' (case r of Inl _ \<Rightarrow> k | Inr _ \<Rightarrow> read_clock (\<lambda>now. raw_MarkPublished i now (\<lambda>_. k)))"
    if "wh_evolves db s'" for s' and r :: "unit whresult"
  proof (cases r)
    case (Inr x)
    have "wonce sha s K b s' (read_clock (\<lambda>now. raw_MarkPublished i now (\<lambda>_. k)))"
      by (rule clock_once, rule MarkPublished_once, rule assms) (blast intro: wo.E_trans that)
    then show ?thesis using Inr by simp
  qed (simp add: assms that)
  then show ?thesis unfolding publish_async_def by (rule Publish_once)
qed

text \<open>The claim earns the credit of its key, and of no other.\<close>

lemma insert_idempotency_cases:
  assumes "insert_idempotency t c key now db = (x, db')"
  obtains (taken) "x = False" "db' = db" "wh_claimed (t, c, key) db"
  | (new) row where "x = True" "db' = db\<lparr>webhook_idempotency := webhook_idempotency db @ [row]\<rparr>"
      "(wi_tenant_id row, wi_channel row, wi_key row) = (t, c, key)" "\<not> wh_claimed (t, c, key) db"
proof (cases "list_ex (\<lambda>r. wi_tenant_id r = t \<and> wi_channel r = c \<and> wi_key r = key) (webhook_idempotency db)")
  case True
  then show ?thesis using assms taken by (auto simp: insert_idempotency_def wh_claimed_def list_ex_iff split: if_splits)
next
  case False
  then show ?thesis using assms new [of "\<lparr>wi_tenant_id = t, wi_channel = c, wi_key = key, wi_inserted_at = now\<rparr>"]
    by (auto simp: insert_idempotency_def wh_claimed_def list_ex_iff split: if_splits)
qed

lemma CheckAndStore_once:
  assumes err: "\<And>s' b e. wh_evolves db s' \<Longrightarrow> wonce sha s K b s' (k (Inl e))"
    and seen: "\<And>s'. wh_evolves db s' \<Longrightarrow> wonce sha s K False s' (k (Inr False))"
    and first: "\<And>s'. wh_evolves db s' \<Longrightarrow> wonce sha s K (K = (t, c, key)) s' (k (Inr True))"
  shows "wonce sha s K False db (CheckAndStore t c key now k)"
  unfolding CheckAndStore_def
proof (rule wo.once_command_gen)
  fix s1 ev x s2
  assume a: "wh_inv sha s s1" "wh_evolves db s1" "(Inr (insert_idempotency t c key now s1) :: (bool \<times> webhook_db) whresult) = Inr (x, s2)"
  let ?k = "\<lambda>r. case r of Inl e \<Rightarrow> k (Inl (Wrapped ''idempotency insert'' e)) | Inr b \<Rightarrow> k (Inr b)"
  from a(3) have "insert_idempotency t c key now s1 = (x, s2)" by simp
  then show "wh_inv sha s s2 \<and> wh_evolves s1 s2 \<and> (wh_claimed K s1 \<longrightarrow> wh_claimed K s2) \<and>
      (\<exists>b'. wonce sha s K b' s2 (?k (Inr x)) \<and> (\<forall>m. wonce sha s K b' s2 (?k (Inl (Opaque m)))) \<and>
         wh_stored K s2 + of_bool b' \<le> wh_stored K s1 + of_bool False + of_bool (\<not> wh_claimed K s1 \<and> wh_claimed K s2))"
  proof (cases rule: insert_idempotency_cases)
    case taken
    then show ?thesis using a seen err by (auto intro!: exI [of _ False])
  next
    case (new row)
    have e: "wh_evolves s1 s2" by (simp add: new(2) wh_evolves_def)
    have i: "wh_inv sha s s2" using a(1) unfolding wh_inv_def new(2)
      by (simp add: stored_ok_evolves [of "s1\<lparr>webhook_idempotency := _\<rparr>" s1] in_partition_def)
    have u: "wh_stored K s2 = wh_stored K s1" by (simp add: new(2) wh_stored_def)
    have c: "wh_claimed K s1 \<longrightarrow> wh_claimed K s2" by (auto simp: new(2) wh_claimed_def)
    have w: "wonce sha s K (K = (t, c, key)) s2 (?k (Inr x))" "wonce sha s K (K = (t, c, key)) s2 (?k (Inl (Opaque m)))" for m
      using first err wo.E_trans [OF a(2) e] new(1) by simp_all
    have le: "wh_stored K s2 + of_bool (K = (t, c, key)) \<le> wh_stored K s1 + of_bool False + of_bool (\<not> wh_claimed K s1 \<and> wh_claimed K s2)"
      using u new(3,4) by (auto simp: new(2) wh_claimed_def)
    show ?thesis using e i c w le by blast
  qed
next
  fix s1 ev and e :: "webhook_error goerr"
  assume "wh_evolves db s1" "Inr (insert_idempotency t c key now s1) = Inl e \<or> (\<exists>m. e = Opaque m)"
  then show "wonce sha s K False s1 (case Inl e of Inl e \<Rightarrow> k (Inl (Wrapped ''idempotency insert'' e)) | Inr b \<Rightarrow> k (Inr b))"
    using err by simp
qed

lemma insert_raw_keeps:
  assumes "wh_inv sha s db" "insert_raw row ev db = Inr (x, db')" "stored_ok sha s db row"
  shows "wh_inv sha s db' \<and> wh_evolves db db' \<and> wh_claimed K db' = wh_claimed K db \<and>
    wh_stored K db' = wh_stored K db + of_bool (raw_key row = K)"
proof -
  let ?r = "row\<lparr>re_ID := o_ids ev 0, re_PublishedAt := None\<rparr>"
  have db': "db' = db\<lparr>raw_events := raw_events db @ [?r]\<rparr>" using assms(2) by (auto simp: insert_raw_def split: if_splits)
  have ok: "stored_ok sha s db' r = stored_ok sha s db r" for r by (rule stored_ok_evolves) (simp_all add: db')
  have "stored_ok sha s db ?r" using assms(3) by (simp add: stored_ok_def)
  moreover have "in_partition db (re_ReceivedAt row)" using assms(2) by (simp add: insert_raw_def split: if_splits)
  moreover have "in_partition db' = in_partition db" by (simp add: db' in_partition_def fun_eq_iff)
  ultimately have "wh_inv sha s db'" using assms(1) by (auto simp: wh_inv_def ok) (auto simp: db')
  moreover have "wh_evolves db db'" by (simp add: db' wh_evolves_def)
  moreover have "wh_claimed K db' = wh_claimed K db" by (simp add: db' wh_claimed_def)
  moreover have "raw_key ?r = raw_key row" by (simp add: raw_key_def)
  ultimately show ?thesis by (simp add: db' wh_stored_def)
qed

lemma raw_Insert_once:
  assumes ok: "stored_ok sha s db row" and k: "\<And>s' b r. wh_evolves db s' \<Longrightarrow> wonce sha s K b s' (k r)"
  shows "wonce sha s K (K = raw_key row) db (raw_Insert row k)"
proof -
  let ?k = "\<lambda>r. case r of Inl e \<Rightarrow> k (Inl (Wrapped ''raw_event insert'' e)) | Inr i \<Rightarrow> k (Inr i)"
  have k': "wonce sha s K b s' (?k r)" if "wh_evolves db s'" for s' b r using k [OF that] by (cases r) auto
  have keep: "wh_inv sha s s2 \<and> wh_evolves s1 s2 \<and> (wh_claimed K s1 \<longrightarrow> wh_claimed K s2) \<and> wh_stored K s2 = wh_stored K s1 + of_bool (raw_key row = K) \<and>
      wonce sha s K b s2 (?k (Inr x)) \<and> (\<forall>m. wonce sha s K b s2 (?k (Inl (Opaque m))))"
    if "wh_inv sha s s1" "wh_evolves db s1" "insert_raw row ev s1 = Inr (x, s2)" for s1 s2 ev x b
  proof -
    have "stored_ok sha s s1 row" using ok that(2) stored_ok_evolves [of s1 db] by (simp add: wh_evolves_def)
    from insert_raw_keeps [OF that(1,3) this, of K] have w: "wh_inv sha s s2" "wh_evolves s1 s2" "wh_claimed K s2 = wh_claimed K s1"
      "wh_stored K s2 = wh_stored K s1 + of_bool (raw_key row = K)" by auto
    then show ?thesis using k' wo.E_trans [OF that(2)] by blast
  qed
  show ?thesis unfolding raw_Insert_def
  proof (cases "K = raw_key row")
    case True
    have "wonce sha s K True db (command (insert_raw row) ?k)"
    proof (rule wo.once_work)
      fix s1 ev x s2
      assume a: "wh_inv sha s s1" "wh_evolves db s1" "insert_raw row ev s1 = Inr (x, s2)"
      from keep [OF a, of False] show "wh_inv sha s s2 \<and> wh_evolves s1 s2 \<and> (wh_claimed K s1 \<longrightarrow> wh_claimed K s2) \<and>
          wh_stored K s2 \<le> Suc (wh_stored K s1) \<and> wonce sha s K False s2 (?k (Inr x)) \<and> (\<forall>m. wonce sha s K False s2 (?k (Inl (Opaque m))))"
        using True by simp
    qed (rule k')
    then show "wonce sha s K (K = raw_key row) db (command (insert_raw row) ?k)" using True by simp
  next
    case False
    have "wonce sha s K False db (command (insert_raw row) ?k)"
    proof (rule wo.once_command)
      fix s1 ev x s2
      assume a: "wh_inv sha s s1" "wh_evolves db s1" "insert_raw row ev s1 = Inr (x, s2)"
      from keep [OF a, of False] show "wh_inv sha s s2 \<and> wh_evolves s1 s2 \<and> (wh_claimed K s1 \<longrightarrow> wh_claimed K s2) \<and>
          wh_stored K s2 \<le> wh_stored K s1 \<and> wonce sha s K False s2 (?k (Inr x)) \<and> (\<forall>m. wonce sha s K False s2 (?k (Inl (Opaque m))))"
        using False by (auto simp: eq_commute)
    qed (rule k')
    then show "wonce sha s K (K = raw_key row) db (command (insert_raw row) ?k)" using False by simp
  qed
qed

lemma webhook_store_once:
  assumes "ws_adapters s (wq_Channel req) = Some a" "wh_authentic a t (wq_Body req) (wq_Headers req)"
    and "token_admits db t (wq_Channel req) (sha (wq_Token req)) now" "association_ok db a t (wq_Channel req) (wq_Body req)"
    and "fresh s a (wq_Headers req) (wq_Body req) now"
  shows "wonce sha s K False db (webhook_store sha s a req t now)"
proof -
  let ?key = "computeIdempotencyKey sha t (wq_Channel req) (wq_Body req)"
  let ?row = "\<lparr>re_ID = 0, re_TenantID = t, re_Channel = wq_Channel req, re_IdempotencyKey = ?key, re_Payload = wq_Body req,
                  re_Headers = wq_Headers req, re_ReceivedAt = now, re_PublishedAt = None\<rparr>"
  have key: "raw_key ?row = (t, wq_Channel req, ?key)" by (simp add: raw_key_def)
  have ok: "stored_ok sha s db ?row" using assms by (auto simp: stored_ok_def)
  have ins: "wonce sha s K (K = (t, wq_Channel req, ?key)) s' (raw_Insert ?row (\<lambda>i. case i of
                Inl e \<Rightarrow> Ret (finishAuth t OutcomeInternalError (Some e))
              | Inr eventID \<Rightarrow>
                  token_MarkUsed (wq_Channel req) (sha (wq_Token req)) now (\<lambda>_.
                    publish_async (ws_publisher s) eventID t (wq_Channel req) (wq_Body req) (Ret (finishAuth t OutcomeAccepted None)))))"
    if "wh_evolves db s'" for s'
  proof -
    have "stored_ok sha s s' ?row" using ok that stored_ok_evolves [of s' db] by (simp add: wh_evolves_def)
    then show ?thesis unfolding key [symmetric]
      by (rule raw_Insert_once) (auto intro!: MarkUsed_once publish_async_once split: sum.splits)
  qed
  show ?thesis unfolding webhook_store_def Let_def
    by (rule CheckAndStore_once) (auto intro!: ins split: sum.splits)
qed

lemma check_timestamp_once:
  assumes "ws_adapters s (wq_Channel req) = Some a" "wh_authentic a t (wq_Body req) (wq_Headers req)"
    and "token_admits db t (wq_Channel req) (sha (wq_Token req)) now" "association_ok db a t (wq_Channel req) (wq_Body req)"
  shows "wonce sha s K False db (check_timestamp sha s a req t now)"
proof (cases "ad_ExtractTimestamp a (wq_Headers req) (wq_Body req)")
  case (Inr ts)
  show ?thesis
  proof (cases "timestampInWindow s ts now")
    case True
    then have "fresh s a (wq_Headers req) (wq_Body req) now" using Inr by (auto simp: fresh_def timestampInWindow_def)
    then show ?thesis using Inr True webhook_store_once [where sha = sha, OF assms] by (simp add: check_timestamp_def)
  qed (use Inr in \<open>simp add: check_timestamp_def\<close>)
qed (simp add: check_timestamp_def)

lemma token_admits_evolves: "wh_evolves db db' \<Longrightarrow> token_admits db t c h now \<Longrightarrow> token_admits db' t c h now"
  by (simp add: token_admits_def wh_evolves_def)

lemma proceedAuthenticated_once:
  assumes "ws_adapters s (wq_Channel req) = Some a" "wh_authentic a t (wq_Body req) (wq_Headers req)"
    and "token_admits db t (wq_Channel req) (sha (wq_Token req)) now"
  shows "wonce sha s K False db (proceedAuthenticated sha s a req t now)"
proof (cases "ad_BodyTenantAssociation a (wq_Body req)")
  case None
  then show ?thesis using check_timestamp_once [where sha = sha, OF assms] by (simp add: proceedAuthenticated_def association_ok_def)
next
  case (Some x)
  have "wonce sha s K False s1 (check_timestamp sha s a req t now)"
    if "wh_evolves db s1" "(t, wq_Channel req, x) \<in> set (channel_associations s1)" for s1
    using that Some check_timestamp_once [where sha = sha, OF assms(1,2) token_admits_evolves [OF that(1) assms(3)]]
    by (simp add: association_ok_def)
  then show ?thesis unfolding proceedAuthenticated_def Some CheckAssociation_def
    by (simp, intro wo.once_query) (auto split: sum.splits)
qed

lemma token_rows_in: "r \<in> set (token_rows c h db) \<Longrightarrow> r \<in> set (webhook_tokens db) \<and> wt_channel r = c \<and> wt_token_hash r = h"
  by (auto simp: token_rows_def)

lemma Lookup_once:
  assumes "\<And>s' e. wh_evolves db s' \<Longrightarrow> wonce sha s K False s' (k (Inl e))"
    and "\<And>s' t. wh_evolves db s' \<Longrightarrow> token_admits s' t c h now \<Longrightarrow> wonce sha s K False s' (k (Inr t))"
  shows "wonce sha s K False db (token_Lookup c h now k)"
  unfolding token_Lookup_def
proof (rule wo.once_query)
  fix s1 and r :: "token_row whresult"
  assume a: "wh_evolves db s1"
    "r = (case token_rows c h s1 of [] \<Rightarrow> Inl (Sentinel wh_pgx_ErrNoRows) | r # _ \<Rightarrow> Inr r) \<or> (\<exists>m. r = Inl (Opaque m))"
  show "wonce sha s K False s1 (case r of
          Inl e \<Rightarrow> if errors_is e wh_pgx_ErrNoRows then k (Inl (Sentinel wh_ErrTokenUnknown)) else k (Inl (Wrapped ''token lookup'' e))
        | Inr row \<Rightarrow>
            (case wt_revoked_at row of
               Some t \<Rightarrow> if t \<le> now then k (Inl (Sentinel wh_ErrTokenRevoked)) else k (Inr (wt_tenant_id row))
             | None \<Rightarrow> k (Inr (wt_tenant_id row))))"
  proof (cases r)
    case (Inr row)
    then have "row \<in> set (token_rows c h s1)" using a(2) by (auto split: list.splits)
    then have row: "row \<in> set (webhook_tokens s1)" "wt_channel row = c" "wt_token_hash row = h" using token_rows_in by blast+
    have "token_admits s1 (wt_tenant_id row) c h now" if "\<forall>x. wt_revoked_at row = Some x \<longrightarrow> now < x"
      unfolding token_admits_def using row that by (intro bexI [of _ "token_static row"]) (auto simp: token_static_def)
    then show ?thesis using Inr assms a(1) by (cases "wt_revoked_at row") auto
  qed (use assms(1) a(1) in simp)
qed

lemma Handle_once: "wonce sha s K False db (webhook_Handle sha s req)"
proof (cases "ws_adapters s (wq_Channel req)")
  case (Some a)
  have go: "wonce sha s K False s' (proceedAuthenticated sha s a req t now)"
    if "wh_authentic a t (wq_Body req) (wq_Headers req)" "token_admits s' t (wq_Channel req) (sha (wq_Token req)) now" for s' t now
    using proceedAuthenticated_once [where sha = sha, OF Some that] .
  show ?thesis unfolding webhook_Handle_def Some option.case
    by (rule clock_once, cases "ad_SecretScope a")
      (auto intro!: Lookup_once go simp: wh_authentic_def split: option.splits)
qed (simp add: webhook_Handle_def)

lemma republish_once: "(\<And>s'. wh_evolves db s' \<Longrightarrow> wonce sha s K b s' k) \<Longrightarrow> wonce sha s K b db (republish p rs k)"
proof (induction rs arbitrary: db)
  case (Cons r rs)
  have "wonce sha s K b s' (republish p rs k)" if "wh_evolves db s'" for s'
    by (rule Cons.IH, rule Cons.prems) (blast intro: wo.E_trans that)
  then have "wonce sha s K b s1 (case x of Inl _ \<Rightarrow> republish p rs k | Inr _ \<Rightarrow> read_clock (\<lambda>now. raw_MarkPublished (re_ID r) now (\<lambda>_. republish p rs k)))"
    if "wh_evolves db s1" for s1 and x :: "unit whresult"
    using that by (cases x) (auto intro!: clock_once MarkPublished_once intro: wo.E_trans)
  then show ?case by (simp add: Publish_once)
qed simp

inductive webhook_call :: "(string \<Rightarrow> string) \<Rightarrow> webhook_Service \<Rightarrow> webhook_db \<Rightarrow> unit whprog \<Rightarrow> bool" for sha s where
  call_handle: "webhook_call sha s db (bind_prog (webhook_Handle sha s req) (\<lambda>_. Ret ()))"
| call_http: "webhook_call sha s db (bind_prog (webhook_ServeHTTP sha s channel token body hs) (\<lambda>_. Ret ()))"
| call_reconcile: "webhook_call sha s db (bind_prog (reconciler_tick c source p) (\<lambda>_. Ret ()))"

lemma webhook_call_once: "webhook_call sha s db p \<Longrightarrow> wonce sha s K False db p"
proof (induction rule: webhook_call.induct)
  case (call_handle db req)
  show ?case by (rule wo.once_bind [OF Handle_once])
next
  case (call_http db channel token body hs)
  have "wonce sha s K False db (webhook_ServeHTTP sha s channel token body hs)"
    unfolding webhook_ServeHTTP_def Let_def by (auto intro: wo.once_bind [OF Handle_once] split: option.splits)
  then show ?case by (rule wo.once_bind)
next
  case (call_reconcile db c source p)
  have "wonce sha s K False db (reconciler_tick c source p)"
    unfolding reconciler_tick_def by (auto intro!: clock_once wo.once_query republish_once split: sum.splits)
  then show ?case by (rule wo.once_bind)
qed

abbreviation webhook_reach :: "(string \<Rightarrow> string) \<Rightarrow> webhook_Service \<Rightarrow> webhook_db \<Rightarrow> webhook_db \<times> (nat \<Rightarrow> unit whprog) \<Rightarrow> bool" where
  "webhook_reach sha s \<equiv> pool_reach (\<lambda>_ (_ :: call_env). True) (webhook_call sha s)"

lemma webhook_reach_keeps:
  assumes "webhook_reach sha s db0 (db, pool)" "wh_inv sha s db0" "\<And>K. wh_stored K db0 \<le> of_bool (wh_claimed K db0)"
  shows "wh_inv sha s db \<and> wh_evolves db0 db \<and> wh_stored K db \<le> of_bool (wh_claimed K db)"
  using wo.work_done_once [OF assms(1,2,3), of K] webhook_call_once by fastforce

section \<open>What is stored\<close>

lemma registerAdapters_from:
  "registerAdapters m as = Inr m' \<Longrightarrow> m' c = Some a \<Longrightarrow> m c = Some a \<or> a \<in> set as \<and> ad_Name a = c"
proof (induction m as rule: registerAdapters.induct)
  case (2 m b as)
  obtain m1 where m1: "registerAdapter m b = Inr m1" "registerAdapters m1 as = Inr m'" using 2(2) by (auto split: sum.splits)
  then have "m1 = m(ad_Name b \<mapsto> b)" by (auto simp: registerAdapter_def split: if_splits)
  then show ?case using 2(1) [OF m1(1,2) 2(3)] by (auto split: if_splits)
qed simp

lemma build_adapters_from:
  "build_adapters hmac unmarshal ps = Inr as \<Longrightarrow> a \<in> set as \<Longrightarrow> \<exists>(c, secret) \<in> set ps. secret \<noteq> '''' \<and> meta_New hmac unmarshal c secret = Inr a"
  by (induction ps arbitrary: as) (auto split: if_splits sum.splits)

lemma wired_adapter:
  assumes "webhook_wiring hmac unmarshal w i f = Some s" "ws_adapters s c = Some a"
  shows "(\<exists>secret \<in> {w, i, f}. secret \<noteq> '''' \<and> meta_New hmac unmarshal c secret = Inr a) \<and>
    ws_pastWindow s = 5 * 60 * 1000000000 \<and> ws_futureSkew s = 60 * 1000000000 \<and> ws_publisher s = noopPublisher"
proof -
  obtain as where as: "buildMetaAdapters hmac unmarshal w i f = Inr as" "webhook_NewService as noopPublisher 0 0 = Inr s"
    using assms(1) by (auto simp: webhook_wiring_def split: sum.splits if_splits)
  then have s: "registerAdapters (\<lambda>_. None) as = Inr (ws_adapters s)" "ws_pastWindow s = 5 * 60 * 1000000000" "ws_futureSkew s = 60 * 1000000000"
    "ws_publisher s = noopPublisher"
    by (auto simp: webhook_NewService_def split: sum.splits)
  then have a: "a \<in> set as" "ad_Name a = c" using registerAdapters_from [OF s(1) assms(2)] by auto
  then obtain c' secret where p: "(c', secret) \<in> {(''whatsapp'', w), (''instagram'', i), (''facebook'', f)}" "secret \<noteq> ''''"
    "meta_New hmac unmarshal c' secret = Inr a"
    using build_adapters_from [OF as(1) [unfolded buildMetaAdapters_def] a(1)] by auto
  have "ad_Name a = c'" using p(3) by (auto simp: meta_New_def split: if_splits)
  then show ?thesis using p a(2) s by auto
qed

lemma meta_adapter:
  assumes "meta_New hmac unmarshal c secret = Inr a"
  shows "ad_SecretScope a = SecretScopeApp" "ad_VerifyApp a = meta_VerifyApp hmac secret" "ad_ExtractTimestamp a = meta_ExtractTimestamp unmarshal"
    "ad_BodyTenantAssociation a = meta_BodyTenantAssociation unmarshal" "ad_ParseEvent a = meta_ParseEvent unmarshal c"
  using assms by (auto simp: meta_New_def split: if_splits)

lemma meta_signed:
  "meta_VerifyApp hmac secret body hs = None \<longleftrightarrow> (\<exists>sig. signatureHeader hs = Some sig \<and> DecodeString sig = Some (hmac secret body))"
  by (auto simp: meta_VerifyApp_def split: option.splits)

lemma meta_associated: "\<exists>phone. meta_BodyTenantAssociation unmarshal body = Some phone"
  by (auto simp: meta_BodyTenantAssociation_def split: option.splits list.splits)

text \<open>
  C7. Only authentic payloads are stored: under every schedule of deliveries and reconciler ticks, with any faults, each event the
  wired intake has stored carries a signature header with the keyed digest of its payload under a configured secret, names a
  phone number that belongs to its tenant, came with a token of that tenant that was not revoked when it was received, and
  is dated between five minutes before and one minute after that.
\<close>

theorem stored_events_are_authentic:
  assumes "webhook_wiring hmac unmarshal w i f = Some s" and "wh_inv sha s db0" and "\<And>K. wh_stored K db0 \<le> of_bool (wh_claimed K db0)"
    and "webhook_reach sha s db0 (db, pool)" and "r \<in> set (raw_events db)"
  shows "\<exists>secret sig phone token ts. secret \<in> {w, i, f} \<and> secret \<noteq> '''' \<and> signatureHeader (re_Headers r) = Some sig \<and>
     DecodeString sig = Some (hmac secret (re_Payload r)) \<and>
     meta_BodyTenantAssociation unmarshal (re_Payload r) = Some phone \<and> (re_TenantID r, re_Channel r, phone) \<in> set (channel_associations db) \<and>
     token_admits db (re_TenantID r) (re_Channel r) (sha token) (re_ReceivedAt r) \<and>
     meta_ExtractTimestamp unmarshal (re_Headers r) (re_Payload r) = Inr ts \<and>
     re_ReceivedAt r - 300 * 1000000000 \<le> ts \<and> ts \<le> re_ReceivedAt r + 60 * 1000000000"
proof -
  have "stored_ok sha s db r" using webhook_reach_keeps [OF assms(4,2,3)] assms(5) by (auto simp: wh_inv_def)
  then obtain a token where a: "ws_adapters s (re_Channel r) = Some a" "wh_authentic a (re_TenantID r) (re_Payload r) (re_Headers r)"
    "token_admits db (re_TenantID r) (re_Channel r) (sha token) (re_ReceivedAt r)"
    "association_ok db a (re_TenantID r) (re_Channel r) (re_Payload r)" "fresh s a (re_Headers r) (re_Payload r) (re_ReceivedAt r)"
    by (auto simp: stored_ok_def)
  obtain secret where sec: "secret \<in> {w, i, f}" "secret \<noteq> ''''" "meta_New hmac unmarshal (re_Channel r) secret = Inr a"
    and win: "ws_pastWindow s = 5 * 60 * 1000000000" "ws_futureSkew s = 60 * 1000000000"
    using wired_adapter [OF assms(1) a(1)] by blast
  note m = meta_adapter [OF sec(3)]
  obtain sig where "signatureHeader (re_Headers r) = Some sig" "DecodeString sig = Some (hmac secret (re_Payload r))"
    using a(2) by (auto simp: wh_authentic_def m meta_signed)
  moreover obtain phone where "meta_BodyTenantAssociation unmarshal (re_Payload r) = Some phone" using meta_associated by blast
  moreover from this have "(re_TenantID r, re_Channel r, phone) \<in> set (channel_associations db)" using a(4) by (simp add: association_ok_def m)
  moreover obtain ts where "meta_ExtractTimestamp unmarshal (re_Headers r) (re_Payload r) = Inr ts"
    "re_ReceivedAt r - 300 * 1000000000 \<le> ts" "ts \<le> re_ReceivedAt r + 60 * 1000000000"
    using a(5) by (auto simp: fresh_def m win)
  ultimately show ?thesis using sec(1,2) a(3) by blast
qed

text \<open>
  C8. Each delivery is stored once: whatever the schedule and the faults, a payload of a tenant on a channel has at most one
  stored event, and one only after its idempotency row. No Go code deletes those rows.
\<close>

theorem deliveries_are_stored_once:
  assumes "wh_inv sha s db0" and "\<And>K. wh_stored K db0 \<le> of_bool (wh_claimed K db0)" and "webhook_reach sha s db0 (db, pool)"
  shows "length (filter (\<lambda>r. re_TenantID r = t \<and> re_Channel r = c \<and> re_Payload r = body) (raw_events db))
     \<le> of_bool (wh_claimed (t, c, computeIdempotencyKey sha t c body) db)"
proof -
  let ?P = "\<lambda>r. re_TenantID r = t \<and> re_Channel r = c \<and> re_Payload r = body" and ?K = "(t, c, computeIdempotencyKey sha t c body)"
  have k: "wh_inv sha s db" "wh_stored ?K db \<le> of_bool (wh_claimed ?K db)" using webhook_reach_keeps [OF assms(3,1,2)] by blast+
  then have "filter ?P (raw_events db) = filter ?P (filter (\<lambda>r. raw_key r = ?K) (raw_events db))"
    by (auto simp: wh_inv_def stored_ok_def raw_key_def intro!: filter_cong)
  then have "length (filter ?P (raw_events db)) \<le> wh_stored ?K db" 
    using length_filter_le [of ?P "filter (\<lambda>r. raw_key r = ?K) (raw_events db)"] by (simp only: wh_stored_def)
  then show ?thesis using k(2) by linarith
qed

text \<open>
  C40. The text that is hashed for a delivery is unambiguous: tenant identifiers have 16 bytes and channel names no colon, so
  equal texts mean the same tenant, channel and payload; and the printed form of a tenant identifier is read back.
\<close>

theorem webhook_names_are_unambiguous:
  assumes "length t = 16" and "length t' = 16" and "ValidateChannelName c" and "ValidateChannelName c'"
  shows "(idempotency_preimage t c p = idempotency_preimage t' c' p' \<longleftrightarrow> t = t' \<and> c = c' \<and> p = p') \<and> ParseTenantID (TenantID_String t) = Some t"
proof
  have colon: "CHR '':'' \<notin> set c" if "ValidateChannelName c" for c
  proof -
    have "\<not> channel_char (CHR '':'')" by code_simp
    then show ?thesis using that by (auto simp: ValidateChannelName_def list_all_iff)
  qed
  have "c @ '':'' @ p = c' @ '':'' @ p' \<longleftrightarrow> c = c' \<and> p = p'"
  proof
    assume e: "c @ '':'' @ p = c' @ '':'' @ p'"
    have "takeWhile (\<lambda>x. x \<noteq> CHR '':'') (c @ '':'' @ q) = c" if "ValidateChannelName c" for c q
      using colon [OF that] by (subst takeWhile_append2) auto
    then have "c = c'" using e assms(3,4) by metis
    then show "c = c' \<and> p = p'" using e by simp
  qed simp
  then show "idempotency_preimage t c p = idempotency_preimage t' c' p' \<longleftrightarrow> t = t' \<and> c = c' \<and> p = p'"
    using assms(1,2) by (auto simp: idempotency_preimage_def)
  have dash: "\<not> lower_hex_char (CHR ''-'')" by code_simp
  have hex: "filter (\<lambda>x. x \<noteq> CHR ''-'') (EncodeToString bs) = EncodeToString bs" for bs
    using EncodeToString_chars [of bs] dash by (auto simp: filter_id_conv list_all_iff)
  have app: "EncodeToString (xs @ ys) = EncodeToString xs @ EncodeToString ys" for xs ys by (induction xs) auto
  have "filter (\<lambda>x. x \<noteq> CHR ''-'') (TenantID_String t) =
      EncodeToString (take 4 t @ take 2 (drop 4 t) @ take 2 (drop 6 t) @ take 2 (drop 8 t) @ take 6 (drop 10 t))"
    by (simp add: TenantID_String_def hex app)
  also have "take 4 t @ take 2 (drop 4 t) @ take 2 (drop 6 t) @ take 2 (drop 8 t) @ take 6 (drop 10 t) = t"
  proof -
    have split: "take m xs @ drop m xs = xs" "drop a (drop b xs) = drop (b + a) xs" for m a b and xs :: string by (simp_all add: add.commute)
    have "take 6 (drop 10 t) = drop 10 t" using assms(1) by simp
    then show ?thesis using split(1) [of 4 t] split(1) [of 2 "drop 4 t"] split(1) [of 2 "drop 6 t"] split(1) [of 2 "drop 8 t"]
      by (simp add: split(2))
  qed
  finally show "ParseTenantID (TenantID_String t) = Some t"
    using EncodeToString_chars [of t] assms(1) by (simp add: ParseTenantID_def)
qed

section \<open>A valid delivery\<close>

definition deliverable :: "(string \<Rightarrow> string) \<Rightarrow> webhook_Service \<Rightarrow> ChannelAdapter \<Rightarrow> webhook_Request \<Rightarrow> TenantID \<Rightarrow> time \<Rightarrow> webhook_db \<Rightarrow> bool" where
  "deliverable sha s a req t now db \<longleftrightarrow>
     ws_adapters s (wq_Channel req) = Some a \<and> wh_authentic a t (wq_Body req) (wq_Headers req) \<and>
     (case token_rows (wq_Channel req) (sha (wq_Token req)) db of
        [] \<Rightarrow> False
      | r # _ \<Rightarrow> wt_tenant_id r = t \<and> (case wt_revoked_at r of None \<Rightarrow> True | Some x \<Rightarrow> now < x)) \<and>
     association_ok db a t (wq_Channel req) (wq_Body req) \<and> fresh s a (wq_Headers req) (wq_Body req) now \<and>
     (case ad_ParseEvent a (wq_Body req) of Inl _ \<Rightarrow> False | Inr _ \<Rightarrow> True)"

lemma run_Lookup:
  assumes "quiet os" "token_rows c h db = r # rs" "case wt_revoked_at r of None \<Rightarrow> True | Some x \<Rightarrow> now < x"
  shows "run (token_Lookup c h now k) os n db = run (k (Inr (wt_tenant_id r))) os (Suc n) db"
  using assms by (auto simp: token_Lookup_def quiet_def split: option.splits)

lemma run_proceed:
  assumes "quiet os" "deliverable sha s a req t now db"
  shows "\<exists>m. n \<le> m \<and> run (proceedAuthenticated sha s a req t now) os n db = run (webhook_store sha s a req t now) os m db"
proof -
  obtain ts where "ad_ExtractTimestamp a (wq_Headers req) (wq_Body req) = Inr ts" "timestampInWindow s ts now"
    using assms(2) by (auto simp: deliverable_def fresh_def timestampInWindow_def)
  then have ts: "check_timestamp sha s a req t now = webhook_store sha s a req t now" by (simp add: check_timestamp_def)
  show ?thesis
  proof (cases "ad_BodyTenantAssociation a (wq_Body req)")
    case None
    then show ?thesis using ts by (auto simp: proceedAuthenticated_def)
  next
    case (Some x)
    then have "(t, wq_Channel req, x) \<in> set (channel_associations db)" using assms(2) by (auto simp: deliverable_def association_ok_def)
    then have "run (proceedAuthenticated sha s a req t now) os n db = run (webhook_store sha s a req t now) os (Suc n) db"
      using Some ts assms(1) by (simp add: proceedAuthenticated_def CheckAssociation_def quiet_def)
    then show ?thesis by (intro exI [of _ "Suc n"]) simp
  qed
qed

lemma run_to_store:
  assumes "quiet os" "deliverable sha s a req t (o_now (os n)) db"
  shows "\<exists>m > n. run (webhook_Handle sha s req) os n db = run (webhook_store sha s a req t (o_now (os n))) os m db"
proof -
  let ?now = "o_now (os n)"
  obtain r rs where r: "token_rows (wq_Channel req) (sha (wq_Token req)) db = r # rs" "wt_tenant_id r = t"
    "case wt_revoked_at r of None \<Rightarrow> True | Some x \<Rightarrow> ?now < x"
    using assms(2) by (auto simp: deliverable_def split: list.splits)
  have a: "ws_adapters s (wq_Channel req) = Some a" "wh_authentic a t (wq_Body req) (wq_Headers req)" using assms(2) by (simp_all add: deliverable_def)
  then have "run (webhook_Handle sha s req) os n db = run (proceedAuthenticated sha s a req t ?now) os (Suc (Suc n)) db"
    by (cases "ad_SecretScope a") (simp_all add: webhook_Handle_def wh_authentic_def run_Lookup [OF assms(1) r(1,3)] r(2))
  moreover obtain m where "Suc (Suc n) \<le> m" "run (proceedAuthenticated sha s a req t ?now) os (Suc (Suc n)) db =
      run (webhook_store sha s a req t ?now) os m db"
    using run_proceed [OF assms] by blast
  ultimately show ?thesis by (intro exI [of _ m]) simp
qed

text \<open>The row a delivery is stored as, and its key.\<close>

definition delivery_row :: "(string \<Rightarrow> string) \<Rightarrow> webhook_Request \<Rightarrow> TenantID \<Rightarrow> time \<Rightarrow> uuid \<Rightarrow> time option \<Rightarrow> RawEventRow" where
  "delivery_row sha req t now i p =
     \<lparr>re_ID = i, re_TenantID = t, re_Channel = wq_Channel req, re_IdempotencyKey = computeIdempotencyKey sha t (wq_Channel req) (wq_Body req),
      re_Payload = wq_Body req, re_Headers = wq_Headers req, re_ReceivedAt = now, re_PublishedAt = p\<rparr>"

definition delivery_of :: "(string \<Rightarrow> string) \<Rightarrow> webhook_Request \<Rightarrow> TenantID \<Rightarrow> delivery_key" where
  "delivery_of sha req t = (t, wq_Channel req, computeIdempotencyKey sha t (wq_Channel req) (wq_Body req))"

lemma insert_idempotency_claimed:
  "insert_idempotency t c key now db = (if wh_claimed (t, c, key) db then (False, db)
     else (True, db\<lparr>webhook_idempotency := webhook_idempotency db @ [\<lparr>wi_tenant_id = t, wi_channel = c, wi_key = key, wi_inserted_at = now\<rparr>]\<rparr>))"
  by (auto simp: insert_idempotency_def wh_claimed_def list_ex_iff)

lemma run_store_replay:
  assumes "quiet os" "wh_claimed (delivery_of sha req t) db"
  shows "run (webhook_store sha s a req t now) os n db = (finishAuth t OutcomeReplay None, Suc n, db)"
  using assms by (simp add: webhook_store_def Let_def CheckAndStore_def insert_idempotency_claimed delivery_of_def quiet_def)

text \<open>
  C38. A valid delivery is stored and marked published: a request that carries a valid signature, a live token, a phone number of its tenant,
  a fresh date and a payload that parses, and that was not seen before, is accepted by the wired service when a partition
  covers the moment; its event is appended and marked published, and its key is taken. The wired publisher answers success without sending
  anything, so the mark does not say that the event went out.
\<close>

theorem valid_delivery_is_stored:
  assumes "webhook_wiring hmac unmarshal w i f = Some s" and "quiet os" and "deliverable sha s a req t (o_now (os n)) db"
    and "\<not> wh_claimed (delivery_of sha req t) db" and "in_partition db (o_now (os n))"
    and "\<And>k r. r \<in> set (raw_events db) \<Longrightarrow> re_ID r \<noteq> o_ids (os k) 0"
  shows "\<exists>k p m db'. run (webhook_Handle sha s req) os n db = (finishAuth t OutcomeAccepted None, m, db') \<and>
     raw_events db' = raw_events db @ [delivery_row sha req t (o_now (os n)) (o_ids (os k) 0) (Some p)] \<and> wh_claimed (delivery_of sha req t) db'"
proof -
  obtain m where m: "run (webhook_Handle sha s req) os n db = run (webhook_store sha s a req t (o_now (os n))) os m db"
    using run_to_store [OF assms(2,3)] by blast
  have "ws_adapters s (wq_Channel req) = Some a" using assms(3) by (simp add: deliverable_def)
  then have pub: "ws_publisher s = noopPublisher" using wired_adapter [OF assms(1)] by blast
  obtain e where ev: "ad_ParseEvent a (wq_Body req) = Inr e" using assms(3) by (auto simp: deliverable_def split: sum.splits)
  have old: "map (\<lambda>r. if re_ID r = o_ids (os (Suc m)) 0 then r\<lparr>re_PublishedAt := Some p\<rparr> else r) (raw_events db) = raw_events db" for p
    using assms(6) by (simp add: map_idI)
  have no: "\<not> list_ex (\<lambda>r. re_ReceivedAt r = o_now (os n) \<and> re_ID r = o_ids (os (Suc m)) 0) (raw_events db)"
    using assms(6) by (auto simp: list_ex_iff)
  show ?thesis unfolding m using assms(2,4,5) ev pub old no
    by (intro exI [of _ "Suc m"]) (simp add: webhook_store_def Let_def CheckAndStore_def insert_idempotency_claimed delivery_of_def quiet_def raw_Insert_def insert_raw_def
      in_partition_def token_MarkUsed_def publish_async_def wh_Publish_def raw_MarkPublished_def delivery_row_def wh_claimed_def)
qed

text \<open>
  C39. A delivery that no partition covers is lost for good: the request is answered like any other, its event is not stored and its key is
  taken all the same, so every later delivery of that payload is dropped as a replay, even after the partition was created.
\<close>

theorem uncovered_delivery_is_lost:
  assumes "quiet os" and "deliverable sha s a req t (o_now (os 0)) db" and "\<not> wh_claimed (delivery_of sha req t) db"
    and "\<not> in_partition db (o_now (os 0))"
    and "prefix (webhook_idempotency (store_after (webhook_Handle sha s req) os db)) (webhook_idempotency db2)"
    and "quiet os2" and "deliverable sha s a req t (o_now (os2 n)) db2"
  shows "raw_events (store_after (webhook_Handle sha s req) os db) = raw_events db \<and>
     (\<exists>m. run (webhook_Handle sha s req) os2 n db2 = (finishAuth t OutcomeReplay None, m, db2))"
proof -
  obtain m where m: "run (webhook_Handle sha s req) os 0 db = run (webhook_store sha s a req t (o_now (os 0))) os m db"
    using run_to_store [OF assms(1,2)] by blast
  obtain e where ev: "ad_ParseEvent a (wq_Body req) = Inr e" using assms(2) by (auto simp: deliverable_def split: sum.splits)
  define row where "row = \<lparr>wi_tenant_id = t, wi_channel = wq_Channel req, wi_key = computeIdempotencyKey sha t (wq_Channel req) (wq_Body req),
      wi_inserted_at = o_now (os 0)\<rparr>"
  have db1: "store_after (webhook_Handle sha s req) os db = db\<lparr>webhook_idempotency := webhook_idempotency db @ [row]\<rparr>"
    using assms(1,3,4) ev by (simp add: store_after_def m webhook_store_def Let_def CheckAndStore_def insert_idempotency_claimed delivery_of_def quiet_def
      raw_Insert_def insert_raw_def in_partition_def row_def)
  then have "row \<in> set (webhook_idempotency db2)" using set_mono_prefix [OF assms(5)] by auto
  then have taken: "wh_claimed (delivery_of sha req t) db2" by (auto simp: wh_claimed_def delivery_of_def row_def intro!: bexI [of _ row])
  obtain m2 where "run (webhook_Handle sha s req) os2 n db2 = run (webhook_store sha s a req t (o_now (os2 n))) os2 m2 db2"
    using run_to_store [OF assms(6,7)] by blast
  then show ?thesis using run_store_replay [OF assms(6) taken] db1 by simp
qed

text \<open>No call makes a partition: what is stored lies in the partitions there were at the start.\<close>

lemma stored_within_partitions:
  assumes "webhook_reach sha s db0 (db, pool)" "wh_inv sha s db0" "\<And>K. wh_stored K db0 \<le> of_bool (wh_claimed K db0)" "r \<in> set (raw_events db)"
  shows "in_partition db0 (re_ReceivedAt r)"
proof -
  have "wh_inv sha s db" "wh_evolves db0 db" using webhook_reach_keeps [OF assms(1-3)] by blast+
  then show ?thesis using assms(4) by (auto simp: wh_inv_def wh_evolves_def in_partition_def)
qed

section \<open>An example\<close>

definition wh_env :: "nat \<Rightarrow> call_env" where
  "wh_env n = \<lparr>o_fault = NoFault, o_now = 1700000000 * 1000000000 + int n, o_ids = (\<lambda>_. 42)\<rparr>"

definition payload_ex :: metaPayload where
  "payload_ex = [\<lparr>me_ID = ''1'', me_Time = 1700000000, me_Changes = [''p'']\<rparr>]"

abbreviation hmac_ex :: "string \<Rightarrow> string \<Rightarrow> string" where
  "hmac_ex \<equiv> \<lambda>k b. b"

abbreviation unmarshal_ex :: "string \<Rightarrow> metaPayload option" where
  "unmarshal_ex \<equiv> \<lambda>b. if b = ''m'' then Some payload_ex else None"

abbreviation tenant_ex :: TenantID where
  "tenant_ex \<equiv> ''0123456789abcdef''"

definition adapter_ex :: ChannelAdapter where
  "adapter_ex = \<lparr>ad_Name = ''whatsapp'', ad_SecretScope = SecretScopeApp, ad_VerifyApp = meta_VerifyApp hmac_ex ''k'',
     ad_VerifyTenant = (\<lambda>_ _ _. Some (Sentinel wh_ErrUnsupportedScope)), ad_ExtractTimestamp = meta_ExtractTimestamp unmarshal_ex,
     ad_ParseEvent = meta_ParseEvent unmarshal_ex ''whatsapp'', ad_BodyTenantAssociation = meta_BodyTenantAssociation unmarshal_ex\<rparr>"

definition service_ex :: webhook_Service where
  "service_ex = \<lparr>ws_adapters = [''whatsapp'' \<mapsto> adapter_ex], ws_publisher = noopPublisher, ws_pastWindow = 5 * 60 * 1000000000, ws_futureSkew = 60 * 1000000000\<rparr>"

definition delivery_ex :: webhook_Request where
  "delivery_ex = \<lparr>wq_Channel = ''whatsapp'', wq_Token = ''tok'', wq_Body = ''m'', wq_Headers = [(''x-hub-signature-256'', [''sha256=6d''])]\<rparr>"

definition wh_db_ex :: "(time \<times> time) list \<Rightarrow> webhook_db" where
  "wh_db_ex ps = \<lparr>webhook_tokens = [\<lparr>wt_tenant_id = tenant_ex, wt_channel = ''whatsapp'', wt_token_hash = ''tok'', wt_created_at = 5, wt_revoked_at = None,
      wt_last_used_at = None\<rparr>], webhook_idempotency = [], raw_events = [], raw_partitions = ps, channel_associations = [(tenant_ex, ''whatsapp'', ''p'')], wh_broker = []\<rparr>"

lemma webhook_strings_ex:
  "meta_VerifyApp hmac_ex ''k'' ''m'' [(''x-hub-signature-256'', [''sha256=6d''])] = None" "ValidateChannelName ''whatsapp''"
  by code_simp+

lemma wiring_ex: "webhook_wiring hmac_ex unmarshal_ex ''k'' '''' '''' = Some service_ex"
  by (simp add: webhook_wiring_def buildMetaAdapters_def meta_New_def webhook_strings_ex webhook_NewService_def registerAdapter_def service_ex_def adapter_ex_def
    ValidateSecretScope_def)

lemma quiet_wh_env: "quiet wh_env"
  by (simp add: quiet_def wh_env_def)

lemma deliverable_ex:
  assumes "webhook_tokens db = webhook_tokens (wh_db_ex ps)" "channel_associations db = channel_associations (wh_db_ex ps)"
  shows "deliverable (\<lambda>x. x) service_ex adapter_ex delivery_ex tenant_ex (o_now (wh_env 0)) db"
  using assms by (simp add: deliverable_def service_ex_def delivery_ex_def wh_authentic_def adapter_ex_def webhook_strings_ex token_rows_def wh_db_ex_def
    association_ok_def meta_BodyTenantAssociation_def payload_ex_def fresh_def meta_ExtractTimestamp_def wh_env_def meta_ParseEvent_def)

lemma wh_init_ex: "wh_inv sha s (wh_db_ex ps)" "wh_stored K (wh_db_ex ps) \<le> of_bool (wh_claimed K (wh_db_ex ps))" "\<not> wh_claimed K (wh_db_ex ps)"
  by (simp_all add: wh_inv_def wh_db_ex_def wh_stored_def wh_claimed_def)

theorem valid_delivery_is_stored_witness:
  "\<exists>k p m db'. run (webhook_Handle (\<lambda>x. x) service_ex delivery_ex) wh_env 0 (wh_db_ex [(0, 1800000000 * 1000000000)]) = (finishAuth tenant_ex OutcomeAccepted None, m, db') \<and>
     raw_events db' = raw_events (wh_db_ex [(0, 1800000000 * 1000000000)]) @
       [delivery_row (\<lambda>x. x) delivery_ex tenant_ex (o_now (wh_env 0)) (o_ids (wh_env k) 0) (Some p)] \<and> wh_claimed (delivery_of (\<lambda>x. x) delivery_ex tenant_ex) db'"
  by (rule valid_delivery_is_stored [OF wiring_ex quiet_wh_env deliverable_ex [OF refl refl] wh_init_ex(3)])
    (simp_all add: in_partition_def wh_db_ex_def wh_env_def)

theorem uncovered_delivery_is_lost_witness:
  "raw_events (store_after (webhook_Handle (\<lambda>x. x) service_ex delivery_ex) wh_env (wh_db_ex [])) = raw_events (wh_db_ex []) \<and>
     (\<exists>m. run (webhook_Handle (\<lambda>x. x) service_ex delivery_ex) wh_env 0
        ((wh_db_ex [(0, 1800000000 * 1000000000)])\<lparr>webhook_idempotency := webhook_idempotency (store_after (webhook_Handle (\<lambda>x. x) service_ex delivery_ex) wh_env (wh_db_ex []))\<rparr>) =
      (finishAuth tenant_ex OutcomeReplay None, m,
        (wh_db_ex [(0, 1800000000 * 1000000000)])\<lparr>webhook_idempotency := webhook_idempotency (store_after (webhook_Handle (\<lambda>x. x) service_ex delivery_ex) wh_env (wh_db_ex []))\<rparr>))"
  by (rule uncovered_delivery_is_lost [OF quiet_wh_env deliverable_ex [OF refl refl] wh_init_ex(3) _ _ quiet_wh_env deliverable_ex])
    (simp_all add: in_partition_def wh_db_ex_def)

definition wh_stored_ex :: webhook_db where
  "wh_stored_ex = store_after (webhook_Handle (\<lambda>x. x) service_ex delivery_ex) wh_env (wh_db_ex [(0, 1800000000 * 1000000000)])"

lemma wh_stored_reach: "\<exists>pool. webhook_reach (\<lambda>x. x) service_ex (wh_db_ex [(0, 1800000000 * 1000000000)]) (wh_stored_ex, pool)"
proof -
  let ?p = "webhook_Handle (\<lambda>x. x) service_ex delivery_ex" and ?db = "wh_db_ex [(0, 1800000000 * 1000000000)]"
  obtain a n s' where "run ?p wh_env 0 ?db = (a, n, s')" by (cases "run ?p wh_env 0 ?db")
  then have "run (bind_prog ?p (\<lambda>_. Ret ())) wh_env 0 ?db = ((), n, wh_stored_ex)" by (simp add: wh_stored_ex_def store_after_def)
  then show ?thesis by (rule reach_by_call [where start = "webhook_call (\<lambda>x. x) service_ex", OF call_handle])
qed

definition raw_row_ex :: RawEventRow where
  "raw_row_ex = delivery_row (\<lambda>x. x) delivery_ex tenant_ex (o_now (wh_env 0)) 42 (Some (o_now (wh_env 6)))"

lemma wh_stored_ex_row: "raw_events wh_stored_ex = [raw_row_ex]"
  by code_simp

theorem stored_events_are_authentic_witness:
  "raw_events wh_stored_ex = [raw_row_ex] \<and> (\<exists>secret sig phone token ts. secret \<in> {''k'', '''', ''''} \<and> secret \<noteq> '''' \<and> signatureHeader (re_Headers raw_row_ex) = Some sig \<and>
     DecodeString sig = Some (hmac_ex secret (re_Payload raw_row_ex)) \<and>
     meta_BodyTenantAssociation unmarshal_ex (re_Payload raw_row_ex) = Some phone \<and> (re_TenantID raw_row_ex, re_Channel raw_row_ex, phone) \<in> set (channel_associations wh_stored_ex) \<and>
     token_admits wh_stored_ex (re_TenantID raw_row_ex) (re_Channel raw_row_ex) ((\<lambda>x. x) token) (re_ReceivedAt raw_row_ex) \<and>
     meta_ExtractTimestamp unmarshal_ex (re_Headers raw_row_ex) (re_Payload raw_row_ex) = Inr ts \<and>
     re_ReceivedAt raw_row_ex - 300 * 1000000000 \<le> ts \<and> ts \<le> re_ReceivedAt raw_row_ex + 60 * 1000000000)"
proof -
  obtain pool where r: "webhook_reach (\<lambda>x. x) service_ex (wh_db_ex [(0, 1800000000 * 1000000000)]) (wh_stored_ex, pool)" using wh_stored_reach by blast
  have "raw_row_ex \<in> set (raw_events wh_stored_ex)" by (simp add: wh_stored_ex_row)
  from stored_events_are_authentic [OF wiring_ex wh_init_ex(1,2) r this] wh_stored_ex_row show ?thesis by (intro conjI)
qed

theorem deliveries_are_stored_once_witness:
  "length (filter (\<lambda>r. re_TenantID r = tenant_ex \<and> re_Channel r = ''whatsapp'' \<and> re_Payload r = ''m'') (raw_events wh_stored_ex)) = 1 \<and>
   length (filter (\<lambda>r. re_TenantID r = tenant_ex \<and> re_Channel r = ''whatsapp'' \<and> re_Payload r = ''m'') (raw_events wh_stored_ex))
     \<le> of_bool (wh_claimed (tenant_ex, ''whatsapp'', computeIdempotencyKey (\<lambda>x. x) tenant_ex ''whatsapp'' ''m'') wh_stored_ex)"
proof -
  obtain pool where r: "webhook_reach (\<lambda>x. x) service_ex (wh_db_ex [(0, 1800000000 * 1000000000)]) (wh_stored_ex, pool)" using wh_stored_reach by blast
  have "length (filter (\<lambda>r. re_TenantID r = tenant_ex \<and> re_Channel r = ''whatsapp'' \<and> re_Payload r = ''m'') (raw_events wh_stored_ex)) = 1"
    by (simp add: wh_stored_ex_row raw_row_ex_def delivery_row_def delivery_ex_def)
  then show ?thesis using deliveries_are_stored_once [OF wh_init_ex(1,2) r, of tenant_ex "''whatsapp''" "''m''"] by blast
qed

theorem webhook_names_are_unambiguous_witness:
  "(idempotency_preimage tenant_ex ''whatsapp'' '':m'' = idempotency_preimage tenant_ex ''facebook'' ''m'' \<longleftrightarrow>
      tenant_ex = tenant_ex \<and> ''whatsapp'' = ''facebook'' \<and> '':m'' = ''m'') \<and> ParseTenantID (TenantID_String tenant_ex) = Some tenant_ex"
proof (rule webhook_names_are_unambiguous)
  show "ValidateChannelName ''whatsapp''" "ValidateChannelName ''facebook''" by code_simp+
qed simp_all

end
