(* ===== verification/Spec2Isabelle.thy ===== *)
theory Spec2Isabelle
  imports TokenEconomy BillingProps DunningProps DunningGate PixProps GrantIssuerProps LoginProps AiAssistProps FunnelProps InboxProps DomainFlows WebhookProps
begin

text \<open>
  A verification development of the multi-tenant CRM backend (Go, under \<^verbatim>\<open>src/\<close>).

  \<^bold>\<open>The program.\<close> One Go process serves many tenants over one Postgres database and one Redis; workers run
  beside it. The parts modelled here are those that decide about money, access and the messages of customers:

  \<^item> the token economy: \<^verbatim>\<open>internal/wallet\<close> (aggregate, ledger, master grants), its use cases in
    \<^verbatim>\<open>internal/wallet/usecase\<close>, its store in \<^verbatim>\<open>internal/adapter/db/postgres/wallet\<close> and the quota
    allocator in \<^verbatim>\<open>internal/worker/wallet\<close>;
  \<^item> billing: \<^verbatim>\<open>internal/billing\<close> (subscriptions, invoices), its store and the renewer worker, which feeds
    the allocator with renewal events;
  \<^item> dunning: \<^verbatim>\<open>internal/billing/dunning\<close>, its store, the worker that escalates unpaid subscriptions, and the
    HTTP gate \<^verbatim>\<open>internal/http/middleware/dunning\<close> that refuses requests of suspended tenants;
  \<^item> PIX payments: \<^verbatim>\<open>internal/billing/pix\<close> with its store and the webhook reconciler;
  \<^item> master grants: issuing under caps and the four-eyes requests of \<^verbatim>\<open>internal/web/master\<close> and
    \<^verbatim>\<open>internal/adapter/db/postgres/master\<close>, applied by \<^verbatim>\<open>apply_master_grant.go\<close> to wallets and
    subscriptions;
  \<^item> identity: \<^verbatim>\<open>internal/iam\<close> (login, lockout, sessions, authorizer), its stores, the sliding-window limiter of
    \<^verbatim>\<open>internal/adapter/ratelimit/redis\<close> and the \<^verbatim>\<open>Auth\<close> and \<^verbatim>\<open>Activity\<close> middlewares;
  \<^item> AI summaries: \<^verbatim>\<open>internal/aipolicy\<close> (policies, consent, audit) and \<^verbatim>\<open>internal/aiassist\<close>, which asks them for
    permission and pays the language model from the wallet;
  \<^item> the sales funnel: \<^verbatim>\<open>internal/funnel\<close> (stages and transitions), \<^verbatim>\<open>internal/funnel/rules\<close>,
    \<^verbatim>\<open>internal/funnel/engine\<close> and the consumer \<^verbatim>\<open>internal/worker/funnel_engine\<close> that moves conversations by rules;
  \<^item> the inbox: \<^verbatim>\<open>internal/inbox\<close> (conversations, messages, the use cases that receive, send, reconcile and reset them) over
    \<^verbatim>\<open>internal/adapter/db/postgres/inbox\<close>, which resolves senders through \<^verbatim>\<open>internal/contacts\<close> and reads the
    click markers of \<^verbatim>\<open>internal/campaigns/marker.go\<close>;
  \<^item> slug reservations: \<^verbatim>\<open>internal/slugreservation\<close> with its stores, HTTP guards, master override and redirects, as wired by
    \<^verbatim>\<open>cmd/server/slugreservation_wire.go\<close>;
  \<^item> custom domains: \<^verbatim>\<open>internal/customdomain\<close> (validation, enrollment gate, circuit breaker, management, the certificate question
    \<^verbatim>\<open>tls_ask\<close>), its stores and the worker \<^verbatim>\<open>internal/worker/customdomain_verifier\<close>; deleting a domain reserves a slug;
  \<^item> the webhook intake: \<^verbatim>\<open>internal/webhook\<close>, the Meta adapter \<^verbatim>\<open>internal/adapter/channel/meta\<close>, the stores of
    \<^verbatim>\<open>internal/adapter/store/postgres\<close>, the HTTP handler and the reconciler \<^verbatim>\<open>internal/worker/webhook_reconciler.go\<close>.

  \<^bold>\<open>How code is modelled.\<close> A struct is a record, an enumeration a datatype with a constructor for unknown
  values where the Go type is a string, an error a value of \<open>goerr\<close> (a sentinel, a wrapped error or an opaque one, read by
  \<open>errors_is\<close>), a table a list of rows in the record \<open>crm_db\<close>, \<open>pix_db\<close>, \<open>master_db\<close>,
  \<open>iam_db\<close>, \<open>ai_db\<close> (which holds a \<open>crm_db\<close>), \<open>funnel_db\<close>, \<open>inbox_db\<close>, which extends
  \<open>contacts_db\<close>, \<open>slug_db\<close>, \<open>webhook_db\<close>, or
  \<open>domain_db\<close>, which holds a \<open>slug_db\<close>. \<open>int64\<close> arithmetic is \<open>wrap64\<close> on \<open>int\<close>; a \<^verbatim>\<open>bigint\<close> column that leaves its range is an error
  of the statement. A time is an \<open>int\<close> of nanoseconds. A database transaction is one atomic function on the store;
  a Go function that uses several is a \<open>prog\<close> (theory Interleaving), a tree of atomic actions. Each action
  gets a \<open>call_env\<close>: the clock, the identifiers drawn, and whether this call fails on the infrastructure. So a
  statement about all environments covers all clocks and faults, and \<open>interleaved\<close> runs cover every
  schedule of the concurrent calls.

  \<^bold>\<open>Theories.\<close>

  \<^item> \<open>CRM_Prelude\<close>: errors, 64-bit arithmetic, time, lists. \<open>Interleaving\<close>: programs, their
    solo and interleaved runs, and the rule that lifts an invariant of the atomic steps to all runs.
    \<open>KeyedTable\<close>: the locale of tables with a key, interpreted by the tables of dunning and PIX.
    \<open>GoStrings\<close>: the string functions the gate and the forms use.
  \<^item> \<open>Wallet\<close> (\<^verbatim>\<open>wallet.go\<close>, \<^verbatim>\<open>ledger.go\<close>, \<^verbatim>\<open>master_grant.go\<close>, \<^verbatim>\<open>reconciler.go\<close>), \<open>WalletStore\<close> (the
    store), \<open>WalletService\<close> (the use cases and the allocator), \<open>GrantApplier\<close>; \<open>WalletBooks\<close> and
    \<open>WalletSafety\<close> hold the invariant of the books and the step lemmas, \<open>TokenEconomy\<close> the theorems over
    all interleavings (the books balance, at most one settlement, refinement of the abstract account,
    append-only history), \<open>WalletRuns\<close> the results of the single use cases on every branch,
    \<open>GrantProps\<close> those of the quota, courtesy and grant paths.
  \<^item> \<open>Billing\<close>, \<open>BillingStore\<close>, \<open>BillingProps\<close>: the aggregates, the store and the renewer; the invariant
    of the tables, one invoice per period, the bounded publish backoff.
  \<^item> \<open>Dunning\<close> (policy and aggregate), \<open>DunningStore\<close> (store and worker), \<open>DunningProps\<close> (what a tick does),
    \<open>DunningGate\<close> (the middleware and its answers).
  \<^item> \<open>Pix\<close> (charges), \<open>PixStore\<close> (tables and reconciler), \<open>PixProps\<close> (deliveries in any order and number).
  \<^item> \<open>GrantIssuer\<close> (caps, form, issuing port, request store), \<open>GrantIssuerProps\<close>.
  \<^item> \<open>Iam\<close> (roles, sessions, time limits, limiter policies), \<open>Authz\<close> (the permission matrix and \<open>Can\<close>),
    \<open>RateLimiter\<close> (the Lua script against a reference limiter), \<open>IamStore\<close> (the tables), \<open>Login\<close> (the login
    service and the middlewares), \<open>LoginProps\<close>.
  \<^item> \<open>AiPolicy\<close> (cascade, consent ledger, audit decorator), \<open>AiPolicyProps\<close>; \<open>Embedding\<close> (running programs of one store
    inside a larger one), \<open>AiAssist\<close> (the summarize use case over the wallet use cases), \<open>AiAssistProps\<close> (permission, cost, the
    books under interleaving).
  \<^item> \<open>Funnel\<close> (service, rules, engine, consumer and stores), \<open>FunnelProps\<close> (the cascade against the order by scope and age,
    moves and the transition ledger, redelivery, the wire format).
  \<^item> \<open>ClickMarker\<close> (the signed marker and its round trip), \<open>Contacts\<close> (contacts, identities and their store), \<open>Inbox\<close> (domain, store
    and use cases of the inbox). \<open>ClaimOnce\<close> is the locale of programs that claim a key before they act, proved once for every
    interleaving; \<open>InboxSafety\<close> interprets it and proves the step lemmas of every use case; \<open>InboxProps\<close> holds the theorems: one
    message per delivery under every schedule of the calls but the reset of training conversations, tenants apart and messages kept under every
    schedule of all calls, callbacks that never go back, what a redelivery changes.
  \<^item> \<open>StoreSafety\<close>: the locale of stores with an invariant and a preorder of evolution, with the rules for every kind of step; the funnel, the
    slugs and the domains interpret it.
  \<^item> \<open>SlugReservation\<close> (domain, stores, grants, service, handlers), \<open>SlugProps\<close> (a released slug stays locked under every schedule, what an
    override frees, what the partial index forbids, where redirects lead).
  \<^item> \<open>CustomDomain\<close> (hosts, addresses as words, the validator), \<open>DomainManagement\<close> (store, gate, use cases, certificate question, worker),
    \<open>DomainProps\<close> (the invariant and step lemma of every call; certificates only for proven hosts), \<open>DomainFlows\<close> (verification, the
    wizard's instructions, tenants apart, deletion, the block list, the worker's attempts and delays).
  \<^item> \<open>Webhook\<close> (domain, adapter, stores, service, handler, reconciler), \<open>WebhookProps\<close> (the intake interprets the locale of \<open>ClaimOnce\<close>: only
    authentic payloads are stored, each once; a valid delivery is stored; what a missing partition loses; the hashed text is unambiguous).

  \<^bold>\<open>Bounds and assumptions.\<close> The retry loops of the use cases run \<open>maxAttempts\<close> times as in the code, so no fuel is
  needed; the publish backoff and the batch loops recurse on lists or on the number of attempts. The argon2id
  verification, the digest of the failure counter, the lower-casing of addresses, the text of identifiers and
  the ULID generator are arguments of the definitions, with the documented behaviour as hypotheses where a
  theorem needs one (for instance that the identifier text is injective); so are the language model, the anonymizer, JSON coding and
  the regular expressions of the rules. The inbox takes \<^verbatim>\<open>strings.ToLower\<close> as an argument, with the hypothesis \<open>canonical\<close> that
  normalising an identity twice is normalising it once. DNS is an argument of the custom domains, what a lookup finds at an instant, and so
  is the digest of the master token. The digests and the JSON decoder of the webhook intake are arguments too; the database function that deletes
  old idempotency rows, which no Go code calls, is left out. The worker recurses on its list of domains and its delay on the number of attempts. The limiter keeps no expiry of whole keys: the script
  trims what the expiry would remove. JSON numbers go through \<open>float64_of_int\<close>, which rounds as the Go decoder does.

  \<^bold>\<open>What the proofs found.\<close> Some theorems state behaviour that a comment excludes, or that loses work:
  \<open>free_period_extended_twice\<close> and \<open>free_period_overwrites_renewal\<close> (concurrent appliers),
  \<open>unpublished_renewal_stays\<close>, \<open>settled_batch_starves_the_rest\<close>, \<open>stale_tick_cancels_a_paid_subscription\<close>,
  \<open>expired_override_cancels_at_once\<close>, \<open>outbound_read_reopens\<close>, \<open>failed_save_strands_the_payment\<close>,
  \<open>approved_tokens_never_apply\<close>, \<open>free_periods_never_override\<close>, \<open>failures_lock_another_tenant\<close>,
  \<open>lider_is_allowed_nothing\<close>, \<open>consent_switch_is_not_audited\<close>, \<open>failed_completion_is_free\<close> (its second half),
  \<open>engine_needs_its_user\<close>, \<open>failed_publish_is_never_repeated\<close>, \<open>failed_delivery_loses_the_message\<close>,
  \<open>default_lead_is_invisible\<close>, \<open>concurrent_callbacks_regress\<close>, \<open>early_callback_is_lost\<close>, \<open>expired_lock_is_never_renewed\<close>,
  \<open>wired_override_never_releases\<close>, \<open>failed_audit_still_frees\<close>, \<open>swapped_slugs_redirect_for_ever\<close>,
  \<open>wizard_instructions_never_verify\<close>, \<open>deleting_a_domain_locks_its_label\<close>, \<open>failed_release_keeps_the_delete\<close>, \<open>verifier_patience\<close>,
  \<open>uncovered_delivery_is_lost\<close>, \<open>guesses_are_free_without_limiter\<close>, \<open>unknown_actor_leaves_no_trail\<close> and \<open>empty_tenant_counts_as_own\<close>.
  Others state what the code does where a design document under \<^verbatim>\<open>docs/adr\<close> says otherwise: \<open>rejections_are_uniform\<close> (a locked account is
  not cheap, an undecodable hash is; ADR 0073), \<open>issued_grants_respect_caps\<close> (the cap is per tenant, not per master; ADR 0088 and 0098),
  \<open>most_specific_rule_wins\<close> (no position column; ADR 0099), \<open>published_token_verifies\<close> (what the DNSSEC flag and the log reference mean;
  ADR 0061) and \<open>valid_delivery_is_stored\<close> (events are marked published without being sent; ADR 0075).

  \<^bold>\<open>What runs alone.\<close> The theorems over all interleavings say so; the others are about one run. For two of them the difference matters,
  because the code checks and acts in separate statements: \<open>guesses_are_bounded\<close> counts logins one after the other, and
  \<open>issued_grants_respect_caps\<close> a call of \<^verbatim>\<open>IssueGrant\<close> alone; overlapping calls can exceed both bounds.

  \<^bold>\<open>Not modelled.\<close> HTML pages, templates, route tables and process wiring (no state of their own); the
  transports to payment, messaging, mail, storage and language-model services; audit decorators,
  metrics and logs, which do not influence results; the linters and scripts. Row-level security appears as the tenant
  condition of each statement.

  \<^bold>\<open>Left to do.\<close> The second factor and password policy of \<^verbatim>\<open>internal/iam\<close>,
  the merging of contact identities and the read models of the inbox.
\<close>

end
